(* ===== verification/Prelude.thy ===== *)
theory Prelude
  imports Main "HOL-Library.Word" "HOL-Library.Char_ord" "HOL-Library.List_Lexorder"
    "HOL-Library.Product_Lexorder"
begin

text \<open>
  The vocabulary that every component of the development shares: Rust's unsigned machine
  integers with their checked and saturating operations, the crate's \<open>Error\<close> and
  \<open>Result\<close>, the text predicates of the code (\<open>char::is_control\<close>,
  \<open>char::is_whitespace\<close>, \<open>valid_digest\<close>).  The ordered containers are in theory
  Containers.  A Rust \<open>String\<close> is the list of
  its UTF-8 bytes, so \<open>length\<close> is \<open>str::len\<close> and the order on strings is the byte-wise
  lexicographic one that Rust uses.
\<close>

named_theorems wf_intros \<open>introduction rules for the well-formedness invariants\<close>
named_theorems run_simps \<open>unfolding of the operations of a component\<close>
named_theorems json_defs \<open>definitions of the canonical encodings\<close>

section \<open>Machine integers\<close>

type_synonym u8 = "8 word"
type_synonym u32 = "32 word"
type_synonym u64 = "64 word"

definition u64_max :: u64 where
  "u64_max = 18446744073709551615"

definition saturating_add :: "'a::len word \<Rightarrow> 'a word \<Rightarrow> 'a word" where
  "saturating_add a b = (if unat a + unat b < 2 ^ LENGTH('a) then a + b else - 1)"

definition checked_add :: "'a::len word \<Rightarrow> 'a word \<Rightarrow> 'a word option" where
  "checked_add a b = (if unat a + unat b < 2 ^ LENGTH('a) then Some (a + b) else None)"

lemma unat_add_no_overflow:
  fixes a b :: "'a::len word"
  assumes "unat a + unat b < 2 ^ LENGTH('a)"
  shows "unat (a + b) = unat a + unat b"
  using assms by (simp add: unat_word_ariths)

lemma unat_saturating_add:
  fixes a b :: "'a::len word"
  shows "unat (saturating_add a b) = min (unat a + unat b) (2 ^ LENGTH('a) - 1)"
proof (cases "unat a + unat b < 2 ^ LENGTH('a)")
  case True
  then show ?thesis by (simp add: saturating_add_def unat_add_no_overflow)
next
  case False
  then show ?thesis by (simp add: saturating_add_def unsigned_minus_1_eq_mask mask_eq_exp_minus_1)
qed

lemma checked_add_eq_Some:
  fixes a b c :: "'a::len word"
  shows "checked_add a b = Some c \<longleftrightarrow> unat a + unat b < 2 ^ LENGTH('a) \<and> unat c = unat a + unat b"
proof
  assume "checked_add a b = Some c"
  then show "unat a + unat b < 2 ^ LENGTH('a) \<and> unat c = unat a + unat b"
    by (auto simp: checked_add_def unat_add_no_overflow split: if_splits)
next
  assume "unat a + unat b < 2 ^ LENGTH('a) \<and> unat c = unat a + unat b"
  then show "checked_add a b = Some c"
    by (simp add: checked_add_def unat_add_no_overflow word_unat_eq_iff)
qed

lemma checked_add_eq_None:
  fixes a b :: "'a::len word"
  shows "checked_add a b = None \<longleftrightarrow> 2 ^ LENGTH('a) \<le> unat a + unat b"
  by (auto simp: checked_add_def)

lemma unat_of_nat_u64: "n < 2 ^ 64 \<Longrightarrow> unat (of_nat n :: u64) = n"
  by (simp add: unat_of_nat take_bit_nat_eq_self)

lemma of_nat_u64_inject:
  "m < 2 ^ 64 \<Longrightarrow> n < 2 ^ 64 \<Longrightarrow> (of_nat m :: u64) = of_nat n \<longleftrightarrow> m = n"
  by (metis unat_of_nat_u64)

lemma of_nat_eq_u64_max: "n < 2 ^ 64 \<Longrightarrow> (of_nat n :: u64) = u64_max \<longleftrightarrow> n = 2 ^ 64 - 1"
  using of_nat_u64_inject [of n "2 ^ 64 - 1"] by (simp add: u64_max_def)

section \<open>Errors and results\<close>

text \<open>
  \<open>crate::Error\<close>: the messages are kept.  \<open>Err_Persistence\<close> carries the text of the
  \<open>io::Error\<close>, \<open>Err_Serialization\<close> that of the \<open>serde_json::Error\<close>.
\<close>

datatype error =
    Err_Invalid string
  | Err_Rejected string
  | Err_Quarantined string
  | Err_Journal string
  | Err_Persistence string
  | Err_Serialization string

type_synonym 'a result = "error + 'a"

text \<open>
  The \<open>?\<close> operator: on a plain result, and on the result of an operation that takes
  \<open>&mut self\<close>, which is paired with the state the operation leaves behind.
\<close>

definition try_r :: "'e + 'a \<Rightarrow> ('a \<Rightarrow> 'e + 'b) \<Rightarrow> 'e + 'b" where
  "try_r r f = (case r of Inl e \<Rightarrow> Inl e | Inr x \<Rightarrow> f x)"

definition try_s :: "('e + 'a) \<times> 's \<Rightarrow> ('a \<Rightarrow> 's \<Rightarrow> ('e + 'b) \<times> 's) \<Rightarrow> ('e + 'b) \<times> 's" where
  "try_s rs f = (case rs of (Inl e, s) \<Rightarrow> (Inl e, s) | (Inr x, s) \<Rightarrow> f x s)"

definition is_ok :: "'e + 'a \<Rightarrow> bool" where
  "is_ok r = (case r of Inl _ \<Rightarrow> False | Inr _ \<Rightarrow> True)"

definition map_err :: "('e \<Rightarrow> 'f) \<Rightarrow> 'e + 'a \<Rightarrow> 'f + 'a" where
  "map_err f r = (case r of Inl e \<Rightarrow> Inl (f e) | Inr x \<Rightarrow> Inr x)"

definition ok_or :: "'e \<Rightarrow> 'a option \<Rightarrow> 'e + 'a" where
  "ok_or e x = (case x of None \<Rightarrow> Inl e | Some v \<Rightarrow> Inr v)"

lemma try_r_simps [simp]: "try_r (Inl e) f = Inl e" "try_r (Inr x) f = f x"
  by (simp_all add: try_r_def)

lemma try_s_simps [simp]: "try_s (Inl e, s) f = (Inl e, s)" "try_s (Inr x, s) f = f x s"
  by (simp_all add: try_s_def)

lemma try_r_eq_Inr: "try_r r f = Inr y \<longleftrightarrow> (\<exists>x. r = Inr x \<and> f x = Inr y)"
  by (cases r) simp_all

lemma try_r_eq_Inl: "try_r r f = Inl e \<longleftrightarrow> r = Inl e \<or> (\<exists>x. r = Inr x \<and> f x = Inl e)"
  by (cases r) auto

lemma is_ok_simps [simp]: "\<not> is_ok (Inl e)" "is_ok (Inr x)"
  by (simp_all add: is_ok_def)

lemma is_ok_iff: "is_ok r \<longleftrightarrow> (\<exists>x. r = Inr x)"
  by (cases r) simp_all

lemma is_ok_unit: "is_ok (r :: 'e + unit) \<longleftrightarrow> r = Inr ()"
  by (cases r) simp_all

lemma map_err_simps [simp]: "map_err f (Inl e) = Inl (f e)" "map_err f (Inr x) = Inr x"
  by (simp_all add: map_err_def)

lemma map_err_eq_Inr [simp]: "map_err f r = Inr x \<longleftrightarrow> r = Inr x"
  by (cases r) simp_all

lemma is_ok_map_err [simp]: "is_ok (map_err f r) = is_ok r"
  by (cases r) simp_all

lemma ok_or_simps [simp]: "ok_or e None = Inl e" "ok_or e (Some v) = Inr v"
  by (simp_all add: ok_or_def)

lemma ok_or_eq_Inr [simp]: "ok_or e x = Inr v \<longleftrightarrow> x = Some v"
  by (cases x) simp_all

lemma guard_ok: "(if P then Inl e else Inr ()) = Inr () \<longleftrightarrow> \<not> P" "(if P then Inl e else r) = Inr x \<longleftrightarrow> \<not> P \<and> r = Inr x"
  by simp_all

text \<open>A loop that runs a check on every element and stops at the first error.\<close>

fun check_all :: "('a \<Rightarrow> 'e + unit) \<Rightarrow> 'a list \<Rightarrow> 'e + unit" where
  "check_all f [] = Inr ()"
| "check_all f (x # xs) = try_r (f x) (\<lambda>_. check_all f xs)"

lemma check_all_ok: "check_all f xs = Inr () \<longleftrightarrow> (\<forall>x\<in>set xs. f x = Inr ())"
  by (induction xs) (auto simp: try_r_eq_Inr)

lemma check_all_append:
  "check_all f (xs @ ys) = try_r (check_all f xs) (\<lambda>_. check_all f ys)"
proof (induction xs)
  case (Cons x xs)
  then show ?case by (cases "f x") simp_all
qed simp

section \<open>Text predicates\<close>

text \<open>
  \<open>char::is_control\<close> is the Unicode category Cc: U+0000 to U+001F and U+007F to U+009F.
  In UTF-8 the first group and U+007F are single bytes, and U+0080 to U+009F are the byte
  \<open>0xC2\<close> followed by the code point, so on UTF-8 text \<open>has_control\<close> is
  \<open>s.chars().any(char::is_control)\<close>.
\<close>

definition ascii_control :: "char \<Rightarrow> bool" where
  "ascii_control c \<longleftrightarrow> (of_char c :: nat) < 32 \<or> (of_char c :: nat) = 127"

fun has_control :: "string \<Rightarrow> bool" where
  "has_control [] = False"
| "has_control [c] = ascii_control c"
| "has_control (c # d # s) =
     (ascii_control c \<or>
      ((of_char c :: nat) = 194 \<and> 128 \<le> (of_char d :: nat) \<and> (of_char d :: nat) \<le> 159) \<or>
      has_control (d # s))"

text \<open>
  \<open>char::is_whitespace\<close> is the Unicode property White_Space.  \<open>strip_white\<close> removes one
  white-space character from the front of a UTF-8 text, if there is one.
\<close>

fun strip_white :: "nat list \<Rightarrow> nat list option" where
  "strip_white [] = None"
| "strip_white (a # s) =
     (if (9 \<le> a \<and> a \<le> 13) \<or> a = 32 then Some s
      else case s of
        [] \<Rightarrow> None
      | b # t \<Rightarrow>
          if a = 194 \<and> (b = 133 \<or> b = 160) then Some t
          else case t of
            [] \<Rightarrow> None
          | c # u \<Rightarrow>
              if (a = 225 \<and> b = 154 \<and> c = 128) \<or>
                 (a = 226 \<and> b = 128 \<and>
                   ((128 \<le> c \<and> c \<le> 138) \<or> c = 168 \<or> c = 169 \<or> c = 175)) \<or>
                 (a = 226 \<and> b = 129 \<and> c = 159) \<or>
                 (a = 227 \<and> b = 128 \<and> c = 128)
              then Some u else None)"

lemma strip_white_shorter: "strip_white s = Some t \<Longrightarrow> length t < length s"
  by (cases s) (auto split: if_splits list.splits)

text \<open>
  \<open>blank\<close> is \<open>s.trim().is_empty()\<close>: the text consists of white space only.
  \<open>has_white\<close> is \<open>s.chars().any(char::is_whitespace)\<close>; it looks at every byte position,
  and no white-space encoding starts inside another character of valid UTF-8.
\<close>

function blank_bytes :: "nat list \<Rightarrow> bool" where
  "blank_bytes s =
     (if s = [] then True
      else case strip_white s of None \<Rightarrow> False | Some t \<Rightarrow> blank_bytes t)"
  by pat_completeness auto
termination
  by (relation "measure length") (auto dest: strip_white_shorter)

declare blank_bytes.simps [simp del]

definition blank :: "string \<Rightarrow> bool" where
  "blank s = blank_bytes (map of_char s)"

fun has_white_bytes :: "nat list \<Rightarrow> bool" where
  "has_white_bytes [] = False"
| "has_white_bytes (a # s) = (strip_white (a # s) \<noteq> None \<or> has_white_bytes s)"

definition has_white :: "string \<Rightarrow> bool" where
  "has_white s = has_white_bytes (map of_char s)"

lemma blank_Nil [simp]: "blank []"
  by (simp add: blank_def blank_bytes.simps)

lemma not_blank_nonempty: "\<not> blank s \<Longrightarrow> s \<noteq> []"
  by auto

text \<open>\<open>valid_digest\<close> of lib.rs: 64 lowercase hexadecimal digits.\<close>

definition is_ascii_hexdigit :: "char \<Rightarrow> bool" where
  "is_ascii_hexdigit c \<longleftrightarrow>
     (48 \<le> (of_char c :: nat) \<and> (of_char c :: nat) \<le> 57) \<or>
     (65 \<le> (of_char c :: nat) \<and> (of_char c :: nat) \<le> 70) \<or>
     (97 \<le> (of_char c :: nat) \<and> (of_char c :: nat) \<le> 102)"

definition is_ascii_uppercase :: "char \<Rightarrow> bool" where
  "is_ascii_uppercase c \<longleftrightarrow> 65 \<le> (of_char c :: nat) \<and> (of_char c :: nat) \<le> 90"

type_synonym hex_digest = string

definition valid_digest :: "string \<Rightarrow> bool" where
  "valid_digest value \<longleftrightarrow>
     length value = 64 \<and> list_all (\<lambda>c. is_ascii_hexdigit c \<and> \<not> is_ascii_uppercase c) value"

definition zero_digest :: string where
  "zero_digest = replicate 64 (CHR ''0'')"

lemma valid_digest_replicate:
  assumes "is_ascii_hexdigit c" and "\<not> is_ascii_uppercase c"
  shows "valid_digest (replicate 64 c)"
  using assms by (simp add: valid_digest_def list_all_iff)

lemma valid_zero_digest [simp]: "valid_digest zero_digest"
  unfolding zero_digest_def
  by (rule valid_digest_replicate) (simp_all add: is_ascii_hexdigit_def is_ascii_uppercase_def)

lemma valid_digest_nonempty: "valid_digest d \<Longrightarrow> d \<noteq> []"
  by (auto simp: valid_digest_def)

lemma hexdigit_not_control:
  "is_ascii_hexdigit c \<Longrightarrow> \<not> ascii_control c \<and> (of_char c :: nat) \<noteq> 194"
  by (auto simp: is_ascii_hexdigit_def ascii_control_def)

lemma has_control_hex: "list_all is_ascii_hexdigit s \<Longrightarrow> \<not> has_control s"
  by (induction s rule: has_control.induct) (auto dest: hexdigit_not_control)

lemma valid_digest_no_control: "valid_digest d \<Longrightarrow> \<not> has_control d"
  by (rule has_control_hex) (simp add: valid_digest_def list_all_iff)

end
