(* ===== verification/Containers.thy ===== *)
theory Containers
  imports Prelude
begin

text \<open>
  Rust's ordered containers.  A \<open>BTreeMap\<close> is the list of its entries in ascending key
  order, a \<open>BTreeSet\<close> the list of its elements in ascending order: iteration order,
  equality and the JSON encoding of the code are those of the list.  \<open>bt_get\<close>,
  \<open>bt_insert\<close> and \<open>bt_modify\<close> are \<open>get\<close>, \<open>insert\<close> and an assignment through
  \<open>get_mut\<close>; \<open>bs_insert\<close>, \<open>bs_union\<close>, \<open>bs_inter\<close> and \<open>bs_subset\<close> the operations of
  a set.  The locales \<open>dict\<close> and \<open>ordered_set\<close> state what the components rely on, and the
  two interpretations discharge it for the sorted lists.
\<close>

section \<open>BTreeMap\<close>

type_synonym ('k, 'v) btree = "('k \<times> 'v) list"

abbreviation bt_get :: "('k, 'v) btree \<Rightarrow> 'k \<Rightarrow> 'v option" where
  "bt_get \<equiv> map_of"

fun bt_insert :: "'k::linorder \<Rightarrow> 'v \<Rightarrow> ('k, 'v) btree \<Rightarrow> ('k, 'v) btree" where
  "bt_insert k v [] = [(k, v)]"
| "bt_insert k v ((k', v') # m) =
     (if k < k' then (k, v) # (k', v') # m
      else if k = k' then (k, v) # m
      else (k', v') # bt_insert k v m)"

definition bt_contains :: "('k, 'v) btree \<Rightarrow> 'k \<Rightarrow> bool" where
  "bt_contains m k \<longleftrightarrow> bt_get m k \<noteq> None"

definition bt_modify :: "'k \<Rightarrow> ('v \<Rightarrow> 'v) \<Rightarrow> ('k, 'v) btree \<Rightarrow> ('k, 'v) btree" where
  "bt_modify k f m = map (\<lambda>(k', v). (k', if k' = k then f v else v)) m"

definition bt_keys :: "('k, 'v) btree \<Rightarrow> 'k list" where
  "bt_keys m = map fst m"

definition bt_values :: "('k, 'v) btree \<Rightarrow> 'v list" where
  "bt_values m = map snd m"

definition bt_wf :: "('k::linorder, 'v) btree \<Rightarrow> bool" where
  "bt_wf m \<longleftrightarrow> sorted_wrt (<) (map fst m)"

lemma bt_get_insert [simp]: "bt_get (bt_insert k v m) = (bt_get m)(k \<mapsto> v)"
  by (induction m) (auto simp: fun_eq_iff)

lemma bt_get_modify [simp]:
  "bt_get (bt_modify k f m) k' = (if k' = k then map_option f (bt_get m k) else bt_get m k')"
  by (induction m) (auto simp: bt_modify_def)

lemma bt_contains_insert [simp]: "bt_contains (bt_insert k v m) k' \<longleftrightarrow> k' = k \<or> bt_contains m k'"
  by (simp add: bt_contains_def)

lemma bt_contains_iff: "bt_contains m k \<longleftrightarrow> k \<in> fst ` set m"
  by (auto simp: bt_contains_def map_of_eq_None_iff)

lemma set_keys_insert [simp]: "fst ` set (bt_insert k v m) = insert k (fst ` set m)"
  by (induction k v m rule: bt_insert.induct) (simp_all add: insert_commute)

lemma map_fst_modify [simp]: "map fst (bt_modify k f m) = map fst m"
  by (simp add: bt_modify_def case_prod_beta')

lemma keys_modify [simp]: "fst ` set (bt_modify k f m) = fst ` set m"
  by (simp add: bt_modify_def image_comp case_prod_beta')

lemma bt_wf_Nil [simp, wf_intros]: "bt_wf []"
  by (simp add: bt_wf_def)

lemma bt_wf_Cons: "bt_wf ((k, v) # m) \<longleftrightarrow> (\<forall>k' \<in> fst ` set m. k < k') \<and> bt_wf m"
  by (simp add: bt_wf_def)

lemma bt_wf_insert [wf_intros]: "bt_wf m \<Longrightarrow> bt_wf (bt_insert k v m)"
proof (induction m)
  case (Cons e m)
  obtain k' v' where e: "e = (k', v')" by (cases e)
  show ?case using Cons by (auto simp: e bt_wf_Cons)
qed (simp add: bt_wf_def)

lemma bt_wf_modify [wf_intros]: "bt_wf m \<Longrightarrow> bt_wf (bt_modify k f m)"
  by (simp add: bt_wf_def)

lemma bt_wf_map_values [wf_intros]:
  "bt_wf m \<Longrightarrow> bt_wf (map (\<lambda>(k, v). (k, f k v)) m)"
  by (simp add: bt_wf_def comp_def case_prod_beta')

lemma bt_wf_distinct: "bt_wf m \<Longrightarrow> distinct (map fst m)"
  by (simp add: bt_wf_def strict_sorted_iff)

lemma bt_get_mem: "bt_wf m \<Longrightarrow> bt_get m k = Some v \<longleftrightarrow> (k, v) \<in> set m"
  by (simp add: bt_wf_distinct)

lemma bt_ext:
  assumes "bt_wf m" and "bt_wf n" and "\<And>k. bt_get m k = bt_get n k"
  shows "m = n"
proof (rule map_sorted_distinct_set_unique [where f = fst])
  have "set m = set n"
    using assms(3) bt_get_mem [OF assms(1)] bt_get_mem [OF assms(2)] by auto
  then show "inj_on fst (set m \<union> set n)"
    using bt_wf_distinct [OF assms(1)] by (simp add: distinct_map)
  show "sorted (map fst m)" "distinct (map fst m)" "sorted (map fst n)" "distinct (map fst n)"
    using assms(1,2) by (simp_all add: bt_wf_def strict_sorted_iff)
  show "set m = set n" by fact
qed

lemma length_bt_insert:
  assumes "bt_wf m"
  shows "length (bt_insert k v m) = (if bt_contains m k then length m else Suc (length m))"
  using assms
proof (induction m)
  case (Cons e m)
  obtain k' v' where e: "e = (k', v')" by (cases e)
  have "k < k' \<Longrightarrow> k \<notin> fst ` set m" using Cons.prems by (auto simp: e bt_wf_Cons)
  then show ?case using Cons by (auto simp: e bt_wf_Cons bt_contains_iff)
qed (simp add: bt_contains_def)

lemma length_bt_modify [simp]: "length (bt_modify k f m) = length m"
  by (simp add: bt_modify_def)

lemma bt_insert_last: "\<forall>e\<in>set m. fst e < k \<Longrightarrow> bt_insert k x m = m @ [(k, x)]"
  by (induction m) auto

lemma bt_insert_all:
  assumes "\<forall>e\<in>set m. P e" and "P (k, v)"
  shows "\<forall>e\<in>set (bt_insert k v m). P e"
  using assms by (induction m) (auto split: if_splits)

section \<open>BTreeSet\<close>

type_synonym 'a bset = "'a list"

fun bs_insert :: "'a::linorder \<Rightarrow> 'a bset \<Rightarrow> 'a bset" where
  "bs_insert x [] = [x]"
| "bs_insert x (y # s) =
     (if x < y then x # y # s else if x = y then y # s else y # bs_insert x s)"

definition bs_contains :: "'a bset \<Rightarrow> 'a \<Rightarrow> bool" where
  "bs_contains s x \<longleftrightarrow> x \<in> set s"

definition bs_from_list :: "'a::linorder list \<Rightarrow> 'a bset" where
  "bs_from_list xs = fold bs_insert xs []"

definition bs_union :: "'a::linorder bset \<Rightarrow> 'a bset \<Rightarrow> 'a bset" where
  "bs_union s t = fold bs_insert t s"

definition bs_inter :: "'a bset \<Rightarrow> 'a bset \<Rightarrow> 'a bset" where
  "bs_inter s t = filter (\<lambda>x. x \<in> set t) s"

definition bs_subset :: "'a bset \<Rightarrow> 'a bset \<Rightarrow> bool" where
  "bs_subset s t = list_all (\<lambda>x. x \<in> set t) s"

definition bs_wf :: "'a::linorder bset \<Rightarrow> bool" where
  "bs_wf s \<longleftrightarrow> sorted_wrt (<) s"

lemma set_bs_insert [simp]: "set (bs_insert x s) = insert x (set s)"
  by (induction s) auto

lemma bs_wf_Nil [simp, wf_intros]: "bs_wf []"
  by (simp add: bs_wf_def)

lemma bs_wf_insert [wf_intros]: "bs_wf s \<Longrightarrow> bs_wf (bs_insert x s)"
  by (induction s) (auto simp: bs_wf_def)

lemma set_fold_bs_insert [simp]: "set (fold bs_insert xs s) = set s \<union> set xs"
  by (induction xs arbitrary: s) auto

lemma bs_wf_fold_insert: "bs_wf s \<Longrightarrow> bs_wf (fold bs_insert xs s)"
  by (induction xs arbitrary: s) (auto intro: bs_wf_insert)

lemma set_bs_ops [simp]:
  "set (bs_union s t) = set s \<union> set t"
  "set (bs_inter s t) = set s \<inter> set t"
  "set (bs_from_list xs) = set xs"
  "bs_subset s t \<longleftrightarrow> set s \<subseteq> set t"
  by (auto simp: bs_union_def bs_inter_def bs_from_list_def bs_subset_def list_all_iff)

lemma bs_wf_ops [wf_intros]:
  "bs_wf s \<Longrightarrow> bs_wf (bs_union s t)"
  "bs_wf s \<Longrightarrow> bs_wf (bs_inter s t)"
  "bs_wf (bs_from_list xs)"
  by (auto simp: bs_union_def bs_inter_def bs_from_list_def bs_wf_fold_insert)
     (simp add: bs_wf_def sorted_wrt_filter)

lemma bs_ext: "bs_wf s \<Longrightarrow> bs_wf t \<Longrightarrow> set s = set t \<Longrightarrow> s = t"
  by (simp add: bs_wf_def strict_sorted_equal)

lemma length_bs_insert:
  "bs_wf s \<Longrightarrow> length (bs_insert x s) = (if x \<in> set s then length s else Suc (length s))"
  by (induction s) (auto simp: bs_wf_def)

lemma length_bs_from_list: "distinct xs \<Longrightarrow> length (bs_from_list xs) = length xs"
proof -
  assume d: "distinct xs"
  have "distinct (bs_from_list xs)" using bs_wf_ops(3) [of xs] by (simp add: bs_wf_def strict_sorted_iff)
  then have "length (bs_from_list xs) = card (set xs)" using distinct_card by fastforce
  then show ?thesis using d by (simp add: distinct_card)
qed

lemma bs_wf_keys: "bt_wf m \<Longrightarrow> bs_wf (map fst m)"
  by (simp add: bs_wf_def bt_wf_def)

lemma sort_key_head:
  assumes "sort_key f xs = y # ys"
  shows "y \<in> set xs" and "\<forall>x\<in>set xs. f y \<le> f x"
proof -
  have s: "sorted (map f (y # ys))" "set (y # ys) = set xs"
    using sorted_sort_key [of f xs] set_sort [of f xs] assms by simp_all
  then show "y \<in> set xs" by auto
  show "\<forall>x\<in>set xs. f y \<le> f x" using s by (auto simp flip: s(2))
qed

section \<open>What the components rely on\<close>

locale dict =
  fixes empty :: "'m"
    and get :: "'m \<Rightarrow> 'k \<Rightarrow> 'v option"
    and put :: "'k \<Rightarrow> 'v \<Rightarrow> 'm \<Rightarrow> 'm"
    and invar :: "'m \<Rightarrow> bool"
  assumes get_empty: "get empty k = None"
    and get_put: "get (put k v m) k' = (if k' = k then Some v else get m k')"
    and invar_empty: "invar empty"
    and invar_put: "invar m \<Longrightarrow> invar (put k v m)"
    and extensional: "invar m \<Longrightarrow> invar n \<Longrightarrow> (\<And>k. get m k = get n k) \<Longrightarrow> m = n"
begin

lemma put_overwrites: "invar m \<Longrightarrow> put k v (put k w m) = put k v m"
  by (rule extensional) (simp_all add: invar_put get_put)

lemma put_commutes: "invar m \<Longrightarrow> k \<noteq> l \<Longrightarrow> put k v (put l w m) = put l w (put k v m)"
  by (rule extensional) (auto simp: invar_put get_put)

lemma put_present: "invar m \<Longrightarrow> get m k = Some v \<Longrightarrow> put k v m = m"
  by (rule extensional) (auto simp: invar_put get_put)

end

interpretation btree_map: dict "[]" bt_get bt_insert bt_wf
  by unfold_locales (auto intro: bt_wf_insert bt_ext)

locale ordered_set =
  fixes elems :: "'s \<Rightarrow> 'a set"
    and join :: "'s \<Rightarrow> 's \<Rightarrow> 's"
    and meet :: "'s \<Rightarrow> 's \<Rightarrow> 's"
    and below :: "'s \<Rightarrow> 's \<Rightarrow> bool"
    and invar :: "'s \<Rightarrow> bool"
  assumes elems_join: "elems (join s t) = elems s \<union> elems t"
    and elems_meet: "elems (meet s t) = elems s \<inter> elems t"
    and below_iff: "below s t \<longleftrightarrow> elems s \<subseteq> elems t"
    and invar_join: "invar s \<Longrightarrow> invar t \<Longrightarrow> invar (join s t)"
    and invar_meet: "invar s \<Longrightarrow> invar t \<Longrightarrow> invar (meet s t)"
    and extensional: "invar s \<Longrightarrow> invar t \<Longrightarrow> elems s = elems t \<Longrightarrow> s = t"
begin

lemma join_least: "below s u \<Longrightarrow> below t u \<Longrightarrow> below (join s t) u"
  by (simp add: below_iff elems_join)

lemma join_upper: "below s (join s t)" "below t (join s t)"
  by (auto simp: below_iff elems_join)

lemma meet_greatest: "below u s \<Longrightarrow> below u t \<Longrightarrow> below u (meet s t)"
  by (simp add: below_iff elems_meet)

lemma meet_lower: "below (meet s t) s" "below (meet s t) t"
  by (auto simp: below_iff elems_meet)

lemma below_antisym: "invar s \<Longrightarrow> invar t \<Longrightarrow> below s t \<Longrightarrow> below t s \<Longrightarrow> s = t"
  by (auto simp: below_iff intro: extensional)

lemma below_trans: "below s t \<Longrightarrow> below t u \<Longrightarrow> below s u"
  by (auto simp: below_iff)

lemma meet_join_distrib:
  "invar s \<Longrightarrow> invar t \<Longrightarrow> invar u \<Longrightarrow> meet s (join t u) = join (meet s t) (meet s u)"
  by (rule extensional) (auto simp: elems_join elems_meet intro: invar_join invar_meet)

lemma join_absorb: "invar s \<Longrightarrow> invar t \<Longrightarrow> join s (meet s t) = s"
  by (rule extensional) (auto simp: elems_join elems_meet intro: invar_join invar_meet)

end

interpretation btree_set: ordered_set set bs_union bs_inter bs_subset bs_wf
  by unfold_locales (auto intro: bs_wf_ops bs_ext)

end
