(* ===== verification/Machine.thy ===== *)
theory Machine
  imports Prelude
begin

text \<open>
  Components as state machines.  An operation of a component is a step \<open>state \<Rightarrow> op \<Rightarrow> state\<close>
  (what the operation returns is a matter of the operation itself), a run applies a list of
  operations in order.  The locale \<open>machine\<close> is the contract of a component whose operations
  keep an invariant, \<open>monotone_machine\<close> that of one whose operations also move the state
  along a preorder, such as "once frozen, frozen".
\<close>

fun run_ops :: "('s \<Rightarrow> 'o \<Rightarrow> 's) \<Rightarrow> 's \<Rightarrow> 'o list \<Rightarrow> 's" where
  "run_ops step s [] = s"
| "run_ops step s (a # as) = run_ops step (step s a) as"

lemma run_ops_append: "run_ops step s (as @ bs) = run_ops step (run_ops step s as) bs"
  by (induction as arbitrary: s) simp_all

inductive reach :: "('s \<Rightarrow> 'o \<Rightarrow> 's) \<Rightarrow> 's \<Rightarrow> 's \<Rightarrow> bool" for step s where
  start: "reach step s s"
| step: "reach step s t \<Longrightarrow> reach step s (step t a)"

lemma reach_run_ops: "reach step s (run_ops step s as)"
proof (induction as rule: rev_induct)
  case (snoc a as)
  then show ?case by (auto simp: run_ops_append intro: reach.step)
qed (simp add: reach.start)

lemma reach_imp_run: "reach step s t \<Longrightarrow> \<exists>as. t = run_ops step s as"
proof (induction rule: reach.induct)
  case start
  show ?case by (rule exI [where x = "[]"]) simp
next
  case (step t a)
  then obtain as where "t = run_ops step s as" by blast
  then show ?case by (intro exI [where x = "as @ [a]"]) (simp add: run_ops_append)
qed

locale machine =
  fixes step :: "'s \<Rightarrow> 'o \<Rightarrow> 's" and inv :: "'s \<Rightarrow> bool"
  assumes step_inv: "inv s \<Longrightarrow> inv (step s a)"
begin

lemma run_inv: "inv s \<Longrightarrow> inv (run_ops step s as)"
  by (induction as arbitrary: s) (auto intro: step_inv)

lemma reach_inv: "reach step s t \<Longrightarrow> inv s \<Longrightarrow> inv t"
  by (induction rule: reach.induct) (auto intro: step_inv)

end

locale monotone_machine = machine step inv
  for step :: "'s \<Rightarrow> 'o \<Rightarrow> 's" and inv :: "'s \<Rightarrow> bool" +
  fixes grows :: "'s \<Rightarrow> 's \<Rightarrow> bool"
  assumes grows_refl: "grows s s"
    and grows_trans: "grows s t \<Longrightarrow> grows t u \<Longrightarrow> grows s u"
    and step_grows: "inv s \<Longrightarrow> grows s (step s a)"
begin

lemma run_grows: "inv s \<Longrightarrow> grows s (run_ops step s as)"
proof (induction as arbitrary: s)
  case Nil
  then show ?case by (simp add: grows_refl)
next
  case (Cons a as)
  then show ?case using grows_trans [OF step_grows Cons.IH] step_inv by auto
qed

end

end
