(* ===== verification/Contract.thy ===== *)
theory Contract
  imports Containers Machine
begin

text \<open>
  src/contract.rs: the authority vocabulary and its powerset lattice (\<open>Authority\<close>,
  \<open>CapabilitySet\<close>), the lifecycle state machine of one proposal (\<open>transition\<close>,
  \<open>Lifecycle\<close>) and the failure budget (\<open>FailureBudget\<close>, \<open>FailureTracker\<close>).
\<close>

section \<open>Authorities and capability sets\<close>

datatype authority =
    Auth_Read | Auth_Write | Auth_Network | Auth_Secrets
  | Auth_Spend | Auth_Replicate | Auth_Execute | Auth_SelfModify

text \<open>The derived \<open>Ord\<close> compares the position of the variant in the declaration.\<close>

fun authority_rank :: "authority \<Rightarrow> nat" where
  "authority_rank Auth_Read = 0"
| "authority_rank Auth_Write = 1"
| "authority_rank Auth_Network = 2"
| "authority_rank Auth_Secrets = 3"
| "authority_rank Auth_Spend = 4"
| "authority_rank Auth_Replicate = 5"
| "authority_rank Auth_Execute = 6"
| "authority_rank Auth_SelfModify = 7"

lemma authority_rank_inject: "authority_rank a = authority_rank b \<longleftrightarrow> a = b"
  by (cases a; cases b) simp_all

instantiation authority :: linorder
begin

definition less_eq_authority :: "authority \<Rightarrow> authority \<Rightarrow> bool" where
  "less_eq_authority a b \<longleftrightarrow> authority_rank a \<le> authority_rank b"

definition less_authority :: "authority \<Rightarrow> authority \<Rightarrow> bool" where
  "less_authority a b \<longleftrightarrow> authority_rank a < authority_rank b"

instance
  by standard (auto simp: less_eq_authority_def less_authority_def authority_rank_inject)

end

definition authority_all :: "authority list" where
  "authority_all = [Auth_Read, Auth_Write, Auth_Network, Auth_Secrets,
     Auth_Spend, Auth_Replicate, Auth_Execute, Auth_SelfModify]"

lemma set_authority_all [simp]: "set authority_all = UNIV"
proof -
  have "a \<in> set authority_all" for a by (cases a) (simp_all add: authority_all_def)
  then show ?thesis by auto
qed

fun authority_display :: "authority \<Rightarrow> string" where
  "authority_display Auth_Read = ''read''"
| "authority_display Auth_Write = ''write''"
| "authority_display Auth_Network = ''network''"
| "authority_display Auth_Secrets = ''secrets''"
| "authority_display Auth_Spend = ''spend''"
| "authority_display Auth_Replicate = ''replicate''"
| "authority_display Auth_Execute = ''execute''"
| "authority_display Auth_SelfModify = ''self_modify''"

record capability_set =
  authorities :: "authority bset"

definition cs_empty :: capability_set where
  "cs_empty = \<lparr>authorities = []\<rparr>"

definition cs_all :: capability_set where
  "cs_all = \<lparr>authorities = bs_from_list authority_all\<rparr>"

definition cs_from_slice :: "authority list \<Rightarrow> capability_set" where
  "cs_from_slice xs = \<lparr>authorities = bs_from_list xs\<rparr>"

definition cs_contains :: "capability_set \<Rightarrow> authority \<Rightarrow> bool" where
  "cs_contains s a = bs_contains (authorities s) a"

definition cs_is_empty :: "capability_set \<Rightarrow> bool" where
  "cs_is_empty s \<longleftrightarrow> authorities s = []"

definition cs_len :: "capability_set \<Rightarrow> nat" where
  "cs_len s = length (authorities s)"

definition cs_leq :: "capability_set \<Rightarrow> capability_set \<Rightarrow> bool" where
  "cs_leq s t = bs_subset (authorities s) (authorities t)"

definition cs_covers :: "capability_set \<Rightarrow> capability_set \<Rightarrow> bool" where
  "cs_covers s requested = cs_leq requested s"

definition cs_join :: "capability_set \<Rightarrow> capability_set \<Rightarrow> capability_set" where
  "cs_join s t = \<lparr>authorities = bs_union (authorities s) (authorities t)\<rparr>"

definition cs_meet :: "capability_set \<Rightarrow> capability_set \<Rightarrow> capability_set" where
  "cs_meet s t = \<lparr>authorities = bs_inter (authorities s) (authorities t)\<rparr>"

definition cs_wf :: "capability_set \<Rightarrow> bool" where
  "cs_wf s \<longleftrightarrow> bs_wf (authorities s)"

lemmas cs_defs = cs_empty_def cs_all_def cs_from_slice_def cs_contains_def cs_is_empty_def
  cs_len_def cs_leq_def cs_covers_def cs_join_def cs_meet_def cs_wf_def

lemma cs_constructors_wf [wf_intros]:
  "cs_wf cs_empty" "cs_wf cs_all" "cs_wf (cs_from_slice xs)"
  by (auto simp: cs_defs intro: bs_wf_ops)

interpretation cap_lattice: ordered_set "\<lambda>s. set (authorities s)" cs_join cs_meet cs_leq cs_wf
proof
  fix s t :: capability_set
  assume "cs_wf s" "cs_wf t" "set (authorities s) = set (authorities t)"
  then show "s = t" by (simp add: cs_defs bs_ext)
qed (auto simp: cs_defs intro: bs_wf_ops)

lemma cs_bounds: "cs_leq cs_empty s" "cs_leq s cs_all"
  by (simp_all add: cs_defs)

lemma cs_len_card: "cs_wf s \<Longrightarrow> cs_len s = card (set (authorities s))"
  by (simp add: cs_defs bs_wf_def strict_sorted_iff distinct_card)

section \<open>The lifecycle of a proposal\<close>

datatype lifecycle_state =
    LS_Proposal | LS_Quarantined | LS_Rejected | LS_Admitted | LS_Executing
  | LS_Completed | LS_RolledBack | LS_Frozen | LS_Killed

definition is_terminal :: "lifecycle_state \<Rightarrow> bool" where
  "is_terminal s \<longleftrightarrow> s = LS_Rejected \<or> s = LS_Frozen \<or> s = LS_Killed"

definition is_shutdown :: "lifecycle_state \<Rightarrow> bool" where
  "is_shutdown s \<longleftrightarrow> s = LS_Frozen \<or> s = LS_Killed"

datatype lifecycle_event =
    EV_Quarantine | EV_Reject | EV_Admit | EV_BeginExecution
  | EV_Complete | EV_Rollback | EV_Freeze | EV_Kill

datatype contract_error =
    InvalidTransition lifecycle_state lifecycle_event
  | InvalidBudget string
  | BudgetExhausted
  | InvalidLifecycle string

fun state_debug :: "lifecycle_state \<Rightarrow> string" where
  "state_debug LS_Proposal = ''Proposal''"
| "state_debug LS_Quarantined = ''Quarantined''"
| "state_debug LS_Rejected = ''Rejected''"
| "state_debug LS_Admitted = ''Admitted''"
| "state_debug LS_Executing = ''Executing''"
| "state_debug LS_Completed = ''Completed''"
| "state_debug LS_RolledBack = ''RolledBack''"
| "state_debug LS_Frozen = ''Frozen''"
| "state_debug LS_Killed = ''Killed''"

fun event_debug :: "lifecycle_event \<Rightarrow> string" where
  "event_debug EV_Quarantine = ''Quarantine''"
| "event_debug EV_Reject = ''Reject''"
| "event_debug EV_Admit = ''Admit''"
| "event_debug EV_BeginExecution = ''BeginExecution''"
| "event_debug EV_Complete = ''Complete''"
| "event_debug EV_Rollback = ''Rollback''"
| "event_debug EV_Freeze = ''Freeze''"
| "event_debug EV_Kill = ''Kill''"

fun contract_error_to_string :: "contract_error \<Rightarrow> string" where
  "contract_error_to_string (InvalidTransition s e) =
     ''invalid lifecycle transition from '' @ state_debug s @ '' on '' @ event_debug e"
| "contract_error_to_string (InvalidBudget m) = ''failure budget is invalid: '' @ m"
| "contract_error_to_string BudgetExhausted = ''failure budget is already exhausted''"
| "contract_error_to_string (InvalidLifecycle m) = ''lifecycle record is invalid: '' @ m"

fun transition :: "lifecycle_state \<Rightarrow> lifecycle_event \<Rightarrow> contract_error + lifecycle_state" where
  "transition LS_Proposal EV_Quarantine = Inr LS_Quarantined"
| "transition LS_Proposal EV_Reject = Inr LS_Rejected"
| "transition LS_Proposal EV_Admit = Inr LS_Admitted"
| "transition LS_Quarantined EV_Reject = Inr LS_Rejected"
| "transition LS_Quarantined EV_Admit = Inr LS_Admitted"
| "transition LS_Admitted EV_Quarantine = Inr LS_Quarantined"
| "transition LS_Admitted EV_BeginExecution = Inr LS_Executing"
| "transition LS_Executing EV_Complete = Inr LS_Completed"
| "transition LS_Executing EV_Rollback = Inr LS_RolledBack"
| "transition LS_Completed EV_Rollback = Inr LS_RolledBack"
| "transition LS_RolledBack EV_Admit = Inr LS_Admitted"
| "transition s EV_Freeze =
     (if is_shutdown s then Inl (InvalidTransition s EV_Freeze) else Inr LS_Frozen)"
| "transition s EV_Kill =
     (if s = LS_Killed then Inl (InvalidTransition s EV_Kill) else Inr LS_Killed)"
| "transition s e = Inl (InvalidTransition s e)"

record lifecycle =
  lc_state :: lifecycle_state
  lc_revision :: u64
  lc_events :: "lifecycle_event list"

definition lifecycle_new :: lifecycle where
  "lifecycle_new = \<lparr>lc_state = LS_Proposal, lc_revision = 0, lc_events = []\<rparr>"

fun replay_events ::
  "lifecycle_state \<Rightarrow> lifecycle_event list \<Rightarrow> contract_error + lifecycle_state" where
  "replay_events s [] = Inr s"
| "replay_events s (e # es) = try_r (transition s e) (\<lambda>s'. replay_events s' es)"

definition lifecycle_validate :: "lifecycle \<Rightarrow> contract_error + unit" where
  "lifecycle_validate l =
     (if lc_revision l \<noteq> of_nat (length (lc_events l))
      then Inl (InvalidLifecycle ''revision does not match event history length'')
      else try_r (replay_events LS_Proposal (lc_events l)) (\<lambda>replayed.
        if replayed \<noteq> lc_state l
        then Inl (InvalidLifecycle ''event history does not reach current state'')
        else Inr ()))"

definition lifecycle_apply ::
  "lifecycle \<Rightarrow> lifecycle_event \<Rightarrow> (contract_error + lifecycle_state) \<times> lifecycle" where
  "lifecycle_apply l e =
     (if lc_revision l = u64_max
      then (Inl (InvalidLifecycle ''revision cannot advance''), l)
      else case transition (lc_state l) e of
        Inl err \<Rightarrow> (Inl err, l)
      | Inr s' \<Rightarrow>
          (Inr s', l\<lparr>lc_state := s', lc_revision := lc_revision l + 1,
                     lc_events := lc_events l @ [e]\<rparr>))"

lemma transition_Freeze: "transition s EV_Freeze =
   (if is_shutdown s then Inl (InvalidTransition s EV_Freeze) else Inr LS_Frozen)"
  by (cases s) (simp_all add: is_shutdown_def)

lemma transition_Kill: "transition s EV_Kill =
   (if s = LS_Killed then Inl (InvalidTransition s EV_Kill) else Inr LS_Killed)"
  by (cases s) simp_all

lemma transition_error: "transition s e = Inl err \<Longrightarrow> err = InvalidTransition s e"
  by (cases s; cases e) (simp_all add: is_shutdown_def)

lemma transition_from_Killed: "transition LS_Killed e = Inl (InvalidTransition LS_Killed e)"
  by (cases e) (simp_all add: is_shutdown_def)

lemma transition_from_Frozen: "transition LS_Frozen e = Inr s \<Longrightarrow> e = EV_Kill \<and> s = LS_Killed"
  by (cases e) (simp_all add: is_shutdown_def)

lemma transition_from_Rejected: "transition LS_Rejected e = Inr s \<Longrightarrow> is_shutdown s"
  by (cases e) (auto simp: is_shutdown_def)

lemma transition_shutdown: "is_shutdown s \<Longrightarrow> transition s e = Inr s' \<Longrightarrow> is_shutdown s'"
  by (auto simp: is_shutdown_def transition_from_Killed dest: transition_from_Frozen)

lemma transition_terminal: "is_terminal s \<Longrightarrow> transition s e = Inr s' \<Longrightarrow> is_terminal s'"
  using transition_from_Rejected [of e s'] transition_shutdown [of s e s']
  by (auto simp: is_terminal_def is_shutdown_def)

lemma transition_into_Executing:
  "transition s e = Inr LS_Executing \<longleftrightarrow> s = LS_Admitted \<and> e = EV_BeginExecution"
  by (cases s; cases e) (simp_all add: is_shutdown_def)

lemma transition_into_Admitted: "transition s e = Inr LS_Admitted \<Longrightarrow> e = EV_Admit"
  by (cases s; cases e) (simp_all add: is_shutdown_def)

subsection \<open>Records and their histories\<close>

lemma replay_events_append:
  "replay_events s (xs @ ys) = try_r (replay_events s xs) (\<lambda>s'. replay_events s' ys)"
proof (induction xs arbitrary: s)
  case (Cons e es)
  then show ?case by (cases "transition s e") simp_all
qed simp

lemma replay_terminal: "is_terminal s \<Longrightarrow> replay_events s es = Inr s' \<Longrightarrow> is_terminal s'"
  by (induction es arbitrary: s) (auto simp: try_r_eq_Inr dest: transition_terminal)

text \<open>
  A record whose history replays to its state, with a history that fits the revision
  counter.  \<open>lifecycle_validate\<close> cannot see the second part: it compares the counter with the
  length modulo \<open>2 ^ 64\<close>.
\<close>

definition lifecycle_ok :: "lifecycle \<Rightarrow> bool" where
  "lifecycle_ok l \<longleftrightarrow> lifecycle_validate l = Inr () \<and> length (lc_events l) < 2 ^ 64"

lemma lifecycle_validate_iff:
  "lifecycle_validate l = Inr () \<longleftrightarrow>
     lc_revision l = of_nat (length (lc_events l)) \<and>
     replay_events LS_Proposal (lc_events l) = Inr (lc_state l)"
  by (auto simp: lifecycle_validate_def try_r_eq_Inr split: if_splits)

lemma lifecycle_new_ok [simp, wf_intros]: "lifecycle_ok lifecycle_new"
  by (simp add: lifecycle_ok_def lifecycle_validate_iff lifecycle_new_def)

lemma revision_max_iff:
  "lifecycle_ok l \<Longrightarrow> lc_revision l = u64_max \<longleftrightarrow> length (lc_events l) = 2 ^ 64 - 1"
  by (simp add: lifecycle_ok_def lifecycle_validate_iff of_nat_eq_u64_max)

lemma lifecycle_apply_Inr:
  "lifecycle_apply l e = (Inr s, l') \<longleftrightarrow>
     lc_revision l \<noteq> u64_max \<and> transition (lc_state l) e = Inr s \<and>
     l' = l\<lparr>lc_state := s, lc_revision := lc_revision l + 1, lc_events := lc_events l @ [e]\<rparr>"
  by (auto simp: lifecycle_apply_def split: sum.splits)

lemma lifecycle_apply_Inl: "lifecycle_apply l e = (Inl err, l') \<Longrightarrow> l' = l"
  by (auto simp: lifecycle_apply_def split: if_splits sum.splits)

lemma lifecycle_apply_ok [wf_intros]:
  assumes "lifecycle_ok l"
  shows "lifecycle_ok (snd (lifecycle_apply l e))"
proof (cases "lifecycle_apply l e")
  case (Pair r l')
  show ?thesis
  proof (cases r)
    case (Inl err)
    then show ?thesis using assms Pair lifecycle_apply_Inl by fastforce
  next
    case (Inr s)
    then have l': "lc_revision l \<noteq> u64_max" "transition (lc_state l) e = Inr s"
      "l' = l\<lparr>lc_state := s, lc_revision := lc_revision l + 1, lc_events := lc_events l @ [e]\<rparr>"
      using Pair by (simp_all add: lifecycle_apply_Inr)
    then have "length (lc_events l) + 1 < 2 ^ 64"
      using revision_max_iff [OF assms] assms by (auto simp: lifecycle_ok_def)
    then show ?thesis
      using assms l'
      by (simp add: Pair lifecycle_ok_def lifecycle_validate_iff replay_events_append)
  qed
qed

section \<open>The failure budget\<close>

datatype failure_kind = FK_Rejection | FK_Quarantine | FK_Rollback

record failure_budget =
  max_rejections :: u32
  max_quarantines :: u32
  max_rollbacks :: u32
  max_consecutive_failures :: u32
  max_window_failures :: u32
  window_size :: u32

definition budget_validate :: "failure_budget \<Rightarrow> contract_error + unit" where
  "budget_validate b =
     (if window_size b = 0 then Inl (InvalidBudget ''window_size must be positive'')
      else if window_size b < max_window_failures b
      then Inl (InvalidBudget ''max_window_failures cannot exceed window_size'')
      else Inr ())"

record failure_tracker =
  ft_budget :: failure_budget
  rejections :: u32
  quarantines :: u32
  rollbacks :: u32
  consecutive_failures :: u32
  recent :: "failure_kind list"

definition budget_tracker :: "failure_budget \<Rightarrow> contract_error + failure_tracker" where
  "budget_tracker b = try_r (budget_validate b) (\<lambda>_.
     Inr \<lparr>ft_budget = b, rejections = 0, quarantines = 0, rollbacks = 0,
          consecutive_failures = 0, recent = []\<rparr>)"

datatype budget_decision = BD_Continue | BD_FreezeRequired

definition tracker_validate :: "failure_tracker \<Rightarrow> contract_error + unit" where
  "tracker_validate t = try_r (budget_validate (ft_budget t)) (\<lambda>_.
     if unat (window_size (ft_budget t)) < length (recent t)
     then Inl (InvalidBudget ''recent failure window exceeds its budget'')
     else let total = (ucast (rejections t) :: u64) + ucast (quarantines t) + ucast (rollbacks t)
       in if total < ucast (consecutive_failures t) \<or>
             (recent t = [] \<and> 0 < consecutive_failures t)
          then Inl (InvalidBudget ''failure counters are inconsistent'')
          else Inr ())"

definition at_or_over :: "u32 \<Rightarrow> u32 \<Rightarrow> bool" where
  "at_or_over observed limit \<longleftrightarrow> 0 < observed \<and> limit \<le> observed"

definition is_exhausted :: "failure_tracker \<Rightarrow> bool" where
  "is_exhausted t \<longleftrightarrow>
     at_or_over (rejections t) (max_rejections (ft_budget t)) \<or>
     at_or_over (quarantines t) (max_quarantines (ft_budget t)) \<or>
     at_or_over (rollbacks t) (max_rollbacks (ft_budget t)) \<or>
     at_or_over (consecutive_failures t) (max_consecutive_failures (ft_budget t)) \<or>
     at_or_over (of_nat (length (recent t))) (max_window_failures (ft_budget t))"

text \<open>The first \<open>match\<close> of \<open>record_failure\<close>: one category counter, with its overflow check.\<close>

fun bump_category :: "failure_kind \<Rightarrow> failure_tracker \<Rightarrow> contract_error + failure_tracker" where
  "bump_category FK_Rejection t = (case checked_add (rejections t) 1 of
     None \<Rightarrow> Inl (InvalidBudget ''rejection counter overflow'')
   | Some n \<Rightarrow> Inr (t\<lparr>rejections := n\<rparr>))"
| "bump_category FK_Quarantine t = (case checked_add (quarantines t) 1 of
     None \<Rightarrow> Inl (InvalidBudget ''quarantine counter overflow'')
   | Some n \<Rightarrow> Inr (t\<lparr>quarantines := n\<rparr>))"
| "bump_category FK_Rollback t = (case checked_add (rollbacks t) 1 of
     None \<Rightarrow> Inl (InvalidBudget ''rollback counter overflow'')
   | Some n \<Rightarrow> Inr (t\<lparr>rollbacks := n\<rparr>))"

definition push_recent :: "failure_kind \<Rightarrow> failure_tracker \<Rightarrow> failure_tracker" where
  "push_recent k t =
     (let r = recent t @ [k]; window = unat (window_size (ft_budget t))
      in t\<lparr>recent := (if window < length r then drop (length r - window) r else r)\<rparr>)"

definition record_failure ::
  "failure_tracker \<Rightarrow> failure_kind \<Rightarrow> (contract_error + budget_decision) \<times> failure_tracker" where
  "record_failure t k =
     (case tracker_validate t of
        Inl e \<Rightarrow> (Inl e, t)
      | Inr _ \<Rightarrow>
        if is_exhausted t then (Inl BudgetExhausted, t)
        else case bump_category k t of
          Inl e \<Rightarrow> (Inl e, t)
        | Inr t1 \<Rightarrow>
          case checked_add (consecutive_failures t1) 1 of
            None \<Rightarrow> (Inl (InvalidBudget ''consecutive failure counter overflow''), t1)
          | Some n \<Rightarrow>
            let t2 = push_recent k (t1\<lparr>consecutive_failures := n\<rparr>)
            in case tracker_validate t2 of
                 Inl e \<Rightarrow> (Inl e, t2)
               | Inr _ \<Rightarrow>
                 (Inr (if is_exhausted t2 then BD_FreezeRequired else BD_Continue), t2))"

definition record_success :: "failure_tracker \<Rightarrow> failure_tracker" where
  "record_success t = t\<lparr>consecutive_failures := 0\<rparr>"

subsection \<open>The budget never overflows and its window never slides\<close>

definition total_failures :: "failure_tracker \<Rightarrow> nat" where
  "total_failures t = unat (rejections t) + unat (quarantines t) + unat (rollbacks t)"

fun category :: "failure_kind \<Rightarrow> failure_tracker \<Rightarrow> u32" where
  "category FK_Rejection t = rejections t"
| "category FK_Quarantine t = quarantines t"
| "category FK_Rollback t = rollbacks t"

lemma unat_u32_lt: "unat (w :: u32) < 4294967296"
  using unsigned_less [of w, where 'a = nat] by simp

lemma unat_ucast_u32 [simp]: "unat (ucast (x :: u32) :: u64) = unat x"
  by (simp add: unsigned_ucast_eq take_bit_nat_eq_self less_trans [OF unat_u32_lt])

lemma unat_total_u64:
  "unat ((ucast (a :: u32) :: u64) + ucast (b :: u32) + ucast (c :: u32)) = unat a + unat b + unat c"
  using unat_u32_lt [of a] unat_u32_lt [of b] unat_u32_lt [of c] by (simp add: unat_word_ariths)

lemma tracker_validate_iff:
  "tracker_validate t = Inr () \<longleftrightarrow>
     window_size (ft_budget t) \<noteq> 0 \<and>
     max_window_failures (ft_budget t) \<le> window_size (ft_budget t) \<and>
     length (recent t) \<le> unat (window_size (ft_budget t)) \<and>
     unat (consecutive_failures t) \<le> total_failures t \<and>
     (recent t = [] \<longrightarrow> consecutive_failures t = 0)"
  by (auto simp: tracker_validate_def budget_validate_def try_r_eq_Inr Let_def not_less
      word_le_nat_alt word_less_nat_alt unat_total_u64 total_failures_def word_unat_eq_iff
      split: if_splits)

lemma below_ceiling_room: "\<not> at_or_over x limit \<Longrightarrow> unat x + 1 < 2 ^ 32"
  using unat_u32_lt [of limit] by (auto simp: at_or_over_def word_less_nat_alt word_le_nat_alt)

lemma below_ceiling_bump:
  "\<not> at_or_over x limit \<Longrightarrow> \<exists>y. checked_add x 1 = Some y \<and> unat y = unat x + 1"
  using below_ceiling_room [of x limit] by (auto simp: checked_add_def unat_add_no_overflow)

lemma window_room:
  assumes "tracker_validate t = Inr ()" and "\<not> is_exhausted t"
  shows "length (recent t) < unat (window_size (ft_budget t))"
proof -
  let ?w = "window_size (ft_budget t)"
  have len: "length (recent t) \<le> unat ?w" and w: "?w \<noteq> 0"
    and mx: "unat (max_window_failures (ft_budget t)) \<le> unat ?w"
    using assms(1) by (simp_all add: tracker_validate_iff word_le_nat_alt)
  have "unat (of_nat (length (recent t)) :: u32) = length (recent t)"
    using len unat_u32_lt [of ?w] by (simp add: unat_of_nat take_bit_nat_eq_self)
  then have "length (recent t) = 0 \<or> length (recent t) < unat (max_window_failures (ft_budget t))"
    using assms(2) by (auto simp: is_exhausted_def at_or_over_def word_less_nat_alt word_le_nat_alt)
  then show ?thesis using mx w by (auto simp: word_unat_eq_iff)
qed

lemma all_failure_kind:
  "(\<forall>j. P j) \<longleftrightarrow> P FK_Rejection \<and> P FK_Quarantine \<and> P FK_Rollback"
  by (metis failure_kind.exhaust)

lemma bump_category_room:
  assumes "\<not> is_exhausted t"
  shows "\<exists>t1. bump_category k t = Inr t1 \<and> unat (category k t1) = unat (category k t) + 1 \<and>
     (\<forall>j. j \<noteq> k \<longrightarrow> category j t1 = category j t) \<and> total_failures t1 = total_failures t + 1 \<and>
     consecutive_failures t1 = consecutive_failures t \<and> recent t1 = recent t \<and>
     ft_budget t1 = ft_budget t"
proof -
  have "\<exists>limit. \<not> at_or_over (category k t) limit"
    using assms by (cases k) (auto simp: is_exhausted_def)
  then obtain y where "checked_add (category k t) 1 = Some y" "unat y = unat (category k t) + 1"
    using below_ceiling_bump by blast
  then show ?thesis
    by (cases k) (simp_all add: total_failures_def all_failure_kind)
qed

lemma record_failure_room:
  assumes valid: "tracker_validate t = Inr ()" and room: "\<not> is_exhausted t"
  shows "\<exists>t'. record_failure t k =
             (Inr (if is_exhausted t' then BD_FreezeRequired else BD_Continue), t') \<and>
           tracker_validate t' = Inr () \<and>
           unat (category k t') = unat (category k t) + 1 \<and>
           (\<forall>j. j \<noteq> k \<longrightarrow> category j t' = category j t) \<and>
           unat (consecutive_failures t') = unat (consecutive_failures t) + 1 \<and>
           recent t' = recent t @ [k] \<and> ft_budget t' = ft_budget t \<and>
           total_failures t' = total_failures t + 1"
proof -
  obtain t1 where t1: "bump_category k t = Inr t1" "unat (category k t1) = unat (category k t) + 1"
    "\<forall>j. j \<noteq> k \<longrightarrow> category j t1 = category j t" "total_failures t1 = total_failures t + 1"
    "consecutive_failures t1 = consecutive_failures t" "recent t1 = recent t"
    "ft_budget t1 = ft_budget t"
    using bump_category_room [OF room] by blast
  have "\<not> at_or_over (consecutive_failures t) (max_consecutive_failures (ft_budget t))"
    using room by (simp add: is_exhausted_def)
  then obtain n where n: "checked_add (consecutive_failures t) 1 = Some n"
    "unat n = unat (consecutive_failures t) + 1"
    using below_ceiling_bump by blast
  let ?t2 = "t1\<lparr>consecutive_failures := n, recent := recent t @ [k]\<rparr>"
  have push: "push_recent k (t1\<lparr>consecutive_failures := n\<rparr>) = ?t2"
    using window_room [OF valid room] t1 by (simp add: push_recent_def Let_def)
  have cat: "category j ?t2 = category j t1" for j by (cases j) simp_all
  have tot: "total_failures ?t2 = total_failures t1" by (simp add: total_failures_def)
  have v2: "tracker_validate ?t2 = Inr ()"
    using valid window_room [OF valid room] t1 n tot by (simp add: tracker_validate_iff)
  show ?thesis
    using valid room t1 n v2 tot by (intro exI [of _ ?t2]) (simp add: record_failure_def push cat)
qed

lemma record_failure_valid:
  assumes "tracker_validate t = Inr ()"
  shows "tracker_validate (snd (record_failure t k)) = Inr ()"
proof (cases "is_exhausted t")
  case True
  then show ?thesis using assms by (simp add: record_failure_def)
next
  case False
  then show ?thesis using record_failure_room [OF assms False, of k] by auto
qed

lemma record_success_valid:
  "tracker_validate t = Inr () \<Longrightarrow> tracker_validate (record_success t) = Inr ()"
  by (auto simp: tracker_validate_iff record_success_def total_failures_def)

lemma budget_tracker_valid: "budget_tracker b = Inr t \<Longrightarrow> tracker_validate t = Inr () \<and> \<not> is_exhausted t"
  by (auto simp: budget_tracker_def try_r_eq_Inr tracker_validate_def is_exhausted_def at_or_over_def)

text \<open>A tracker as a machine: failures and successes in any order.\<close>

datatype tracker_op = Op_Failure failure_kind | Op_Success

fun tracker_step :: "failure_tracker \<Rightarrow> tracker_op \<Rightarrow> failure_tracker" where
  "tracker_step t (Op_Failure k) = snd (record_failure t k)"
| "tracker_step t Op_Success = record_success t"

definition tracker_inv :: "failure_tracker \<Rightarrow> bool" where
  "tracker_inv t \<longleftrightarrow> tracker_validate t = Inr () \<and> length (recent t) = total_failures t"

lemma record_failure_exhausted:
  "tracker_validate t = Inr () \<Longrightarrow> is_exhausted t \<Longrightarrow> record_failure t k = (Inl BudgetExhausted, t)"
  by (simp add: record_failure_def)

interpretation tracker: machine tracker_step tracker_inv
proof
  fix t a
  assume inv: "tracker_inv t"
  show "tracker_inv (tracker_step t a)"
  proof (cases a)
    case (Op_Failure k)
    show ?thesis
    proof (cases "is_exhausted t")
      case True
      then show ?thesis using inv Op_Failure record_failure_exhausted [of t k]
        by (simp add: tracker_inv_def)
    next
      case False
      then show ?thesis using inv Op_Failure record_failure_room [of t k]
        by (auto simp: tracker_inv_def)
    qed
  next
    case Op_Success
    then show ?thesis using inv record_success_valid [of t]
      by (auto simp: tracker_inv_def record_success_def total_failures_def)
  qed
qed

lemma budget_tracker_inv: "budget_tracker b = Inr t \<Longrightarrow> tracker_inv t"
  using budget_tracker_valid [of b t]
  by (auto simp: tracker_inv_def budget_tracker_def try_r_eq_Inr total_failures_def)

section \<open>Properties of the contract\<close>

abbreviation lifecycle_step :: "lifecycle \<Rightarrow> lifecycle_event \<Rightarrow> lifecycle" where
  "lifecycle_step l e \<equiv> snd (lifecycle_apply l e)"

interpretation lifecycle: machine lifecycle_step lifecycle_ok
  by unfold_locales (rule lifecycle_apply_ok)

lemma lifecycle_rebuild:
  "length es < 2 ^ 64 \<Longrightarrow> replay_events LS_Proposal es = Inr s \<Longrightarrow>
     run_ops lifecycle_step lifecycle_new es =
       \<lparr>lc_state = s, lc_revision = of_nat (length es), lc_events = es\<rparr>"
proof (induction es arbitrary: s rule: rev_induct)
  case Nil
  then show ?case by (simp add: lifecycle_new_def)
next
  case (snoc e es)
  obtain s0 where s0: "replay_events LS_Proposal es = Inr s0" "transition s0 e = Inr s"
    using snoc.prems(2) by (auto simp: replay_events_append try_r_eq_Inr)
  have "(of_nat (length es) :: u64) \<noteq> u64_max"
    using snoc.prems(1) of_nat_eq_u64_max [of "length es"] by auto
  then show ?case
    using snoc.IH [OF _ s0(1)] snoc.prems(1) s0(2)
    by (simp add: run_ops_append lifecycle_apply_def)
qed

text \<open>
  \<open>Lifecycle::validate\<close> accepts exactly the records that the code can produce: with a history
  that fits the 64-bit revision, a record validates if and only if some sequence of \<open>apply\<close> calls (failing ones
  included) turns a new record into it.
\<close>

theorem lifecycle_validate_complete:
  "lifecycle_validate l = Inr () \<and> length (lc_events l) < 2 ^ 64 \<longleftrightarrow>
     (\<exists>es. l = run_ops lifecycle_step lifecycle_new es)"
proof
  assume l: "lifecycle_validate l = Inr () \<and> length (lc_events l) < 2 ^ 64"
  then have "l = run_ops lifecycle_step lifecycle_new (lc_events l)"
    using lifecycle_rebuild [of "lc_events l" "lc_state l"] by (simp add: lifecycle_validate_iff)
  then show "\<exists>es. l = run_ops lifecycle_step lifecycle_new es" by blast
next
  assume "\<exists>es. l = run_ops lifecycle_step lifecycle_new es"
  then have "lifecycle_ok l" using lifecycle.run_inv [OF lifecycle_new_ok] by blast
  then show "lifecycle_validate l = Inr () \<and> length (lc_events l) < 2 ^ 64"
    by (simp add: lifecycle_ok_def)
qed

lemma replay_shutdown: "is_shutdown s \<Longrightarrow> replay_events s es = Inr s' \<Longrightarrow> is_shutdown s'"
  by (induction es arbitrary: s) (auto simp: try_r_eq_Inr dest: transition_shutdown)

text \<open>
  The lifecycle is one way: whatever events follow, a rejected, frozen or killed record never executes
  again and never leaves the terminal states, execution starts only from \<open>Admitted\<close> by
  \<open>BeginExecution\<close>, every state but \<open>Frozen\<close> and \<open>Killed\<close> can be frozen and every state but \<open>Killed\<close> killed.
\<close>

theorem lifecycle_one_way:
  "(is_terminal s \<and> replay_events s es = Inr s' \<longrightarrow> is_terminal s') \<and>
   (is_shutdown s \<and> replay_events s es = Inr s' \<longrightarrow> is_shutdown s') \<and>
   (transition s e = Inr LS_Executing \<longleftrightarrow> s = LS_Admitted \<and> e = EV_BeginExecution) \<and>
   (is_ok (transition s EV_Freeze) \<longleftrightarrow> \<not> is_shutdown s) \<and>
   (is_ok (transition s EV_Kill) \<longleftrightarrow> s \<noteq> LS_Killed)"
  using replay_terminal replay_shutdown transition_into_Executing
  by (auto simp: transition_Freeze transition_Kill)

theorem lifecycle_one_way_witness:
  "is_terminal LS_Rejected \<and> replay_events LS_Rejected [EV_Freeze, EV_Kill] = Inr LS_Killed \<and>
   is_terminal LS_Killed"
  using lifecycle_one_way [of LS_Rejected "[EV_Freeze, EV_Kill]" LS_Killed EV_Kill]
  by (simp add: is_terminal_def is_shutdown_def)

text \<open>
  C27.  The failure budget counts every failure and nothing else: after any sequence of failures and
  successes on a tracker that \<open>FailureBudget::tracker\<close> made, \<open>record_failure\<close> refuses if and only if the budget is
  already exhausted; otherwise it adds one to the category, to the run of consecutive failures and to
  \<open>recent\<close>, and asks for a freeze exactly when a ceiling is now reached.  None of the counters can overflow, and
  \<open>recent\<close> always holds all failures so far: its window never drops one.
\<close>

theorem failure_budget_exact:
  assumes "budget_tracker b = Inr t0"
  shows "let t = run_ops tracker_step t0 ops in
    (if is_exhausted t then record_failure t k = (Inl BudgetExhausted, t)
     else \<exists>t'. record_failure t k =
            (Inr (if is_exhausted t' then BD_FreezeRequired else BD_Continue), t') \<and>
          unat (category k t') = unat (category k t) + 1 \<and>
          (\<forall>j. j \<noteq> k \<longrightarrow> category j t' = category j t) \<and>
          unat (consecutive_failures t') = unat (consecutive_failures t) + 1 \<and>
          recent t' = recent t @ [k] \<and> ft_budget t' = ft_budget t) \<and>
    length (recent t) = total_failures t"
proof -
  let ?t = "run_ops tracker_step t0 ops"
  have "tracker_inv ?t" using tracker.run_inv budget_tracker_inv [OF assms] by blast
  then have valid: "tracker_validate ?t = Inr ()" and len: "length (recent ?t) = total_failures ?t"
    by (simp_all add: tracker_inv_def)
  show ?thesis
  proof (cases "is_exhausted ?t")
    case True
    then show ?thesis using record_failure_exhausted [OF valid True] len by (simp add: Let_def)
  next
    case False
    obtain t' where "record_failure ?t k =
            (Inr (if is_exhausted t' then BD_FreezeRequired else BD_Continue), t')"
      "unat (category k t') = unat (category k ?t) + 1"
      "\<forall>j. j \<noteq> k \<longrightarrow> category j t' = category j ?t"
      "unat (consecutive_failures t') = unat (consecutive_failures ?t) + 1"
      "recent t' = recent ?t @ [k]" "ft_budget t' = ft_budget ?t"
      using record_failure_room [OF valid False, of k] by blast
    then show ?thesis unfolding Let_def using False len by (simp only: if_False) blast
  qed
qed

theorem failure_budget_exact_witness:
  "let b = \<lparr>max_rejections = 3, max_quarantines = 3, max_rollbacks = 3,
        max_consecutive_failures = 2, max_window_failures = 2, window_size = 4\<rparr>;
       t = \<lparr>ft_budget = b, rejections = 1, quarantines = 0, rollbacks = 0,
          consecutive_failures = 0, recent = [FK_Rejection]\<rparr>
   in \<exists>t'. fst (record_failure t FK_Rollback) \<noteq> Inl BudgetExhausted \<and>
      snd (record_failure t FK_Rollback) = t' \<and> recent t' = [FK_Rejection, FK_Rollback]"
proof -
  let ?b = "\<lparr>max_rejections = 3, max_quarantines = 3, max_rollbacks = 3,
        max_consecutive_failures = 2, max_window_failures = 2, window_size = 4\<rparr>"
  let ?init = "\<lparr>ft_budget = ?b, rejections = 0, quarantines = 0, rollbacks = 0,
          consecutive_failures = 0, recent = []\<rparr>"
  let ?t = "\<lparr>ft_budget = ?b, rejections = 1, quarantines = 0, rollbacks = 0,
          consecutive_failures = 0, recent = [FK_Rejection]\<rparr>"
  have b: "budget_tracker ?b = Inr ?init"
    unfolding budget_tracker_def budget_validate_def by simp
  have t: "run_ops tracker_step ?init [Op_Failure FK_Rejection, Op_Success] = ?t"
    by (simp add: record_failure_def tracker_validate_def budget_validate_def is_exhausted_def
        at_or_over_def checked_add_def push_recent_def Let_def record_success_def)
  have ne: "\<not> is_exhausted ?t" by (simp add: is_exhausted_def at_or_over_def word_le_nat_alt)
  obtain t' where "record_failure ?t FK_Rollback =
        (Inr (if is_exhausted t' then BD_FreezeRequired else BD_Continue), t')"
      "recent t' = recent ?t @ [FK_Rollback]"
    using failure_budget_exact [OF b, of "[Op_Failure FK_Rejection, Op_Success]" FK_Rollback]
    unfolding t Let_def using ne by (simp only: if_False) blast
  then show ?thesis unfolding Let_def by (simp split del: if_split)
qed

text \<open>
  Capability sets form the powerset lattice: \<open>join\<close> is the least upper and \<open>meet\<close> the
  greatest lower bound for \<open>leq\<close>, which is antisymmetric, \<open>covers\<close> is its converse,
  \<open>empty\<close> and \<open>all\<close> are its ends, and no authority appears in a meet or join that was not in an argument.
\<close>

theorem capability_set_lattice:
  assumes "cs_wf s" and "cs_wf t" and "cs_wf u"
  shows "(cs_leq (cs_join s t) u \<longleftrightarrow> cs_leq s u \<and> cs_leq t u) \<and>
    (cs_leq u (cs_meet s t) \<longleftrightarrow> cs_leq u s \<and> cs_leq u t) \<and>
    (cs_leq s t \<and> cs_leq t s \<longleftrightarrow> s = t) \<and> (cs_covers s t \<longleftrightarrow> cs_leq t s) \<and>
    cs_leq cs_empty s \<and> cs_leq s cs_all \<and> cs_wf (cs_join s t) \<and> cs_wf (cs_meet s t) \<and>
    (cs_contains (cs_join s t) a \<longleftrightarrow> cs_contains s a \<or> cs_contains t a) \<and>
    (cs_contains (cs_meet s t) a \<longleftrightarrow> cs_contains s a \<and> cs_contains t a) \<and>
    cs_meet s (cs_join t u) = cs_join (cs_meet s t) (cs_meet s u)"
  using cap_lattice.below_antisym [OF assms(1,2)] cap_lattice.meet_join_distrib [OF assms]
    cap_lattice.invar_join [OF assms(1,2)] cap_lattice.invar_meet [OF assms(1,2)] cs_bounds
  by (auto simp: cs_leq_def cs_covers_def cs_contains_def cs_join_def cs_meet_def bs_contains_def)

theorem capability_set_lattice_witness:
  "cs_contains (cs_join cs_empty (cs_from_slice [Auth_Spend, Auth_Read])) Auth_Read \<and>
   cs_leq (cs_meet cs_all (cs_from_slice [Auth_Spend])) cs_all"
  using capability_set_lattice [OF cs_constructors_wf(1) cs_constructors_wf(3) cs_constructors_wf(2),
      of "[Auth_Spend, Auth_Read]" Auth_Read]
    capability_set_lattice [OF cs_constructors_wf(2) cs_constructors_wf(3) cs_constructors_wf(2),
      of "[Auth_Spend]" Auth_Read]
  by (simp add: cs_contains_def cs_from_slice_def cs_leq_def cs_all_def bs_contains_def cs_meet_def)

end
