(* ===== verification/Encoding.thy ===== *)
theory Encoding
  imports Containers
begin

text \<open>
  Canonical bytes and digests (\<open>canonical_bytes\<close>, \<open>digest_bytes\<close>, \<open>digest\<close> of lib.rs).
  \<open>serde_json::to_vec\<close> and the SHA-256 of the \<open>sha2\<close> crate are third-party code: they are
  the two fields of the record \<open>crypto\<close>, a parameter of every definition that hashes.
  What serde's derived \<open>Serialize\<close> hands to \<open>to_vec\<close> is the tree \<open>json\<close>: a struct is an
  object with the fields in declaration order, a tuple or a sequence an array, a unit
  variant its name, \<open>Some x\<close> the encoding of \<open>x\<close> and \<open>None\<close> null.  The locale
  \<open>canonical\<close> is the contract of an encoding that loses nothing; the locale
  \<open>hash_chain\<close> the contract of a journal whose entries name their predecessor by digest.
\<close>

section \<open>Values and bytes\<close>

datatype json =
    JNull
  | JBool bool
  | JInt int
  | JFloat u64
  | JStr string
  | JArr "json list"
  | JObj "(string \<times> json) list"

record crypto =
  sha256 :: "u8 list \<Rightarrow> u8 list"
  to_vec :: "json \<Rightarrow> u8 list"

text \<open>A SHA-256 value has 32 bytes.\<close>

definition sha256_len :: "crypto \<Rightarrow> bool" where
  "sha256_len env \<longleftrightarrow> (\<forall>bs. length (sha256 env bs) = 32)"

definition canonical_bytes :: "crypto \<Rightarrow> json \<Rightarrow> u8 list" where
  "canonical_bytes env value = to_vec env value"

definition hex_digit :: "nat \<Rightarrow> char" where
  "hex_digit n = ''0123456789abcdef'' ! n"

definition hex_byte :: "u8 \<Rightarrow> string" where
  "hex_byte b = [hex_digit (unat b div 16), hex_digit (unat b mod 16)]"

definition digest_bytes :: "crypto \<Rightarrow> u8 list \<Rightarrow> string" where
  "digest_bytes env bytes = concat (map hex_byte (sha256 env bytes))"

definition digest :: "crypto \<Rightarrow> json \<Rightarrow> string" where
  "digest env value = digest_bytes env (canonical_bytes env value)"

text \<open>The name of the state slice that every signed or released record carries.\<close>

definition STATE_SLICE :: string where
  "STATE_SLICE = ''security-alignment-os-foundation-v1''"

definition str_bytes :: "string \<Rightarrow> u8 list" where
  "str_bytes s = map of_char s"

lemma hex_digit_ok:
  assumes "n < 16"
  shows "is_ascii_hexdigit (hex_digit n)" "\<not> is_ascii_uppercase (hex_digit n)"
proof -
  have "\<forall>c \<in> set ''0123456789abcdef''. is_ascii_hexdigit c \<and> \<not> is_ascii_uppercase c"
    by (simp add: is_ascii_hexdigit_def is_ascii_uppercase_def)
  moreover have "hex_digit n \<in> set ''0123456789abcdef''"
    unfolding hex_digit_def by (rule nth_mem) (use assms in simp)
  ultimately show "is_ascii_hexdigit (hex_digit n)" "\<not> is_ascii_uppercase (hex_digit n)"
    by blast+
qed

lemma unat_u8_div: "unat (b :: u8) div 16 < 16"
  by (simp add: less_mult_imp_div_less unsigned_less [where w = b, simplified])

lemma length_hex: "length (concat (map hex_byte bs)) = 2 * length bs"
  by (induction bs) (simp_all add: hex_byte_def)

lemma hex_zeros: "concat (map hex_byte (replicate n 0)) = replicate (2 * n) (CHR ''0'')"
  by (induction n) (simp_all add: hex_byte_def hex_digit_def)

lemma hex_chars:
  "list_all (\<lambda>c. is_ascii_hexdigit c \<and> \<not> is_ascii_uppercase c) (concat (map hex_byte bs))"
  by (induction bs) (simp_all add: hex_byte_def hex_digit_ok unat_u8_div)

lemma valid_digest_bytes [simp]: "sha256_len env \<Longrightarrow> valid_digest (digest_bytes env bs)"
  by (simp add: digest_bytes_def valid_digest_def length_hex hex_chars sha256_len_def)

lemma valid_digest_digest [simp]: "sha256_len env \<Longrightarrow> valid_digest (digest env j)"
  by (simp add: digest_def)

lemma digest_nonempty: "sha256_len env \<Longrightarrow> digest env j \<noteq> []"
  by (rule valid_digest_nonempty) simp

text \<open>
  An environment that exists: a constant digest of 32 bytes.  The witnesses use it to show
  that the hypothesis \<open>sha256_len\<close> of the theorems can hold.
\<close>

definition demo_env :: crypto where
  "demo_env = \<lparr>sha256 = \<lambda>_. replicate 32 0, to_vec = \<lambda>_. []\<rparr>"

lemma demo_sha256_len [simp]: "sha256_len demo_env"
  by (simp add: sha256_len_def demo_env_def)

lemma demo_digest_bytes [simp]: "digest_bytes demo_env bs = zero_digest"
  using hex_zeros [of 32] by (simp add: digest_bytes_def demo_env_def zero_digest_def)

lemma demo_digest [simp]: "digest demo_env j = zero_digest"
  by (simp add: digest_def)

section \<open>Collisions\<close>

text \<open>
  Two different values with one digest.  The theorems of the development do not assume
  that there are none (no such function into 64 digits exists): they name the pair.
\<close>

definition collision :: "crypto \<Rightarrow> json \<Rightarrow> json \<Rightarrow> bool" where
  "collision env a b \<longleftrightarrow> a \<noteq> b \<and> digest env a = digest env b"

lemma digest_eq_cases: "digest env a = digest env b \<Longrightarrow> a = b \<or> collision env a b"
  by (auto simp: collision_def)

section \<open>Encoders of the standard types\<close>

definition json_word :: "'a::len word \<Rightarrow> json" where
  "json_word w = JInt (uint w)"

definition json_opt :: "('a \<Rightarrow> json) \<Rightarrow> 'a option \<Rightarrow> json" where
  "json_opt f x = (case x of None \<Rightarrow> JNull | Some v \<Rightarrow> f v)"

definition json_list :: "('a \<Rightarrow> json) \<Rightarrow> 'a list \<Rightarrow> json" where
  "json_list f xs = JArr (map f xs)"

definition json_map :: "('v \<Rightarrow> json) \<Rightarrow> (string, 'v) btree \<Rightarrow> json" where
  "json_map f m = JObj (map (\<lambda>(k, v). (k, f v)) m)"

lemma json_word_inject [simp]: "json_word v = json_word w \<longleftrightarrow> v = w"
  by (simp add: json_word_def word_uint_eq_iff)

lemma json_list_inject: "inj f \<Longrightarrow> json_list f xs = json_list f ys \<longleftrightarrow> xs = ys"
  by (simp add: json_list_def inj_map_eq_map)

lemma json_map_inject: "inj f \<Longrightarrow> json_map f m = json_map f n \<longleftrightarrow> m = n"
proof -
  assume "inj f"
  then have "inj (\<lambda>(k :: string, v). (k, f v))" by (auto simp: inj_def)
  then show ?thesis by (simp add: json_map_def inj_map_eq_map)
qed

lemma json_opt_inject:
  assumes "inj f" and "\<And>x. f x \<noteq> JNull"
  shows "json_opt f x = json_opt f y \<longleftrightarrow> x = y"
  using assms injD [OF assms(1)] by (auto simp: json_opt_def split: option.splits) metis+

lemma inj_JStr [simp]: "inj JStr"
  by (simp add: inj_def)

lemma inj_json_word [simp]: "inj json_word"
  by (simp add: inj_def)

lemmas json_list_JStr [simp] = json_list_inject [OF inj_JStr]
lemmas json_list_word [simp] = json_list_inject [OF inj_json_word]
lemmas json_map_JStr [simp] = json_map_inject [OF inj_JStr]
lemmas json_map_word [simp] = json_map_inject [OF inj_json_word]

section \<open>Encodings that lose nothing\<close>

locale canonical =
  fixes enc :: "'a \<Rightarrow> json"
  assumes enc_inject: "enc x = enc y \<Longrightarrow> x = y"
begin

lemma enc_eq: "enc x = enc y \<longleftrightarrow> x = y"
  using enc_inject by blast

lemma inj_enc: "inj enc"
  by (rule injI) (rule enc_inject)

lemma digest_binds: "digest env (enc x) = digest env (enc y) \<Longrightarrow> x = y \<or> collision env (enc x) (enc y)"
  using digest_eq_cases enc_inject by blast

end

section \<open>Journals chained by digest\<close>

fun chain_ok ::
  "crypto \<Rightarrow> ('e \<Rightarrow> u64) \<Rightarrow> ('e \<Rightarrow> string) \<Rightarrow> ('e \<Rightarrow> json) \<Rightarrow> ('e \<Rightarrow> string) \<Rightarrow>
    nat \<Rightarrow> string \<Rightarrow> 'e list \<Rightarrow> bool" where
  "chain_ok env sq pv mat dg i p [] = True"
| "chain_ok env sq pv mat dg i p (e # es) =
     (sq e = of_nat i \<and> pv e = p \<and> digest env (mat e) = dg e \<and>
      chain_ok env sq pv mat dg (Suc i) (dg e) es)"

definition chain_tip :: "('e \<Rightarrow> string) \<Rightarrow> string \<Rightarrow> 'e list \<Rightarrow> string" where
  "chain_tip dg p es = (if es = [] then p else dg (last es))"

lemma chain_tip_simps [simp]:
  "chain_tip dg p [] = p" "chain_tip dg p (es @ [e]) = dg e"
  by (simp_all add: chain_tip_def)

lemma chain_tip_Cons: "chain_tip dg p (e # es) = chain_tip dg (dg e) es"
  by (simp add: chain_tip_def)

lemma chain_ok_snoc:
  "chain_ok env sq pv mat dg i p (es @ [e]) \<longleftrightarrow>
     chain_ok env sq pv mat dg i p es \<and> sq e = of_nat (i + length es) \<and>
     pv e = chain_tip dg p es \<and> digest env (mat e) = dg e"
proof (induction es arbitrary: i p)
  case (Cons a es)
  then show ?case by (auto simp: chain_tip_Cons)
qed auto

locale hash_chain =
  fixes sq :: "'e \<Rightarrow> u64" and pv :: "'e \<Rightarrow> string"
    and mat :: "'e \<Rightarrow> json" and dg :: "'e \<Rightarrow> string"
  assumes material_binds: "mat e = mat f \<Longrightarrow> dg e = dg f \<Longrightarrow> e = f"
begin

lemma tip_determines:
  assumes "chain_ok env sq pv mat dg 0 p es" and "chain_ok env sq pv mat dg 0 p fs"
    and "es \<noteq> []" and "fs \<noteq> []"
    and "chain_tip dg p es = chain_tip dg p fs"
    and "length es < 2 ^ 64" and "length fs < 2 ^ 64"
  shows "es = fs \<or> (\<exists>e\<in>set es. \<exists>f\<in>set fs. collision env (mat e) (mat f))"
  using assms
proof (induction es arbitrary: fs rule: rev_induct)
  case (snoc e es)
  then obtain f fs' where fs: "fs = fs' @ [f]" by (cases fs rule: rev_cases) auto
  have dg: "dg e = dg f" using snoc.prems(5) by (simp add: fs)
  have e: "sq e = of_nat (length es)" "pv e = chain_tip dg p es" "digest env (mat e) = dg e"
    and f: "sq f = of_nat (length fs')" "pv f = chain_tip dg p fs'" "digest env (mat f) = dg f"
    using snoc.prems(1,2) by (simp_all add: fs chain_ok_snoc)
  consider "collision env (mat e) (mat f)" | "mat e = mat f"
    using digest_eq_cases [of env "mat e" "mat f"] e f dg by auto
  then show ?case
  proof cases
    case 1
    then show ?thesis by (auto simp: fs)
  next
    case 2
    then have ef: "e = f" using dg by (rule material_binds)
    have len: "length es = length fs'"
      using of_nat_u64_inject [of "length es" "length fs'"] e f snoc.prems(6,7) ef
      by (simp add: fs)
    show ?thesis
    proof (cases "es = []")
      case True
      then show ?thesis using len by (simp add: fs ef)
    next
      case False
      with len have "fs' \<noteq> []" by auto
      with False have "es = fs' \<or> (\<exists>e\<in>set es. \<exists>f\<in>set fs'. collision env (mat e) (mat f))"
        using snoc.IH [of fs'] snoc.prems e f len by (auto simp: fs ef chain_ok_snoc)
      then show ?thesis by (auto simp: fs ef)
    qed
  qed
qed simp

end

end
