(* ===== verification/Kernel_Types.thy ===== *)
theory Kernel_Types
  imports Contract Encoding
begin

text \<open>
  The transport values of src/lib.rs: \<open>Claim\<close>, \<open>Action\<close>, \<open>Proposal\<close>, \<open>Policy\<close>,
  \<open>Capability\<close>, \<open>Decision\<close>, with their validation and their canonical encodings.  Every
  encoding that the code hashes is shown to lose nothing (interpretations of
  \<open>canonical\<close>), so equal digests mean equal values or a named collision.
\<close>

section \<open>Claims\<close>

record claim =
  cl_guarantees :: "string list"
  cl_assumptions :: "string list"
  cl_excludes :: "string list"
  cl_maturity :: u8
  cl_trust_roots :: "string list"
  cl_valid_until :: u64
  cl_provenance_digest :: string

definition json_claim :: "claim \<Rightarrow> json" where
  [json_defs]: "json_claim c = JObj
    [(''guarantees'', json_list JStr (cl_guarantees c)),
     (''assumptions'', json_list JStr (cl_assumptions c)),
     (''excludes'', json_list JStr (cl_excludes c)),
     (''maturity'', json_word (cl_maturity c)),
     (''trust_roots'', json_list JStr (cl_trust_roots c)),
     (''valid_until'', json_word (cl_valid_until c)),
     (''provenance_digest'', JStr (cl_provenance_digest c))]"

definition claim_validate :: "claim \<Rightarrow> unit result" where
  "claim_validate c =
     (if list_ex (\<lambda>item. item = []) (cl_guarantees c @ cl_assumptions c @ cl_excludes c @ cl_trust_roots c)
      then Inl (Err_Invalid ''claim labels must be non-empty'')
      else if 3 < cl_maturity c \<or> \<not> valid_digest (cl_provenance_digest c)
      then Inl (Err_Invalid ''invalid claim maturity or provenance digest'')
      else Inr ())"

definition claim_qualifies :: "claim \<Rightarrow> u64 \<Rightarrow> bool" where
  "claim_qualifies c now \<longleftrightarrow>
     is_ok (claim_validate c) \<and> now < cl_valid_until c \<and> 1 \<le> cl_maturity c \<and>
     list_ex (\<lambda>item. item = ''PolicyCompliance'') (cl_guarantees c) \<and>
     \<not> list_ex (\<lambda>item. item = ''PolicyCompliance'') (cl_excludes c) \<and>
     list_all (\<lambda>item. item \<in> set (cl_guarantees c)) (cl_assumptions c)"

section \<open>Actions\<close>

datatype action =
    Act_Read | Act_Write | Act_Network | Act_Secrets
  | Act_Spend | Act_Replicate | Act_SelfModify | Act_Execute

fun action_rank :: "action \<Rightarrow> nat" where
  "action_rank Act_Read = 0"
| "action_rank Act_Write = 1"
| "action_rank Act_Network = 2"
| "action_rank Act_Secrets = 3"
| "action_rank Act_Spend = 4"
| "action_rank Act_Replicate = 5"
| "action_rank Act_SelfModify = 6"
| "action_rank Act_Execute = 7"

lemma action_rank_inject: "action_rank a = action_rank b \<longleftrightarrow> a = b"
  by (cases a; cases b) simp_all

instantiation action :: linorder
begin

definition less_eq_action :: "action \<Rightarrow> action \<Rightarrow> bool" where
  "less_eq_action a b \<longleftrightarrow> action_rank a \<le> action_rank b"

definition less_action :: "action \<Rightarrow> action \<Rightarrow> bool" where
  "less_action a b \<longleftrightarrow> action_rank a < action_rank b"

instance
  by standard (auto simp: less_eq_action_def less_action_def action_rank_inject)

end

definition action_all :: "action list" where
  "action_all = [Act_Read, Act_Write, Act_Network, Act_Secrets,
     Act_Spend, Act_Replicate, Act_SelfModify, Act_Execute]"

fun action_name :: "action \<Rightarrow> string" where
  "action_name Act_Read = ''Read''"
| "action_name Act_Write = ''Write''"
| "action_name Act_Network = ''Network''"
| "action_name Act_Secrets = ''Secrets''"
| "action_name Act_Spend = ''Spend''"
| "action_name Act_Replicate = ''Replicate''"
| "action_name Act_SelfModify = ''SelfModify''"
| "action_name Act_Execute = ''Execute''"

definition json_action :: "action \<Rightarrow> json" where
  "json_action a = JStr (action_name a)"

fun action_of_authority :: "authority \<Rightarrow> action" where
  "action_of_authority Auth_Read = Act_Read"
| "action_of_authority Auth_Write = Act_Write"
| "action_of_authority Auth_Network = Act_Network"
| "action_of_authority Auth_Secrets = Act_Secrets"
| "action_of_authority Auth_Spend = Act_Spend"
| "action_of_authority Auth_Replicate = Act_Replicate"
| "action_of_authority Auth_Execute = Act_Execute"
| "action_of_authority Auth_SelfModify = Act_SelfModify"

fun authority_of_action :: "action \<Rightarrow> authority" where
  "authority_of_action Act_Read = Auth_Read"
| "authority_of_action Act_Write = Auth_Write"
| "authority_of_action Act_Network = Auth_Network"
| "authority_of_action Act_Secrets = Auth_Secrets"
| "authority_of_action Act_Spend = Auth_Spend"
| "authority_of_action Act_Replicate = Auth_Replicate"
| "authority_of_action Act_Execute = Auth_Execute"
| "authority_of_action Act_SelfModify = Auth_SelfModify"

section \<open>Proposals, policies, capabilities, decisions\<close>

record proposal =
  pr_candidate_id :: string
  pr_agent_id :: string
  pr_intent :: string
  pr_action :: action
  pr_scope :: string
  pr_payload :: "(string, json) btree"
  pr_resource_cost :: "(string, u64) btree"
  pr_source_digest :: string
  pr_claims :: "claim list"
  pr_nonce :: u64
  pr_expires_at :: u64
  pr_requests_direct_authority :: bool

definition json_proposal :: "proposal \<Rightarrow> json" where
  [json_defs]: "json_proposal p = JObj
    [(''candidate_id'', JStr (pr_candidate_id p)),
     (''agent_id'', JStr (pr_agent_id p)),
     (''intent'', JStr (pr_intent p)),
     (''action'', json_action (pr_action p)),
     (''scope'', JStr (pr_scope p)),
     (''payload'', JObj (pr_payload p)),
     (''resource_cost'', json_map json_word (pr_resource_cost p)),
     (''source_digest'', JStr (pr_source_digest p)),
     (''claims'', json_list json_claim (pr_claims p)),
     (''nonce'', json_word (pr_nonce p)),
     (''expires_at'', json_word (pr_expires_at p)),
     (''requests_direct_authority'', JBool (pr_requests_direct_authority p))]"

definition proposal_digest :: "crypto \<Rightarrow> proposal \<Rightarrow> string" where
  "proposal_digest env p = digest env (json_proposal p)"

definition proposal_validate_shape :: "proposal \<Rightarrow> u64 \<Rightarrow> unit result" where
  "proposal_validate_shape p now =
     (if pr_candidate_id p = [] \<or> pr_agent_id p = [] \<or> pr_intent p = [] \<or> pr_scope p = []
      then Inl (Err_Invalid ''proposal identity and intent are required'')
      else if \<not> valid_digest (pr_source_digest p) \<or> pr_expires_at p \<le> now \<or> pr_nonce p = 0
      then Inl (Err_Invalid ''proposal digest, nonce, or validity is invalid'')
      else if list_ex (\<lambda>c. \<not> is_ok (claim_validate c)) (pr_claims p)
      then Inl (Err_Invalid ''proposal contains malformed claim'')
      else Inr ())"

record policy =
  po_allowed_actions :: "action bset"
  po_allowed_scopes :: "string bset"
  po_max_cost :: "(string, u64) btree"
  po_token_ttl :: u64

definition policy_default :: policy where
  "policy_default = \<lparr>po_allowed_actions = bs_from_list [Act_Read, Act_Write],
     po_allowed_scopes = bs_from_list [''public'', ''sandbox''],
     po_max_cost = fold (\<lambda>(k, v). bt_insert k v)
       [(''cpu_ms'', 1000), (''bytes'', 1000000), (''spend'', 0)] [],
     po_token_ttl = 30\<rparr>"

definition policy_validate :: "policy \<Rightarrow> unit result" where
  "policy_validate p =
     (if po_token_ttl p = 0 \<or> po_allowed_scopes p = [] \<or>
         list_ex (\<lambda>scope. scope = [] \<or> has_control scope) (po_allowed_scopes p) \<or>
         list_ex (\<lambda>axis. axis = [] \<or> has_control axis) (bt_keys (po_max_cost p))
      then Inl (Err_Invalid ''policy is malformed'') else Inr ())"

definition json_policy :: "policy \<Rightarrow> json" where
  [json_defs]: "json_policy p = JObj
    [(''allowed_actions'', json_list json_action (po_allowed_actions p)),
     (''allowed_scopes'', json_list JStr (po_allowed_scopes p)),
     (''max_cost'', json_map json_word (po_max_cost p)),
     (''token_ttl'', json_word (po_token_ttl p))]"

definition policy_digest :: "crypto \<Rightarrow> policy \<Rightarrow> string" where
  "policy_digest env p = digest env (json_policy p)"

record capability =
  ca_token_id :: string
  ca_agent_id :: string
  ca_action :: action
  ca_scope :: string
  ca_intent_digest :: string
  ca_issued_at :: u64
  ca_expires_at :: u64
  ca_budget :: "(string, u64) btree"

definition json_capability :: "capability \<Rightarrow> json" where
  [json_defs]: "json_capability c = JObj
    [(''token_id'', JStr (ca_token_id c)),
     (''agent_id'', JStr (ca_agent_id c)),
     (''action'', json_action (ca_action c)),
     (''scope'', JStr (ca_scope c)),
     (''intent_digest'', JStr (ca_intent_digest c)),
     (''issued_at'', json_word (ca_issued_at c)),
     (''expires_at'', json_word (ca_expires_at c)),
     (''budget'', json_map json_word (ca_budget c))]"

datatype decision_kind = DK_Accepted | DK_Rejected | DK_Quarantined

fun json_decision_kind :: "decision_kind \<Rightarrow> json" where
  "json_decision_kind DK_Accepted = JStr ''Accepted''"
| "json_decision_kind DK_Rejected = JStr ''Rejected''"
| "json_decision_kind DK_Quarantined = JStr ''Quarantined''"

record decision =
  de_candidate_id :: string
  de_kind :: decision_kind
  de_reason :: string
  de_candidate_digest :: string
  de_policy_digest :: string
  de_capability :: "capability option"
  de_decision_digest :: string

section \<open>The hashed tuples\<close>

definition intent_material :: "proposal \<Rightarrow> json" where
  "intent_material p = JArr [JStr (pr_agent_id p), JStr (pr_intent p), json_action (pr_action p),
     JStr (pr_scope p), json_word (pr_nonce p)]"

definition token_material :: "string \<Rightarrow> u64 \<Rightarrow> string \<Rightarrow> json" where
  "token_material candidate now pol = JArr [JStr candidate, json_word now, JStr pol]"

definition decision_material ::
  "string \<Rightarrow> decision_kind \<Rightarrow> string \<Rightarrow> string \<Rightarrow> string \<Rightarrow> capability option \<Rightarrow> json" where
  "decision_material cand_id kind reason cand pol cap =
     JArr [JStr cand_id, json_decision_kind kind, JStr reason, JStr cand, JStr pol,
       json_opt json_capability cap]"

definition replay_material :: "string \<Rightarrow> u64 \<Rightarrow> json" where
  "replay_material agent nonce = JArr [JStr agent, json_word nonce]"

section \<open>The encodings lose nothing\<close>

lemma json_action_inject [simp]: "json_action a = json_action b \<longleftrightarrow> a = b"
  by (cases a; cases b) (simp_all add: json_action_def)

lemma inj_json_action [simp]: "inj json_action"
  by (simp add: inj_def)

lemma json_decision_kind_inject [simp]: "json_decision_kind a = json_decision_kind b \<longleftrightarrow> a = b"
  by (cases a; cases b) simp_all

lemmas json_list_action [simp] = json_list_inject [OF inj_json_action]

interpretation canon_claim: canonical json_claim
  by unfold_locales (auto simp: json_claim_def intro: claim.equality)

lemmas json_list_claim [simp] = json_list_inject [OF canon_claim.inj_enc]

interpretation canon_proposal: canonical json_proposal
  by unfold_locales (auto simp: json_proposal_def intro: proposal.equality)

interpretation canon_policy: canonical json_policy
  by unfold_locales (auto simp: json_policy_def intro: policy.equality)

interpretation canon_capability: canonical json_capability
  by unfold_locales (auto simp: json_capability_def intro: capability.equality)

lemma json_capability_not_null: "json_capability c \<noteq> JNull"
  by (simp add: json_capability_def)

lemmas json_opt_capability [simp] =
  json_opt_inject [OF canon_capability.inj_enc json_capability_not_null]

lemma decision_material_inject:
  "decision_material a k r c p x = decision_material a' k' r' c' p' x' \<longleftrightarrow>
     a = a' \<and> k = k' \<and> r = r' \<and> c = c' \<and> p = p' \<and> x = x'"
  by (auto simp: decision_material_def)

lemma replay_material_inject:
  "replay_material a n = replay_material b m \<longleftrightarrow> a = b \<and> n = m"
  by (auto simp: replay_material_def)

lemma authority_action_inverse:
  "action_of_authority (authority_of_action a) = a"
  "authority_of_action (action_of_authority b) = b"
  by (cases a; simp) (cases b; simp)

lemma policy_default_valid: "policy_validate policy_default = Inr ()"
  by (simp add: policy_validate_def policy_default_def bs_from_list_def bt_keys_def ascii_control_def)

end
