(* ===== verification/Journal.thy ===== *)
theory Journal
  imports Kernel_Types
begin

text \<open>
  The admission journal of src/lib.rs (\<open>JournalEntry\<close>, \<open>ReplayJournal\<close>): an append-only
  list of entries, each naming its predecessor by digest, with no candidate and no
  (agent, nonce) pair twice.  The lemmas show that \<open>validate\<close> is exactly "chained, well
  formed and free of replays", that \<open>append\<close> keeps it, and (through \<open>hash_chain\<close>) that the
  last digest determines the whole journal up to a collision.
\<close>

record journal_entry =
  je_sequence :: u64
  je_previous_digest :: string
  je_candidate_digest :: string
  je_replay_digest :: string
  je_decision_digest :: string
  je_entry_digest :: string

record replay_journal =
  rj_entries :: "journal_entry list"

definition journal_empty :: replay_journal where
  "journal_empty = \<lparr>rj_entries = []\<rparr>"

definition link_material :: "u64 \<Rightarrow> string \<Rightarrow> string \<Rightarrow> string \<Rightarrow> string \<Rightarrow> json" where
  "link_material sq prev cand replay dec =
     JArr [json_word sq, JStr prev, JStr cand, JStr replay, JStr dec]"

definition entry_material :: "journal_entry \<Rightarrow> json" where
  "entry_material e = link_material (je_sequence e) (je_previous_digest e)
     (je_candidate_digest e) (je_replay_digest e) (je_decision_digest e)"

definition journal_append ::
  "crypto \<Rightarrow> replay_journal \<Rightarrow> string \<Rightarrow> string \<Rightarrow> string \<Rightarrow> replay_journal result" where
  "journal_append env j cand replay dec =
     (if \<not> valid_digest cand \<or> \<not> valid_digest replay \<or> \<not> valid_digest dec
      then Inl (Err_Journal ''journal references must be lowercase digests'')
      else if list_ex (\<lambda>e. je_candidate_digest e = cand) (rj_entries j)
      then Inl (Err_Journal ''replayed candidate'')
      else if list_ex (\<lambda>e. je_replay_digest e = replay) (rj_entries j)
      then Inl (Err_Journal ''replayed agent nonce'')
      else
        let previous = (if rj_entries j = [] then zero_digest
                        else je_entry_digest (last (rj_entries j)));
            sq = (of_nat (length (rj_entries j)) :: u64)
        in Inr (j\<lparr>rj_entries := rj_entries j @
             [\<lparr>je_sequence = sq, je_previous_digest = previous, je_candidate_digest = cand,
               je_replay_digest = replay, je_decision_digest = dec,
               je_entry_digest = digest env (link_material sq previous cand replay dec)\<rparr>]\<rparr>))"

text \<open>The loop of \<open>ReplayJournal::validate\<close>, with its index and its three accumulators.\<close>

fun journal_check ::
  "crypto \<Rightarrow> nat \<Rightarrow> string \<Rightarrow> string bset \<Rightarrow> string bset \<Rightarrow> journal_entry list \<Rightarrow> unit result" where
  "journal_check env i previous seen replays [] = Inr ()"
| "journal_check env i previous seen replays (e # es) =
     (if je_sequence e \<noteq> of_nat i \<or> je_previous_digest e \<noteq> previous \<or>
         \<not> valid_digest (je_candidate_digest e) \<or> \<not> valid_digest (je_replay_digest e) \<or>
         \<not> valid_digest (je_decision_digest e) \<or> \<not> valid_digest (je_entry_digest e) \<or>
         bs_contains seen (je_candidate_digest e) \<or> bs_contains replays (je_replay_digest e)
      then Inl (Err_Journal ''invalid journal chain'')
      else if digest env (entry_material e) \<noteq> je_entry_digest e
      then Inl (Err_Journal ''entry digest mismatch'')
      else journal_check env (Suc i) (je_entry_digest e)
             (bs_insert (je_candidate_digest e) seen) (bs_insert (je_replay_digest e) replays) es)"

definition journal_validate :: "crypto \<Rightarrow> replay_journal \<Rightarrow> unit result" where
  "journal_validate env j = journal_check env 0 zero_digest [] [] (rj_entries j)"

definition json_journal_entry :: "journal_entry \<Rightarrow> json" where
  "json_journal_entry e = JObj
    [(''sequence'', json_word (je_sequence e)),
     (''previous_digest'', JStr (je_previous_digest e)),
     (''candidate_digest'', JStr (je_candidate_digest e)),
     (''replay_digest'', JStr (je_replay_digest e)),
     (''decision_digest'', JStr (je_decision_digest e)),
     (''entry_digest'', JStr (je_entry_digest e))]"

definition json_replay_journal :: "replay_journal \<Rightarrow> json" where
  "json_replay_journal j = JObj [(''entries'', json_list json_journal_entry (rj_entries j))]"

section \<open>What validation means\<close>

abbreviation journal_candidates :: "replay_journal \<Rightarrow> string list" where
  "journal_candidates j \<equiv> map je_candidate_digest (rj_entries j)"

abbreviation journal_replays :: "replay_journal \<Rightarrow> string list" where
  "journal_replays j \<equiv> map je_replay_digest (rj_entries j)"

definition entry_digests_ok :: "journal_entry \<Rightarrow> bool" where
  "entry_digests_ok e \<longleftrightarrow> valid_digest (je_candidate_digest e) \<and> valid_digest (je_replay_digest e) \<and>
     valid_digest (je_decision_digest e) \<and> valid_digest (je_entry_digest e)"

abbreviation journal_chain :: "crypto \<Rightarrow> nat \<Rightarrow> string \<Rightarrow> journal_entry list \<Rightarrow> bool" where
  "journal_chain env \<equiv> chain_ok env je_sequence je_previous_digest entry_material je_entry_digest"

lemma journal_check_iff:
  "journal_check env i previous seen replays es = Inr () \<longleftrightarrow>
     journal_chain env i previous es \<and> list_all entry_digests_ok es \<and>
     distinct (map je_candidate_digest es) \<and> distinct (map je_replay_digest es) \<and>
     set (map je_candidate_digest es) \<inter> set seen = {} \<and>
     set (map je_replay_digest es) \<inter> set replays = {}"
proof (induction es arbitrary: i previous seen replays)
  case (Cons e es)
  show ?case
    by (simp add: Cons.IH entry_digests_ok_def bs_contains_def) blast
qed simp

lemma journal_validate_iff:
  "journal_validate env j = Inr () \<longleftrightarrow>
     journal_chain env 0 zero_digest (rj_entries j) \<and> list_all entry_digests_ok (rj_entries j) \<and>
     distinct (journal_candidates j) \<and> distinct (journal_replays j)"
  by (simp add: journal_validate_def journal_check_iff)

lemma journal_empty_valid [simp]: "journal_validate env journal_empty = Inr ()"
  by (simp add: journal_validate_def journal_empty_def)

lemma journal_append_Inr:
  "journal_append env j cand replay dec = Inr j' \<longleftrightarrow>
     valid_digest cand \<and> valid_digest replay \<and> valid_digest dec \<and>
     cand \<notin> set (journal_candidates j) \<and> replay \<notin> set (journal_replays j) \<and>
     (let p = chain_tip je_entry_digest zero_digest (rj_entries j); n = of_nat (length (rj_entries j))
      in j' = j\<lparr>rj_entries := rj_entries j @
             [\<lparr>je_sequence = n, je_previous_digest = p, je_candidate_digest = cand,
               je_replay_digest = replay, je_decision_digest = dec,
               je_entry_digest = digest env (link_material n p cand replay dec)\<rparr>]\<rparr>)"
  by (auto simp: journal_append_def Let_def list_ex_iff chain_tip_def)

lemma journal_append_candidates:
  "journal_append env j cand replay dec = Inr j' \<Longrightarrow>
     journal_candidates j' = journal_candidates j @ [cand] \<and>
     journal_replays j' = journal_replays j @ [replay] \<and>
     cand \<notin> set (journal_candidates j) \<and> replay \<notin> set (journal_replays j) \<and> valid_digest cand"
  by (auto simp: journal_append_Inr Let_def)

lemma journal_append_prefix:
  "journal_append env j cand replay dec = Inr j' \<Longrightarrow>
     \<exists>e. rj_entries j' = rj_entries j @ [e] \<and> je_candidate_digest e = cand \<and>
         je_replay_digest e = replay \<and> je_decision_digest e = dec"
  by (auto simp: journal_append_Inr Let_def)

lemma journal_append_valid:
  assumes "sha256_len env" and "journal_validate env j = Inr ()"
    and "journal_append env j cand replay dec = Inr j'"
  shows "journal_validate env j' = Inr ()"
  using assms
  by (auto simp: journal_validate_iff journal_append_Inr Let_def chain_ok_snoc entry_digests_ok_def
      entry_material_def)

interpretation replay_chain:
  hash_chain je_sequence je_previous_digest entry_material je_entry_digest
  by unfold_locales (auto simp: entry_material_def link_material_def intro: journal_entry.equality)

interpretation canon_journal_entry: canonical json_journal_entry
  by unfold_locales (auto simp: json_journal_entry_def intro: journal_entry.equality)

interpretation canon_journal: canonical json_replay_journal
  by unfold_locales
    (auto simp: json_replay_journal_def json_list_inject [OF canon_journal_entry.inj_enc]
      intro: replay_journal.equality)

end
