(* ===== verification/Kernel.thy ===== *)
theory Kernel
  imports Journal
begin

text \<open>
  The kernel of src/lib.rs: admission, single-use consumption, lifecycle control, the
  failure budget and the kernel snapshot.  Every operation that takes \<open>&mut self\<close> returns
  its result together with the kernel it leaves behind, also when it fails half-way
  (\<open>freeze_all\<close> and \<open>kill_all\<close> stop at the first record they cannot move).  The mutex of
  \<open>consume\<close> is the flag that says whether it is poisoned.
\<close>

section \<open>State\<close>

record issuance =
  is_candidate_digest :: string
  is_decision_digest :: string
  is_policy_digest :: string
  is_capability :: capability
  is_consumed :: bool

record kernel =
  k_policy :: policy
  k_journal :: replay_journal
  k_issuances :: "(string, issuance) btree"
  k_lifecycles :: "(string, lifecycle) btree"
  k_failure_tracker :: "failure_tracker option"
  k_frozen :: bool
  k_killed :: bool
  k_lock_poisoned :: bool

record kernel_snapshot =
  ks_policy :: policy
  ks_journal :: replay_journal
  ks_lifecycles :: "(string, lifecycle) btree"
  ks_failure_tracker :: "failure_tracker option"
  ks_frozen :: bool
  ks_killed :: bool

definition contract_rejected :: "contract_error \<Rightarrow> error" where
  "contract_rejected e = Err_Rejected (contract_error_to_string e)"

definition contract_invalid :: "contract_error \<Rightarrow> error" where
  "contract_invalid e = Err_Invalid (contract_error_to_string e)"

definition lifecycle_entry_bad :: "string bset \<Rightarrow> string \<times> lifecycle \<Rightarrow> bool" where
  "lifecycle_entry_bad candidates cl = (case cl of (c, l) \<Rightarrow>
     \<not> valid_digest c \<or> lc_revision l = 0 \<or> lc_state l = LS_Proposal \<or>
     \<not> is_ok (lifecycle_validate l) \<or> \<not> bs_contains candidates c)"

definition snapshot_validate :: "crypto \<Rightarrow> kernel_snapshot \<Rightarrow> unit result" where
  "snapshot_validate env s =
     try_r (policy_validate (ks_policy s)) (\<lambda>_.
     try_r (journal_validate env (ks_journal s)) (\<lambda>_.
     if ks_killed s \<and> \<not> ks_frozen s
     then Inl (Err_Invalid ''killed kernel snapshot is not frozen'')
     else try_r (case ks_failure_tracker s of
         None \<Rightarrow> Inr ()
       | Some t \<Rightarrow> try_r (map_err contract_invalid (tracker_validate t)) (\<lambda>_.
           if is_exhausted t \<and> \<not> ks_frozen s
           then Inl (Err_Invalid ''exhausted failure tracker requires a frozen kernel'')
           else Inr ())) (\<lambda>_.
     let candidates = bs_from_list (map je_candidate_digest (rj_entries (ks_journal s)))
     in if length candidates \<noteq> length (ks_lifecycles s) \<or>
           list_ex (lifecycle_entry_bad candidates) (ks_lifecycles s)
        then Inl (Err_Journal ''kernel lifecycle snapshot is inconsistent'')
        else Inr ())))"

section \<open>Construction and snapshots\<close>

definition kernel_new :: "policy \<Rightarrow> kernel result" where
  "kernel_new p = try_r (policy_validate p) (\<lambda>_.
     Inr \<lparr>k_policy = p, k_journal = journal_empty, k_issuances = [], k_lifecycles = [],
          k_failure_tracker = None, k_frozen = False, k_killed = False, k_lock_poisoned = False\<rparr>)"

definition kernel_snapshot_of :: "kernel \<Rightarrow> kernel_snapshot" where
  "kernel_snapshot_of k = \<lparr>ks_policy = k_policy k, ks_journal = k_journal k,
     ks_lifecycles = k_lifecycles k, ks_failure_tracker = k_failure_tracker k,
     ks_frozen = k_frozen k, ks_killed = k_killed k\<rparr>"

definition kernel_from_snapshot :: "crypto \<Rightarrow> kernel_snapshot \<Rightarrow> kernel result" where
  "kernel_from_snapshot env s = try_r (snapshot_validate env s) (\<lambda>_.
     Inr \<lparr>k_policy = ks_policy s, k_journal = ks_journal s, k_issuances = [],
          k_lifecycles = ks_lifecycles s, k_failure_tracker = ks_failure_tracker s,
          k_frozen = ks_frozen s, k_killed = ks_killed s, k_lock_poisoned = False\<rparr>)"

definition lifecycle_state_of :: "kernel \<Rightarrow> string \<Rightarrow> lifecycle_state option" where
  "lifecycle_state_of k candidate = map_option lc_state (bt_get (k_lifecycles k) candidate)"

section \<open>Freeze, kill and the failure budget\<close>

fun apply_where ::
  "(lifecycle_state \<Rightarrow> bool) \<Rightarrow> lifecycle_event \<Rightarrow> (string, lifecycle) btree \<Rightarrow>
     unit result \<times> (string, lifecycle) btree" where
  "apply_where live ev [] = (Inr (), [])"
| "apply_where live ev ((c, l) # m) =
     (if live (lc_state l)
      then case lifecycle_apply l ev of
          (Inl e, l') \<Rightarrow> (Inl (contract_rejected e), (c, l') # m)
        | (Inr _, l') \<Rightarrow> (case apply_where live ev m of (r, m') \<Rightarrow> (r, (c, l') # m'))
      else (case apply_where live ev m of (r, m') \<Rightarrow> (r, (c, l) # m')))"

definition freeze_all :: "kernel \<Rightarrow> unit result \<times> kernel" where
  "freeze_all k = (case apply_where (\<lambda>s. \<not> is_shutdown s) EV_Freeze (k_lifecycles k) of
     (Inl e, m) \<Rightarrow> (Inl e, k\<lparr>k_lifecycles := m\<rparr>)
   | (Inr _, m) \<Rightarrow> (Inr (), k\<lparr>k_lifecycles := m, k_frozen := True\<rparr>))"

definition kill_all :: "kernel \<Rightarrow> unit result \<times> kernel" where
  "kill_all k = (case apply_where (\<lambda>s. s \<noteq> LS_Killed) EV_Kill (k_lifecycles k) of
     (Inl e, m) \<Rightarrow> (Inl e, k\<lparr>k_lifecycles := m\<rparr>)
   | (Inr _, m) \<Rightarrow> (Inr (), k\<lparr>k_lifecycles := m, k_frozen := True, k_killed := True\<rparr>))"

definition configure_failure_budget :: "kernel \<Rightarrow> failure_budget \<Rightarrow> unit result \<times> kernel" where
  "configure_failure_budget k b =
     (if k_frozen k \<or> k_killed k
      then (Inl (Err_Rejected ''cannot configure a frozen or killed kernel''), k)
      else case map_err contract_invalid (budget_tracker b) of
        Inl e \<Rightarrow> (Inl e, k)
      | Inr t \<Rightarrow> (Inr (), k\<lparr>k_failure_tracker := Some t\<rparr>))"

definition kernel_observe_failure :: "kernel \<Rightarrow> failure_kind \<Rightarrow> budget_decision result \<times> kernel" where
  "kernel_observe_failure k kind =
     try_s (case k_failure_tracker k of
         None \<Rightarrow> (Inr BD_Continue, k)
       | Some t \<Rightarrow> (case record_failure t kind of
           (r, t') \<Rightarrow> (map_err contract_rejected r, k\<lparr>k_failure_tracker := Some t'\<rparr>)))
       (\<lambda>d k'. if d = BD_FreezeRequired
               then try_s (freeze_all k') (\<lambda>_ k''. (Inr d, k''))
               else (Inr d, k'))"

definition observe_success :: "kernel \<Rightarrow> kernel" where
  "observe_success k =
     (if \<not> k_frozen k \<and> \<not> k_killed k
      then k\<lparr>k_failure_tracker := map_option record_success (k_failure_tracker k)\<rparr> else k)"

section \<open>Admission\<close>

fun decision_event :: "decision_kind \<Rightarrow> lifecycle_event" where
  "decision_event DK_Accepted = EV_Admit"
| "decision_event DK_Rejected = EV_Reject"
| "decision_event DK_Quarantined = EV_Quarantine"

definition record_decision ::
  "crypto \<Rightarrow> kernel \<Rightarrow> proposal \<Rightarrow> decision_kind \<Rightarrow> string \<Rightarrow> capability option \<Rightarrow>
     decision result \<times> kernel" where
  "record_decision env k p kind reason cap =
     (let cand = proposal_digest env p
      in case lifecycle_apply lifecycle_new (decision_event kind) of
        (Inl e, _) \<Rightarrow> (Inl (contract_rejected e), k)
      | (Inr _, l) \<Rightarrow>
        let pol = policy_digest env (k_policy k);
            dec = digest env (decision_material (pr_candidate_id p) kind reason cand pol cap);
            replay = digest env (replay_material (pr_agent_id p) (pr_nonce p))
        in case journal_append env (k_journal k) cand replay dec of
             Inl e \<Rightarrow> (Inl e, k)
           | Inr j \<Rightarrow>
             (Inr \<lparr>de_candidate_id = pr_candidate_id p, de_kind = kind, de_reason = reason,
                   de_candidate_digest = cand, de_policy_digest = pol, de_capability = cap,
                   de_decision_digest = dec\<rparr>,
              k\<lparr>k_journal := j, k_lifecycles := bt_insert cand l (k_lifecycles k),
                k_issuances := (case cap of None \<Rightarrow> k_issuances k
                  | Some c \<Rightarrow> bt_insert cand
                      \<lparr>is_candidate_digest = cand, is_decision_digest = dec,
                       is_policy_digest = pol, is_capability = c, is_consumed = False\<rparr>
                      (k_issuances k))\<rparr>))"

definition incomplete_budget :: "policy \<Rightarrow> proposal \<Rightarrow> bool" where
  "incomplete_budget pol p =
     list_ex (\<lambda>axis. \<not> bt_contains (pr_resource_cost p) axis) (bt_keys (po_max_cost pol))"

definition over_budget :: "policy \<Rightarrow> proposal \<Rightarrow> bool" where
  "over_budget pol p =
     list_ex (\<lambda>(axis, amount). case bt_get (po_max_cost pol) axis of
        None \<Rightarrow> True | Some limit \<Rightarrow> limit < amount) (pr_resource_cost p)"

definition min_or :: "u64 \<Rightarrow> u64 list \<Rightarrow> u64" where
  "min_or dflt xs = (case xs of [] \<Rightarrow> dflt | y # ys \<Rightarrow> fold min ys y)"

definition capability_expiry :: "policy \<Rightarrow> proposal \<Rightarrow> u64 \<Rightarrow> u64" where
  "capability_expiry pol p now =
     (let claim_expiry = min_or (pr_expires_at p)
            (map cl_valid_until (filter (\<lambda>c. claim_qualifies c now) (pr_claims p)))
      in min (min (pr_expires_at p) (saturating_add now (po_token_ttl pol))) claim_expiry)"

definition issue_capability :: "crypto \<Rightarrow> policy \<Rightarrow> proposal \<Rightarrow> u64 \<Rightarrow> capability" where
  "issue_capability env pol p now =
     \<lparr>ca_token_id = digest env (token_material (proposal_digest env p) now (policy_digest env pol)),
      ca_agent_id = pr_agent_id p, ca_action = pr_action p, ca_scope = pr_scope p,
      ca_intent_digest = digest env (intent_material p), ca_issued_at = now,
      ca_expires_at = capability_expiry pol p now, ca_budget = pr_resource_cost p\<rparr>"

definition admit :: "crypto \<Rightarrow> kernel \<Rightarrow> proposal \<Rightarrow> u64 \<Rightarrow> decision result \<times> kernel" where
  "admit env k p now =
     (if k_frozen k \<or> k_killed k then (Inl (Err_Rejected ''kernel is frozen or killed''), k)
      else case policy_validate (k_policy k) of
        Inl e \<Rightarrow> (Inl e, k)
      | Inr _ \<Rightarrow>
      case proposal_validate_shape p now of
        Inl e \<Rightarrow> (Inl e, k)
      | Inr _ \<Rightarrow>
      if pr_requests_direct_authority p
      then record_decision env k p DK_Rejected ''model requested direct authority'' None
      else if \<not> bs_contains (po_allowed_actions (k_policy k)) (pr_action p) \<or>
              \<not> bs_contains (po_allowed_scopes (k_policy k)) (pr_scope p)
      then record_decision env k p DK_Rejected ''action or scope is not allowlisted'' None
      else if incomplete_budget (k_policy k) p \<or> over_budget (k_policy k) p
      then record_decision env k p DK_Rejected
             (if incomplete_budget (k_policy k) p then ''resource budget is incomplete''
              else ''resource budget exceeded'') None
      else if \<not> list_ex (\<lambda>c. claim_qualifies c now) (pr_claims p)
      then record_decision env k p DK_Quarantined
             ''required claim is absent, stale, or malformed'' None
      else if capability_expiry (k_policy k) p now \<le> now
      then record_decision env k p DK_Quarantined ''claim expires before capability'' None
      else record_decision env k p DK_Accepted ''policy satisfied''
             (Some (issue_capability env (k_policy k) p now)))"

section \<open>Consumption and lifecycle control\<close>

definition policy_stale :: "string \<Rightarrow> decision \<Rightarrow> issuance \<Rightarrow> bool" where
  "policy_stale current d i \<longleftrightarrow>
     de_policy_digest d \<noteq> is_policy_digest i \<or> de_policy_digest d \<noteq> current"

text \<open>The condition under which \<open>consume\<close> answers \<open>false\<close> without touching the kernel.\<close>

definition consume_refused ::
  "crypto \<Rightarrow> proposal \<Rightarrow> decision \<Rightarrow> issuance \<Rightarrow> u64 \<Rightarrow> bool" where
  "consume_refused env p d i now \<longleftrightarrow>
     is_consumed i \<or> de_kind d \<noteq> DK_Accepted \<or> de_candidate_id d \<noteq> pr_candidate_id p \<or>
     de_candidate_digest d \<noteq> is_candidate_digest i \<or>
     de_decision_digest d \<noteq> is_decision_digest i \<or>
     de_decision_digest d \<noteq> digest env (decision_material (pr_candidate_id p) (de_kind d)
       (de_reason d) (proposal_digest env p) (de_policy_digest d) (de_capability d)) \<or>
     de_policy_digest d \<noteq> is_policy_digest i \<or>
     de_capability d \<noteq> Some (is_capability i) \<or>
     now < ca_issued_at (is_capability i) \<or> ca_expires_at (is_capability i) \<le> now"

definition consume :: "crypto \<Rightarrow> kernel \<Rightarrow> proposal \<Rightarrow> decision \<Rightarrow> u64 \<Rightarrow> bool result \<times> kernel" where
  "consume env k p d now =
     (if k_lock_poisoned k then (Inl (Err_Rejected ''kernel lock poisoned''), k)
      else if k_frozen k \<or> k_killed k then (Inr False, k)
      else let key = proposal_digest env p in
      case policy_validate (k_policy k) of
        Inl e \<Rightarrow> (Inl e, k)
      | Inr _ \<Rightarrow>
      let current = policy_digest env (k_policy k) in
      case bt_get (k_lifecycles k) key of
        None \<Rightarrow> (Inl (Err_Rejected ''unknown lifecycle record''), k)
      | Some l \<Rightarrow>
      if lc_state l \<noteq> LS_Admitted then (Inr False, k)
      else case bt_get (k_issuances k) key of
        None \<Rightarrow> (Inl (Err_Rejected ''unknown issuance''), k)
      | Some i \<Rightarrow>
      if policy_stale current d i
      then (case lifecycle_apply l EV_Quarantine of
          (Inl e, _) \<Rightarrow> (Inl (contract_rejected e), k)
        | (Inr _, l') \<Rightarrow> (Inr False, k\<lparr>k_lifecycles := bt_insert key l' (k_lifecycles k)\<rparr>))
      else if consume_refused env p d i now
      then (Inr False, k)
      else case lifecycle_apply l EV_BeginExecution of
          (Inl e, _) \<Rightarrow> (Inl (contract_rejected e), k)
        | (Inr _, l') \<Rightarrow>
          (Inr True, k\<lparr>k_issuances := bt_modify key (\<lambda>i. i\<lparr>is_consumed := True\<rparr>) (k_issuances k),
                       k_lifecycles := bt_insert key l' (k_lifecycles k)\<rparr>))"

definition apply_lifecycle_event ::
  "crypto \<Rightarrow> kernel \<Rightarrow> proposal \<Rightarrow> lifecycle_event \<Rightarrow> bool result \<times> kernel" where
  "apply_lifecycle_event env k p ev =
     (let key = proposal_digest env p in
      case bt_get (k_lifecycles k) key of
        None \<Rightarrow> (Inl (Err_Rejected ''unknown lifecycle record''), k)
      | Some l \<Rightarrow> (case lifecycle_apply l ev of
          (Inl e, l') \<Rightarrow> (Inl (contract_rejected e), k)
        | (Inr _, l') \<Rightarrow> (Inr True, k\<lparr>k_lifecycles := bt_modify key (\<lambda>_. l') (k_lifecycles k)\<rparr>)))"

definition kernel_complete :: "crypto \<Rightarrow> kernel \<Rightarrow> proposal \<Rightarrow> bool result \<times> kernel" where
  "kernel_complete env k p = apply_lifecycle_event env k p EV_Complete"

definition kernel_rollback :: "crypto \<Rightarrow> kernel \<Rightarrow> proposal \<Rightarrow> bool result \<times> kernel" where
  "kernel_rollback env k p = apply_lifecycle_event env k p EV_Rollback"

definition kernel_quarantine :: "crypto \<Rightarrow> kernel \<Rightarrow> proposal \<Rightarrow> bool result \<times> kernel" where
  "kernel_quarantine env k p = apply_lifecycle_event env k p EV_Quarantine"

definition kernel_freeze :: "crypto \<Rightarrow> kernel \<Rightarrow> proposal \<Rightarrow> bool result \<times> kernel" where
  "kernel_freeze env k p = apply_lifecycle_event env k p EV_Freeze"

definition kernel_kill :: "crypto \<Rightarrow> kernel \<Rightarrow> proposal \<Rightarrow> bool result \<times> kernel" where
  "kernel_kill env k p = apply_lifecycle_event env k p EV_Kill"

end
