(* ===== verification/Kernel_Safety.thy ===== *)
theory Kernel_Safety
  imports Kernel "HOL-Library.Sublist"
begin

text \<open>
  The invariant of the kernel of src/lib.rs and that every public operation keeps it:
  the journal is valid, there is exactly one lifecycle record per journal entry and it is
  the outcome of the events it stores, a killed kernel is frozen, an exhausted failure
  tracker means a frozen kernel, and every issuance belongs to a proposal that was
  admissible when its capability was made.  The kernel is then a \<open>monotone_machine\<close>:
  the journal only grows, records only move forward, and freeze and kill are final.
\<close>

section \<open>Lifecycle records inside the kernel\<close>

fun lifecycle_bound :: "lifecycle_state \<Rightarrow> nat" where
  "lifecycle_bound LS_Proposal = 0"
| "lifecycle_bound LS_Rejected = 1"
| "lifecycle_bound LS_Admitted = 1"
| "lifecycle_bound LS_Quarantined = 2"
| "lifecycle_bound LS_Executing = 2"
| "lifecycle_bound LS_Completed = 3"
| "lifecycle_bound LS_RolledBack = 4"
| "lifecycle_bound LS_Frozen = 5"
| "lifecycle_bound LS_Killed = 6"

lemma lifecycle_bound_le: "lifecycle_bound s \<le> 6"
  by (cases s) simp_all

lemma transition_bound:
  "transition s e = Inr s' \<Longrightarrow> e \<noteq> EV_Admit \<Longrightarrow> e \<noteq> EV_Reject \<Longrightarrow>
     lifecycle_bound s < lifecycle_bound s'"
  by (cases s; cases e) (auto simp: is_shutdown_def)

definition lc_good :: "lifecycle \<Rightarrow> bool" where
  "lc_good l \<longleftrightarrow> lifecycle_ok l \<and> lc_state l \<noteq> LS_Proposal \<and>
     length (lc_events l) + 6 < 2 ^ 64 - 1 + lifecycle_bound (lc_state l)"

definition lc_moves :: "lifecycle \<Rightarrow> lifecycle \<Rightarrow> bool" where
  "lc_moves l l' \<longleftrightarrow> l' = l \<or>
     (\<exists>e s. e \<noteq> EV_Admit \<and> e \<noteq> EV_Reject \<and> lifecycle_apply l e = (Inr s, l'))"

lemma lc_moves_refl [simp]: "lc_moves l l"
  by (simp add: lc_moves_def)

lemma lc_moves_apply:
  "lifecycle_apply l e = (Inr s, l') \<Longrightarrow> e \<noteq> EV_Admit \<Longrightarrow> e \<noteq> EV_Reject \<Longrightarrow> lc_moves l l'"
  by (auto simp: lc_moves_def)

lemma lc_good_apply:
  assumes "lc_good l" and "transition (lc_state l) e = Inr s" and "e \<noteq> EV_Admit" and "e \<noteq> EV_Reject"
  shows "\<exists>l'. lifecycle_apply l e = (Inr s, l')"
proof -
  have "lifecycle_bound (lc_state l) < 6"
    using transition_bound [OF assms(2-4)] lifecycle_bound_le [of s] by simp
  then have "length (lc_events l) < 2 ^ 64 - 2" using assms(1) by (simp add: lc_good_def)
  then have "lc_revision l \<noteq> u64_max"
    using assms(1) revision_max_iff [of l] by (auto simp: lc_good_def)
  then show ?thesis using assms(2) by (auto simp: lifecycle_apply_Inr)
qed

lemma lc_moves_good:
  assumes "lc_good l" and "lc_moves l l'"
  shows "lc_good l'"
proof (cases "l' = l")
  case False
  then obtain e s where e: "e \<noteq> EV_Admit" "e \<noteq> EV_Reject" "lifecycle_apply l e = (Inr s, l')"
    using assms(2) by (auto simp: lc_moves_def)
  then have tr: "transition (lc_state l) e = Inr s" and l': "lc_state l' = s"
    "lc_events l' = lc_events l @ [e]"
    by (auto simp: lifecycle_apply_Inr)
  have "lifecycle_ok l'" using lifecycle_apply_ok [of l e] assms(1) e(3) by (simp add: lc_good_def)
  moreover have "lifecycle_bound (lc_state l) < lifecycle_bound s"
    by (rule transition_bound [OF tr e(1,2)])
  ultimately show ?thesis using assms(1) l' by (auto simp: lc_good_def)
qed (use assms in simp)

lemma lc_moves_not_admitted: "lc_moves l l' \<Longrightarrow> lc_state l \<noteq> LS_Admitted \<Longrightarrow> lc_state l' \<noteq> LS_Admitted"
  by (auto simp: lc_moves_def lifecycle_apply_Inr dest: transition_into_Admitted)

lemma lc_moves_shutdown: "lc_moves l l' \<Longrightarrow> is_shutdown (lc_state l) \<Longrightarrow> is_shutdown (lc_state l')"
  by (auto simp: lc_moves_def lifecycle_apply_Inr dest: transition_shutdown)

lemma lc_good_revision: "lc_good l \<Longrightarrow> lc_revision l \<noteq> 0"
proof
  assume good: "lc_good l" and zero: "lc_revision l = 0"
  then have "(of_nat (length (lc_events l)) :: u64) = of_nat 0" "length (lc_events l) < 2 ^ 64"
    by (simp_all add: lc_good_def lifecycle_ok_def lifecycle_validate_iff)
  then have "lc_events l = []" using of_nat_u64_inject [of "length (lc_events l)" 0] by simp
  then show False using good by (auto simp: lc_good_def lifecycle_ok_def lifecycle_validate_iff)
qed

subsection \<open>All records at once\<close>

definition entries_move :: "(string, lifecycle) btree \<Rightarrow> (string, lifecycle) btree \<Rightarrow> bool" where
  "entries_move m m' \<longleftrightarrow> list_all2 (\<lambda>(c, l) (c', l'). c' = c \<and> lc_moves l l') m m'"

lemma entries_move_refl [simp]: "entries_move m m"
  by (simp add: entries_move_def list.rel_refl case_prod_beta')

lemma entries_move_keys: "entries_move m m' \<Longrightarrow> map fst m' = map fst m"
  unfolding entries_move_def by (induction rule: list_all2_induct) auto

lemma entries_move_get:
  "entries_move m m' \<Longrightarrow> bt_get m c = Some l \<Longrightarrow> \<exists>l'. bt_get m' c = Some l' \<and> lc_moves l l'"
  unfolding entries_move_def by (induction rule: list_all2_induct) (auto split: if_splits)

lemma entries_move_good:
  "entries_move m m' \<Longrightarrow> \<forall>(c, l)\<in>set m. lc_good l \<Longrightarrow> \<forall>(c, l)\<in>set m'. lc_good l"
  unfolding entries_move_def by (induction rule: list_all2_induct) (auto intro: lc_moves_good)

lemma entries_move_modify:
  "bt_wf m \<Longrightarrow> bt_get m c = Some l \<Longrightarrow> lc_moves l l' \<Longrightarrow> entries_move m (bt_modify c (\<lambda>_. l') m)"
  by (auto simp: entries_move_def bt_modify_def list_all2_map2 list_all2_same bt_get_mem [symmetric]
      case_prod_beta' prod_eq_iff)

lemma bt_insert_present:
  "bt_wf m \<Longrightarrow> bt_get m c = Some l \<Longrightarrow> bt_insert c l' m = bt_modify c (\<lambda>_. l') m"
  by (rule bt_ext) (auto intro: bt_wf_insert bt_wf_modify)

lemma entries_move_Cons [simp]:
  "entries_move ((c, l) # m) m' \<longleftrightarrow> (\<exists>l' m''. m' = (c, l') # m'' \<and> lc_moves l l' \<and> entries_move m m'')"
  by (auto simp: entries_move_def list_all2_Cons1)

lemma apply_where_moves:
  assumes "ev \<noteq> EV_Admit" and "ev \<noteq> EV_Reject"
  shows "apply_where live ev m = (r, m') \<Longrightarrow> entries_move m m'"
proof (induction m arbitrary: r m')
  case (Cons e m)
  obtain c l where e: "e = (c, l)" by (cases e)
  obtain r1 m1 where m1: "apply_where live ev m = (r1, m1)" by (cases "apply_where live ev m")
  obtain r2 l2 where l2: "lifecycle_apply l ev = (r2, l2)" by (cases "lifecycle_apply l ev")
  have "lc_moves l l2"
    using l2 assms lc_moves_apply [of l ev _ l2] lifecycle_apply_Inl [of l ev _ l2] by (cases r2) auto
  then show ?case
    using Cons.prems Cons.IH [OF m1] m1 l2 by (cases r2) (auto simp: e split: if_splits)
qed simp

lemma apply_where_total:
  assumes "\<forall>(c, l)\<in>set m. lc_good l"
    and "\<And>s. live s \<Longrightarrow> \<exists>s'. transition s ev = Inr s'" and "ev \<noteq> EV_Admit" "ev \<noteq> EV_Reject"
  shows "\<exists>m'. apply_where live ev m = (Inr (), m')"
  using assms(1)
proof (induction m)
  case (Cons e m)
  obtain c l where e: "e = (c, l)" by (cases e)
  obtain m' where m': "apply_where live ev m = (Inr (), m')" using Cons by auto
  show ?case
  proof (cases "live (lc_state l)")
    case True
    then obtain s' where "transition (lc_state l) ev = Inr s'" using assms(2) by blast
    then obtain l' where "lifecycle_apply l ev = (Inr s', l')"
      using lc_good_apply [of l ev s'] Cons.prems assms(3,4) by (auto simp: e)
    then show ?thesis using True m' by (simp add: e)
  qed (simp add: e m')
qed simp

lemma apply_where_done:
  "apply_where live ev m = (Inr (), m') \<Longrightarrow> (\<And>s s'. transition s ev = Inr s' \<Longrightarrow> \<not> live s') \<Longrightarrow>
     \<forall>(c, l)\<in>set m'. \<not> live (lc_state l)"
proof (induction m arbitrary: m')
  case (Cons e m)
  obtain c l where e: "e = (c, l)" by (cases e)
  obtain r1 m1 where m1: "apply_where live ev m = (r1, m1)" by (cases "apply_where live ev m")
  obtain r2 l2 where l2: "lifecycle_apply l ev = (r2, l2)" by (cases "lifecycle_apply l ev")
  have "is_ok r2 \<Longrightarrow> \<not> live (lc_state l2)"
    using l2 Cons.prems(2) by (auto simp: is_ok_iff lifecycle_apply_Inr)
  then show ?case
    using Cons.prems Cons.IH [of m1] m1 l2 by (cases r2) (auto simp: e split: if_splits)
qed simp

lemma freeze_never_kills:
  "apply_where live EV_Freeze m = (r, m') \<Longrightarrow> bt_get m' c = Some l' \<Longrightarrow> lc_state l' = LS_Killed \<Longrightarrow>
     \<exists>l. bt_get m c = Some l \<and> lc_state l = LS_Killed"
proof (induction m arbitrary: r m')
  case (Cons e m)
  obtain d l where e: "e = (d, l)" by (cases e)
  obtain r1 m1 where m1: "apply_where live EV_Freeze m = (r1, m1)" by (cases "apply_where live EV_Freeze m")
  obtain r2 l2 where l2: "lifecycle_apply l EV_Freeze = (r2, l2)" by (cases "lifecycle_apply l EV_Freeze")
  have "lc_state l2 = LS_Killed \<Longrightarrow> lc_state l = LS_Killed"
    using l2 lifecycle_apply_Inl [of l EV_Freeze _ l2]
    by (cases r2) (auto simp: lifecycle_apply_Inr transition_Freeze split: if_splits)
  then show ?case
    using Cons.prems Cons.IH [OF m1] m1 l2 by (cases r2) (auto simp: e split: if_splits)
qed simp

section \<open>The kernel invariant\<close>

text \<open>
  \<open>admissible\<close> is what the documents promise of an accepted proposal: the policy is well
  formed, the proposal has the right shape and asks for no direct authority, its action and
  scope are allowlisted, it names every cost axis of the policy and no other and stays below
  every ceiling, some claim qualifies, and the capability has a positive lifetime.
\<close>

definition admissible :: "policy \<Rightarrow> proposal \<Rightarrow> u64 \<Rightarrow> bool" where
  "admissible pol p now \<longleftrightarrow>
     is_ok (policy_validate pol) \<and> is_ok (proposal_validate_shape p now) \<and>
     \<not> pr_requests_direct_authority p \<and>
     pr_action p \<in> set (po_allowed_actions pol) \<and> pr_scope p \<in> set (po_allowed_scopes pol) \<and>
     \<not> incomplete_budget pol p \<and> \<not> over_budget pol p \<and>
     (\<exists>c\<in>set (pr_claims p). claim_qualifies c now) \<and> now < capability_expiry pol p now"

definition issuance_ok :: "crypto \<Rightarrow> string \<Rightarrow> issuance \<Rightarrow> bool" where
  "issuance_ok env c i \<longleftrightarrow>
     is_candidate_digest i = c \<and>
     (\<exists>pol p t. c = proposal_digest env p \<and> admissible pol p t \<and>
        is_policy_digest i = policy_digest env pol \<and>
        is_capability i = issue_capability env pol p t \<and>
        is_decision_digest i = digest env (decision_material (pr_candidate_id p) DK_Accepted
          ''policy satisfied'' c (is_policy_digest i) (Some (is_capability i))))"

definition kernel_inv :: "crypto \<Rightarrow> kernel \<Rightarrow> bool" where
  "kernel_inv env k \<longleftrightarrow>
     journal_validate env (k_journal k) = Inr () \<and>
     bt_wf (k_lifecycles k) \<and> bt_wf (k_issuances k) \<and>
     fst ` set (k_lifecycles k) = set (journal_candidates (k_journal k)) \<and>
     (\<forall>(c, l)\<in>set (k_lifecycles k). lc_good l) \<and>
     (k_killed k \<longrightarrow> k_frozen k) \<and>
     (\<forall>t. k_failure_tracker k = Some t \<longrightarrow>
        tracker_validate t = Inr () \<and> (is_exhausted t \<longrightarrow> k_frozen k)) \<and>
     (\<forall>c i. bt_get (k_issuances k) c = Some i \<longrightarrow> issuance_ok env c i \<and>
        (\<exists>l. bt_get (k_lifecycles k) c = Some l \<and> (is_consumed i \<longrightarrow> lc_state l \<noteq> LS_Admitted)))"

lemma kernel_inv_good: "kernel_inv env k \<Longrightarrow> bt_get (k_lifecycles k) c = Some l \<Longrightarrow> lc_good l"
  by (auto simp: kernel_inv_def bt_get_mem)

lemma kernel_inv_key:
  "kernel_inv env k \<Longrightarrow> bt_get (k_lifecycles k) c = None \<longleftrightarrow> c \<notin> set (journal_candidates (k_journal k))"
  by (simp add: kernel_inv_def map_of_eq_None_iff)

lemma kernel_inv_issuance:
  assumes "kernel_inv env k" and "bt_get (k_issuances k) c = Some i"
  shows "issuance_ok env c i"
    and "\<exists>l. bt_get (k_lifecycles k) c = Some l \<and> (is_consumed i \<longrightarrow> lc_state l \<noteq> LS_Admitted)"
  using assms unfolding kernel_inv_def by blast+

text \<open>An operation that only moves lifecycle records forward keeps the invariant.\<close>

lemma kernel_inv_move:
  assumes inv: "kernel_inv env k" and mv: "entries_move (k_lifecycles k) m"
    and fr: "k_frozen k \<longrightarrow> f" "kd \<longrightarrow> f"
  shows "kernel_inv env (k\<lparr>k_lifecycles := m, k_frozen := f, k_killed := kd\<rparr>)"
proof -
  have keys: "map fst m = map fst (k_lifecycles k)" using mv by (rule entries_move_keys)
  then have "fst ` set m = fst ` set (k_lifecycles k)" by (metis set_map)
  moreover have "bt_wf m" using inv keys by (simp add: kernel_inv_def bt_wf_def)
  moreover have "\<forall>(c, l)\<in>set m. lc_good l"
    using entries_move_good [OF mv] inv by (simp add: kernel_inv_def)
  moreover have "\<exists>l. bt_get m c = Some l \<and> (is_consumed i \<longrightarrow> lc_state l \<noteq> LS_Admitted)"
    if iss: "bt_get (k_issuances k) c = Some i" for c i
  proof -
    obtain l where l: "bt_get (k_lifecycles k) c = Some l" "is_consumed i \<longrightarrow> lc_state l \<noteq> LS_Admitted"
      using kernel_inv_issuance(2) [OF inv iss] by blast
    then obtain l' where "bt_get m c = Some l'" "lc_moves l l'"
      using entries_move_get [OF mv] by blast
    then show ?thesis using l lc_moves_not_admitted by blast
  qed
  ultimately show ?thesis using inv fr by (auto simp: kernel_inv_def)
qed

lemma kernel_inv_move_records:
  assumes "kernel_inv env k" and "entries_move (k_lifecycles k) m"
  shows "kernel_inv env (k\<lparr>k_lifecycles := m\<rparr>)"
proof -
  have "k_killed k \<longrightarrow> k_frozen k" using assms(1) by (simp add: kernel_inv_def)
  then have "kernel_inv env (k\<lparr>k_lifecycles := m, k_frozen := k_frozen k, k_killed := k_killed k\<rparr>)"
    using kernel_inv_move [OF assms] by blast
  then show ?thesis by simp
qed

lemma kernel_inv_consumed:
  assumes inv: "kernel_inv env k" and l: "bt_get (k_lifecycles k) c = Some l" "lc_state l \<noteq> LS_Admitted"
  shows "kernel_inv env (k\<lparr>k_issuances := bt_modify c (\<lambda>i. i\<lparr>is_consumed := True\<rparr>) (k_issuances k)\<rparr>)"
  using assms by (auto simp: kernel_inv_def issuance_ok_def intro: bt_wf_modify split: if_splits)

lemma kernel_new_inv: "kernel_new p = Inr k \<Longrightarrow> kernel_inv env k"
  by (auto simp: kernel_new_def try_r_eq_Inr kernel_inv_def journal_empty_def journal_validate_def)

section \<open>Every operation keeps the invariant\<close>

lemma freeze_records:
  assumes "kernel_inv env k"
  obtains m where "apply_where (\<lambda>s. \<not> is_shutdown s) EV_Freeze (k_lifecycles k) = (Inr (), m)"
    and "entries_move (k_lifecycles k) m" and "\<forall>(c, l)\<in>set m. is_shutdown (lc_state l)"
proof -
  have "\<exists>m. apply_where (\<lambda>s. \<not> is_shutdown s) EV_Freeze (k_lifecycles k) = (Inr (), m)"
    by (rule apply_where_total) (use assms in \<open>simp_all add: kernel_inv_def transition_Freeze\<close>)
  then obtain m where m: "apply_where (\<lambda>s. \<not> is_shutdown s) EV_Freeze (k_lifecycles k) = (Inr (), m)" ..
  have "entries_move (k_lifecycles k) m" by (rule apply_where_moves [OF _ _ m]) simp_all
  moreover have "\<not> \<not> is_shutdown s'" if "transition s EV_Freeze = Inr s'" for s s'
    using that by (simp add: transition_Freeze is_shutdown_def split: if_splits)
  then have "\<forall>(c, l)\<in>set m. \<not> \<not> is_shutdown (lc_state l)" by (rule apply_where_done [OF m])
  ultimately show thesis using that [OF m] by simp
qed

lemma kill_records:
  assumes "kernel_inv env k"
  obtains m where "apply_where (\<lambda>s. s \<noteq> LS_Killed) EV_Kill (k_lifecycles k) = (Inr (), m)"
    and "entries_move (k_lifecycles k) m" and "\<forall>(c, l)\<in>set m. lc_state l = LS_Killed"
proof -
  have "\<exists>m. apply_where (\<lambda>s. s \<noteq> LS_Killed) EV_Kill (k_lifecycles k) = (Inr (), m)"
    by (rule apply_where_total) (use assms in \<open>simp_all add: kernel_inv_def transition_Kill\<close>)
  then obtain m where m: "apply_where (\<lambda>s. s \<noteq> LS_Killed) EV_Kill (k_lifecycles k) = (Inr (), m)" ..
  have "entries_move (k_lifecycles k) m" by (rule apply_where_moves [OF _ _ m]) simp_all
  moreover have "\<not> s' \<noteq> LS_Killed" if "transition s EV_Kill = Inr s'" for s s'
    using that by (simp add: transition_Kill split: if_splits)
  then have "\<forall>(c, l)\<in>set m. \<not> lc_state l \<noteq> LS_Killed" by (rule apply_where_done [OF m])
  ultimately show thesis using that [OF m] by simp
qed

lemma freeze_all_inv:
  assumes inv: "kernel_inv env k"
  obtains m where "freeze_all k = (Inr (), k\<lparr>k_lifecycles := m, k_frozen := True\<rparr>)"
    and "entries_move (k_lifecycles k) m" and "\<forall>(c, l)\<in>set m. is_shutdown (lc_state l)"
    and "kernel_inv env (k\<lparr>k_lifecycles := m, k_frozen := True\<rparr>)"
proof (rule freeze_records [OF inv])
  fix m
  assume m: "apply_where (\<lambda>s. \<not> is_shutdown s) EV_Freeze (k_lifecycles k) = (Inr (), m)"
    and mv: "entries_move (k_lifecycles k) m" and d: "\<forall>(c, l)\<in>set m. is_shutdown (lc_state l)"
  have i: "kernel_inv env (k\<lparr>k_lifecycles := m, k_frozen := True\<rparr>)"
    using kernel_inv_move [OF inv mv, of True "k_killed k"] by simp
  have r: "freeze_all k = (Inr (), k\<lparr>k_lifecycles := m, k_frozen := True\<rparr>)"
    by (simp add: freeze_all_def m)
  show thesis by (rule that [OF r mv d i])
qed

lemma kill_all_inv:
  assumes inv: "kernel_inv env k"
  obtains m where "kill_all k = (Inr (), k\<lparr>k_lifecycles := m, k_frozen := True, k_killed := True\<rparr>)"
    and "entries_move (k_lifecycles k) m" and "\<forall>(c, l)\<in>set m. lc_state l = LS_Killed"
    and "kernel_inv env (k\<lparr>k_lifecycles := m, k_frozen := True, k_killed := True\<rparr>)"
proof (rule kill_records [OF inv])
  fix m
  assume m: "apply_where (\<lambda>s. s \<noteq> LS_Killed) EV_Kill (k_lifecycles k) = (Inr (), m)"
    and mv: "entries_move (k_lifecycles k) m" and d: "\<forall>(c, l)\<in>set m. lc_state l = LS_Killed"
  have i: "kernel_inv env (k\<lparr>k_lifecycles := m, k_frozen := True, k_killed := True\<rparr>)"
    using kernel_inv_move [OF inv mv, of True True] by simp
  have r: "kill_all k = (Inr (), k\<lparr>k_lifecycles := m, k_frozen := True, k_killed := True\<rparr>)"
    by (simp add: kill_all_def m)
  show thesis by (rule that [OF r mv d i])
qed

lemma configure_inv: "kernel_inv env k \<Longrightarrow> kernel_inv env (snd (configure_failure_budget k b))"
  using budget_tracker_valid [of b]
  by (auto simp: configure_failure_budget_def kernel_inv_def split: sum.splits)

lemma observe_success_inv: "kernel_inv env k \<Longrightarrow> kernel_inv env (observe_success k)"
proof -
  assume inv: "kernel_inv env k"
  have "\<not> is_exhausted t \<Longrightarrow> \<not> is_exhausted (record_success t)" for t
    by (auto simp: is_exhausted_def record_success_def at_or_over_def)
  then show ?thesis
    using inv record_success_valid by (auto simp: observe_success_def kernel_inv_def)
qed

lemma kernel_observe_failure_cases:
  assumes inv: "kernel_inv env k"
  obtains (none) "k_failure_tracker k = None" "kernel_observe_failure k kind = (Inr BD_Continue, k)"
  | (exhausted) t where "k_failure_tracker k = Some t" "is_exhausted t"
      "kernel_observe_failure k kind = (Inl (contract_rejected BudgetExhausted), k)"
  | (continue) t t' where "k_failure_tracker k = Some t" "\<not> is_exhausted t'"
      "record_failure t kind = (Inr BD_Continue, t')" "tracker_validate t' = Inr ()"
      "kernel_observe_failure k kind = (Inr BD_Continue, k\<lparr>k_failure_tracker := Some t'\<rparr>)"
  | (freeze) t t' m where "k_failure_tracker k = Some t" "is_exhausted t'"
      "record_failure t kind = (Inr BD_FreezeRequired, t')" "tracker_validate t' = Inr ()"
      "entries_move (k_lifecycles k) m" "\<forall>(c, l)\<in>set m. is_shutdown (lc_state l)"
      "kernel_observe_failure k kind =
         (Inr BD_FreezeRequired, k\<lparr>k_failure_tracker := Some t', k_lifecycles := m, k_frozen := True\<rparr>)"
      "\<forall>c l'. bt_get m c = Some l' \<longrightarrow> lc_state l' = LS_Killed \<longrightarrow>
         (\<exists>l. bt_get (k_lifecycles k) c = Some l \<and> lc_state l = LS_Killed)"
proof (cases "k_failure_tracker k")
  case None
  then show thesis using none by (simp add: kernel_observe_failure_def)
next
  case (Some t)
  have valid: "tracker_validate t = Inr ()" using inv Some by (auto simp: kernel_inv_def)
  show thesis
  proof (cases "is_exhausted t")
    case True
    then have "kernel_observe_failure k kind = (Inl (contract_rejected BudgetExhausted), k)"
      using Some record_failure_exhausted [OF valid True, of kind]
      by (simp add: kernel_observe_failure_def)
    then show thesis by (rule exhausted [OF Some True])
  next
    case False
    obtain t' where t': "record_failure t kind =
        (Inr (if is_exhausted t' then BD_FreezeRequired else BD_Continue), t')"
      "tracker_validate t' = Inr ()"
      using record_failure_room [OF valid False, of kind] by blast
    show thesis
    proof (cases "is_exhausted t'")
      case True
      let ?k = "k\<lparr>k_failure_tracker := Some t'\<rparr>"
      obtain m where m: "apply_where (\<lambda>s. \<not> is_shutdown s) EV_Freeze (k_lifecycles k) = (Inr (), m)"
        "entries_move (k_lifecycles k) m" "\<forall>(c, l)\<in>set m. is_shutdown (lc_state l)"
        by (rule freeze_records [OF inv])
      then have fz: "freeze_all ?k = (Inr (), ?k\<lparr>k_lifecycles := m, k_frozen := True\<rparr>)"
        by (simp add: freeze_all_def)
      show thesis
      proof (rule freeze [OF Some True _ t'(2) m(2,3)])
        show "record_failure t kind = (Inr BD_FreezeRequired, t')" using t' True by simp
        show "kernel_observe_failure k kind = (Inr BD_FreezeRequired,
            k\<lparr>k_failure_tracker := Some t', k_lifecycles := m, k_frozen := True\<rparr>)"
          using t' True fz by (simp add: kernel_observe_failure_def Some)
        show "\<forall>c l'. bt_get m c = Some l' \<longrightarrow> lc_state l' = LS_Killed \<longrightarrow>
            (\<exists>l. bt_get (k_lifecycles k) c = Some l \<and> lc_state l = LS_Killed)"
          using freeze_never_kills [OF m(1)] by blast
      qed
    next
      case False
      then show thesis
        using t' by (intro continue [OF Some False _ t'(2)]) (simp_all add: kernel_observe_failure_def Some)
    qed
  qed
qed

lemma kernel_observe_failure_inv:
  assumes inv: "kernel_inv env k"
  shows "kernel_inv env (snd (kernel_observe_failure k kind))"
  using inv
proof (cases rule: kernel_observe_failure_cases [where kind = kind])
  case (freeze t t' m)
  have "kernel_inv env (k\<lparr>k_lifecycles := m, k_frozen := True, k_killed := k_killed k\<rparr>)"
    by (rule kernel_inv_move [OF inv freeze(5)]) simp_all
  then show ?thesis using freeze by (simp add: kernel_inv_def)
qed (use inv in \<open>auto simp: kernel_inv_def\<close>)

lemma record_decision_Inr:
  "record_decision env k p kind reason cap = (Inr d, k') \<Longrightarrow>
    \<exists>j l. journal_append env (k_journal k) (proposal_digest env p)
        (digest env (replay_material (pr_agent_id p) (pr_nonce p))) (de_decision_digest d) = Inr j \<and>
      lifecycle_apply lifecycle_new (decision_event kind) = (Inr (lc_state l), l) \<and>
      d = \<lparr>de_candidate_id = pr_candidate_id p, de_kind = kind, de_reason = reason,
           de_candidate_digest = proposal_digest env p, de_policy_digest = policy_digest env (k_policy k),
           de_capability = cap,
           de_decision_digest = digest env (decision_material (pr_candidate_id p) kind reason
             (proposal_digest env p) (policy_digest env (k_policy k)) cap)\<rparr> \<and>
      k' = k\<lparr>k_journal := j, k_lifecycles := bt_insert (proposal_digest env p) l (k_lifecycles k),
             k_issuances := (case cap of None \<Rightarrow> k_issuances k
               | Some c \<Rightarrow> bt_insert (proposal_digest env p)
                   \<lparr>is_candidate_digest = proposal_digest env p, is_decision_digest = de_decision_digest d,
                    is_policy_digest = policy_digest env (k_policy k), is_capability = c,
                    is_consumed = False\<rparr> (k_issuances k))\<rparr>"
  by (cases kind)
    (auto simp: record_decision_def Let_def lifecycle_apply_def lifecycle_new_def u64_max_def
      split: sum.splits option.splits)

lemma record_decision_Inl: "record_decision env k p kind reason cap = (Inl e, k') \<Longrightarrow> k' = k"
  by (auto simp: record_decision_def Let_def split: sum.splits prod.splits)

lemma new_record_good:
  assumes "lifecycle_apply lifecycle_new (decision_event kind) = (Inr s, l)"
  shows "lc_good l" and "s = lc_state l"
proof -
  have "lifecycle_ok l" using lifecycle_apply_ok [OF lifecycle_new_ok, of "decision_event kind"] assms by simp
  then show "lc_good l" "s = lc_state l"
    using assms by (cases kind; auto simp: lc_good_def lifecycle_apply_Inr lifecycle_new_def)+
qed

lemma record_decision_inv:
  assumes env: "sha256_len env" and inv: "kernel_inv env k"
    and cap: "case cap of None \<Rightarrow> True | Some c \<Rightarrow> kind = DK_Accepted \<and> reason = ''policy satisfied'' \<and>
        (\<exists>t. admissible (k_policy k) p t \<and> c = issue_capability env (k_policy k) p t)"
  shows "kernel_inv env (snd (record_decision env k p kind reason cap))"
proof (cases "record_decision env k p kind reason cap")
  case (Pair r k')
  show ?thesis
  proof (cases r)
    case (Inl e)
    then show ?thesis using Pair inv record_decision_Inl by fastforce
  next
    case (Inr d)
    let ?c = "proposal_digest env p"
    obtain j l where j: "journal_append env (k_journal k) ?c
        (digest env (replay_material (pr_agent_id p) (pr_nonce p))) (de_decision_digest d) = Inr j"
      and l: "lifecycle_apply lifecycle_new (decision_event kind) = (Inr (lc_state l), l)"
      and d: "de_decision_digest d = digest env (decision_material (pr_candidate_id p) kind reason
             ?c (policy_digest env (k_policy k)) cap)"
      and k': "k' = k\<lparr>k_journal := j, k_lifecycles := bt_insert ?c l (k_lifecycles k),
             k_issuances := (case cap of None \<Rightarrow> k_issuances k
               | Some c \<Rightarrow> bt_insert ?c
                   \<lparr>is_candidate_digest = ?c, is_decision_digest = de_decision_digest d,
                    is_policy_digest = policy_digest env (k_policy k), is_capability = c,
                    is_consumed = False\<rparr> (k_issuances k))\<rparr>"
      using record_decision_Inr [OF Pair [unfolded Inr]] by auto
    have cands: "journal_candidates j = journal_candidates (k_journal k) @ [?c]"
      and fresh: "?c \<notin> set (journal_candidates (k_journal k))"
      using journal_append_candidates [OF j] by blast+
    have "bt_get (k_lifecycles k) ?c = None" using fresh kernel_inv_key [OF inv] by blast
    then have none: "bt_get (k_issuances k) ?c = None"
      using kernel_inv_issuance(2) [OF inv, of ?c] by (cases "bt_get (k_issuances k) ?c") auto
    have wf: "bt_wf (k_issuances k')" using inv by (auto simp: k' kernel_inv_def intro: bt_wf_insert split: option.splits)
    have iss: "issuance_ok env c i \<and> (\<exists>l. bt_get (k_lifecycles k') c = Some l \<and>
        (is_consumed i \<longrightarrow> lc_state l \<noteq> LS_Admitted))" if "bt_get (k_issuances k') c = Some i" for c i
    proof (cases "c = ?c")
      case True
      then show ?thesis using that none cap d
        by (auto simp: k' issuance_ok_def split: option.splits) blast
    next
      case False
      then have "bt_get (k_issuances k) c = Some i" using that by (auto simp: k' split: option.splits)
      then show ?thesis using False kernel_inv_issuance [OF inv] by (simp add: k')
    qed
    have "journal_validate env j = Inr ()"
      using journal_append_valid [OF env _ j] inv by (simp add: kernel_inv_def)
    moreover have "\<forall>e\<in>set (bt_insert ?c l (k_lifecycles k)). case e of (c, l) \<Rightarrow> lc_good l"
      using inv new_record_good [OF l] by (intro bt_insert_all) (auto simp: kernel_inv_def)
    moreover have "fst ` set (bt_insert ?c l (k_lifecycles k)) = set (journal_candidates j)"
      using inv cands by (simp add: kernel_inv_def)
    ultimately have "kernel_inv env k'"
      using inv wf iss unfolding kernel_inv_def by (auto simp: k' intro: bt_wf_insert)
    then show ?thesis using Pair by simp
  qed
qed

lemma admit_cases:
  obtains (error) e where "admit env k p now = (Inl e, k)"
  | (refused) kind reason where "kind \<noteq> DK_Accepted" "\<not> admissible (k_policy k) p now"
      "admit env k p now = record_decision env k p kind reason None"
  | (accepted) "\<not> k_frozen k" "\<not> k_killed k" "admissible (k_policy k) p now"
      "admit env k p now = record_decision env k p DK_Accepted ''policy satisfied''
         (Some (issue_capability env (k_policy k) p now))"
proof (cases "k_frozen k \<or> k_killed k \<or> \<not> is_ok (policy_validate (k_policy k)) \<or>
    \<not> is_ok (proposal_validate_shape p now)")
  case True
  then have "\<exists>e. admit env k p now = (Inl e, k)"
    by (auto simp: admit_def is_ok_def split: sum.splits)
  then show thesis using error by blast
next
  case False
  then have adm: "admit env k p now =
    (if pr_requests_direct_authority p
      then record_decision env k p DK_Rejected ''model requested direct authority'' None
      else if pr_action p \<notin> set (po_allowed_actions (k_policy k)) \<or>
              pr_scope p \<notin> set (po_allowed_scopes (k_policy k))
      then record_decision env k p DK_Rejected ''action or scope is not allowlisted'' None
      else if incomplete_budget (k_policy k) p \<or> over_budget (k_policy k) p
      then record_decision env k p DK_Rejected
             (if incomplete_budget (k_policy k) p then ''resource budget is incomplete''
              else ''resource budget exceeded'') None
      else if \<not> (\<exists>c\<in>set (pr_claims p). claim_qualifies c now)
      then record_decision env k p DK_Quarantined
             ''required claim is absent, stale, or malformed'' None
      else if \<not> now < capability_expiry (k_policy k) p now
      then record_decision env k p DK_Quarantined ''claim expires before capability'' None
      else record_decision env k p DK_Accepted ''policy satisfied''
             (Some (issue_capability env (k_policy k) p now)))"
    by (simp add: admit_def bs_contains_def list_ex_iff not_less is_ok_unit)
  show thesis
  proof (cases "admissible (k_policy k) p now")
    case True
    then show thesis using False adm by (intro accepted) (auto simp: admissible_def)
  next
    case na: False
    have "\<exists>kind reason. kind \<noteq> DK_Accepted \<and>
        admit env k p now = record_decision env k p kind reason None"
      using na False unfolding adm admissible_def by (auto split: if_splits)
    then show thesis using refused na by blast
  qed
qed

lemma admit_inv:
  assumes "sha256_len env" and "kernel_inv env k"
  shows "kernel_inv env (snd (admit env k p now))"
proof (cases rule: admit_cases [of env k p now])
  case accepted
  then show ?thesis by (auto intro!: record_decision_inv [OF assms])
qed (use assms record_decision_inv [OF assms] in auto)

section \<open>Consumption\<close>

lemma consume_cases:
  assumes "consume env k p d now = (r, k')"
  obtains (unchanged) "k' = k" "r \<noteq> Inr True"
  | (stale) l l' where "r = Inr False" "\<not> k_frozen k" "\<not> k_killed k"
      "bt_get (k_lifecycles k) (proposal_digest env p) = Some l" "lc_state l = LS_Admitted"
      "lifecycle_apply l EV_Quarantine = (Inr LS_Quarantined, l')"
      "k' = k\<lparr>k_lifecycles := bt_insert (proposal_digest env p) l' (k_lifecycles k)\<rparr>"
  | (consumed) l l' i where "r = Inr True" "\<not> k_frozen k" "\<not> k_killed k"
      "is_ok (policy_validate (k_policy k))"
      "bt_get (k_lifecycles k) (proposal_digest env p) = Some l" "lc_state l = LS_Admitted"
      "bt_get (k_issuances k) (proposal_digest env p) = Some i"
      "\<not> policy_stale (policy_digest env (k_policy k)) d i" "\<not> consume_refused env p d i now"
      "lifecycle_apply l EV_BeginExecution = (Inr LS_Executing, l')"
      "k' = k\<lparr>k_issuances := bt_modify (proposal_digest env p) (\<lambda>i. i\<lparr>is_consumed := True\<rparr>) (k_issuances k),
              k_lifecycles := bt_insert (proposal_digest env p) l' (k_lifecycles k)\<rparr>"
proof -
  let ?c = "proposal_digest env p"
  show thesis
  proof (cases "k_lock_poisoned k \<or> k_frozen k \<or> k_killed k \<or>
      \<not> is_ok (policy_validate (k_policy k)) \<or> bt_get (k_lifecycles k) ?c = None \<or>
      lc_state (the (bt_get (k_lifecycles k) ?c)) \<noteq> LS_Admitted \<or> bt_get (k_issuances k) ?c = None")
    case True
    then show thesis
      using assms by (intro unchanged) (auto simp: consume_def Let_def is_ok_unit
          split: if_splits sum.splits option.splits prod.splits)
  next
    case live: False
    then obtain l i where li: "bt_get (k_lifecycles k) ?c = Some l" "lc_state l = LS_Admitted"
      "bt_get (k_issuances k) ?c = Some i" by auto
    have step: "(r, k') =
       (if policy_stale (policy_digest env (k_policy k)) d i
        then (case lifecycle_apply l EV_Quarantine of
              (Inl e, _) \<Rightarrow> (Inl (contract_rejected e), k)
            | (Inr _, l') \<Rightarrow> (Inr False, k\<lparr>k_lifecycles := bt_insert ?c l' (k_lifecycles k)\<rparr>))
        else if consume_refused env p d i now then (Inr False, k)
        else case lifecycle_apply l EV_BeginExecution of
              (Inl e, _) \<Rightarrow> (Inl (contract_rejected e), k)
            | (Inr _, l') \<Rightarrow>
              (Inr True, k\<lparr>k_issuances := bt_modify ?c (\<lambda>i. i\<lparr>is_consumed := True\<rparr>) (k_issuances k),
                 k_lifecycles := bt_insert ?c l' (k_lifecycles k)\<rparr>))"
      using assms live li by (simp add: consume_def Let_def is_ok_unit)
    obtain q l1 where q: "lifecycle_apply l EV_Quarantine = (q, l1)"
      by (cases "lifecycle_apply l EV_Quarantine")
    obtain x l2 where x: "lifecycle_apply l EV_BeginExecution = (x, l2)"
      by (cases "lifecycle_apply l EV_BeginExecution")
    have qs: "q = Inr s \<Longrightarrow> s = LS_Quarantined" and xs: "x = Inr s \<Longrightarrow> s = LS_Executing" for s
      using q x li(2) by (auto simp: lifecycle_apply_Inr)
    show thesis
    proof (cases "policy_stale (policy_digest env (k_policy k)) d i")
      case True
      then show thesis using step q qs live li unchanged stale [OF _ _ _ li(1,2), of l1]
        by (cases q) auto
    next
      case False
      then show thesis
        using step x xs live li unchanged consumed [OF _ _ _ _ li False, of l2]
        by (cases "consume_refused env p d i now"; cases x) auto
    qed
  qed
qed

lemma consume_inv:
  assumes inv: "kernel_inv env k" and eq: "consume env k p d now = (r, k')"
  shows "kernel_inv env k'" and "entries_move (k_lifecycles k) (k_lifecycles k')"
proof -
  have wf: "bt_wf (k_lifecycles k)" using inv by (simp add: kernel_inv_def)
  have "kernel_inv env k' \<and> entries_move (k_lifecycles k) (k_lifecycles k')"
    using eq
  proof (cases rule: consume_cases)
    case unchanged
    then show ?thesis using inv by simp
  next
    case (stale l l')
    then have "entries_move (k_lifecycles k) (bt_insert (proposal_digest env p) l' (k_lifecycles k))"
      using bt_insert_present [OF wf stale(4)] entries_move_modify [OF wf stale(4)]
        lc_moves_apply [OF stale(6)] by simp
    then show ?thesis using kernel_inv_move_records [OF inv] stale by simp
  next
    case (consumed l l' i)
    let ?m = "bt_insert (proposal_digest env p) l' (k_lifecycles k)"
    have mv: "entries_move (k_lifecycles k) ?m"
      using bt_insert_present [OF wf consumed(5)] entries_move_modify [OF wf consumed(5)]
        lc_moves_apply [OF consumed(10)] by simp
    then have "kernel_inv env (k\<lparr>k_lifecycles := ?m\<rparr>)" by (rule kernel_inv_move_records [OF inv])
    moreover have "lc_state l' = LS_Executing" using consumed(10) by (auto simp: lifecycle_apply_Inr)
    ultimately have "kernel_inv env (k\<lparr>k_lifecycles := ?m,
        k_issuances := bt_modify (proposal_digest env p) (\<lambda>i. i\<lparr>is_consumed := True\<rparr>) (k_issuances k)\<rparr>)"
      using kernel_inv_consumed [of env "k\<lparr>k_lifecycles := ?m\<rparr>" "proposal_digest env p" l'] by simp
    moreover have "k' = k\<lparr>k_lifecycles := ?m,
        k_issuances := bt_modify (proposal_digest env p) (\<lambda>i. i\<lparr>is_consumed := True\<rparr>) (k_issuances k)\<rparr>"
      unfolding consumed(11) by (rule kernel.equality) simp_all
    ultimately show ?thesis using mv by simp
  qed
  then show "kernel_inv env k'" and "entries_move (k_lifecycles k) (k_lifecycles k')" by blast+
qed

lemma apply_lifecycle_event_inv:
  assumes inv: "kernel_inv env k" and eq: "apply_lifecycle_event env k p ev = (r, k')"
    and ev: "ev \<noteq> EV_Admit" "ev \<noteq> EV_Reject"
  shows "kernel_inv env k'" and "entries_move (k_lifecycles k) (k_lifecycles k')"
proof -
  let ?c = "proposal_digest env p"
  have "k' = k \<or> (\<exists>l l' s. bt_get (k_lifecycles k) ?c = Some l \<and> lifecycle_apply l ev = (Inr s, l') \<and>
      k' = k\<lparr>k_lifecycles := bt_modify ?c (\<lambda>_. l') (k_lifecycles k)\<rparr>)"
    using eq by (auto simp: apply_lifecycle_event_def Let_def split: option.splits prod.splits sum.splits)
  moreover have wf: "bt_wf (k_lifecycles k)" using inv by (simp add: kernel_inv_def)
  ultimately have mv: "entries_move (k_lifecycles k) (k_lifecycles k')"
    and k': "k' = k\<lparr>k_lifecycles := k_lifecycles k'\<rparr>"
    using entries_move_modify [OF wf] lc_moves_apply [OF _ ev] by fastforce+
  show "entries_move (k_lifecycles k) (k_lifecycles k')" by (rule mv)
  show "kernel_inv env k'"
    using kernel_inv_move_records [OF inv mv] k' by simp
qed

section \<open>The kernel as a machine\<close>

text \<open>
  The public operations of \<open>Kernel\<close>.  \<open>KO_SetPolicy\<close> is an assignment to the public field
  \<open>policy\<close>, which the code expects and checks for in \<open>consume\<close>.  \<open>KO_Restart\<close> replaces
  the kernel by the one that \<open>from_snapshot\<close> makes of its own snapshot; when the snapshot is
  refused the old kernel stays.
\<close>

datatype kernel_op =
    KO_SetPolicy policy
  | KO_Configure failure_budget
  | KO_ObserveFailure failure_kind
  | KO_ObserveSuccess
  | KO_FreezeAll
  | KO_KillAll
  | KO_Admit proposal u64
  | KO_Consume proposal decision u64
  | KO_Complete proposal
  | KO_Rollback proposal
  | KO_Quarantine proposal
  | KO_Freeze proposal
  | KO_Kill proposal
  | KO_Restart

fun kernel_step :: "crypto \<Rightarrow> kernel \<Rightarrow> kernel_op \<Rightarrow> kernel" where
  "kernel_step env k (KO_SetPolicy p) = k\<lparr>k_policy := p\<rparr>"
| "kernel_step env k (KO_Configure b) = snd (configure_failure_budget k b)"
| "kernel_step env k (KO_ObserveFailure f) = snd (kernel_observe_failure k f)"
| "kernel_step env k KO_ObserveSuccess = observe_success k"
| "kernel_step env k KO_FreezeAll = snd (freeze_all k)"
| "kernel_step env k KO_KillAll = snd (kill_all k)"
| "kernel_step env k (KO_Admit p now) = snd (admit env k p now)"
| "kernel_step env k (KO_Consume p d now) = snd (consume env k p d now)"
| "kernel_step env k (KO_Complete p) = snd (kernel_complete env k p)"
| "kernel_step env k (KO_Rollback p) = snd (kernel_rollback env k p)"
| "kernel_step env k (KO_Quarantine p) = snd (kernel_quarantine env k p)"
| "kernel_step env k (KO_Freeze p) = snd (kernel_freeze env k p)"
| "kernel_step env k (KO_Kill p) = snd (kernel_kill env k p)"
| "kernel_step env k KO_Restart = (case kernel_from_snapshot env (kernel_snapshot_of k) of
     Inl _ \<Rightarrow> k | Inr k' \<Rightarrow> k')"

lemma restart_cases:
  "kernel_step env k KO_Restart = k \<or>
   kernel_step env k KO_Restart = k\<lparr>k_issuances := [], k_lock_poisoned := False\<rparr>"
  by (auto simp: kernel_from_snapshot_def kernel_snapshot_of_def try_r_def split: sum.splits)

declare kernel_step.simps(14) [simp del]

lemma restart_frame:
  "k_journal (kernel_step env k KO_Restart) = k_journal k"
  "k_frozen (kernel_step env k KO_Restart) = k_frozen k"
  "k_killed (kernel_step env k KO_Restart) = k_killed k"
  "k_lifecycles (kernel_step env k KO_Restart) = k_lifecycles k"
  using restart_cases [of env k] by auto

lemma restart_inv:
  assumes "kernel_inv env k"
  shows "kernel_inv env (kernel_step env k KO_Restart)"
proof -
  have "kernel_inv env (k\<lparr>k_issuances := [], k_lock_poisoned := False\<rparr>)"
    using assms unfolding kernel_inv_def by simp
  then show ?thesis using assms restart_cases [of env k] by metis
qed

lemmas kernel_lifecycle_ops =
  kernel_complete_def kernel_rollback_def kernel_quarantine_def kernel_freeze_def kernel_kill_def

lemma kernel_event_ops:
  "EV_Complete \<noteq> EV_Admit \<and> EV_Complete \<noteq> EV_Reject" "EV_Rollback \<noteq> EV_Admit \<and> EV_Rollback \<noteq> EV_Reject"
  "EV_Quarantine \<noteq> EV_Admit \<and> EV_Quarantine \<noteq> EV_Reject" "EV_Freeze \<noteq> EV_Admit \<and> EV_Freeze \<noteq> EV_Reject"
  "EV_Kill \<noteq> EV_Admit \<and> EV_Kill \<noteq> EV_Reject"
  by simp_all

lemma lifecycle_ops_inv:
  assumes "kernel_inv env k" and "ev \<noteq> EV_Admit \<and> ev \<noteq> EV_Reject"
  shows "kernel_inv env (snd (apply_lifecycle_event env k p ev))"
    and "entries_move (k_lifecycles k) (k_lifecycles (snd (apply_lifecycle_event env k p ev)))"
  using apply_lifecycle_event_inv [OF assms(1) prod.collapse [symmetric]] assms(2) by blast+

lemma consume_snd_inv:
  assumes "kernel_inv env k"
  shows "kernel_inv env (snd (consume env k p d now))"
    and "entries_move (k_lifecycles k) (k_lifecycles (snd (consume env k p d now)))"
  using consume_inv [OF assms prod.collapse [symmetric]] by blast+

lemma kernel_step_inv:
  assumes env: "sha256_len env" and inv: "kernel_inv env k"
  shows "kernel_inv env (kernel_step env k a)"
proof (cases a)
  case (KO_SetPolicy p)
  then show ?thesis using inv by (simp add: kernel_inv_def)
next
  case KO_FreezeAll
  show ?thesis by (rule freeze_all_inv [OF inv]) (simp add: KO_FreezeAll)
next
  case KO_KillAll
  show ?thesis by (rule kill_all_inv [OF inv]) (simp add: KO_KillAll)
next
  case KO_Restart
  then show ?thesis using restart_inv [OF inv] by simp
qed (simp_all add: kernel_lifecycle_ops lifecycle_ops_inv(1) [OF inv] consume_snd_inv(1) [OF inv]
    configure_inv [OF inv] kernel_observe_failure_inv [OF inv] observe_success_inv [OF inv]
    admit_inv [OF env inv])

text \<open>A record that the kernel holds only ever moves forward.\<close>

lemma admit_record:
  assumes inv: "kernel_inv env k" and l: "bt_get (k_lifecycles k) c = Some l"
  shows "bt_get (k_lifecycles (snd (admit env k p now))) c = Some l"
proof -
  have known: "c \<in> set (journal_candidates (k_journal k))"
    using kernel_inv_key [OF inv, of c] l by auto
  have "bt_get (k_lifecycles (snd (record_decision env k p kind reason cap))) c = Some l"
    for kind reason cap
  proof (cases "record_decision env k p kind reason cap")
    case (Pair r k')
    show ?thesis
    proof (cases r)
      case (Inl e)
      then show ?thesis using Pair l record_decision_Inl by fastforce
    next
      case (Inr d)
      have "c \<noteq> proposal_digest env p"
        using record_decision_Inr [OF Pair [unfolded Inr]] known journal_append_candidates by blast
      then show ?thesis using record_decision_Inr [OF Pair [unfolded Inr]] l Pair by auto
    qed
  qed
  then show ?thesis using l by (cases rule: admit_cases [of env k p now]) auto
qed

lemma kernel_observe_failure_moves:
  assumes inv: "kernel_inv env k"
  shows "entries_move (k_lifecycles k) (k_lifecycles (snd (kernel_observe_failure k f)))"
  by (cases rule: kernel_observe_failure_cases [OF inv, of f]) auto

lemma kernel_step_moves:
  assumes inv: "kernel_inv env k" and "\<nexists>p now. a = KO_Admit p now"
  shows "entries_move (k_lifecycles k) (k_lifecycles (kernel_step env k a))"
proof (cases a)
  case KO_FreezeAll
  then show ?thesis by (auto intro: freeze_all_inv [OF inv])
next
  case KO_KillAll
  then show ?thesis by (auto intro: kill_all_inv [OF inv])
next
  case (KO_Configure b)
  then show ?thesis by (auto simp: configure_failure_budget_def split: if_splits sum.splits)
next
  case (KO_Admit p now)
  then show ?thesis using assms(2) by blast
qed (use lifecycle_ops_inv(2) [OF inv] consume_snd_inv(2) [OF inv] kernel_observe_failure_moves [OF inv]
      in \<open>simp_all add: kernel_lifecycle_ops observe_success_def restart_frame\<close>)

lemma kernel_step_keys:
  assumes "kernel_inv env k" and "\<nexists>p now. a = KO_Admit p now"
  shows "fst ` set (k_lifecycles (kernel_step env k a)) = fst ` set (k_lifecycles k)"
  using entries_move_keys [OF kernel_step_moves [OF assms]] by (metis set_map)

lemma kernel_step_record:
  assumes inv: "kernel_inv env k" and l: "bt_get (k_lifecycles k) c = Some l"
  shows "\<exists>l'. bt_get (k_lifecycles (kernel_step env k a)) c = Some l' \<and> lc_moves l l'"
proof (cases "\<exists>p now. a = KO_Admit p now")
  case True
  then show ?thesis using admit_record [OF inv l] by auto
next
  case False
  then show ?thesis using entries_move_get [OF kernel_step_moves [OF inv] l] by blast
qed

text \<open>What no operation undoes.\<close>

definition kernel_grows :: "kernel \<Rightarrow> kernel \<Rightarrow> bool" where
  "kernel_grows k k' \<longleftrightarrow>
     (k_frozen k \<longrightarrow> k_frozen k') \<and> (k_killed k \<longrightarrow> k_killed k') \<and>
     prefix (rj_entries (k_journal k)) (rj_entries (k_journal k')) \<and>
     (\<forall>c l. bt_get (k_lifecycles k) c = Some l \<longrightarrow>
        (\<exists>l'. bt_get (k_lifecycles k') c = Some l' \<and>
              (lc_state l \<noteq> LS_Admitted \<longrightarrow> lc_state l' \<noteq> LS_Admitted) \<and>
              (is_shutdown (lc_state l) \<longrightarrow> is_shutdown (lc_state l'))))"

lemma kernel_growsD:
  assumes "kernel_grows k k'"
  shows "k_frozen k \<Longrightarrow> k_frozen k'" "k_killed k \<Longrightarrow> k_killed k'"
    "prefix (rj_entries (k_journal k)) (rj_entries (k_journal k'))"
    "bt_get (k_lifecycles k) c = Some l \<Longrightarrow> \<exists>l'. bt_get (k_lifecycles k') c = Some l' \<and>
       (lc_state l \<noteq> LS_Admitted \<longrightarrow> lc_state l' \<noteq> LS_Admitted) \<and>
       (is_shutdown (lc_state l) \<longrightarrow> is_shutdown (lc_state l'))"
  using assms unfolding kernel_grows_def by blast+

lemma record_decision_frame:
  "prefix (rj_entries (k_journal k)) (rj_entries (k_journal (snd (record_decision env k p kind reason cap)))) \<and>
   k_frozen (snd (record_decision env k p kind reason cap)) = k_frozen k \<and>
   k_killed (snd (record_decision env k p kind reason cap)) = k_killed k"
proof (cases "record_decision env k p kind reason cap")
  case (Pair r k')
  show ?thesis
  proof (cases r)
    case (Inl e)
    then show ?thesis using Pair record_decision_Inl by fastforce
  next
    case (Inr d)
    show ?thesis
      using record_decision_Inr [OF Pair [unfolded Inr]] Pair
      by (auto dest!: journal_append_prefix)
  qed
qed

lemma admit_frame:
  "prefix (rj_entries (k_journal k)) (rj_entries (k_journal (snd (admit env k p now)))) \<and>
   k_frozen (snd (admit env k p now)) = k_frozen k \<and> k_killed (snd (admit env k p now)) = k_killed k"
  by (cases rule: admit_cases [of env k p now]) (simp_all add: record_decision_frame)

lemma consume_frame:
  "k_journal (snd (consume env k p d now)) = k_journal k"
  "k_frozen (snd (consume env k p d now)) = k_frozen k"
  "k_killed (snd (consume env k p d now)) = k_killed k"
  "k_policy (snd (consume env k p d now)) = k_policy k"
proof -
  obtain r k' where eq: "consume env k p d now = (r, k')" by (cases "consume env k p d now")
  show "k_journal (snd (consume env k p d now)) = k_journal k"
    "k_frozen (snd (consume env k p d now)) = k_frozen k"
    "k_killed (snd (consume env k p d now)) = k_killed k"
    "k_policy (snd (consume env k p d now)) = k_policy k"
    using eq by (cases rule: consume_cases; simp add: eq)+
qed

lemma lifecycle_event_frame:
  "k_journal (snd (apply_lifecycle_event env k p ev)) = k_journal k"
  "k_frozen (snd (apply_lifecycle_event env k p ev)) = k_frozen k"
  "k_killed (snd (apply_lifecycle_event env k p ev)) = k_killed k"
  "k_issuances (snd (apply_lifecycle_event env k p ev)) = k_issuances k"
  by (auto simp: apply_lifecycle_event_def Let_def split: option.splits prod.splits sum.splits)

lemma kernel_step_flags:
  assumes inv: "kernel_inv env k"
  shows "prefix (rj_entries (k_journal k)) (rj_entries (k_journal (kernel_step env k a))) \<and>
    (k_frozen k \<longrightarrow> k_frozen (kernel_step env k a)) \<and> (k_killed k \<longrightarrow> k_killed (kernel_step env k a))"
proof (cases a)
  case (KO_Configure b)
  then show ?thesis by (auto simp: configure_failure_budget_def split: sum.splits)
next
  case (KO_ObserveFailure f)
  show ?thesis using inv
    by (cases rule: kernel_observe_failure_cases [where kind = f]) (simp_all add: KO_ObserveFailure)
next
  case KO_FreezeAll
  show ?thesis by (rule freeze_all_inv [OF inv]) (simp add: KO_FreezeAll)
next
  case KO_KillAll
  show ?thesis by (rule kill_all_inv [OF inv]) (simp add: KO_KillAll)
qed (simp_all add: kernel_lifecycle_ops lifecycle_event_frame consume_frame admit_frame observe_success_def
    restart_frame)

lemma kernel_step_grows:
  assumes inv: "kernel_inv env k"
  shows "kernel_grows k (kernel_step env k a)"
proof -
  have "\<exists>l'. bt_get (k_lifecycles (kernel_step env k a)) c = Some l' \<and>
       (lc_state l \<noteq> LS_Admitted \<longrightarrow> lc_state l' \<noteq> LS_Admitted) \<and>
       (is_shutdown (lc_state l) \<longrightarrow> is_shutdown (lc_state l'))"
    if "bt_get (k_lifecycles k) c = Some l" for c l
    using kernel_step_record [OF inv that, of a] lc_moves_not_admitted lc_moves_shutdown by blast
  then show ?thesis using kernel_step_flags [OF inv, of a] by (simp add: kernel_grows_def)
qed

lemma kernel_grows_refl: "kernel_grows k k"
  by (simp add: kernel_grows_def)

lemma kernel_grows_trans:
  assumes "kernel_grows k1 k2" and "kernel_grows k2 k3"
  shows "kernel_grows k1 k3"
proof -
  have "\<exists>l3. bt_get (k_lifecycles k3) c = Some l3 \<and>
       (lc_state l \<noteq> LS_Admitted \<longrightarrow> lc_state l3 \<noteq> LS_Admitted) \<and>
       (is_shutdown (lc_state l) \<longrightarrow> is_shutdown (lc_state l3))"
    if "bt_get (k_lifecycles k1) c = Some l" for c l
    using kernel_growsD(4) [OF assms(1) that] kernel_growsD(4) [OF assms(2)] by blast
  moreover have "prefix (rj_entries (k_journal k1)) (rj_entries (k_journal k3))"
    using kernel_growsD(3) [OF assms(1)] kernel_growsD(3) [OF assms(2)] by (rule prefix_order.trans)
  ultimately show ?thesis
    using kernel_growsD(1,2) [OF assms(1)] kernel_growsD(1,2) [OF assms(2)]
    by (simp add: kernel_grows_def)
qed

interpretation kernel_machine:
  monotone_machine "kernel_step env" "\<lambda>k. sha256_len env \<and> kernel_inv env k" kernel_grows
  for env
proof
  show "sha256_len env \<and> kernel_inv env (kernel_step env k a)"
    if "sha256_len env \<and> kernel_inv env k" for k a
    using that kernel_step_inv by blast
  show "kernel_grows k (kernel_step env k a)" if "sha256_len env \<and> kernel_inv env k" for k a
    using that kernel_step_grows by blast
qed (rule kernel_grows_refl, rule kernel_grows_trans)

text \<open>The kernel that a sequence of operations leaves behind.\<close>

abbreviation kernel_run :: "crypto \<Rightarrow> kernel \<Rightarrow> kernel_op list \<Rightarrow> kernel" where
  "kernel_run env \<equiv> run_ops (kernel_step env)"

lemma kernel_run_inv:
  "sha256_len env \<Longrightarrow> kernel_new pol = Inr k \<Longrightarrow> kernel_inv env (kernel_run env k ops)"
  using kernel_machine.run_inv [of env k ops] kernel_new_inv [of pol k env] by blast

end
