(* ===== verification/Kernel_Properties.thy ===== *)
theory Kernel_Properties
  imports Kernel_Safety
begin

text \<open>
  What the kernel of src/lib.rs guarantees over whole runs: single use, no replay, no
  consumption without an admission, bounded capabilities, final freeze and kill, snapshots
  that round trip, a tamper-evident journal.  A run is any list of \<open>kernel_op\<close>, applied to a
  kernel that \<open>Kernel::new\<close> returned.
\<close>

section \<open>A concrete environment for the examples\<close>

text \<open>
  A proposal that the default policy admits.  It only serves to show that the hypotheses of
  the theorems can hold.
\<close>

definition demo_claim :: claim where
  "demo_claim = \<lparr>cl_guarantees = [''PolicyCompliance''], cl_assumptions = [], cl_excludes = [],
     cl_maturity = 2, cl_trust_roots = [''root''], cl_valid_until = 500,
     cl_provenance_digest = zero_digest\<rparr>"

definition demo_proposal :: proposal where
  "demo_proposal = \<lparr>pr_candidate_id = ''c1'', pr_agent_id = ''a1'', pr_intent = ''store'',
     pr_action = Act_Write, pr_scope = ''sandbox'',
     pr_payload = [(''key'', JStr ''sandbox:a''), (''value'', JInt 7)],
     pr_resource_cost = [(''bytes'', 10), (''cpu_ms'', 5), (''spend'', 0)],
     pr_source_digest = zero_digest, pr_claims = [demo_claim], pr_nonce = 1,
     pr_expires_at = 200, pr_requests_direct_authority = False\<rparr>"

definition demo_kernel :: kernel where
  "demo_kernel = \<lparr>k_policy = policy_default, k_journal = journal_empty, k_issuances = [],
     k_lifecycles = [], k_failure_tracker = None, k_frozen = False, k_killed = False,
     k_lock_poisoned = False\<rparr>"

lemma demo_kernel_new: "kernel_new policy_default = Inr demo_kernel"
  by (simp add: kernel_new_def policy_default_valid demo_kernel_def)

lemma demo_qualifies: "now < 500 \<Longrightarrow> claim_qualifies demo_claim now"
  by (simp add: claim_qualifies_def demo_claim_def claim_validate_def)

lemma demo_expiry: "capability_expiry policy_default demo_proposal 100 = 130"
  by (simp add: capability_expiry_def demo_proposal_def min_or_def policy_default_def
      saturating_add_def demo_qualifies Let_def) (simp add: demo_claim_def)

lemma demo_claim_valid: "claim_validate demo_claim = Inr ()"
  by (simp add: demo_claim_def claim_validate_def)

lemma demo_admissible: "admissible policy_default demo_proposal 100"
  unfolding admissible_def
proof (intro conjI)
  show "is_ok (policy_validate policy_default)" by (simp add: policy_default_valid)
  show "100 < capability_expiry policy_default demo_proposal 100" by (simp add: demo_expiry)
qed (simp_all add: demo_proposal_def proposal_validate_shape_def incomplete_budget_def demo_claim_valid
      over_budget_def policy_default_def bs_from_list_def bt_keys_def bt_contains_def demo_qualifies)

section \<open>Where an issuance comes from\<close>

definition accepted_decision :: "crypto \<Rightarrow> policy \<Rightarrow> proposal \<Rightarrow> u64 \<Rightarrow> decision" where
  "accepted_decision env pol p t =
     (let cap = Some (issue_capability env pol p t)
      in \<lparr>de_candidate_id = pr_candidate_id p, de_kind = DK_Accepted, de_reason = ''policy satisfied'',
          de_candidate_digest = proposal_digest env p, de_policy_digest = policy_digest env pol,
          de_capability = cap,
          de_decision_digest = digest env (decision_material (pr_candidate_id p) DK_Accepted
            ''policy satisfied'' (proposal_digest env p) (policy_digest env pol) cap)\<rparr>)"

definition issuance_of :: "crypto \<Rightarrow> policy \<Rightarrow> proposal \<Rightarrow> u64 \<Rightarrow> issuance" where
  "issuance_of env pol p t =
     \<lparr>is_candidate_digest = proposal_digest env p,
      is_decision_digest = de_decision_digest (accepted_decision env pol p t),
      is_policy_digest = policy_digest env pol, is_capability = issue_capability env pol p t,
      is_consumed = False\<rparr>"

definition accepts :: "crypto \<Rightarrow> kernel \<Rightarrow> proposal \<Rightarrow> u64 \<Rightarrow> bool" where
  "accepts env k p t \<longleftrightarrow> \<not> k_frozen k \<and> \<not> k_killed k \<and> admissible (k_policy k) p t \<and>
     fst (admit env k p t) = Inr (accepted_decision env (k_policy k) p t)"

lemma admit_admissible:
  assumes "\<not> k_frozen k" and "\<not> k_killed k" and "admissible (k_policy k) p t"
  shows "admit env k p t = record_decision env k p DK_Accepted ''policy satisfied''
      (Some (issue_capability env (k_policy k) p t))"
  using assms
  by (auto simp: admit_def admissible_def bs_contains_def list_ex_iff is_ok_unit)

lemma record_decision_fresh:
  assumes "sha256_len env" and "proposal_digest env p \<notin> set (journal_candidates (k_journal k))"
    and "digest env (replay_material (pr_agent_id p) (pr_nonce p)) \<notin> set (journal_replays (k_journal k))"
  shows "\<exists>d k'. record_decision env k p kind reason cap = (Inr d, k') \<and> de_kind d = kind"
proof -
  have "\<exists>j. journal_append env (k_journal k) (proposal_digest env p)
      (digest env (replay_material (pr_agent_id p) (pr_nonce p))) (digest env m) = Inr j" for m
    using assms by (simp add: journal_append_Inr proposal_digest_def Let_def)
  moreover have "\<exists>s l. lifecycle_apply lifecycle_new (decision_event kind) = (Inr s, l)"
    by (cases kind) (simp_all add: lifecycle_apply_def lifecycle_new_def u64_max_def)
  ultimately show ?thesis
    by (clarsimp simp: record_decision_def Let_def split: sum.split) (metis sum.distinct(1))
qed

lemma record_decision_accepted:
  assumes "record_decision env k p DK_Accepted ''policy satisfied''
      (Some (issue_capability env (k_policy k) p t)) = (Inr d, k')"
  shows "d = accepted_decision env (k_policy k) p t"
    and "k_issuances k' = bt_insert (proposal_digest env p) (issuance_of env (k_policy k) p t) (k_issuances k)"
  using record_decision_Inr [OF assms]
  by (auto simp: accepted_decision_def issuance_of_def Let_def)

lemma record_decision_issuances:
  "k_issuances (snd (record_decision env k p kind reason None)) = k_issuances k"
proof (cases "record_decision env k p kind reason None")
  case (Pair r k')
  show ?thesis
  proof (cases r)
    case (Inl e)
    then show ?thesis using Pair record_decision_Inl by fastforce
  next
    case (Inr d)
    then show ?thesis using record_decision_Inr [of env k p kind reason None d k'] Pair by auto
  qed
qed

lemma admit_issuances:
  "k_issuances (snd (admit env k p t)) = k_issuances k \<or>
   accepts env k p t \<and> k_issuances (snd (admit env k p t)) =
     bt_insert (proposal_digest env p) (issuance_of env (k_policy k) p t) (k_issuances k)"
proof (cases rule: admit_cases [of env k p t])
  case accepted
  obtain r k' where rk: "admit env k p t = (r, k')" by (cases "admit env k p t")
  show ?thesis
  proof (cases r)
    case (Inl e)
    then show ?thesis using rk accepted record_decision_Inl by fastforce
  next
    case (Inr d)
    then have "record_decision env k p DK_Accepted ''policy satisfied''
      (Some (issue_capability env (k_policy k) p t)) = (Inr d, k')"
      using rk accepted by simp
    from record_decision_accepted [OF this] show ?thesis
      using accepted(1-3) rk Inr by (simp add: accepts_def)
  qed
qed (simp_all add: record_decision_issuances)

lemma consume_issuances:
  "bt_get (k_issuances (snd (consume env k p d now))) c = Some i \<Longrightarrow>
     \<exists>i0 b. bt_get (k_issuances k) c = Some i0 \<and> i = i0\<lparr>is_consumed := b\<rparr>"
proof -
  assume i: "bt_get (k_issuances (snd (consume env k p d now))) c = Some i"
  have same: "\<exists>i0 b. Some j = Some i0 \<and> j = i0\<lparr>is_consumed := b\<rparr>" for j :: issuance
    by (rule exI [of _ j], rule exI [of _ "is_consumed j"]) simp
  obtain r k' where eq: "consume env k p d now = (r, k')" by (cases "consume env k p d now")
  from eq show ?thesis
    by (cases rule: consume_cases) (use i same in \<open>auto simp: eq split: if_splits\<close>)
qed

lemma kernel_step_issuance:
  assumes inv: "kernel_inv env k" and i: "bt_get (k_issuances (kernel_step env k a)) c = Some i"
  shows "(\<exists>i0 b. bt_get (k_issuances k) c = Some i0 \<and> i = i0\<lparr>is_consumed := b\<rparr>) \<or>
    (\<exists>p t. a = KO_Admit p t \<and> accepts env k p t \<and> c = proposal_digest env p \<and>
       i = issuance_of env (k_policy k) p t)"
proof -
  have same: "\<exists>i0 b. Some j = Some i0 \<and> j = i0\<lparr>is_consumed := b\<rparr>" for j :: issuance
    by (rule exI [of _ j], rule exI [of _ "is_consumed j"]) simp
  consider (admit) p t where "a = KO_Admit p t" | (consume) p d t where "a = KO_Consume p d t"
    | (other) "k_issuances (kernel_step env k a) = k_issuances k"
    | (lost) "k_issuances (kernel_step env k a) = []"
  proof (cases a)
    case (KO_ObserveFailure f)
    show thesis using inv
      by (cases rule: kernel_observe_failure_cases [where kind = f])
        (rule other; simp add: KO_ObserveFailure)+
  next
    case KO_FreezeAll
    show thesis by (rule freeze_all_inv [OF inv]) (rule other, simp add: KO_FreezeAll)
  next
    case KO_KillAll
    show thesis by (rule kill_all_inv [OF inv]) (rule other, simp add: KO_KillAll)
  next
    case (KO_Configure b)
    show thesis
      by (rule other) (simp add: KO_Configure configure_failure_budget_def split: sum.splits)
  next
    case KO_Restart
    then show thesis using restart_cases [of env k] other lost by fastforce
  qed (auto intro: that simp: kernel_lifecycle_ops lifecycle_event_frame observe_success_def)
  then show ?thesis
  proof cases
    case admit
    then show ?thesis using i admit_issuances [of env k p t] same
      by (auto split: if_splits)
  next
    case consume
    then show ?thesis using i consume_issuances by simp
  next
    case other
    then show ?thesis using i same by simp
  next
    case lost
    then show ?thesis using i by simp
  qed
qed

lemma run_issuance:
  assumes env: "sha256_len env" and inv: "kernel_inv env k0" and none: "k_issuances k0 = []"
    and "bt_get (k_issuances (kernel_run env k0 ops)) c = Some i"
  shows "\<exists>pre q t post b. ops = pre @ KO_Admit q t # post \<and> accepts env (kernel_run env k0 pre) q t \<and>
     c = proposal_digest env q \<and>
     i = (issuance_of env (k_policy (kernel_run env k0 pre)) q t)\<lparr>is_consumed := b\<rparr>"
  using assms(4)
proof (induction ops arbitrary: i rule: rev_induct)
  case Nil
  then show ?case by (simp add: none)
next
  case (snoc a ops)
  let ?k = "kernel_run env k0 ops"
  have kinv: "kernel_inv env ?k" using kernel_machine.run_inv env inv by blast
  have "bt_get (k_issuances (kernel_step env ?k a)) c = Some i"
    using snoc.prems by (simp add: run_ops_append)
  from kernel_step_issuance [OF kinv this] show ?case
  proof (elim disjE exE conjE)
    fix i0 b
    assume i0: "bt_get (k_issuances ?k) c = Some i0" "i = i0\<lparr>is_consumed := b\<rparr>"
    from snoc.IH [OF i0(1)] obtain pre q t post b' where
      "ops = pre @ KO_Admit q t # post" "accepts env (kernel_run env k0 pre) q t"
      "c = proposal_digest env q"
      "i0 = (issuance_of env (k_policy (kernel_run env k0 pre)) q t)\<lparr>is_consumed := b'\<rparr>" by blast
    then show ?case using i0(2)
      by (intro exI [of _ pre] exI [of _ q] exI [of _ t] exI [of _ "post @ [a]"] exI [of _ b]) simp
  next
    fix p t
    assume "a = KO_Admit p t" "accepts env ?k p t" "c = proposal_digest env p"
      "i = issuance_of env (k_policy ?k) p t"
    then show ?case
      by (intro exI [of _ ops] exI [of _ p] exI [of _ t] exI [of _ "[]"] exI [of _ False])
        (simp add: issuance_of_def)
  qed
qed

section \<open>Properties of the kernel\<close>

text \<open>How often a run of the kernel consumes a candidate.\<close>

definition consumes :: "crypto \<Rightarrow> string \<Rightarrow> kernel \<Rightarrow> kernel_op \<Rightarrow> bool" where
  "consumes env c k a = (case a of
     KO_Consume p d now \<Rightarrow> proposal_digest env p = c \<and> fst (consume env k p d now) = Inr True
   | _ \<Rightarrow> False)"

fun consume_count :: "crypto \<Rightarrow> string \<Rightarrow> kernel \<Rightarrow> kernel_op list \<Rightarrow> nat" where
  "consume_count env c k [] = 0"
| "consume_count env c k (a # as) =
     (if consumes env c k a then 1 else 0) + consume_count env c (kernel_step env k a) as"

lemma consumes_record:
  assumes "consumes env c k a"
  shows "\<exists>l l'. bt_get (k_lifecycles k) c = Some l \<and> lc_state l = LS_Admitted \<and>
     bt_get (k_lifecycles (kernel_step env k a)) c = Some l' \<and> lc_state l' = LS_Executing"
proof -
  obtain p d now k' where a: "a = KO_Consume p d now" "proposal_digest env p = c"
    "consume env k p d now = (Inr True, k')"
    using assms by (auto simp: consumes_def prod_eq_iff split: kernel_op.splits)
  from a(3) show ?thesis
    by (cases rule: consume_cases) (use a in \<open>auto simp: lifecycle_apply_Inr\<close>)
qed

lemma consume_count_zero:
  assumes "sha256_len env"
  shows "kernel_inv env k \<Longrightarrow> bt_get (k_lifecycles k) c = Some l \<Longrightarrow> lc_state l \<noteq> LS_Admitted \<Longrightarrow>
     consume_count env c k ops = 0"
proof (induction ops arbitrary: k l)
  case (Cons a ops)
  have "\<not> consumes env c k a" using consumes_record [of env c k a] Cons.prems by auto
  moreover have "kernel_grows k (kernel_step env k a)" by (rule kernel_step_grows) (rule Cons.prems)
  moreover have "kernel_inv env (kernel_step env k a)"
    by (rule kernel_step_inv) (use assms Cons.prems in auto)
  ultimately show ?case using Cons.IH kernel_growsD(4) Cons.prems(2,3) by fastforce
qed simp

lemma consume_count_le:
  assumes "sha256_len env"
  shows "kernel_inv env k \<Longrightarrow> consume_count env c k ops \<le> 1"
proof (induction ops arbitrary: k)
  case (Cons a ops)
  have inv: "kernel_inv env (kernel_step env k a)"
    by (rule kernel_step_inv) (use assms Cons.prems in auto)
  show ?case
  proof (cases "consumes env c k a")
    case True
    then obtain l' where "bt_get (k_lifecycles (kernel_step env k a)) c = Some l'" "lc_state l' = LS_Executing"
      using consumes_record by blast
    then have "consume_count env c (kernel_step env k a) ops = 0"
      using consume_count_zero [OF assms inv] by fastforce
    then show ?thesis by simp
  next
    case False
    then show ?thesis using Cons.IH [OF inv] by simp
  qed
qed simp

text \<open>
  The demonstration run: one admission, then two attempts to consume.
\<close>

definition demo_decision :: decision where
  "demo_decision = accepted_decision demo_env policy_default demo_proposal 100"

definition demo_admitted :: kernel where
  "demo_admitted = demo_kernel\<lparr>
     k_journal := \<lparr>rj_entries = [\<lparr>je_sequence = 0, je_previous_digest = zero_digest,
       je_candidate_digest = zero_digest, je_replay_digest = zero_digest,
       je_decision_digest = zero_digest, je_entry_digest = zero_digest\<rparr>]\<rparr>,
     k_lifecycles := [(zero_digest, \<lparr>lc_state = LS_Admitted, lc_revision = 1, lc_events = [EV_Admit]\<rparr>)],
     k_issuances := [(zero_digest, issuance_of demo_env policy_default demo_proposal 100)]\<rparr>"

lemma demo_admit: "admit demo_env demo_kernel demo_proposal 100 = (Inr demo_decision, demo_admitted)"
proof -
  have "admit demo_env demo_kernel demo_proposal 100 =
      record_decision demo_env demo_kernel demo_proposal DK_Accepted ''policy satisfied''
         (Some (issue_capability demo_env policy_default demo_proposal 100))"
    using admit_admissible [of demo_kernel demo_proposal 100 demo_env] demo_admissible
    by (simp add: demo_kernel_def)
  then show ?thesis
    by (simp add: record_decision_def Let_def lifecycle_apply_def lifecycle_new_def u64_max_def
        journal_append_def journal_empty_def demo_kernel_def demo_admitted_def proposal_digest_def
        policy_digest_def demo_decision_def accepted_decision_def issuance_of_def)
qed

lemma demo_consume_at:
  assumes "\<not> now < 100" and "\<not> 130 \<le> now"
  shows "fst (consume demo_env demo_admitted demo_proposal demo_decision now) = Inr True"
  using assms
  by (simp add: consume_def demo_admitted_def demo_kernel_def policy_default_valid proposal_digest_def
      policy_digest_def issuance_of_def demo_decision_def accepted_decision_def Let_def
      lifecycle_apply_def u64_max_def policy_stale_def consume_refused_def issue_capability_def demo_expiry)

lemma demo_consume: "fst (consume demo_env demo_admitted demo_proposal demo_decision 110) = Inr True"
  by (rule demo_consume_at) simp_all

text \<open>
  C1.  A capability is single use: whatever sequence of operations is applied to a new kernel
  (other admissions, policy changes, lifecycle control, failures, restarts from the kernel's
  own snapshot), \<open>consume\<close> answers true at most once for a candidate digest.
\<close>

theorem consume_at_most_once:
  assumes "sha256_len env" and "kernel_new pol = Inr k"
  shows "consume_count env c k ops \<le> 1"
  using consume_count_le assms kernel_new_inv by blast

theorem consume_at_most_once_witness:
  "consume_count demo_env zero_digest demo_kernel
     [KO_Admit demo_proposal 100, KO_Consume demo_proposal demo_decision 110,
      KO_Restart, KO_Consume demo_proposal demo_decision 111] = 1"
proof -
  let ?ops = "[KO_Admit demo_proposal 100, KO_Consume demo_proposal demo_decision 110,
      KO_Restart, KO_Consume demo_proposal demo_decision 111]"
  have "consume_count demo_env zero_digest demo_kernel ?ops \<le> 1"
    by (rule consume_at_most_once [OF demo_sha256_len demo_kernel_new])
  moreover have "1 \<le> consume_count demo_env zero_digest demo_kernel ?ops"
    by (simp add: consumes_def demo_admit demo_consume proposal_digest_def)
  ultimately show ?thesis by simp
qed

lemma consume_true:
  assumes "consume env k p d now = (Inr True, k')"
  obtains i where "bt_get (k_issuances k) (proposal_digest env p) = Some i"
    and "\<not> policy_stale (policy_digest env (k_policy k)) d i" and "\<not> consume_refused env p d i now"
    and "\<not> k_frozen k" "\<not> k_killed k"
  using assms by (cases rule: consume_cases) (auto intro: that)

text \<open>
  C2.  Every consumption answers an admission: when \<open>consume\<close> answers true after a run of a new
  kernel, the run contains an \<open>admit\<close> that accepted a proposal under the policy then in force,
  the presented proposal and the current policy are that proposal and that policy, the
  presented decision is the one that \<open>admit\<close> returned, and the clock is within the lifetime of the
  capability it issued.  Each "is" names the pair of values that would have to collide under
  SHA-256 for it to fail.
\<close>

theorem consume_answers_admission:
  assumes "sha256_len env" and "kernel_new pol0 = Inr k0"
    and "consume env (kernel_run env k0 ops) p d now = (Inr True, k')"
  shows "\<exists>pre q t post. ops = pre @ KO_Admit q t # post \<and>
    (let k1 = kernel_run env k0 pre; dec = accepted_decision env (k_policy k1) q t
     in \<not> k_frozen k1 \<and> \<not> k_killed k1 \<and> admissible (k_policy k1) q t \<and>
        fst (admit env k1 q t) = Inr dec \<and>
        (q = p \<or> collision env (json_proposal q) (json_proposal p)) \<and>
        (k_policy k1 = k_policy (kernel_run env k0 ops) \<or>
           collision env (json_policy (k_policy k1)) (json_policy (k_policy (kernel_run env k0 ops)))) \<and>
        (d = dec \<or> collision env
           (decision_material (pr_candidate_id q) DK_Accepted (de_reason dec) (de_candidate_digest dec)
             (de_policy_digest dec) (de_capability dec))
           (decision_material (pr_candidate_id p) DK_Accepted (de_reason d) (de_candidate_digest d)
             (de_policy_digest d) (de_capability d))) \<and>
        de_capability d = Some (issue_capability env (k_policy k1) q t) \<and>
        t \<le> now \<and> now < capability_expiry (k_policy k1) q t)"
proof -
  let ?k = "kernel_run env k0 ops"
  obtain i where i: "bt_get (k_issuances ?k) (proposal_digest env p) = Some i"
    "\<not> policy_stale (policy_digest env (k_policy ?k)) d i" "\<not> consume_refused env p d i now"
    using consume_true [OF assms(3)] by blast
  have none: "k_issuances k0 = []" using assms(2) by (auto simp: kernel_new_def try_r_eq_Inr)
  obtain pre q t post b where q: "ops = pre @ KO_Admit q t # post"
    "accepts env (kernel_run env k0 pre) q t" "proposal_digest env p = proposal_digest env q"
    "i = (issuance_of env (k_policy (kernel_run env k0 pre)) q t)\<lparr>is_consumed := b\<rparr>"
    using run_issuance [OF assms(1) kernel_new_inv [OF assms(2)] none i(1)] by blast
  let ?pol = "k_policy (kernel_run env k0 pre)"
  let ?dec = "accepted_decision env ?pol q t"
  have pol: "policy_digest env ?pol = policy_digest env (k_policy ?k)"
    using i(2) q(4) by (simp add: policy_stale_def issuance_of_def)
  have d: "de_kind d = DK_Accepted" "de_candidate_id d = pr_candidate_id p"
    "de_candidate_digest d = proposal_digest env p" "de_policy_digest d = policy_digest env ?pol"
    "de_capability d = Some (issue_capability env ?pol q t)"
    "de_decision_digest d = de_decision_digest ?dec"
    "de_decision_digest d = digest env (decision_material (pr_candidate_id p) DK_Accepted
       (de_reason d) (de_candidate_digest d) (de_policy_digest d) (de_capability d))"
    "t \<le> now" "now < capability_expiry ?pol q t"
    using i(3) q(3,4)
    by (auto simp: consume_refused_def issuance_of_def issue_capability_def not_less not_le)
  let ?m = "decision_material (pr_candidate_id q) DK_Accepted (de_reason ?dec) (de_candidate_digest ?dec)
             (de_policy_digest ?dec) (de_capability ?dec)"
  let ?n = "decision_material (pr_candidate_id p) DK_Accepted (de_reason d) (de_candidate_digest d)
             (de_policy_digest d) (de_capability d)"
  have "digest env ?m = digest env ?n" using d(6,7) by (simp add: accepted_decision_def Let_def)
  then have "collision env ?m ?n \<or> ?m = ?n" using digest_eq_cases by blast
  moreover have "d = ?dec" if "?m = ?n"
    using that d by (intro decision.equality) (simp_all add: decision_material_inject accepted_decision_def Let_def)
  ultimately have dd: "d = ?dec \<or> collision env ?m ?n" by blast
  have pp: "q = p \<or> collision env (json_proposal q) (json_proposal p)"
    using canon_proposal.digest_binds [of env q p] q(3) by (simp add: proposal_digest_def)
  have po: "?pol = k_policy ?k \<or> collision env (json_policy ?pol) (json_policy (k_policy ?k))"
    using canon_policy.digest_binds [of env ?pol "k_policy ?k"] pol by (simp add: policy_digest_def)
  show ?thesis
    unfolding Let_def
    by (intro exI conjI) (rule q(1), use q(2) pp po dd d in \<open>simp_all add: accepts_def\<close>)
qed

theorem consume_answers_admission_witness:
  "\<exists>pre q t post. [KO_Admit demo_proposal 100] = pre @ KO_Admit q t # post \<and>
     fst (admit demo_env (kernel_run demo_env demo_kernel pre) q t) =
       Inr (accepted_decision demo_env (k_policy (kernel_run demo_env demo_kernel pre)) q t) \<and>
     t \<le> 110"
proof -
  obtain k' where "consume demo_env (kernel_run demo_env demo_kernel [KO_Admit demo_proposal 100])
      demo_proposal demo_decision 110 = (Inr True, k')"
    using demo_consume by (cases "consume demo_env demo_admitted demo_proposal demo_decision 110")
      (simp add: demo_admit)
  from consume_answers_admission [OF demo_sha256_len demo_kernel_new this] show ?thesis
    unfolding Let_def by blast
qed

text \<open>
  C6.  Admission accepts exactly the admissible: \<open>admit\<close> returns an accepting decision if and only
  if the kernel is neither frozen nor killed, the proposal is admissible under the policy (shape,
  no direct authority, allowlists, complete budget below every ceiling, a qualifying claim, a
  positive lifetime), and neither its digest nor its (agent, nonce) digest is in the journal.
\<close>

theorem admit_accepts_iff:
  assumes "sha256_len env"
  shows "(\<exists>d k'. admit env k p now = (Inr d, k') \<and> de_kind d = DK_Accepted) \<longleftrightarrow>
     \<not> k_frozen k \<and> \<not> k_killed k \<and> admissible (k_policy k) p now \<and>
     proposal_digest env p \<notin> set (journal_candidates (k_journal k)) \<and>
     digest env (replay_material (pr_agent_id p) (pr_nonce p)) \<notin> set (journal_replays (k_journal k))"
    (is "?L \<longleftrightarrow> ?R")
proof
  assume ?L
  then obtain d k' where d: "admit env k p now = (Inr d, k')" "de_kind d = DK_Accepted" by blast
  show ?R
  proof (cases rule: admit_cases [of env k p now])
    case (error e)
    then show ?thesis using d by simp
  next
    case (refused kind reason)
    then show ?thesis using d record_decision_Inr [of env k p kind reason None d k'] by auto
  next
    case accepted
    then show ?thesis
      using d record_decision_Inr [of env k p DK_Accepted "''policy satisfied''" _ d k']
      by (fastforce dest: journal_append_candidates)
  qed
next
  assume R: ?R
  then have "admit env k p now = record_decision env k p DK_Accepted ''policy satisfied''
      (Some (issue_capability env (k_policy k) p now))"
    by (intro admit_admissible) simp_all
  then show ?L using R record_decision_fresh [OF assms] by simp
qed

theorem admit_accepts_iff_witness:
  "\<exists>d k'. admit demo_env demo_kernel demo_proposal 100 = (Inr d, k') \<and> de_kind d = DK_Accepted"
  using admit_accepts_iff [OF demo_sha256_len, of demo_kernel demo_proposal 100] demo_admissible
  by (simp add: demo_kernel_def journal_empty_def)

lemma fold_min_le: "fold min xs (y :: u64) \<le> y \<and> (\<forall>x\<in>set xs. fold min xs y \<le> x)"
proof (induction xs arbitrary: y)
  case (Cons x xs)
  have "fold min xs (min x y) \<le> min x y" using Cons.IH by blast
  then show ?case using Cons.IH by simp
qed simp

lemma min_or_le: "x \<in> set xs \<Longrightarrow> min_or d xs \<le> x"
  using fold_min_le by (cases xs) (auto simp: min_or_def)

lemma capability_expiry_bounds:
  "capability_expiry pol p now \<le> pr_expires_at p"
  "unat (capability_expiry pol p now) \<le> unat now + unat (po_token_ttl pol)"
  "c \<in> set (pr_claims p) \<Longrightarrow> claim_qualifies c now \<Longrightarrow> capability_expiry pol p now \<le> cl_valid_until c"
proof -
  show "capability_expiry pol p now \<le> pr_expires_at p"
    by (simp add: capability_expiry_def Let_def min.coboundedI1)
  have "capability_expiry pol p now \<le> saturating_add now (po_token_ttl pol)"
    by (simp add: capability_expiry_def Let_def min.coboundedI1)
  then show "unat (capability_expiry pol p now) \<le> unat now + unat (po_token_ttl pol)"
    by (simp add: word_le_nat_alt unat_saturating_add)
  assume "c \<in> set (pr_claims p)" "claim_qualifies c now"
  then show "capability_expiry pol p now \<le> cl_valid_until c"
    unfolding capability_expiry_def Let_def
    by (intro min.coboundedI2 min_or_le) auto
qed

lemma over_budget_iff:
  "\<not> over_budget pol p \<longleftrightarrow> (\<forall>(axis, amount)\<in>set (pr_resource_cost p).
     \<exists>limit. bt_get (po_max_cost pol) axis = Some limit \<and> amount \<le> limit)"
  by (auto simp: over_budget_def list_ex_iff not_less split: option.splits)

lemma admit_capability:
  assumes "admit env k p now = (Inr d, k')" and "de_capability d = Some cap"
  shows "admissible (k_policy k) p now" "cap = issue_capability env (k_policy k) p now"
proof -
  have "admissible (k_policy k) p now \<and> cap = issue_capability env (k_policy k) p now"
  proof (cases rule: admit_cases [of env k p now])
    case (refused kind reason)
    then show ?thesis using assms record_decision_Inr [of env k p kind reason None d k'] by auto
  next
    case accepted
    then have "d = accepted_decision env (k_policy k) p now"
      using assms(1) record_decision_accepted(1) [of env k p now d k'] by simp
    then show ?thesis using assms(2) accepted by (simp add: accepted_decision_def Let_def)
  qed (use assms in simp)
  then show "admissible (k_policy k) p now" "cap = issue_capability env (k_policy k) p now" by auto
qed

text \<open>
  C9.  The capability that \<open>admit\<close> issues is no wider than its proposal and the policy: it names the
  proposal's agent, action, scope and costs, each cost is on an axis of the policy and below its
  ceiling, and its lifetime starts now, is not empty, and ends no later than the proposal, every
  qualifying claim, and the policy's time to live after now, also when \<open>now + token_ttl\<close> exceeds 64 bits.
\<close>

theorem admitted_capability_bounds:
  assumes "admit env k p now = (Inr d, k')" and "de_capability d = Some cap"
  shows "ca_agent_id cap = pr_agent_id p \<and> ca_action cap = pr_action p \<and> ca_scope cap = pr_scope p \<and>
    ca_budget cap = pr_resource_cost p \<and>
    ca_action cap \<in> set (po_allowed_actions (k_policy k)) \<and>
    ca_scope cap \<in> set (po_allowed_scopes (k_policy k)) \<and>
    (\<forall>(axis, amount)\<in>set (ca_budget cap).
       \<exists>limit. bt_get (po_max_cost (k_policy k)) axis = Some limit \<and> amount \<le> limit) \<and>
    ca_issued_at cap = now \<and> now < ca_expires_at cap \<and> ca_expires_at cap \<le> pr_expires_at p \<and>
    unat (ca_expires_at cap) \<le> unat now + unat (po_token_ttl (k_policy k)) \<and>
    (\<forall>c\<in>set (pr_claims p). claim_qualifies c now \<longrightarrow> ca_expires_at cap \<le> cl_valid_until c)"
  using admit_capability [OF assms] capability_expiry_bounds [where pol = "k_policy k" and p = p and now = now]
  by (simp add: issue_capability_def admissible_def over_budget_iff)

theorem admitted_capability_bounds_witness:
  "unat (ca_expires_at (issue_capability demo_env policy_default demo_proposal 100))
     \<le> unat (100 :: u64) + unat (po_token_ttl policy_default)"
  using admitted_capability_bounds [OF demo_admit, of "issue_capability demo_env policy_default demo_proposal 100"]
  by (simp add: demo_decision_def accepted_decision_def Let_def demo_kernel_def)

text \<open>What a decision leaves in the journal.\<close>

lemma record_decision_journal:
  assumes "record_decision env k p kind reason cap = (Inr d, k')"
  shows "journal_candidates (k_journal k') = journal_candidates (k_journal k) @ [proposal_digest env p]"
    and "journal_replays (k_journal k') = journal_replays (k_journal k) @
      [digest env (replay_material (pr_agent_id p) (pr_nonce p))]"
    and "proposal_digest env p \<notin> set (journal_candidates (k_journal k))"
    and "digest env (replay_material (pr_agent_id p) (pr_nonce p)) \<notin> set (journal_replays (k_journal k))"
proof -
  obtain dd where "journal_append env (k_journal k) (proposal_digest env p)
      (digest env (replay_material (pr_agent_id p) (pr_nonce p))) dd = Inr (k_journal k')"
    using record_decision_Inr [OF assms] by auto
  from journal_append_candidates [OF this]
  show "journal_candidates (k_journal k') = journal_candidates (k_journal k) @ [proposal_digest env p]"
    and "journal_replays (k_journal k') = journal_replays (k_journal k) @
      [digest env (replay_material (pr_agent_id p) (pr_nonce p))]"
    and "proposal_digest env p \<notin> set (journal_candidates (k_journal k))"
    and "digest env (replay_material (pr_agent_id p) (pr_nonce p)) \<notin> set (journal_replays (k_journal k))"
    by blast+
qed

lemma admit_journals:
  assumes "admit env k p t = (Inr d, k')"
  shows "proposal_digest env p \<in> set (journal_candidates (k_journal k'))"
    and "digest env (replay_material (pr_agent_id p) (pr_nonce p)) \<in> set (journal_replays (k_journal k'))"
proof -
  have rd: "proposal_digest env p \<in> set (journal_candidates (k_journal k')) \<and>
      digest env (replay_material (pr_agent_id p) (pr_nonce p)) \<in> set (journal_replays (k_journal k'))"
    if "record_decision env k p kind reason cap = (Inr d, k')" for kind reason cap
    using record_decision_journal(1,2) [OF that] by (metis in_set_conv_decomp)
  show "proposal_digest env p \<in> set (journal_candidates (k_journal k'))"
    and "digest env (replay_material (pr_agent_id p) (pr_nonce p)) \<in> set (journal_replays (k_journal k'))"
    using rd assms by (cases rule: admit_cases [of env k p t]; auto)+
qed

lemma admit_replay_refused:
  assumes "proposal_digest env p \<in> set (journal_candidates (k_journal k)) \<or>
    digest env (replay_material (pr_agent_id p) (pr_nonce p)) \<in> set (journal_replays (k_journal k))"
  shows "\<exists>e. admit env k p t = (Inl e, k)"
proof -
  have "\<exists>e. record_decision env k p kind reason cap = (Inl e, k)" for kind reason cap
  proof (cases "record_decision env k p kind reason cap")
    case (Pair r k')
    then show ?thesis
      using record_decision_Inl record_decision_journal(3,4) [of env k p kind reason cap _ k'] assms
      by (cases r) blast+
  qed
  then show ?thesis by (cases rule: admit_cases [of env k p t]) auto
qed

text \<open>
  C7.  No replay: once \<open>admit\<close> has recorded a decision on a proposal, accepting or not, every later
  \<open>admit\<close> of the same proposal, or of any proposal of the same agent with the same nonce, is an error
  that leaves the kernel unchanged, whatever happened in between, restarts included.
\<close>

theorem nonce_never_reused:
  assumes "sha256_len env" and "kernel_new pol = Inr k0"
    and "admit env (kernel_run env k0 pre) p t = (Inr d, k1)"
    and "q = p \<or> pr_agent_id q = pr_agent_id p \<and> pr_nonce q = pr_nonce p"
  shows "\<exists>e. admit env (kernel_run env k1 ops) q t' = (Inl e, kernel_run env k1 ops)"
proof -
  have inv: "sha256_len env \<and> kernel_inv env k1"
    using assms(1,3) admit_inv [OF assms(1) kernel_run_inv [OF assms(1,2)], of pre p t] by simp
  have "prefix (rj_entries (k_journal k1)) (rj_entries (k_journal (kernel_run env k1 ops)))"
    by (rule kernel_growsD(3) [OF kernel_machine.run_grows [OF inv]])
  then have sub: "set (rj_entries (k_journal k1)) \<subseteq> set (rj_entries (k_journal (kernel_run env k1 ops)))"
    by (rule set_mono_prefix)
  have "proposal_digest env q \<in> set (journal_candidates (k_journal (kernel_run env k1 ops))) \<or>
    digest env (replay_material (pr_agent_id q) (pr_nonce q)) \<in>
      set (journal_replays (k_journal (kernel_run env k1 ops)))"
    using admit_journals [OF assms(3)] assms(4) sub by auto
  then show ?thesis by (rule admit_replay_refused)
qed

theorem nonce_never_reused_witness:
  "\<exists>e. admit demo_env (kernel_run demo_env demo_admitted [KO_Restart])
     (demo_proposal\<lparr>pr_intent := ''other''\<rparr>) 101 =
       (Inl e, kernel_run demo_env demo_admitted [KO_Restart])"
  by (rule nonce_never_reused [OF demo_sha256_len demo_kernel_new, of "[]" demo_proposal 100
        demo_decision demo_admitted])
    (simp_all add: demo_admit)

text \<open>A frozen kernel admits nothing and consumes nothing.\<close>

lemma frozen_kernel_refuses:
  assumes "k_frozen k"
  shows "admit env k p t = (Inl (Err_Rejected ''kernel is frozen or killed''), k)"
    and "fst (consume env k p d t) \<noteq> Inr True" and "snd (consume env k p d t) = k"
  using assms by (simp_all add: admit_def consume_def)

lemma run_stays_frozen:
  assumes "sha256_len env" and "kernel_inv env k" and "k_frozen k"
    and "\<forall>(c, l)\<in>set (k_lifecycles k). is_shutdown (lc_state l)"
  shows "k_frozen (kernel_run env k ops) \<and>
    (\<forall>(c, l)\<in>set (k_lifecycles (kernel_run env k ops)). is_shutdown (lc_state l))"
  using assms
proof (induction ops arbitrary: k)
  case (Cons a ops)
  have inv: "kernel_inv env (kernel_step env k a)" by (rule kernel_step_inv) (use Cons.prems in auto)
  have fr: "k_frozen (kernel_step env k a)"
    using kernel_step_flags [of env k a] Cons.prems by blast
  have keys: "fst ` set (k_lifecycles (kernel_step env k a)) = fst ` set (k_lifecycles k)"
  proof (cases "\<exists>p t. a = KO_Admit p t")
    case True
    then show ?thesis using frozen_kernel_refuses(1) [OF Cons.prems(3)] by auto
  next
    case False
    then show ?thesis using kernel_step_keys [OF Cons.prems(2)] by blast
  qed
  have "is_shutdown (lc_state l')" if "(c, l') \<in> set (k_lifecycles (kernel_step env k a))" for c l'
  proof -
    have "c \<in> fst ` set (k_lifecycles k)" using that keys by force
    then obtain l where "(c, l) \<in> set (k_lifecycles k)" by force
    then have "bt_get (k_lifecycles k) c = Some l" "is_shutdown (lc_state l)"
      using Cons.prems(2,4) by (auto simp: kernel_inv_def bt_get_mem)
    moreover have "bt_get (k_lifecycles (kernel_step env k a)) c = Some l'"
      using that inv by (auto simp: kernel_inv_def bt_get_mem)
    ultimately show ?thesis
      using kernel_growsD(4) [OF kernel_step_grows [OF Cons.prems(2), of a]] by fastforce
  qed
  then show ?case using Cons.IH [OF Cons.prems(1) inv fr] by auto
qed simp

text \<open>
  C8.  \<open>freeze_all\<close> always succeeds and is final: on every kernel that a run can reach it returns
  \<open>Ok\<close>, and from then on, whatever is done to the kernel, it stays frozen, every lifecycle record
  is frozen or killed, every \<open>admit\<close> is refused and no \<open>consume\<close> answers true.
\<close>

theorem freeze_all_is_final:
  assumes "sha256_len env" and "kernel_new pol = Inr k0"
  shows "\<exists>k1. freeze_all (kernel_run env k0 pre) = (Inr (), k1) \<and>
    (let k2 = kernel_run env k1 ops
     in k_frozen k2 \<and> (\<forall>(c, l)\<in>set (k_lifecycles k2). is_shutdown (lc_state l)) \<and>
        admit env k2 p t = (Inl (Err_Rejected ''kernel is frozen or killed''), k2) \<and>
        fst (consume env k2 p d t) \<noteq> Inr True)"
proof -
  have inv: "kernel_inv env (kernel_run env k0 pre)" by (rule kernel_run_inv) (fact assms)+
  obtain m where m: "freeze_all (kernel_run env k0 pre) =
      (Inr (), (kernel_run env k0 pre)\<lparr>k_lifecycles := m, k_frozen := True\<rparr>)"
    "\<forall>(c, l)\<in>set m. is_shutdown (lc_state l)"
    "kernel_inv env ((kernel_run env k0 pre)\<lparr>k_lifecycles := m, k_frozen := True\<rparr>)"
    by (rule freeze_all_inv [OF inv])
  show ?thesis
    using run_stays_frozen [OF assms(1) m(3), of ops] frozen_kernel_refuses m(2)
    by (intro exI [of _ "(kernel_run env k0 pre)\<lparr>k_lifecycles := m, k_frozen := True\<rparr>"])
      (simp add: m(1) Let_def)
qed

theorem freeze_all_is_final_witness:
  "\<exists>k1. freeze_all (kernel_run demo_env demo_kernel [KO_Admit demo_proposal 100]) = (Inr (), k1) \<and>
     fst (consume demo_env (kernel_run demo_env k1 [KO_Restart]) demo_proposal demo_decision 110) \<noteq> Inr True"
  using freeze_all_is_final [OF demo_sha256_len demo_kernel_new, of "[KO_Admit demo_proposal 100]"
      "[KO_Restart]" demo_proposal 110 demo_decision]
  unfolding Let_def by blast

text \<open>
  \<open>kill_all\<close> always succeeds on a reachable kernel, moves every lifecycle record to
  \<open>Killed\<close>, and no later operation makes the kernel live again.
\<close>

theorem kill_all_is_final:
  assumes "sha256_len env" and "kernel_new pol = Inr k0"
  shows "\<exists>k1. kill_all (kernel_run env k0 pre) = (Inr (), k1) \<and>
    (\<forall>(c, l)\<in>set (k_lifecycles k1). lc_state l = LS_Killed) \<and>
    (let k2 = kernel_run env k1 ops
     in k_killed k2 \<and> k_frozen k2 \<and> (\<forall>c l. bt_get (k_lifecycles k2) c = Some l \<longrightarrow> is_shutdown (lc_state l)))"
proof -
  have inv: "kernel_inv env (kernel_run env k0 pre)" by (rule kernel_run_inv) (fact assms)+
  let ?k1 = "\<lambda>m. (kernel_run env k0 pre)\<lparr>k_lifecycles := m, k_frozen := True, k_killed := True\<rparr>"
  obtain m where m: "kill_all (kernel_run env k0 pre) = (Inr (), ?k1 m)"
    "\<forall>(c, l)\<in>set m. lc_state l = LS_Killed" "kernel_inv env (?k1 m)"
    by (rule kill_all_inv [OF inv])
  have sd: "\<forall>(c, l)\<in>set m. is_shutdown (lc_state l)" using m(2) by (auto simp: is_shutdown_def)
  have "k_killed (kernel_run env (?k1 m) ops)"
    by (rule kernel_growsD(2) [OF kernel_machine.run_grows]) (use assms(1) m(3) in auto)
  moreover have "kernel_inv env (kernel_run env (?k1 m) ops)"
    using kernel_machine.run_inv assms(1) m(3) by blast
  then have "bt_wf (k_lifecycles (kernel_run env (?k1 m) ops))" by (simp add: kernel_inv_def)
  then have "is_shutdown (lc_state l)" if "bt_get (k_lifecycles (kernel_run env (?k1 m) ops)) c = Some l" for c l
    using run_stays_frozen [OF assms(1) m(3), of ops] sd that by (auto simp: bt_get_mem)
  moreover have "k_frozen (kernel_run env (?k1 m) ops)"
    using run_stays_frozen [OF assms(1) m(3), of ops] sd by simp
  ultimately show ?thesis
    using m(1,2) unfolding Let_def by (intro exI [of _ "?k1 m"] conjI) simp_all
qed

theorem kill_all_is_final_witness:
  "\<exists>k1. kill_all (kernel_run demo_env demo_kernel [KO_Admit demo_proposal 100]) = (Inr (), k1) \<and>
     k_killed (kernel_run demo_env k1 [KO_Restart])"
  using kill_all_is_final [OF demo_sha256_len demo_kernel_new, of "[KO_Admit demo_proposal 100]" "[KO_Restart]"]
  unfolding Let_def by blast

lemma inv_snapshot_valid:
  assumes inv: "kernel_inv env k" and pol: "policy_validate (k_policy k) = Inr ()"
  shows "snapshot_validate env (kernel_snapshot_of k) = Inr ()"
proof -
  let ?cands = "journal_candidates (k_journal k)"
  have j: "journal_validate env (k_journal k) = Inr ()" and wf: "bt_wf (k_lifecycles k)"
    and keys: "fst ` set (k_lifecycles k) = set ?cands"
    and good: "\<forall>(c, l)\<in>set (k_lifecycles k). lc_good l"
    using inv by (simp_all add: kernel_inv_def)
  have d: "distinct ?cands" "\<forall>c\<in>set ?cands. valid_digest c"
    using j by (auto simp: journal_validate_iff entry_digests_ok_def list_all_iff)
  have "length (k_lifecycles k) = card (fst ` set (k_lifecycles k))"
    using bt_wf_distinct [OF wf] distinct_card [of "map fst (k_lifecycles k)"] by simp
  then have len: "length (bs_from_list ?cands) = length (k_lifecycles k)"
    using keys d(1) distinct_card [of ?cands] by (simp add: length_bs_from_list)
  have "\<not> lifecycle_entry_bad (bs_from_list ?cands) (c, l)" if "(c, l) \<in> set (k_lifecycles k)" for c l
  proof -
    have g: "lc_good l" using good that by auto
    have "c \<in> set ?cands" using that keys by (metis fst_conv image_eqI)
    then show ?thesis
      using d(2) lc_good_revision [OF g] g
      by (auto simp: lifecycle_entry_bad_def bs_contains_def lc_good_def lifecycle_ok_def)
  qed
  then have bad: "\<not> list_ex (lifecycle_entry_bad (bs_from_list ?cands)) (k_lifecycles k)"
    by (auto simp: list_ex_iff)
  have tr: "\<forall>t. k_failure_tracker k = Some t \<longrightarrow>
        tracker_validate t = Inr () \<and> (is_exhausted t \<longrightarrow> k_frozen k)"
    and kf: "k_killed k \<longrightarrow> k_frozen k"
    using inv by (simp_all add: kernel_inv_def)
  show ?thesis
    using pol j len bad tr kf
    by (cases "k_failure_tracker k") (simp_all add: snapshot_validate_def kernel_snapshot_of_def Let_def)
qed

text \<open>
  Snapshots round trip: the snapshot of a kernel that a run can reach, taken while its policy is
  well formed, passes \<open>KernelSnapshot::validate\<close>, and \<open>from_snapshot\<close> gives back the same kernel
  without its issuances, so no capability survives a restart.
\<close>

theorem snapshot_round_trip:
  assumes "sha256_len env" and "kernel_new pol = Inr k0"
    and "policy_validate (k_policy (kernel_run env k0 ops)) = Inr ()"
  shows "snapshot_validate env (kernel_snapshot_of (kernel_run env k0 ops)) = Inr () \<and>
    kernel_from_snapshot env (kernel_snapshot_of (kernel_run env k0 ops)) =
      Inr ((kernel_run env k0 ops)\<lparr>k_issuances := [], k_lock_poisoned := False\<rparr>)"
proof -
  have "snapshot_validate env (kernel_snapshot_of (kernel_run env k0 ops)) = Inr ()"
    by (rule inv_snapshot_valid [OF kernel_run_inv [OF assms(1,2)] assms(3)])
  then show ?thesis
    unfolding kernel_from_snapshot_def by (simp add: kernel_snapshot_of_def)
qed

theorem snapshot_round_trip_witness:
  "kernel_from_snapshot demo_env (kernel_snapshot_of demo_admitted) =
     Inr (demo_admitted\<lparr>k_issuances := [], k_lock_poisoned := False\<rparr>)"
proof -
  have "policy_validate (k_policy demo_admitted) = Inr ()"
    by (simp add: demo_admitted_def demo_kernel_def policy_default_valid)
  then show ?thesis
    using snapshot_round_trip [OF demo_sha256_len demo_kernel_new, of "[KO_Admit demo_proposal 100]"]
    by (simp add: demo_admit)
qed

text \<open>
  Failures are bounded: on a kernel that a run can reach, \<open>observe_failure\<close> either continues
  with a tracker that is below every ceiling, or reports that a freeze is required and has then frozen the
  kernel and shut down every record, or (budget already exhausted) refuses on a kernel that is frozen.
\<close>

theorem observe_failure_freezes:
  assumes "sha256_len env" and "kernel_new pol = Inr k0"
    and "kernel_observe_failure (kernel_run env k0 ops) kind = (r, k')"
  shows "r = Inr BD_Continue \<and> (\<forall>t. k_failure_tracker k' = Some t \<longrightarrow> \<not> is_exhausted t) \<or>
    r = Inr BD_FreezeRequired \<and> k_frozen k' \<and>
      (\<forall>(c, l)\<in>set (k_lifecycles k'). is_shutdown (lc_state l)) \<or>
    r = Inl (contract_rejected BudgetExhausted) \<and> k_frozen k' \<and> k' = kernel_run env k0 ops"
proof -
  let ?k = "kernel_run env k0 ops"
  have inv: "kernel_inv env ?k" by (rule kernel_run_inv) (fact assms)+
  have ex: "\<forall>t. k_failure_tracker ?k = Some t \<longrightarrow> is_exhausted t \<longrightarrow> k_frozen ?k"
    using inv by (simp add: kernel_inv_def)
  from inv show ?thesis
    by (cases rule: kernel_observe_failure_cases [where kind = kind]) (use assms(3) ex in simp_all)
qed

definition demo_budget :: failure_budget where
  "demo_budget = \<lparr>max_rejections = 1, max_quarantines = 1, max_rollbacks = 1,
     max_consecutive_failures = 1, max_window_failures = 1, window_size = 1\<rparr>"

theorem observe_failure_freezes_witness:
  "fst (kernel_observe_failure (kernel_run demo_env demo_kernel [KO_Configure demo_budget]) FK_Rollback)
     = Inr BD_FreezeRequired \<and>
   k_frozen (snd (kernel_observe_failure
     (kernel_run demo_env demo_kernel [KO_Configure demo_budget]) FK_Rollback))"
proof -
  let ?o = "kernel_observe_failure (kernel_run demo_env demo_kernel [KO_Configure demo_budget]) FK_Rollback"
  have "fst ?o = Inr BD_FreezeRequired"
    by (simp add: configure_failure_budget_def demo_kernel_def budget_tracker_def budget_validate_def
        demo_budget_def kernel_observe_failure_def record_failure_def tracker_validate_def is_exhausted_def
        at_or_over_def checked_add_def push_recent_def Let_def freeze_all_def)
  moreover obtain r k' where o: "?o = (r, k')" by (cases ?o)
  ultimately show ?thesis
    using observe_failure_freezes [OF demo_sha256_len demo_kernel_new o] by auto
qed

text \<open>
  C23.  The journal is tamper evident: two journals that both pass \<open>validate\<close> and end in the same
  entry digest are equal, or two of their entries collide under SHA-256.
\<close>

theorem journal_tamper_evident:
  assumes "journal_validate env j = Inr ()" and "journal_validate env j' = Inr ()"
    and "rj_entries j \<noteq> []" and "rj_entries j' \<noteq> []"
    and "je_entry_digest (last (rj_entries j)) = je_entry_digest (last (rj_entries j'))"
    and "length (rj_entries j) < 2 ^ 64" and "length (rj_entries j') < 2 ^ 64"
  shows "j = j' \<or> (\<exists>e\<in>set (rj_entries j). \<exists>f\<in>set (rj_entries j').
     collision env (entry_material e) (entry_material f))"
  using replay_chain.tip_determines [of env zero_digest "rj_entries j" "rj_entries j'"] assms
  by (auto simp: journal_validate_iff chain_tip_def intro: replay_journal.equality)

theorem journal_tamper_evident_witness:
  "journal_validate demo_env (k_journal demo_admitted) = Inr () \<and>
   (\<exists>e\<in>set (rj_entries (k_journal demo_admitted)). \<exists>f\<in>set (rj_entries (k_journal demo_admitted)).
      e = f \<or> collision demo_env (entry_material e) (entry_material f))"
proof -
  have v: "journal_validate demo_env (k_journal demo_admitted) = Inr ()"
    by (simp add: demo_admitted_def journal_validate_def bs_contains_def)
  show ?thesis
    using v journal_tamper_evident [OF v v] by (simp add: demo_admitted_def)
qed

end
