(* ===== verification/Audit_Journal.thy ===== *)
theory Audit_Journal
  imports Encoding
begin

text \<open>
  The runtime audit journal of src/audit.rs: \<open>validate_metadata\<close>, \<open>AuditJournal::from_records\<close>
  and \<open>AuditJournal::validate\<close>.  A valid journal is exactly the journal that \<open>from_records\<close>
  builds from its own metadata, so the chain adds nothing an editor could change alone; the
  digest of the last entry determines all records up to a collision.
\<close>

type_synonym metadata = "(string, string) btree"

definition MAX_METADATA_FIELDS :: nat where
  "MAX_METADATA_FIELDS = 8"

definition validate_field :: "string \<times> string \<Rightarrow> unit result" where
  "validate_field kv = (case kv of (key, value) \<Rightarrow>
     if key = [] \<or> 64 < length key \<or> has_control key \<or>
        value = [] \<or> 256 < length value \<or> has_control value
     then Inl (Err_Journal ''audit metadata field is malformed'')
     else if key = ''event''
     then if value \<notin> {''read'', ''write'', ''freeze'', ''kill'', ''rollback''}
          then Inl (Err_Journal ''audit event is not allowlisted'') else Inr ()
     else if key \<in> {''candidate_digest'', ''decision_digest'', ''policy_digest'',
          ''capability_token_id'', ''state_digest'', ''reason_digest''}
     then if \<not> valid_digest value
          then Inl (Err_Journal ''audit digest field is malformed'') else Inr ()
     else Inl (Err_Journal ''audit metadata key is not allowlisted''))"

definition validate_metadata :: "metadata \<Rightarrow> unit result" where
  "validate_metadata md =
     (if md = [] \<or> MAX_METADATA_FIELDS < length md
      then Inl (Err_Journal ''audit metadata field count is invalid'')
      else try_r (check_all validate_field md) (\<lambda>_.
        if \<not> bt_contains md ''event''
        then Inl (Err_Journal ''audit event field is missing'') else Inr ()))"

record audit_entry =
  ae_sequence :: u64
  ae_previous_digest :: string
  ae_metadata :: metadata
  ae_entry_digest :: string

record audit_journal =
  aj_entries :: "audit_entry list"

definition audit_link :: "u64 \<Rightarrow> string \<Rightarrow> metadata \<Rightarrow> json" where
  "audit_link sq prev md = JArr [json_word sq, JStr prev, json_map JStr md]"

definition audit_material :: "audit_entry \<Rightarrow> json" where
  "audit_material e = audit_link (ae_sequence e) (ae_previous_digest e) (ae_metadata e)"

text \<open>The loop of \<open>validate\<close>, with the index and the digest of the previous entry.\<close>

fun audit_check :: "crypto \<Rightarrow> nat \<Rightarrow> string \<Rightarrow> audit_entry list \<Rightarrow> unit result" where
  "audit_check env i previous [] = Inr ()"
| "audit_check env i previous (e # es) =
     (if \<not> is_ok (validate_metadata (ae_metadata e)) \<or> ae_sequence e \<noteq> of_nat i \<or>
         ae_previous_digest e \<noteq> previous \<or> \<not> valid_digest (ae_previous_digest e) \<or>
         \<not> valid_digest (ae_entry_digest e) \<or> digest env (audit_material e) \<noteq> ae_entry_digest e
      then Inl (Err_Journal ''invalid audit chain'')
      else audit_check env (Suc i) (ae_entry_digest e) es)"

definition audit_validate :: "crypto \<Rightarrow> audit_journal \<Rightarrow> unit result" where
  "audit_validate env j = audit_check env 0 zero_digest (aj_entries j)"

text \<open>The loop of \<open>from_records\<close>, which pushes one entry per record.\<close>

fun audit_build :: "crypto \<Rightarrow> audit_entry list \<Rightarrow> metadata list \<Rightarrow> audit_entry list result" where
  "audit_build env es [] = Inr es"
| "audit_build env es (md # mds) = try_r (validate_metadata md) (\<lambda>_.
     let sq = (of_nat (length es) :: u64);
         prev = (if es = [] then zero_digest else ae_entry_digest (last es))
     in audit_build env (es @ [\<lparr>ae_sequence = sq, ae_previous_digest = prev, ae_metadata = md,
          ae_entry_digest = digest env (audit_link sq prev md)\<rparr>]) mds)"

definition audit_from_records :: "crypto \<Rightarrow> metadata list \<Rightarrow> audit_journal result" where
  "audit_from_records env records =
     try_r (audit_build env [] records) (\<lambda>es.
     try_r (audit_validate env \<lparr>aj_entries = es\<rparr>) (\<lambda>_. Inr \<lparr>aj_entries = es\<rparr>))"

section \<open>Validation and construction\<close>

abbreviation metadata_ok :: "metadata \<Rightarrow> bool" where
  "metadata_ok md \<equiv> validate_metadata md = Inr ()"

abbreviation audit_chain_ok :: "crypto \<Rightarrow> nat \<Rightarrow> string \<Rightarrow> audit_entry list \<Rightarrow> bool" where
  "audit_chain_ok env \<equiv> chain_ok env ae_sequence ae_previous_digest audit_material ae_entry_digest"

lemma audit_check_iff:
  assumes "sha256_len env"
  shows "valid_digest p \<Longrightarrow> audit_check env i p es = Inr () \<longleftrightarrow>
     audit_chain_ok env i p es \<and> (\<forall>e\<in>set es. metadata_ok (ae_metadata e))"
proof (induction es arbitrary: i p)
  case (Cons e es)
  have vd: "valid_digest (ae_entry_digest e)" if "digest env (audit_material e) = ae_entry_digest e"
    using that assms valid_digest_digest by metis
  show ?case using Cons vd by (auto simp: is_ok_unit)
qed simp

lemma audit_validate_iff:
  "sha256_len env \<Longrightarrow> audit_validate env j = Inr () \<longleftrightarrow>
     audit_chain_ok env 0 zero_digest (aj_entries j) \<and> (\<forall>e\<in>set (aj_entries j). metadata_ok (ae_metadata e))"
  by (simp add: audit_validate_def audit_check_iff)

lemma audit_build_spec:
  "(\<forall>md\<in>set mds. metadata_ok md) \<Longrightarrow> audit_chain_ok env 0 zero_digest es \<Longrightarrow>
   \<exists>es'. audit_build env es mds = Inr (es @ es') \<and> map ae_metadata es' = mds \<and>
         audit_chain_ok env 0 zero_digest (es @ es')"
proof (induction mds arbitrary: es)
  case (Cons md mds)
  let ?e = "\<lparr>ae_sequence = of_nat (length es), ae_previous_digest = chain_tip ae_entry_digest zero_digest es,
     ae_metadata = md, ae_entry_digest = digest env (audit_link (of_nat (length es))
       (chain_tip ae_entry_digest zero_digest es) md)\<rparr>"
  have "audit_chain_ok env 0 zero_digest (es @ [?e])"
    using Cons.prems(2) unfolding chain_ok_snoc by (simp add: audit_material_def [of ?e])
  then obtain es' where "audit_build env (es @ [?e]) mds = Inr ((es @ [?e]) @ es')"
    "map ae_metadata es' = mds" "audit_chain_ok env 0 zero_digest ((es @ [?e]) @ es')"
    using Cons.IH [of "es @ [?e]"] Cons.prems(1) by auto
  then show ?case using Cons.prems(1)
    by (intro exI [of _ "?e # es'"]) (simp add: Let_def chain_tip_def)
qed simp

lemma audit_build_metadata:
  "audit_build env es mds = Inr es' \<Longrightarrow> (\<forall>md\<in>set mds. metadata_ok md)"
  by (induction mds arbitrary: es) (auto simp: try_r_eq_Inr Let_def)

lemma audit_chain_unique:
  "audit_chain_ok env i p es \<Longrightarrow> audit_chain_ok env i p fs \<Longrightarrow> map ae_metadata es = map ae_metadata fs \<Longrightarrow>
     es = fs"
proof (induction es arbitrary: i p fs)
  case (Cons e es)
  then obtain f fs' where fs: "fs = f # fs'" by (cases fs) auto
  have "e = f" using Cons.prems by (intro audit_entry.equality) (auto simp: fs audit_material_def)
  then show ?case using Cons by (auto simp: fs)
qed simp

lemma audit_from_records_iff:
  assumes "sha256_len env"
  shows "audit_from_records env mds = Inr j \<longleftrightarrow>
     (\<forall>md\<in>set mds. metadata_ok md) \<and> map ae_metadata (aj_entries j) = mds \<and>
     audit_chain_ok env 0 zero_digest (aj_entries j)"
proof (cases "\<forall>md\<in>set mds. metadata_ok md")
  case False
  then show ?thesis by (auto simp: audit_from_records_def try_r_eq_Inr dest: audit_build_metadata)
next
  case ok: True
  obtain es where es: "audit_build env [] mds = Inr es" "map ae_metadata es = mds"
    "audit_chain_ok env 0 zero_digest es"
    using audit_build_spec [OF ok, of env "[]"] by auto
  have "audit_validate env \<lparr>aj_entries = es\<rparr> = Inr ()"
    using es ok by (auto simp: audit_validate_iff [OF assms])
  then have build: "audit_from_records env mds = Inr \<lparr>aj_entries = es\<rparr>"
    using es by (simp add: audit_from_records_def)
  have "j = \<lparr>aj_entries = es\<rparr>" if j: "map ae_metadata (aj_entries j) = mds"
    "audit_chain_ok env 0 zero_digest (aj_entries j)"
  proof -
    have "aj_entries j = es"
      using audit_chain_unique [OF j(2) es(3)] j(1) es(2) by simp
    then show ?thesis by (intro audit_journal.equality) simp_all
  qed
  then show ?thesis using build ok es by auto
qed


interpretation audit_chain:
  hash_chain ae_sequence ae_previous_digest audit_material ae_entry_digest
proof
  fix e f :: audit_entry
  assume "audit_material e = audit_material f" "ae_entry_digest e = ae_entry_digest f"
  then show "e = f" by (intro audit_entry.equality) (auto simp: audit_material_def audit_link_def)
qed

section \<open>Properties\<close>

text \<open>
  An audit journal is its records: \<open>validate\<close> accepts a journal if and only if
  \<open>from_records\<close> builds exactly this journal from the metadata it carries, and \<open>from_records\<close> succeeds
  if and only if \<open>validate_metadata\<close> accepts every record.
\<close>

theorem audit_journal_is_its_records:
  assumes "sha256_len env"
  shows "(audit_validate env j = Inr () \<longleftrightarrow>
      audit_from_records env (map ae_metadata (aj_entries j)) = Inr j) \<and>
    (is_ok (audit_from_records env mds) \<longleftrightarrow> (\<forall>md\<in>set mds. validate_metadata md = Inr ()))"
proof -
  have "is_ok (audit_from_records env mds)" if ok: "\<forall>md\<in>set mds. metadata_ok md"
  proof -
    obtain es where "map ae_metadata es = mds" "audit_chain_ok env 0 zero_digest es"
      using audit_build_spec [OF ok, of env "[]"] by auto
    then show ?thesis
      using ok audit_from_records_iff [OF assms, of mds "\<lparr>aj_entries = es\<rparr>"] by (simp add: is_ok_iff)
  qed
  then show ?thesis
    by (auto simp: audit_validate_iff [OF assms] audit_from_records_iff [OF assms] is_ok_iff)
qed

theorem audit_journal_is_its_records_witness:
  "is_ok (audit_from_records demo_env [[(''event'', ''read'')]])"
  using audit_journal_is_its_records [OF demo_sha256_len, of undefined "[[(''event'', ''read'')]]"]
  by (simp add: validate_metadata_def validate_field_def MAX_METADATA_FIELDS_def bt_contains_def
      ascii_control_def)

text \<open>
  The audit is tamper evident: two valid audit journals whose last entries have the same digest carry
  the same records, or two of their entries collide under SHA-256.
\<close>

theorem audit_tamper_evident:
  assumes "sha256_len env" and "audit_validate env j = Inr ()" and "audit_validate env j' = Inr ()"
    and "aj_entries j \<noteq> []" and "aj_entries j' \<noteq> []"
    and "ae_entry_digest (last (aj_entries j)) = ae_entry_digest (last (aj_entries j'))"
    and "length (aj_entries j) < 2 ^ 64" and "length (aj_entries j') < 2 ^ 64"
  shows "j = j' \<or> (\<exists>e\<in>set (aj_entries j). \<exists>f\<in>set (aj_entries j').
     collision env (audit_material e) (audit_material f))"
  using audit_chain.tip_determines [of env zero_digest "aj_entries j" "aj_entries j'"] assms
  by (auto simp: audit_validate_iff chain_tip_def intro: audit_journal.equality)

theorem audit_tamper_evident_witness:
  "let e = (\<lambda>ev. \<lparr>ae_sequence = 0, ae_previous_digest = zero_digest,
         ae_metadata = [(''event'', ev)], ae_entry_digest = zero_digest\<rparr>)
   in collision demo_env (audit_material (e ''read'')) (audit_material (e ''kill''))"
proof -
  let ?j = "\<lambda>ev. \<lparr>aj_entries = [\<lparr>ae_sequence = 0, ae_previous_digest = zero_digest,
             ae_metadata = [(''event'', ev)], ae_entry_digest = zero_digest\<rparr>]\<rparr>"
  have v: "audit_validate demo_env (?j ''read'') = Inr ()" "audit_validate demo_env (?j ''kill'') = Inr ()"
    by (simp_all add: audit_validate_def validate_metadata_def validate_field_def
        MAX_METADATA_FIELDS_def bt_contains_def ascii_control_def)
  show ?thesis using audit_tamper_evident [OF demo_sha256_len v] by simp
qed

end
