(* ===== verification/Runtime.thy ===== *)
theory Runtime
  imports Kernel_Properties Audit_Journal
begin

text \<open>
  The local runtime of src/lib.rs (\<open>Runtime\<close>, \<open>RuntimeSnapshot\<close>): a key-value state with
  checkpoints, an audit trail and the freeze and kill controls, driven through capabilities
  of the kernel.  \<open>runtime_execute\<close> returns the kernel and the runtime it leaves behind.  The
  pair of the two is a machine whose invariant says that the audit trail is always a valid
  audit journal.
\<close>

record runtime =
  rt_state :: "(string, json) btree"
  rt_audit :: "metadata list"
  rt_checkpoints :: "(string, json) btree list"
  rt_frozen :: bool
  rt_killed :: bool

record runtime_snapshot =
  rs_state :: "(string, json) btree"
  rs_audit :: "metadata list"
  rs_checkpoints :: "(string, json) btree list"
  rs_frozen :: bool
  rs_killed :: bool

definition runtime_default :: runtime where
  "runtime_default = \<lparr>rt_state = [], rt_audit = [], rt_checkpoints = [],
     rt_frozen = False, rt_killed = False\<rparr>"

definition runtime_snapshot_of :: "runtime \<Rightarrow> runtime_snapshot" where
  "runtime_snapshot_of rt = \<lparr>rs_state = rt_state rt, rs_audit = rt_audit rt,
     rs_checkpoints = rt_checkpoints rt, rs_frozen = rt_frozen rt, rs_killed = rt_killed rt\<rparr>"

definition runtime_from_snapshot :: "crypto \<Rightarrow> runtime_snapshot \<Rightarrow> runtime result" where
  "runtime_from_snapshot env s =
     (if rs_killed s \<and> \<not> rs_frozen s
      then Inl (Err_Invalid ''killed runtime snapshot is not frozen'')
      else try_r (audit_from_records env (rs_audit s)) (\<lambda>j.
           try_r (audit_validate env j) (\<lambda>_.
           Inr \<lparr>rt_state = rs_state s, rt_audit = rs_audit s, rt_checkpoints = rs_checkpoints s,
                rt_frozen = rs_frozen s, rt_killed = rs_killed s\<rparr>)))"

definition audit_journal_of :: "crypto \<Rightarrow> runtime \<Rightarrow> audit_journal result" where
  "audit_journal_of env rt = audit_from_records env (rt_audit rt)"

section \<open>Execution\<close>

fun as_str :: "json \<Rightarrow> string option" where
  "as_str (JStr s) = Some s"
| "as_str _ = None"

definition starts_with :: "string \<Rightarrow> string \<Rightarrow> bool" where
  "starts_with s prfx \<longleftrightarrow> take (length prfx) s = prfx"

definition capability_mismatch ::
  "crypto \<Rightarrow> proposal \<Rightarrow> decision \<Rightarrow> capability \<Rightarrow> u64 \<Rightarrow> bool" where
  "capability_mismatch env p d cap now \<longleftrightarrow>
     now < ca_issued_at cap \<or> ca_expires_at cap \<le> now \<or> de_candidate_id d \<noteq> pr_candidate_id p \<or>
     ca_agent_id cap \<noteq> pr_agent_id p \<or> ca_action cap \<noteq> pr_action p \<or> ca_scope cap \<noteq> pr_scope p \<or>
     ca_budget cap \<noteq> pr_resource_cost p \<or> ca_intent_digest cap \<noteq> digest env (intent_material p)"

definition planned_write :: "proposal \<Rightarrow> (string \<times> json) option result" where
  "planned_write p = (case pr_action p of
     Act_Read \<Rightarrow> Inr None
   | Act_Write \<Rightarrow>
       try_r (ok_or (Err_Rejected ''write key missing'')
                (Option.bind (bt_get (pr_payload p) ''key'') as_str)) (\<lambda>key.
       if \<not> starts_with key (pr_scope p @ '':'')
       then Inl (Err_Rejected ''write target outside scope'')
       else try_r (ok_or (Err_Rejected ''write value missing'') (bt_get (pr_payload p) ''value''))
              (\<lambda>value. Inr (Some (key, value))))
   | _ \<Rightarrow> Inl (Err_Rejected ''action is not executable by local runtime''))"

definition execution_metadata ::
  "crypto \<Rightarrow> proposal \<Rightarrow> decision \<Rightarrow> capability \<Rightarrow> (string, json) btree \<Rightarrow> metadata" where
  "execution_metadata env p d cap after = fold (\<lambda>(k, v). bt_insert k v)
     [(''event'', if pr_action p = Act_Write then ''write'' else ''read''),
      (''candidate_digest'', proposal_digest env p),
      (''decision_digest'', de_decision_digest d),
      (''policy_digest'', de_policy_digest d),
      (''capability_token_id'', ca_token_id cap),
      (''state_digest'', digest env (JObj after))] []"

definition control_metadata :: "crypto \<Rightarrow> string \<Rightarrow> string \<Rightarrow> metadata" where
  "control_metadata env event reason = fold (\<lambda>(k, v). bt_insert k v)
     [(''event'', event), (''reason_digest'', digest_bytes env (str_bytes reason))] []"

definition apply_write :: "(string \<times> json) option \<Rightarrow> (string, json) btree \<Rightarrow> (string, json) btree" where
  "apply_write w st = (case w of None \<Rightarrow> st | Some (key, value) \<Rightarrow> bt_insert key value st)"

definition runtime_execute ::
  "crypto \<Rightarrow> runtime \<Rightarrow> kernel \<Rightarrow> proposal \<Rightarrow> decision \<Rightarrow> u64 \<Rightarrow> bool result \<times> kernel \<times> runtime" where
  "runtime_execute env rt k p d now =
     (if rt_frozen rt \<or> rt_killed rt then (Inl (Err_Rejected ''runtime is frozen or killed''), k, rt)
      else if de_kind d \<noteq> DK_Accepted then (Inr False, k, rt)
      else case de_capability d of
        None \<Rightarrow> (Inl (Err_Rejected ''accepted decision lacks capability''), k, rt)
      | Some cap \<Rightarrow>
      if capability_mismatch env p d cap now
      then (Inl (Err_Rejected ''capability binding or expiry failed''), k, rt)
      else case planned_write p of
        Inl e \<Rightarrow> (Inl e, k, rt)
      | Inr w \<Rightarrow>
      let after = apply_write w (rt_state rt)
      in case consume env k p d now of
           (Inl e, k') \<Rightarrow> (Inl e, k', rt)
         | (Inr consumed, k') \<Rightarrow>
           if \<not> consumed then (Inl (Err_Rejected ''execution decision already consumed''), k', rt)
           else (Inr True, k',
             rt\<lparr>rt_checkpoints := rt_checkpoints rt @ [rt_state rt], rt_state := after,
                rt_audit := rt_audit rt @ [execution_metadata env p d cap after]\<rparr>))"

definition runtime_freeze :: "crypto \<Rightarrow> runtime \<Rightarrow> string \<Rightarrow> runtime" where
  "runtime_freeze env rt reason =
     (if rt_frozen rt \<or> rt_killed rt then rt
      else rt\<lparr>rt_frozen := True, rt_audit := rt_audit rt @ [control_metadata env ''freeze'' reason]\<rparr>)"

definition runtime_kill :: "crypto \<Rightarrow> runtime \<Rightarrow> string \<Rightarrow> runtime" where
  "runtime_kill env rt reason =
     (if rt_killed rt then rt
      else rt\<lparr>rt_killed := True, rt_frozen := True,
              rt_audit := rt_audit rt @ [control_metadata env ''kill'' reason]\<rparr>)"

definition runtime_rollback :: "crypto \<Rightarrow> runtime \<Rightarrow> string \<Rightarrow> bool \<times> runtime" where
  "runtime_rollback env rt reason =
     (if rt_killed rt \<or> rt_frozen rt then (False, rt)
      else if rt_checkpoints rt = [] then (False, rt)
      else (True, rt\<lparr>rt_checkpoints := butlast (rt_checkpoints rt),
                     rt_state := last (rt_checkpoints rt),
                     rt_audit := rt_audit rt @ [control_metadata env ''rollback'' reason]\<rparr>))"

section \<open>Execution, case by case\<close>

lemma runtime_execute_cases:
  assumes "runtime_execute env rt k p d now = (r, k', rt')"
  obtains (untouched) "rt' = rt" "k' = k" "r \<noteq> Inr True"
  | (refused) "rt' = rt" "r \<noteq> Inr True" "k' = snd (consume env k p d now)"
      "fst (consume env k p d now) \<noteq> Inr True"
  | (executed) cap w where "r = Inr True" "\<not> rt_frozen rt" "\<not> rt_killed rt" "de_kind d = DK_Accepted"
      "de_capability d = Some cap" "\<not> capability_mismatch env p d cap now" "planned_write p = Inr w"
      "consume env k p d now = (Inr True, k')"
      "rt' = rt\<lparr>rt_checkpoints := rt_checkpoints rt @ [rt_state rt],
                rt_state := apply_write w (rt_state rt),
                rt_audit := rt_audit rt @ [execution_metadata env p d cap (apply_write w (rt_state rt))]\<rparr>"
proof (cases "rt_frozen rt \<or> rt_killed rt \<or> de_kind d \<noteq> DK_Accepted \<or> de_capability d = None \<or>
    capability_mismatch env p d (the (de_capability d)) now \<or> \<not> is_ok (planned_write p)")
  case True
  then show thesis using assms
    by (intro untouched) (auto simp: runtime_execute_def is_ok_def split: if_splits option.splits sum.splits)
next
  case False
  then obtain cap w where c: "de_capability d = Some cap" "planned_write p = Inr w"
    by (auto simp: is_ok_iff)
  obtain cr k1 where cons: "consume env k p d now = (cr, k1)" by (cases "consume env k p d now")
  show thesis
  proof (cases "cr = Inr True")
    case True
    then show thesis using False c cons assms
      by (intro executed [of cap w]) (auto simp: runtime_execute_def Let_def)
  next
    case no: False
    then show thesis using False c cons assms
      by (intro refused) (cases cr; auto simp: runtime_execute_def Let_def)+
  qed
qed

lemma bt_wf_apply_write [wf_intros]: "bt_wf st \<Longrightarrow> bt_wf (apply_write w st)"
  by (auto simp: apply_write_def intro: bt_wf_insert split: option.splits prod.splits)

lemma planned_write_scope:
  "planned_write p = Inr (Some (key, v)) \<Longrightarrow> \<exists>rest. key = pr_scope p @ '':'' @ rest"
proof -
  assume "planned_write p = Inr (Some (key, v))"
  then have "starts_with key (pr_scope p @ '':'')"
    by (auto simp: planned_write_def try_r_eq_Inr split: action.splits if_splits)
  then show ?thesis
    unfolding starts_with_def by (metis append_take_drop_id append_assoc)
qed

lemma rollback_undoes:
  assumes "\<not> rt_frozen rt" and "\<not> rt_killed rt"
  shows "runtime_rollback env (rt\<lparr>rt_checkpoints := rt_checkpoints rt @ [rt_state rt],
      rt_state := st, rt_audit := au\<rparr>) reason =
    (True, rt\<lparr>rt_audit := au @ [control_metadata env ''rollback'' reason]\<rparr>)"
  using assms by (simp add: runtime_rollback_def)

section \<open>The audit trail is always valid\<close>

lemma digest_field_ok:
  assumes "valid_digest v" and "key \<in> {''candidate_digest'', ''decision_digest'', ''policy_digest'',
          ''capability_token_id'', ''state_digest'', ''reason_digest''}"
  shows "validate_field (key, v) = Inr ()"
proof -
  have "v \<noteq> []" "length v = 64" "\<not> has_control v"
    using assms(1) by (auto simp: valid_digest_no_control valid_digest_def)
  moreover have "key \<noteq> [] \<and> length key \<le> 64 \<and> \<not> has_control key \<and> key \<noteq> ''event''"
    using assms(2) by (elim insertE emptyE) (simp_all add: ascii_control_def)
  ultimately show ?thesis using assms by (simp add: validate_field_def)
qed

lemma event_field_ok:
  "ev \<in> {''read'', ''write'', ''freeze'', ''kill'', ''rollback''} \<Longrightarrow> validate_field (''event'', ev) = Inr ()"
  by (auto simp: validate_field_def ascii_control_def)

lemma control_metadata_ok:
  assumes "sha256_len env" and "ev \<in> {''freeze'', ''kill'', ''rollback''}"
  shows "metadata_ok (control_metadata env ev reason)"
proof -
  have "control_metadata env ev reason =
      [(''event'', ev), (''reason_digest'', digest_bytes env (str_bytes reason))]"
    by (simp add: control_metadata_def)
  moreover have "validate_field (''event'', ev) = Inr ()" using assms(2) by (intro event_field_ok) auto
  moreover have "validate_field (''reason_digest'', digest_bytes env (str_bytes reason)) = Inr ()"
    using assms(1) by (intro digest_field_ok) simp_all
  ultimately show ?thesis by (simp add: validate_metadata_def MAX_METADATA_FIELDS_def bt_contains_def)
qed

lemma execution_metadata_ok:
  assumes "sha256_len env" and "valid_digest (de_decision_digest d)" "valid_digest (de_policy_digest d)"
    "valid_digest (ca_token_id cap)"
  shows "metadata_ok (execution_metadata env p d cap st)"
proof -
  let ?ev = "if pr_action p = Act_Write then ''write'' else ''read''"
  have eq: "execution_metadata env p d cap st =
     [(''candidate_digest'', proposal_digest env p), (''capability_token_id'', ca_token_id cap),
      (''decision_digest'', de_decision_digest d), (''event'', ?ev),
      (''policy_digest'', de_policy_digest d), (''state_digest'', digest env (JObj st))]"
    by (simp add: execution_metadata_def)
  have "validate_field (''event'', ?ev) = Inr ()" by (intro event_field_ok) auto
  then show ?thesis
    using assms unfolding eq
    by (simp add: validate_metadata_def MAX_METADATA_FIELDS_def bt_contains_def digest_field_ok
        proposal_digest_def)
qed

lemma consume_true_digests:
  assumes env: "sha256_len env" and inv: "kernel_inv env k"
    and c: "consume env k p d now = (Inr True, k')" and cap: "de_capability d = Some cap"
  shows "valid_digest (de_decision_digest d)" "valid_digest (de_policy_digest d)"
    "valid_digest (ca_token_id cap)"
proof -
  obtain i where i: "bt_get (k_issuances k) (proposal_digest env p) = Some i"
    "\<not> policy_stale (policy_digest env (k_policy k)) d i" "\<not> consume_refused env p d i now"
    using consume_true [OF c] by blast
  have "issuance_ok env (proposal_digest env p) i" by (rule kernel_inv_issuance(1) [OF inv i(1)])
  then show "valid_digest (de_decision_digest d)" "valid_digest (de_policy_digest d)"
    "valid_digest (ca_token_id cap)"
    using i(2,3) env cap
    by (auto simp: issuance_ok_def consume_refused_def policy_stale_def issue_capability_def policy_digest_def)
qed

definition runtime_inv :: "runtime \<Rightarrow> bool" where
  "runtime_inv rt \<longleftrightarrow> (\<forall>md\<in>set (rt_audit rt). metadata_ok md) \<and> (rt_killed rt \<longrightarrow> rt_frozen rt) \<and>
     bt_wf (rt_state rt) \<and> (\<forall>c\<in>set (rt_checkpoints rt). bt_wf c)"

lemma runtime_default_inv: "runtime_inv runtime_default"
  by (simp add: runtime_inv_def runtime_default_def)

lemma runtime_freeze_inv: "sha256_len env \<Longrightarrow> runtime_inv rt \<Longrightarrow> runtime_inv (runtime_freeze env rt reason)"
  by (simp add: runtime_inv_def runtime_freeze_def control_metadata_ok ball_Un)

lemma runtime_kill_inv: "sha256_len env \<Longrightarrow> runtime_inv rt \<Longrightarrow> runtime_inv (runtime_kill env rt reason)"
  by (simp add: runtime_inv_def runtime_kill_def control_metadata_ok ball_Un)

lemma runtime_rollback_inv:
  assumes "sha256_len env" and "runtime_inv rt"
  shows "runtime_inv (snd (runtime_rollback env rt reason))"
proof -
  have "\<forall>c\<in>set (butlast (rt_checkpoints rt)). bt_wf c"
    using assms(2) by (auto simp: runtime_inv_def dest: in_set_butlastD)
  then show ?thesis
    using assms by (simp add: runtime_inv_def runtime_rollback_def control_metadata_ok ball_Un)
qed

lemma runtime_execute_inv:
  assumes env: "sha256_len env" and inv: "kernel_inv env k" "runtime_inv rt"
    and eq: "runtime_execute env rt k p d now = (r, k', rt')"
  shows "kernel_inv env k' \<and> runtime_inv rt'"
  using eq
proof (cases rule: runtime_execute_cases)
  case untouched
  then show ?thesis using inv by simp
next
  case refused
  then show ?thesis using inv consume_snd_inv(1) by simp
next
  case (executed cap w)
  have "kernel_inv env k'" using consume_inv(1) [OF inv(1) executed(8)] .
  moreover have "metadata_ok (execution_metadata env p d cap (apply_write w (rt_state rt)))"
    by (rule execution_metadata_ok [OF env consume_true_digests [OF env inv(1) executed(8,5)]])
  ultimately show ?thesis
    using inv(2) executed(9) bt_wf_apply_write by (simp add: runtime_inv_def ball_Un)
qed

section \<open>Kernel and runtime together\<close>

type_synonym system = "kernel \<times> runtime"

datatype system_op =
    SO_Kernel kernel_op
  | SO_Execute proposal decision u64
  | SO_Freeze string
  | SO_Kill string
  | SO_Rollback string
  | SO_Reload

text \<open>\<open>SO_Reload\<close> replaces the runtime by the one made from its own snapshot.\<close>

fun system_step :: "crypto \<Rightarrow> system \<Rightarrow> system_op \<Rightarrow> system" where
  "system_step env (k, rt) (SO_Kernel a) = (kernel_step env k a, rt)"
| "system_step env (k, rt) (SO_Execute p d now) = snd (runtime_execute env rt k p d now)"
| "system_step env (k, rt) (SO_Freeze reason) = (k, runtime_freeze env rt reason)"
| "system_step env (k, rt) (SO_Kill reason) = (k, runtime_kill env rt reason)"
| "system_step env (k, rt) (SO_Rollback reason) = (k, snd (runtime_rollback env rt reason))"
| "system_step env (k, rt) SO_Reload =
     (k, case runtime_from_snapshot env (runtime_snapshot_of rt) of Inl _ \<Rightarrow> rt | Inr rt' \<Rightarrow> rt')"

abbreviation system_run :: "crypto \<Rightarrow> system \<Rightarrow> system_op list \<Rightarrow> system" where
  "system_run env \<equiv> run_ops (system_step env)"

definition system_inv :: "crypto \<Rightarrow> system \<Rightarrow> bool" where
  "system_inv env s \<longleftrightarrow> sha256_len env \<and> kernel_inv env (fst s) \<and> runtime_inv (snd s)"

definition system_grows :: "system \<Rightarrow> system \<Rightarrow> bool" where
  "system_grows s t \<longleftrightarrow> kernel_grows (fst s) (fst t) \<and>
     prefix (rt_audit (snd s)) (rt_audit (snd t)) \<and> (rt_killed (snd s) \<longrightarrow> rt_killed (snd t)) \<and>
     (rt_frozen (snd s) \<longrightarrow> rt_frozen (snd t) \<and> rt_state (snd t) = rt_state (snd s) \<and>
        rt_checkpoints (snd t) = rt_checkpoints (snd s))"

lemma runtime_reload_same:
  "runtime_from_snapshot env (runtime_snapshot_of rt) = Inr rt' \<Longrightarrow> rt' = rt"
  by (auto simp: runtime_from_snapshot_def runtime_snapshot_of_def try_r_eq_Inr split: if_splits)

lemma system_step_reload [simp]: "system_step env (k, rt) SO_Reload = (k, rt)"
  using runtime_reload_same by (auto split: sum.splits)

declare system_step.simps(6) [simp del]

lemma consume_grows: "kernel_inv env k \<Longrightarrow> kernel_grows k (snd (consume env k p d now))"
  using kernel_step_grows [of env k "KO_Consume p d now"] by simp

lemma execute_grows:
  assumes "kernel_inv env k"
  shows "system_grows (k, rt) (snd (runtime_execute env rt k p d now))"
proof -
  obtain r k' rt' where eq: "runtime_execute env rt k p d now = (r, k', rt')"
    by (cases "runtime_execute env rt k p d now")
  from eq show ?thesis
    by (cases rule: runtime_execute_cases)
      (use consume_grows [OF assms, of p d now] kernel_grows_refl in
        \<open>auto simp: system_grows_def eq\<close>)
qed

interpretation system_machine: monotone_machine "system_step env" "system_inv env" system_grows
  for env
proof
  fix s a
  assume inv: "system_inv env s"
  obtain k rt where s: "s = (k, rt)" by (cases s)
  have i: "sha256_len env" "kernel_inv env k" "runtime_inv rt" using inv by (simp_all add: system_inv_def s)
  show "system_inv env (system_step env s a)"
  proof (cases a)
    case (SO_Execute p d now)
    obtain r k' rt' where eq: "runtime_execute env rt k p d now = (r, k', rt')"
      by (cases "runtime_execute env rt k p d now")
    then show ?thesis using runtime_execute_inv [OF i eq] i(1) by (simp add: SO_Execute s system_inv_def)
  qed (use i in \<open>simp_all add: s system_inv_def kernel_step_inv runtime_freeze_inv runtime_kill_inv
        runtime_rollback_inv\<close>)
  have k: "kernel_grows k (kernel_step env k b)" for b using kernel_step_grows i by blast
  show "system_grows s (system_step env s a)"
  proof (cases a)
    case (SO_Execute p d now)
    then show ?thesis using execute_grows [OF i(2)] by (simp add: s)
  qed (use k i in \<open>simp_all add: s system_grows_def kernel_grows_refl runtime_freeze_def runtime_kill_def
        runtime_rollback_def runtime_inv_def\<close>)
next
  show "system_grows s s" for s by (simp add: system_grows_def kernel_grows_refl)
  show "system_grows s u" if "system_grows s t" "system_grows t u" for s t u
    using that kernel_grows_trans unfolding system_grows_def by (auto intro: prefix_order.trans)
qed

lemma system_start_inv:
  "sha256_len env \<Longrightarrow> kernel_new pol = Inr k \<Longrightarrow> system_inv env (k, runtime_default)"
  using kernel_new_inv by (simp add: system_inv_def runtime_default_inv)

lemma runtime_inv_rebuilds:
  assumes "sha256_len env" and "runtime_inv rt"
  shows "\<exists>j. audit_journal_of env rt = Inr j \<and> audit_validate env j = Inr () \<and> map ae_metadata (aj_entries j) = rt_audit rt"
proof -
  obtain es where es: "map ae_metadata es = rt_audit rt" "audit_chain_ok env 0 zero_digest es"
    using audit_build_spec [of "rt_audit rt" env "[]"] assms(2) by (auto simp: runtime_inv_def)
  have j: "audit_from_records env (rt_audit rt) = Inr \<lparr>aj_entries = es\<rparr>"
    using es assms(2) by (simp add: audit_from_records_iff [OF assms(1)] runtime_inv_def)
  have "\<forall>md\<in>set (map ae_metadata es). metadata_ok md"
    unfolding es(1) using assms(2) by (simp add: runtime_inv_def)
  then have "audit_validate env \<lparr>aj_entries = es\<rparr> = Inr ()"
    using es(2) by (simp add: audit_validate_iff [OF assms(1)])
  then show ?thesis using j es(1) unfolding audit_journal_of_def by auto
qed

lemma runtime_inv_restores:
  assumes "sha256_len env" and "runtime_inv rt"
  shows "runtime_from_snapshot env (runtime_snapshot_of rt) = Inr rt"
  using runtime_inv_rebuilds [OF assms] assms(2)
  by (auto simp: runtime_from_snapshot_def runtime_snapshot_of_def runtime_inv_def audit_journal_of_def)

section \<open>Properties of the runtime\<close>

text \<open>
  The audit trail is always a valid journal: after any interleaving of kernel and runtime operations
  from a new kernel and an empty runtime, \<open>audit_journal\<close> succeeds with exactly the recorded
  metadata, and the runtime's snapshot restores the same runtime.
\<close>

theorem runtime_audit_always_valid:
  assumes "sha256_len env" and "kernel_new pol = Inr k0"
  shows "let rt = snd (system_run env (k0, runtime_default) ops) in
    (\<exists>j. audit_journal_of env rt = Inr j \<and> audit_validate env j = Inr () \<and>
       map ae_metadata (aj_entries j) = rt_audit rt) \<and>
    runtime_from_snapshot env (runtime_snapshot_of rt) = Inr rt"
proof -
  let ?rt = "snd (system_run env (k0, runtime_default) ops)"
  have "system_inv env (system_run env (k0, runtime_default) ops)"
    by (rule system_machine.run_inv [OF system_start_inv]) (fact assms)+
  then have inv: "runtime_inv ?rt" by (simp add: system_inv_def)
  show ?thesis unfolding Let_def using runtime_inv_rebuilds [OF assms(1) inv] runtime_inv_restores [OF assms(1) inv] by blast
qed

theorem runtime_audit_always_valid_witness:
  "runtime_from_snapshot demo_env
     (runtime_snapshot_of (snd (system_run demo_env (demo_kernel, runtime_default)
       [SO_Kernel (KO_Admit demo_proposal 100), SO_Freeze ''stop'', SO_Kill ''stop'']))) =
     Inr (snd (system_run demo_env (demo_kernel, runtime_default)
       [SO_Kernel (KO_Admit demo_proposal 100), SO_Freeze ''stop'', SO_Kill ''stop'']))"
  using runtime_audit_always_valid [OF demo_sha256_len demo_kernel_new] unfolding Let_def by blast

text \<open>How often a run executes a candidate.\<close>

definition executes :: "crypto \<Rightarrow> string \<Rightarrow> system \<Rightarrow> system_op \<Rightarrow> bool" where
  "executes env c s a = (case a of
     SO_Execute p d now \<Rightarrow> proposal_digest env p = c \<and>
       fst (runtime_execute env (snd s) (fst s) p d now) = Inr True
   | SO_Kernel b \<Rightarrow> consumes env c (fst s) b
   | _ \<Rightarrow> False)"

fun execute_count :: "crypto \<Rightarrow> string \<Rightarrow> system \<Rightarrow> system_op list \<Rightarrow> nat" where
  "execute_count env c s [] = 0"
| "execute_count env c s (a # as) =
     (if executes env c s a then 1 else 0) + execute_count env c (system_step env s a) as"

lemma executes_record:
  assumes "executes env c s a"
  shows "\<exists>l l'. bt_get (k_lifecycles (fst s)) c = Some l \<and> lc_state l = LS_Admitted \<and>
     bt_get (k_lifecycles (fst (system_step env s a))) c = Some l' \<and> lc_state l' = LS_Executing"
proof -
  obtain k rt where s: "s = (k, rt)" by (cases s)
  consider b where "a = SO_Kernel b" "consumes env c k b"
    | p d now k' rt' where "a = SO_Execute p d now" "proposal_digest env p = c"
        "runtime_execute env rt k p d now = (Inr True, k', rt')"
    using assms by (auto simp: executes_def s prod_eq_iff split: system_op.splits)
  then show ?thesis
  proof cases
    case 1
    then show ?thesis using consumes_record [of env c k b] by (simp add: s)
  next
    case 2
    from 2(3) have "consume env k p d now = (Inr True, k')"
      by (cases rule: runtime_execute_cases) auto
    then show ?thesis using consumes_record [of env c k "KO_Consume p d now"] 2 s
      by (simp add: consumes_def)
  qed
qed

lemma execute_count_zero:
  "system_inv env s \<Longrightarrow> bt_get (k_lifecycles (fst s)) c = Some l \<Longrightarrow> lc_state l \<noteq> LS_Admitted \<Longrightarrow>
     execute_count env c s ops = 0"
proof (induction ops arbitrary: s l)
  case (Cons a ops)
  have "\<not> executes env c s a" using executes_record [of env c s a] Cons.prems by auto
  moreover have "kernel_grows (fst s) (fst (system_step env s a))"
    using system_machine.step_grows [OF Cons.prems(1)] by (simp add: system_grows_def)
  moreover have "system_inv env (system_step env s a)" by (rule system_machine.step_inv [OF Cons.prems(1)])
  ultimately show ?case using Cons.IH kernel_growsD(4) Cons.prems(2,3) by fastforce
qed simp

lemma execute_count_le: "system_inv env s \<Longrightarrow> execute_count env c s ops \<le> 1"
proof (induction ops arbitrary: s)
  case (Cons a ops)
  have inv: "system_inv env (system_step env s a)" by (rule system_machine.step_inv [OF Cons.prems])
  show ?case
  proof (cases "executes env c s a")
    case True
    then obtain l' where "bt_get (k_lifecycles (fst (system_step env s a))) c = Some l'"
      "lc_state l' = LS_Executing"
      using executes_record by blast
    then have "execute_count env c (system_step env s a) ops = 0"
      using execute_count_zero [OF inv] by fastforce
    then show ?thesis by simp
  next
    case False
    then show ?thesis using Cons.IH [OF inv] by simp
  qed
qed simp

text \<open>
  C3.  No proposal runs twice: over any interleaving of kernel and runtime operations, restarts,
  rollbacks and reloads included, a candidate digest is executed (or consumed at the kernel directly) at most once.
\<close>

theorem execute_at_most_once:
  assumes "sha256_len env" and "kernel_new pol = Inr k0"
  shows "execute_count env c (k0, runtime_default) ops \<le> 1"
  by (rule execute_count_le [OF system_start_inv]) (fact assms)+

theorem execute_at_most_once_witness:
  "execute_count demo_env zero_digest (demo_kernel, runtime_default)
     [SO_Kernel (KO_Admit demo_proposal 100), SO_Kernel (KO_Consume demo_proposal demo_decision 110),
      SO_Execute demo_proposal demo_decision 111] = 1"
proof -
  let ?ops = "[SO_Kernel (KO_Admit demo_proposal 100), SO_Kernel (KO_Consume demo_proposal demo_decision 110),
      SO_Execute demo_proposal demo_decision 111]"
  have "execute_count demo_env zero_digest (demo_kernel, runtime_default) ?ops \<le> 1"
    by (rule execute_at_most_once [OF demo_sha256_len demo_kernel_new])
  moreover have "1 \<le> execute_count demo_env zero_digest (demo_kernel, runtime_default) ?ops"
    by (simp add: executes_def consumes_def demo_admit demo_consume proposal_digest_def)
  ultimately show ?thesis by simp
qed

text \<open>
  What an execution changes: a call of \<open>execute\<close> that does not answer \<open>Ok(true)\<close> leaves the runtime as
  it was; one that does needs a live runtime and a consumed capability bound to the proposal, touches no key
  outside the scope of the proposal, appends one audit record, and \<open>rollback\<close> right after it restores state and checkpoints exactly.
\<close>

theorem execute_effects:
  assumes "runtime_execute env rt k p d now = (r, k', rt')"
  shows "if r = Inr True
    then \<not> rt_frozen rt \<and> \<not> rt_killed rt \<and> consume env k p d now = (Inr True, k') \<and>
      (\<exists>cap. de_capability d = Some cap \<and> ca_agent_id cap = pr_agent_id p \<and> ca_action cap = pr_action p \<and>
         ca_scope cap = pr_scope p \<and> ca_budget cap = pr_resource_cost p \<and>
         ca_issued_at cap \<le> now \<and> now < ca_expires_at cap) \<and>
      (pr_action p = Act_Read \<and> rt_state rt' = rt_state rt \<or> pr_action p = Act_Write) \<and>
      (\<forall>key. (\<nexists>rest. key = pr_scope p @ '':'' @ rest) \<longrightarrow>
         bt_get (rt_state rt') key = bt_get (rt_state rt) key) \<and>
      length (rt_audit rt') = length (rt_audit rt) + 1 \<and> prefix (rt_audit rt) (rt_audit rt') \<and>
      fst (runtime_rollback env rt' reason) \<and>
      rt_state (snd (runtime_rollback env rt' reason)) = rt_state rt \<and>
      rt_checkpoints (snd (runtime_rollback env rt' reason)) = rt_checkpoints rt
    else rt' = rt"
  using assms
proof (cases rule: runtime_execute_cases)
  case (executed cap w)
  have scope: "bt_get (rt_state rt') key = bt_get (rt_state rt) key"
    if "\<nexists>rest. key = pr_scope p @ '':'' @ rest" for key
  proof (cases w)
    case (Some kv)
    then have "key \<noteq> fst kv" using planned_write_scope [of p "fst kv" "snd kv"] executed(7) that by auto
    then show ?thesis using Some executed(9) by (simp add: apply_write_def split: prod.splits)
  qed (simp add: executed(9) apply_write_def)
  have act: "pr_action p = Act_Read \<and> rt_state rt' = rt_state rt \<or> pr_action p = Act_Write"
    using executed(7,9) by (auto simp: planned_write_def apply_write_def split: action.splits)
  have "\<exists>cap. de_capability d = Some cap \<and> ca_agent_id cap = pr_agent_id p \<and> ca_action cap = pr_action p \<and>
         ca_scope cap = pr_scope p \<and> ca_budget cap = pr_resource_cost p \<and>
         ca_issued_at cap \<le> now \<and> now < ca_expires_at cap"
    using executed(5,6) by (auto simp: capability_mismatch_def not_less not_le)
  moreover have "runtime_rollback env rt' reason = (True, rt\<lparr>rt_audit := rt_audit rt @
      [execution_metadata env p d cap (apply_write w (rt_state rt)), control_metadata env ''rollback'' reason]\<rparr>)"
    unfolding executed(9) by (simp add: rollback_undoes [OF executed(2,3)])
  ultimately show ?thesis
    using executed(1,2,3,8) scope act by (simp add: executed(9))
qed simp_all

lemma demo_execute_at:
  assumes "\<not> now < 100" and "\<not> 130 \<le> now"
  shows "\<exists>k' rt'. runtime_execute demo_env runtime_default demo_admitted demo_proposal demo_decision now =
     (Inr True, k', rt')"
proof -
  obtain k' where c: "consume demo_env demo_admitted demo_proposal demo_decision now = (Inr True, k')"
    using demo_consume_at [OF assms]
    by (cases "consume demo_env demo_admitted demo_proposal demo_decision now") simp
  have cap: "de_kind demo_decision = DK_Accepted"
    "de_capability demo_decision = Some (issue_capability demo_env policy_default demo_proposal 100)"
    "de_candidate_id demo_decision = pr_candidate_id demo_proposal"
    by (simp_all add: demo_decision_def accepted_decision_def Let_def)
  have "\<not> capability_mismatch demo_env demo_proposal demo_decision
      (issue_capability demo_env policy_default demo_proposal 100) now"
    using assms by (simp add: capability_mismatch_def issue_capability_def cap demo_expiry)
  moreover have "is_ok (planned_write demo_proposal)"
    by (simp add: planned_write_def demo_proposal_def starts_with_def)
  ultimately show ?thesis
    using c cap by (auto simp: runtime_execute_def runtime_default_def is_ok_iff Let_def)
qed

theorem execute_effects_witness:
  "\<exists>k' rt'. runtime_execute demo_env runtime_default demo_admitted demo_proposal demo_decision 110 =
       (Inr True, k', rt') \<and>
     rt_state (snd (runtime_rollback demo_env rt' ''undo'')) = rt_state runtime_default"
proof -
  obtain k' rt' where e: "runtime_execute demo_env runtime_default demo_admitted demo_proposal demo_decision 110 =
      (Inr True, k', rt')" using demo_execute_at [of 110] by auto
  then show ?thesis using execute_effects [OF e, of "''undo''"] by auto
qed

text \<open>
  Freeze and kill of the runtime are final: once the runtime is frozen or killed, no later operation
  changes its state or its checkpoints, every \<open>execute\<close> is refused without touching the kernel, and \<open>rollback\<close> answers false.
\<close>

theorem runtime_stop_is_final:
  assumes "sha256_len env" and "kernel_new pol = Inr k0"
    and "system_run env (k0, runtime_default) pre = (k1, rt1)"
    and "rt2 = runtime_freeze env rt1 reason \<or> rt2 = runtime_kill env rt1 reason"
    and "system_run env (k1, rt2) ops = (k, rt)"
  shows "rt_frozen rt \<and> rt_state rt = rt_state rt1 \<and> rt_checkpoints rt = rt_checkpoints rt1 \<and>
    runtime_execute env rt k p d now = (Inl (Err_Rejected ''runtime is frozen or killed''), k, rt) \<and>
    runtime_rollback env rt why = (False, rt)"
proof -
  have i1: "system_inv env (k1, rt1)"
    using system_machine.run_inv [OF system_start_inv [OF assms(1,2)], of pre] assms(3) by simp
  have "(k1, rt2) = system_step env (k1, rt1) (SO_Freeze reason) \<or>
        (k1, rt2) = system_step env (k1, rt1) (SO_Kill reason)" using assms(4) by auto
  then have i2: "system_inv env (k1, rt2)" using system_machine.step_inv [OF i1] by metis
  have rt2: "rt_frozen rt2" "rt_state rt2 = rt_state rt1" "rt_checkpoints rt2 = rt_checkpoints rt1"
    using assms(4) i1 by (auto simp: runtime_freeze_def runtime_kill_def system_inv_def runtime_inv_def)
  have "system_grows (k1, rt2) (k, rt)" using system_machine.run_grows [OF i2, of ops] assms(5) by simp
  then have "rt_frozen rt" "rt_state rt = rt_state rt2" "rt_checkpoints rt = rt_checkpoints rt2"
    using rt2(1) by (simp_all add: system_grows_def)
  then show ?thesis using rt2 by (simp add: runtime_execute_def runtime_rollback_def)
qed

theorem runtime_stop_is_final_witness:
  "let s = system_run demo_env (demo_admitted, runtime_freeze demo_env runtime_default ''stop'')
         [SO_Rollback ''x'', SO_Kernel KO_Restart]
   in rt_frozen (snd s) \<and>
      runtime_execute demo_env (snd s) (fst s) demo_proposal demo_decision 110 =
        (Inl (Err_Rejected ''runtime is frozen or killed''), fst s, snd s)"
proof -
  have pre: "system_run demo_env (demo_kernel, runtime_default) [SO_Kernel (KO_Admit demo_proposal 100)] =
      (demo_admitted, runtime_default)" by (simp add: demo_admit)
  show ?thesis unfolding Let_def
    using runtime_stop_is_final [OF demo_sha256_len demo_kernel_new pre disjI1 [OF refl]
        prod.collapse [symmetric], of "''stop''" "[SO_Rollback ''x'', SO_Kernel KO_Restart]"
        demo_proposal demo_decision 110]
    by blast
qed

end
