(* ===== verification/Evidence.thy ===== *)
theory Evidence
  imports Encoding Machine
begin

text \<open>
  The evidence registry of src/lib.rs (\<open>Evidence\<close>, \<open>EvidenceRegistry\<close>): records with three
  separate roles, accepted once by a reviewer and revoked for good.  An operation that
  fails after it has written leaves what it wrote; the lemmas show that on a valid registry this never happens.
\<close>

record evidence =
  ev_id :: string
  ev_source_digest :: string
  ev_operator_id :: string
  ev_validator_id :: string
  ev_reviewer_id :: string
  ev_valid_until :: u64
  ev_accepted :: bool
  ev_revoked :: bool

definition json_evidence :: "evidence \<Rightarrow> json" where
  "json_evidence e = JObj
    [(''id'', JStr (ev_id e)), (''source_digest'', JStr (ev_source_digest e)),
     (''operator_id'', JStr (ev_operator_id e)), (''validator_id'', JStr (ev_validator_id e)),
     (''reviewer_id'', JStr (ev_reviewer_id e)), (''valid_until'', json_word (ev_valid_until e)),
     (''accepted'', JBool (ev_accepted e)), (''revoked'', JBool (ev_revoked e))]"

definition valid_role :: "string \<Rightarrow> bool" where
  "valid_role role \<longleftrightarrow> role \<noteq> [] \<and> \<not> has_control role"

definition evidence_validate :: "evidence \<Rightarrow> unit result" where
  "evidence_validate e =
     (if ev_id e = [] \<or> has_control (ev_id e) \<or> \<not> valid_digest (ev_source_digest e) \<or>
         \<not> valid_role (ev_operator_id e) \<or> \<not> valid_role (ev_validator_id e) \<or>
         ev_operator_id e = ev_validator_id e \<or> ev_valid_until e = 0 \<or>
         (ev_accepted e \<and> (\<not> valid_role (ev_reviewer_id e) \<or>
            ev_reviewer_id e = ev_operator_id e \<or> ev_reviewer_id e = ev_validator_id e)) \<or>
         (\<not> ev_accepted e \<and> ev_reviewer_id e \<noteq> [])
      then Inl (Err_Invalid ''invalid evidence identity'') else Inr ())"

definition evidence_valid :: "evidence \<Rightarrow> u64 \<Rightarrow> string \<Rightarrow> bool" where
  "evidence_valid e now subject \<longleftrightarrow>
     ev_accepted e \<and> \<not> ev_revoked e \<and> now < ev_valid_until e \<and> ev_source_digest e = subject \<and>
     ev_operator_id e \<noteq> [] \<and> ev_validator_id e \<noteq> [] \<and> ev_reviewer_id e \<noteq> [] \<and>
     ev_operator_id e \<noteq> ev_validator_id e \<and> ev_operator_id e \<noteq> ev_reviewer_id e \<and>
     ev_validator_id e \<noteq> ev_reviewer_id e"

record evidence_registry =
  er_records :: "(string, evidence) btree"

definition registry_default :: evidence_registry where
  "registry_default = \<lparr>er_records = []\<rparr>"

definition registry_validate :: "evidence_registry \<Rightarrow> unit result" where
  "registry_validate r = check_all (\<lambda>(eid, e).
     if eid \<noteq> ev_id e then Inl (Err_Invalid ''evidence registry key mismatch'')
     else evidence_validate e) (er_records r)"

definition registry_insert :: "evidence_registry \<Rightarrow> evidence \<Rightarrow> unit result \<times> evidence_registry" where
  "registry_insert r e =
     (case evidence_validate e of
        Inl err \<Rightarrow> (Inl err, r)
      | Inr _ \<Rightarrow>
        if bt_contains (er_records r) (ev_id e)
        then (Inl (Err_Rejected ''evidence identity already exists''), r)
        else let r' = r\<lparr>er_records := bt_insert (ev_id e) e (er_records r)\<rparr>
             in (registry_validate r', r'))"

definition registry_accept :: "evidence_registry \<Rightarrow> string \<Rightarrow> string \<Rightarrow> unit result \<times> evidence_registry" where
  "registry_accept r eid reviewer =
     (case bt_get (er_records r) eid of
        None \<Rightarrow> (Inl (Err_Quarantined ''missing evidence''), r)
      | Some e \<Rightarrow>
        if reviewer = [] \<or> has_control reviewer \<or> ev_revoked e \<or> ev_accepted e \<or>
           reviewer = ev_operator_id e \<or> reviewer = ev_validator_id e
        then (Inl (Err_Rejected ''reviewer role collision''), r)
        else let e' = e\<lparr>ev_reviewer_id := reviewer, ev_accepted := True\<rparr>
             in (evidence_validate e', r\<lparr>er_records := bt_modify eid (\<lambda>_. e') (er_records r)\<rparr>))"

definition registry_is_valid :: "evidence_registry \<Rightarrow> string \<Rightarrow> u64 \<Rightarrow> string \<Rightarrow> bool" where
  "registry_is_valid r eid now subject \<longleftrightarrow> valid_digest subject \<and>
     (case bt_get (er_records r) eid of None \<Rightarrow> False | Some e \<Rightarrow> evidence_valid e now subject)"

definition record_digest :: "crypto \<Rightarrow> evidence_registry \<Rightarrow> string \<Rightarrow> string result" where
  "record_digest env r eid =
     try_r (ok_or (Err_Quarantined ''missing evidence'') (bt_get (er_records r) eid))
       (\<lambda>e. Inr (digest env (json_evidence e)))"

definition accepted_digest_for ::
  "crypto \<Rightarrow> evidence_registry \<Rightarrow> string \<Rightarrow> u64 \<Rightarrow> string \<Rightarrow> u64 \<Rightarrow> string result" where
  "accepted_digest_for env r eid now subject claim_valid_until =
     (if \<not> valid_digest subject \<or> claim_valid_until \<le> now
      then Inl (Err_Invalid ''invalid evidence claim binding'')
      else try_r (ok_or (Err_Quarantined ''missing evidence'') (bt_get (er_records r) eid)) (\<lambda>e.
        try_r (evidence_validate e) (\<lambda>_.
        if \<not> evidence_valid e now subject \<or> ev_valid_until e < claim_valid_until
        then Inl (Err_Rejected
          ''evidence is not accepted, current, subject-bound, or long-lived enough'')
        else Inr (digest env (json_evidence e)))))"

definition has_valid_digest_for_subject ::
  "crypto \<Rightarrow> evidence_registry \<Rightarrow> string \<Rightarrow> u64 \<Rightarrow> string \<Rightarrow> bool" where
  "has_valid_digest_for_subject env r evidence_digest now subject \<longleftrightarrow>
     valid_digest evidence_digest \<and> valid_digest subject \<and>
     list_ex (\<lambda>e. is_ok (evidence_validate e) \<and> evidence_valid e now subject \<and>
       digest env (json_evidence e) = evidence_digest) (bt_values (er_records r))"

definition registry_revoke :: "evidence_registry \<Rightarrow> string \<Rightarrow> unit result \<times> evidence_registry" where
  "registry_revoke r eid =
     (case bt_get (er_records r) eid of
        None \<Rightarrow> (Inl (Err_Invalid ''unknown evidence''), r)
      | Some e \<Rightarrow>
        if ev_revoked e then (Inl (Err_Rejected ''evidence is already revoked''), r)
        else let r' = r\<lparr>er_records := bt_modify eid (\<lambda>e. e\<lparr>ev_revoked := True\<rparr>) (er_records r)\<rparr>
             in (registry_validate r', r'))"

section \<open>The registry invariant\<close>

interpretation canon_evidence: canonical json_evidence
  by unfold_locales (auto simp: json_evidence_def intro: evidence.equality)

definition registry_inv :: "evidence_registry \<Rightarrow> bool" where
  "registry_inv r \<longleftrightarrow> bt_wf (er_records r) \<and> registry_validate r = Inr ()"

lemma registry_validate_iff:
  "bt_wf (er_records r) \<Longrightarrow> registry_validate r = Inr () \<longleftrightarrow>
     (\<forall>eid e. bt_get (er_records r) eid = Some e \<longrightarrow> ev_id e = eid \<and> evidence_validate e = Inr ())"
  by (auto simp: registry_validate_def check_all_ok bt_get_mem split: if_splits)

lemma registry_inv_get:
  "registry_inv r \<Longrightarrow> bt_get (er_records r) eid = Some e \<Longrightarrow> ev_id e = eid \<and> evidence_validate e = Inr ()"
  using registry_validate_iff [of r] by (simp add: registry_inv_def)

lemma evidence_accept_valid:
  assumes "evidence_validate e = Inr ()" and "valid_role reviewer"
    and "reviewer \<noteq> ev_operator_id e" "reviewer \<noteq> ev_validator_id e"
  shows "evidence_validate (e\<lparr>ev_reviewer_id := reviewer, ev_accepted := True\<rparr>) = Inr ()"
  using assms by (auto simp: evidence_validate_def split: if_splits)

lemma evidence_revoke_valid:
  "evidence_validate (e\<lparr>ev_revoked := b\<rparr>) = evidence_validate e"
  by (simp add: evidence_validate_def)

lemma registry_insert_ok:
  assumes "registry_inv r" and "evidence_validate e = Inr ()" and "bt_get (er_records r) (ev_id e) = None"
  shows "registry_insert r e = (Inr (), r\<lparr>er_records := bt_insert (ev_id e) e (er_records r)\<rparr>)"
    and "registry_inv (r\<lparr>er_records := bt_insert (ev_id e) e (er_records r)\<rparr>)"
proof -
  let ?r = "r\<lparr>er_records := bt_insert (ev_id e) e (er_records r)\<rparr>"
  have wf: "bt_wf (er_records ?r)" using assms(1) by (simp add: registry_inv_def bt_wf_insert)
  have v: "registry_validate ?r = Inr ()"
    using registry_inv_get [OF assms(1)] assms(2) by (auto simp: registry_validate_iff [OF wf])
  show "registry_inv ?r" using wf v by (simp add: registry_inv_def)
  show "registry_insert r e = (Inr (), ?r)"
    using assms(2,3) v by (simp add: registry_insert_def bt_contains_def)
qed

lemma registry_modify_inv:
  assumes "registry_inv r" and "bt_get (er_records r) eid = Some e"
    and "ev_id (f e) = eid" and "evidence_validate (f e) = Inr ()"
  shows "registry_inv (r\<lparr>er_records := bt_modify eid f (er_records r)\<rparr>)"
proof -
  have wf: "bt_wf (bt_modify eid f (er_records r))" using assms(1) by (simp add: registry_inv_def bt_wf_modify)
  then show ?thesis
    using assms registry_inv_get [OF assms(1)]
    by (auto simp: registry_inv_def registry_validate_iff split: if_splits)
qed

text \<open>Under the invariant an operation either succeeds or changes nothing.\<close>

lemma registry_insert_cases:
  assumes "registry_inv r"
  obtains (fails) err where "registry_insert r e = (Inl err, r)"
  | (succeeds) "registry_insert r e = (Inr (), r\<lparr>er_records := bt_insert (ev_id e) e (er_records r)\<rparr>)"
      "registry_inv (r\<lparr>er_records := bt_insert (ev_id e) e (er_records r)\<rparr>)"
      "bt_get (er_records r) (ev_id e) = None"
proof (cases "evidence_validate e = Inr () \<and> bt_get (er_records r) (ev_id e) = None")
  case True
  then show thesis using registry_insert_ok [OF assms] succeeds by blast
next
  case False
  then have "\<exists>err. registry_insert r e = (Inl err, r)"
    by (cases "evidence_validate e") (auto simp: registry_insert_def bt_contains_def)
  then show thesis using fails by blast
qed

lemma registry_accept_cases:
  assumes "registry_inv r"
  obtains (fails) err where "registry_accept r eid reviewer = (Inl err, r)"
  | (succeeds) e where "bt_get (er_records r) eid = Some e" "\<not> ev_revoked e" "\<not> ev_accepted e"
      "registry_accept r eid reviewer = (Inr (), r\<lparr>er_records := bt_modify eid
         (\<lambda>_. e\<lparr>ev_reviewer_id := reviewer, ev_accepted := True\<rparr>) (er_records r)\<rparr>)"
      "registry_inv (r\<lparr>er_records := bt_modify eid
         (\<lambda>_. e\<lparr>ev_reviewer_id := reviewer, ev_accepted := True\<rparr>) (er_records r)\<rparr>)"
proof (cases "\<exists>e. bt_get (er_records r) eid = Some e \<and> valid_role reviewer \<and> \<not> ev_revoked e \<and>
    \<not> ev_accepted e \<and> reviewer \<noteq> ev_operator_id e \<and> reviewer \<noteq> ev_validator_id e")
  case True
  then obtain e where e: "bt_get (er_records r) eid = Some e" "valid_role reviewer" "\<not> ev_revoked e"
    "\<not> ev_accepted e" "reviewer \<noteq> ev_operator_id e" "reviewer \<noteq> ev_validator_id e" by blast
  have v: "evidence_validate (e\<lparr>ev_reviewer_id := reviewer, ev_accepted := True\<rparr>) = Inr ()"
    using evidence_accept_valid registry_inv_get [OF assms e(1)] e by blast
  show thesis
  proof (rule succeeds [OF e(1,3,4)])
    show "registry_accept r eid reviewer = (Inr (), r\<lparr>er_records := bt_modify eid
         (\<lambda>_. e\<lparr>ev_reviewer_id := reviewer, ev_accepted := True\<rparr>) (er_records r)\<rparr>)"
      using e v by (simp add: registry_accept_def valid_role_def)
    show "registry_inv (r\<lparr>er_records := bt_modify eid
         (\<lambda>_. e\<lparr>ev_reviewer_id := reviewer, ev_accepted := True\<rparr>) (er_records r)\<rparr>)"
      by (rule registry_modify_inv [OF assms e(1)]) (use v registry_inv_get [OF assms e(1)] in simp_all)
  qed
next
  case False
  then have "\<exists>err. registry_accept r eid reviewer = (Inl err, r)"
    by (auto simp: registry_accept_def valid_role_def split: option.splits)
  then show thesis using fails by blast
qed

lemma registry_revoke_cases:
  assumes "registry_inv r"
  obtains (fails) err where "registry_revoke r eid = (Inl err, r)"
  | (succeeds) e where "bt_get (er_records r) eid = Some e" "\<not> ev_revoked e"
      "registry_revoke r eid =
         (Inr (), r\<lparr>er_records := bt_modify eid (\<lambda>e. e\<lparr>ev_revoked := True\<rparr>) (er_records r)\<rparr>)"
      "registry_inv (r\<lparr>er_records := bt_modify eid (\<lambda>e. e\<lparr>ev_revoked := True\<rparr>) (er_records r)\<rparr>)"
proof (cases "\<exists>e. bt_get (er_records r) eid = Some e \<and> \<not> ev_revoked e")
  case True
  then obtain e where e: "bt_get (er_records r) eid = Some e" "\<not> ev_revoked e" by blast
  let ?r = "r\<lparr>er_records := bt_modify eid (\<lambda>e. e\<lparr>ev_revoked := True\<rparr>) (er_records r)\<rparr>"
  have inv: "registry_inv ?r"
    by (rule registry_modify_inv [OF assms e(1)])
      (use registry_inv_get [OF assms e(1)] in \<open>simp_all add: evidence_revoke_valid\<close>)
  then have "registry_revoke r eid = (Inr (), ?r)"
    using e by (simp add: registry_revoke_def registry_inv_def)
  then show thesis using succeeds [OF e _ inv] by blast
next
  case False
  then have "\<exists>err. registry_revoke r eid = (Inl err, r)"
    by (auto simp: registry_revoke_def split: option.splits)
  then show thesis using fails by blast
qed

section \<open>The registry as a machine\<close>

datatype registry_op = RO_Insert evidence | RO_Accept string string | RO_Revoke string

fun registry_step :: "evidence_registry \<Rightarrow> registry_op \<Rightarrow> evidence_registry" where
  "registry_step r (RO_Insert e) = snd (registry_insert r e)"
| "registry_step r (RO_Accept eid reviewer) = snd (registry_accept r eid reviewer)"
| "registry_step r (RO_Revoke eid) = snd (registry_revoke r eid)"

abbreviation registry_run :: "evidence_registry \<Rightarrow> registry_op list \<Rightarrow> evidence_registry" where
  "registry_run \<equiv> run_ops registry_step"

text \<open>What an evidence record keeps: everything but reviewer, acceptance and revocation, and those only forward.\<close>

definition evidence_moves :: "evidence \<Rightarrow> evidence \<Rightarrow> bool" where
  "evidence_moves e e' \<longleftrightarrow> ev_id e' = ev_id e \<and> ev_source_digest e' = ev_source_digest e \<and>
     ev_operator_id e' = ev_operator_id e \<and> ev_validator_id e' = ev_validator_id e \<and>
     ev_valid_until e' = ev_valid_until e \<and> (ev_revoked e \<longrightarrow> ev_revoked e') \<and>
     (ev_accepted e \<longrightarrow> ev_accepted e' \<and> ev_reviewer_id e' = ev_reviewer_id e) \<and>
     (ev_revoked e \<longrightarrow> e' = e)"

definition registry_grows :: "evidence_registry \<Rightarrow> evidence_registry \<Rightarrow> bool" where
  "registry_grows r r' \<longleftrightarrow> (\<forall>eid e. bt_get (er_records r) eid = Some e \<longrightarrow>
     (\<exists>e'. bt_get (er_records r') eid = Some e' \<and> evidence_moves e e'))"

lemma evidence_moves_refl [simp]: "evidence_moves e e"
  by (simp add: evidence_moves_def)

lemma evidence_moves_trans: "evidence_moves e f \<Longrightarrow> evidence_moves f g \<Longrightarrow> evidence_moves e g"
  by (auto simp: evidence_moves_def)

lemma registry_step_ok:
  assumes inv: "registry_inv r"
  shows "registry_inv (registry_step r a) \<and> registry_grows r (registry_step r a)"
proof (cases a)
  case (RO_Insert e)
  from inv show ?thesis
    by (cases rule: registry_insert_cases [where e = e])
      (use inv in \<open>auto simp: RO_Insert registry_grows_def\<close>)
next
  case (RO_Accept eid reviewer)
  from inv show ?thesis
    by (cases rule: registry_accept_cases [where eid = eid and reviewer = reviewer])
      (use inv in \<open>auto simp: RO_Accept registry_grows_def evidence_moves_def\<close>)
next
  case (RO_Revoke eid)
  from inv show ?thesis
    by (cases rule: registry_revoke_cases [where eid = eid])
      (use inv in \<open>auto simp: RO_Revoke registry_grows_def evidence_moves_def\<close>)
qed

interpretation registry_machine: monotone_machine registry_step registry_inv registry_grows
proof
  show "registry_inv (registry_step r a)" if "registry_inv r" for r a using registry_step_ok [OF that] by blast
  show "registry_grows r (registry_step r a)" if "registry_inv r" for r a using registry_step_ok [OF that] by blast
  show "registry_grows r r" for r by (auto simp: registry_grows_def)
  show "registry_grows r u" if "registry_grows r t" "registry_grows t u" for r t u
    using that evidence_moves_trans unfolding registry_grows_def by meson
qed

lemma registry_default_inv: "registry_inv registry_default"
  by (simp add: registry_inv_def registry_default_def registry_validate_def)

section \<open>Properties of the registry\<close>

text \<open>
  The registry is atomic and stays valid: after any sequence of operations on an empty registry
  \<open>validate\<close> succeeds, and an operation that reports an error has changed nothing (the
  re-validation after a write never fails).
\<close>

theorem registry_atomic:
  "registry_validate (registry_run registry_default ops) = Inr () \<and>
   (let r = registry_run registry_default ops in
     (is_ok (fst (registry_insert r e)) \<or> snd (registry_insert r e) = r) \<and>
     (is_ok (fst (registry_accept r eid reviewer)) \<or> snd (registry_accept r eid reviewer) = r) \<and>
     (is_ok (fst (registry_revoke r eid)) \<or> snd (registry_revoke r eid) = r))"
proof -
  let ?r = "registry_run registry_default ops"
  have inv: "registry_inv ?r" by (rule registry_machine.run_inv [OF registry_default_inv])
  have "is_ok (fst (registry_insert ?r e)) \<or> snd (registry_insert ?r e) = ?r"
    using inv by (cases rule: registry_insert_cases [where e = e]) simp_all
  moreover have "is_ok (fst (registry_accept ?r eid reviewer)) \<or> snd (registry_accept ?r eid reviewer) = ?r"
    using inv by (cases rule: registry_accept_cases [where eid = eid and reviewer = reviewer]) simp_all
  moreover have "is_ok (fst (registry_revoke ?r eid)) \<or> snd (registry_revoke ?r eid) = ?r"
    using inv by (cases rule: registry_revoke_cases [where eid = eid]) simp_all
  ultimately show ?thesis using inv by (simp add: registry_inv_def Let_def)
qed

text \<open>
  Revocation is permanent: once \<open>revoke\<close> succeeded on an id, that id is never valid
  evidence again, for any subject and at any time, no operation can replace or change the record, and no \<open>accepted_digest_for\<close> succeeds on it.
\<close>

theorem revocation_is_permanent:
  assumes "registry_revoke (registry_run registry_default pre) eid = (Inr (), r1)"
    and "r2 = registry_run r1 ops"
  shows "\<not> registry_is_valid r2 eid now subject \<and> bt_get (er_records r2) eid = bt_get (er_records r1) eid \<and>
    \<not> is_ok (accepted_digest_for env r2 eid now subject until)"
proof -
  let ?r = "registry_run registry_default pre"
  have inv: "registry_inv ?r" by (rule registry_machine.run_inv [OF registry_default_inv])
  obtain e where e: "bt_get (er_records r1) eid = Some e" "ev_revoked e" "registry_inv r1"
    using inv by (cases rule: registry_revoke_cases [where eid = eid]) (use assms(1) in auto)
  have "registry_grows r1 r2" unfolding assms(2) by (rule registry_machine.run_grows [OF e(3)])
  then obtain e' where "bt_get (er_records r2) eid = Some e'" "evidence_moves e e'"
    using e(1) unfolding registry_grows_def by blast
  then show ?thesis using e(1,2)
    by (auto simp: registry_is_valid_def evidence_moves_def evidence_valid_def accepted_digest_for_def
        is_ok_iff try_r_eq_Inr split: if_splits)
qed

definition demo_evidence :: evidence where
  "demo_evidence = \<lparr>ev_id = ''e1'', ev_source_digest = zero_digest, ev_operator_id = ''op'',
     ev_validator_id = ''va'', ev_reviewer_id = [], ev_valid_until = 1000, ev_accepted = False,
     ev_revoked = False\<rparr>"

lemma demo_evidence_insert:
  "registry_step registry_default (RO_Insert demo_evidence) = \<lparr>er_records = [(''e1'', demo_evidence)]\<rparr>"
  by (simp add: registry_insert_def demo_evidence_def registry_default_def evidence_validate_def
      valid_role_def ascii_control_def bt_contains_def registry_validate_def Let_def)

theorem revocation_is_permanent_witness:
  "let r1 = \<lparr>er_records = [(''e1'', demo_evidence\<lparr>ev_revoked := True\<rparr>)]\<rparr>
   in registry_revoke (registry_run registry_default [RO_Insert demo_evidence]) ''e1'' = (Inr (), r1) \<and>
      \<not> registry_is_valid (registry_run r1 [RO_Insert demo_evidence, RO_Accept ''e1'' ''re'']) ''e1'' 5 zero_digest"
proof -
  have "registry_revoke (registry_run registry_default [RO_Insert demo_evidence]) ''e1'' =
      (Inr (), \<lparr>er_records = [(''e1'', demo_evidence\<lparr>ev_revoked := True\<rparr>)]\<rparr>)"
    unfolding run_ops.simps demo_evidence_insert
    by (simp add: registry_revoke_def Let_def bt_modify_def registry_validate_def demo_evidence_def
        evidence_validate_def valid_role_def ascii_control_def)
  then show ?thesis using revocation_is_permanent [OF _ refl] unfolding Let_def by blast
qed

text \<open>
  Valid evidence has three separate roles: when a registry that operations built says that an id is valid
  for a subject, the record it holds was accepted, is not revoked, is bound to that subject and current,
  and its operator, validator and reviewer are three different non-empty names without control characters.
  The digest that \<open>accepted_digest_for\<close> returns identifies this record up to a collision.
\<close>

theorem valid_evidence_separates_roles:
  assumes "registry_is_valid (registry_run registry_default ops) eid now subject"
  shows "\<exists>e. bt_get (er_records (registry_run registry_default ops)) eid = Some e \<and> ev_id e = eid \<and>
     ev_accepted e \<and> \<not> ev_revoked e \<and> now < ev_valid_until e \<and> ev_source_digest e = subject \<and>
     distinct [ev_operator_id e, ev_validator_id e, ev_reviewer_id e] \<and>
     list_all valid_role [ev_operator_id e, ev_validator_id e, ev_reviewer_id e] \<and>
     (\<forall>f. digest env (json_evidence f) = digest env (json_evidence e) \<longrightarrow>
        f = e \<or> collision env (json_evidence f) (json_evidence e))"
proof -
  have inv: "registry_inv (registry_run registry_default ops)"
    by (rule registry_machine.run_inv [OF registry_default_inv])
  obtain e where e: "bt_get (er_records (registry_run registry_default ops)) eid = Some e"
    "evidence_valid e now subject"
    using assms by (auto simp: registry_is_valid_def split: option.splits)
  have "ev_id e = eid" "evidence_validate e = Inr ()" using registry_inv_get [OF inv e(1)] by blast+
  then show ?thesis
    using e canon_evidence.digest_binds
    by (intro exI [of _ e]) (auto simp: evidence_valid_def evidence_validate_def split: if_splits)
qed

theorem valid_evidence_separates_roles_witness:
  "\<exists>e. bt_get (er_records (registry_run registry_default
      [RO_Insert demo_evidence, RO_Accept ''e1'' ''re''])) ''e1'' = Some e \<and> ev_reviewer_id e \<noteq> ev_operator_id e"
proof -
  have "registry_is_valid (registry_run registry_default [RO_Insert demo_evidence, RO_Accept ''e1'' ''re''])
      ''e1'' 5 zero_digest"
    unfolding run_ops.simps demo_evidence_insert
    by (simp add: registry_accept_def registry_is_valid_def Let_def bt_modify_def demo_evidence_def
        evidence_valid_def ascii_control_def)
  from valid_evidence_separates_roles [OF this] show ?thesis by force
qed

end
