(* ===== verification/Integration.thy ===== *)
theory Integration
  imports Runtime Evidence
begin

text \<open>
  The coordinator of src/integration.rs that connects evidence, admission, execution and
  observation (\<open>run\<close>, \<open>complete_admitted\<close>, \<open>observe_failure\<close>) and \<open>run_local_workflow\<close> of
  src/lib.rs.  The state is the pair of kernel and runtime; every early return keeps
  what was done before it.
\<close>

datatype disposition = Di_Quarantined | Di_Rejected | Di_Completed | Di_RolledBack

record observation =
  ob_at :: u64
  ob_healthy :: bool
  ob_telemetry_present :: bool
  ob_kill_requested :: bool

definition json_observation :: "observation \<Rightarrow> json" where
  "json_observation ob = JObj
    [(''at'', json_word (ob_at ob)), (''healthy'', JBool (ob_healthy ob)),
     (''telemetry_present'', JBool (ob_telemetry_present ob)),
     (''kill_requested'', JBool (ob_kill_requested ob))]"

record workflow_result =
  wf_disposition :: disposition
  wf_subject_digest :: string
  wf_decision_digest :: "string option"
  wf_observation_digest :: string

definition coord_observe_failure ::
  "crypto \<Rightarrow> system \<Rightarrow> failure_kind \<Rightarrow> budget_decision result \<times> system" where
  "coord_observe_failure env s kind = (case s of (k, rt) \<Rightarrow>
     (case kernel_observe_failure k kind of
        (Inr d, k') \<Rightarrow>
          (Inr d, k', if d = BD_FreezeRequired then runtime_freeze env rt ''failure budget exhausted'' else rt)
      | (Inl e, k') \<Rightarrow>
          let rt' = runtime_freeze env rt ''failure budget state invalid or exhausted''
          in case freeze_all k' of
               (Inl e', k'') \<Rightarrow> (Inl e', k'', rt')
             | (Inr _, k'') \<Rightarrow> (Inl e, k'', rt')))"

text \<open>An operation of the kernel or of the runtime inside the coordinator.\<close>

definition with_kernel :: "system \<Rightarrow> (kernel \<Rightarrow> 'a result \<times> kernel) \<Rightarrow> 'a result \<times> system" where
  "with_kernel s f = (case s of (k, rt) \<Rightarrow> (case f k of (r, k') \<Rightarrow> (r, k', rt)))"

definition with_runtime :: "system \<Rightarrow> (runtime \<Rightarrow> runtime) \<Rightarrow> system" where
  "with_runtime s f = (case s of (k, rt) \<Rightarrow> (k, f rt))"

definition workflow :: "disposition \<Rightarrow> string \<Rightarrow> string option \<Rightarrow> string \<Rightarrow> workflow_result" where
  "workflow dis subject dec obs = \<lparr>wf_disposition = dis, wf_subject_digest = subject,
     wf_decision_digest = dec, wf_observation_digest = obs\<rparr>"

text \<open>The three stages of \<open>complete_admitted\<close>: the failed execution, the unhealthy observation, completion.\<close>

definition failed_execution ::
  "crypto \<Rightarrow> system \<Rightarrow> proposal \<Rightarrow> string \<Rightarrow> error \<Rightarrow> workflow_result result \<times> system" where
  "failed_execution env s p subject err =
     try_s (if lifecycle_state_of (fst s) subject = Some LS_Admitted
            then with_kernel s (\<lambda>k. kernel_quarantine env k p) else (Inr True, s)) (\<lambda>_ s1.
     try_s (coord_observe_failure env s1 FK_Quarantine) (\<lambda>_ s2. (Inl err, s2)))"

definition unhealthy_observation ::
  "crypto \<Rightarrow> system \<Rightarrow> proposal \<Rightarrow> decision \<Rightarrow> string \<Rightarrow> string \<Rightarrow> observation \<Rightarrow>
     workflow_result result \<times> system" where
  "unhealthy_observation env s p d subject obs ob =
     (case runtime_rollback env (snd s) ''unhealthy observation'' of (rolled_back, rt1) \<Rightarrow>
      try_s (if rolled_back then with_kernel (fst s, rt1) (\<lambda>k. kernel_rollback env k p)
             else (Inr True, (fst s, rt1))) (\<lambda>_ s2.
      try_s (coord_observe_failure env s2 FK_Rollback) (\<lambda>budget s3.
      try_s (if ob_kill_requested ob
             then with_kernel (with_runtime s3 (\<lambda>rt. runtime_kill env rt ''kill observation''))
                    (\<lambda>k. kernel_kill env k p)
             else let s4 = with_runtime s3 (\<lambda>rt. runtime_freeze env rt ''unhealthy observation'')
                  in if budget \<noteq> BD_FreezeRequired
                     then with_kernel s4 (\<lambda>k. kernel_freeze env k p) else (Inr True, s4)) (\<lambda>_ s5.
      (Inr (workflow (if rolled_back then Di_RolledBack else Di_Rejected) subject
              (Some (de_decision_digest d)) obs), s5)))))"

definition complete_admitted ::
  "crypto \<Rightarrow> system \<Rightarrow> proposal \<Rightarrow> decision \<Rightarrow> string \<Rightarrow> string \<Rightarrow> observation \<Rightarrow>
     workflow_result result \<times> system" where
  "complete_admitted env s p d subject obs ob =
     (case runtime_execute env (snd s) (fst s) p d (ob_at ob) of
        (Inl err, s1) \<Rightarrow> failed_execution env s1 p subject err
      | (Inr _, s1) \<Rightarrow>
        if ob_kill_requested ob \<or> \<not> ob_healthy ob \<or> \<not> ob_telemetry_present ob
        then unhealthy_observation env s1 p d subject obs ob
        else try_s (with_kernel s1 (\<lambda>k. kernel_complete env k p)) (\<lambda>_ s2.
             (Inr (workflow Di_Completed subject (Some (de_decision_digest d)) obs),
              (observe_success (fst s2), snd s2))))"

definition coord_run ::
  "crypto \<Rightarrow> system \<Rightarrow> evidence_registry \<Rightarrow> string \<Rightarrow> proposal \<Rightarrow> observation \<Rightarrow>
     workflow_result result \<times> system" where
  "coord_run env s evidence evidence_id p ob =
     (let subject = proposal_digest env p; obs = digest env (json_observation ob)
      in if \<not> registry_is_valid evidence evidence_id (ob_at ob) subject
         then try_s (coord_observe_failure env s FK_Quarantine) (\<lambda>_ s1.
                (Inr (workflow Di_Quarantined subject None obs), s1))
         else try_s (with_kernel s (\<lambda>k. admit env k p (ob_at ob))) (\<lambda>d s1.
           if de_kind d \<noteq> DK_Accepted
           then try_s (coord_observe_failure env s1 FK_Rejection) (\<lambda>_ s2.
                  (Inr (workflow Di_Rejected subject (Some (de_decision_digest d)) obs), s2))
           else complete_admitted env s1 p d subject obs ob))"

fun disposition_text :: "disposition \<Rightarrow> string" where
  "disposition_text Di_Quarantined = ''quarantined''"
| "disposition_text Di_Rejected = ''rejected''"
| "disposition_text Di_Completed = ''completed''"
| "disposition_text Di_RolledBack = ''rolled_back''"

definition run_local_workflow ::
  "crypto \<Rightarrow> system \<Rightarrow> evidence_registry \<Rightarrow> string \<Rightarrow> proposal \<Rightarrow> u64 \<Rightarrow> string result \<times> system" where
  "run_local_workflow env s evidence evidence_id p now =
     try_s (coord_run env s evidence evidence_id p
       \<lparr>ob_at = now, ob_healthy = True, ob_telemetry_present = True, ob_kill_requested = False\<rparr>)
       (\<lambda>w s1. (Inr (disposition_text (wf_disposition w)), s1))"

section \<open>The invariant through the coordinator\<close>

lemma with_kernel_eq: "with_kernel (k, rt) f = (fst (f k), snd (f k), rt)"
  by (simp add: with_kernel_def case_prod_beta')

lemma coord_observe_failure_cases:
  assumes inv: "system_inv env (k, rt)"
  obtains (ok) d k' rt' where "coord_observe_failure env (k, rt) kind = (Inr d, k', rt')"
      "k' = snd (kernel_observe_failure k kind)"
      "rt' = rt \<or> rt' = runtime_freeze env rt ''failure budget exhausted''"
      "d = BD_FreezeRequired \<Longrightarrow> rt' = runtime_freeze env rt ''failure budget exhausted'' \<and> k_frozen k' \<and>
         (\<forall>(c, l)\<in>set (k_lifecycles k'). is_shutdown (lc_state l))"
      "d \<noteq> BD_FreezeRequired \<Longrightarrow> rt' = rt \<and> k_lifecycles k' = k_lifecycles k"
  | (err) e k' rt' where "coord_observe_failure env (k, rt) kind = (Inl e, k', rt')"
      "k' = snd (freeze_all k)" "rt' = runtime_freeze env rt ''failure budget state invalid or exhausted''"
proof -
  have k: "kernel_inv env k" using inv by (simp add: system_inv_def)
  obtain m where fz: "freeze_all k = (Inr (), k\<lparr>k_lifecycles := m, k_frozen := True\<rparr>)"
    by (rule freeze_all_inv [OF k])
  from k show thesis
  proof (cases rule: kernel_observe_failure_cases [where kind = kind])
    case (exhausted t)
    then show thesis using fz by (intro err) (simp_all add: coord_observe_failure_def Let_def)
  next
    case none
    show thesis by (rule ok [of BD_Continue k rt]) (simp_all add: none coord_observe_failure_def)
  next
    case (continue t t')
    show thesis
      by (rule ok [of BD_Continue "k\<lparr>k_failure_tracker := Some t'\<rparr>" rt])
        (simp_all add: continue coord_observe_failure_def)
  next
    case (freeze t t' m)
    show thesis
      by (rule ok [of BD_FreezeRequired "k\<lparr>k_failure_tracker := Some t', k_lifecycles := m, k_frozen := True\<rparr>"
            "runtime_freeze env rt ''failure budget exhausted''"])
        (use freeze in \<open>simp_all add: coord_observe_failure_def\<close>)
  qed
qed

lemma coord_observe_failure_inv:
  assumes inv: "system_inv env s"
  shows "system_inv env (snd (coord_observe_failure env s kind))"
proof -
  obtain k rt where s: "s = (k, rt)" by (cases s)
  have i: "sha256_len env" "kernel_inv env k" "runtime_inv rt" using inv by (simp_all add: system_inv_def s)
  have fz: "kernel_inv env (snd (freeze_all k))" by (rule freeze_all_inv [OF i(2)]) simp
  from inv [unfolded s] show ?thesis
    by (cases rule: coord_observe_failure_cases [where kind = kind])
      (use i fz in \<open>auto simp: s system_inv_def intro: runtime_freeze_inv kernel_observe_failure_inv\<close>)
qed

lemma coord_observe_failure_state:
  assumes "system_inv env s"
  shows "rt_state (snd (snd (coord_observe_failure env s kind))) = rt_state (snd s)"
    "rt_checkpoints (snd (snd (coord_observe_failure env s kind))) = rt_checkpoints (snd s)"
proof -
  obtain k rt where s: "s = (k, rt)" by (cases s)
  show "rt_state (snd (snd (coord_observe_failure env s kind))) = rt_state (snd s)"
    "rt_checkpoints (snd (snd (coord_observe_failure env s kind))) = rt_checkpoints (snd s)"
    using assms [unfolded s]
    by (cases rule: coord_observe_failure_cases [where kind = kind]; auto simp: s runtime_freeze_def)+
qed

lemma observe_and_report:
  assumes inv: "system_inv env s" and o: "(r, s') = try_s (coord_observe_failure env s kind) (\<lambda>_ s1. (Inr w, s1))"
  shows "system_inv env s'" and "rt_state (snd s') = rt_state (snd s)" and "rt_checkpoints (snd s') = rt_checkpoints (snd s)"
    and "r = Inr w \<or> \<not> is_ok r" and "s' = snd (coord_observe_failure env s kind)"
proof -
  obtain r1 s1 where "coord_observe_failure env s kind = (r1, s1)" by (cases "coord_observe_failure env s kind")
  then show "system_inv env s'" "rt_state (snd s') = rt_state (snd s)" "rt_checkpoints (snd s') = rt_checkpoints (snd s)"
    "r = Inr w \<or> \<not> is_ok r" "s' = snd (coord_observe_failure env s kind)"
    using o coord_observe_failure_inv [OF inv, of kind] coord_observe_failure_state [OF inv, of kind]
    by (cases r1; auto)+
qed

section \<open>Lifecycle control that cannot fail\<close>

lemma lifecycle_event_ok:
  assumes inv: "kernel_inv env k" and st: "lifecycle_state_of k (proposal_digest env p) = Some st"
    and tr: "transition st ev = Inr st'" and ev: "ev \<noteq> EV_Admit" "ev \<noteq> EV_Reject"
  obtains k' where "apply_lifecycle_event env k p ev = (Inr True, k')" "kernel_inv env k'"
    "lifecycle_state_of k' (proposal_digest env p) = Some st'" "k_frozen k' = k_frozen k"
    "k_failure_tracker k' = k_failure_tracker k"
proof -
  obtain l where l: "bt_get (k_lifecycles k) (proposal_digest env p) = Some l" "lc_state l = st"
    using st by (auto simp: lifecycle_state_of_def)
  have "lc_good l" by (rule kernel_inv_good [OF inv l(1)])
  then obtain l' where l': "lifecycle_apply l ev = (Inr st', l')"
    using lc_good_apply [of l ev st'] tr l(2) ev by blast
  let ?k = "k\<lparr>k_lifecycles := bt_modify (proposal_digest env p) (\<lambda>_. l') (k_lifecycles k)\<rparr>"
  have eq: "apply_lifecycle_event env k p ev = (Inr True, ?k)"
    using l l' by (simp add: apply_lifecycle_event_def Let_def)
  have "lc_state l' = st'" using l' by (simp add: lifecycle_apply_Inr)
  then show thesis
    using that [OF eq apply_lifecycle_event_inv(1) [OF inv eq ev]] l(1) by (simp add: lifecycle_state_of_def)
qed

lemma execute_executing:
  assumes "runtime_execute env rt k p d now = (Inr True, k', rt')"
  shows "lifecycle_state_of k' (proposal_digest env p) = Some LS_Executing" and "\<not> k_frozen k'"
    and "consume env k p d now = (Inr True, k')"
proof -
  show c: "consume env k p d now = (Inr True, k')"
    using assms by (cases rule: runtime_execute_cases) auto
  show "lifecycle_state_of k' (proposal_digest env p) = Some LS_Executing"
    using consumes_record [of env "proposal_digest env p" k "KO_Consume p d now"] c
    by (auto simp: consumes_def lifecycle_state_of_def)
  show "\<not> k_frozen k'" using consume_true [OF c] consume_frame(2) [of env k p d now] c by fastforce
qed

text \<open>A failure observed on a kernel that is not frozen is always counted.\<close>

lemma observe_failure_live:
  assumes inv: "system_inv env (k, rt)" and live: "\<not> k_frozen k"
    and st: "lifecycle_state_of k c = Some st" "st \<noteq> LS_Killed"
  obtains d k' rt' where "coord_observe_failure env (k, rt) kind = (Inr d, k', rt')"
    "system_inv env (k', rt')"
    "lifecycle_state_of k' c = Some (if d = BD_FreezeRequired then LS_Frozen else st)"
    "rt_state rt' = rt_state rt" "rt_checkpoints rt' = rt_checkpoints rt" "rt_killed rt' = rt_killed rt"
proof -
  have k: "kernel_inv env k" using inv by (simp add: system_inv_def)
  let ?o = "coord_observe_failure env (k, rt) kind"
  note frame = coord_observe_failure_inv [OF inv, of kind] coord_observe_failure_state [OF inv, of kind]
  from k show thesis
  proof (cases rule: kernel_observe_failure_cases [where kind = kind])
    case none
    then have "?o = (Inr BD_Continue, k, rt)" by (simp add: coord_observe_failure_def)
    then show thesis using that inv st by simp
  next
    case (exhausted t)
    then show thesis using k live by (auto simp: kernel_inv_def)
  next
    case (continue t t')
    then have o: "?o = (Inr BD_Continue, k\<lparr>k_failure_tracker := Some t'\<rparr>, rt)"
      by (simp add: coord_observe_failure_def)
    show thesis by (rule that [OF o]) (use frame st in \<open>simp_all add: o lifecycle_state_of_def\<close>)
  next
    case (freeze t t' m)
    let ?k = "k\<lparr>k_failure_tracker := Some t', k_lifecycles := m, k_frozen := True\<rparr>"
    let ?rt = "runtime_freeze env rt ''failure budget exhausted''"
    have o: "?o = (Inr BD_FreezeRequired, ?k, ?rt)" using freeze by (simp add: coord_observe_failure_def)
    obtain l where l: "bt_get (k_lifecycles k) c = Some l" "lc_state l = st"
      using st by (auto simp: lifecycle_state_of_def)
    obtain l' where l': "bt_get m c = Some l'" using entries_move_get [OF freeze(5) l(1)] by blast
    have "lc_state l' \<noteq> LS_Killed" using freeze(8) l' l st(2) by (metis option.inject)
    moreover have "is_shutdown (lc_state l')" using freeze(6) map_of_SomeD [OF l'] by auto
    ultimately have "lc_state l' = LS_Frozen" by (simp add: is_shutdown_def)
    then show thesis
      by (intro that [OF o]) (use frame l' in \<open>simp_all add: o lifecycle_state_of_def runtime_freeze_def\<close>)
  qed
qed

section \<open>The stages of the coordinator\<close>

lemma kernel_event_system:
  "system_inv env (k, rt) \<Longrightarrow> ev \<noteq> EV_Admit \<and> ev \<noteq> EV_Reject \<Longrightarrow>
     system_inv env (snd (apply_lifecycle_event env k p ev), rt)"
  using lifecycle_ops_inv(1) by (simp add: system_inv_def)

lemma failed_execution_spec:
  assumes inv: "system_inv env s"
  shows "system_inv env (snd (failed_execution env s p subject err))"
    and "\<not> is_ok (fst (failed_execution env s p subject err))"
    and "rt_state (snd (snd (failed_execution env s p subject err))) = rt_state (snd s)"
    and "rt_checkpoints (snd (snd (failed_execution env s p subject err))) = rt_checkpoints (snd s)"
proof -
  obtain k rt where s: "s = (k, rt)" by (cases s)
  let ?q = "if lifecycle_state_of (fst s) subject = Some LS_Admitted
            then with_kernel s (\<lambda>k. kernel_quarantine env k p) else (Inr True, s)"
  obtain r1 k1 where q: "?q = (r1, k1, rt)" by (cases ?q) (auto simp: s with_kernel_eq split: if_splits)
  have i1: "system_inv env (k1, rt)"
    using q inv kernel_event_system [of env k rt EV_Quarantine p]
    by (auto simp: s with_kernel_eq kernel_quarantine_def split: if_splits)
  let ?o = "coord_observe_failure env (k1, rt) FK_Quarantine"
  obtain r2 s2 where o: "?o = (r2, s2)" by (cases ?o)
  have f: "failed_execution env s p subject err =
     (case r1 of Inl e \<Rightarrow> (Inl e, (k1, rt)) | Inr _ \<Rightarrow> (case r2 of Inl e \<Rightarrow> (Inl e, s2) | Inr _ \<Rightarrow> (Inl err, s2)))"
    unfolding failed_execution_def q by (cases r1; cases r2) (simp_all add: o)
  have "system_inv env s2" "rt_state (snd s2) = rt_state rt" "rt_checkpoints (snd s2) = rt_checkpoints rt"
    using coord_observe_failure_inv [OF i1, of FK_Quarantine] coord_observe_failure_state [OF i1, of FK_Quarantine]
    by (simp_all add: o)
  then show "system_inv env (snd (failed_execution env s p subject err))"
    and "\<not> is_ok (fst (failed_execution env s p subject err))"
    and "rt_state (snd (snd (failed_execution env s p subject err))) = rt_state (snd s)"
    and "rt_checkpoints (snd (snd (failed_execution env s p subject err))) = rt_checkpoints (snd s)"
    using i1 unfolding f by (auto simp: s split: sum.splits)
qed

lemma unhealthy_spec:
  assumes inv: "system_inv env (k, rt)"
    and ex: "runtime_execute env rt k p d (ob_at ob) = (Inr True, k1, rt1)"
  obtains k' rt' where "unhealthy_observation env (k1, rt1) p d subject obs ob =
      (Inr (workflow Di_RolledBack subject (Some (de_decision_digest d)) obs), k', rt')"
    "system_inv env (k', rt')" "rt_state rt' = rt_state rt" "rt_checkpoints rt' = rt_checkpoints rt"
    "rt_frozen rt'" "rt_killed rt' = ob_kill_requested ob"
    "lifecycle_state_of k' (proposal_digest env p) = Some (if ob_kill_requested ob then LS_Killed else LS_Frozen)"
proof -
  let ?c = "proposal_digest env p"
  have i: "sha256_len env" "kernel_inv env k" "runtime_inv rt" using inv by (simp_all add: system_inv_def)
  have i1: "kernel_inv env k1" "runtime_inv rt1" using runtime_execute_inv [OF i ex] by blast+
  note exec = execute_executing [OF ex]
  obtain rt2 where rb: "runtime_rollback env rt1 ''unhealthy observation'' = (True, rt2)"
    "rt_state rt2 = rt_state rt" "rt_checkpoints rt2 = rt_checkpoints rt" "\<not> rt_frozen rt2" "\<not> rt_killed rt2"
    using ex by (cases rule: runtime_execute_cases) (auto simp: rollback_undoes)
  have i2: "runtime_inv rt2" using runtime_rollback_inv [OF i(1) i1(2), of "''unhealthy observation''"] rb by simp
  obtain k2 where k2: "apply_lifecycle_event env k1 p EV_Rollback = (Inr True, k2)" "kernel_inv env k2"
    "lifecycle_state_of k2 ?c = Some LS_RolledBack" "k_frozen k2 = k_frozen k1"
    by (rule lifecycle_event_ok [OF i1(1) exec(1), of EV_Rollback LS_RolledBack]) simp_all
  have s2: "system_inv env (k2, rt2)" using i(1) k2(2) i2 by (simp add: system_inv_def)
  have nf: "\<not> k_frozen k2" using k2(4) exec(2) by simp
  obtain dd k3 rt3 where o: "coord_observe_failure env (k2, rt2) FK_Rollback = (Inr dd, k3, rt3)"
    "system_inv env (k3, rt3)"
    "lifecycle_state_of k3 ?c = Some (if dd = BD_FreezeRequired then LS_Frozen else LS_RolledBack)"
    "rt_state rt3 = rt_state rt2" "rt_checkpoints rt3 = rt_checkpoints rt2" "rt_killed rt3 = rt_killed rt2"
    by (rule observe_failure_live [OF s2 nf k2(3), where kind = FK_Rollback]) (simp, rule that, assumption+)
  have i3: "kernel_inv env k3" "runtime_inv rt3" using o(2) by (simp_all add: system_inv_def)
  let ?rk = "runtime_kill env rt3 ''kill observation''" and ?rf = "runtime_freeze env rt3 ''unhealthy observation''"
  have unf: "unhealthy_observation env (k1, rt1) p d subject obs ob =
     try_s (if ob_kill_requested ob then with_kernel (k3, ?rk) (\<lambda>k. kernel_kill env k p)
            else if dd \<noteq> BD_FreezeRequired then with_kernel (k3, ?rf) (\<lambda>k. kernel_freeze env k p)
            else (Inr True, (k3, ?rf)))
       (\<lambda>_ s5. (Inr (workflow Di_RolledBack subject (Some (de_decision_digest d)) obs), s5))"
    by (simp add: unhealthy_observation_def rb(1) with_kernel_eq kernel_rollback_def k2(1) o(1)
        with_runtime_def Let_def)
  show thesis
  proof (cases "ob_kill_requested ob")
    case True
    obtain k4 where k4: "apply_lifecycle_event env k3 p EV_Kill = (Inr True, k4)" "kernel_inv env k4"
      "lifecycle_state_of k4 ?c = Some LS_Killed"
      by (rule lifecycle_event_ok [OF i3(1) o(3), of EV_Kill LS_Killed]) (simp_all add: transition_Kill)
    have "runtime_inv ?rk" by (rule runtime_kill_inv [OF i(1) i3(2)])
    then show thesis
      using True k4 rb o i3(2)
      by (intro that [of k4 ?rk]) (simp_all add: unf with_kernel_eq kernel_kill_def system_inv_def i(1)
          runtime_kill_def runtime_inv_def)
  next
    case False
    obtain k4 where k4: "(if dd \<noteq> BD_FreezeRequired then kernel_freeze env k3 p else (Inr True, k3)) = (Inr True, k4)"
      "kernel_inv env k4" "lifecycle_state_of k4 ?c = Some LS_Frozen"
    proof (cases "dd = BD_FreezeRequired")
      case True
      then show thesis using that [of k3] i3(1) o(3) by simp
    next
      case no: False
      obtain k4 where "apply_lifecycle_event env k3 p EV_Freeze = (Inr True, k4)" "kernel_inv env k4"
        "lifecycle_state_of k4 ?c = Some LS_Frozen"
        by (rule lifecycle_event_ok [OF i3(1) o(3), of EV_Freeze LS_Frozen])
          (simp_all add: no transition_Freeze is_shutdown_def)
      then show thesis using that no by (simp add: kernel_freeze_def)
    qed
    have "runtime_inv ?rf" by (rule runtime_freeze_inv [OF i(1) i3(2)])
    moreover have "rt_frozen ?rf" "rt_killed ?rf = rt_killed rt3" "rt_state ?rf = rt_state rt3"
      "rt_checkpoints ?rf = rt_checkpoints rt3"
      using i3(2) by (auto simp: runtime_freeze_def runtime_inv_def)
    ultimately show thesis
      using False k4 rb o
      by (intro that [of k4 ?rf]) (auto simp: unf with_kernel_eq system_inv_def i(1) split: if_splits)
  qed
qed

definition unhealthy :: "observation \<Rightarrow> bool" where
  "unhealthy ob \<longleftrightarrow> ob_kill_requested ob \<or> \<not> ob_healthy ob \<or> \<not> ob_telemetry_present ob"

lemma complete_admitted_cases:
  assumes inv: "system_inv env (k, rt)" and acc: "de_kind d = DK_Accepted"
    and eq: "complete_admitted env (k, rt) p d subject obs ob = (r, k', rt')"
  obtains (failed) e where "r = Inl e" "system_inv env (k', rt')" "rt_state rt' = rt_state rt"
      "rt_checkpoints rt' = rt_checkpoints rt"
      "\<nexists>k1 rt1. runtime_execute env rt k p d (ob_at ob) = (Inr True, k1, rt1)"
  | (rolled_back) k1 rt1 where "r = Inr (workflow Di_RolledBack subject (Some (de_decision_digest d)) obs)"
      "system_inv env (k', rt')" "rt_state rt' = rt_state rt" "rt_checkpoints rt' = rt_checkpoints rt"
      "rt_frozen rt'" "rt_killed rt' = ob_kill_requested ob" "unhealthy ob"
      "lifecycle_state_of k' (proposal_digest env p) = Some (if ob_kill_requested ob then LS_Killed else LS_Frozen)"
      "runtime_execute env rt k p d (ob_at ob) = (Inr True, k1, rt1)"
  | (completed) k1 where "r = Inr (workflow Di_Completed subject (Some (de_decision_digest d)) obs)"
      "system_inv env (k', rt')" "\<not> unhealthy ob"
      "lifecycle_state_of k' (proposal_digest env p) = Some LS_Completed"
      "runtime_execute env rt k p d (ob_at ob) = (Inr True, k1, rt')"
proof -
  have i: "sha256_len env" "kernel_inv env k" "runtime_inv rt" using inv by (simp_all add: system_inv_def)
  obtain r1 k1 rt1 where ex: "runtime_execute env rt k p d (ob_at ob) = (r1, k1, rt1)"
    by (cases "runtime_execute env rt k p d (ob_at ob)")
  have i1: "kernel_inv env k1" "runtime_inv rt1" using runtime_execute_inv [OF i ex] by blast+
  show thesis
  proof (cases "r1 = Inr True")
    case no: False
    have same: "rt1 = rt" using ex no by (cases rule: runtime_execute_cases) auto
    obtain err where err: "r1 = Inl err"
      using ex no acc by (cases r1) (auto simp: runtime_execute_def Let_def
          split: if_splits option.splits sum.splits prod.splits)
    have "(r, k', rt') = failed_execution env (k1, rt) p subject err"
      using eq ex err same by (simp add: complete_admitted_def)
    moreover have "system_inv env (k1, rt)" using i(1) i1 same by (simp add: system_inv_def)
    ultimately show thesis
      using failed_execution_spec [of env "(k1, rt)" p subject err] ex no
      by (metis failed is_ok_simps(2) fst_conv snd_conv sum.exhaust)
  next
    case yes: True
    show thesis
    proof (cases "unhealthy ob")
      case True
      then have "unhealthy_observation env (k1, rt1) p d subject obs ob = (r, k', rt')"
        using eq ex yes by (simp add: complete_admitted_def unhealthy_def)
      moreover obtain k2 rt2 where "unhealthy_observation env (k1, rt1) p d subject obs ob =
          (Inr (workflow Di_RolledBack subject (Some (de_decision_digest d)) obs), k2, rt2)"
        "system_inv env (k2, rt2)" "rt_state rt2 = rt_state rt" "rt_checkpoints rt2 = rt_checkpoints rt"
        "rt_frozen rt2" "rt_killed rt2 = ob_kill_requested ob"
        "lifecycle_state_of k2 (proposal_digest env p) = Some (if ob_kill_requested ob then LS_Killed else LS_Frozen)"
        by (rule unhealthy_spec [OF inv ex [unfolded yes]])
      ultimately show thesis using rolled_back True ex yes by simp
    next
      case False
      obtain k2 where k2: "apply_lifecycle_event env k1 p EV_Complete = (Inr True, k2)" "kernel_inv env k2"
        "lifecycle_state_of k2 (proposal_digest env p) = Some LS_Completed"
        by (rule lifecycle_event_ok [OF i1(1) execute_executing(1) [OF ex [unfolded yes]],
              of EV_Complete LS_Completed]) simp_all
      have "complete_admitted env (k, rt) p d subject obs ob =
          (Inr (workflow Di_Completed subject (Some (de_decision_digest d)) obs), observe_success k2, rt1)"
        using False ex yes k2(1)
        by (simp add: complete_admitted_def unhealthy_def with_kernel_eq kernel_complete_def)
      then show thesis
        using eq completed False ex yes k2(3) i(1) i1(2) observe_success_inv [OF k2(2)]
        by (auto simp: system_inv_def lifecycle_state_of_def observe_success_def)
    qed
  qed
qed

lemma coord_run_cases:
  assumes inv: "system_inv env (k, rt)" and eq: "coord_run env (k, rt) evidence eid p ob = (r, k', rt')"
  obtains (stopped) "system_inv env (k', rt')" "rt_state rt' = rt_state rt"
      "rt_checkpoints rt' = rt_checkpoints rt" "\<And>w. r = Inr w \<Longrightarrow> wf_disposition w \<noteq> Di_Completed"
  | (completed) d k0 k1 where "registry_is_valid evidence eid (ob_at ob) (proposal_digest env p)"
      "admit env k p (ob_at ob) = (Inr d, k0)" "de_kind d = DK_Accepted"
      "r = Inr (workflow Di_Completed (proposal_digest env p) (Some (de_decision_digest d))
             (digest env (json_observation ob)))"
      "system_inv env (k', rt')" "\<not> unhealthy ob"
      "lifecycle_state_of k' (proposal_digest env p) = Some LS_Completed"
      "runtime_execute env rt k0 p d (ob_at ob) = (Inr True, k1, rt')"
proof -
  have i: "sha256_len env" "kernel_inv env k" "runtime_inv rt" using inv by (simp_all add: system_inv_def)
  have obs: thesis
    if o: "(r, k', rt') = try_s (coord_observe_failure env (k2, rt) kind)
         (\<lambda>_ s1. (Inr (workflow dis a b c), s1))" and i2: "kernel_inv env k2" and "dis \<noteq> Di_Completed"
    for kind dis a b c k2
  proof -
    have "system_inv env (k2, rt)" using i i2 by (simp add: system_inv_def)
    from observe_and_report(1-4) [OF this o] that(3) show thesis by (auto intro!: stopped simp: workflow_def)
  qed
  obtain ra ka where ad: "admit env k p (ob_at ob) = (ra, ka)" by (cases "admit env k p (ob_at ob)")
  have ia: "kernel_inv env ka" using admit_inv [OF i(1,2), of p "ob_at ob"] ad by simp
  show thesis
  proof (cases "registry_is_valid evidence eid (ob_at ob) (proposal_digest env p)")
    case False
    then have "(r, k', rt') = try_s (coord_observe_failure env (k, rt) FK_Quarantine)
         (\<lambda>_ s1. (Inr (workflow Di_Quarantined (proposal_digest env p) None
           (digest env (json_observation ob))), s1))"
      using eq by (simp add: coord_run_def Let_def)
    then show thesis by (rule obs [OF _ i(2)]) simp
  next
    case True
    show thesis
    proof (cases ra)
      case (Inl e)
      then have "r = Inl e" "k' = ka" "rt' = rt"
        using eq True ad by (simp_all add: coord_run_def Let_def with_kernel_eq)
      then show thesis using stopped ia i by (simp add: system_inv_def)
    next
      case (Inr d)
      show thesis
      proof (cases "de_kind d = DK_Accepted")
        case False
        then have "(r, k', rt') = try_s (coord_observe_failure env (ka, rt) FK_Rejection)
         (\<lambda>_ s1. (Inr (workflow Di_Rejected (proposal_digest env p) (Some (de_decision_digest d))
           (digest env (json_observation ob))), s1))"
          using eq True ad Inr by (simp add: coord_run_def Let_def with_kernel_eq)
        then show thesis by (rule obs [OF _ ia]) simp
      next
        case acc: True
        have ca: "complete_admitted env (ka, rt) p d (proposal_digest env p)
            (digest env (json_observation ob)) ob = (r, k', rt')"
          using eq True ad Inr acc by (simp add: coord_run_def Let_def with_kernel_eq)
        have "system_inv env (ka, rt)" using ia i by (simp add: system_inv_def)
        from this acc ca show thesis
        proof (cases rule: complete_admitted_cases)
          case (completed k1)
          then show thesis
            using that(2) [OF True _ acc] ad Inr by simp
        qed (auto intro!: stopped simp: workflow_def)
      qed
    qed
  qed
qed

section \<open>Properties of the coordinator\<close>

datatype coord_op =
    CO_System system_op
  | CO_Run evidence_registry string proposal observation

fun coord_step :: "crypto \<Rightarrow> system \<Rightarrow> coord_op \<Rightarrow> system" where
  "coord_step env s (CO_System a) = system_step env s a"
| "coord_step env s (CO_Run evidence eid p ob) = snd (coord_run env s evidence eid p ob)"

interpretation coord_machine: machine "coord_step env" "system_inv env" for env
proof
  fix s a
  assume inv: "system_inv env s"
  obtain k rt where s: "s = (k, rt)" by (cases s)
  show "system_inv env (coord_step env s a)"
  proof (cases a)
    case (CO_System b)
    then show ?thesis using system_machine.step_inv [OF inv] by simp
  next
    case (CO_Run evidence eid p ob)
    obtain r k' rt' where eq: "coord_run env (k, rt) evidence eid p ob = (r, k', rt')"
      by (cases "coord_run env (k, rt) evidence eid p ob")
    from inv [unfolded s] eq have "system_inv env (k', rt')" by (cases rule: coord_run_cases)
    then show ?thesis by (simp add: CO_Run s eq)
  qed
qed

abbreviation coord_exec :: "crypto \<Rightarrow> system \<Rightarrow> coord_op list \<Rightarrow> system" where
  "coord_exec env \<equiv> run_ops (coord_step env)"

lemma coord_exec_inv:
  "sha256_len env \<Longrightarrow> kernel_new pol = Inr k0 \<Longrightarrow> system_inv env (coord_exec env (k0, runtime_default) ops)"
  by (rule coord_machine.run_inv [OF system_start_inv])

text \<open>
  C5.  A workflow is all or nothing: from every state that workflows, kernel and runtime operations can reach, \<open>run\<close>
  either reports \<open>Completed\<close>, or leaves the state of the runtime and its checkpoints exactly as they were,
  whether it reports quarantine, rejection, rollback or an error.
\<close>

theorem workflow_all_or_nothing:
  assumes "sha256_len env" and "kernel_new pol = Inr k0"
    and "coord_exec env (k0, runtime_default) ops = (k, rt)"
    and "coord_run env (k, rt) evidence eid p ob = (r, k', rt')"
  shows "(\<exists>w. r = Inr w \<and> wf_disposition w = Di_Completed) \<or>
    rt_state rt' = rt_state rt \<and> rt_checkpoints rt' = rt_checkpoints rt"
proof -
  have "system_inv env (k, rt)" using coord_exec_inv [OF assms(1,2), of ops] assms(3) by simp
  from this assms(4) show ?thesis by (cases rule: coord_run_cases) (simp_all add: workflow_def)
qed

text \<open>A registry whose evidence covers the demonstration proposal.\<close>

definition demo_registry :: evidence_registry where
  "demo_registry = \<lparr>er_records = [(''e1'', demo_evidence\<lparr>ev_reviewer_id := ''re'', ev_accepted := True\<rparr>)]\<rparr>"

definition demo_observation :: "bool \<Rightarrow> bool \<Rightarrow> observation" where
  "demo_observation healthy kill = \<lparr>ob_at = 100, ob_healthy = healthy, ob_telemetry_present = True,
     ob_kill_requested = kill\<rparr>"

lemma demo_registry_valid: "registry_is_valid demo_registry ''e1'' 100 (proposal_digest demo_env demo_proposal)"
  by (simp add: registry_is_valid_def demo_registry_def demo_evidence_def evidence_valid_def proposal_digest_def)

lemma demo_start: "coord_exec demo_env (demo_kernel, runtime_default) [] = (demo_kernel, runtime_default)"
  by simp

lemma demo_decision_accepted: "de_kind demo_decision = DK_Accepted"
  by (simp add: demo_decision_def accepted_decision_def Let_def)

theorem workflow_all_or_nothing_witness:
  "\<exists>r k' rt'. coord_run demo_env (demo_kernel, runtime_default) registry_default ''e1'' demo_proposal
      (demo_observation True False) = (r, k', rt') \<and> rt_state rt' = []"
proof -
  let ?run = "coord_run demo_env (demo_kernel, runtime_default) registry_default ''e1'' demo_proposal
      (demo_observation True False)"
  obtain r k' rt' where eq: "?run = (r, k', rt')" by (cases ?run)
  moreover have "\<nexists>w. r = Inr w \<and> wf_disposition w = Di_Completed"
    using eq by (auto simp: coord_run_def registry_is_valid_def registry_default_def coord_observe_failure_def
        kernel_observe_failure_def demo_kernel_def workflow_def Let_def)
  ultimately show ?thesis
    using workflow_all_or_nothing [OF demo_sha256_len demo_kernel_new demo_start eq]
    by (auto simp: runtime_default_def)
qed

text \<open>
  \<open>Completed\<close> means completed: when \<open>run\<close> reports \<open>Completed\<close>, the evidence was valid for the
  proposal's digest, the proposal was admissible under the kernel's policy, the observation was healthy, had telemetry and
  asked for no kill, the runtime executed it, and its lifecycle record is \<open>Completed\<close>.
\<close>

theorem workflow_completed_means:
  assumes "sha256_len env" and "kernel_new pol = Inr k0"
    and "coord_exec env (k0, runtime_default) ops = (k, rt)"
    and "coord_run env (k, rt) evidence eid p ob = (Inr w, k', rt')" and "wf_disposition w = Di_Completed"
  shows "registry_is_valid evidence eid (ob_at ob) (proposal_digest env p) \<and>
    admissible (k_policy k) p (ob_at ob) \<and>
    ob_healthy ob \<and> ob_telemetry_present ob \<and> \<not> ob_kill_requested ob \<and>
    lifecycle_state_of k' (proposal_digest env p) = Some LS_Completed \<and>
    \<not> rt_frozen rt \<and> length (rt_audit rt') = length (rt_audit rt) + 1 \<and>
    wf_subject_digest w = proposal_digest env p"
proof -
  have "system_inv env (k, rt)" using coord_exec_inv [OF assms(1,2), of ops] assms(3) by simp
  from this assms(4) show ?thesis
  proof (cases rule: coord_run_cases)
    case stopped
    then show ?thesis using assms(5) by simp
  next
    case (completed d k1 k2)
    have "admissible (k_policy k) p (ob_at ob)"
    proof (cases rule: admit_cases [of env k p "ob_at ob"])
      case (refused kind reason)
      then show ?thesis using completed record_decision_Inr [of env k p kind reason None d k1] by auto
    qed (use completed in simp_all)
    moreover have "\<not> rt_frozen rt \<and> length (rt_audit rt') = length (rt_audit rt) + 1"
      using completed(8) by (cases rule: runtime_execute_cases) auto
    ultimately show ?thesis using completed by (simp add: unhealthy_def workflow_def)
  qed
qed

lemma demo_admit_with_kernel:
  "with_kernel (demo_kernel, rt) (\<lambda>k. admit demo_env k demo_proposal 100) = (Inr demo_decision, demo_admitted, rt)"
  by (simp add: with_kernel_eq demo_admit)

lemma demo_run:
  "coord_run demo_env (demo_kernel, runtime_default) demo_registry ''e1'' demo_proposal (demo_observation h x) =
     complete_admitted demo_env (demo_admitted, runtime_default) demo_proposal demo_decision zero_digest
       zero_digest (demo_observation h x)"
  using demo_registry_valid
  by (simp add: coord_run_def demo_observation_def demo_admit_with_kernel demo_decision_accepted Let_def
      proposal_digest_def)

lemma demo_run_completes:
  "\<exists>w k' rt'. coord_run demo_env (demo_kernel, runtime_default) demo_registry ''e1'' demo_proposal
      (demo_observation True False) = (Inr w, k', rt') \<and> wf_disposition w = Di_Completed"
proof -
  let ?ob = "demo_observation True False"
  have inv: "system_inv demo_env (demo_admitted, runtime_default)"
    using system_machine.run_inv [OF system_start_inv [OF demo_sha256_len demo_kernel_new],
        of "[SO_Kernel (KO_Admit demo_proposal 100)]"] by (simp add: demo_admit)
  obtain r k' rt' where eq: "complete_admitted demo_env (demo_admitted, runtime_default) demo_proposal
      demo_decision zero_digest zero_digest ?ob = (r, k', rt')"
    by (cases "complete_admitted demo_env (demo_admitted, runtime_default) demo_proposal
      demo_decision zero_digest zero_digest ?ob")
  obtain k1 rt1 where ex: "runtime_execute demo_env runtime_default demo_admitted demo_proposal
      demo_decision (ob_at ?ob) = (Inr True, k1, rt1)"
    using demo_execute_at [of 100] by (auto simp: demo_observation_def)
  from inv demo_decision_accepted eq
  have "r = Inr (workflow Di_Completed zero_digest (Some (de_decision_digest demo_decision)) zero_digest)"
    by (cases rule: complete_admitted_cases)
      (use ex in \<open>simp_all add: unhealthy_def demo_observation_def\<close>)
  then have "coord_run demo_env (demo_kernel, runtime_default) demo_registry ''e1'' demo_proposal ?ob =
      (Inr (workflow Di_Completed zero_digest (Some (de_decision_digest demo_decision)) zero_digest), k', rt')"
    using eq by (simp add: demo_run)
  then show ?thesis by (auto simp: workflow_def)
qed

theorem workflow_completed_means_witness:
  "\<exists>w k' rt'. coord_run demo_env (demo_kernel, runtime_default) demo_registry ''e1'' demo_proposal
      (demo_observation True False) = (Inr w, k', rt') \<and> wf_disposition w = Di_Completed \<and>
     lifecycle_state_of k' (proposal_digest demo_env demo_proposal) = Some LS_Completed"
proof -
  obtain w k' rt' where run: "coord_run demo_env (demo_kernel, runtime_default) demo_registry ''e1'' demo_proposal
      (demo_observation True False) = (Inr w, k', rt')" "wf_disposition w = Di_Completed"
    using demo_run_completes by blast
  from workflow_completed_means [OF demo_sha256_len demo_kernel_new demo_start run] run show ?thesis by blast
qed

text \<open>
  A bad observation closes everything: when evidence, admission and execution succeed but the observation is
  unhealthy, lacks telemetry or asks for a kill, \<open>run\<close> always returns \<open>RolledBack\<close>; the
  runtime's state is the one before the execution and the runtime is frozen, killed exactly when that was asked, and the
  proposal's record is \<open>Frozen\<close> or \<open>Killed\<close> accordingly.  None of the error branches after the execution is reachable.
\<close>

theorem bad_observation_rolls_back:
  assumes "sha256_len env" and "kernel_new pol = Inr k0"
    and "coord_exec env (k0, runtime_default) ops = (k, rt)"
    and "registry_is_valid evidence eid (ob_at ob) (proposal_digest env p)"
    and "admit env k p (ob_at ob) = (Inr d, k1)" and "de_kind d = DK_Accepted"
    and "runtime_execute env rt k1 p d (ob_at ob) = (Inr True, k2, rt2)"
    and "ob_kill_requested ob \<or> \<not> ob_healthy ob \<or> \<not> ob_telemetry_present ob"
  shows "\<exists>w k' rt'. coord_run env (k, rt) evidence eid p ob = (Inr w, k', rt') \<and>
    wf_disposition w = Di_RolledBack \<and> rt_state rt' = rt_state rt \<and> rt_frozen rt' \<and>
    rt_killed rt' = ob_kill_requested ob \<and>
    lifecycle_state_of k' (proposal_digest env p) = Some (if ob_kill_requested ob then LS_Killed else LS_Frozen)"
proof -
  have inv: "system_inv env (k, rt)" using coord_exec_inv [OF assms(1,2), of ops] assms(3) by simp
  then have inv1: "system_inv env (k1, rt)"
    using admit_inv [OF assms(1), of k p "ob_at ob"] assms(5) by (simp add: system_inv_def)
  let ?ca = "complete_admitted env (k1, rt) p d (proposal_digest env p) (digest env (json_observation ob)) ob"
  obtain r k' rt' where ca: "?ca = (r, k', rt')" by (cases ?ca)
  have run: "coord_run env (k, rt) evidence eid p ob = (r, k', rt')"
    using ca assms(4-6) by (simp add: coord_run_def Let_def with_kernel_eq)
  from inv1 assms(6) ca show ?thesis
  proof (cases rule: complete_admitted_cases)
    case (rolled_back k3 rt3)
    then show ?thesis using run by (simp add: workflow_def)
  qed (use assms(7,8) in \<open>auto simp: unhealthy_def\<close>)
qed

theorem bad_observation_rolls_back_witness:
  "\<exists>w k' rt'. coord_run demo_env (demo_kernel, runtime_default) demo_registry ''e1'' demo_proposal
      (demo_observation True True) = (Inr w, k', rt') \<and> wf_disposition w = Di_RolledBack \<and> rt_killed rt'"
proof -
  let ?ob = "demo_observation True True"
  have at: "ob_at ?ob = 100" "ob_kill_requested ?ob" by (simp_all add: demo_observation_def)
  obtain k1 rt1 where ex: "runtime_execute demo_env runtime_default demo_admitted demo_proposal
      demo_decision 100 = (Inr True, k1, rt1)"
    using demo_execute_at [of 100] by auto
  have "\<exists>w k' rt'. coord_run demo_env (demo_kernel, runtime_default) demo_registry ''e1'' demo_proposal ?ob =
      (Inr w, k', rt') \<and> wf_disposition w = Di_RolledBack \<and> rt_state rt' = rt_state runtime_default \<and>
      rt_frozen rt' \<and> rt_killed rt' = ob_kill_requested ?ob \<and>
      lifecycle_state_of k' (proposal_digest demo_env demo_proposal) =
        Some (if ob_kill_requested ?ob then LS_Killed else LS_Frozen)"
    by (rule bad_observation_rolls_back [OF demo_sha256_len demo_kernel_new demo_start])
      (use at ex demo_registry_valid demo_admit demo_decision_accepted in simp_all)
  then show ?thesis using at by auto
qed

end
