(* ===== verification/Receipts.thy ===== *)
theory Receipts
  imports Kernel_Properties
begin

text \<open>
  Signed capability and execution receipts of src/receipts.rs.  Ed25519 of the
  \<open>ed25519_dalek\<close> crate is third-party code: its operations are the fields of the record
  \<open>ed25519\<close>, a parameter of the definitions that sign or verify, and \<open>ed25519_correct\<close>
  states what the crate documents (a signature has 64 bytes and verifies under the key of
  the seed that made it).  A key is the 32 bytes of its encoding.
\<close>

record ed25519 =
  ed_public :: "u8 list \<Rightarrow> u8 list"
  ed_sign :: "u8 list \<Rightarrow> u8 list \<Rightarrow> u8 list"
  ed_key_ok :: "u8 list \<Rightarrow> bool"
  ed_verify :: "u8 list \<Rightarrow> u8 list \<Rightarrow> u8 list \<Rightarrow> bool"

definition ed25519_correct :: "ed25519 \<Rightarrow> bool" where
  "ed25519_correct ed \<longleftrightarrow> (\<forall>seed msg. length (ed_sign ed seed msg) = 64 \<and>
     ed_key_ok ed (ed_public ed seed) \<and> ed_verify ed (ed_public ed seed) msg (ed_sign ed seed msg))"

definition RECEIPT_VERSION :: u8 where "RECEIPT_VERSION = 1"
definition SIGNATURE_LEN :: nat where "SIGNATURE_LEN = 64"
definition MAX_TEXT_LEN :: nat where "MAX_TEXT_LEN = 256"
definition VERIFIER_FORMAT_VERSION :: u8 where "VERIFIER_FORMAT_VERSION = 1"

definition valid_text :: "string \<Rightarrow> bool" where
  "valid_text value \<longleftrightarrow> value \<noteq> [] \<and> length value \<le> MAX_TEXT_LEN \<and> \<not> has_control value"

definition valid_key_id :: "string \<Rightarrow> bool" where
  "valid_key_id value = valid_text value"

definition validate_capability :: "capability \<Rightarrow> unit result" where
  "validate_capability c =
     (if \<not> valid_digest (ca_token_id c) \<or> \<not> valid_digest (ca_intent_digest c) \<or>
         \<not> valid_text (ca_agent_id c) \<or> \<not> valid_text (ca_scope c) \<or> ca_expires_at c \<le> ca_issued_at c
      then Inl (Err_Invalid ''capability fields are malformed'') else Inr ())"

text \<open>The tuple holds the capability itself, which serde encodes like \<open>Some\<close> of it.\<close>

definition expected_decision_digest ::
  "crypto \<Rightarrow> proposal \<Rightarrow> decision \<Rightarrow> string \<Rightarrow> capability \<Rightarrow> string" where
  "expected_decision_digest env p d pol cap = digest env (JArr [JStr (pr_candidate_id p),
     json_decision_kind (de_kind d), JStr (de_reason d), JStr (proposal_digest env p), JStr pol,
     json_capability cap])"

section \<open>Capability receipts\<close>

record capability_receipt =
  cr_proposal_digest :: string
  cr_candidate_digest :: string
  cr_policy_digest :: string
  cr_capability_digest :: string
  cr_subject :: string
  cr_agent_id :: string
  cr_action :: action
  cr_scope :: string
  cr_issuer_key_id :: string
  cr_issued_at :: u64
  cr_expires_at :: u64
  cr_signature :: "u8 list"
  cr_receipt_id :: string

definition receipt_fields :: "capability_receipt \<Rightarrow> (string \<times> json) list" where
  "receipt_fields r =
    [(''version'', json_word RECEIPT_VERSION), (''state_slice'', JStr STATE_SLICE),
     (''proposal_digest'', JStr (cr_proposal_digest r)),
     (''candidate_digest'', JStr (cr_candidate_digest r)),
     (''policy_digest'', JStr (cr_policy_digest r)),
     (''capability_digest'', JStr (cr_capability_digest r)),
     (''subject'', JStr (cr_subject r)), (''agent_id'', JStr (cr_agent_id r)),
     (''action'', json_action (cr_action r)), (''scope'', JStr (cr_scope r)),
     (''issuer_key_id'', JStr (cr_issuer_key_id r)),
     (''issued_at'', json_word (cr_issued_at r)), (''expires_at'', json_word (cr_expires_at r))]"

definition identity_payload :: "capability_receipt \<Rightarrow> json" where
  "identity_payload r = JObj (receipt_fields r)"

definition signing_payload :: "capability_receipt \<Rightarrow> json" where
  "signing_payload r = JObj (receipt_fields r @ [(''receipt_id'', JStr (cr_receipt_id r))])"

definition signing_bytes :: "crypto \<Rightarrow> capability_receipt \<Rightarrow> u8 list" where
  "signing_bytes env r = canonical_bytes env (signing_payload r)"

definition expected_id :: "crypto \<Rightarrow> capability_receipt \<Rightarrow> string" where
  "expected_id env r = digest env (identity_payload r)"

definition receipt_validate_shape :: "crypto \<Rightarrow> capability_receipt \<Rightarrow> unit result" where
  "receipt_validate_shape env r =
     (if \<not> valid_digest (cr_proposal_digest r) \<or> \<not> valid_digest (cr_candidate_digest r) \<or>
         \<not> valid_digest (cr_policy_digest r) \<or> \<not> valid_digest (cr_capability_digest r) \<or>
         \<not> valid_digest (cr_receipt_id r)
      then Inl (Err_Invalid ''receipt digest fields must be lowercase SHA-256 digests'')
      else if \<not> valid_text (cr_subject r) \<or> \<not> valid_text (cr_agent_id r) \<or>
         \<not> valid_text (cr_scope r) \<or> \<not> valid_key_id (cr_issuer_key_id r)
      then Inl (Err_Invalid ''receipt identity fields are malformed'')
      else if cr_expires_at r \<le> cr_issued_at r
      then Inl (Err_Invalid ''receipt issuance window is invalid'')
      else if length (cr_signature r) \<noteq> SIGNATURE_LEN
      then Inl (Err_Invalid ''receipt signature length is invalid'')
      else if cr_receipt_id r \<noteq> expected_id env r
      then Inl (Err_Invalid ''receipt identity digest mismatch'')
      else Inr ())"

definition receipt_is_valid_at :: "crypto \<Rightarrow> capability_receipt \<Rightarrow> u64 \<Rightarrow> bool" where
  "receipt_is_valid_at env r now \<longleftrightarrow>
     is_ok (receipt_validate_shape env r) \<and> cr_issued_at r \<le> now \<and> now < cr_expires_at r"

section \<open>Execution receipts\<close>

record execution_receipt =
  xr_capability_receipt_id :: string
  xr_proposal_digest :: string
  xr_decision_digest :: string
  xr_evidence_id :: string
  xr_evidence_digest :: string
  xr_input_digest :: string
  xr_operation_id :: string
  xr_output_digest :: string
  xr_subject :: string
  xr_agent_id :: string
  xr_action :: action
  xr_scope :: string
  xr_issuer_key_id :: string
  xr_issued_at :: u64
  xr_expires_at :: u64
  xr_signature :: "u8 list"
  xr_receipt_id :: string

definition execution_fields :: "execution_receipt \<Rightarrow> (string \<times> json) list" where
  "execution_fields r =
    [(''version'', json_word RECEIPT_VERSION), (''state_slice'', JStr STATE_SLICE),
     (''capability_receipt_id'', JStr (xr_capability_receipt_id r)),
     (''proposal_digest'', JStr (xr_proposal_digest r)),
     (''decision_digest'', JStr (xr_decision_digest r)),
     (''evidence_id'', JStr (xr_evidence_id r)), (''evidence_digest'', JStr (xr_evidence_digest r)),
     (''input_digest'', JStr (xr_input_digest r)), (''operation_id'', JStr (xr_operation_id r)),
     (''output_digest'', JStr (xr_output_digest r)),
     (''subject'', JStr (xr_subject r)), (''agent_id'', JStr (xr_agent_id r)),
     (''action'', json_action (xr_action r)), (''scope'', JStr (xr_scope r)),
     (''issuer_key_id'', JStr (xr_issuer_key_id r)),
     (''issued_at'', json_word (xr_issued_at r)), (''expires_at'', json_word (xr_expires_at r))]"

definition execution_identity_payload :: "execution_receipt \<Rightarrow> json" where
  "execution_identity_payload r = JObj (execution_fields r)"

definition execution_signing_payload :: "execution_receipt \<Rightarrow> json" where
  "execution_signing_payload r = JObj (execution_fields r @ [(''receipt_id'', JStr (xr_receipt_id r))])"

definition execution_signing_bytes :: "crypto \<Rightarrow> execution_receipt \<Rightarrow> u8 list" where
  "execution_signing_bytes env r = canonical_bytes env (execution_signing_payload r)"

definition execution_expected_id :: "crypto \<Rightarrow> execution_receipt \<Rightarrow> string" where
  "execution_expected_id env r = digest env (execution_identity_payload r)"

definition execution_validate_shape :: "crypto \<Rightarrow> execution_receipt \<Rightarrow> unit result" where
  "execution_validate_shape env r =
     (if \<not> valid_digest (xr_capability_receipt_id r) \<or> \<not> valid_digest (xr_proposal_digest r) \<or>
         \<not> valid_digest (xr_decision_digest r) \<or> \<not> valid_digest (xr_evidence_digest r) \<or>
         \<not> valid_digest (xr_input_digest r) \<or> \<not> valid_digest (xr_output_digest r) \<or>
         \<not> valid_digest (xr_receipt_id r)
      then Inl (Err_Invalid ''execution receipt digest fields are malformed'')
      else if \<not> valid_text (xr_evidence_id r) \<or> \<not> valid_text (xr_operation_id r) \<or>
         \<not> valid_text (xr_subject r) \<or> \<not> valid_text (xr_agent_id r) \<or>
         \<not> valid_text (xr_scope r) \<or> \<not> valid_key_id (xr_issuer_key_id r)
      then Inl (Err_Invalid ''execution receipt identity fields are malformed'')
      else if xr_expires_at r \<le> xr_issued_at r
      then Inl (Err_Invalid ''execution receipt issuance window is invalid'')
      else if length (xr_signature r) \<noteq> SIGNATURE_LEN
      then Inl (Err_Invalid ''execution receipt signature length is invalid'')
      else if xr_receipt_id r \<noteq> execution_expected_id env r
      then Inl (Err_Invalid ''execution receipt identity digest mismatch'')
      else Inr ())"

definition execution_is_valid_at :: "crypto \<Rightarrow> execution_receipt \<Rightarrow> u64 \<Rightarrow> bool" where
  "execution_is_valid_at env r now \<longleftrightarrow>
     is_ok (execution_validate_shape env r) \<and> xr_issued_at r \<le> now \<and> now < xr_expires_at r"

section \<open>The signer\<close>

record receipt_signer =
  sg_key_id :: string
  sg_signing_key :: "u8 list"

definition signer_from_seed :: "string \<Rightarrow> u8 list \<Rightarrow> receipt_signer result" where
  "signer_from_seed key_id seed =
     (if \<not> valid_key_id key_id then Inl (Err_Invalid ''issuer key ID is malformed'')
      else Inr \<lparr>sg_key_id = key_id, sg_signing_key = seed\<rparr>)"

definition verifying_key_bytes :: "ed25519 \<Rightarrow> receipt_signer \<Rightarrow> u8 list" where
  "verifying_key_bytes ed sg = ed_public ed (sg_signing_key sg)"

definition issue_binding_fails ::
  "crypto \<Rightarrow> proposal \<Rightarrow> decision \<Rightarrow> policy \<Rightarrow> capability \<Rightarrow> bool" where
  "issue_binding_fails env p d pol cap \<longleftrightarrow>
     de_candidate_digest d \<noteq> proposal_digest env p \<or> de_candidate_id d \<noteq> pr_candidate_id p \<or>
     de_policy_digest d \<noteq> policy_digest env pol \<or>
     de_decision_digest d \<noteq> expected_decision_digest env p d (policy_digest env pol) cap \<or>
     ca_agent_id cap \<noteq> pr_agent_id p \<or> ca_action cap \<noteq> pr_action p \<or> ca_scope cap \<noteq> pr_scope p \<or>
     ca_intent_digest cap \<noteq> digest env (intent_material p) \<or>
     ca_token_id cap \<noteq> digest env (token_material (proposal_digest env p) (ca_issued_at cap)
       (policy_digest env pol)) \<or>
     ca_budget cap \<noteq> pr_resource_cost p"

definition finish_receipt :: "crypto \<Rightarrow> ed25519 \<Rightarrow> receipt_signer \<Rightarrow> capability_receipt \<Rightarrow> capability_receipt" where
  "finish_receipt env ed sg r =
     (let r1 = r\<lparr>cr_receipt_id := expected_id env r\<rparr>
      in r1\<lparr>cr_signature := ed_sign ed (sg_signing_key sg) (signing_bytes env r1)\<rparr>)"

definition issue_at ::
  "crypto \<Rightarrow> ed25519 \<Rightarrow> receipt_signer \<Rightarrow> string \<Rightarrow> proposal \<Rightarrow> decision \<Rightarrow> policy \<Rightarrow> u64 \<Rightarrow> u64 \<Rightarrow>
     capability_receipt result" where
  "issue_at env ed sg subject p d pol issued_at expires_at =
     (if \<not> valid_text subject then Inl (Err_Invalid ''receipt subject is malformed'')
      else if de_kind d \<noteq> DK_Accepted
      then Inl (Err_Rejected ''only accepted decisions can receive a receipt'')
      else try_r (ok_or (Err_Rejected ''accepted decision lacks capability'') (de_capability d)) (\<lambda>cap.
        try_r (validate_capability cap) (\<lambda>_.
        if issue_binding_fails env p d pol cap
        then Inl (Err_Rejected ''decision, proposal, policy, or capability binding failed'')
        else if issued_at < ca_issued_at cap \<or> ca_expires_at cap < expires_at \<or> expires_at \<le> issued_at
        then Inl (Err_Rejected ''receipt window exceeds capability validity'')
        else let r = finish_receipt env ed sg
               \<lparr>cr_proposal_digest = proposal_digest env p,
                cr_candidate_digest = de_candidate_digest d,
                cr_policy_digest = policy_digest env pol,
                cr_capability_digest = digest env (json_capability cap),
                cr_subject = subject, cr_agent_id = ca_agent_id cap, cr_action = ca_action cap,
                cr_scope = ca_scope cap, cr_issuer_key_id = sg_key_id sg,
                cr_issued_at = issued_at, cr_expires_at = expires_at,
                cr_signature = [], cr_receipt_id = []\<rparr>
             in try_r (receipt_validate_shape env r) (\<lambda>_. Inr r))))"

definition issue ::
  "crypto \<Rightarrow> ed25519 \<Rightarrow> receipt_signer \<Rightarrow> string \<Rightarrow> proposal \<Rightarrow> decision \<Rightarrow> policy \<Rightarrow> capability_receipt result" where
  "issue env ed sg subject p d pol =
     try_r (ok_or (Err_Rejected ''accepted decision lacks capability'') (de_capability d)) (\<lambda>cap.
     issue_at env ed sg subject p d pol (ca_issued_at cap) (ca_expires_at cap))"

definition finish_execution :: "crypto \<Rightarrow> ed25519 \<Rightarrow> receipt_signer \<Rightarrow> execution_receipt \<Rightarrow> execution_receipt" where
  "finish_execution env ed sg r =
     (let r1 = r\<lparr>xr_receipt_id := execution_expected_id env r\<rparr>
      in r1\<lparr>xr_signature := ed_sign ed (sg_signing_key sg) (execution_signing_bytes env r1)\<rparr>)"

definition issue_execution ::
  "crypto \<Rightarrow> ed25519 \<Rightarrow> receipt_signer \<Rightarrow> capability_receipt \<Rightarrow> string \<Rightarrow> string \<Rightarrow> string \<Rightarrow> string \<Rightarrow>
     string \<Rightarrow> string \<Rightarrow> u64 \<Rightarrow> execution_receipt result" where
  "issue_execution env ed sg cr decision_digest evidence_id evidence_digest input_digest operation_id
       output_digest now =
     try_r (receipt_validate_shape env cr) (\<lambda>_.
     if \<not> receipt_is_valid_at env cr now \<or> \<not> valid_digest decision_digest \<or> \<not> valid_text evidence_id \<or>
        \<not> valid_digest evidence_digest \<or> \<not> valid_digest input_digest \<or> \<not> valid_text operation_id \<or>
        \<not> valid_digest output_digest
     then Inl (Err_Rejected ''execution receipt binding or validity failed'')
     else let r = finish_execution env ed sg
            \<lparr>xr_capability_receipt_id = cr_receipt_id cr, xr_proposal_digest = cr_proposal_digest cr,
             xr_decision_digest = decision_digest, xr_evidence_id = evidence_id,
             xr_evidence_digest = evidence_digest, xr_input_digest = input_digest,
             xr_operation_id = operation_id, xr_output_digest = output_digest,
             xr_subject = cr_subject cr, xr_agent_id = cr_agent_id cr, xr_action = cr_action cr,
             xr_scope = cr_scope cr, xr_issuer_key_id = sg_key_id sg, xr_issued_at = now,
             xr_expires_at = cr_expires_at cr, xr_signature = [], xr_receipt_id = []\<rparr>
          in try_r (execution_validate_shape env r) (\<lambda>_. Inr r))"

section \<open>The verifier\<close>

record receipt_verifier =
  rv_trusted_keys :: "(string, u8 list) btree"
  rv_verified :: "string bset"

definition verifier_new :: receipt_verifier where
  "verifier_new = \<lparr>rv_trusted_keys = [], rv_verified = []\<rparr>"

definition verifier_validate :: "ed25519 \<Rightarrow> receipt_verifier \<Rightarrow> unit result" where
  "verifier_validate ed v =
     (if list_ex (\<lambda>(key_id, key). \<not> valid_key_id key_id \<or> \<not> ed_key_ok ed key) (rv_trusted_keys v)
      then Inl (Err_Invalid ''receipt verifier key registry is malformed'')
      else if list_ex (\<lambda>receipt_id. \<not> valid_digest receipt_id) (rv_verified v)
      then Inl (Err_Invalid ''receipt verifier replay set is malformed'')
      else Inr ())"

definition register_key :: "ed25519 \<Rightarrow> receipt_verifier \<Rightarrow> string \<Rightarrow> u8 list \<Rightarrow> unit result \<times> receipt_verifier" where
  "register_key ed v key_id public_key =
     (if \<not> valid_key_id key_id then (Inl (Err_Invalid ''issuer key ID is malformed''), v)
      else if \<not> ed_key_ok ed public_key then (Inl (Err_Invalid ''issuer public key is malformed''), v)
      else if bt_contains (rv_trusted_keys v) key_id
      then (Inl (Err_Rejected ''issuer key ID already registered''), v)
      else let v' = v\<lparr>rv_trusted_keys := bt_insert key_id public_key (rv_trusted_keys v)\<rparr>
           in (verifier_validate ed v', v'))"

definition verifier_with_key :: "ed25519 \<Rightarrow> string \<Rightarrow> u8 list \<Rightarrow> receipt_verifier result" where
  "verifier_with_key ed key_id public_key =
     (case register_key ed verifier_new key_id public_key of (r, v) \<Rightarrow> try_r r (\<lambda>_. Inr v))"

definition verify_signature :: "crypto \<Rightarrow> ed25519 \<Rightarrow> receipt_verifier \<Rightarrow> capability_receipt \<Rightarrow> unit result" where
  "verify_signature env ed v r =
     try_r (receipt_validate_shape env r) (\<lambda>_.
     try_r (ok_or (Err_Rejected ''issuer key is not trusted'')
              (bt_get (rv_trusted_keys v) (cr_issuer_key_id r))) (\<lambda>key.
     if length (cr_signature r) \<noteq> SIGNATURE_LEN
     then Inl (Err_Invalid ''receipt signature length is invalid'')
     else if \<not> ed_verify ed key (signing_bytes env r) (cr_signature r)
     then Inl (Err_Rejected ''receipt signature verification failed'') else Inr ()))"

definition verify_execution_signature ::
  "crypto \<Rightarrow> ed25519 \<Rightarrow> receipt_verifier \<Rightarrow> execution_receipt \<Rightarrow> unit result" where
  "verify_execution_signature env ed v r =
     try_r (execution_validate_shape env r) (\<lambda>_.
     try_r (ok_or (Err_Rejected ''issuer key is not trusted'')
              (bt_get (rv_trusted_keys v) (xr_issuer_key_id r))) (\<lambda>key.
     if length (xr_signature r) \<noteq> SIGNATURE_LEN
     then Inl (Err_Invalid ''execution receipt signature length is invalid'')
     else if \<not> ed_verify ed key (execution_signing_bytes env r) (xr_signature r)
     then Inl (Err_Rejected ''execution receipt signature verification failed'') else Inr ()))"

definition execution_link_fails ::
  "crypto \<Rightarrow> receipt_verifier \<Rightarrow> execution_receipt \<Rightarrow> capability_receipt \<Rightarrow> string \<Rightarrow> string \<Rightarrow> string \<Rightarrow>
     string \<Rightarrow> string \<Rightarrow> u64 \<Rightarrow> bool" where
  "execution_link_fails env v r cr evidence_id evidence_digest input_digest operation_id decision_digest now \<longleftrightarrow>
     \<not> execution_is_valid_at env r now \<or> xr_capability_receipt_id r \<noteq> cr_receipt_id cr \<or>
     xr_proposal_digest r \<noteq> cr_proposal_digest cr \<or> xr_subject r \<noteq> cr_subject cr \<or>
     xr_agent_id r \<noteq> cr_agent_id cr \<or> xr_action r \<noteq> cr_action cr \<or> xr_scope r \<noteq> cr_scope cr \<or>
     xr_issuer_key_id r \<noteq> cr_issuer_key_id cr \<or> xr_evidence_id r \<noteq> evidence_id \<or>
     xr_evidence_digest r \<noteq> evidence_digest \<or> xr_input_digest r \<noteq> input_digest \<or>
     xr_operation_id r \<noteq> operation_id \<or> xr_decision_digest r \<noteq> decision_digest \<or>
     bs_contains (rv_verified v) (xr_receipt_id r)"

definition verify_execution ::
  "crypto \<Rightarrow> ed25519 \<Rightarrow> receipt_verifier \<Rightarrow> execution_receipt \<Rightarrow> capability_receipt \<Rightarrow> string \<Rightarrow> string \<Rightarrow>
     string \<Rightarrow> string \<Rightarrow> string \<Rightarrow> u64 \<Rightarrow> unit result \<times> receipt_verifier" where
  "verify_execution env ed v r cr evidence_id evidence_digest input_digest operation_id decision_digest now =
     (case try_r (execution_validate_shape env r) (\<lambda>_.
        if execution_link_fails env v r cr evidence_id evidence_digest input_digest operation_id decision_digest now
        then Inl (Err_Rejected ''execution receipt linkage or replay failed'')
        else try_r (verify_signature env ed v cr) (\<lambda>_. verify_execution_signature env ed v r)) of
        Inl e \<Rightarrow> (Inl e, v)
      | Inr _ \<Rightarrow> (Inr (), v\<lparr>rv_verified := bs_insert (xr_receipt_id r) (rv_verified v)\<rparr>))"

definition verify_binding_fails ::
  "crypto \<Rightarrow> capability_receipt \<Rightarrow> proposal \<Rightarrow> decision \<Rightarrow> policy \<Rightarrow> capability \<Rightarrow> bool" where
  "verify_binding_fails env r p d pol cap \<longleftrightarrow>
     de_kind d \<noteq> DK_Accepted \<or>
     de_decision_digest d \<noteq> expected_decision_digest env p d (policy_digest env pol) cap \<or>
     de_candidate_id d \<noteq> pr_candidate_id p \<or> cr_proposal_digest r \<noteq> proposal_digest env p \<or>
     cr_candidate_digest r \<noteq> de_candidate_digest d \<or> de_candidate_digest d \<noteq> proposal_digest env p \<or>
     cr_policy_digest r \<noteq> policy_digest env pol \<or> cr_policy_digest r \<noteq> de_policy_digest d \<or>
     cr_capability_digest r \<noteq> digest env (json_capability cap) \<or>
     cr_agent_id r \<noteq> pr_agent_id p \<or> cr_agent_id r \<noteq> ca_agent_id cap \<or>
     cr_action r \<noteq> pr_action p \<or> cr_action r \<noteq> ca_action cap \<or>
     cr_scope r \<noteq> pr_scope p \<or> cr_scope r \<noteq> ca_scope cap \<or>
     ca_intent_digest cap \<noteq> digest env (intent_material p) \<or>
     ca_token_id cap \<noteq> digest env (token_material (proposal_digest env p) (ca_issued_at cap)
       (policy_digest env pol)) \<or>
     ca_budget cap \<noteq> pr_resource_cost p \<or>
     cr_issued_at r < ca_issued_at cap \<or> ca_expires_at cap < cr_expires_at r"

definition verify_check ::
  "crypto \<Rightarrow> ed25519 \<Rightarrow> receipt_verifier \<Rightarrow> capability_receipt \<Rightarrow> string \<Rightarrow> proposal \<Rightarrow> decision \<Rightarrow>
     policy \<Rightarrow> u64 \<Rightarrow> unit result" where
  "verify_check env ed v r subject p d pol now =
     try_r (receipt_validate_shape env r) (\<lambda>_.
     if \<not> valid_text subject \<or> cr_subject r \<noteq> subject
     then Inl (Err_Rejected ''receipt subject delegation mismatch'')
     else if \<not> receipt_is_valid_at env r now
     then Inl (Err_Rejected ''receipt is outside its validity window'')
     else if bs_contains (rv_verified v) (cr_receipt_id r)
     then Inl (Err_Rejected ''receipt replayed'')
     else try_r (ok_or (Err_Rejected ''issuer key is not trusted'')
              (bt_get (rv_trusted_keys v) (cr_issuer_key_id r))) (\<lambda>key.
     if length (cr_signature r) \<noteq> SIGNATURE_LEN
     then Inl (Err_Invalid ''receipt signature length is invalid'')
     else if \<not> ed_verify ed key (signing_bytes env r) (cr_signature r)
     then Inl (Err_Rejected ''receipt signature verification failed'')
     else try_r (ok_or (Err_Rejected ''accepted decision lacks capability'') (de_capability d)) (\<lambda>cap.
     try_r (validate_capability cap) (\<lambda>_.
     if verify_binding_fails env r p d pol cap
     then Inl (Err_Rejected ''receipt proposal, decision, policy, or capability delegation mismatch'')
     else Inr ()))))"

definition verify ::
  "crypto \<Rightarrow> ed25519 \<Rightarrow> receipt_verifier \<Rightarrow> capability_receipt \<Rightarrow> string \<Rightarrow> proposal \<Rightarrow> decision \<Rightarrow>
     policy \<Rightarrow> u64 \<Rightarrow> unit result \<times> receipt_verifier" where
  "verify env ed v r subject p d pol now =
     (case verify_check env ed v r subject p d pol now of
        Inl e \<Rightarrow> (Inl e, v)
      | Inr _ \<Rightarrow> (Inr (), v\<lparr>rv_verified := bs_insert (cr_receipt_id r) (rv_verified v)\<rparr>))"

text \<open>The stored form of a verifier, and the part of \<open>load\<close> that follows parsing.\<close>

record verifier_document =
  vd_version :: u8
  vd_trusted_keys :: "(string, u8 list) btree"
  vd_verified :: "string bset"

definition verifier_document_of :: "receipt_verifier \<Rightarrow> verifier_document" where
  "verifier_document_of v = \<lparr>vd_version = VERIFIER_FORMAT_VERSION,
     vd_trusted_keys = rv_trusted_keys v, vd_verified = rv_verified v\<rparr>"

fun register_all :: "ed25519 \<Rightarrow> receipt_verifier \<Rightarrow> (string \<times> u8 list) list \<Rightarrow> receipt_verifier result" where
  "register_all ed v [] = Inr v"
| "register_all ed v ((key_id, bytes) # ks) =
     (if length bytes \<noteq> 32 then Inl (Err_Invalid ''issuer public key is malformed'')
      else case register_key ed v key_id bytes of
        (Inl e, _) \<Rightarrow> Inl e
      | (Inr _, v') \<Rightarrow> register_all ed v' ks)"

definition verifier_of_document :: "ed25519 \<Rightarrow> verifier_document \<Rightarrow> receipt_verifier result" where
  "verifier_of_document ed doc =
     (if vd_version doc \<noteq> VERIFIER_FORMAT_VERSION
      then Inl (Err_Journal ''receipt verifier bytes are not canonical JSON'')
      else try_r (register_all ed verifier_new (vd_trusted_keys doc)) (\<lambda>v.
           let v' = v\<lparr>rv_verified := vd_verified doc\<rparr>
           in try_r (verifier_validate ed v') (\<lambda>_. Inr v')))"

end
