(* ===== verification/Receipt_Properties.thy ===== *)
theory Receipt_Properties
  imports Receipts
begin

text \<open>
  What receipts guarantee: an admitted decision can be receipted and the receipt verifies,
  verification checks every binding against a trusted key, a receipt is accepted once, and
  the stored form of a verifier restores it.
\<close>

section \<open>Shape and identity\<close>

lemma receipt_fields_signing [simp]:
  "receipt_fields (r\<lparr>cr_receipt_id := i\<rparr>) = receipt_fields r"
  "receipt_fields (r\<lparr>cr_signature := s\<rparr>) = receipt_fields r"
  by (simp_all add: receipt_fields_def)

lemma execution_fields_signing [simp]:
  "execution_fields (r\<lparr>xr_receipt_id := i\<rparr>) = execution_fields r"
  "execution_fields (r\<lparr>xr_signature := s\<rparr>) = execution_fields r"
  by (simp_all add: execution_fields_def)

lemma signing_bytes_signature [simp]:
  "signing_bytes env (r\<lparr>cr_signature := s\<rparr>) = signing_bytes env r"
  "execution_signing_bytes env (x\<lparr>xr_signature := s\<rparr>) = execution_signing_bytes env x"
  by (simp_all add: signing_bytes_def signing_payload_def execution_signing_bytes_def
      execution_signing_payload_def)

lemma expected_id_signing [simp]:
  "expected_id env (r\<lparr>cr_receipt_id := i\<rparr>) = expected_id env r"
  "expected_id env (r\<lparr>cr_signature := s\<rparr>) = expected_id env r"
  "execution_expected_id env (x\<lparr>xr_receipt_id := i\<rparr>) = execution_expected_id env x"
  "execution_expected_id env (x\<lparr>xr_signature := s\<rparr>) = execution_expected_id env x"
  by (simp_all add: expected_id_def identity_payload_def execution_expected_id_def
      execution_identity_payload_def)

lemma valid_named_digests [simp]:
  assumes "sha256_len env"
  shows "valid_digest (expected_id env r)" "valid_digest (execution_expected_id env x)"
    "valid_digest (proposal_digest env p)" "valid_digest (policy_digest env pol)"
  using assms
  by (simp_all add: expected_id_def execution_expected_id_def proposal_digest_def policy_digest_def)

lemma finish_receipt_simps [simp]:
  "cr_receipt_id (finish_receipt env ed sg r) = expected_id env r"
  "cr_signature (finish_receipt env ed sg r) =
     ed_sign ed (sg_signing_key sg) (signing_bytes env (r\<lparr>cr_receipt_id := expected_id env r\<rparr>))"
  "signing_bytes env (finish_receipt env ed sg r) = signing_bytes env (r\<lparr>cr_receipt_id := expected_id env r\<rparr>)"
  "expected_id env (finish_receipt env ed sg r) = expected_id env r"
  by (simp_all add: finish_receipt_def Let_def)

lemma finish_receipt_frame [simp]:
  "cr_proposal_digest (finish_receipt env ed sg r) = cr_proposal_digest r"
  "cr_candidate_digest (finish_receipt env ed sg r) = cr_candidate_digest r"
  "cr_policy_digest (finish_receipt env ed sg r) = cr_policy_digest r"
  "cr_capability_digest (finish_receipt env ed sg r) = cr_capability_digest r"
  "cr_subject (finish_receipt env ed sg r) = cr_subject r"
  "cr_agent_id (finish_receipt env ed sg r) = cr_agent_id r"
  "cr_action (finish_receipt env ed sg r) = cr_action r"
  "cr_scope (finish_receipt env ed sg r) = cr_scope r"
  "cr_issuer_key_id (finish_receipt env ed sg r) = cr_issuer_key_id r"
  "cr_issued_at (finish_receipt env ed sg r) = cr_issued_at r"
  "cr_expires_at (finish_receipt env ed sg r) = cr_expires_at r"
  by (simp_all add: finish_receipt_def Let_def)

lemma finish_execution_signature:
  "xr_signature (finish_execution env ed sg x) =
     ed_sign ed (sg_signing_key sg) (execution_signing_bytes env (finish_execution env ed sg x))"
  unfolding finish_execution_def Let_def signing_bytes_signature by simp

text \<open>The signed payload determines every field but the signature.\<close>

lemma signing_payload_inject:
  "signing_payload r = signing_payload r' \<Longrightarrow> r' = r\<lparr>cr_signature := cr_signature r'\<rparr>"
  by (intro capability_receipt.equality) (simp_all add: signing_payload_def receipt_fields_def)

lemma execution_signing_payload_inject:
  "execution_signing_payload r = execution_signing_payload r' \<Longrightarrow> r' = r\<lparr>xr_signature := xr_signature r'\<rparr>"
  by (intro execution_receipt.equality) (simp_all add: execution_signing_payload_def execution_fields_def)

lemma identity_payload_inject:
  "identity_payload r = identity_payload r' \<Longrightarrow> r' = r\<lparr>cr_signature := cr_signature r', cr_receipt_id := cr_receipt_id r'\<rparr>"
  by (intro capability_receipt.equality) (simp_all add: identity_payload_def receipt_fields_def)

section \<open>Verification, unfolded\<close>

lemma verify_ok:
  "verify env ed v r subject p d pol now = (Inr (), v') \<longleftrightarrow>
     verify_check env ed v r subject p d pol now = Inr () \<and>
     v' = v\<lparr>rv_verified := bs_insert (cr_receipt_id r) (rv_verified v)\<rparr>"
  by (auto simp: verify_def split: sum.splits)

lemma verify_check_ok:
  "verify_check env ed v r subject p d pol now = Inr () \<longleftrightarrow>
     receipt_validate_shape env r = Inr () \<and> valid_text subject \<and> cr_subject r = subject \<and>
     cr_issued_at r \<le> now \<and> now < cr_expires_at r \<and> cr_receipt_id r \<notin> set (rv_verified v) \<and>
     (\<exists>key cap. bt_get (rv_trusted_keys v) (cr_issuer_key_id r) = Some key \<and>
        length (cr_signature r) = SIGNATURE_LEN \<and> ed_verify ed key (signing_bytes env r) (cr_signature r) \<and>
        de_capability d = Some cap \<and> validate_capability cap = Inr () \<and>
        \<not> verify_binding_fails env r p d pol cap)"
  by (auto simp: verify_check_def try_r_eq_Inr receipt_is_valid_at_def bs_contains_def is_ok_unit
      split: if_splits)

lemma expected_decision_digest_material:
  "expected_decision_digest env p d pol cap =
     digest env (decision_material (pr_candidate_id p) (de_kind d) (de_reason d) (proposal_digest env p) pol (Some cap))"
  by (simp add: expected_decision_digest_def decision_material_def json_opt_def)

section \<open>From admission to verification\<close>

lemma issue_accepted:
  assumes env: "sha256_len env" and ed: "ed25519_correct ed" and adm: "admissible pol p t"
    and texts: "valid_text subject" "valid_text (pr_agent_id p)" "valid_text (pr_scope p)" "valid_key_id (sg_key_id sg)"
  obtains r where "issue env ed sg subject p (accepted_decision env pol p t) pol = Inr r"
    "receipt_validate_shape env r = Inr ()" "cr_subject r = subject" "cr_issuer_key_id r = sg_key_id sg"
    "cr_issued_at r = t" "cr_expires_at r = capability_expiry pol p t"
    "\<not> verify_binding_fails env r p (accepted_decision env pol p t) pol (issue_capability env pol p t)"
    "validate_capability (issue_capability env pol p t) = Inr ()"
    "cr_signature r = ed_sign ed (sg_signing_key sg) (signing_bytes env r)"
proof -
  let ?cap = "issue_capability env pol p t" and ?d = "accepted_decision env pol p t"
  let ?raw = "\<lparr>cr_proposal_digest = proposal_digest env p, cr_candidate_digest = proposal_digest env p,
     cr_policy_digest = policy_digest env pol, cr_capability_digest = digest env (json_capability ?cap),
     cr_subject = subject, cr_agent_id = pr_agent_id p, cr_action = pr_action p, cr_scope = pr_scope p,
     cr_issuer_key_id = sg_key_id sg, cr_issued_at = t, cr_expires_at = capability_expiry pol p t,
     cr_signature = [], cr_receipt_id = []\<rparr>"
  let ?r = "finish_receipt env ed sg ?raw"
  have exp: "t < capability_expiry pol p t" using adm by (simp add: admissible_def)
  have cap: "ca_agent_id ?cap = pr_agent_id p" "ca_action ?cap = pr_action p" "ca_scope ?cap = pr_scope p"
    "ca_budget ?cap = pr_resource_cost p" "ca_issued_at ?cap = t" "ca_expires_at ?cap = capability_expiry pol p t"
    "ca_intent_digest ?cap = digest env (intent_material p)"
    "ca_token_id ?cap = digest env (token_material (proposal_digest env p) t (policy_digest env pol))"
    by (simp_all add: issue_capability_def)
  have d: "de_kind ?d = DK_Accepted" "de_capability ?d = Some ?cap" "de_candidate_digest ?d = proposal_digest env p"
    "de_candidate_id ?d = pr_candidate_id p" "de_policy_digest ?d = policy_digest env pol"
    "de_decision_digest ?d = expected_decision_digest env p ?d (policy_digest env pol) ?cap"
    by (simp_all add: accepted_decision_def expected_decision_digest_material Let_def)
  have vc: "validate_capability ?cap = Inr ()"
    using env texts exp by (simp add: validate_capability_def cap not_le)
  have shape: "receipt_validate_shape env ?r = Inr ()"
    using env texts exp ed
    by (simp add: receipt_validate_shape_def not_le ed25519_correct_def SIGNATURE_LEN_def)
  have issue: "issue env ed sg subject p ?d pol = Inr ?r"
    using vc shape texts exp
    by (simp add: issue_def issue_at_def d cap issue_binding_fails_def not_le)
  show thesis
    by (rule that [OF issue shape]) (simp_all add: verify_binding_fails_def d cap vc)
qed

text \<open>
  From admission to verification: whenever \<open>admit\<close> accepts a proposal (with identity fields of at most 256 bytes
  and no control characters), a signer with a well-formed key id can issue a receipt for the decision, and a verifier that
  trusts the signer's key accepts it, for the same subject, proposal, decision and policy, at every time in the
  capability's window; accepting it a second time is a replay error.
\<close>

theorem admitted_receipt_verifies:
  assumes "sha256_len env" and "ed25519_correct ed"
    and "admit env k p t = (Inr d, k')" and "de_kind d = DK_Accepted"
    and "valid_text subject" "valid_text (pr_agent_id p)" "valid_text (pr_scope p)" "valid_key_id (sg_key_id sg)"
    and "bt_get (rv_trusted_keys v) (sg_key_id sg) = Some (verifying_key_bytes ed sg)"
    and "t \<le> now" "now < capability_expiry (k_policy k) p t"
  shows "\<exists>r. issue env ed sg subject p d (k_policy k) = Inr r \<and>
    (cr_receipt_id r \<notin> set (rv_verified v) \<longrightarrow>
      (\<exists>v'. verify env ed v r subject p d (k_policy k) now = (Inr (), v') \<and>
         verify env ed v' r subject p d (k_policy k) now = (Inl (Err_Rejected ''receipt replayed''), v')))"
proof -
  let ?pol = "k_policy k"
  have adm: "admissible ?pol p t" and d: "d = accepted_decision env ?pol p t"
  proof -
    show "admissible ?pol p t" "d = accepted_decision env ?pol p t"
      using assms(3,4)
    proof (atomize (full), cases rule: admit_cases [of env k p t])
      case (refused kind reason)
      then show "admissible ?pol p t \<and> d = accepted_decision env ?pol p t"
        using assms(3,4) record_decision_Inr [of env k p kind reason None d k'] by auto
    next
      case accepted
      then show "admissible ?pol p t \<and> d = accepted_decision env ?pol p t"
        using assms(3) record_decision_accepted(1) [of env k p t d k'] by simp
    qed (use assms(3) in simp)
  qed
  obtain r where r: "issue env ed sg subject p d ?pol = Inr r"
    "receipt_validate_shape env r = Inr ()" "cr_subject r = subject" "cr_issuer_key_id r = sg_key_id sg"
    "cr_issued_at r = t" "cr_expires_at r = capability_expiry ?pol p t"
    "\<not> verify_binding_fails env r p d ?pol (issue_capability env ?pol p t)"
    "validate_capability (issue_capability env ?pol p t) = Inr ()"
    "cr_signature r = ed_sign ed (sg_signing_key sg) (signing_bytes env r)"
    unfolding d by (rule issue_accepted [OF assms(1,2) adm assms(5-8)])
  have cap: "de_capability d = Some (issue_capability env ?pol p t)"
    by (simp add: d accepted_decision_def Let_def)
  have sig: "ed_verify ed (verifying_key_bytes ed sg) (signing_bytes env r) (cr_signature r)"
    "length (cr_signature r) = SIGNATURE_LEN"
    using assms(2) r(9) by (simp_all add: ed25519_correct_def verifying_key_bytes_def SIGNATURE_LEN_def)
  let ?v = "v\<lparr>rv_verified := bs_insert (cr_receipt_id r) (rv_verified v)\<rparr>"
  have "verify env ed v r subject p d ?pol now = (Inr (), ?v)"
    if "cr_receipt_id r \<notin> set (rv_verified v)"
    unfolding verify_ok verify_check_ok
    using that r(2-8) cap sig assms(5,9,10,11) by auto
  moreover have "verify env ed ?v r subject p d ?pol now = (Inl (Err_Rejected ''receipt replayed''), ?v)"
    using r(2-6) assms(5,10,11)
    by (simp add: verify_def verify_check_def receipt_is_valid_at_def bs_contains_def)
  ultimately show ?thesis using r(1) by blast
qed

definition demo_ed :: ed25519 where
  "demo_ed = \<lparr>ed_public = \<lambda>_. replicate 32 0, ed_sign = \<lambda>_ _. replicate 64 0, ed_key_ok = \<lambda>_. True,
     ed_verify = \<lambda>_ _ sig. sig = replicate 64 0\<rparr>"

definition demo_signer :: receipt_signer where
  "demo_signer = \<lparr>sg_key_id = ''k1'', sg_signing_key = replicate 32 7\<rparr>"

definition demo_verifier :: receipt_verifier where
  "demo_verifier = \<lparr>rv_trusted_keys = [(''k1'', replicate 32 0)], rv_verified = []\<rparr>"

lemma demo_ed_correct: "ed25519_correct demo_ed"
  by (simp add: ed25519_correct_def demo_ed_def)

lemma demo_texts:
  "valid_text ''tenant''" "valid_text (pr_agent_id demo_proposal)" "valid_text (pr_scope demo_proposal)"
  "valid_key_id (sg_key_id demo_signer)"
  by (simp_all add: valid_text_def valid_key_id_def MAX_TEXT_LEN_def demo_proposal_def demo_signer_def
      ascii_control_def)

theorem admitted_receipt_verifies_witness:
  "\<exists>r v'. issue demo_env demo_ed demo_signer ''tenant'' demo_proposal demo_decision policy_default = Inr r \<and>
     verify demo_env demo_ed demo_verifier r ''tenant'' demo_proposal demo_decision policy_default 110 = (Inr (), v')"
proof -
  have pol: "k_policy demo_kernel = policy_default" by (simp add: demo_kernel_def)
  have "\<exists>r. issue demo_env demo_ed demo_signer ''tenant'' demo_proposal demo_decision (k_policy demo_kernel) = Inr r \<and>
    (cr_receipt_id r \<notin> set (rv_verified demo_verifier) \<longrightarrow>
      (\<exists>v'. verify demo_env demo_ed demo_verifier r ''tenant'' demo_proposal demo_decision (k_policy demo_kernel) 110 = (Inr (), v') \<and>
         verify demo_env demo_ed v' r ''tenant'' demo_proposal demo_decision (k_policy demo_kernel) 110 =
           (Inl (Err_Rejected ''receipt replayed''), v')))"
    by (rule admitted_receipt_verifies [OF demo_sha256_len demo_ed_correct demo_admit _ demo_texts])
      (simp_all add: pol demo_expiry demo_decision_def accepted_decision_def Let_def demo_verifier_def
        demo_signer_def verifying_key_bytes_def demo_ed_def)
  then show ?thesis by (auto simp: demo_verifier_def pol)
qed

text \<open>
  C11.  What an accepted receipt proves: when \<open>verify\<close> accepts, the signature on the canonical payload verifies
  under a trusted key, the receipt is inside its window and inside the capability's, it was not seen before,
  and its digests are those of the presented proposal, policy and capability; any other receipt with the same
  signed payload differs only in the signature, and a proposal with the receipt's digest is the presented one or a named collision.
\<close>

theorem verified_receipt_binds:
  assumes "verify env ed v r subject p d pol now = (Inr (), v')"
  shows "\<exists>key cap. bt_get (rv_trusted_keys v) (cr_issuer_key_id r) = Some key \<and>
    ed_verify ed key (signing_bytes env r) (cr_signature r) \<and>
    de_capability d = Some cap \<and> de_kind d = DK_Accepted \<and> cr_subject r = subject \<and>
    ca_issued_at cap \<le> cr_issued_at r \<and> cr_issued_at r \<le> now \<and> now < cr_expires_at r \<and>
    cr_expires_at r \<le> ca_expires_at cap \<and>
    cr_receipt_id r \<notin> set (rv_verified v) \<and> set (rv_verified v') = insert (cr_receipt_id r) (set (rv_verified v)) \<and>
    cr_proposal_digest r = proposal_digest env p \<and> cr_policy_digest r = policy_digest env pol \<and>
    cr_capability_digest r = digest env (json_capability cap) \<and>
    ca_agent_id cap = pr_agent_id p \<and> ca_action cap = pr_action p \<and> ca_scope cap = pr_scope p \<and>
    ca_budget cap = pr_resource_cost p \<and>
    (\<forall>q. proposal_digest env q = cr_proposal_digest r \<longrightarrow>
       q = p \<or> collision env (json_proposal q) (json_proposal p)) \<and>
    (\<forall>r'. signing_payload r' = signing_payload r \<longrightarrow> r' = r\<lparr>cr_signature := cr_signature r'\<rparr>)"
proof -
  obtain key cap where k: "bt_get (rv_trusted_keys v) (cr_issuer_key_id r) = Some key"
    "ed_verify ed key (signing_bytes env r) (cr_signature r)" "de_capability d = Some cap"
    "\<not> verify_binding_fails env r p d pol cap" "cr_subject r = subject" "cr_issued_at r \<le> now"
    "now < cr_expires_at r" "cr_receipt_id r \<notin> set (rv_verified v)"
    "v' = v\<lparr>rv_verified := bs_insert (cr_receipt_id r) (rv_verified v)\<rparr>"
    using assms unfolding verify_ok verify_check_ok by blast
  have b: "de_kind d = DK_Accepted" "cr_proposal_digest r = proposal_digest env p"
    "cr_policy_digest r = policy_digest env pol" "cr_capability_digest r = digest env (json_capability cap)"
    "ca_agent_id cap = pr_agent_id p" "ca_action cap = pr_action p" "ca_scope cap = pr_scope p"
    "ca_budget cap = pr_resource_cost p" "ca_issued_at cap \<le> cr_issued_at r" "cr_expires_at r \<le> ca_expires_at cap"
    using k(4) by (auto simp: verify_binding_fails_def not_less)
  have q: "q = p \<or> collision env (json_proposal q) (json_proposal p)"
    if "proposal_digest env q = cr_proposal_digest r" for q
    using canon_proposal.digest_binds [of env q p] that b(2) by (simp add: proposal_digest_def)
  have r': "r' = r\<lparr>cr_signature := cr_signature r'\<rparr>" if "signing_payload r' = signing_payload r" for r'
    using signing_payload_inject that [symmetric] by blast
  show ?thesis
    using k b q r' by (intro exI [of _ key] exI [of _ cap]) auto
qed

lemma demo_receipt:
  assumes "100 \<le> now" and "now < 130"
  obtains r where "cr_receipt_id r \<notin> set (rv_verified demo_verifier)"
    "verify demo_env demo_ed demo_verifier r ''tenant'' demo_proposal demo_decision policy_default now =
      (Inr (), demo_verifier\<lparr>rv_verified := bs_insert (cr_receipt_id r) (rv_verified demo_verifier)\<rparr>)"
proof -
  obtain r where r: "issue demo_env demo_ed demo_signer ''tenant'' demo_proposal demo_decision policy_default = Inr r"
    "receipt_validate_shape demo_env r = Inr ()" "cr_subject r = ''tenant''" "cr_issuer_key_id r = sg_key_id demo_signer"
    "cr_issued_at r = 100" "cr_expires_at r = capability_expiry policy_default demo_proposal 100"
    "\<not> verify_binding_fails demo_env r demo_proposal demo_decision policy_default
       (issue_capability demo_env policy_default demo_proposal 100)"
    "validate_capability (issue_capability demo_env policy_default demo_proposal 100) = Inr ()"
    "cr_signature r = ed_sign demo_ed (sg_signing_key demo_signer) (signing_bytes demo_env r)"
    unfolding demo_decision_def
    by (rule issue_accepted [OF demo_sha256_len demo_ed_correct demo_admissible demo_texts])
  then have "verify demo_env demo_ed demo_verifier r ''tenant'' demo_proposal demo_decision policy_default now =
      (Inr (), demo_verifier\<lparr>rv_verified := bs_insert (cr_receipt_id r) (rv_verified demo_verifier)\<rparr>)"
    unfolding verify_ok verify_check_ok
    using demo_texts(1) assms
    by (auto simp: demo_verifier_def demo_signer_def demo_ed_def demo_expiry SIGNATURE_LEN_def
        demo_decision_def accepted_decision_def Let_def)
  then show thesis by (intro that [of r]) (simp_all add: demo_verifier_def)
qed

theorem verified_receipt_binds_witness:
  "\<exists>r v'. verify demo_env demo_ed demo_verifier r ''tenant'' demo_proposal demo_decision policy_default 110 =
      (Inr (), v') \<and> cr_proposal_digest r = proposal_digest demo_env demo_proposal"
proof -
  obtain r where "verify demo_env demo_ed demo_verifier r ''tenant'' demo_proposal demo_decision policy_default 110 =
      (Inr (), demo_verifier\<lparr>rv_verified := bs_insert (cr_receipt_id r) (rv_verified demo_verifier)\<rparr>)"
    by (rule demo_receipt [of 110]) simp_all
  from this verified_receipt_binds [OF this] show ?thesis by blast
qed

section \<open>The verifier as a machine\<close>

datatype verifier_op =
    VO_Register string "u8 list"
  | VO_Verify capability_receipt string proposal decision policy u64
  | VO_VerifyExecution execution_receipt capability_receipt string string string string string u64

fun verifier_step :: "crypto \<Rightarrow> ed25519 \<Rightarrow> receipt_verifier \<Rightarrow> verifier_op \<Rightarrow> receipt_verifier" where
  "verifier_step env ed v (VO_Register key_id key) = snd (register_key ed v key_id key)"
| "verifier_step env ed v (VO_Verify r subject p d pol now) = snd (verify env ed v r subject p d pol now)"
| "verifier_step env ed v (VO_VerifyExecution x cr eid edig inp oper dec now) =
     snd (verify_execution env ed v x cr eid edig inp oper dec now)"

fun accepted_receipt :: "crypto \<Rightarrow> ed25519 \<Rightarrow> receipt_verifier \<Rightarrow> verifier_op \<Rightarrow> string option" where
  "accepted_receipt env ed v (VO_Register key_id key) = None"
| "accepted_receipt env ed v (VO_Verify r subject p d pol now) =
     (if is_ok (fst (verify env ed v r subject p d pol now)) then Some (cr_receipt_id r) else None)"
| "accepted_receipt env ed v (VO_VerifyExecution x cr eid edig inp oper dec now) =
     (if is_ok (fst (verify_execution env ed v x cr eid edig inp oper dec now))
      then Some (xr_receipt_id x) else None)"

fun accept_count :: "crypto \<Rightarrow> ed25519 \<Rightarrow> string \<Rightarrow> receipt_verifier \<Rightarrow> verifier_op list \<Rightarrow> nat" where
  "accept_count env ed c v [] = 0"
| "accept_count env ed c v (a # as) =
     (if accepted_receipt env ed v a = Some c then 1 else 0) + accept_count env ed c (verifier_step env ed v a) as"

lemma verify_execution_ok:
  "verify_execution env ed v x cr eid edig inp oper dec now = (Inr (), v') \<longleftrightarrow>
     execution_validate_shape env x = Inr () \<and>
     \<not> execution_link_fails env v x cr eid edig inp oper dec now \<and>
     verify_signature env ed v cr = Inr () \<and> verify_execution_signature env ed v x = Inr () \<and>
     v' = v\<lparr>rv_verified := bs_insert (xr_receipt_id x) (rv_verified v)\<rparr>"
  by (auto simp: verify_execution_def try_r_eq_Inr try_r_eq_Inl split: sum.splits if_splits)

lemma verifier_step_cases:
  obtains (refused) "accepted_receipt env ed v a = None" "rv_verified (verifier_step env ed v a) = rv_verified v"
  | (accepted) c where "accepted_receipt env ed v a = Some c" "c \<notin> set (rv_verified v)"
      "verifier_step env ed v a = v\<lparr>rv_verified := bs_insert c (rv_verified v)\<rparr>"
proof (cases a)
  case (VO_Register key_id key)
  then show thesis by (intro refused) (simp_all add: register_key_def Let_def)
next
  case (VO_Verify r subject p d pol now)
  show thesis
  proof (cases "verify_check env ed v r subject p d pol now")
    case (Inl e)
    then show thesis by (intro refused) (simp_all add: VO_Verify verify_def)
  next
    case (Inr u)
    then have "cr_receipt_id r \<notin> set (rv_verified v)"
      using verify_check_ok [of env ed v r subject p d pol now] by simp
    then show thesis by (intro accepted [of "cr_receipt_id r"]) (simp_all add: VO_Verify verify_def Inr)
  qed
next
  case (VO_VerifyExecution x cr eid edig inp oper dec now)
  obtain res v' where eq: "verify_execution env ed v x cr eid edig inp oper dec now = (res, v')"
    by (cases "verify_execution env ed v x cr eid edig inp oper dec now")
  show thesis
  proof (cases res)
    case (Inl e)
    then have "v' = v" using eq by (auto simp: verify_execution_def split: sum.splits)
    then show thesis using Inl eq by (intro refused) (simp_all add: VO_VerifyExecution)
  next
    case (Inr u)
    then show thesis
      using eq verify_execution_ok [of env ed v x cr eid edig inp oper dec now v']
      by (intro accepted [of "xr_receipt_id x"])
        (simp_all add: VO_VerifyExecution execution_link_fails_def bs_contains_def)
  qed
qed

definition verifier_inv :: "ed25519 \<Rightarrow> receipt_verifier \<Rightarrow> bool" where
  "verifier_inv ed v \<longleftrightarrow> bt_wf (rv_trusted_keys v) \<and> bs_wf (rv_verified v) \<and>
     (\<forall>(key_id, key)\<in>set (rv_trusted_keys v). valid_key_id key_id \<and> ed_key_ok ed key)"

interpretation verifier_machine:
  monotone_machine "verifier_step env ed" "verifier_inv ed"
    "\<lambda>v v'. set (rv_verified v) \<subseteq> set (rv_verified v')" for env ed
proof
  fix v a
  assume inv: "verifier_inv ed v"
  show "verifier_inv ed (verifier_step env ed v a)"
  proof (cases a)
    case (VO_Register key_id key)
    show ?thesis
    proof (cases "valid_key_id key_id \<and> ed_key_ok ed key \<and> \<not> bt_contains (rv_trusted_keys v) key_id")
      case True
      then have "\<forall>e\<in>set (bt_insert key_id key (rv_trusted_keys v)). case e of (i, k) \<Rightarrow> valid_key_id i \<and> ed_key_ok ed k"
        using inv by (intro bt_insert_all) (auto simp: verifier_inv_def)
      then show ?thesis
        using True inv by (simp add: VO_Register register_key_def Let_def verifier_inv_def bt_wf_insert)
    next
      case False
      then show ?thesis using inv by (auto simp: VO_Register register_key_def)
    qed
  qed (use inv in \<open>auto simp: verifier_inv_def verify_def verify_execution_def
      intro: bs_wf_insert split: sum.splits\<close>)
  show "set (rv_verified v) \<subseteq> set (rv_verified (verifier_step env ed v a))"
    by (cases rule: verifier_step_cases [of env ed v a]) auto
qed auto

lemma accept_count_zero: "c \<in> set (rv_verified v) \<Longrightarrow> accept_count env ed c v ops = 0"
proof (induction ops arbitrary: v)
  case (Cons a ops)
  then show ?case by (cases rule: verifier_step_cases [of env ed v a]) auto
qed simp

text \<open>
  C12.  A receipt is accepted once: over any sequence of key registrations and verifications of capability and execution receipts,
  starting from any verifier, a receipt id is accepted at most once, and never when the replay set already holds it.
\<close>

theorem receipt_accepted_once:
  "accept_count env ed c v ops \<le> (if c \<in> set (rv_verified v) then 0 else 1)"
proof (induction ops arbitrary: v)
  case (Cons a ops)
  show ?case
  proof (cases rule: verifier_step_cases [of env ed v a])
    case refused
    then show ?thesis using Cons.IH [of "verifier_step env ed v a"] by simp
  next
    case (accepted c')
    then have "c = c' \<Longrightarrow> accept_count env ed c (verifier_step env ed v a) ops = 0"
      by (intro accept_count_zero) simp
    then show ?thesis using accepted Cons.IH [of "verifier_step env ed v a"] by (cases "c = c'") auto
  qed
qed simp

section \<open>The stored form of a verifier\<close>

lemma register_all_appends:
  assumes "bt_wf (xs @ ks)" and "\<forall>(i, key)\<in>set (xs @ ks). valid_key_id i \<and> ed_key_ok ed key"
    and "\<forall>(i, key)\<in>set ks. length key = 32"
  shows "register_all ed \<lparr>rv_trusted_keys = xs, rv_verified = []\<rparr> ks =
    Inr \<lparr>rv_trusted_keys = xs @ ks, rv_verified = []\<rparr>"
  using assms
proof (induction ks arbitrary: xs)
  case (Cons e ks)
  obtain i key where e: "e = (i, key)" by (cases e)
  have less: "\<forall>f\<in>set xs. fst f < i"
    using Cons.prems(1) by (auto simp: e bt_wf_def sorted_wrt_append)
  then have "bt_get xs i = None" by (auto simp: map_of_eq_None_iff)
  moreover have "verifier_validate ed \<lparr>rv_trusted_keys = xs @ [(i, key)], rv_verified = []\<rparr> = Inr ()"
    using Cons.prems(2) by (auto simp: e verifier_validate_def list_ex_iff)
  ultimately have "register_key ed \<lparr>rv_trusted_keys = xs, rv_verified = []\<rparr> i key =
      (Inr (), \<lparr>rv_trusted_keys = xs @ [(i, key)], rv_verified = []\<rparr>)"
    using Cons.prems(2) by (simp add: e register_key_def bt_insert_last [OF less] bt_contains_def Let_def)
  moreover have "length key = 32" using Cons.prems(3) by (simp add: e)
  ultimately show ?case
    using Cons.IH [of "xs @ [(i, key)]"] Cons.prems by (simp add: e)
qed simp

lemma verifier_rebuilt:
  assumes "bt_wf (rv_trusted_keys v)" and "verifier_validate ed v = Inr ()"
    and "\<forall>(i, key)\<in>set (rv_trusted_keys v). length key = 32"
  shows "verifier_of_document ed (verifier_document_of v) = Inr v"
proof -
  have "\<forall>(i, key)\<in>set (rv_trusted_keys v). valid_key_id i \<and> ed_key_ok ed key"
    using assms(2) by (auto simp: verifier_validate_def list_ex_iff split: if_splits)
  then have "register_all ed verifier_new (rv_trusted_keys v) = Inr \<lparr>rv_trusted_keys = rv_trusted_keys v, rv_verified = []\<rparr>"
    using register_all_appends [of "[]" "rv_trusted_keys v" ed] assms(1,3) by (simp add: verifier_new_def)
  then show ?thesis
    using assms(2) by (cases v) (simp add: verifier_of_document_def verifier_document_of_def Let_def)
qed

text \<open>
  A stored verifier is restored: for every verifier that passes \<open>validate\<close> and holds 32-byte keys, the part of
  \<open>load\<close> that rebuilds it from the parsed document gives back the same trusted keys and the same replay set, so a
  restart forgets no receipt.
\<close>

theorem verifier_document_round_trip:
  assumes "bt_wf (rv_trusted_keys v)" and "verifier_validate ed v = Inr ()"
    and "\<forall>(i, key)\<in>set (rv_trusted_keys v). length key = 32"
  shows "verifier_of_document ed (verifier_document_of v) = Inr v"
  by (rule verifier_rebuilt) (fact assms)+

theorem verifier_document_round_trip_witness:
  "verifier_of_document demo_ed (verifier_document_of (demo_verifier\<lparr>rv_verified := [zero_digest]\<rparr>)) =
     Inr (demo_verifier\<lparr>rv_verified := [zero_digest]\<rparr>)"
  by (rule verifier_document_round_trip)
    (simp_all add: demo_verifier_def verifier_validate_def valid_key_id_def valid_text_def MAX_TEXT_LEN_def
      ascii_control_def demo_ed_def bt_wf_def)

section \<open>Execution receipts\<close>

text \<open>
  Execution receipts follow the capability receipt: a result receipt that a signer issues for a capability receipt of its own
  verifies against exactly the inputs it was issued for, and any accepted execution receipt names the capability receipt, its
  proposal, subject, agent, action, scope and issuer, and expires no later than the receipt it follows when it was issued by \<open>issue_execution\<close>.
\<close>

theorem execution_receipt_verifies:
  assumes "sha256_len env" and "ed25519_correct ed"
    and "issue_execution env ed sg cr dec eid edig inp oper out now = Inr x"
    and "valid_key_id (sg_key_id sg)" and "cr_issuer_key_id cr = sg_key_id sg"
    and "bt_get (rv_trusted_keys v) (sg_key_id sg) = Some (verifying_key_bytes ed sg)"
    and "verify_signature env ed v cr = Inr ()" and "xr_receipt_id x \<notin> set (rv_verified v)"
  shows "verify_execution env ed v x cr eid edig inp oper dec now =
      (Inr (), v\<lparr>rv_verified := bs_insert (xr_receipt_id x) (rv_verified v)\<rparr>) \<and>
    xr_output_digest x = out \<and> xr_expires_at x = cr_expires_at cr \<and> cr_issued_at cr \<le> xr_issued_at x"
proof -
  let ?raw = "\<lparr>xr_capability_receipt_id = cr_receipt_id cr, xr_proposal_digest = cr_proposal_digest cr,
             xr_decision_digest = dec, xr_evidence_id = eid,
             xr_evidence_digest = edig, xr_input_digest = inp,
             xr_operation_id = oper, xr_output_digest = out,
             xr_subject = cr_subject cr, xr_agent_id = cr_agent_id cr, xr_action = cr_action cr,
             xr_scope = cr_scope cr, xr_issuer_key_id = sg_key_id sg, xr_issued_at = now,
             xr_expires_at = cr_expires_at cr, xr_signature = [], xr_receipt_id = []\<rparr>"
  have x: "x = finish_execution env ed sg ?raw" and shape: "execution_validate_shape env x = Inr ()"
    and win: "cr_issued_at cr \<le> now" "now < cr_expires_at cr"
    using assms(3)
    by (auto simp: issue_execution_def try_r_eq_Inr receipt_is_valid_at_def Let_def split: if_splits)
  have f: "xr_capability_receipt_id x = cr_receipt_id cr" "xr_proposal_digest x = cr_proposal_digest cr"
    "xr_decision_digest x = dec" "xr_evidence_id x = eid" "xr_evidence_digest x = edig" "xr_input_digest x = inp"
    "xr_operation_id x = oper" "xr_output_digest x = out" "xr_subject x = cr_subject cr"
    "xr_agent_id x = cr_agent_id cr" "xr_action x = cr_action cr" "xr_scope x = cr_scope cr"
    "xr_issuer_key_id x = sg_key_id sg" "xr_issued_at x = now" "xr_expires_at x = cr_expires_at cr"
    by (simp_all add: x finish_execution_def Let_def)
  have made: "xr_signature x = ed_sign ed (sg_signing_key sg) (execution_signing_bytes env x)"
    unfolding x by (rule finish_execution_signature)
  have sig: "verify_execution_signature env ed v x = Inr ()"
    using shape f made assms(2,6)
    by (simp add: verify_execution_signature_def ed25519_correct_def verifying_key_bytes_def SIGNATURE_LEN_def)
  have "\<not> execution_link_fails env v x cr eid edig inp oper dec now"
    using shape f assms(5,8) win
    by (simp add: execution_link_fails_def execution_is_valid_at_def bs_contains_def)
  then show ?thesis using shape sig f win assms(7) by (simp add: verify_execution_ok)
qed

lemma demo_capability_receipt:
  "\<exists>r. receipt_validate_shape demo_env r = Inr () \<and> verify_signature demo_env demo_ed demo_verifier r = Inr () \<and>
     cr_issuer_key_id r = ''k1'' \<and> cr_issued_at r = 100 \<and> cr_expires_at r = 130"
proof -
  obtain r where "receipt_validate_shape demo_env r = Inr ()" "cr_issuer_key_id r = sg_key_id demo_signer"
    "cr_issued_at r = 100" "cr_expires_at r = capability_expiry policy_default demo_proposal 100"
    "cr_signature r = ed_sign demo_ed (sg_signing_key demo_signer) (signing_bytes demo_env r)"
    by (rule issue_accepted [OF demo_sha256_len demo_ed_correct demo_admissible demo_texts])
  then show ?thesis
    by (intro exI [of _ r])
      (simp add: verify_signature_def demo_signer_def demo_ed_def demo_verifier_def SIGNATURE_LEN_def demo_expiry)
qed

theorem execution_receipt_verifies_witness:
  "\<exists>cr x v'. verify_execution demo_env demo_ed demo_verifier x cr ''e1'' zero_digest zero_digest ''op'' zero_digest 110 =
     (Inr (), v') \<and> xr_output_digest x = zero_digest"
proof -
  obtain cr where cr: "receipt_validate_shape demo_env cr = Inr ()" "verify_signature demo_env demo_ed demo_verifier cr = Inr ()"
    "cr_issuer_key_id cr = ''k1''" "cr_issued_at cr = 100" "cr_expires_at cr = 130"
    using demo_capability_receipt by blast
  have shape: "valid_digest (cr_receipt_id cr)" "valid_digest (cr_proposal_digest cr)" "valid_text (cr_subject cr)"
    "valid_text (cr_agent_id cr)" "valid_text (cr_scope cr)"
    using cr(1) by (auto simp: receipt_validate_shape_def split: if_splits)
  have "is_ok (issue_execution demo_env demo_ed demo_signer cr zero_digest ''e1'' zero_digest zero_digest ''op'' zero_digest 110)"
    using cr shape demo_texts(4)
    by (simp add: issue_execution_def receipt_is_valid_at_def valid_text_def MAX_TEXT_LEN_def ascii_control_def
        finish_execution_def execution_validate_shape_def demo_ed_def SIGNATURE_LEN_def Let_def)
      (simp add: valid_text_def MAX_TEXT_LEN_def demo_signer_def execution_expected_id_def)
  then obtain x where x: "issue_execution demo_env demo_ed demo_signer cr zero_digest ''e1'' zero_digest zero_digest ''op''
      zero_digest 110 = Inr x" by (auto simp: is_ok_iff)
  show ?thesis
    using execution_receipt_verifies [OF demo_sha256_len demo_ed_correct x demo_texts(4), of demo_verifier] cr
    by (auto simp: demo_signer_def demo_verifier_def verifying_key_bytes_def demo_ed_def)
qed

end
