(* ===== verification/Record_Store.thy ===== *)
theory Record_Store
  imports Containers Machine
begin

text \<open>
  Registries as stores of records.  Several components keep a \<open>BTreeMap\<close> of records that their operations only
  insert under a fresh key or move forward: artifacts, custody records, consent grants.  The locale \<open>record_store\<close> is
  the contract of such a component: every operation makes one admissible change of the map.  It is a \<open>monotone_machine\<close>
  whose invariant is that every record is valid for its key and whose order says that no record is lost
  and each one only moves forward.
\<close>

definition store_inv :: "('k::linorder \<Rightarrow> 'r \<Rightarrow> bool) \<Rightarrow> ('k, 'r) btree \<Rightarrow> bool" where
  "store_inv ok m \<longleftrightarrow> bt_wf m \<and> (\<forall>k r. bt_get m k = Some r \<longrightarrow> ok k r)"

definition store_grows :: "('r \<Rightarrow> 'r \<Rightarrow> bool) \<Rightarrow> ('k, 'r) btree \<Rightarrow> ('k, 'r) btree \<Rightarrow> bool" where
  "store_grows moves m m' \<longleftrightarrow> (\<forall>k r. bt_get m k = Some r \<longrightarrow> (\<exists>r'. bt_get m' k = Some r' \<and> moves r r'))"

inductive store_change :: "('k::linorder \<Rightarrow> 'r \<Rightarrow> bool) \<Rightarrow> ('r \<Rightarrow> 'r \<Rightarrow> bool) \<Rightarrow> ('k, 'r) btree \<Rightarrow> ('k, 'r) btree \<Rightarrow> bool"
  for ok moves m where
  same: "store_change ok moves m m"
| insert: "bt_get m k = None \<Longrightarrow> ok k r \<Longrightarrow> store_change ok moves m (bt_insert k r m)"
| update: "bt_get m k = Some r \<Longrightarrow> ok k (f r) \<Longrightarrow> moves r (f r) \<Longrightarrow> store_change ok moves m (bt_modify k f m)"

lemma store_inv_Nil [simp]: "store_inv ok []"
  by (simp add: store_inv_def)

lemma store_inv_get: "store_inv ok m \<Longrightarrow> bt_get m k = Some r \<Longrightarrow> ok k r"
  by (simp add: store_inv_def)

lemma store_inv_wf: "store_inv ok m \<Longrightarrow> bt_wf m"
  by (simp add: store_inv_def)

lemma store_inv_insert: "store_inv ok m \<Longrightarrow> ok k r \<Longrightarrow> store_inv ok (bt_insert k r m)"
  by (auto simp: store_inv_def bt_wf_insert)

lemma store_inv_modify:
  "store_inv ok m \<Longrightarrow> bt_get m k = Some r \<Longrightarrow> ok k (f r) \<Longrightarrow> store_inv ok (bt_modify k f m)"
  by (auto simp: store_inv_def bt_wf_modify split: if_splits)

text \<open>The loop of a registry's \<open>validate\<close> checks exactly the invariant.\<close>

lemma store_inv_check:
  assumes "bt_wf m" and "\<And>k r. check (k, r) = Inr () \<longleftrightarrow> ok k r"
  shows "check_all check m = Inr () \<longleftrightarrow> store_inv ok m"
  using assms by (auto simp: check_all_ok store_inv_def bt_get_mem)

lemma store_change_inv: "store_change ok moves m m' \<Longrightarrow> store_inv ok m \<Longrightarrow> store_inv ok m'"
  by (induction rule: store_change.induct) (auto intro: store_inv_insert store_inv_modify)

locale record_store =
  fixes step :: "'s \<Rightarrow> 'o \<Rightarrow> 's"
    and records :: "'s \<Rightarrow> ('k::linorder, 'r) btree"
    and ok :: "'k \<Rightarrow> 'r \<Rightarrow> bool"
    and moves :: "'r \<Rightarrow> 'r \<Rightarrow> bool"
  assumes moves_refl: "moves r r"
    and moves_trans: "moves r1 r2 \<Longrightarrow> moves r2 r3 \<Longrightarrow> moves r1 r3"
    and step_change: "store_inv ok (records s) \<Longrightarrow> store_change ok moves (records s) (records (step s a))"
begin

lemma change_grows: "store_change ok moves m m' \<Longrightarrow> store_grows moves m m'"
  by (induction rule: store_change.induct) (auto simp: store_grows_def moves_refl)

end

sublocale record_store \<subseteq> monotone_machine step "\<lambda>s. store_inv ok (records s)" "\<lambda>s t. store_grows moves (records s) (records t)"
proof
  show "store_inv ok (records (step s a))" if "store_inv ok (records s)" for s a
    using store_change_inv [OF step_change [OF that] that] .
  show "store_grows moves (records s) (records (step s a))" if "store_inv ok (records s)" for s a
    using change_grows [OF step_change [OF that]] .
  show "store_grows moves (records s) (records s)" for s by (auto simp: store_grows_def moves_refl)
  show "store_grows moves (records s) (records u)"
    if "store_grows moves (records s) (records t)" "store_grows moves (records t) (records u)" for s t u
    using that moves_trans unfolding store_grows_def by meson
qed

context record_store
begin

lemma run_keeps:
  assumes "store_inv ok (records s)" and "bt_get (records s) k = Some r"
  obtains r' where "bt_get (records (run_ops step s as)) k = Some r'" "moves r r'" "ok k r'"
proof -
  obtain r' where "bt_get (records (run_ops step s as)) k = Some r'" "moves r r'"
    using run_grows [OF assms(1), of as] assms(2) by (auto simp: store_grows_def)
  then show thesis using that store_inv_get [OF run_inv [OF assms(1)]] by blast
qed

end

end
