(* ===== verification/Artifacts.thy ===== *)
theory Artifacts
  imports Encoding Record_Store
begin

text \<open>
  The artifact registry of src/artifacts.rs: manifests that bind an artifact to the digests of its subject, source and provenance
  and to a retention interval, quarantined by an operator and a validator, accepted once by a
  reviewer of a third role and revoked for good.
\<close>

record artifact_manifest =
  am_artifact_id :: string
  am_subject_digest :: string
  am_source_digest :: string
  am_license :: string
  am_provenance_digest :: string
  am_custody_root :: string
  am_retention_start :: u64
  am_retention_until :: u64

definition json_manifest :: "artifact_manifest \<Rightarrow> json" where
  "json_manifest a = JObj
    [(''artifact_id'', JStr (am_artifact_id a)), (''subject_digest'', JStr (am_subject_digest a)),
     (''source_digest'', JStr (am_source_digest a)), (''license'', JStr (am_license a)),
     (''provenance_digest'', JStr (am_provenance_digest a)), (''custody_root'', JStr (am_custody_root a)),
     (''retention_start'', json_word (am_retention_start a)), (''retention_until'', json_word (am_retention_until a))]"

definition manifest_validate :: "artifact_manifest \<Rightarrow> unit result" where
  "manifest_validate a =
     (if blank (am_artifact_id a) \<or> blank (am_license a) \<or> blank (am_custody_root a)
      then Inl (Err_Invalid ''artifact identity, license, and custody root are required'')
      else if has_control (am_artifact_id a) \<or> has_control (am_license a) \<or> has_control (am_custody_root a)
      then Inl (Err_Invalid ''artifact manifest fields cannot contain control characters'')
      else if \<not> valid_digest (am_subject_digest a) \<or> \<not> valid_digest (am_source_digest a) \<or>
              \<not> valid_digest (am_provenance_digest a)
      then Inl (Err_Invalid ''subject, source, and provenance digests must be lowercase SHA-256'')
      else if am_retention_until a \<le> am_retention_start a
      then Inl (Err_Invalid ''retention interval must have a positive duration'')
      else Inr ())"

definition manifest_active :: "artifact_manifest \<Rightarrow> u64 \<Rightarrow> bool" where
  "manifest_active a now \<longleftrightarrow> is_ok (manifest_validate a) \<and> am_retention_start a \<le> now \<and> now < am_retention_until a"

definition manifest_digest :: "crypto \<Rightarrow> artifact_manifest \<Rightarrow> string result" where
  "manifest_digest env a = try_r (manifest_validate a) (\<lambda>_. Inr (digest env (json_manifest a)))"

definition binds_subject :: "artifact_manifest \<Rightarrow> string \<Rightarrow> bool" where
  "binds_subject a subject \<longleftrightarrow> am_subject_digest a = subject"

datatype artifact_status = AS_Quarantined | AS_Accepted | AS_Revoked

record artifact_record =
  ar_manifest :: artifact_manifest
  ar_operator_id :: string
  ar_validator_id :: string
  ar_reviewer_id :: "string option"
  ar_status :: artifact_status
  ar_accepted_at :: "u64 option"
  ar_revoked_at :: "u64 option"

record artifact_registry =
  af_records :: "(string, artifact_record) btree"

definition artifact_default :: artifact_registry where
  "artifact_default = \<lparr>af_records = []\<rparr>"

definition validate_role :: "string \<Rightarrow> string \<Rightarrow> unit result" where
  "validate_role role field =
     (if blank role \<or> has_control role then Inl (Err_Invalid (field @ '' must be a non-empty role assertion'')) else Inr ())"

definition validate_distinct_roles :: "string \<Rightarrow> string \<Rightarrow> unit result" where
  "validate_distinct_roles operator validator =
     try_r (validate_role operator ''operator'') (\<lambda>_.
     try_r (validate_role validator ''validator'') (\<lambda>_.
     if operator = validator then Inl (Err_Rejected ''operator and validator roles must be distinct'') else Inr ()))"

text \<open>The three arms of the lifecycle check in \<open>validate\<close>.\<close>

definition quarantined_check :: "artifact_record \<Rightarrow> unit result" where
  "quarantined_check r =
     (if ar_reviewer_id r \<noteq> None \<or> ar_accepted_at r \<noteq> None \<or> ar_revoked_at r \<noteq> None
      then Inl (Err_Invalid ''quarantined artifact lifecycle fields are inconsistent'') else Inr ())"

definition accepted_check :: "artifact_record \<Rightarrow> unit result" where
  "accepted_check r =
     try_r (ok_or (Err_Invalid ''accepted artifact reviewer is missing'') (ar_reviewer_id r)) (\<lambda>reviewer.
     try_r (validate_role reviewer ''reviewer'') (\<lambda>_.
     if reviewer = ar_operator_id r \<or> reviewer = ar_validator_id r
     then Inl (Err_Invalid ''accepted artifact reviewer role collides'')
     else try_r (ok_or (Err_Invalid ''accepted artifact timestamp is missing'') (ar_accepted_at r)) (\<lambda>accepted_at.
     if \<not> manifest_active (ar_manifest r) accepted_at \<or> ar_revoked_at r \<noteq> None
     then Inl (Err_Invalid ''accepted artifact lifecycle timestamps are invalid'') else Inr ())))"

definition revoked_check :: "artifact_record \<Rightarrow> unit result" where
  "revoked_check r =
     try_r (ok_or (Err_Invalid ''revoked artifact timestamp is missing'') (ar_revoked_at r)) (\<lambda>revoked_at.
     case ar_accepted_at r of
       Some accepted_at \<Rightarrow>
         if \<not> manifest_active (ar_manifest r) accepted_at \<or> revoked_at < accepted_at \<or> ar_reviewer_id r = None
         then Inl (Err_Invalid ''revoked accepted artifact lifecycle is invalid'')
         else try_r (ok_or (Err_Invalid ''revoked accepted artifact reviewer is missing'') (ar_reviewer_id r)) (\<lambda>reviewer.
              try_r (validate_role reviewer ''reviewer'') (\<lambda>_.
              if reviewer = ar_operator_id r \<or> reviewer = ar_validator_id r
              then Inl (Err_Invalid ''revoked artifact reviewer role collides'') else Inr ()))
     | None \<Rightarrow>
         if ar_reviewer_id r \<noteq> None then Inl (Err_Invalid ''revoked quarantined artifact has a reviewer'') else Inr ())"

definition artifact_record_validate :: "string \<times> artifact_record \<Rightarrow> unit result" where
  "artifact_record_validate = (\<lambda>(aid, r).
     try_r (manifest_validate (ar_manifest r)) (\<lambda>_.
     if aid \<noteq> am_artifact_id (ar_manifest r) then Inl (Err_Invalid ''artifact registry key mismatch'')
     else try_r (validate_distinct_roles (ar_operator_id r) (ar_validator_id r)) (\<lambda>_.
     case ar_status r of
       AS_Quarantined \<Rightarrow> quarantined_check r
     | AS_Accepted \<Rightarrow> accepted_check r
     | AS_Revoked \<Rightarrow> revoked_check r)))"

definition artifact_validate :: "artifact_registry \<Rightarrow> unit result" where
  "artifact_validate reg = check_all artifact_record_validate (af_records reg)"

definition artifact_quarantine ::
  "artifact_registry \<Rightarrow> artifact_manifest \<Rightarrow> string \<Rightarrow> string \<Rightarrow> unit result \<times> artifact_registry" where
  "artifact_quarantine reg a operator validator =
     (case try_r (manifest_validate a) (\<lambda>_. validate_distinct_roles operator validator) of
        Inl e \<Rightarrow> (Inl e, reg)
      | Inr _ \<Rightarrow>
        if bt_contains (af_records reg) (am_artifact_id a)
        then (Inl (Err_Rejected ''artifact identifier already exists''), reg)
        else (Inr (), reg\<lparr>af_records := bt_insert (am_artifact_id a)
               \<lparr>ar_manifest = a, ar_operator_id = operator, ar_validator_id = validator, ar_reviewer_id = None,
                ar_status = AS_Quarantined, ar_accepted_at = None, ar_revoked_at = None\<rparr> (af_records reg)\<rparr>))"

definition artifact_accept ::
  "artifact_registry \<Rightarrow> string \<Rightarrow> string \<Rightarrow> string \<Rightarrow> u64 \<Rightarrow> unit result \<times> artifact_registry" where
  "artifact_accept reg aid subject reviewer now =
     (if \<not> valid_digest subject then (Inl (Err_Invalid ''review subject digest is malformed''), reg)
      else case validate_role reviewer ''reviewer'' of
        Inl e \<Rightarrow> (Inl e, reg)
      | Inr _ \<Rightarrow>
        case bt_get (af_records reg) aid of
          None \<Rightarrow> (Inl (Err_Invalid ''artifact not found''), reg)
        | Some r \<Rightarrow>
          if ar_status r \<noteq> AS_Quarantined
          then (Inl (Err_Rejected ''only quarantined artifacts can be accepted''), reg)
          else if \<not> binds_subject (ar_manifest r) subject
          then (Inl (Err_Rejected ''artifact subject binding mismatch''), reg)
          else if \<not> manifest_active (ar_manifest r) now
          then (Inl (Err_Rejected ''artifact is outside its retention interval''), reg)
          else if reviewer = ar_operator_id r \<or> reviewer = ar_validator_id r
          then (Inl (Err_Rejected ''reviewer role must be distinct from operator and validator''), reg)
          else (Inr (), reg\<lparr>af_records := bt_modify aid (\<lambda>r. r\<lparr>ar_reviewer_id := Some reviewer,
                 ar_accepted_at := Some now, ar_status := AS_Accepted\<rparr>) (af_records reg)\<rparr>))"

definition artifact_revoke ::
  "artifact_registry \<Rightarrow> string \<Rightarrow> string \<Rightarrow> u64 \<Rightarrow> unit result \<times> artifact_registry" where
  "artifact_revoke reg aid subject now =
     (if \<not> valid_digest subject then (Inl (Err_Invalid ''revoke subject digest is malformed''), reg)
      else case bt_get (af_records reg) aid of
        None \<Rightarrow> (Inl (Err_Invalid ''artifact not found''), reg)
      | Some previous \<Rightarrow>
        if ar_status previous = AS_Revoked then (Inl (Err_Rejected ''artifact is already revoked''), reg)
        else if \<not> binds_subject (ar_manifest previous) subject
        then (Inl (Err_Rejected ''artifact subject binding mismatch''), reg)
        else if (case ar_accepted_at previous of None \<Rightarrow> False | Some accepted_at \<Rightarrow> now < accepted_at)
        then (Inl (Err_Rejected ''artifact revocation predates acceptance''), reg)
        else let reg' = reg\<lparr>af_records := bt_modify aid (\<lambda>r. r\<lparr>ar_status := AS_Revoked, ar_revoked_at := Some now\<rparr>)
                   (af_records reg)\<rparr>
             in case artifact_validate reg' of
                  Inl e \<Rightarrow> (Inl e, reg'\<lparr>af_records := bt_insert aid previous (af_records reg')\<rparr>)
                | Inr _ \<Rightarrow> (Inr (), reg'))"

definition artifact_is_valid :: "artifact_registry \<Rightarrow> string \<Rightarrow> string \<Rightarrow> u64 \<Rightarrow> bool" where
  "artifact_is_valid reg aid subject now \<longleftrightarrow>
     (case bt_get (af_records reg) aid of
        None \<Rightarrow> False
      | Some r \<Rightarrow> is_ok (manifest_validate (ar_manifest r)) \<and> ar_status r = AS_Accepted \<and> ar_reviewer_id r \<noteq> None \<and>
          manifest_active (ar_manifest r) now \<and> binds_subject (ar_manifest r) subject \<and>
          is_ok (validate_distinct_roles (ar_operator_id r) (ar_validator_id r)) \<and>
          (case ar_reviewer_id r of
             None \<Rightarrow> False
           | Some reviewer \<Rightarrow> is_ok (validate_role reviewer ''reviewer'') \<and>
               reviewer \<noteq> ar_operator_id r \<and> reviewer \<noteq> ar_validator_id r))"

definition require_valid :: "artifact_registry \<Rightarrow> string \<Rightarrow> string \<Rightarrow> u64 \<Rightarrow> artifact_record result" where
  "require_valid reg aid subject now =
     (if \<not> artifact_is_valid reg aid subject now
      then Inl (Err_Rejected ''artifact evidence is absent, stale, revoked, or subject-mismatched'')
      else ok_or (Err_Rejected ''artifact evidence is unavailable'') (bt_get (af_records reg) aid))"

section \<open>The registry as a record store\<close>

definition artifact_ok :: "string \<Rightarrow> artifact_record \<Rightarrow> bool" where
  "artifact_ok aid r \<longleftrightarrow> artifact_record_validate (aid, r) = Inr ()"

text \<open>What a record keeps: its manifest and its roles; the review happens once and revocation is the end.\<close>

definition artifact_moves :: "artifact_record \<Rightarrow> artifact_record \<Rightarrow> bool" where
  "artifact_moves r r' \<longleftrightarrow> ar_manifest r' = ar_manifest r \<and> ar_operator_id r' = ar_operator_id r \<and>
     ar_validator_id r' = ar_validator_id r \<and>
     (ar_status r = AS_Accepted \<longrightarrow> ar_status r' \<noteq> AS_Quarantined \<and> ar_reviewer_id r' = ar_reviewer_id r \<and>
        ar_accepted_at r' = ar_accepted_at r) \<and>
     (ar_status r = AS_Revoked \<longrightarrow> r' = r)"

lemma artifact_validate_iff:
  "bt_wf (af_records reg) \<Longrightarrow> artifact_validate reg = Inr () \<longleftrightarrow> store_inv artifact_ok (af_records reg)"
  unfolding artifact_validate_def by (rule store_inv_check) (simp_all add: artifact_ok_def)

lemma artifact_ok_accept:
  assumes "artifact_ok aid r" and "validate_role reviewer ''reviewer'' = Inr ()" and "manifest_active (ar_manifest r) now"
    and "reviewer \<noteq> ar_operator_id r" and "reviewer \<noteq> ar_validator_id r" and "ar_status r = AS_Quarantined"
  shows "artifact_ok aid (r\<lparr>ar_reviewer_id := Some reviewer, ar_accepted_at := Some now, ar_status := AS_Accepted\<rparr>)"
  using assms by (auto simp: artifact_ok_def artifact_record_validate_def quarantined_check_def accepted_check_def
      try_r_eq_Inr split: if_splits)

lemma artifact_ok_revoke:
  assumes "artifact_ok aid r" and "ar_status r \<noteq> AS_Revoked"
    and "\<not> (case ar_accepted_at r of None \<Rightarrow> False | Some accepted_at \<Rightarrow> now < accepted_at)"
  shows "artifact_ok aid (r\<lparr>ar_status := AS_Revoked, ar_revoked_at := Some now\<rparr>)"
proof (cases "ar_status r")
  case AS_Quarantined
  then show ?thesis using assms
    by (auto simp: artifact_ok_def artifact_record_validate_def quarantined_check_def revoked_check_def
        try_r_eq_Inr split: if_splits)
next
  case AS_Accepted
  then show ?thesis using assms
    by (auto simp: artifact_ok_def artifact_record_validate_def accepted_check_def revoked_check_def
        try_r_eq_Inr ok_or_eq_Inr split: if_splits)
qed (use assms in simp)

text \<open>Under the invariant an operation either succeeds or changes nothing.\<close>

lemma artifact_quarantine_cases:
  obtains (fails) e where "artifact_quarantine reg a op va = (Inl e, reg)"
  | (succeeds) r where "bt_get (af_records reg) (am_artifact_id a) = None" "artifact_ok (am_artifact_id a) r"
      "artifact_quarantine reg a op va = (Inr (), reg\<lparr>af_records := bt_insert (am_artifact_id a) r (af_records reg)\<rparr>)"
proof (cases "manifest_validate a = Inr () \<and> validate_distinct_roles op va = Inr () \<and>
    bt_get (af_records reg) (am_artifact_id a) = None")
  case True
  let ?r = "\<lparr>ar_manifest = a, ar_operator_id = op, ar_validator_id = va, ar_reviewer_id = None,
    ar_status = AS_Quarantined, ar_accepted_at = None, ar_revoked_at = None\<rparr>"
  have "artifact_ok (am_artifact_id a) ?r"
    using True by (simp add: artifact_ok_def artifact_record_validate_def quarantined_check_def)
  then show thesis
    using True by (intro succeeds [of ?r]) (simp_all add: artifact_quarantine_def bt_contains_def)
next
  case False
  then have "\<exists>e. artifact_quarantine reg a op va = (Inl e, reg)"
    by (cases "manifest_validate a"; cases "validate_distinct_roles op va")
      (auto simp: artifact_quarantine_def bt_contains_def)
  then show thesis using fails by blast
qed

lemma artifact_accept_cases:
  assumes "store_inv artifact_ok (af_records reg)"
  obtains (fails) e where "artifact_accept reg aid subject reviewer now = (Inl e, reg)"
  | (succeeds) r where "bt_get (af_records reg) aid = Some r" "ar_status r = AS_Quarantined"
      "am_subject_digest (ar_manifest r) = subject"
      "artifact_ok aid (r\<lparr>ar_reviewer_id := Some reviewer, ar_accepted_at := Some now, ar_status := AS_Accepted\<rparr>)"
      "artifact_accept reg aid subject reviewer now = (Inr (), reg\<lparr>af_records := bt_modify aid
         (\<lambda>r. r\<lparr>ar_reviewer_id := Some reviewer, ar_accepted_at := Some now, ar_status := AS_Accepted\<rparr>) (af_records reg)\<rparr>)"
proof (cases "\<exists>r. bt_get (af_records reg) aid = Some r \<and> valid_digest subject \<and> validate_role reviewer ''reviewer'' = Inr () \<and>
    ar_status r = AS_Quarantined \<and> binds_subject (ar_manifest r) subject \<and> manifest_active (ar_manifest r) now \<and>
    reviewer \<noteq> ar_operator_id r \<and> reviewer \<noteq> ar_validator_id r")
  case True
  then obtain r where r: "bt_get (af_records reg) aid = Some r" "valid_digest subject" "validate_role reviewer ''reviewer'' = Inr ()"
    "ar_status r = AS_Quarantined" "binds_subject (ar_manifest r) subject" "manifest_active (ar_manifest r) now"
    "reviewer \<noteq> ar_operator_id r" "reviewer \<noteq> ar_validator_id r" by blast
  have "artifact_ok aid (r\<lparr>ar_reviewer_id := Some reviewer, ar_accepted_at := Some now, ar_status := AS_Accepted\<rparr>)"
    using artifact_ok_accept [OF store_inv_get [OF assms r(1)]] r by blast
  then show thesis using r by (intro succeeds [of r]) (simp_all add: artifact_accept_def binds_subject_def)
next
  case False
  then have "\<exists>e. artifact_accept reg aid subject reviewer now = (Inl e, reg)"
    by (cases "validate_role reviewer ''reviewer''"; cases "bt_get (af_records reg) aid") (auto simp: artifact_accept_def)
  then show thesis using fails by blast
qed

lemma artifact_revoke_cases:
  assumes inv: "store_inv artifact_ok (af_records reg)"
  obtains (fails) e where "artifact_revoke reg aid subject now = (Inl e, reg)"
  | (succeeds) r where "bt_get (af_records reg) aid = Some r" "ar_status r \<noteq> AS_Revoked"
      "artifact_ok aid (r\<lparr>ar_status := AS_Revoked, ar_revoked_at := Some now\<rparr>)"
      "artifact_revoke reg aid subject now =
         (Inr (), reg\<lparr>af_records := bt_modify aid (\<lambda>r. r\<lparr>ar_status := AS_Revoked, ar_revoked_at := Some now\<rparr>) (af_records reg)\<rparr>)"
proof (cases "\<exists>r. bt_get (af_records reg) aid = Some r \<and> valid_digest subject \<and> ar_status r \<noteq> AS_Revoked \<and>
    binds_subject (ar_manifest r) subject \<and> \<not> (case ar_accepted_at r of None \<Rightarrow> False | Some accepted_at \<Rightarrow> now < accepted_at)")
  case True
  then obtain r where r: "bt_get (af_records reg) aid = Some r" "valid_digest subject" "ar_status r \<noteq> AS_Revoked"
    "binds_subject (ar_manifest r) subject" "\<not> (case ar_accepted_at r of None \<Rightarrow> False | Some accepted_at \<Rightarrow> now < accepted_at)"
    by blast
  let ?f = "\<lambda>r. r\<lparr>ar_status := AS_Revoked, ar_revoked_at := Some now\<rparr>"
  have ok: "artifact_ok aid (?f r)" by (rule artifact_ok_revoke [OF store_inv_get [OF inv r(1)] r(3,5)])
  have si: "store_inv artifact_ok (bt_modify aid ?f (af_records reg))" by (rule store_inv_modify [where f = ?f, OF inv r(1) ok])
  then have "artifact_validate (reg\<lparr>af_records := bt_modify aid ?f (af_records reg)\<rparr>) = Inr ()"
    by (subst artifact_validate_iff) (simp_all add: store_inv_wf)
  then show thesis using r ok by (intro succeeds [of r]) (simp_all add: artifact_revoke_def Let_def)
next
  case False
  then have "\<exists>e. artifact_revoke reg aid subject now = (Inl e, reg)"
    by (cases "bt_get (af_records reg) aid") (auto simp: artifact_revoke_def)
  then show thesis using fails by blast
qed

datatype artifact_op =
    AO_Quarantine artifact_manifest string string
  | AO_Accept string string string u64
  | AO_Revoke string string u64

fun artifact_do :: "artifact_registry \<Rightarrow> artifact_op \<Rightarrow> unit result \<times> artifact_registry" where
  "artifact_do reg (AO_Quarantine a op va) = artifact_quarantine reg a op va"
| "artifact_do reg (AO_Accept aid subject reviewer now) = artifact_accept reg aid subject reviewer now"
| "artifact_do reg (AO_Revoke aid subject now) = artifact_revoke reg aid subject now"

definition artifact_step :: "artifact_registry \<Rightarrow> artifact_op \<Rightarrow> artifact_registry" where
  "artifact_step reg a = snd (artifact_do reg a)"

lemma artifact_do_cases:
  assumes "store_inv artifact_ok (af_records reg)"
  shows "(\<exists>e. artifact_do reg a = (Inl e, reg)) \<or>
    fst (artifact_do reg a) = Inr () \<and> store_change artifact_ok artifact_moves (af_records reg) (af_records (artifact_step reg a))"
proof (cases a)
  case (AO_Quarantine m op va)
  show ?thesis
    by (cases rule: artifact_quarantine_cases [of reg m op va])
      (auto simp: AO_Quarantine artifact_step_def intro: store_change.insert)
next
  case (AO_Accept aid subject reviewer now)
  from assms show ?thesis
    by (cases rule: artifact_accept_cases [where aid = aid and subject = subject and reviewer = reviewer and now = now])
      (auto simp: AO_Accept artifact_step_def artifact_moves_def intro!: store_change.update)
next
  case (AO_Revoke aid subject now)
  from assms show ?thesis
    by (cases rule: artifact_revoke_cases [where aid = aid and subject = subject and now = now])
      (auto simp: AO_Revoke artifact_step_def artifact_moves_def intro!: store_change.update)
qed

interpretation artifact_store: record_store artifact_step af_records artifact_ok artifact_moves
proof
  show "artifact_moves r r" for r by (simp add: artifact_moves_def)
  show "artifact_moves r t" if "artifact_moves r s" "artifact_moves s t" for r s t
    using that by (cases "ar_status r"; cases "ar_status s") (auto simp: artifact_moves_def)
  show "store_change artifact_ok artifact_moves (af_records s) (af_records (artifact_step s a))"
    if "store_inv artifact_ok (af_records s)" for s a
    using artifact_do_cases [OF that, of a] by (auto simp: artifact_step_def intro: store_change.same)
qed

abbreviation artifact_run :: "artifact_registry \<Rightarrow> artifact_op list \<Rightarrow> artifact_registry" where
  "artifact_run \<equiv> run_ops artifact_step"

lemma artifact_run_inv: "store_inv artifact_ok (af_records (artifact_run artifact_default ops))"
  by (rule artifact_store.run_inv) (simp add: artifact_default_def)

section \<open>Properties of the artifact registry\<close>

text \<open>
  After any sequence of operations on an empty registry \<open>validate\<close> succeeds, an operation that reports an error has changed
  nothing (the restoring branch of \<open>revoke\<close> is unreachable), and an artifact that \<open>is_valid\<close> reports was accepted
  for exactly this subject, is inside its retention interval now and was at its acceptance, and has three different roles.
\<close>

theorem artifact_registry_sound:
  assumes "reg = artifact_run artifact_default ops"
  shows "artifact_validate reg = Inr () \<and> (is_ok (fst (artifact_do reg a)) \<or> snd (artifact_do reg a) = reg) \<and>
    (artifact_is_valid reg aid subject now \<longrightarrow> (\<exists>r reviewer t. bt_get (af_records reg) aid = Some r \<and>
       am_artifact_id (ar_manifest r) = aid \<and> am_subject_digest (ar_manifest r) = subject \<and>
       am_retention_start (ar_manifest r) \<le> now \<and> now < am_retention_until (ar_manifest r) \<and>
       ar_accepted_at r = Some t \<and> am_retention_start (ar_manifest r) \<le> t \<and> t < am_retention_until (ar_manifest r) \<and>
       ar_revoked_at r = None \<and> ar_reviewer_id r = Some reviewer \<and>
       distinct [ar_operator_id r, ar_validator_id r, reviewer]))"
proof -
  have inv: "store_inv artifact_ok (af_records reg)" using artifact_run_inv assms by simp
  have v: "artifact_validate reg = Inr ()" using artifact_validate_iff inv by (simp add: store_inv_wf)
  have a: "is_ok (fst (artifact_do reg a)) \<or> snd (artifact_do reg a) = reg"
    using artifact_do_cases [OF inv, of a] by (auto simp: is_ok_def)
  have "\<exists>r reviewer t. bt_get (af_records reg) aid = Some r \<and>
       am_artifact_id (ar_manifest r) = aid \<and> am_subject_digest (ar_manifest r) = subject \<and>
       am_retention_start (ar_manifest r) \<le> now \<and> now < am_retention_until (ar_manifest r) \<and>
       ar_accepted_at r = Some t \<and> am_retention_start (ar_manifest r) \<le> t \<and> t < am_retention_until (ar_manifest r) \<and>
       ar_revoked_at r = None \<and> ar_reviewer_id r = Some reviewer \<and>
       distinct [ar_operator_id r, ar_validator_id r, reviewer]"
    if valid: "artifact_is_valid reg aid subject now"
  proof -
    obtain r where r: "bt_get (af_records reg) aid = Some r" using valid by (auto simp: artifact_is_valid_def split: option.splits)
    have "artifact_ok aid r" by (rule store_inv_get [OF inv r])
    then show ?thesis using valid r
      by (auto simp: artifact_ok_def artifact_record_validate_def artifact_is_valid_def accepted_check_def manifest_active_def
          validate_distinct_roles_def binds_subject_def try_r_eq_Inr ok_or_eq_Inr split: if_splits option.splits)
  qed
  then show ?thesis using v a by blast
qed

text \<open>
  Revocation is the end: once \<open>revoke\<close> succeeded, no sequence of operations makes the artifact valid again for any subject or
  time, changes its record, or lets it be accepted or revoked again.
\<close>

theorem artifact_revocation_final:
  assumes "artifact_revoke (artifact_run artifact_default ops) aid subject now = (Inr (), reg)"
  shows "\<not> artifact_is_valid (artifact_run reg ops') aid subject' t \<and>
    bt_get (af_records (artifact_run reg ops')) aid = bt_get (af_records reg) aid \<and>
    \<not> is_ok (fst (artifact_accept (artifact_run reg ops') aid subject' reviewer t)) \<and>
    \<not> is_ok (fst (artifact_revoke (artifact_run reg ops') aid subject' t))"
proof -
  let ?r0 = "artifact_run artifact_default ops"
  from artifact_run_inv [of ops] obtain r where r: "bt_get (af_records reg) aid = Some r" "ar_status r = AS_Revoked"
    using assms by (cases rule: artifact_revoke_cases [where aid = aid and subject = subject and now = now]) auto
  have reg: "reg = artifact_run ?r0 [AO_Revoke aid subject now]" using assms by (simp add: artifact_step_def)
  have inv: "store_inv artifact_ok (af_records reg)" unfolding reg by (rule artifact_store.run_inv [OF artifact_run_inv])
  obtain r' where r': "bt_get (af_records (artifact_run reg ops')) aid = Some r'" "artifact_moves r r'"
    by (rule artifact_store.run_keeps [OF inv r(1), of ops'])
  have "r' = r" using r'(2) r(2) by (simp add: artifact_moves_def)
  then show ?thesis
    using r r'(1) by (cases "validate_role reviewer ''reviewer''")
      (auto simp: artifact_is_valid_def artifact_accept_def artifact_revoke_def)
qed

text \<open>An artifact of the demonstration proposal.\<close>

definition demo_manifest :: artifact_manifest where
  "demo_manifest = \<lparr>am_artifact_id = ''a1'', am_subject_digest = zero_digest, am_source_digest = zero_digest,
     am_license = ''MIT'', am_provenance_digest = zero_digest, am_custody_root = ''root1'',
     am_retention_start = 10, am_retention_until = 1000\<rparr>"

definition demo_artifact :: artifact_record where
  "demo_artifact = \<lparr>ar_manifest = demo_manifest, ar_operator_id = ''op'', ar_validator_id = ''va'',
     ar_reviewer_id = Some ''re'', ar_status = AS_Accepted, ar_accepted_at = Some 50, ar_revoked_at = None\<rparr>"

abbreviation demo_artifact_ops :: "artifact_op list" where
  "demo_artifact_ops \<equiv> [AO_Quarantine demo_manifest ''op'' ''va'', AO_Accept ''a1'' zero_digest ''re'' 50]"

lemma demo_manifest_valid: "manifest_validate demo_manifest = Inr ()" by code_simp

lemma demo_roles: "validate_distinct_roles ''op'' ''va'' = Inr ()" "validate_role ''re'' ''reviewer'' = Inr ()"
  by code_simp+

lemma demo_artifact_run: "artifact_run artifact_default demo_artifact_ops = \<lparr>af_records = [(''a1'', demo_artifact)]\<rparr>"
  using demo_manifest_valid demo_roles
  by (simp add: artifact_step_def artifact_quarantine_def artifact_accept_def artifact_default_def bt_contains_def demo_artifact_def
      manifest_active_def binds_subject_def bt_modify_def) (simp add: demo_manifest_def)

lemma demo_artifact_valid: "artifact_is_valid \<lparr>af_records = [(''a1'', demo_artifact)]\<rparr> ''a1'' zero_digest 100"
  using demo_manifest_valid demo_roles
  by (simp add: artifact_is_valid_def demo_artifact_def manifest_active_def binds_subject_def) (simp add: demo_manifest_def)

theorem artifact_registry_sound_witness:
  "\<exists>r. bt_get (af_records (artifact_run artifact_default demo_artifact_ops)) ''a1'' = Some r \<and>
     am_subject_digest (ar_manifest r) = zero_digest \<and> ar_revoked_at r = None"
  using artifact_registry_sound [of _ demo_artifact_ops "AO_Revoke ''a2'' zero_digest 1" "''a1''" zero_digest 100, OF refl] demo_artifact_valid
  unfolding demo_artifact_run by blast

lemma demo_artifact_revoke:
  "artifact_revoke \<lparr>af_records = [(''a1'', demo_artifact)]\<rparr> ''a1'' zero_digest 60 =
     (Inr (), \<lparr>af_records = [(''a1'', demo_artifact\<lparr>ar_status := AS_Revoked, ar_revoked_at := Some 60\<rparr>)]\<rparr>)"
  by code_simp

theorem artifact_revocation_final_witness:
  "\<not> artifact_is_valid (artifact_run (snd (artifact_revoke (artifact_run artifact_default demo_artifact_ops) ''a1'' zero_digest 60))
     [AO_Accept ''a1'' zero_digest ''re'' 70]) ''a1'' zero_digest 100"
proof -
  have "artifact_revoke (artifact_run artifact_default demo_artifact_ops) ''a1'' zero_digest 60 =
     (Inr (), \<lparr>af_records = [(''a1'', demo_artifact\<lparr>ar_status := AS_Revoked, ar_revoked_at := Some 60\<rparr>)]\<rparr>)"
    unfolding demo_artifact_run by (rule demo_artifact_revoke)
  from artifact_revocation_final [OF this, THEN conjunct1] show ?thesis
    unfolding demo_artifact_run demo_artifact_revoke snd_conv .
qed

end
