(* ===== verification/Custody.thy ===== *)
theory Custody
  imports Encoding Record_Store
begin

unbundle bit_operations_syntax

text \<open>
  Custody roots and retention records of src/custody.rs: the registry of declared custody records, and the read-only
  check of a local artifact (\<open>verify_local_artifact\<close>).  The operating system is a parameter: descriptors, metadata,
  canonical paths and what a read returns are fields of the record \<open>os\<close>, and the checks the code makes on them are definitions.
\<close>

definition MAX_RAW_RETENTION_SECONDS :: u64 where
  "MAX_RAW_RETENTION_SECONDS = 72 * 60 * 60"

definition custody_text :: "string \<Rightarrow> nat \<Rightarrow> bool" where
  "custody_text value max_len \<longleftrightarrow> value \<noteq> [] \<and> length value \<le> max_len \<and> \<not> has_control value"

text \<open>The octal file modes of the code.\<close>

abbreviation mode_0700 :: u32 where "mode_0700 \<equiv> 0x1C0"
abbreviation mode_7777 :: u32 where "mode_7777 \<equiv> 0xFFF"
abbreviation mode_0077 :: u32 where "mode_0077 \<equiv> 0x3F"
abbreviation mode_7000 :: u32 where "mode_7000 \<equiv> 0xE00"
abbreviation mode_0500 :: u32 where "mode_0500 \<equiv> 0x140"
abbreviation mode_0400 :: u32 where "mode_0400 \<equiv> 0x100"

record custody_root =
  ct_root_id :: string
  ct_owner_id :: string
  ct_root_digest :: string
  ct_mode :: u32
  ct_external_to_repository :: bool
  ct_created_at :: u64
  ct_expires_at :: u64
  ct_raw_retention_until :: u64

definition custody_root_validate :: "custody_root \<Rightarrow> unit result" where
  "custody_root_validate c =
     (if \<not> custody_text (ct_root_id c) 128 \<or> \<not> custody_text (ct_owner_id c) 256 \<or> \<not> valid_digest (ct_root_digest c) \<or>
         ct_mode c \<noteq> mode_0700 \<or> \<not> ct_external_to_repository c \<or> ct_expires_at c \<le> ct_created_at c \<or>
         ct_raw_retention_until c < ct_created_at c \<or> ct_expires_at c < ct_raw_retention_until c \<or>
         MAX_RAW_RETENTION_SECONDS < ct_raw_retention_until c - ct_created_at c
      then Inl (Err_Invalid ''custody root declaration is malformed'') else Inr ())"

definition custody_active :: "custody_root \<Rightarrow> u64 \<Rightarrow> bool" where
  "custody_active c now \<longleftrightarrow> is_ok (custody_root_validate c) \<and> ct_created_at c \<le> now \<and> now < ct_expires_at c"

definition raw_retention_active :: "custody_root \<Rightarrow> u64 \<Rightarrow> bool" where
  "raw_retention_active c now \<longleftrightarrow>
     is_ok (custody_root_validate c) \<and> ct_created_at c \<le> now \<and> now < ct_raw_retention_until c"

datatype custody_status = CS_Active | CS_Deleted

record custody_record =
  cy_custody_id :: string
  cy_root :: custody_root
  cy_artifact_digest :: string
  cy_declared_by :: string
  cy_validator_id :: string
  cy_status :: custody_status
  cy_deleted_at :: "u64 option"

record custody_registry =
  cg_records :: "(string, custody_record) btree"

definition custody_default :: custody_registry where
  "custody_default = \<lparr>cg_records = []\<rparr>"

definition custody_validate_record :: "string \<Rightarrow> custody_record \<Rightarrow> unit result" where
  "custody_validate_record key r =
     (if key \<noteq> cy_custody_id r \<or> \<not> custody_text (cy_custody_id r) 128 \<or> \<not> valid_digest (cy_artifact_digest r) \<or>
         cy_declared_by r \<noteq> ct_owner_id (cy_root r) \<or> \<not> custody_text (cy_declared_by r) 256 \<or>
         \<not> custody_text (cy_validator_id r) 256 \<or> cy_declared_by r = cy_validator_id r
      then Inl (Err_Invalid ''custody record binding is malformed'')
      else try_r (custody_root_validate (cy_root r)) (\<lambda>_.
        case cy_status r of
          CS_Active \<Rightarrow>
            if cy_deleted_at r \<noteq> None then Inl (Err_Invalid ''active custody record cannot have a deletion time'') else Inr ()
        | CS_Deleted \<Rightarrow>
            try_r (ok_or (Err_Invalid ''deleted custody record lacks deletion time'') (cy_deleted_at r)) (\<lambda>deleted_at.
            if deleted_at < ct_created_at (cy_root r)
            then Inl (Err_Invalid ''custody deletion predates root creation'') else Inr ())))"

definition custody_validate :: "custody_registry \<Rightarrow> unit result" where
  "custody_validate reg = check_all (\<lambda>(key, r). custody_validate_record key r) (cg_records reg)"

definition custody_declare ::
  "custody_registry \<Rightarrow> string \<Rightarrow> custody_root \<Rightarrow> string \<Rightarrow> string \<Rightarrow> string \<Rightarrow> unit result \<times> custody_registry" where
  "custody_declare reg custody_id root artifact declared_by validator =
     (case custody_root_validate root of
        Inl e \<Rightarrow> (Inl e, reg)
      | Inr _ \<Rightarrow>
        let r = \<lparr>cy_custody_id = custody_id, cy_root = root, cy_artifact_digest = artifact, cy_declared_by = declared_by,
                 cy_validator_id = validator, cy_status = CS_Active, cy_deleted_at = None\<rparr>
        in case custody_validate_record (cy_custody_id r) r of
             Inl e \<Rightarrow> (Inl e, reg)
           | Inr _ \<Rightarrow>
             if bt_contains (cg_records reg) (cy_custody_id r)
             then (Inl (Err_Rejected ''custody identity already exists''), reg)
             else (Inr (), reg\<lparr>cg_records := bt_insert (cy_custody_id r) r (cg_records reg)\<rparr>))"

definition require_active :: "custody_registry \<Rightarrow> string \<Rightarrow> string \<Rightarrow> u64 \<Rightarrow> custody_record result" where
  "require_active reg custody_id artifact now =
     (if \<not> valid_digest artifact then Inl (Err_Invalid ''custody artifact digest is malformed'')
      else try_r (ok_or (Err_Quarantined ''custody record is unavailable'') (bt_get (cg_records reg) custody_id)) (\<lambda>r.
      if cy_status r \<noteq> CS_Active \<or> \<not> custody_active (cy_root r) now \<or> \<not> raw_retention_active (cy_root r) now \<or>
         cy_artifact_digest r \<noteq> artifact
      then Inl (Err_Rejected ''custody record is inactive, retention-expired, or digest-mismatched'')
      else Inr r))"

definition require_artifact :: "custody_registry \<Rightarrow> string \<Rightarrow> string \<Rightarrow> string \<Rightarrow> u64 \<Rightarrow> custody_record result" where
  "require_artifact reg custody_id root_id artifact now =
     try_r (require_active reg custody_id artifact now) (\<lambda>r.
     if ct_root_id (cy_root r) \<noteq> root_id then Inl (Err_Rejected ''custody root binding mismatch'') else Inr r)"

definition mark_deleted :: "custody_registry \<Rightarrow> string \<Rightarrow> string \<Rightarrow> u64 \<Rightarrow> unit result \<times> custody_registry" where
  "mark_deleted reg custody_id owner now =
     (case bt_get (cg_records reg) custody_id of
        None \<Rightarrow> (Inl (Err_Invalid ''custody record is unavailable''), reg)
      | Some r \<Rightarrow>
        if cy_status r \<noteq> CS_Active then (Inl (Err_Rejected ''custody record is already deleted''), reg)
        else if owner \<noteq> ct_owner_id (cy_root r)
        then (Inl (Err_Rejected ''only the declared owner may delete custody''), reg)
        else if now < ct_created_at (cy_root r)
        then (Inl (Err_Rejected ''custody deletion time is before creation''), reg)
        else (Inr (), reg\<lparr>cg_records := bt_modify custody_id
               (\<lambda>r. r\<lparr>cy_status := CS_Deleted, cy_deleted_at := Some now\<rparr>) (cg_records reg)\<rparr>))"

section \<open>The local artifact check\<close>

datatype path_component = PC_Prefix | PC_RootDir | PC_CurDir | PC_ParentDir | PC_Normal string

type_synonym os_path = "path_component list"

record local_custody_paths =
  lp_root_path :: os_path
  lp_repository_root :: os_path
  lp_artifact_relative_path :: os_path
  lp_max_bytes :: u64

datatype file_kind = FK_File | FK_Directory | FK_Symlink | FK_Other

record file_metadata =
  fm_kind :: file_kind
  fm_uid :: u32
  fm_mode :: u32
  fm_len :: u64
  fm_nlink :: u64
  fm_dev :: u64
  fm_ino :: u64
  fm_ctime :: int
  fm_ctime_nsec :: int
  fm_mtime :: int
  fm_mtime_nsec :: int

text \<open>
  An open file: the two \<open>fstat\<close> calls of the check and the answer of its i-th \<open>read\<close> to a request for so many bytes.
  A \<open>read\<close> fills at most the buffer it is given.
\<close>

record open_file =
  of_metadata :: "file_metadata result"
  of_read :: "nat \<Rightarrow> nat \<Rightarrow> u8 list result"
  of_final_metadata :: "file_metadata result"

record os =
  os_euid :: u32
  os_symlink_metadata :: "os_path \<Rightarrow> file_metadata result"
  os_canonicalize :: "os_path \<Rightarrow> os_path result"
  os_metadata :: "os_path \<Rightarrow> file_metadata result"
  os_open_root :: "nat result"
  os_openat_dir :: "nat \<Rightarrow> string \<Rightarrow> nat option"
  os_fstat :: "nat \<Rightarrow> file_metadata result"
  os_openat_file :: "nat \<Rightarrow> string \<Rightarrow> open_file option"

definition local_custody_rejection :: "string \<Rightarrow> error" where
  "local_custody_rejection message = Err_Rejected (''local custody verification failed: '' @ message)"

definition verify_local_directory_metadata :: "file_metadata \<Rightarrow> u32 \<Rightarrow> bool \<Rightarrow> unit result" where
  "verify_local_directory_metadata md uid root =
     (if fm_kind md \<noteq> FK_Directory \<or> fm_uid md \<noteq> uid
      then Inl (local_custody_rejection ''custody directory type or owner UID is invalid'')
      else let mode = fm_mode md AND mode_7777;
               private_directory = (mode AND mode_0077 = 0 \<and> mode AND mode_7000 = 0 \<and> mode AND mode_0500 = mode_0500)
           in if (root \<and> mode \<noteq> mode_0700) \<or> (\<not> root \<and> \<not> private_directory)
              then Inl (local_custody_rejection ''custody directory permissions are not private'') else Inr ())"

definition verify_local_file_metadata :: "file_metadata \<Rightarrow> u32 \<Rightarrow> unit result" where
  "verify_local_file_metadata md uid =
     (let mode = fm_mode md AND mode_7777
      in if fm_kind md \<noteq> FK_File \<or> fm_uid md \<noteq> uid \<or> mode AND mode_0400 = 0 \<or> mode AND mode_0077 \<noteq> 0 \<or>
            mode AND mode_7000 \<noteq> 0
         then Inl (local_custody_rejection ''artifact type, owner UID, or permissions are invalid'') else Inr ())"

definition open_directory_at :: "os \<Rightarrow> nat \<Rightarrow> string \<Rightarrow> nat result" where
  "open_directory_at os parent name =
     ok_or (local_custody_rejection ''directory component could not be opened safely'') (os_openat_dir os parent name)"

fun open_components :: "os \<Rightarrow> nat \<Rightarrow> os_path \<Rightarrow> nat result" where
  "open_components os current [] = Inr current"
| "open_components os current (PC_RootDir # cs) = open_components os current cs"
| "open_components os current (PC_Normal name # cs) =
     try_r (open_directory_at os current name) (\<lambda>d. open_components os d cs)"
| "open_components os current (_ # cs) = Inl (local_custody_rejection ''canonical directory path is not normalized'')"

definition open_directory_path_no_symlinks :: "os \<Rightarrow> os_path \<Rightarrow> nat result" where
  "open_directory_path_no_symlinks os p = try_r (os_open_root os) (\<lambda>root. open_components os root p)"

definition local_file_fingerprint ::
  "file_metadata \<Rightarrow> u64 \<times> u64 \<times> u32 \<times> u32 \<times> u64 \<times> int \<times> int \<times> int \<times> int" where
  "local_file_fingerprint md = (fm_dev md, fm_ino md, fm_uid md, fm_mode md, fm_nlink md,
     fm_ctime md, fm_ctime_nsec md, fm_mtime md, fm_mtime_nsec md)"

definition READ_BUFFER :: nat where
  "READ_BUFFER = 16 * 1024"

text \<open>
  The read loop: \<open>limit\<close> is what the \<open>take\<close> adapter still lets through, \<open>n\<close> the bytes counted and \<open>acc\<close> the bytes hashed.
\<close>

function read_loop ::
  "(nat \<Rightarrow> nat \<Rightarrow> u8 list result) \<Rightarrow> u64 \<Rightarrow> nat \<Rightarrow> nat \<Rightarrow> u64 \<Rightarrow> u8 list \<Rightarrow> (u64 \<times> u8 list) result" where
  "read_loop rd max_bytes i limit n acc =
     (if limit = 0 then Inr (n, acc)
      else case rd i (min READ_BUFFER limit) of
        Inl e \<Rightarrow> Inl e
      | Inr got \<Rightarrow>
        let chunk = take (min READ_BUFFER limit) got
        in if chunk = [] then Inr (n, acc)
           else case checked_add n (of_nat (length chunk)) of
             None \<Rightarrow> Inl (local_custody_rejection ''artifact size overflow'')
           | Some n' \<Rightarrow>
             if max_bytes < n' then Inl (local_custody_rejection ''artifact exceeds the declared byte limit'')
             else read_loop rd max_bytes (Suc i) (limit - length chunk) n' (acc @ chunk))"
  by pat_completeness auto
termination
  by (relation "measure (\<lambda>(rd, max_bytes, i, limit, n, acc). limit)") (auto simp: Let_def)

declare read_loop.simps [simp del]

definition verify_open_local_artifact :: "crypto \<Rightarrow> open_file \<Rightarrow> u64 \<Rightarrow> string \<Rightarrow> u32 \<Rightarrow> unit result" where
  "verify_open_local_artifact env file max_bytes expected uid =
     try_r (of_metadata file) (\<lambda>opened.
     try_r (verify_local_file_metadata opened uid) (\<lambda>_.
     if max_bytes < fm_len opened then Inl (local_custody_rejection ''artifact exceeds the declared byte limit'')
     else if fm_nlink opened \<noteq> 1 then Inl (local_custody_rejection ''artifact has multiple hard links'')
     else try_r (read_loop (of_read file) max_bytes 0 (unat (saturating_add max_bytes 1)) 0 []) (\<lambda>(bytes_read, bytes).
     try_r (of_final_metadata file) (\<lambda>final.
     if bytes_read \<noteq> fm_len opened \<or> fm_len final \<noteq> fm_len opened \<or>
        local_file_fingerprint final \<noteq> local_file_fingerprint opened
     then Inl (local_custody_rejection ''artifact changed while it was read'')
     else if digest_bytes env bytes \<noteq> expected then Inl (local_custody_rejection ''artifact digest mismatch'')
     else Inr ()))))"

definition MAX_LOCAL_ARTIFACT_COMPONENTS :: nat where
  "MAX_LOCAL_ARTIFACT_COMPONENTS = 128"

fun is_normal :: "path_component \<Rightarrow> bool" where
  "is_normal (PC_Normal _) = True"
| "is_normal _ = False"

text \<open>Descending to the directory of the artifact, with the check of every directory on the way.\<close>

fun descend :: "os \<Rightarrow> nat \<Rightarrow> os_path \<Rightarrow> nat result" where
  "descend os dir [] = Inr dir"
| "descend os dir (PC_Normal name # cs) =
     try_r (open_directory_at os dir name) (\<lambda>d.
     try_r (os_fstat os d) (\<lambda>md.
     try_r (verify_local_directory_metadata md (os_euid os) False) (\<lambda>_. descend os d cs)))"
| "descend os dir (_ # cs) = Inl (local_custody_rejection ''artifact path is not normalized'')"

definition path_starts_with :: "os_path \<Rightarrow> os_path \<Rightarrow> bool" where
  "path_starts_with p q \<longleftrightarrow> take (length q) p = q"

definition open_artifact :: "os \<Rightarrow> nat \<Rightarrow> os_path \<Rightarrow> open_file result" where
  "open_artifact os dir components =
     (case last components of
        PC_Normal name \<Rightarrow> ok_or (local_custody_rejection ''artifact file could not be opened safely'') (os_openat_file os dir name)
      | _ \<Rightarrow> Inl (local_custody_rejection ''artifact path is not normalized''))"

definition verify_local_paths :: "crypto \<Rightarrow> os \<Rightarrow> local_custody_paths \<Rightarrow> string \<Rightarrow> unit result" where
  "verify_local_paths env os paths expected =
     (if lp_max_bytes paths = 0 then Inl (local_custody_rejection ''byte limit must be positive'')
      else let components = lp_artifact_relative_path paths
      in if components = [] \<or> MAX_LOCAL_ARTIFACT_COMPONENTS < length components \<or> \<not> list_all is_normal components
      then Inl (local_custody_rejection ''artifact path must contain only normal relative components'')
      else try_r (os_symlink_metadata os (lp_root_path paths)) (\<lambda>root_md.
      if fm_kind root_md \<noteq> FK_Directory then Inl (local_custody_rejection ''custody root is not a real directory'')
      else try_r (os_canonicalize os (lp_root_path paths)) (\<lambda>root.
      try_r (os_canonicalize os (lp_repository_root paths)) (\<lambda>repo.
      try_r (os_metadata os repo) (\<lambda>repo_md.
      if fm_kind repo_md \<noteq> FK_Directory then Inl (local_custody_rejection ''repository anchor is not a directory'')
      else if path_starts_with root repo \<or> path_starts_with repo root
      then Inl (local_custody_rejection ''custody root overlaps the repository anchor'')
      else try_r (open_directory_path_no_symlinks os root) (\<lambda>dir.
      try_r (os_fstat os dir) (\<lambda>md.
      try_r (verify_local_directory_metadata md (os_euid os) True) (\<lambda>_.
      try_r (descend os dir (butlast components)) (\<lambda>d.
      try_r (open_artifact os d components) (\<lambda>file.
      verify_open_local_artifact env file (lp_max_bytes paths) expected (os_euid os)))))))))))"

definition verify_local_artifact ::
  "crypto \<Rightarrow> os \<Rightarrow> custody_registry \<Rightarrow> string \<Rightarrow> string \<Rightarrow> string \<Rightarrow> u64 \<Rightarrow> local_custody_paths \<Rightarrow> custody_record result" where
  "verify_local_artifact env os reg custody_id root_id artifact now paths =
     try_r (require_artifact reg custody_id root_id artifact now) (\<lambda>r.
     try_r (verify_local_paths env os paths artifact) (\<lambda>_. Inr r))"

section \<open>The read loop\<close>

text \<open>
  A reader that answers from a list of chunks, the end of the file after the last one.  (A read for fewer bytes than the next
  chunk holds is answered with its beginning; the loop stops there.)
\<close>

definition serves :: "(nat \<Rightarrow> nat \<Rightarrow> u8 list result) \<Rightarrow> u8 list list \<Rightarrow> bool" where
  "serves rd cs \<longleftrightarrow> (\<forall>i<length cs. \<forall>n. rd i n = Inr (take n (cs ! i))) \<and> (\<forall>n. rd (length cs) n = Inr [])"

definition chunks_ok :: "u8 list list \<Rightarrow> bool" where
  "chunks_ok cs \<longleftrightarrow> (\<forall>c\<in>set cs. c \<noteq> [] \<and> length c \<le> READ_BUFFER) \<and> length (concat cs) < 2 ^ 64"

lemma read_loop_step:
  assumes "limit \<noteq> 0" and "rd i (min READ_BUFFER limit) = Inr got" and "take (min READ_BUFFER limit) got = chunk"
    and "chunk \<noteq> []" and "checked_add n (of_nat (length chunk)) = Some n'"
  shows "read_loop rd mx i limit n acc =
    (if mx < n' then Inl (local_custody_rejection ''artifact exceeds the declared byte limit'')
     else read_loop rd mx (Suc i) (limit - length chunk) n' (acc @ chunk))"
  using assms by (subst read_loop.simps) (simp add: Let_def)

lemma read_loop_serves:
  assumes "serves rd (pre @ rest)" and "chunks_ok (pre @ rest)" and "length (concat pre) \<le> unat mx"
  shows "read_loop rd mx (length pre) (unat (saturating_add mx 1) - length (concat pre)) (of_nat (length (concat pre))) (concat pre) =
    (if length (concat (pre @ rest)) \<le> unat mx
     then Inr (of_nat (length (concat (pre @ rest))), concat (pre @ rest))
     else Inl (local_custody_rejection ''artifact exceeds the declared byte limit''))"
  using assms
proof (induction rest arbitrary: pre)
  case Nil
  then have "rd (length pre) n = Inr []" for n by (simp add: serves_def)
  then show ?case using Nil.prems(3) by (subst read_loop.simps) simp
next
  case (Cons c rest)
  let ?p = "length (concat pre)" and ?limit = "unat (saturating_add mx 1) - length (concat pre)"
  have sat: "unat (saturating_add mx 1) = min (unat mx + 1) (2 ^ 64 - 1)"
    by (simp add: unat_saturating_add)
  have c: "c \<noteq> []" "length c \<le> READ_BUFFER" "?p + length c < 2 ^ 64"
    using Cons.prems(2) by (auto simp: chunks_ok_def)
  have mx: "unat mx < 2 ^ 64" using unsigned_less [of mx, where 'a = nat] by simp
  have "1 \<le> length c" using c(1) by (simp add: Suc_le_eq)
  then have pos: "?limit \<noteq> 0" using c(3) Cons.prems(3) sat mx by linarith
  have rd: "rd (length pre) n = Inr (take n c)" for n using Cons.prems(1) by (simp add: serves_def nth_append)
  have chunk: "take (min READ_BUFFER ?limit) (take (min READ_BUFFER ?limit) c) = take ?limit c" using c(2) by (simp add: min_def)
  have up: "unat (of_nat ?p :: u64) = ?p" using Cons.prems(3) mx by (simp add: unat_of_nat_u64)
  show ?case
  proof (cases "?p + length c \<le> unat mx")
    case True
    then have "take ?limit c = c" using sat mx by simp
    then have chunk': "take (min READ_BUFFER ?limit) (take (min READ_BUFFER ?limit) c) = c" using chunk by simp
    have "checked_add (of_nat ?p) (of_nat (length c)) = Some (of_nat (?p + length c) :: u64)"
      using up True mx by (simp add: checked_add_def unat_of_nat_u64)
    note step = read_loop_step [of ?limit rd "length pre" "take (min READ_BUFFER ?limit) c", OF pos rd chunk' c(1) this, of mx "concat pre"]
    have "unat (of_nat (?p + length c) :: u64) = ?p + length c" by (rule unat_of_nat_u64) (fact c(3))
    then have "\<not> mx < of_nat (?p + length c)" using True unfolding word_less_nat_alt by linarith
    then have "read_loop rd mx (length pre) ?limit (of_nat ?p) (concat pre) =
        read_loop rd mx (length (pre @ [c])) (unat (saturating_add mx 1) - length (concat (pre @ [c])))
          (of_nat (length (concat (pre @ [c])))) (concat (pre @ [c]))"
      using step by simp
    then show ?thesis using Cons.IH [of "pre @ [c]"] Cons.prems True by simp
  next
    case False
    then have lim: "?limit = unat mx + 1 - ?p" "length (take ?limit c) = ?limit" using sat c(3) Cons.prems(3) by auto
    have sum: "?p + ?limit = unat mx + 1" "unat mx + 1 < 2 ^ 64" using lim Cons.prems(3) False c(3) by auto
    have ul: "unat (of_nat ?limit :: u64) = ?limit" using sum by (simp add: unat_of_nat_u64)
    have "checked_add (of_nat ?p) (of_nat (length (take ?limit c))) = Some (of_nat (unat mx + 1) :: u64)"
      unfolding lim(2) using up ul sum by (simp add: checked_add_def flip: of_nat_add)
    moreover have "mx < of_nat (unat mx + 1)" using sum(2) by (simp only: word_less_nat_alt unat_of_nat_u64)
    moreover have "take ?limit c \<noteq> []" using pos c(1) by simp
    ultimately have "read_loop rd mx (length pre) ?limit (of_nat ?p) (concat pre) =
        Inl (local_custody_rejection ''artifact exceeds the declared byte limit'')"
      using read_loop_step [of ?limit rd "length pre" "take (min READ_BUFFER ?limit) c", OF pos rd chunk, of "of_nat ?p" "of_nat (unat mx + 1)" mx "concat pre"] by simp
    then show ?thesis using False by simp
  qed
qed

lemma read_loop_counts:
  "read_loop rd mx i limit n acc = Inr (n', bytes) \<Longrightarrow> unat n = length acc \<Longrightarrow> n \<le> mx \<Longrightarrow>
     unat n' = length bytes \<and> n' \<le> mx"
proof (induction rd mx i limit n acc rule: read_loop.induct)
  case (1 rd mx i limit n acc)
  note eq = "1.prems"(1) [unfolded read_loop.simps [of rd mx i limit n acc]]
  show ?case
  proof (cases "limit = 0")
    case True
    then show ?thesis using eq "1.prems" by simp
  next
    case pos: False
    then obtain got where got: "rd i (min READ_BUFFER limit) = Inr got" using eq by (auto split: sum.splits)
    let ?chunk = "take (min READ_BUFFER limit) got"
    show ?thesis
    proof (cases "?chunk = []")
      case True
      then show ?thesis using eq "1.prems" pos got by simp
    next
      case ne: False
      obtain m where m: "checked_add n (of_nat (length ?chunk)) = Some m"
        using eq pos got ne by (cases "checked_add n (of_nat (length ?chunk))") (simp_all add: Let_def del: length_take take_eq_Nil)
      note step = read_loop_step [of limit rd i got, OF pos got refl ne m, of mx acc]
      have le: "\<not> mx < m" using step "1.prems"(1) by auto
      have "length ?chunk \<le> READ_BUFFER" by simp
      then have "unat (of_nat (length ?chunk) :: u64) = length ?chunk" by (intro unat_of_nat_u64) (simp add: READ_BUFFER_def)
      then have "unat m = length (acc @ ?chunk)" using m "1.prems"(2) by (simp add: checked_add_eq_Some)
      then show ?thesis using "1.IH" [OF pos got refl ne m le] step le "1.prems"(1) by simp
    qed
  qed
qed

text \<open>The bytes of a reader's first reads, in order, each cut to what was asked for.\<close>

definition delivered :: "(nat \<Rightarrow> nat \<Rightarrow> u8 list result) \<Rightarrow> nat \<Rightarrow> u8 list \<Rightarrow> bool" where
  "delivered rd i bytes \<longleftrightarrow> (\<exists>cs. bytes = concat cs \<and>
     (\<forall>j<length cs. \<exists>n got. rd (i + j) n = Inr got \<and> cs ! j = take n got))"

lemma delivered_Nil: "delivered rd i []"
  unfolding delivered_def by (rule exI [where x = "[]"]) simp

lemma delivered_Cons:
  assumes "rd i n = Inr got" and "delivered rd (Suc i) bytes"
  shows "delivered rd i (take n got @ bytes)"
proof -
  obtain cs where cs: "bytes = concat cs" "\<forall>j<length cs. \<exists>n got. rd (Suc i + j) n = Inr got \<and> cs ! j = take n got"
    using assms(2) unfolding delivered_def by blast
  have "\<exists>n' got'. rd (i + j) n' = Inr got' \<and> (take n got # cs) ! j = take n' got'" if "j < length (take n got # cs)" for j
    using that assms(1) cs(2) by (cases j) auto
  then show ?thesis unfolding delivered_def by (intro exI [where x = "take n got # cs"]) (auto simp: cs(1))
qed

lemma read_loop_delivers:
  "read_loop rd mx i limit n acc = Inr (n', bytes) \<Longrightarrow> \<exists>bs. bytes = acc @ bs \<and> delivered rd i bs"
proof (induction rd mx i limit n acc rule: read_loop.induct)
  case (1 rd mx i limit n acc)
  note eq = "1.prems" [unfolded read_loop.simps [of rd mx i limit n acc]]
  show ?case
  proof (cases "limit = 0")
    case True
    then show ?thesis using eq delivered_Nil by auto
  next
    case pos: False
    then obtain got where got: "rd i (min READ_BUFFER limit) = Inr got" using eq by (auto split: sum.splits)
    let ?chunk = "take (min READ_BUFFER limit) got"
    show ?thesis
    proof (cases "?chunk = []")
      case True
      then show ?thesis using eq pos got delivered_Nil by auto
    next
      case ne: False
      obtain m where m: "checked_add n (of_nat (length ?chunk)) = Some m"
        using eq pos got ne by (cases "checked_add n (of_nat (length ?chunk))") (simp_all add: Let_def del: length_take take_eq_Nil)
      note step = read_loop_step [of limit rd i got, OF pos got refl ne m, of mx acc]
      have le: "\<not> mx < m" using step "1.prems" by auto
      then obtain bs where "bytes = (acc @ ?chunk) @ bs" "delivered rd (Suc i) bs"
        using "1.IH" [OF pos got refl ne m le] step "1.prems" by auto
      then show ?thesis using delivered_Cons [of rd i "min READ_BUFFER limit" got, OF got] by auto
    qed
  qed
qed

section \<open>The registry as a record store\<close>

definition custody_ok :: "string \<Rightarrow> custody_record \<Rightarrow> bool" where
  "custody_ok key r \<longleftrightarrow> custody_validate_record key r = Inr ()"

definition custody_moves :: "custody_record \<Rightarrow> custody_record \<Rightarrow> bool" where
  "custody_moves r r' \<longleftrightarrow> cy_custody_id r' = cy_custody_id r \<and> cy_root r' = cy_root r \<and>
     cy_artifact_digest r' = cy_artifact_digest r \<and> cy_declared_by r' = cy_declared_by r \<and>
     cy_validator_id r' = cy_validator_id r \<and> (cy_status r = CS_Deleted \<longrightarrow> r' = r)"

lemma custody_validate_iff:
  "bt_wf (cg_records reg) \<Longrightarrow> custody_validate reg = Inr () \<longleftrightarrow> store_inv custody_ok (cg_records reg)"
  unfolding custody_validate_def by (rule store_inv_check) (simp_all add: custody_ok_def)

datatype custody_op =
    CD_Declare string custody_root string string string
  | CD_Delete string string u64

fun custody_do :: "custody_registry \<Rightarrow> custody_op \<Rightarrow> unit result \<times> custody_registry" where
  "custody_do reg (CD_Declare cid root artifact owner validator) = custody_declare reg cid root artifact owner validator"
| "custody_do reg (CD_Delete cid owner now) = mark_deleted reg cid owner now"

definition custody_step :: "custody_registry \<Rightarrow> custody_op \<Rightarrow> custody_registry" where
  "custody_step reg a = snd (custody_do reg a)"

lemma custody_declare_cases:
  obtains (fails) e where "custody_declare reg cid root artifact owner validator = (Inl e, reg)"
  | (succeeds) r where "bt_get (cg_records reg) cid = None" "custody_ok cid r"
      "custody_declare reg cid root artifact owner validator = (Inr (), reg\<lparr>cg_records := bt_insert cid r (cg_records reg)\<rparr>)"
proof -
  let ?r = "\<lparr>cy_custody_id = cid, cy_root = root, cy_artifact_digest = artifact, cy_declared_by = owner,
    cy_validator_id = validator, cy_status = CS_Active, cy_deleted_at = None\<rparr>"
  show thesis
    by (cases "custody_root_validate root"; cases "custody_validate_record cid ?r"; cases "bt_contains (cg_records reg) cid")
      (use fails succeeds [of ?r] in \<open>auto simp: custody_declare_def custody_ok_def bt_contains_def Let_def\<close>)
qed

lemma mark_deleted_cases:
  assumes "store_inv custody_ok (cg_records reg)"
  obtains (fails) e where "mark_deleted reg cid owner now = (Inl e, reg)"
  | (succeeds) r where "bt_get (cg_records reg) cid = Some r" "cy_status r = CS_Active" "owner = ct_owner_id (cy_root r)"
      "custody_ok cid (r\<lparr>cy_status := CS_Deleted, cy_deleted_at := Some now\<rparr>)"
      "mark_deleted reg cid owner now = (Inr (), reg\<lparr>cg_records := bt_modify cid
         (\<lambda>r. r\<lparr>cy_status := CS_Deleted, cy_deleted_at := Some now\<rparr>) (cg_records reg)\<rparr>)"
proof (cases "\<exists>r. bt_get (cg_records reg) cid = Some r \<and> cy_status r = CS_Active \<and> owner = ct_owner_id (cy_root r) \<and>
    \<not> now < ct_created_at (cy_root r)")
  case True
  then obtain r where r: "bt_get (cg_records reg) cid = Some r" "cy_status r = CS_Active" "owner = ct_owner_id (cy_root r)"
    "\<not> now < ct_created_at (cy_root r)" by blast
  have "custody_ok cid (r\<lparr>cy_status := CS_Deleted, cy_deleted_at := Some now\<rparr>)"
    using store_inv_get [OF assms r(1)] r by (auto simp: custody_ok_def custody_validate_record_def try_r_eq_Inr split: if_splits)
  then show thesis using r by (intro succeeds [of r]) (simp_all add: mark_deleted_def)
next
  case False
  then have "\<exists>e. mark_deleted reg cid owner now = (Inl e, reg)"
    by (cases "bt_get (cg_records reg) cid") (auto simp: mark_deleted_def)
  then show thesis using fails by blast
qed

lemma custody_do_cases:
  assumes "store_inv custody_ok (cg_records reg)"
  shows "(\<exists>e. custody_do reg a = (Inl e, reg)) \<or>
    fst (custody_do reg a) = Inr () \<and> store_change custody_ok custody_moves (cg_records reg) (cg_records (custody_step reg a))"
proof (cases a)
  case (CD_Declare cid root artifact owner validator)
  show ?thesis
    by (cases rule: custody_declare_cases [of reg cid root artifact owner validator])
      (auto simp: CD_Declare custody_step_def intro: store_change.insert)
next
  case (CD_Delete cid owner now)
  from assms show ?thesis
    by (cases rule: mark_deleted_cases [where cid = cid and owner = owner and now = now])
      (auto simp: CD_Delete custody_step_def custody_moves_def intro!: store_change.update)
qed

interpretation custody_store: record_store custody_step cg_records custody_ok custody_moves
proof
  show "custody_moves r r" for r :: custody_record by (cases r) (auto simp: custody_moves_def)
  show "custody_moves r t" if "custody_moves r s" "custody_moves s t" for r s t :: custody_record
    using that by (auto simp: custody_moves_def)
  show "store_change custody_ok custody_moves (cg_records s) (cg_records (custody_step s a))"
    if "store_inv custody_ok (cg_records s)" for s a
    using custody_do_cases [OF that, of a] by (auto simp: custody_step_def intro: store_change.same)
qed

abbreviation custody_run :: "custody_registry \<Rightarrow> custody_op list \<Rightarrow> custody_registry" where
  "custody_run \<equiv> run_ops custody_step"

lemma custody_run_inv: "store_inv custody_ok (cg_records (custody_run custody_default ops))"
  by (rule custody_store.run_inv) (simp add: custody_default_def)

lemma require_artifact_Inr:
  "require_artifact reg cid root_id artifact now = Inr r \<longleftrightarrow>
     valid_digest artifact \<and> bt_get (cg_records reg) cid = Some r \<and> cy_status r = CS_Active \<and> custody_active (cy_root r) now \<and>
     raw_retention_active (cy_root r) now \<and> cy_artifact_digest r = artifact \<and> ct_root_id (cy_root r) = root_id"
  by (auto simp: require_artifact_def require_active_def try_r_eq_Inr ok_or_eq_Inr split: if_splits)

section \<open>Properties of custody\<close>

text \<open>
  After any sequence of operations on an empty registry \<open>validate\<close> succeeds and an operation that reports an error has changed
  nothing; and raw data is never released for long: when \<open>require_artifact\<close> answers with a record, it was declared by its owner
  together with a different validator, is not deleted, and less than 72 hours have passed since its root was created, without wrap-around.
\<close>

theorem custody_bounds_retention:
  assumes "reg = custody_run custody_default ops"
  shows "custody_validate reg = Inr () \<and> (is_ok (fst (custody_do reg a)) \<or> snd (custody_do reg a) = reg) \<and>
    (\<forall>r. require_artifact reg cid root_id artifact now = Inr r \<longrightarrow>
       cy_custody_id r = cid \<and> ct_root_id (cy_root r) = root_id \<and> cy_artifact_digest r = artifact \<and>
       cy_declared_by r = ct_owner_id (cy_root r) \<and> cy_validator_id r \<noteq> ct_owner_id (cy_root r) \<and> cy_deleted_at r = None \<and>
       unat (ct_created_at (cy_root r)) \<le> unat now \<and> unat now < unat (ct_created_at (cy_root r)) + 72 * 60 * 60)"
proof -
  have inv: "store_inv custody_ok (cg_records reg)" using custody_run_inv assms by simp
  have v: "custody_validate reg = Inr ()" using custody_validate_iff inv by (simp add: store_inv_wf)
  have a: "is_ok (fst (custody_do reg a)) \<or> snd (custody_do reg a) = reg"
    using custody_do_cases [OF inv, of a] by (auto simp: is_ok_def)
  have "cy_custody_id r = cid \<and> ct_root_id (cy_root r) = root_id \<and> cy_artifact_digest r = artifact \<and>
       cy_declared_by r = ct_owner_id (cy_root r) \<and> cy_validator_id r \<noteq> ct_owner_id (cy_root r) \<and> cy_deleted_at r = None \<and>
       unat (ct_created_at (cy_root r)) \<le> unat now \<and> unat now < unat (ct_created_at (cy_root r)) + 72 * 60 * 60"
    if req: "require_artifact reg cid root_id artifact now = Inr r" for r
  proof -
    note q = req [unfolded require_artifact_Inr]
    let ?c = "cy_root r"
    have "custody_ok cid r" using store_inv_get [OF inv] q by blast
    then have rec: "cy_custody_id r = cid" "cy_declared_by r = ct_owner_id ?c" "cy_validator_id r \<noteq> ct_owner_id ?c" "cy_deleted_at r = None"
      using q by (auto simp: custody_ok_def custody_validate_record_def try_r_eq_Inr split: if_splits)
    have c: "ct_created_at ?c \<le> ct_raw_retention_until ?c" "ct_raw_retention_until ?c - ct_created_at ?c \<le> MAX_RAW_RETENTION_SECONDS"
      "ct_created_at ?c \<le> now" "now < ct_raw_retention_until ?c"
      using q by (auto simp: raw_retention_active_def custody_root_validate_def is_ok_def not_less split: if_splits)
    have "unat (ct_raw_retention_until ?c - ct_created_at ?c) = unat (ct_raw_retention_until ?c) - unat (ct_created_at ?c)"
      using c(1) by (simp add: unat_sub_if_size word_le_nat_alt)
    moreover have "unat (ct_raw_retention_until ?c - ct_created_at ?c) \<le> 72 * 60 * 60"
      using c(2) by (simp add: word_le_nat_alt MAX_RAW_RETENTION_SECONDS_def)
    ultimately show ?thesis using rec q c(3,4) by (auto simp: word_le_nat_alt word_less_nat_alt)
  qed
  then show ?thesis using v a by blast
qed

text \<open>
  Deletion is the end: only the declared owner can delete a record, and afterwards no sequence of operations releases it again.
\<close>

theorem custody_deletion_final:
  assumes "mark_deleted (custody_run custody_default ops) cid owner now = (Inr (), reg)"
  shows "(\<exists>r. bt_get (cg_records (custody_run custody_default ops)) cid = Some r \<and> owner = ct_owner_id (cy_root r)) \<and>
    \<not> is_ok (require_active (custody_run reg ops') cid artifact t) \<and>
    \<not> is_ok (fst (mark_deleted (custody_run reg ops') cid owner' t))"
proof -
  let ?r0 = "custody_run custody_default ops"
  from custody_run_inv [of ops] obtain r r0 where r: "bt_get (cg_records reg) cid = Some r" "cy_status r = CS_Deleted"
      "bt_get (cg_records ?r0) cid = Some r0" "owner = ct_owner_id (cy_root r0)"
    using assms by (cases rule: mark_deleted_cases [where cid = cid and owner = owner and now = now]) auto
  have reg: "reg = custody_run ?r0 [CD_Delete cid owner now]" using assms by (simp add: custody_step_def)
  have inv: "store_inv custody_ok (cg_records reg)" unfolding reg by (rule custody_store.run_inv [OF custody_run_inv])
  obtain r' where r': "bt_get (cg_records (custody_run reg ops')) cid = Some r'" "custody_moves r r'"
    by (rule custody_store.run_keeps [OF inv r(1), of ops'])
  have "r' = r" using r'(2) r(2) by (simp add: custody_moves_def)
  then show ?thesis using r r'(1) by (auto simp: require_active_def mark_deleted_def)
qed

lemma verify_open_iff:
  assumes "of_metadata file = Inr md" and "of_final_metadata file = Inr md" and "serves (of_read file) cs" and "chunks_ok cs"
  shows "verify_open_local_artifact env file mx expected uid = Inr () \<longleftrightarrow>
    verify_local_file_metadata md uid = Inr () \<and> fm_nlink md = 1 \<and> unat (fm_len md) = length (concat cs) \<and>
    length (concat cs) \<le> unat mx \<and> digest_bytes env (concat cs) = expected"
proof -
  have loop: "read_loop (of_read file) mx 0 (unat (saturating_add mx 1)) 0 [] =
      (if length (concat cs) \<le> unat mx then Inr (of_nat (length (concat cs)), concat cs)
       else Inl (local_custody_rejection ''artifact exceeds the declared byte limit''))"
    using read_loop_serves [of "of_read file" "[]" cs mx] assms(3,4) by simp
  have u: "unat (of_nat (length (concat cs)) :: u64) = length (concat cs)"
    using assms(4) by (intro unat_of_nat_u64) (simp add: chunks_ok_def)
  then have e: "of_nat (length (concat cs)) = fm_len md \<longleftrightarrow> unat (fm_len md) = length (concat cs)"
    by (auto simp: word_unat_eq_iff)
  show ?thesis
  proof (cases "length (concat cs) \<le> unat mx")
    case True
    then show ?thesis
      using assms(1,2) e by (auto simp: verify_open_local_artifact_def loop try_r_eq_Inr word_less_nat_alt split: if_splits)
  next
    case False
    then show ?thesis using assms(1) by (auto simp: verify_open_local_artifact_def loop try_r_eq_Inr split: if_splits)
  qed
qed

text \<open>
  The check of an open artifact is exact: on a file whose reads deliver its content in non-empty pieces of at most the buffer's size and
  whose metadata stays the same, \<open>verify_open_local_artifact\<close> succeeds if and only if the file is a private regular file of the
  effective user with one link, its content has the stated length within the byte limit, and the digest of the content is the expected one.
\<close>

theorem local_artifact_check_exact:
  assumes "of_metadata file = Inr md" and "of_final_metadata file = Inr md" and "serves (of_read file) cs" and "chunks_ok cs"
  shows "verify_open_local_artifact env file mx expected uid = Inr () \<longleftrightarrow>
    verify_local_file_metadata md uid = Inr () \<and> fm_nlink md = 1 \<and> unat (fm_len md) = length (concat cs) \<and>
    length (concat cs) \<le> unat mx \<and> digest_bytes env (concat cs) = expected"
  using assms by (rule verify_open_iff)

lemma verify_local_paths_means:
  assumes "verify_local_paths env os paths artifact = Inr ()"
  shows "list_all is_normal (lp_artifact_relative_path paths) \<and>
    (\<exists>root repo. os_canonicalize os (lp_root_path paths) = Inr root \<and> os_canonicalize os (lp_repository_root paths) = Inr repo \<and>
       \<not> path_starts_with root repo \<and> \<not> path_starts_with repo root) \<and>
    (\<exists>dir name file md md' bytes. last (lp_artifact_relative_path paths) = PC_Normal name \<and> os_openat_file os dir name = Some file \<and>
       delivered (of_read file) 0 bytes \<and>
       of_metadata file = Inr md \<and> of_final_metadata file = Inr md' \<and> fm_kind md = FK_File \<and> fm_uid md = os_euid os \<and>
       (fm_mode md AND mode_7777) AND mode_0077 = 0 \<and> fm_nlink md = 1 \<and>
       local_file_fingerprint md' = local_file_fingerprint md \<and> length bytes = unat (fm_len md) \<and>
       length bytes \<le> unat (lp_max_bytes paths) \<and> digest_bytes env bytes = artifact)"
proof -
  obtain root repo d fl where p: "list_all is_normal (lp_artifact_relative_path paths)"
    "os_canonicalize os (lp_root_path paths) = Inr root" "os_canonicalize os (lp_repository_root paths) = Inr repo"
    "\<not> path_starts_with root repo" "\<not> path_starts_with repo root"
    "open_artifact os d (lp_artifact_relative_path paths) = Inr fl"
    "verify_open_local_artifact env fl (lp_max_bytes paths) artifact (os_euid os) = Inr ()"
    using assms by (auto simp: verify_local_paths_def try_r_eq_Inr Let_def split: if_splits)
  obtain name where name: "last (lp_artifact_relative_path paths) = PC_Normal name" "os_openat_file os d name = Some fl"
    using p(6) by (auto simp: open_artifact_def ok_or_eq_Inr split: path_component.splits)
  obtain md md' n bytes where f: "of_metadata fl = Inr md" "of_final_metadata fl = Inr md'"
    "verify_local_file_metadata md (os_euid os) = Inr ()" "fm_nlink md = 1"
    "read_loop (of_read fl) (lp_max_bytes paths) 0 (unat (saturating_add (lp_max_bytes paths) 1)) 0 [] = Inr (n, bytes)"
    "n = fm_len md" "local_file_fingerprint md' = local_file_fingerprint md" "digest_bytes env bytes = artifact"
    using p(7) by (auto simp: verify_open_local_artifact_def try_r_eq_Inr split: if_splits)
  have "unat n = length bytes \<and> n \<le> lp_max_bytes paths" using read_loop_counts [OF f(5)] by simp
  moreover have "delivered (of_read fl) 0 bytes" using read_loop_delivers [OF f(5)] by simp
  moreover have "fm_kind md = FK_File" "fm_uid md = os_euid os" "(fm_mode md AND mode_7777) AND mode_0077 = 0"
    using f(3) by (auto simp: verify_local_file_metadata_def Let_def split: if_splits)
  moreover note p(1-5) name f
  ultimately show ?thesis by (simp add: word_le_nat_alt) metis
qed

lemma local_bytes:
  assumes "verify_local_artifact env os reg cid root_id artifact now paths = Inr r"
  obtains dir name fl bytes where "last (lp_artifact_relative_path paths) = PC_Normal name" "os_openat_file os dir name = Some fl"
    "delivered (of_read fl) 0 bytes" "digest_bytes env bytes = artifact"
  using assms verify_local_paths_means [of env os paths artifact] by (auto simp: verify_local_artifact_def try_r_eq_Inr)

text \<open>
  What a verified local artifact is, whatever the operating system answers: its custody record is live and bound to the root and the
  digest; the artifact's path has only normal components, so it cannot leave the root; root and repository do not contain each other; and
  the bytes that the reads of the file delivered, as many as its length and at most the byte limit, have the artifact's digest and came
  from a private file of the effective user that did not change meanwhile.
\<close>

theorem verified_local_artifact_means:
  assumes "verify_local_artifact env os reg cid root_id artifact now paths = Inr r"
  shows "require_artifact reg cid root_id artifact now = Inr r \<and> list_all is_normal (lp_artifact_relative_path paths) \<and>
    (\<exists>root repo. os_canonicalize os (lp_root_path paths) = Inr root \<and> os_canonicalize os (lp_repository_root paths) = Inr repo \<and>
       \<not> path_starts_with root repo \<and> \<not> path_starts_with repo root) \<and>
    (\<exists>dir name file md md' bytes. last (lp_artifact_relative_path paths) = PC_Normal name \<and> os_openat_file os dir name = Some file \<and>
       delivered (of_read file) 0 bytes \<and>
       of_metadata file = Inr md \<and> of_final_metadata file = Inr md' \<and> fm_kind md = FK_File \<and> fm_uid md = os_euid os \<and>
       (fm_mode md AND mode_7777) AND mode_0077 = 0 \<and> fm_nlink md = 1 \<and>
       local_file_fingerprint md' = local_file_fingerprint md \<and> length bytes = unat (fm_len md) \<and>
       length bytes \<le> unat (lp_max_bytes paths) \<and> digest_bytes env bytes = artifact)"
  using assms verify_local_paths_means [of env os paths artifact] by (auto simp: verify_local_artifact_def try_r_eq_Inr)

section \<open>Witnesses\<close>

definition demo_custody_root :: custody_root where
  "demo_custody_root = \<lparr>ct_root_id = ''root1'', ct_owner_id = ''owner'', ct_root_digest = zero_digest, ct_mode = mode_0700,
     ct_external_to_repository = True, ct_created_at = 10, ct_expires_at = 1000, ct_raw_retention_until = 900\<rparr>"

definition demo_custody :: custody_record where
  "demo_custody = \<lparr>cy_custody_id = ''c1'', cy_root = demo_custody_root, cy_artifact_digest = zero_digest, cy_declared_by = ''owner'',
     cy_validator_id = ''va'', cy_status = CS_Active, cy_deleted_at = None\<rparr>"

abbreviation demo_custody_ops :: "custody_op list" where
  "demo_custody_ops \<equiv> [CD_Declare ''c1'' demo_custody_root zero_digest ''owner'' ''va'']"

definition demo_metadata :: "file_kind \<Rightarrow> u32 \<Rightarrow> u64 \<Rightarrow> file_metadata" where
  "demo_metadata kind mode len = \<lparr>fm_kind = kind, fm_uid = 1000, fm_mode = mode, fm_len = len, fm_nlink = 1, fm_dev = 1,
     fm_ino = 2, fm_ctime = 3, fm_ctime_nsec = 4, fm_mtime = 5, fm_mtime_nsec = 6\<rparr>"

definition demo_file :: open_file where
  "demo_file = \<lparr>of_metadata = Inr (demo_metadata FK_File 0x8180 3),
     of_read = \<lambda>i n. Inr (if i = 0 then take n [7, 8] else if i = 1 then take n [9] else []),
     of_final_metadata = Inr (demo_metadata FK_File 0x8180 3)\<rparr>"

definition demo_os :: os where
  "demo_os = \<lparr>os_euid = 1000, os_symlink_metadata = \<lambda>_. Inr (demo_metadata FK_Directory 0x41C0 0), os_canonicalize = Inr,
     os_metadata = \<lambda>_. Inr (demo_metadata FK_Directory 0x41C0 0), os_open_root = Inr 0, os_openat_dir = \<lambda>_ _. Some 1,
     os_fstat = \<lambda>_. Inr (demo_metadata FK_Directory 0x41C0 0), os_openat_file = \<lambda>_ _. Some demo_file\<rparr>"

definition demo_paths :: local_custody_paths where
  "demo_paths = \<lparr>lp_root_path = [PC_RootDir, PC_Normal ''custody''], lp_repository_root = [PC_RootDir, PC_Normal ''repo''],
     lp_artifact_relative_path = [PC_Normal ''sub'', PC_Normal ''a.bin''], lp_max_bytes = 100\<rparr>"

lemma demo_custody_run: "custody_run custody_default demo_custody_ops = \<lparr>cg_records = [(''c1'', demo_custody)]\<rparr>"
  by code_simp

lemma demo_require: "require_artifact \<lparr>cg_records = [(''c1'', demo_custody)]\<rparr> ''c1'' ''root1'' zero_digest 100 = Inr demo_custody"
  by code_simp

lemma demo_serves: "serves (of_read demo_file) [[7, 8], [9]]"
  by (auto simp: serves_def demo_file_def less_Suc_eq numeral_2_eq_2)

lemma demo_chunks: "chunks_ok [[7, 8], [9]]" by (simp add: chunks_ok_def READ_BUFFER_def)

theorem custody_bounds_retention_witness:
  "unat (ct_created_at (cy_root demo_custody)) \<le> unat (100 :: u64) \<and> cy_declared_by demo_custody = ct_owner_id (cy_root demo_custody)"
  using custody_bounds_retention [of _ demo_custody_ops "CD_Delete ''c2'' ''owner'' 1" "''c1''" "''root1''" zero_digest 100, OF refl]
  unfolding demo_custody_run using demo_require by blast

theorem custody_deletion_final_witness:
  "\<not> is_ok (require_active (custody_run (snd (mark_deleted (custody_run custody_default demo_custody_ops) ''c1'' ''owner'' 50)) [])
     ''c1'' zero_digest 60)"
proof -
  have d: "mark_deleted \<lparr>cg_records = [(''c1'', demo_custody)]\<rparr> ''c1'' ''owner'' 50 =
      (Inr (), \<lparr>cg_records = [(''c1'', demo_custody\<lparr>cy_status := CS_Deleted, cy_deleted_at := Some 50\<rparr>)]\<rparr>)"
    by code_simp
  have "mark_deleted (custody_run custody_default demo_custody_ops) ''c1'' ''owner'' 50 =
      (Inr (), \<lparr>cg_records = [(''c1'', demo_custody\<lparr>cy_status := CS_Deleted, cy_deleted_at := Some 50\<rparr>)]\<rparr>)"
    unfolding demo_custody_run by (rule d)
  from custody_deletion_final [OF this, THEN conjunct2, THEN conjunct1] show ?thesis
    unfolding demo_custody_run d snd_conv .
qed

lemma demo_file_private: "verify_local_file_metadata (demo_metadata FK_File 0x8180 3) 1000 = Inr ()" by code_simp

lemma demo_open_verified: "verify_open_local_artifact demo_env demo_file 100 zero_digest 1000 = Inr ()"
  using verify_open_iff [of demo_file "demo_metadata FK_File 0x8180 3", OF _ _ demo_serves demo_chunks, of demo_env 100 zero_digest 1000]
    demo_file_private by (simp add: demo_file_def demo_metadata_def)

theorem local_artifact_check_exact_witness:
  "unat (fm_len (demo_metadata FK_File 0x8180 3)) = length (concat [[7, 8], [9 :: u8]]) \<and>
   verify_open_local_artifact demo_env demo_file 100 zero_digest 1000 = Inr ()"
proof -
  show ?thesis
    using local_artifact_check_exact [of demo_file "demo_metadata FK_File 0x8180 3", OF _ _ demo_serves demo_chunks, of demo_env 100 zero_digest 1000]
      demo_open_verified by (simp add: demo_file_def)
qed

lemma demo_local_verified:
  "verify_local_artifact demo_env demo_os \<lparr>cg_records = [(''c1'', demo_custody)]\<rparr> ''c1'' ''root1'' zero_digest 100 demo_paths =
     Inr demo_custody"
proof -
  have "verify_local_paths demo_env demo_os demo_paths zero_digest = Inr ()"
    using demo_open_verified
    by (simp add: verify_local_paths_def demo_os_def demo_paths_def path_starts_with_def MAX_LOCAL_ARTIFACT_COMPONENTS_def
        open_directory_path_no_symlinks_def open_directory_at_def open_artifact_def verify_local_directory_metadata_def demo_metadata_def
        Let_def)
  then show ?thesis
    by (simp add: verify_local_artifact_def demo_require)
qed

theorem verified_local_artifact_means_witness:
  "\<exists>md bytes. delivered (of_read demo_file) 0 bytes \<and> of_metadata demo_file = Inr md \<and> length bytes = unat (fm_len md) \<and> digest_bytes demo_env bytes = zero_digest"
  using verified_local_artifact_means [OF demo_local_verified] by (auto simp: demo_os_def)

end
