(* ===== verification/Workflow.thy ===== *)
theory Workflow
  imports Integration Receipt_Properties Artifacts Custody
begin

text \<open>
  The gated entry points of src/integration.rs: \<open>run_with_receipt\<close>, \<open>run_with_artifact\<close>, \<open>run_with_artifact_and_receipt\<close> and
  \<open>run_with_local_artifact_and_receipt\<close>.  They put the artifact and custody registries and a signed capability receipt in
  front of the coordinator.  The state is the pair of kernel and runtime together with the receipt verifier.
\<close>

record evidence_binding =
  eb_evidence :: evidence_registry
  eb_evidence_id :: string
  eb_artifacts :: artifact_registry
  eb_artifact_id :: string
  eb_custody :: custody_registry
  eb_custody_id :: string

record receipt_binding =
  rb_receipt :: capability_receipt
  rb_subject :: string

type_synonym gated = "system \<times> receipt_verifier"

definition quarantine_workflow ::
  "crypto \<Rightarrow> system \<Rightarrow> string \<Rightarrow> string option \<Rightarrow> string \<Rightarrow> workflow_result result \<times> system" where
  "quarantine_workflow env s subject dec obs =
     try_s (coord_observe_failure env s FK_Quarantine) (\<lambda>_ s1. (Inr (workflow Di_Quarantined subject dec obs), s1))"

text \<open>The verifier passes through what does not touch it.\<close>

definition keep :: "receipt_verifier \<Rightarrow> 'a result \<times> system \<Rightarrow> 'a result \<times> gated" where
  "keep v = (\<lambda>(r, s). (r, s, v))"

text \<open>A receipt that does not verify: quarantine after the admission record, before anything is consumed.\<close>

definition rejected_receipt ::
  "crypto \<Rightarrow> system \<Rightarrow> proposal \<Rightarrow> decision \<Rightarrow> string \<Rightarrow> string \<Rightarrow> workflow_result result \<times> system" where
  "rejected_receipt env s p d subject obs =
     try_s (with_kernel s (\<lambda>k. kernel_quarantine env k p)) (\<lambda>_ s1.
       quarantine_workflow env s1 subject (Some (de_decision_digest d)) obs)"

definition run_with_receipt ::
  "crypto \<Rightarrow> ed25519 \<Rightarrow> gated \<Rightarrow> evidence_registry \<Rightarrow> string \<Rightarrow> receipt_binding \<Rightarrow> proposal \<Rightarrow> observation \<Rightarrow>
     workflow_result result \<times> gated" where
  "run_with_receipt env ed g evidence eid rb p ob = (case g of (s, v) \<Rightarrow>
     (let subject = proposal_digest env p; obs = digest env (json_observation ob)
      in if \<not> registry_is_valid evidence eid (ob_at ob) subject
         then keep v (quarantine_workflow env s subject None obs)
         else case with_kernel s (\<lambda>k. admit env k p (ob_at ob)) of
           (Inl e, s1) \<Rightarrow> (Inl e, s1, v)
         | (Inr d, s1) \<Rightarrow>
           if de_kind d \<noteq> DK_Accepted
           then keep v (try_s (coord_observe_failure env s1 FK_Rejection) (\<lambda>_ s2.
                  (Inr (workflow Di_Rejected subject (Some (de_decision_digest d)) obs), s2)))
           else case verify env ed v (rb_receipt rb) (rb_subject rb) p d (k_policy (fst s1)) (ob_at ob) of
             (Inl _, v1) \<Rightarrow> keep v1 (rejected_receipt env s1 p d subject obs)
           | (Inr _, v1) \<Rightarrow> keep v1 (complete_admitted env s1 p d subject obs ob)))"

definition artifact_custody_is_valid :: "evidence_binding \<Rightarrow> proposal \<Rightarrow> u64 \<Rightarrow> bool" where
  "artifact_custody_is_valid eb p now =
     (case require_valid (eb_artifacts eb) (eb_artifact_id eb) (pr_source_digest p) now of
        Inl _ \<Rightarrow> False
      | Inr r \<Rightarrow> is_ok (require_artifact (eb_custody eb) (eb_custody_id eb) (am_custody_root (ar_manifest r))
                   (am_subject_digest (ar_manifest r)) now))"

definition local_artifact_custody_is_valid ::
  "crypto \<Rightarrow> os \<Rightarrow> evidence_binding \<Rightarrow> proposal \<Rightarrow> u64 \<Rightarrow> local_custody_paths \<Rightarrow> bool" where
  "local_artifact_custody_is_valid env os eb p now paths =
     (case require_valid (eb_artifacts eb) (eb_artifact_id eb) (pr_source_digest p) now of
        Inl _ \<Rightarrow> False
      | Inr r \<Rightarrow> is_ok (verify_local_artifact env os (eb_custody eb) (eb_custody_id eb) (am_custody_root (ar_manifest r))
                   (am_subject_digest (ar_manifest r)) now paths))"

definition run_with_artifact ::
  "crypto \<Rightarrow> system \<Rightarrow> evidence_binding \<Rightarrow> proposal \<Rightarrow> observation \<Rightarrow> workflow_result result \<times> system" where
  "run_with_artifact env s eb p ob =
     (if \<not> artifact_custody_is_valid eb p (ob_at ob)
      then quarantine_workflow env s (proposal_digest env p) None (digest env (json_observation ob))
      else coord_run env s (eb_evidence eb) (eb_evidence_id eb) p ob)"

definition run_with_artifact_and_receipt ::
  "crypto \<Rightarrow> ed25519 \<Rightarrow> gated \<Rightarrow> evidence_binding \<Rightarrow> receipt_binding \<Rightarrow> proposal \<Rightarrow> observation \<Rightarrow>
     workflow_result result \<times> gated" where
  "run_with_artifact_and_receipt env ed g eb rb p ob =
     (if \<not> artifact_custody_is_valid eb p (ob_at ob)
      then keep (snd g) (quarantine_workflow env (fst g) (proposal_digest env p) None (digest env (json_observation ob)))
      else run_with_receipt env ed g (eb_evidence eb) (eb_evidence_id eb) rb p ob)"

definition run_with_local_artifact_and_receipt ::
  "crypto \<Rightarrow> ed25519 \<Rightarrow> os \<Rightarrow> gated \<Rightarrow> evidence_binding \<Rightarrow> receipt_binding \<Rightarrow> local_custody_paths \<Rightarrow> proposal \<Rightarrow> observation \<Rightarrow>
     workflow_result result \<times> gated" where
  "run_with_local_artifact_and_receipt env ed os g eb rb paths p ob =
     (if \<not> local_artifact_custody_is_valid env os eb p (ob_at ob) paths
      then keep (snd g) (quarantine_workflow env (fst g) (proposal_digest env p) None (digest env (json_observation ob)))
      else run_with_artifact_and_receipt env ed g eb rb p ob)"

section \<open>The stages\<close>

lemma record_decision_policy: "k_policy (snd (record_decision env k p kind reason cap)) = k_policy k"
  by (auto simp: record_decision_def Let_def split: prod.splits sum.splits)

lemma admit_policy: "k_policy (snd (admit env k p now)) = k_policy k"
  by (cases rule: admit_cases [of env k p now]) (simp_all add: record_decision_policy)

lemma keep_eq: "keep v (r, s) = (r, s, v)"
  by (simp add: keep_def)

lemma keep_Pair: "keep v x = (r, s, v') \<longleftrightarrow> x = (r, s) \<and> v' = v"
  by (cases x) (auto simp: keep_def)

lemma quarantine_workflow_spec:
  assumes "system_inv env s" and "quarantine_workflow env s subject dec obs = (r, s')"
  shows "system_inv env s'" and "rt_state (snd s') = rt_state (snd s)" and "rt_checkpoints (snd s') = rt_checkpoints (snd s)"
    and "r = Inr (workflow Di_Quarantined subject dec obs) \<or> \<not> is_ok r"
  using observe_and_report [OF assms(1) assms(2) [unfolded quarantine_workflow_def, symmetric]] by simp_all

lemma rejected_receipt_spec:
  assumes inv: "system_inv env s" and eq: "rejected_receipt env s p d subject obs = (r, s')"
  shows "system_inv env s'" and "rt_state (snd s') = rt_state (snd s)" and "rt_checkpoints (snd s') = rt_checkpoints (snd s)"
    and "r = Inr (workflow Di_Quarantined subject (Some (de_decision_digest d)) obs) \<or> \<not> is_ok r"
proof -
  obtain k rt where s: "s = (k, rt)" by (cases s)
  obtain r1 k1 where q: "kernel_quarantine env k p = (r1, k1)" by (cases "kernel_quarantine env k p")
  have i1: "system_inv env (k1, rt)"
    using kernel_event_system [of env k rt EV_Quarantine p] inv q by (simp add: s kernel_quarantine_def)
  consider e where "r1 = Inl e" "r = Inl e" "s' = (k1, rt)"
    | x where "r1 = Inr x" "quarantine_workflow env (k1, rt) subject (Some (de_decision_digest d)) obs = (r, s')"
    using eq by (cases r1) (auto simp: rejected_receipt_def s with_kernel_eq q)
  then have "system_inv env s' \<and> rt_state (snd s') = rt_state (snd s) \<and> rt_checkpoints (snd s') = rt_checkpoints (snd s) \<and>
    (r = Inr (workflow Di_Quarantined subject (Some (de_decision_digest d)) obs) \<or> \<not> is_ok r)"
  proof cases
    case 1
    then show ?thesis using i1 by (simp add: s)
  next
    case 2
    then show ?thesis using quarantine_workflow_spec [OF i1 2(2)] by (simp add: s)
  qed
  then show "system_inv env s'" "rt_state (snd s') = rt_state (snd s)" "rt_checkpoints (snd s') = rt_checkpoints (snd s)"
    "r = Inr (workflow Di_Quarantined subject (Some (de_decision_digest d)) obs) \<or> \<not> is_ok r" by blast+
qed

text \<open>The receipt gate, case by case: the run stopped before or after execution, or completed.\<close>

lemma run_with_receipt_cases:
  assumes inv: "system_inv env (k, rt)" and eq: "run_with_receipt env ed ((k, rt), v) evidence eid rb p ob = (r, (k', rt'), v')"
  obtains (stopped) "system_inv env (k', rt')" "rt_state rt' = rt_state rt"
      "rt_checkpoints rt' = rt_checkpoints rt" "\<And>w. r = Inr w \<Longrightarrow> wf_disposition w \<noteq> Di_Completed"
  | (completed) d k0 k1 where "registry_is_valid evidence eid (ob_at ob) (proposal_digest env p)"
      "admit env k p (ob_at ob) = (Inr d, k0)" "de_kind d = DK_Accepted"
      "verify env ed v (rb_receipt rb) (rb_subject rb) p d (k_policy k) (ob_at ob) = (Inr (), v')"
      "r = Inr (workflow Di_Completed (proposal_digest env p) (Some (de_decision_digest d)) (digest env (json_observation ob)))"
      "system_inv env (k', rt')" "\<not> unhealthy ob"
      "lifecycle_state_of k' (proposal_digest env p) = Some LS_Completed"
      "runtime_execute env rt k0 p d (ob_at ob) = (Inr True, k1, rt')"
proof (cases "registry_is_valid evidence eid (ob_at ob) (proposal_digest env p)")
  case False
  then have "quarantine_workflow env (k, rt) (proposal_digest env p) None (digest env (json_observation ob)) = (r, (k', rt'))"
    using eq by (simp add: run_with_receipt_def Let_def keep_Pair)
  from quarantine_workflow_spec [OF inv this] show thesis by (auto intro!: stopped simp: workflow_def)
next
  case True
  have i: "sha256_len env" "kernel_inv env k" "runtime_inv rt" using inv by (simp_all add: system_inv_def)
  obtain ra ka where ad: "admit env k p (ob_at ob) = (ra, ka)" by (cases "admit env k p (ob_at ob)")
  have ia: "system_inv env (ka, rt)" using admit_inv [OF i(1,2), of p "ob_at ob"] ad i by (simp add: system_inv_def)
  have pol: "k_policy ka = k_policy k" using admit_policy [of env k p "ob_at ob"] ad by simp
  show thesis
  proof (cases ra)
    case (Inl e)
    then have "r = Inl e" "k' = ka" "rt' = rt" using eq True ad by (auto simp: run_with_receipt_def Let_def with_kernel_eq)
    then show thesis using stopped ia by simp
  next
    case (Inr d)
    show thesis
    proof (cases "de_kind d = DK_Accepted")
      case False
      then have "(r, (k', rt')) = try_s (coord_observe_failure env (ka, rt) FK_Rejection)
         (\<lambda>_ s2. (Inr (workflow Di_Rejected (proposal_digest env p) (Some (de_decision_digest d)) (digest env (json_observation ob))), s2))"
        using eq True ad Inr by (simp add: run_with_receipt_def Let_def with_kernel_eq keep_Pair)
      from observe_and_report(1-4) [OF ia this] show thesis by (auto intro!: stopped simp: workflow_def)
    next
      case acc: True
      obtain rv v1 where ve: "verify env ed v (rb_receipt rb) (rb_subject rb) p d (k_policy k) (ob_at ob) = (rv, v1)"
        by (cases "verify env ed v (rb_receipt rb) (rb_subject rb) p d (k_policy k) (ob_at ob)")
      show thesis
      proof (cases rv)
        case (Inl e)
        then have "rejected_receipt env (ka, rt) p d (proposal_digest env p) (digest env (json_observation ob)) = (r, (k', rt'))"
          using eq True ad Inr acc ve pol by (simp add: run_with_receipt_def Let_def with_kernel_eq keep_Pair)
        from rejected_receipt_spec [OF ia this] show thesis by (auto intro!: stopped simp: workflow_def)
      next
        case ok: (Inr u)
        then have ca: "complete_admitted env (ka, rt) p d (proposal_digest env p) (digest env (json_observation ob)) ob = (r, k', rt')"
          and v': "v' = v1"
          using eq True ad Inr acc ve pol by (simp_all add: run_with_receipt_def Let_def with_kernel_eq keep_Pair)
        from ia acc ca show thesis
        proof (cases rule: complete_admitted_cases)
          case (completed k1)
          then show thesis using that(2) [OF True _ acc] ad Inr ve ok v' by simp
        qed (auto intro!: stopped simp: workflow_def)
      qed
    qed
  qed
qed

section \<open>The gated system as a machine\<close>

datatype gated_op =
    GO_Coord coord_op
  | GO_Receipt evidence_registry string receipt_binding proposal observation
  | GO_Artifact evidence_binding proposal observation
  | GO_Artifact_Receipt evidence_binding receipt_binding proposal observation
  | GO_Local evidence_binding receipt_binding local_custody_paths os proposal observation

fun gated_step :: "crypto \<Rightarrow> ed25519 \<Rightarrow> gated \<Rightarrow> gated_op \<Rightarrow> gated" where
  "gated_step env ed (s, v) (GO_Coord a) = (coord_step env s a, v)"
| "gated_step env ed g (GO_Receipt evidence eid rb p ob) = snd (run_with_receipt env ed g evidence eid rb p ob)"
| "gated_step env ed (s, v) (GO_Artifact eb p ob) = (snd (run_with_artifact env s eb p ob), v)"
| "gated_step env ed g (GO_Artifact_Receipt eb rb p ob) = snd (run_with_artifact_and_receipt env ed g eb rb p ob)"
| "gated_step env ed g (GO_Local eb rb paths os p ob) = snd (run_with_local_artifact_and_receipt env ed os g eb rb paths p ob)"

lemma run_with_receipt_inv:
  assumes "system_inv env (fst g)"
  shows "system_inv env (fst (snd (run_with_receipt env ed g evidence eid rb p ob)))"
proof -
  obtain k rt v where g: "g = ((k, rt), v)" by (metis prod.exhaust)
  obtain r k' rt' v' where eq: "run_with_receipt env ed ((k, rt), v) evidence eid rb p ob = (r, (k', rt'), v')"
    by (metis prod.exhaust)
  have "system_inv env (k, rt)" using assms g by simp
  from this eq have "system_inv env (k', rt')" by (cases rule: run_with_receipt_cases)
  then show ?thesis by (simp add: g eq)
qed

lemma quarantine_workflow_inv: "system_inv env s \<Longrightarrow> system_inv env (snd (quarantine_workflow env s subject dec obs))"
  using quarantine_workflow_spec(1) by (metis prod.collapse)

lemma snd_keep: "snd (keep v x) = (snd x, v)"
  by (cases x) (simp add: keep_def)

lemma artifact_receipt_inv:
  "system_inv env (fst g) \<Longrightarrow> system_inv env (fst (snd (run_with_artifact_and_receipt env ed g eb rb p ob)))"
  by (simp add: run_with_artifact_and_receipt_def run_with_receipt_inv snd_keep quarantine_workflow_inv)

interpretation gated_machine: machine "gated_step env ed" "\<lambda>g. system_inv env (fst g)" for env ed
proof
  fix g :: gated and a
  assume inv: "system_inv env (fst g)"
  obtain s v where g: "g = (s, v)" by (cases g)
  show "system_inv env (fst (gated_step env ed g a))"
  proof (cases a)
    case (GO_Coord b)
    then show ?thesis using coord_machine.step_inv inv by (simp add: g)
  next
    case (GO_Artifact eb p ob)
    then show ?thesis using coord_machine.step_inv [of env s "CO_Run (eb_evidence eb) (eb_evidence_id eb) p ob"] inv
      by (simp add: g run_with_artifact_def quarantine_workflow_inv)
  qed (use inv in \<open>simp_all add: run_with_receipt_inv artifact_receipt_inv run_with_local_artifact_and_receipt_def
      snd_keep quarantine_workflow_inv\<close>)
qed

abbreviation gated_run :: "crypto \<Rightarrow> ed25519 \<Rightarrow> gated \<Rightarrow> gated_op list \<Rightarrow> gated" where
  "gated_run env ed \<equiv> run_ops (gated_step env ed)"

lemma gated_run_inv:
  "sha256_len env \<Longrightarrow> kernel_new pol = Inr k0 \<Longrightarrow> system_inv env (fst (gated_run env ed ((k0, runtime_default), v0) ops))"
  by (rule gated_machine.run_inv) (simp add: system_start_inv)

lemma local_run_cases:
  assumes inv: "system_inv env (k, rt)"
    and eq: "run_with_local_artifact_and_receipt env ed os ((k, rt), v) eb rb paths p ob = (r, (k', rt'), v')"
  obtains (stopped) "rt_state rt' = rt_state rt" "rt_checkpoints rt' = rt_checkpoints rt"
      "\<And>w. r = Inr w \<Longrightarrow> wf_disposition w \<noteq> Di_Completed"
  | (passed) "local_artifact_custody_is_valid env os eb p (ob_at ob) paths" "artifact_custody_is_valid eb p (ob_at ob)"
      "run_with_receipt env ed ((k, rt), v) (eb_evidence eb) (eb_evidence_id eb) rb p ob = (r, (k', rt'), v')"
proof (cases "local_artifact_custody_is_valid env os eb p (ob_at ob) paths \<and> artifact_custody_is_valid eb p (ob_at ob)")
  case True
  then show thesis using passed eq
    by (simp add: run_with_local_artifact_and_receipt_def run_with_artifact_and_receipt_def)
next
  case False
  then have "quarantine_workflow env (k, rt) (proposal_digest env p) None (digest env (json_observation ob)) = (r, (k', rt'))"
    using eq by (auto simp: run_with_local_artifact_and_receipt_def run_with_artifact_and_receipt_def keep_Pair split: if_splits)
  from quarantine_workflow_spec [OF inv this] show thesis by (auto intro!: stopped simp: workflow_def)
qed

section \<open>Properties of the gated workflow\<close>

text \<open>
  C4.  The gated workflow is all or nothing, and complete when it says so: from every state that plain and gated workflows, kernel
  and runtime operations can reach, \<open>run_with_local_artifact_and_receipt\<close> either does not report \<open>Completed\<close> and then leaves
  the state and the checkpoints of the runtime as they were, or reports \<open>Completed\<close>, and then the artifact for the proposal's
  source digest was accepted and not revoked, the bytes that the reads of the local file delivered have that digest, its custody record was live, the evidence was
  valid, the presented receipt verified (unseen until then, recorded now) for the decision of this very admission, the runtime executed
  it and the record of the proposal is \<open>Completed\<close>.
\<close>

theorem gated_workflow_completed_means:
  assumes "sha256_len env" and "kernel_new pol = Inr k0"
    and "gated_run env ed ((k0, runtime_default), v0) ops = ((k, rt), v)"
    and "run_with_local_artifact_and_receipt env ed os ((k, rt), v) eb rb paths p ob = (r, (k', rt'), v')"
  shows "(\<forall>w. r = Inr w \<longrightarrow> wf_disposition w \<noteq> Di_Completed) \<and> rt_state rt' = rt_state rt \<and> rt_checkpoints rt' = rt_checkpoints rt \<or>
    (\<exists>w d k1 k2 a dir name file bytes. r = Inr w \<and> wf_disposition w = Di_Completed \<and>
       artifact_is_valid (eb_artifacts eb) (eb_artifact_id eb) (pr_source_digest p) (ob_at ob) \<and>
       last (lp_artifact_relative_path paths) = PC_Normal name \<and> os_openat_file os dir name = Some file \<and>
       delivered (of_read file) 0 bytes \<and> digest_bytes env bytes = pr_source_digest p \<and>
       require_artifact (eb_custody eb) (eb_custody_id eb) (ct_root_id (cy_root a)) (pr_source_digest p) (ob_at ob) = Inr a \<and>
       registry_is_valid (eb_evidence eb) (eb_evidence_id eb) (ob_at ob) (proposal_digest env p) \<and>
       admit env k p (ob_at ob) = (Inr d, k1) \<and> de_kind d = DK_Accepted \<and>
       verify env ed v (rb_receipt rb) (rb_subject rb) p d (k_policy k) (ob_at ob) = (Inr (), v') \<and>
       cr_receipt_id (rb_receipt rb) \<notin> set (rv_verified v) \<and> cr_receipt_id (rb_receipt rb) \<in> set (rv_verified v') \<and>
       runtime_execute env rt k1 p d (ob_at ob) = (Inr True, k2, rt') \<and>
       lifecycle_state_of k' (proposal_digest env p) = Some LS_Completed)"
proof -
  have inv: "system_inv env (k, rt)" using gated_run_inv [OF assms(1,2), of ed v0 ops] assms(3) by simp
  from inv assms(4) show ?thesis
  proof (cases rule: local_run_cases)
    case passed
    from inv passed(3) show ?thesis
    proof (cases rule: run_with_receipt_cases)
      case (completed d k1 k2)
      obtain rec where rec: "require_valid (eb_artifacts eb) (eb_artifact_id eb) (pr_source_digest p) (ob_at ob) = Inr rec"
        "is_ok (verify_local_artifact env os (eb_custody eb) (eb_custody_id eb) (am_custody_root (ar_manifest rec))
           (am_subject_digest (ar_manifest rec)) (ob_at ob) paths)"
        using passed(1) by (auto simp: local_artifact_custody_is_valid_def split: sum.splits)
      then have av: "artifact_is_valid (eb_artifacts eb) (eb_artifact_id eb) (pr_source_digest p) (ob_at ob)"
        "am_subject_digest (ar_manifest rec) = pr_source_digest p"
        by (auto simp: require_valid_def artifact_is_valid_def binds_subject_def split: if_splits option.splits)
      obtain a where a: "verify_local_artifact env os (eb_custody eb) (eb_custody_id eb) (am_custody_root (ar_manifest rec))
           (pr_source_digest p) (ob_at ob) paths = Inr a"
        using rec(2) av(2) by (auto simp: is_ok_def split: sum.splits)
      obtain dir name fl bytes where b: "last (lp_artifact_relative_path paths) = PC_Normal name" "os_openat_file os dir name = Some fl"
        "delivered (of_read fl) 0 bytes" "digest_bytes env bytes = pr_source_digest p"
        by (rule local_bytes [OF a])
      have ra: "require_artifact (eb_custody eb) (eb_custody_id eb) (am_custody_root (ar_manifest rec)) (pr_source_digest p) (ob_at ob) = Inr a"
        using a by (auto simp: verify_local_artifact_def try_r_eq_Inr)
      then have "ct_root_id (cy_root a) = am_custody_root (ar_manifest rec)" by (simp add: require_artifact_Inr)
      moreover have "cr_receipt_id (rb_receipt rb) \<notin> set (rv_verified v)" "cr_receipt_id (rb_receipt rb) \<in> set (rv_verified v')"
        using completed(4) by (auto simp: verify_ok verify_check_ok)
      ultimately show ?thesis using completed av b ra by (intro disjI2) (simp add: workflow_def, metis)
    qed simp
  qed simp
qed

lemma admit_accepted_record:
  assumes "admit env k p now = (Inr d, k1)" and "de_kind d = DK_Accepted"
  shows "lifecycle_state_of k1 (proposal_digest env p) = Some LS_Admitted" and "\<not> k_frozen k1"
proof -
  have "\<not> k_frozen k \<and> (\<exists>cap. record_decision env k p DK_Accepted ''policy satisfied'' cap = (Inr d, k1))"
  proof (cases rule: admit_cases [of env k p now])
    case (refused kind reason)
    then show ?thesis using record_decision_Inr [of env k p kind reason None d k1] assms by auto
  qed (use assms in auto)
  then obtain cap where live: "\<not> k_frozen k" and r: "record_decision env k p DK_Accepted ''policy satisfied'' cap = (Inr d, k1)" by blast
  show "lifecycle_state_of k1 (proposal_digest env p) = Some LS_Admitted"
    using record_decision_Inr [OF r] by (auto simp: lifecycle_state_of_def lifecycle_apply_Inr lifecycle_new_def)
  show "\<not> k_frozen k1" using record_decision_frame [where env = env and k = k and p = p and kind = DK_Accepted and reason = "''policy satisfied''" and cap = cap] r live by simp
qed

text \<open>
  A bad receipt costs nothing but the proposal: when evidence and admission succeed but the receipt does not verify, \<open>run_with_receipt\<close>
  always reports \<open>Quarantined\<close>; the verifier is unchanged, the runtime has neither run nor rolled back anything, the record of the
  proposal is \<open>Quarantined\<close> (\<open>Frozen\<close> when the failure exhausted the budget), and the proposal can never be executed
  afterwards.
\<close>

theorem bad_receipt_quarantines:
  assumes "sha256_len env" and "kernel_new pol = Inr k0"
    and "gated_run env ed ((k0, runtime_default), v0) ops = ((k, rt), v)"
    and "registry_is_valid evidence eid (ob_at ob) (proposal_digest env p)"
    and "admit env k p (ob_at ob) = (Inr d, k1)" and "de_kind d = DK_Accepted"
    and "verify env ed v (rb_receipt rb) (rb_subject rb) p d (k_policy k) (ob_at ob) = (Inl e, v1)"
  shows "\<exists>w k' rt'. run_with_receipt env ed ((k, rt), v) evidence eid rb p ob = (Inr w, (k', rt'), v) \<and>
    wf_disposition w = Di_Quarantined \<and> rt_state rt' = rt_state rt \<and> rt_checkpoints rt' = rt_checkpoints rt \<and>
    lifecycle_state_of k' (proposal_digest env p) \<in> {Some LS_Quarantined, Some LS_Frozen} \<and>
    execute_count env (proposal_digest env p) (k', rt') ops' = 0"
proof -
  let ?c = "proposal_digest env p" and ?o = "digest env (json_observation ob)"
  have inv: "system_inv env (k, rt)" using gated_run_inv [OF assms(1,2), of ed v0 ops] assms(3) by simp
  then have i1: "system_inv env (k1, rt)"
    using admit_inv [OF assms(1), of k p "ob_at ob"] assms(5) by (simp add: system_inv_def)
  note adm = admit_accepted_record [OF assms(5,6)]
  have ki: "kernel_inv env k1" using i1 by (simp add: system_inv_def)
  obtain k2 where k2: "apply_lifecycle_event env k1 p EV_Quarantine = (Inr True, k2)" "kernel_inv env k2"
    "lifecycle_state_of k2 ?c = Some LS_Quarantined" "k_frozen k2 = k_frozen k1"
    by (rule lifecycle_event_ok [OF ki adm(1), of EV_Quarantine LS_Quarantined]) simp_all
  have s2: "system_inv env (k2, rt)" using i1 k2(2) by (simp add: system_inv_def)
  have nf: "\<not> k_frozen k2" using k2(4) adm(2) by simp
  obtain dd k3 rt3 where o: "coord_observe_failure env (k2, rt) FK_Quarantine = (Inr dd, k3, rt3)" "system_inv env (k3, rt3)"
    "lifecycle_state_of k3 ?c = Some (if dd = BD_FreezeRequired then LS_Frozen else LS_Quarantined)"
    "rt_state rt3 = rt_state rt" "rt_checkpoints rt3 = rt_checkpoints rt"
    by (rule observe_failure_live [OF s2 nf k2(3), where kind = FK_Quarantine]) (simp, rule that, assumption+)
  have pol: "k_policy k1 = k_policy k" using admit_policy [of env k p "ob_at ob"] assms(5) by simp
  have "v1 = v" using assms(7) by (auto simp: verify_def split: sum.splits)
  then have run: "run_with_receipt env ed ((k, rt), v) evidence eid rb p ob =
      (Inr (workflow Di_Quarantined ?c (Some (de_decision_digest d)) ?o), (k3, rt3), v)"
    using assms(4-7) k2(1) o(1) pol
    by (simp add: run_with_receipt_def with_kernel_eq Let_def keep_eq rejected_receipt_def kernel_quarantine_def quarantine_workflow_def)
  obtain l where l: "bt_get (k_lifecycles k3) ?c = Some l" "lc_state l = (if dd = BD_FreezeRequired then LS_Frozen else LS_Quarantined)"
    using o(3) by (auto simp: lifecycle_state_of_def)
  have "execute_count env ?c (k3, rt3) ops' = 0"
    by (rule execute_count_zero [OF o(2), of _ l]) (use l in \<open>simp_all split: if_splits\<close>)
  then show ?thesis using run o(3-5) by (simp add: workflow_def)
qed

section \<open>Witnesses\<close>

lemma demo_gated_start: "gated_run demo_env ed ((demo_kernel, runtime_default), v) [] = ((demo_kernel, runtime_default), v)"
  by simp

definition demo_evidence_binding :: evidence_binding where
  "demo_evidence_binding = \<lparr>eb_evidence = demo_registry, eb_evidence_id = ''e1'',
     eb_artifacts = \<lparr>af_records = [(''a1'', demo_artifact)]\<rparr>, eb_artifact_id = ''a1'',
     eb_custody = \<lparr>cg_records = [(''c1'', demo_custody)]\<rparr>, eb_custody_id = ''c1''\<rparr>"

lemma demo_local_custody:
  "local_artifact_custody_is_valid demo_env demo_os demo_evidence_binding demo_proposal 100 demo_paths"
  "artifact_custody_is_valid demo_evidence_binding demo_proposal 100"
proof -
  have "require_valid \<lparr>af_records = [(''a1'', demo_artifact)]\<rparr> ''a1'' zero_digest 100 = Inr demo_artifact"
    using demo_artifact_valid by (simp add: require_valid_def)
  then show "local_artifact_custody_is_valid demo_env demo_os demo_evidence_binding demo_proposal 100 demo_paths"
    "artifact_custody_is_valid demo_evidence_binding demo_proposal 100"
    using demo_local_verified demo_require
    by (simp_all add: local_artifact_custody_is_valid_def artifact_custody_is_valid_def demo_evidence_binding_def demo_proposal_def
        demo_artifact_def demo_manifest_def)
qed

theorem gated_workflow_completed_means_witness:
  "\<exists>rb w g'. run_with_local_artifact_and_receipt demo_env demo_ed demo_os ((demo_kernel, runtime_default), demo_verifier)
      demo_evidence_binding rb demo_paths demo_proposal (demo_observation True False) = (Inr w, g') \<and>
    wf_disposition w = Di_Completed \<and>
    artifact_is_valid (eb_artifacts demo_evidence_binding) (eb_artifact_id demo_evidence_binding) (pr_source_digest demo_proposal) 100"
proof -
  let ?ob = "demo_observation True False" and ?s = "(demo_kernel, runtime_default)"
  obtain r where r: "verify demo_env demo_ed demo_verifier r ''tenant'' demo_proposal demo_decision policy_default 100 =
      (Inr (), demo_verifier\<lparr>rv_verified := bs_insert (cr_receipt_id r) (rv_verified demo_verifier)\<rparr>)"
    by (rule demo_receipt [of 100]) simp_all
  let ?rb = "\<lparr>rb_receipt = r, rb_subject = ''tenant''\<rparr>"
  let ?run = "run_with_local_artifact_and_receipt demo_env demo_ed demo_os (?s, demo_verifier) demo_evidence_binding ?rb demo_paths demo_proposal ?ob"
  have at: "ob_at ?ob = 100" by (simp add: demo_observation_def)
  have pol: "k_policy demo_admitted = policy_default" by (simp add: demo_admitted_def demo_kernel_def)
  have run: "?run = keep (demo_verifier\<lparr>rv_verified := bs_insert (cr_receipt_id r) (rv_verified demo_verifier)\<rparr>)
      (coord_run demo_env ?s demo_registry ''e1'' demo_proposal ?ob)"
    using demo_local_custody demo_registry_valid r
    by (simp add: run_with_local_artifact_and_receipt_def run_with_artifact_and_receipt_def run_with_receipt_def coord_run_def at pol
        demo_evidence_binding_def demo_admit_with_kernel demo_decision_accepted Let_def)
  obtain w k' rt' where c: "coord_run demo_env ?s demo_registry ''e1'' demo_proposal ?ob = (Inr w, k', rt')" "wf_disposition w = Di_Completed"
    using demo_run_completes by blast
  have "?run = (Inr w, (k', rt'), demo_verifier\<lparr>rv_verified := bs_insert (cr_receipt_id r) (rv_verified demo_verifier)\<rparr>)"
    using run c by (simp add: keep_eq)
  from gated_workflow_completed_means [OF demo_sha256_len demo_kernel_new demo_gated_start this] this c(2) show ?thesis
    unfolding at by blast
qed

definition demo_forged_receipt :: capability_receipt where
  "demo_forged_receipt = \<lparr>cr_proposal_digest = zero_digest, cr_candidate_digest = zero_digest,
     cr_policy_digest = zero_digest, cr_capability_digest = zero_digest, cr_subject = ''tenant'', cr_agent_id = ''a1'',
     cr_action = Act_Write, cr_scope = ''sandbox'', cr_issuer_key_id = ''nobody'', cr_issued_at = 100, cr_expires_at = 130,
     cr_signature = replicate 64 1, cr_receipt_id = zero_digest\<rparr>"

theorem bad_receipt_quarantines_witness:
  "\<exists>w k' rt'. run_with_receipt demo_env demo_ed ((demo_kernel, runtime_default), verifier_new) demo_registry ''e1''
      \<lparr>rb_receipt = demo_forged_receipt, rb_subject = ''tenant''\<rparr> demo_proposal (demo_observation True False) = (Inr w, (k', rt'), verifier_new) \<and>
    wf_disposition w = Di_Quarantined \<and> rt_state rt' = rt_state runtime_default"
proof -
  let ?ob = "demo_observation True False"
  have at: "ob_at ?ob = 100" by (simp add: demo_observation_def)
  obtain e v1 where "verify demo_env demo_ed verifier_new demo_forged_receipt ''tenant'' demo_proposal demo_decision (k_policy demo_kernel) 100 = (Inl e, v1)"
    by (cases "verify_check demo_env demo_ed verifier_new demo_forged_receipt ''tenant'' demo_proposal demo_decision (k_policy demo_kernel) 100")
      (auto simp: verify_def verify_check_ok verifier_new_def)
  then show ?thesis
    using bad_receipt_quarantines [OF demo_sha256_len demo_kernel_new demo_gated_start, of demo_registry "''e1''" ?ob demo_proposal
        demo_decision demo_admitted demo_ed verifier_new "\<lparr>rb_receipt = demo_forged_receipt, rb_subject = ''tenant''\<rparr>" e v1 "[]"]
      demo_registry_valid demo_admit demo_decision_accepted at by auto
qed

end
