(* ===== verification/Persistence.thy ===== *)
theory Persistence
  imports Encoding
begin

text \<open>
  The local snapshot files of src/persistence.rs, with the file system of the standard library as a map from paths to
  nodes.  Every call into the operating system can fail: the record \<open>io\<close> is a plan that says which call fails and with what
  message, how many bytes a failing write has written, and when a lock of another process goes away, so a theorem
  for all plans covers every fault and every crash point of a save.  The locale \<open>snapshot_format\<close> states what a component brings to its snapshot file:
  how it is turned into the stored document and rebuilt from it.
\<close>

section \<open>Paths and files\<close>

text \<open>A path with a file name: directory, stem and extension.  \<open>with_extension\<close> replaces the extension.\<close>

record path =
  pa_dir :: string
  pa_stem :: string
  pa_ext :: "string option"

definition with_extension :: "path \<Rightarrow> string \<Rightarrow> path" where
  "with_extension p e = p\<lparr>pa_ext := Some e\<rparr>"

datatype node = N_File "u8 list" | N_Dir | N_Symlink path

type_synonym fs = "path \<Rightarrow> node option"

datatype io_point =
    IO_LockOpen | IO_LockWrite | IO_LockSync | IO_LockDir | IO_Unlock
  | IO_Create | IO_Write | IO_Sync | IO_Rename | IO_Dir | IO_Stat | IO_Read

record io =
  io_fail :: "io_point \<Rightarrow> string option"
  io_partial :: nat
  io_release :: "nat option"
  io_token :: "u8 list"

definition io_check :: "io \<Rightarrow> io_point \<Rightarrow> unit result" where
  "io_check io pt = (case io_fail io pt of None \<Rightarrow> Inr () | Some m \<Rightarrow> Inl (Err_Persistence m))"

definition not_found :: error where
  "not_found = Err_Persistence ''No such file or directory (os error 2)''"

definition already_exists :: error where
  "already_exists = Err_Persistence ''File exists (os error 17)''"

definition is_a_directory :: error where
  "is_a_directory = Err_Persistence ''Is a directory (os error 21)''"

section \<open>The writer lock\<close>

text \<open>The 500 attempts to create the lock file; a lock that is present goes away at attempt \<open>io_release\<close>, if ever.\<close>

fun lock_obtained :: "io \<Rightarrow> bool \<Rightarrow> nat \<Rightarrow> nat \<Rightarrow> bool" where
  "lock_obtained io present i 0 = False"
| "lock_obtained io present i (Suc n) =
     (if present \<and> (case io_release io of None \<Rightarrow> True | Some k \<Rightarrow> i < k)
      then lock_obtained io present (Suc i) n else True)"

definition drop_lock :: "io \<Rightarrow> path \<Rightarrow> fs \<Rightarrow> fs" where
  "drop_lock io lock fs =
     (if io_fail io IO_Unlock = None \<and> fs lock = Some (N_File (io_token io)) then fs(lock := None) else fs)"

definition acquire_file_lock :: "io \<Rightarrow> path \<Rightarrow> string \<Rightarrow> fs \<Rightarrow> unit result \<times> fs" where
  "acquire_file_lock io p purpose fs =
     (let lock = with_extension p ''lock'' in
      case io_check io IO_LockOpen of
        Inl e \<Rightarrow> (Inl e, fs)
      | Inr _ \<Rightarrow>
        if \<not> lock_obtained io (fs lock \<noteq> None) 0 500
        then (Inl (Err_Persistence (''timed out waiting for '' @ purpose @ '' writer lock'')), fs)
        else case io_check io IO_LockWrite of
          Inl e \<Rightarrow> (Inl e, drop_lock io lock (fs(lock \<mapsto> N_File (take (io_partial io) (io_token io)))))
        | Inr _ \<Rightarrow>
          let fs1 = fs(lock \<mapsto> N_File (io_token io))
          in case try_r (io_check io IO_LockSync) (\<lambda>_. io_check io IO_LockDir) of
               Inl e \<Rightarrow> (Inl e, drop_lock io lock fs1)
             | Inr _ \<Rightarrow> (Inr (), fs1))"

section \<open>Saving, reading and recovering\<close>

definition rename_file :: "io \<Rightarrow> path \<Rightarrow> path \<Rightarrow> fs \<Rightarrow> unit result \<times> fs" where
  "rename_file io src dst fs =
     (case io_check io IO_Rename of
        Inl e \<Rightarrow> (Inl e, fs)
      | Inr _ \<Rightarrow>
        case fs src of
          None \<Rightarrow> (Inl not_found, fs)
        | Some nd \<Rightarrow> if fs dst = Some N_Dir then (Inl is_a_directory, fs)
                    else (Inr (), (fs(src := None))(dst \<mapsto> nd)))"

definition save_atomic_snapshot_locked :: "io \<Rightarrow> path \<Rightarrow> u8 list \<Rightarrow> fs \<Rightarrow> unit result \<times> fs" where
  "save_atomic_snapshot_locked io p bytes fs =
     (let tmp = with_extension p ''tmp'' in
      case io_check io IO_Create of
        Inl e \<Rightarrow> (Inl e, fs)
      | Inr _ \<Rightarrow>
        if fs tmp \<noteq> None then (Inl already_exists, fs)
        else case io_check io IO_Write of
          Inl e \<Rightarrow> (Inl e, fs(tmp \<mapsto> N_File (take (io_partial io) bytes)))
        | Inr _ \<Rightarrow>
          let fs1 = fs(tmp \<mapsto> N_File bytes)
          in case io_check io IO_Sync of
               Inl e \<Rightarrow> (Inl e, fs1)
             | Inr _ \<Rightarrow>
               (case rename_file io tmp p fs1 of
                  (Inl e, fs2) \<Rightarrow> (Inl e, fs2)
                | (Inr _, fs2) \<Rightarrow> (io_check io IO_Dir, fs2)))"

definition save_atomic_snapshot :: "io \<Rightarrow> path \<Rightarrow> u8 list \<Rightarrow> string \<Rightarrow> fs \<Rightarrow> unit result \<times> fs" where
  "save_atomic_snapshot io p bytes purpose fs =
     (case acquire_file_lock io p purpose fs of
        (Inl e, fs1) \<Rightarrow> (Inl e, fs1)
      | (Inr _, fs1) \<Rightarrow>
        (case save_atomic_snapshot_locked io p bytes fs1 of
           (res, fs2) \<Rightarrow> (res, drop_lock io (with_extension p ''lock'') fs2)))"

definition read_regular_snapshot :: "io \<Rightarrow> fs \<Rightarrow> path \<Rightarrow> u8 list result" where
  "read_regular_snapshot io fs p =
     try_r (io_check io IO_Stat) (\<lambda>_.
     case fs p of
       None \<Rightarrow> Inl not_found
     | Some (N_File bytes) \<Rightarrow> try_r (io_check io IO_Read) (\<lambda>_. Inr bytes)
     | Some _ \<Rightarrow> Inl (Err_Persistence ''snapshot is not a regular file''))"

definition recover_atomic_snapshot ::
  "io \<Rightarrow> path \<Rightarrow> string \<Rightarrow> (fs \<Rightarrow> path \<Rightarrow> 'a result) \<Rightarrow> fs \<Rightarrow> 'a result \<times> fs" where
  "recover_atomic_snapshot io p purpose load fs =
     (case acquire_file_lock io p purpose fs of
        (Inl e, fs1) \<Rightarrow> (Inl e, fs1)
      | (Inr _, fs1) \<Rightarrow>
        let tmp = with_extension p ''tmp'';
            (res, fs2) =
              (case io_check io IO_Stat of
                 Inl e \<Rightarrow> (Inl e, fs1)
               | Inr _ \<Rightarrow>
                 case fs1 tmp of
                   Some (N_File _) \<Rightarrow>
                     (case load fs1 tmp of
                        Inl e \<Rightarrow> (Inl e, fs1)
                      | Inr snapshot \<Rightarrow>
                        (case rename_file io tmp p fs1 of
                           (Inl e, fs2) \<Rightarrow> (Inl e, fs2)
                         | (Inr _, fs2) \<Rightarrow> (try_r (io_check io IO_Dir) (\<lambda>_. Inr snapshot), fs2)))
                 | Some _ \<Rightarrow> (Inl (Err_Persistence (purpose @ '' pending snapshot is not a regular file'')), fs1)
                 | None \<Rightarrow> (load fs1 p, fs1))
        in (res, drop_lock io (with_extension p ''lock'') fs2))"

text \<open>
  The \<open>load\<close> of every component: the bytes of a regular file, parsed by \<open>serde_json::from_slice\<close> (the parameter \<open>de\<close>),
  must be the canonical bytes of what was parsed; the document is then turned into the component.
\<close>

definition load_canonical ::
  "crypto \<Rightarrow> (u8 list \<Rightarrow> 'd result) \<Rightarrow> ('d \<Rightarrow> json) \<Rightarrow> string \<Rightarrow> ('d \<Rightarrow> 'a result) \<Rightarrow> io \<Rightarrow> fs \<Rightarrow> path \<Rightarrow> 'a result" where
  "load_canonical env de enc msg build io fs p =
     try_r (read_regular_snapshot io fs p) (\<lambda>bytes.
     try_r (de bytes) (\<lambda>d.
     if canonical_bytes env (enc d) \<noteq> bytes then Inl (Err_Journal msg) else build d))"

definition save_valid ::
  "crypto \<Rightarrow> ('a \<Rightarrow> unit result) \<Rightarrow> ('a \<Rightarrow> json) \<Rightarrow> string \<Rightarrow> io \<Rightarrow> 'a \<Rightarrow> path \<Rightarrow> fs \<Rightarrow> unit result \<times> fs" where
  "save_valid env valid enc purpose io x p fs =
     (case valid x of
        Inl e \<Rightarrow> (Inl e, fs)
      | Inr _ \<Rightarrow> save_atomic_snapshot io p (canonical_bytes env (enc x)) purpose fs)"

text \<open>A plan without faults, and a path that is neither its own lock nor its own temporary file.\<close>

definition no_faults :: "io \<Rightarrow> bool" where
  "no_faults io \<longleftrightarrow> (\<forall>pt. io_fail io pt = None)"

definition snapshot_path :: "path \<Rightarrow> bool" where
  "snapshot_path p \<longleftrightarrow> pa_ext p \<noteq> Some ''tmp'' \<and> pa_ext p \<noteq> Some ''lock''"

section \<open>What the calls leave behind\<close>

lemma snapshot_path_distinct:
  assumes "snapshot_path p"
  shows "with_extension p ''tmp'' \<noteq> p" "with_extension p ''lock'' \<noteq> p" "with_extension p ''tmp'' \<noteq> with_extension p ''lock''"
proof -
  have ext: "pa_ext (with_extension p e) = Some e" for e by (simp add: with_extension_def)
  show "with_extension p ''tmp'' \<noteq> p" "with_extension p ''lock'' \<noteq> p"
    using assms ext [of "''tmp''"] ext [of "''lock''"] by (auto simp: snapshot_path_def)
  show "with_extension p ''tmp'' \<noteq> with_extension p ''lock''" using ext [of "''tmp''"] ext [of "''lock''"] by auto
qed

lemma io_check_simps: "no_faults io \<Longrightarrow> io_check io pt = Inr ()"
  by (simp add: io_check_def no_faults_def)

lemma lock_obtained_absent: "lock_obtained io False i (Suc n)"
  by simp

text \<open>Taking and dropping the lock touches the lock file only.\<close>

lemma acquire_other: "q \<noteq> with_extension p ''lock'' \<Longrightarrow> snd (acquire_file_lock io p purpose fs) q = fs q"
  by (auto simp: acquire_file_lock_def drop_lock_def Let_def split: sum.splits)

lemma acquire_ok:
  "acquire_file_lock io p purpose fs = (Inr (), fs') \<Longrightarrow> fs' = fs(with_extension p ''lock'' \<mapsto> N_File (io_token io))"
  by (auto simp: acquire_file_lock_def Let_def split: sum.splits if_splits)

lemma acquire_free:
  assumes "no_faults io" and "fs (with_extension p ''lock'') = None"
  shows "acquire_file_lock io p purpose fs = (Inr (), fs(with_extension p ''lock'' \<mapsto> N_File (io_token io)))"
proof -
  have "lock_obtained io False 0 500" using lock_obtained_absent [of io 0 499] by (simp add: numeral_eq_Suc)
  then show ?thesis using assms by (simp add: acquire_file_lock_def io_check_simps Let_def)
qed

lemma drop_lock_other: "q \<noteq> lock \<Longrightarrow> drop_lock io lock fs q = fs q"
  by (simp add: drop_lock_def)

lemma save_locked_cases:
  assumes "with_extension p ''tmp'' \<noteq> p"
  obtains (untouched) e where "save_atomic_snapshot_locked io p bytes fs = (Inl e, fs)"
  | (torn) e where "save_atomic_snapshot_locked io p bytes fs =
        (Inl e, fs(with_extension p ''tmp'' \<mapsto> N_File (take (io_partial io) bytes)))" "fs (with_extension p ''tmp'') = None"
  | (pending) e where "save_atomic_snapshot_locked io p bytes fs = (Inl e, fs(with_extension p ''tmp'' \<mapsto> N_File bytes))"
      "fs (with_extension p ''tmp'') = None"
  | (renamed) "save_atomic_snapshot_locked io p bytes fs = (io_check io IO_Dir, fs(p \<mapsto> N_File bytes))"
      "fs (with_extension p ''tmp'') = None"
proof -
  let ?tmp = "with_extension p ''tmp''"
  have ren: "rename_file io ?tmp p (fs(?tmp \<mapsto> N_File bytes)) = (Inr (), fs(p \<mapsto> N_File bytes)) \<or>
      (\<exists>e. rename_file io ?tmp p (fs(?tmp \<mapsto> N_File bytes)) = (Inl e, fs(?tmp \<mapsto> N_File bytes)))" if "fs ?tmp = None"
  proof -
    have "(fs(?tmp \<mapsto> N_File bytes))(?tmp := None) = fs" using that by auto
    then show ?thesis using assms by (auto simp: rename_file_def split: sum.splits)
  qed
  consider "\<exists>e. io_check io IO_Create = Inl e" | "fs ?tmp \<noteq> None" "io_check io IO_Create = Inr ()"
    | e where "fs ?tmp = None" "io_check io IO_Create = Inr ()" "io_check io IO_Write = Inl e"
    | e where "fs ?tmp = None" "io_check io IO_Create = Inr ()" "io_check io IO_Write = Inr ()" "io_check io IO_Sync = Inl e"
    | "fs ?tmp = None" "io_check io IO_Create = Inr ()" "io_check io IO_Write = Inr ()" "io_check io IO_Sync = Inr ()"
    by (metis (full_types) old.unit.exhaust sum.exhaust)
  then show thesis
  proof cases
    case 5
    from ren [OF 5(1)] show ?thesis
    proof (elim disjE exE)
      assume "rename_file io ?tmp p (fs(?tmp \<mapsto> N_File bytes)) = (Inr (), fs(p \<mapsto> N_File bytes))"
      then show ?thesis using 5 by (intro renamed) (simp_all add: save_atomic_snapshot_locked_def Let_def)
    next
      fix e assume "rename_file io ?tmp p (fs(?tmp \<mapsto> N_File bytes)) = (Inl e, fs(?tmp \<mapsto> N_File bytes))"
      then show ?thesis using 5 by (intro pending) (simp_all add: save_atomic_snapshot_locked_def Let_def)
    qed
  qed (use untouched torn pending in \<open>auto simp: save_atomic_snapshot_locked_def Let_def\<close>)
qed

text \<open>Every outcome of a save: nothing changed, a torn or complete temporary file is left, or the primary is replaced.\<close>

lemma save_cases:
  assumes sp: "snapshot_path p" and save: "save_atomic_snapshot io p bytes purpose fs = (res, fs')"
  obtains (untouched) "res \<noteq> Inr ()" "\<And>q. q \<noteq> with_extension p ''lock'' \<Longrightarrow> fs' q = fs q"
  | (torn) "res \<noteq> Inr ()" "fs (with_extension p ''tmp'') = None"
      "\<And>q. q \<noteq> with_extension p ''lock'' \<Longrightarrow>
         fs' q = (fs(with_extension p ''tmp'' \<mapsto> N_File (take (io_partial io) bytes))) q"
  | (pending) "res \<noteq> Inr ()" "fs (with_extension p ''tmp'') = None"
      "\<And>q. q \<noteq> with_extension p ''lock'' \<Longrightarrow> fs' q = (fs(with_extension p ''tmp'' \<mapsto> N_File bytes)) q"
  | (renamed) "fs (with_extension p ''tmp'') = None" "\<And>q. q \<noteq> with_extension p ''lock'' \<Longrightarrow> fs' q = (fs(p \<mapsto> N_File bytes)) q"
proof -
  let ?lock = "with_extension p ''lock''" and ?tmp = "with_extension p ''tmp''"
  note dist = snapshot_path_distinct [OF sp]
  obtain ra fs1 where acq: "acquire_file_lock io p purpose fs = (ra, fs1)" by (cases "acquire_file_lock io p purpose fs")
  have same: "fs1 q = fs q" if "q \<noteq> ?lock" for q using acquire_other [OF that, of io purpose fs] acq by simp
  show thesis
  proof (cases ra)
    case (Inl e)
    then have "res = Inl e" "fs' = fs1" using acq save by (simp_all add: save_atomic_snapshot_def)
    then show thesis using same by (intro untouched) simp_all
  next
    case (Inr u)
    obtain rl fs2 where lk: "save_atomic_snapshot_locked io p bytes fs1 = (rl, fs2)"
      by (cases "save_atomic_snapshot_locked io p bytes fs1")
    have out: "res = rl" "fs' = drop_lock io ?lock fs2"
      using acq Inr lk save by (simp_all add: save_atomic_snapshot_def)
    have fs': "fs' q = fs2 q" if "q \<noteq> ?lock" for q using drop_lock_other [OF that] out(2) by simp
    have t1: "fs1 ?tmp = fs ?tmp" using same dist(3) by simp
    from dist(1) show thesis
    proof (cases rule: save_locked_cases [where io = io and bytes = bytes and fs = fs1])
      case (untouched e)
      then show thesis using lk out fs' same by (intro that(1)) auto
    next
      case (torn e)
      then show thesis using lk out fs' same t1 by (intro that(2)) auto
    next
      case (pending e)
      then show thesis using lk out fs' same t1 by (intro that(3)) auto
    next
      case renamed
      then show thesis using lk fs' same t1 by (intro that(4)) auto
    qed
  qed
qed

lemma save_ok:
  assumes "snapshot_path p" and "save_atomic_snapshot io p bytes purpose fs = (Inr (), fs')"
  shows "fs' p = Some (N_File bytes) \<and> fs' (with_extension p ''tmp'') = None"
  using assms(1,2) snapshot_path_distinct [OF assms(1)] by (cases rule: save_cases) auto

lemma save_succeeds:
  assumes "snapshot_path p" and "no_faults io" and "fs (with_extension p ''lock'') = None"
    and "fs (with_extension p ''tmp'') = None" and "fs p \<noteq> Some N_Dir"
  shows "save_atomic_snapshot io p bytes purpose fs = (Inr (), fs(p \<mapsto> N_File bytes))"
proof -
  let ?lock = "with_extension p ''lock''" and ?tmp = "with_extension p ''tmp''"
  let ?fs1 = "fs(?lock \<mapsto> N_File (io_token io))"
  note dist = snapshot_path_distinct [OF assms(1)]
  have ren: "rename_file io ?tmp p (?fs1(?tmp \<mapsto> N_File bytes)) = (Inr (), ?fs1(p \<mapsto> N_File bytes))"
    using assms dist by (auto simp: rename_file_def io_check_simps fun_eq_iff)
  have "save_atomic_snapshot_locked io p bytes ?fs1 = (Inr (), ?fs1(p \<mapsto> N_File bytes))"
    using assms dist ren by (simp add: save_atomic_snapshot_locked_def io_check_simps Let_def)
  moreover have "drop_lock io ?lock (?fs1(p \<mapsto> N_File bytes)) = fs(p \<mapsto> N_File bytes)"
    using assms dist by (auto simp: drop_lock_def no_faults_def fun_eq_iff)
  ultimately show ?thesis using acquire_free [OF assms(2), of fs p purpose] assms(3) by (simp add: save_atomic_snapshot_def)
qed

lemma read_file: "no_faults io \<Longrightarrow> fs p = Some (N_File bytes) \<Longrightarrow> read_regular_snapshot io fs p = Inr bytes"
  by (simp add: read_regular_snapshot_def io_check_simps)

lemma read_cong: "fs p = fs' p \<Longrightarrow> read_regular_snapshot io fs p = read_regular_snapshot io fs' p"
  by (simp add: read_regular_snapshot_def)

lemma load_cong: "fs p = fs' p \<Longrightarrow> load_canonical env de enc msg build io fs p = load_canonical env de enc msg build io fs' p"
  by (simp add: load_canonical_def read_cong [of fs p fs'])

section \<open>Snapshot formats\<close>

text \<open>
  A component with a snapshot file: \<open>doc\<close> is what is stored of it, \<open>build\<close> the part of \<open>load\<close> after parsing,
  \<open>ok\<close> what the component's values satisfy.
\<close>

locale snapshot_format =
  fixes doc :: "'a \<Rightarrow> 'd" and enc :: "'d \<Rightarrow> json" and valid :: "'a \<Rightarrow> unit result"
    and build :: "'d \<Rightarrow> 'a result" and ok :: "'a \<Rightarrow> bool"
  assumes build_doc: "ok x \<Longrightarrow> valid x = Inr () \<Longrightarrow> build (doc x) = Inr x"
    and build_valid: "build d = Inr x \<Longrightarrow> valid x = Inr ()"
begin

lemma save_then_load:
  assumes "ok x" and "de (canonical_bytes env (enc (doc x))) = Inr (doc x)" and "snapshot_path p"
    and "save_valid env valid (\<lambda>x. enc (doc x)) purpose io x p fs = (Inr (), fs')" and "no_faults io'"
  shows "load_canonical env de enc msg build io' fs' p = Inr x"
proof -
  have v: "valid x = Inr ()" and s: "save_atomic_snapshot io p (canonical_bytes env (enc (doc x))) purpose fs = (Inr (), fs')"
    using assms(4) by (auto simp: save_valid_def split: sum.splits)
  have "read_regular_snapshot io' fs' p = Inr (canonical_bytes env (enc (doc x)))"
    using save_ok [OF assms(3) s] read_file [OF assms(5)] by blast
  then show ?thesis using assms(1,2) v by (simp add: load_canonical_def build_doc)
qed

lemma loaded_is_valid:
  assumes "load_canonical env de enc msg build io fs p = Inr x"
  shows "valid x = Inr () \<and> (\<exists>d. build d = Inr x \<and> fs p = Some (N_File (canonical_bytes env (enc d))))"
  using assms build_valid
  by (auto simp: load_canonical_def read_regular_snapshot_def try_r_eq_Inr split: if_splits option.splits node.splits)

lemma recover_after_crash:
  assumes sp: "snapshot_path p" and okx: "ok x" "valid x = Inr ()"
    and dex: "de (canonical_bytes env (enc (doc x))) = Inr (doc x)"
    and prefix: "\<And>n. n < length (canonical_bytes env (enc (doc x))) \<Longrightarrow> \<not> is_ok (de (take n (canonical_bytes env (enc (doc x)))))"
    and old: "fs p = Some (N_File old)" and tmp: "fs (with_extension p ''tmp'') = None"
    and save: "save_valid env valid (\<lambda>x. enc (doc x)) purpose io x p fs = (res, fs')"
    and nf: "no_faults io'" and fs1: "fs1 = fs'(with_extension p ''lock'' := None)"
    and rec: "recover_atomic_snapshot io' p purpose (load_canonical env de enc msg build io') fs1 = (r, fs2)"
  shows "r = Inr x \<and> fs2 p = Some (N_File (canonical_bytes env (enc (doc x)))) \<or>
    r = load_canonical env de enc msg build io' fs p \<and> fs2 p = Some (N_File old) \<or>
    \<not> is_ok r \<and> fs2 p = Some (N_File old)"
proof -
  let ?lock = "with_extension p ''lock''" and ?tmp = "with_extension p ''tmp''" and ?b = "canonical_bytes env (enc (doc x))"
  let ?load = "load_canonical env de enc msg build io'"
  let ?fs3 = "fs1(?lock \<mapsto> N_File (io_token io'))"
  note dist = snapshot_path_distinct [OF sp]
  have s: "save_atomic_snapshot io p ?b purpose fs = (res, fs')" using save okx(2) by (simp add: save_valid_def)
  have acq: "acquire_file_lock io' p purpose fs1 = (Inr (), ?fs3)" by (rule acquire_free [OF nf]) (simp add: fs1)
  have fs3: "?fs3 p = fs' p" "?fs3 ?tmp = fs' ?tmp" using dist by (simp_all add: fs1)
  have no_tmp: "r = ?load fs' p \<and> fs2 p = fs' p" if "fs' ?tmp = None"
  proof -
    have "fs2 = drop_lock io' ?lock ?fs3" "r = ?load ?fs3 p"
      using rec that acq fs3(2) by (simp_all add: recover_atomic_snapshot_def io_check_simps [OF nf])
    then show ?thesis
      using drop_lock_other [of p ?lock io' ?fs3] dist(2) fs3(1)
        load_cong [of ?fs3 p fs' env de enc msg build io'] by (metis (no_types, lifting))
  qed
  have with_tmp: "case ?load ?fs3 ?tmp of Inl e \<Rightarrow> r = Inl e \<and> fs2 p = fs' p
      | Inr y \<Rightarrow> r = Inr y \<and> fs2 p = Some (N_File bs)" if "fs' ?tmp = Some (N_File bs)" "fs' p \<noteq> Some N_Dir" for bs
  proof (cases "?load ?fs3 ?tmp")
    case (Inl e)
    then have "fs2 = drop_lock io' ?lock ?fs3" "r = Inl e"
      using rec that acq fs3 by (simp_all add: recover_atomic_snapshot_def io_check_simps [OF nf])
    then show ?thesis using Inl drop_lock_other [of p ?lock io' ?fs3] dist(2) fs3(1) by simp
  next
    case (Inr y)
    have "rename_file io' ?tmp p ?fs3 = (Inr (), (?fs3(?tmp := None))(p \<mapsto> N_File bs))"
      using that fs3 by (simp add: rename_file_def io_check_simps [OF nf])
    then have "r = Inr y" "fs2 = drop_lock io' ?lock ((?fs3(?tmp := None))(p \<mapsto> N_File bs))"
      using rec acq fs3 that Inr by (simp_all add: recover_atomic_snapshot_def io_check_simps [OF nf])
    then show ?thesis
      using Inr drop_lock_other [of p ?lock io' "(?fs3(?tmp := None))(p \<mapsto> N_File bs)"] dist(2) by simp
  qed
  have full: "?load ?fs3 ?tmp = Inr x" if "fs' ?tmp = Some (N_File ?b)"
    using that fs3(2) read_file [OF nf, of ?fs3 ?tmp ?b] dex build_doc [OF okx] by (simp add: load_canonical_def)
  from sp s show ?thesis
  proof (cases rule: save_cases)
    case untouched
    then have "fs' ?tmp = None" "fs' p = fs p" using tmp dist by simp_all
    then show ?thesis using no_tmp old load_cong [of fs' p fs env de enc msg build io'] by metis
  next
    case torn
    let ?bs = "take (io_partial io) ?b"
    have t: "fs' ?tmp = Some (N_File ?bs)" "fs' p = Some (N_File old)" using torn(3) dist old by simp_all
    show ?thesis
    proof (cases "io_partial io < length ?b")
      case True
      have "\<not> is_ok (?load ?fs3 ?tmp)"
        using prefix [OF True] read_file [OF nf, of ?fs3 ?tmp ?bs] t(1) fs3(2)
        by (auto simp: load_canonical_def is_ok_iff try_r_eq_Inr)
      then show ?thesis using with_tmp [OF t(1)] t(2) by (auto split: sum.splits)
    next
      case False
      then have "?bs = ?b" by simp
      then have "fs' ?tmp = Some (N_File ?b)" using t(1) by simp
      from with_tmp [OF this] full [OF this] t(2) show ?thesis by simp
    qed
  next
    case pending
    have t: "fs' ?tmp = Some (N_File ?b)" "fs' p = Some (N_File old)" using pending(3) dist old by simp_all
    from with_tmp [OF t(1)] full [OF t(1)] t(2) show ?thesis by simp
  next
    case renamed
    have t: "fs' ?tmp = None" "fs' p = Some (N_File ?b)" using renamed dist by simp_all
    have "?load fs' p = Inr x"
      using t(2) read_file [OF nf, of fs' p ?b] dex build_doc [OF okx] by (simp add: load_canonical_def)
    then show ?thesis using no_tmp [OF t(1)] t(2) by simp
  qed
qed

end

section \<open>Properties of a save\<close>

text \<open>
  A save is atomic under every fault: whatever call of \<open>save_atomic_snapshot\<close> fails, at whatever byte a write stops, the
  primary file is either exactly what it was or exactly the new bytes, \<open>Ok\<close> is only reported in the second case and with no
  temporary file left, a pending file holds a prefix of the new bytes, and no file but the primary, the temporary and the lock file is touched.  Without
  faults and without a leftover temporary or lock file the save succeeds and releases its lock.
\<close>

theorem save_is_atomic:
  assumes "snapshot_path p" and "save_atomic_snapshot io p bytes purpose fs = (res, fs')"
  shows "(fs' p = fs p \<or> fs' p = Some (N_File bytes)) \<and>
    (res = Inr () \<longrightarrow> fs' p = Some (N_File bytes) \<and> fs' (with_extension p ''tmp'') = None) \<and>
    (fs (with_extension p ''tmp'') = None \<longrightarrow> fs' (with_extension p ''tmp'') = None \<or>
       (\<exists>n. fs' (with_extension p ''tmp'') = Some (N_File (take n bytes)) \<and> fs' p = fs p)) \<and>
    (\<forall>q. q \<noteq> p \<and> q \<noteq> with_extension p ''tmp'' \<and> q \<noteq> with_extension p ''lock'' \<longrightarrow> fs' q = fs q) \<and>
    (no_faults io \<and> fs (with_extension p ''lock'') = None \<and> fs (with_extension p ''tmp'') = None \<and> fs p \<noteq> Some N_Dir \<longrightarrow>
       res = Inr () \<and> fs' = fs(p \<mapsto> N_File bytes))"
proof -
  note dist = snapshot_path_distinct [OF assms(1)]
  have ok: "no_faults io \<and> fs (with_extension p ''lock'') = None \<and> fs (with_extension p ''tmp'') = None \<and> fs p \<noteq> Some N_Dir \<Longrightarrow>
       res = Inr () \<and> fs' = fs(p \<mapsto> N_File bytes)"
    using save_succeeds [OF assms(1), of io fs bytes purpose] assms(2) by simp
  have full: "\<exists>n. bytes = take n bytes" by (rule exI [of _ "length bytes"]) simp
  have "(fs' p = fs p \<or> fs' p = Some (N_File bytes)) \<and>
    (res = Inr () \<longrightarrow> fs' p = Some (N_File bytes) \<and> fs' (with_extension p ''tmp'') = None) \<and>
    (fs (with_extension p ''tmp'') = None \<longrightarrow> fs' (with_extension p ''tmp'') = None \<or>
       (\<exists>n. fs' (with_extension p ''tmp'') = Some (N_File (take n bytes)) \<and> fs' p = fs p)) \<and>
    (\<forall>q. q \<noteq> p \<and> q \<noteq> with_extension p ''tmp'' \<and> q \<noteq> with_extension p ''lock'' \<longrightarrow> fs' q = fs q)"
    using assms by (cases rule: save_cases) (use dist full in auto)
  then show ?thesis using ok by blast
qed

definition demo_path :: path where
  "demo_path = \<lparr>pa_dir = ''/var'', pa_stem = ''kernel'', pa_ext = Some ''json''\<rparr>"

definition demo_io :: "(io_point \<Rightarrow> string option) \<Rightarrow> io" where
  "demo_io fail = \<lparr>io_fail = fail, io_partial = 1, io_release = None, io_token = [7]\<rparr>"

theorem save_is_atomic_witness:
  "\<exists>res fs'. save_atomic_snapshot (demo_io (\<lambda>pt. if pt = IO_Write then Some ''disk full'' else None)) demo_path [1, 2, 3] ''kernel''
       [demo_path \<mapsto> N_File [9]] = (res, fs') \<and> fs' demo_path = Some (N_File [9])"
proof -
  let ?io = "demo_io (\<lambda>pt. if pt = IO_Write then Some ''disk full'' else None)"
  have sp: "snapshot_path demo_path" by (simp add: snapshot_path_def demo_path_def)
  obtain res fs' where s: "save_atomic_snapshot ?io demo_path [1, 2, 3] ''kernel'' [demo_path \<mapsto> N_File [9]] = (res, fs')"
    by fastforce
  have "lock_obtained ?io False 0 500" by (simp add: numeral_eq_Suc)
  then have "res \<noteq> Inr () \<and> fs' (with_extension demo_path ''tmp'') = Some (N_File [1])"
    using s by (auto simp: save_atomic_snapshot_def acquire_file_lock_def save_atomic_snapshot_locked_def io_check_def demo_io_def
        with_extension_def demo_path_def drop_lock_def Let_def)
  moreover have "with_extension demo_path ''tmp'' \<noteq> demo_path" by (simp add: with_extension_def demo_path_def)
  ultimately have "fs' demo_path = Some (N_File [9])"
    using save_is_atomic [OF sp s] by auto
  then show ?thesis using s by blast
qed

end
