(* ===== verification/Specialist.thy ===== *)
theory Specialist
  imports Encoding Machine "HOL-Library.Sublist"
begin

text \<open>
  Specialist identities, tool manifests and redacted telemetry of src/specialist.rs.  The consent part of that
  file is in the theory \<open>Consent\<close>.
\<close>

section \<open>Specialist identities\<close>

record specialist_identity =
  si_specialist_id :: string
  si_version :: string
  si_code_digest :: string
  si_policy_digest :: string
  si_issued_at :: u64

definition json_identity :: "specialist_identity \<Rightarrow> json" where
  "json_identity i = JObj [(''specialist_id'', JStr (si_specialist_id i)), (''version'', JStr (si_version i)),
     (''code_digest'', JStr (si_code_digest i)), (''policy_digest'', JStr (si_policy_digest i)),
     (''issued_at'', json_word (si_issued_at i))]"

definition identity_validate :: "specialist_identity \<Rightarrow> unit result" where
  "identity_validate i =
     (if si_specialist_id i = [] \<or> si_version i = [] \<or> has_control (si_specialist_id i) \<or> has_control (si_version i) \<or>
         \<not> valid_digest (si_code_digest i) \<or> \<not> valid_digest (si_policy_digest i)
      then Inl (Err_Invalid ''invalid specialist identity'') else Inr ())"

definition identity_digest :: "crypto \<Rightarrow> specialist_identity \<Rightarrow> string result" where
  "identity_digest env i = try_r (identity_validate i) (\<lambda>_. Inr (digest env (json_identity i)))"

record specialist_registry =
  sr_identities :: "(string, specialist_identity) btree"
  sr_revoked :: "string bset"

definition specialist_default :: specialist_registry where
  "specialist_default = \<lparr>sr_identities = [], sr_revoked = []\<rparr>"

definition specialist_validate :: "specialist_registry \<Rightarrow> unit result" where
  "specialist_validate r =
     (if list_ex (\<lambda>sid. \<not> bt_contains (sr_identities r) sid) (sr_revoked r)
      then Inl (Err_Invalid ''revoked specialist is not registered'')
      else check_all (\<lambda>(sid, i). if sid \<noteq> si_specialist_id i then Inl (Err_Invalid ''specialist registry key mismatch'')
             else identity_validate i) (sr_identities r))"

definition specialist_register :: "specialist_registry \<Rightarrow> specialist_identity \<Rightarrow> unit result \<times> specialist_registry" where
  "specialist_register r i =
     (case identity_validate i of
        Inl e \<Rightarrow> (Inl e, r)
      | Inr _ \<Rightarrow>
        if bs_contains (sr_revoked r) (si_specialist_id i) then (Inl (Err_Rejected ''specialist is revoked''), r)
        else if (case bt_get (sr_identities r) (si_specialist_id i) of None \<Rightarrow> False | Some old \<Rightarrow> old \<noteq> i)
        then (Inl (Err_Rejected ''specialist identity drift''), r)
        else let r' = r\<lparr>sr_identities := bt_insert (si_specialist_id i) i (sr_identities r)\<rparr>
             in (specialist_validate r', r'))"

definition specialist_revoke :: "specialist_registry \<Rightarrow> string \<Rightarrow> unit result \<times> specialist_registry" where
  "specialist_revoke r sid =
     (if \<not> bt_contains (sr_identities r) sid then (Inl (Err_Invalid ''unknown specialist''), r)
      else if bs_contains (sr_revoked r) sid then (Inl (Err_Rejected ''specialist is already revoked''), r)
      else (Inr (), r\<lparr>sr_revoked := bs_insert sid (sr_revoked r)\<rparr>))"

definition specialist_resolve :: "specialist_registry \<Rightarrow> string \<Rightarrow> u64 \<Rightarrow> specialist_identity option" where
  "specialist_resolve r sid now =
     (case bt_get (sr_identities r) sid of
        None \<Rightarrow> None
      | Some i \<Rightarrow> if \<not> bs_contains (sr_revoked r) sid \<and> si_issued_at i \<le> now then Some i else None)"

section \<open>Tool manifests\<close>

record tool_manifest =
  tm_tool_id :: string
  tm_version :: string
  tm_schema :: json
  tm_implementation_digest :: string

definition tool_manifest_validate :: "tool_manifest \<Rightarrow> unit result" where
  "tool_manifest_validate t =
     (if tm_tool_id t = [] \<or> tm_version t = [] \<or> \<not> valid_digest (tm_implementation_digest t)
      then Inl (Err_Invalid ''invalid tool manifest'') else Inr ())"

definition tool_material :: "tool_manifest \<Rightarrow> json" where
  "tool_material t = JArr [JStr (tm_tool_id t), JStr (tm_version t), tm_schema t, JStr (tm_implementation_digest t)]"

definition tool_identity_digest :: "crypto \<Rightarrow> tool_manifest \<Rightarrow> string result" where
  "tool_identity_digest env t = try_r (tool_manifest_validate t) (\<lambda>_. Inr (digest env (tool_material t)))"

record tool_registry =
  tr_manifests :: "(string, tool_manifest) btree"
  tr_frozen_digest :: "string option"
  tr_revoked :: "string bset"

definition tool_default :: tool_registry where
  "tool_default = \<lparr>tr_manifests = [], tr_frozen_digest = None, tr_revoked = []\<rparr>"

definition tool_register :: "tool_registry \<Rightarrow> tool_manifest \<Rightarrow> unit result \<times> tool_registry" where
  "tool_register r t =
     (case tool_manifest_validate t of
        Inl e \<Rightarrow> (Inl e, r)
      | Inr _ \<Rightarrow>
        if tr_frozen_digest r \<noteq> None then (Inl (Err_Rejected ''tool list is frozen''), r)
        else if bs_contains (tr_revoked r) (tm_tool_id t) then (Inl (Err_Rejected ''tool is revoked''), r)
        else if (case bt_get (tr_manifests r) (tm_tool_id t) of None \<Rightarrow> False | Some old \<Rightarrow> old \<noteq> t)
        then (Inl (Err_Rejected ''tool manifest drift''), r)
        else (Inr (), r\<lparr>tr_manifests := bt_insert (tm_tool_id t) t (tr_manifests r)\<rparr>))"

fun tool_digests :: "crypto \<Rightarrow> tool_manifest list \<Rightarrow> string list result" where
  "tool_digests env [] = Inr []"
| "tool_digests env (t # ts) = try_r (tool_identity_digest env t) (\<lambda>d. try_r (tool_digests env ts) (\<lambda>ds. Inr (d # ds)))"

definition manifest_list_digest :: "crypto \<Rightarrow> tool_registry \<Rightarrow> string result" where
  "manifest_list_digest env r =
     try_r (tool_digests env (bt_values (tr_manifests r))) (\<lambda>ids.
       Inr (digest env (JArr [json_list JStr ids, json_list JStr (tr_revoked r)])))"

definition tool_freeze :: "crypto \<Rightarrow> tool_registry \<Rightarrow> string result \<times> tool_registry" where
  "tool_freeze env r =
     (if tr_frozen_digest r \<noteq> None then (Inl (Err_Rejected ''tool list is already frozen''), r)
      else case manifest_list_digest env r of
        Inl e \<Rightarrow> (Inl e, r)
      | Inr l \<Rightarrow> (Inr l, r\<lparr>tr_frozen_digest := Some l\<rparr>))"

definition tool_revoke :: "tool_registry \<Rightarrow> string \<Rightarrow> unit result \<times> tool_registry" where
  "tool_revoke r tid =
     (if \<not> bt_contains (tr_manifests r) tid then (Inl (Err_Invalid ''unknown tool''), r)
      else if bs_contains (tr_revoked r) tid then (Inl (Err_Rejected ''tool is already revoked''), r)
      else (Inr (), r\<lparr>tr_revoked := bs_insert tid (tr_revoked r)\<rparr>))"

definition require_invocable :: "crypto \<Rightarrow> tool_registry \<Rightarrow> string \<Rightarrow> string \<Rightarrow> tool_manifest result" where
  "require_invocable env r tid manifest_digest =
     (if \<not> valid_digest manifest_digest then Inl (Err_Invalid ''tool manifest digest is malformed'')
      else if bs_contains (tr_revoked r) tid then Inl (Err_Rejected ''tool is revoked'')
      else try_r (ok_or (Err_Quarantined ''tool is unavailable'') (bt_get (tr_manifests r) tid)) (\<lambda>t.
           try_r (tool_identity_digest env t) (\<lambda>d.
           if d \<noteq> manifest_digest then Inl (Err_Rejected ''tool manifest digest mismatch'') else Inr t)))"

definition tool_validate :: "tool_registry \<Rightarrow> unit result" where
  "tool_validate r =
     (if list_ex (\<lambda>tid. \<not> bt_contains (tr_manifests r) tid) (tr_revoked r)
      then Inl (Err_Invalid ''revoked tool is not registered'')
      else try_r (check_all (\<lambda>(tid, t). if tid \<noteq> tm_tool_id t then Inl (Err_Invalid ''tool registry key mismatch'')
                    else tool_manifest_validate t) (tr_manifests r)) (\<lambda>_.
           case tr_frozen_digest r of
             None \<Rightarrow> Inr ()
           | Some d \<Rightarrow> if \<not> valid_digest d then Inl (Err_Invalid ''frozen tool digest is malformed'') else Inr ()))"

definition check_drift :: "crypto \<Rightarrow> tool_registry \<Rightarrow> bool" where
  "check_drift env r = (case tr_frozen_digest r of None \<Rightarrow> False | Some expected \<Rightarrow> manifest_list_digest env r = Inr expected)"

section \<open>Redacted telemetry\<close>

datatype telemetry_event = TE_Proposal | TE_Decision | TE_Execution | TE_Freeze | TE_Kill | TE_Rollback

datatype telemetry_outcome =
    TO_Accepted | TO_Rejected | TO_Quarantined | TO_Completed | TO_Failed | TO_Frozen | TO_Killed | TO_RolledBack

definition to_ascii_lowercase :: "string \<Rightarrow> string" where
  "to_ascii_lowercase s = map (\<lambda>c. let n = (of_char c :: nat) in if 65 \<le> n \<and> n \<le> 90 then char_of (n + 32) else c) s"

definition sensitive_fragments :: "string list" where
  "sensitive_fragments = [''credential'', ''token'', ''secret'', ''password'', ''prompt'', ''payload'', ''content'']"

definition sensitive_key :: "string \<Rightarrow> bool" where
  "sensitive_key key = list_ex (\<lambda>fragment. sublist fragment (to_ascii_lowercase key)) sensitive_fragments"

function redact :: "json \<Rightarrow> json" where
  "redact (JObj kvs) = JObj (map (\<lambda>(k, v). (k, redact v)) (filter (\<lambda>(k, v). \<not> sensitive_key k) kvs))"
| "redact (JArr vs) = JArr (map redact vs)"
| "redact JNull = JNull"
| "redact (JBool b) = JBool b"
| "redact (JInt i) = JInt i"
| "redact (JFloat w) = JFloat w"
| "redact (JStr s) = JStr s"
  by pat_completeness auto
termination
proof (relation "measure size", goal_cases)
  case (2 kvs x k v)
  then have "(k, v) \<in> set kvs" by auto
  then have "size v < size_list (size_prod (\<lambda>_. 0) size) kvs"
    by (induction kvs) auto
  then show ?case using 2 by simp
next
  case (3 vs v)
  then have "size v \<le> size_list size vs" by (rule size_list_estimation') simp
  then show ?case by simp
qed simp_all

record redacted_telemetry =
  tl_event :: telemetry_event
  tl_outcome :: telemetry_outcome
  tl_identity_digest :: string
  tl_fields :: json

definition telemetry_new :: "telemetry_event \<Rightarrow> telemetry_outcome \<Rightarrow> string \<Rightarrow> json \<Rightarrow> redacted_telemetry result" where
  "telemetry_new ev out ident kvs =
     (if \<not> valid_digest ident then Inl (Err_Invalid ''telemetry identity digest is invalid'')
      else Inr \<lparr>tl_event = ev, tl_outcome = out, tl_identity_digest = ident, tl_fields = redact kvs\<rparr>)"

section \<open>Properties\<close>

subsection \<open>Redaction\<close>

text \<open>The keys of all objects inside a value, at every depth.\<close>

fun json_keys :: "json \<Rightarrow> string list" where
  "json_keys (JObj kvs) = concat (map (\<lambda>(k, v). k # json_keys v) kvs)"
| "json_keys (JArr vs) = concat (map json_keys vs)"
| "json_keys _ = []"

lemma redact_keys: "k \<in> set (json_keys (redact v)) \<Longrightarrow> k \<in> set (json_keys v) \<and> \<not> sensitive_key k"
proof (induction v rule: redact.induct)
  case (1 kvs)
  then show ?case by fastforce
next
  case (2 vs)
  then show ?case by auto
qed auto

lemma redact_clean: "\<forall>k\<in>set (json_keys v). \<not> sensitive_key k \<Longrightarrow> redact v = v"
proof (induction v rule: redact.induct)
  case (1 kvs)
  have keep: "filter (\<lambda>(k, v). \<not> sensitive_key k) kvs = kvs" using "1.prems" by (auto simp: filter_id_conv)
  have "redact v = v" if "(k, v) \<in> set kvs" for k v
    by (rule "1.IH" [of "(k, v)"]) (use that keep "1.prems" in auto)
  then show ?case unfolding redact.simps keep by (auto intro!: map_idI)
next
  case (2 vs)
  have "redact v = v" if "v \<in> set vs" for v
    by (rule "2.IH" [OF that]) (use that "2.prems" in auto)
  then show ?case by (simp add: map_idI)
qed simp_all

text \<open>
  Telemetry carries no sensitive key: a record is made exactly for a well-formed identity digest; none of its keys, at any depth of
  objects and arrays, contains a sensitive word in any case; every key it has was in the input, an input without sensitive keys
  passes unchanged, and redacting again changes nothing.
\<close>

theorem telemetry_redacts:
  "is_ok (telemetry_new ev out ident v) = valid_digest ident \<and>
   (\<forall>t. telemetry_new ev out ident v = Inr t \<longrightarrow>
      (\<forall>k\<in>set (json_keys (tl_fields t)). k \<in> set (json_keys v) \<and> \<not> sensitive_key k) \<and>
      ((\<forall>k\<in>set (json_keys v). \<not> sensitive_key k) \<longrightarrow> tl_fields t = v) \<and> redact (tl_fields t) = tl_fields t)"
proof -
  have keys: "\<forall>k\<in>set (json_keys (redact v)). k \<in> set (json_keys v) \<and> \<not> sensitive_key k" using redact_keys by blast
  then have again: "redact (redact v) = redact v" by (intro redact_clean) blast
  have t: "tl_fields t = redact v" if "telemetry_new ev out ident v = Inr t" for t
    using that by (auto simp: telemetry_new_def split: if_splits)
  show ?thesis
  proof (intro conjI allI impI)
    show "is_ok (telemetry_new ev out ident v) = valid_digest ident" by (simp add: telemetry_new_def)
    fix t
    assume n: "telemetry_new ev out ident v = Inr t"
    show "\<forall>k\<in>set (json_keys (tl_fields t)). k \<in> set (json_keys v) \<and> \<not> sensitive_key k" unfolding t [OF n] by (rule keys)
    show "redact (tl_fields t) = tl_fields t" unfolding t [OF n] by (rule again)
    assume "\<forall>k\<in>set (json_keys v). \<not> sensitive_key k"
    then show "tl_fields t = v" unfolding t [OF n] by (rule redact_clean)
  qed
qed

theorem telemetry_redacts_witness:
  "\<exists>t. telemetry_new TE_Decision TO_Accepted zero_digest (JObj [(''apiToken'', JStr ''x''), (''a'', JArr [JObj [(''Password'', JNull)]])]) = Inr t \<and>
     (\<forall>k\<in>set (json_keys (tl_fields t)). \<not> sensitive_key k)"
proof -
  let ?n = "telemetry_new TE_Decision TO_Accepted zero_digest (JObj [(''apiToken'', JStr ''x''), (''a'', JArr [JObj [(''Password'', JNull)]])])"
  obtain t where "?n = Inr t" by (simp add: telemetry_new_def)
  then show ?thesis using telemetry_redacts by blast
qed

subsection \<open>Identities\<close>

datatype specialist_op = SP_Register specialist_identity | SP_Revoke string

fun specialist_do :: "specialist_registry \<Rightarrow> specialist_op \<Rightarrow> unit result \<times> specialist_registry" where
  "specialist_do r (SP_Register i) = specialist_register r i"
| "specialist_do r (SP_Revoke sid) = specialist_revoke r sid"

definition specialist_step :: "specialist_registry \<Rightarrow> specialist_op \<Rightarrow> specialist_registry" where
  "specialist_step r a = snd (specialist_do r a)"

definition specialist_inv :: "specialist_registry \<Rightarrow> bool" where
  "specialist_inv r \<longleftrightarrow> bt_wf (sr_identities r) \<and> specialist_validate r = Inr ()"

definition specialist_grows :: "specialist_registry \<Rightarrow> specialist_registry \<Rightarrow> bool" where
  "specialist_grows r r' \<longleftrightarrow> set (sr_revoked r) \<subseteq> set (sr_revoked r') \<and>
     (\<forall>sid i. bt_get (sr_identities r) sid = Some i \<longrightarrow> bt_get (sr_identities r') sid = Some i)"

lemma specialist_validate_iff:
  "bt_wf (sr_identities r) \<Longrightarrow> specialist_validate r = Inr () \<longleftrightarrow>
     (\<forall>sid\<in>set (sr_revoked r). bt_get (sr_identities r) sid \<noteq> None) \<and>
     (\<forall>sid i. bt_get (sr_identities r) sid = Some i \<longrightarrow> si_specialist_id i = sid \<and> identity_validate i = Inr ())"
  by (auto simp: specialist_validate_def check_all_ok bt_get_mem bt_contains_def list_ex_iff split: if_splits)

lemma specialist_register_cases:
  assumes inv: "specialist_inv r"
  obtains (fails) e where "specialist_register r i = (Inl e, r)"
  | (succeeds) "specialist_register r i = (Inr (), r\<lparr>sr_identities := bt_insert (si_specialist_id i) i (sr_identities r)\<rparr>)"
      "specialist_inv (r\<lparr>sr_identities := bt_insert (si_specialist_id i) i (sr_identities r)\<rparr>)"
      "bt_get (sr_identities r) (si_specialist_id i) \<in> {None, Some i}"
proof (cases "identity_validate i = Inr () \<and> si_specialist_id i \<notin> set (sr_revoked r) \<and> bt_get (sr_identities r) (si_specialist_id i) \<in> {None, Some i}")
  case True
  let ?r = "r\<lparr>sr_identities := bt_insert (si_specialist_id i) i (sr_identities r)\<rparr>"
  have wf: "bt_wf (sr_identities r)" "bt_wf (sr_identities ?r)" using inv by (simp_all add: specialist_inv_def bt_wf_insert)
  have v: "specialist_validate ?r = Inr ()"
    using inv True wf(1) unfolding specialist_validate_iff [OF wf(2)] by (auto simp: specialist_inv_def specialist_validate_iff)
  then show thesis using True wf by (intro succeeds) (auto simp: specialist_register_def specialist_inv_def bs_contains_def Let_def)
next
  case False
  then have "\<exists>e. specialist_register r i = (Inl e, r)"
    by (cases "identity_validate i") (auto simp: specialist_register_def bs_contains_def split: option.splits)
  then show thesis using fails by blast
qed

lemma specialist_revoke_cases:
  assumes inv: "specialist_inv r"
  obtains (fails) e where "specialist_revoke r sid = (Inl e, r)"
  | (succeeds) "specialist_revoke r sid = (Inr (), r\<lparr>sr_revoked := bs_insert sid (sr_revoked r)\<rparr>)"
      "specialist_inv (r\<lparr>sr_revoked := bs_insert sid (sr_revoked r)\<rparr>)"
proof (cases "bt_contains (sr_identities r) sid \<and> sid \<notin> set (sr_revoked r)")
  case True
  have "specialist_inv (r\<lparr>sr_revoked := bs_insert sid (sr_revoked r)\<rparr>)"
    using inv True by (auto simp: specialist_inv_def specialist_validate_iff bt_contains_def)
  then show thesis using True by (intro succeeds) (auto simp: specialist_revoke_def bs_contains_def)
next
  case False
  then have "\<exists>e. specialist_revoke r sid = (Inl e, r)" by (auto simp: specialist_revoke_def bs_contains_def)
  then show thesis using fails by blast
qed

lemma specialist_step_ok:
  assumes "specialist_inv r"
  shows "specialist_inv (specialist_step r a) \<and> specialist_grows r (specialist_step r a) \<and>
    (is_ok (fst (specialist_do r a)) \<or> snd (specialist_do r a) = r)"
proof (cases a)
  case (SP_Register i)
  from assms show ?thesis
    by (cases rule: specialist_register_cases [where i = i])
      (use assms in \<open>auto simp: SP_Register specialist_step_def specialist_grows_def\<close>)
next
  case (SP_Revoke sid)
  from assms show ?thesis
    by (cases rule: specialist_revoke_cases [where sid = sid])
      (use assms in \<open>auto simp: SP_Revoke specialist_step_def specialist_grows_def\<close>)
qed

interpretation specialist_machine: monotone_machine specialist_step specialist_inv specialist_grows
proof
  show "specialist_inv (specialist_step r a)" if "specialist_inv r" for r a using specialist_step_ok [OF that] by blast
  show "specialist_grows r (specialist_step r a)" if "specialist_inv r" for r a using specialist_step_ok [OF that] by blast
  show "specialist_grows r r" for r by (simp add: specialist_grows_def)
  show "specialist_grows r u" if "specialist_grows r t" "specialist_grows t u" for r t u
    using that by (auto simp: specialist_grows_def)
qed

abbreviation specialist_run :: "specialist_registry \<Rightarrow> specialist_op list \<Rightarrow> specialist_registry" where
  "specialist_run \<equiv> run_ops specialist_step"

lemma specialist_run_inv: "specialist_inv (specialist_run specialist_default ops)"
  by (rule specialist_machine.run_inv) (simp add: specialist_inv_def specialist_default_def specialist_validate_def)

text \<open>
  Identities do not drift: after any operations the registry validates and a failing operation has changed nothing; an identity once
  registered is never replaced, so whatever \<open>resolve\<close> returns later is that identity; and a revoked specialist never resolves again.
\<close>

theorem specialist_identity_stable:
  assumes "r = specialist_run specialist_default ops" and "bt_get (sr_identities r) sid = Some i"
  shows "specialist_validate r = Inr () \<and> (is_ok (fst (specialist_do r a)) \<or> snd (specialist_do r a) = r) \<and>
    specialist_resolve (specialist_run r ops') sid now \<in> {None, Some i} \<and>
    (sid \<in> set (sr_revoked r) \<longrightarrow> specialist_resolve (specialist_run r ops') sid now = None)"
proof -
  have inv: "specialist_inv r" using specialist_run_inv assms(1) by simp
  have "specialist_grows r (specialist_run r ops')" by (rule specialist_machine.run_grows [OF inv])
  then show ?thesis
    using inv assms(2) specialist_step_ok [OF inv, of a]
    by (auto simp: specialist_grows_def specialist_inv_def specialist_resolve_def bs_contains_def split: option.splits)
qed

definition demo_identity :: specialist_identity where
  "demo_identity = \<lparr>si_specialist_id = ''s1'', si_version = ''1'', si_code_digest = zero_digest, si_policy_digest = zero_digest, si_issued_at = 5\<rparr>"

lemma demo_specialist_run: "specialist_run specialist_default [SP_Register demo_identity] = \<lparr>sr_identities = [(''s1'', demo_identity)], sr_revoked = []\<rparr>"
  by code_simp

theorem specialist_identity_stable_witness:
  "specialist_resolve (specialist_run (specialist_run specialist_default [SP_Register demo_identity]) [SP_Revoke ''s1'']) ''s1'' 9 \<in> {None, Some demo_identity}"
  using specialist_identity_stable [of _ "[SP_Register demo_identity]" "''s1''" demo_identity "SP_Revoke ''s1''" "[SP_Revoke ''s1'']" 9, OF refl]
  unfolding demo_specialist_run by simp

subsection \<open>The frozen tool list\<close>

datatype tool_op = TL_Register tool_manifest | TL_Freeze | TL_Revoke string

fun tool_step :: "crypto \<Rightarrow> tool_registry \<Rightarrow> tool_op \<Rightarrow> tool_registry" where
  "tool_step env r (TL_Register t) = snd (tool_register r t)"
| "tool_step env r TL_Freeze = snd (tool_freeze env r)"
| "tool_step env r (TL_Revoke tid) = snd (tool_revoke r tid)"

definition tool_grows :: "tool_registry \<Rightarrow> tool_registry \<Rightarrow> bool" where
  "tool_grows r r' \<longleftrightarrow> set (tr_revoked r) \<subseteq> set (tr_revoked r') \<and> (bs_wf (tr_revoked r) \<longrightarrow> bs_wf (tr_revoked r')) \<and>
     (\<forall>d. tr_frozen_digest r = Some d \<longrightarrow> tr_frozen_digest r' = Some d \<and> tr_manifests r' = tr_manifests r)"

interpretation tool_machine: monotone_machine "tool_step env" "\<lambda>_. True" tool_grows for env
proof
  show "tool_grows r (tool_step env r a)" for r a
    by (cases a) (auto simp: tool_grows_def tool_register_def tool_freeze_def tool_revoke_def bs_contains_def
        intro: bs_wf_insert split: sum.splits)
  show "tool_grows r u" if "tool_grows r t" "tool_grows t u" for r t u using that unfolding tool_grows_def by fastforce
qed (simp_all add: tool_grows_def)

abbreviation tool_run :: "crypto \<Rightarrow> tool_registry \<Rightarrow> tool_op list \<Rightarrow> tool_registry" where
  "tool_run env \<equiv> run_ops (tool_step env)"

text \<open>
  A frozen tool list stays what it was: after \<open>freeze\<close> no operation adds or changes a manifest or the frozen digest, and \<open>check_drift\<close>
  holds exactly as long as no tool has been revoked since, unless the two lists of revoked tools exhibit a collision.
  A revoked tool can never be invoked again.
\<close>

theorem tool_freeze_pins:
  assumes "tool_freeze env (tool_run env tool_default ops) = (Inr l, r)" and "r' = tool_run env r ops'"
  shows "tr_manifests r' = tr_manifests (tool_run env tool_default ops) \<and> tr_frozen_digest r' = Some l \<and>
    \<not> is_ok (fst (tool_register r' t)) \<and>
    (tr_revoked r' = tr_revoked r \<longrightarrow> check_drift env r') \<and>
    (check_drift env r' \<longrightarrow> tr_revoked r' = tr_revoked r \<or>
       (\<exists>ids. tool_digests env (bt_values (tr_manifests r)) = Inr ids \<and>
          collision env (JArr [json_list JStr ids, json_list JStr (tr_revoked r')]) (JArr [json_list JStr ids, json_list JStr (tr_revoked r)]))) \<and>
    (tid \<in> set (tr_revoked r) \<longrightarrow> \<not> is_ok (require_invocable env r' tid d))"
proof -
  let ?r0 = "tool_run env tool_default ops"
  have r: "r = ?r0\<lparr>tr_frozen_digest := Some l\<rparr>" "manifest_list_digest env ?r0 = Inr l"
    using assms(1) by (auto simp: tool_freeze_def split: if_splits sum.splits)
  have g: "tool_grows r r'" unfolding assms(2) by (rule tool_machine.run_grows) simp
  then have r': "tr_manifests r' = tr_manifests ?r0" "tr_frozen_digest r' = Some l" "set (tr_revoked r) \<subseteq> set (tr_revoked r')"
    by (simp_all add: tool_grows_def r(1))
  obtain ids where ids: "tool_digests env (bt_values (tr_manifests ?r0)) = Inr ids"
    and l: "l = digest env (JArr [json_list JStr ids, json_list JStr (tr_revoked ?r0)])"
    using r(2) by (auto simp: manifest_list_digest_def try_r_eq_Inr)
  have drift: "check_drift env r' \<longleftrightarrow>
      digest env (JArr [json_list JStr ids, json_list JStr (tr_revoked r')]) = digest env (JArr [json_list JStr ids, json_list JStr (tr_revoked r)])"
    using r' ids l r(1) by (auto simp: check_drift_def manifest_list_digest_def)
  have reg: "\<not> is_ok (fst (tool_register r' t))"
    using r'(2) by (cases "tool_manifest_validate t") (simp_all add: tool_register_def)
  have inv: "\<not> is_ok (require_invocable env r' tid d)" if "tid \<in> set (tr_revoked r)"
    using that r'(3) by (auto simp: require_invocable_def bs_contains_def)
  have "tr_revoked r' = tr_revoked r \<or>
       (\<exists>ids. tool_digests env (bt_values (tr_manifests r)) = Inr ids \<and>
          collision env (JArr [json_list JStr ids, json_list JStr (tr_revoked r')]) (JArr [json_list JStr ids, json_list JStr (tr_revoked r)]))"
    if "check_drift env r'"
    using digest_eq_cases [OF that [unfolded drift]] ids r(1) by auto
  then show ?thesis using r' reg inv drift by simp
qed

definition demo_tool :: tool_manifest where
  "demo_tool = \<lparr>tm_tool_id = ''t1'', tm_version = ''1'', tm_schema = JNull, tm_implementation_digest = zero_digest\<rparr>"

theorem tool_freeze_pins_witness:
  "tr_manifests (tool_run demo_env (snd (tool_freeze demo_env (tool_run demo_env tool_default [TL_Register demo_tool]))) [TL_Revoke ''t1'']) =
     tr_manifests (tool_run demo_env tool_default [TL_Register demo_tool])"
proof -
  have "tool_run demo_env tool_default [TL_Register demo_tool] =
      \<lparr>tr_manifests = [(''t1'', demo_tool)], tr_frozen_digest = None, tr_revoked = []\<rparr>"
    by code_simp
  moreover have "manifest_list_digest demo_env \<lparr>tr_manifests = [(''t1'', demo_tool)], tr_frozen_digest = None, tr_revoked = []\<rparr> = Inr zero_digest"
    by (simp add: manifest_list_digest_def bt_values_def tool_identity_digest_def tool_manifest_validate_def demo_tool_def)
  ultimately have "tool_freeze demo_env (tool_run demo_env tool_default [TL_Register demo_tool]) =
      (Inr zero_digest, \<lparr>tr_manifests = [(''t1'', demo_tool)], tr_frozen_digest = Some zero_digest, tr_revoked = []\<rparr>)"
    by (simp add: tool_freeze_def)
  then show ?thesis using tool_freeze_pins [where ops' = "[TL_Revoke ''t1'']", OF _ refl, THEN conjunct1] by (metis snd_conv)
qed

end
