(* ===== verification/Consent.thy ===== *)
theory Consent
  imports Persistence Specialist
begin

text \<open>
  Consent grants and the consent registry of src/specialist.rs with its snapshot file, and the tenant retrieval that is gated by it.  A handle
  of a registry is a record; a handle with a path takes the writer lock, reads the snapshot again and writes it back on every
  update, so the file and not the handle decides.  The calls into the operating system go through plans of the theory
  \<open>Persistence\<close>, one for each phase of an operation, and the file mode is asked of the plan too.
\<close>

section \<open>Grants\<close>

record consent_grant =
  cg_tenant_id :: string
  cg_specialist_id :: string
  cg_resource_ids :: "string bset"
  cg_issued_at :: u64
  cg_expires_at :: u64
  cg_grant_id :: string

definition grant_material :: "consent_grant \<Rightarrow> json" where
  "grant_material g = JArr [JStr (cg_tenant_id g), JStr (cg_specialist_id g), json_list JStr (cg_resource_ids g),
     json_word (cg_issued_at g), json_word (cg_expires_at g)]"

definition json_consent_grant :: "consent_grant \<Rightarrow> json" where
  "json_consent_grant g = JObj
    [(''tenant_id'', JStr (cg_tenant_id g)), (''specialist_id'', JStr (cg_specialist_id g)),
     (''resource_ids'', json_list JStr (cg_resource_ids g)), (''issued_at'', json_word (cg_issued_at g)),
     (''expires_at'', json_word (cg_expires_at g)), (''grant_id'', JStr (cg_grant_id g))]"

definition grant_validate :: "crypto \<Rightarrow> consent_grant \<Rightarrow> unit result" where
  "grant_validate env g =
     (if cg_tenant_id g = [] \<or> cg_specialist_id g = [] \<or> cg_resource_ids g = [] \<or> list_ex (\<lambda>r. r = []) (cg_resource_ids g) \<or>
         cg_expires_at g \<le> cg_issued_at g \<or> \<not> valid_digest (cg_grant_id g)
      then Inl (Err_Invalid ''invalid consent grant'')
      else if digest env (grant_material g) \<noteq> cg_grant_id g then Inl (Err_Rejected ''consent grant digest mismatch'')
      else Inr ())"

definition consent_grant_new :: "crypto \<Rightarrow> string \<Rightarrow> string \<Rightarrow> string bset \<Rightarrow> u64 \<Rightarrow> u64 \<Rightarrow> consent_grant result" where
  "consent_grant_new env tenant specialist resources issued expires =
     (if tenant = [] \<or> specialist = [] \<or> resources = [] \<or> expires \<le> issued
      then Inl (Err_Invalid ''invalid consent grant'')
      else let gid = digest env (JArr [JStr tenant, JStr specialist, json_list JStr resources, json_word issued, json_word expires]);
               g = \<lparr>cg_tenant_id = tenant, cg_specialist_id = specialist, cg_resource_ids = resources,
                    cg_issued_at = issued, cg_expires_at = expires, cg_grant_id = gid\<rparr>
           in try_r (grant_validate env g) (\<lambda>_. Inr g))"

definition grant_active :: "crypto \<Rightarrow> consent_grant \<Rightarrow> u64 \<Rightarrow> bool" where
  "grant_active env g now \<longleftrightarrow> is_ok (grant_validate env g) \<and> cg_issued_at g \<le> now \<and> now < cg_expires_at g"

definition grant_allows :: "consent_grant \<Rightarrow> string \<Rightarrow> bool" where
  "grant_allows g resource \<longleftrightarrow> bs_contains (cg_resource_ids g) resource \<or> bs_contains (cg_resource_ids g) ''*''"

section \<open>The registry in memory\<close>

record consent_document =
  cd_version :: u8
  cd_grants :: "consent_grant list"
  cd_revoked_grants :: "string bset"

record consent_registry =
  cn_grants :: "(string, consent_grant) btree"
  cn_revoked_grants :: "string bset"
  cn_persistence_path :: "path option"

definition consent_default :: consent_registry where
  "consent_default = \<lparr>cn_grants = [], cn_revoked_grants = [], cn_persistence_path = None\<rparr>"

definition consent_validate :: "crypto \<Rightarrow> consent_registry \<Rightarrow> unit result" where
  "consent_validate env r =
     (if list_ex (\<lambda>gid. \<not> valid_digest gid \<or> bt_contains (cn_grants r) gid) (cn_revoked_grants r)
      then Inl (Err_Invalid ''invalid consent revocation ledger'')
      else check_all (\<lambda>(gid, g). if gid \<noteq> cg_grant_id g then Inl (Err_Invalid ''consent registry key mismatch'')
                                 else grant_validate env g) (cn_grants r))"

definition grant_in_memory :: "crypto \<Rightarrow> consent_grant \<Rightarrow> consent_registry \<Rightarrow> unit result \<times> consent_registry" where
  "grant_in_memory env g r =
     (case grant_validate env g of
        Inl e \<Rightarrow> (Inl e, r)
      | Inr _ \<Rightarrow>
        if bs_contains (cn_revoked_grants r) (cg_grant_id g) then (Inl (Err_Rejected ''consent grant was revoked''), r)
        else if (case bt_get (cn_grants r) (cg_grant_id g) of None \<Rightarrow> False | Some g' \<Rightarrow> g' \<noteq> g)
        then (Inl (Err_Rejected ''consent grant identity collision''), r)
        else let r' = r\<lparr>cn_grants := bt_insert (cg_grant_id g) g (cn_grants r)\<rparr> in (consent_validate env r', r'))"

definition revoke_in_memory :: "crypto \<Rightarrow> string \<Rightarrow> consent_registry \<Rightarrow> unit result \<times> consent_registry" where
  "revoke_in_memory env gid r =
     (if bs_contains (cn_revoked_grants r) gid then (Inl (Err_Rejected ''consent grant is already revoked''), r)
      else if \<not> bt_contains (cn_grants r) gid then (Inl (Err_Invalid ''unknown consent grant''), r)
      else let r' = r\<lparr>cn_grants := filter (\<lambda>e. fst e \<noteq> gid) (cn_grants r),
                      cn_revoked_grants := bs_insert gid (cn_revoked_grants r)\<rparr>
           in (consent_validate env r', r'))"

definition contains_active_grant :: "crypto \<Rightarrow> consent_registry \<Rightarrow> consent_grant \<Rightarrow> u64 \<Rightarrow> bool" where
  "contains_active_grant env r g now \<longleftrightarrow>
     is_ok (consent_validate env r) \<and> is_ok (grant_validate env g) \<and> bt_get (cn_grants r) (cg_grant_id g) = Some g \<and>
     grant_active env g now"

section \<open>The snapshot file\<close>

definition CONSENT_FORMAT_VERSION :: u8 where
  "CONSENT_FORMAT_VERSION = 1"

text \<open>
  What the operating system does during one operation: \<open>pl_lock\<close> while the lock is taken and released, \<open>pl_exists\<close> on the checks
  whether a file exists, \<open>pl_recover\<close> while a snapshot is read and a pending one promoted, \<open>pl_write\<close> while the new one is written, and
  which files have no permissions for group and others.
\<close>

record plan =
  pl_lock :: io
  pl_exists :: io
  pl_recover :: io
  pl_write :: io
  pl_owner_only :: "path \<Rightarrow> bool"

definition locked :: "io \<Rightarrow> path \<Rightarrow> string \<Rightarrow> (fs \<Rightarrow> 'a result \<times> fs) \<Rightarrow> fs \<Rightarrow> 'a result \<times> fs" where
  "locked io p purpose body fs =
     (case acquire_file_lock io p purpose fs of
        (Inl e, fs1) \<Rightarrow> (Inl e, fs1)
      | (Inr _, fs1) \<Rightarrow> (case body fs1 of (res, fs2) \<Rightarrow> (res, drop_lock io (with_extension p ''lock'') fs2)))"

text \<open>The calls of \<open>write_consent_snapshot\<close> are those of \<open>save_atomic_snapshot_locked\<close>, in the same order.\<close>

definition write_consent_snapshot :: "io \<Rightarrow> path \<Rightarrow> u8 list \<Rightarrow> fs \<Rightarrow> unit result \<times> fs" where
  "write_consent_snapshot io p bytes fs = save_atomic_snapshot_locked io p bytes fs"

definition read_consent_snapshot :: "plan \<Rightarrow> fs \<Rightarrow> path \<Rightarrow> u8 list result" where
  "read_consent_snapshot pl fs p =
     try_r (io_check (pl_recover pl) IO_Stat) (\<lambda>_.
     case fs p of
       None \<Rightarrow> Inl not_found
     | Some (N_File bytes) \<Rightarrow>
         if \<not> pl_owner_only pl p then Inl (Err_Journal ''consent registry snapshot is not owner-only'')
         else try_r (io_check (pl_recover pl) IO_Read) (\<lambda>_. Inr bytes)
     | Some _ \<Rightarrow> Inl (Err_Journal ''consent registry snapshot is not a regular file''))"

definition snapshot_exists :: "io \<Rightarrow> fs \<Rightarrow> path \<Rightarrow> bool result" where
  "snapshot_exists io fs p =
     (case io_check io IO_Stat of
        Inl e \<Rightarrow> if e = not_found then Inr False else Inl e
      | Inr _ \<Rightarrow> Inr (fs p \<noteq> None))"

definition consent_document_of :: "consent_registry \<Rightarrow> consent_document" where
  "consent_document_of r = \<lparr>cd_version = CONSENT_FORMAT_VERSION, cd_grants = bt_values (cn_grants r),
     cd_revoked_grants = cn_revoked_grants r\<rparr>"

definition json_consent_document :: "consent_document \<Rightarrow> json" where
  "json_consent_document d = JObj
    [(''version'', json_word (cd_version d)), (''grants'', json_list json_consent_grant (cd_grants d)),
     (''revoked_grants'', json_list JStr (cd_revoked_grants d))]"

definition write_snapshot :: "crypto \<Rightarrow> plan \<Rightarrow> consent_registry \<Rightarrow> path \<Rightarrow> fs \<Rightarrow> unit result \<times> fs" where
  "write_snapshot env pl r p fs =
     (case consent_validate env r of
        Inl e \<Rightarrow> (Inl e, fs)
      | Inr _ \<Rightarrow> write_consent_snapshot (pl_write pl) p (canonical_bytes env (json_consent_document (consent_document_of r))) fs)"

text \<open>The text of an error, as \<open>load\<close> embeds it into its own.\<close>

fun error_display :: "error \<Rightarrow> string" where
  "error_display (Err_Invalid m) = ''invalid input: '' @ m"
| "error_display (Err_Rejected m) = ''rejected: '' @ m"
| "error_display (Err_Quarantined m) = ''quarantined: '' @ m"
| "error_display (Err_Journal m) = ''journal error: '' @ m"
| "error_display (Err_Persistence m) = ''persistence error: '' @ m"
| "error_display (Err_Serialization m) = ''serialization error: '' @ m"

fun insert_grants :: "crypto \<Rightarrow> (string, consent_grant) btree \<Rightarrow> consent_grant list \<Rightarrow> (string, consent_grant) btree result" where
  "insert_grants env m [] = Inr m"
| "insert_grants env m (g # gs) =
     try_r (grant_validate env g) (\<lambda>_.
     if bt_contains m (cg_grant_id g) then Inl (Err_Journal ''duplicate consent grant identity'')
     else insert_grants env (bt_insert (cg_grant_id g) g m) gs)"

definition consent_build :: "crypto \<Rightarrow> consent_document \<Rightarrow> consent_registry result" where
  "consent_build env d =
     try_r (insert_grants env [] (cd_grants d)) (\<lambda>m.
     let r = \<lparr>cn_grants = m, cn_revoked_grants = cd_revoked_grants d, cn_persistence_path = None\<rparr>
     in try_r (map_err (\<lambda>e. Err_Journal (''invalid consent registry: '' @ error_display e)) (consent_validate env r)) (\<lambda>_. Inr r))"

definition consent_load ::
  "crypto \<Rightarrow> (u8 list \<Rightarrow> string + consent_document) \<Rightarrow> plan \<Rightarrow> fs \<Rightarrow> path \<Rightarrow> consent_registry result" where
  "consent_load env de pl fs p =
     try_r (read_consent_snapshot pl fs p) (\<lambda>bytes.
     try_r (map_err Err_Serialization (de bytes)) (\<lambda>d.
     if cd_version d \<noteq> CONSENT_FORMAT_VERSION \<or> canonical_bytes env (json_consent_document d) \<noteq> bytes
     then Inl (Err_Journal ''consent registry bytes are noncanonical or unsupported'')
     else consent_build env d))"

definition consent_recover_locked ::
  "crypto \<Rightarrow> (u8 list \<Rightarrow> string + consent_document) \<Rightarrow> plan \<Rightarrow> path \<Rightarrow> fs \<Rightarrow> consent_registry result \<times> fs" where
  "consent_recover_locked env de pl p fs =
     (let tmp = with_extension p ''tmp'' in
      case snapshot_exists (pl_exists pl) fs tmp of
        Inl e \<Rightarrow> (Inl e, fs)
      | Inr True \<Rightarrow>
          (case consent_load env de pl fs tmp of
             Inl e \<Rightarrow> (Inl e, fs)
           | Inr pending \<Rightarrow>
             (case rename_file (pl_recover pl) tmp p fs of
                (Inl e, fs1) \<Rightarrow> (Inl e, fs1)
              | (Inr _, fs1) \<Rightarrow> (try_r (io_check (pl_recover pl) IO_Dir) (\<lambda>_. Inr pending), fs1)))
      | Inr False \<Rightarrow> (consent_load env de pl fs p, fs))"

section \<open>The operations of a handle\<close>

definition consent_open ::
  "crypto \<Rightarrow> (u8 list \<Rightarrow> string + consent_document) \<Rightarrow> plan \<Rightarrow> path \<Rightarrow> fs \<Rightarrow> consent_registry result \<times> fs" where
  "consent_open env de pl p = locked (pl_lock pl) p ''consent registry'' (\<lambda>fs.
     case consent_recover_locked env de pl p fs of
       (Inr r, fs1) \<Rightarrow> (Inr (r\<lparr>cn_persistence_path := Some p\<rparr>), fs1)
     | (Inl e, fs1) \<Rightarrow>
         if e = not_found
         then (case write_snapshot env pl consent_default p fs1 of
                 (Inl e', fs2) \<Rightarrow> (Inl e', fs2)
               | (Inr _, fs2) \<Rightarrow> (Inr (consent_default\<lparr>cn_persistence_path := Some p\<rparr>), fs2))
         else (Inl e, fs1))"

definition update_persistent ::
  "crypto \<Rightarrow> (u8 list \<Rightarrow> string + consent_document) \<Rightarrow> plan \<Rightarrow> (consent_registry \<Rightarrow> unit result \<times> consent_registry) \<Rightarrow>
   consent_registry \<Rightarrow> fs \<Rightarrow> unit result \<times> consent_registry \<times> fs" where
  "update_persistent env de pl update r fs =
     (case cn_persistence_path r of
        None \<Rightarrow> (case update r of (res, r') \<Rightarrow> (res, r', fs))
      | Some p \<Rightarrow>
        (case locked (pl_lock pl) p ''consent registry'' (\<lambda>fs.
            case consent_recover_locked env de pl p fs of
              (Inl e, fs1) \<Rightarrow> (Inl e, fs1)
            | (Inr current, fs1) \<Rightarrow>
              (case update current of
                 (Inl e, _) \<Rightarrow> (Inl e, fs1)
               | (Inr _, current') \<Rightarrow>
                 (case write_snapshot env pl current' p fs1 of
                    (Inl e, fs2) \<Rightarrow> (Inl e, fs2)
                  | (Inr _, fs2) \<Rightarrow> (Inr current', fs2)))) fs
         of (Inl e, fs') \<Rightarrow> (Inl e, r, fs')
          | (Inr current', fs') \<Rightarrow>
              (Inr (), r\<lparr>cn_grants := cn_grants current', cn_revoked_grants := cn_revoked_grants current'\<rparr>, fs')))"

definition consent_grant_op ::
  "crypto \<Rightarrow> (u8 list \<Rightarrow> string + consent_document) \<Rightarrow> plan \<Rightarrow> consent_registry \<Rightarrow> consent_grant \<Rightarrow> fs \<Rightarrow>
   unit result \<times> consent_registry \<times> fs" where
  "consent_grant_op env de pl r g fs = update_persistent env de pl (grant_in_memory env g) r fs"

definition consent_revoke ::
  "crypto \<Rightarrow> (u8 list \<Rightarrow> string + consent_document) \<Rightarrow> plan \<Rightarrow> consent_registry \<Rightarrow> string \<Rightarrow> fs \<Rightarrow>
   unit result \<times> consent_registry \<times> fs" where
  "consent_revoke env de pl r gid fs = update_persistent env de pl (revoke_in_memory env gid) r fs"

definition has_active_grant ::
  "crypto \<Rightarrow> (u8 list \<Rightarrow> string + consent_document) \<Rightarrow> plan \<Rightarrow> consent_registry \<Rightarrow> consent_grant \<Rightarrow> u64 \<Rightarrow> fs \<Rightarrow> bool \<times> fs" where
  "has_active_grant env de pl r g now fs =
     (case cn_persistence_path r of
        Some p \<Rightarrow>
          (case locked (pl_lock pl) p ''consent registry'' (consent_recover_locked env de pl p) fs of
             (Inl _, fs') \<Rightarrow> (False, fs')
           | (Inr current, fs') \<Rightarrow> (contains_active_grant env current g now, fs'))
      | None \<Rightarrow> (contains_active_grant env r g now, fs))"

definition with_active_grant ::
  "crypto \<Rightarrow> (u8 list \<Rightarrow> string + consent_document) \<Rightarrow> plan \<Rightarrow> consent_registry \<Rightarrow> consent_grant \<Rightarrow> u64 \<Rightarrow>
   (fs \<Rightarrow> 'a result \<times> fs) \<Rightarrow> fs \<Rightarrow> 'a result \<times> fs" where
  "with_active_grant env de pl r g now effect fs =
     (case cn_persistence_path r of
        Some p \<Rightarrow>
          locked (pl_lock pl) p ''consent registry'' (\<lambda>fs.
            case consent_recover_locked env de pl p fs of
              (Inl e, fs1) \<Rightarrow> (Inl e, fs1)
            | (Inr current, fs1) \<Rightarrow>
                if \<not> contains_active_grant env current g now then (Inl (Err_Rejected ''consent grant is not active''), fs1)
                else effect fs1) fs
      | None \<Rightarrow>
          if \<not> contains_active_grant env r g now then (Inl (Err_Rejected ''consent grant is not active''), fs)
          else effect fs)"

definition consent_save :: "crypto \<Rightarrow> plan \<Rightarrow> consent_registry \<Rightarrow> path \<Rightarrow> fs \<Rightarrow> unit result \<times> fs" where
  "consent_save env pl r p fs =
     (if cn_persistence_path r \<noteq> None
      then (Inl (Err_Rejected ''opened consent registries persist through grant and revoke''), fs)
      else locked (pl_lock pl) p ''consent registry'' (\<lambda>fs.
        case try_r (snapshot_exists (pl_exists pl) fs p) (\<lambda>here.
               if here then Inr True else snapshot_exists (pl_exists pl) fs (with_extension p ''tmp''))
        of Inl e \<Rightarrow> (Inl e, fs)
         | Inr True \<Rightarrow> (Inl (Err_Rejected ''initial consent snapshot already exists; open it for updates''), fs)
         | Inr False \<Rightarrow> write_snapshot env pl r p fs) fs)"

definition consent_recover ::
  "crypto \<Rightarrow> (u8 list \<Rightarrow> string + consent_document) \<Rightarrow> plan \<Rightarrow> path \<Rightarrow> fs \<Rightarrow> consent_registry result \<times> fs" where
  "consent_recover env de pl p = locked (pl_lock pl) p ''consent registry'' (\<lambda>fs.
     case consent_recover_locked env de pl p fs of
       (Inl e, fs1) \<Rightarrow> (Inl e, fs1)
     | (Inr r, fs1) \<Rightarrow> (Inr (r\<lparr>cn_persistence_path := Some p\<rparr>), fs1))"

section \<open>Tenant retrieval\<close>

type_synonym tenant_retrieval = "(string \<times> string, json) btree"

definition tenant_put :: "tenant_retrieval \<Rightarrow> string \<Rightarrow> string \<Rightarrow> json \<Rightarrow> unit result \<times> tenant_retrieval" where
  "tenant_put t tenant resource v =
     (if tenant = [] \<or> resource = [] then (Inl (Err_Invalid ''tenant and resource are required''), t)
      else (Inr (), bt_insert (tenant, resource) v t))"

definition tenant_retrieve ::
  "crypto \<Rightarrow> (u8 list \<Rightarrow> string + consent_document) \<Rightarrow> plan \<Rightarrow> tenant_retrieval \<Rightarrow> specialist_registry \<Rightarrow> consent_registry \<Rightarrow>
   consent_grant \<Rightarrow> string \<Rightarrow> u64 \<Rightarrow> fs \<Rightarrow> json result \<times> fs" where
  "tenant_retrieve env de pl t reg r g resource now fs =
     with_active_grant env de pl r g now (\<lambda>fs.
       (if \<not> grant_allows g resource \<or> specialist_resolve reg (cg_specialist_id g) now = None
        then Inl (Err_Rejected ''consent or specialist is invalid'')
        else ok_or (Err_Invalid ''resource not found'') (bt_get t (cg_tenant_id g, resource)), fs)) fs"

end
