(* ===== verification/Consent_Properties.thy ===== *)
theory Consent_Properties
  imports Consent "HOL-Library.Countable"
begin

text \<open>
  What the consent file guarantees: a revocation that reached the file survives every later operation of every handle under every fault
  (\<open>consent_revocation_final\<close>), and without faults grants and revocations take effect for all handles at once.
\<close>

section \<open>Revocations survive\<close>

text \<open>
  The JSON text of an object ends where its braces close, so no document's text is a proper beginning of another's; this is what makes a torn write
  recognisable.  A plan is honest if no call reports a file that exists as missing.
\<close>

definition self_delimiting :: "crypto \<Rightarrow> ('d \<Rightarrow> json) \<Rightarrow> bool" where
  "self_delimiting env enc \<longleftrightarrow>
     (\<forall>a b. prefix (canonical_bytes env (enc a)) (canonical_bytes env (enc b)) \<longrightarrow> enc a = enc b)"

definition honest :: "io \<Rightarrow> bool" where
  "honest io \<longleftrightarrow> (\<forall>pt. io_check io pt \<noteq> Inl not_found)"

definition plan_honest :: "plan \<Rightarrow> bool" where
  "plan_honest pl \<longleftrightarrow> honest (pl_exists pl) \<and> honest (pl_recover pl)"

definition on_file :: "crypto \<Rightarrow> path \<Rightarrow> string \<Rightarrow> fs \<Rightarrow> bool" where
  "on_file env p gid fs \<longleftrightarrow> fs p \<noteq> None \<and>
     (\<forall>q\<in>{p, with_extension p ''tmp''}. \<forall>d. fs q = Some (N_File (canonical_bytes env (json_consent_document d))) \<longrightarrow>
        gid \<in> set (cd_revoked_grants d))"

lemma on_file_cong:
  "fs' p = fs p \<Longrightarrow> fs' (with_extension p ''tmp'') = fs (with_extension p ''tmp'') \<Longrightarrow> on_file env p gid fs' = on_file env p gid fs"
  by (simp add: on_file_def)

lemma json_document_revoked:
  "json_consent_document d = json_consent_document d' \<Longrightarrow> cd_revoked_grants d = cd_revoked_grants d'"
  by (simp add: json_consent_document_def)

lemma self_delimiting_revoked:
  assumes "self_delimiting env json_consent_document"
    and "prefix (canonical_bytes env (json_consent_document d)) (canonical_bytes env (json_consent_document d'))"
  shows "cd_revoked_grants d = cd_revoked_grants d'"
  using assms json_document_revoked [of d d'] unfolding self_delimiting_def by blast

text \<open>The lock file is neither the snapshot nor its pending file.\<close>

lemma locked_rule:
  assumes sp: "snapshot_path p" and inv: "on_file env p gid fs"
    and body: "\<And>fs. on_file env p gid fs \<Longrightarrow> on_file env p gid (snd (body fs)) \<and> (\<forall>x. fst (body fs) = Inr x \<longrightarrow> Q x)"
  shows "on_file env p gid (snd (locked io p purpose body fs)) \<and> (\<forall>x. fst (locked io p purpose body fs) = Inr x \<longrightarrow> Q x)"
proof -
  let ?lock = "with_extension p ''lock''"
  note dist = snapshot_path_distinct [OF sp]
  obtain ra fs1 where acq: "acquire_file_lock io p purpose fs = (ra, fs1)" by (cases "acquire_file_lock io p purpose fs")
  have "fs1 q = fs q" if "q \<noteq> ?lock" for q using acquire_other [OF that, of io purpose fs] acq by simp
  then have inv1: "on_file env p gid fs1" using inv dist on_file_cong [of fs1 p fs env gid] by simp
  obtain res fs2 where b: "body fs1 = (res, fs2)" by (cases "body fs1")
  have "on_file env p gid (drop_lock io ?lock fs2) = on_file env p gid fs2"
    using dist by (intro on_file_cong) (simp_all add: drop_lock_other)
  then show ?thesis using inv1 body [OF inv1] acq b by (auto simp: locked_def split: sum.splits)
qed

lemma consent_load_Inr:
  assumes "consent_load env de pl fs q = Inr r"
  shows "\<exists>d. fs q = Some (N_File (canonical_bytes env (json_consent_document d))) \<and> cn_revoked_grants r = cd_revoked_grants d \<and>
    consent_validate env r = Inr ()"
proof -
  obtain bytes d where rd: "read_consent_snapshot pl fs q = Inr bytes" and b: "canonical_bytes env (json_consent_document d) = bytes"
    and bd: "consent_build env d = Inr r"
    using assms by (auto simp: consent_load_def try_r_eq_Inr split: if_splits)
  have "fs q = Some (N_File bytes)"
    using rd by (auto simp: read_consent_snapshot_def try_r_eq_Inr split: option.splits node.splits if_splits)
  moreover have "cn_revoked_grants r = cd_revoked_grants d" "consent_validate env r = Inr ()"
    using bd by (auto simp: consent_build_def Let_def try_r_eq_Inr)
  ultimately show ?thesis using b by auto
qed

lemma grant_validate_found: "grant_validate env g \<noteq> Inl not_found"
  by (simp add: grant_validate_def not_found_def)

lemma insert_grants_found: "insert_grants env m gs \<noteq> Inl not_found"
proof (induction env m gs rule: insert_grants.induct)
  case (2 env m g gs)
  then show ?case using grant_validate_found by (auto simp: try_r_eq_Inl not_found_def)
qed simp

lemma consent_load_found:
  assumes "honest (pl_recover pl)" and "fs q \<noteq> None"
  shows "consent_load env de pl fs q \<noteq> Inl not_found"
proof -
  have "read_consent_snapshot pl fs q \<noteq> Inl not_found"
    using assms by (auto simp: read_consent_snapshot_def honest_def not_found_def try_r_eq_Inl split: node.splits if_splits)
  moreover have "consent_build env d \<noteq> Inl not_found" for d
    using insert_grants_found [of env "[]" "cd_grants d"]
    by (auto simp: consent_build_def Let_def try_r_eq_Inl map_err_def not_found_def split: sum.splits)
  ultimately show ?thesis
    by (auto simp: consent_load_def try_r_eq_Inl map_err_def not_found_def split: sum.splits)
qed

text \<open>Reading the snapshot, with the promotion of a pending one, and writing one that keeps the revocation.\<close>

lemma rename_cases:
  obtains (failed) e where "rename_file io src dst fs = (Inl e, fs)"
      "honest io \<Longrightarrow> fs src \<noteq> None \<Longrightarrow> e \<noteq> not_found"
  | (moved) nd where "fs src = Some nd" "rename_file io src dst fs = (Inr (), (fs(src := None))(dst \<mapsto> nd))"
proof (cases "io_check io IO_Rename")
  case (Inl e)
  then show thesis by (intro failed [of e]) (auto simp: rename_file_def honest_def)
next
  case (Inr u)
  show thesis
  proof (cases "fs src")
    case None
    then show thesis using Inr by (intro failed [of not_found]) (auto simp: rename_file_def)
  next
    case (Some nd)
    show thesis
    proof (cases "fs dst = Some N_Dir")
      case True
      then show thesis using Inr Some by (intro failed [of is_a_directory]) (auto simp: rename_file_def is_a_directory_def not_found_def)
    next
      case False
      then show thesis using Inr Some by (intro moved) (auto simp: rename_file_def)
    qed
  qed
qed

lemma recover_cases:
  assumes "consent_recover_locked env de pl p fs = (res, fs')"
  obtains (stayed) "fs' = fs" "\<And>r. res = Inr r \<Longrightarrow> consent_load env de pl fs p = Inr r"
      "plan_honest pl \<Longrightarrow> fs p \<noteq> None \<Longrightarrow> res \<noteq> Inl not_found"
  | (promoted) nd r where "fs (with_extension p ''tmp'') = Some nd" "fs' = (fs(with_extension p ''tmp'' := None))(p \<mapsto> nd)"
      "consent_load env de pl fs (with_extension p ''tmp'') = Inr r" "\<And>r'. res = Inr r' \<Longrightarrow> r' = r"
      "plan_honest pl \<Longrightarrow> res \<noteq> Inl not_found"
proof -
  let ?tmp = "with_extension p ''tmp''"
  show thesis
  proof (cases "snapshot_exists (pl_exists pl) fs ?tmp")
    case (Inl e)
    then have "e \<noteq> not_found" by (auto simp: snapshot_exists_def split: sum.splits if_splits)
    then show thesis using assms Inl by (intro stayed) (auto simp: consent_recover_locked_def Let_def)
  next
    case (Inr ex)
    show thesis
    proof (cases ex)
      case False
      then show thesis
        using assms Inr consent_load_found [of pl fs p env de]
        by (intro stayed) (auto simp: consent_recover_locked_def Let_def plan_honest_def)
    next
      case True
      then have t: "fs ?tmp \<noteq> None" using Inr by (auto simp: snapshot_exists_def split: sum.splits if_splits)
      show thesis
      proof (cases "consent_load env de pl fs ?tmp")
        case (Inl e)
        then show thesis
          using assms Inr True consent_load_found [of pl fs ?tmp env de] t
          by (intro stayed) (auto simp: consent_recover_locked_def Let_def plan_honest_def)
      next
        case (Inr r)
        show thesis
        proof (cases rule: rename_cases [of "pl_recover pl" ?tmp p fs])
          case (failed e)
          then show thesis
            using assms \<open>snapshot_exists _ _ _ = _\<close> True Inr t
            by (intro stayed) (auto simp: consent_recover_locked_def Let_def plan_honest_def)
        next
          case (moved nd)
          then have res: "res = try_r (io_check (pl_recover pl) IO_Dir) (\<lambda>_. Inr r)" "fs' = (fs(?tmp := None))(p \<mapsto> nd)"
            using assms \<open>snapshot_exists _ _ _ = _\<close> True Inr by (auto simp: consent_recover_locked_def Let_def)
          then show thesis
            using moved Inr
            by (intro promoted) (cases "io_check (pl_recover pl) IO_Dir"; auto simp: plan_honest_def honest_def)+
        qed
      qed
    qed
  qed
qed

lemma recover_keeps:
  assumes "snapshot_path p" and "on_file env p gid fs" and "consent_recover_locked env de pl p fs = (res, fs')"
  shows "on_file env p gid fs' \<and> (\<forall>r. res = Inr r \<longrightarrow> gid \<in> set (cn_revoked_grants r)) \<and> (plan_honest pl \<longrightarrow> res \<noteq> Inl not_found)"
proof -
  note dist = snapshot_path_distinct [OF assms(1)]
  have load: "gid \<in> set (cn_revoked_grants r)"
    if "consent_load env de pl fs q = Inr r" "q \<in> {p, with_extension p ''tmp''}" for q r
    using consent_load_Inr [OF that(1)] that(2) assms(2) by (auto simp: on_file_def)
  from assms(3) show ?thesis
  proof (cases rule: recover_cases)
    case stayed
    then show ?thesis using assms(2) load [of p] by (auto simp: on_file_def)
  next
    case (promoted nd r)
    then show ?thesis using assms(2) dist load [of "with_extension p ''tmp''" r] by (auto simp: on_file_def)
  qed
qed

lemma write_keeps:
  assumes sp: "snapshot_path p" and sd: "self_delimiting env json_consent_document"
    and inv: "on_file env p gid fs" and gid: "gid \<in> set (cn_revoked_grants r)"
  shows "on_file env p gid (snd (write_snapshot env pl r p fs))"
proof (cases "consent_validate env r")
  case (Inl e)
  then show ?thesis using inv by (simp add: write_snapshot_def)
next
  case (Inr u)
  let ?tmp = "with_extension p ''tmp''" and ?b = "canonical_bytes env (json_consent_document (consent_document_of r))"
  note dist = snapshot_path_distinct [OF sp]
  have w: "write_snapshot env pl r p fs = save_atomic_snapshot_locked (pl_write pl) p ?b fs"
    using Inr by (simp add: write_snapshot_def write_consent_snapshot_def)
  have doc: "gid \<in> set (cd_revoked_grants d)" if "canonical_bytes env (json_consent_document d) = take n ?b" for d n
    using self_delimiting_revoked [OF sd, of d "consent_document_of r"] gid that by (simp add: consent_document_of_def take_is_prefix)
  have doc': "gid \<in> set (cd_revoked_grants d)" if "canonical_bytes env (json_consent_document d) = ?b" for d
    using doc [of d "length ?b"] that by simp
  show ?thesis
    unfolding w using dist(1)
    by (cases rule: save_locked_cases [where io = "pl_write pl" and bytes = ?b and fs = fs])
      (use inv dist doc [OF sym] doc' [OF sym] in \<open>auto simp: on_file_def\<close>)
qed

lemma update_keeps:
  assumes sp: "snapshot_path p" and sd: "self_delimiting env json_consent_document" and path: "cn_persistence_path r = Some p"
    and keep: "\<And>c. gid \<in> set (cn_revoked_grants c) \<Longrightarrow> gid \<in> set (cn_revoked_grants (snd (update c)))"
    and inv: "on_file env p gid fs"
  shows "on_file env p gid (snd (snd (update_persistent env de pl update r fs)))"
proof -
  let ?body = "\<lambda>fs. case consent_recover_locked env de pl p fs of
              (Inl e, fs1) \<Rightarrow> (Inl e, fs1)
            | (Inr current, fs1) \<Rightarrow>
              (case update current of
                 (Inl e, _) \<Rightarrow> (Inl e, fs1)
               | (Inr _, current') \<Rightarrow>
                 (case write_snapshot env pl current' p fs1 of
                    (Inl e, fs2) \<Rightarrow> (Inl e, fs2)
                  | (Inr _, fs2) \<Rightarrow> (Inr current', fs2)))"
  have "on_file env p gid (snd (?body fs)) \<and> (\<forall>x. fst (?body fs) = Inr x \<longrightarrow> True)" if "on_file env p gid fs" for fs
  proof -
    obtain res fs1 where rec: "consent_recover_locked env de pl p fs = (res, fs1)" by (cases "consent_recover_locked env de pl p fs")
    have inv1: "on_file env p gid fs1" and ok: "\<And>c. res = Inr c \<Longrightarrow> gid \<in> set (cn_revoked_grants c)"
      using recover_keeps [OF sp that rec] by auto
    have "on_file env p gid (snd (write_snapshot env pl (snd (update c)) p fs1))" if "res = Inr c" for c
      by (rule write_keeps [OF sp sd inv1 keep [OF ok [OF that]]])
    then show ?thesis using rec inv1 by (auto split: sum.splits prod.splits)
  qed
  then have "on_file env p gid (snd (locked (pl_lock pl) p ''consent registry'' ?body fs))"
    using locked_rule [OF sp inv, of ?body "\<lambda>_. True"] by blast
  then show ?thesis using path by (auto simp: update_persistent_def split: sum.splits prod.splits)
qed

lemma memory_updates_keep:
  "gid \<in> set (cn_revoked_grants r) \<Longrightarrow> gid \<in> set (cn_revoked_grants (snd (grant_in_memory env g r)))"
  "gid \<in> set (cn_revoked_grants r) \<Longrightarrow> gid \<in> set (cn_revoked_grants (snd (revoke_in_memory env gid' r)))"
  by (auto simp: grant_in_memory_def revoke_in_memory_def Let_def split: sum.splits)

text \<open>A read-only body: what it recovers has the revocation, and an effect elsewhere does not matter.\<close>

lemma recovered_body:
  assumes "snapshot_path p" and "on_file env p gid fs"
    and "\<And>c fs1. on_file env p gid fs1 \<Longrightarrow> gid \<in> set (cn_revoked_grants c) \<Longrightarrow> on_file env p gid (snd (f c fs1)) \<and> (\<forall>x. fst (f c fs1) = Inr x \<longrightarrow> Q x)"
  shows "on_file env p gid (snd (case consent_recover_locked env de pl p fs of (Inl e, fs1) \<Rightarrow> (Inl e, fs1) | (Inr c, fs1) \<Rightarrow> f c fs1)) \<and>
    (\<forall>x. fst (case consent_recover_locked env de pl p fs of (Inl e, fs1) \<Rightarrow> (Inl e, fs1) | (Inr c, fs1) \<Rightarrow> f c fs1) = Inr x \<longrightarrow> Q x)"
proof -
  obtain res fs1 where rec: "consent_recover_locked env de pl p fs = (res, fs1)" by (cases "consent_recover_locked env de pl p fs")
  then show ?thesis using recover_keeps [OF assms(1,2) rec] assms(3) by (cases res) auto
qed

lemma open_keeps:
  assumes "snapshot_path p" and "plan_honest pl" and "on_file env p gid fs"
  shows "on_file env p gid (snd (consent_open env de pl p fs))"
proof -
  let ?body = "\<lambda>fs. case consent_recover_locked env de pl p fs of
       (Inr r, fs1) \<Rightarrow> (Inr (r\<lparr>cn_persistence_path := Some p\<rparr>), fs1)
     | (Inl e, fs1) \<Rightarrow>
         if e = not_found
         then (case write_snapshot env pl consent_default p fs1 of
                 (Inl e', fs2) \<Rightarrow> (Inl e', fs2)
               | (Inr _, fs2) \<Rightarrow> (Inr (consent_default\<lparr>cn_persistence_path := Some p\<rparr>), fs2))
         else (Inl e, fs1)"
  have "on_file env p gid (snd (?body fs)) \<and> (\<forall>x. fst (?body fs) = Inr x \<longrightarrow> True)" if "on_file env p gid fs" for fs
  proof -
    obtain res fs1 where rec: "consent_recover_locked env de pl p fs = (res, fs1)" by (cases "consent_recover_locked env de pl p fs")
    then show ?thesis using recover_keeps [OF assms(1) that rec] assms(2) by (cases res) auto
  qed
  then show ?thesis unfolding consent_open_def using locked_rule [OF assms(1,3), of ?body "\<lambda>_. True"] by blast
qed

lemma save_keeps:
  assumes "snapshot_path p" and "plan_honest pl" and "on_file env p gid fs"
  shows "on_file env p gid (snd (consent_save env pl r p fs))"
proof -
  let ?body = "\<lambda>fs. case try_r (snapshot_exists (pl_exists pl) fs p) (\<lambda>here.
               if here then Inr True else snapshot_exists (pl_exists pl) fs (with_extension p ''tmp''))
        of Inl e \<Rightarrow> (Inl e, fs)
         | Inr True \<Rightarrow> (Inl (Err_Rejected ''initial consent snapshot already exists; open it for updates''), fs)
         | Inr False \<Rightarrow> write_snapshot env pl r p fs"
  have "on_file env p gid (snd (?body fs)) \<and> (\<forall>x. fst (?body fs) = Inr x \<longrightarrow> True)" if "on_file env p gid fs" for fs
    using that assms(2) by (auto simp: on_file_def snapshot_exists_def plan_honest_def honest_def split: sum.splits)
  then show ?thesis unfolding consent_save_def using locked_rule [OF assms(1,3), of ?body "\<lambda>_. True"] assms(3) by auto
qed

lemma revoked_not_active: "cg_grant_id g \<in> set (cn_revoked_grants c) \<Longrightarrow> \<not> contains_active_grant env c g now"
  by (auto simp: contains_active_grant_def consent_validate_def is_ok_unit list_ex_iff bt_contains_def)

lemma check_keeps:
  assumes "snapshot_path p" and "cn_persistence_path r = Some p" and "on_file env p gid fs"
  shows "on_file env p gid (snd (has_active_grant env de pl r g now fs)) \<and>
    (cg_grant_id g = gid \<longrightarrow> \<not> fst (has_active_grant env de pl r g now fs))"
proof -
  have "on_file env p gid (snd (consent_recover_locked env de pl p fs)) \<and>
      (\<forall>c. fst (consent_recover_locked env de pl p fs) = Inr c \<longrightarrow> gid \<in> set (cn_revoked_grants c))" if "on_file env p gid fs" for fs
    using recover_keeps [OF assms(1) that] by (cases "consent_recover_locked env de pl p fs") auto
  then have "on_file env p gid (snd (locked (pl_lock pl) p ''consent registry'' (consent_recover_locked env de pl p) fs)) \<and>
      (\<forall>c. fst (locked (pl_lock pl) p ''consent registry'' (consent_recover_locked env de pl p) fs) = Inr c \<longrightarrow>
        gid \<in> set (cn_revoked_grants c))"
    by (rule locked_rule [OF assms(1,3)])
  then show ?thesis using assms(2) revoked_not_active by (auto simp: has_active_grant_def split: sum.splits prod.splits)
qed

definition effect_elsewhere :: "path \<Rightarrow> (fs \<Rightarrow> 'a result \<times> fs) \<Rightarrow> bool" where
  "effect_elsewhere p effect \<longleftrightarrow>
     (\<forall>fs. \<forall>q\<in>{p, with_extension p ''tmp''}. snd (effect fs) q = fs q)"

lemma gated_keeps:
  assumes "snapshot_path p" and "cn_persistence_path r = Some p" and "on_file env p gid fs" and "effect_elsewhere p effect"
  shows "on_file env p gid (snd (with_active_grant env de pl r g now effect fs)) \<and>
    (cg_grant_id g = gid \<longrightarrow> \<not> is_ok (fst (with_active_grant env de pl r g now effect fs)))"
proof -
  let ?f = "\<lambda>c fs1. if \<not> contains_active_grant env c g now then (Inl (Err_Rejected ''consent grant is not active''), fs1) else effect fs1"
  let ?body = "\<lambda>fs. case consent_recover_locked env de pl p fs of (Inl e, fs1) \<Rightarrow> (Inl e, fs1) | (Inr c, fs1) \<Rightarrow> ?f c fs1"
  have f: "on_file env p gid (snd (?f c fs1)) \<and> (\<forall>x. fst (?f c fs1) = Inr x \<longrightarrow> cg_grant_id g \<noteq> gid)"
    if "on_file env p gid fs1" "gid \<in> set (cn_revoked_grants c)" for c fs1
    using that assms(4) on_file_cong [of "snd (effect fs1)" p fs1 env gid] revoked_not_active [of g c env now]
    by (auto simp: effect_elsewhere_def)
  have "on_file env p gid (snd (?body fs)) \<and> (\<forall>x. fst (?body fs) = Inr x \<longrightarrow> cg_grant_id g \<noteq> gid)" if "on_file env p gid fs" for fs
    by (rule recovered_body [OF assms(1) that]) (rule f)
  then have "on_file env p gid (snd (locked (pl_lock pl) p ''consent registry'' ?body fs)) \<and>
      (\<forall>x. fst (locked (pl_lock pl) p ''consent registry'' ?body fs) = Inr x \<longrightarrow> cg_grant_id g \<noteq> gid)"
    by (rule locked_rule [OF assms(1,3)])
  then show ?thesis using assms(2) by (auto simp: with_active_grant_def is_ok_iff)
qed

lemma consent_recover_keeps:
  assumes "snapshot_path p" and "on_file env p gid fs"
  shows "on_file env p gid (snd (consent_recover env de pl p fs))"
proof -
  let ?f = "\<lambda>r fs1. (Inr (r\<lparr>cn_persistence_path := Some p\<rparr>), fs1)"
  have "on_file env p gid (snd (case consent_recover_locked env de pl p fs of (Inl e, fs1) \<Rightarrow> (Inl e, fs1) | (Inr c, fs1) \<Rightarrow> ?f c fs1)) \<and>
      (\<forall>x. fst (case consent_recover_locked env de pl p fs of (Inl e, fs1) \<Rightarrow> (Inl e, fs1) | (Inr c, fs1) \<Rightarrow> ?f c fs1) = Inr x \<longrightarrow> True)"
    if "on_file env p gid fs" for fs
    by (rule recovered_body [OF assms(1) that]) simp
  then show ?thesis unfolding consent_recover_def by (rule locked_rule [OF assms, THEN conjunct1])
qed

text \<open>
  One step of any process that uses the consent file at \<open>p\<close>: an operation of any handle, however stale, under any plan, with an
  arbitrary effect under a consent gate, or anything that leaves the snapshot and its pending file alone, such as removing a lock
  that a crash left behind.
\<close>

inductive consent_step :: "crypto \<Rightarrow> (u8 list \<Rightarrow> string + consent_document) \<Rightarrow> path \<Rightarrow> fs \<Rightarrow> fs \<Rightarrow> bool" for env de p where
  opens: "plan_honest pl \<Longrightarrow> consent_step env de p fs (snd (consent_open env de pl p fs))"
| grants: "cn_persistence_path r = Some p \<Longrightarrow> consent_step env de p fs (snd (snd (consent_grant_op env de pl r g fs)))"
| revokes: "cn_persistence_path r = Some p \<Longrightarrow> consent_step env de p fs (snd (snd (consent_revoke env de pl r gid fs)))"
| checks: "cn_persistence_path r = Some p \<Longrightarrow> consent_step env de p fs (snd (has_active_grant env de pl r g now fs))"
| gates: "cn_persistence_path r = Some p \<Longrightarrow> effect_elsewhere p (effect :: fs \<Rightarrow> unit result \<times> fs) \<Longrightarrow>
    consent_step env de p fs (snd (with_active_grant env de pl r g now effect fs))"
| saves: "plan_honest pl \<Longrightarrow> consent_step env de p fs (snd (consent_save env pl r p fs))"
| recovers: "consent_step env de p fs (snd (consent_recover env de pl p fs))"
| elsewhere: "fs' p = fs p \<Longrightarrow> fs' (with_extension p ''tmp'') = fs (with_extension p ''tmp'') \<Longrightarrow> consent_step env de p fs fs'"

lemma consent_step_keeps:
  assumes "consent_step env de p fs fs'" and "snapshot_path p" and "self_delimiting env json_consent_document" and "on_file env p gid fs"
  shows "on_file env p gid fs'"
  using assms(1,4)
proof (induction rule: consent_step.induct)
  case (elsewhere fs' fs)
  then show ?case using on_file_cong [of fs' p fs env gid] by blast
qed (use assms(2,3) open_keeps save_keeps consent_recover_keeps in
  \<open>auto simp: consent_grant_op_def consent_revoke_def intro!: update_keeps memory_updates_keep check_keeps [THEN conjunct1] gated_keeps [THEN conjunct1]\<close>)

lemma consent_steps_keep:
  assumes "(consent_step env de p)\<^sup>*\<^sup>* fs fs'" and "snapshot_path p" and "self_delimiting env json_consent_document" and "on_file env p gid fs"
  shows "on_file env p gid fs'"
  using assms(1,4) by (induction rule: rtranclp_induct) (auto intro: consent_step_keeps [OF _ assms(2,3)])

text \<open>A write that succeeded leaves exactly its document, and a revocation that succeeded has written one.\<close>

lemma write_ok:
  assumes sp: "snapshot_path p" and sd: "self_delimiting env json_consent_document"
    and w: "write_snapshot env pl r p fs = (Inr (), fs')" and gid: "gid \<in> set (cn_revoked_grants r)"
  shows "on_file env p gid fs'"
proof -
  let ?b = "canonical_bytes env (json_consent_document (consent_document_of r))"
  note dist = snapshot_path_distinct [OF sp]
  have s: "save_atomic_snapshot_locked (pl_write pl) p ?b fs = (Inr (), fs')"
    using w by (auto simp: write_snapshot_def write_consent_snapshot_def split: sum.splits)
  have "fs' p = Some (N_File ?b) \<and> fs' (with_extension p ''tmp'') = None"
    using dist(1) by (cases rule: save_locked_cases [where io = "pl_write pl" and bytes = ?b and fs = fs]) (use s dist in auto)
  moreover have "gid \<in> set (cd_revoked_grants d)" if "?b = canonical_bytes env (json_consent_document d)" for d
    using self_delimiting_revoked [OF sd, of d "consent_document_of r"] gid that by (simp add: consent_document_of_def)
  ultimately show ?thesis by (auto simp: on_file_def)
qed

lemma revoke_reaches_file:
  assumes sp: "snapshot_path p" and sd: "self_delimiting env json_consent_document" and path: "cn_persistence_path r = Some p"
    and rv: "consent_revoke env de pl r gid fs = (Inr (), r', fs')"
  shows "on_file env p gid fs' \<and> gid \<in> set (cn_revoked_grants r')"
proof -
  note dist = snapshot_path_distinct [OF sp]
  obtain fs1 fs2 fs3 current current' where acq: "acquire_file_lock (pl_lock pl) p ''consent registry'' fs = (Inr (), fs1)"
    and rec: "consent_recover_locked env de pl p fs1 = (Inr current, fs2)"
    and up: "revoke_in_memory env gid current = (Inr (), current')"
    and w: "write_snapshot env pl current' p fs2 = (Inr (), fs3)"
    and out: "fs' = drop_lock (pl_lock pl) (with_extension p ''lock'') fs3"
      "r' = r\<lparr>cn_grants := cn_grants current', cn_revoked_grants := cn_revoked_grants current'\<rparr>"
    using rv path by (auto simp: consent_revoke_def update_persistent_def locked_def split: sum.splits prod.splits)
  have gid: "gid \<in> set (cn_revoked_grants current')"
    using up by (auto simp: revoke_in_memory_def Let_def split: if_splits)
  have "on_file env p gid fs3" by (rule write_ok [OF sp sd w gid])
  moreover have "on_file env p gid fs' = on_file env p gid fs3"
    using dist by (intro on_file_cong) (simp_all add: out drop_lock_other)
  ultimately show ?thesis using gid out(2) by simp
qed

lemma grant_refused:
  assumes sp: "snapshot_path p" and path: "cn_persistence_path h = Some p" and inv: "on_file env p (cg_grant_id g) fs"
  shows "\<not> is_ok (fst (consent_grant_op env de pl h g fs))"
proof
  assume "is_ok (fst (consent_grant_op env de pl h g fs))"
  then obtain fs1 fs2 current current' where acq: "acquire_file_lock (pl_lock pl) p ''consent registry'' fs = (Inr (), fs1)"
    and rec: "consent_recover_locked env de pl p fs1 = (Inr current, fs2)"
    and up: "grant_in_memory env g current = (Inr (), current')"
    using path by (auto simp: consent_grant_op_def update_persistent_def locked_def split: sum.splits prod.splits)
  note dist = snapshot_path_distinct [OF sp]
  have "on_file env p (cg_grant_id g) fs1" using inv dist on_file_cong [of fs1 p fs] by (simp add: acquire_ok [OF acq])
  then have "cg_grant_id g \<in> set (cn_revoked_grants current)" using recover_keeps [OF sp _ rec] by blast
  then show False using up by (auto simp: grant_in_memory_def bs_contains_def split: sum.splits)
qed

text \<open>
  C17.  A revocation is final for every process: once \<open>revoke\<close> has succeeded through an opened handle, then whatever operations on that file
  follow, through any handles however stale and with any faults and crashes, no handle on the file reports the grant
  active, no consent gate runs an effect for it, and it cannot be granted again.
\<close>

theorem consent_revocation_final:
  assumes "snapshot_path p" and "self_delimiting env json_consent_document"
    and "cn_persistence_path r = Some p" and "consent_revoke env de pl r (cg_grant_id g) fs = (Inr (), r', fs1)"
    and "(consent_step env de p)\<^sup>*\<^sup>* fs1 fs2" and "cn_persistence_path h = Some p"
  shows "\<not> fst (has_active_grant env de pl' h g now fs2) \<and>
    (\<exists>e. fst (with_active_grant env de pl' h g now (\<lambda>fs. (Inr v, fs)) fs2) = Inl e) \<and>
    (\<exists>e. fst (consent_grant_op env de pl' h g fs2) = Inl e)"
proof -
  have inv: "on_file env p (cg_grant_id g) fs2"
    using consent_steps_keep [OF assms(5,1,2)] revoke_reaches_file [OF assms(1,2,3,4)] by blast
  have "effect_elsewhere p (\<lambda>fs. (Inr v, fs))" by (simp add: effect_elsewhere_def)
  from gated_keeps [OF assms(1,6) inv this] have "\<not> is_ok (fst (with_active_grant env de pl' h g now (\<lambda>fs. (Inr v, fs)) fs2))"
    by blast
  then show ?thesis
    using check_keeps [OF assms(1,6) inv] grant_refused [OF assms(1,6) inv, of de pl'] by (auto simp: is_ok_def split: sum.splits)
qed

section \<open>The file without faults\<close>

definition consent_ok :: "crypto \<Rightarrow> consent_registry \<Rightarrow> bool" where
  "consent_ok env c \<longleftrightarrow> bt_wf (cn_grants c) \<and> bs_wf (cn_revoked_grants c) \<and>
     (\<forall>(k, g)\<in>set (cn_grants c). bs_wf (cg_resource_ids g)) \<and> consent_validate env c = Inr () \<and> cn_persistence_path c = None"

lemma consent_validate_iff:
  "consent_validate env c = Inr () \<longleftrightarrow>
     (\<forall>gid\<in>set (cn_revoked_grants c). valid_digest gid \<and> \<not> bt_contains (cn_grants c) gid) \<and>
     (\<forall>(gid, g)\<in>set (cn_grants c). gid = cg_grant_id g \<and> grant_validate env g = Inr ())"
  by (auto simp: consent_validate_def list_ex_iff check_all_ok split: if_splits)

lemma insert_grants_values:
  assumes "bt_wf (m @ xs)" and "\<forall>(k, g)\<in>set xs. k = cg_grant_id g \<and> grant_validate env g = Inr ()"
  shows "insert_grants env m (map snd xs) = Inr (m @ xs)"
  using assms
proof (induction xs arbitrary: m)
  case (Cons e xs)
  obtain k g where e: "e = (k, g)" by (cases e)
  have less: "\<forall>a\<in>set m. fst a < k" using Cons.prems(1) e by (auto simp: bt_wf_def sorted_wrt_append)
  then have "\<not> bt_contains m k" by (auto simp: bt_contains_iff)
  then show ?case using Cons.IH [of "m @ [e]"] Cons.prems e less by (simp add: bt_insert_last)
qed simp

interpretation consent_file: snapshot_format consent_document_of json_consent_document "consent_validate env" "consent_build env"
    "consent_ok env" for env
proof
  show "consent_build env (consent_document_of c) = Inr c" if "consent_ok env c" "consent_validate env c = Inr ()" for c
  proof -
    have "insert_grants env [] (bt_values (cn_grants c)) = Inr (cn_grants c)"
      using that insert_grants_values [of "[]" "cn_grants c" env] by (auto simp: consent_ok_def consent_validate_iff bt_values_def)
    then show ?thesis using that by (cases c) (simp add: consent_build_def consent_document_of_def Let_def consent_ok_def)
  qed
  show "consent_validate env c = Inr ()" if "consent_build env d = Inr c" for d c
    using that by (auto simp: consent_build_def Let_def try_r_eq_Inr)
qed

text \<open>Without faults a locked operation works on the file system with the lock taken, and gives it back.\<close>

definition clean :: "plan \<Rightarrow> bool" where
  "clean pl \<longleftrightarrow> no_faults (pl_lock pl) \<and> no_faults (pl_exists pl) \<and> no_faults (pl_recover pl) \<and> no_faults (pl_write pl) \<and>
     (\<forall>p. pl_owner_only pl p)"

lemma locked_clean:
  assumes "no_faults io" and "fs (with_extension p ''lock'') = None" and "fs2 (with_extension p ''lock'') = None"
    and "body (fs(with_extension p ''lock'' \<mapsto> N_File (io_token io))) = (res, fs2(with_extension p ''lock'' \<mapsto> N_File (io_token io)))"
  shows "locked io p purpose body fs = (res, fs2)"
proof -
  have "drop_lock io (with_extension p ''lock'') (fs2(with_extension p ''lock'' \<mapsto> N_File (io_token io))) = fs2"
    using assms(1,3) by (auto simp: drop_lock_def no_faults_def)
  then show ?thesis using acquire_free [OF assms(1), of fs p purpose] assms(2,4) by (simp add: locked_def)
qed

lemma save_locked_succeeds:
  assumes "snapshot_path p" and "no_faults io" and "fs (with_extension p ''tmp'') = None" and "fs p \<noteq> Some N_Dir"
  shows "save_atomic_snapshot_locked io p bytes fs = (Inr (), fs(p \<mapsto> N_File bytes))"
proof -
  note dist = snapshot_path_distinct [OF assms(1)]
  have "rename_file io (with_extension p ''tmp'') p (fs(with_extension p ''tmp'' \<mapsto> N_File bytes)) = (Inr (), fs(p \<mapsto> N_File bytes))"
    using assms dist by (auto simp: rename_file_def io_check_simps fun_eq_iff)
  then show ?thesis using assms by (simp add: save_atomic_snapshot_locked_def io_check_simps Let_def)
qed

definition consent_at :: "crypto \<Rightarrow> path \<Rightarrow> consent_registry \<Rightarrow> fs \<Rightarrow> bool" where
  "consent_at env p c fs \<longleftrightarrow> consent_ok env c \<and> fs (with_extension p ''tmp'') = None \<and>
     fs p = Some (N_File (canonical_bytes env (json_consent_document (consent_document_of c))))"

text \<open>What \<open>serde_json::from_slice\<close> makes of the bytes of a registry's document.\<close>

definition reads_back :: "crypto \<Rightarrow> (u8 list \<Rightarrow> string + consent_document) \<Rightarrow> bool" where
  "reads_back env de \<longleftrightarrow>
     (\<forall>c. consent_ok env c \<longrightarrow> de (canonical_bytes env (json_consent_document (consent_document_of c))) = Inr (consent_document_of c))"

lemma recover_clean:
  assumes "clean pl" and "reads_back env de" and "consent_at env p c fs"
  shows "consent_recover_locked env de pl p fs = (Inr c, fs)"
proof -
  have ok: "consent_ok env c" "consent_validate env c = Inr ()" using assms(3) by (simp_all add: consent_at_def consent_ok_def)
  have "consent_load env de pl fs p = Inr c"
    using assms consent_file.build_doc [OF ok]
    by (simp add: consent_load_def read_consent_snapshot_def clean_def io_check_simps consent_at_def reads_back_def
        consent_document_of_def)
  then show ?thesis
    using assms by (simp add: consent_recover_locked_def snapshot_exists_def clean_def io_check_simps consent_at_def)
qed

lemma update_clean:
  assumes sp: "snapshot_path p" and cl: "clean pl" and rb: "reads_back env de" and at: "consent_at env p c fs"
    and lock: "fs (with_extension p ''lock'') = None" and path: "cn_persistence_path h = Some p"
    and up: "update c = (Inr (), c')" and ok: "consent_ok env c'"
  shows "\<exists>h' fs'. update_persistent env de pl update h fs = (Inr (), h', fs') \<and> cn_persistence_path h' = Some p \<and>
    consent_at env p c' fs' \<and> fs' (with_extension p ''lock'') = None"
proof -
  let ?lock = "with_extension p ''lock''"
  let ?l = "fs(?lock \<mapsto> N_File (io_token (pl_lock pl)))"
  let ?fs' = "fs(p \<mapsto> N_File (canonical_bytes env (json_consent_document (consent_document_of c'))))"
  note dist = snapshot_path_distinct [OF sp]
  have "consent_at env p c ?l" using at dist by (simp add: consent_at_def)
  then have rec: "consent_recover_locked env de pl p ?l = (Inr c, ?l)" by (rule recover_clean [OF cl rb])
  have w: "write_snapshot env pl c' p ?l = (Inr (), ?fs'(?lock \<mapsto> N_File (io_token (pl_lock pl))))"
    using save_locked_succeeds [OF sp, of "pl_write pl" ?l] cl at dist ok
    by (simp add: write_snapshot_def write_consent_snapshot_def consent_ok_def clean_def consent_at_def fun_upd_twist [of p ?lock])
  let ?body = "\<lambda>fs. case consent_recover_locked env de pl p fs of
              (Inl e, fs1) \<Rightarrow> (Inl e, fs1)
            | (Inr current, fs1) \<Rightarrow>
              (case update current of
                 (Inl e, _) \<Rightarrow> (Inl e, fs1)
               | (Inr _, current') \<Rightarrow>
                 (case write_snapshot env pl current' p fs1 of
                    (Inl e, fs2) \<Rightarrow> (Inl e, fs2)
                  | (Inr _, fs2) \<Rightarrow> (Inr current', fs2)))"
  have "locked (pl_lock pl) p ''consent registry'' ?body fs = (Inr c', ?fs')"
    by (rule locked_clean) (use cl lock dist rec up w in \<open>simp_all add: clean_def\<close>)
  moreover have "consent_at env p c' ?fs'" using at ok dist by (simp add: consent_at_def)
  ultimately show ?thesis using path lock dist by (simp add: update_persistent_def)
qed

lemma check_clean:
  assumes sp: "snapshot_path p" and cl: "clean pl" and rb: "reads_back env de" and at: "consent_at env p c fs"
    and lock: "fs (with_extension p ''lock'') = None" and path: "cn_persistence_path h = Some p"
  shows "has_active_grant env de pl h g now fs = (contains_active_grant env c g now, fs)"
proof -
  let ?l = "fs(with_extension p ''lock'' \<mapsto> N_File (io_token (pl_lock pl)))"
  have "consent_at env p c ?l" using at snapshot_path_distinct [OF sp] by (simp add: consent_at_def)
  then have "locked (pl_lock pl) p ''consent registry'' (consent_recover_locked env de pl p) fs = (Inr c, fs)"
    by (intro locked_clean) (use cl lock recover_clean [OF cl rb] in \<open>simp_all add: clean_def\<close>)
  then show ?thesis using path by (simp add: has_active_grant_def)
qed

lemma grant_in_memory_ok:
  assumes "consent_ok env c" and "grant_validate env g = Inr ()" and "bs_wf (cg_resource_ids g)"
    and "cg_grant_id g \<notin> set (cn_revoked_grants c)" and "bt_get (cn_grants c) (cg_grant_id g) \<in> {None, Some g}"
  shows "\<exists>c'. grant_in_memory env g c = (Inr (), c') \<and> consent_ok env c' \<and> bt_get (cn_grants c') (cg_grant_id g) = Some g \<and>
    cn_revoked_grants c' = cn_revoked_grants c"
proof -
  let ?c' = "c\<lparr>cn_grants := bt_insert (cg_grant_id g) g (cn_grants c)\<rparr>"
  have old: "bt_wf (cn_grants c)" "bs_wf (cn_revoked_grants c)" "\<forall>e\<in>set (cn_grants c). bs_wf (cg_resource_ids (snd e))"
    "\<forall>e\<in>set (cn_grants c). fst e = cg_grant_id (snd e) \<and> grant_validate env (snd e) = Inr ()"
    "\<forall>gid\<in>set (cn_revoked_grants c). valid_digest gid \<and> \<not> bt_contains (cn_grants c) gid"
    using assms(1) by (auto simp: consent_ok_def consent_validate_iff)
  have new: "\<forall>e\<in>set (bt_insert (cg_grant_id g) g (cn_grants c)). bs_wf (cg_resource_ids (snd e))"
    "\<forall>e\<in>set (bt_insert (cg_grant_id g) g (cn_grants c)). fst e = cg_grant_id (snd e) \<and> grant_validate env (snd e) = Inr ()"
    by (rule bt_insert_all [OF old(3)], simp add: assms(3)) (rule bt_insert_all [OF old(4)], simp add: assms(2))
  have "consent_validate env ?c' = Inr ()" using new old(5) assms(4) by (auto simp: consent_validate_iff)
  moreover from this have "consent_ok env ?c'" using new old assms(1) by (auto simp: consent_ok_def bt_wf_insert)
  ultimately show ?thesis
    using assms(2,4,5) by (auto simp: grant_in_memory_def bs_contains_def Let_def)
qed

lemma revoke_in_memory_ok:
  assumes "consent_ok env c" and "bt_get (cn_grants c) gid = Some g"
  shows "\<exists>c'. revoke_in_memory env gid c = (Inr (), c') \<and> consent_ok env c' \<and> gid \<in> set (cn_revoked_grants c')"
proof -
  let ?c' = "c\<lparr>cn_grants := filter (\<lambda>e. fst e \<noteq> gid) (cn_grants c), cn_revoked_grants := bs_insert gid (cn_revoked_grants c)\<rparr>"
  have old: "bt_wf (cn_grants c)" "consent_validate env c = Inr ()" using assms(1) by (simp_all add: consent_ok_def)
  have mem: "(gid, g) \<in> set (cn_grants c)" using assms(2) by (rule map_of_SomeD)
  then have vd: "valid_digest gid" using old(2) by (auto simp: consent_validate_iff grant_validate_def split: if_splits)
  have fresh: "gid \<notin> set (cn_revoked_grants c)" using old(2) assms(2) by (auto simp: consent_validate_iff bt_contains_def)
  have wf: "bt_wf (cn_grants ?c')" using old(1) by (auto simp: bt_wf_def sorted_wrt_map sorted_wrt_filter)
  have val: "consent_validate env ?c' = Inr ()" using old(2) vd by (auto simp: consent_validate_iff bt_contains_iff)
  have "consent_ok env ?c'" using wf val assms(1) by (auto simp: consent_ok_def bs_wf_insert)
  then show ?thesis using val fresh assms(2) by (auto simp: revoke_in_memory_def bs_contains_def bt_contains_def Let_def)
qed

text \<open>
  Grants and revocations take effect for every handle at once: without faults a valid grant that is not revoked is granted through any
  handle \<open>h\<close> on the file, every handle \<open>h'\<close> on the file then reports it active exactly between its times, and it can be
  revoked through \<open>h'\<close>.
\<close>

theorem consent_shared_by_handles:
  assumes "snapshot_path p" and "clean pl" and "reads_back env de" and "consent_at env p c fs"
    and "fs (with_extension p ''lock'') = None" and "cn_persistence_path h = Some p" and "cn_persistence_path h' = Some p"
    and "grant_validate env g = Inr ()" and "bs_wf (cg_resource_ids g)"
    and "cg_grant_id g \<notin> set (cn_revoked_grants c)" and "bt_get (cn_grants c) (cg_grant_id g) \<in> {None, Some g}"
  shows "\<exists>h1 fs1. consent_grant_op env de pl h g fs = (Inr (), h1, fs1) \<and>
    (\<forall>now. fst (has_active_grant env de pl h' g now fs1) \<longleftrightarrow> cg_issued_at g \<le> now \<and> now < cg_expires_at g) \<and>
    (\<exists>h2 fs2. consent_revoke env de pl h' (cg_grant_id g) fs1 = (Inr (), h2, fs2) \<and> cn_persistence_path h2 = Some p)"
proof -
  have ok: "consent_ok env c" using assms(4) by (simp add: consent_at_def)
  obtain c1 where c1: "grant_in_memory env g c = (Inr (), c1)" "consent_ok env c1" "bt_get (cn_grants c1) (cg_grant_id g) = Some g"
    using grant_in_memory_ok [OF ok assms(8-11)] by blast
  obtain h1 fs1 where g: "consent_grant_op env de pl h g fs = (Inr (), h1, fs1)" "consent_at env p c1 fs1"
    "fs1 (with_extension p ''lock'') = None"
    using update_clean [where update = "grant_in_memory env g", OF assms(1-6) c1(1,2)] by (auto simp: consent_grant_op_def)
  obtain c2 where c2: "revoke_in_memory env (cg_grant_id g) c1 = (Inr (), c2)" "consent_ok env c2"
    using revoke_in_memory_ok [OF c1(2,3)] by blast
  obtain h2 fs2 where "consent_revoke env de pl h' (cg_grant_id g) fs1 = (Inr (), h2, fs2)" "cn_persistence_path h2 = Some p"
    using update_clean [where update = "revoke_in_memory env (cg_grant_id g)", OF assms(1-3) g(2,3) assms(7) c2]
    by (auto simp: consent_revoke_def)
  moreover have "fst (has_active_grant env de pl h' g now fs1) \<longleftrightarrow> cg_issued_at g \<le> now \<and> now < cg_expires_at g" for now
    using check_clean [OF assms(1-3) g(2,3) assms(7)] c1(2,3) assms(8)
    by (auto simp: contains_active_grant_def grant_active_def consent_ok_def)
  ultimately show ?thesis using g(1) by blast
qed

section \<open>Concrete inputs\<close>

text \<open>A self-delimiting encoding with its decoder, for the concrete inputs: a value is written in unary.\<close>

instance word :: (len) countable
  by (rule countable_classI [of unat]) (rule unsigned_word_eqI)

instance json :: countable
  by countable_datatype

definition unary_env :: crypto where
  "unary_env = \<lparr>sha256 = \<lambda>_. replicate 32 0, to_vec = \<lambda>j. replicate (to_nat j) 1 @ [0]\<rparr>"

lemma unary_prefix: "prefix (replicate a (1 :: u8) @ [0]) (replicate b 1 @ [0]) \<Longrightarrow> a = b"
proof (induction a arbitrary: b)
  case 0
  then show ?case by (cases b) auto
next
  case (Suc a)
  show ?case
  proof (cases b)
    case b: (Suc b')
    with Suc.prems have "prefix (replicate a (1 :: u8) @ [0]) (replicate b' 1 @ [0])" by simp
    from Suc.IH [OF this] b show ?thesis by simp
  qed (use Suc.prems in simp)
qed

lemma unary_delimits: "self_delimiting unary_env enc"
proof -
  have "enc a = enc b" if "prefix (replicate (to_nat (enc a)) (1 :: u8) @ [0]) (replicate (to_nat (enc b)) 1 @ [0])" for a b
    using unary_prefix [OF that] by simp
  then show ?thesis by (simp add: self_delimiting_def canonical_bytes_def unary_env_def)
qed

lemma unary_digest [simp]: "digest unary_env j = zero_digest"
  using hex_zeros [of 32] by (simp add: digest_def digest_bytes_def unary_env_def zero_digest_def)

fun as_str :: "json \<Rightarrow> string" where
  "as_str (JStr s) = s"
| "as_str _ = []"

fun as_int :: "json \<Rightarrow> int" where
  "as_int (JInt i) = i"
| "as_int _ = 0"

fun as_list :: "json \<Rightarrow> json list" where
  "as_list (JArr js) = js"
| "as_list (JObj fs) = map snd fs"
| "as_list _ = []"

definition demo_grant_of :: "json \<Rightarrow> consent_grant" where
  "demo_grant_of j = (let v = as_list j in
     \<lparr>cg_tenant_id = as_str (v ! 0), cg_specialist_id = as_str (v ! 1), cg_resource_ids = map as_str (as_list (v ! 2)),
      cg_issued_at = word_of_int (as_int (v ! 3)), cg_expires_at = word_of_int (as_int (v ! 4)), cg_grant_id = as_str (v ! 5)\<rparr>)"

definition unary_de :: "u8 list \<Rightarrow> string + consent_document" where
  "unary_de bs = (let v = as_list (from_nat (length bs - 1)) in
     Inr \<lparr>cd_version = word_of_int (as_int (v ! 0)), cd_grants = map demo_grant_of (as_list (v ! 1)),
          cd_revoked_grants = map as_str (as_list (v ! 2))\<rparr>)"

lemma unary_reads_back: "reads_back unary_env unary_de"
proof -
  have g: "demo_grant_of (json_consent_grant g) = g" for g
    by (cases g) (simp add: demo_grant_of_def json_consent_grant_def json_list_def json_word_def o_def)
  have "unary_de (canonical_bytes unary_env (json_consent_document d)) = Inr d" for d
  proof -
    have "as_list (json_consent_document d) =
        [json_word (cd_version d), json_list json_consent_grant (cd_grants d), json_list JStr (cd_revoked_grants d)]"
      by (simp add: json_consent_document_def)
    then show ?thesis
      by (cases d) (simp add: unary_de_def unary_env_def canonical_bytes_def Let_def json_list_def json_word_def o_def g)
  qed
  then show ?thesis by (simp add: reads_back_def)
qed

definition demo_plan :: plan where
  "demo_plan = \<lparr>pl_lock = demo_io (\<lambda>_. None), pl_exists = demo_io (\<lambda>_. None), pl_recover = demo_io (\<lambda>_. None),
     pl_write = demo_io (\<lambda>_. None), pl_owner_only = \<lambda>_. True\<rparr>"

definition demo_grant :: consent_grant where
  "demo_grant = \<lparr>cg_tenant_id = ''t'', cg_specialist_id = ''s'', cg_resource_ids = [''r''], cg_issued_at = 1, cg_expires_at = 9,
     cg_grant_id = zero_digest\<rparr>"

definition demo_handle :: consent_registry where
  "demo_handle = consent_default\<lparr>cn_persistence_path := Some demo_path\<rparr>"

definition demo_consent_fs :: fs where
  "demo_consent_fs = [demo_path \<mapsto> N_File (canonical_bytes unary_env (json_consent_document (consent_document_of consent_default)))]"

lemma demo_clean: "clean demo_plan"
  by (simp add: clean_def demo_plan_def no_faults_def demo_io_def)

lemma demo_snapshot_path: "snapshot_path demo_path"
  by (simp add: snapshot_path_def demo_path_def)

lemma demo_grant_valid: "grant_validate unary_env demo_grant = Inr ()"
  by (simp add: grant_validate_def demo_grant_def word_le_nat_alt)

lemma demo_consent_at: "consent_at unary_env demo_path consent_default demo_consent_fs" "demo_consent_fs (with_extension demo_path ''lock'') = None"
  using snapshot_path_distinct [OF demo_snapshot_path]
  by (simp_all add: consent_at_def consent_ok_def consent_validate_def demo_consent_fs_def consent_default_def)

lemma demo_handle_path: "cn_persistence_path demo_handle = Some demo_path"
  by (simp add: demo_handle_def)

theorem consent_shared_by_handles_witness:
  "\<exists>h1 fs1. consent_grant_op unary_env unary_de demo_plan demo_handle demo_grant demo_consent_fs = (Inr (), h1, fs1) \<and>
     fst (has_active_grant unary_env unary_de demo_plan demo_handle demo_grant 5 fs1)"
proof -
  have "bs_wf (cg_resource_ids demo_grant)" "cg_grant_id demo_grant \<notin> set (cn_revoked_grants consent_default)"
    "bt_get (cn_grants consent_default) (cg_grant_id demo_grant) \<in> {None, Some demo_grant}"
    by (simp_all add: demo_grant_def consent_default_def bs_wf_def)
  from consent_shared_by_handles [OF demo_snapshot_path demo_clean unary_reads_back demo_consent_at demo_handle_path demo_handle_path
      demo_grant_valid this]
  obtain h1 fs1 where "consent_grant_op unary_env unary_de demo_plan demo_handle demo_grant demo_consent_fs = (Inr (), h1, fs1)"
    "\<forall>now. fst (has_active_grant unary_env unary_de demo_plan demo_handle demo_grant now fs1) \<longleftrightarrow>
       cg_issued_at demo_grant \<le> now \<and> now < cg_expires_at demo_grant" by blast
  then show ?thesis by (auto simp: demo_grant_def)
qed

text \<open>The registry with the demo grant registered, and a revocation of it through the demo handle.\<close>

definition demo_registered :: consent_registry where
  "demo_registered = consent_default\<lparr>cn_grants := [(zero_digest, demo_grant)]\<rparr>"

definition demo_registered_fs :: fs where
  "demo_registered_fs = [demo_path \<mapsto> N_File (canonical_bytes unary_env (json_consent_document (consent_document_of demo_registered)))]"

lemma demo_registered_at: "consent_at unary_env demo_path demo_registered demo_registered_fs"
  "demo_registered_fs (with_extension demo_path ''lock'') = None"
proof -
  have "consent_validate unary_env demo_registered = Inr ()"
    using demo_grant_valid by (simp add: consent_validate_def demo_registered_def consent_default_def) (simp add: demo_grant_def)
  then show "consent_at unary_env demo_path demo_registered demo_registered_fs"
    "demo_registered_fs (with_extension demo_path ''lock'') = None"
    using snapshot_path_distinct [OF demo_snapshot_path]
    by (simp_all add: consent_at_def consent_ok_def demo_registered_fs_def demo_registered_def consent_default_def bt_wf_def)
      (simp add: demo_grant_def bs_wf_def)
qed

lemma demo_revoke_works:
  assumes "consent_at unary_env demo_path demo_registered fs" and "fs (with_extension demo_path ''lock'') = None"
  shows "\<exists>r' fs1. consent_revoke unary_env unary_de demo_plan demo_handle (cg_grant_id demo_grant) fs = (Inr (), r', fs1)"
proof -
  have ok: "consent_ok unary_env demo_registered" using assms(1) by (simp add: consent_at_def)
  obtain c' where c': "revoke_in_memory unary_env (cg_grant_id demo_grant) demo_registered = (Inr (), c')" "consent_ok unary_env c'"
    using revoke_in_memory_ok [OF ok, of "cg_grant_id demo_grant" demo_grant] by (auto simp: demo_registered_def demo_grant_def)
  show ?thesis
    using update_clean [where update = "revoke_in_memory unary_env (cg_grant_id demo_grant)", OF demo_snapshot_path demo_clean
        unary_reads_back assms demo_handle_path c'] by (auto simp: consent_revoke_def)
qed

theorem consent_revocation_final_witness:
  "\<exists>r' fs1. consent_revoke unary_env unary_de demo_plan demo_handle (cg_grant_id demo_grant) demo_registered_fs = (Inr (), r', fs1) \<and>
     \<not> fst (has_active_grant unary_env unary_de demo_plan demo_handle demo_grant 5 fs1)"
proof -
  obtain r' fs1 where rv: "consent_revoke unary_env unary_de demo_plan demo_handle (cg_grant_id demo_grant) demo_registered_fs = (Inr (), r', fs1)"
    using demo_revoke_works [OF demo_registered_at] by blast
  have "\<not> fst (has_active_grant unary_env unary_de demo_plan demo_handle demo_grant 5 fs1)"
    using consent_revocation_final [OF demo_snapshot_path unary_delimits demo_handle_path rv rtranclp.rtrancl_refl demo_handle_path]
    by (rule conjunct1)
  then show ?thesis using rv by blast
qed

end
