(* ===== verification/Memory.thy ===== *)
theory Memory
  imports Consent_Properties
begin

text \<open>
  The durable specialist memory of src/memory.rs.  Every access runs under the consent gate of the theory \<open>Consent\<close>, takes the lock of the memory
  file, reads the file again and, when it changes something, writes it back.  An operation thus has two plans: \<open>pl\<close> for the consent
  file and \<open>mp\<close> for the memory file.  A successful operation answers its value together with the handle it leaves.
\<close>

section \<open>Records and the file\<close>

definition MEMORY_FORMAT_VERSION :: u8 where
  "MEMORY_FORMAT_VERSION = 1"

record memory_record =
  mr_tenant_id :: string
  mr_resource_id :: string
  mr_grant_id :: string
  mr_value :: json
  mr_value_digest :: string

record memory_document =
  md_version :: u8
  md_records :: "memory_record list"

type_synonym memory_records = "(string \<times> string, memory_record) btree"

record persistent_memory =
  pm_path :: path
  pm_records :: memory_records

definition json_memory_record :: "memory_record \<Rightarrow> json" where
  "json_memory_record r = JObj
    [(''tenant_id'', JStr (mr_tenant_id r)), (''resource_id'', JStr (mr_resource_id r)), (''grant_id'', JStr (mr_grant_id r)),
     (''value'', mr_value r), (''value_digest'', JStr (mr_value_digest r))]"

definition json_memory_document :: "memory_document \<Rightarrow> json" where
  "json_memory_document d = JObj [(''version'', json_word (md_version d)), (''records'', json_list json_memory_record (md_records d))]"

definition expected_grant_id :: "crypto \<Rightarrow> consent_grant \<Rightarrow> string" where
  "expected_grant_id env g = digest env (JArr [JStr (cg_tenant_id g), JStr (cg_specialist_id g), json_list JStr (cg_resource_ids g),
     json_word (cg_issued_at g), json_word (cg_expires_at g)])"

definition memory_record_validate :: "crypto \<Rightarrow> memory_record \<Rightarrow> unit result" where
  "memory_record_validate env r =
     (if mr_tenant_id r = [] \<or> mr_resource_id r = [] \<or> \<not> valid_digest (mr_grant_id r) \<or> \<not> valid_digest (mr_value_digest r) \<or>
         digest env (mr_value r) \<noteq> mr_value_digest r
      then Inl (Err_Persistence ''invalid durable memory record'') else Inr ())"

definition read_memory_snapshot :: "plan \<Rightarrow> fs \<Rightarrow> path \<Rightarrow> u8 list result" where
  "read_memory_snapshot mp fs p =
     try_r (io_check (pl_recover mp) IO_Stat) (\<lambda>_.
     case fs p of
       None \<Rightarrow> Inl not_found
     | Some (N_File bytes) \<Rightarrow>
         if \<not> pl_owner_only mp p then Inl (Err_Persistence ''memory snapshot is not owner-only'')
         else try_r (io_check (pl_recover mp) IO_Read) (\<lambda>_. Inr bytes)
     | Some _ \<Rightarrow> Inl (Err_Persistence ''memory snapshot is not a regular file''))"

fun insert_records :: "crypto \<Rightarrow> memory_records \<Rightarrow> memory_record list \<Rightarrow> memory_records result" where
  "insert_records env m [] = Inr m"
| "insert_records env m (r # rs) =
     try_r (memory_record_validate env r) (\<lambda>_.
     if bt_contains m (mr_tenant_id r, mr_resource_id r) then Inl (Err_Persistence ''duplicate durable memory key'')
     else insert_records env (bt_insert (mr_tenant_id r, mr_resource_id r) r m) rs)"

definition memory_load_existing ::
  "crypto \<Rightarrow> (u8 list \<Rightarrow> string + memory_document) \<Rightarrow> plan \<Rightarrow> fs \<Rightarrow> path \<Rightarrow> persistent_memory result" where
  "memory_load_existing env de mp fs p =
     try_r (read_memory_snapshot mp fs p) (\<lambda>bytes.
     try_r (map_err Err_Serialization (de bytes)) (\<lambda>d.
     if md_version d \<noteq> MEMORY_FORMAT_VERSION \<or> canonical_bytes env (json_memory_document d) \<noteq> bytes
     then Inl (Err_Persistence ''memory file is noncanonical or unsupported'')
     else try_r (insert_records env [] (md_records d)) (\<lambda>m. Inr \<lparr>pm_path = p, pm_records = m\<rparr>)))"

definition memory_recover_locked ::
  "crypto \<Rightarrow> (u8 list \<Rightarrow> string + memory_document) \<Rightarrow> plan \<Rightarrow> path \<Rightarrow> fs \<Rightarrow> persistent_memory result \<times> fs" where
  "memory_recover_locked env de mp p fs =
     (let tmp = with_extension p ''tmp'' in
      case snapshot_exists (pl_exists mp) fs tmp of
        Inl e \<Rightarrow> (Inl e, fs)
      | Inr True \<Rightarrow>
          (case memory_load_existing env de mp fs tmp of
             Inl e \<Rightarrow> (Inl e, fs)
           | Inr pending \<Rightarrow>
             (case rename_file (pl_recover mp) tmp p fs of
                (Inl e, fs1) \<Rightarrow> (Inl e, fs1)
              | (Inr _, fs1) \<Rightarrow>
                  (try_r (io_check (pl_recover mp) IO_Dir) (\<lambda>_. Inr \<lparr>pm_path = p, pm_records = pm_records pending\<rparr>), fs1)))
      | Inr False \<Rightarrow>
          (case snapshot_exists (pl_exists mp) fs p of
             Inl e \<Rightarrow> (Inl e, fs)
           | Inr True \<Rightarrow> (memory_load_existing env de mp fs p, fs)
           | Inr False \<Rightarrow> (Inr \<lparr>pm_path = p, pm_records = []\<rparr>, fs)))"

definition memory_open ::
  "crypto \<Rightarrow> (u8 list \<Rightarrow> string + memory_document) \<Rightarrow> plan \<Rightarrow> path \<Rightarrow> fs \<Rightarrow> persistent_memory result \<times> fs" where
  "memory_open env de mp p fs =
     (case acquire_file_lock (pl_lock mp) p ''persistent memory'' fs of
        (Inl e, fs1) \<Rightarrow> if e = not_found then (Inr \<lparr>pm_path = p, pm_records = []\<rparr>, fs1) else (Inl e, fs1)
      | (Inr _, fs1) \<Rightarrow>
          (case memory_recover_locked env de mp p fs1 of (res, fs2) \<Rightarrow> (res, drop_lock (pl_lock mp) (with_extension p ''lock'') fs2)))"

definition memory_recover ::
  "crypto \<Rightarrow> (u8 list \<Rightarrow> string + memory_document) \<Rightarrow> plan \<Rightarrow> path \<Rightarrow> fs \<Rightarrow> persistent_memory result \<times> fs" where
  "memory_recover env de mp p fs = memory_open env de mp p fs"

definition save_records :: "crypto \<Rightarrow> plan \<Rightarrow> path \<Rightarrow> memory_records \<Rightarrow> fs \<Rightarrow> unit result \<times> fs" where
  "save_records env mp p m fs =
     (case check_all (memory_record_validate env) (bt_values m) of
        Inl e \<Rightarrow> (Inl e, fs)
      | Inr _ \<Rightarrow> save_atomic_snapshot_locked (pl_write mp) p
          (canonical_bytes env (json_memory_document \<lparr>md_version = MEMORY_FORMAT_VERSION, md_records = bt_values m\<rparr>)) fs)"

section \<open>Access under consent\<close>

definition check_consent :: "crypto \<Rightarrow> specialist_registry \<Rightarrow> consent_grant \<Rightarrow> string \<Rightarrow> u64 \<Rightarrow> unit result" where
  "check_consent env reg g resource now =
     try_r (grant_validate env g) (\<lambda>_.
     if \<not> grant_allows g resource \<or> expected_grant_id env g \<noteq> cg_grant_id g \<or>
        specialist_resolve reg (cg_specialist_id g) now = None
     then Inl (Err_Rejected ''consent or specialist is invalid'') else Inr ())"

definition memory_put ::
  "crypto \<Rightarrow> (u8 list \<Rightarrow> string + consent_document) \<Rightarrow> (u8 list \<Rightarrow> string + memory_document) \<Rightarrow> plan \<Rightarrow> plan \<Rightarrow>
   persistent_memory \<Rightarrow> specialist_registry \<Rightarrow> consent_registry \<Rightarrow> consent_grant \<Rightarrow> string \<Rightarrow> json \<Rightarrow> u64 \<Rightarrow> fs \<Rightarrow>
   (string \<times> persistent_memory) result \<times> fs" where
  "memory_put env cde de pl mp m reg cons g resource value now fs =
     with_active_grant env cde pl cons g now (\<lambda>fs.
       case check_consent env reg g resource now of
         Inl e \<Rightarrow> (Inl e, fs)
       | Inr _ \<Rightarrow> locked (pl_lock mp) (pm_path m) ''persistent memory'' (\<lambda>fs.
           case memory_recover_locked env de mp (pm_path m) fs of
             (Inl e, fs1) \<Rightarrow> (Inl e, fs1)
           | (Inr current, fs1) \<Rightarrow>
               let value_digest = digest env value;
                   rec = \<lparr>mr_tenant_id = cg_tenant_id g, mr_resource_id = resource, mr_grant_id = cg_grant_id g,
                          mr_value = value, mr_value_digest = value_digest\<rparr>;
                   next_records = bt_insert (mr_tenant_id rec, mr_resource_id rec) rec (pm_records current)
               in (case save_records env mp (pm_path m) next_records fs1 of
                     (Inl e, fs2) \<Rightarrow> (Inl e, fs2)
                   | (Inr _, fs2) \<Rightarrow> (Inr (value_digest, m\<lparr>pm_records := next_records\<rparr>), fs2))) fs) fs"

definition memory_retrieve ::
  "crypto \<Rightarrow> (u8 list \<Rightarrow> string + consent_document) \<Rightarrow> (u8 list \<Rightarrow> string + memory_document) \<Rightarrow> plan \<Rightarrow> plan \<Rightarrow>
   persistent_memory \<Rightarrow> specialist_registry \<Rightarrow> consent_registry \<Rightarrow> consent_grant \<Rightarrow> string \<Rightarrow> u64 \<Rightarrow> fs \<Rightarrow> json result \<times> fs" where
  "memory_retrieve env cde de pl mp m reg cons g resource now fs =
     with_active_grant env cde pl cons g now (\<lambda>fs.
       case check_consent env reg g resource now of
         Inl e \<Rightarrow> (Inl e, fs)
       | Inr _ \<Rightarrow> locked (pl_lock mp) (pm_path m) ''persistent memory'' (\<lambda>fs.
           case memory_recover_locked env de mp (pm_path m) fs of
             (Inl e, fs1) \<Rightarrow> (Inl e, fs1)
           | (Inr current, fs1) \<Rightarrow>
               (try_r (ok_or (Err_Invalid ''resource not found'') (bt_get (pm_records current) (cg_tenant_id g, resource))) (\<lambda>rec.
                if mr_grant_id rec \<noteq> cg_grant_id g then Inl (Err_Rejected ''memory grant binding mismatch'')
                else try_r (memory_record_validate env rec) (\<lambda>_. Inr (mr_value rec))), fs1)) fs) fs"

definition memory_delete ::
  "crypto \<Rightarrow> (u8 list \<Rightarrow> string + consent_document) \<Rightarrow> (u8 list \<Rightarrow> string + memory_document) \<Rightarrow> plan \<Rightarrow> plan \<Rightarrow>
   persistent_memory \<Rightarrow> specialist_registry \<Rightarrow> consent_registry \<Rightarrow> consent_grant \<Rightarrow> string \<Rightarrow> u64 \<Rightarrow> fs \<Rightarrow>
   (bool \<times> persistent_memory) result \<times> fs" where
  "memory_delete env cde de pl mp m reg cons g resource now fs =
     with_active_grant env cde pl cons g now (\<lambda>fs.
       case check_consent env reg g resource now of
         Inl e \<Rightarrow> (Inl e, fs)
       | Inr _ \<Rightarrow> locked (pl_lock mp) (pm_path m) ''persistent memory'' (\<lambda>fs.
           case memory_recover_locked env de mp (pm_path m) fs of
             (Inl e, fs1) \<Rightarrow> (Inl e, fs1)
           | (Inr current, fs1) \<Rightarrow>
               let key = (cg_tenant_id g, resource)
               in case bt_get (pm_records current) key of
                    None \<Rightarrow> (Inr (False, m\<lparr>pm_records := pm_records current\<rparr>), fs1)
                  | Some rec \<Rightarrow>
                      if mr_grant_id rec \<noteq> cg_grant_id g then (Inl (Err_Rejected ''memory grant binding mismatch''), fs1)
                      else let rest = filter (\<lambda>e. fst e \<noteq> key) (pm_records current)
                           in (case save_records env mp (pm_path m) rest fs1 of
                                 (Inl e, fs2) \<Rightarrow> (Inl e, fs2)
                               | (Inr _, fs2) \<Rightarrow> (Inr (True, m\<lparr>pm_records := rest\<rparr>), fs2))) fs) fs"

definition memory_len :: "persistent_memory \<Rightarrow> nat" where
  "memory_len m = length (pm_records m)"

definition memory_is_empty :: "persistent_memory \<Rightarrow> bool" where
  "memory_is_empty m \<longleftrightarrow> pm_records m = []"

definition memory_save ::
  "crypto \<Rightarrow> (u8 list \<Rightarrow> string + memory_document) \<Rightarrow> plan \<Rightarrow> persistent_memory \<Rightarrow> fs \<Rightarrow> unit result \<times> persistent_memory \<times> fs" where
  "memory_save env de mp m fs =
     (case locked (pl_lock mp) (pm_path m) ''persistent memory'' (\<lambda>fs.
         case memory_recover_locked env de mp (pm_path m) fs of
           (Inl e, fs1) \<Rightarrow> (Inl e, fs1)
         | (Inr current, fs1) \<Rightarrow>
             (case save_records env mp (pm_path m) (pm_records current) fs1 of
                (Inl e, fs2) \<Rightarrow> (Inl e, fs2)
              | (Inr _, fs2) \<Rightarrow> (Inr (pm_records current), fs2))) fs
      of (Inl e, fs') \<Rightarrow> (Inl e, m, fs')
       | (Inr records, fs') \<Rightarrow> (Inr (), m\<lparr>pm_records := records\<rparr>, fs'))"

section \<open>What an access touches and needs\<close>

definition files_of :: "path \<Rightarrow> path set" where
  "files_of p = {p, with_extension p ''tmp'', with_extension p ''lock''}"

definition apart :: "path \<Rightarrow> path \<Rightarrow> bool" where
  "apart p q \<longleftrightarrow> files_of p \<inter> files_of q = {}"

lemma consent_recover_other:
  assumes "q \<notin> files_of p"
  shows "snd (consent_recover_locked env de pl p fs) q = fs q"
proof -
  obtain res fs' where r: "consent_recover_locked env de pl p fs = (res, fs')" by (cases "consent_recover_locked env de pl p fs")
  then show ?thesis by (cases rule: recover_cases) (use assms r in \<open>auto simp: files_of_def\<close>)
qed

lemma locked_other:
  assumes "q \<notin> files_of p" and "\<And>fs. snd (body fs) q = fs q"
  shows "snd (locked io p purpose body fs) q = fs q"
proof -
  have q: "q \<noteq> with_extension p ''lock''" using assms(1) by (simp add: files_of_def)
  obtain ra fs1 where acq: "acquire_file_lock io p purpose fs = (ra, fs1)" by (cases "acquire_file_lock io p purpose fs")
  have "fs1 q = fs q" using acquire_other [OF q, of io purpose fs] acq by simp
  then show ?thesis
    using acq assms(2) [of fs1] drop_lock_other [OF q] by (cases "body fs1") (auto simp: locked_def split: sum.splits)
qed

text \<open>
  The gate: what it answers and what it hands to the effect.  When it succeeds, the effect ran on a file system that agrees with the
  one before outside the consent files, and the grant was active.
\<close>

lemma gate_success:
  assumes "with_active_grant env de pl r g now effect fs = (Inr x, fs')"
  obtains fs1 fs2 where "effect fs1 = (Inr x, fs2)" "grant_active env g now"
    "\<And>p q. cn_persistence_path r = Some p \<Longrightarrow> q \<notin> files_of p \<Longrightarrow> fs1 q = fs q"
proof (cases "cn_persistence_path r")
  case None
  then show thesis using assms by (intro that [of fs fs']) (auto simp: with_active_grant_def contains_active_grant_def split: if_splits)
next
  case (Some p)
  then obtain fs1 fs2 c fs3 where acq: "acquire_file_lock (pl_lock pl) p ''consent registry'' fs = (Inr (), fs1)"
    and rec: "consent_recover_locked env de pl p fs1 = (Inr c, fs2)" and act: "contains_active_grant env c g now"
    and eff: "effect fs2 = (Inr x, fs3)"
    using assms by (auto simp: with_active_grant_def locked_def split: sum.splits prod.splits if_splits)
  have "fs2 q = fs q" if "q \<notin> files_of p" for q
    using consent_recover_other [OF that, of env de pl fs1] rec that by (simp add: acquire_ok [OF acq] files_of_def)
  then show thesis using eff act Some by (intro that [of fs2 fs3]) (auto simp: contains_active_grant_def)
qed

lemma gate_refuses:
  assumes sp: "snapshot_path p" and path: "cn_persistence_path r = Some p" and inv: "on_file env p (cg_grant_id g) fs"
  shows "(\<exists>e. fst (with_active_grant env de pl r g now effect fs) = Inl e) \<and>
    (\<forall>q. q \<notin> files_of p \<longrightarrow> snd (with_active_grant env de pl r g now effect fs) q = fs q)"
proof -
  let ?no = "\<lambda>fs. (Inl (Err_Rejected ''consent grant is not active''), fs)"
  let ?body = "\<lambda>f fs. case consent_recover_locked env de pl p fs of
              (Inl e, fs1) \<Rightarrow> (Inl e, fs1)
            | (Inr current, fs1) \<Rightarrow>
                if \<not> contains_active_grant env current g now then (Inl (Err_Rejected ''consent grant is not active''), fs1)
                else f fs1"
  have eq: "?body effect fs1 = ?body ?no fs1" if "on_file env p (cg_grant_id g) fs1" for fs1
    using recover_keeps [OF sp that] revoked_not_active [of g _ env now]
    by (cases "consent_recover_locked env de pl p fs1") (auto split: sum.splits)
  have "locked (pl_lock pl) p ''consent registry'' (?body effect) fs = locked (pl_lock pl) p ''consent registry'' (?body ?no) fs"
  proof (cases "acquire_file_lock (pl_lock pl) p ''consent registry'' fs")
    case (Pair ra fs1)
    have "on_file env p (cg_grant_id g) fs1" if "ra = Inr ()"
      using inv snapshot_path_distinct [OF sp] Pair that on_file_cong [of fs1 p fs] by (auto dest!: acquire_ok)
    then show ?thesis using Pair eq [of fs1] by (auto simp: locked_def split: sum.splits)
  qed
  then have w: "with_active_grant env de pl r g now effect fs = locked (pl_lock pl) p ''consent registry'' (?body ?no) fs"
    using path by (simp add: with_active_grant_def)
  have "snd (?body ?no fs) q = fs q" if "q \<notin> files_of p" for q fs
    using consent_recover_other [OF that, of env de pl fs] by (auto split: sum.splits prod.splits)
  then have "snd (locked (pl_lock pl) p ''consent registry'' (?body ?no) fs) q = fs q" if "q \<notin> files_of p" for q
    using locked_other [OF that, of "?body ?no"] that by blast
  moreover have "\<exists>e. fst (locked (pl_lock pl) p ''consent registry'' (?body ?no) fs) = Inl e"
    by (auto simp: locked_def split: sum.splits prod.splits)
  ultimately show ?thesis unfolding w by blast
qed

section \<open>Where a value comes from\<close>

lemma insert_records_keys:
  assumes "insert_records env m rs = Inr m'" and "bt_wf m"
    and "\<forall>(k, r)\<in>set m. k = (mr_tenant_id r, mr_resource_id r) \<and> memory_record_validate env r = Inr () \<and> r \<in> S" and "set rs \<subseteq> S"
  shows "bt_wf m' \<and> (\<forall>(k, r)\<in>set m'. k = (mr_tenant_id r, mr_resource_id r) \<and> memory_record_validate env r = Inr () \<and> r \<in> S)"
  using assms
proof (induction env m rs rule: insert_records.induct)
  case (2 env m r rs)
  let ?k = "(mr_tenant_id r, mr_resource_id r)"
  have v: "memory_record_validate env r = Inr ()" and b: "\<not> bt_contains m ?k"
    and rest: "insert_records env (bt_insert ?k r m) rs = Inr m'"
    using "2.prems"(1) by (auto simp: try_r_eq_Inr split: if_splits)
  have new: "\<forall>e\<in>set (bt_insert ?k r m). (\<lambda>(k, r). k = (mr_tenant_id r, mr_resource_id r) \<and> memory_record_validate env r = Inr () \<and> r \<in> S) e"
    by (rule bt_insert_all) (use "2.prems" v in auto)
  show ?case by (rule "2.IH" [OF b rest]) (use "2.prems" new in \<open>auto simp: bt_wf_insert\<close>)
qed simp

lemma memory_load_Inr:
  assumes "memory_load_existing env de mp fs q = Inr m"
  shows "\<exists>d. fs q = Some (N_File (canonical_bytes env (json_memory_document d))) \<and> bt_wf (pm_records m) \<and>
    (\<forall>(k, r)\<in>set (pm_records m). k = (mr_tenant_id r, mr_resource_id r) \<and> memory_record_validate env r = Inr () \<and> r \<in> set (md_records d))"
proof -
  obtain bytes d where rd: "read_memory_snapshot mp fs q = Inr bytes" and b: "canonical_bytes env (json_memory_document d) = bytes"
    and ins: "insert_records env [] (md_records d) = Inr (pm_records m)"
    using assms by (auto simp: memory_load_existing_def try_r_eq_Inr split: if_splits)
  have "fs q = Some (N_File bytes)"
    using rd by (auto simp: read_memory_snapshot_def try_r_eq_Inr split: option.splits node.splits if_splits)
  then show ?thesis using b insert_records_keys [OF ins, of "set (md_records d)"] by auto
qed

lemma memory_recover_Inr:
  assumes "memory_recover_locked env de mp p fs = (Inr m, fs')" and "bt_get (pm_records m) k = Some r"
  shows "\<exists>q\<in>{p, with_extension p ''tmp''}. \<exists>d. fs q = Some (N_File (canonical_bytes env (json_memory_document d))) \<and> r \<in> set (md_records d) \<and>
    k = (mr_tenant_id r, mr_resource_id r) \<and> memory_record_validate env r = Inr ()"
proof -
  obtain q m' where q: "q \<in> {p, with_extension p ''tmp''}" "memory_load_existing env de mp fs q = Inr m'" "pm_records m' = pm_records m"
  proof (cases "snapshot_exists (pl_exists mp) fs (with_extension p ''tmp'')")
    case (Inr ex)
    then show thesis
      using assms that [of "with_extension p ''tmp''"] that [of p]
      by (cases ex) (auto simp: memory_recover_locked_def Let_def try_r_eq_Inr split: sum.splits prod.splits bool.splits)
  qed (use assms in \<open>simp add: memory_recover_locked_def\<close>)
  have "(k, r) \<in> set (pm_records m')" using assms(2) q(3) by (simp add: map_of_SomeD)
  then show ?thesis using memory_load_Inr [OF q(2)] q(1) by blast
qed

text \<open>
  A value leaves the memory only to the tenant that consented: whatever faults occur, a successful \<open>retrieve\<close> had an active grant for this
  resource and a specialist that resolves, and the value is that of a record in the memory file which names the grant's tenant, this
  resource and this very grant, and whose digest it has.
\<close>

theorem memory_read_is_bound:
  assumes "memory_retrieve env cde de pl mp m reg cons g resource now fs = (Inr v, fs')"
    and "cn_persistence_path cons = Some p" and "apart p (pm_path m)" and "snapshot_path (pm_path m)"
  shows "grant_active env g now \<and> grant_allows g resource \<and> specialist_resolve reg (cg_specialist_id g) now \<noteq> None \<and>
    (\<exists>q\<in>{pm_path m, with_extension (pm_path m) ''tmp''}. \<exists>d. fs q = Some (N_File (canonical_bytes env (json_memory_document d))) \<and>
       \<lparr>mr_tenant_id = cg_tenant_id g, mr_resource_id = resource, mr_grant_id = cg_grant_id g, mr_value = v,
        mr_value_digest = digest env v\<rparr> \<in> set (md_records d))"
proof -
  let ?P = "pm_path m"
  obtain fs1 fs2 where act: "grant_active env g now" and out: "\<And>q. q \<notin> files_of p \<Longrightarrow> fs1 q = fs q"
    and eff: "(case check_consent env reg g resource now of
         Inl e \<Rightarrow> (Inl e, fs1)
       | Inr _ \<Rightarrow> locked (pl_lock mp) ?P ''persistent memory'' (\<lambda>fs.
           case memory_recover_locked env de mp ?P fs of
             (Inl e, fs1) \<Rightarrow> (Inl e, fs1)
           | (Inr current, fs1) \<Rightarrow>
               (try_r (ok_or (Err_Invalid ''resource not found'') (bt_get (pm_records current) (cg_tenant_id g, resource))) (\<lambda>rec.
                if mr_grant_id rec \<noteq> cg_grant_id g then Inl (Err_Rejected ''memory grant binding mismatch'')
                else try_r (memory_record_validate env rec) (\<lambda>_. Inr (mr_value rec))), fs1)) fs1) = (Inr v, fs2)"
    using assms(1) unfolding memory_retrieve_def by (rule gate_success) (use assms(2) in blast)
  obtain fs3 fs4 cur rec where cc: "check_consent env reg g resource now = Inr ()"
    and acq: "acquire_file_lock (pl_lock mp) ?P ''persistent memory'' fs1 = (Inr (), fs3)"
    and rcv: "memory_recover_locked env de mp ?P fs3 = (Inr cur, fs4)"
    and get: "bt_get (pm_records cur) (cg_tenant_id g, resource) = Some rec"
    and rec: "mr_grant_id rec = cg_grant_id g" "mr_value rec = v"
    using eff by (auto simp: locked_def try_r_eq_Inr split: sum.splits prod.splits if_splits)
  obtain q d where q: "q \<in> {?P, with_extension ?P ''tmp''}" "fs3 q = Some (N_File (canonical_bytes env (json_memory_document d)))"
    and r: "rec \<in> set (md_records d)" "(cg_tenant_id g, resource) = (mr_tenant_id rec, mr_resource_id rec)"
      "memory_record_validate env rec = Inr ()"
    using memory_recover_Inr [OF rcv get] by blast
  have same: "q \<notin> files_of p \<and> q \<in> files_of ?P" using q(1) assms(3) by (auto simp: apart_def files_of_def)
  have "rec = \<lparr>mr_tenant_id = cg_tenant_id g, mr_resource_id = resource, mr_grant_id = cg_grant_id g, mr_value = v,
        mr_value_digest = digest env v\<rparr>"
    using rec r(2,3) by (cases rec) (auto simp: memory_record_validate_def split: if_splits)
  moreover have "fs3 q = fs1 q" using q(1) snapshot_path_distinct [OF assms(4)] by (auto simp: acquire_ok [OF acq])
  ultimately show ?thesis
    using act cc q r(1) same out [of q] by (auto simp: check_consent_def try_r_eq_Inr split: if_splits)
qed

text \<open>
  Revoked consent closes the memory: after a successful revocation and any later operations on the consent file, with any faults, no
  handle can put, read or delete under the grant, and the memory files stay as they are.
\<close>

theorem revoked_consent_blocks_memory:
  assumes "snapshot_path p" and "self_delimiting env json_consent_document"
    and "cn_persistence_path r = Some p" and "consent_revoke env cde pl0 r (cg_grant_id g) fs = (Inr (), r', fs1)"
    and "(consent_step env cde p)\<^sup>*\<^sup>* fs1 fs2" and "cn_persistence_path cons = Some p" and "apart p (pm_path m)"
  shows "(\<exists>e. fst (memory_put env cde de pl mp m reg cons g resource v now fs2) = Inl e) \<and>
    (\<exists>e. fst (memory_retrieve env cde de pl mp m reg cons g resource now fs2) = Inl e) \<and>
    (\<exists>e. fst (memory_delete env cde de pl mp m reg cons g resource now fs2) = Inl e) \<and>
    (\<forall>q\<in>files_of (pm_path m). snd (memory_put env cde de pl mp m reg cons g resource v now fs2) q = fs2 q \<and>
       snd (memory_delete env cde de pl mp m reg cons g resource now fs2) q = fs2 q)"
proof -
  have inv: "on_file env p (cg_grant_id g) fs2"
    using consent_steps_keep [OF assms(5,1,2)] revoke_reaches_file [OF assms(1,2,3,4)] by blast
  have elsewhere: "q \<notin> files_of p" if "q \<in> files_of (pm_path m)" for q using that assms(7) by (auto simp: apart_def)
  note no = gate_refuses [OF assms(1,6) inv]
  show ?thesis
    unfolding memory_put_def memory_retrieve_def memory_delete_def
    by (intro conjI ballI no [THEN conjunct1] no [THEN conjunct2, rule_format] elsewhere)
qed

section \<open>Round trip\<close>

definition memory_ok :: "crypto \<Rightarrow> memory_records \<Rightarrow> bool" where
  "memory_ok env ms \<longleftrightarrow> bt_wf ms \<and>
     (\<forall>(k, r)\<in>set ms. k = (mr_tenant_id r, mr_resource_id r) \<and> memory_record_validate env r = Inr ())"

definition memory_bytes :: "crypto \<Rightarrow> memory_records \<Rightarrow> u8 list" where
  "memory_bytes env ms = canonical_bytes env (json_memory_document \<lparr>md_version = MEMORY_FORMAT_VERSION, md_records = bt_values ms\<rparr>)"

definition memory_at :: "crypto \<Rightarrow> path \<Rightarrow> memory_records \<Rightarrow> fs \<Rightarrow> bool" where
  "memory_at env p ms fs \<longleftrightarrow> memory_ok env ms \<and> fs (with_extension p ''tmp'') = None \<and> fs (with_extension p ''lock'') = None \<and>
     (fs p = Some (N_File (memory_bytes env ms)) \<or> fs p = None \<and> ms = [])"

definition memory_reads_back :: "crypto \<Rightarrow> (u8 list \<Rightarrow> string + memory_document) \<Rightarrow> bool" where
  "memory_reads_back env de \<longleftrightarrow>
     (\<forall>ms. memory_ok env ms \<longrightarrow> de (memory_bytes env ms) = Inr \<lparr>md_version = MEMORY_FORMAT_VERSION, md_records = bt_values ms\<rparr>)"

lemma insert_records_values:
  assumes "bt_wf (m @ xs)" and "\<forall>(k, r)\<in>set xs. k = (mr_tenant_id r, mr_resource_id r) \<and> memory_record_validate env r = Inr ()"
  shows "insert_records env m (map snd xs) = Inr (m @ xs)"
  using assms
proof (induction xs arbitrary: m)
  case (Cons e xs)
  obtain k r where e: "e = (k, r)" by (cases e)
  have less: "\<forall>a\<in>set m. fst a < k" using Cons.prems(1) e by (auto simp: bt_wf_def sorted_wrt_append)
  then have "\<not> bt_contains m k" by (auto simp: bt_contains_iff)
  then show ?case using Cons.IH [of "m @ [e]"] Cons.prems e less by (simp add: bt_insert_last)
qed simp

lemma memory_recover_clean:
  assumes "clean mp" and "memory_reads_back env de" and "memory_ok env ms" and "fs (with_extension p ''tmp'') = None"
    and "fs p = Some (N_File (memory_bytes env ms)) \<or> fs p = None \<and> ms = []"
  shows "memory_recover_locked env de mp p fs = (Inr \<lparr>pm_path = p, pm_records = ms\<rparr>, fs)"
proof -
  have "insert_records env [] (bt_values ms) = Inr ms"
    using insert_records_values [of "[]" ms env] assms(3) by (simp add: memory_ok_def bt_values_def)
  then have "memory_load_existing env de mp fs p = Inr \<lparr>pm_path = p, pm_records = ms\<rparr>" if "fs p \<noteq> None"
    using assms that
    by (simp add: memory_load_existing_def read_memory_snapshot_def clean_def io_check_simps memory_reads_back_def)
      (simp add: memory_bytes_def)
  then show ?thesis using assms by (auto simp: memory_recover_locked_def snapshot_exists_def clean_def io_check_simps)
qed

lemma save_records_clean:
  assumes "snapshot_path p" and "clean mp" and "memory_ok env ms" and "fs (with_extension p ''tmp'') = None" and "fs p \<noteq> Some N_Dir"
  shows "save_records env mp p ms fs = (Inr (), fs(p \<mapsto> N_File (memory_bytes env ms)))"
proof -
  have "check_all (memory_record_validate env) (bt_values ms) = Inr ()"
    using assms(3) by (auto simp: memory_ok_def check_all_ok bt_values_def)
  then show ?thesis
    using save_locked_succeeds [OF assms(1), of "pl_write mp" fs] assms by (simp add: save_records_def memory_bytes_def clean_def)
qed

text \<open>The gate without faults: the effect runs with the consent lock held.\<close>

lemma gate_clean:
  assumes sp: "snapshot_path p" and cl: "clean pl" and rb: "reads_back env de" and at: "consent_at env p c fs"
    and lock: "fs (with_extension p ''lock'') = None" and path: "cn_persistence_path r = Some p"
    and act: "contains_active_grant env c g now" and fs2: "fs2 (with_extension p ''lock'') = None"
    and eff: "effect (fs(with_extension p ''lock'' \<mapsto> N_File (io_token (pl_lock pl)))) =
      (res, fs2(with_extension p ''lock'' \<mapsto> N_File (io_token (pl_lock pl))))"
  shows "with_active_grant env de pl r g now effect fs = (res, fs2)"
proof -
  let ?l = "fs(with_extension p ''lock'' \<mapsto> N_File (io_token (pl_lock pl)))"
  have "consent_at env p c ?l" using at snapshot_path_distinct [OF sp] by (simp add: consent_at_def)
  then have "consent_recover_locked env de pl p ?l = (Inr c, ?l)" by (rule recover_clean [OF cl rb])
  then have "locked (pl_lock pl) p ''consent registry'' (\<lambda>fs. case consent_recover_locked env de pl p fs of
              (Inl e, fs1) \<Rightarrow> (Inl e, fs1)
            | (Inr current, fs1) \<Rightarrow>
                if \<not> contains_active_grant env current g now then (Inl (Err_Rejected ''consent grant is not active''), fs1)
                else effect fs1) fs = (res, fs2)"
    by (intro locked_clean) (use cl lock fs2 eff act in \<open>simp_all add: clean_def\<close>)
  then show ?thesis using path by (simp add: with_active_grant_def)
qed

text \<open>The body of an access without faults, over the file system that holds the memory lock.\<close>

lemma memory_locked_clean:
  assumes "snapshot_path P" and "clean mp" and "memory_reads_back env de" and "memory_at env P ms fs"
    and "fs2 (with_extension P ''lock'') = None"
    and "f \<lparr>pm_path = P, pm_records = ms\<rparr> (fs(with_extension P ''lock'' \<mapsto> N_File (io_token (pl_lock mp)))) =
      (res, fs2(with_extension P ''lock'' \<mapsto> N_File (io_token (pl_lock mp))))"
  shows "locked (pl_lock mp) P ''persistent memory'' (\<lambda>fs. case memory_recover_locked env de mp P fs of
      (Inl e, fs1) \<Rightarrow> (Inl e, fs1) | (Inr current, fs1) \<Rightarrow> f current fs1) fs = (res, fs2)"
proof -
  let ?l = "fs(with_extension P ''lock'' \<mapsto> N_File (io_token (pl_lock mp)))"
  have "memory_recover_locked env de mp P ?l = (Inr \<lparr>pm_path = P, pm_records = ms\<rparr>, ?l)"
    by (rule memory_recover_clean [OF assms(2,3)]) (use assms(4) snapshot_path_distinct [OF assms(1)] in \<open>auto simp: memory_at_def\<close>)
  then show ?thesis
    by (intro locked_clean) (use assms in \<open>simp_all add: clean_def memory_at_def\<close>)
qed

lemma save_records_locked:
  assumes "snapshot_path P" and "clean mp" and "memory_ok env ms'" and "memory_at env P ms fs"
  shows "save_records env mp P ms' (fs(with_extension P ''lock'' \<mapsto> nd)) =
    (Inr (), (fs(P \<mapsto> N_File (memory_bytes env ms')))(with_extension P ''lock'' \<mapsto> nd))"
proof -
  note dist = snapshot_path_distinct [OF assms(1)]
  have "save_records env mp P ms' (fs(with_extension P ''lock'' \<mapsto> nd)) =
      (Inr (), (fs(with_extension P ''lock'' \<mapsto> nd))(P \<mapsto> N_File (memory_bytes env ms')))"
    using assms(4) dist by (intro save_records_clean [OF assms(1,2,3)]) (auto simp: memory_at_def)
  then show ?thesis using dist by (simp add: fun_upd_twist)
qed

lemma memory_at_saved:
  assumes "snapshot_path P" and "memory_ok env ms'" and "memory_at env P ms fs"
  shows "memory_at env P ms' (fs(P \<mapsto> N_File (memory_bytes env ms')))"
  using assms snapshot_path_distinct [OF assms(1)] by (simp add: memory_at_def)

text \<open>An access under a consent gate that is open, with both locks taken.\<close>

definition written :: "path \<Rightarrow> node option \<Rightarrow> fs \<Rightarrow> fs" where
  "written P wr fs = (case wr of None \<Rightarrow> fs | Some nd \<Rightarrow> fs(P \<mapsto> nd))"

lemma memory_access_clean:
  assumes sp: "snapshot_path p" "snapshot_path P" and ap: "apart p P" and cl: "clean pl" "clean mp"
    and rb: "reads_back env cde" "memory_reads_back env de"
    and at: "consent_at env p c fs" "fs (with_extension p ''lock'') = None" "memory_at env P ms fs"
    and path: "cn_persistence_path cons = Some p" and act: "contains_active_grant env c g now"
    and cc: "check_consent env reg g resource now = Inr ()"
    and f: "\<And>fs nd. memory_at env P ms fs \<Longrightarrow> f \<lparr>pm_path = P, pm_records = ms\<rparr> (fs(with_extension P ''lock'' \<mapsto> nd)) =
      (res, (written P wr fs)(with_extension P ''lock'' \<mapsto> nd))"
  shows "with_active_grant env cde pl cons g now (\<lambda>fs.
     case check_consent env reg g resource now of Inl e \<Rightarrow> (Inl e, fs)
     | Inr _ \<Rightarrow> locked (pl_lock mp) P ''persistent memory'' (\<lambda>fs. case memory_recover_locked env de mp P fs of
          (Inl e, fs1) \<Rightarrow> (Inl e, fs1) | (Inr current, fs1) \<Rightarrow> f current fs1) fs) fs = (res, written P wr fs)"
proof (rule gate_clean [OF sp(1) cl(1) rb(1) at(1,2) path act])
  let ?lock = "with_extension p ''lock''"
  let ?l = "fs(?lock \<mapsto> N_File (io_token (pl_lock pl)))"
  have ne: "?lock \<noteq> P" "?lock \<noteq> with_extension P ''lock''" "?lock \<noteq> with_extension P ''tmp''" "P \<noteq> with_extension P ''lock''"
    using ap snapshot_path_distinct [OF sp(2)] by (auto simp: apart_def files_of_def)
  show "written P wr fs ?lock = None" using at(2) ne by (auto simp: written_def split: option.splits)
  have at': "memory_at env P ms ?l" using at(3) ne by (simp add: memory_at_def)
  have "written P wr ?l = (written P wr fs)(?lock \<mapsto> N_File (io_token (pl_lock pl)))" using ne by (auto simp: written_def fun_upd_twist split: option.splits)
  moreover have "written P wr ?l (with_extension P ''lock'') = None" using at' ne by (auto simp: memory_at_def written_def split: option.splits)
  ultimately show "(case check_consent env reg g resource now of Inl e \<Rightarrow> (Inl e, ?l)
     | Inr _ \<Rightarrow> locked (pl_lock mp) P ''persistent memory'' (\<lambda>fs. case memory_recover_locked env de mp P fs of
          (Inl e, fs1) \<Rightarrow> (Inl e, fs1) | (Inr current, fs1) \<Rightarrow> f current fs1) ?l) = (res, (written P wr fs)(?lock \<mapsto> N_File (io_token (pl_lock pl))))"
    using memory_locked_clean [OF sp(2) cl(2) rb(2) at', of "written P wr ?l" f res] f [OF at'] cc by simp
qed

lemma memory_put_clean:
  assumes "snapshot_path p" "snapshot_path P" "apart p P" "clean pl" "clean mp" "reads_back env cde" "memory_reads_back env de"
    "consent_at env p c fs" "fs (with_extension p ''lock'') = None" "memory_at env P ms fs"
    "cn_persistence_path cons = Some p" "contains_active_grant env c g now" "check_consent env reg g resource now = Inr ()"
    and P: "pm_path m = P"
    and ok: "memory_ok env ms'" and ms': "ms' = bt_insert (cg_tenant_id g, resource)
      \<lparr>mr_tenant_id = cg_tenant_id g, mr_resource_id = resource, mr_grant_id = cg_grant_id g, mr_value = v, mr_value_digest = digest env v\<rparr> ms"
  shows "memory_put env cde de pl mp m reg cons g resource v now fs =
    (Inr (digest env v, m\<lparr>pm_records := ms'\<rparr>), fs(P \<mapsto> N_File (memory_bytes env ms')))"
proof -
  let ?wr = "Some (N_File (memory_bytes env ms'))"
  show ?thesis
    using memory_access_clean [OF assms(1-13), where wr = ?wr and res = "Inr (digest env v, m\<lparr>pm_records := ms'\<rparr>)"]
    unfolding memory_put_def P by (simp add: save_records_locked [OF assms(2,5) ok] Let_def ms' [symmetric] written_def)
qed

lemma memory_retrieve_clean:
  assumes "snapshot_path p" "snapshot_path P" "apart p P" "clean pl" "clean mp" "reads_back env cde" "memory_reads_back env de"
    "consent_at env p c fs" "fs (with_extension p ''lock'') = None" "memory_at env P ms fs"
    "cn_persistence_path cons = Some p" "contains_active_grant env c g now" "check_consent env reg g resource now = Inr ()"
    and P: "pm_path m = P"
  shows "memory_retrieve env cde de pl mp m reg cons g resource now fs =
    ((case bt_get ms (cg_tenant_id g, resource) of None \<Rightarrow> Inl (Err_Invalid ''resource not found'')
      | Some rec \<Rightarrow> if mr_grant_id rec \<noteq> cg_grant_id g then Inl (Err_Rejected ''memory grant binding mismatch'') else Inr (mr_value rec)), fs)"
proof -
  have "memory_record_validate env rec = Inr ()" if "bt_get ms k = Some rec" for k rec
    using assms(10) map_of_SomeD [OF that] by (auto simp: memory_at_def memory_ok_def)
  then show ?thesis
    using memory_access_clean [OF assms(1-13), where wr = None and res = "case bt_get ms (cg_tenant_id g, resource) of
        None \<Rightarrow> Inl (Err_Invalid ''resource not found'')
      | Some rec \<Rightarrow> if mr_grant_id rec \<noteq> cg_grant_id g then Inl (Err_Rejected ''memory grant binding mismatch'') else Inr (mr_value rec)"]
    unfolding memory_retrieve_def P by (simp add: written_def split: option.splits)
qed

lemma memory_delete_clean:
  assumes "snapshot_path p" "snapshot_path P" "apart p P" "clean pl" "clean mp" "reads_back env cde" "memory_reads_back env de"
    "consent_at env p c fs" "fs (with_extension p ''lock'') = None" "memory_at env P ms fs"
    "cn_persistence_path cons = Some p" "contains_active_grant env c g now" "check_consent env reg g resource now = Inr ()"
    and P: "pm_path m = P" and get: "bt_get ms (cg_tenant_id g, resource) = Some rec" "mr_grant_id rec = cg_grant_id g"
    and ok: "memory_ok env ms'" and ms': "ms' = filter (\<lambda>e. fst e \<noteq> (cg_tenant_id g, resource)) ms"
  shows "memory_delete env cde de pl mp m reg cons g resource now fs =
    (Inr (True, m\<lparr>pm_records := ms'\<rparr>), fs(P \<mapsto> N_File (memory_bytes env ms')))"
proof -
  let ?wr = "Some (N_File (memory_bytes env ms'))"
  show ?thesis
    using memory_access_clean [OF assms(1-13), where wr = ?wr and res = "Inr (True, m\<lparr>pm_records := ms'\<rparr>)"]
    unfolding memory_delete_def P by (simp add: save_records_locked [OF assms(2,5) ok] Let_def ms' [symmetric] get written_def)
qed

lemma memory_ok_put:
  assumes "memory_ok env ms" and "memory_record_validate env rec = Inr ()"
  shows "memory_ok env (bt_insert (mr_tenant_id rec, mr_resource_id rec) rec ms)"
proof -
  have "\<forall>e\<in>set (bt_insert (mr_tenant_id rec, mr_resource_id rec) rec ms).
      (\<lambda>(k, r). k = (mr_tenant_id r, mr_resource_id r) \<and> memory_record_validate env r = Inr ()) e"
    by (rule bt_insert_all) (use assms in \<open>auto simp: memory_ok_def\<close>)
  then show ?thesis using assms(1) by (auto simp: memory_ok_def bt_wf_insert)
qed

lemma memory_ok_filter: "memory_ok env ms \<Longrightarrow> memory_ok env (filter P ms)"
  by (auto simp: memory_ok_def bt_wf_def sorted_wrt_map sorted_wrt_filter)

text \<open>
  C19.  What is put can be read back: without faults a value put under an active grant is what every handle on the memory file reads under that grant, no
  other record changes, and after a delete it is gone for every handle.
\<close>

theorem memory_round_trip:
  assumes paths: "snapshot_path p" "snapshot_path P" "apart p P" and plans: "clean pl" "clean mp"
    and serde: "reads_back env cde" "memory_reads_back env de"
    and at: "consent_at env p c fs" "fs (with_extension p ''lock'') = None" "memory_at env P ms fs"
    and gate: "cn_persistence_path cons = Some p" "contains_active_grant env c g now" "check_consent env reg g resource now = Inr ()"
    and sha: "sha256_len env" and res: "resource \<noteq> []" and handles: "pm_path m = P" "pm_path m2 = P"
  shows "\<exists>m' fs'. memory_put env cde de pl mp m reg cons g resource v now fs = (Inr (digest env v, m'), fs') \<and>
    memory_retrieve env cde de pl mp m2 reg cons g resource now fs' = (Inr v, fs') \<and>
    (\<forall>k. k \<noteq> (cg_tenant_id g, resource) \<longrightarrow> bt_get (pm_records m') k = bt_get ms k) \<and>
    (\<exists>m'' fs''. memory_delete env cde de pl mp m2 reg cons g resource now fs' = (Inr (True, m''), fs'') \<and>
       memory_retrieve env cde de pl mp m reg cons g resource now fs'' = (Inl (Err_Invalid ''resource not found''), fs''))"
proof -
  let ?rec = "\<lparr>mr_tenant_id = cg_tenant_id g, mr_resource_id = resource, mr_grant_id = cg_grant_id g, mr_value = v,
    mr_value_digest = digest env v\<rparr>"
  let ?k = "(cg_tenant_id g, resource)"
  define ms1 where "ms1 = bt_insert ?k ?rec ms"
  define ms2 where "ms2 = filter (\<lambda>e. fst e \<noteq> ?k) ms1"
  define fs1 where "fs1 = fs(P \<mapsto> N_File (memory_bytes env ms1))"
  define fs2 where "fs2 = fs1(P \<mapsto> N_File (memory_bytes env ms2))"
  have v: "memory_record_validate env ?rec = Inr ()"
    using gate(2) res sha by (auto simp: memory_record_validate_def contains_active_grant_def grant_active_def grant_validate_def valid_digest_digest
        split: if_splits)
  have ok1: "memory_ok env ms1" using memory_ok_put [OF _ v] at(3) by (simp add: ms1_def memory_at_def)
  have ok2: "memory_ok env ms2" using memory_ok_filter [OF ok1] by (simp add: ms2_def)
  have ne: "P \<noteq> p" "P \<noteq> with_extension p ''tmp''" "P \<noteq> with_extension p ''lock''"
    using paths(3) by (auto simp: apart_def files_of_def)
  have at1: "consent_at env p c fs1" "fs1 (with_extension p ''lock'') = None" "memory_at env P ms1 fs1"
    using at ne memory_at_saved [OF paths(2) ok1 at(3)] by (simp_all add: fs1_def consent_at_def)
  have at2: "consent_at env p c fs2" "fs2 (with_extension p ''lock'') = None" "memory_at env P ms2 fs2"
    using at1 ne memory_at_saved [OF paths(2) ok2 at1(3)] by (simp_all add: fs2_def consent_at_def)
  have put: "memory_put env cde de pl mp m reg cons g resource v now fs = (Inr (digest env v, m\<lparr>pm_records := ms1\<rparr>), fs1)"
    unfolding fs1_def by (rule memory_put_clean [OF paths plans serde at gate handles(1) ok1 ms1_def])
  have get: "memory_retrieve env cde de pl mp m2 reg cons g resource now fs1 = (Inr v, fs1)"
    using memory_retrieve_clean [OF paths plans serde at1 gate handles(2)] by (simp add: ms1_def)
  have "bt_get ms1 ?k = Some ?rec" by (simp add: ms1_def)
  from memory_delete_clean [OF paths plans serde at1 gate handles(2) this _ ok2 ms2_def]
  have del: "memory_delete env cde de pl mp m2 reg cons g resource now fs1 = (Inr (True, m2\<lparr>pm_records := ms2\<rparr>), fs2)"
    by (simp add: fs2_def)
  have "bt_get ms2 ?k = None" by (auto simp: ms2_def map_of_eq_None_iff)
  then have gone: "memory_retrieve env cde de pl mp m reg cons g resource now fs2 = (Inl (Err_Invalid ''resource not found''), fs2)"
    using memory_retrieve_clean [OF paths plans serde at2 gate handles(1)] by simp
  show ?thesis using put get del gone by (auto simp: ms1_def)
qed

section \<open>Concrete inputs\<close>

definition demo_memory_path :: path where
  "demo_memory_path = \<lparr>pa_dir = ''/var'', pa_stem = ''memory'', pa_ext = Some ''json''\<rparr>"

definition demo_memory :: persistent_memory where
  "demo_memory = \<lparr>pm_path = demo_memory_path, pm_records = []\<rparr>"

definition demo_specialists :: specialist_registry where
  "demo_specialists = \<lparr>sr_identities = [(''s'', demo_identity\<lparr>si_specialist_id := ''s''\<rparr>)], sr_revoked = []\<rparr>"

definition demo_record_of :: "json \<Rightarrow> memory_record" where
  "demo_record_of j = (let v = as_list j in
     \<lparr>mr_tenant_id = as_str (v ! 0), mr_resource_id = as_str (v ! 1), mr_grant_id = as_str (v ! 2), mr_value = v ! 3,
      mr_value_digest = as_str (v ! 4)\<rparr>)"

definition unary_memory_de :: "u8 list \<Rightarrow> string + memory_document" where
  "unary_memory_de bs = (let v = as_list (from_nat (length bs - 1)) in
     Inr \<lparr>md_version = word_of_int (as_int (v ! 0)), md_records = map demo_record_of (as_list (v ! 1))\<rparr>)"

lemma unary_memory_reads_back: "memory_reads_back unary_env unary_memory_de"
proof -
  have r: "demo_record_of (json_memory_record r) = r" for r
    by (cases r) (simp add: demo_record_of_def json_memory_record_def)
  have "unary_memory_de (canonical_bytes unary_env (json_memory_document d)) = Inr d" for d
  proof -
    have "as_list (json_memory_document d) = [json_word (md_version d), json_list json_memory_record (md_records d)]"
      by (simp add: json_memory_document_def)
    then show ?thesis
      by (cases d) (simp add: unary_memory_de_def unary_env_def canonical_bytes_def Let_def json_list_def json_word_def o_def r)
  qed
  then show ?thesis by (simp add: memory_reads_back_def memory_bytes_def)
qed

lemma demo_apart: "apart demo_path demo_memory_path" "snapshot_path demo_memory_path"
  by (auto simp: apart_def files_of_def demo_path_def demo_memory_path_def with_extension_def snapshot_path_def)

lemma demo_gate_open:
  "contains_active_grant unary_env demo_registered demo_grant 5" "check_consent unary_env demo_specialists demo_grant ''r'' 5 = Inr ()"
proof -
  have "consent_validate unary_env demo_registered = Inr ()" using demo_registered_at(1) by (simp add: consent_at_def consent_ok_def)
  then show "contains_active_grant unary_env demo_registered demo_grant 5"
    using demo_grant_valid
    by (simp add: contains_active_grant_def grant_active_def demo_registered_def) (simp add: demo_grant_def word_le_nat_alt word_less_nat_alt)
  show "check_consent unary_env demo_specialists demo_grant ''r'' 5 = Inr ()"
    using demo_grant_valid
    by (simp add: check_consent_def expected_grant_id_def)
      (simp add: demo_grant_def grant_allows_def bs_contains_def specialist_resolve_def demo_specialists_def demo_identity_def word_le_nat_alt)
qed

lemma demo_memory_at: "memory_at unary_env demo_memory_path [] demo_registered_fs"
  using demo_apart by (auto simp: memory_at_def memory_ok_def demo_registered_fs_def apart_def files_of_def)

lemma unary_sha256_len: "sha256_len unary_env"
  by (simp add: sha256_len_def unary_env_def)

lemmas demo_access = demo_snapshot_path demo_apart(2,1) demo_clean demo_clean unary_reads_back unary_memory_reads_back

theorem memory_round_trip_witness:
  "\<exists>m' fs'. memory_put unary_env unary_de unary_memory_de demo_plan demo_plan demo_memory demo_specialists demo_handle demo_grant ''r''
      (JStr ''x'') 5 demo_registered_fs = (Inr (zero_digest, m'), fs') \<and>
    memory_retrieve unary_env unary_de unary_memory_de demo_plan demo_plan demo_memory demo_specialists demo_handle demo_grant ''r'' 5 fs' =
      (Inr (JStr ''x''), fs')"
proof -
  have m: "pm_path demo_memory = demo_memory_path" by (simp add: demo_memory_def)
  show ?thesis
    using memory_round_trip [OF demo_access demo_registered_at demo_memory_at demo_handle_path demo_gate_open unary_sha256_len _ m m,
        of "JStr ''x''"] by auto
qed

definition demo_memory_record :: memory_record where
  "demo_memory_record = \<lparr>mr_tenant_id = ''t'', mr_resource_id = ''r'', mr_grant_id = zero_digest, mr_value = JStr ''x'', mr_value_digest = zero_digest\<rparr>"

definition demo_stored_fs :: fs where
  "demo_stored_fs = demo_registered_fs(demo_memory_path \<mapsto> N_File (memory_bytes unary_env [((''t'', ''r''), demo_memory_record)]))"

lemma demo_stored_at:
  "consent_at unary_env demo_path demo_registered demo_stored_fs" "demo_stored_fs (with_extension demo_path ''lock'') = None"
  "memory_at unary_env demo_memory_path [((''t'', ''r''), demo_memory_record)] demo_stored_fs"
proof -
  have ok: "memory_ok unary_env [((''t'', ''r''), demo_memory_record)]"
    by (simp add: memory_ok_def bt_wf_def demo_memory_record_def memory_record_validate_def)
  show "memory_at unary_env demo_memory_path [((''t'', ''r''), demo_memory_record)] demo_stored_fs"
    unfolding demo_stored_fs_def by (rule memory_at_saved [OF demo_apart(2) ok demo_memory_at])
  show "consent_at unary_env demo_path demo_registered demo_stored_fs" "demo_stored_fs (with_extension demo_path ''lock'') = None"
    using demo_registered_at demo_apart(1) by (auto simp: demo_stored_fs_def consent_at_def apart_def files_of_def)
qed

theorem memory_read_is_bound_witness:
  "\<exists>fs'. memory_retrieve unary_env unary_de unary_memory_de demo_plan demo_plan demo_memory demo_specialists demo_handle demo_grant ''r'' 5
      demo_stored_fs = (Inr (JStr ''x''), fs') \<and> grant_active unary_env demo_grant 5"
proof -
  have m: "pm_path demo_memory = demo_memory_path" by (simp add: demo_memory_def)
  have r: "memory_retrieve unary_env unary_de unary_memory_de demo_plan demo_plan demo_memory demo_specialists demo_handle demo_grant ''r'' 5
      demo_stored_fs = (Inr (JStr ''x''), demo_stored_fs)"
    using memory_retrieve_clean [OF demo_access demo_stored_at demo_handle_path demo_gate_open m]
    by (simp add: demo_grant_def demo_memory_record_def)
  have "grant_active unary_env demo_grant 5"
    using memory_read_is_bound [OF r demo_handle_path] demo_apart by (simp add: m)
  then show ?thesis using r by blast
qed

theorem revoked_consent_blocks_memory_witness:
  "\<exists>r' fs1. consent_revoke unary_env unary_de demo_plan demo_handle (cg_grant_id demo_grant) demo_stored_fs = (Inr (), r', fs1) \<and>
     (\<exists>e. fst (memory_retrieve unary_env unary_de unary_memory_de demo_plan demo_plan demo_memory demo_specialists demo_handle demo_grant ''r'' 5
        fs1) = Inl e)"
proof -
  have ap: "apart demo_path (pm_path demo_memory)" using demo_apart(1) by (simp add: demo_memory_def)
  obtain r' fs1 where rv: "consent_revoke unary_env unary_de demo_plan demo_handle (cg_grant_id demo_grant) demo_stored_fs = (Inr (), r', fs1)"
    using demo_revoke_works [OF demo_stored_at(1,2)] by blast
  show ?thesis
    using revoked_consent_blocks_memory [OF demo_snapshot_path unary_delimits demo_handle_path rv rtranclp.rtrancl_refl demo_handle_path ap] rv
    by blast
qed

end
