(* ===== verification/Routing.thy ===== *)
theory Routing
  imports Consent_Properties
begin

text \<open>
  The routing records of src/routing.rs: a request and a decision that binds it to a consent grant and a specialist identity.  Both operations ask
  the consent registry, which may read its file, so they carry the file system.
\<close>

section \<open>Requests and decisions\<close>

definition routing_text :: "string \<Rightarrow> bool" where
  "routing_text value \<longleftrightarrow> value \<noteq> [] \<and> length value \<le> 256 \<and> \<not> has_control value"

record routing_request =
  rq_request_id :: string
  rq_tenant_id :: string
  rq_specialist_id :: string
  rq_grant_id :: string
  rq_input_digest :: string
  rq_created_at :: u64
  rq_expires_at :: u64

definition json_routing_request :: "routing_request \<Rightarrow> json" where
  "json_routing_request q = JObj
    [(''request_id'', JStr (rq_request_id q)), (''tenant_id'', JStr (rq_tenant_id q)), (''specialist_id'', JStr (rq_specialist_id q)),
     (''grant_id'', JStr (rq_grant_id q)), (''input_digest'', JStr (rq_input_digest q)), (''created_at'', json_word (rq_created_at q)),
     (''expires_at'', json_word (rq_expires_at q))]"

definition request_validate :: "routing_request \<Rightarrow> unit result" where
  "request_validate q =
     (if \<not> routing_text (rq_request_id q) \<or> \<not> routing_text (rq_tenant_id q) \<or> \<not> routing_text (rq_specialist_id q) \<or>
         \<not> valid_digest (rq_grant_id q) \<or> \<not> valid_digest (rq_input_digest q) \<or> rq_expires_at q \<le> rq_created_at q
      then Inl (Err_Invalid ''invalid routing request'') else Inr ())"

definition routing_request_new ::
  "string \<Rightarrow> string \<Rightarrow> string \<Rightarrow> string \<Rightarrow> string \<Rightarrow> u64 \<Rightarrow> u64 \<Rightarrow> routing_request result" where
  "routing_request_new rid tenant specialist gid input created expires =
     (let q = \<lparr>rq_request_id = rid, rq_tenant_id = tenant, rq_specialist_id = specialist, rq_grant_id = gid,
               rq_input_digest = input, rq_created_at = created, rq_expires_at = expires\<rparr>
      in try_r (request_validate q) (\<lambda>_. Inr q))"

definition request_digest :: "crypto \<Rightarrow> routing_request \<Rightarrow> string result" where
  "request_digest env q = try_r (request_validate q) (\<lambda>_. Inr (digest env (json_routing_request q)))"

definition request_active :: "routing_request \<Rightarrow> u64 \<Rightarrow> bool" where
  "request_active q now \<longleftrightarrow> is_ok (request_validate q) \<and> rq_created_at q \<le> now \<and> now < rq_expires_at q"

record routing_decision =
  rd_request_digest :: string
  rd_input_digest :: string
  rd_tenant_id :: string
  rd_specialist_id :: string
  rd_specialist_digest :: string
  rd_grant_id :: string
  rd_issued_at :: u64
  rd_expires_at :: u64

definition decision_validate ::
  "crypto \<Rightarrow> (u8 list \<Rightarrow> string + consent_document) \<Rightarrow> plan \<Rightarrow> routing_decision \<Rightarrow> specialist_registry \<Rightarrow> consent_registry \<Rightarrow>
   consent_grant \<Rightarrow> routing_request \<Rightarrow> u64 \<Rightarrow> fs \<Rightarrow> unit result \<times> fs" where
  "decision_validate env de pl d reg cons g q now fs =
     (case try_r (request_validate q) (\<lambda>_. try_r (grant_validate env g) (\<lambda>_.
             ok_or (Err_Rejected ''specialist identity is unavailable'') (specialist_resolve reg (rd_specialist_id d) now)))
      of Inl e \<Rightarrow> (Inl e, fs)
       | Inr identity \<Rightarrow>
         let mismatch = Inl (Err_Rejected ''routing decision binding mismatch'')
         in if \<not> request_active q now then (mismatch, fs)
            else case has_active_grant env de pl cons g now fs of (active, fs1) \<Rightarrow>
              (if \<not> active \<or> now < rd_issued_at d \<or> rd_issued_at d < rq_created_at q \<or> rd_issued_at d < cg_issued_at g \<or>
                  rd_expires_at d \<le> now \<or> rq_expires_at q < rd_expires_at d \<or> cg_expires_at g < rd_expires_at d
               then mismatch
               else try_r (request_digest env q) (\<lambda>rd.
                 if rd_request_digest d \<noteq> rd \<or> rd_input_digest d \<noteq> rq_input_digest q \<or> rd_tenant_id d \<noteq> rq_tenant_id q \<or>
                    rd_specialist_id d \<noteq> rq_specialist_id q
                 then mismatch
                 else try_r (identity_digest env identity) (\<lambda>sd.
                   if rd_specialist_digest d \<noteq> sd \<or> rd_grant_id d \<noteq> cg_grant_id g \<or> rq_tenant_id q \<noteq> cg_tenant_id g \<or>
                      rq_specialist_id q \<noteq> cg_specialist_id g \<or> rq_grant_id q \<noteq> cg_grant_id g
                   then mismatch else Inr ())), fs1))"

definition decision_route ::
  "crypto \<Rightarrow> (u8 list \<Rightarrow> string + consent_document) \<Rightarrow> plan \<Rightarrow> plan \<Rightarrow> specialist_registry \<Rightarrow> consent_registry \<Rightarrow>
   consent_grant \<Rightarrow> routing_request \<Rightarrow> u64 \<Rightarrow> fs \<Rightarrow> routing_decision result \<times> fs" where
  "decision_route env de pl pl' reg cons g q now fs =
     (case try_r (request_validate q) (\<lambda>_. grant_validate env g) of
        Inl e \<Rightarrow> (Inl e, fs)
      | Inr _ \<Rightarrow>
        let invalid = Inl (Err_Rejected ''routing consent binding is invalid'')
        in if \<not> request_active q now then (invalid, fs)
           else case has_active_grant env de pl cons g now fs of (active, fs1) \<Rightarrow>
             if \<not> active \<or> rq_tenant_id q \<noteq> cg_tenant_id g \<or> rq_specialist_id q \<noteq> cg_specialist_id g \<or> rq_grant_id q \<noteq> cg_grant_id g
             then (invalid, fs1)
             else case try_r (ok_or (Err_Quarantined ''specialist identity is unavailable'')
                         (specialist_resolve reg (rq_specialist_id q) now)) (\<lambda>identity.
                       try_r (request_digest env q) (\<lambda>rd.
                       try_r (identity_digest env identity) (\<lambda>sd.
                       Inr \<lparr>rd_request_digest = rd, rd_input_digest = rq_input_digest q, rd_tenant_id = rq_tenant_id q,
                            rd_specialist_id = rq_specialist_id q, rd_specialist_digest = sd, rd_grant_id = cg_grant_id g,
                            rd_issued_at = now, rd_expires_at = min (rq_expires_at q) (cg_expires_at g)\<rparr>)))
                  of Inl e \<Rightarrow> (Inl e, fs1)
                   | Inr d \<Rightarrow>
                     (case decision_validate env de pl' d reg cons g q now fs1 of
                        (Inl e, fs2) \<Rightarrow> (Inl e, fs2)
                      | (Inr _, fs2) \<Rightarrow> (Inr d, fs2)))"

section \<open>What a decision binds\<close>

lemma json_routing_request_inject: "json_routing_request q = json_routing_request q' \<Longrightarrow> q = q'"
  by (cases q, cases q') (simp add: json_routing_request_def)

interpretation routing_request_enc: canonical json_routing_request
  by unfold_locales (rule json_routing_request_inject)

lemma has_active_means: "fst (has_active_grant env de pl cons g now fs) \<Longrightarrow> grant_active env g now"
  by (auto simp: has_active_grant_def contains_active_grant_def split: option.splits sum.splits prod.splits)

lemma decision_validate_Inr:
  assumes "decision_validate env de pl d reg cons g q now fs = (Inr (), fs')"
  shows "fst (has_active_grant env de pl cons g now fs) \<and> request_active q now \<and> grant_validate env g = Inr () \<and>
    rd_request_digest d = digest env (json_routing_request q) \<and> rd_grant_id d = cg_grant_id g \<and>
    rq_tenant_id q = cg_tenant_id g \<and> rq_specialist_id q = cg_specialist_id g \<and> rq_grant_id q = cg_grant_id g \<and>
    rd_issued_at d \<le> now \<and> now < rd_expires_at d \<and> rd_expires_at d \<le> min (rq_expires_at q) (cg_expires_at g) \<and>
    max (rq_created_at q) (cg_issued_at g) \<le> rd_issued_at d \<and>
    (\<exists>i. specialist_resolve reg (rq_specialist_id q) now = Some i \<and> identity_digest env i = Inr (rd_specialist_digest d))"
proof -
  obtain i where v: "request_validate q = Inr ()" "grant_validate env g = Inr ()" and i: "specialist_resolve reg (rd_specialist_id d) now = Some i"
    using assms by (auto simp: decision_validate_def try_r_eq_Inr split: sum.splits option.splits)
  obtain active fs1 where h: "has_active_grant env de pl cons g now fs = (active, fs1)" by (cases "has_active_grant env de pl cons g now fs")
  have "request_active q now" and a: "active" "rd_issued_at d \<le> now" "rq_created_at q \<le> rd_issued_at d" "cg_issued_at g \<le> rd_issued_at d"
      "now < rd_expires_at d" "rd_expires_at d \<le> rq_expires_at q" "rd_expires_at d \<le> cg_expires_at g"
    using assms v i h by (auto simp: decision_validate_def Let_def not_less split: if_splits)
  moreover have "rd_request_digest d = digest env (json_routing_request q)" "rd_specialist_id d = rq_specialist_id q"
    "identity_digest env i = Inr (rd_specialist_digest d)" "rd_grant_id d = cg_grant_id g" "rq_tenant_id q = cg_tenant_id g"
    "rq_specialist_id q = cg_specialist_id g" "rq_grant_id q = cg_grant_id g"
    using assms v i h a calculation(1)
    by (auto simp: decision_validate_def Let_def request_digest_def try_r_eq_Inr split: if_splits)
  ultimately show ?thesis using v i h by auto
qed

text \<open>
  A valid decision is bound: at the time of the check the consent registry holds the grant active and the specialist resolves, the decision names the digest of
  that identity, its grant is the one of the request, tenant and specialist agree, its times lie within those of request and grant; and if it also validates for
  another request, under whatever registries and at whatever time, the two requests are equal or their encodings collide.
\<close>

theorem routing_decision_is_bound:
  assumes "decision_validate env de pl d reg cons g q now fs = (Inr (), fs1)"
    and "decision_validate env de pl' d reg' cons' g' q' now' fs' = (Inr (), fs1')"
  shows "grant_active env g now \<and> rd_grant_id d = cg_grant_id g \<and> rq_grant_id q = cg_grant_id g \<and>
    rq_tenant_id q = cg_tenant_id g \<and> rq_specialist_id q = cg_specialist_id g \<and>
    max (rq_created_at q) (cg_issued_at g) \<le> rd_issued_at d \<and> rd_issued_at d \<le> now \<and> now < rd_expires_at d \<and>
    rd_expires_at d \<le> min (rq_expires_at q) (cg_expires_at g) \<and>
    (\<exists>i. specialist_resolve reg (rq_specialist_id q) now = Some i \<and> identity_digest env i = Inr (rd_specialist_digest d)) \<and>
    (q' = q \<or> collision env (json_routing_request q') (json_routing_request q))"
proof -
  have "digest env (json_routing_request q') = digest env (json_routing_request q)"
    using decision_validate_Inr [OF assms(1)] decision_validate_Inr [OF assms(2)] by simp
  then have "q' = q \<or> collision env (json_routing_request q') (json_routing_request q)"
    using digest_eq_cases json_routing_request_inject by blast
  then show ?thesis using decision_validate_Inr [OF assms(1)] has_active_means by blast
qed

text \<open>
  Revocation stops routing: after a grant was revoked through any handle on the consent file, no later operations make a decision under it valid or route
  a request under it.
\<close>

theorem revoked_consent_stops_routing:
  assumes "snapshot_path p" and "self_delimiting env json_consent_document"
    and "cn_persistence_path r = Some p" and "consent_revoke env de pl0 r (cg_grant_id g) fs = (Inr (), r', fs1)"
    and "(consent_step env de p)\<^sup>*\<^sup>* fs1 fs2" and "cn_persistence_path cons = Some p"
  shows "fst (decision_validate env de pl d reg cons g q now fs2) \<noteq> Inr () \<and> (\<exists>e. fst (decision_route env de pl pl' reg cons g q now fs2) = Inl e)"
proof -
  have inv: "on_file env p (cg_grant_id g) fs2"
    using consent_steps_keep [OF assms(5,1,2)] revoke_reaches_file [OF assms(1,2,3,4)] by blast
  have no: "\<not> fst (has_active_grant env de pl cons g now fs2)" using check_keeps [OF assms(1,6) inv] by blast
  then have "fst (decision_validate env de pl d reg cons g q now fs2) \<noteq> Inr ()"
    using decision_validate_Inr [of env de pl d reg cons g q now fs2] by (cases "decision_validate env de pl d reg cons g q now fs2") auto
  moreover have "\<exists>e. fst (decision_route env de pl pl' reg cons g q now fs2) = Inl e"
    using no by (auto simp: decision_route_def Let_def split: sum.splits prod.splits)
  ultimately show ?thesis by blast
qed

text \<open>
  A request that matches an active grant and a registered specialist is routed, and the decision is accepted at every later time before
  request or grant expire, for as long as the registries still hold grant and specialist.
\<close>

theorem routed_decision_valid_until_expiry:
  assumes "request_validate q = Inr ()" and "rq_created_at q \<le> now" and "now \<le> later" and "later < min (rq_expires_at q) (cg_expires_at g)"
    and "\<And>t. t \<in> {now, later} \<Longrightarrow> has_active_grant env de pl cons g t fs = (True, fs)"
    and "rq_tenant_id q = cg_tenant_id g" and "rq_specialist_id q = cg_specialist_id g" and "rq_grant_id q = cg_grant_id g"
    and "specialist_resolve reg (rq_specialist_id q) now = Some i" and "identity_validate i = Inr ()"
  shows "\<exists>d. decision_route env de pl pl reg cons g q now fs = (Inr d, fs) \<and> rd_issued_at d = now \<and>
    rd_expires_at d = min (rq_expires_at q) (cg_expires_at g) \<and> decision_validate env de pl d reg cons g q later fs = (Inr (), fs)"
proof -
  have g: "grant_validate env g = Inr ()" "cg_issued_at g \<le> now"
    using has_active_means [of env de pl cons g now fs] assms(5) [of now] by (auto simp: grant_active_def is_ok_unit)
  have later: "specialist_resolve reg (rq_specialist_id q) later = Some i"
    using assms(3,9) by (auto simp: specialist_resolve_def split: option.splits if_splits)
  have exp: "now < min (rq_expires_at q) (cg_expires_at g)" using assms(3,4) by (rule le_less_trans)
  let ?d = "\<lparr>rd_request_digest = digest env (json_routing_request q), rd_input_digest = rq_input_digest q, rd_tenant_id = rq_tenant_id q,
     rd_specialist_id = rq_specialist_id q, rd_specialist_digest = digest env (json_identity i), rd_grant_id = cg_grant_id g,
     rd_issued_at = now, rd_expires_at = min (rq_expires_at q) (cg_expires_at g)\<rparr>"
  have idn: "identity_digest env i = Inr (digest env (json_identity i))" using assms(10) by (simp add: identity_digest_def)
  have act: "request_active q t" if "t \<in> {now, later}" for t using that assms(1-4) exp by (auto simp: request_active_def)
  have valid: "decision_validate env de pl ?d reg cons g q t fs = (Inr (), fs)" if "t \<in> {now, later}" for t
  proof -
    have t: "specialist_resolve reg (cg_specialist_id g) t = Some i" "has_active_grant env de pl cons g t fs = (True, fs)"
      "now \<le> t" "t < min (rq_expires_at q) (cg_expires_at g)"
      using that later assms(3-5,7,9) exp by auto
    show ?thesis
      using t act [OF that] assms(1,2,6-8) g idn by (auto simp: decision_validate_def request_digest_def Let_def not_less not_le min_le_iff_disj)
  qed
  have "decision_route env de pl pl reg cons g q now fs = (Inr ?d, fs)"
    using valid [of now] act [of now] assms g idn by (simp add: decision_route_def request_digest_def Let_def)
  then show ?thesis using valid [of later] by auto
qed

section \<open>Concrete inputs\<close>

definition demo_request :: routing_request where
  "demo_request = \<lparr>rq_request_id = ''q'', rq_tenant_id = ''t'', rq_specialist_id = ''s'', rq_grant_id = zero_digest,
     rq_input_digest = zero_digest, rq_created_at = 2, rq_expires_at = 8\<rparr>"

definition demo_routing_registry :: specialist_registry where
  "demo_routing_registry = \<lparr>sr_identities = [(''s'', demo_identity\<lparr>si_specialist_id := ''s'', si_issued_at := 1\<rparr>)], sr_revoked = []\<rparr>"

definition demo_consents :: consent_registry where
  "demo_consents = demo_registered"

lemma demo_consents_active:
  "t \<in> {3, 5} \<Longrightarrow> has_active_grant unary_env unary_de demo_plan demo_consents demo_grant t fs = (True, fs)"
proof -
  assume t: "t \<in> {3, 5}"
  have "consent_validate unary_env demo_registered = Inr ()" using demo_registered_at(1) by (simp add: consent_at_def consent_ok_def)
  then show ?thesis
    using demo_grant_valid t
    by (simp add: has_active_grant_def contains_active_grant_def grant_active_def demo_consents_def demo_registered_def consent_default_def)
      (auto simp: demo_grant_def word_le_nat_alt word_less_nat_alt)
qed

lemma demo_request_facts:
  "request_validate demo_request = Inr ()" "rq_created_at demo_request \<le> 3" "(3 :: u64) \<le> 5"
  "5 < min (rq_expires_at demo_request) (cg_expires_at demo_grant)"
  "rq_tenant_id demo_request = cg_tenant_id demo_grant" "rq_specialist_id demo_request = cg_specialist_id demo_grant"
  "rq_grant_id demo_request = cg_grant_id demo_grant"
  "\<And>t. 3 \<le> t \<Longrightarrow> specialist_resolve demo_routing_registry (rq_specialist_id demo_request) t = Some (demo_identity\<lparr>si_specialist_id := ''s'', si_issued_at := 1\<rparr>)"
  "identity_validate (demo_identity\<lparr>si_specialist_id := ''s'', si_issued_at := 1\<rparr>) = Inr ()"
  by (auto simp: demo_request_def demo_grant_def request_validate_def routing_text_def ascii_control_def word_le_nat_alt word_less_nat_alt
      specialist_resolve_def demo_routing_registry_def demo_identity_def bs_contains_def identity_validate_def)

theorem routed_decision_valid_until_expiry_witness:
  "\<exists>d. decision_route unary_env unary_de demo_plan demo_plan demo_routing_registry demo_consents demo_grant demo_request 3 demo_registered_fs =
       (Inr d, demo_registered_fs) \<and>
     decision_validate unary_env unary_de demo_plan d demo_routing_registry demo_consents demo_grant demo_request 5 demo_registered_fs =
       (Inr (), demo_registered_fs)"
  using routed_decision_valid_until_expiry [OF demo_request_facts(1-4) demo_consents_active demo_request_facts(5-7)
      demo_request_facts(8) [OF order_refl] demo_request_facts(9)] by blast

definition demo_decision :: routing_decision where
  "demo_decision = \<lparr>rd_request_digest = zero_digest, rd_input_digest = zero_digest, rd_tenant_id = ''t'', rd_specialist_id = ''s'',
     rd_specialist_digest = zero_digest, rd_grant_id = zero_digest, rd_issued_at = 3, rd_expires_at = 8\<rparr>"

lemma demo_decision_valid:
  "decision_validate unary_env unary_de demo_plan demo_decision demo_routing_registry demo_consents demo_grant demo_request 5 fs = (Inr (), fs)"
proof -
  have r: "specialist_resolve demo_routing_registry ''s'' 5 = Some (demo_identity\<lparr>si_specialist_id := ''s'', si_issued_at := 1\<rparr>)"
    using demo_request_facts(8) [of 5] by (simp add: demo_request_def word_le_nat_alt)
  have a: "request_active demo_request 5"
    using demo_request_facts(1) by (simp add: request_active_def) (simp add: demo_request_def word_le_nat_alt word_less_nat_alt)
  have d: "request_digest unary_env demo_request = Inr zero_digest"
    "identity_digest unary_env (demo_identity\<lparr>si_specialist_id := ''s'', si_issued_at := 1\<rparr>) = Inr zero_digest"
    using demo_request_facts(1,9) by (simp_all add: request_digest_def identity_digest_def)
  have f: "rd_issued_at demo_decision = 3" "rd_expires_at demo_decision = 8" "rq_created_at demo_request = 2" "rq_expires_at demo_request = 8"
    "cg_issued_at demo_grant = 1" "cg_expires_at demo_grant = 9" "rd_specialist_id demo_decision = ''s''"
    "rd_request_digest demo_decision = zero_digest" "rd_specialist_digest demo_decision = zero_digest"
    "rd_input_digest demo_decision = rq_input_digest demo_request" "rd_tenant_id demo_decision = rq_tenant_id demo_request"
    "rq_specialist_id demo_request = ''s''" "rd_grant_id demo_decision = cg_grant_id demo_grant" "cg_specialist_id demo_grant = ''s''"
    by (simp_all add: demo_decision_def demo_request_def demo_grant_def)
  show ?thesis
    using r a d f demo_consents_active [of 5 fs] demo_grant_valid demo_request_facts(1,5,7)
    by (simp add: decision_validate_def Let_def word_le_nat_alt word_less_nat_alt)
qed

theorem routing_decision_is_bound_witness:
  "decision_validate unary_env unary_de demo_plan demo_decision demo_routing_registry demo_consents demo_grant demo_request 5 demo_registered_fs =
     (Inr (), demo_registered_fs) \<and> grant_active unary_env demo_grant 5"
  using routing_decision_is_bound [OF demo_decision_valid [of demo_registered_fs] demo_decision_valid [of demo_registered_fs]]
    demo_decision_valid [of demo_registered_fs] by blast

theorem revoked_consent_stops_routing_witness:
  "\<exists>r' fs1. consent_revoke unary_env unary_de demo_plan demo_handle (cg_grant_id demo_grant) demo_registered_fs = (Inr (), r', fs1) \<and>
     (\<exists>e. fst (decision_route unary_env unary_de demo_plan demo_plan demo_routing_registry demo_handle demo_grant demo_request 3 fs1) = Inl e)"
proof -
  obtain r' fs1 where rv: "consent_revoke unary_env unary_de demo_plan demo_handle (cg_grant_id demo_grant) demo_registered_fs = (Inr (), r', fs1)"
    using demo_revoke_works [OF demo_registered_at] by blast
  show ?thesis
    using revoked_consent_stops_routing [OF demo_snapshot_path unary_delimits demo_handle_path rv rtranclp.rtrancl_refl demo_handle_path] rv by blast
qed

end
