(* ===== verification/Claims.thy ===== *)
theory Claims
  imports Evidence
begin

text \<open>
  Claim envelopes and aggregate release packets of src/claims.rs.  Envelopes compose by \<open>meet\<close>, which intersects
  guarantees and unions what limits them; a packet commits to a set of envelopes and to the evidence that
  backs each of them.  The four maps that \<open>from_envelopes\<close> fills are the fields of \<open>release_index\<close>.
\<close>

definition claim_text :: "string \<Rightarrow> bool" where
  "claim_text value \<longleftrightarrow> value \<noteq> [] \<and> length value \<le> 256 \<and> \<not> has_control value"

definition claim_text_set :: "string bset \<Rightarrow> bool" where
  "claim_text_set values = list_all claim_text values"

record claim_envelope =
  ce_claim_id :: string
  ce_state_slice :: string
  ce_claim_ceiling :: string
  ce_guarantees :: "string bset"
  ce_assumptions :: "string bset"
  ce_excludes :: "string bset"
  ce_evidence_digests :: "string bset"
  ce_valid_until :: u64

definition json_envelope :: "claim_envelope \<Rightarrow> json" where
  "json_envelope c = JObj
    [(''claim_id'', JStr (ce_claim_id c)), (''state_slice'', JStr (ce_state_slice c)),
     (''claim_ceiling'', JStr (ce_claim_ceiling c)),
     (''guarantees'', json_list JStr (ce_guarantees c)),
     (''assumptions'', json_list JStr (ce_assumptions c)),
     (''excludes'', json_list JStr (ce_excludes c)),
     (''evidence_digests'', json_list JStr (ce_evidence_digests c)),
     (''valid_until'', json_word (ce_valid_until c))]"

record claim_evidence_binding =
  cb_claim_id :: string
  cb_subject_digest :: string
  cb_evidence_ids :: "string bset"

definition envelope_validate :: "claim_envelope \<Rightarrow> unit result" where
  "envelope_validate c =
     (if \<not> claim_text (ce_claim_id c) \<or> ce_state_slice c \<noteq> STATE_SLICE \<or>
         \<not> claim_text (ce_claim_ceiling c) \<or> ce_valid_until c = 0 \<or>
         \<not> claim_text_set (ce_guarantees c) \<or> \<not> claim_text_set (ce_assumptions c) \<or>
         \<not> claim_text_set (ce_excludes c) \<or> bs_inter (ce_guarantees c) (ce_excludes c) \<noteq> [] \<or>
         list_ex (\<lambda>d. \<not> valid_digest d) (ce_evidence_digests c)
      then Inl (Err_Invalid ''claim envelope is malformed'') else Inr ())"

definition envelope_is_valid_at :: "claim_envelope \<Rightarrow> u64 \<Rightarrow> bool" where
  "envelope_is_valid_at c now \<longleftrightarrow> is_ok (envelope_validate c) \<and> now < ce_valid_until c"

definition meet_material :: "claim_envelope \<Rightarrow> json" where
  "meet_material c = JArr
    [JStr ''claim-meet-v1'', JStr (ce_state_slice c), JStr (ce_claim_ceiling c),
     json_list JStr (ce_guarantees c), json_list JStr (ce_assumptions c),
     json_list JStr (ce_excludes c), json_list JStr (ce_evidence_digests c),
     json_word (ce_valid_until c)]"

definition envelope_meet :: "crypto \<Rightarrow> claim_envelope \<Rightarrow> claim_envelope \<Rightarrow> claim_envelope result" where
  "envelope_meet env a b =
     try_r (envelope_validate a) (\<lambda>_.
     try_r (envelope_validate b) (\<lambda>_.
     if ce_state_slice a \<noteq> ce_state_slice b \<or> ce_claim_ceiling a \<noteq> ce_claim_ceiling b
     then Inl (Err_Rejected ''claim envelopes have incompatible state or ceiling'')
     else let c = \<lparr>ce_claim_id = [], ce_state_slice = ce_state_slice a,
            ce_claim_ceiling = ce_claim_ceiling a,
            ce_guarantees = bs_inter (ce_guarantees a) (ce_guarantees b),
            ce_assumptions = bs_union (ce_assumptions a) (ce_assumptions b),
            ce_excludes = bs_union (ce_excludes a) (ce_excludes b),
            ce_evidence_digests = bs_union (ce_evidence_digests a) (ce_evidence_digests b),
            ce_valid_until = min (ce_valid_until a) (ce_valid_until b)\<rparr>;
          c' = c\<lparr>ce_claim_id := digest env (meet_material c)\<rparr>
        in try_r (envelope_validate c') (\<lambda>_. Inr c')))"

section \<open>Release packets\<close>

record release_packet =
  rp_packet_id :: string
  rp_state_slice :: string
  rp_claim_ceiling :: string
  rp_claim_ids :: "string bset"
  rp_claim_digests :: "(string, string) btree"
  rp_claim_evidence_digests :: "(string, string bset) btree"
  rp_claim_subject_digests :: "(string, string) btree"
  rp_evidence_digests :: "string bset"
  rp_generated_at :: u64
  rp_raw_payload_included :: bool

definition json_packet :: "release_packet \<Rightarrow> json" where
  "json_packet p = JObj
    [(''packet_id'', JStr (rp_packet_id p)), (''state_slice'', JStr (rp_state_slice p)),
     (''claim_ceiling'', JStr (rp_claim_ceiling p)),
     (''claim_ids'', json_list JStr (rp_claim_ids p)),
     (''claim_digests'', json_map JStr (rp_claim_digests p)),
     (''claim_evidence_digests'', json_map (json_list JStr) (rp_claim_evidence_digests p)),
     (''claim_subject_digests'', json_map JStr (rp_claim_subject_digests p)),
     (''evidence_digests'', json_list JStr (rp_evidence_digests p)),
     (''generated_at'', json_word (rp_generated_at p)),
     (''raw_payload_included'', JBool (rp_raw_payload_included p))]"

definition packet_validate :: "release_packet \<Rightarrow> unit result" where
  "packet_validate p =
     (if \<not> claim_text (rp_packet_id p) \<or> rp_state_slice p \<noteq> STATE_SLICE \<or>
         \<not> claim_text (rp_claim_ceiling p) \<or> rp_claim_ids p = [] \<or>
         list_ex (\<lambda>x. \<not> claim_text x) (rp_claim_ids p) \<or>
         bs_from_list (bt_keys (rp_claim_digests p)) \<noteq> rp_claim_ids p \<or>
         list_ex (\<lambda>x. \<not> valid_digest x) (bt_values (rp_claim_digests p)) \<or>
         bs_from_list (bt_keys (rp_claim_evidence_digests p)) \<noteq> rp_claim_ids p \<or>
         bs_from_list (bt_keys (rp_claim_subject_digests p)) \<noteq> rp_claim_ids p \<or>
         list_ex (\<lambda>x. \<not> valid_digest x) (bt_values (rp_claim_subject_digests p)) \<or>
         list_ex (\<lambda>x. x = []) (bt_values (rp_claim_evidence_digests p)) \<or>
         bs_from_list (concat (bt_values (rp_claim_evidence_digests p))) \<noteq> rp_evidence_digests p \<or>
         list_ex (\<lambda>x. \<not> valid_digest x) (rp_evidence_digests p) \<or>
         rp_generated_at p = 0 \<or> rp_raw_payload_included p
      then Inl (Err_Invalid ''aggregate release packet is malformed'') else Inr ())"

definition packet_digest :: "crypto \<Rightarrow> release_packet \<Rightarrow> string result" where
  "packet_digest env p = try_r (packet_validate p) (\<lambda>_. Inr (digest env (json_packet p)))"

text \<open>The loop of \<open>validate_claims\<close>, with the set of claim ids seen so far.\<close>

fun claims_match :: "crypto \<Rightarrow> release_packet \<Rightarrow> string bset \<Rightarrow> claim_envelope list \<Rightarrow> unit result" where
  "claims_match env p seen [] = Inr ()"
| "claims_match env p seen (c # cs) =
     try_r (envelope_validate c) (\<lambda>_.
     if ce_state_slice c \<noteq> rp_state_slice p \<or> ce_claim_ceiling c \<noteq> rp_claim_ceiling p \<or>
        bs_contains seen (ce_claim_id c) \<or>
        bt_get (rp_claim_digests p) (ce_claim_id c) \<noteq> Some (digest env (json_envelope c)) \<or>
        bt_get (rp_claim_evidence_digests p) (ce_claim_id c) \<noteq> Some (ce_evidence_digests c)
     then Inl (Err_Rejected ''release packet claim commitment is stale or mismatched'')
     else claims_match env p (bs_insert (ce_claim_id c) seen) cs)"

definition validate_claims :: "crypto \<Rightarrow> release_packet \<Rightarrow> claim_envelope list \<Rightarrow> unit result" where
  "validate_claims env p cs =
     try_r (packet_validate p) (\<lambda>_.
     if length cs \<noteq> length (rp_claim_ids p)
     then Inl (Err_Rejected ''release packet claim set is inconsistent'')
     else claims_match env p [] cs)"

definition claim_current ::
  "crypto \<Rightarrow> release_packet \<Rightarrow> evidence_registry \<Rightarrow> u64 \<Rightarrow> claim_envelope \<Rightarrow> unit result" where
  "claim_current env p reg now c =
     (if \<not> envelope_is_valid_at c now then Inl (Err_Rejected ''release claim is expired'')
      else try_r (ok_or (Err_Invalid ''release claim subject is missing'')
             (bt_get (rp_claim_subject_digests p) (ce_claim_id c))) (\<lambda>subject.
        if list_ex (\<lambda>d. \<not> has_valid_digest_for_subject env reg d now subject) (ce_evidence_digests c)
        then Inl (Err_Rejected ''release packet evidence is revoked, expired, or mismatched'')
        else Inr ()))"

definition validate_current ::
  "crypto \<Rightarrow> release_packet \<Rightarrow> claim_envelope list \<Rightarrow> evidence_registry \<Rightarrow> u64 \<Rightarrow> unit result" where
  "validate_current env p cs reg now =
     try_r (validate_claims env p cs) (\<lambda>_.
     if now < rp_generated_at p then Inl (Err_Rejected ''release packet is from the future'')
     else check_all (claim_current env p reg now) cs)"

section \<open>Assembling a packet\<close>

fun index_envelopes ::
  "(string, claim_envelope) btree \<Rightarrow> claim_envelope list \<Rightarrow> (string, claim_envelope) btree result" where
  "index_envelopes m [] = Inr m"
| "index_envelopes m (c # cs) =
     (if bt_contains m (ce_claim_id c) then Inl (Err_Rejected ''duplicate release claim identifier'')
      else index_envelopes (bt_insert (ce_claim_id c) c m) cs)"

fun bound_digests ::
  "crypto \<Rightarrow> evidence_registry \<Rightarrow> u64 \<Rightarrow> string \<Rightarrow> u64 \<Rightarrow> string bset \<Rightarrow> string list \<Rightarrow> string bset result" where
  "bound_digests env reg now subject until acc [] = Inr acc"
| "bound_digests env reg now subject until acc (eid # eids) =
     (if \<not> claim_text eid then Inl (Err_Invalid ''claim evidence identifier is malformed'')
      else try_r (accepted_digest_for env reg eid now subject until) (\<lambda>d.
           bound_digests env reg now subject until (bs_insert d acc) eids))"

record release_index =
  ri_claim_digests :: "(string, string) btree"
  ri_evidence :: "(string, string bset) btree"
  ri_subjects :: "(string, string) btree"
  ri_digests :: "string bset"

definition bind_claim ::
  "crypto \<Rightarrow> evidence_registry \<Rightarrow> u64 \<Rightarrow> (string, claim_envelope) btree \<Rightarrow> release_index \<Rightarrow>
     claim_evidence_binding \<Rightarrow> release_index result" where
  "bind_claim env reg now by_id ix b =
     try_r (ok_or (Err_Rejected ''unmatched claim evidence binding'') (bt_get by_id (cb_claim_id b))) (\<lambda>c.
     if \<not> valid_digest (cb_subject_digest b) \<or> cb_evidence_ids b = []
     then Inl (Err_Invalid ''claim evidence binding is malformed'')
     else try_r (bound_digests env reg now (cb_subject_digest b) (ce_valid_until c) [] (cb_evidence_ids b)) (\<lambda>ds.
       if ds \<noteq> ce_evidence_digests c
       then Inl (Err_Rejected ''claim evidence references do not match accepted evidence'')
       else Inr (ix\<lparr>ri_claim_digests := bt_insert (ce_claim_id c) (digest env (json_envelope c)) (ri_claim_digests ix),
              ri_evidence := bt_insert (ce_claim_id c) ds (ri_evidence ix),
              ri_subjects := bt_insert (ce_claim_id c) (cb_subject_digest b) (ri_subjects ix),
              ri_digests := bs_union (ri_digests ix) ds\<rparr>)))"

fun bind_claims ::
  "crypto \<Rightarrow> evidence_registry \<Rightarrow> u64 \<Rightarrow> (string, claim_envelope) btree \<Rightarrow> release_index \<Rightarrow>
     claim_evidence_binding list \<Rightarrow> release_index result" where
  "bind_claims env reg now by_id ix [] = Inr ix"
| "bind_claims env reg now by_id ix (b # bs) =
     try_r (bind_claim env reg now by_id ix b) (\<lambda>ix'. bind_claims env reg now by_id ix' bs)"

definition from_envelopes ::
  "crypto \<Rightarrow> string \<Rightarrow> claim_envelope list \<Rightarrow> claim_evidence_binding list \<Rightarrow> evidence_registry \<Rightarrow> u64 \<Rightarrow>
     release_packet result" where
  "from_envelopes env packet_id cs bs reg generated_at =
     (if cs = [] \<or> generated_at = 0 then Inl (Err_Invalid ''release packet needs one claim'')
      else try_r (check_all (\<lambda>c. try_r (envelope_validate c) (\<lambda>_.
          if \<not> envelope_is_valid_at c generated_at
          then Inl (Err_Rejected ''release claim is expired at packet creation'') else Inr ())) cs) (\<lambda>_.
        let slice = ce_state_slice (hd cs); ceiling = ce_claim_ceiling (hd cs)
        in if list_ex (\<lambda>c. ce_state_slice c \<noteq> slice \<or> ce_claim_ceiling c \<noteq> ceiling) cs
           then Inl (Err_Rejected ''release packet claims have incompatible state or ceiling'')
           else if length bs \<noteq> length cs
           then Inl (Err_Rejected ''release claims and evidence bindings do not match'')
           else try_r (index_envelopes [] cs) (\<lambda>by_id.
             try_r (bind_claims env reg generated_at by_id
               \<lparr>ri_claim_digests = [], ri_evidence = [], ri_subjects = [], ri_digests = []\<rparr> bs) (\<lambda>ix.
             let p = \<lparr>rp_packet_id = packet_id, rp_state_slice = slice, rp_claim_ceiling = ceiling,
                   rp_claim_ids = bs_from_list (bt_keys by_id), rp_claim_digests = ri_claim_digests ix,
                   rp_claim_evidence_digests = ri_evidence ix, rp_claim_subject_digests = ri_subjects ix,
                   rp_evidence_digests = ri_digests ix, rp_generated_at = generated_at,
                   rp_raw_payload_included = False\<rparr>
             in try_r (packet_validate p) (\<lambda>_.
                try_r (validate_current env p cs reg generated_at) (\<lambda>_. Inr p))))))"

section \<open>Meets\<close>

text \<open>An envelope whose four sets are \<open>BTreeSet\<close>s, and validity without the error value.\<close>

definition envelope_wf :: "claim_envelope \<Rightarrow> bool" where
  "envelope_wf c \<longleftrightarrow> bs_wf (ce_guarantees c) \<and> bs_wf (ce_assumptions c) \<and> bs_wf (ce_excludes c) \<and>
     bs_wf (ce_evidence_digests c)"

lemma envelope_validate_ok:
  "envelope_validate c = Inr () \<longleftrightarrow>
     claim_text (ce_claim_id c) \<and> ce_state_slice c = STATE_SLICE \<and> claim_text (ce_claim_ceiling c) \<and>
     ce_valid_until c \<noteq> 0 \<and>
     (\<forall>x\<in>set (ce_guarantees c) \<union> set (ce_assumptions c) \<union> set (ce_excludes c). claim_text x) \<and>
     set (ce_guarantees c) \<inter> set (ce_excludes c) = {} \<and> (\<forall>d\<in>set (ce_evidence_digests c). valid_digest d)"
proof -
  have inter: "bs_inter (ce_guarantees c) (ce_excludes c) = [] \<longleftrightarrow>
      set (ce_guarantees c) \<inter> set (ce_excludes c) = {}"
    by (metis set_bs_ops(2) set_empty)
  show ?thesis by (auto simp: envelope_validate_def inter claim_text_set_def list_all_iff list_ex_iff)
qed

definition meet_body :: "claim_envelope \<Rightarrow> claim_envelope \<Rightarrow> claim_envelope" where
  "meet_body a b = \<lparr>ce_claim_id = [], ce_state_slice = ce_state_slice a, ce_claim_ceiling = ce_claim_ceiling a,
     ce_guarantees = bs_inter (ce_guarantees a) (ce_guarantees b),
     ce_assumptions = bs_union (ce_assumptions a) (ce_assumptions b),
     ce_excludes = bs_union (ce_excludes a) (ce_excludes b),
     ce_evidence_digests = bs_union (ce_evidence_digests a) (ce_evidence_digests b),
     ce_valid_until = min (ce_valid_until a) (ce_valid_until b)\<rparr>"

definition meet_of :: "crypto \<Rightarrow> claim_envelope \<Rightarrow> claim_envelope \<Rightarrow> claim_envelope" where
  "meet_of env a b = (meet_body a b)\<lparr>ce_claim_id := digest env (meet_material (meet_body a b))\<rparr>"

lemma claim_text_digest: "sha256_len env \<Longrightarrow> claim_text (digest env j)"
  using valid_digest_no_control [of "digest env j"]
  by (auto simp: claim_text_def digest_nonempty dest: valid_digest_digest [of env j] simp: valid_digest_def)

lemma meet_of_valid:
  assumes "sha256_len env" and "envelope_validate a = Inr ()" and "envelope_validate b = Inr ()"
  shows "envelope_validate (meet_of env a b) = Inr ()"
proof -
  have "min (ce_valid_until a) (ce_valid_until b) \<noteq> 0"
    using assms(2,3) by (auto simp: envelope_validate_ok min_def)
  then show ?thesis
    using assms claim_text_digest [OF assms(1)]
    by (auto simp: envelope_validate_ok meet_of_def meet_body_def)
qed

lemma envelope_meet_eq:
  assumes "sha256_len env"
  shows "envelope_meet env a b = Inr c \<longleftrightarrow>
    envelope_validate a = Inr () \<and> envelope_validate b = Inr () \<and>
    ce_claim_ceiling a = ce_claim_ceiling b \<and> c = meet_of env a b"
proof (cases "envelope_validate a = Inr () \<and> envelope_validate b = Inr ()")
  case True
  then have "ce_state_slice a = ce_state_slice b" by (simp add: envelope_validate_ok)
  moreover have "envelope_meet env a b = (if ce_state_slice a \<noteq> ce_state_slice b \<or> ce_claim_ceiling a \<noteq> ce_claim_ceiling b
      then Inl (Err_Rejected ''claim envelopes have incompatible state or ceiling'')
      else try_r (envelope_validate (meet_of env a b)) (\<lambda>_. Inr (meet_of env a b)))"
    using True by (simp add: envelope_meet_def meet_of_def meet_body_def Let_def)
  ultimately show ?thesis using True meet_of_valid [OF assms, of a b] by auto
next
  case False
  then show ?thesis by (auto simp: envelope_meet_def try_r_eq_Inr)
qed

lemma meet_of_wf: "envelope_wf a \<Longrightarrow> envelope_wf b \<Longrightarrow> envelope_wf (meet_of env a b)"
  by (simp add: envelope_wf_def meet_of_def meet_body_def bs_wf_ops)

lemma meet_body_commutes:
  assumes "envelope_wf a" and "envelope_wf b" and "ce_state_slice a = ce_state_slice b"
    and "ce_claim_ceiling a = ce_claim_ceiling b"
  shows "meet_body a b = meet_body b a"
  using assms
  by (auto simp: meet_body_def envelope_wf_def min.commute intro!: claim_envelope.equality bs_ext bs_wf_ops)

lemma meet_body_assoc:
  assumes "envelope_wf a" and "envelope_wf b" and "envelope_wf c"
  shows "meet_body (meet_of env a b) c = meet_body a (meet_of env b c)"
  using assms
  by (auto simp: meet_of_def meet_body_def envelope_wf_def min.assoc intro!: claim_envelope.equality bs_ext bs_wf_ops)

text \<open>
  Composition narrows: \<open>meet\<close> succeeds if and only if both envelopes are valid and have one ceiling; the result is
  valid, guarantees only what both guarantee, carries every assumption, exclusion and evidence reference of both, is valid at a time
  exactly when both are, and does not depend on the order or grouping of the envelopes, not even in its claim id.
\<close>

theorem meet_narrows:
  assumes "sha256_len env" and "envelope_wf a" and "envelope_wf b" and "envelope_wf c"
  shows "(is_ok (envelope_meet env a b) \<longleftrightarrow> envelope_validate a = Inr () \<and> envelope_validate b = Inr () \<and>
            ce_claim_ceiling a = ce_claim_ceiling b) \<and>
    (\<forall>m. envelope_meet env a b = Inr m \<longrightarrow>
       ce_claim_ceiling m = ce_claim_ceiling a \<and> set (ce_guarantees m) = set (ce_guarantees a) \<inter> set (ce_guarantees b) \<and>
       set (ce_assumptions m) = set (ce_assumptions a) \<union> set (ce_assumptions b) \<and>
       set (ce_excludes m) = set (ce_excludes a) \<union> set (ce_excludes b) \<and>
       set (ce_evidence_digests m) = set (ce_evidence_digests a) \<union> set (ce_evidence_digests b) \<and>
       (\<forall>now. envelope_is_valid_at m now \<longleftrightarrow> envelope_is_valid_at a now \<and> envelope_is_valid_at b now) \<and>
       envelope_meet env b a = Inr m \<and>
       (\<forall>r. envelope_meet env m c = Inr r \<longleftrightarrow> (\<exists>n. envelope_meet env b c = Inr n \<and> envelope_meet env a n = Inr r)))"
proof -
  have "is_ok (envelope_meet env a b) \<longleftrightarrow> envelope_validate a = Inr () \<and> envelope_validate b = Inr () \<and>
      ce_claim_ceiling a = ce_claim_ceiling b"
    by (auto simp: is_ok_iff envelope_meet_eq [OF assms(1)])
  moreover have "ce_claim_ceiling m = ce_claim_ceiling a \<and> set (ce_guarantees m) = set (ce_guarantees a) \<inter> set (ce_guarantees b) \<and>
       set (ce_assumptions m) = set (ce_assumptions a) \<union> set (ce_assumptions b) \<and>
       set (ce_excludes m) = set (ce_excludes a) \<union> set (ce_excludes b) \<and>
       set (ce_evidence_digests m) = set (ce_evidence_digests a) \<union> set (ce_evidence_digests b) \<and>
       (\<forall>now. envelope_is_valid_at m now \<longleftrightarrow> envelope_is_valid_at a now \<and> envelope_is_valid_at b now) \<and>
       envelope_meet env b a = Inr m \<and>
       (\<forall>r. envelope_meet env m c = Inr r \<longleftrightarrow> (\<exists>n. envelope_meet env b c = Inr n \<and> envelope_meet env a n = Inr r))"
    if "envelope_meet env a b = Inr m" for m
  proof -
    have ab: "envelope_validate a = Inr ()" "envelope_validate b = Inr ()" "ce_claim_ceiling a = ce_claim_ceiling b"
      "m = meet_of env a b" using that by (simp_all add: envelope_meet_eq [OF assms(1)])
    have ok: "envelope_validate m = Inr ()" unfolding ab(4) by (rule meet_of_valid [OF assms(1) ab(1,2)])
    have "meet_body a b = meet_body b a"
      by (rule meet_body_commutes) (use assms ab in \<open>simp_all add: envelope_validate_ok\<close>)
    then have "envelope_meet env b a = Inr m" using ab by (simp add: envelope_meet_eq [OF assms(1)] meet_of_def)
    moreover have "meet_of env m c = meet_of env a (meet_of env b c)"
      unfolding ab(4) using meet_body_assoc [OF assms(2-4), of env] by (simp add: meet_of_def [of env "meet_of env a b"] meet_of_def [of env a "meet_of env b c"])
    then have "envelope_meet env m c = Inr r \<longleftrightarrow> (\<exists>n. envelope_meet env b c = Inr n \<and> envelope_meet env a n = Inr r)" for r
      using ab ok meet_of_valid [OF assms(1), of b c]
      by (auto simp: envelope_meet_eq [OF assms(1)] meet_of_def meet_body_def)
    moreover have "envelope_is_valid_at m now \<longleftrightarrow> envelope_is_valid_at a now \<and> envelope_is_valid_at b now" for now
      using ab ok by (simp add: envelope_is_valid_at_def meet_of_def meet_body_def)
    ultimately show ?thesis using ab(4) by (simp add: meet_of_def meet_body_def)
  qed
  ultimately show ?thesis by blast
qed

definition demo_envelope :: "string \<Rightarrow> claim_envelope" where
  "demo_envelope cid = \<lparr>ce_claim_id = cid, ce_state_slice = STATE_SLICE, ce_claim_ceiling = ''local'',
     ce_guarantees = [''g''], ce_assumptions = [], ce_excludes = [''x''],
     ce_evidence_digests = [zero_digest], ce_valid_until = 500\<rparr>"

lemma demo_envelope_wf: "envelope_wf (demo_envelope cid)"
  by (simp add: envelope_wf_def demo_envelope_def bs_wf_def)

lemma demo_envelope_valid: "claim_text cid \<Longrightarrow> envelope_validate (demo_envelope cid) = Inr ()"
  by (simp add: envelope_validate_ok demo_envelope_def claim_text_def ascii_control_def)

theorem meet_narrows_witness:
  "\<exists>m. envelope_meet demo_env (demo_envelope ''a'') (demo_envelope ''b'') = Inr m \<and>
     envelope_meet demo_env (demo_envelope ''b'') (demo_envelope ''a'') = Inr m \<and> set (ce_guarantees m) = {''g''}"
proof -
  let ?a = "demo_envelope ''a''" and ?b = "demo_envelope ''b''"
  note laws = meet_narrows [OF demo_sha256_len demo_envelope_wf demo_envelope_wf demo_envelope_wf, of "''a''" "''b''" "''a''"]
  have "is_ok (envelope_meet demo_env ?a ?b)"
    using laws demo_envelope_valid [of "''a''"] demo_envelope_valid [of "''b''"]
    by (simp add: claim_text_def ascii_control_def) (simp add: demo_envelope_def)
  then obtain m where m: "envelope_meet demo_env ?a ?b = Inr m" by (auto simp: is_ok_iff)
  then have "envelope_meet demo_env ?b ?a = Inr m" "set (ce_guarantees m) = set (ce_guarantees ?a) \<inter> set (ce_guarantees ?b)"
    using laws by blast+
  then show ?thesis using m by (auto simp: demo_envelope_def)
qed

section \<open>Packets and their evidence\<close>

lemma index_envelopes_get:
  "index_envelopes m cs = Inr by_id \<Longrightarrow> bt_get by_id cid = Some c \<Longrightarrow> bt_get m cid = Some c \<or> c \<in> set cs"
proof (induction cs arbitrary: m)
  case (Cons d cs)
  then have "index_envelopes (bt_insert (ce_claim_id d) d m) cs = Inr by_id" by (simp split: if_splits)
  from Cons.IH [OF this Cons.prems(2)] show ?case by (auto split: if_splits)
qed simp

lemma bound_digests_set:
  "bound_digests env reg now subject until acc eids = Inr ds \<Longrightarrow>
     set acc \<subseteq> set ds \<and> (\<forall>eid\<in>set eids. \<exists>d\<in>set ds. accepted_digest_for env reg eid now subject until = Inr d)"
proof (induction eids arbitrary: acc)
  case (Cons eid eids)
  then obtain d where d: "accepted_digest_for env reg eid now subject until = Inr d"
    "bound_digests env reg now subject until (bs_insert d acc) eids = Inr ds"
    by (auto simp: try_r_eq_Inr split: if_splits)
  from Cons.IH [OF d(2)] show ?case using d(1) by auto
qed simp

lemma bind_claims_bound:
  "bind_claims env reg now by_id ix bs = Inr out \<Longrightarrow> b \<in> set bs \<Longrightarrow>
     \<exists>c ds. bt_get by_id (cb_claim_id b) = Some c \<and>
       bound_digests env reg now (cb_subject_digest b) (ce_valid_until c) [] (cb_evidence_ids b) = Inr ds \<and>
       ds = ce_evidence_digests c"
proof (induction bs arbitrary: ix)
  case (Cons b' bs)
  then obtain ix' where ix': "bind_claim env reg now by_id ix b' = Inr ix'"
    "bind_claims env reg now by_id ix' bs = Inr out" by (auto simp: try_r_eq_Inr)
  show ?case
  proof (cases "b = b'")
    case True
    then show ?thesis using ix'(1) by (auto simp: bind_claim_def try_r_eq_Inr split: if_splits)
  next
    case False
    then show ?thesis using Cons.IH [OF ix'(2)] Cons.prems(2) by auto
  qed
qed simp

lemma from_envelopes_ok:
  assumes "from_envelopes env packet_id cs bs reg generated_at = Inr p"
  obtains by_id ix where "index_envelopes [] cs = Inr by_id"
    "bind_claims env reg generated_at by_id
       \<lparr>ri_claim_digests = [], ri_evidence = [], ri_subjects = [], ri_digests = []\<rparr> bs = Inr ix"
    "packet_validate p = Inr ()" "validate_current env p cs reg generated_at = Inr ()"
    "rp_generated_at p = generated_at" "rp_packet_id p = packet_id" "rp_claim_ids p = bs_from_list (bt_keys by_id)"
  using assms by (auto simp: from_envelopes_def try_r_eq_Inr Let_def split: if_splits)

lemma claim_current_ok:
  "claim_current env p reg now c = Inr () \<longleftrightarrow> envelope_is_valid_at c now \<and>
     (\<exists>subject. bt_get (rp_claim_subject_digests p) (ce_claim_id c) = Some subject \<and>
       (\<forall>d\<in>set (ce_evidence_digests c). has_valid_digest_for_subject env reg d now subject))"
  by (auto simp: claim_current_def try_r_eq_Inr list_ex_iff split: if_splits)

lemma validate_current_ok:
  "validate_current env p cs reg now = Inr () \<longleftrightarrow> validate_claims env p cs = Inr () \<and> rp_generated_at p \<le> now \<and>
     (\<forall>c\<in>set cs. claim_current env p reg now c = Inr ())"
  by (auto simp: validate_current_def try_r_eq_Inr check_all_ok not_less split: if_splits)

lemma claims_match_ok:
  "claims_match env p seen cs = Inr () \<Longrightarrow>
     distinct (map ce_claim_id cs) \<and> (\<forall>c\<in>set cs. ce_claim_id c \<notin> set seen \<and> envelope_validate c = Inr () \<and>
       ce_claim_ceiling c = rp_claim_ceiling p \<and>
       bt_get (rp_claim_digests p) (ce_claim_id c) = Some (digest env (json_envelope c)) \<and>
       bt_get (rp_claim_evidence_digests p) (ce_claim_id c) = Some (ce_evidence_digests c))"
proof (induction cs arbitrary: seen)
  case (Cons c cs)
  then have "claims_match env p (bs_insert (ce_claim_id c) seen) cs = Inr ()"
    by (auto simp: try_r_eq_Inr split: if_splits)
  from Cons.IH [OF this] Cons.prems show ?case
    by (auto simp: try_r_eq_Inr bs_contains_def split: if_splits)
qed simp

lemma packet_evidence:
  assumes "validate_current env p cs reg now = Inr ()" and "c \<in> set cs" and "d \<in> set (ce_evidence_digests c)"
  shows "\<exists>eid e. (eid, e) \<in> set (er_records reg) \<and> digest env (json_evidence e) = d \<and> ev_accepted e \<and>
    \<not> ev_revoked e \<and> now < ev_valid_until e \<and>
    bt_get (rp_claim_subject_digests p) (ce_claim_id c) = Some (ev_source_digest e)"
proof -
  have "claim_current env p reg now c = Inr ()" using assms(1,2) by (simp add: validate_current_ok)
  then obtain subject where s: "bt_get (rp_claim_subject_digests p) (ce_claim_id c) = Some subject"
    "has_valid_digest_for_subject env reg d now subject"
    using assms(3) by (auto simp: claim_current_ok)
  then obtain e where "e \<in> snd ` set (er_records reg)" "evidence_valid e now subject" "digest env (json_evidence e) = d"
    by (auto simp: has_valid_digest_for_subject_def list_ex_iff bt_values_def)
  moreover from this(1) obtain eid where "(eid, e) \<in> set (er_records reg)" by auto
  ultimately show ?thesis using s(1) unfolding evidence_valid_def by blast
qed

interpretation canon_envelope: canonical json_envelope
  by unfold_locales (auto simp: json_envelope_def intro: claim_envelope.equality)

text \<open>
  A release packet that validates now is backed now: when \<open>validate_current\<close> succeeds, the claims are distinct, each one is valid
  and of the packet's ceiling, its envelope is the one the packet committed to (any other envelope under that id with the
  committed digest would be a collision), and every evidence reference of it names a record of the registry that is accepted,
  not revoked, current and bound to the packet's subject for the claim.
\<close>

theorem current_packet_is_backed:
  assumes "validate_current env p cs reg now = Inr ()" and "c \<in> set cs"
  shows "distinct (map ce_claim_id cs) \<and> rp_generated_at p \<le> now \<and> now < ce_valid_until c \<and>
    ce_claim_ceiling c = rp_claim_ceiling p \<and>
    (\<forall>c'. bt_get (rp_claim_digests p) (ce_claim_id c) = Some (digest env (json_envelope c')) \<longrightarrow>
       c' = c \<or> collision env (json_envelope c') (json_envelope c)) \<and>
    (\<exists>subject. bt_get (rp_claim_subject_digests p) (ce_claim_id c) = Some subject \<and>
      (\<forall>d\<in>set (ce_evidence_digests c). \<exists>(eid, e)\<in>set (er_records reg). digest env (json_evidence e) = d \<and>
         ev_accepted e \<and> \<not> ev_revoked e \<and> now < ev_valid_until e \<and> ev_source_digest e = subject))"
proof -
  have claims: "claims_match env p [] cs = Inr ()"
    using assms(1) by (auto simp: validate_current_ok validate_claims_def try_r_eq_Inr split: if_splits)
  have cur: "claim_current env p reg now c = Inr ()" "rp_generated_at p \<le> now"
    using assms by (simp_all add: validate_current_ok)
  then obtain subject where s: "bt_get (rp_claim_subject_digests p) (ce_claim_id c) = Some subject"
    by (auto simp: claim_current_ok)
  have "\<exists>(eid, e)\<in>set (er_records reg). digest env (json_evidence e) = d \<and>
         ev_accepted e \<and> \<not> ev_revoked e \<and> now < ev_valid_until e \<and> ev_source_digest e = subject"
    if "d \<in> set (ce_evidence_digests c)" for d
    using packet_evidence [OF assms that] s by auto
  moreover have "c' = c \<or> collision env (json_envelope c') (json_envelope c)"
    if "bt_get (rp_claim_digests p) (ce_claim_id c) = Some (digest env (json_envelope c'))" for c'
    using claims_match_ok [OF claims] assms(2) that canon_envelope.digest_binds [of env c' c] by auto
  ultimately show ?thesis
    using claims_match_ok [OF claims] assms(2) cur s by (auto simp: claim_current_ok envelope_is_valid_at_def)
qed

lemma revoked_packet_stale:
  assumes "from_envelopes env packet_id cs bs (registry_run registry_default pre) t = Inr p"
    and "b \<in> set bs" and "eid \<in> set (cb_evidence_ids b)"
    and "registry_revoke (registry_run registry_default (pre @ mid)) eid = (Inr (), r1)"
  shows "\<not> is_ok (validate_current env p cs (registry_run r1 post) now) \<or>
    (\<exists>e eid' e'. bt_get (er_records (registry_run registry_default pre)) eid = Some e \<and>
       (eid', e') \<in> set (er_records (registry_run r1 post)) \<and> collision env (json_evidence e') (json_evidence e))"
proof (cases "is_ok (validate_current env p cs (registry_run r1 post) now)")
  case True
  let ?r0 = "registry_run registry_default pre" and ?r2 = "registry_run r1 post"
  obtain by_id ix where f: "index_envelopes [] cs = Inr by_id"
    "bind_claims env ?r0 t by_id \<lparr>ri_claim_digests = [], ri_evidence = [], ri_subjects = [], ri_digests = []\<rparr> bs = Inr ix"
    using from_envelopes_ok [OF assms(1)] by metis
  obtain c ds where c: "bt_get by_id (cb_claim_id b) = Some c" "ds = ce_evidence_digests c"
    "bound_digests env ?r0 t (cb_subject_digest b) (ce_valid_until c) [] (cb_evidence_ids b) = Inr ds"
    using bind_claims_bound [OF f(2) assms(2)] by blast
  obtain d where d: "d \<in> set (ce_evidence_digests c)"
    "accepted_digest_for env ?r0 eid t (cb_subject_digest b) (ce_valid_until c) = Inr d"
    using bound_digests_set [OF c(3)] assms(3) c(2) by blast
  obtain e where e: "bt_get (er_records ?r0) eid = Some e" "d = digest env (json_evidence e)"
    using d(2) by (auto simp: accepted_digest_for_def try_r_eq_Inr split: if_splits)
  have inv0: "registry_inv ?r0" and invm: "registry_inv (registry_run registry_default (pre @ mid))"
    by (rule registry_machine.run_inv [OF registry_default_inv])+
  have e_id: "ev_id e = eid" using registry_inv_get [OF inv0 e(1)] by blast
  obtain e1 where r1: "bt_get (er_records r1) eid = Some e1" "ev_revoked e1" "registry_inv r1"
    using invm by (cases rule: registry_revoke_cases [where eid = eid]) (use assms(4) in auto)
  have inv2: "registry_inv ?r2" by (rule registry_machine.run_inv [OF r1(3)])
  obtain e2 where e2: "bt_get (er_records ?r2) eid = Some e2" "ev_revoked e2"
    using registry_machine.run_grows [OF r1(3), of post] r1(1,2)
    unfolding registry_grows_def evidence_moves_def by blast
  have "c \<in> set cs" using index_envelopes_get [OF f(1) c(1)] by simp
  then obtain eid' e' where e': "(eid', e') \<in> set (er_records ?r2)" "digest env (json_evidence e') = d" "\<not> ev_revoked e'"
    using packet_evidence [of env p cs ?r2 now c d] True d(1) unfolding is_ok_unit by blast
  have "bt_get (er_records ?r2) eid' = Some e'"
    using e'(1) inv2 bt_get_mem [of "er_records ?r2"] by (simp add: registry_inv_def)
  then have "e' \<noteq> e" using registry_inv_get [OF inv2, of eid' e'] e_id e2 e'(3) by auto
  then have "collision env (json_evidence e') (json_evidence e)"
    using canon_evidence.digest_binds [of env e' e] e'(2) e(2) by simp
  then show ?thesis using e(1) e'(1) by blast
qed simp

text \<open>
  Revocation reaches released packets: when a packet was assembled with a piece of evidence and that evidence is
  revoked at any later point, \<open>validate_current\<close> refuses the packet from then on, whatever happens to the registry and at
  whatever time, unless the registry then holds another record that collides under SHA-256 with the one the packet was made from.
\<close>

theorem revocation_stales_packet:
  assumes "from_envelopes env packet_id cs bs (registry_run registry_default pre) t = Inr p"
    and "b \<in> set bs" and "eid \<in> set (cb_evidence_ids b)"
    and "registry_revoke (registry_run registry_default (pre @ mid)) eid = (Inr (), r1)"
  shows "\<not> is_ok (validate_current env p cs (registry_run r1 post) now) \<or>
    (\<exists>e eid' e'. bt_get (er_records (registry_run registry_default pre)) eid = Some e \<and>
       (eid', e') \<in> set (er_records (registry_run r1 post)) \<and> collision env (json_evidence e') (json_evidence e))"
  by (rule revoked_packet_stale [OF assms])

text \<open>One demonstration claim, backed by one accepted piece of evidence, released at time 10.\<close>

definition demo_binding :: claim_evidence_binding where
  "demo_binding = \<lparr>cb_claim_id = ''a'', cb_subject_digest = zero_digest, cb_evidence_ids = [''e1'']\<rparr>"

abbreviation demo_backing :: "registry_op list" where
  "demo_backing \<equiv> [RO_Insert demo_evidence, RO_Accept ''e1'' ''re'']"

lemma demo_backing_run:
  "registry_run registry_default demo_backing =
     \<lparr>er_records = [(''e1'', demo_evidence\<lparr>ev_reviewer_id := ''re'', ev_accepted := True\<rparr>)]\<rparr>"
  unfolding run_ops.simps demo_evidence_insert
  by (simp add: registry_accept_def Let_def bt_modify_def demo_evidence_def ascii_control_def)

lemma demo_release:
  "\<exists>p. from_envelopes demo_env ''packet'' [demo_envelope ''a''] [demo_binding]
     (registry_run registry_default demo_backing) 10 = Inr p"
proof -
  have v: "envelope_validate (demo_envelope ''a'') = Inr ()"
    by (rule demo_envelope_valid) (simp add: claim_text_def ascii_control_def)
  have d: "accepted_digest_for demo_env (registry_run registry_default demo_backing) ''e1'' 10 zero_digest 500 = Inr zero_digest"
    unfolding demo_backing_run
    by (simp add: accepted_digest_for_def demo_evidence_def evidence_validate_def evidence_valid_def valid_role_def
        ascii_control_def)
  have h: "has_valid_digest_for_subject demo_env (registry_run registry_default demo_backing) zero_digest 10 zero_digest"
    unfolding demo_backing_run
    by (simp add: has_valid_digest_for_subject_def demo_evidence_def evidence_validate_def evidence_valid_def valid_role_def
        ascii_control_def bt_values_def)
  have s: "ce_state_slice (demo_envelope ''a'') = STATE_SLICE" "ce_claim_ceiling (demo_envelope ''a'') = ''local''"
    "ce_claim_id (demo_envelope ''a'') = ''a''" "ce_valid_until (demo_envelope ''a'') = 500"
    "ce_evidence_digests (demo_envelope ''a'') = [zero_digest]"
    by (simp_all add: demo_envelope_def)
  show ?thesis
    using v d h
    by (simp add: from_envelopes_def envelope_is_valid_at_def s bind_claim_def demo_binding_def claim_text_def
        ascii_control_def bs_union_def bs_from_list_def bt_keys_def bt_values_def packet_validate_def
        validate_current_def validate_claims_def claim_current_def bs_contains_def bt_contains_def Let_def)
qed

theorem current_packet_is_backed_witness:
  "\<exists>p. from_envelopes demo_env ''packet'' [demo_envelope ''a''] [demo_binding]
       (registry_run registry_default demo_backing) 10 = Inr p \<and> rp_claim_ceiling p = ''local''"
proof -
  obtain p where p: "from_envelopes demo_env ''packet'' [demo_envelope ''a''] [demo_binding]
       (registry_run registry_default demo_backing) 10 = Inr p" using demo_release by blast
  have "validate_current demo_env p [demo_envelope ''a''] (registry_run registry_default demo_backing) 10 = Inr ()"
    using from_envelopes_ok [OF p] by metis
  from current_packet_is_backed [OF this, of "demo_envelope ''a''"] show ?thesis using p by (auto simp: demo_envelope_def)
qed

theorem revocation_stales_packet_witness:
  "\<exists>p r1. from_envelopes demo_env ''packet'' [demo_envelope ''a''] [demo_binding]
       (registry_run registry_default demo_backing) 10 = Inr p \<and>
     registry_revoke (registry_run registry_default demo_backing) ''e1'' = (Inr (), r1) \<and>
     (\<not> is_ok (validate_current demo_env p [demo_envelope ''a''] r1 20) \<or>
       (\<exists>e eid' e'. bt_get (er_records (registry_run registry_default demo_backing)) ''e1'' = Some e \<and>
         (eid', e') \<in> set (er_records r1) \<and> collision demo_env (json_evidence e') (json_evidence e)))"
proof -
  obtain p where p: "from_envelopes demo_env ''packet'' [demo_envelope ''a''] [demo_binding]
       (registry_run registry_default demo_backing) 10 = Inr p" using demo_release by blast
  obtain r1 where r1: "registry_revoke (registry_run registry_default demo_backing) ''e1'' = (Inr (), r1)"
    unfolding demo_backing_run
    by (simp add: registry_revoke_def Let_def bt_modify_def registry_validate_def demo_evidence_def
        evidence_validate_def valid_role_def ascii_control_def)
  have "registry_revoke (registry_run registry_default (demo_backing @ [])) ''e1'' = (Inr (), r1)" using r1 by simp
  from revocation_stales_packet [OF p _ _ this, of demo_binding "[]" 20] show ?thesis
    using p r1 by (auto simp: demo_binding_def)
qed

end
