(* ===== verification/Governance.thy ===== *)
theory Governance
  imports Claims Machine
begin

text \<open>
  The release registry of src/governance.rs: candidate updates that move from shadow to canary to a local release, one
  evidence packet per step, and are frozen when their evidence goes stale.  \<open>advance_with_packet\<close> and
  \<open>revalidate_evidence\<close> work on a clone and replace the registry at the end; \<open>propose\<close> and \<open>freeze\<close> write first and
  validate afterwards, and the lemmas show that this validation never fails.
\<close>

record candidate_update =
  cu_candidate_id :: string
  cu_base_digest :: string
  cu_candidate_digest :: string
  cu_rollback_digest :: string
  cu_evidence_digest :: string

definition json_candidate :: "candidate_update \<Rightarrow> json" where
  "json_candidate c = JObj [(''candidate_id'', JStr (cu_candidate_id c)), (''base_digest'', JStr (cu_base_digest c)),
     (''candidate_digest'', JStr (cu_candidate_digest c)), (''rollback_digest'', JStr (cu_rollback_digest c)),
     (''evidence_digest'', JStr (cu_evidence_digest c))]"

definition candidate_validate :: "candidate_update \<Rightarrow> unit result" where
  "candidate_validate c =
     (if cu_candidate_id c = [] \<or> \<not> valid_digest (cu_base_digest c) \<or> \<not> valid_digest (cu_candidate_digest c) \<or>
         \<not> valid_digest (cu_rollback_digest c) \<or> \<not> valid_digest (cu_evidence_digest c) \<or>
         cu_base_digest c = cu_candidate_digest c \<or> cu_base_digest c \<noteq> cu_rollback_digest c
      then Inl (Err_Invalid ''invalid immutable-base candidate'') else Inr ())"

definition candidate_digest_of :: "crypto \<Rightarrow> candidate_update \<Rightarrow> string result" where
  "candidate_digest_of env c = try_r (candidate_validate c) (\<lambda>_.
     Inr (digest env (JArr [JStr (cu_candidate_id c), JStr (cu_base_digest c), JStr (cu_candidate_digest c),
       JStr (cu_rollback_digest c), JStr (cu_evidence_digest c)])))"

datatype release_state = RS_Shadow | RS_Canary | RS_ReleasedLocal | RS_Frozen

record release_evidence_packet =
  re_packet :: release_packet
  re_envelopes :: "claim_envelope list"

record release_registry =
  rr_records :: "(string, candidate_update \<times> release_state) btree"
  rr_used_evidence :: "(string, string bset) btree"
  rr_packets :: "(string, release_evidence_packet list) btree"

definition release_default :: release_registry where
  "release_default = \<lparr>rr_records = [], rr_used_evidence = [], rr_packets = []\<rparr>"

section \<open>Validation\<close>

text \<open>The packet count that a state asks for; \<open>None\<close> stands for the early return on a frozen record.\<close>

fun expected_packet_count :: "release_state \<Rightarrow> nat \<Rightarrow> nat option" where
  "expected_packet_count RS_Shadow n = Some 0"
| "expected_packet_count RS_Canary n = Some 1"
| "expected_packet_count RS_ReleasedLocal n = Some 2"
| "expected_packet_count RS_Frozen n = (if n \<le> 2 then Some n else None)"

fun packet_digests :: "crypto \<Rightarrow> string bset \<Rightarrow> release_evidence_packet list \<Rightarrow> string bset result" where
  "packet_digests env acc [] = Inr acc"
| "packet_digests env acc (p # ps) =
     try_r (validate_claims env (re_packet p) (re_envelopes p)) (\<lambda>_.
     try_r (packet_digest env (re_packet p)) (\<lambda>d.
     if bs_contains acc d then Inl (Err_Invalid ''release packet was reused'')
     else packet_digests env (bs_insert d acc) ps))"

definition first_packet_check :: "crypto \<Rightarrow> candidate_update \<Rightarrow> release_evidence_packet list \<Rightarrow> unit result" where
  "first_packet_check env c ps = (case ps of [] \<Rightarrow> Inr ()
   | p # _ \<Rightarrow> try_r (packet_digest env (re_packet p)) (\<lambda>d.
       if d \<noteq> cu_evidence_digest c
       then Inl (Err_Invalid ''initial release packet does not match candidate evidence'') else Inr ()))"

fun used_count_check :: "release_state \<Rightarrow> string bset \<Rightarrow> unit result" where
  "used_count_check RS_Shadow used =
     (if used \<noteq> [] then Inl (Err_Invalid ''shadow release has phase evidence'') else Inr ())"
| "used_count_check RS_Canary used =
     (if length used \<noteq> 1 then Inl (Err_Invalid ''canary release evidence count is invalid'') else Inr ())"
| "used_count_check RS_ReleasedLocal used =
     (if length used \<noteq> 2 then Inl (Err_Invalid ''local release requires distinct phase evidence'') else Inr ())"
| "used_count_check RS_Frozen used =
     (if 2 < length used then Inl (Err_Invalid ''frozen release evidence count is invalid'') else Inr ())"

definition release_record_validate ::
  "crypto \<Rightarrow> release_registry \<Rightarrow> string \<times> candidate_update \<times> release_state \<Rightarrow> unit result" where
  "release_record_validate env r e = (case e of (rid, c, st) \<Rightarrow>
     if rid \<noteq> cu_candidate_id c then Inl (Err_Invalid ''release candidate key mismatch'')
     else try_r (candidate_validate c) (\<lambda>_.
       try_r (ok_or (Err_Invalid ''release evidence record is missing'') (bt_get (rr_used_evidence r) rid)) (\<lambda>used.
       try_r (ok_or (Err_Invalid ''release packet records are missing'') (bt_get (rr_packets r) rid)) (\<lambda>ps.
       try_r (ok_or (Err_Invalid ''frozen release has too many evidence packets'')
                (expected_packet_count st (length ps))) (\<lambda>n.
       if length ps \<noteq> n then Inl (Err_Invalid ''release state and packet count are inconsistent'')
       else try_r (packet_digests env [] ps) (\<lambda>ds.
         if ds \<noteq> used then Inl (Err_Invalid ''release packet digest index is inconsistent'')
         else try_r (first_packet_check env c ps) (\<lambda>_.
           if \<not> bs_contains used (cu_evidence_digest c) \<and> st \<noteq> RS_Shadow \<and> st \<noteq> RS_Frozen
           then Inl (Err_Invalid ''release state lacks initial candidate evidence'')
           else try_r (used_count_check st used) (\<lambda>_.
             if list_ex (\<lambda>d. \<not> valid_digest d) used
             then Inl (Err_Invalid ''release evidence digest is malformed'') else Inr ()))))))))"

definition release_validate :: "crypto \<Rightarrow> release_registry \<Rightarrow> unit result" where
  "release_validate env r =
     (if length (rr_records r) \<noteq> length (rr_used_evidence r) \<or> length (rr_records r) \<noteq> length (rr_packets r)
      then Inl (Err_Invalid ''release evidence indexes are inconsistent'')
      else check_all (release_record_validate env r) (rr_records r))"

section \<open>Operations\<close>

definition release_propose :: "crypto \<Rightarrow> release_registry \<Rightarrow> candidate_update \<Rightarrow> unit result \<times> release_registry" where
  "release_propose env r c =
     (case candidate_validate c of
        Inl e \<Rightarrow> (Inl e, r)
      | Inr _ \<Rightarrow>
        if bt_contains (rr_records r) (cu_candidate_id c)
        then (Inl (Err_Rejected ''candidate identity already exists''), r)
        else let rid = cu_candidate_id c;
                 r1 = r\<lparr>rr_records := bt_insert rid (c, RS_Shadow) (rr_records r)\<rparr>
             in if \<not> bt_contains (rr_records r1) rid then (Inl (Err_Invalid ''candidate was not recorded''), r1)
                else let r2 = r1\<lparr>rr_used_evidence := bt_insert rid [] (rr_used_evidence r1),
                                  rr_packets := bt_insert rid [] (rr_packets r1)\<rparr>
                     in (release_validate env r2, r2))"

definition release_state_of :: "release_registry \<Rightarrow> string \<Rightarrow> release_state option" where
  "release_state_of r rid = map_option snd (bt_get (rr_records r) rid)"

fun next_release_state :: "release_state \<Rightarrow> release_state option" where
  "next_release_state RS_Shadow = Some RS_Canary"
| "next_release_state RS_Canary = Some RS_ReleasedLocal"
| "next_release_state _ = None"

definition set_release_state :: "string \<Rightarrow> release_state \<Rightarrow> release_registry \<Rightarrow> release_registry" where
  "set_release_state rid st r = r\<lparr>rr_records := bt_modify rid (\<lambda>(c, _). (c, st)) (rr_records r)\<rparr>"

definition advance_digest ::
  "crypto \<Rightarrow> release_registry \<Rightarrow> string \<Rightarrow> string \<Rightarrow> unit result \<times> release_registry" where
  "advance_digest env r rid ed =
     (case bt_get (rr_records r) rid of
        None \<Rightarrow> (Inl (Err_Invalid ''unknown candidate''), r)
      | Some (c, st) \<Rightarrow>
        if cu_evidence_digest c \<noteq> ed \<and> (st \<noteq> RS_Canary \<or> \<not> valid_digest ed \<or> ed = cu_evidence_digest c)
        then (Inl (Err_Rejected ''phase evidence mismatch''), r)
        else case next_release_state st of
          None \<Rightarrow> (Inl (Err_Rejected ''terminal release state''), r)
        | Some nxt \<Rightarrow>
          case bt_get (rr_used_evidence r) rid of
            None \<Rightarrow> (Inl (Err_Invalid ''candidate evidence state missing''), r)
          | Some used \<Rightarrow>
            if bs_contains used ed then (Inl (Err_Rejected ''phase evidence already used''), r)
            else let r1 = set_release_state rid nxt
                       (r\<lparr>rr_used_evidence := bt_modify rid (bs_insert ed) (rr_used_evidence r)\<rparr>)
                 in (release_validate env r1, r1))"

definition advance_with_packet ::
  "crypto \<Rightarrow> release_registry \<Rightarrow> string \<Rightarrow> release_packet \<Rightarrow> claim_envelope list \<Rightarrow> evidence_registry \<Rightarrow> u64 \<Rightarrow>
     unit result \<times> release_registry" where
  "advance_with_packet env r rid p cs reg now =
     (case try_r (validate_current env p cs reg now) (\<lambda>_. packet_digest env p) of
        Inl e \<Rightarrow> (Inl e, r)
      | Inr pd \<Rightarrow>
        case bt_get (rr_packets r) rid of
          None \<Rightarrow> (Inl (Err_Invalid ''candidate packet state missing''), r)
        | Some _ \<Rightarrow>
          let staged = r\<lparr>rr_packets := bt_modify rid (\<lambda>ps. ps @ [\<lparr>re_packet = p, re_envelopes = cs\<rparr>]) (rr_packets r)\<rparr>
          in case advance_digest env staged rid pd of
               (Inl e, _) \<Rightarrow> (Inl e, r)
             | (Inr _, staged') \<Rightarrow> (Inr (), staged'))"

definition release_freeze :: "crypto \<Rightarrow> release_registry \<Rightarrow> string \<Rightarrow> unit result \<times> release_registry" where
  "release_freeze env r rid =
     (case bt_get (rr_records r) rid of
        None \<Rightarrow> (Inl (Err_Invalid ''unknown candidate''), r)
      | Some (c, st) \<Rightarrow>
        if st = RS_Frozen then (Inl (Err_Rejected ''candidate is already frozen''), r)
        else let r1 = set_release_state rid RS_Frozen r in (release_validate env r1, r1))"

definition packet_stale :: "crypto \<Rightarrow> evidence_registry \<Rightarrow> u64 \<Rightarrow> release_evidence_packet \<Rightarrow> bool" where
  "packet_stale env reg now p = (\<not> is_ok (validate_current env (re_packet p) (re_envelopes p) reg now))"

text \<open>The loop of \<open>revalidate_evidence\<close>: the new records and the ids it froze, in key order.\<close>

fun freeze_stale ::
  "crypto \<Rightarrow> evidence_registry \<Rightarrow> u64 \<Rightarrow> (string, release_evidence_packet list) btree \<Rightarrow>
     (string, candidate_update \<times> release_state) btree \<Rightarrow>
     ((string, candidate_update \<times> release_state) btree \<times> string list) result" where
  "freeze_stale env reg now packets [] = Inr ([], [])"
| "freeze_stale env reg now packets ((rid, c, st) # rs) =
     (if st = RS_Shadow \<or> st = RS_Frozen
      then try_r (freeze_stale env reg now packets rs) (\<lambda>(rs', frozen). Inr ((rid, c, st) # rs', frozen))
      else try_r (ok_or (Err_Invalid ''release packet records are missing'') (bt_get packets rid)) (\<lambda>ps.
        if list_ex (packet_stale env reg now) ps
        then try_r (freeze_stale env reg now packets rs) (\<lambda>(rs', frozen). Inr ((rid, c, RS_Frozen) # rs', rid # frozen))
        else try_r (freeze_stale env reg now packets rs) (\<lambda>(rs', frozen). Inr ((rid, c, st) # rs', frozen))))"

definition revalidate_evidence ::
  "crypto \<Rightarrow> release_registry \<Rightarrow> evidence_registry \<Rightarrow> u64 \<Rightarrow> string list result \<times> release_registry" where
  "revalidate_evidence env r reg now =
     (case try_r (release_validate env r) (\<lambda>_.
        try_r (freeze_stale env reg now (rr_packets r) (rr_records r)) (\<lambda>(rs, frozen).
        let staged = r\<lparr>rr_records := rs\<rparr>
        in try_r (release_validate env staged) (\<lambda>_. Inr (staged, frozen)))) of
        Inl e \<Rightarrow> (Inl e, r)
      | Inr (staged, frozen) \<Rightarrow> (Inr frozen, staged))"

section \<open>The registry invariant\<close>

definition packet_id_digest :: "crypto \<Rightarrow> release_evidence_packet \<Rightarrow> string" where
  "packet_id_digest env p = digest env (json_packet (re_packet p))"

abbreviation packet_claims_ok :: "crypto \<Rightarrow> release_evidence_packet \<Rightarrow> bool" where
  "packet_claims_ok env p \<equiv> validate_claims env (re_packet p) (re_envelopes p) = Inr ()"

lemma packet_digest_ok: "packet_claims_ok env p \<Longrightarrow> packet_digest env (re_packet p) = Inr (packet_id_digest env p)"
  by (auto simp: validate_claims_def packet_digest_def packet_id_digest_def try_r_eq_Inr)

lemma packet_digests_Inr:
  "packet_digests env acc ps = Inr ds \<longleftrightarrow> (\<forall>p\<in>set ps. packet_claims_ok env p) \<and>
     distinct (map (packet_id_digest env) ps) \<and> set (map (packet_id_digest env) ps) \<inter> set acc = {} \<and>
     ds = fold bs_insert (map (packet_id_digest env) ps) acc"
proof (induction ps arbitrary: acc)
  case (Cons p ps)
  show ?case
  proof (cases "packet_claims_ok env p")
    case True
    then show ?thesis using Cons.IH packet_digest_ok [OF True] by (auto simp: bs_contains_def)
  next
    case False
    then show ?thesis by (auto simp: try_r_eq_Inr)
  qed
qed auto

text \<open>What a record that validates looks like.\<close>

definition release_record_ok ::
  "crypto \<Rightarrow> candidate_update \<Rightarrow> release_state \<Rightarrow> string bset \<Rightarrow> release_evidence_packet list \<Rightarrow> bool" where
  "release_record_ok env c st used ps \<longleftrightarrow> candidate_validate c = Inr () \<and>
     expected_packet_count st (length ps) = Some (length ps) \<and> (\<forall>p\<in>set ps. packet_claims_ok env p) \<and>
     distinct (map (packet_id_digest env) ps) \<and> used = bs_from_list (map (packet_id_digest env) ps) \<and>
     (ps \<noteq> [] \<longrightarrow> packet_id_digest env (hd ps) = cu_evidence_digest c)"

lemma first_packet_check_ok:
  "\<forall>p\<in>set ps. packet_claims_ok env p \<Longrightarrow>
     first_packet_check env c ps = Inr () \<longleftrightarrow> (ps \<noteq> [] \<longrightarrow> packet_id_digest env (hd ps) = cu_evidence_digest c)"
  by (cases ps) (auto simp: first_packet_check_def packet_digest_ok)

lemma used_count_ok:
  "expected_packet_count st n = Some n \<Longrightarrow> length used = n \<Longrightarrow> used_count_check st used = Inr ()"
  by (cases st) (auto split: if_splits)

lemma release_record_validate_ok:
  assumes len: "sha256_len env"
  shows "release_record_validate env r (rid, c, st) = Inr () \<longleftrightarrow> rid = cu_candidate_id c \<and>
    (\<exists>used ps. bt_get (rr_used_evidence r) rid = Some used \<and> bt_get (rr_packets r) rid = Some ps \<and>
       release_record_ok env c st used ps)" (is "?L \<longleftrightarrow> ?R")
proof
  assume ?L
  then show ?R
    by (auto simp: release_record_validate_def release_record_ok_def try_r_eq_Inr packet_digests_Inr first_packet_check_ok
        bs_from_list_def split: if_splits)
next
  assume ?R
  then obtain used ps where g: "bt_get (rr_used_evidence r) rid = Some used" "bt_get (rr_packets r) rid = Some ps"
    and ok: "release_record_ok env c st used ps" and rid: "rid = cu_candidate_id c" by blast
  let ?ds = "map (packet_id_digest env) ps"
  have ps: "\<forall>p\<in>set ps. packet_claims_ok env p" "distinct ?ds" "used = bs_from_list ?ds"
    "expected_packet_count st (length ps) = Some (length ps)" "ps \<noteq> [] \<Longrightarrow> packet_id_digest env (hd ps) = cu_evidence_digest c"
    using ok by (auto simp: release_record_ok_def)
  have "length used = length ps" using length_bs_from_list [OF ps(2)] ps(3) by simp
  then have cnt: "used_count_check st used = Inr ()" using ps(4) by (rule used_count_ok [rotated])
  have dig: "packet_digests env [] ps = Inr used" using ps by (simp add: packet_digests_Inr bs_from_list_def)
  have first: "st = RS_Shadow \<or> st = RS_Frozen \<or> bs_contains used (cu_evidence_digest c)"
  proof (cases ps)
    case Nil
    then show ?thesis using ps(4) by (cases st) auto
  next
    case (Cons p qs)
    then show ?thesis using ps(3,5) by (auto simp: bs_contains_def)
  qed
  have digs: "\<not> list_ex (\<lambda>d. \<not> valid_digest d) used"
    using len ps(3) by (auto simp: list_ex_iff packet_id_digest_def)
  have fp: "first_packet_check env c ps = Inr ()" using first_packet_check_ok [OF ps(1)] ps(5) by blast
  have cv: "candidate_validate c = Inr ()" using ok by (simp add: release_record_ok_def)
  have b: "\<not> (\<not> bs_contains used (cu_evidence_digest c) \<and> st \<noteq> RS_Shadow \<and> st \<noteq> RS_Frozen)" using first by blast
  show ?L unfolding release_record_validate_def prod.case using rid g cv ps(4) dig fp b cnt digs by simp
qed

definition release_entries_ok :: "crypto \<Rightarrow> release_registry \<Rightarrow> bool" where
  "release_entries_ok env r \<longleftrightarrow> (\<forall>rid c st. bt_get (rr_records r) rid = Some (c, st) \<longrightarrow> rid = cu_candidate_id c \<and>
     (\<exists>used ps. bt_get (rr_used_evidence r) rid = Some used \<and> bt_get (rr_packets r) rid = Some ps \<and>
       release_record_ok env c st used ps))"

definition release_shape :: "crypto \<Rightarrow> release_registry \<Rightarrow> bool" where
  "release_shape env r \<longleftrightarrow> sha256_len env \<and> bt_wf (rr_records r) \<and> bt_wf (rr_used_evidence r) \<and> bt_wf (rr_packets r) \<and>
     fst ` set (rr_used_evidence r) = fst ` set (rr_records r) \<and> fst ` set (rr_packets r) = fst ` set (rr_records r)"

definition release_inv :: "crypto \<Rightarrow> release_registry \<Rightarrow> bool" where
  "release_inv env r \<longleftrightarrow> release_shape env r \<and> release_entries_ok env r"

lemma bt_length_keys: "bt_wf m \<Longrightarrow> bt_wf n \<Longrightarrow> fst ` set m = fst ` set n \<Longrightarrow> length m = length n"
  by (metis bt_wf_distinct distinct_card length_map list.set_map)

lemma release_validate_iff:
  assumes "release_shape env r"
  shows "release_validate env r = Inr () \<longleftrightarrow> release_entries_ok env r"
proof -
  have s: "sha256_len env" "bt_wf (rr_records r)" "length (rr_records r) = length (rr_used_evidence r)"
    "length (rr_records r) = length (rr_packets r)"
    using assms by (simp_all add: release_shape_def bt_length_keys)
  have "(\<forall>e\<in>set (rr_records r). release_record_validate env r e = Inr ()) \<longleftrightarrow> release_entries_ok env r"
    unfolding release_entries_ok_def bt_get_mem [OF s(2)] using release_record_validate_ok [OF s(1), of r] by auto
  then show ?thesis using s by (simp add: release_validate_def check_all_ok)
qed

lemma release_inv_validate: "release_inv env r \<Longrightarrow> release_validate env r = Inr ()"
  using release_validate_iff by (simp add: release_inv_def)

lemma release_inv_get:
  assumes "release_inv env r" and "bt_get (rr_records r) rid = Some (c, st)"
  obtains used ps where "rid = cu_candidate_id c" "bt_get (rr_used_evidence r) rid = Some used"
    "bt_get (rr_packets r) rid = Some ps" "release_record_ok env c st used ps"
  using assms unfolding release_inv_def release_entries_ok_def by blast

lemma release_default_inv: "sha256_len env \<Longrightarrow> release_inv env release_default"
  by (simp add: release_inv_def release_shape_def release_entries_ok_def release_default_def)

text \<open>A change of one state that fits the packets it has keeps the invariant.\<close>

lemma set_release_state_inv:
  assumes inv: "release_inv env r" and g: "bt_get (rr_records r) rid = Some (c, st)"
    and n: "\<And>ps. bt_get (rr_packets r) rid = Some ps \<Longrightarrow> expected_packet_count st' (length ps) = Some (length ps)"
  shows "release_inv env (set_release_state rid st' r)"
proof -
  let ?r = "set_release_state rid st' r"
  have shape: "release_shape env ?r"
    using inv by (simp add: release_inv_def release_shape_def set_release_state_def bt_wf_modify)
  have "release_entries_ok env ?r"
    unfolding release_entries_ok_def
  proof (intro allI impI)
    fix rid' c' s'
    assume g': "bt_get (rr_records ?r) rid' = Some (c', s')"
    then obtain s where s: "bt_get (rr_records r) rid' = Some (c', s)" "s' = (if rid' = rid then st' else s)"
      by (auto simp: set_release_state_def split: if_splits)
    obtain used ps where e: "rid' = cu_candidate_id c'" "bt_get (rr_used_evidence r) rid' = Some used"
      "bt_get (rr_packets r) rid' = Some ps" "release_record_ok env c' s used ps"
      by (rule release_inv_get [OF inv s(1)])
    then have "release_record_ok env c' s' used ps" using n [of ps] s(2) by (auto simp: release_record_ok_def)
    then show "rid' = cu_candidate_id c' \<and> (\<exists>used ps. bt_get (rr_used_evidence ?r) rid' = Some used \<and>
        bt_get (rr_packets ?r) rid' = Some ps \<and> release_record_ok env c' s' used ps)"
      using e by (simp add: set_release_state_def)
  qed
  then show ?thesis using shape by (simp add: release_inv_def)
qed

section \<open>What each operation does\<close>

lemma release_propose_cases:
  assumes inv: "release_inv env r"
  obtains (fails) e where "release_propose env r c = (Inl e, r)"
  | (succeeds) r' where "release_propose env r c = (Inr (), r')" "release_inv env r'"
      "bt_get (rr_records r) (cu_candidate_id c) = None"
      "rr_records r' = bt_insert (cu_candidate_id c) (c, RS_Shadow) (rr_records r)"
      "rr_packets r' = bt_insert (cu_candidate_id c) [] (rr_packets r)"
proof (cases "candidate_validate c = Inr () \<and> bt_get (rr_records r) (cu_candidate_id c) = None")
  case True
  let ?rid = "cu_candidate_id c"
  let ?r = "r\<lparr>rr_records := bt_insert ?rid (c, RS_Shadow) (rr_records r),
      rr_used_evidence := bt_insert ?rid [] (rr_used_evidence r), rr_packets := bt_insert ?rid [] (rr_packets r)\<rparr>"
  have "release_shape env ?r" using inv by (simp add: release_inv_def release_shape_def bt_wf_insert)
  moreover have "release_entries_ok env ?r"
    using True inv by (auto simp: release_inv_def release_entries_ok_def release_record_ok_def bs_from_list_def)
  ultimately have ok: "release_inv env ?r" by (simp add: release_inv_def)
  have "release_propose env r c = (Inr (), ?r)"
    using True release_inv_validate [OF ok] by (simp add: release_propose_def bt_contains_def Let_def)
  then show thesis by (rule succeeds [OF _ ok]) (use True in simp_all)
next
  case False
  then have "\<exists>e. release_propose env r c = (Inl e, r)"
    by (cases "candidate_validate c") (auto simp: release_propose_def bt_contains_def)
  then show thesis using fails by blast
qed

lemma release_freeze_cases:
  assumes inv: "release_inv env r"
  obtains (fails) e where "release_freeze env r rid = (Inl e, r)"
  | (succeeds) c st where "release_freeze env r rid = (Inr (), set_release_state rid RS_Frozen r)"
      "release_inv env (set_release_state rid RS_Frozen r)" "bt_get (rr_records r) rid = Some (c, st)" "st \<noteq> RS_Frozen"
proof (cases "\<exists>c st. bt_get (rr_records r) rid = Some (c, st) \<and> st \<noteq> RS_Frozen")
  case True
  then obtain c st where g: "bt_get (rr_records r) rid = Some (c, st)" "st \<noteq> RS_Frozen" by blast
  obtain used ps where "bt_get (rr_packets r) rid = Some ps" "release_record_ok env c st used ps"
    by (rule release_inv_get [OF inv g(1)])
  then have inv': "release_inv env (set_release_state rid RS_Frozen r)"
    by (intro set_release_state_inv [OF inv g(1)]) (cases st; auto simp: release_record_ok_def split: if_splits)
  show thesis
    by (rule succeeds [OF _ inv' g]) (use g release_inv_validate [OF inv'] in \<open>simp add: release_freeze_def\<close>)
next
  case False
  then have "\<exists>e. release_freeze env r rid = (Inl e, r)"
    by (auto simp: release_freeze_def split: option.splits)
  then show thesis using fails by blast
qed

lemma advance_cases:
  assumes inv: "release_inv env r"
  obtains (fails) e where "advance_with_packet env r rid p cs reg now = (Inl e, r)"
  | (succeeds) c st nxt ps r' where "advance_with_packet env r rid p cs reg now = (Inr (), r')" "release_inv env r'"
      "validate_current env p cs reg now = Inr ()" "next_release_state st = Some nxt"
      "bt_get (rr_records r) rid = Some (c, st)" "bt_get (rr_packets r) rid = Some ps"
      "rr_records r' = bt_modify rid (\<lambda>(c, _). (c, nxt)) (rr_records r)"
      "rr_packets r' = bt_modify rid (\<lambda>ps. ps @ [\<lparr>re_packet = p, re_envelopes = cs\<rparr>]) (rr_packets r)"
proof (cases "fst (advance_with_packet env r rid p cs reg now)")
  case (Inl e)
  then have "advance_with_packet env r rid p cs reg now = (Inl e, r)"
    by (auto simp: advance_with_packet_def Let_def split: sum.splits option.splits prod.splits)
  then show thesis by (rule fails)
next
  case (Inr u)
  obtain r' where adv: "advance_with_packet env r rid p cs reg now = (Inr (), r')"
    using Inr by (metis old.unit.exhaust prod.collapse)
  let ?s = "r\<lparr>rr_packets := bt_modify rid (\<lambda>ps. ps @ [\<lparr>re_packet = p, re_envelopes = cs\<rparr>]) (rr_packets r)\<rparr>"
  obtain pd ps where a: "validate_current env p cs reg now = Inr ()" "bt_get (rr_packets r) rid = Some ps"
    "advance_digest env ?s rid pd = (Inr (), r')"
    using adv by (auto simp: advance_with_packet_def Let_def try_r_eq_Inr split: sum.splits option.splits prod.splits)
  obtain c st nxt where b: "bt_get (rr_records r) rid = Some (c, st)" "next_release_state st = Some nxt"
    "release_validate env r' = Inr ()"
    "r' = set_release_state rid nxt (?s\<lparr>rr_used_evidence := bt_modify rid (bs_insert pd) (rr_used_evidence r)\<rparr>)"
    using a(3) by (auto simp: advance_digest_def Let_def split: option.splits if_splits prod.splits)
  have "release_shape env r'"
    using inv by (simp add: b(4) release_inv_def release_shape_def set_release_state_def bt_wf_modify)
  then have "release_inv env r'" using b(3) release_validate_iff by (simp add: release_inv_def)
  then show thesis
    by (rule succeeds [OF adv _ a(1) b(2) b(1) a(2)]) (simp_all add: b(4) set_release_state_def)
qed

section \<open>Revalidation\<close>

definition goes_stale ::
  "crypto \<Rightarrow> evidence_registry \<Rightarrow> u64 \<Rightarrow> release_registry \<Rightarrow> string \<times> candidate_update \<times> release_state \<Rightarrow> bool" where
  "goes_stale env reg now r e = (case e of (rid, c, st) \<Rightarrow> st \<noteq> RS_Shadow \<and> st \<noteq> RS_Frozen \<and>
     (case bt_get (rr_packets r) rid of None \<Rightarrow> False | Some ps \<Rightarrow> list_ex (packet_stale env reg now) ps))"

definition refreshed :: "crypto \<Rightarrow> evidence_registry \<Rightarrow> u64 \<Rightarrow> release_registry \<Rightarrow> release_registry" where
  "refreshed env reg now r = r\<lparr>rr_records := map (\<lambda>(rid, c, st).
     (rid, c, if goes_stale env reg now r (rid, c, st) then RS_Frozen else st)) (rr_records r)\<rparr>"

lemma freeze_stale_eq:
  assumes "\<And>rid c st. (rid, c, st) \<in> set rs \<Longrightarrow> bt_contains (rr_packets r) rid"
  shows "freeze_stale env reg now (rr_packets r) rs =
    Inr (map (\<lambda>(rid, c, st). (rid, c, if goes_stale env reg now r (rid, c, st) then RS_Frozen else st)) rs,
      map fst (filter (goes_stale env reg now r) rs))"
  using assms
proof (induction rs)
  case (Cons e rs)
  obtain rid c st where e: "e = (rid, c, st)" by (cases e)
  have ih: "freeze_stale env reg now (rr_packets r) rs =
    Inr (map (\<lambda>(rid, c, st). (rid, c, if goes_stale env reg now r (rid, c, st) then RS_Frozen else st)) rs,
      map fst (filter (goes_stale env reg now r) rs))" by (rule Cons.IH) (use Cons.prems in auto)
  obtain ps where ps: "bt_get (rr_packets r) rid = Some ps" using Cons.prems [of rid c st] by (auto simp: e bt_contains_def)
  have "goes_stale env reg now r (rid, c, st) \<longleftrightarrow>
      st \<noteq> RS_Shadow \<and> st \<noteq> RS_Frozen \<and> list_ex (packet_stale env reg now) ps"
    by (simp add: goes_stale_def ps)
  then show ?case by (simp add: e ih ps)
qed simp

lemma refreshed_get:
  "bt_get (rr_records (refreshed env reg now r)) rid =
     map_option (\<lambda>(c, st). (c, if goes_stale env reg now r (rid, c, st) then RS_Frozen else st)) (bt_get (rr_records r) rid)"
proof -
  have "bt_get (map (\<lambda>(rid, c, st). (rid, c, if goes_stale env reg now r (rid, c, st) then RS_Frozen else st)) m) rid =
     map_option (\<lambda>(c, st). (c, if goes_stale env reg now r (rid, c, st) then RS_Frozen else st)) (bt_get m rid)" for m
    by (induction m) auto
  then show ?thesis by (simp add: refreshed_def)
qed

lemma refreshed_inv:
  assumes inv: "release_inv env r"
  shows "release_inv env (refreshed env reg now r)"
proof -
  let ?r = "refreshed env reg now r"
  have wf: "bt_wf (rr_records ?r)"
  proof -
    have "map fst (rr_records ?r) = map fst (rr_records r)" by (simp add: refreshed_def comp_def case_prod_beta')
    then show ?thesis using inv by (simp add: bt_wf_def release_inv_def release_shape_def)
  qed
  have "fst ` set (rr_records ?r) = fst ` set (rr_records r)"
    by (simp add: refreshed_def image_comp comp_def case_prod_beta')
  then have shape: "release_shape env ?r"
    using inv wf by (auto simp: release_inv_def release_shape_def refreshed_def)
  have "release_entries_ok env ?r"
    unfolding release_entries_ok_def
  proof (intro allI impI)
    fix rid c st'
    assume "bt_get (rr_records ?r) rid = Some (c, st')"
    then obtain st where st: "bt_get (rr_records r) rid = Some (c, st)" "st' = st \<or> st' = RS_Frozen"
      by (auto simp: refreshed_get split: if_splits)
    obtain used ps where e: "rid = cu_candidate_id c" "bt_get (rr_used_evidence r) rid = Some used"
      "bt_get (rr_packets r) rid = Some ps" "release_record_ok env c st used ps"
      by (rule release_inv_get [OF inv st(1)])
    then have "release_record_ok env c st' used ps"
      using st(2) by (cases st) (auto simp: release_record_ok_def split: if_splits)
    then show "rid = cu_candidate_id c \<and> (\<exists>used ps. bt_get (rr_used_evidence ?r) rid = Some used \<and>
        bt_get (rr_packets ?r) rid = Some ps \<and> release_record_ok env c st' used ps)"
      using e by (simp add: refreshed_def)
  qed
  then show ?thesis using shape by (simp add: release_inv_def)
qed

lemma revalidate_eq:
  assumes inv: "release_inv env r"
  shows "revalidate_evidence env r reg now =
    (Inr (map fst (filter (goes_stale env reg now r) (rr_records r))), refreshed env reg now r)"
proof -
  have "bt_contains (rr_packets r) rid" if "(rid, c, st) \<in> set (rr_records r)" for rid c st
    using that inv by (force simp: bt_contains_iff release_inv_def release_shape_def)
  then have "freeze_stale env reg now (rr_packets r) (rr_records r) = Inr (rr_records (refreshed env reg now r),
      map fst (filter (goes_stale env reg now r) (rr_records r)))"
    using freeze_stale_eq [of "rr_records r" r env reg now] by (simp add: refreshed_def)
  moreover have "r\<lparr>rr_records := rr_records (refreshed env reg now r)\<rparr> = refreshed env reg now r"
    by (simp add: refreshed_def)
  ultimately show ?thesis
    using release_inv_validate [OF inv] release_inv_validate [OF refreshed_inv [OF inv, of reg now]]
    by (simp add: revalidate_evidence_def)
qed

section \<open>The registry as a machine\<close>

datatype release_op =
    RL_Propose candidate_update
  | RL_Advance string release_packet "claim_envelope list" evidence_registry u64
  | RL_Freeze string
  | RL_Revalidate evidence_registry u64

fun release_step :: "crypto \<Rightarrow> release_registry \<Rightarrow> release_op \<Rightarrow> release_registry" where
  "release_step env r (RL_Propose c) = snd (release_propose env r c)"
| "release_step env r (RL_Advance rid p cs reg now) = snd (advance_with_packet env r rid p cs reg now)"
| "release_step env r (RL_Freeze rid) = snd (release_freeze env r rid)"
| "release_step env r (RL_Revalidate reg now) = snd (revalidate_evidence env r reg now)"

abbreviation release_run :: "crypto \<Rightarrow> release_registry \<Rightarrow> release_op list \<Rightarrow> release_registry" where
  "release_run env \<equiv> run_ops (release_step env)"

fun release_le :: "release_state \<Rightarrow> release_state \<Rightarrow> bool" where
  "release_le _ RS_Frozen = True"
| "release_le RS_Shadow _ = True"
| "release_le RS_Canary s = (s \<noteq> RS_Shadow)"
| "release_le RS_ReleasedLocal s = (s = RS_ReleasedLocal)"
| "release_le RS_Frozen _ = False"

lemma release_le_refl [simp]: "release_le s s"
  by (cases s) simp_all

lemma release_le_trans: "release_le s t \<Longrightarrow> release_le t u \<Longrightarrow> release_le s u"
  by (cases s; cases t; cases u) simp_all

lemma release_le_next: "next_release_state s = Some t \<Longrightarrow> release_le s t"
  by (cases s) auto

text \<open>A candidate keeps its record and its packets; its state only moves forward.\<close>

definition release_grows :: "release_registry \<Rightarrow> release_registry \<Rightarrow> bool" where
  "release_grows r r' \<longleftrightarrow> (\<forall>rid c st. bt_get (rr_records r) rid = Some (c, st) \<longrightarrow>
     (\<exists>st'. bt_get (rr_records r') rid = Some (c, st') \<and> release_le st st')) \<and>
   (\<forall>rid ps. bt_get (rr_packets r) rid = Some ps \<longrightarrow> (\<exists>qs. bt_get (rr_packets r') rid = Some (ps @ qs)))"

lemma release_grows_record:
  "release_grows r s \<Longrightarrow> bt_get (rr_records r) rid = Some (c, st) \<Longrightarrow>
     \<exists>st'. bt_get (rr_records s) rid = Some (c, st') \<and> release_le st st'"
  by (simp add: release_grows_def)

lemma release_grows_packets:
  "release_grows r s \<Longrightarrow> bt_get (rr_packets r) rid = Some ps \<Longrightarrow> \<exists>qs. bt_get (rr_packets s) rid = Some (ps @ qs)"
  by (simp add: release_grows_def)

lemma release_grows_trans:
  assumes "release_grows r s" and "release_grows s t"
  shows "release_grows r t"
  unfolding release_grows_def
proof (intro conjI allI impI)
  fix rid c st
  assume "bt_get (rr_records r) rid = Some (c, st)"
  then obtain st1 where "release_le st st1" "bt_get (rr_records s) rid = Some (c, st1)"
    using release_grows_record [OF assms(1)] by blast
  moreover from this(2) obtain st2 where "bt_get (rr_records t) rid = Some (c, st2)" "release_le st1 st2"
    using release_grows_record [OF assms(2)] by blast
  ultimately show "\<exists>st'. bt_get (rr_records t) rid = Some (c, st') \<and> release_le st st'"
    using release_le_trans by blast
next
  fix rid ps
  assume "bt_get (rr_packets r) rid = Some ps"
  then obtain qs us where "bt_get (rr_packets t) rid = Some ((ps @ qs) @ us)"
    using release_grows_packets [OF assms(1)] release_grows_packets [OF assms(2)] by blast
  then show "\<exists>qs. bt_get (rr_packets t) rid = Some (ps @ qs)" by simp
qed

lemma release_step_ok:
  assumes inv: "release_inv env r"
  shows "release_inv env (release_step env r a) \<and> release_grows r (release_step env r a)"
proof (cases a)
  case (RL_Propose c)
  have keys: "bt_get (rr_packets r) rid = None" if "bt_get (rr_records r) rid = None" for rid
    using that inv by (simp add: map_of_eq_None_iff release_inv_def release_shape_def)
  from inv show ?thesis
    by (cases rule: release_propose_cases [where c = c])
      (use inv keys in \<open>auto simp: RL_Propose release_grows_def\<close>)
next
  case (RL_Advance rid p cs reg now)
  from inv show ?thesis
    by (cases rule: advance_cases [where rid = rid and p = p and cs = cs and reg = reg and now = now])
      (use inv in \<open>auto simp: RL_Advance release_grows_def release_le_next\<close>)
next
  case (RL_Freeze rid)
  from inv show ?thesis
    by (cases rule: release_freeze_cases [where rid = rid])
      (use inv in \<open>auto simp: RL_Freeze release_grows_def set_release_state_def\<close>)
next
  case (RL_Revalidate reg now)
  then show ?thesis
    using inv refreshed_inv [OF inv] by (simp add: revalidate_eq release_grows_def refreshed_get) (simp add: refreshed_def)
qed

interpretation release_machine: monotone_machine "release_step env" "release_inv env" release_grows for env
proof
  show "release_inv env (release_step env r a)" if "release_inv env r" for r a using release_step_ok [OF that] by blast
  show "release_grows r (release_step env r a)" if "release_inv env r" for r a using release_step_ok [OF that] by blast
  show "release_grows r r" for r by (auto simp: release_grows_def)
  show "release_grows r t" if "release_grows r s" "release_grows s t" for r s t
    using that by (rule release_grows_trans)
qed

section \<open>Properties of the release registry\<close>

text \<open>
  The release registry is always valid and atomic: after any sequence of proposals, advances, freezes and revalidations from an empty
  registry \<open>validate\<close> succeeds, and an operation that reports an error has changed nothing.
\<close>

theorem release_registry_sound:
  assumes "sha256_len env" and "r = release_run env release_default ops"
  shows "release_validate env r = Inr () \<and>
    (is_ok (fst (release_propose env r c)) \<or> snd (release_propose env r c) = r) \<and>
    (is_ok (fst (advance_with_packet env r rid p cs reg now)) \<or> snd (advance_with_packet env r rid p cs reg now) = r) \<and>
    (is_ok (fst (release_freeze env r rid)) \<or> snd (release_freeze env r rid) = r) \<and>
    is_ok (fst (revalidate_evidence env r reg now))"
proof -
  have inv: "release_inv env r"
    unfolding assms(2) by (rule release_machine.run_inv [OF release_default_inv [OF assms(1)]])
  have "is_ok (fst (release_propose env r c)) \<or> snd (release_propose env r c) = r"
    using inv by (cases rule: release_propose_cases [where c = c]) simp_all
  moreover have "is_ok (fst (advance_with_packet env r rid p cs reg now)) \<or> snd (advance_with_packet env r rid p cs reg now) = r"
    using inv by (cases rule: advance_cases [where rid = rid and p = p and cs = cs and reg = reg and now = now]) simp_all
  moreover have "is_ok (fst (release_freeze env r rid)) \<or> snd (release_freeze env r rid) = r"
    using inv by (cases rule: release_freeze_cases [where rid = rid]) simp_all
  ultimately show ?thesis using release_inv_validate [OF inv] revalidate_eq [OF inv] by simp
qed

theorem release_registry_sound_witness:
  "release_validate demo_env (release_run demo_env release_default [RL_Freeze ''c'']) = Inr ()"
  using release_registry_sound [OF demo_sha256_len refl, of "[RL_Freeze ''c'']"] by blast

text \<open>The packets with which the advances of a run succeeded, in order.\<close>

type_synonym advance = "release_packet \<times> claim_envelope list \<times> evidence_registry \<times> u64"

fun advanced_by :: "crypto \<Rightarrow> release_registry \<Rightarrow> string \<Rightarrow> release_op \<Rightarrow> advance list" where
  "advanced_by env r rid (RL_Advance rid' p cs reg now) =
     (if rid' = rid \<and> is_ok (fst (advance_with_packet env r rid p cs reg now)) then [(p, cs, reg, now)] else [])"
| "advanced_by env r rid _ = []"

fun advances :: "crypto \<Rightarrow> release_registry \<Rightarrow> string \<Rightarrow> release_op list \<Rightarrow> advance list" where
  "advances env r rid [] = []"
| "advances env r rid (a # as) = advanced_by env r rid a @ advances env (release_step env r a) rid as"

fun advance_record :: "advance \<Rightarrow> release_evidence_packet" where
  "advance_record (p, cs, reg, now) = \<lparr>re_packet = p, re_envelopes = cs\<rparr>"

lemma release_step_packets:
  assumes inv: "release_inv env r" and ps: "bt_get (rr_packets r) rid = Some ps"
  shows "bt_get (rr_packets (release_step env r a)) rid =
    Some (ps @ map advance_record (advanced_by env r rid a))"
proof (cases a)
  case (RL_Propose c)
  have "bt_get (rr_packets r) rid' = None" if "bt_get (rr_records r) rid' = None" for rid'
    using that inv by (simp add: map_of_eq_None_iff release_inv_def release_shape_def)
  note keys = this
  from inv show ?thesis
    by (cases rule: release_propose_cases [where c = c]) (use ps keys in \<open>auto simp: RL_Propose\<close>)
next
  case (RL_Advance rid' p cs reg now)
  from inv show ?thesis
    by (cases rule: advance_cases [where rid = rid' and p = p and cs = cs and reg = reg and now = now])
      (use ps in \<open>auto simp: RL_Advance\<close>)
next
  case (RL_Freeze rid')
  from inv show ?thesis
    by (cases rule: release_freeze_cases [where rid = rid']) (use ps in \<open>auto simp: RL_Freeze set_release_state_def\<close>)
next
  case (RL_Revalidate reg now)
  then show ?thesis using ps by (simp add: revalidate_eq [OF inv] refreshed_def)
qed

lemma release_run_packets:
  assumes "release_inv env r" and "bt_get (rr_packets r) rid = Some ps"
  shows "bt_get (rr_packets (release_run env r ops)) rid =
    Some (ps @ map advance_record (advances env r rid ops))"
  using assms
proof (induction ops arbitrary: r ps)
  case (Cons a ops)
  have inv: "release_inv env (release_step env r a)" using release_step_ok [OF Cons.prems(1)] by blast
  show ?case using Cons.IH [OF inv release_step_packets [OF Cons.prems]] by simp
qed simp

lemma advances_current:
  "(p, cs, reg, now) \<in> set (advances env r rid ops) \<Longrightarrow> validate_current env p cs reg now = Inr ()"
proof (induction ops arbitrary: r)
  case (Cons a ops)
  then show ?case
    by (cases a) (auto simp: advance_with_packet_def try_r_eq_Inr is_ok_iff split: if_splits sum.splits)
qed simp

lemma advances_none:
  assumes "release_inv env r" and "bt_get (rr_records r) rid = None"
  shows "advanced_by env r rid a = []"
proof (cases a)
  case (RL_Advance rid' p cs reg now)
  from assms(1) show ?thesis
    by (cases rule: advance_cases [where rid = rid' and p = p and cs = cs and reg = reg and now = now])
      (use assms(2) in \<open>auto simp: RL_Advance\<close>)
qed simp_all

lemma release_run_packets_new:
  assumes "release_inv env r" and "bt_get (rr_records r) rid = None"
    and "bt_get (rr_packets (release_run env r ops)) rid = Some qs"
  shows "qs = map advance_record (advances env r rid ops)"
  using assms
proof (induction ops arbitrary: r)
  case Nil
  then show ?case by (auto simp: release_inv_def release_shape_def map_of_eq_None_iff dest!: map_of_SomeD) (metis fst_conv image_eqI)
next
  case (Cons a ops)
  let ?r = "release_step env r a"
  have inv: "release_inv env ?r" using release_step_ok [OF Cons.prems(1)] by blast
  have none: "advanced_by env r rid a = []" by (rule advances_none [OF Cons.prems(1,2)])
  show ?case
  proof (cases "bt_get (rr_records ?r) rid")
    case None
    then show ?thesis using Cons.IH [OF inv None] Cons.prems(3) none by simp
  next
    case (Some e)
    have "bt_get (rr_packets ?r) rid = Some []"
    proof (cases a)
      case (RL_Propose c)
      from Cons.prems(1) show ?thesis
        by (cases rule: release_propose_cases [where c = c])
          (use Some Cons.prems(2) in \<open>auto simp: RL_Propose split: if_splits\<close>)
    next
      case (RL_Advance rid' p cs reg now)
      from Cons.prems(1) show ?thesis
        by (cases rule: advance_cases [where rid = rid' and p = p and cs = cs and reg = reg and now = now])
          (use Some Cons.prems(2) in \<open>auto simp: RL_Advance split: if_splits\<close>)
    next
      case (RL_Freeze rid')
      from Cons.prems(1) show ?thesis
        by (cases rule: release_freeze_cases [where rid = rid'])
          (use Some Cons.prems(2) in \<open>auto simp: RL_Freeze set_release_state_def split: if_splits\<close>)
    next
      case (RL_Revalidate reg now)
      then show ?thesis using Some Cons.prems(2) by (simp add: revalidate_eq [OF Cons.prems(1)] refreshed_get)
    qed
    from release_run_packets [OF inv this, of ops] Cons.prems(3) show ?thesis by (simp add: none)
  qed
qed

text \<open>A frozen candidate is never touched again: no operation changes its record or adds a packet.\<close>

lemma frozen_never_advances:
  assumes "release_inv env r" and "bt_get (rr_records r) rid = Some (c, RS_Frozen)"
  shows "advanced_by env r rid a = []"
proof (cases a)
  case (RL_Advance rid' p cs reg now)
  from assms(1) show ?thesis
    by (cases rule: advance_cases [where rid = rid' and p = p and cs = cs and reg = reg and now = now])
      (use assms(2) in \<open>auto simp: RL_Advance\<close>)
qed simp_all

lemma frozen_step:
  assumes "release_inv env r" and "bt_get (rr_records r) rid = Some (c, RS_Frozen)" and "bt_get (rr_packets r) rid = Some ps"
  shows "bt_get (rr_records (release_step env r a)) rid = Some (c, RS_Frozen) \<and> bt_get (rr_packets (release_step env r a)) rid = Some ps"
proof
  obtain st where "bt_get (rr_records (release_step env r a)) rid = Some (c, st)" "release_le RS_Frozen st"
    using release_grows_record [OF release_machine.step_grows [OF assms(1)] assms(2)] by blast
  then show "bt_get (rr_records (release_step env r a)) rid = Some (c, RS_Frozen)" by (cases st) simp_all
  show "bt_get (rr_packets (release_step env r a)) rid = Some ps"
    using release_step_packets [OF assms(1,3), of a] frozen_never_advances [OF assms(1,2)] by simp
qed

lemma frozen_is_final:
  assumes "release_inv env r" and "bt_get (rr_records r) rid = Some (c, RS_Frozen)" and "bt_get (rr_packets r) rid = Some ps"
  shows "bt_get (rr_records (release_run env r later)) rid = Some (c, RS_Frozen) \<and> bt_get (rr_packets (release_run env r later)) rid = Some ps"
  using assms
proof (induction later arbitrary: r)
  case (Cons a later)
  then show ?case using frozen_step [OF Cons.prems, of a] release_machine.step_inv [OF Cons.prems(1), of a] by simp
qed simp

text \<open>
  C10.  Every release step was earned: the packets with which a candidate advanced are exactly the ones the registry holds for it, each was
  current under the evidence registry given at its step, no packet digest was used twice, the first one is the digest the candidate was
  proposed with, a candidate in shadow has not advanced, a canary has advanced once and a local release twice, and the candidate still rolls back to its base.
  Frozen is final: whatever operations follow, a frozen candidate stays frozen, with the same record and the same packets.
\<close>

theorem release_steps_are_earned:
  assumes "sha256_len env" and "r = release_run env release_default ops" and "bt_get (rr_records r) rid = Some (c, st)"
    and "adv = advances env release_default rid ops"
  shows "bt_get (rr_packets r) rid = Some (map advance_record adv) \<and>
    (st = RS_Shadow \<longrightarrow> adv = []) \<and> (st = RS_Canary \<longrightarrow> length adv = 1) \<and> (st = RS_ReleasedLocal \<longrightarrow> length adv = 2) \<and>
    (\<forall>(p, cs, reg, now)\<in>set adv. validate_current env p cs reg now = Inr ()) \<and>
    distinct (map (\<lambda>(p, _). digest env (json_packet p)) adv) \<and>
    (adv \<noteq> [] \<longrightarrow> digest env (json_packet (fst (hd adv))) = cu_evidence_digest c) \<and>
    cu_rollback_digest c = cu_base_digest c \<and> cu_candidate_digest c \<noteq> cu_base_digest c \<and>
    (st = RS_Frozen \<longrightarrow> (\<forall>later. bt_get (rr_records (release_run env r later)) rid = Some (c, RS_Frozen) \<and>
       bt_get (rr_packets (release_run env r later)) rid = Some (map advance_record adv)))"
proof -
  have inv: "release_inv env r"
    unfolding assms(2) by (rule release_machine.run_inv [OF release_default_inv [OF assms(1)]])
  obtain used ps where ps: "bt_get (rr_packets r) rid = Some ps" "release_record_ok env c st used ps"
    by (rule release_inv_get [OF inv assms(3)])
  have adv: "ps = map advance_record adv"
    unfolding assms(4)
    by (rule release_run_packets_new [OF release_default_inv [OF assms(1)]])
      (use ps(1) assms(2) in \<open>simp_all add: release_default_def\<close>)
  have rec: "packet_id_digest env (advance_record a) = digest env (json_packet (fst a))" for a
    by (cases a) (simp add: packet_id_digest_def)
  have "distinct (map (\<lambda>(p, _). digest env (json_packet p)) adv)"
    using ps(2) by (simp add: release_record_ok_def adv comp_def rec case_prod_beta')
  moreover have "adv \<noteq> [] \<longrightarrow> digest env (json_packet (fst (hd adv))) = cu_evidence_digest c"
    using ps(2) by (simp add: release_record_ok_def adv hd_map rec)
  moreover have "validate_current env p cs reg now = Inr ()" if "(p, cs, reg, now) \<in> set adv" for p cs reg now
    using that unfolding assms(4) by (rule advances_current)
  moreover have "expected_packet_count st (length adv) = Some (length adv)" "candidate_validate c = Inr ()"
    using ps(2) by (simp_all add: release_record_ok_def adv)
  moreover have "\<forall>later. bt_get (rr_records (release_run env r later)) rid = Some (c, RS_Frozen) \<and>
      bt_get (rr_packets (release_run env r later)) rid = Some ps" if "st = RS_Frozen"
    using frozen_is_final [OF inv assms(3) [unfolded that] ps(1)] by blast
  ultimately show ?thesis using ps(1) adv by (cases st) (auto simp: candidate_validate_def split: if_splits)
qed

text \<open>
  Revalidation is exact: \<open>revalidate_evidence\<close> on a registry that operations built freezes exactly the canaries and local
  releases that hold a packet which is no longer current, reports exactly their ids, and leaves every other record, all packets and all
  digests alone; afterwards every active record holds current packets only.
\<close>

theorem revalidation_exact:
  assumes "sha256_len env" and "r = release_run env release_default ops"
    and "revalidate_evidence env r reg now = (res, r')"
  shows "\<exists>frozen. res = Inr frozen \<and> distinct frozen \<and> rr_packets r' = rr_packets r \<and> rr_used_evidence r' = rr_used_evidence r \<and>
    (\<forall>rid c st. bt_get (rr_records r) rid = Some (c, st) \<longrightarrow>
       (let stale = (st = RS_Canary \<or> st = RS_ReleasedLocal) \<and> (\<exists>ps p. bt_get (rr_packets r) rid = Some ps \<and> p \<in> set ps \<and>
              \<not> is_ok (validate_current env (re_packet p) (re_envelopes p) reg now))
        in (rid \<in> set frozen \<longleftrightarrow> stale) \<and> bt_get (rr_records r') rid = Some (c, if stale then RS_Frozen else st)))"
proof -
  have inv: "release_inv env r"
    unfolding assms(2) by (rule release_machine.run_inv [OF release_default_inv [OF assms(1)]])
  let ?frozen = "map fst (filter (goes_stale env reg now r) (rr_records r))"
  have res: "res = Inr ?frozen" "r' = refreshed env reg now r" using assms(3) by (simp_all add: revalidate_eq [OF inv])
  have wf: "bt_wf (rr_records r)" using inv by (simp add: release_inv_def release_shape_def)
  have gs: "goes_stale env reg now r (rid, c, st) \<longleftrightarrow> (st = RS_Canary \<or> st = RS_ReleasedLocal) \<and>
      (\<exists>ps p. bt_get (rr_packets r) rid = Some ps \<and> p \<in> set ps \<and>
         \<not> is_ok (validate_current env (re_packet p) (re_envelopes p) reg now))" for rid c st
    by (cases st) (auto simp: goes_stale_def packet_stale_def list_ex_iff split: option.splits)
  have mem: "rid \<in> set ?frozen \<longleftrightarrow> goes_stale env reg now r (rid, c, st)" if "bt_get (rr_records r) rid = Some (c, st)" for rid c st
  proof -
    have one: "e \<in> set (rr_records r) \<and> fst e = rid \<longleftrightarrow> e = (rid, c, st)" for e
      using that bt_get_mem [OF wf, of rid "snd e"] by (cases e) auto
    have "rid \<in> set ?frozen \<longleftrightarrow> (\<exists>e. (e \<in> set (rr_records r) \<and> fst e = rid) \<and> goes_stale env reg now r e)"
      by (simp only: set_map set_filter image_iff Bex_def mem_Collect_eq eq_commute [of rid] conj_ac)
    then show ?thesis unfolding one by simp
  qed
  have "bt_get (rr_records r') rid = Some (c, if goes_stale env reg now r (rid, c, st) then RS_Frozen else st)"
    if "bt_get (rr_records r) rid = Some (c, st)" for rid c st
    using that by (simp add: res(2) refreshed_get)
  moreover have "distinct ?frozen" using bt_wf_distinct [OF wf] by (simp add: distinct_map_filter)
  ultimately show ?thesis using mem by (simp add: res Let_def gs refreshed_def)
qed

text \<open>
  Revoked evidence ends a release: when a canary or local release holds a packet that was assembled with a piece of evidence and this
  evidence is revoked, the next \<open>revalidate_evidence\<close> freezes the candidate, and no later operation of the release
  registry takes it out of that state, unless the evidence registry holds a record that collides with the revoked one.
\<close>

theorem revoked_evidence_ends_release:
  assumes "sha256_len env" and "r = release_run env release_default rops"
    and "bt_get (rr_records r) rid = Some (c, st)" and "st = RS_Canary \<or> st = RS_ReleasedLocal"
    and "bt_get (rr_packets r) rid = Some ps" and "\<lparr>re_packet = p, re_envelopes = cs\<rparr> \<in> set ps"
    and "from_envelopes env packet_id cs bs (registry_run registry_default pre) t = Inr p"
    and "b \<in> set bs" and "eid \<in> set (cb_evidence_ids b)"
    and "registry_revoke (registry_run registry_default (pre @ mid)) eid = (Inr (), r1)"
  shows "release_state_of (release_run env (snd (revalidate_evidence env r (registry_run r1 post) now)) later) rid = Some RS_Frozen \<or>
    (\<exists>e eid' e'. bt_get (er_records (registry_run registry_default pre)) eid = Some e \<and>
       (eid', e') \<in> set (er_records (registry_run r1 post)) \<and> collision env (json_evidence e') (json_evidence e))"
proof -
  let ?reg = "registry_run r1 post" and ?pk = "\<lparr>re_packet = p, re_envelopes = cs\<rparr>"
  have inv: "release_inv env r"
    unfolding assms(2) by (rule release_machine.run_inv [OF release_default_inv [OF assms(1)]])
  have "release_state_of (release_run env (refreshed env ?reg now r) later) rid = Some RS_Frozen"
    if "\<not> is_ok (validate_current env p cs ?reg now)"
  proof -
    have "packet_stale env ?reg now ?pk" using that by (simp add: packet_stale_def)
    then have "goes_stale env ?reg now r (rid, c, st)"
      using assms(4-6) by (auto simp: goes_stale_def list_ex_iff)
    then have "bt_get (rr_records (refreshed env ?reg now r)) rid = Some (c, RS_Frozen)"
      using assms(3) by (simp add: refreshed_get)
    then obtain st' where "bt_get (rr_records (release_run env (refreshed env ?reg now r) later)) rid = Some (c, st')"
      "release_le RS_Frozen st'"
      using release_grows_record [OF release_machine.run_grows [OF refreshed_inv [OF inv]]] by blast
    moreover from this(2) have "st' = RS_Frozen" by (cases st') simp_all
    ultimately show ?thesis by (simp add: release_state_of_def)
  qed
  then show ?thesis using revoked_packet_stale [OF assms(7-10), of post now] unfolding revalidate_eq [OF inv] snd_conv by blast
qed

text \<open>A demonstration release: proposed, advanced once with the demonstration packet, then its evidence is revoked.\<close>

definition demo_candidate :: candidate_update where
  "demo_candidate = \<lparr>cu_candidate_id = ''c'', cu_base_digest = replicate 64 (CHR ''1''), cu_candidate_digest = zero_digest,
     cu_rollback_digest = replicate 64 (CHR ''1''), cu_evidence_digest = zero_digest\<rparr>"

lemma demo_candidate_valid: "candidate_validate demo_candidate = Inr ()"
proof -
  have "valid_digest (replicate 64 (CHR ''1''))"
    by (rule valid_digest_replicate) (simp_all add: is_ascii_hexdigit_def is_ascii_uppercase_def)
  moreover have "replicate 64 (CHR ''1'') \<noteq> zero_digest" by (simp add: zero_digest_def)
  ultimately show ?thesis by (simp add: candidate_validate_def demo_candidate_def)
qed

abbreviation demo_steps :: "release_packet \<Rightarrow> release_op list" where
  "demo_steps p \<equiv> [RL_Propose demo_candidate,
     RL_Advance ''c'' p [demo_envelope ''a''] (registry_run registry_default demo_backing) 10]"

lemma demo_canary:
  assumes "from_envelopes demo_env ''packet'' [demo_envelope ''a''] [demo_binding]
     (registry_run registry_default demo_backing) 10 = Inr p"
  shows "release_run demo_env release_default (demo_steps p) =
    \<lparr>rr_records = [(''c'', demo_candidate, RS_Canary)], rr_used_evidence = [(''c'', [zero_digest])],
     rr_packets = [(''c'', [\<lparr>re_packet = p, re_envelopes = [demo_envelope ''a'']\<rparr>])]\<rparr>"
proof -
  have cur: "validate_current demo_env p [demo_envelope ''a''] (registry_run registry_default demo_backing) 10 = Inr ()"
    and pv: "packet_validate p = Inr ()"
    using from_envelopes_ok [OF assms] by metis+
  have cl: "validate_claims demo_env p [demo_envelope ''a''] = Inr ()" using cur by (simp add: validate_current_ok)
  have cid: "cu_candidate_id demo_candidate = ''c''" "cu_evidence_digest demo_candidate = zero_digest"
    by (simp_all add: demo_candidate_def)
  have proposed: "release_propose demo_env release_default demo_candidate = (Inr (),
      \<lparr>rr_records = [(''c'', demo_candidate, RS_Shadow)], rr_used_evidence = [(''c'', [])], rr_packets = [(''c'', [])]\<rparr>)"
    by (simp add: release_propose_def demo_candidate_valid release_default_def bt_contains_def release_validate_def
        release_record_validate_def first_packet_check_def cid Let_def)
  show ?thesis
    using cur cl pv
    by (simp add: proposed advance_with_packet_def packet_digest_def advance_digest_def set_release_state_def bt_modify_def
        bs_contains_def cid release_validate_def release_record_validate_def first_packet_check_def
        demo_candidate_valid Let_def)
qed

theorem release_steps_are_earned_witness:
  "\<exists>p. advances demo_env release_default ''c'' (demo_steps p) =
     [(p, [demo_envelope ''a''], registry_run registry_default demo_backing, 10)]"
proof -
  obtain p where p: "from_envelopes demo_env ''packet'' [demo_envelope ''a''] [demo_binding]
     (registry_run registry_default demo_backing) 10 = Inr p" using demo_release by blast
  have "bt_get (rr_records (release_run demo_env release_default (demo_steps p))) ''c'' = Some (demo_candidate, RS_Canary)"
    unfolding demo_canary [OF p] by simp
  from release_steps_are_earned [OF demo_sha256_len refl this refl]
  have "length (advances demo_env release_default ''c'' (demo_steps p)) = 1" by simp
  then have "advances demo_env release_default ''c'' (demo_steps p) =
     [(p, [demo_envelope ''a''], registry_run registry_default demo_backing, 10)]"
    by (simp split: if_splits)
  then show ?thesis by blast
qed

lemma demo_evidence_revoked:
  obtains r1 where "registry_revoke (registry_run registry_default (demo_backing @ [])) ''e1'' = (Inr (), r1)"
proof -
  have "\<exists>r1. registry_revoke (registry_run registry_default demo_backing) ''e1'' = (Inr (), r1)"
    unfolding demo_backing_run
    by (simp add: registry_revoke_def Let_def bt_modify_def registry_validate_def demo_evidence_def
        evidence_validate_def valid_role_def ascii_control_def)
  then show thesis using that by auto
qed

theorem revalidation_exact_witness:
  "\<exists>p res r'. revalidate_evidence demo_env (release_run demo_env release_default (demo_steps p))
       (registry_run registry_default demo_backing) 10 = (res, r') \<and> is_ok res \<and>
     bt_get (rr_records r') ''c'' = Some (demo_candidate, RS_Canary)"
proof -
  obtain p where p: "from_envelopes demo_env ''packet'' [demo_envelope ''a''] [demo_binding]
     (registry_run registry_default demo_backing) 10 = Inr p" using demo_release by blast
  have cur: "validate_current demo_env p [demo_envelope ''a''] (registry_run registry_default demo_backing) 10 = Inr ()"
    using from_envelopes_ok [OF p] by metis
  obtain res r' where rv: "revalidate_evidence demo_env (release_run demo_env release_default (demo_steps p))
       (registry_run registry_default demo_backing) 10 = (res, r')" by fastforce
  have rec: "bt_get (rr_records (release_run demo_env release_default (demo_steps p))) ''c'' = Some (demo_candidate, RS_Canary)"
    "bt_get (rr_packets (release_run demo_env release_default (demo_steps p))) ''c'' =
       Some [\<lparr>re_packet = p, re_envelopes = [demo_envelope ''a'']\<rparr>]"
    unfolding demo_canary [OF p] by simp_all
  from revalidation_exact [OF demo_sha256_len refl rv] rec cur
  have "is_ok res \<and> bt_get (rr_records r') ''c'' = Some (demo_candidate, RS_Canary)" by (fastforce simp: Let_def)
  then show ?thesis using rv by blast
qed

theorem revoked_evidence_ends_release_witness:
  "\<exists>p r1. registry_revoke (registry_run registry_default (demo_backing @ [])) ''e1'' = (Inr (), r1) \<and>
     (release_state_of (snd (revalidate_evidence demo_env (release_run demo_env release_default (demo_steps p)) r1 20)) ''c'' =
        Some RS_Frozen \<or>
      (\<exists>e eid' e'. bt_get (er_records (registry_run registry_default demo_backing)) ''e1'' = Some e \<and>
         (eid', e') \<in> set (er_records r1) \<and> collision demo_env (json_evidence e') (json_evidence e)))"
proof -
  obtain p where p: "from_envelopes demo_env ''packet'' [demo_envelope ''a''] [demo_binding]
     (registry_run registry_default demo_backing) 10 = Inr p" using demo_release by blast
  obtain r1 where r1: "registry_revoke (registry_run registry_default (demo_backing @ [])) ''e1'' = (Inr (), r1)"
    by (rule demo_evidence_revoked)
  have rec: "bt_get (rr_records (release_run demo_env release_default (demo_steps p))) ''c'' = Some (demo_candidate, RS_Canary)"
    "bt_get (rr_packets (release_run demo_env release_default (demo_steps p))) ''c'' =
       Some [\<lparr>re_packet = p, re_envelopes = [demo_envelope ''a'']\<rparr>]"
    unfolding demo_canary [OF p] by simp_all
  have "demo_binding \<in> set [demo_binding]" "''e1'' \<in> set (cb_evidence_ids demo_binding)" by (simp_all add: demo_binding_def)
  from revoked_evidence_ends_release [OF demo_sha256_len refl rec(1) _ rec(2) _ p this r1, of "[]" 20 "[]"]
  show ?thesis using r1 by auto
qed

end
