(* ===== verification/Sealed.thy ===== *)
theory Sealed
  imports Encoding Machine
begin

text \<open>
  Records that carry the digest of the rest of themselves.  The operations of such a record change the body and then refresh the digest, which
  validates the record again; \<open>new\<close> seals a first body.  The locale \<open>sealed\<close> has what the records of src/adaptation.rs, src/causal.rs,
  src/replication.rs and src/crypto_adapters.rs share: the body check and the identity that is digested do not look at the seal.
\<close>

definition optional_ok :: "('a \<Rightarrow> bool) \<Rightarrow> 'a option \<Rightarrow> bool" where
  "optional_ok P x = (case x of None \<Rightarrow> True | Some v \<Rightarrow> P v)"

lemma optional_ok_simps [simp]: "optional_ok P None" "optional_ok P (Some v) = P v"
  by (simp_all add: optional_ok_def)

text \<open>Operations one after the other, up to the first that fails: a caller that stops at an error.\<close>

fun try_ops :: "('s \<Rightarrow> 'o \<Rightarrow> unit result \<times> 's) \<Rightarrow> 's \<Rightarrow> 'o list \<Rightarrow> 's result" where
  "try_ops step s [] = Inr s"
| "try_ops step s (a # as) = (case step s a of (Inl e, _) \<Rightarrow> Inl e | (Inr _, s') \<Rightarrow> try_ops step s' as)"

lemma try_ops_ConsE:
  assumes "try_ops step s (a # as) = Inr t"
  obtains s' where "step s a = (Inr (), s')" "try_ops step s' as = Inr t"
  using assms by (auto split: prod.splits sum.splits)

text \<open>What every successful operation keeps, a successful sequence keeps.\<close>

lemma try_ops_keep:
  assumes "try_ops step s as = Inr t" and "\<And>s a s'. step s a = (Inr (), s') \<Longrightarrow> R s s'" and "\<And>s. R s s"
    and "\<And>s t u. R s t \<Longrightarrow> R t u \<Longrightarrow> R s u"
  shows "R s t"
  using assms(1)
proof (induction as arbitrary: s)
  case (Cons a as)
  from Cons.prems obtain s' where "step s a = (Inr (), s')" "try_ops step s' as = Inr t" by (rule try_ops_ConsE)
  then show ?case using Cons.IH assms(2,4) by blast
qed (simp add: assms(3))

definition text_within :: "nat \<Rightarrow> string \<Rightarrow> bool" where
  "text_within n value \<longleftrightarrow> value \<noteq> [] \<and> length value \<le> n \<and> \<not> has_control value"

lemma json_opt_JStr: "json_opt JStr a = json_opt JStr b \<longleftrightarrow> a = b"
  by (rule json_opt_inject) simp_all

locale sealed =
  fixes seal_of :: "'r \<Rightarrow> string" and with_seal :: "string \<Rightarrow> 'r \<Rightarrow> 'r"
    and expected :: "crypto \<Rightarrow> 'r \<Rightarrow> string" and body_check :: "'r \<Rightarrow> unit result" and identity :: "'r \<Rightarrow> json"
    and validate :: "crypto \<Rightarrow> 'r \<Rightarrow> unit result"
  assumes seal_with: "seal_of (with_seal d r) = d"
    and with_seal_same: "with_seal (seal_of r) r = r"
    and with_seal_twice: "with_seal d (with_seal d' r) = with_seal d r"
    and body_with_seal: "body_check (with_seal d r) = body_check r"
    and identity_with_seal: "identity (with_seal d r) = identity r"
    and expected_def: "expected env r = digest env (identity r)"
    and identity_inject: "identity r = identity r' \<Longrightarrow> with_seal d r = with_seal d r'"
    and validate_iff: "validate env r = Inr () \<longleftrightarrow> body_check r = Inr () \<and> valid_digest (seal_of r) \<and> seal_of r = expected env r"
begin

definition reseal :: "crypto \<Rightarrow> 'r \<Rightarrow> 'r" where
  "reseal env r = with_seal (expected env r) r"

lemma reseal_valid:
  assumes "sha256_len env"
  shows "validate env (reseal env r) = Inr () \<longleftrightarrow> body_check r = Inr ()"
  using assms by (simp add: validate_iff reseal_def seal_with body_with_seal identity_with_seal expected_def)

lemma valid_is_sealed: "validate env r = Inr () \<Longrightarrow> reseal env r = r"
  unfolding validate_iff reseal_def using with_seal_same [of r] by metis

lemma seal_binds:
  assumes "validate env r = Inr ()" and "validate env r' = Inr ()" and "seal_of r = seal_of r'"
  shows "r = r' \<or> collision env (identity r) (identity r')"
proof -
  have "digest env (identity r) = digest env (identity r')" using assms by (simp add: validate_iff expected_def)
  from digest_eq_cases [OF this] show ?thesis
  proof
    assume "identity r = identity r'"
    then have "with_seal (seal_of r) r = with_seal (seal_of r) r'" by (rule identity_inject)
    moreover have "with_seal (seal_of r) r' = r'" unfolding assms(3) by (rule with_seal_same)
    ultimately show ?thesis using with_seal_same [of r] by metis
  qed simp
qed

end

text \<open>Digests for concrete inputs.\<close>

definition digits :: "char \<Rightarrow> string" where
  "digits c = replicate 64 c"

lemma digits_inject [simp]: "digits c = digits d \<longleftrightarrow> c = d"
  by (auto simp: digits_def dest!: arg_cong [where f = hd])

lemma digits_valid [simp]: "is_ascii_hexdigit c \<Longrightarrow> \<not> is_ascii_uppercase c \<Longrightarrow> valid_digest (digits c)"
  unfolding digits_def by (rule valid_digest_replicate)

lemma zero_digits: "zero_digest = digits CHR ''0''"
  by (simp add: digits_def zero_digest_def)

lemmas hex_simps = is_ascii_hexdigit_def is_ascii_uppercase_def

lemma bs_from_list_Nil [simp]: "bs_from_list [] = []"
  by (simp add: bs_from_list_def)

end
