(* ===== verification/Planning.thy ===== *)
theory Planning
  imports Governance Sealed
begin

text \<open>
  Proposal-only adaptation planning of src/adaptation_market.rs: candidates with an evidence anchor, the plan for the best of them, offers of work for a plan.
\<close>

section \<open>Evidence anchors, candidates and plans\<close>

definition ADAPTATION_VERSION :: u8 where
  "ADAPTATION_VERSION = 1"

definition EXPLORATORY_CLAIM_CEILING :: string where
  "EXPLORATORY_CLAIM_CEILING = ''local Rust pure-data control and caller-owned persistence evidence only''"

definition valid_id :: "string \<Rightarrow> bool" where
  "valid_id value \<longleftrightarrow> value \<noteq> [] \<and> length value \<le> 128 \<and> \<not> has_control value"

datatype evidence_status = ES_LocalOnly | ES_Inconclusive

fun evidence_status_name :: "evidence_status \<Rightarrow> string" where
  "evidence_status_name ES_LocalOnly = ''LocalOnly''"
| "evidence_status_name ES_Inconclusive = ''Inconclusive''"

record evidence_anchor =
  ea_evidence_digest :: string
  ea_source_digest :: string
  ea_base_digest :: string
  ea_claim_ceiling :: string
  ea_status :: evidence_status
  ea_observed_at :: u64
  ea_valid_until :: u64

definition anchor_validate :: "evidence_anchor \<Rightarrow> unit result" where
  "anchor_validate a =
     (if \<not> valid_digest (ea_evidence_digest a) \<or> \<not> valid_digest (ea_source_digest a) \<or> \<not> valid_digest (ea_base_digest a) \<or>
         ea_claim_ceiling a \<noteq> EXPLORATORY_CLAIM_CEILING \<or> ea_valid_until a \<le> ea_observed_at a \<or> ea_observed_at a = 0
      then Inl (Err_Invalid ''adaptation evidence anchor is malformed'') else Inr ())"

definition usable_at :: "evidence_anchor \<Rightarrow> u64 \<Rightarrow> bool" where
  "usable_at a now \<longleftrightarrow> is_ok (anchor_validate a) \<and> ea_status a = ES_LocalOnly \<and> ea_observed_at a \<le> now \<and> now < ea_valid_until a"

record adaptation_candidate =
  ac_candidate :: candidate_update
  ac_evidence :: evidence_anchor
  ac_priority :: u64
  ac_execution_authorized :: bool

definition json_anchor :: "evidence_anchor \<Rightarrow> json" where
  "json_anchor a = JObj
    [(''evidence_digest'', JStr (ea_evidence_digest a)), (''source_digest'', JStr (ea_source_digest a)),
     (''base_digest'', JStr (ea_base_digest a)), (''claim_ceiling'', JStr (ea_claim_ceiling a)),
     (''status'', JStr (evidence_status_name (ea_status a))), (''observed_at'', json_word (ea_observed_at a)),
     (''valid_until'', json_word (ea_valid_until a))]"

definition json_adaptation_candidate :: "adaptation_candidate \<Rightarrow> json" where
  "json_adaptation_candidate c = JObj
    [(''candidate'', json_candidate (ac_candidate c)), (''evidence'', json_anchor (ac_evidence c)),
     (''priority'', json_word (ac_priority c)), (''execution_authorized'', JBool (ac_execution_authorized c))]"

definition adaptation_candidate_validate :: "adaptation_candidate \<Rightarrow> unit result" where
  "adaptation_candidate_validate c =
     try_r (candidate_validate (ac_candidate c)) (\<lambda>_.
     try_r (anchor_validate (ac_evidence c)) (\<lambda>_.
     if cu_base_digest (ac_candidate c) \<noteq> ea_base_digest (ac_evidence c) \<or>
        cu_evidence_digest (ac_candidate c) \<noteq> ea_evidence_digest (ac_evidence c) \<or> ac_execution_authorized c
     then Inl (Err_Rejected ''adaptation candidate is not bound to its immutable local evidence'') else Inr ()))"

definition adaptation_candidate_digest :: "crypto \<Rightarrow> adaptation_candidate \<Rightarrow> string result" where
  "adaptation_candidate_digest env c =
     try_r (adaptation_candidate_validate c) (\<lambda>_. Inr (digest env (json_adaptation_candidate c)))"

record adaptation_plan =
  pn_version :: u8
  pn_plan_id :: string
  pn_candidate_digest :: string
  pn_base_digest :: string
  pn_rollback_digest :: string
  pn_evidence_digest :: string
  pn_source_digest :: string
  pn_claim_ceiling :: string
  pn_valid_until :: u64
  pn_execution_authorized :: bool

definition json_plan :: "adaptation_plan \<Rightarrow> json" where
  "json_plan p = JObj
    [(''version'', json_word (pn_version p)), (''plan_id'', JStr (pn_plan_id p)), (''candidate_digest'', JStr (pn_candidate_digest p)),
     (''base_digest'', JStr (pn_base_digest p)), (''rollback_digest'', JStr (pn_rollback_digest p)),
     (''evidence_digest'', JStr (pn_evidence_digest p)), (''source_digest'', JStr (pn_source_digest p)),
     (''claim_ceiling'', JStr (pn_claim_ceiling p)), (''valid_until'', json_word (pn_valid_until p)),
     (''execution_authorized'', JBool (pn_execution_authorized p))]"

definition plan_id_of :: "crypto \<Rightarrow> string \<Rightarrow> string" where
  "plan_id_of env candidate_digest = digest env (JArr [JStr ''adaptation-plan-v1'', JStr candidate_digest])"

definition plan_validate :: "crypto \<Rightarrow> adaptation_plan \<Rightarrow> unit result" where
  "plan_validate env p =
     (if pn_version p \<noteq> ADAPTATION_VERSION \<or> \<not> valid_id (pn_plan_id p) \<or> \<not> valid_digest (pn_candidate_digest p) \<or>
         \<not> valid_digest (pn_base_digest p) \<or> \<not> valid_digest (pn_rollback_digest p) \<or> \<not> valid_digest (pn_evidence_digest p) \<or>
         \<not> valid_digest (pn_source_digest p) \<or> pn_claim_ceiling p \<noteq> EXPLORATORY_CLAIM_CEILING \<or> pn_valid_until p = 0 \<or>
         pn_base_digest p \<noteq> pn_rollback_digest p \<or> pn_execution_authorized p \<or>
         pn_plan_id p \<noteq> plan_id_of env (pn_candidate_digest p)
      then Inl (Err_Rejected ''adaptation plan is malformed'') else Inr ())"

definition plan_from_candidate :: "crypto \<Rightarrow> adaptation_candidate \<Rightarrow> adaptation_plan result" where
  "plan_from_candidate env c =
     try_r (adaptation_candidate_digest env c) (\<lambda>cd.
     let p = \<lparr>pn_version = ADAPTATION_VERSION, pn_plan_id = plan_id_of env cd, pn_candidate_digest = cd,
              pn_base_digest = cu_base_digest (ac_candidate c), pn_rollback_digest = cu_rollback_digest (ac_candidate c),
              pn_evidence_digest = ea_evidence_digest (ac_evidence c), pn_source_digest = ea_source_digest (ac_evidence c),
              pn_claim_ceiling = EXPLORATORY_CLAIM_CEILING, pn_valid_until = ea_valid_until (ac_evidence c),
              pn_execution_authorized = False\<rparr>
     in try_r (plan_validate env p) (\<lambda>_. Inr p))"

definition plan_digest :: "crypto \<Rightarrow> adaptation_plan \<Rightarrow> string result" where
  "plan_digest env p = try_r (plan_validate env p) (\<lambda>_. Inr (digest env (json_plan p)))"

definition stage_shadow ::
  "crypto \<Rightarrow> adaptation_plan \<Rightarrow> adaptation_candidate \<Rightarrow> release_registry \<Rightarrow> unit result \<times> release_registry" where
  "stage_shadow env p c rr =
     (case try_r (plan_validate env p) (\<lambda>_.
           try_r (adaptation_candidate_validate c) (\<lambda>_.
           try_r (adaptation_candidate_digest env c) (\<lambda>cd.
           if cd \<noteq> pn_candidate_digest p then Inl (Err_Rejected ''shadow candidate does not match adaptation plan'') else Inr ())))
      of Inl e \<Rightarrow> (Inl e, rr)
       | Inr _ \<Rightarrow> release_propose env rr (ac_candidate c))"

section \<open>Offers and selection\<close>

record work_offer =
  wo_plan_digest :: string
  wo_offer_id :: string
  wo_provider :: string
  wo_price :: u64
  wo_submitted_at :: u64
  wo_expires_at :: u64

definition work_offer_validate :: "crypto \<Rightarrow> work_offer \<Rightarrow> adaptation_plan \<Rightarrow> u64 \<Rightarrow> unit result" where
  "work_offer_validate env f p now =
     try_r (plan_validate env p) (\<lambda>_.
     let malformed = Inl (Err_Rejected ''adaptation work offer is malformed'')
     in if \<not> valid_digest (wo_plan_digest f) then malformed
        else try_r (plan_digest env p) (\<lambda>pd.
          if wo_plan_digest f \<noteq> pd \<or> \<not> valid_id (wo_offer_id f) \<or> \<not> valid_id (wo_provider f) \<or> wo_submitted_at f = 0 \<or>
             now < wo_submitted_at f \<or> wo_expires_at f \<le> wo_submitted_at f \<or> pn_valid_until p < wo_expires_at f
          then malformed else Inr ()))"

datatype plan_disposition = PD_Candidate adaptation_plan | PD_NoCandidate string

text \<open>The order of the proposals: highest priority first, then the digests.\<close>

definition candidate_key :: "adaptation_candidate \<Rightarrow> nat \<times> string \<times> string" where
  "candidate_key c = (2 ^ 64 - unat (ac_priority c), cu_base_digest (ac_candidate c), cu_candidate_digest (ac_candidate c))"

definition select_plan :: "crypto \<Rightarrow> adaptation_candidate list \<Rightarrow> u64 \<Rightarrow> plan_disposition result" where
  "select_plan env cs now =
     (if cs = [] then Inr (PD_NoCandidate ''no adaptation proposals supplied'')
      else try_r (check_all adaptation_candidate_validate cs) (\<lambda>_.
        case sort_key candidate_key (filter (\<lambda>c. usable_at (ac_evidence c) now) cs) of
          [] \<Rightarrow> Inr (PD_NoCandidate ''evidence is inconclusive or expired'')
        | c # _ \<Rightarrow> try_r (plan_from_candidate env c) (\<lambda>p. Inr (PD_Candidate p))))"

fun eligible_work ::
  "crypto \<Rightarrow> adaptation_plan \<Rightarrow> u64 \<Rightarrow> string bset \<Rightarrow> work_offer list \<Rightarrow> work_offer list \<Rightarrow> work_offer list result" where
  "eligible_work env p now ids acc [] = Inr acc"
| "eligible_work env p now ids acc (f # fs) = try_r (work_offer_validate env f p now) (\<lambda>_.
     if now < wo_expires_at f
     then if bs_contains ids (wo_offer_id f)
          then Inl (Err_Quarantined ''duplicate eligible adaptation offer identity'')
          else eligible_work env p now (bs_insert (wo_offer_id f) ids) (acc @ [f]) fs
     else eligible_work env p now ids acc fs)"

definition work_key :: "work_offer \<Rightarrow> u64 \<times> string \<times> string" where
  "work_key f = (wo_price f, wo_provider f, wo_offer_id f)"

definition select_work_offer :: "crypto \<Rightarrow> adaptation_plan \<Rightarrow> work_offer list \<Rightarrow> u64 \<Rightarrow> work_offer result" where
  "select_work_offer env p offers now =
     try_r (eligible_work env p now [] [] offers) (\<lambda>eligible.
     case sort_key work_key eligible of
       [] \<Rightarrow> Inl (Err_Quarantined ''no eligible adaptation work offer'')
     | f # _ \<Rightarrow> Inr f)"

section \<open>What planning guarantees\<close>

lemma plan_from_candidate_ok:
  assumes "sha256_len env" and "adaptation_candidate_validate c = Inr ()"
  shows "\<exists>p. plan_from_candidate env c = Inr p \<and> plan_validate env p = Inr () \<and> pn_candidate_digest p = digest env (json_adaptation_candidate c) \<and>
    pn_base_digest p = cu_base_digest (ac_candidate c) \<and> pn_evidence_digest p = cu_evidence_digest (ac_candidate c) \<and>
    pn_valid_until p = ea_valid_until (ac_evidence c) \<and> \<not> pn_execution_authorized p"
proof -
  have d: "valid_digest (plan_id_of env x)" "valid_digest (digest env j)" for x j using assms(1) by (simp_all add: plan_id_of_def)
  then have i: "valid_id (plan_id_of env x)" for x
    using valid_digest_nonempty valid_digest_no_control by (auto simp: valid_id_def valid_digest_def)
  have "ea_valid_until (ac_evidence c) \<noteq> 0" if "anchor_validate (ac_evidence c) = Inr ()"
    using that by (auto simp: anchor_validate_def split: if_splits)
  then show ?thesis
    using assms(2) d i
    by (auto simp: plan_from_candidate_def adaptation_candidate_digest_def adaptation_candidate_validate_def plan_validate_def Let_def
        try_r_eq_Inr candidate_validate_def anchor_validate_def split: if_splits)
qed

text \<open>
  Plan selection is exact: when every proposal is valid, \<open>select_plan\<close> never fails; it answers \<open>NoCandidate\<close> exactly when no proposal has local evidence
  that is current, and otherwise the plan of a usable proposal of the highest priority, the least in the digest order among those; the plan
  validates, names the proposal by its digest, and authorizes no execution.
\<close>

theorem select_plan_exact:
  assumes "sha256_len env" and "\<forall>c\<in>set cs. adaptation_candidate_validate c = Inr ()"
  shows "(case select_plan env cs now of
       Inl e \<Rightarrow> False
     | Inr (PD_NoCandidate m) \<Rightarrow> \<forall>c\<in>set cs. \<not> usable_at (ac_evidence c) now
     | Inr (PD_Candidate p) \<Rightarrow> plan_validate env p = Inr () \<and> \<not> pn_execution_authorized p \<and> now < pn_valid_until p \<and>
         (\<exists>c\<in>set cs. usable_at (ac_evidence c) now \<and> pn_candidate_digest p = digest env (json_adaptation_candidate c) \<and>
            pn_base_digest p = cu_base_digest (ac_candidate c) \<and> pn_evidence_digest p = cu_evidence_digest (ac_candidate c) \<and>
            (\<forall>c'\<in>set cs. usable_at (ac_evidence c') now \<longrightarrow> ac_priority c' < ac_priority c \<or>
               ac_priority c' = ac_priority c \<and>
               (cu_base_digest (ac_candidate c), cu_candidate_digest (ac_candidate c)) \<le>
                 (cu_base_digest (ac_candidate c'), cu_candidate_digest (ac_candidate c')))))"
proof (cases "sort_key candidate_key (filter (\<lambda>c. usable_at (ac_evidence c) now) cs)")
  case Nil
  then have "filter (\<lambda>c. usable_at (ac_evidence c) now) cs = []" by (metis length_sort length_0_conv)
  then have "\<forall>c\<in>set cs. \<not> usable_at (ac_evidence c) now" by (simp add: filter_empty_conv)
  then show ?thesis using Nil assms(2) by (auto simp: select_plan_def check_all_ok [THEN iffD2])
next
  case (Cons c rest)
  have c: "c \<in> set cs" "usable_at (ac_evidence c) now"
    and least: "\<forall>c'\<in>set cs. usable_at (ac_evidence c') now \<longrightarrow> candidate_key c \<le> candidate_key c'"
    using sort_key_head [OF Cons] by auto
  obtain p where p: "plan_from_candidate env c = Inr p" "plan_validate env p = Inr ()" "pn_candidate_digest p = digest env (json_adaptation_candidate c)"
    "pn_base_digest p = cu_base_digest (ac_candidate c)" "pn_evidence_digest p = cu_evidence_digest (ac_candidate c)"
    "pn_valid_until p = ea_valid_until (ac_evidence c)" "\<not> pn_execution_authorized p"
    using plan_from_candidate_ok [OF assms(1)] assms(2) c(1) by blast
  have sel: "select_plan env cs now = Inr (PD_Candidate p)"
    using Cons assms(2) c(1) p(1) by (auto simp: select_plan_def check_all_ok [THEN iffD2])
  have "ac_priority c' < ac_priority c \<or> ac_priority c' = ac_priority c \<and>
      (cu_base_digest (ac_candidate c), cu_candidate_digest (ac_candidate c)) \<le> (cu_base_digest (ac_candidate c'), cu_candidate_digest (ac_candidate c'))"
    if "candidate_key c \<le> candidate_key c'" for c'
  proof -
    have "unat w < 2 ^ LENGTH(64)" for w :: u64 by (rule unsigned_less)
    from this [of "ac_priority c"] this [of "ac_priority c'"]
    have "unat (ac_priority c) < 2 ^ 64" "unat (ac_priority c') < 2 ^ 64" by simp_all
    then show ?thesis using that by (auto simp: candidate_key_def word_less_nat_alt word_unat_eq_iff)
  qed
  then show ?thesis using sel p c least by (auto simp: usable_at_def)
qed

text \<open>
  A plan is staged for its own candidate only: when \<open>stage_shadow\<close> succeeds with the plan of a candidate, the registry has gained exactly one record, in shadow
  state, of that candidate or of one whose encoding collides with it; otherwise the registry is unchanged.
\<close>

lemma json_adaptation_candidate_inject:
  assumes "json_adaptation_candidate c = json_adaptation_candidate c'"
  shows "c = c'"
proof -
  have "evidence_status_name s = evidence_status_name t \<longleftrightarrow> s = t" for s t by (cases s; cases t) simp_all
  then have a: "json_anchor x = json_anchor y \<longleftrightarrow> x = y" for x y by (cases x, cases y) (auto simp: json_anchor_def)
  have u: "json_candidate x = json_candidate y \<longleftrightarrow> x = y" for x y by (cases x, cases y) (auto simp: json_candidate_def)
  show ?thesis using assms a u by (cases c, cases c') (simp add: json_adaptation_candidate_def)
qed

lemma plan_from_candidate_digest:
  assumes "plan_from_candidate env c = Inr p"
  shows "pn_candidate_digest p = digest env (json_adaptation_candidate c)"
  using assms by (auto simp: plan_from_candidate_def adaptation_candidate_digest_def Let_def try_r_eq_Inr)

theorem staged_candidate_is_planned:
  assumes "release_inv env rr" and "plan_from_candidate env c0 = Inr p" and "stage_shadow env p c rr = (res, rr')"
  shows "(case res of Inl e \<Rightarrow> rr' = rr
     | Inr _ \<Rightarrow> (c = c0 \<or> collision env (json_adaptation_candidate c) (json_adaptation_candidate c0)) \<and> release_validate env rr' = Inr () \<and>
         bt_get (rr_records rr) (cu_candidate_id (ac_candidate c)) = None \<and>
         rr_records rr' = bt_insert (cu_candidate_id (ac_candidate c)) (ac_candidate c, RS_Shadow) (rr_records rr))"
proof -
  consider (refused) e where "res = Inl e" "rr' = rr"
    | (proposed) "release_propose env rr (ac_candidate c) = (res, rr')" "digest env (json_adaptation_candidate c) = pn_candidate_digest p"
  proof (cases "try_r (plan_validate env p) (\<lambda>_. try_r (adaptation_candidate_validate c) (\<lambda>_. try_r (adaptation_candidate_digest env c) (\<lambda>cd.
      if cd \<noteq> pn_candidate_digest p then Inl (Err_Rejected ''shadow candidate does not match adaptation plan'') else Inr ())))")
    case (Inl e)
    then have "res = Inl e" "rr' = rr" using assms(3) by (auto simp: stage_shadow_def)
    then show thesis by (rule refused)
  next
    case (Inr u)
    then have "digest env (json_adaptation_candidate c) = pn_candidate_digest p"
      by (auto simp: try_r_eq_Inr adaptation_candidate_digest_def split: if_splits)
    then show thesis using Inr assms(3) proposed by (simp add: stage_shadow_def)
  qed
  then show ?thesis
  proof cases
    case proposed
    have "digest env (json_adaptation_candidate c) = digest env (json_adaptation_candidate c0)"
      using proposed(2) plan_from_candidate_digest [OF assms(2)] by simp
    then have same: "c = c0 \<or> collision env (json_adaptation_candidate c) (json_adaptation_candidate c0)"
      using digest_eq_cases json_adaptation_candidate_inject by blast
    from assms(1) show ?thesis
      by (cases rule: release_propose_cases [where c = "ac_candidate c"]) (use proposed(1) same release_inv_validate in auto)
  qed simp
qed

lemma eligible_work_Inr:
  "eligible_work env p now ids acc fs = Inr out \<longleftrightarrow>
     (\<forall>f\<in>set fs. work_offer_validate env f p now = Inr ()) \<and>
     out = acc @ filter (\<lambda>f. now < wo_expires_at f) fs \<and>
     distinct (map wo_offer_id (filter (\<lambda>f. now < wo_expires_at f) fs)) \<and>
     set (map wo_offer_id (filter (\<lambda>f. now < wo_expires_at f) fs)) \<inter> set ids = {}"
  by (induction fs arbitrary: ids acc) (auto simp: try_r_eq_Inr bs_contains_def split: if_splits)

text \<open>
  The work offer that is selected is the cheapest: \<open>select_work_offer\<close> succeeds exactly if every offer is valid for the plan, the open offers have different
  ids and there is an open one; then it answers the open offer that is least by price, provider and id.
\<close>

theorem select_work_offer_exact:
  "(is_ok (select_work_offer env p offers now) \<longleftrightarrow>
     (\<forall>f\<in>set offers. work_offer_validate env f p now = Inr ()) \<and>
     distinct (map wo_offer_id (filter (\<lambda>f. now < wo_expires_at f) offers)) \<and> (\<exists>f\<in>set offers. now < wo_expires_at f)) \<and>
   (\<forall>f. select_work_offer env p offers now = Inr f \<longrightarrow> f \<in> set offers \<and> now < wo_expires_at f \<and>
     (\<forall>f'\<in>set offers. now < wo_expires_at f' \<longrightarrow> (wo_price f, wo_provider f, wo_offer_id f) \<le> (wo_price f', wo_provider f', wo_offer_id f')))"
proof -
  let ?el = "filter (\<lambda>f. now < wo_expires_at f) offers"
  have sel: "select_work_offer env p offers now = Inr f \<longleftrightarrow>
      (\<forall>f\<in>set offers. work_offer_validate env f p now = Inr ()) \<and> distinct (map wo_offer_id ?el) \<and>
      (\<exists>ys. sort_key work_key ?el = f # ys)" for f
    by (auto simp: select_work_offer_def try_r_eq_Inr eligible_work_Inr split: list.splits)
  have "(\<exists>f ys. sort_key work_key ?el = f # ys) \<longleftrightarrow> (\<exists>f\<in>set offers. now < wo_expires_at f)"
    by (metis (no_types, lifting) filter_empty_conv list.exhaust list.distinct(1) set_empty set_sort)
  then have "is_ok (select_work_offer env p offers now) \<longleftrightarrow>
     (\<forall>f\<in>set offers. work_offer_validate env f p now = Inr ()) \<and> distinct (map wo_offer_id ?el) \<and> (\<exists>f\<in>set offers. now < wo_expires_at f)"
    unfolding is_ok_iff sel by blast
  moreover have "f \<in> set offers \<and> now < wo_expires_at f \<and>
     (\<forall>f'\<in>set offers. now < wo_expires_at f' \<longrightarrow> (wo_price f, wo_provider f, wo_offer_id f) \<le> (wo_price f', wo_provider f', wo_offer_id f'))"
    if picked: "select_work_offer env p offers now = Inr f" for f
  proof -
    obtain ys where ys: "sort_key work_key ?el = f # ys" using picked unfolding sel by blast
    have "f \<in> set ?el" "\<forall>g\<in>set ?el. work_key f \<le> work_key g" using sort_key_head [OF ys] by blast+
    then show ?thesis by (simp add: work_key_def)
  qed
  ultimately show ?thesis by blast
qed

section \<open>Concrete inputs\<close>

definition demo_anchor :: "char \<Rightarrow> evidence_anchor" where
  "demo_anchor c = \<lparr>ea_evidence_digest = digits c, ea_source_digest = digits c, ea_base_digest = digits CHR ''a'',
     ea_claim_ceiling = EXPLORATORY_CLAIM_CEILING, ea_status = ES_LocalOnly, ea_observed_at = 1, ea_valid_until = 9\<rparr>"

definition demo_proposal_for :: "char \<Rightarrow> u64 \<Rightarrow> adaptation_candidate" where
  "demo_proposal_for c n = \<lparr>ac_candidate = \<lparr>cu_candidate_id = [c], cu_base_digest = digits CHR ''a'', cu_candidate_digest = digits CHR ''b'',
       cu_rollback_digest = digits CHR ''a'', cu_evidence_digest = digits c\<rparr>, ac_evidence = demo_anchor c, ac_priority = n,
     ac_execution_authorized = False\<rparr>"

lemma demo_proposal_valid:
  "adaptation_candidate_validate (demo_proposal_for CHR ''1'' n) = Inr ()" "adaptation_candidate_validate (demo_proposal_for CHR ''2'' n) = Inr ()"
  by (simp_all add: adaptation_candidate_validate_def demo_proposal_for_def candidate_validate_def anchor_validate_def demo_anchor_def hex_simps
      word_le_nat_alt)

theorem select_plan_exact_witness:
  "\<exists>p. select_plan demo_env [demo_proposal_for CHR ''1'' 3, demo_proposal_for CHR ''2'' 7] 5 = Inr (PD_Candidate p) \<and>
     pn_evidence_digest p = digits CHR ''2''"
proof -
  let ?cs = "[demo_proposal_for CHR ''1'' 3, demo_proposal_for CHR ''2'' 7]"
  have u: "usable_at (ac_evidence (demo_proposal_for CHR ''2'' 7)) 5"
    by (simp add: usable_at_def demo_proposal_for_def anchor_validate_def demo_anchor_def hex_simps word_le_nat_alt word_less_nat_alt)
  have ex: "case select_plan demo_env ?cs 5 of
       Inl e \<Rightarrow> False
     | Inr (PD_NoCandidate m) \<Rightarrow> \<forall>c\<in>set ?cs. \<not> usable_at (ac_evidence c) 5
     | Inr (PD_Candidate p) \<Rightarrow> plan_validate demo_env p = Inr () \<and> \<not> pn_execution_authorized p \<and> 5 < pn_valid_until p \<and>
         (\<exists>c\<in>set ?cs. usable_at (ac_evidence c) 5 \<and> pn_candidate_digest p = digest demo_env (json_adaptation_candidate c) \<and>
            pn_base_digest p = cu_base_digest (ac_candidate c) \<and> pn_evidence_digest p = cu_evidence_digest (ac_candidate c) \<and>
            (\<forall>c'\<in>set ?cs. usable_at (ac_evidence c') 5 \<longrightarrow> ac_priority c' < ac_priority c \<or>
               ac_priority c' = ac_priority c \<and>
               (cu_base_digest (ac_candidate c), cu_candidate_digest (ac_candidate c)) \<le>
                 (cu_base_digest (ac_candidate c'), cu_candidate_digest (ac_candidate c'))))"
    by (rule select_plan_exact) (simp_all add: demo_proposal_valid)
  have f: "ac_priority (demo_proposal_for c n) = n" "cu_evidence_digest (ac_candidate (demo_proposal_for c n)) = digits c" for c n
    by (simp_all add: demo_proposal_for_def)
  show ?thesis using ex u by (auto simp: f word_less_nat_alt split: sum.splits plan_disposition.splits)
qed

theorem staged_candidate_is_planned_witness:
  "\<exists>p rr'. plan_from_candidate demo_env (demo_proposal_for CHR ''1'' 3) = Inr p \<and>
     stage_shadow demo_env p (demo_proposal_for CHR ''1'' 3) release_default = (Inr (), rr') \<and>
     bt_get (rr_records rr') [CHR ''1''] = Some (ac_candidate (demo_proposal_for CHR ''1'' 3), RS_Shadow)"
proof -
  let ?c = "demo_proposal_for CHR ''1'' 3"
  obtain p where p: "plan_from_candidate demo_env ?c = Inr p" "plan_validate demo_env p = Inr ()"
    "pn_candidate_digest p = digest demo_env (json_adaptation_candidate ?c)"
    using plan_from_candidate_ok [OF demo_sha256_len demo_proposal_valid(1)] by blast
  obtain res rr' where s: "stage_shadow demo_env p ?c release_default = (res, rr')" by fastforce
  have v: "candidate_validate (ac_candidate ?c) = Inr ()" using demo_proposal_valid(1) by (auto simp: adaptation_candidate_validate_def try_r_eq_Inr)
  have "fst (release_propose demo_env release_default (ac_candidate ?c)) = Inr ()"
    using v by (simp add: release_propose_def release_default_def Let_def release_validate_def release_record_validate_def demo_proposal_for_def
        bt_contains_def first_packet_check_def)
  then have ok: "res = Inr ()"
    using s p demo_proposal_valid(1) [of 3] by (simp add: stage_shadow_def adaptation_candidate_digest_def)
  show ?thesis
    using staged_candidate_is_planned [OF release_default_inv [OF demo_sha256_len] p(1) s] ok s p(1) by (auto simp: demo_proposal_for_def)
qed

end
