(* ===== verification/Execution_Gate.thy ===== *)
theory Execution_Gate
  imports Sealed
begin

text \<open>
  The external-execution boundary: the gate of src/execution_gate.rs and the adapter contracts of src/adapters.rs.  Both describe what an executor would have
  to prove and never let one run.
\<close>

section \<open>The execution gate\<close>

record sandbox_attestation =
  sa_attestation_id :: string
  sa_executor_digest :: string
  sa_egress_denied :: bool
  sa_secret_broker :: bool
  sa_independent_kill_path :: bool
  sa_memory_bytes :: u64
  sa_cpu_ms :: u64
  sa_issued_at :: u64
  sa_expires_at :: u64

definition attestation_validate :: "sandbox_attestation \<Rightarrow> u64 \<Rightarrow> unit result" where
  "attestation_validate a now =
     (if blank (sa_attestation_id a) \<or> \<not> valid_digest (sa_executor_digest a) \<or> \<not> sa_egress_denied a \<or> \<not> sa_secret_broker a \<or>
         \<not> sa_independent_kill_path a \<or> sa_memory_bytes a = 0 \<or> sa_cpu_ms a = 0 \<or> sa_expires_at a \<le> sa_issued_at a \<or>
         now < sa_issued_at a \<or> sa_expires_at a \<le> now
      then Inl (Err_Rejected ''sandbox attestation is incomplete or expired'') else Inr ())"

record external_execution_request =
  xr_request_id :: string
  xr_program_digest :: string
  xr_input_digest :: string
  xr_output_schema_digest :: string
  xr_proof_system :: string
  xr_privacy_requirement :: string
  xr_requested_at :: u64
  xr_deadline :: u64
  xr_max_price :: u64

definition external_request_validate :: "external_execution_request \<Rightarrow> u64 \<Rightarrow> unit result" where
  "external_request_validate q now =
     (if blank (xr_request_id q) \<or> \<not> valid_digest (xr_program_digest q) \<or> \<not> valid_digest (xr_input_digest q) \<or>
         \<not> valid_digest (xr_output_schema_digest q) \<or> blank (xr_proof_system q) \<or> blank (xr_privacy_requirement q) \<or>
         xr_deadline q \<le> xr_requested_at q \<or> now < xr_requested_at q \<or> xr_deadline q \<le> now
      then Inl (Err_Rejected ''external execution request is incomplete or expired'') else Inr ())"

datatype gate_disposition = GD_Blocked | GD_Authorized

record gate_decision =
  gd_disposition :: gate_disposition
  gd_reason :: string

record execution_gate =
  eg_external_authorization_enabled :: bool

definition execution_gate_new :: execution_gate where
  "execution_gate_new = \<lparr>eg_external_authorization_enabled = False\<rparr>"

definition gate_authorize ::
  "execution_gate \<Rightarrow> sandbox_attestation \<Rightarrow> external_execution_request \<Rightarrow> u64 \<Rightarrow> gate_decision result" where
  "gate_authorize gt a q now =
     try_r (attestation_validate a now) (\<lambda>_.
     try_r (external_request_validate q now) (\<lambda>_.
     if eg_external_authorization_enabled gt
     then Inl (Err_Rejected ''external authorization is not available in foundation slice'')
     else Inr \<lparr>gd_disposition = GD_Blocked, gd_reason = ''external execution is closed in foundation slice''\<rparr>))"

section \<open>Adapter contracts\<close>

record sandbox_profile =
  sf_profile_id :: string
  sf_executor_digest :: string
  sf_egress_denied :: bool
  sf_secret_broker_required :: bool
  sf_independent_kill_path :: bool
  sf_memory_bytes :: u64
  sf_cpu_ms :: u64

definition profile_validate :: "sandbox_profile \<Rightarrow> unit result" where
  "profile_validate p =
     (if sf_profile_id p = [] \<or> \<not> valid_digest (sf_executor_digest p) \<or> \<not> sf_egress_denied p \<or> \<not> sf_secret_broker_required p \<or>
         \<not> sf_independent_kill_path p \<or> sf_memory_bytes p = 0 \<or> sf_cpu_ms p = 0
      then Inl (Err_Invalid ''sandbox profile does not satisfy the fail-closed boundary'') else Inr ())"

record tool_invocation =
  ti_invocation_id :: string
  ti_tool_id :: string
  ti_manifest_digest :: string
  ti_capability_token_id :: string
  ti_input_digest :: string
  ti_consent_grant_id :: string
  ti_created_at :: u64

definition invocation_validate :: "tool_invocation \<Rightarrow> unit result" where
  "invocation_validate i =
     (if ti_invocation_id i = [] \<or> ti_tool_id i = [] \<or> ti_capability_token_id i = [] \<or> ti_consent_grant_id i = [] \<or>
         \<not> valid_digest (ti_manifest_digest i) \<or> \<not> valid_digest (ti_input_digest i)
      then Inl (Err_Invalid ''tool invocation binding is incomplete'') else Inr ())"

record adapter_plan =
  ap_sandbox :: sandbox_profile
  ap_invocation :: tool_invocation
  ap_external_execution_authorized :: bool

definition adapter_plan_validate :: "adapter_plan \<Rightarrow> unit result" where
  "adapter_plan_validate p =
     try_r (profile_validate (ap_sandbox p)) (\<lambda>_.
     try_r (invocation_validate (ap_invocation p)) (\<lambda>_.
     if ap_external_execution_authorized p then Inl (Err_Rejected ''foundation slice cannot authorize external execution'') else Inr ()))"

text \<open>
  The gate is closed: no gate, whatever its flag, answers \<open>Authorized\<close>; it answers \<open>Blocked\<close> exactly for an attestation and a request that are complete and
  current, with every control claimed, while its flag is off, and an error otherwise.
\<close>

theorem gate_never_authorizes:
  "(\<forall>d. gate_authorize gt a q now = Inr d \<longrightarrow> gd_disposition d = GD_Blocked) \<and>
   (is_ok (gate_authorize gt a q now) \<longleftrightarrow>
      \<not> eg_external_authorization_enabled gt \<and> attestation_validate a now = Inr () \<and> external_request_validate q now = Inr ()) \<and>
   (is_ok (gate_authorize gt a q now) \<longrightarrow>
      sa_egress_denied a \<and> sa_secret_broker a \<and> sa_independent_kill_path a \<and> sa_issued_at a \<le> now \<and> now < sa_expires_at a \<and>
      xr_requested_at q \<le> now \<and> now < xr_deadline q)"
  by (auto simp: gate_authorize_def is_ok_iff try_r_eq_Inr attestation_validate_def external_request_validate_def not_less not_le split: if_splits)

definition demo_attestation :: sandbox_attestation where
  "demo_attestation = \<lparr>sa_attestation_id = ''a'', sa_executor_digest = zero_digest, sa_egress_denied = True, sa_secret_broker = True,
     sa_independent_kill_path = True, sa_memory_bytes = 1, sa_cpu_ms = 1, sa_issued_at = 0, sa_expires_at = 100\<rparr>"

definition demo_external_request :: external_execution_request where
  "demo_external_request = \<lparr>xr_request_id = ''q'', xr_program_digest = zero_digest, xr_input_digest = zero_digest,
     xr_output_schema_digest = zero_digest, xr_proof_system = ''p'', xr_privacy_requirement = ''n'', xr_requested_at = 0, xr_deadline = 100,
     xr_max_price = 0\<rparr>"

lemma not_blank_letter: "of_char c > (32 :: nat) \<Longrightarrow> of_char c < (128 :: nat) \<Longrightarrow> \<not> blank [c]"
  by (simp add: blank_def blank_bytes.simps)

theorem gate_never_authorizes_witness:
  "\<exists>d. gate_authorize execution_gate_new demo_attestation demo_external_request 10 = Inr d \<and> gd_disposition d = GD_Blocked"
proof -
  have "attestation_validate demo_attestation 10 = Inr ()" "external_request_validate demo_external_request 10 = Inr ()"
    by (simp_all add: attestation_validate_def external_request_validate_def demo_attestation_def demo_external_request_def
        not_blank_letter word_less_nat_alt word_le_nat_alt)
  then have "is_ok (gate_authorize execution_gate_new demo_attestation demo_external_request 10)"
    using gate_never_authorizes [of execution_gate_new demo_attestation demo_external_request 10] by (simp add: execution_gate_new_def)
  then show ?thesis
    using gate_never_authorizes [of execution_gate_new demo_attestation demo_external_request 10] by (auto simp: is_ok_iff)
qed

end
