(* ===== verification/Maintenance.thy ===== *)
theory Maintenance
  imports Custody Sealed
begin

text \<open>
  The bounded, reversible maintenance workflow of src/maintenance.rs: a one-file patch proposal, its evaluation against a frozen roster of tests, an
  independent acceptance, and the coordinator that applies it through an executor and rolls it back when the result is not the one proposed.  The executor is a
  trait in the code: here it is a pair of functions on its state, and \<open>apply\<close> takes them as arguments.  Its in-memory implementation is modelled too.
\<close>

section \<open>Requirements, proposals, evaluations\<close>

definition MAX_PATH_BYTES :: nat where
  "MAX_PATH_BYTES = 256"

definition MAX_PATCH_BYTES :: nat where
  "MAX_PATCH_BYTES = 1048576"

definition MAX_TESTS :: nat where
  "MAX_TESTS = 64"

definition REQUIRED_ADVERSARIAL_TESTS :: "string list" where
  "REQUIRED_ADVERSARIAL_TESTS = [''evidence-substitution'', ''evidence-expiry'', ''path-escape'', ''failed-postcheck-rollback'']"

definition maintenance_text :: "string \<Rightarrow> bool" where
  "maintenance_text value = text_within MAX_PATH_BYTES value"

definition maintenance_id :: "string \<Rightarrow> bool" where
  "maintenance_id value = text_within MAX_PATH_BYTES value"

text \<open>\<open>Path::components\<close> on Unix: empty and inner \<open>.\<close> components are dropped, a leading \<open>.\<close> is kept.\<close>

fun split_slash :: "string \<Rightarrow> string list" where
  "split_slash [] = [[]]"
| "split_slash (c # s) =
     (if c = CHR ''/'' then [] # split_slash s
      else case split_slash s of [] \<Rightarrow> [[c]] | w # ws \<Rightarrow> (c # w) # ws)"

definition component_of :: "bool \<Rightarrow> string \<Rightarrow> path_component list" where
  "component_of leading w =
     (if w = [] then [] else if w = ''.'' then (if leading then [PC_CurDir] else [])
      else if w = ''..'' then [PC_ParentDir] else [PC_Normal w])"

definition path_components :: "string \<Rightarrow> path_component list" where
  "path_components s =
     (case split_slash s of
        [] \<Rightarrow> []
      | w # ws \<Rightarrow> (if w = [] \<and> ws \<noteq> [] then [PC_RootDir] else component_of True w) @ concat (map (component_of False) ws))"

definition safe_relative_path :: "string \<Rightarrow> bool" where
  "safe_relative_path value \<longleftrightarrow> maintenance_text value \<and> CHR 0x5C \<notin> set value \<and> CHR '':'' \<notin> set value \<and>
     list_all is_normal (path_components value)"

definition validate_digest_fields :: "string list \<Rightarrow> unit result" where
  "validate_digest_fields ds =
     (if list_ex (\<lambda>d. \<not> valid_digest d) ds then Inl (Err_Invalid ''maintenance digest is malformed'') else Inr ())"

record maintenance_requirements =
  mq_evaluator_executable_digest :: string
  mq_evaluator_input_digest :: string
  mq_evaluator_tests_digest :: string
  mq_policy_digest :: string
  mq_required_test_ids :: "string list"

fun roster_ids :: "string bset \<Rightarrow> string list \<Rightarrow> string bset result" where
  "roster_ids ids [] = Inr ids"
| "roster_ids ids (t # ts) =
     (if \<not> maintenance_id t \<or> bs_contains ids t
      then Inl (Err_Invalid ''maintenance evaluator test requirement is malformed or duplicated'')
      else roster_ids (bs_insert t ids) ts)"

definition requirements_validate :: "maintenance_requirements \<Rightarrow> unit result" where
  "requirements_validate q =
     try_r (validate_digest_fields [mq_evaluator_executable_digest q, mq_evaluator_input_digest q, mq_evaluator_tests_digest q,
              mq_policy_digest q]) (\<lambda>_.
     if mq_required_test_ids q = [] \<or> MAX_TESTS < length (mq_required_test_ids q)
     then Inl (Err_Invalid ''maintenance evaluator test requirements are empty or too large'')
     else try_r (roster_ids [] (mq_required_test_ids q)) (\<lambda>ids.
       if list_ex (\<lambda>t. \<not> bs_contains ids t) REQUIRED_ADVERSARIAL_TESTS
       then Inl (Err_Invalid ''required adversarial maintenance tests are missing'') else Inr ()))"

record maintenance_test_result =
  mt_test_id :: string
  mt_passed :: bool

definition test_result_validate :: "maintenance_test_result \<Rightarrow> unit result" where
  "test_result_validate t =
     (if \<not> maintenance_id (mt_test_id t) then Inl (Err_Invalid ''maintenance test result ID is invalid'') else Inr ())"

record maintenance_proposal =
  mp_patch_id :: string
  mp_proposer_role :: string
  mp_relative_path :: string
  mp_before_bytes :: "u8 list"
  mp_before_digest :: string
  mp_after_bytes :: "u8 list"
  mp_after_digest :: string
  mp_requirements :: maintenance_requirements
  mp_proposed_at :: u64
  mp_expires_at :: u64

definition json_bytes :: "u8 list \<Rightarrow> json" where
  "json_bytes bs = json_list json_word bs"

definition json_requirements :: "maintenance_requirements \<Rightarrow> json" where
  "json_requirements q = JObj
    [(''evaluator_executable_digest'', JStr (mq_evaluator_executable_digest q)),
     (''evaluator_input_digest'', JStr (mq_evaluator_input_digest q)),
     (''evaluator_tests_digest'', JStr (mq_evaluator_tests_digest q)), (''policy_digest'', JStr (mq_policy_digest q)),
     (''required_test_ids'', json_list JStr (mq_required_test_ids q))]"

definition json_maintenance_proposal :: "maintenance_proposal \<Rightarrow> json" where
  "json_maintenance_proposal p = JObj
    [(''patch_id'', JStr (mp_patch_id p)), (''proposer_role'', JStr (mp_proposer_role p)), (''relative_path'', JStr (mp_relative_path p)),
     (''before_bytes'', json_bytes (mp_before_bytes p)), (''before_digest'', JStr (mp_before_digest p)),
     (''after_bytes'', json_bytes (mp_after_bytes p)), (''after_digest'', JStr (mp_after_digest p)),
     (''requirements'', json_requirements (mp_requirements p)), (''proposed_at'', json_word (mp_proposed_at p)),
     (''expires_at'', json_word (mp_expires_at p))]"

definition maintenance_proposal_validate :: "crypto \<Rightarrow> maintenance_proposal \<Rightarrow> u64 \<Rightarrow> unit result" where
  "maintenance_proposal_validate env p now =
     (if \<not> maintenance_id (mp_patch_id p) \<or> \<not> maintenance_id (mp_proposer_role p) \<or> \<not> safe_relative_path (mp_relative_path p) \<or>
         MAX_PATCH_BYTES < length (mp_before_bytes p) \<or> MAX_PATCH_BYTES < length (mp_after_bytes p) \<or>
         mp_before_bytes p = mp_after_bytes p \<or> now < mp_proposed_at p \<or> mp_expires_at p \<le> mp_proposed_at p \<or> mp_expires_at p \<le> now
      then Inl (Err_Invalid ''maintenance patch proposal is invalid'')
      else try_r (validate_digest_fields [mp_before_digest p, mp_after_digest p]) (\<lambda>_.
        if mp_before_digest p \<noteq> digest_bytes env (mp_before_bytes p) \<or> mp_after_digest p \<noteq> digest_bytes env (mp_after_bytes p)
        then Inl (Err_Invalid ''maintenance patch byte digest does not match bytes'')
        else requirements_validate (mp_requirements p)))"

definition maintenance_proposal_digest :: "crypto \<Rightarrow> maintenance_proposal \<Rightarrow> string" where
  "maintenance_proposal_digest env p = digest env (json_maintenance_proposal p)"

record maintenance_evaluation =
  me_evaluation_id :: string
  me_evaluator_role :: string
  me_proposal_digest :: string
  me_requirements :: maintenance_requirements
  me_test_results :: "maintenance_test_result list"
  me_accepted :: bool
  me_evaluated_at :: u64
  me_expires_at :: u64

definition json_test_result :: "maintenance_test_result \<Rightarrow> json" where
  "json_test_result t = JObj [(''test_id'', JStr (mt_test_id t)), (''passed'', JBool (mt_passed t))]"

definition json_evaluation :: "maintenance_evaluation \<Rightarrow> json" where
  "json_evaluation e = JObj
    [(''evaluation_id'', JStr (me_evaluation_id e)), (''evaluator_role'', JStr (me_evaluator_role e)),
     (''proposal_digest'', JStr (me_proposal_digest e)), (''requirements'', json_requirements (me_requirements e)),
     (''test_results'', json_list json_test_result (me_test_results e)), (''accepted'', JBool (me_accepted e)),
     (''evaluated_at'', json_word (me_evaluated_at e)), (''expires_at'', json_word (me_expires_at e))]"

text \<open>The loop over the test results, with the ids seen so far.\<close>

fun observe_results :: "string bset \<Rightarrow> string bset \<Rightarrow> maintenance_test_result list \<Rightarrow> string bset result" where
  "observe_results required seen [] = Inr seen"
| "observe_results required seen (t # ts) =
     try_r (test_result_validate t) (\<lambda>_.
     if \<not> bs_contains required (mt_test_id t) \<or> bs_contains seen (mt_test_id t)
     then Inl (Err_Invalid ''maintenance evaluator test result roster does not match requirements'')
     else if \<not> mt_passed t then Inl (Err_Invalid ''required maintenance evaluator test failed'')
     else observe_results required (bs_insert (mt_test_id t) seen) ts)"

definition evaluation_validate_for :: "crypto \<Rightarrow> maintenance_evaluation \<Rightarrow> maintenance_proposal \<Rightarrow> u64 \<Rightarrow> unit result" where
  "evaluation_validate_for env e p now =
     (if \<not> maintenance_id (me_evaluation_id e) \<or> \<not> maintenance_id (me_evaluator_role e) \<or> \<not> valid_digest (me_proposal_digest e) \<or>
         me_evaluator_role e = mp_proposer_role p \<or> now < me_evaluated_at e \<or> me_evaluated_at e < mp_proposed_at p \<or>
         me_expires_at e \<le> me_evaluated_at e \<or> me_expires_at e \<le> now \<or> me_requirements e \<noteq> mp_requirements p \<or>
         me_proposal_digest e \<noteq> maintenance_proposal_digest env p \<or> me_test_results e = [] \<or> MAX_TESTS < length (me_test_results e) \<or>
         \<not> me_accepted e
      then Inl (Err_Invalid ''maintenance evaluation is stale, mismatched, incomplete, or rejected'')
      else let required = bs_from_list (mq_required_test_ids (mp_requirements p))
           in try_r (observe_results required [] (me_test_results e)) (\<lambda>observed.
             if observed \<noteq> required then Inl (Err_Invalid ''maintenance evaluator omitted a required test result'') else Inr ()))"

record maintenance_packet =
  mk_proposal :: maintenance_proposal
  mk_evaluation :: maintenance_evaluation

definition json_maintenance_packet :: "maintenance_packet \<Rightarrow> json" where
  "json_maintenance_packet k = JObj
    [(''proposal'', json_maintenance_proposal (mk_proposal k)), (''evaluation'', json_evaluation (mk_evaluation k))]"

definition maintenance_packet_validate :: "crypto \<Rightarrow> maintenance_packet \<Rightarrow> u64 \<Rightarrow> unit result" where
  "maintenance_packet_validate env k now =
     try_r (maintenance_proposal_validate env (mk_proposal k) now) (\<lambda>_. evaluation_validate_for env (mk_evaluation k) (mk_proposal k) now)"

definition maintenance_packet_digest :: "crypto \<Rightarrow> maintenance_packet \<Rightarrow> string" where
  "maintenance_packet_digest env k = digest env (json_maintenance_packet k)"

record maintenance_acceptance =
  ma_reviewer_role :: string
  ma_complete_packet_digest :: string
  ma_accepted_at :: u64
  ma_expires_at :: u64

definition acceptance_validate_for :: "crypto \<Rightarrow> maintenance_acceptance \<Rightarrow> maintenance_packet \<Rightarrow> u64 \<Rightarrow> unit result" where
  "acceptance_validate_for env a k now =
     (if \<not> maintenance_id (ma_reviewer_role a) \<or> \<not> valid_digest (ma_complete_packet_digest a) \<or> now < ma_accepted_at a \<or>
         ma_expires_at a \<le> ma_accepted_at a \<or> ma_accepted_at a < me_evaluated_at (mk_evaluation k) \<or> ma_expires_at a \<le> now \<or>
         ma_complete_packet_digest a \<noteq> maintenance_packet_digest env k \<or> ma_reviewer_role a = mp_proposer_role (mk_proposal k) \<or>
         ma_reviewer_role a = me_evaluator_role (mk_evaluation k)
      then Inl (Err_Invalid ''maintenance acceptance is stale, mismatched, or role-colliding'') else Inr ())"

section \<open>The executor and the coordinator\<close>

datatype maintenance_status = MS_Applied | MS_Quarantined | MS_RolledBack | MS_Frozen

datatype maintenance_reason =
    MR_MissingAcceptance | MR_InvalidEvidence | MR_ExpiredEvidence | MR_MismatchedEvidence | MR_ReplayedAcceptance | MR_MissingTarget
  | MR_BeforeDigestMismatch | MR_WriteFailed | MR_PostcheckFailed | MR_RollbackFailed

record maintenance_outcome =
  mo_state_slice :: string
  mo_status :: maintenance_status
  mo_reason :: "maintenance_reason option"
  mo_packet_digest :: string
  mo_before_digest :: string
  mo_after_digest :: string

record memory_executor =
  mx_files :: "(string, u8 list) btree"
  mx_fail_writes :: bool
  mx_corrupt_next_write :: bool
  mx_fail_rollback_writes :: bool
  mx_writes :: nat

definition executor_with_file :: "string \<Rightarrow> u8 list \<Rightarrow> memory_executor" where
  "executor_with_file p bytes = \<lparr>mx_files = bt_insert p bytes [], mx_fail_writes = False, mx_corrupt_next_write = False,
     mx_fail_rollback_writes = False, mx_writes = 0\<rparr>"

definition executor_read :: "memory_executor \<Rightarrow> string \<Rightarrow> u8 list result \<times> memory_executor" where
  "executor_read x p = (ok_or (Err_Rejected ''maintenance target is missing'') (bt_get (mx_files x) p), x)"

definition corrupt :: "u8 list \<Rightarrow> u8 list" where
  "corrupt bs = (case bs of [] \<Rightarrow> [1] | b # r \<Rightarrow> xor b 1 # r)"

definition executor_write :: "memory_executor \<Rightarrow> string \<Rightarrow> u8 list \<Rightarrow> unit result \<times> memory_executor" where
  "executor_write x p bytes =
     (if mx_fail_writes x then (Inl (Err_Rejected ''maintenance write failed''), x)
      else if mx_fail_rollback_writes x \<and> 0 < mx_writes x then (Inl (Err_Rejected ''maintenance rollback write failed''), x)
      else let value = (if mx_corrupt_next_write x then corrupt bytes else bytes)
           in (Inr (), x\<lparr>mx_corrupt_next_write := False, mx_files := bt_insert p value (mx_files x), mx_writes := mx_writes x + 1\<rparr>))"

record maintenance_coordinator =
  mc_requirements :: maintenance_requirements
  mc_evaluator_role :: string
  mc_reviewer_role :: string
  mc_consumed_acceptances :: "string bset"
  mc_frozen :: bool

definition coordinator_new :: "maintenance_requirements \<Rightarrow> string \<Rightarrow> string \<Rightarrow> maintenance_coordinator result" where
  "coordinator_new q evaluator reviewer =
     try_r (requirements_validate q) (\<lambda>_.
     if \<not> maintenance_id evaluator \<or> \<not> maintenance_id reviewer \<or> evaluator = reviewer
     then Inl (Err_Invalid ''maintenance coordinator roles are invalid or collide'')
     else Inr \<lparr>mc_requirements = q, mc_evaluator_role = evaluator, mc_reviewer_role = reviewer, mc_consumed_acceptances = [],
               mc_frozen = False\<rparr>)"

text \<open>The checks before the executor is touched: the reason for a quarantine, or the acceptance that passed.\<close>

definition apply_checks ::
  "crypto \<Rightarrow> maintenance_coordinator \<Rightarrow> maintenance_packet \<Rightarrow> maintenance_acceptance option \<Rightarrow> u64 \<Rightarrow>
   maintenance_reason + maintenance_acceptance" where
  "apply_checks env c k acc now =
     (if mp_expires_at (mk_proposal k) \<le> now \<or> me_expires_at (mk_evaluation k) \<le> now then Inl MR_ExpiredEvidence
      else if mp_requirements (mk_proposal k) \<noteq> mc_requirements c \<or> me_requirements (mk_evaluation k) \<noteq> mc_requirements c \<or>
              me_evaluator_role (mk_evaluation k) \<noteq> mc_evaluator_role c \<or>
              (case acc of None \<Rightarrow> False | Some a \<Rightarrow> ma_reviewer_role a \<noteq> mc_reviewer_role c) then Inl MR_MismatchedEvidence
      else if \<not> is_ok (maintenance_packet_validate env k now) then Inl MR_InvalidEvidence
      else case acc of
        None \<Rightarrow> Inl MR_MissingAcceptance
      | Some a \<Rightarrow>
          if bs_contains (mc_consumed_acceptances c) (ma_complete_packet_digest a) then Inl MR_ReplayedAcceptance
          else if ma_expires_at a \<le> now then Inl MR_ExpiredEvidence
          else if \<not> is_ok (acceptance_validate_for env a k now) then Inl MR_MismatchedEvidence
          else Inr a)"

definition write_back ::
  "('x \<Rightarrow> string \<Rightarrow> u8 list result \<times> 'x) \<Rightarrow> ('x \<Rightarrow> string \<Rightarrow> u8 list \<Rightarrow> unit result \<times> 'x) \<Rightarrow> maintenance_proposal \<Rightarrow> 'x \<Rightarrow> bool \<times> 'x" where
  "write_back rd wr p x =
     (case wr x (mp_relative_path p) (mp_before_bytes p) of
        (Inl _, x1) \<Rightarrow> (False, x1)
      | (Inr _, x1) \<Rightarrow> (case rd x1 (mp_relative_path p) of (res, x2) \<Rightarrow> (res = Inr (mp_before_bytes p), x2)))"

definition coordinator_apply ::
  "crypto \<Rightarrow> ('x \<Rightarrow> string \<Rightarrow> u8 list result \<times> 'x) \<Rightarrow> ('x \<Rightarrow> string \<Rightarrow> u8 list \<Rightarrow> unit result \<times> 'x) \<Rightarrow>
   maintenance_coordinator \<Rightarrow> maintenance_packet \<Rightarrow> maintenance_acceptance option \<Rightarrow> 'x \<Rightarrow> u64 \<Rightarrow>
   maintenance_outcome \<times> maintenance_coordinator \<times> 'x" where
  "coordinator_apply env rd wr c k acc x now =
     (let p = mk_proposal k;
          base = (\<lambda>status reason. \<lparr>mo_state_slice = STATE_SLICE, mo_status = status, mo_reason = reason,
                    mo_packet_digest = maintenance_packet_digest env k, mo_before_digest = mp_before_digest p,
                    mo_after_digest = mp_after_digest p\<rparr>)
      in if mc_frozen c then (base MS_Frozen (Some MR_RollbackFailed), c, x)
         else case apply_checks env c k acc now of
           Inl reason \<Rightarrow> (base MS_Quarantined (Some reason), c, x)
         | Inr a \<Rightarrow>
           (case rd x (mp_relative_path p) of
              (Inl _, x1) \<Rightarrow> (base MS_Quarantined (Some MR_MissingTarget), c, x1)
            | (Inr current, x1) \<Rightarrow>
              if current \<noteq> mp_before_bytes p \<or> digest_bytes env current \<noteq> mp_before_digest p
              then (base MS_Quarantined (Some MR_BeforeDigestMismatch), c, x1)
              else let c1 = c\<lparr>mc_consumed_acceptances := bs_insert (ma_complete_packet_digest a) (mc_consumed_acceptances c)\<rparr>
                   in (case wr x1 (mp_relative_path p) (mp_after_bytes p) of
                         (Inl _, x2) \<Rightarrow>
                           (case write_back rd wr p x2 of
                              (True, x3) \<Rightarrow> (base MS_RolledBack (Some MR_WriteFailed), c1, x3)
                            | (False, x3) \<Rightarrow> (base MS_Frozen (Some MR_RollbackFailed), c1\<lparr>mc_frozen := True\<rparr>, x3))
                       | (Inr _, x2) \<Rightarrow>
                           (case rd x2 (mp_relative_path p) of (res, x3) \<Rightarrow>
                              if res = Inr (mp_after_bytes p) then (base MS_Applied None, c1, x3)
                              else (case write_back rd wr p x3 of
                                      (True, x4) \<Rightarrow> (base MS_RolledBack (Some MR_PostcheckFailed), c1, x4)
                                    | (False, x4) \<Rightarrow> (base MS_Frozen (Some MR_RollbackFailed), c1\<lparr>mc_frozen := True\<rparr>, x4))))))"

section \<open>What the checks establish\<close>

lemma roster_ids_Inr:
  "roster_ids ids ts = Inr out \<longleftrightarrow> (\<forall>t\<in>set ts. maintenance_id t) \<and> distinct ts \<and> set ts \<inter> set ids = {} \<and> out = fold bs_insert ts ids"
  by (induction ts arbitrary: ids) (auto simp: bs_contains_def)

lemma observe_results_Inr:
  "observe_results required seen ts = Inr out \<longleftrightarrow>
     (\<forall>t\<in>set ts. maintenance_id (mt_test_id t) \<and> mt_passed t \<and> mt_test_id t \<in> set required) \<and> distinct (map mt_test_id ts) \<and>
     mt_test_id ` set ts \<inter> set seen = {} \<and> out = fold bs_insert (map mt_test_id ts) seen"
  by (induction ts arbitrary: seen) (auto simp: try_r_eq_Inr test_result_validate_def bs_contains_def)

definition packet_sound :: "crypto \<Rightarrow> maintenance_packet \<Rightarrow> u64 \<Rightarrow> bool" where
  "packet_sound env k now \<longleftrightarrow>
     (let p = mk_proposal k; e = mk_evaluation k in
      list_all is_normal (path_components (mp_relative_path p)) \<and> mp_before_bytes p \<noteq> mp_after_bytes p \<and>
      mp_proposed_at p \<le> me_evaluated_at e \<and> me_evaluated_at e \<le> now \<and> now < mp_expires_at p \<and> now < me_expires_at e \<and>
      me_evaluator_role e \<noteq> mp_proposer_role p \<and>
      set (map mt_test_id (me_test_results e)) = set (mq_required_test_ids (mp_requirements p)) \<and>
      set REQUIRED_ADVERSARIAL_TESTS \<subseteq> set (map mt_test_id (me_test_results e)) \<and>
      (\<forall>t\<in>set (me_test_results e). mt_passed t))"

lemma packet_validate_sound:
  assumes "maintenance_packet_validate env k now = Inr ()"
  shows "packet_sound env k now \<and> mp_before_digest (mk_proposal k) = digest_bytes env (mp_before_bytes (mk_proposal k)) \<and>
    mp_after_digest (mk_proposal k) = digest_bytes env (mp_after_bytes (mk_proposal k))"
proof -
  let ?p = "mk_proposal k" and ?e = "mk_evaluation k"
  have p: "maintenance_proposal_validate env ?p now = Inr ()" and e: "evaluation_validate_for env ?e ?p now = Inr ()"
    using assms by (auto simp: maintenance_packet_validate_def try_r_eq_Inr)
  have 1: "safe_relative_path (mp_relative_path ?p)" "mp_before_bytes ?p \<noteq> mp_after_bytes ?p" "now < mp_expires_at ?p"
    "mp_before_digest ?p = digest_bytes env (mp_before_bytes ?p)" "mp_after_digest ?p = digest_bytes env (mp_after_bytes ?p)"
    "requirements_validate (mp_requirements ?p) = Inr ()"
    using p by (auto simp: maintenance_proposal_validate_def try_r_eq_Inr not_le split: if_splits)
  let ?req = "bs_from_list (mq_required_test_ids (mp_requirements ?p))"
  obtain seen where ob: "observe_results ?req [] (me_test_results ?e) = Inr seen" and eq: "seen = ?req"
    and 2: "me_evaluator_role ?e \<noteq> mp_proposer_role ?p" "me_evaluated_at ?e \<le> now" "mp_proposed_at ?p \<le> me_evaluated_at ?e" "now < me_expires_at ?e"
    using e by (auto simp: evaluation_validate_for_def Let_def try_r_eq_Inr not_le not_less split: if_splits)
  have "set (map mt_test_id (me_test_results ?e)) = set ?req" and passed: "\<forall>t\<in>set (me_test_results ?e). mt_passed t"
    using ob eq unfolding observe_results_Inr by (auto simp del: set_map)
  then have ids: "set (map mt_test_id (me_test_results ?e)) = set (mq_required_test_ids (mp_requirements ?p))" by simp
  have "set REQUIRED_ADVERSARIAL_TESTS \<subseteq> set (mq_required_test_ids (mp_requirements ?p))"
    using 1(6) by (auto simp: requirements_validate_def try_r_eq_Inr roster_ids_Inr list_ex_iff bs_contains_def split: if_splits)
  then show ?thesis
    using 1 2 ids passed by (simp add: packet_sound_def Let_def safe_relative_path_def)
qed

lemma apply_checks_Inr:
  assumes "apply_checks env c k acc now = Inr a"
  shows "acc = Some a \<and> maintenance_packet_validate env k now = Inr () \<and> ma_complete_packet_digest a = maintenance_packet_digest env k \<and>
    ma_complete_packet_digest a \<notin> set (mc_consumed_acceptances c) \<and> ma_reviewer_role a = mc_reviewer_role c \<and>
    me_evaluator_role (mk_evaluation k) = mc_evaluator_role c \<and> mp_requirements (mk_proposal k) = mc_requirements c \<and>
    ma_reviewer_role a \<notin> {mp_proposer_role (mk_proposal k), me_evaluator_role (mk_evaluation k)} \<and>
    me_evaluated_at (mk_evaluation k) \<le> ma_accepted_at a \<and> ma_accepted_at a \<le> now \<and> now < ma_expires_at a"
  using assms
  by (auto simp: apply_checks_def is_ok_unit bs_contains_def acceptance_validate_for_def not_le not_less split: if_splits option.splits)

section \<open>The coordinator over a store\<close>

text \<open>
  What the code asks of an executor: a read tells what is there and changes nothing, and a write touches only its target.  Nothing is asked of the value that a write leaves.
\<close>

locale maintenance_store =
  fixes rd :: "'x \<Rightarrow> string \<Rightarrow> u8 list result \<times> 'x" and wr :: "'x \<Rightarrow> string \<Rightarrow> u8 list \<Rightarrow> unit result \<times> 'x"
    and view :: "'x \<Rightarrow> string \<Rightarrow> u8 list option"
  assumes rd_view: "rd x p = (res, x') \<Longrightarrow> view x' = view x"
    and rd_truth: "rd x p = (Inr b, x') \<Longrightarrow> view x p = Some b"
    and wr_other: "wr x p b = (done_w, x') \<Longrightarrow> q \<noteq> p \<Longrightarrow> view x' q = view x q"
begin

lemma write_back_view:
  assumes "write_back rd wr p x = (ok, x')"
  shows "(ok \<longrightarrow> view x' (mp_relative_path p) = Some (mp_before_bytes p)) \<and> (\<forall>q. q \<noteq> mp_relative_path p \<longrightarrow> view x' q = view x q)"
proof -
  obtain res x1 where w: "wr x (mp_relative_path p) (mp_before_bytes p) = (res, x1)" by (cases "wr x (mp_relative_path p) (mp_before_bytes p)")
  obtain rr x2 where r: "rd x1 (mp_relative_path p) = (rr, x2)" by (cases "rd x1 (mp_relative_path p)")
  have v: "view x2 = view x1" using rd_view r by blast
  have t: "view x1 (mp_relative_path p) = Some (mp_before_bytes p)" if "rr = Inr (mp_before_bytes p)" using rd_truth r that by blast
  show ?thesis
    using assms w r v t wr_other [OF w] by (cases res) (auto simp: write_back_def)
qed

lemma apply_view:
  assumes app: "coordinator_apply env rd wr c k acc x now = (out, c', x')"
  shows "(\<forall>q. q \<noteq> mp_relative_path (mk_proposal k) \<longrightarrow> view x' q = view x q) \<and>
    (mo_status out \<in> {MS_Quarantined, MS_RolledBack} \<longrightarrow> view x' = view x) \<and>
    (mo_status out = MS_Applied \<longrightarrow> view x (mp_relative_path (mk_proposal k)) = Some (mp_before_bytes (mk_proposal k)) \<and>
       view x' (mp_relative_path (mk_proposal k)) = Some (mp_after_bytes (mk_proposal k))) \<and>
    (mo_status out \<in> {MS_Applied, MS_RolledBack} \<longrightarrow> (\<exists>a. apply_checks env c k acc now = Inr a))"
proof (cases "mc_frozen c \<or> (\<exists>r. apply_checks env c k acc now = Inl r)")
  case True
  then show ?thesis using app by (cases "mc_frozen c") (auto simp: coordinator_apply_def Let_def)
next
  case False
  let ?p = "mk_proposal k" and ?P = "mp_relative_path (mk_proposal k)"
  obtain a where a: "apply_checks env c k acc now = Inr a" using False by (cases "apply_checks env c k acc now") auto
  obtain r1 x1 where r1: "rd x ?P = (r1, x1)" by (cases "rd x ?P")
  have v1: "view x1 = view x" using rd_view r1 by blast
  show ?thesis
  proof (cases "r1 = Inr (mp_before_bytes ?p) \<and> digest_bytes env (mp_before_bytes ?p) = mp_before_digest ?p")
    case False
    then show ?thesis
      using app a \<open>\<not> (mc_frozen c \<or> _)\<close> r1 v1 by (cases r1) (auto simp: coordinator_apply_def Let_def split: if_splits)
  next
    case True
    have before: "view x ?P = Some (mp_before_bytes ?p)" using rd_truth r1 True by blast
    obtain w2 x2 where w2: "wr x1 ?P (mp_after_bytes ?p) = (w2, x2)" by (cases "wr x1 ?P (mp_after_bytes ?p)")
    obtain r3 x3 where r3: "rd x2 ?P = (r3, x3)" by (cases "rd x2 ?P")
    have v: "view x2 q = view x q" if "q \<noteq> ?P" for q using wr_other [OF w2 that] v1 by simp
    have v3: "view x3 = view x2" using rd_view r3 by blast
    have after: "view x2 ?P = Some (mp_after_bytes ?p)" if "r3 = Inr (mp_after_bytes ?p)" using rd_truth r3 that by blast
    obtain b4 x4 where b4: "write_back rd wr ?p x2 = (b4, x4)" by (cases "write_back rd wr ?p x2")
    obtain b5 x5 where b5: "write_back rd wr ?p x3 = (b5, x5)" by (cases "write_back rd wr ?p x3")
    have undone: "view x4 = view x" if "b4"
    proof
      fix q show "view x4 q = view x q" using that write_back_view [OF b4] before v by (cases "q = ?P") auto
    qed
    have undone': "view x5 = view x" if "b5"
    proof
      fix q show "view x5 q = view x q" using that write_back_view [OF b5] before v v3 by (cases "q = ?P") auto
    qed
    show ?thesis
      using app a \<open>\<not> (mc_frozen c \<or> _)\<close> r1 True w2 r3 b4 b5 v v3 before after undone undone' write_back_view [OF b4] write_back_view [OF b5]
      by (cases w2; cases b4; cases b5) (auto simp: coordinator_apply_def Let_def split: if_splits)
  qed
qed

end

interpretation memory_store: maintenance_store executor_read executor_write "\<lambda>x. bt_get (mx_files x)"
  by unfold_locales (auto simp: executor_read_def executor_write_def Let_def split: if_splits)

text \<open>
  C16.  One attempt, over any store: an attempt that is quarantined or rolled back leaves every file as it was; one that is applied had the accepted packet: current evidence
  of an evaluator who is not the proposer, every required test passed, the adversarial ones among them, an acceptance for exactly this packet by a third role, and
  it turned exactly the proposed bytes of the target into the proposed new bytes; and no attempt touches another file.
\<close>

theorem maintenance_attempt:
  assumes "maintenance_store rd wr view" and "coordinator_apply env rd wr c k acc x now = (out, c', x')"
  shows "(\<forall>q. q \<noteq> mp_relative_path (mk_proposal k) \<longrightarrow> view x' q = view x q) \<and>
    (mo_status out \<in> {MS_Quarantined, MS_RolledBack} \<longrightarrow> view x' = view x) \<and>
    (mo_status out = MS_Applied \<longrightarrow> packet_sound env k now \<and>
       view x (mp_relative_path (mk_proposal k)) = Some (mp_before_bytes (mk_proposal k)) \<and>
       view x' (mp_relative_path (mk_proposal k)) = Some (mp_after_bytes (mk_proposal k)) \<and>
       (\<exists>a. acc = Some a \<and> ma_complete_packet_digest a = maintenance_packet_digest env k \<and> now < ma_expires_at a \<and>
          ma_reviewer_role a = mc_reviewer_role c \<and> me_evaluator_role (mk_evaluation k) = mc_evaluator_role c \<and>
          mp_requirements (mk_proposal k) = mc_requirements c \<and>
          distinct [mp_proposer_role (mk_proposal k), me_evaluator_role (mk_evaluation k), ma_reviewer_role a]))"
proof -
  note v = maintenance_store.apply_view [OF assms]
  have "packet_sound env k now \<and> (\<exists>a. acc = Some a \<and> ma_complete_packet_digest a = maintenance_packet_digest env k \<and> now < ma_expires_at a \<and>
          ma_reviewer_role a = mc_reviewer_role c \<and> me_evaluator_role (mk_evaluation k) = mc_evaluator_role c \<and>
          mp_requirements (mk_proposal k) = mc_requirements c \<and>
          distinct [mp_proposer_role (mk_proposal k), me_evaluator_role (mk_evaluation k), ma_reviewer_role a])"
    if applied: "mo_status out = MS_Applied"
  proof -
    obtain a where a: "apply_checks env c k acc now = Inr a" using v applied by auto
    have s: "packet_sound env k now" using packet_validate_sound apply_checks_Inr [OF a] by blast
    then have "mp_proposer_role (mk_proposal k) \<noteq> me_evaluator_role (mk_evaluation k)" by (auto simp: packet_sound_def Let_def)
    then show ?thesis using s apply_checks_Inr [OF a] by auto
  qed
  then show ?thesis using v by blast
qed

section \<open>Sequences of attempts\<close>

type_synonym attempt = "maintenance_packet \<times> maintenance_acceptance option \<times> u64"

fun outcomes ::
  "crypto \<Rightarrow> ('x \<Rightarrow> string \<Rightarrow> u8 list result \<times> 'x) \<Rightarrow> ('x \<Rightarrow> string \<Rightarrow> u8 list \<Rightarrow> unit result \<times> 'x) \<Rightarrow>
   maintenance_coordinator \<Rightarrow> 'x \<Rightarrow> attempt list \<Rightarrow> maintenance_outcome list \<times> maintenance_coordinator \<times> 'x" where
  "outcomes env rd wr c x [] = ([], c, x)"
| "outcomes env rd wr c x ((k, acc, now) # as) =
     (case coordinator_apply env rd wr c k acc x now of (out, c1, x1) \<Rightarrow>
        (case outcomes env rd wr c1 x1 as of (outs, c2, x2) \<Rightarrow> (out # outs, c2, x2)))"

text \<open>An attempt that acted has consumed its acceptance, which was not consumed before; nothing is ever given back.\<close>

lemma apply_consumes:
  assumes "coordinator_apply env rd wr c k acc x now = (out, c', x')"
  shows "set (mc_consumed_acceptances c) \<subseteq> set (mc_consumed_acceptances c') \<and> (mc_frozen c \<longrightarrow> mc_frozen c' \<and> x' = x \<and> mo_status out = MS_Frozen) \<and>
    (mo_status out = MS_Frozen \<longrightarrow> mc_frozen c') \<and>
    (mo_status out \<in> {MS_Applied, MS_RolledBack} \<longrightarrow> mo_packet_digest out \<notin> set (mc_consumed_acceptances c) \<and>
       mo_packet_digest out \<in> set (mc_consumed_acceptances c'))"
proof (cases "mc_frozen c")
  case True
  then show ?thesis using assms by (auto simp: coordinator_apply_def Let_def)
next
  case False
  show ?thesis
  proof (cases "apply_checks env c k acc now")
    case (Inl r)
    then show ?thesis using False assms by (auto simp: coordinator_apply_def Let_def)
  next
    case (Inr a)
    then show ?thesis
      using False assms apply_checks_Inr [OF Inr]
      by (auto simp: coordinator_apply_def Let_def split: sum.splits prod.splits if_splits bool.splits)
  qed
qed

lemma outcomes_consumed:
  assumes "outcomes env rd wr c x as = (outs, c', x')" and "d \<in> set (mc_consumed_acceptances c)"
  shows "\<forall>o1\<in>set outs. mo_packet_digest o1 = d \<longrightarrow> mo_status o1 \<notin> {MS_Applied, MS_RolledBack}"
  using assms
proof (induction as arbitrary: c x outs)
  case (Cons t as)
  obtain k acc now where t: "t = (k, acc, now)" by (cases t)
  obtain out c1 x1 where a: "coordinator_apply env rd wr c k acc x now = (out, c1, x1)" by (cases "coordinator_apply env rd wr c k acc x now")
  obtain outs1 c2 x2 where r: "outcomes env rd wr c1 x1 as = (outs1, c2, x2)" by (cases "outcomes env rd wr c1 x1 as")
  have eq: "outs = out # outs1" "c2 = c'" "x2 = x'" using Cons.prems(1) t a r by auto
  have "d \<in> set (mc_consumed_acceptances c1)" using apply_consumes [OF a] Cons.prems(2) by blast
  then show ?case using Cons.IH [OF r [unfolded eq]] eq apply_consumes [OF a] Cons.prems(2) by auto
qed simp

lemma outcomes_frozen:
  assumes "outcomes env rd wr c x as = (outs, c', x')" and "mc_frozen c"
  shows "mc_frozen c' \<and> x' = x \<and> (\<forall>o1\<in>set outs. mo_status o1 = MS_Frozen)"
  using assms
proof (induction as arbitrary: c x outs)
  case (Cons t as)
  obtain k acc now where t: "t = (k, acc, now)" by (cases t)
  obtain out c1 x1 where a: "coordinator_apply env rd wr c k acc x now = (out, c1, x1)" by (cases "coordinator_apply env rd wr c k acc x now")
  obtain outs1 c2 x2 where r: "outcomes env rd wr c1 x1 as = (outs1, c2, x2)" by (cases "outcomes env rd wr c1 x1 as")
  have eq: "outs = out # outs1" "c2 = c'" "x2 = x'" using Cons.prems(1) t a r by auto
  have f: "mc_frozen c1" "x1 = x" "mo_status out = MS_Frozen" using apply_consumes [OF a] Cons.prems(2) by blast+
  show ?case using Cons.IH [OF r [unfolded eq] f(1)] eq f by auto
qed simp

text \<open>
  C15.  Across any sequence of attempts, with any executor and from any coordinator state: one packet is applied or rolled back at most once, so one acceptance authorizes one
  change even when that change failed; and as soon as an attempt ends frozen, every later attempt is refused as frozen without the executor being called.
\<close>

theorem acceptance_used_once:
  assumes "outcomes env rd wr c x (as @ bs) = (outs, c', x')" and "outcomes env rd wr c x as = (outs1, c1, x1)"
  shows "length (filter (\<lambda>o1. mo_packet_digest o1 = d \<and> mo_status o1 \<in> {MS_Applied, MS_RolledBack}) outs) \<le> 1 \<and>
    ((\<exists>o1\<in>set outs1. mo_status o1 = MS_Frozen) \<longrightarrow> x' = x1 \<and> (\<forall>o1\<in>set (drop (length as) outs). mo_status o1 = MS_Frozen))"
proof -
  let ?acts = "\<lambda>o1. mo_packet_digest o1 = d \<and> mo_status o1 \<in> {MS_Applied, MS_RolledBack}"
  have once: "length (filter ?acts outs) \<le> 1" if "outcomes env rd wr c x ts = (outs, c', x')" for ts outs c x c' x'
    using that
  proof (induction ts arbitrary: c x outs)
    case (Cons t ts)
    obtain k acc now where t: "t = (k, acc, now)" by (cases t)
    obtain out c1 x1 where a: "coordinator_apply env rd wr c k acc x now = (out, c1, x1)" by (cases "coordinator_apply env rd wr c k acc x now")
    obtain outs1 c2 x2 where r: "outcomes env rd wr c1 x1 ts = (outs1, c2, x2)" by (cases "outcomes env rd wr c1 x1 ts")
    have eq: "outs = out # outs1" "c2 = c'" "x2 = x'" using Cons.prems t a r by auto
    show ?case
    proof (cases "?acts out")
      case True
      then have "d \<in> set (mc_consumed_acceptances c1)" using apply_consumes [OF a] by blast
      then have "filter ?acts outs1 = []" using outcomes_consumed [OF r] by (auto simp: filter_empty_conv)
      then show ?thesis using eq by simp
    next
      case False
      then have "filter ?acts outs = filter ?acts outs1" unfolding eq(1) by simp
      then show ?thesis using Cons.IH [OF r [unfolded eq(2,3)]] by presburger
    qed
  qed simp
  have split: "outcomes env rd wr c x (ts @ bs) = (case outcomes env rd wr c x ts of (o1, c1, x1) \<Rightarrow>
      (case outcomes env rd wr c1 x1 bs of (o2, c2, x2) \<Rightarrow> (o1 @ o2, c2, x2)))" for ts c x
    by (induction ts arbitrary: c x) (auto split: prod.splits)
  have len: "length o1 = length ts" if "outcomes env rd wr c x ts = (o1, c1, x1)" for ts o1 c x c1 x1
    using that by (induction ts arbitrary: c x o1) (auto split: prod.splits)
  have frozen: "mc_frozen c1" if "outcomes env rd wr c x ts = (o1, c1, x1)" "\<exists>a\<in>set o1. mo_status a = MS_Frozen" for ts o1 c x c1 x1
    using that
  proof (induction ts arbitrary: c x o1)
    case (Cons t ts)
    obtain k acc now where t: "t = (k, acc, now)" by (cases t)
    obtain out c2 x2 where a: "coordinator_apply env rd wr c k acc x now = (out, c2, x2)" by (cases "coordinator_apply env rd wr c k acc x now")
    obtain o2 c3 x3 where r: "outcomes env rd wr c2 x2 ts = (o2, c3, x3)" by (cases "outcomes env rd wr c2 x2 ts")
    have eq: "o1 = out # o2" "c3 = c1" "x3 = x1" using Cons.prems(1) t a r by auto
    show ?case
    proof (cases "mo_status out = MS_Frozen")
      case True
      then show ?thesis using apply_consumes [OF a] outcomes_frozen [OF r] eq by blast
    qed (use Cons eq r in auto)
  qed simp
  obtain o2 c2 x2 where o2: "outcomes env rd wr c1 x1 bs = (o2, c2, x2)" by (cases "outcomes env rd wr c1 x1 bs")
  have outs: "outs = outs1 @ o2" "x' = x2" using assms split [of c x as] o2 by auto
  have "x' = x1 \<and> (\<forall>o1\<in>set (drop (length as) outs). mo_status o1 = MS_Frozen)" if "\<exists>o1\<in>set outs1. mo_status o1 = MS_Frozen"
    using outcomes_frozen [OF o2 frozen [OF assms(2) that]] outs len [OF assms(2)] by auto
  then show ?thesis using once [OF assms(1)] by blast
qed

section \<open>Concrete inputs\<close>

definition demo_requirements :: maintenance_requirements where
  "demo_requirements = \<lparr>mq_evaluator_executable_digest = zero_digest, mq_evaluator_input_digest = zero_digest,
     mq_evaluator_tests_digest = zero_digest, mq_policy_digest = zero_digest, mq_required_test_ids = REQUIRED_ADVERSARIAL_TESTS\<rparr>"

definition demo_patch :: maintenance_packet where
  "demo_patch =
     \<lparr>mk_proposal = \<lparr>mp_patch_id = ''m'', mp_proposer_role = ''p'', mp_relative_path = ''f'', mp_before_bytes = [1], mp_before_digest = zero_digest,
        mp_after_bytes = [2], mp_after_digest = zero_digest, mp_requirements = demo_requirements, mp_proposed_at = 1, mp_expires_at = 9\<rparr>,
      mk_evaluation = \<lparr>me_evaluation_id = ''v'', me_evaluator_role = ''e'', me_proposal_digest = zero_digest, me_requirements = demo_requirements,
        me_test_results = map (\<lambda>t. \<lparr>mt_test_id = t, mt_passed = True\<rparr>) REQUIRED_ADVERSARIAL_TESTS, me_accepted = True, me_evaluated_at = 2,
        me_expires_at = 9\<rparr>\<rparr>"

definition demo_acceptance :: maintenance_acceptance where
  "demo_acceptance = \<lparr>ma_reviewer_role = ''r'', ma_complete_packet_digest = zero_digest, ma_accepted_at = 3, ma_expires_at = 9\<rparr>"

definition demo_coordinator :: maintenance_coordinator where
  "demo_coordinator = \<lparr>mc_requirements = demo_requirements, mc_evaluator_role = ''e'', mc_reviewer_role = ''r'', mc_consumed_acceptances = [],
     mc_frozen = False\<rparr>"

lemma demo_ids [simp]: "maintenance_id ''m''" "maintenance_id ''p''" "maintenance_id ''v''" "maintenance_id ''e''" "maintenance_id ''r''"
  "safe_relative_path ''f''"
  by (simp_all add: maintenance_id_def maintenance_text_def text_within_def MAX_PATH_BYTES_def ascii_control_def safe_relative_path_def
      path_components_def component_of_def)

lemma demo_test_ids: "\<forall>t\<in>set REQUIRED_ADVERSARIAL_TESTS. maintenance_id t" "distinct REQUIRED_ADVERSARIAL_TESTS"
  "length REQUIRED_ADVERSARIAL_TESTS = 4"
  by (simp_all add: REQUIRED_ADVERSARIAL_TESTS_def maintenance_id_def text_within_def MAX_PATH_BYTES_def ascii_control_def)

lemma demo_requirements_valid: "requirements_validate demo_requirements = Inr ()"
proof -
  have "roster_ids [] REQUIRED_ADVERSARIAL_TESTS = Inr (fold bs_insert REQUIRED_ADVERSARIAL_TESTS [])"
    using demo_test_ids by (simp add: roster_ids_Inr)
  moreover have "REQUIRED_ADVERSARIAL_TESTS \<noteq> []" using demo_test_ids(3) by auto
  ultimately show ?thesis
    using demo_test_ids(3)
    by (simp add: requirements_validate_def demo_requirements_def validate_digest_fields_def MAX_TESTS_def list_ex_iff bs_contains_def)
qed

lemma demo_patch_valid: "maintenance_packet_validate demo_env demo_patch 5 = Inr ()"
proof -
  let ?T = REQUIRED_ADVERSARIAL_TESTS
  have "observe_results (bs_from_list ?T) [] (map (\<lambda>t. \<lparr>mt_test_id = t, mt_passed = True\<rparr>) ?T) = Inr (bs_from_list ?T)"
    using demo_test_ids unfolding observe_results_Inr by (simp add: o_def bs_from_list_def)
  moreover have "?T \<noteq> []" using demo_test_ids(3) by auto
  ultimately have "evaluation_validate_for demo_env (mk_evaluation demo_patch) (mk_proposal demo_patch) 5 = Inr ()"
    using demo_test_ids(3)
    by (simp add: evaluation_validate_for_def demo_patch_def maintenance_proposal_digest_def MAX_TESTS_def word_less_nat_alt word_le_nat_alt)
      (simp add: demo_requirements_def)
  moreover have "maintenance_proposal_validate demo_env (mk_proposal demo_patch) 5 = Inr ()"
    using demo_requirements_valid
    by (simp add: maintenance_proposal_validate_def demo_patch_def MAX_PATCH_BYTES_def validate_digest_fields_def word_less_nat_alt word_le_nat_alt)
  ultimately show ?thesis by (simp add: maintenance_packet_validate_def)
qed

lemma demo_checks: "apply_checks demo_env demo_coordinator demo_patch (Some demo_acceptance) 5 = Inr demo_acceptance"
  using demo_patch_valid
  by (simp add: apply_checks_def is_ok_unit acceptance_validate_for_def maintenance_packet_digest_def bs_contains_def)
    (simp add: demo_patch_def demo_coordinator_def demo_acceptance_def word_less_nat_alt word_le_nat_alt)

lemma demo_applied:
  "\<exists>out c' x'. coordinator_apply demo_env executor_read executor_write demo_coordinator demo_patch (Some demo_acceptance)
     (executor_with_file ''f'' [1]) 5 = (out, c', x') \<and> mo_status out = MS_Applied"
  unfolding coordinator_apply_def Let_def demo_checks
  by (simp add: demo_coordinator_def executor_read_def executor_write_def executor_with_file_def demo_patch_def)

theorem maintenance_attempt_witness:
  "\<exists>out c' x'. coordinator_apply demo_env executor_read executor_write demo_coordinator demo_patch (Some demo_acceptance)
     (executor_with_file ''f'' [1]) 5 = (out, c', x') \<and> mo_status out = MS_Applied \<and> bt_get (mx_files x') ''f'' = Some [2]"
proof -
  obtain out c' x' where a: "coordinator_apply demo_env executor_read executor_write demo_coordinator demo_patch (Some demo_acceptance)
     (executor_with_file ''f'' [1]) 5 = (out, c', x')" "mo_status out = MS_Applied"
    using demo_applied by blast
  have "bt_get (mx_files x') (mp_relative_path (mk_proposal demo_patch)) = Some (mp_after_bytes (mk_proposal demo_patch))"
    using maintenance_attempt [OF memory_store.maintenance_store_axioms a(1)] a(2) by blast
  then show ?thesis using a by (auto simp: demo_patch_def)
qed

theorem acceptance_used_once_witness:
  "\<exists>outs c' x'. outcomes demo_env executor_read executor_write demo_coordinator (executor_with_file ''f'' [1])
       ([(demo_patch, Some demo_acceptance, 5)] @ [(demo_patch, Some demo_acceptance, 5)]) = (outs, c', x') \<and>
     length (filter (\<lambda>o1. mo_packet_digest o1 = zero_digest \<and> mo_status o1 \<in> {MS_Applied, MS_RolledBack}) outs) \<le> 1"
proof -
  let ?as = "[(demo_patch, Some demo_acceptance, 5 :: u64)]"
  let ?run = "outcomes demo_env executor_read executor_write demo_coordinator (executor_with_file ''f'' [1])"
  obtain outs c' x' where o1: "?run (?as @ ?as) = (outs, c', x')" by (cases "?run (?as @ ?as)")
  obtain outs1 c1 x1 where o2: "?run ?as = (outs1, c1, x1)" by (cases "?run ?as")
  from acceptance_used_once [OF o1 o2, of zero_digest] o1 show ?thesis by blast
qed

end
