(* ===== verification/Plain_Files.thy ===== *)
theory Plain_Files
  imports Persistence
begin

text \<open>
  The second way the components keep files, in src/adaptation.rs, src/causal.rs, src/replication.rs and src/crypto_adapters.rs: \<open>fs::write\<close> of the temporary
  file, \<open>fs::rename\<close>, \<open>fs::read\<close>, with no writer lock, and a \<open>recover\<close> that looks at the temporary file only when the primary is
  missing.  \<open>fs::write\<close> and \<open>fs::read\<close> follow symbolic links.  The lemmas are in the locale \<open>snapshot_format\<close>, next to those of the
  locked files.
\<close>

section \<open>Links\<close>

text \<open>The system follows 40 links and then gives up.\<close>

fun follow :: "fs \<Rightarrow> nat \<Rightarrow> path \<Rightarrow> path option" where
  "follow fs 0 p = None"
| "follow fs (Suc n) p = (case fs p of Some (N_Symlink q) \<Rightarrow> follow fs n q | _ \<Rightarrow> Some p)"

definition resolve :: "fs \<Rightarrow> path \<Rightarrow> path option" where
  "resolve fs p = follow fs 41 p"

definition too_many_links :: error where
  "too_many_links = Err_Persistence ''Too many levels of symbolic links (os error 40)''"

definition is_link :: "node option \<Rightarrow> bool" where
  "is_link nd = (case nd of Some (N_Symlink _) \<Rightarrow> True | _ \<Rightarrow> False)"

lemma is_link_simps [simp]: "\<not> is_link None" "\<not> is_link (Some (N_File b))" "\<not> is_link (Some N_Dir)" "is_link (Some (N_Symlink q))"
  by (simp_all add: is_link_def)

lemma follow_direct [simp]: "\<not> is_link (fs p) \<Longrightarrow> follow fs (Suc n) p = Some p"
  by (auto simp: is_link_def split: option.splits node.splits)

lemma resolve_direct [simp]: "\<not> is_link (fs p) \<Longrightarrow> resolve fs p = Some p"
  using follow_direct [of fs p 40] by (simp add: resolve_def del: follow.simps follow_direct)

lemma resolved_no_link: "resolve fs p = Some q \<Longrightarrow> \<not> is_link (fs q)"
proof -
  have "follow fs n p = Some q \<Longrightarrow> \<not> is_link (fs q)" for n
    by (induction fs n p rule: follow.induct) (auto simp: is_link_def split: option.splits node.splits)
  then show "resolve fs p = Some q \<Longrightarrow> \<not> is_link (fs q)" by (simp add: resolve_def)
qed

section \<open>The calls\<close>

definition write_file :: "io \<Rightarrow> path \<Rightarrow> u8 list \<Rightarrow> fs \<Rightarrow> unit result \<times> fs" where
  "write_file io p bytes fs =
     (case io_check io IO_Create of
        Inl e \<Rightarrow> (Inl e, fs)
      | Inr _ \<Rightarrow>
        case resolve fs p of
          None \<Rightarrow> (Inl too_many_links, fs)
        | Some q \<Rightarrow>
          if fs q = Some N_Dir then (Inl is_a_directory, fs)
          else case io_check io IO_Write of
            Inl e \<Rightarrow> (Inl e, fs(q \<mapsto> N_File (take (io_partial io) bytes)))
          | Inr _ \<Rightarrow> (Inr (), fs(q \<mapsto> N_File bytes)))"

definition read_any :: "io \<Rightarrow> fs \<Rightarrow> path \<Rightarrow> u8 list result" where
  "read_any io fs p =
     (case resolve fs p of
        None \<Rightarrow> Inl too_many_links
      | Some q \<Rightarrow>
        case fs q of
          Some (N_File bytes) \<Rightarrow> try_r (io_check io IO_Read) (\<lambda>_. Inr bytes)
        | Some N_Dir \<Rightarrow> Inl is_a_directory
        | _ \<Rightarrow> Inl not_found)"

definition plain_save ::
  "crypto \<Rightarrow> ('a \<Rightarrow> unit result) \<Rightarrow> ('a \<Rightarrow> json) \<Rightarrow> io \<Rightarrow> 'a \<Rightarrow> path \<Rightarrow> fs \<Rightarrow> unit result \<times> fs" where
  "plain_save env valid enc io x p fs =
     (case valid x of
        Inl e \<Rightarrow> (Inl e, fs)
      | Inr _ \<Rightarrow>
        (let tmp = with_extension p ''tmp'' in
         case write_file io tmp (canonical_bytes env (enc x)) fs of
           (Inl e, fs1) \<Rightarrow> (Inl e, fs1)
         | (Inr _, fs1) \<Rightarrow> rename_file io tmp p fs1))"

definition plain_load ::
  "crypto \<Rightarrow> (u8 list \<Rightarrow> 'd result) \<Rightarrow> ('d \<Rightarrow> json) \<Rightarrow> string \<Rightarrow> ('d \<Rightarrow> 'a result) \<Rightarrow> io \<Rightarrow> fs \<Rightarrow> path \<Rightarrow> 'a result" where
  "plain_load env de enc msg build io fs p =
     try_r (read_any io fs p) (\<lambda>bytes.
     try_r (de bytes) (\<lambda>d.
     if canonical_bytes env (enc d) \<noteq> bytes then Inl (Err_Journal msg) else build d))"

definition plain_recover :: "(io \<Rightarrow> fs \<Rightarrow> path \<Rightarrow> 'a result) \<Rightarrow> io \<Rightarrow> path \<Rightarrow> fs \<Rightarrow> 'a result \<times> fs" where
  "plain_recover load io p fs =
     (case load io fs p of
        Inr x \<Rightarrow> (Inr x, fs)
      | Inl e \<Rightarrow>
        if e \<noteq> not_found then (Inl e, fs)
        else let tmp = with_extension p ''tmp'' in
          (case load io fs tmp of
             Inl e \<Rightarrow> (Inl e, fs)
           | Inr x \<Rightarrow>
             (case rename_file io tmp p fs of
                (Inl e, fs1) \<Rightarrow> (Inl e, fs1)
              | (Inr _, fs1) \<Rightarrow> (Inr x, fs1))))"

section \<open>What the calls leave behind\<close>

lemma read_any_direct [simp]:
  "fs p = Some (N_File bytes) \<Longrightarrow> read_any io fs p = try_r (io_check io IO_Read) (\<lambda>_. Inr bytes)"
  "fs p = None \<Longrightarrow> read_any io fs p = Inl not_found"
  by (simp_all add: read_any_def)

lemma rename_new:
  assumes "src \<noteq> dst" and "fs src = Some nd"
  obtains "rename_file io src dst fs = (Inr (), (fs(src := None))(dst \<mapsto> nd))"
  | e where "rename_file io src dst fs = (Inl e, fs)" "fs dst = Some N_Dir \<or> io_check io IO_Rename \<noteq> Inr ()"
proof (cases "io_check io IO_Rename = Inr () \<and> fs dst \<noteq> Some N_Dir")
  case True
  then show ?thesis using assms by (intro that(1)) (auto simp: rename_file_def)
next
  case False
  then obtain e where "rename_file io src dst fs = (Inl e, fs)" using assms by (cases "io_check io IO_Rename") (auto simp: rename_file_def)
  then show ?thesis using False by (intro that(2)) auto
qed

text \<open>Every outcome of a save over a temporary path that is no link.\<close>

lemma plain_save_cases:
  assumes sp: "snapshot_path p" and link: "\<not> is_link (fs (with_extension p ''tmp''))"
    and save: "plain_save env valid enc io x p fs = (res, fs')"
  obtains (untouched) "res \<noteq> Inr ()" "fs' = fs"
  | (torn) "res \<noteq> Inr ()" "valid x = Inr ()"
      "fs' = fs(with_extension p ''tmp'' \<mapsto> N_File (take (io_partial io) (canonical_bytes env (enc x))))"
  | (pending) "res \<noteq> Inr ()" "valid x = Inr ()" "fs' = fs(with_extension p ''tmp'' \<mapsto> N_File (canonical_bytes env (enc x)))"
  | (renamed) "res = Inr ()" "valid x = Inr ()"
      "fs' = (fs(with_extension p ''tmp'' := None))(p \<mapsto> N_File (canonical_bytes env (enc x)))"
proof -
  let ?tmp = "with_extension p ''tmp''" and ?b = "canonical_bytes env (enc x)"
  note dist = snapshot_path_distinct [OF sp]
  show thesis
  proof (cases "write_file io ?tmp ?b fs")
    case (Pair rw fs1)
    show thesis
    proof (cases "valid x")
      case (Inl e)
      then show thesis using save by (intro untouched) (auto simp: plain_save_def)
    next
      case valid: (Inr u)
      show thesis
      proof (cases rw)
        case (Inl e)
        then have "res = Inl e" "fs' = fs1" using save valid Pair by (simp_all add: plain_save_def Let_def)
        moreover have "fs1 = fs \<or> fs1 = fs(?tmp \<mapsto> N_File (take (io_partial io) ?b))"
          using Pair Inl link by (auto simp: write_file_def split: sum.splits if_splits)
        ultimately show thesis using untouched torn valid by auto
      next
        case (Inr w)
        then have fs1: "fs1 = fs(?tmp \<mapsto> N_File ?b)" using Pair link by (auto simp: write_file_def split: sum.splits if_splits)
        have r: "rename_file io ?tmp p fs1 = (res, fs')" using save valid Pair Inr by (simp add: plain_save_def Let_def)
        have at: "fs1 ?tmp = Some (N_File ?b)" by (simp add: fs1)
        from dist(1) at show thesis
        proof (cases rule: rename_new [where io = io])
          case 1
          then have "res = Inr ()" "fs' = (fs1(?tmp := None))(p \<mapsto> N_File ?b)" using r by simp_all
          moreover have "fs1(?tmp := None) = fs(?tmp := None)" by (simp add: fs1)
          ultimately show thesis using renamed valid by simp
        next
          case (2 e)
          then have "res = Inl e" "fs' = fs1" using r by simp_all
          then show thesis using fs1 pending valid by simp
        qed
      qed
    qed
  qed
qed

lemma plain_load_cong:
  assumes "fs p = fs' p" and "\<not> is_link (fs p)"
  shows "plain_load env de enc msg build io fs p = plain_load env de enc msg build io fs' p"
proof -
  have "resolve fs p = Some p" "resolve fs' p = Some p" using assms by simp_all
  then show ?thesis using assms(1) by (simp add: plain_load_def read_any_def)
qed

context snapshot_format
begin

lemma plain_round_trip:
  assumes "ok x" and "de (canonical_bytes env (enc (doc x))) = Inr (doc x)" and "snapshot_path p"
    and "\<not> is_link (fs (with_extension p ''tmp''))"
    and "plain_save env valid (\<lambda>x. enc (doc x)) io x p fs = (Inr (), fs')" and "no_faults io'"
  shows "plain_load env de enc msg build io' fs' p = Inr x \<and> plain_recover (plain_load env de enc msg build) io' p fs' = (Inr x, fs')"
proof -
  from assms(3,4,5) have "valid x = Inr () \<and> fs' p = Some (N_File (canonical_bytes env (enc (doc x))))"
    by (cases rule: plain_save_cases) auto
  then have "plain_load env de enc msg build io' fs' p = Inr x"
    using assms(1,2,6) by (simp add: plain_load_def io_check_simps build_doc)
  then show ?thesis by (simp add: plain_recover_def)
qed

lemma plain_loaded_is_valid:
  assumes "plain_load env de enc msg build io fs p = Inr x"
  shows "valid x = Inr ()"
  using assms build_valid by (auto simp: plain_load_def try_r_eq_Inr split: if_splits)

text \<open>
  A save that stopped anywhere, over a regular primary file or none: \<open>recover\<close> answers the new value, or what the file system held before, or an error when
  only a torn temporary file is there.  The primary is never torn.
\<close>

lemma plain_recover_after_crash:
  assumes sp: "snapshot_path p" and okx: "ok x"
    and dex: "de (canonical_bytes env (enc (doc x))) = Inr (doc x)"
    and prefix: "\<And>n. n < length (canonical_bytes env (enc (doc x))) \<Longrightarrow> \<not> is_ok (de (take n (canonical_bytes env (enc (doc x)))))"
    and old: "fs p = None \<or> fs p = Some (N_File old)" and tmp: "fs (with_extension p ''tmp'') = None"
    and save: "plain_save env valid (\<lambda>x. enc (doc x)) io x p fs = (res, fs')"
    and nf: "no_faults io'" and rec: "plain_recover (plain_load env de enc msg build) io' p fs' = (r, fs2)"
  shows "(fs2 p = fs p \<or> fs2 p = Some (N_File (canonical_bytes env (enc (doc x))))) \<and>
    (r = Inr x \<or> r = plain_load env de enc msg build io' fs p \<or> \<not> is_ok r \<and> \<not> is_ok (plain_load env de enc msg build io' fs p))"
proof -
  let ?tmp = "with_extension p ''tmp''" and ?b = "canonical_bytes env (enc (doc x))" and ?load = "plain_load env de enc msg build io'"
  note dist = snapshot_path_distinct [OF sp]
  have link: "\<not> is_link (fs ?tmp)" "\<not> is_link (fs p)" using tmp old by auto
  have full: "?load fs1 q = Inr x" if "fs1 q = Some (N_File ?b)" "valid x = Inr ()" for fs1 q
    using that dex build_doc [OF okx] by (simp add: plain_load_def io_check_simps [OF nf])
  have torn: "\<not> is_ok (?load fs' ?tmp)" if t: "fs' ?tmp = None \<or> (\<exists>n < length ?b. fs' ?tmp = Some (N_File (take n ?b)))"
  proof (cases "fs' ?tmp")
    case (Some nd)
    then obtain n where n: "n < length ?b" "fs' ?tmp = Some (N_File (take n ?b))" using t by auto
    then obtain e where "de (take n ?b) = Inl e" using prefix [OF n(1)] by (cases "de (take n ?b)") auto
    then show ?thesis using n(2) by (simp add: plain_load_def io_check_simps [OF nf])
  qed (simp add: plain_load_def)
  have kept: ?thesis if p: "fs' p = fs p" and t: "\<not> is_ok (?load fs' ?tmp) \<or> ?load fs' ?tmp = Inr x \<and> fs' ?tmp = Some (N_File ?b)"
  proof -
    have same: "?load fs' p = ?load fs p" by (rule plain_load_cong) (use p link in simp_all)
    show ?thesis
    proof (cases "?load fs p")
      case (Inl e)
      show ?thesis
      proof (cases "e = not_found")
        case True
        from t show ?thesis
        proof
          assume "\<not> is_ok (?load fs' ?tmp)"
          then obtain e' where "?load fs' ?tmp = Inl e'" by (cases "?load fs' ?tmp") auto
          then have "r = Inl e'" "fs2 = fs'" using rec same Inl True by (simp_all add: plain_recover_def Let_def)
          then show ?thesis using p Inl by simp
        next
          assume l: "?load fs' ?tmp = Inr x \<and> fs' ?tmp = Some (N_File ?b)"
          from dist(1) l [THEN conjunct2] show ?thesis
            by (cases rule: rename_new [where io = io']) (use rec same Inl True p l in \<open>auto simp: plain_recover_def Let_def\<close>)
        qed
      qed (use rec same Inl p in \<open>auto simp: plain_recover_def\<close>)
    qed (use rec same p in \<open>auto simp: plain_recover_def\<close>)
  qed
  from sp link(1) save show ?thesis
  proof (cases rule: plain_save_cases)
    case untouched
    then show ?thesis using kept torn tmp by auto
  next
    case t: torn
    show ?thesis
    proof (cases "io_partial io < length ?b")
      case True
      then have "\<not> is_ok (?load fs' ?tmp)" using torn t(3) by auto
      then show ?thesis using kept t(3) dist(1) by auto
    next
      case False
      then have "fs' ?tmp = Some (N_File ?b)" using t(3) by simp
      then show ?thesis using kept full t(2,3) dist(1) by auto
    qed
  next
    case pending
    then show ?thesis using kept full dist(1) by auto
  next
    case renamed
    then have "?load fs' p = Inr x" using full by simp
    then show ?thesis using rec renamed(3) by (auto simp: plain_recover_def)
  qed
qed

end

end
