(* ===== verification/Market.thy ===== *)
theory Market
  imports Encoding Machine
begin

text \<open>
  The fixed local compute market of src/market.rs: jobs that sum 64-bit inputs, offers,
  receipts, offer selection, and the verifier that admits a receipt once and proposes one
  settlement per job.
\<close>

definition output_schema_digest :: "crypto \<Rightarrow> string" where
  "output_schema_digest env = digest env (JArr [JStr ''fixed-u64-output'', json_word (1 :: u8)])"

definition runtime_digest :: "crypto \<Rightarrow> string" where
  "runtime_digest env = digest env (JArr [JStr ''fixed-local-sum-runtime'', json_word (1 :: u8)])"

definition sum_program_digest :: "crypto \<Rightarrow> string" where
  "sum_program_digest env = digest env (JArr [JStr ''fixed-integer-sum'', json_word (1 :: u8)])"

record sum_job =
  sj_job_id :: string
  sj_requester :: string
  sj_inputs :: "u64 list"
  sj_input_commitment :: string
  sj_deadline :: u64
  sj_max_price :: u64
  sj_program_digest :: string
  sj_output_schema_digest :: string
  sj_receipt_type :: string
  sj_privacy_requirement :: string

definition json_sum_job :: "sum_job \<Rightarrow> json" where
  "json_sum_job j = JObj
    [(''job_id'', JStr (sj_job_id j)), (''requester'', JStr (sj_requester j)),
     (''inputs'', json_list json_word (sj_inputs j)),
     (''input_commitment'', JStr (sj_input_commitment j)),
     (''deadline'', json_word (sj_deadline j)), (''max_price'', json_word (sj_max_price j)),
     (''program_digest'', JStr (sj_program_digest j)),
     (''output_schema_digest'', JStr (sj_output_schema_digest j)),
     (''receipt_type'', JStr (sj_receipt_type j)),
     (''privacy_requirement'', JStr (sj_privacy_requirement j))]"

definition input_digest :: "crypto \<Rightarrow> u64 list \<Rightarrow> string" where
  "input_digest env inputs = digest env (json_list json_word inputs)"

definition result_digest :: "crypto \<Rightarrow> sum_job \<Rightarrow> u64 \<Rightarrow> string" where
  "result_digest env j out = digest env (JArr [JStr (sj_program_digest j),
     json_list json_word (sj_inputs j), json_word out])"

text \<open>The \<open>try_fold\<close> of \<open>checked_sum\<close>.\<close>

fun checked_sum_from :: "u64 \<Rightarrow> u64 list \<Rightarrow> u64 result" where
  "checked_sum_from tot [] = Inr tot"
| "checked_sum_from tot (x # xs) =
     try_r (ok_or (Err_Rejected ''fixed sum overflow'') (checked_add tot x)) (\<lambda>t. checked_sum_from t xs)"

definition checked_sum :: "u64 list \<Rightarrow> u64 result" where
  "checked_sum inputs = checked_sum_from 0 inputs"

definition job_validate :: "crypto \<Rightarrow> sum_job \<Rightarrow> unit result" where
  "job_validate env j =
     (if sj_job_id j = [] \<or> has_control (sj_job_id j) \<or> sj_requester j = [] \<or>
         has_control (sj_requester j) \<or> sj_inputs j = [] \<or> 1024 < length (sj_inputs j) \<or>
         sj_input_commitment j \<noteq> input_digest env (sj_inputs j) \<or> sj_deadline j = 0 \<or>
         sj_program_digest j \<noteq> sum_program_digest env \<or>
         sj_output_schema_digest j \<noteq> output_schema_digest env \<or>
         sj_receipt_type j \<noteq> ''ordinary-receipt-v1'' \<or> sj_privacy_requirement j \<noteq> ''none''
      then Inl (Err_Invalid ''invalid fixed compute job'')
      else try_r (checked_sum (sj_inputs j)) (\<lambda>_. Inr ()))"

definition job_new :: "crypto \<Rightarrow> string \<Rightarrow> string \<Rightarrow> u64 list \<Rightarrow> u64 \<Rightarrow> u64 \<Rightarrow> sum_job result" where
  "job_new env job_id requester inputs deadline max_price =
     (let j = \<lparr>sj_job_id = job_id, sj_requester = requester, sj_inputs = inputs,
        sj_input_commitment = input_digest env inputs, sj_deadline = deadline,
        sj_max_price = max_price, sj_program_digest = sum_program_digest env,
        sj_output_schema_digest = output_schema_digest env,
        sj_receipt_type = ''ordinary-receipt-v1'', sj_privacy_requirement = ''none''\<rparr>
      in try_r (job_validate env j) (\<lambda>_. Inr j))"

definition job_digest :: "crypto \<Rightarrow> sum_job \<Rightarrow> string result" where
  "job_digest env j = try_r (job_validate env j) (\<lambda>_. Inr (digest env (json_sum_job j)))"

section \<open>Receipts and offers\<close>

text \<open>
  The digests that the code computes inside a condition cannot fail there, since the job was
  validated first, so computing them before the condition changes nothing.
\<close>

record sum_receipt =
  sr_job_digest :: string
  sr_offer_id :: string
  sr_runtime_digest :: string
  sr_program_digest :: string
  sr_input_digest :: string
  sr_output_schema_digest :: string
  sr_receipt_type :: string
  sr_privacy_requirement :: string
  sr_result_digest :: string
  sr_provider :: string
  sr_output :: u64
  sr_completed_at :: u64
  sr_price :: u64
  sr_succeeded :: bool

definition json_sum_receipt :: "sum_receipt \<Rightarrow> json" where
  "json_sum_receipt r = JObj
    [(''job_digest'', JStr (sr_job_digest r)), (''offer_id'', JStr (sr_offer_id r)),
     (''runtime_digest'', JStr (sr_runtime_digest r)),
     (''program_digest'', JStr (sr_program_digest r)), (''input_digest'', JStr (sr_input_digest r)),
     (''output_schema_digest'', JStr (sr_output_schema_digest r)),
     (''receipt_type'', JStr (sr_receipt_type r)),
     (''privacy_requirement'', JStr (sr_privacy_requirement r)),
     (''result_digest'', JStr (sr_result_digest r)), (''provider'', JStr (sr_provider r)),
     (''output'', json_word (sr_output r)), (''completed_at'', json_word (sr_completed_at r)),
     (''price'', json_word (sr_price r)), (''succeeded'', JBool (sr_succeeded r))]"

definition sum_receipt_validate :: "crypto \<Rightarrow> sum_receipt \<Rightarrow> sum_job \<Rightarrow> u64 \<Rightarrow> unit result" where
  "sum_receipt_validate env r j now =
     try_r (job_validate env j) (\<lambda>_.
     try_r (job_digest env j) (\<lambda>jd.
     try_r (checked_sum (sj_inputs j)) (\<lambda>tot.
     if sr_provider r = [] \<or> has_control (sr_provider r) \<or> sr_provider r = sj_requester j \<or>
        sr_offer_id r = [] \<or> has_control (sr_offer_id r) \<or> sr_runtime_digest r \<noteq> runtime_digest env \<or>
        now < sr_completed_at r \<or> sj_deadline j \<le> now \<or> sr_job_digest r \<noteq> jd \<or>
        sr_program_digest r \<noteq> sj_program_digest j \<or>
        sr_input_digest r \<noteq> input_digest env (sj_inputs j) \<or>
        sr_input_digest r \<noteq> sj_input_commitment j \<or>
        sr_output_schema_digest r \<noteq> sj_output_schema_digest j \<or>
        sr_receipt_type r \<noteq> sj_receipt_type j \<or>
        sr_privacy_requirement r \<noteq> sj_privacy_requirement j \<or> \<not> sr_succeeded r \<or>
        sr_output r \<noteq> tot \<or> sr_result_digest r \<noteq> result_digest env j (sr_output r) \<or>
        sj_max_price j < sr_price r \<or> \<not> valid_digest (sr_job_digest r) \<or>
        \<not> valid_digest (sr_program_digest r) \<or> \<not> valid_digest (sr_input_digest r)
     then Inl (Err_Rejected ''fixed compute receipt is invalid'') else Inr ())))"

record sum_offer =
  so_job_digest :: string
  so_offer_id :: string
  so_provider :: string
  so_runtime_digest :: string
  so_result_digest :: string
  so_receipt_type :: string
  so_price :: u64
  so_submitted_at :: u64
  so_expires_at :: u64

definition offer_validate :: "crypto \<Rightarrow> sum_offer \<Rightarrow> sum_job \<Rightarrow> u64 \<Rightarrow> unit result" where
  "offer_validate env f j now =
     try_r (job_validate env j) (\<lambda>_.
     try_r (job_digest env j) (\<lambda>jd.
     try_r (checked_sum (sj_inputs j)) (\<lambda>tot.
     if so_offer_id f = [] \<or> so_job_digest f \<noteq> jd \<or> has_control (so_offer_id f) \<or>
        so_provider f = [] \<or> has_control (so_provider f) \<or> so_provider f = sj_requester j \<or>
        so_runtime_digest f \<noteq> runtime_digest env \<or> so_result_digest f \<noteq> result_digest env j tot \<or>
        so_receipt_type f \<noteq> sj_receipt_type j \<or> sj_max_price j < so_price f \<or>
        now < so_submitted_at f \<or> so_expires_at f \<le> so_submitted_at f \<or>
        sj_deadline j < so_expires_at f
     then Inl (Err_Rejected ''fixed compute offer is invalid'') else Inr ())))"

definition offer_new ::
  "crypto \<Rightarrow> sum_job \<Rightarrow> string \<Rightarrow> string \<Rightarrow> u64 \<Rightarrow> u64 \<Rightarrow> u64 \<Rightarrow> sum_offer result" where
  "offer_new env j offer_id provider price submitted_at expires_at =
     try_r (job_validate env j) (\<lambda>_.
     try_r (checked_sum (sj_inputs j)) (\<lambda>out.
     try_r (job_digest env j) (\<lambda>jd.
     let f = \<lparr>so_job_digest = jd, so_offer_id = offer_id, so_provider = provider,
       so_runtime_digest = runtime_digest env, so_result_digest = result_digest env j out,
       so_receipt_type = sj_receipt_type j, so_price = price, so_submitted_at = submitted_at,
       so_expires_at = expires_at\<rparr>
     in try_r (offer_validate env f j submitted_at) (\<lambda>_. Inr f))))"

datatype settlement_status = AuthorizationRequired

record settlement_proposal =
  sp_job_digest :: string
  sp_offer_id :: string
  sp_receipt_digest :: string
  sp_provider :: string
  sp_price :: u64
  sp_status :: settlement_status

definition settlement_validate ::
  "crypto \<Rightarrow> settlement_proposal \<Rightarrow> sum_job \<Rightarrow> sum_receipt \<Rightarrow> unit result" where
  "settlement_validate env s j r =
     try_r (job_validate env j) (\<lambda>_.
     try_r (sum_receipt_validate env r j (sr_completed_at r)) (\<lambda>_.
     try_r (job_digest env j) (\<lambda>jd.
     if sp_job_digest s \<noteq> jd \<or> sp_offer_id s \<noteq> sr_offer_id r \<or>
        sp_receipt_digest s \<noteq> digest env (json_sum_receipt r) \<or> sp_provider s \<noteq> sr_provider r \<or>
        sp_price s \<noteq> sr_price r \<or> sp_status s \<noteq> AuthorizationRequired
     then Inl (Err_Rejected ''settlement proposal binding mismatch'') else Inr ())))"

section \<open>Selection and execution\<close>

text \<open>The loop of \<open>select_offer\<close>, with the set of eligible ids and the eligible offers so far.\<close>

fun eligible_offers ::
  "crypto \<Rightarrow> sum_job \<Rightarrow> u64 \<Rightarrow> string bset \<Rightarrow> sum_offer list \<Rightarrow> sum_offer list \<Rightarrow> sum_offer list result" where
  "eligible_offers env j now ids acc [] = Inr acc"
| "eligible_offers env j now ids acc (f # fs) = try_r (offer_validate env f j now) (\<lambda>_.
     if now < so_expires_at f
     then if bs_contains ids (so_offer_id f)
          then Inl (Err_Quarantined ''duplicate eligible offer identity'')
          else eligible_offers env j now (bs_insert (so_offer_id f) ids) (acc @ [f]) fs
     else eligible_offers env j now ids acc fs)"

definition offer_key :: "sum_offer \<Rightarrow> u64 \<times> string \<times> string" where
  "offer_key f = (so_price f, so_provider f, so_offer_id f)"

definition select_offer :: "crypto \<Rightarrow> sum_job \<Rightarrow> sum_offer list \<Rightarrow> u64 \<Rightarrow> sum_offer result" where
  "select_offer env j offers now =
     try_r (eligible_offers env j now [] [] offers) (\<lambda>eligible.
     case sort_key offer_key eligible of
       [] \<Rightarrow> Inl (Err_Quarantined ''no eligible fixed compute offer'')
     | f # _ \<Rightarrow> Inr f)"

definition execute_local :: "crypto \<Rightarrow> sum_job \<Rightarrow> u64 \<Rightarrow> sum_receipt result" where
  "execute_local env j now =
     try_r (job_validate env j) (\<lambda>_.
     if sj_deadline j \<le> now then Inl (Err_Rejected ''job expired'')
     else try_r (checked_sum (sj_inputs j)) (\<lambda>out.
          try_r (job_digest env j) (\<lambda>jd.
          Inr \<lparr>sr_job_digest = jd, sr_offer_id = ''local-direct-v1'',
            sr_runtime_digest = runtime_digest env, sr_program_digest = sj_program_digest j,
            sr_input_digest = input_digest env (sj_inputs j),
            sr_output_schema_digest = sj_output_schema_digest j,
            sr_receipt_type = sj_receipt_type j, sr_privacy_requirement = sj_privacy_requirement j,
            sr_result_digest = result_digest env j out, sr_provider = ''local-sum'',
            sr_output = out, sr_completed_at = now, sr_price = 0, sr_succeeded = True\<rparr>)))"

definition execute_local_with_offer ::
  "crypto \<Rightarrow> sum_job \<Rightarrow> sum_offer \<Rightarrow> u64 \<Rightarrow> sum_receipt result" where
  "execute_local_with_offer env j f now =
     try_r (offer_validate env f j now) (\<lambda>_.
     if sj_deadline j \<le> now \<or> so_expires_at f \<le> now
     then Inl (Err_Rejected ''fixed compute offer expired'')
     else try_r (checked_sum (sj_inputs j)) (\<lambda>out.
          if so_result_digest f \<noteq> result_digest env j out
          then Inl (Err_Rejected ''offer result commitment mismatched'')
          else try_r (job_digest env j) (\<lambda>jd.
          Inr \<lparr>sr_job_digest = jd, sr_offer_id = so_offer_id f,
            sr_runtime_digest = so_runtime_digest f, sr_program_digest = sj_program_digest j,
            sr_input_digest = input_digest env (sj_inputs j),
            sr_output_schema_digest = sj_output_schema_digest j,
            sr_receipt_type = sj_receipt_type j, sr_privacy_requirement = sj_privacy_requirement j,
            sr_result_digest = result_digest env j out, sr_provider = so_provider f,
            sr_output = out, sr_completed_at = now, sr_price = so_price f, sr_succeeded = True\<rparr>)))"

section \<open>The market verifier\<close>

record market_verifier =
  mv_verified :: "string bset"
  mv_reserved :: "string bset"

definition market_verifier_default :: market_verifier where
  "market_verifier_default = \<lparr>mv_verified = [], mv_reserved = []\<rparr>"

definition market_verifier_validate :: "market_verifier \<Rightarrow> unit result" where
  "market_verifier_validate v =
     (if list_ex (\<lambda>x. \<not> valid_digest x) (mv_verified v @ mv_reserved v)
      then Inl (Err_Invalid ''market verifier state contains malformed digest'') else Inr ())"

definition market_verify ::
  "crypto \<Rightarrow> market_verifier \<Rightarrow> sum_job \<Rightarrow> sum_receipt \<Rightarrow> u64 \<Rightarrow> bool result \<times> market_verifier" where
  "market_verify env v j r now =
     (if \<not> is_ok (job_validate env j) \<or> \<not> is_ok (sum_receipt_validate env r j now)
      then (Inr False, v)
      else let rd = digest env (json_sum_receipt r)
           in (Inr (\<not> bs_contains (mv_verified v) rd), v\<lparr>mv_verified := bs_insert rd (mv_verified v)\<rparr>))"

text \<open>
  The condition of \<open>propose_settlement_inner\<close> is evaluated left to right: the job's digest is reserved
  only when every earlier test passed.
\<close>

definition propose_settlement_inner ::
  "crypto \<Rightarrow> market_verifier \<Rightarrow> sum_job \<Rightarrow> sum_receipt \<Rightarrow> u64 \<Rightarrow> settlement_proposal result \<times> market_verifier" where
  "propose_settlement_inner env v j r now =
     (let rd = digest env (json_sum_receipt r);
          refused = Inl (Err_Rejected ''receipt is unverified, expired, or replayed'')
      in if \<not> is_ok (sum_receipt_validate env r j now) \<or> sj_deadline j \<le> now \<or>
            \<not> bs_contains (mv_verified v) rd
         then (refused, v)
         else case job_digest env j of
           Inl e \<Rightarrow> (Inl e, v)
         | Inr jd \<Rightarrow>
           if bs_contains (mv_reserved v) jd then (refused, v)
           else let v' = v\<lparr>mv_reserved := bs_insert jd (mv_reserved v)\<rparr>;
                    s = \<lparr>sp_job_digest = jd, sp_offer_id = sr_offer_id r, sp_receipt_digest = rd,
                      sp_provider = sr_provider r, sp_price = sr_price r, sp_status = AuthorizationRequired\<rparr>
                in (try_r (settlement_validate env s j r) (\<lambda>_. Inr s), v'))"

definition propose_settlement ::
  "crypto \<Rightarrow> market_verifier \<Rightarrow> sum_job \<Rightarrow> sum_receipt \<Rightarrow> u64 \<Rightarrow> settlement_proposal result \<times> market_verifier" where
  "propose_settlement env v j r now =
     (if sr_offer_id r \<noteq> ''local-direct-v1''
      then (Inl (Err_Rejected ''offer-backed settlement requires exact offer binding''), v)
      else propose_settlement_inner env v j r now)"

definition propose_settlement_for_offer ::
  "crypto \<Rightarrow> market_verifier \<Rightarrow> sum_job \<Rightarrow> sum_offer \<Rightarrow> sum_receipt \<Rightarrow> u64 \<Rightarrow>
     settlement_proposal result \<times> market_verifier" where
  "propose_settlement_for_offer env v j f r now =
     (case offer_validate env f j now of
        Inl e \<Rightarrow> (Inl e, v)
      | Inr _ \<Rightarrow>
        if sr_offer_id r \<noteq> so_offer_id f \<or> sr_completed_at r < so_submitted_at f \<or>
           so_expires_at f \<le> sr_completed_at r \<or> sr_provider r \<noteq> so_provider f \<or>
           sr_price r \<noteq> so_price f \<or> sr_runtime_digest r \<noteq> so_runtime_digest f
        then (Inl (Err_Rejected ''receipt does not bind the selected offer or completion window''), v)
        else propose_settlement_inner env v j r now)"

section \<open>Sums\<close>

lemma checked_sum_from_Inr:
  "checked_sum_from t xs = Inr s \<longleftrightarrow>
     unat t + sum_list (map unat xs) < 2 ^ 64 \<and> unat s = unat t + sum_list (map unat xs)"
proof (induction xs arbitrary: t)
  case Nil
  show ?case using unsigned_less [of t, where 'a = nat] by (auto simp: word_unat_eq_iff)
next
  case (Cons x xs)
  show ?case
  proof (cases "checked_add t x")
    case None
    then show ?thesis using checked_add_eq_None [of t x] by simp
  next
    case (Some y)
    then show ?thesis using checked_add_eq_Some [of t x y] Cons.IH [of y] by auto
  qed
qed

lemma checked_sum_from_total:
  "checked_sum_from t xs = Inl (Err_Rejected ''fixed sum overflow'') \<or> (\<exists>s. checked_sum_from t xs = Inr s)"
proof (induction xs arbitrary: t)
  case (Cons x xs)
  then show ?case by (cases "checked_add t x") auto
qed simp

text \<open>
  The fixed computation is exact: \<open>checked_sum\<close> returns the sum of the inputs as integers whenever that sum fits in
  64 bits, and the overflow error otherwise; it never wraps around.
\<close>

theorem checked_sum_exact:
  "if sum_list (map unat xs) < 2 ^ 64
   then \<exists>s. checked_sum xs = Inr s \<and> unat s = sum_list (map unat xs)
   else checked_sum xs = Inl (Err_Rejected ''fixed sum overflow'')"
proof (cases "sum_list (map unat xs) < 2 ^ 64")
  case True
  then have "unat (of_nat (sum_list (map unat xs)) :: u64) = sum_list (map unat xs)" by (rule unat_of_nat_u64)
  then have "checked_sum xs = Inr (of_nat (sum_list (map unat xs)))"
    using True by (simp add: checked_sum_def checked_sum_from_Inr)
  then show ?thesis using True \<open>unat _ = _\<close> by simp
next
  case False
  then show ?thesis
    using checked_sum_from_total [of 0 xs] checked_sum_from_Inr [of 0 xs] by (auto simp: checked_sum_def)
qed

section \<open>Validation, unfolded\<close>

lemma job_digest_Inr: "job_digest env j = Inr x \<longleftrightarrow> job_validate env j = Inr () \<and> x = digest env (json_sum_job j)"
  by (auto simp: job_digest_def try_r_eq_Inr)

lemma job_validate_sum: "job_validate env j = Inr () \<Longrightarrow> \<exists>s. checked_sum (sj_inputs j) = Inr s"
  by (auto simp: job_validate_def try_r_eq_Inr split: if_splits)

lemma job_validate_digests:
  "sha256_len env \<Longrightarrow> job_validate env j = Inr () \<Longrightarrow>
     sj_program_digest j = sum_program_digest env \<and> sj_input_commitment j = input_digest env (sj_inputs j) \<and>
     valid_digest (sum_program_digest env) \<and> valid_digest (input_digest env (sj_inputs j))"
  by (auto simp: job_validate_def sum_program_digest_def input_digest_def split: if_splits)

lemma offer_validate_ok:
  "offer_validate env f j now = Inr () \<longleftrightarrow>
     job_validate env j = Inr () \<and> so_offer_id f \<noteq> [] \<and> so_job_digest f = digest env (json_sum_job j) \<and>
     \<not> has_control (so_offer_id f) \<and> so_provider f \<noteq> [] \<and> \<not> has_control (so_provider f) \<and>
     so_provider f \<noteq> sj_requester j \<and> so_runtime_digest f = runtime_digest env \<and>
     (\<exists>s. checked_sum (sj_inputs j) = Inr s \<and> so_result_digest f = result_digest env j s) \<and>
     so_receipt_type f = sj_receipt_type j \<and> so_price f \<le> sj_max_price j \<and> so_submitted_at f \<le> now \<and>
     so_submitted_at f < so_expires_at f \<and> so_expires_at f \<le> sj_deadline j"
  by (auto simp: offer_validate_def try_r_eq_Inr job_digest_Inr not_less not_le split: if_splits)

lemma sum_receipt_validate_ok:
  "sum_receipt_validate env r j now = Inr () \<longleftrightarrow>
     job_validate env j = Inr () \<and> sr_provider r \<noteq> [] \<and> \<not> has_control (sr_provider r) \<and>
     sr_provider r \<noteq> sj_requester j \<and> sr_offer_id r \<noteq> [] \<and> \<not> has_control (sr_offer_id r) \<and>
     sr_runtime_digest r = runtime_digest env \<and> sr_completed_at r \<le> now \<and> now < sj_deadline j \<and>
     sr_job_digest r = digest env (json_sum_job j) \<and> sr_program_digest r = sj_program_digest j \<and>
     sr_input_digest r = input_digest env (sj_inputs j) \<and> sr_input_digest r = sj_input_commitment j \<and>
     sr_output_schema_digest r = sj_output_schema_digest j \<and> sr_receipt_type r = sj_receipt_type j \<and>
     sr_privacy_requirement r = sj_privacy_requirement j \<and> sr_succeeded r \<and>
     checked_sum (sj_inputs j) = Inr (sr_output r) \<and> sr_result_digest r = result_digest env j (sr_output r) \<and>
     sr_price r \<le> sj_max_price j \<and> valid_digest (sr_job_digest r) \<and> valid_digest (sr_program_digest r) \<and>
     valid_digest (sr_input_digest r)"
  by (auto simp: sum_receipt_validate_def try_r_eq_Inr job_digest_Inr not_less not_le split: if_splits)

section \<open>Selection\<close>

lemma eligible_offers_Inr:
  "eligible_offers env j now ids acc fs = Inr out \<longleftrightarrow>
     (\<forall>f\<in>set fs. offer_validate env f j now = Inr ()) \<and>
     out = acc @ filter (\<lambda>f. now < so_expires_at f) fs \<and>
     distinct (map so_offer_id (filter (\<lambda>f. now < so_expires_at f) fs)) \<and>
     set (map so_offer_id (filter (\<lambda>f. now < so_expires_at f) fs)) \<inter> set ids = {}"
  by (induction fs arbitrary: ids acc) (auto simp: try_r_eq_Inr bs_contains_def split: if_splits)

text \<open>
  Offer selection is exact: \<open>select_offer\<close> succeeds if and only if every offer is valid for the job, the ids of the
  unexpired ones are distinct and there is one, and it returns an unexpired valid offer with the least (price, provider, id).
\<close>

theorem select_offer_exact:
  "(is_ok (select_offer env j offers now) \<longleftrightarrow>
      (\<forall>f\<in>set offers. offer_validate env f j now = Inr ()) \<and>
      distinct (map so_offer_id (filter (\<lambda>f. now < so_expires_at f) offers)) \<and>
      (\<exists>f\<in>set offers. now < so_expires_at f)) \<and>
   (\<forall>f. select_offer env j offers now = Inr f \<longrightarrow>
      f \<in> set offers \<and> offer_validate env f j now = Inr () \<and> now < so_expires_at f \<and>
      (\<forall>g\<in>set offers. now < so_expires_at g \<longrightarrow> offer_key f \<le> offer_key g))"
proof -
  let ?el = "filter (\<lambda>f. now < so_expires_at f) offers"
  have sel: "select_offer env j offers now = Inr f \<longleftrightarrow>
      (\<forall>f\<in>set offers. offer_validate env f j now = Inr ()) \<and> distinct (map so_offer_id ?el) \<and>
      (\<exists>ys. sort_key offer_key ?el = f # ys)" for f
    by (auto simp: select_offer_def try_r_eq_Inr eligible_offers_Inr split: list.splits)
  have "(\<exists>f ys. sort_key offer_key ?el = f # ys) \<longleftrightarrow> (\<exists>f\<in>set offers. now < so_expires_at f)"
    by (metis (no_types, lifting) filter_empty_conv list.exhaust list.distinct(1) set_empty set_sort)
  then have "is_ok (select_offer env j offers now) \<longleftrightarrow>
      (\<forall>f\<in>set offers. offer_validate env f j now = Inr ()) \<and> distinct (map so_offer_id ?el) \<and>
      (\<exists>f\<in>set offers. now < so_expires_at f)"
    unfolding is_ok_iff sel by blast
  moreover have "f \<in> set offers \<and> offer_validate env f j now = Inr () \<and> now < so_expires_at f \<and>
      (\<forall>g\<in>set offers. now < so_expires_at g \<longrightarrow> offer_key f \<le> offer_key g)"
    if picked: "select_offer env j offers now = Inr f" for f
  proof -
    obtain ys where ys: "sort_key offer_key ?el = f # ys" "\<forall>f\<in>set offers. offer_validate env f j now = Inr ()"
      using picked unfolding sel by blast
    then show ?thesis using sort_key_head [OF ys(1)] by auto
  qed
  ultimately show ?thesis by blast
qed

definition demo_job :: sum_job where
  "demo_job = \<lparr>sj_job_id = ''j1'', sj_requester = ''alice'', sj_inputs = [3, 4],
     sj_input_commitment = zero_digest, sj_deadline = 100, sj_max_price = 9,
     sj_program_digest = zero_digest, sj_output_schema_digest = zero_digest,
     sj_receipt_type = ''ordinary-receipt-v1'', sj_privacy_requirement = ''none''\<rparr>"

definition demo_offer :: "string \<Rightarrow> u64 \<Rightarrow> sum_offer" where
  "demo_offer oid price = \<lparr>so_job_digest = zero_digest, so_offer_id = oid, so_provider = ''bob'',
     so_runtime_digest = zero_digest, so_result_digest = zero_digest,
     so_receipt_type = ''ordinary-receipt-v1'', so_price = price, so_submitted_at = 10, so_expires_at = 50\<rparr>"

lemma demo_job_sum: "checked_sum (sj_inputs demo_job) = Inr 7"
  by (simp add: checked_sum_def demo_job_def checked_add_def)

lemma demo_job_valid: "job_validate demo_env demo_job = Inr ()"
proof -
  have "checked_sum [3, 4] = Inr 7" using demo_job_sum by (simp add: demo_job_def)
  then show ?thesis
    by (simp add: job_validate_def demo_job_def input_digest_def sum_program_digest_def
        output_schema_digest_def ascii_control_def)
qed

lemma demo_offer_valid:
  assumes "oid = ''o1'' \<or> oid = ''o2''" and "price \<le> 9"
  shows "offer_validate demo_env (demo_offer oid price) demo_job 20 = Inr ()"
  unfolding offer_validate_ok using assms demo_job_valid demo_job_sum
  by (auto simp: demo_offer_def demo_job_def runtime_digest_def result_digest_def ascii_control_def)

theorem select_offer_exact_witness:
  "\<exists>f. select_offer demo_env demo_job [demo_offer ''o1'' 5, demo_offer ''o2'' 4] 20 = Inr f \<and> so_price f \<le> 4"
proof -
  let ?fs = "[demo_offer ''o1'' 5, demo_offer ''o2'' 4]"
  have "\<forall>f\<in>set ?fs. offer_validate demo_env f demo_job 20 = Inr ()" using demo_offer_valid by simp
  moreover have "distinct (map so_offer_id (filter (\<lambda>f. 20 < so_expires_at f) ?fs))"
    "\<exists>f\<in>set ?fs. 20 < so_expires_at f"
    by (simp_all add: demo_offer_def)
  ultimately obtain f where f: "select_offer demo_env demo_job ?fs 20 = Inr f"
    using select_offer_exact [of demo_env demo_job ?fs 20] unfolding is_ok_iff by blast
  then have "\<forall>g\<in>set ?fs. 20 < so_expires_at g \<longrightarrow> offer_key f \<le> offer_key g"
    using select_offer_exact [of demo_env demo_job ?fs 20] by blast
  then have "offer_key f \<le> offer_key (demo_offer ''o2'' 4)" by (simp add: demo_offer_def)
  then have "so_price f \<le> 4" by (auto simp: offer_key_def demo_offer_def less_eq_prod_def)
  then show ?thesis using f by blast
qed

section \<open>Settlement\<close>

lemma settlement_fresh:
  assumes "sum_receipt_validate env r j now = Inr ()"
  shows "settlement_validate env \<lparr>sp_job_digest = digest env (json_sum_job j), sp_offer_id = sr_offer_id r,
      sp_receipt_digest = digest env (json_sum_receipt r), sp_provider = sr_provider r, sp_price = sr_price r,
      sp_status = AuthorizationRequired\<rparr> j r = Inr ()"
proof -
  have j: "job_validate env j = Inr ()" using assms by (simp add: sum_receipt_validate_ok)
  have "sum_receipt_validate env r j (sr_completed_at r) = Inr ()"
    using assms unfolding sum_receipt_validate_ok by auto
  moreover have "job_digest env j = Inr (digest env (json_sum_job j))" using j by (simp add: job_digest_Inr)
  ultimately show ?thesis using j by (simp add: settlement_validate_def)
qed

definition settlement_of :: "crypto \<Rightarrow> sum_job \<Rightarrow> sum_receipt \<Rightarrow> settlement_proposal" where
  "settlement_of env j r = \<lparr>sp_job_digest = digest env (json_sum_job j), sp_offer_id = sr_offer_id r,
      sp_receipt_digest = digest env (json_sum_receipt r), sp_provider = sr_provider r, sp_price = sr_price r,
      sp_status = AuthorizationRequired\<rparr>"

lemma propose_inner_ok:
  assumes "sum_receipt_validate env r j now = Inr ()" and "digest env (json_sum_receipt r) \<in> set (mv_verified v)"
    and "digest env (json_sum_job j) \<notin> set (mv_reserved v)"
  shows "propose_settlement_inner env v j r now =
    (Inr (settlement_of env j r), v\<lparr>mv_reserved := bs_insert (digest env (json_sum_job j)) (mv_reserved v)\<rparr>)"
proof -
  have j: "job_validate env j = Inr ()" "now < sj_deadline j" using assms(1) by (auto simp: sum_receipt_validate_ok)
  then have "job_digest env j = Inr (digest env (json_sum_job j))" by (simp add: job_digest_Inr)
  then show ?thesis
    using assms j settlement_fresh [OF assms(1)]
    by (simp add: propose_settlement_inner_def settlement_of_def Let_def bs_contains_def not_le)
qed

lemma propose_inner_cases:
  obtains (refused) e where "propose_settlement_inner env v j r now = (Inl e, v)"
  | (proposed) "propose_settlement_inner env v j r now =
        (Inr (settlement_of env j r), v\<lparr>mv_reserved := bs_insert (digest env (json_sum_job j)) (mv_reserved v)\<rparr>)"
      "digest env (json_sum_job j) \<notin> set (mv_reserved v)"
      "sum_receipt_validate env r j now = Inr ()" "digest env (json_sum_receipt r) \<in> set (mv_verified v)"
proof (cases "sum_receipt_validate env r j now = Inr () \<and> digest env (json_sum_receipt r) \<in> set (mv_verified v) \<and>
    digest env (json_sum_job j) \<notin> set (mv_reserved v)")
  case True
  then show thesis using proposed propose_inner_ok [of env r j now v] by blast
next
  case False
  then have "\<exists>e. propose_settlement_inner env v j r now = (Inl e, v)"
    by (cases "job_validate env j")
      (auto simp: propose_settlement_inner_def Let_def job_digest_def bs_contains_def is_ok_unit)
  then show thesis using refused by blast
qed

lemma settlement_of_simps [simp]:
  "sp_job_digest (settlement_of env j r) = digest env (json_sum_job j)"
  "sp_provider (settlement_of env j r) = sr_provider r" "sp_price (settlement_of env j r) = sr_price r"
  "sp_status (settlement_of env j r) = AuthorizationRequired"
  by (simp_all add: settlement_of_def)

datatype market_op =
    MO_Verify sum_job sum_receipt u64
  | MO_Propose sum_job sum_receipt u64
  | MO_ProposeForOffer sum_job sum_offer sum_receipt u64

fun market_step :: "crypto \<Rightarrow> market_verifier \<Rightarrow> market_op \<Rightarrow> market_verifier" where
  "market_step env v (MO_Verify j r now) = snd (market_verify env v j r now)"
| "market_step env v (MO_Propose j r now) = snd (propose_settlement env v j r now)"
| "market_step env v (MO_ProposeForOffer j f r now) = snd (propose_settlement_for_offer env v j f r now)"

fun market_settles :: "crypto \<Rightarrow> market_verifier \<Rightarrow> market_op \<Rightarrow> settlement_proposal option" where
  "market_settles env v (MO_Verify j r now) = None"
| "market_settles env v (MO_Propose j r now) =
     (case fst (propose_settlement env v j r now) of Inl _ \<Rightarrow> None | Inr s \<Rightarrow> Some s)"
| "market_settles env v (MO_ProposeForOffer j f r now) =
     (case fst (propose_settlement_for_offer env v j f r now) of Inl _ \<Rightarrow> None | Inr s \<Rightarrow> Some s)"

fun settlements :: "crypto \<Rightarrow> market_verifier \<Rightarrow> market_op list \<Rightarrow> settlement_proposal list" where
  "settlements env v [] = []"
| "settlements env v (a # as) =
     (case market_settles env v a of None \<Rightarrow> [] | Some s \<Rightarrow> [s]) @ settlements env (market_step env v a) as"

lemma propose_for_offer_cases:
  obtains (unbound) e where "propose_settlement_for_offer env v j f r now = (Inl e, v)"
  | (bound) "propose_settlement_for_offer env v j f r now = propose_settlement_inner env v j r now"
proof -
  have "(\<exists>e. propose_settlement_for_offer env v j f r now = (Inl e, v)) \<or>
      propose_settlement_for_offer env v j f r now = propose_settlement_inner env v j r now"
    by (simp add: propose_settlement_for_offer_def split: sum.splits)
  then show thesis using unbound bound by blast
qed

lemma market_step_cases:
  obtains (none) "market_settles env v a = None" "mv_reserved (market_step env v a) = mv_reserved v"
  | (settled) s where "market_settles env v a = Some s" "sp_job_digest s \<notin> set (mv_reserved v)"
      "mv_reserved (market_step env v a) = bs_insert (sp_job_digest s) (mv_reserved v)"
proof -
  have inner: thesis
    if "market_step env v a = snd (propose_settlement_inner env v j r now)"
      "market_settles env v a = (case fst (propose_settlement_inner env v j r now) of Inl _ \<Rightarrow> None | Inr s \<Rightarrow> Some s)"
    for j r now
    by (cases rule: propose_inner_cases [of env v j r now]) (use that none settled in auto)
  show thesis
  proof (cases a)
    case (MO_Verify j r now)
    then show thesis by (intro none) (simp_all add: market_verify_def Let_def)
  next
    case (MO_Propose j r now)
    then show thesis
      by (cases "sr_offer_id r = ''local-direct-v1''")
        (use none inner [of j r now] in \<open>simp_all add: propose_settlement_def\<close>)
  next
    case (MO_ProposeForOffer j f r now)
    then show thesis
      by (cases rule: propose_for_offer_cases [of env v j f r now])
        (use none inner [of j r now] in simp_all)
  qed
qed

lemma settlements_fresh: "s \<in> set (settlements env v ops) \<Longrightarrow> sp_job_digest s \<notin> set (mv_reserved v)"
proof (induction ops arbitrary: v)
  case (Cons a ops)
  have ih: "s \<in> set (settlements env (market_step env v a) ops) \<Longrightarrow>
      sp_job_digest s \<notin> set (mv_reserved (market_step env v a))" by (rule Cons.IH)
  show ?case by (cases rule: market_step_cases [of env v a]) (use Cons.prems ih in auto)
qed simp

text \<open>
  C26.  A job is settled once: over any sequence of verifications and settlement proposals the job digests of the
  proposals that succeed are pairwise different, and none of them was reserved before.
\<close>

theorem settled_at_most_once:
  "distinct (map sp_job_digest (settlements env v ops))"
proof (induction ops arbitrary: v)
  case (Cons a ops)
  show ?case
  proof (cases rule: market_step_cases [of env v a])
    case none
    then show ?thesis using Cons.IH by simp
  next
    case (settled s)
    have "sp_job_digest s' \<noteq> sp_job_digest s" if "s' \<in> set (settlements env (market_step env v a) ops)" for s'
      using settlements_fresh [OF that] settled(3) by auto
    then have "sp_job_digest s \<notin> set (map sp_job_digest (settlements env (market_step env v a) ops))"
      by (metis (no_types, lifting) imageE list.set_map)
    then show ?thesis using settled Cons.IH by simp
  qed
qed simp

text \<open>
  A settlement proposal is earned: \<open>propose_settlement_for_offer\<close> succeeds only for a receipt the verifier has verified,
  whose output is the exact sum of the job's inputs, whose provider is not the requester, and whose price is the offer's and at most the job's
  maximum; and it only ever asks for authorization.
\<close>

theorem settlement_is_earned:
  assumes "propose_settlement_for_offer env v j f r now = (Inr s, v')"
  shows "digest env (json_sum_receipt r) \<in> set (mv_verified v) \<and>
    unat (sr_output r) = sum_list (map unat (sj_inputs j)) \<and> sum_list (map unat (sj_inputs j)) < 2 ^ 64 \<and>
    sp_provider s \<noteq> sj_requester j \<and> sp_price s = so_price f \<and> so_price f \<le> sj_max_price j \<and>
    so_submitted_at f \<le> sr_completed_at r \<and> sr_completed_at r < so_expires_at f \<and> sr_completed_at r \<le> now \<and>
    now < sj_deadline j \<and> sp_status s = AuthorizationRequired"
proof -
  have f: "offer_validate env f j now = Inr ()" "sr_price r = so_price f" "so_submitted_at f \<le> sr_completed_at r"
    "sr_completed_at r < so_expires_at f" and inner: "propose_settlement_inner env v j r now = (Inr s, v')"
    using assms by (auto simp: propose_settlement_for_offer_def not_less not_le split: sum.splits if_splits)
  show ?thesis
  proof (cases rule: propose_inner_cases [of env v j r now])
    case (refused e)
    then show ?thesis using inner by simp
  next
    case proposed
    then have s: "s = settlement_of env j r" using inner by simp
    have r: "checked_sum (sj_inputs j) = Inr (sr_output r)" "sr_provider r \<noteq> sj_requester j"
      "sr_completed_at r \<le> now" "now < sj_deadline j"
      using proposed(3) by (simp_all add: sum_receipt_validate_ok)
    then have "unat (sr_output r) = sum_list (map unat (sj_inputs j)) \<and> sum_list (map unat (sj_inputs j)) < 2 ^ 64"
      by (simp add: checked_sum_def checked_sum_from_Inr)
    then show ?thesis using f proposed r by (simp add: s offer_validate_ok)
  qed
qed

lemma offer_execution_valid:
  assumes "sha256_len env" and "execute_local_with_offer env j f now = Inr r"
  shows "sum_receipt_validate env r j now = Inr ()"
proof -
  have f: "offer_validate env f j now = Inr ()" and t: "now < sj_deadline j" "now < so_expires_at f"
    and r: "\<exists>out. checked_sum (sj_inputs j) = Inr out \<and> r = \<lparr>sr_job_digest = digest env (json_sum_job j), sr_offer_id = so_offer_id f,
            sr_runtime_digest = so_runtime_digest f, sr_program_digest = sj_program_digest j,
            sr_input_digest = input_digest env (sj_inputs j),
            sr_output_schema_digest = sj_output_schema_digest j,
            sr_receipt_type = sj_receipt_type j, sr_privacy_requirement = sj_privacy_requirement j,
            sr_result_digest = result_digest env j out, sr_provider = so_provider f,
            sr_output = out, sr_completed_at = now, sr_price = so_price f, sr_succeeded = True\<rparr>"
    using assms(2)
    by (auto simp: execute_local_with_offer_def try_r_eq_Inr job_digest_Inr not_le split: if_splits)
  have j: "job_validate env j = Inr ()" using f by (simp add: offer_validate_ok)
  show ?thesis
    using r f t job_validate_digests [OF assms(1) j] assms(1)
    by (auto simp: sum_receipt_validate_ok offer_validate_ok)
qed

text \<open>
  The market works end to end: a receipt that \<open>execute_local_with_offer\<close> returns for an offer is verified by a
  verifier that has not seen it, and the settlement proposal for the same offer then succeeds unless the job is already reserved.
\<close>

theorem offer_execution_settles:
  assumes "sha256_len env" and "execute_local_with_offer env j f now = Inr r"
    and "digest env (json_sum_receipt r) \<notin> set (mv_verified v)"
    and "digest env (json_sum_job j) \<notin> set (mv_reserved v)"
  shows "\<exists>v1 s v2. market_verify env v j r now = (Inr True, v1) \<and>
    propose_settlement_for_offer env v1 j f r now = (Inr s, v2) \<and> sp_price s = so_price f"
proof -
  have val: "sum_receipt_validate env r j now = Inr ()" by (rule offer_execution_valid [OF assms(1,2)])
  then have j: "job_validate env j = Inr ()" by (simp add: sum_receipt_validate_ok)
  let ?v = "v\<lparr>mv_verified := bs_insert (digest env (json_sum_receipt r)) (mv_verified v)\<rparr>"
  have ver: "market_verify env v j r now = (Inr True, ?v)"
    using val j assms(3) by (simp add: market_verify_def bs_contains_def Let_def)
  have b: "offer_validate env f j now = Inr ()" "sr_offer_id r = so_offer_id f" "sr_completed_at r = now"
    "sr_provider r = so_provider f" "sr_price r = so_price f" "sr_runtime_digest r = so_runtime_digest f"
    "now < so_expires_at f"
    using assms(2) by (auto simp: execute_local_with_offer_def try_r_eq_Inr not_le split: if_splits)
  have "\<not> now < so_submitted_at f" "\<not> so_expires_at f \<le> now" using b(1,7) by (auto simp: offer_validate_ok)
  then have inner: "propose_settlement_for_offer env ?v j f r now = propose_settlement_inner env ?v j r now"
    using b by (simp add: propose_settlement_for_offer_def)
  have "propose_settlement_inner env ?v j r now = (Inr (settlement_of env j r),
      ?v\<lparr>mv_reserved := bs_insert (digest env (json_sum_job j)) (mv_reserved ?v)\<rparr>)"
    by (rule propose_inner_ok [OF val]) (use assms(4) in simp_all)
  then show ?thesis using ver inner b(5) by simp
qed

text \<open>
  The demonstration job is executed for its offer, verified and settled; both theorems apply to that run.
\<close>

lemma demo_offer_executes:
  "\<exists>r. execute_local_with_offer demo_env demo_job (demo_offer ''o1'' 5) 20 = Inr r"
proof -
  have o: "offer_validate demo_env (demo_offer ''o1'' 5) demo_job 20 = Inr ()" by (rule demo_offer_valid) simp_all
  show ?thesis
    using o demo_job_sum demo_job_valid
    by (simp add: execute_local_with_offer_def job_digest_def result_digest_def, simp add: demo_job_def demo_offer_def)
qed

theorem offer_execution_settles_witness:
  "\<exists>r v1 s v2. execute_local_with_offer demo_env demo_job (demo_offer ''o1'' 5) 20 = Inr r \<and>
     market_verify demo_env market_verifier_default demo_job r 20 = (Inr True, v1) \<and>
     propose_settlement_for_offer demo_env v1 demo_job (demo_offer ''o1'' 5) r 20 = (Inr s, v2) \<and> sp_price s = 5"
proof -
  obtain r where r: "execute_local_with_offer demo_env demo_job (demo_offer ''o1'' 5) 20 = Inr r"
    using demo_offer_executes by blast
  have p: "so_price (demo_offer ''o1'' 5) = 5" by (simp add: demo_offer_def)
  show ?thesis
    using offer_execution_settles [OF demo_sha256_len r, of market_verifier_default] r
    by (simp add: market_verifier_default_def p)
qed

lemma demo_offer_settles:
  "\<exists>v r s v'. propose_settlement_for_offer demo_env v demo_job (demo_offer ''o1'' 5) r 20 = (Inr s, v')"
proof -
  obtain r where r: "execute_local_with_offer demo_env demo_job (demo_offer ''o1'' 5) 20 = Inr r"
    using demo_offer_executes by blast
  let ?v = "\<lparr>mv_verified = [digest demo_env (json_sum_receipt r)], mv_reserved = []\<rparr>"
  have v: "sum_receipt_validate demo_env r demo_job 20 = Inr ()"
    by (rule offer_execution_valid [OF demo_sha256_len r])
  have b: "offer_validate demo_env (demo_offer ''o1'' 5) demo_job 20 = Inr ()" by (rule demo_offer_valid) simp_all
  have "\<exists>s v'. propose_settlement_inner demo_env ?v demo_job r 20 = (Inr s, v')"
    using propose_inner_ok [OF v, of ?v] by auto
  moreover have "propose_settlement_for_offer demo_env ?v demo_job (demo_offer ''o1'' 5) r 20 =
      propose_settlement_inner demo_env ?v demo_job r 20"
    using r b by (auto simp: propose_settlement_for_offer_def execute_local_with_offer_def try_r_eq_Inr
        demo_offer_def split: if_splits)
  ultimately show ?thesis by metis
qed

theorem settlement_is_earned_witness:
  "\<exists>v r s v'. propose_settlement_for_offer demo_env v demo_job (demo_offer ''o1'' 5) r 20 = (Inr s, v') \<and>
     unat (sr_output r) = 7 \<and> sp_price s = 5"
proof -
  obtain v r s v' where p: "propose_settlement_for_offer demo_env v demo_job (demo_offer ''o1'' 5) r 20 = (Inr s, v')"
    using demo_offer_settles by blast
  moreover have "unat (sr_output r) = sum_list (map unat (sj_inputs demo_job)) \<and> sp_price s = so_price (demo_offer ''o1'' 5)"
    using settlement_is_earned [OF p] by blast
  ultimately show ?thesis by (auto simp: demo_job_def demo_offer_def)
qed

end
