(* ===== verification/Schema.thy ===== *)
theory Schema
  imports Encoding Machine
begin

text \<open>
  The schema registry of src/schema.rs: schema identities (name and version), each bound once and for all to the digest of its
  definition.  \<open>schema_of_document\<close> is the part of \<open>load\<close> after parsing.
\<close>

definition valid_schema_id :: "string \<Rightarrow> bool" where
  "valid_schema_id value \<longleftrightarrow> value \<noteq> [] \<and> length value \<le> 128 \<and> \<not> has_control value \<and> \<not> has_white value"

record schema_descriptor =
  sd_schema_id :: string
  sd_version :: u32
  sd_schema_digest :: string

definition json_descriptor :: "schema_descriptor \<Rightarrow> json" where
  "json_descriptor d = JObj [(''schema_id'', JStr (sd_schema_id d)), (''version'', json_word (sd_version d)),
     (''schema_digest'', JStr (sd_schema_digest d))]"

definition descriptor_validate :: "schema_descriptor \<Rightarrow> unit result" where
  "descriptor_validate d =
     (if \<not> valid_schema_id (sd_schema_id d) \<or> sd_version d = 0 \<or> \<not> valid_digest (sd_schema_digest d)
      then Inl (Err_Invalid ''schema descriptor is malformed'') else Inr ())"

record schema_registry =
  sc_records :: "(string \<times> u32, schema_descriptor) btree"

definition schema_default :: schema_registry where
  "schema_default = \<lparr>sc_records = []\<rparr>"

definition schema_validate :: "schema_registry \<Rightarrow> unit result" where
  "schema_validate r = check_all (\<lambda>((schema_id, version), d).
     if schema_id \<noteq> sd_schema_id d \<or> version \<noteq> sd_version d
     then Inl (Err_Invalid ''schema registry key mismatch'') else descriptor_validate d) (sc_records r)"

definition schema_register :: "schema_registry \<Rightarrow> schema_descriptor \<Rightarrow> unit result \<times> schema_registry" where
  "schema_register r d =
     (case descriptor_validate d of
        Inl e \<Rightarrow> (Inl e, r)
      | Inr _ \<Rightarrow>
        let key = (sd_schema_id d, sd_version d) in
        if bt_contains (sc_records r) key then (Inl (Err_Rejected ''schema identity already registered''), r)
        else let r' = r\<lparr>sc_records := bt_insert key d (sc_records r)\<rparr> in (schema_validate r', r'))"

definition schema_get :: "schema_registry \<Rightarrow> string \<Rightarrow> u32 \<Rightarrow> schema_descriptor option" where
  "schema_get r schema_id version = bt_get (sc_records r) (schema_id, version)"

definition schema_require ::
  "schema_registry \<Rightarrow> string \<Rightarrow> u32 \<Rightarrow> string \<Rightarrow> schema_descriptor result" where
  "schema_require r schema_id version schema_digest =
     (if \<not> valid_schema_id schema_id \<or> version = 0 \<or> \<not> valid_digest schema_digest
      then Inl (Err_Invalid ''schema requirement is malformed'')
      else try_r (ok_or (Err_Quarantined ''schema identity is unavailable'') (schema_get r schema_id version)) (\<lambda>d.
        if sd_schema_digest d \<noteq> schema_digest then Inl (Err_Rejected ''schema digest binding mismatch'') else Inr d))"

record schema_document =
  sm_version :: u8
  sm_records :: "schema_descriptor list"

definition json_schema_document :: "schema_document \<Rightarrow> json" where
  "json_schema_document d = JObj [(''version'', json_word (sm_version d)),
     (''records'', json_list json_descriptor (sm_records d))]"

definition schema_document_of :: "schema_registry \<Rightarrow> schema_document" where
  "schema_document_of r = \<lparr>sm_version = 1, sm_records = bt_values (sc_records r)\<rparr>"

fun schema_register_all :: "schema_registry \<Rightarrow> schema_descriptor list \<Rightarrow> schema_registry result" where
  "schema_register_all r [] = Inr r"
| "schema_register_all r (d # ds) =
     (case schema_register r d of (Inl e, _) \<Rightarrow> Inl e | (Inr _, r') \<Rightarrow> schema_register_all r' ds)"

definition schema_of_document :: "schema_document \<Rightarrow> schema_registry result" where
  "schema_of_document doc =
     (if sm_version doc \<noteq> 1 then Inl (Err_Journal ''schema registry bytes are not canonical JSON'')
      else try_r (schema_register_all schema_default (sm_records doc)) (\<lambda>r.
           try_r (schema_validate r) (\<lambda>_. Inr r)))"

section \<open>The registry invariant\<close>

definition schema_key :: "schema_descriptor \<Rightarrow> string \<times> u32" where
  "schema_key d = (sd_schema_id d, sd_version d)"

definition schema_inv :: "schema_registry \<Rightarrow> bool" where
  "schema_inv r \<longleftrightarrow> bt_wf (sc_records r) \<and> schema_validate r = Inr ()"

definition schema_entry_ok :: "(string \<times> u32) \<times> schema_descriptor \<Rightarrow> bool" where
  "schema_entry_ok e \<longleftrightarrow> fst e = schema_key (snd e) \<and> descriptor_validate (snd e) = Inr ()"

lemma schema_validate_entries: "schema_validate r = Inr () \<longleftrightarrow> (\<forall>e\<in>set (sc_records r). schema_entry_ok e)"
  unfolding schema_validate_def check_all_ok
  by (rule ball_cong) (auto simp: schema_entry_ok_def schema_key_def split: prod.splits)

lemma schema_validate_iff:
  assumes "bt_wf (sc_records r)"
  shows "schema_validate r = Inr () \<longleftrightarrow>
     (\<forall>k d. bt_get (sc_records r) k = Some d \<longrightarrow> k = schema_key d \<and> descriptor_validate d = Inr ())"
proof -
  have "(\<forall>e\<in>set (sc_records r). schema_entry_ok e) \<longleftrightarrow> (\<forall>k d. (k, d) \<in> set (sc_records r) \<longrightarrow> schema_entry_ok (k, d))"
    by (metis surj_pair)
  then show ?thesis unfolding schema_validate_entries bt_get_mem [OF assms] schema_entry_ok_def fst_conv snd_conv .
qed

lemma schema_inv_get:
  "schema_inv r \<Longrightarrow> bt_get (sc_records r) k = Some d \<Longrightarrow> k = schema_key d \<and> descriptor_validate d = Inr ()"
  using schema_validate_iff [of r] unfolding schema_inv_def by blast

lemma schema_register_cases:
  assumes inv: "schema_inv r"
  obtains (fails) e where "schema_register r d = (Inl e, r)" "descriptor_validate d \<noteq> Inr () \<or> bt_get (sc_records r) (schema_key d) \<noteq> None"
  | (succeeds) "schema_register r d = (Inr (), r\<lparr>sc_records := bt_insert (schema_key d) d (sc_records r)\<rparr>)"
      "schema_inv (r\<lparr>sc_records := bt_insert (schema_key d) d (sc_records r)\<rparr>)"
      "bt_get (sc_records r) (schema_key d) = None" "descriptor_validate d = Inr ()"
proof (cases "descriptor_validate d = Inr () \<and> bt_get (sc_records r) (schema_key d) = None")
  case True
  let ?r = "r\<lparr>sc_records := bt_insert (schema_key d) d (sc_records r)\<rparr>"
  have wf: "bt_wf (sc_records ?r)" using inv by (simp add: schema_inv_def bt_wf_insert)
  have "schema_validate ?r = Inr ()"
    using inv True schema_validate_iff [of r] by (auto simp: schema_validate_iff [OF wf] schema_inv_def split: if_splits)
  then show thesis using True wf
    by (intro succeeds) (simp_all add: schema_register_def bt_contains_def schema_inv_def schema_key_def Let_def)
next
  case False
  then have "\<exists>e. schema_register r d = (Inl e, r)"
    by (cases "descriptor_validate d") (auto simp: schema_register_def bt_contains_def schema_key_def Let_def)
  then show thesis using fails False by blast
qed

definition schema_grows :: "schema_registry \<Rightarrow> schema_registry \<Rightarrow> bool" where
  "schema_grows r r' \<longleftrightarrow> (\<forall>k d. bt_get (sc_records r) k = Some d \<longrightarrow> bt_get (sc_records r') k = Some d)"

definition schema_step :: "schema_registry \<Rightarrow> schema_descriptor \<Rightarrow> schema_registry" where
  "schema_step r d = snd (schema_register r d)"

interpretation schema_machine: monotone_machine schema_step schema_inv schema_grows
proof
  show "schema_inv (schema_step r d)" if "schema_inv r" for r d
    using that by (cases rule: schema_register_cases [where d = d]) (use that in \<open>simp_all add: schema_step_def\<close>)
  show "schema_grows r (schema_step r d)" if "schema_inv r" for r d
    using that by (cases rule: schema_register_cases [where d = d]) (auto simp: schema_step_def schema_grows_def)
qed (auto simp: schema_grows_def)

lemma schema_default_inv: "schema_inv schema_default"
  by (simp add: schema_inv_def schema_default_def schema_validate_def)

lemma schema_register_all_appends:
  assumes "bt_wf (xs @ ys)" and "\<forall>e\<in>set (xs @ ys). schema_entry_ok e"
  shows "schema_register_all \<lparr>sc_records = xs\<rparr> (map snd ys) = Inr \<lparr>sc_records = xs @ ys\<rparr>"
  using assms
proof (induction ys arbitrary: xs)
  case (Cons e ys)
  obtain k d where e: "e = (k, d)" by (cases e)
  have less: "\<forall>f\<in>set xs. fst f < k" using Cons.prems(1) by (auto simp: e bt_wf_def sorted_wrt_append)
  have k: "k = (sd_schema_id d, sd_version d)" "descriptor_validate d = Inr ()"
    using Cons.prems(2) by (simp_all add: e schema_entry_ok_def schema_key_def)
  have "bt_get xs k = None" using less by (auto simp: map_of_eq_None_iff)
  moreover have "schema_validate \<lparr>sc_records = xs @ [(k, d)]\<rparr> = Inr ()"
    using Cons.prems(2) by (simp add: e schema_validate_entries)
  ultimately have "schema_register \<lparr>sc_records = xs\<rparr> d = (Inr (), \<lparr>sc_records = xs @ [(k, d)]\<rparr>)"
    using bt_insert_last [OF less, of d] k by (simp add: schema_register_def bt_contains_def Let_def)
  then show ?case using Cons.IH [of "xs @ [(k, d)]"] Cons.prems by (simp add: e)
qed simp

lemma schema_document_round_trip:
  assumes inv: "schema_inv r"
  shows "schema_of_document (schema_document_of r) = Inr r"
proof -
  have wf: "bt_wf (sc_records r)" using inv by (simp add: schema_inv_def)
  have "schema_register_all schema_default (bt_values (sc_records r)) = Inr \<lparr>sc_records = sc_records r\<rparr>"
    using schema_register_all_appends [of "[]" "sc_records r"] wf inv
    by (simp add: schema_default_def bt_values_def schema_inv_def schema_validate_entries)
  moreover have "\<lparr>sc_records = sc_records r\<rparr> = r" by simp
  ultimately show ?thesis using inv by (simp only: schema_of_document_def schema_document_of_def schema_inv_def) simp
qed

section \<open>Properties of the registry\<close>

text \<open>
  A schema identity is bound once: in every registry that registrations built, \<open>require\<close> succeeds for an id, version and
  digest if and only if a registration of exactly this triple succeeded, no later registration changes this, and a second digest for the
  same id and version is never accepted.
\<close>

theorem schema_bound_once:
  assumes "r = run_ops schema_step schema_default ds" and "schema_require r schema_id version dg = Inr d"
  shows "d = \<lparr>sd_schema_id = schema_id, sd_version = version, sd_schema_digest = dg\<rparr> \<and>
    schema_require (run_ops schema_step r later) schema_id version dg = Inr d \<and>
    (\<forall>dg'. dg' \<noteq> dg \<longrightarrow> \<not> is_ok (schema_require (run_ops schema_step r later) schema_id version dg')) \<and>
    \<not> is_ok (fst (schema_register (run_ops schema_step r later) (d\<lparr>sd_schema_digest := dg''\<rparr>)))"
proof -
  let ?r = "run_ops schema_step r later"
  have inv: "schema_inv r" unfolding assms(1) by (rule schema_machine.run_inv [OF schema_default_inv])
  have inv': "schema_inv ?r" by (rule schema_machine.run_inv [OF inv])
  have q: "bt_get (sc_records r) (schema_id, version) = Some d" "sd_schema_digest d = dg" "valid_schema_id schema_id"
    "version \<noteq> 0" "valid_digest dg"
    using assms(2) by (auto simp: schema_require_def schema_get_def try_r_eq_Inr split: if_splits)
  have k: "schema_key d = (schema_id, version)"
    using schema_inv_get [OF inv q(1)] by simp
  have q': "bt_get (sc_records ?r) (schema_id, version) = Some d"
    using schema_machine.run_grows [OF inv, of later] q(1) by (simp add: schema_grows_def)
  have dup: "schema_key (d\<lparr>sd_schema_digest := dg''\<rparr>) = (schema_id, version)" using k by (simp add: schema_key_def)
  have "\<not> is_ok (fst (schema_register ?r (d\<lparr>sd_schema_digest := dg''\<rparr>)))"
    using inv' by (cases rule: schema_register_cases [where d = "d\<lparr>sd_schema_digest := dg''\<rparr>"]) (use q' dup in auto)
  moreover have "d = \<lparr>sd_schema_id = schema_id, sd_version = version, sd_schema_digest = dg\<rparr>"
    using k q(2) by (auto simp: schema_key_def intro: schema_descriptor.equality)
  ultimately show ?thesis using q q' by (auto simp: schema_require_def schema_get_def)
qed

theorem schema_bound_once_witness:
  "let d = \<lparr>sd_schema_id = ''s'', sd_version = 1, sd_schema_digest = zero_digest\<rparr>
   in schema_require (run_ops schema_step schema_default [d]) ''s'' 1 zero_digest = Inr d \<and>
      schema_require (run_ops schema_step (run_ops schema_step schema_default [d]) [d]) ''s'' 1 zero_digest = Inr d"
proof -
  let ?d = "\<lparr>sd_schema_id = ''s'', sd_version = 1, sd_schema_digest = zero_digest\<rparr>"
  have "schema_require (run_ops schema_step schema_default [?d]) ''s'' 1 zero_digest = Inr ?d"
    by (simp add: schema_require_def schema_get_def schema_step_def schema_register_def schema_default_def descriptor_validate_def
        valid_schema_id_def ascii_control_def has_white_def bt_contains_def Let_def)
  then show ?thesis using schema_bound_once [OF refl] unfolding Let_def by blast
qed

end
