(* ===== verification/Snapshots.thy ===== *)
theory Snapshots
  imports Persistence Runtime Evidence Receipt_Properties Market Governance Schema Artifacts Custody
begin

text \<open>
  The snapshot files of the components: \<open>save\<close>, \<open>load\<close> and \<open>recover\<close> of the failure tracker, the replay journal, the kernel, the
  runtime, the audit journal, the evidence registry, both receipt verifiers, the release, schema, artifact and custody registries.  Each is an
  instance of the locale \<open>snapshot_format\<close>.  What \<open>serde_json::from_slice\<close> returns on the bytes of a file is the parameter \<open>de\<close>.
\<close>

definition checked :: "('a \<Rightarrow> unit result) \<Rightarrow> 'a \<Rightarrow> 'a result" where
  "checked valid x = try_r (valid x) (\<lambda>_. Inr x)"

lemma checked_Inr: "checked valid x = Inr y \<longleftrightarrow> valid x = Inr () \<and> y = x"
  by (auto simp: checked_def try_r_eq_Inr)

section \<open>Failure tracker\<close>

fun failure_kind_name :: "failure_kind \<Rightarrow> string" where
  "failure_kind_name FK_Rejection = ''Rejection''"
| "failure_kind_name FK_Quarantine = ''Quarantine''"
| "failure_kind_name FK_Rollback = ''Rollback''"

definition json_failure_budget :: "failure_budget \<Rightarrow> json" where
  "json_failure_budget b = JObj
    [(''max_rejections'', json_word (max_rejections b)), (''max_quarantines'', json_word (max_quarantines b)),
     (''max_rollbacks'', json_word (max_rollbacks b)),
     (''max_consecutive_failures'', json_word (max_consecutive_failures b)),
     (''max_window_failures'', json_word (max_window_failures b)), (''window_size'', json_word (window_size b))]"

definition json_failure_tracker :: "failure_tracker \<Rightarrow> json" where
  "json_failure_tracker t = JObj
    [(''budget'', json_failure_budget (ft_budget t)), (''rejections'', json_word (rejections t)),
     (''quarantines'', json_word (quarantines t)), (''rollbacks'', json_word (rollbacks t)),
     (''consecutive_failures'', json_word (consecutive_failures t)),
     (''recent'', json_list (\<lambda>k. JStr (failure_kind_name k)) (recent t))]"

definition tracker_check :: "failure_tracker \<Rightarrow> unit result" where
  "tracker_check t = map_err contract_invalid (tracker_validate t)"

definition tracker_save :: "crypto \<Rightarrow> io \<Rightarrow> failure_tracker \<Rightarrow> path \<Rightarrow> fs \<Rightarrow> unit result \<times> fs" where
  "tracker_save env = save_valid env tracker_check json_failure_tracker ''failure tracker''"

definition tracker_load :: "crypto \<Rightarrow> (u8 list \<Rightarrow> failure_tracker result) \<Rightarrow> io \<Rightarrow> fs \<Rightarrow> path \<Rightarrow> failure_tracker result" where
  "tracker_load env de = load_canonical env de json_failure_tracker ''failure tracker bytes are not canonical JSON''
     (checked tracker_check)"

definition tracker_recover ::
  "crypto \<Rightarrow> (u8 list \<Rightarrow> failure_tracker result) \<Rightarrow> io \<Rightarrow> path \<Rightarrow> fs \<Rightarrow> failure_tracker result \<times> fs" where
  "tracker_recover env de io p = recover_atomic_snapshot io p ''failure tracker'' (tracker_load env de io)"

interpretation tracker_file: snapshot_format "\<lambda>t. t" json_failure_tracker tracker_check "checked tracker_check" "\<lambda>_. True"
  by unfold_locales (auto simp: checked_Inr)

section \<open>Replay journal\<close>

definition journal_save :: "crypto \<Rightarrow> io \<Rightarrow> replay_journal \<Rightarrow> path \<Rightarrow> fs \<Rightarrow> unit result \<times> fs" where
  "journal_save env = save_valid env (journal_validate env) json_replay_journal ''replay journal''"

definition journal_load :: "crypto \<Rightarrow> (u8 list \<Rightarrow> replay_journal result) \<Rightarrow> io \<Rightarrow> fs \<Rightarrow> path \<Rightarrow> replay_journal result" where
  "journal_load env de = load_canonical env de json_replay_journal ''journal bytes are not canonical JSON''
     (checked (journal_validate env))"

definition journal_recover ::
  "crypto \<Rightarrow> (u8 list \<Rightarrow> replay_journal result) \<Rightarrow> io \<Rightarrow> path \<Rightarrow> fs \<Rightarrow> replay_journal result \<times> fs" where
  "journal_recover env de io p = recover_atomic_snapshot io p ''replay journal'' (journal_load env de io)"

interpretation journal_file: snapshot_format "\<lambda>j. j" json_replay_journal "journal_validate env"
    "checked (journal_validate env)" "\<lambda>_. True" for env
  by unfold_locales (auto simp: checked_Inr)

section \<open>Kernel\<close>

definition json_lifecycle :: "lifecycle \<Rightarrow> json" where
  "json_lifecycle l = JObj [(''state'', JStr (state_debug (lc_state l))), (''revision'', json_word (lc_revision l)),
     (''events'', json_list (\<lambda>e. JStr (event_debug e)) (lc_events l))]"

definition json_kernel_snapshot :: "kernel_snapshot \<Rightarrow> json" where
  "json_kernel_snapshot s = JObj
    [(''policy'', json_policy (ks_policy s)), (''journal'', json_replay_journal (ks_journal s)),
     (''lifecycles'', json_map json_lifecycle (ks_lifecycles s)),
     (''failure_tracker'', json_opt json_failure_tracker (ks_failure_tracker s)),
     (''frozen'', JBool (ks_frozen s)), (''killed'', JBool (ks_killed s))]"

definition kernel_check :: "crypto \<Rightarrow> kernel \<Rightarrow> unit result" where
  "kernel_check env k = snapshot_validate env (kernel_snapshot_of k)"

definition kernel_save :: "crypto \<Rightarrow> io \<Rightarrow> kernel \<Rightarrow> path \<Rightarrow> fs \<Rightarrow> unit result \<times> fs" where
  "kernel_save env = save_valid env (kernel_check env) (\<lambda>k. json_kernel_snapshot (kernel_snapshot_of k)) ''kernel snapshot''"

definition kernel_load :: "crypto \<Rightarrow> (u8 list \<Rightarrow> kernel_snapshot result) \<Rightarrow> io \<Rightarrow> fs \<Rightarrow> path \<Rightarrow> kernel result" where
  "kernel_load env de = load_canonical env de json_kernel_snapshot ''kernel snapshot bytes are not canonical JSON''
     (kernel_from_snapshot env)"

definition kernel_recover ::
  "crypto \<Rightarrow> (u8 list \<Rightarrow> kernel_snapshot result) \<Rightarrow> io \<Rightarrow> path \<Rightarrow> fs \<Rightarrow> kernel result \<times> fs" where
  "kernel_recover env de io p = recover_atomic_snapshot io p ''kernel snapshot'' (kernel_load env de io)"

text \<open>What a restart keeps of a kernel: everything but its issuances and the state of its lock.\<close>

definition kernel_restarted :: "kernel \<Rightarrow> kernel" where
  "kernel_restarted k = k\<lparr>k_issuances := [], k_lock_poisoned := False\<rparr>"

lemma snapshot_of_restarted [simp]: "kernel_snapshot_of (kernel_restarted k) = kernel_snapshot_of k"
  by (simp add: kernel_snapshot_of_def kernel_restarted_def)

interpretation kernel_file: snapshot_format kernel_snapshot_of json_kernel_snapshot "kernel_check env" "kernel_from_snapshot env"
    "\<lambda>k. kernel_restarted k = k" for env
proof
  show "kernel_from_snapshot env (kernel_snapshot_of k) = Inr k" if "kernel_restarted k = k" "kernel_check env k = Inr ()" for k
    using that by (cases k) (simp add: kernel_from_snapshot_def kernel_check_def kernel_snapshot_of_def kernel_restarted_def)
  show "kernel_check env k = Inr ()" if "kernel_from_snapshot env s = Inr k" for s k
    using that by (cases s) (auto simp: kernel_from_snapshot_def kernel_check_def kernel_snapshot_of_def try_r_eq_Inr)
qed

section \<open>Runtime and audit journal\<close>

definition json_metadata :: "metadata \<Rightarrow> json" where
  "json_metadata m = json_map JStr m"

definition json_runtime_snapshot :: "runtime_snapshot \<Rightarrow> json" where
  "json_runtime_snapshot s = JObj
    [(''state'', json_map (\<lambda>v. v) (rs_state s)), (''audit'', json_list json_metadata (rs_audit s)),
     (''checkpoints'', json_list (json_map (\<lambda>v. v)) (rs_checkpoints s)),
     (''frozen'', JBool (rs_frozen s)), (''killed'', JBool (rs_killed s))]"

definition runtime_check :: "crypto \<Rightarrow> runtime \<Rightarrow> unit result" where
  "runtime_check env rt = try_r (runtime_from_snapshot env (runtime_snapshot_of rt)) (\<lambda>_. Inr ())"

definition runtime_save :: "crypto \<Rightarrow> io \<Rightarrow> runtime \<Rightarrow> path \<Rightarrow> fs \<Rightarrow> unit result \<times> fs" where
  "runtime_save env = save_valid env (runtime_check env) (\<lambda>rt. json_runtime_snapshot (runtime_snapshot_of rt)) ''runtime snapshot''"

definition runtime_load :: "crypto \<Rightarrow> (u8 list \<Rightarrow> runtime_snapshot result) \<Rightarrow> io \<Rightarrow> fs \<Rightarrow> path \<Rightarrow> runtime result" where
  "runtime_load env de = load_canonical env de json_runtime_snapshot ''runtime snapshot bytes are not canonical JSON''
     (runtime_from_snapshot env)"

definition runtime_recover ::
  "crypto \<Rightarrow> (u8 list \<Rightarrow> runtime_snapshot result) \<Rightarrow> io \<Rightarrow> path \<Rightarrow> fs \<Rightarrow> runtime result \<times> fs" where
  "runtime_recover env de io p = recover_atomic_snapshot io p ''runtime snapshot'' (runtime_load env de io)"

lemma snapshot_of_loaded: "runtime_from_snapshot env s = Inr rt \<Longrightarrow> runtime_snapshot_of rt = s"
  by (auto simp: runtime_from_snapshot_def runtime_snapshot_of_def try_r_eq_Inr split: if_splits)

interpretation runtime_file: snapshot_format runtime_snapshot_of json_runtime_snapshot "runtime_check env"
    "runtime_from_snapshot env" "\<lambda>_. True" for env
proof
  show "runtime_from_snapshot env (runtime_snapshot_of rt) = Inr rt" if "runtime_check env rt = Inr ()" for rt
    using that by (cases rt) (auto simp: runtime_check_def runtime_from_snapshot_def runtime_snapshot_of_def try_r_eq_Inr split: if_splits)
  show "runtime_check env rt = Inr ()" if "runtime_from_snapshot env s = Inr rt" for s rt
    using that snapshot_of_loaded [OF that] by (simp add: runtime_check_def)
qed

definition json_audit_entry :: "audit_entry \<Rightarrow> json" where
  "json_audit_entry e = JObj [(''sequence'', json_word (ae_sequence e)), (''previous_digest'', JStr (ae_previous_digest e)),
     (''metadata'', json_metadata (ae_metadata e)), (''entry_digest'', JStr (ae_entry_digest e))]"

definition json_audit_journal :: "audit_journal \<Rightarrow> json" where
  "json_audit_journal j = JObj [(''entries'', json_list json_audit_entry (aj_entries j))]"

definition audit_save :: "crypto \<Rightarrow> io \<Rightarrow> audit_journal \<Rightarrow> path \<Rightarrow> fs \<Rightarrow> unit result \<times> fs" where
  "audit_save env = save_valid env (audit_validate env) json_audit_journal ''audit journal''"

definition audit_load :: "crypto \<Rightarrow> (u8 list \<Rightarrow> audit_journal result) \<Rightarrow> io \<Rightarrow> fs \<Rightarrow> path \<Rightarrow> audit_journal result" where
  "audit_load env de = load_canonical env de json_audit_journal ''audit bytes are not canonical JSON''
     (checked (audit_validate env))"

definition audit_recover ::
  "crypto \<Rightarrow> (u8 list \<Rightarrow> audit_journal result) \<Rightarrow> io \<Rightarrow> path \<Rightarrow> fs \<Rightarrow> audit_journal result \<times> fs" where
  "audit_recover env de io p = recover_atomic_snapshot io p ''audit journal'' (audit_load env de io)"

definition save_audit :: "crypto \<Rightarrow> io \<Rightarrow> runtime \<Rightarrow> path \<Rightarrow> fs \<Rightarrow> unit result \<times> fs" where
  "save_audit env io rt p fs = (case audit_journal_of env rt of Inl e \<Rightarrow> (Inl e, fs) | Inr j \<Rightarrow> audit_save env io j p fs)"

interpretation audit_file: snapshot_format "\<lambda>j. j" json_audit_journal "audit_validate env"
    "checked (audit_validate env)" "\<lambda>_. True" for env
  by unfold_locales (auto simp: checked_Inr)

section \<open>Evidence registry\<close>

definition json_evidence_registry :: "evidence_registry \<Rightarrow> json" where
  "json_evidence_registry r = JObj [(''records'', json_map json_evidence (er_records r))]"

definition registry_save :: "crypto \<Rightarrow> io \<Rightarrow> evidence_registry \<Rightarrow> path \<Rightarrow> fs \<Rightarrow> unit result \<times> fs" where
  "registry_save env = save_valid env registry_validate json_evidence_registry ''evidence registry''"

definition registry_load :: "crypto \<Rightarrow> (u8 list \<Rightarrow> evidence_registry result) \<Rightarrow> io \<Rightarrow> fs \<Rightarrow> path \<Rightarrow> evidence_registry result" where
  "registry_load env de = load_canonical env de json_evidence_registry ''evidence bytes are not canonical JSON''
     (checked registry_validate)"

definition registry_recover ::
  "crypto \<Rightarrow> (u8 list \<Rightarrow> evidence_registry result) \<Rightarrow> io \<Rightarrow> path \<Rightarrow> fs \<Rightarrow> evidence_registry result \<times> fs" where
  "registry_recover env de io p = recover_atomic_snapshot io p ''evidence registry'' (registry_load env de io)"

interpretation registry_file: snapshot_format "\<lambda>r. r" json_evidence_registry registry_validate "checked registry_validate" "\<lambda>_. True"
  by unfold_locales (auto simp: checked_Inr)

section \<open>Receipt verifiers\<close>

definition json_bytes :: "u8 list \<Rightarrow> json" where
  "json_bytes bs = json_list json_word bs"

definition json_verifier_document :: "verifier_document \<Rightarrow> json" where
  "json_verifier_document d = JObj [(''version'', json_word (vd_version d)),
     (''trusted_keys'', json_map json_bytes (vd_trusted_keys d)), (''verified'', json_list JStr (vd_verified d))]"

definition verifier_save :: "crypto \<Rightarrow> ed25519 \<Rightarrow> io \<Rightarrow> receipt_verifier \<Rightarrow> path \<Rightarrow> fs \<Rightarrow> unit result \<times> fs" where
  "verifier_save env ed = save_valid env (verifier_validate ed) (\<lambda>v. json_verifier_document (verifier_document_of v)) ''receipt verifier''"

definition verifier_load ::
  "crypto \<Rightarrow> ed25519 \<Rightarrow> (u8 list \<Rightarrow> verifier_document result) \<Rightarrow> io \<Rightarrow> fs \<Rightarrow> path \<Rightarrow> receipt_verifier result" where
  "verifier_load env ed de = load_canonical env de json_verifier_document ''receipt verifier bytes are not canonical JSON''
     (verifier_of_document ed)"

definition verifier_recover ::
  "crypto \<Rightarrow> ed25519 \<Rightarrow> (u8 list \<Rightarrow> verifier_document result) \<Rightarrow> io \<Rightarrow> path \<Rightarrow> fs \<Rightarrow> receipt_verifier result \<times> fs" where
  "verifier_recover env ed de io p = recover_atomic_snapshot io p ''receipt verifier'' (verifier_load env ed de io)"

definition verifier_storable :: "receipt_verifier \<Rightarrow> bool" where
  "verifier_storable v \<longleftrightarrow> bt_wf (rv_trusted_keys v) \<and> list_all (\<lambda>(i, key). length key = 32) (rv_trusted_keys v)"

interpretation verifier_file: snapshot_format verifier_document_of json_verifier_document "verifier_validate ed"
    "verifier_of_document ed" verifier_storable for ed
proof
  show "verifier_of_document ed (verifier_document_of v) = Inr v" if "verifier_storable v" "verifier_validate ed v = Inr ()" for v
    using that by (intro verifier_rebuilt) (auto simp: verifier_storable_def list_all_iff)
  show "verifier_validate ed v = Inr ()" if "verifier_of_document ed d = Inr v" for d v
    using that by (auto simp: verifier_of_document_def try_r_eq_Inr Let_def split: if_splits)
qed

record market_document =
  md_version :: u8
  md_verified :: "string bset"
  md_reserved :: "string bset"

definition json_market_document :: "market_document \<Rightarrow> json" where
  "json_market_document d = JObj [(''version'', json_word (md_version d)), (''verified'', json_list JStr (md_verified d)),
     (''reserved'', json_list JStr (md_reserved d))]"

definition market_document_of :: "market_verifier \<Rightarrow> market_document" where
  "market_document_of v = \<lparr>md_version = 1, md_verified = mv_verified v, md_reserved = mv_reserved v\<rparr>"

definition market_of_document :: "market_document \<Rightarrow> market_verifier result" where
  "market_of_document d =
     (if md_version d \<noteq> 1 then Inl (Err_Journal ''market verifier bytes are not canonical JSON'')
      else checked market_verifier_validate \<lparr>mv_verified = md_verified d, mv_reserved = md_reserved d\<rparr>)"

definition market_save :: "crypto \<Rightarrow> io \<Rightarrow> market_verifier \<Rightarrow> path \<Rightarrow> fs \<Rightarrow> unit result \<times> fs" where
  "market_save env = save_valid env market_verifier_validate (\<lambda>v. json_market_document (market_document_of v)) ''market receipt verifier''"

definition market_load :: "crypto \<Rightarrow> (u8 list \<Rightarrow> market_document result) \<Rightarrow> io \<Rightarrow> fs \<Rightarrow> path \<Rightarrow> market_verifier result" where
  "market_load env de = load_canonical env de json_market_document ''market verifier bytes are not canonical JSON'' market_of_document"

definition market_recover ::
  "crypto \<Rightarrow> (u8 list \<Rightarrow> market_document result) \<Rightarrow> io \<Rightarrow> path \<Rightarrow> fs \<Rightarrow> market_verifier result \<times> fs" where
  "market_recover env de io p = recover_atomic_snapshot io p ''market receipt verifier'' (market_load env de io)"

interpretation market_file: snapshot_format market_document_of json_market_document market_verifier_validate market_of_document "\<lambda>_. True"
proof
  show "market_of_document (market_document_of v) = Inr v" if "market_verifier_validate v = Inr ()" for v
    using that by (cases v) (simp add: market_document_of_def market_of_document_def checked_Inr)
qed (auto simp: market_of_document_def checked_Inr split: if_splits)

section \<open>Release and schema registries\<close>

fun release_state_name :: "release_state \<Rightarrow> string" where
  "release_state_name RS_Shadow = ''Shadow''"
| "release_state_name RS_Canary = ''Canary''"
| "release_state_name RS_ReleasedLocal = ''ReleasedLocal''"
| "release_state_name RS_Frozen = ''Frozen''"

definition json_evidence_packet :: "release_evidence_packet \<Rightarrow> json" where
  "json_evidence_packet p = JObj [(''packet'', json_packet (re_packet p)), (''envelopes'', json_list json_envelope (re_envelopes p))]"

definition json_release_registry :: "release_registry \<Rightarrow> json" where
  "json_release_registry r = JObj
    [(''records'', json_map (\<lambda>(c, st). JArr [json_candidate c, JStr (release_state_name st)]) (rr_records r)),
     (''used_evidence'', json_map (json_list JStr) (rr_used_evidence r)),
     (''packets'', json_map (json_list json_evidence_packet) (rr_packets r))]"

definition release_save :: "crypto \<Rightarrow> io \<Rightarrow> release_registry \<Rightarrow> path \<Rightarrow> fs \<Rightarrow> unit result \<times> fs" where
  "release_save env = save_valid env (release_validate env) json_release_registry ''release registry''"

definition release_load :: "crypto \<Rightarrow> (u8 list \<Rightarrow> release_registry result) \<Rightarrow> io \<Rightarrow> fs \<Rightarrow> path \<Rightarrow> release_registry result" where
  "release_load env de = load_canonical env de json_release_registry ''release bytes are not canonical JSON''
     (checked (release_validate env))"

definition release_recover ::
  "crypto \<Rightarrow> (u8 list \<Rightarrow> release_registry result) \<Rightarrow> io \<Rightarrow> path \<Rightarrow> fs \<Rightarrow> release_registry result \<times> fs" where
  "release_recover env de io p = recover_atomic_snapshot io p ''release registry'' (release_load env de io)"

definition revalidate_and_save ::
  "crypto \<Rightarrow> (u8 list \<Rightarrow> release_registry result) \<Rightarrow> io \<Rightarrow> path \<Rightarrow> evidence_registry \<Rightarrow> u64 \<Rightarrow> fs \<Rightarrow> string list result \<times> fs" where
  "revalidate_and_save env de io p reg now fs =
     (case release_load env de io fs p of
        Inl e \<Rightarrow> (Inl e, fs)
      | Inr r \<Rightarrow>
        (case revalidate_evidence env r reg now of
           (Inl e, _) \<Rightarrow> (Inl e, fs)
         | (Inr frozen, r') \<Rightarrow>
           (case release_save env io r' p fs of
              (Inl e, fs') \<Rightarrow> (Inl e, fs')
            | (Inr _, fs') \<Rightarrow> (Inr frozen, fs'))))"

interpretation release_file: snapshot_format "\<lambda>r. r" json_release_registry "release_validate env"
    "checked (release_validate env)" "\<lambda>_. True" for env
  by unfold_locales (auto simp: checked_Inr)

definition schema_save :: "crypto \<Rightarrow> io \<Rightarrow> schema_registry \<Rightarrow> path \<Rightarrow> fs \<Rightarrow> unit result \<times> fs" where
  "schema_save env = save_valid env schema_validate (\<lambda>r. json_schema_document (schema_document_of r)) ''schema registry''"

definition schema_load :: "crypto \<Rightarrow> (u8 list \<Rightarrow> schema_document result) \<Rightarrow> io \<Rightarrow> fs \<Rightarrow> path \<Rightarrow> schema_registry result" where
  "schema_load env de = load_canonical env de json_schema_document ''schema registry bytes are not canonical JSON'' schema_of_document"

definition schema_recover ::
  "crypto \<Rightarrow> (u8 list \<Rightarrow> schema_document result) \<Rightarrow> io \<Rightarrow> path \<Rightarrow> fs \<Rightarrow> schema_registry result \<times> fs" where
  "schema_recover env de io p = recover_atomic_snapshot io p ''schema registry'' (schema_load env de io)"

interpretation schema_file: snapshot_format schema_document_of json_schema_document schema_validate schema_of_document
    "\<lambda>r. bt_wf (sc_records r)"
proof
  show "schema_of_document (schema_document_of r) = Inr r" if "bt_wf (sc_records r)" "schema_validate r = Inr ()" for r
    using that by (intro schema_document_round_trip) (simp add: schema_inv_def)
  show "schema_validate r = Inr ()" if "schema_of_document d = Inr r" for d r
    using that by (auto simp: schema_of_document_def try_r_eq_Inr split: if_splits)
qed

section \<open>Artifact and custody registries\<close>

fun artifact_status_name :: "artifact_status \<Rightarrow> string" where
  "artifact_status_name AS_Quarantined = ''Quarantined''"
| "artifact_status_name AS_Accepted = ''Accepted''"
| "artifact_status_name AS_Revoked = ''Revoked''"

definition json_artifact_record :: "artifact_record \<Rightarrow> json" where
  "json_artifact_record r = JObj
    [(''manifest'', json_manifest (ar_manifest r)), (''operator_id'', JStr (ar_operator_id r)),
     (''validator_id'', JStr (ar_validator_id r)), (''reviewer_id'', json_opt JStr (ar_reviewer_id r)),
     (''status'', JStr (artifact_status_name (ar_status r))), (''accepted_at'', json_opt json_word (ar_accepted_at r)),
     (''revoked_at'', json_opt json_word (ar_revoked_at r))]"

definition json_artifact_registry :: "artifact_registry \<Rightarrow> json" where
  "json_artifact_registry r = JObj [(''records'', json_map json_artifact_record (af_records r))]"

definition artifact_save :: "crypto \<Rightarrow> io \<Rightarrow> artifact_registry \<Rightarrow> path \<Rightarrow> fs \<Rightarrow> unit result \<times> fs" where
  "artifact_save env = save_valid env artifact_validate json_artifact_registry ''artifact registry''"

definition artifact_load :: "crypto \<Rightarrow> (u8 list \<Rightarrow> artifact_registry result) \<Rightarrow> io \<Rightarrow> fs \<Rightarrow> path \<Rightarrow> artifact_registry result" where
  "artifact_load env de = load_canonical env de json_artifact_registry ''artifact registry bytes are not canonical JSON''
     (checked artifact_validate)"

definition artifact_recover ::
  "crypto \<Rightarrow> (u8 list \<Rightarrow> artifact_registry result) \<Rightarrow> io \<Rightarrow> path \<Rightarrow> fs \<Rightarrow> artifact_registry result \<times> fs" where
  "artifact_recover env de io p = recover_atomic_snapshot io p ''artifact registry'' (artifact_load env de io)"

interpretation artifact_file: snapshot_format "\<lambda>r. r" json_artifact_registry artifact_validate "checked artifact_validate" "\<lambda>_. True"
  by unfold_locales (auto simp: checked_Inr)

definition json_custody_root :: "custody_root \<Rightarrow> json" where
  "json_custody_root c = JObj
    [(''root_id'', JStr (ct_root_id c)), (''owner_id'', JStr (ct_owner_id c)), (''root_digest'', JStr (ct_root_digest c)),
     (''mode'', json_word (ct_mode c)), (''external_to_repository'', JBool (ct_external_to_repository c)),
     (''created_at'', json_word (ct_created_at c)), (''expires_at'', json_word (ct_expires_at c)),
     (''raw_retention_until'', json_word (ct_raw_retention_until c))]"

fun custody_status_name :: "custody_status \<Rightarrow> string" where
  "custody_status_name CS_Active = ''Active''"
| "custody_status_name CS_Deleted = ''Deleted''"

definition json_custody_record :: "custody_record \<Rightarrow> json" where
  "json_custody_record r = JObj
    [(''custody_id'', JStr (cy_custody_id r)), (''root'', json_custody_root (cy_root r)),
     (''artifact_digest'', JStr (cy_artifact_digest r)), (''declared_by'', JStr (cy_declared_by r)),
     (''validator_id'', JStr (cy_validator_id r)), (''status'', JStr (custody_status_name (cy_status r))),
     (''deleted_at'', json_opt json_word (cy_deleted_at r))]"

definition json_custody_registry :: "custody_registry \<Rightarrow> json" where
  "json_custody_registry r = JObj [(''records'', json_map json_custody_record (cg_records r))]"

definition custody_save :: "crypto \<Rightarrow> io \<Rightarrow> custody_registry \<Rightarrow> path \<Rightarrow> fs \<Rightarrow> unit result \<times> fs" where
  "custody_save env = save_valid env custody_validate json_custody_registry ''custody registry''"

definition custody_load :: "crypto \<Rightarrow> (u8 list \<Rightarrow> custody_registry result) \<Rightarrow> io \<Rightarrow> fs \<Rightarrow> path \<Rightarrow> custody_registry result" where
  "custody_load env de = load_canonical env de json_custody_registry ''custody bytes are not canonical JSON'' (checked custody_validate)"

definition custody_recover ::
  "crypto \<Rightarrow> (u8 list \<Rightarrow> custody_registry result) \<Rightarrow> io \<Rightarrow> path \<Rightarrow> fs \<Rightarrow> custody_registry result \<times> fs" where
  "custody_recover env de io p = recover_atomic_snapshot io p ''custody registry'' (custody_load env de io)"

interpretation custody_file: snapshot_format "\<lambda>r. r" json_custody_registry custody_validate "checked custody_validate" "\<lambda>_. True"
  by unfold_locales (auto simp: checked_Inr)

section \<open>Restart and crash\<close>

lemma runtime_check_ok: "system_inv env (k, rt) \<Longrightarrow> runtime_check env rt = Inr ()"
  using runtime_inv_restores [of env rt] by (simp add: system_inv_def runtime_check_def)

lemma kernel_save_restarted: "kernel_save env io (kernel_restarted k) = kernel_save env io k"
  unfolding kernel_save_def save_valid_def kernel_check_def fun_eq_iff snapshot_of_restarted by simp

lemma kernel_load_saved:
  assumes "de (canonical_bytes env (json_kernel_snapshot (kernel_snapshot_of k))) = Inr (kernel_snapshot_of k)"
    and "snapshot_path p" and "kernel_save env io k p fs = (Inr (), fs')" and "no_faults io'"
  shows "kernel_load env de io' fs' p = Inr (kernel_restarted k)"
  unfolding kernel_load_def
proof (rule kernel_file.save_then_load [OF _ _ assms(2)])
  show "kernel_restarted (kernel_restarted k) = kernel_restarted k" by (simp add: kernel_restarted_def)
  show "de (canonical_bytes env (json_kernel_snapshot (kernel_snapshot_of (kernel_restarted k)))) =
      Inr (kernel_snapshot_of (kernel_restarted k))" using assms(1) by simp
  show "save_valid env (kernel_check env) (\<lambda>k. json_kernel_snapshot (kernel_snapshot_of k)) ''kernel snapshot'' io
      (kernel_restarted k) p fs = (Inr (), fs')"
    using assms(3) kernel_save_restarted [of env io k] by (simp add: kernel_save_def)
qed (fact assms)

text \<open>
  C13.  A stopped system comes back: for every kernel and runtime that an interleaving of operations can reach (with a well-formed
  policy), both snapshots can be saved to two files, and on a working file system loading them gives the same runtime and the same kernel without its
  issuances.  (serde is assumed to parse what it printed for these two values.)
\<close>

theorem system_survives_restart:
  assumes "sha256_len env" and "kernel_new pol = Inr k0" and "system_run env (k0, runtime_default) ops = (k, rt)"
    and "policy_validate (k_policy k) = Inr ()"
    and "de (canonical_bytes env (json_kernel_snapshot (kernel_snapshot_of k))) = Inr (kernel_snapshot_of k)"
    and "de' (canonical_bytes env (json_runtime_snapshot (runtime_snapshot_of rt))) = Inr (runtime_snapshot_of rt)"
    and "snapshot_path p" and "snapshot_path q" and "p \<noteq> q" and "no_faults io"
    and "\<forall>f \<in> {p, q, with_extension p ''lock'', with_extension p ''tmp'', with_extension q ''lock'', with_extension q ''tmp''}. fs f = None"
  shows "\<exists>fs1 fs2. kernel_save env io k p fs = (Inr (), fs1) \<and> runtime_save env io rt q fs1 = (Inr (), fs2) \<and>
    kernel_load env de io fs2 p = Inr (k\<lparr>k_issuances := [], k_lock_poisoned := False\<rparr>) \<and> runtime_load env de' io fs2 q = Inr rt"
proof -
  have inv: "system_inv env (k, rt)"
    using system_machine.run_inv [OF system_start_inv [OF assms(1,2)], of ops] assms(3) by simp
  have kc: "kernel_check env k = Inr ()"
    unfolding kernel_check_def by (rule inv_snapshot_valid) (use inv assms(4) in \<open>simp_all add: system_inv_def\<close>)
  have rc: "runtime_check env rt = Inr ()" by (rule runtime_check_ok [OF inv])
  let ?b = "canonical_bytes env (json_kernel_snapshot (kernel_snapshot_of k))"
    and ?c = "canonical_bytes env (json_runtime_snapshot (runtime_snapshot_of rt))"
  let ?fs1 = "fs(p \<mapsto> N_File ?b)"
  have s1: "kernel_save env io k p fs = (Inr (), ?fs1)"
    using kc save_succeeds [OF assms(7,10), of fs ?b "''kernel snapshot''"] assms(11) by (simp add: kernel_save_def save_valid_def)
  have ext: "pa_ext (with_extension q e) = Some e" for e by (simp add: with_extension_def)
  have free: "?fs1 (with_extension q ''lock'') = None" "?fs1 (with_extension q ''tmp'') = None" "?fs1 q = None"
    using assms(7,9,11) ext [of "''lock''"] ext [of "''tmp''"] by (auto simp: snapshot_path_def)
  have s2: "runtime_save env io rt q ?fs1 = (Inr (), ?fs1(q \<mapsto> N_File ?c))"
    using rc save_succeeds [OF assms(8,10), of ?fs1 ?c "''runtime snapshot''"] free by (simp add: runtime_save_def save_valid_def)
  have l1: "kernel_load env de io ?fs1 p = Inr (kernel_restarted k)"
    by (rule kernel_load_saved [of de env k, OF assms(5,7) s1 assms(10)])
  have "kernel_load env de io (?fs1(q \<mapsto> N_File ?c)) p = kernel_load env de io ?fs1 p"
    unfolding kernel_load_def by (rule load_cong) (use assms(9) in simp)
  moreover have "runtime_load env de' io (?fs1(q \<mapsto> N_File ?c)) q = Inr rt"
    unfolding runtime_load_def
    by (rule runtime_file.save_then_load [of de' env rt, OF TrueI assms(6,8) s2 [unfolded runtime_save_def] assms(10)])
  ultimately show ?thesis using s1 s2 l1 by (auto simp: kernel_restarted_def)
qed

theorem system_survives_restart_witness:
  "\<exists>fs1 fs2. kernel_save demo_env (demo_io (\<lambda>_. None)) demo_admitted demo_path Map.empty = (Inr (), fs1) \<and>
    kernel_load demo_env (\<lambda>_. Inr (kernel_snapshot_of demo_admitted)) (demo_io (\<lambda>_. None)) fs2 demo_path =
      Inr (demo_admitted\<lparr>k_issuances := [], k_lock_poisoned := False\<rparr>) \<and>
    runtime_load demo_env (\<lambda>_. Inr (runtime_snapshot_of runtime_default)) (demo_io (\<lambda>_. None)) fs2 (demo_path\<lparr>pa_stem := ''runtime''\<rparr>) =
      Inr runtime_default"
proof -
  have "system_run demo_env (demo_kernel, runtime_default) [SO_Kernel (KO_Admit demo_proposal 100)] = (demo_admitted, runtime_default)"
    using demo_admit by simp
  note r = system_survives_restart [OF demo_sha256_len demo_kernel_new this]
  have "policy_validate (k_policy demo_admitted) = Inr ()" by (simp add: demo_admitted_def demo_kernel_def policy_default_valid)
  note r = r [OF this, of "\<lambda>_. Inr (kernel_snapshot_of demo_admitted)" "\<lambda>_. Inr (runtime_snapshot_of runtime_default)" demo_path
      "demo_path\<lparr>pa_stem := ''runtime''\<rparr>" "demo_io (\<lambda>_. None)" Map.empty]
  have "demo_path \<noteq> demo_path\<lparr>pa_stem := ''runtime''\<rparr>" by (simp add: demo_path_def)
  moreover have "snapshot_path demo_path" "snapshot_path (demo_path\<lparr>pa_stem := ''runtime''\<rparr>)"
    by (simp_all add: snapshot_path_def demo_path_def)
  moreover have "no_faults (demo_io (\<lambda>_. None))" by (simp add: no_faults_def demo_io_def)
  ultimately show ?thesis using r by auto
qed

text \<open>
  C14.  A crash during a save loses nothing that was stored: when a save of a kernel over an older snapshot stops at any fault, and
  its lock file is removed, \<open>recover_snapshot\<close> returns the new kernel with the primary file replaced, or what \<open>load_snapshot\<close> returned before the save, or
  an error; in the last two cases the older snapshot is still the primary file.  (serde is assumed to parse what it
  printed for the new snapshot and to reject its proper prefixes.)
\<close>

theorem kernel_recovers_from_crash:
  assumes "snapshot_path p" and "snapshot_validate env (kernel_snapshot_of k) = Inr ()"
    and "bytes = canonical_bytes env (json_kernel_snapshot (kernel_snapshot_of k))"
    and "de bytes = Inr (kernel_snapshot_of k)" and "\<forall>n<length bytes. \<not> is_ok (de (take n bytes))"
    and "fs p = Some (N_File old)" and "fs (with_extension p ''tmp'') = None"
    and "kernel_save env io k p fs = (res, fs')" and "no_faults io'"
    and "kernel_recover env de io' p (fs'(with_extension p ''lock'' := None)) = (r, fs2)"
  shows "r = Inr (k\<lparr>k_issuances := [], k_lock_poisoned := False\<rparr>) \<and> fs2 p = Some (N_File bytes) \<or>
    r = kernel_load env de io' fs p \<and> fs2 p = Some (N_File old) \<or>
    \<not> is_ok r \<and> fs2 p = Some (N_File old)"
proof -
  let ?k = "kernel_restarted k"
  have save: "save_valid env (kernel_check env) (\<lambda>k. json_kernel_snapshot (kernel_snapshot_of k)) ''kernel snapshot'' io ?k p fs = (res, fs')"
    using assms(8) kernel_save_restarted [of env io k] by (simp add: kernel_save_def)
  have k: "kernel_restarted ?k = ?k" "kernel_check env ?k = Inr ()"
    using assms(2) by (simp_all add: kernel_check_def) (simp add: kernel_restarted_def)
  have "r = Inr ?k \<and> fs2 p = Some (N_File (canonical_bytes env (json_kernel_snapshot (kernel_snapshot_of ?k)))) \<or>
    r = load_canonical env de json_kernel_snapshot ''kernel snapshot bytes are not canonical JSON'' (kernel_from_snapshot env) io' fs p \<and>
      fs2 p = Some (N_File old) \<or>
    \<not> is_ok r \<and> fs2 p = Some (N_File old)"
    by (rule kernel_file.recover_after_crash [OF assms(1) k _ _ assms(6,7) save assms(9) refl])
      (use assms(3,4,5,10) in \<open>simp_all add: kernel_recover_def kernel_load_def\<close>)
  then show ?thesis unfolding snapshot_of_restarted assms(3) [symmetric] unfolding kernel_load_def kernel_restarted_def .
qed

theorem kernel_recovers_from_crash_witness:
  "\<exists>res fs' r fs2.
    kernel_save demo_env (demo_io (\<lambda>pt. if pt = IO_Rename then Some ''no space'' else None)) demo_admitted demo_path
      [demo_path \<mapsto> N_File [9]] = (res, fs') \<and>
    kernel_recover demo_env (\<lambda>_. Inr (kernel_snapshot_of demo_admitted)) (demo_io (\<lambda>_. None)) demo_path
      (fs'(with_extension demo_path ''lock'' := None)) = (r, fs2) \<and>
    (r = Inr (demo_admitted\<lparr>k_issuances := [], k_lock_poisoned := False\<rparr>) \<and> fs2 demo_path = Some (N_File []) \<or>
     r = kernel_load demo_env (\<lambda>_. Inr (kernel_snapshot_of demo_admitted)) (demo_io (\<lambda>_. None)) [demo_path \<mapsto> N_File [9]] demo_path \<and>
       fs2 demo_path = Some (N_File [9]) \<or>
     \<not> is_ok r \<and> fs2 demo_path = Some (N_File [9]))"
proof -
  let ?io = "demo_io (\<lambda>pt. if pt = IO_Rename then Some ''no space'' else None)" and ?fs = "[demo_path \<mapsto> N_File [9]]"
    and ?de = "\<lambda>_::u8 list. Inr (kernel_snapshot_of demo_admitted) :: kernel_snapshot result"
  obtain res fs' where s: "kernel_save demo_env ?io demo_admitted demo_path ?fs = (res, fs')" by fastforce
  obtain r fs2 where c: "kernel_recover demo_env ?de (demo_io (\<lambda>_. None)) demo_path (fs'(with_extension demo_path ''lock'' := None)) = (r, fs2)"
    by fastforce
  have "kernel_run demo_env demo_kernel [KO_Admit demo_proposal 100] = demo_admitted" using demo_admit by simp
  then have "kernel_inv demo_env demo_admitted"
    using system_machine.run_inv [OF system_start_inv [OF demo_sha256_len demo_kernel_new], of "[SO_Kernel (KO_Admit demo_proposal 100)]"]
    by (simp add: system_inv_def)
  then have v: "snapshot_validate demo_env (kernel_snapshot_of demo_admitted) = Inr ()"
    by (intro inv_snapshot_valid) (simp_all add: demo_admitted_def demo_kernel_def policy_default_valid)
  have "canonical_bytes demo_env x = []" for x by (simp add: canonical_bytes_def demo_env_def)
  note b = this [symmetric]
  have p: "snapshot_path demo_path" "no_faults (demo_io (\<lambda>_. None))"
    by (simp_all add: snapshot_path_def demo_path_def no_faults_def demo_io_def)
  have t: "?fs (with_extension demo_path ''tmp'') = None" by (simp add: with_extension_def demo_path_def)
  show ?thesis
    using kernel_recovers_from_crash [OF p(1) v b, of ?de ?fs "[9]" ?io res fs' "demo_io (\<lambda>_. None)" r fs2] s c t p(2) by auto
qed

end
