(* ===== verification/Replication.thy ===== *)
theory Replication
  imports Plain_Files Sealed Receipt_Properties Snapshots
begin

text \<open>
  The frozen replication packets of src/replication.rs: a packet fixes what a maintenance run must produce, a second operator signs the
  digests of its own run, and \<open>compare\<close> accepts a signed result only when it reproduces the packet.  Ed25519 is the parameter \<open>ed25519\<close> of theory Receipts.
\<close>

section \<open>Packets\<close>

definition PACKET_SCHEMA :: string where
  "PACKET_SCHEMA = ''security-alignment-os-replication-packet-v1''"

definition RESULT_SCHEMA :: string where
  "RESULT_SCHEMA = ''security-alignment-os-replication-result-v1''"

definition REPLICATION_CLAIM_CEILING :: string where
  "REPLICATION_CLAIM_CEILING = ''ReplicatedBoundedMaintenanceExecution''"

definition replication_text :: "string \<Rightarrow> bool" where
  "replication_text value = text_within 256 value"

datatype replication_terminal = RT_Completed | RT_RolledBack | RT_Quarantined | RT_Frozen

fun replication_terminal_name :: "replication_terminal \<Rightarrow> string" where
  "replication_terminal_name RT_Completed = ''Completed''"
| "replication_terminal_name RT_RolledBack = ''RolledBack''"
| "replication_terminal_name RT_Quarantined = ''Quarantined''"
| "replication_terminal_name RT_Frozen = ''Frozen''"

datatype replication_disposition = RD_Matched | RD_Quarantined

record replication_packet =
  fp_schema_version :: string
  fp_state_slice :: string
  fp_packet_id :: string
  fp_source_revision_digest :: string
  fp_toolchain_digest :: string
  fp_configuration_digest :: string
  fp_test_manifest_digest :: string
  fp_request_digest :: string
  fp_expected_terminal :: replication_terminal
  fp_expected_output_digest :: "string option"
  fp_expected_rollback_digest :: string
  fp_expected_untouched_digest :: string
  fp_expected_receipt_binding_digest :: string
  fp_expected_recovery_frozen :: bool
  fp_host_prerequisites :: "string bset"
  fp_retention_until :: u64
  fp_claim_ceiling :: string
  fp_raw_payload_included :: bool
  fp_packet_digest :: string

definition packet_identity :: "replication_packet \<Rightarrow> (string \<times> json) list" where
  "packet_identity p =
    [(''schema_version'', JStr (fp_schema_version p)), (''state_slice'', JStr (fp_state_slice p)), (''packet_id'', JStr (fp_packet_id p)),
     (''source_revision_digest'', JStr (fp_source_revision_digest p)), (''toolchain_digest'', JStr (fp_toolchain_digest p)),
     (''configuration_digest'', JStr (fp_configuration_digest p)), (''test_manifest_digest'', JStr (fp_test_manifest_digest p)),
     (''request_digest'', JStr (fp_request_digest p)), (''expected_terminal'', JStr (replication_terminal_name (fp_expected_terminal p))),
     (''expected_output_digest'', json_opt JStr (fp_expected_output_digest p)),
     (''expected_rollback_digest'', JStr (fp_expected_rollback_digest p)), (''expected_untouched_digest'', JStr (fp_expected_untouched_digest p)),
     (''expected_receipt_binding_digest'', JStr (fp_expected_receipt_binding_digest p)),
     (''expected_recovery_frozen'', JBool (fp_expected_recovery_frozen p)),
     (''host_prerequisites'', json_list JStr (fp_host_prerequisites p)), (''retention_until'', json_word (fp_retention_until p)),
     (''claim_ceiling'', JStr (fp_claim_ceiling p)), (''raw_payload_included'', JBool (fp_raw_payload_included p))]"

definition json_replication_packet :: "replication_packet \<Rightarrow> json" where
  "json_replication_packet p = JObj (packet_identity p @ [(''packet_digest'', JStr (fp_packet_digest p))])"

definition packet_validate_body :: "replication_packet \<Rightarrow> unit result" where
  "packet_validate_body p =
     (if fp_schema_version p \<noteq> PACKET_SCHEMA \<or> fp_state_slice p \<noteq> STATE_SLICE \<or> \<not> replication_text (fp_packet_id p) \<or>
         \<not> valid_digest (fp_source_revision_digest p) \<or> \<not> valid_digest (fp_toolchain_digest p) \<or>
         \<not> valid_digest (fp_configuration_digest p) \<or> \<not> valid_digest (fp_test_manifest_digest p) \<or> \<not> valid_digest (fp_request_digest p) \<or>
         \<not> optional_ok valid_digest (fp_expected_output_digest p) \<or> \<not> valid_digest (fp_expected_rollback_digest p) \<or>
         \<not> valid_digest (fp_expected_untouched_digest p) \<or> \<not> valid_digest (fp_expected_receipt_binding_digest p) \<or>
         fp_host_prerequisites p = [] \<or> list_ex (\<lambda>v. \<not> replication_text v) (fp_host_prerequisites p) \<or> fp_retention_until p = 0 \<or>
         fp_claim_ceiling p \<noteq> REPLICATION_CLAIM_CEILING \<or> fp_raw_payload_included p
      then Inl (Err_Invalid ''replication packet is malformed'')
      else if fp_expected_terminal p = RT_Completed \<and> fp_expected_output_digest p = None
      then Inl (Err_Invalid ''completed replication packet lacks output digest'') else Inr ())"

definition packet_expected_digest :: "crypto \<Rightarrow> replication_packet \<Rightarrow> string" where
  "packet_expected_digest env p = digest env (JObj (packet_identity p))"

definition replication_packet_validate :: "crypto \<Rightarrow> replication_packet \<Rightarrow> unit result" where
  "replication_packet_validate env p =
     try_r (packet_validate_body p) (\<lambda>_.
     if \<not> valid_digest (fp_packet_digest p) \<or> fp_packet_digest p \<noteq> packet_expected_digest env p
     then Inl (Err_Invalid ''replication packet digest mismatch'') else Inr ())"

definition replication_packet_new ::
  "crypto \<Rightarrow> string \<Rightarrow> hex_digest \<Rightarrow> hex_digest \<Rightarrow> hex_digest \<Rightarrow> hex_digest \<Rightarrow> hex_digest \<Rightarrow> replication_terminal \<Rightarrow> hex_digest option \<Rightarrow>
   hex_digest \<Rightarrow> hex_digest \<Rightarrow> hex_digest \<Rightarrow> bool \<Rightarrow> string bset \<Rightarrow> u64 \<Rightarrow> replication_packet result" where
  "replication_packet_new env packet_id source toolchain configuration tests request terminal output rollback untouched binding
      recovery_frozen hosts retention =
     (let p = \<lparr>fp_schema_version = PACKET_SCHEMA, fp_state_slice = STATE_SLICE, fp_packet_id = packet_id, fp_source_revision_digest = source,
               fp_toolchain_digest = toolchain, fp_configuration_digest = configuration, fp_test_manifest_digest = tests,
               fp_request_digest = request, fp_expected_terminal = terminal, fp_expected_output_digest = output,
               fp_expected_rollback_digest = rollback, fp_expected_untouched_digest = untouched,
               fp_expected_receipt_binding_digest = binding, fp_expected_recovery_frozen = recovery_frozen, fp_host_prerequisites = hosts,
               fp_retention_until = retention, fp_claim_ceiling = REPLICATION_CLAIM_CEILING, fp_raw_payload_included = False,
               fp_packet_digest = ''''\<rparr>
      in try_r (packet_validate_body p) (\<lambda>_.
         let p' = p\<lparr>fp_packet_digest := packet_expected_digest env p\<rparr>
         in try_r (replication_packet_validate env p') (\<lambda>_. Inr p')))"

definition packet_save :: "crypto \<Rightarrow> io \<Rightarrow> replication_packet \<Rightarrow> path \<Rightarrow> fs \<Rightarrow> unit result \<times> fs" where
  "packet_save env = plain_save env (replication_packet_validate env) json_replication_packet"

definition packet_load :: "crypto \<Rightarrow> (u8 list \<Rightarrow> replication_packet result) \<Rightarrow> io \<Rightarrow> fs \<Rightarrow> path \<Rightarrow> replication_packet result" where
  "packet_load env de = plain_load env de json_replication_packet ''replication packet is not canonical JSON''
     (checked (replication_packet_validate env))"

definition packet_recover :: "crypto \<Rightarrow> (u8 list \<Rightarrow> replication_packet result) \<Rightarrow> io \<Rightarrow> path \<Rightarrow> fs \<Rightarrow> replication_packet result \<times> fs" where
  "packet_recover env de = plain_recover (packet_load env de)"

section \<open>Results and their signatures\<close>

record replication_result =
  rr_schema_version :: string
  rr_state_slice :: string
  rr_packet_digest :: string
  rr_operator_id :: string
  rr_host_id :: string
  rr_terminal :: replication_terminal
  rr_output_digest :: "string option"
  rr_rollback_digest :: string
  rr_untouched_digest :: string
  rr_receipt_binding_digest :: string
  rr_recovery_frozen :: bool
  rr_measured_at :: u64

definition json_replication_result :: "replication_result \<Rightarrow> json" where
  "json_replication_result r = JObj
    [(''schema_version'', JStr (rr_schema_version r)), (''state_slice'', JStr (rr_state_slice r)),
     (''packet_digest'', JStr (rr_packet_digest r)), (''operator_id'', JStr (rr_operator_id r)), (''host_id'', JStr (rr_host_id r)),
     (''terminal'', JStr (replication_terminal_name (rr_terminal r))), (''output_digest'', json_opt JStr (rr_output_digest r)),
     (''rollback_digest'', JStr (rr_rollback_digest r)), (''untouched_digest'', JStr (rr_untouched_digest r)),
     (''receipt_binding_digest'', JStr (rr_receipt_binding_digest r)), (''recovery_frozen'', JBool (rr_recovery_frozen r)),
     (''measured_at'', json_word (rr_measured_at r))]"

definition replication_result_validate :: "replication_result \<Rightarrow> unit result" where
  "replication_result_validate r =
     (if rr_schema_version r \<noteq> RESULT_SCHEMA \<or> rr_state_slice r \<noteq> STATE_SLICE \<or> \<not> valid_digest (rr_packet_digest r) \<or>
         \<not> replication_text (rr_operator_id r) \<or> \<not> replication_text (rr_host_id r) \<or> \<not> optional_ok valid_digest (rr_output_digest r) \<or>
         \<not> valid_digest (rr_rollback_digest r) \<or> \<not> valid_digest (rr_untouched_digest r) \<or> \<not> valid_digest (rr_receipt_binding_digest r) \<or>
         rr_measured_at r = 0
      then Inl (Err_Invalid ''replication result is malformed'') else Inr ())"

definition replication_result_new ::
  "crypto \<Rightarrow> replication_packet \<Rightarrow> string \<Rightarrow> string \<Rightarrow> replication_terminal \<Rightarrow> hex_digest option \<Rightarrow> hex_digest \<Rightarrow> hex_digest \<Rightarrow>
   hex_digest \<Rightarrow> bool \<Rightarrow> u64 \<Rightarrow> replication_result result" where
  "replication_result_new env p operator host terminal output rollback untouched binding recovery_frozen at =
     try_r (replication_packet_validate env p) (\<lambda>_.
     let r = \<lparr>rr_schema_version = RESULT_SCHEMA, rr_state_slice = STATE_SLICE, rr_packet_digest = fp_packet_digest p,
              rr_operator_id = operator, rr_host_id = host, rr_terminal = terminal, rr_output_digest = output,
              rr_rollback_digest = rollback, rr_untouched_digest = untouched, rr_receipt_binding_digest = binding,
              rr_recovery_frozen = recovery_frozen, rr_measured_at = at\<rparr>
     in try_r (replication_result_validate r) (\<lambda>_. Inr r))"

record signed_replication_result =
  sr_result :: replication_result
  sr_signer_key_id :: string
  sr_signature :: "u8 list"

definition json_signed_result :: "signed_replication_result \<Rightarrow> json" where
  "json_signed_result s = JObj [(''result'', json_replication_result (sr_result s)), (''signer_key_id'', JStr (sr_signer_key_id s)),
     (''signature'', json_list json_word (sr_signature s))]"

definition signed_validate :: "signed_replication_result \<Rightarrow> unit result" where
  "signed_validate s =
     try_r (replication_result_validate (sr_result s)) (\<lambda>_.
     if \<not> replication_text (sr_signer_key_id s) \<or> length (sr_signature s) \<noteq> 64
     then Inl (Err_Invalid ''signed replication result identity or signature is malformed'') else Inr ())"

definition signed_save :: "crypto \<Rightarrow> io \<Rightarrow> signed_replication_result \<Rightarrow> path \<Rightarrow> fs \<Rightarrow> unit result \<times> fs" where
  "signed_save env = plain_save env signed_validate json_signed_result"

definition signed_load ::
  "crypto \<Rightarrow> (u8 list \<Rightarrow> signed_replication_result result) \<Rightarrow> io \<Rightarrow> fs \<Rightarrow> path \<Rightarrow> signed_replication_result result" where
  "signed_load env de = plain_load env de json_signed_result ''signed replication result is not canonical JSON'' (checked signed_validate)"

definition signed_recover ::
  "crypto \<Rightarrow> (u8 list \<Rightarrow> signed_replication_result result) \<Rightarrow> io \<Rightarrow> path \<Rightarrow> fs \<Rightarrow> signed_replication_result result \<times> fs" where
  "signed_recover env de = plain_recover (signed_load env de)"

record replication_signer =
  rg_key_id :: string
  rg_signing_key :: "u8 list"

definition replication_signer_new :: "string \<Rightarrow> u8 list \<Rightarrow> replication_signer result" where
  "replication_signer_new key_id seed =
     (if \<not> replication_text key_id then Inl (Err_Invalid ''replication signer key ID is malformed'')
      else Inr \<lparr>rg_key_id = key_id, rg_signing_key = seed\<rparr>)"

definition replication_key_bytes :: "ed25519 \<Rightarrow> replication_signer \<Rightarrow> u8 list" where
  "replication_key_bytes ed g = ed_public ed (rg_signing_key g)"

definition replication_sign :: "crypto \<Rightarrow> ed25519 \<Rightarrow> replication_signer \<Rightarrow> replication_result \<Rightarrow> signed_replication_result result" where
  "replication_sign env ed g r =
     try_r (replication_result_validate r) (\<lambda>_.
     let s = \<lparr>sr_result = r, sr_signer_key_id = rg_key_id g,
              sr_signature = ed_sign ed (rg_signing_key g) (canonical_bytes env (json_replication_result r))\<rparr>
     in try_r (signed_validate s) (\<lambda>_. Inr s))"

definition verify_signed_result :: "crypto \<Rightarrow> ed25519 \<Rightarrow> signed_replication_result \<Rightarrow> string \<Rightarrow> u8 list \<Rightarrow> unit result" where
  "verify_signed_result env ed s key_id key =
     try_r (signed_validate s) (\<lambda>_.
     if \<not> replication_text key_id \<or> sr_signer_key_id s \<noteq> key_id
     then Inl (Err_Rejected ''replication signer identity or signature is invalid'')
     else if \<not> ed_key_ok ed key then Inl (Err_Rejected ''replication public key is invalid'')
     else if length (sr_signature s) \<noteq> 64 then Inl (Err_Rejected ''replication signature length is invalid'')
     else if \<not> ed_verify ed key (canonical_bytes env (json_replication_result (sr_result s))) (sr_signature s)
     then Inl (Err_Rejected ''replication signature verification failed'') else Inr ())"

definition reproduces :: "replication_result \<Rightarrow> replication_packet \<Rightarrow> bool" where
  "reproduces r p \<longleftrightarrow> rr_packet_digest r = fp_packet_digest p \<and> rr_terminal r = fp_expected_terminal p \<and>
     rr_output_digest r = fp_expected_output_digest p \<and> rr_rollback_digest r = fp_expected_rollback_digest p \<and>
     rr_untouched_digest r = fp_expected_untouched_digest p \<and>
     rr_receipt_binding_digest r = fp_expected_receipt_binding_digest p \<and> rr_recovery_frozen r = fp_expected_recovery_frozen p"

definition replication_compare ::
  "crypto \<Rightarrow> ed25519 \<Rightarrow> replication_packet \<Rightarrow> signed_replication_result \<Rightarrow> string \<Rightarrow> u8 list \<Rightarrow> replication_disposition result" where
  "replication_compare env ed p s key_id key =
     try_r (replication_packet_validate env p) (\<lambda>_.
     try_r (verify_signed_result env ed s key_id key) (\<lambda>_.
     if \<not> reproduces (sr_result s) p then Inl (Err_Quarantined ''replication result does not match frozen packet'')
     else Inr RD_Matched))"

section \<open>What a match shows\<close>

lemma replication_terminal_inject: "replication_terminal_name s = replication_terminal_name t \<longleftrightarrow> s = t"
  by (cases s; cases t) simp_all

interpretation packet_seal: sealed fp_packet_digest "\<lambda>d p. p\<lparr>fp_packet_digest := d\<rparr>" packet_expected_digest packet_validate_body
    "\<lambda>p. JObj (packet_identity p)" replication_packet_validate
proof
  fix d :: string and p p' :: replication_packet and env
  show "packet_validate_body (p\<lparr>fp_packet_digest := d\<rparr>) = packet_validate_body p"
    by (cases p) (simp only: packet_validate_body_def replication_packet.update_convs replication_packet.select_convs)
  show "JObj (packet_identity (p\<lparr>fp_packet_digest := d\<rparr>)) = JObj (packet_identity p)" by (simp add: packet_identity_def)
  show "p\<lparr>fp_packet_digest := d\<rparr> = p'\<lparr>fp_packet_digest := d\<rparr>" if "JObj (packet_identity p) = JObj (packet_identity p')"
    using that by (cases p, cases p') (simp add: packet_identity_def json_opt_JStr replication_terminal_inject)
  show "replication_packet_validate env p = Inr () \<longleftrightarrow> packet_validate_body p = Inr () \<and> valid_digest (fp_packet_digest p) \<and>
      fp_packet_digest p = packet_expected_digest env p"
    by (auto simp: replication_packet_validate_def try_r_eq_Inr)
qed (simp_all add: packet_expected_digest_def)

interpretation packet_file: snapshot_format "\<lambda>p. p" json_replication_packet "replication_packet_validate env"
    "checked (replication_packet_validate env)" "\<lambda>_. True" for env
  by unfold_locales (auto simp: checked_Inr)

interpretation signed_file: snapshot_format "\<lambda>s. s" json_signed_result signed_validate "checked signed_validate" "\<lambda>_. True"
  by unfold_locales (auto simp: checked_Inr)

lemma compare_matched:
  "replication_compare env ed p s key_id key = Inr d \<longleftrightarrow> d = RD_Matched \<and> replication_packet_validate env p = Inr () \<and>
     verify_signed_result env ed s key_id key = Inr () \<and> reproduces (sr_result s) p"
  by (auto simp: replication_compare_def try_r_eq_Inr)

lemma verified_signature:
  "verify_signed_result env ed s key_id key = Inr () \<longleftrightarrow> signed_validate s = Inr () \<and> replication_text key_id \<and> sr_signer_key_id s = key_id \<and>
     ed_key_ok ed key \<and> ed_verify ed key (canonical_bytes env (json_replication_result (sr_result s))) (sr_signature s)"
  by (auto simp: verify_signed_result_def signed_validate_def try_r_eq_Inr)

lemma sign_verifies:
  assumes "ed25519_correct ed" and "replication_sign env ed g r = Inr s"
  shows "sr_result s = r \<and> verify_signed_result env ed s (rg_key_id g) (replication_key_bytes ed g) = Inr ()"
  using assms unfolding verified_signature
  by (auto simp: replication_sign_def signed_validate_def try_r_eq_Inr ed25519_correct_def replication_key_bytes_def split: if_splits)

lemma sign_total:
  assumes "ed25519_correct ed" and "replication_result_validate r = Inr ()" and "replication_text (rg_key_id g)"
  shows "\<exists>s. replication_sign env ed g r = Inr s"
  using assms by (auto simp: replication_sign_def signed_validate_def ed25519_correct_def Let_def)

text \<open>
  C36.  A match binds.  When \<open>compare\<close> answers, it answers \<open>Matched\<close>, the signature of the named signer verifies over the result under the given key, and the result names
  the packet by its digest and reproduces everything the packet expects: the terminal state, the output digest (which a completed packet has), the
  rollback, untouched and receipt-binding digests and the recovery flag.  A signed result
  that matches two packets shows the packets to be equal, unless two different identities have the same SHA-256 digest.
\<close>

theorem replication_match_binds:
  assumes "replication_compare env ed p s key_id key = Inr d" and "replication_compare env ed p' s key_id' key' = Inr d'"
  shows "d = RD_Matched \<and> sr_signer_key_id s = key_id \<and> ed_key_ok ed key \<and>
    ed_verify ed key (canonical_bytes env (json_replication_result (sr_result s))) (sr_signature s) \<and>
    rr_packet_digest (sr_result s) = digest env (JObj (packet_identity p)) \<and> rr_terminal (sr_result s) = fp_expected_terminal p \<and>
    rr_output_digest (sr_result s) = fp_expected_output_digest p \<and>
    (fp_expected_terminal p = RT_Completed \<longrightarrow> rr_output_digest (sr_result s) \<noteq> None) \<and>
    rr_rollback_digest (sr_result s) = fp_expected_rollback_digest p \<and>
    rr_untouched_digest (sr_result s) = fp_expected_untouched_digest p \<and>
    rr_receipt_binding_digest (sr_result s) = fp_expected_receipt_binding_digest p \<and>
    rr_recovery_frozen (sr_result s) = fp_expected_recovery_frozen p \<and>
    key_id' = key_id \<and> (p' = p \<or> collision env (JObj (packet_identity p')) (JObj (packet_identity p)))"
proof -
  have v: "replication_packet_validate env p = Inr ()" "replication_packet_validate env p' = Inr ()"
    and r: "reproduces (sr_result s) p" "reproduces (sr_result s) p'"
    and s: "verify_signed_result env ed s key_id key = Inr ()" "verify_signed_result env ed s key_id' key' = Inr ()"
    using assms by (simp_all add: compare_matched)
  have "fp_packet_digest p' = fp_packet_digest p" using r by (simp add: reproduces_def)
  from packet_seal.seal_binds [OF v(2,1) this]
  have one: "p' = p \<or> collision env (JObj (packet_identity p')) (JObj (packet_identity p))" .
  have body: "packet_validate_body p = Inr ()" "fp_packet_digest p = packet_expected_digest env p"
    using v(1) by (simp_all add: packet_seal.validate_iff)
  then have "fp_expected_terminal p = RT_Completed \<longrightarrow> fp_expected_output_digest p \<noteq> None"
    by (auto simp: packet_validate_body_def split: if_splits)
  then show ?thesis
    using one body(2) r(1) s assms(1) by (auto simp: verified_signature reproduces_def packet_expected_digest_def compare_matched)
qed

text \<open>
  The comparison decides replication.  For a valid packet and a well-formed result of a second operator, signing with a well-formed signer succeeds, the signed
  result verifies under the signer's key, and \<open>compare\<close> answers \<open>Matched\<close> when the reported terminal state and digests are the packet's expectations and
  \<open>Quarantined\<close> when any of them differs.
\<close>

theorem replication_decides:
  assumes "ed25519_correct ed" and "replication_signer_new key_id seed = Inr g"
    and "replication_result_new env p operator host terminal output rollback untouched binding frozen at = Inr r"
  shows "\<exists>s. replication_sign env ed g r = Inr s \<and> verify_signed_result env ed s key_id (replication_key_bytes ed g) = Inr () \<and>
    replication_compare env ed p s key_id (replication_key_bytes ed g) =
      (if terminal = fp_expected_terminal p \<and> output = fp_expected_output_digest p \<and> rollback = fp_expected_rollback_digest p \<and>
          untouched = fp_expected_untouched_digest p \<and> binding = fp_expected_receipt_binding_digest p \<and>
          frozen = fp_expected_recovery_frozen p
       then Inr RD_Matched else Inl (Err_Quarantined ''replication result does not match frozen packet''))"
proof -
  have g: "replication_text key_id" "rg_key_id g = key_id" using assms(2) by (auto simp: replication_signer_new_def split: if_splits)
  have p: "replication_packet_validate env p = Inr ()" and r: "replication_result_validate r = Inr ()"
    using assms(3) by (auto simp: replication_result_new_def Let_def try_r_eq_Inr)
  from sign_total [OF assms(1) r] g obtain s where s: "replication_sign env ed g r = Inr s" by auto
  note v = sign_verifies [OF assms(1) s, unfolded g(2)]
  have "reproduces r p \<longleftrightarrow> terminal = fp_expected_terminal p \<and> output = fp_expected_output_digest p \<and>
      rollback = fp_expected_rollback_digest p \<and> untouched = fp_expected_untouched_digest p \<and>
      binding = fp_expected_receipt_binding_digest p \<and> frozen = fp_expected_recovery_frozen p"
    using assms(3) by (auto simp: replication_result_new_def Let_def try_r_eq_Inr reproduces_def)
  then show ?thesis using s v p by (auto simp: replication_compare_def)
qed

section \<open>A packet and its replication\<close>

definition demo_replication_packet :: replication_packet where
  "demo_replication_packet = packet_seal.reseal demo_env
     \<lparr>fp_schema_version = PACKET_SCHEMA, fp_state_slice = STATE_SLICE, fp_packet_id = ''packet-1'',
      fp_source_revision_digest = digits CHR ''a'', fp_toolchain_digest = digits CHR ''b'', fp_configuration_digest = digits CHR ''c'',
      fp_test_manifest_digest = digits CHR ''d'', fp_request_digest = digits CHR ''e'', fp_expected_terminal = RT_Completed,
      fp_expected_output_digest = Some (digits CHR ''f''), fp_expected_rollback_digest = digits CHR ''1'',
      fp_expected_untouched_digest = digits CHR ''2'', fp_expected_receipt_binding_digest = digits CHR ''3'',
      fp_expected_recovery_frozen = False, fp_host_prerequisites = [''linux''], fp_retention_until = 100,
      fp_claim_ceiling = REPLICATION_CLAIM_CEILING, fp_raw_payload_included = False, fp_packet_digest = ''''\<rparr>"

lemma demo_packet_valid: "replication_packet_validate demo_env demo_replication_packet = Inr ()"
  unfolding demo_replication_packet_def packet_seal.reseal_valid [OF demo_sha256_len]
  by (simp add: packet_validate_body_def replication_text_def text_within_def ascii_control_def hex_simps)

lemma demo_packet_fields:
  "fp_expected_terminal demo_replication_packet = RT_Completed" "fp_expected_output_digest demo_replication_packet = Some (digits CHR ''f'')"
  "fp_expected_rollback_digest demo_replication_packet = digits CHR ''1''" "fp_expected_untouched_digest demo_replication_packet = digits CHR ''2''"
  "fp_expected_receipt_binding_digest demo_replication_packet = digits CHR ''3''" "\<not> fp_expected_recovery_frozen demo_replication_packet"
  by (simp_all add: demo_replication_packet_def packet_seal.reseal_def)

lemma demo_result_new:
  assumes "is_ascii_hexdigit c" and "\<not> is_ascii_uppercase c"
  shows "\<exists>r. replication_result_new demo_env demo_replication_packet ''op'' ''host'' RT_Completed (Some (digits CHR ''f'')) (digits CHR ''1'')
    (digits c) (digits CHR ''3'') False 10 = Inr r"
proof -
  have "valid_digest (fp_packet_digest demo_replication_packet)" using demo_packet_valid unfolding packet_seal.validate_iff by blast
  moreover have "valid_digest (digits c)" using assms by simp
  ultimately show ?thesis using demo_packet_valid
    by (simp add: replication_result_new_def replication_result_validate_def replication_text_def text_within_def ascii_control_def
        hex_simps Let_def)
qed

theorem replication_decides_witness:
  "\<exists>r g s. replication_result_new demo_env demo_replication_packet ''op'' ''host'' RT_Completed (Some (digits CHR ''f'')) (digits CHR ''1'')
      (digits CHR ''9'') (digits CHR ''3'') False 10 = Inr r \<and> replication_sign demo_env demo_ed g r = Inr s \<and>
     replication_compare demo_env demo_ed demo_replication_packet s ''key'' (replication_key_bytes demo_ed g) =
       Inl (Err_Quarantined ''replication result does not match frozen packet'')"
proof -
  have g: "replication_signer_new ''key'' [] = Inr \<lparr>rg_key_id = ''key'', rg_signing_key = []\<rparr>"
    by (simp add: replication_signer_new_def replication_text_def text_within_def ascii_control_def)
  obtain r where r: "replication_result_new demo_env demo_replication_packet ''op'' ''host'' RT_Completed (Some (digits CHR ''f''))
      (digits CHR ''1'') (digits CHR ''9'') (digits CHR ''3'') False 10 = Inr r"
    using demo_result_new [of "CHR ''9''"] by (auto simp: hex_simps)
  show ?thesis using replication_decides [OF demo_ed_correct g r] r by (auto simp: demo_packet_fields)
qed

theorem replication_match_binds_witness:
  "\<exists>s. replication_compare demo_env demo_ed demo_replication_packet s ''key'' [] = Inr RD_Matched \<and>
     rr_terminal (sr_result s) = RT_Completed \<and> rr_output_digest (sr_result s) \<noteq> None"
proof -
  obtain r where r: "replication_result_new demo_env demo_replication_packet ''op'' ''host'' RT_Completed (Some (digits CHR ''f''))
      (digits CHR ''1'') (digits CHR ''2'') (digits CHR ''3'') False 10 = Inr r"
    using demo_result_new [of "CHR ''2''"] by (auto simp: hex_simps)
  let ?s = "\<lparr>sr_result = r, sr_signer_key_id = ''key'', sr_signature = replicate 64 0\<rparr>"
  have "signed_validate ?s = Inr ()" using r
    by (auto simp: signed_validate_def replication_result_new_def replication_text_def text_within_def ascii_control_def
        try_r_eq_Inr Let_def)
  then have c: "replication_compare demo_env demo_ed demo_replication_packet ?s ''key'' [] = Inr RD_Matched"
    using r demo_packet_valid unfolding compare_matched verified_signature
    by (auto simp: replication_result_new_def reproduces_def replication_text_def text_within_def ascii_control_def
        demo_ed_def demo_packet_fields try_r_eq_Inr Let_def)
  from replication_match_binds [OF c c] c show ?thesis by (metis demo_packet_fields(1))
qed

end
