(* ===== verification/Adaptation.thy ===== *)
theory Adaptation
  imports Sealed
begin

text \<open>
  The adaptation record of src/adaptation.rs: an immutable candidate with its controls that moves from shadow over canary and approval to a local
  release, or is rolled back or frozen.
\<close>

section \<open>The record\<close>

definition ADAPTATION_SCHEMA_VERSION :: string where
  "ADAPTATION_SCHEMA_VERSION = ''security-alignment-os-adaptation-record-v1''"

definition ADAPTATION_CLAIM_CEILING :: string where
  "ADAPTATION_CLAIM_CEILING = ''ControlledLocalShadowAdaptation''"

definition adaptation_text :: "string \<Rightarrow> bool" where
  "adaptation_text value = text_within 256 value"

datatype adaptation_state = AS_Shadow | AS_Canary | AS_CandidateApproved | AS_ReleasedLocal | AS_RolledBack | AS_Frozen

fun adaptation_state_name :: "adaptation_state \<Rightarrow> string" where
  "adaptation_state_name AS_Shadow = ''Shadow''"
| "adaptation_state_name AS_Canary = ''Canary''"
| "adaptation_state_name AS_CandidateApproved = ''CandidateApproved''"
| "adaptation_state_name AS_ReleasedLocal = ''ReleasedLocal''"
| "adaptation_state_name AS_RolledBack = ''RolledBack''"
| "adaptation_state_name AS_Frozen = ''Frozen''"

record adaptation_evidence =
  ae_reviewer_id :: string
  ae_promotion_authority_id :: string
  ae_evaluator_digest :: string
  ae_evidence_digest :: string
  ae_stream_digest :: string
  ae_resource_usage_digest :: string
  ae_healthy :: bool

record adaptation_record =
  ar_schema_version :: string
  ar_state_slice :: string
  ar_claim_ceiling :: string
  ar_candidate_id :: string
  ar_proposer_id :: string
  ar_base_digest :: string
  ar_candidate_digest :: string
  ar_training_data_manifest_digest :: string
  ar_evaluator_digest :: string
  ar_policy_digest :: string
  ar_resource_budget_digest :: string
  ar_evaluation_lock_digest :: string
  ar_canary_policy_digest :: string
  ar_promotion_authority_id :: string
  ar_rollback_digest :: string
  ar_state :: adaptation_state
  ar_shadow_evidence_digest :: "string option"
  ar_canary_evidence_digest :: "string option"
  ar_promotion_evidence_digest :: "string option"
  ar_terminal_reason_digest :: "string option"
  ar_record_digest :: string

definition adaptation_identity :: "adaptation_record \<Rightarrow> (string \<times> json) list" where
  "adaptation_identity r =
    [(''schema_version'', JStr (ar_schema_version r)), (''state_slice'', JStr (ar_state_slice r)),
     (''claim_ceiling'', JStr (ar_claim_ceiling r)), (''candidate_id'', JStr (ar_candidate_id r)), (''proposer_id'', JStr (ar_proposer_id r)),
     (''base_digest'', JStr (ar_base_digest r)), (''candidate_digest'', JStr (ar_candidate_digest r)),
     (''training_data_manifest_digest'', JStr (ar_training_data_manifest_digest r)), (''evaluator_digest'', JStr (ar_evaluator_digest r)),
     (''policy_digest'', JStr (ar_policy_digest r)), (''resource_budget_digest'', JStr (ar_resource_budget_digest r)),
     (''evaluation_lock_digest'', JStr (ar_evaluation_lock_digest r)), (''canary_policy_digest'', JStr (ar_canary_policy_digest r)),
     (''promotion_authority_id'', JStr (ar_promotion_authority_id r)), (''rollback_digest'', JStr (ar_rollback_digest r)),
     (''state'', JStr (adaptation_state_name (ar_state r))),
     (''shadow_evidence_digest'', json_opt JStr (ar_shadow_evidence_digest r)),
     (''canary_evidence_digest'', json_opt JStr (ar_canary_evidence_digest r)),
     (''promotion_evidence_digest'', json_opt JStr (ar_promotion_evidence_digest r)),
     (''terminal_reason_digest'', json_opt JStr (ar_terminal_reason_digest r))]"

definition json_adaptation_record :: "adaptation_record \<Rightarrow> json" where
  "json_adaptation_record r = JObj (adaptation_identity r @ [(''record_digest'', JStr (ar_record_digest r))])"

definition adaptation_expected_digest :: "crypto \<Rightarrow> adaptation_record \<Rightarrow> string" where
  "adaptation_expected_digest env r = digest env (JObj (adaptation_identity r))"

definition phase_evidence :: "adaptation_record \<Rightarrow> string list" where
  "phase_evidence r = List.map_filter (\<lambda>x. x) [ar_shadow_evidence_digest r, ar_canary_evidence_digest r, ar_promotion_evidence_digest r]"

definition adaptation_state_check :: "adaptation_record \<Rightarrow> unit result" where
  "adaptation_state_check r =
     (case ar_state r of
        AS_Shadow \<Rightarrow>
          if ar_shadow_evidence_digest r \<noteq> None \<or> ar_canary_evidence_digest r \<noteq> None \<or> ar_promotion_evidence_digest r \<noteq> None
          then Inl (Err_Invalid ''shadow state contains phase evidence'') else Inr ()
      | AS_Canary \<Rightarrow>
          if ar_shadow_evidence_digest r = None \<or> ar_canary_evidence_digest r \<noteq> None \<or> ar_promotion_evidence_digest r \<noteq> None
          then Inl (Err_Invalid ''canary state evidence is inconsistent'') else Inr ()
      | AS_CandidateApproved \<Rightarrow>
          if ar_shadow_evidence_digest r = None \<or> ar_canary_evidence_digest r = None \<or> ar_promotion_evidence_digest r \<noteq> None
          then Inl (Err_Invalid ''approved candidate evidence is inconsistent'') else Inr ()
      | AS_ReleasedLocal \<Rightarrow>
          if ar_shadow_evidence_digest r = None \<or> ar_canary_evidence_digest r = None \<or> ar_promotion_evidence_digest r = None
          then Inl (Err_Invalid ''released candidate evidence is incomplete'') else Inr ()
      | _ \<Rightarrow> if ar_terminal_reason_digest r = None then Inl (Err_Invalid ''terminal adaptation reason is missing'') else Inr ())"

definition adaptation_validate_body :: "adaptation_record \<Rightarrow> unit result" where
  "adaptation_validate_body r =
     (if ar_schema_version r \<noteq> ADAPTATION_SCHEMA_VERSION \<or> ar_state_slice r \<noteq> STATE_SLICE \<or> ar_claim_ceiling r \<noteq> ADAPTATION_CLAIM_CEILING \<or>
         \<not> adaptation_text (ar_candidate_id r) \<or> \<not> adaptation_text (ar_proposer_id r) \<or> \<not> adaptation_text (ar_promotion_authority_id r) \<or>
         \<not> valid_digest (ar_base_digest r) \<or> \<not> valid_digest (ar_candidate_digest r) \<or>
         \<not> valid_digest (ar_training_data_manifest_digest r) \<or> \<not> valid_digest (ar_evaluator_digest r) \<or>
         \<not> valid_digest (ar_policy_digest r) \<or> \<not> valid_digest (ar_resource_budget_digest r) \<or>
         \<not> valid_digest (ar_evaluation_lock_digest r) \<or> \<not> valid_digest (ar_canary_policy_digest r) \<or>
         \<not> valid_digest (ar_rollback_digest r) \<or> ar_base_digest r \<noteq> ar_rollback_digest r \<or> ar_base_digest r = ar_candidate_digest r \<or>
         \<not> optional_ok valid_digest (ar_shadow_evidence_digest r) \<or> \<not> optional_ok valid_digest (ar_canary_evidence_digest r) \<or>
         \<not> optional_ok valid_digest (ar_promotion_evidence_digest r) \<or> \<not> optional_ok valid_digest (ar_terminal_reason_digest r) \<or>
         ar_proposer_id r = ar_promotion_authority_id r
      then Inl (Err_Invalid ''adaptation record is malformed'')
      else try_r (adaptation_state_check r) (\<lambda>_.
        if length (phase_evidence r) \<noteq> length (bs_from_list (phase_evidence r))
        then Inl (Err_Invalid ''adaptation phase evidence was reused'') else Inr ()))"

definition adaptation_validate :: "crypto \<Rightarrow> adaptation_record \<Rightarrow> unit result" where
  "adaptation_validate env r =
     try_r (adaptation_validate_body r) (\<lambda>_.
     if \<not> valid_digest (ar_record_digest r) \<or> ar_record_digest r \<noteq> adaptation_expected_digest env r
     then Inl (Err_Invalid ''adaptation record digest mismatch'') else Inr ())"

section \<open>Operations\<close>

definition adaptation_new ::
  "crypto \<Rightarrow> string \<Rightarrow> string \<Rightarrow> hex_digest \<Rightarrow> hex_digest \<Rightarrow> hex_digest \<Rightarrow> hex_digest \<Rightarrow> hex_digest \<Rightarrow> hex_digest \<Rightarrow> hex_digest \<Rightarrow>
   hex_digest \<Rightarrow> string \<Rightarrow> adaptation_record result" where
  "adaptation_new env candidate_id proposer_id base candidate manifest evaluator policy budget lock canary authority =
     (let r = \<lparr>ar_schema_version = ADAPTATION_SCHEMA_VERSION, ar_state_slice = STATE_SLICE, ar_claim_ceiling = ADAPTATION_CLAIM_CEILING,
               ar_candidate_id = candidate_id, ar_proposer_id = proposer_id, ar_base_digest = base, ar_candidate_digest = candidate,
               ar_training_data_manifest_digest = manifest, ar_evaluator_digest = evaluator, ar_policy_digest = policy,
               ar_resource_budget_digest = budget, ar_evaluation_lock_digest = lock, ar_canary_policy_digest = canary,
               ar_promotion_authority_id = authority, ar_rollback_digest = base, ar_state = AS_Shadow,
               ar_shadow_evidence_digest = None, ar_canary_evidence_digest = None, ar_promotion_evidence_digest = None,
               ar_terminal_reason_digest = None, ar_record_digest = ''''\<rparr>
      in try_r (adaptation_validate_body r) (\<lambda>_.
         let r' = r\<lparr>ar_record_digest := adaptation_expected_digest env r\<rparr>
         in try_r (adaptation_validate env r') (\<lambda>_. Inr r')))"

definition adaptation_refresh :: "crypto \<Rightarrow> adaptation_record \<Rightarrow> unit result \<times> adaptation_record" where
  "adaptation_refresh env r =
     (let r' = r\<lparr>ar_record_digest := adaptation_expected_digest env r\<rparr> in (adaptation_validate env r', r'))"

definition phase_evidence_valid :: "adaptation_record \<Rightarrow> adaptation_evidence \<Rightarrow> unit result" where
  "phase_evidence_valid r e =
     (if \<not> adaptation_text (ae_reviewer_id e) \<or> \<not> adaptation_text (ae_promotion_authority_id e) \<or>
         \<not> valid_digest (ae_evaluator_digest e) \<or> \<not> valid_digest (ae_evidence_digest e) \<or> \<not> valid_digest (ae_stream_digest e) \<or>
         \<not> valid_digest (ae_resource_usage_digest e) \<or> ae_reviewer_id e = ar_proposer_id r \<or>
         ae_reviewer_id e = ae_promotion_authority_id e \<or> ae_promotion_authority_id e \<noteq> ar_promotion_authority_id r \<or>
         ae_evaluator_digest e \<noteq> ar_evaluator_digest r
      then Inl (Err_Rejected ''adaptation evidence identity or control binding failed'')
      else if \<not> ae_healthy e then Inl (Err_Quarantined ''unhealthy adaptation evidence requires freeze'') else Inr ())"

definition record_shadow :: "crypto \<Rightarrow> adaptation_record \<Rightarrow> adaptation_evidence \<Rightarrow> unit result \<times> adaptation_record" where
  "record_shadow env r e =
     (if ar_state r \<noteq> AS_Shadow then (Inl (Err_Rejected ''adaptation is not in shadow state''), r)
      else case phase_evidence_valid r e of
        Inl err \<Rightarrow> (Inl err, r)
      | Inr _ \<Rightarrow> adaptation_refresh env (r\<lparr>ar_shadow_evidence_digest := Some (ae_evidence_digest e), ar_state := AS_Canary\<rparr>))"

definition record_canary :: "crypto \<Rightarrow> adaptation_record \<Rightarrow> adaptation_evidence \<Rightarrow> unit result \<times> adaptation_record" where
  "record_canary env r e =
     (if ar_state r \<noteq> AS_Canary then (Inl (Err_Rejected ''adaptation is not in canary state''), r)
      else case phase_evidence_valid r e of
        Inl err \<Rightarrow> (Inl err, r)
      | Inr _ \<Rightarrow>
        if ar_shadow_evidence_digest r = Some (ae_evidence_digest e) then (Inl (Err_Rejected ''canary evidence was reused''), r)
        else adaptation_refresh env (r\<lparr>ar_canary_evidence_digest := Some (ae_evidence_digest e), ar_state := AS_CandidateApproved\<rparr>))"

definition adaptation_promote :: "crypto \<Rightarrow> adaptation_record \<Rightarrow> string \<Rightarrow> string \<Rightarrow> unit result \<times> adaptation_record" where
  "adaptation_promote env r authority approval =
     (if ar_state r \<noteq> AS_CandidateApproved \<or> authority \<noteq> ar_promotion_authority_id r \<or> \<not> valid_digest approval
      then (Inl (Err_Rejected ''adaptation promotion is not independently authorized''), r)
      else adaptation_refresh env (r\<lparr>ar_promotion_evidence_digest := Some approval, ar_state := AS_ReleasedLocal\<rparr>))"

definition adaptation_rollback :: "crypto \<Rightarrow> adaptation_record \<Rightarrow> string \<Rightarrow> unit result \<times> adaptation_record" where
  "adaptation_rollback env r reason =
     (if ar_state r \<in> {AS_RolledBack, AS_Frozen} \<or> \<not> valid_digest reason
      then (Inl (Err_Rejected ''adaptation rollback is unavailable''), r)
      else adaptation_refresh env (r\<lparr>ar_terminal_reason_digest := Some reason, ar_state := AS_RolledBack\<rparr>))"

definition adaptation_freeze :: "crypto \<Rightarrow> adaptation_record \<Rightarrow> string \<Rightarrow> unit result \<times> adaptation_record" where
  "adaptation_freeze env r reason =
     (if ar_state r = AS_Frozen \<or> \<not> valid_digest reason
      then (Inl (Err_Rejected ''adaptation is already frozen or malformed''), r)
      else adaptation_refresh env (r\<lparr>ar_terminal_reason_digest := Some reason, ar_state := AS_Frozen\<rparr>))"

section \<open>What the record guarantees\<close>

lemma adaptation_state_name_inject: "adaptation_state_name s = adaptation_state_name t \<longleftrightarrow> s = t"
  by (cases s; cases t) simp_all

interpretation adaptation_seal: sealed ar_record_digest "\<lambda>d r. r\<lparr>ar_record_digest := d\<rparr>" adaptation_expected_digest
    adaptation_validate_body "\<lambda>r. JObj (adaptation_identity r)" adaptation_validate
proof
  fix d :: string and r r' :: adaptation_record and env
  show "adaptation_validate_body (r\<lparr>ar_record_digest := d\<rparr>) = adaptation_validate_body r"
    by (cases r) (simp only: adaptation_validate_body_def adaptation_state_check_def phase_evidence_def
        adaptation_record.update_convs adaptation_record.select_convs)
  show "JObj (adaptation_identity (r\<lparr>ar_record_digest := d\<rparr>)) = JObj (adaptation_identity r)" by (simp add: adaptation_identity_def)
  show "r\<lparr>ar_record_digest := d\<rparr> = r'\<lparr>ar_record_digest := d\<rparr>" if "JObj (adaptation_identity r) = JObj (adaptation_identity r')"
    using that by (cases r, cases r') (simp add: adaptation_identity_def json_opt_JStr adaptation_state_name_inject)
  show "adaptation_validate env r = Inr () \<longleftrightarrow> adaptation_validate_body r = Inr () \<and> valid_digest (ar_record_digest r) \<and>
      ar_record_digest r = adaptation_expected_digest env r"
    by (auto simp: adaptation_validate_def try_r_eq_Inr)
qed (simp_all add: adaptation_expected_digest_def)

lemma phase_evidence_distinct: "length (phase_evidence r) = length (bs_from_list (phase_evidence r)) \<longleftrightarrow> distinct (phase_evidence r)"
proof
  assume "length (phase_evidence r) = length (bs_from_list (phase_evidence r))"
  moreover have "length (bs_from_list (phase_evidence r)) = card (set (phase_evidence r))"
    using bs_wf_ops(3) [of "phase_evidence r"] by (metis bs_wf_def distinct_card set_bs_ops(3) strict_sorted_iff)
  ultimately show "distinct (phase_evidence r)" by (metis card_distinct)
qed (simp add: length_bs_from_list)

lemma refresh_eq: "adaptation_refresh env r = (adaptation_validate env (adaptation_seal.reseal env r), adaptation_seal.reseal env r)"
  by (simp add: adaptation_refresh_def adaptation_seal.reseal_def Let_def)

datatype adaptation_op =
    AO_Shadow adaptation_evidence | AO_Canary adaptation_evidence | AO_Promote string string | AO_Rollback string | AO_Freeze string

fun adaptation_do :: "crypto \<Rightarrow> adaptation_record \<Rightarrow> adaptation_op \<Rightarrow> unit result \<times> adaptation_record" where
  "adaptation_do env r (AO_Shadow e) = record_shadow env r e"
| "adaptation_do env r (AO_Canary e) = record_canary env r e"
| "adaptation_do env r (AO_Promote a d) = adaptation_promote env r a d"
| "adaptation_do env r (AO_Rollback d) = adaptation_rollback env r d"
| "adaptation_do env r (AO_Freeze d) = adaptation_freeze env r d"

definition same_candidate :: "adaptation_record \<Rightarrow> adaptation_record \<Rightarrow> bool" where
  "same_candidate r r' \<longleftrightarrow>
     ar_candidate_id r' = ar_candidate_id r \<and> ar_proposer_id r' = ar_proposer_id r \<and> ar_base_digest r' = ar_base_digest r \<and>
     ar_candidate_digest r' = ar_candidate_digest r \<and> ar_evaluator_digest r' = ar_evaluator_digest r \<and>
     ar_promotion_authority_id r' = ar_promotion_authority_id r \<and> ar_rollback_digest r' = ar_rollback_digest r \<and>
     ar_policy_digest r' = ar_policy_digest r \<and> ar_evaluation_lock_digest r' = ar_evaluation_lock_digest r \<and>
     ar_resource_budget_digest r' = ar_resource_budget_digest r \<and> ar_canary_policy_digest r' = ar_canary_policy_digest r \<and>
     ar_training_data_manifest_digest r' = ar_training_data_manifest_digest r"

fun phase_rank :: "adaptation_state \<Rightarrow> nat" where
  "phase_rank AS_Shadow = 0"
| "phase_rank AS_Canary = 1"
| "phase_rank AS_CandidateApproved = 2"
| "phase_rank AS_ReleasedLocal = 3"
| "phase_rank AS_RolledBack = 4"
| "phase_rank AS_Frozen = 5"

lemma adaptation_do_ok:
  assumes "adaptation_do env r a = (Inr (), r')"
  shows "adaptation_validate env r' = Inr () \<and> same_candidate r r' \<and> phase_rank (ar_state r) < phase_rank (ar_state r')"
  using assms
  by (cases a; cases "ar_state r")
    (auto simp: record_shadow_def record_canary_def adaptation_promote_def adaptation_rollback_def adaptation_freeze_def
      refresh_eq adaptation_seal.reseal_def same_candidate_def split: sum.splits if_splits)

lemma adaptation_do_target:
  assumes "adaptation_do env r a = (Inr (), r')"
  shows "case a of AO_Shadow e \<Rightarrow> ar_state r = AS_Shadow \<and> ar_state r' = AS_Canary
    | AO_Canary e \<Rightarrow> ar_state r = AS_Canary \<and> ar_state r' = AS_CandidateApproved
    | AO_Promote i d \<Rightarrow> ar_state r = AS_CandidateApproved \<and> ar_state r' = AS_ReleasedLocal
    | AO_Rollback d \<Rightarrow> ar_state r' = AS_RolledBack | AO_Freeze d \<Rightarrow> ar_state r' = AS_Frozen"
  using assms
  by (cases a)
    (auto simp: record_shadow_def record_canary_def adaptation_promote_def adaptation_rollback_def adaptation_freeze_def
      refresh_eq adaptation_seal.reseal_def split: sum.splits if_splits)

lemma release_path:
  assumes "try_ops (adaptation_do env) r ops = Inr r'" and "ar_state r' = AS_ReleasedLocal"
  shows "case ar_state r of AS_ReleasedLocal \<Rightarrow> ops = []
    | AS_CandidateApproved \<Rightarrow> (\<exists>i d. ops = [AO_Promote i d])
    | AS_Canary \<Rightarrow> (\<exists>c i d. ops = [AO_Canary c, AO_Promote i d])
    | AS_Shadow \<Rightarrow> (\<exists>s c i d. ops = [AO_Shadow s, AO_Canary c, AO_Promote i d])
    | _ \<Rightarrow> False"
  using assms
proof (induction ops arbitrary: r)
  case (Cons a ops)
  obtain r1 where d: "adaptation_do env r a = (Inr (), r1)" and rest: "try_ops (adaptation_do env) r1 ops = Inr r'"
    using Cons.prems(1) by (auto split: prod.splits sum.splits)
  from Cons.IH [OF rest Cons.prems(2)] adaptation_do_target [OF d] adaptation_do_ok [OF d]
  show ?case by (cases a; cases "ar_state r") (auto split: adaptation_state.splits)
qed simp

lemma try_keeps_candidate:
  assumes "try_ops (adaptation_do env) r ops = Inr r'"
  shows "same_candidate r r' \<and> (adaptation_validate env r = Inr () \<longrightarrow> adaptation_validate env r' = Inr ())"
  using assms
proof (induction ops arbitrary: r)
  case (Cons a ops)
  obtain r1 where d: "adaptation_do env r a = (Inr (), r1)" and rest: "try_ops (adaptation_do env) r1 ops = Inr r'"
    using Cons.prems by (auto split: prod.splits sum.splits)
  show ?case using Cons.IH [OF rest] adaptation_do_ok [OF d] by (auto simp: same_candidate_def)
qed (simp add: same_candidate_def)

lemma adaptation_body_facts:
  assumes "adaptation_validate_body r = Inr ()"
  shows "distinct (phase_evidence r) \<and> ar_base_digest r = ar_rollback_digest r \<and> ar_proposer_id r \<noteq> ar_promotion_authority_id r \<and>
    adaptation_state_check r = Inr ()"
  using assms phase_evidence_distinct [of r] unfolding adaptation_validate_body_def by (simp add: try_r_eq_Inr split: if_splits)

text \<open>
  C20.  A local release is earned: a record that reaches \<open>ReleasedLocal\<close> through operations that all succeeded got there by exactly one shadow, one canary and one
  promotion step, with healthy evidence of reviewers that are neither the proposer nor the promotion authority and that used the frozen
  evaluator, with three different evidence digests and a promotion by the authority; the candidate and its controls are those it was created with, and what a
  rollback would restore is its base.
\<close>

theorem adaptation_release_is_earned:
  assumes "adaptation_validate env r0 = Inr ()" and "ar_state r0 = AS_Shadow"
    and "try_ops (adaptation_do env) r0 ops = Inr r" and "ar_state r = AS_ReleasedLocal"
  shows "\<exists>s c d. ops = [AO_Shadow s, AO_Canary c, AO_Promote (ar_promotion_authority_id r0) d] \<and>
    (\<forall>e\<in>{s, c}. ae_healthy e \<and> ae_reviewer_id e \<notin> {ar_proposer_id r0, ar_promotion_authority_id r0} \<and>
       ae_evaluator_digest e = ar_evaluator_digest r0) \<and>
    distinct [ae_evidence_digest s, ae_evidence_digest c, d] \<and>
    ar_shadow_evidence_digest r = Some (ae_evidence_digest s) \<and> ar_canary_evidence_digest r = Some (ae_evidence_digest c) \<and>
    ar_promotion_evidence_digest r = Some d \<and> same_candidate r0 r \<and> ar_rollback_digest r = ar_base_digest r0"
proof -
  obtain s c i d where ops: "ops = [AO_Shadow s, AO_Canary c, AO_Promote i d]"
    using release_path [OF assms(3,4)] assms(2) by auto
  obtain r1 r2 where r1: "record_shadow env r0 s = (Inr (), r1)" and r2: "record_canary env r1 c = (Inr (), r2)"
    and r: "adaptation_promote env r2 i d = (Inr (), r)"
    using assms(3) unfolding ops by (auto split: prod.splits sum.splits)
  have k: "same_candidate r0 r" "adaptation_validate env r = Inr ()" using try_keeps_candidate [OF assms(3)] assms(1) by auto
  have body: "adaptation_validate_body r = Inr ()" using k(2) adaptation_seal.validate_iff by blast
  have k1: "same_candidate r0 r1" using adaptation_do_ok [of env r0 "AO_Shadow s" r1] r1 by simp
  have k2: "same_candidate r1 r2" using adaptation_do_ok [of env r1 "AO_Canary c" r2] r2 by simp
  have e: "phase_evidence_valid r0 s = Inr ()" "phase_evidence_valid r1 c = Inr ()" "i = ar_promotion_authority_id r2"
    using r1 r2 r by (auto simp: record_shadow_def record_canary_def adaptation_promote_def split: sum.splits if_splits)
  have dg: "ar_shadow_evidence_digest r = Some (ae_evidence_digest s)" "ar_canary_evidence_digest r = Some (ae_evidence_digest c)"
    "ar_promotion_evidence_digest r = Some d"
    using r1 r2 r by (auto simp: record_shadow_def record_canary_def adaptation_promote_def refresh_eq adaptation_seal.reseal_def
        split: sum.splits if_splits)
  then have "distinct [ae_evidence_digest s, ae_evidence_digest c, d]"
    using adaptation_body_facts [OF body] by (simp add: phase_evidence_def List.map_filter_simps)
  then show ?thesis
    using ops e dg k(1) k1 k2 adaptation_body_facts [OF body]
    by (intro exI [of _ s] exI [of _ c] exI [of _ d]) (auto simp: phase_evidence_valid_def same_candidate_def split: if_splits)
qed

lemma body_update:
  assumes "adaptation_validate_body r = Inr ()" and "same_candidate r r'" and "ar_schema_version r' = ar_schema_version r"
    "ar_state_slice r' = ar_state_slice r" "ar_claim_ceiling r' = ar_claim_ceiling r"
    and "optional_ok valid_digest (ar_shadow_evidence_digest r')" "optional_ok valid_digest (ar_canary_evidence_digest r')"
    "optional_ok valid_digest (ar_promotion_evidence_digest r')" "optional_ok valid_digest (ar_terminal_reason_digest r')"
    and "adaptation_state_check r' = Inr ()"
  shows "adaptation_validate_body r' = (if distinct (phase_evidence r') then Inr () else Inl (Err_Invalid ''adaptation phase evidence was reused''))"
proof -
  have "(if \<not> distinct (phase_evidence r') then Inl (Err_Invalid ''adaptation phase evidence was reused'') else Inr ()) =
      (if distinct (phase_evidence r') then Inr () else Inl (Err_Invalid ''adaptation phase evidence was reused''))" by simp
  then show ?thesis
    using assms unfolding adaptation_validate_body_def phase_evidence_distinct same_candidate_def
    by (simp add: try_r_eq_Inr split: if_split_asm)
qed

lemma body_optionals:
  assumes "adaptation_validate_body r = Inr ()"
  shows "optional_ok valid_digest (ar_shadow_evidence_digest r)" "optional_ok valid_digest (ar_canary_evidence_digest r)"
    "optional_ok valid_digest (ar_promotion_evidence_digest r)" "optional_ok valid_digest (ar_terminal_reason_digest r)"
  using assms unfolding adaptation_validate_body_def by (simp_all split: if_split_asm)

lemma refresh_ok:
  assumes "sha256_len env" and "adaptation_validate_body r = Inr ()"
  shows "fst (adaptation_refresh env r) = Inr ()"
  using adaptation_seal.reseal_valid [OF assms(1), of r] assms(2) by (simp add: refresh_eq)

lemma record_shadow_error:
  assumes "sha256_len env" and "adaptation_validate_body r = Inr ()" and "record_shadow env r e = (Inl err, r')"
  shows "r' = r"
proof (rule ccontr)
  assume ne: "r' \<noteq> r"
  let ?r = "r\<lparr>ar_shadow_evidence_digest := Some (ae_evidence_digest e), ar_state := AS_Canary\<rparr>"
  have s: "ar_state r = AS_Shadow" and v: "phase_evidence_valid r e = Inr ()" and out: "fst (adaptation_refresh env ?r) = Inl err"
    using assms(3) ne by (auto simp: record_shadow_def split: if_splits sum.splits)
  have "adaptation_state_check r = Inr ()" using adaptation_body_facts [OF assms(2)] by simp
  then have none: "ar_canary_evidence_digest r = None" "ar_promotion_evidence_digest r = None"
    using s by (auto simp: adaptation_state_check_def split: if_splits)
  have "valid_digest (ae_evidence_digest e)" using v by (auto simp: phase_evidence_valid_def split: if_splits)
  then have "adaptation_validate_body ?r = Inr ()"
    using body_update [OF assms(2), of ?r] body_optionals [OF assms(2)] none
    by (simp add: same_candidate_def adaptation_state_check_def phase_evidence_def List.map_filter_simps)
  then show False using refresh_ok [OF assms(1)] out by simp
qed

lemma record_canary_error:
  assumes "sha256_len env" and "adaptation_validate_body r = Inr ()" and "record_canary env r e = (Inl err, r')"
  shows "r' = r"
proof (rule ccontr)
  assume ne: "r' \<noteq> r"
  let ?r = "r\<lparr>ar_canary_evidence_digest := Some (ae_evidence_digest e), ar_state := AS_CandidateApproved\<rparr>"
  have s: "ar_state r = AS_Canary" and v: "phase_evidence_valid r e = Inr ()" and out: "fst (adaptation_refresh env ?r) = Inl err"
    and new: "ar_shadow_evidence_digest r \<noteq> Some (ae_evidence_digest e)"
    using assms(3) ne by (auto simp: record_canary_def split: if_splits sum.splits)
  have "adaptation_state_check r = Inr ()" using adaptation_body_facts [OF assms(2)] by simp
  then have none: "ar_shadow_evidence_digest r \<noteq> None" "ar_promotion_evidence_digest r = None"
    using s by (auto simp: adaptation_state_check_def split: if_splits)
  have "valid_digest (ae_evidence_digest e)" using v by (auto simp: phase_evidence_valid_def split: if_splits)
  then have "adaptation_validate_body ?r = Inr ()"
    using body_update [OF assms(2), of ?r] body_optionals [OF assms(2)] none new
    by (auto simp: same_candidate_def adaptation_state_check_def phase_evidence_def List.map_filter_simps)
  then show False using refresh_ok [OF assms(1)] out by simp
qed

lemma terminal_ok:
  assumes "sha256_len env" and "adaptation_validate_body r = Inr ()" and "valid_digest d" and "s \<in> {AS_RolledBack, AS_Frozen}"
  shows "fst (adaptation_refresh env (r\<lparr>ar_terminal_reason_digest := Some d, ar_state := s\<rparr>)) = Inr ()"
proof -
  let ?r = "r\<lparr>ar_terminal_reason_digest := Some d, ar_state := s\<rparr>"
  have "distinct (phase_evidence ?r)" using adaptation_body_facts [OF assms(2)] by (simp add: phase_evidence_def)
  then have "adaptation_validate_body ?r = Inr ()"
    using body_update [OF assms(2), of ?r] body_optionals [OF assms(2)] assms(3,4)
    by (auto simp: same_candidate_def adaptation_state_check_def)
  then show ?thesis by (rule refresh_ok [OF assms(1)])
qed

lemma promote_reused:
  assumes "adaptation_validate_body r = Inr ()" and "ar_state r = AS_CandidateApproved" and "valid_digest d"
  defines "r1 \<equiv> r\<lparr>ar_promotion_evidence_digest := Some d, ar_state := AS_ReleasedLocal\<rparr>"
  shows "adaptation_validate_body r1 = (if Some d \<in> {ar_shadow_evidence_digest r, ar_canary_evidence_digest r}
    then Inl (Err_Invalid ''adaptation phase evidence was reused'') else Inr ())"
proof -
  have f: "adaptation_state_check r = Inr ()" "distinct (phase_evidence r)" using adaptation_body_facts [OF assms(1)] by simp_all
  then obtain s c where sc: "ar_shadow_evidence_digest r = Some s" "ar_canary_evidence_digest r = Some c" "ar_promotion_evidence_digest r = None"
    using assms(2) by (auto simp: adaptation_state_check_def split: if_splits)
  have "distinct (phase_evidence r1) \<longleftrightarrow> d \<noteq> s \<and> d \<noteq> c"
    using f(2) sc by (auto simp: r1_def phase_evidence_def List.map_filter_simps)
  moreover have "same_candidate r r1" "adaptation_state_check r1 = Inr ()"
    using sc by (simp_all add: r1_def same_candidate_def adaptation_state_check_def)
  ultimately show ?thesis
    using body_update [OF assms(1), of r1] body_optionals [OF assms(1)] assms(3) sc by (simp add: r1_def)
qed

text \<open>
  C21.  The errors: on a valid record a failing operation leaves the record as it was, with one exception.  A promotion with the digest of the shadow or the canary
  evidence is answered with an error, but the record already is in state \<open>ReleasedLocal\<close> then, and no longer validates.
\<close>

theorem adaptation_errors_exact:
  assumes "sha256_len env" and "adaptation_validate env r = Inr ()" and "adaptation_do env r a = (Inl err, r')"
  shows "(if \<exists>d. a = AO_Promote (ar_promotion_authority_id r) d \<and> ar_state r = AS_CandidateApproved \<and>
               Some d \<in> {ar_shadow_evidence_digest r, ar_canary_evidence_digest r}
          then err = Err_Invalid ''adaptation phase evidence was reused'' \<and> ar_state r' = AS_ReleasedLocal \<and> adaptation_validate env r' = Inl err
          else r' = r)"
proof -
  have body: "adaptation_validate_body r = Inr ()" using assms(2) adaptation_seal.validate_iff by blast
  show ?thesis
  proof (cases a)
    case (AO_Promote i d)
    let ?r1 = "r\<lparr>ar_promotion_evidence_digest := Some d, ar_state := AS_ReleasedLocal\<rparr>"
    show ?thesis
    proof (cases "ar_state r = AS_CandidateApproved \<and> i = ar_promotion_authority_id r \<and> valid_digest d")
      case False
      have "valid_digest d" if "Some d \<in> {ar_shadow_evidence_digest r, ar_canary_evidence_digest r}"
        using body_optionals(1,2) [OF body] that by (auto simp: optional_ok_def split: option.splits)
      then have "\<not> (ar_state r = AS_CandidateApproved \<and> i = ar_promotion_authority_id r \<and>
          Some d \<in> {ar_shadow_evidence_digest r, ar_canary_evidence_digest r})" using False by blast
      moreover have "r' = r" using False assms(3) AO_Promote by (auto simp: adaptation_promote_def split: if_splits)
      ultimately show ?thesis using AO_Promote by auto
    next
      case True
      then have out: "adaptation_refresh env ?r1 = (Inl err, r')" using assms(3) AO_Promote by (simp add: adaptation_promote_def)
      then have bad: "adaptation_validate_body ?r1 \<noteq> Inr ()" using refresh_ok [OF assms(1), of ?r1] by auto
      have p: "adaptation_validate_body ?r1 = (if Some d \<in> {ar_shadow_evidence_digest r, ar_canary_evidence_digest r}
          then Inl (Err_Invalid ''adaptation phase evidence was reused'') else Inr ())"
        using promote_reused [OF body] True by blast
      then have reused: "Some d \<in> {ar_shadow_evidence_digest r, ar_canary_evidence_digest r}"
        "adaptation_validate_body ?r1 = Inl (Err_Invalid ''adaptation phase evidence was reused'')"
        using bad by (simp_all split: if_splits)
      have r': "r' = adaptation_seal.reseal env ?r1" "adaptation_validate env r' = Inl err" using out by (auto simp: refresh_eq)
      have "adaptation_validate_body r' = Inl (Err_Invalid ''adaptation phase evidence was reused'')"
        using adaptation_seal.body_with_seal reused(2) r'(1) by (simp add: adaptation_seal.reseal_def)
      then have "err = Err_Invalid ''adaptation phase evidence was reused''" using r'(2) by (simp add: adaptation_validate_def)
      moreover have "ar_state r' = AS_ReleasedLocal" using r'(1) by (simp add: adaptation_seal.reseal_def)
      ultimately show ?thesis using AO_Promote True reused(1) r'(2) by auto
    qed
  next
    case (AO_Rollback d)
    then show ?thesis
      using assms(3) terminal_ok [OF assms(1) body, of d AS_RolledBack] by (auto simp: adaptation_rollback_def split: if_splits)
  next
    case (AO_Freeze d)
    then show ?thesis
      using assms(3) terminal_ok [OF assms(1) body, of d AS_Frozen] by (auto simp: adaptation_freeze_def split: if_splits)
  qed (use assms body record_shadow_error record_canary_error in auto)
qed

section \<open>Concrete inputs\<close>

definition demo_adaptation :: adaptation_record where
  "demo_adaptation = \<lparr>ar_schema_version = ADAPTATION_SCHEMA_VERSION, ar_state_slice = STATE_SLICE, ar_claim_ceiling = ADAPTATION_CLAIM_CEILING,
     ar_candidate_id = ''c'', ar_proposer_id = ''p'', ar_base_digest = digits CHR ''a'', ar_candidate_digest = digits CHR ''b'',
     ar_training_data_manifest_digest = digits CHR ''0'', ar_evaluator_digest = digits CHR ''0'', ar_policy_digest = digits CHR ''0'',
     ar_resource_budget_digest = digits CHR ''0'', ar_evaluation_lock_digest = digits CHR ''0'', ar_canary_policy_digest = digits CHR ''0'',
     ar_promotion_authority_id = ''a'', ar_rollback_digest = digits CHR ''a'', ar_state = AS_Shadow, ar_shadow_evidence_digest = None,
     ar_canary_evidence_digest = None, ar_promotion_evidence_digest = None, ar_terminal_reason_digest = None,
     ar_record_digest = digits CHR ''0''\<rparr>"

definition demo_evidence_for :: "char \<Rightarrow> adaptation_evidence" where
  "demo_evidence_for c = \<lparr>ae_reviewer_id = ''r'', ae_promotion_authority_id = ''a'', ae_evaluator_digest = digits CHR ''0'',
     ae_evidence_digest = digits c, ae_stream_digest = digits CHR ''0'', ae_resource_usage_digest = digits CHR ''0'', ae_healthy = True\<rparr>"

definition demo_path_ops :: "adaptation_op list" where
  "demo_path_ops = [AO_Shadow (demo_evidence_for CHR ''1''), AO_Canary (demo_evidence_for CHR ''2''), AO_Promote ''a'' (digits CHR ''3'')]"

definition demo_released :: adaptation_record where
  "demo_released = demo_adaptation\<lparr>ar_state := AS_ReleasedLocal, ar_shadow_evidence_digest := Some (digits CHR ''1''),
     ar_canary_evidence_digest := Some (digits CHR ''2''), ar_promotion_evidence_digest := Some (digits CHR ''3'')\<rparr>"

definition demo_approved :: adaptation_record where
  "demo_approved = demo_adaptation\<lparr>ar_state := AS_CandidateApproved, ar_shadow_evidence_digest := Some (digits CHR ''1''),
     ar_canary_evidence_digest := Some (digits CHR ''2'')\<rparr>"

lemmas demo_adaptation_simps = adaptation_validate_body_def adaptation_state_check_def length_bs_from_list adaptation_expected_digest_def
  demo_approved_def demo_adaptation_def demo_released_def adaptation_text_def text_within_def ascii_control_def hex_simps zero_digits
  phase_evidence_def List.map_filter_simps

lemma demo_adaptation_valid: "adaptation_validate demo_env demo_adaptation = Inr ()" "adaptation_validate demo_env demo_approved = Inr ()"
  unfolding adaptation_seal.validate_iff
  by (simp_all add: demo_adaptation_simps)

lemma demo_adaptation_run: "try_ops (adaptation_do demo_env) demo_adaptation demo_path_ops = Inr demo_released"
  by (simp add: demo_path_ops_def demo_evidence_for_def record_shadow_def record_canary_def adaptation_promote_def phase_evidence_valid_def
      adaptation_refresh_def adaptation_validate_def Let_def demo_adaptation_simps)

theorem adaptation_release_is_earned_witness:
  "\<exists>s c d. demo_path_ops = [AO_Shadow s, AO_Canary c, AO_Promote ''a'' d] \<and> distinct [ae_evidence_digest s, ae_evidence_digest c, d]"
  using adaptation_release_is_earned [OF demo_adaptation_valid(1) _ demo_adaptation_run]
  by (auto simp: demo_adaptation_def demo_released_def)

theorem adaptation_errors_exact_witness:
  "\<exists>err r'. adaptation_do demo_env demo_approved (AO_Promote ''a'' (digits CHR ''1'')) = (Inl err, r') \<and> ar_state r' = AS_ReleasedLocal"
proof -
  let ?r1 = "demo_approved\<lparr>ar_promotion_evidence_digest := Some (digits CHR ''1''), ar_state := AS_ReleasedLocal\<rparr>"
  have f: "ar_state demo_approved = AS_CandidateApproved" "ar_shadow_evidence_digest demo_approved = Some (digits CHR ''1'')"
    "ar_promotion_authority_id demo_approved = ''a''" "valid_digest (digits CHR ''1'')"
    by (simp_all add: demo_approved_def demo_adaptation_def hex_simps)
  have body: "adaptation_validate_body demo_approved = Inr ()" using demo_adaptation_valid(2) adaptation_seal.validate_iff by blast
  have "adaptation_validate_body ?r1 \<noteq> Inr ()" using promote_reused [OF body f(1,4)] f(2) by simp
  then have "adaptation_validate demo_env (adaptation_seal.reseal demo_env ?r1) \<noteq> Inr ()"
    using adaptation_seal.reseal_valid [OF demo_sha256_len] by blast
  then have "\<not> is_ok (fst (adaptation_do demo_env demo_approved (AO_Promote ''a'' (digits CHR ''1''))))"
    using f by (simp add: adaptation_promote_def refresh_eq is_ok_unit)
  then obtain err r' where d: "adaptation_do demo_env demo_approved (AO_Promote ''a'' (digits CHR ''1'')) = (Inl err, r')"
    by (cases "adaptation_do demo_env demo_approved (AO_Promote ''a'' (digits CHR ''1''))") (auto simp: is_ok_def split: sum.splits)
  have "\<exists>d. AO_Promote ''a'' (digits CHR ''1'') = AO_Promote (ar_promotion_authority_id demo_approved) d \<and>
      ar_state demo_approved = AS_CandidateApproved \<and>
      Some d \<in> {ar_shadow_evidence_digest demo_approved, ar_canary_evidence_digest demo_approved}"
    by (simp add: demo_approved_def demo_adaptation_def)
  with adaptation_errors_exact [OF demo_sha256_len demo_adaptation_valid(2) d] have "ar_state r' = AS_ReleasedLocal" by presburger
  with d show ?thesis by blast
qed

end
