(* ===== verification/Causal.thy ===== *)
theory Causal
  imports Sealed
begin

text \<open>
  The causal-measurement protocol of src/causal.rs, a record of frozen identities that moves from draft over qualification and a locked
  assessment to independent acceptance, and the prediction lock of src/alignment.rs.
\<close>

section \<open>The protocol record\<close>

definition CAUSAL_SCHEMA_VERSION :: string where
  "CAUSAL_SCHEMA_VERSION = ''security-alignment-os-causal-protocol-v1''"

definition CAUSAL_CLAIM_CEILING :: string where
  "CAUSAL_CLAIM_CEILING = ''LocalCausalQualification''"

definition causal_text :: "string \<Rightarrow> bool" where
  "causal_text value = text_within 256 value"

datatype causal_track = CT_Behavioral | CT_Mechanistic | CT_ScalableOversight

fun causal_track_name :: "causal_track \<Rightarrow> string" where
  "causal_track_name CT_Behavioral = ''Behavioral''"
| "causal_track_name CT_Mechanistic = ''Mechanistic''"
| "causal_track_name CT_ScalableOversight = ''ScalableOversight''"

datatype causal_state = CS_Draft | CS_Qualified | CS_AssessmentLocked | CS_Accepted | CS_Closed

fun causal_state_name :: "causal_state \<Rightarrow> string" where
  "causal_state_name CS_Draft = ''Draft''"
| "causal_state_name CS_Qualified = ''Qualified''"
| "causal_state_name CS_AssessmentLocked = ''AssessmentLocked''"
| "causal_state_name CS_Accepted = ''Accepted''"
| "causal_state_name CS_Closed = ''Closed''"

record causal_inputs =
  ci_protocol_id :: string
  ci_researcher_id :: string
  ci_validator_id :: string
  ci_track :: causal_track
  ci_model_digest :: string
  ci_runtime_digest :: string
  ci_asset_manifest_digest :: string
  ci_corpus_digest :: string
  ci_split_digest :: string
  ci_held_out_split_digest :: string
  ci_wrapper_digest :: string
  ci_feature_digest :: string
  ci_estimand_digest :: string
  ci_intervention_digest :: string
  ci_control_digest :: string
  ci_power_digest :: string
  ci_multiplicity_digest :: string
  ci_repeat_digest :: string
  ci_attrition_digest :: string
  ci_prediction_lock_digest :: string
  ci_custody_digest :: string
  ci_validator_config_digest :: string
  ci_raw_trace_retention_until :: u64

record causal_protocol =
  cp_schema_version :: string
  cp_state_slice :: string
  cp_claim_ceiling :: string
  cp_protocol_id :: string
  cp_researcher_id :: string
  cp_validator_id :: string
  cp_track :: causal_track
  cp_model_digest :: string
  cp_runtime_digest :: string
  cp_asset_manifest_digest :: string
  cp_corpus_digest :: string
  cp_split_digest :: string
  cp_held_out_split_digest :: string
  cp_wrapper_digest :: string
  cp_feature_digest :: string
  cp_estimand_digest :: string
  cp_intervention_digest :: string
  cp_control_digest :: string
  cp_power_digest :: string
  cp_multiplicity_digest :: string
  cp_repeat_digest :: string
  cp_attrition_digest :: string
  cp_prediction_lock_digest :: string
  cp_custody_digest :: string
  cp_validator_config_digest :: string
  cp_raw_trace_retention_until :: u64
  cp_raw_traces_retained :: bool
  cp_state :: causal_state
  cp_qualification_digest :: "string option"
  cp_assessment_digest :: "string option"
  cp_acceptance_digest :: "string option"
  cp_close_reason_digest :: "string option"
  cp_protocol_digest :: string

definition causal_identity :: "causal_protocol \<Rightarrow> (string \<times> json) list" where
  "causal_identity p =
    [(''schema_version'', JStr (cp_schema_version p)), (''state_slice'', JStr (cp_state_slice p)),
     (''claim_ceiling'', JStr (cp_claim_ceiling p)), (''protocol_id'', JStr (cp_protocol_id p)),
     (''researcher_id'', JStr (cp_researcher_id p)), (''validator_id'', JStr (cp_validator_id p)),
     (''track'', JStr (causal_track_name (cp_track p))), (''model_digest'', JStr (cp_model_digest p)),
     (''runtime_digest'', JStr (cp_runtime_digest p)), (''asset_manifest_digest'', JStr (cp_asset_manifest_digest p)),
     (''corpus_digest'', JStr (cp_corpus_digest p)), (''split_digest'', JStr (cp_split_digest p)),
     (''held_out_split_digest'', JStr (cp_held_out_split_digest p)), (''wrapper_digest'', JStr (cp_wrapper_digest p)),
     (''feature_digest'', JStr (cp_feature_digest p)), (''estimand_digest'', JStr (cp_estimand_digest p)),
     (''intervention_digest'', JStr (cp_intervention_digest p)), (''control_digest'', JStr (cp_control_digest p)),
     (''power_digest'', JStr (cp_power_digest p)), (''multiplicity_digest'', JStr (cp_multiplicity_digest p)),
     (''repeat_digest'', JStr (cp_repeat_digest p)), (''attrition_digest'', JStr (cp_attrition_digest p)),
     (''prediction_lock_digest'', JStr (cp_prediction_lock_digest p)), (''custody_digest'', JStr (cp_custody_digest p)),
     (''validator_config_digest'', JStr (cp_validator_config_digest p)),
     (''raw_trace_retention_until'', json_word (cp_raw_trace_retention_until p)),
     (''raw_traces_retained'', JBool (cp_raw_traces_retained p)), (''state'', JStr (causal_state_name (cp_state p))),
     (''qualification_digest'', json_opt JStr (cp_qualification_digest p)),
     (''assessment_digest'', json_opt JStr (cp_assessment_digest p)),
     (''acceptance_digest'', json_opt JStr (cp_acceptance_digest p)),
     (''close_reason_digest'', json_opt JStr (cp_close_reason_digest p))]"

definition json_causal_protocol :: "causal_protocol \<Rightarrow> json" where
  "json_causal_protocol p = JObj (causal_identity p @ [(''protocol_digest'', JStr (cp_protocol_digest p))])"

definition causal_expected_digest :: "crypto \<Rightarrow> causal_protocol \<Rightarrow> string" where
  "causal_expected_digest env p = digest env (JObj (causal_identity p))"

definition causal_digests :: "causal_protocol \<Rightarrow> string list" where
  "causal_digests p =
    [cp_model_digest p, cp_runtime_digest p, cp_asset_manifest_digest p, cp_corpus_digest p, cp_split_digest p,
     cp_held_out_split_digest p, cp_wrapper_digest p, cp_feature_digest p, cp_estimand_digest p, cp_intervention_digest p,
     cp_control_digest p, cp_power_digest p, cp_multiplicity_digest p, cp_repeat_digest p, cp_attrition_digest p,
     cp_prediction_lock_digest p, cp_custody_digest p, cp_validator_config_digest p]"

definition causal_state_digests :: "causal_protocol \<Rightarrow> string option list" where
  "causal_state_digests p = [cp_qualification_digest p, cp_assessment_digest p, cp_acceptance_digest p, cp_close_reason_digest p]"

definition causal_state_check :: "causal_protocol \<Rightarrow> unit result" where
  "causal_state_check p =
     (case cp_state p of
        CS_Draft \<Rightarrow>
          if cp_qualification_digest p \<noteq> None \<or> cp_assessment_digest p \<noteq> None \<or> cp_acceptance_digest p \<noteq> None \<or> cp_close_reason_digest p \<noteq> None
          then Inl (Err_Invalid ''draft causal protocol has evidence'') else Inr ()
      | CS_Qualified \<Rightarrow>
          if cp_qualification_digest p = None \<or> cp_assessment_digest p \<noteq> None \<or> cp_acceptance_digest p \<noteq> None \<or> cp_close_reason_digest p \<noteq> None
          then Inl (Err_Invalid ''qualified causal protocol is inconsistent'') else Inr ()
      | CS_AssessmentLocked \<Rightarrow>
          if cp_qualification_digest p = None \<or> cp_assessment_digest p = None \<or> cp_acceptance_digest p \<noteq> None \<or> cp_close_reason_digest p \<noteq> None
          then Inl (Err_Invalid ''locked causal assessment is inconsistent'') else Inr ()
      | CS_Accepted \<Rightarrow>
          if cp_qualification_digest p = None \<or> cp_assessment_digest p = None \<or> cp_acceptance_digest p = None \<or> cp_close_reason_digest p \<noteq> None
          then Inl (Err_Invalid ''accepted causal protocol is incomplete'') else Inr ()
      | CS_Closed \<Rightarrow>
          if cp_close_reason_digest p = None then Inl (Err_Invalid ''closed causal protocol lacks reason'') else Inr ())"

definition causal_validate_body :: "causal_protocol \<Rightarrow> unit result" where
  "causal_validate_body p =
     (if cp_schema_version p \<noteq> CAUSAL_SCHEMA_VERSION \<or> cp_state_slice p \<noteq> STATE_SLICE \<or> cp_claim_ceiling p \<noteq> CAUSAL_CLAIM_CEILING \<or>
         \<not> causal_text (cp_protocol_id p) \<or> \<not> causal_text (cp_researcher_id p) \<or> \<not> causal_text (cp_validator_id p) \<or>
         cp_researcher_id p = cp_validator_id p \<or> list_ex (\<lambda>d. \<not> valid_digest d) (causal_digests p) \<or>
         list_ex (\<lambda>d. \<not> optional_ok valid_digest d) (causal_state_digests p) \<or>
         cp_raw_trace_retention_until p = 0 \<or> cp_raw_traces_retained p
      then Inl (Err_Invalid ''causal protocol is malformed'') else causal_state_check p)"

definition causal_validate :: "crypto \<Rightarrow> causal_protocol \<Rightarrow> unit result" where
  "causal_validate env p =
     try_r (causal_validate_body p) (\<lambda>_.
     if \<not> valid_digest (cp_protocol_digest p) \<or> cp_protocol_digest p \<noteq> causal_expected_digest env p
     then Inl (Err_Invalid ''causal protocol digest mismatch'') else Inr ())"

section \<open>Operations\<close>

definition causal_new :: "crypto \<Rightarrow> causal_inputs \<Rightarrow> causal_protocol result" where
  "causal_new env i =
     (let p = \<lparr>cp_schema_version = CAUSAL_SCHEMA_VERSION, cp_state_slice = STATE_SLICE, cp_claim_ceiling = CAUSAL_CLAIM_CEILING,
               cp_protocol_id = ci_protocol_id i, cp_researcher_id = ci_researcher_id i, cp_validator_id = ci_validator_id i,
               cp_track = ci_track i, cp_model_digest = ci_model_digest i, cp_runtime_digest = ci_runtime_digest i,
               cp_asset_manifest_digest = ci_asset_manifest_digest i, cp_corpus_digest = ci_corpus_digest i,
               cp_split_digest = ci_split_digest i, cp_held_out_split_digest = ci_held_out_split_digest i,
               cp_wrapper_digest = ci_wrapper_digest i, cp_feature_digest = ci_feature_digest i,
               cp_estimand_digest = ci_estimand_digest i, cp_intervention_digest = ci_intervention_digest i,
               cp_control_digest = ci_control_digest i, cp_power_digest = ci_power_digest i,
               cp_multiplicity_digest = ci_multiplicity_digest i, cp_repeat_digest = ci_repeat_digest i,
               cp_attrition_digest = ci_attrition_digest i, cp_prediction_lock_digest = ci_prediction_lock_digest i,
               cp_custody_digest = ci_custody_digest i, cp_validator_config_digest = ci_validator_config_digest i,
               cp_raw_trace_retention_until = ci_raw_trace_retention_until i, cp_raw_traces_retained = False,
               cp_state = CS_Draft, cp_qualification_digest = None, cp_assessment_digest = None, cp_acceptance_digest = None,
               cp_close_reason_digest = None, cp_protocol_digest = ''''\<rparr>
      in try_r (causal_validate_body p) (\<lambda>_.
         let p' = p\<lparr>cp_protocol_digest := causal_expected_digest env p\<rparr>
         in try_r (causal_validate env p') (\<lambda>_. Inr p')))"

definition causal_refresh :: "crypto \<Rightarrow> causal_protocol \<Rightarrow> unit result \<times> causal_protocol" where
  "causal_refresh env p =
     (let p' = p\<lparr>cp_protocol_digest := causal_expected_digest env p\<rparr> in (causal_validate env p', p'))"

definition causal_qualify :: "crypto \<Rightarrow> causal_protocol \<Rightarrow> string \<Rightarrow> unit result \<times> causal_protocol" where
  "causal_qualify env p d =
     (if cp_state p \<noteq> CS_Draft \<or> \<not> valid_digest d then (Inl (Err_Rejected ''causal qualification is unavailable''), p)
      else causal_refresh env (p\<lparr>cp_qualification_digest := Some d, cp_state := CS_Qualified\<rparr>))"

definition lock_assessment :: "crypto \<Rightarrow> causal_protocol \<Rightarrow> string \<Rightarrow> string \<Rightarrow> unit result \<times> causal_protocol" where
  "lock_assessment env p d lock =
     (if cp_state p \<noteq> CS_Qualified \<or> \<not> valid_digest d \<or> lock \<noteq> cp_prediction_lock_digest p
      then (Inl (Err_Rejected ''causal assessment lock is unavailable or drifted''), p)
      else causal_refresh env (p\<lparr>cp_assessment_digest := Some d, cp_state := CS_AssessmentLocked\<rparr>))"

definition causal_accept :: "crypto \<Rightarrow> causal_protocol \<Rightarrow> string \<Rightarrow> string \<Rightarrow> unit result \<times> causal_protocol" where
  "causal_accept env p validator d =
     (if cp_state p \<noteq> CS_AssessmentLocked \<or> validator \<noteq> cp_validator_id p \<or> \<not> valid_digest d
      then (Inl (Err_Rejected ''causal independent acceptance is unavailable''), p)
      else causal_refresh env (p\<lparr>cp_acceptance_digest := Some d, cp_state := CS_Accepted\<rparr>))"

definition causal_close :: "crypto \<Rightarrow> causal_protocol \<Rightarrow> string \<Rightarrow> unit result \<times> causal_protocol" where
  "causal_close env p d =
     (if cp_state p = CS_Closed \<or> \<not> valid_digest d then (Inl (Err_Rejected ''causal protocol is already closed''), p)
      else causal_refresh env (p\<lparr>cp_close_reason_digest := Some d, cp_state := CS_Closed\<rparr>))"

definition causal_assessment_eligible :: "causal_protocol \<Rightarrow> bool" where
  "causal_assessment_eligible p \<longleftrightarrow> cp_state p = CS_Accepted"

section \<open>What the protocol guarantees\<close>

lemma causal_names_inject:
  "causal_state_name s = causal_state_name t \<longleftrightarrow> s = t" "causal_track_name a = causal_track_name b \<longleftrightarrow> a = b"
  by (cases s; cases t; simp) (cases a; cases b; simp)

interpretation causal_seal: sealed cp_protocol_digest "\<lambda>d p. p\<lparr>cp_protocol_digest := d\<rparr>" causal_expected_digest
    causal_validate_body "\<lambda>p. JObj (causal_identity p)" causal_validate
proof
  fix d :: string and p p' :: causal_protocol and env
  show "causal_validate_body (p\<lparr>cp_protocol_digest := d\<rparr>) = causal_validate_body p"
    by (cases p) (simp only: causal_validate_body_def causal_state_check_def causal_digests_def causal_state_digests_def
        causal_protocol.update_convs causal_protocol.select_convs)
  show "JObj (causal_identity (p\<lparr>cp_protocol_digest := d\<rparr>)) = JObj (causal_identity p)" by (simp add: causal_identity_def)
  show "p\<lparr>cp_protocol_digest := d\<rparr> = p'\<lparr>cp_protocol_digest := d\<rparr>" if "JObj (causal_identity p) = JObj (causal_identity p')"
    using that by (cases p, cases p') (simp add: causal_identity_def json_opt_JStr causal_names_inject)
  show "causal_validate env p = Inr () \<longleftrightarrow> causal_validate_body p = Inr () \<and> valid_digest (cp_protocol_digest p) \<and>
      cp_protocol_digest p = causal_expected_digest env p"
    by (auto simp: causal_validate_def try_r_eq_Inr)
qed (simp_all add: causal_expected_digest_def)

lemma causal_refresh_eq: "causal_refresh env p = (causal_validate env (causal_seal.reseal env p), causal_seal.reseal env p)"
  by (simp add: causal_refresh_def causal_seal.reseal_def Let_def)

datatype causal_op = CO_Qualify string | CO_Lock string string | CO_Accept string string | CO_Close string

fun causal_do :: "crypto \<Rightarrow> causal_protocol \<Rightarrow> causal_op \<Rightarrow> unit result \<times> causal_protocol" where
  "causal_do env p (CO_Qualify d) = causal_qualify env p d"
| "causal_do env p (CO_Lock d l) = lock_assessment env p d l"
| "causal_do env p (CO_Accept v d) = causal_accept env p v d"
| "causal_do env p (CO_Close d) = causal_close env p d"

definition same_protocol :: "causal_protocol \<Rightarrow> causal_protocol \<Rightarrow> bool" where
  "same_protocol p q \<longleftrightarrow> causal_digests q = causal_digests p \<and> cp_protocol_id q = cp_protocol_id p \<and> cp_researcher_id q = cp_researcher_id p \<and>
     cp_validator_id q = cp_validator_id p \<and> cp_track q = cp_track p \<and>
     cp_raw_trace_retention_until q = cp_raw_trace_retention_until p"

lemmas causal_op_defs = causal_qualify_def lock_assessment_def causal_accept_def causal_close_def causal_refresh_eq causal_seal.reseal_def

lemma causal_do_ok:
  assumes "causal_do env p a = (Inr (), q)"
  shows "causal_validate env q = Inr () \<and> same_protocol p q"
  using assms by (cases a) (auto simp: causal_op_defs same_protocol_def causal_digests_def split: if_splits)

lemma causal_do_target:
  assumes "causal_do env p a = (Inr (), q)"
  shows "case a of CO_Qualify d \<Rightarrow> cp_state p = CS_Draft \<and> cp_state q = CS_Qualified \<and> cp_qualification_digest q = Some d
    | CO_Lock d l \<Rightarrow> cp_state p = CS_Qualified \<and> cp_state q = CS_AssessmentLocked \<and> l = cp_prediction_lock_digest p \<and>
        cp_qualification_digest q = cp_qualification_digest p \<and> cp_assessment_digest q = Some d
    | CO_Accept v d \<Rightarrow> cp_state p = CS_AssessmentLocked \<and> cp_state q = CS_Accepted \<and> v = cp_validator_id p \<and>
        cp_qualification_digest q = cp_qualification_digest p \<and> cp_assessment_digest q = cp_assessment_digest p \<and> cp_acceptance_digest q = Some d
    | CO_Close d \<Rightarrow> cp_state p \<noteq> CS_Closed \<and> cp_state q = CS_Closed"
  using assms by (cases a) (auto simp: causal_op_defs split: if_splits)

lemma acceptance_path:
  assumes "try_ops (causal_do env) p ops = Inr q" and "cp_state q = CS_Accepted"
  shows "case cp_state p of CS_Accepted \<Rightarrow> ops = []
    | CS_AssessmentLocked \<Rightarrow> (\<exists>v d. ops = [CO_Accept v d])
    | CS_Qualified \<Rightarrow> (\<exists>a l v d. ops = [CO_Lock a l, CO_Accept v d])
    | CS_Draft \<Rightarrow> (\<exists>x a l v d. ops = [CO_Qualify x, CO_Lock a l, CO_Accept v d])
    | CS_Closed \<Rightarrow> False"
  using assms
proof (induction ops arbitrary: p)
  case (Cons a ops)
  from Cons.prems(1) obtain p1 where d: "causal_do env p a = (Inr (), p1)" and rest: "try_ops (causal_do env) p1 ops = Inr q"
    by (rule try_ops_ConsE)
  from Cons.IH [OF rest Cons.prems(2)] causal_do_target [OF d] show ?case by (cases a) auto
qed simp

lemma causal_body_update:
  assumes "causal_validate_body p = Inr ()" and "same_protocol p q" and "cp_schema_version q = cp_schema_version p"
    "cp_state_slice q = cp_state_slice p" "cp_claim_ceiling q = cp_claim_ceiling p" "cp_raw_traces_retained q = cp_raw_traces_retained p"
    and "\<forall>d\<in>set (causal_state_digests q). optional_ok valid_digest d"
  shows "causal_validate_body q = causal_state_check q"
  using assms unfolding causal_validate_body_def same_protocol_def by (simp add: list_ex_iff split: if_split_asm)

text \<open>A failing operation on a valid protocol has changed nothing.\<close>

lemma causal_refresh_ok:
  assumes "sha256_len env" and "causal_validate_body p = Inr ()"
  shows "fst (causal_refresh env p) = Inr ()"
  using causal_seal.reseal_valid [OF assms(1), of p] assms(2) by (simp add: causal_refresh_eq)

lemma causal_error_keeps:
  assumes sha: "sha256_len env" and v: "causal_validate env p = Inr ()" and err: "causal_do env p a = (Inl e, q)"
  shows "q = p"
proof -
  have body: "causal_validate_body p = Inr ()" using v causal_seal.validate_iff by blast
  then have st: "causal_state_check p = Inr ()" "\<forall>d\<in>set (causal_state_digests p). optional_ok valid_digest d"
    unfolding causal_validate_body_def by (auto simp: list_ex_iff split: if_split_asm)
  have ok: "causal_refresh env p' \<noteq> (Inl e, q)"
    if "same_protocol p p'" "cp_schema_version p' = cp_schema_version p" "cp_state_slice p' = cp_state_slice p"
      "cp_claim_ceiling p' = cp_claim_ceiling p" "cp_raw_traces_retained p' = cp_raw_traces_retained p"
      "\<forall>d\<in>set (causal_state_digests p'). optional_ok valid_digest d" "causal_state_check p' = Inr ()" for p'
    using causal_refresh_ok [OF sha, of p'] causal_body_update [OF body that(1-6)] that(7) by auto
  show ?thesis
    using err st ok
    by (cases a)
      (auto simp: causal_qualify_def lock_assessment_def causal_accept_def causal_close_def same_protocol_def causal_digests_def
        causal_state_digests_def causal_state_check_def split: if_split_asm)
qed

text \<open>
  Acceptance is earned in order: a protocol that started as a draft and is eligible for assessment after operations that all succeeded was qualified, then locked with
  exactly the prediction lock it was created with, then accepted by its validator, who is not the researcher, and nothing else happened; its frozen
  identities never changed.  A failing operation leaves a valid protocol as it was, and a closed protocol stays closed.
\<close>

theorem causal_acceptance_is_earned:
  assumes "sha256_len env" and "causal_validate env p0 = Inr ()" and "cp_state p0 = CS_Draft" and "try_ops (causal_do env) p0 ops = Inr p"
  shows "causal_validate env p = Inr () \<and> same_protocol p0 p \<and>
    (causal_assessment_eligible p \<longrightarrow> cp_validator_id p0 \<noteq> cp_researcher_id p0 \<and>
       (\<exists>x a d. ops = [CO_Qualify x, CO_Lock a (cp_prediction_lock_digest p0), CO_Accept (cp_validator_id p0) d] \<and>
          cp_qualification_digest p = Some x \<and> cp_assessment_digest p = Some a \<and> cp_acceptance_digest p = Some d)) \<and>
    (\<forall>a. is_ok (fst (causal_do env p a)) \<or> snd (causal_do env p a) = p) \<and>
    (cp_state p = CS_Closed \<longrightarrow> (\<forall>a. \<not> is_ok (fst (causal_do env p a))))"
proof -
  have keep: "same_protocol p0 p \<and> (causal_validate env p0 = Inr () \<longrightarrow> causal_validate env p = Inr ())"
    by (rule try_ops_keep [OF assms(4), where R = "\<lambda>p q. same_protocol p q \<and> (causal_validate env p = Inr () \<longrightarrow> causal_validate env q = Inr ())"])
      (auto dest: causal_do_ok simp: same_protocol_def)
  have v: "causal_validate env p = Inr ()" using keep assms(2) by simp
  have errs: "is_ok (fst (causal_do env p a)) \<or> snd (causal_do env p a) = p" for a
    using causal_error_keeps [OF assms(1) v] by (cases "causal_do env p a") (auto simp: is_ok_def split: sum.splits)
  have closed: "\<not> is_ok (fst (causal_do env p a))" if "cp_state p = CS_Closed" for a
    using that by (cases a) (simp_all add: causal_qualify_def lock_assessment_def causal_accept_def causal_close_def)
  have "cp_validator_id p0 \<noteq> cp_researcher_id p0 \<and>
       (\<exists>x a d. ops = [CO_Qualify x, CO_Lock a (cp_prediction_lock_digest p0), CO_Accept (cp_validator_id p0) d] \<and>
          cp_qualification_digest p = Some x \<and> cp_assessment_digest p = Some a \<and> cp_acceptance_digest p = Some d)"
    if "causal_assessment_eligible p"
  proof -
    have "cp_state p = CS_Accepted" using that by (simp add: causal_assessment_eligible_def)
    from acceptance_path [OF assms(4) this] assms(3) obtain x a l w d where ops: "ops = [CO_Qualify x, CO_Lock a l, CO_Accept w d]" by auto
    obtain p1 p2 where s: "causal_do env p0 (CO_Qualify x) = (Inr (), p1)" "causal_do env p1 (CO_Lock a l) = (Inr (), p2)"
      "causal_do env p2 (CO_Accept w d) = (Inr (), p)"
      using assms(4) unfolding ops by (auto elim!: try_ops_ConsE simp del: causal_do.simps try_ops.simps(2))
    have "causal_validate_body p0 = Inr ()" using assms(2) causal_seal.validate_iff by blast
    then have "cp_validator_id p0 \<noteq> cp_researcher_id p0" unfolding causal_validate_body_def by (auto split: if_split_asm)
    moreover have "same_protocol p0 p1" "same_protocol p1 p2" using causal_do_ok s by blast+
    ultimately show ?thesis
      using causal_do_target [OF s(1)] causal_do_target [OF s(2)] causal_do_target [OF s(3)] ops
      by (auto simp: same_protocol_def causal_digests_def)
  qed
  then show ?thesis using keep v errs closed by blast
qed

definition demo_causal :: causal_protocol where
  "demo_causal = (let z = digits CHR ''0'' in \<lparr>cp_schema_version = CAUSAL_SCHEMA_VERSION, cp_state_slice = STATE_SLICE,
     cp_claim_ceiling = CAUSAL_CLAIM_CEILING, cp_protocol_id = ''p'', cp_researcher_id = ''r'', cp_validator_id = ''v'',
     cp_track = CT_Behavioral, cp_model_digest = z, cp_runtime_digest = z, cp_asset_manifest_digest = z, cp_corpus_digest = z,
     cp_split_digest = z, cp_held_out_split_digest = z, cp_wrapper_digest = z, cp_feature_digest = z, cp_estimand_digest = z,
     cp_intervention_digest = z, cp_control_digest = z, cp_power_digest = z, cp_multiplicity_digest = z, cp_repeat_digest = z,
     cp_attrition_digest = z, cp_prediction_lock_digest = digits CHR ''1'', cp_custody_digest = z, cp_validator_config_digest = z,
     cp_raw_trace_retention_until = 9, cp_raw_traces_retained = False, cp_state = CS_Draft, cp_qualification_digest = None,
     cp_assessment_digest = None, cp_acceptance_digest = None, cp_close_reason_digest = None, cp_protocol_digest = z\<rparr>)"

definition demo_causal_ops :: "causal_op list" where
  "demo_causal_ops = [CO_Qualify (digits CHR ''2''), CO_Lock (digits CHR ''3'') (digits CHR ''1''), CO_Accept ''v'' (digits CHR ''4'')]"

definition demo_causal_accepted :: causal_protocol where
  "demo_causal_accepted = demo_causal\<lparr>cp_state := CS_Accepted, cp_qualification_digest := Some (digits CHR ''2''),
     cp_assessment_digest := Some (digits CHR ''3''), cp_acceptance_digest := Some (digits CHR ''4'')\<rparr>"

lemmas demo_causal_simps = causal_validate_def causal_validate_body_def causal_state_check_def causal_digests_def causal_state_digests_def
  causal_expected_digest_def demo_causal_def Let_def causal_text_def text_within_def ascii_control_def hex_simps zero_digits

lemma demo_causal_valid: "causal_validate demo_env demo_causal = Inr ()"
  by (simp add: demo_causal_simps)

lemma demo_causal_run: "try_ops (causal_do demo_env) demo_causal demo_causal_ops = Inr demo_causal_accepted"
  by (simp add: demo_causal_ops_def demo_causal_accepted_def causal_qualify_def lock_assessment_def causal_accept_def causal_refresh_def
      demo_causal_simps)

theorem causal_acceptance_is_earned_witness:
  "\<exists>x a d. demo_causal_ops = [CO_Qualify x, CO_Lock a (digits CHR ''1''), CO_Accept ''v'' d] \<and> causal_validate demo_env demo_causal_accepted = Inr ()"
proof -
  have f: "cp_state demo_causal = CS_Draft" "cp_prediction_lock_digest demo_causal = digits CHR ''1''" "cp_validator_id demo_causal = ''v''"
    "causal_assessment_eligible demo_causal_accepted"
    by (simp_all add: demo_causal_def demo_causal_accepted_def Let_def causal_assessment_eligible_def)
  show ?thesis
    using causal_acceptance_is_earned [OF demo_sha256_len demo_causal_valid f(1) demo_causal_run] f(2-4) by auto
qed

section \<open>The prediction lock\<close>

record prediction_lock =
  pk_protocol_digest :: string
  pk_prediction_digest :: string
  pk_configuration_digest :: string
  pk_fit_complete :: bool
  pk_independent_accept :: bool
  pk_lock_digest :: string

definition json_prediction_lock :: "prediction_lock \<Rightarrow> json" where
  "json_prediction_lock k = JObj
    [(''protocol_digest'', JStr (pk_protocol_digest k)), (''prediction_digest'', JStr (pk_prediction_digest k)),
     (''configuration_digest'', JStr (pk_configuration_digest k)), (''fit_complete'', JBool (pk_fit_complete k)),
     (''independent_accept'', JBool (pk_independent_accept k)), (''lock_digest'', JStr (pk_lock_digest k))]"

definition bool_display :: "bool \<Rightarrow> string" where
  "bool_display b = (if b then ''true'' else ''false'')"

definition lock_material :: "prediction_lock \<Rightarrow> string" where
  "lock_material k = pk_protocol_digest k @ [CHR 0x00] @ pk_prediction_digest k @ [CHR 0x00] @ pk_configuration_digest k @ [CHR 0x00] @
     bool_display (pk_fit_complete k) @ [CHR 0x00] @ bool_display (pk_independent_accept k)"

definition lock_expected_digest :: "crypto \<Rightarrow> prediction_lock \<Rightarrow> string" where
  "lock_expected_digest env k = digest_bytes env (str_bytes (lock_material k))"

definition lock_refresh :: "crypto \<Rightarrow> prediction_lock \<Rightarrow> prediction_lock" where
  "lock_refresh env k = k\<lparr>pk_lock_digest := lock_expected_digest env k\<rparr>"

definition prediction_lock_new :: "crypto \<Rightarrow> string \<Rightarrow> string \<Rightarrow> string \<Rightarrow> prediction_lock result" where
  "prediction_lock_new env protocol predictions configuration =
     (if protocol = [] \<or> predictions = [] \<or> configuration = [] then Inl (Err_Invalid ''lock inputs must be non-empty'')
      else Inr (lock_refresh env
        \<lparr>pk_protocol_digest = digest env (JStr protocol), pk_prediction_digest = digest env (JStr predictions),
         pk_configuration_digest = digest env (JStr configuration), pk_fit_complete = False, pk_independent_accept = False,
         pk_lock_digest = ''''\<rparr>))"

definition lock_fit :: "crypto \<Rightarrow> prediction_lock \<Rightarrow> prediction_lock" where
  "lock_fit env k = lock_refresh env (k\<lparr>pk_fit_complete := True\<rparr>)"

definition lock_accept :: "crypto \<Rightarrow> prediction_lock \<Rightarrow> prediction_lock" where
  "lock_accept env k = lock_refresh env (k\<lparr>pk_independent_accept := True\<rparr>)"

definition lock_assessment_eligible :: "prediction_lock \<Rightarrow> bool" where
  "lock_assessment_eligible k \<longleftrightarrow> pk_fit_complete k \<and> pk_independent_accept k"

definition lock_validate :: "crypto \<Rightarrow> prediction_lock \<Rightarrow> unit result" where
  "lock_validate env k =
     (if \<not> valid_digest (pk_protocol_digest k) \<or> \<not> valid_digest (pk_prediction_digest k) \<or> \<not> valid_digest (pk_configuration_digest k) \<or>
         \<not> valid_digest (pk_lock_digest k) \<or> pk_lock_digest k \<noteq> lock_expected_digest env k
      then Inl (Err_Invalid ''prediction lock digest is inconsistent'')
      else if \<not> lock_assessment_eligible k then Inl (Err_Quarantined ''prediction or independent acceptance lock is missing'')
      else Inr ())"

datatype lock_op = LK_Fit | LK_Accept

fun lock_step :: "crypto \<Rightarrow> prediction_lock \<Rightarrow> lock_op \<Rightarrow> prediction_lock" where
  "lock_step env k LK_Fit = lock_fit env k"
| "lock_step env k LK_Accept = lock_accept env k"

text \<open>The material of the lock digest has one reading: the three digests have a fixed length.\<close>

lemma lock_material_inject:
  assumes "valid_digest (pk_protocol_digest k)" "valid_digest (pk_prediction_digest k)" "valid_digest (pk_configuration_digest k)"
    and "valid_digest (pk_protocol_digest k')" "valid_digest (pk_prediction_digest k')" "valid_digest (pk_configuration_digest k')"
    and "lock_material k = lock_material k'"
  shows "k\<lparr>pk_lock_digest := d\<rparr> = k'\<lparr>pk_lock_digest := d\<rparr>"
proof -
  have len: "length (pk_protocol_digest k) = length (pk_protocol_digest k')" "length (pk_prediction_digest k) = length (pk_prediction_digest k')"
    "length (pk_configuration_digest k) = length (pk_configuration_digest k')"
    using assms by (simp_all add: valid_digest_def)
  then show ?thesis
    using assms(7) by (cases k, cases k') (auto simp: lock_material_def bool_display_def split: if_splits)
qed

text \<open>
  A prediction lock opens exactly when both sides have signed: after \<open>new\<close> on non-empty inputs and any sequence of \<open>lock_fit\<close> and
  \<open>accept_independently\<close>, the lock validates exactly if both occurred and is quarantined otherwise, it still binds the inputs it
  was created with, and a second valid lock with the same digest is the same lock or shows a hash collision.
\<close>

theorem prediction_lock_exact:
  assumes "sha256_len env" and "prediction_lock_new env protocol predictions configuration = Inr k0" and "k = run_ops (lock_step env) k0 ops"
  shows "(lock_validate env k = Inr () \<longleftrightarrow> LK_Fit \<in> set ops \<and> LK_Accept \<in> set ops) \<and>
    (lock_validate env k \<noteq> Inr () \<longrightarrow> lock_validate env k = Inl (Err_Quarantined ''prediction or independent acceptance lock is missing'')) \<and>
    pk_protocol_digest k = digest env (JStr protocol) \<and> pk_prediction_digest k = digest env (JStr predictions) \<and>
    pk_configuration_digest k = digest env (JStr configuration) \<and>
    (\<forall>k'. lock_validate env k = Inr () \<and> lock_validate env k' = Inr () \<and> pk_lock_digest k' = pk_lock_digest k \<longrightarrow>
       k' = k \<or> lock_material k' \<noteq> lock_material k \<and>
         digest_bytes env (str_bytes (lock_material k')) = digest_bytes env (str_bytes (lock_material k)))"
proof -
  have inv: "pk_lock_digest k = lock_expected_digest env k \<and> pk_protocol_digest k = pk_protocol_digest k0 \<and>
      pk_prediction_digest k = pk_prediction_digest k0 \<and> pk_configuration_digest k = pk_configuration_digest k0 \<and>
      (pk_fit_complete k \<longleftrightarrow> pk_fit_complete k0 \<or> LK_Fit \<in> set ops) \<and> (pk_independent_accept k \<longleftrightarrow> pk_independent_accept k0 \<or> LK_Accept \<in> set ops)"
    if "k = run_ops (lock_step env) k0 ops" "pk_lock_digest k0 = lock_expected_digest env k0" for k k0
    using that
  proof (induction ops arbitrary: k0)
    case (Cons a ops)
    have "pk_lock_digest (lock_step env k0 a) = lock_expected_digest env (lock_step env k0 a)"
      by (cases a) (simp_all add: lock_fit_def lock_accept_def lock_refresh_def lock_expected_digest_def lock_material_def)
    from Cons.IH [OF _ this] Cons.prems(1) show ?case
      by (cases a) (auto simp: lock_fit_def lock_accept_def lock_refresh_def)
  qed simp
  have k0: "pk_lock_digest k0 = lock_expected_digest env k0" "pk_protocol_digest k0 = digest env (JStr protocol)"
    "pk_prediction_digest k0 = digest env (JStr predictions)" "pk_configuration_digest k0 = digest env (JStr configuration)"
    "\<not> pk_fit_complete k0" "\<not> pk_independent_accept k0"
    using assms(2) by (auto simp: prediction_lock_new_def lock_refresh_def lock_expected_digest_def lock_material_def split: if_splits)
  note i = inv [OF assms(3) k0(1)]
  have v: "valid_digest (pk_protocol_digest k)" "valid_digest (pk_prediction_digest k)" "valid_digest (pk_configuration_digest k)"
    "valid_digest (pk_lock_digest k)"
    using i k0 assms(1) by (simp_all add: lock_expected_digest_def)
  have bind: "k' = k" if "lock_validate env k' = Inr ()" "pk_lock_digest k' = pk_lock_digest k" "lock_material k' = lock_material k" for k'
  proof -
    have "k'\<lparr>pk_lock_digest := pk_lock_digest k\<rparr> = k\<lparr>pk_lock_digest := pk_lock_digest k\<rparr>"
      using that(1,3) v by (intro lock_material_inject) (auto simp: lock_validate_def split: if_splits)
    then show ?thesis using that(2) by (cases k, cases k') simp
  qed
  have "pk_lock_digest k' = digest_bytes env (str_bytes (lock_material k'))" if "lock_validate env k' = Inr ()" for k'
    using that by (auto simp: lock_validate_def lock_expected_digest_def split: if_splits)
  then show ?thesis
    using i k0 v bind by (auto simp: lock_validate_def lock_assessment_eligible_def)
qed

theorem prediction_lock_exact_witness:
  "\<exists>k0. prediction_lock_new demo_env ''p'' ''q'' ''c'' = Inr k0 \<and> lock_validate demo_env (run_ops (lock_step demo_env) k0 [LK_Accept, LK_Fit]) = Inr ()"
proof -
  obtain k0 where k0: "prediction_lock_new demo_env ''p'' ''q'' ''c'' = Inr k0" by (simp add: prediction_lock_new_def)
  from prediction_lock_exact [OF demo_sha256_len k0 refl, of "[LK_Accept, LK_Fit]"] k0 show ?thesis by auto
qed

end
