(* ===== verification/Local_Snapshots.thy ===== *)
theory Local_Snapshots
  imports Plain_Files Snapshots Specialist Adaptation Causal Consent_Properties
begin

text \<open>
  The remaining files of single records: \<open>save\<close>, \<open>load\<close> and \<open>recover\<close> of the specialist registry, the tool registry and the prediction lock, which are locked
  snapshot files, and of the adaptation record and the causal protocol, which are plain files.  Each is an instance of \<open>snapshot_format\<close>.
\<close>

section \<open>Specialist and tool registries\<close>

definition json_specialist_registry :: "specialist_registry \<Rightarrow> json" where
  "json_specialist_registry r = JObj [(''identities'', json_map json_identity (sr_identities r)), (''revoked'', json_list JStr (sr_revoked r))]"

definition specialist_save :: "crypto \<Rightarrow> io \<Rightarrow> specialist_registry \<Rightarrow> path \<Rightarrow> fs \<Rightarrow> unit result \<times> fs" where
  "specialist_save env = save_valid env specialist_validate json_specialist_registry ''specialist registry''"

definition specialist_load :: "crypto \<Rightarrow> (u8 list \<Rightarrow> specialist_registry result) \<Rightarrow> io \<Rightarrow> fs \<Rightarrow> path \<Rightarrow> specialist_registry result" where
  "specialist_load env de = load_canonical env de json_specialist_registry ''specialist registry bytes are not canonical JSON''
     (checked specialist_validate)"

definition specialist_recover ::
  "crypto \<Rightarrow> (u8 list \<Rightarrow> specialist_registry result) \<Rightarrow> io \<Rightarrow> path \<Rightarrow> fs \<Rightarrow> specialist_registry result \<times> fs" where
  "specialist_recover env de io p = recover_atomic_snapshot io p ''specialist registry'' (specialist_load env de io)"

interpretation specialist_file: snapshot_format "\<lambda>r. r" json_specialist_registry specialist_validate "checked specialist_validate" "\<lambda>_. True"
  by unfold_locales (auto simp: checked_Inr)

definition json_tool_manifest :: "tool_manifest \<Rightarrow> json" where
  "json_tool_manifest t = JObj [(''tool_id'', JStr (tm_tool_id t)), (''version'', JStr (tm_version t)), (''schema'', tm_schema t),
     (''implementation_digest'', JStr (tm_implementation_digest t))]"

definition json_tool_registry :: "tool_registry \<Rightarrow> json" where
  "json_tool_registry r = JObj [(''manifests'', json_map json_tool_manifest (tr_manifests r)),
     (''frozen_digest'', json_opt JStr (tr_frozen_digest r)), (''revoked'', json_list JStr (tr_revoked r))]"

definition tool_save :: "crypto \<Rightarrow> io \<Rightarrow> tool_registry \<Rightarrow> path \<Rightarrow> fs \<Rightarrow> unit result \<times> fs" where
  "tool_save env = save_valid env tool_validate json_tool_registry ''tool registry''"

definition tool_load :: "crypto \<Rightarrow> (u8 list \<Rightarrow> tool_registry result) \<Rightarrow> io \<Rightarrow> fs \<Rightarrow> path \<Rightarrow> tool_registry result" where
  "tool_load env de = load_canonical env de json_tool_registry ''tool registry bytes are not canonical JSON'' (checked tool_validate)"

definition tool_recover :: "crypto \<Rightarrow> (u8 list \<Rightarrow> tool_registry result) \<Rightarrow> io \<Rightarrow> path \<Rightarrow> fs \<Rightarrow> tool_registry result \<times> fs" where
  "tool_recover env de io p = recover_atomic_snapshot io p ''tool registry'' (tool_load env de io)"

interpretation tool_file: snapshot_format "\<lambda>r. r" json_tool_registry tool_validate "checked tool_validate" "\<lambda>_. True"
  by unfold_locales (auto simp: checked_Inr)

section \<open>Prediction lock\<close>

definition lock_save :: "crypto \<Rightarrow> io \<Rightarrow> prediction_lock \<Rightarrow> path \<Rightarrow> fs \<Rightarrow> unit result \<times> fs" where
  "lock_save env = save_valid env (lock_validate env) json_prediction_lock ''prediction lock''"

definition lock_load :: "crypto \<Rightarrow> (u8 list \<Rightarrow> prediction_lock result) \<Rightarrow> io \<Rightarrow> fs \<Rightarrow> path \<Rightarrow> prediction_lock result" where
  "lock_load env de = load_canonical env de json_prediction_lock ''prediction lock bytes are not canonical JSON''
     (checked (lock_validate env))"

definition lock_recover :: "crypto \<Rightarrow> (u8 list \<Rightarrow> prediction_lock result) \<Rightarrow> io \<Rightarrow> path \<Rightarrow> fs \<Rightarrow> prediction_lock result \<times> fs" where
  "lock_recover env de io p = recover_atomic_snapshot io p ''prediction lock'' (lock_load env de io)"

interpretation lock_file: snapshot_format "\<lambda>k. k" json_prediction_lock "lock_validate env" "checked (lock_validate env)" "\<lambda>_. True" for env
  by unfold_locales (auto simp: checked_Inr)

section \<open>Adaptation record and causal protocol\<close>

definition adaptation_save :: "crypto \<Rightarrow> io \<Rightarrow> adaptation_record \<Rightarrow> path \<Rightarrow> fs \<Rightarrow> unit result \<times> fs" where
  "adaptation_save env = plain_save env (adaptation_validate env) json_adaptation_record"

definition adaptation_load :: "crypto \<Rightarrow> (u8 list \<Rightarrow> adaptation_record result) \<Rightarrow> io \<Rightarrow> fs \<Rightarrow> path \<Rightarrow> adaptation_record result" where
  "adaptation_load env de = plain_load env de json_adaptation_record ''adaptation record is not canonical JSON''
     (checked (adaptation_validate env))"

definition adaptation_recover ::
  "crypto \<Rightarrow> (u8 list \<Rightarrow> adaptation_record result) \<Rightarrow> io \<Rightarrow> path \<Rightarrow> fs \<Rightarrow> adaptation_record result \<times> fs" where
  "adaptation_recover env de = plain_recover (adaptation_load env de)"

interpretation adaptation_file: snapshot_format "\<lambda>r. r" json_adaptation_record "adaptation_validate env"
    "checked (adaptation_validate env)" "\<lambda>_. True" for env
  by unfold_locales (auto simp: checked_Inr)

definition causal_save :: "crypto \<Rightarrow> io \<Rightarrow> causal_protocol \<Rightarrow> path \<Rightarrow> fs \<Rightarrow> unit result \<times> fs" where
  "causal_save env = plain_save env (causal_validate env) json_causal_protocol"

definition causal_load :: "crypto \<Rightarrow> (u8 list \<Rightarrow> causal_protocol result) \<Rightarrow> io \<Rightarrow> fs \<Rightarrow> path \<Rightarrow> causal_protocol result" where
  "causal_load env de = plain_load env de json_causal_protocol ''causal protocol is not canonical JSON'' (checked (causal_validate env))"

definition causal_recover :: "crypto \<Rightarrow> (u8 list \<Rightarrow> causal_protocol result) \<Rightarrow> io \<Rightarrow> path \<Rightarrow> fs \<Rightarrow> causal_protocol result \<times> fs" where
  "causal_recover env de = plain_recover (causal_load env de)"

interpretation causal_file: snapshot_format "\<lambda>p. p" json_causal_protocol "causal_validate env" "checked (causal_validate env)" "\<lambda>_. True" for env
  by unfold_locales (auto simp: checked_Inr)

section \<open>Restarts\<close>

text \<open>
  Registries survive a restart.  What \<open>save\<close> stored without an error \<open>load\<close> returns unchanged: a frozen tool list still pins its digest, a revoked
  specialist or tool is still revoked, and a locked prediction is the same lock.  Whatever \<open>load\<close> returns from any file
  has passed the validation of its type.  (serde is assumed to parse what it printed for the saved values.)
\<close>

theorem registries_survive_restart:
  assumes "snapshot_path p" and "no_faults io'"
    and "de (canonical_bytes env (json_tool_registry t)) = Inr t" and "de' (canonical_bytes env (json_specialist_registry s)) = Inr s"
    and "de'' (canonical_bytes env (json_prediction_lock k)) = Inr k"
  shows "(\<forall>fs fs' io. tool_save env io t p fs = (Inr (), fs') \<longrightarrow> tool_load env de io' fs' p = Inr t) \<and>
    (\<forall>fs fs' io. specialist_save env io s p fs = (Inr (), fs') \<longrightarrow> specialist_load env de' io' fs' p = Inr s) \<and>
    (\<forall>fs fs' io. lock_save env io k p fs = (Inr (), fs') \<longrightarrow> lock_load env de'' io' fs' p = Inr k) \<and>
    (\<forall>fs x. tool_load env de io' fs p = Inr x \<longrightarrow> tool_validate x = Inr ()) \<and>
    (\<forall>fs x. specialist_load env de' io' fs p = Inr x \<longrightarrow> specialist_validate x = Inr ()) \<and>
    (\<forall>fs x. lock_load env de'' io' fs p = Inr x \<longrightarrow> lock_validate env x = Inr ())"
proof (intro conjI allI impI)
  fix fs fs' io
  show "tool_load env de io' fs' p = Inr t" if "tool_save env io t p fs = (Inr (), fs')"
    unfolding tool_load_def by (rule tool_file.save_then_load [where de = de, OF TrueI assms(3,1) that [unfolded tool_save_def] assms(2)])
  show "specialist_load env de' io' fs' p = Inr s" if "specialist_save env io s p fs = (Inr (), fs')"
    unfolding specialist_load_def
    by (rule specialist_file.save_then_load [where de = de', OF TrueI assms(4,1) that [unfolded specialist_save_def] assms(2)])
  show "lock_load env de'' io' fs' p = Inr k" if "lock_save env io k p fs = (Inr (), fs')"
    unfolding lock_load_def by (rule lock_file.save_then_load [where de = de'', OF TrueI assms(5,1) that [unfolded lock_save_def] assms(2)])
next
  fix fs
  show "tool_validate x = Inr ()" if "tool_load env de io' fs p = Inr x" for x
    using tool_file.loaded_is_valid [OF that [unfolded tool_load_def]] ..
  show "specialist_validate x = Inr ()" if "specialist_load env de' io' fs p = Inr x" for x
    using specialist_file.loaded_is_valid [OF that [unfolded specialist_load_def]] ..
  show "lock_validate env x = Inr ()" if "lock_load env de'' io' fs p = Inr x" for x
    using lock_file.loaded_is_valid [OF that [unfolded lock_load_def]] ..
qed

text \<open>
  A crash never moves an adaptation record.  When a save of a new record stops at any fault, over an older file or none, \<open>recover\<close> answers the new record, or
  what \<open>load\<close> answered before, or an error when nothing could be loaded before either; the primary file is the old one or the new one, never torn,
  and what was loadable stays loadable.  (serde is assumed to parse what it printed for the record and to reject its
  proper prefixes; the temporary path is free.)
\<close>

theorem adaptation_recovers_from_crash:
  assumes "snapshot_path p" and "bytes = canonical_bytes env (json_adaptation_record x)"
    and "de bytes = Inr x" and "\<forall>n<length bytes. \<not> is_ok (de (take n bytes))"
    and "fs p = None \<or> fs p = Some (N_File old)" and "fs (with_extension p ''tmp'') = None"
    and "adaptation_save env io x p fs = (res, fs')" and "no_faults io'" and "adaptation_recover env de io' p fs' = (r, fs2)"
  shows "(fs2 p = fs p \<or> fs2 p = Some (N_File bytes)) \<and>
    (r = Inr x \<or> r = adaptation_load env de io' fs p \<or> \<not> is_ok r \<and> \<not> is_ok (adaptation_load env de io' fs p))"
  using adaptation_file.plain_recover_after_crash [OF assms(1) TrueI, where de = de and x = x and env = env and fs = fs and old = old] assms
  unfolding adaptation_save_def adaptation_load_def adaptation_recover_def by blast

section \<open>Concrete inputs\<close>

text \<open>A decoder for two values: exactly their printed bytes are accepted.\<close>

definition two_values :: "crypto \<Rightarrow> ('a \<Rightarrow> json) \<Rightarrow> 'a \<Rightarrow> 'a \<Rightarrow> u8 list \<Rightarrow> 'a result" where
  "two_values env enc x y bs =
     (if bs = canonical_bytes env (enc x) then Inr x else if bs = canonical_bytes env (enc y) then Inr y
      else Inl (Err_Serialization ''expected value''))"

lemma two_values_prefix:
  assumes "n < length (canonical_bytes unary_env (enc x))"
  shows "\<not> is_ok (two_values unary_env enc x y (take n (canonical_bytes unary_env (enc x))))"
proof -
  let ?b = "canonical_bytes unary_env (enc x)"
  have "take n ?b \<noteq> ?b" using assms by (metis length_take min.absorb4 order_less_irrefl)
  moreover have "take n ?b \<noteq> canonical_bytes unary_env (enc y)"
  proof
    assume t: "take n ?b = canonical_bytes unary_env (enc y)"
    then have "prefix (canonical_bytes unary_env (enc y)) ?b" by (metis take_is_prefix)
    then have "enc y = enc x" using unary_prefix by (simp add: canonical_bytes_def unary_env_def) (metis to_nat_split)
    then show False using t assms by (metis calculation)
  qed
  ultimately show ?thesis by (simp add: two_values_def)
qed

lemma demo_unary_adaptation:
  "adaptation_validate unary_env demo_approved = Inr ()" "adaptation_validate unary_env demo_released = Inr ()"
  unfolding adaptation_seal.validate_iff by (simp_all add: demo_adaptation_simps)

lemma demo_files: "snapshot_path demo_path" "no_faults (demo_io (\<lambda>_. None))" "with_extension demo_path ''tmp'' \<noteq> demo_path"
  by (simp_all add: snapshot_path_def demo_path_def no_faults_def demo_io_def with_extension_def)

theorem adaptation_recovers_from_crash_witness:
  "\<exists>res fs' r fs2.
    adaptation_save unary_env (demo_io (\<lambda>pt. if pt = IO_Rename then Some ''no space'' else None)) demo_released demo_path
      [demo_path \<mapsto> N_File (canonical_bytes unary_env (json_adaptation_record demo_approved))] = (res, fs') \<and>
    adaptation_recover unary_env (two_values unary_env json_adaptation_record demo_released demo_approved) (demo_io (\<lambda>_. None))
      demo_path fs' = (r, fs2) \<and> (r = Inr demo_released \<or> r = Inr demo_approved)"
proof -
  let ?io = "demo_io (\<lambda>pt. if pt = IO_Rename then Some ''no space'' else None)" and ?n = "demo_io (\<lambda>_. None)"
    and ?old = "canonical_bytes unary_env (json_adaptation_record demo_approved)"
    and ?de = "two_values unary_env json_adaptation_record demo_released demo_approved"
  let ?fs = "[demo_path \<mapsto> N_File ?old]"
  obtain res fs' where s: "adaptation_save unary_env ?io demo_released demo_path ?fs = (res, fs')" by fastforce
  obtain r fs2 where c: "adaptation_recover unary_env ?de ?n demo_path fs' = (r, fs2)" by fastforce
  have j: "json_adaptation_record demo_released \<noteq> json_adaptation_record demo_approved"
    by (simp add: json_adaptation_record_def adaptation_identity_def demo_released_def demo_approved_def)
  have "?old \<noteq> canonical_bytes unary_env (json_adaptation_record demo_released)"
    using j by (auto simp: canonical_bytes_def unary_env_def dest: arg_cong [where f = length])
  then have l: "adaptation_load unary_env ?de ?n ?fs demo_path = Inr demo_approved"
    using demo_unary_adaptation demo_files
    by (simp add: adaptation_load_def plain_load_def two_values_def io_check_simps checked_def)
  have d: "?de (canonical_bytes unary_env (json_adaptation_record demo_released)) = Inr demo_released" by (simp add: two_values_def)
  have "r = Inr demo_released \<or> r = adaptation_load unary_env ?de ?n ?fs demo_path \<or>
      \<not> is_ok r \<and> \<not> is_ok (adaptation_load unary_env ?de ?n ?fs demo_path)"
    using adaptation_recovers_from_crash [OF demo_files(1) refl d _ _ _ s demo_files(2) c] demo_files(3)
      two_values_prefix [of _ json_adaptation_record demo_released demo_approved] by auto
  then show ?thesis using s c l by auto
qed

theorem registries_survive_restart_witness:
  "\<exists>fs'. tool_save unary_env (demo_io (\<lambda>_. None)) tool_default demo_path (\<lambda>_. None) = (Inr (), fs') \<and>
     tool_load unary_env (\<lambda>_. Inr tool_default) (demo_io (\<lambda>_. None)) fs' demo_path = Inr tool_default"
proof -
  have v: "tool_validate tool_default = Inr ()" by (simp add: tool_validate_def tool_default_def)
  have "tool_save unary_env (demo_io (\<lambda>_. None)) tool_default demo_path (\<lambda>_. None) =
      (Inr (), [demo_path \<mapsto> N_File (canonical_bytes unary_env (json_tool_registry tool_default))])"
    using save_succeeds [OF demo_files(1,2)] v by (simp add: tool_save_def save_valid_def)
  then show ?thesis
    using registries_survive_restart [OF demo_files(1,2), of "\<lambda>_. Inr tool_default" unary_env tool_default "\<lambda>_. Inr specialist_default"
        specialist_default "\<lambda>_. Inr undefined" undefined] by auto
qed

end
