(* ===== verification/Broker.thy ===== *)
theory Broker
  imports Maintenance Kernel_Types Local_Snapshots
begin

text \<open>
  The records of the capability broker in src/broker.rs that other code relies on: the file transformation request and the proposal it stands for, the one
  permitted transformation of bytes, and the resolution of a path in the broker's workspace.  The processes, sockets and sandboxes around them
  are not modelled.
\<close>

section \<open>Requests\<close>

definition MAX_BYTES :: u64 where
  "MAX_BYTES = 1000000"

definition MAX_RUNTIME_MS :: u64 where
  "MAX_RUNTIME_MS = 5000"

definition WORKSPACE_SCOPE :: string where
  "WORKSPACE_SCOPE = ''broker-workspace''"

definition TRANSFORMER_ID :: string where
  "TRANSFORMER_ID = ''trim-trailing-ascii-spaces-markdown-v1''"

definition broker_text :: "string \<Rightarrow> bool" where
  "broker_text value = text_within 256 value"

definition broker_relative_path :: "string \<Rightarrow> bool" where
  "broker_relative_path value \<longleftrightarrow> broker_text value \<and> list_all is_normal (path_components value)"

text \<open>\<open>Path::extension\<close> of a file name: what follows the last dot, unless nothing precedes it.\<close>

definition file_extension :: "string \<Rightarrow> string option" where
  "file_extension w =
     (let after = takeWhile (\<lambda>c. c \<noteq> CHR ''.'') (rev w); before = drop (Suc (length after)) (rev w)
      in if CHR ''.'' \<notin> set w \<or> before = [] then None else Some (rev after))"

definition root_markdown_path :: "string \<Rightarrow> bool" where
  "root_markdown_path value \<longleftrightarrow> broker_relative_path value \<and> length (path_components value) = 1 \<and>
     (case path_components value of [PC_Normal w] \<Rightarrow> file_extension w = Some ''md'' | _ \<Rightarrow> False)"

datatype file_transform_operation = FT_TrimTrailingAsciiSpaces

record file_transform_request =
  ft_request_id :: string
  ft_agent_id :: string
  ft_subject :: string
  ft_evidence_id :: string
  ft_operation :: file_transform_operation
  ft_source_relpath :: string
  ft_destination_relpath :: string
  ft_input_digest :: string
  ft_executable_digest :: string
  ft_max_bytes :: u64
  ft_max_runtime_ms :: u64
  ft_requested_at :: u64
  ft_expires_at :: u64
  ft_nonce :: u64
  ft_cancel_requested :: bool
  ft_telemetry_present :: bool

definition transform_request_validate :: "file_transform_request \<Rightarrow> u64 \<Rightarrow> unit result" where
  "transform_request_validate q now =
     (if \<not> broker_text (ft_request_id q) \<or> \<not> broker_text (ft_agent_id q) \<or> \<not> broker_text (ft_subject q) \<or> \<not> broker_text (ft_evidence_id q) \<or>
         \<not> broker_relative_path (ft_source_relpath q) \<or> \<not> broker_relative_path (ft_destination_relpath q) \<or>
         \<not> root_markdown_path (ft_source_relpath q) \<or> \<not> root_markdown_path (ft_destination_relpath q) \<or>
         ft_source_relpath q = ft_destination_relpath q \<or> \<not> valid_digest (ft_input_digest q) \<or> \<not> valid_digest (ft_executable_digest q) \<or>
         ft_max_bytes q = 0 \<or> MAX_BYTES < ft_max_bytes q \<or> ft_max_runtime_ms q = 0 \<or> MAX_RUNTIME_MS < ft_max_runtime_ms q \<or>
         now < ft_requested_at q \<or> ft_expires_at q \<le> ft_requested_at q \<or> ft_expires_at q \<le> now \<or> ft_nonce q = 0
      then Inl (Err_Invalid ''file transformation request is invalid'') else Inr ())"

definition to_proposal :: "file_transform_request \<Rightarrow> proposal result" where
  "to_proposal q =
     (let payload = fold (\<lambda>(k, v). bt_insert k v)
        [(''operation'', case ft_operation q of FT_TrimTrailingAsciiSpaces \<Rightarrow> JStr ''TrimTrailingAsciiSpaces''),
         (''source_relpath'', JStr (ft_source_relpath q)), (''destination_relpath'', JStr (ft_destination_relpath q)),
         (''input_digest'', JStr (ft_input_digest q)), (''executable_digest'', JStr (ft_executable_digest q)),
         (''max_bytes'', json_word (ft_max_bytes q)), (''max_runtime_ms'', json_word (ft_max_runtime_ms q))] []
      in Inr \<lparr>pr_candidate_id = ft_request_id q, pr_agent_id = ft_agent_id q, pr_intent = TRANSFORMER_ID, pr_action = Act_Write,
        pr_scope = WORKSPACE_SCOPE, pr_payload = payload,
        pr_resource_cost = fold (\<lambda>(k, v). bt_insert k v) [(''bytes'', ft_max_bytes q), (''cpu_ms'', ft_max_runtime_ms q), (''spend'', 0)] [],
        pr_source_digest = ft_executable_digest q,
        pr_claims = [\<lparr>cl_guarantees = [''PolicyCompliance''], cl_assumptions = [], cl_excludes = [], cl_maturity = 1,
          cl_trust_roots = [''broker-local-policy''], cl_valid_until = ft_expires_at q, cl_provenance_digest = ft_input_digest q\<rparr>],
        pr_nonce = ft_nonce q, pr_expires_at = ft_expires_at q, pr_requests_direct_authority = False\<rparr>)"

section \<open>The transformation\<close>

definition byte_slice :: "u8 list \<Rightarrow> nat \<Rightarrow> nat \<Rightarrow> u8 list" where
  "byte_slice bs a b = take (b - a) (drop a bs)"

text \<open>The inner loop, which moves back over spaces but not past the start of the line.\<close>

fun trimmed_end :: "u8 list \<Rightarrow> nat \<Rightarrow> nat \<Rightarrow> nat" where
  "trimmed_end bs line_start 0 = 0"
| "trimmed_end bs line_start (Suc n) = (if line_start < Suc n \<and> bs ! n = 32 then trimmed_end bs line_start n else Suc n)"

definition transform_index :: "u8 list \<Rightarrow> nat \<Rightarrow> nat \<times> u8 list \<Rightarrow> nat \<times> u8 list" where
  "transform_index bs i st = (case st of (line_start, out) \<Rightarrow>
     if i \<noteq> length bs \<and> bs ! i \<noteq> 10 then (line_start, out)
     else let content_end = (if line_start < i \<and> bs ! (i - 1) = 13 then i - 1 else i);
              out1 = out @ byte_slice bs line_start (trimmed_end bs line_start content_end) @ byte_slice bs content_end i
          in if i \<noteq> length bs then (Suc i, out1 @ [10]) else (line_start, out1))"

definition transform_output :: "file_transform_operation \<Rightarrow> u8 list \<Rightarrow> u8 list result" where
  "transform_output operation bs = (case operation of
     FT_TrimTrailingAsciiSpaces \<Rightarrow> Inr (snd (fold (transform_index bs) [0..<Suc (length bs)] (0, []))))"

text \<open>The reference: each line without its trailing spaces, where a carriage return at its end stays.\<close>

fun split_lf :: "u8 list \<Rightarrow> u8 list list" where
  "split_lf [] = [[]]"
| "split_lf (b # bs) = (if b = 10 then [] # split_lf bs else case split_lf bs of [] \<Rightarrow> [[b]] | l # ls \<Rightarrow> (b # l) # ls)"

fun join_lf :: "u8 list list \<Rightarrow> u8 list" where
  "join_lf [] = []"
| "join_lf [l] = l"
| "join_lf (l # ls) = l @ [10] @ join_lf ls"

definition strip_spaces :: "u8 list \<Rightarrow> u8 list" where
  "strip_spaces l = rev (dropWhile (\<lambda>b. b = 32) (rev l))"

definition trim_line :: "u8 list \<Rightarrow> u8 list" where
  "trim_line l = (if l \<noteq> [] \<and> last l = 13 then strip_spaces (butlast l) @ [13] else strip_spaces l)"

section \<open>The workspace\<close>

text \<open>
  What the operating system answers about a path of the workspace: \<open>fs::canonicalize\<close>, the queries of \<open>Path\<close> and \<open>fs::read\<close>.  A path \<open>root.join(relative)\<close> keeps the
  text of its relative part, which says more than its components: \<open>a.md/\<close> does not exist when \<open>a.md\<close> is a file.  The two queries the code makes on
  such a path therefore get the root and the text.
\<close>

record workspace_os =
  wo_canonicalize :: "os_path \<Rightarrow> os_path result"
  wo_joined_exists :: "os_path \<Rightarrow> string \<Rightarrow> bool"
  wo_joined_canonicalize :: "os_path \<Rightarrow> string \<Rightarrow> os_path result"
  wo_is_dir :: "os_path \<Rightarrow> bool"
  wo_is_file :: "os_path \<Rightarrow> bool"
  wo_read :: "os_path \<Rightarrow> u8 list result"

definition path_parent :: "os_path \<Rightarrow> os_path option" where
  "path_parent p = (if p = [] \<or> last p = PC_RootDir \<or> last p = PC_Prefix then None else Some (butlast p))"

definition path_file_name :: "os_path \<Rightarrow> string option" where
  "path_file_name p = (if p = [] then None else case last p of PC_Normal w \<Rightarrow> Some w | _ \<Rightarrow> None)"

text \<open>The second argument is what \<open>fs::canonicalize\<close> answers for the path.\<close>

definition canonical_within :: "os_path \<Rightarrow> os_path result \<Rightarrow> os_path result" where
  "canonical_within root answer =
     try_r answer (\<lambda>canonical.
     if path_starts_with canonical root then Inr canonical else Inl (Err_Rejected ''path escapes broker workspace''))"

definition safe_join :: "workspace_os \<Rightarrow> os_path \<Rightarrow> string \<Rightarrow> os_path result" where
  "safe_join os root relative =
     (if \<not> broker_relative_path relative then Inl (Err_Rejected ''relative path is invalid'')
      else if wo_joined_exists os root relative then canonical_within root (wo_joined_canonicalize os root relative)
      else let p = root @ path_components relative in
        try_r (ok_or (Err_Rejected ''path has no parent'') (path_parent p)) (\<lambda>parent.
        try_r (canonical_within root (wo_canonicalize os parent)) (\<lambda>canonical_parent.
        try_r (ok_or (Err_Rejected ''path has no filename'') (path_file_name p)) (\<lambda>name. Inr (canonical_parent @ [PC_Normal name])))))"

definition workspace_file :: "workspace_os \<Rightarrow> os_path \<Rightarrow> string \<Rightarrow> os_path result" where
  "workspace_file os workspace relative =
     try_r (wo_canonicalize os workspace) (\<lambda>root.
     if \<not> wo_is_dir os root then Inl (Err_Rejected ''broker workspace is not a directory'') else safe_join os root relative)"

lemma workspace_file_within:
  assumes "workspace_file os workspace relative = Inr p"
  obtains root where "wo_canonicalize os workspace = Inr root" "path_starts_with p root" "wo_is_dir os root"
proof -
  obtain root where r: "wo_canonicalize os workspace = Inr root" "wo_is_dir os root" "safe_join os root relative = Inr p"
    using assms by (auto simp: workspace_file_def try_r_eq_Inr split: if_splits)
  then have "path_starts_with p root"
    by (auto simp: safe_join_def canonical_within_def try_r_eq_Inr Let_def path_starts_with_def split: if_splits)
      (metis append_take_drop_id length_take min.absorb2 nat_le_linear take_all append.right_neutral)
  then show thesis using that r by blast
qed

section \<open>The loop and the reference\<close>

lemma split_lf_nonempty [simp]: "split_lf bs \<noteq> []"
  by (induction bs) (auto split: list.splits)

lemma split_lf_line: "10 \<notin> set cur \<Longrightarrow> split_lf (cur @ 10 # rest) = cur # split_lf rest"
  by (induction cur) auto

lemma split_lf_last: "10 \<notin> set cur \<Longrightarrow> split_lf cur = [cur]"
  by (induction cur) auto

lemma join_lf_Cons: "ls \<noteq> [] \<Longrightarrow> join_lf (l # ls) = l @ 10 # join_lf ls"
  by (cases ls) auto

lemma strip_spaces_snoc [simp]: "strip_spaces [] = []" "strip_spaces (l @ [b]) = (if b = 32 then strip_spaces l else l @ [b])"
  by (simp_all add: strip_spaces_def)

lemma trimmed_end_strip:
  "byte_slice (pre @ cur @ rest) (length pre) (trimmed_end (pre @ cur @ rest) (length pre) (length pre + length cur)) = strip_spaces cur"
proof (induction cur arbitrary: rest rule: rev_induct)
  case Nil
  then show ?case by (cases "length pre") (simp_all add: byte_slice_def)
next
  case (snoc b cur)
  then show ?case using snoc.IH [of "b # rest"] by (simp add: nth_append byte_slice_def)
qed

lemma line_trimmed:
  assumes "bs = pre @ cur @ rest" and "i = length pre + length cur"
    and "content_end = (if length pre < i \<and> bs ! (i - 1) = 13 then i - 1 else i)"
  shows "byte_slice bs (length pre) (trimmed_end bs (length pre) content_end) @ byte_slice bs content_end i = trim_line cur"
proof (cases cur rule: rev_cases)
  case Nil
  then show ?thesis using assms trimmed_end_strip [of pre "[]" rest] by (simp add: byte_slice_def trim_line_def)
next
  case (snoc l b)
  then have i: "bs ! (i - 1) = b" using assms by (simp add: nth_append)
  show ?thesis
  proof (cases "b = 13")
    case True
    then have "content_end = length pre + length l" using assms snoc i by simp
    moreover have "byte_slice bs (length pre + length l) i = [13]" using assms snoc True by (simp add: byte_slice_def)
    ultimately show ?thesis using trimmed_end_strip [of pre l "b # rest"] assms(1) snoc True by (simp add: trim_line_def)
  next
    case False
    then have "content_end = i" using assms i snoc by simp
    then show ?thesis using trimmed_end_strip [of pre cur rest] assms(1,2) snoc False by (simp add: trim_line_def byte_slice_def)
  qed
qed

lemma transform_loop:
  assumes "10 \<notin> set cur" and "bs = pre @ cur @ rest"
  shows "snd (fold (transform_index bs) [length pre + length cur..<Suc (length bs)] (length pre, out)) =
    out @ join_lf (map trim_line (split_lf (cur @ rest)))"
  using assms
proof (induction rest arbitrary: pre cur out)
  case Nil
  then have n: "length bs = length pre + length cur" by simp
  have "transform_index bs (length bs) (length pre, out) = (length pre, out @ trim_line cur)"
    using line_trimmed [OF Nil.prems(2) n refl] by (simp add: transform_index_def Let_def)
  moreover have "[length pre + length cur..<Suc (length bs)] = [length bs]" using n by simp
  ultimately show ?case using Nil.prems(1) by (simp add: split_lf_last)
next
  case (Cons x xs)
  let ?i = "length pre + length cur"
  have lt: "?i < length bs" using Cons.prems(2) by simp
  have upt: "[?i..<Suc (length bs)] = ?i # [Suc ?i..<Suc (length bs)]" using lt by (simp add: upt_conv_Cons)
  have nth: "bs ! ?i = x" using Cons.prems(2) by (simp add: nth_append)
  show ?case
  proof (cases "x = 10")
    case True
    have step: "transform_index bs ?i (length pre, out) = (Suc ?i, out @ trim_line cur @ [10])"
      using line_trimmed [OF Cons.prems(2) refl refl] nth lt True by (simp add: transform_index_def Let_def)
    have "snd (fold (transform_index bs) [length (pre @ cur @ [10]) + length ([] :: u8 list)..<Suc (length bs)] (length (pre @ cur @ [10]), out @ trim_line cur @ [10])) =
        (out @ trim_line cur @ [10]) @ join_lf (map trim_line (split_lf ([] @ xs)))"
      by (rule Cons.IH) (use Cons.prems True in simp_all)
    then show ?thesis using Cons.prems(1) True upt step by (simp add: split_lf_line join_lf_Cons)
  next
    case False
    have step: "transform_index bs ?i (length pre, out) = (length pre, out)" using nth lt False by (simp add: transform_index_def)
    have "snd (fold (transform_index bs) [length pre + length (cur @ [x])..<Suc (length bs)] (length pre, out)) =
        out @ join_lf (map trim_line (split_lf ((cur @ [x]) @ xs)))"
      by (rule Cons.IH) (use Cons.prems False in simp_all)
    then show ?thesis using upt step by simp
  qed
qed

lemma transform_output_reference: "transform_output FT_TrimTrailingAsciiSpaces bs = Inr (join_lf (map trim_line (split_lf bs)))"
  using transform_loop [of "[]" bs "[]" bs "[]"] by (simp add: transform_output_def)

text \<open>What the reference says of the bytes.\<close>

lemma strip_spaces_bytes: "filter (\<lambda>b. b \<noteq> 32) (strip_spaces l) = filter (\<lambda>b. b \<noteq> 32) l" "length (strip_spaces l) \<le> length l"
  by (induction l rule: rev_induct) auto

lemma strip_spaces_end: "strip_spaces l = [] \<or> last (strip_spaces l) \<noteq> 32"
  by (induction l rule: rev_induct) auto

lemma trim_line_bytes: "filter (\<lambda>b. b \<noteq> 32) (trim_line l) = filter (\<lambda>b. b \<noteq> 32) l" "length (trim_line l) \<le> length l"
proof -
  show "filter (\<lambda>b. b \<noteq> 32) (trim_line l) = filter (\<lambda>b. b \<noteq> 32) l"
    by (cases l rule: rev_cases) (simp_all add: trim_line_def strip_spaces_bytes)
  show "length (trim_line l) \<le> length l"
    by (cases l rule: rev_cases) (simp_all add: trim_line_def strip_spaces_bytes le_SucI)
qed

lemma join_split_lf: "join_lf (split_lf bs) = bs"
proof (induction bs)
  case (Cons b bs)
  obtain l ls where s: "split_lf bs = l # ls" by (cases "split_lf bs") auto
  then show ?case using Cons by (cases ls) (auto simp: join_lf_Cons)
qed simp

lemma join_lf_filter:
  assumes "\<And>l. filter (\<lambda>b. b \<noteq> 32) (f l) = filter (\<lambda>b. b \<noteq> 32) l" and "\<And>l. length (f l) \<le> length l"
  shows "filter (\<lambda>b. b \<noteq> 32) (join_lf (map f ls)) = filter (\<lambda>b. b \<noteq> 32) (join_lf ls)" "length (join_lf (map f ls)) \<le> length (join_lf ls)"
proof -
  show "filter (\<lambda>b. b \<noteq> 32) (join_lf (map f ls)) = filter (\<lambda>b. b \<noteq> 32) (join_lf ls)"
    by (induction ls rule: join_lf.induct) (auto simp: assms)
  show "length (join_lf (map f ls)) \<le> length (join_lf ls)"
    by (induction ls rule: join_lf.induct) (auto simp: assms intro: add_mono)
qed

section \<open>Properties\<close>

text \<open>
  The permitted transformation is line by line.  The index loop of \<open>transform_output\<close> always answers, and its bytes are those of the reference: the input split at
  line feeds, each line without the spaces at its end or before its final carriage return, and joined again.  It only removes spaces and never
  grows the input.  (It is not idempotent: spaces on both sides of a carriage return at a line's end take two rounds.)
\<close>

theorem transform_output_exact:
  "transform_output op bs = Inr (join_lf (map trim_line (split_lf bs))) \<and> join_lf (split_lf bs) = bs \<and>
   filter (\<lambda>b. b \<noteq> 32) (join_lf (map trim_line (split_lf bs))) = filter (\<lambda>b. b \<noteq> 32) bs \<and>
   length (join_lf (map trim_line (split_lf bs))) \<le> length bs \<and>
   transform_output op [97, 32, 13, 32] = Inr [97, 32, 13] \<and> transform_output op [97, 32, 13] = Inr [97, 13]"
proof (intro conjI)
  show "transform_output op bs = Inr (join_lf (map trim_line (split_lf bs)))" by (cases op) (simp add: transform_output_reference)
  show "transform_output op [97, 32, 13, 32] = Inr [97, 32, 13]" "transform_output op [97, 32, 13] = Inr [97, 13]"
    by (cases op; simp add: transform_output_reference trim_line_def strip_spaces_def)+
qed (use join_lf_filter [OF trim_line_bytes, of "split_lf bs"] in \<open>simp_all add: join_split_lf\<close>)

end
