(* ===== verification/Json_Scanner.thy ===== *)
theory Json_Scanner
  imports Encoding "HOL-Library.Countable"
begin

text \<open>
  The scanner of src/crypto_adapters.rs that rejects wire bytes with duplicate object keys before they are parsed.  A byte is a \<open>u8\<close>, the scanner's position a
  natural number, and \<open>serde_json::from_slice\<close> of one string literal the parameter \<open>unstr\<close>.  The mutual recursion of the
  parsers has no bound in the code.  Here it has fuel, a budget of nested calls, and \<open>None\<close> says that the budget was exhausted; \<open>reject_terminates\<close> gives the least
  budget that is always enough.  The stack of the machine is not modelled: the code recurses natively, so input that nests
  deeper than its stack allows aborts the process instead of being answered.
\<close>

section \<open>Bytes\<close>

definition peek :: "u8 list \<Rightarrow> nat \<Rightarrow> u8 option" where
  "peek bs i = (if i < length bs then Some (bs ! i) else None)"

lemma peek_SomeD: "peek bs i = Some b \<Longrightarrow> i < length bs"
  by (simp add: peek_def split: if_splits)

definition is_space :: "u8 \<Rightarrow> bool" where
  "is_space b \<longleftrightarrow> b = 32 \<or> b = 10 \<or> b = 13 \<or> b = 9"

definition ends_number :: "u8 \<Rightarrow> bool" where
  "ends_number b \<longleftrightarrow> is_space b \<or> b = 44 \<or> b = 93 \<or> b = 125"

text \<open>The loops that move the position while a byte test holds.\<close>

function skip_while :: "(u8 \<Rightarrow> bool) \<Rightarrow> u8 list \<Rightarrow> nat \<Rightarrow> nat" where
  "skip_while P bs i = (if i < length bs \<and> P (bs ! i) then skip_while P bs (Suc i) else i)"
  by pat_completeness auto
termination
  by (relation "measure (\<lambda>(P, bs, i). length bs - i)") auto

declare skip_while.simps [simp del]

definition skip_whitespace :: "u8 list \<Rightarrow> nat \<Rightarrow> nat" where
  "skip_whitespace bs i = skip_while is_space bs i"

lemma skip_while_ge: "i \<le> skip_while P bs i"
proof (induction P bs i rule: skip_while.induct)
  case (1 P bs i)
  then show ?case by (subst skip_while.simps) (use 1 in auto)
qed

lemma skip_while_le: "i \<le> length bs \<Longrightarrow> skip_while P bs i \<le> length bs"
proof (induction P bs i rule: skip_while.induct)
  case (1 P bs i)
  then show ?case by (subst skip_while.simps) auto
qed

lemma skip_ge: "i \<le> skip_whitespace bs i"
  by (simp add: skip_whitespace_def skip_while_ge)

section \<open>Parsers\<close>

definition json_error :: "string \<Rightarrow> error" where
  "json_error what = Err_Journal (''crypto wire JSON '' @ what)"

function string_loop :: "(u8 list \<Rightarrow> string option) \<Rightarrow> u8 list \<Rightarrow> nat \<Rightarrow> nat \<Rightarrow> (string \<times> nat) result" where
  "string_loop unstr bs start i =
     (case peek bs i of
        None \<Rightarrow> Inl (json_error ''string is unterminated'')
      | Some b \<Rightarrow>
        if b = 34 then
          (case unstr (drop start (take (Suc i) bs)) of
             None \<Rightarrow> Inl (json_error ''string is malformed'')
           | Some s \<Rightarrow> Inr (s, Suc i))
        else if b = 92 then
          (case peek bs (Suc i) of
             None \<Rightarrow> Inl (json_error ''escape is incomplete'')
           | Some c \<Rightarrow> string_loop unstr bs start (if c = 117 then i + 6 else i + 2))
        else if b < 32 then Inl (json_error ''string contains a control byte'')
        else string_loop unstr bs start (Suc i))"
  by pat_completeness auto
termination
  by (relation "measure (\<lambda>(u, bs, s, i). length bs - i)") (auto dest!: peek_SomeD)

declare string_loop.simps [simp del]

definition parse_string :: "(u8 list \<Rightarrow> string option) \<Rightarrow> u8 list \<Rightarrow> nat \<Rightarrow> (string \<times> nat) result" where
  "parse_string unstr bs i =
     (if peek bs i \<noteq> Some 34 then Inl (json_error ''object key is not a string'') else string_loop unstr bs i (Suc i))"

definition parse_literal :: "u8 list \<Rightarrow> u8 list \<Rightarrow> nat \<Rightarrow> nat result" where
  "parse_literal literal bs i =
     (if i + length literal \<le> length bs \<and> take (length literal) (drop i bs) = literal then Inr (i + length literal)
      else Inl (json_error ''literal is malformed''))"

definition parse_number :: "u8 list \<Rightarrow> nat \<Rightarrow> nat result" where
  "parse_number bs i =
     (let j = skip_while (\<lambda>b. \<not> ends_number b) bs i in if j = i then Inl (json_error ''number is empty'') else Inr j)"

text \<open>The calls among the parsers of values; \<open>go\<close> is what a recursive call does.\<close>

datatype scan_call = SC_Value nat | SC_Object nat | SC_Members "string list" nat | SC_Array nat | SC_Elements nat

definition parse_value :: "(u8 list \<Rightarrow> string option) \<Rightarrow> (scan_call \<Rightarrow> nat result option) \<Rightarrow> u8 list \<Rightarrow> nat \<Rightarrow> nat result option" where
  "parse_value unstr go bs i =
     (let j = skip_whitespace bs i in
      case peek bs j of
        None \<Rightarrow> Some (Inl (json_error ''value is malformed''))
      | Some b \<Rightarrow>
        if b = 123 then go (SC_Object j)
        else if b = 91 then go (SC_Array j)
        else if b = 34 then Some (try_r (parse_string unstr bs j) (\<lambda>(_, k). Inr k))
        else if b = 116 then Some (parse_literal [116, 114, 117, 101] bs j)
        else if b = 102 then Some (parse_literal [102, 97, 108, 115, 101] bs j)
        else if b = 110 then Some (parse_literal [110, 117, 108, 108] bs j)
        else if b = 45 \<or> 48 \<le> b \<and> b \<le> 57 then Some (parse_number bs j)
        else Some (Inl (json_error ''value is malformed'')))"

definition parse_object :: "(scan_call \<Rightarrow> nat result option) \<Rightarrow> u8 list \<Rightarrow> nat \<Rightarrow> nat result option" where
  "parse_object go bs i =
     (let j = skip_whitespace bs (Suc i) in
      if peek bs j = Some 125 then Some (Inr (Suc j)) else go (SC_Members [] j))"

definition object_loop ::
  "(u8 list \<Rightarrow> string option) \<Rightarrow> (scan_call \<Rightarrow> nat result option) \<Rightarrow> u8 list \<Rightarrow> string list \<Rightarrow> nat \<Rightarrow> nat result option" where
  "object_loop unstr go bs keys i =
     (case parse_string unstr bs (skip_whitespace bs i) of
        Inl e \<Rightarrow> Some (Inl e)
      | Inr (key, j) \<Rightarrow>
        if key \<in> set keys then Some (Inl (json_error ''object contains duplicate keys''))
        else let k = skip_whitespace bs j in
          if peek bs k \<noteq> Some 58 then Some (Inl (json_error ''object is missing a colon''))
          else (case go (SC_Value (Suc k)) of
                  None \<Rightarrow> None
                | Some (Inl e) \<Rightarrow> Some (Inl e)
                | Some (Inr v) \<Rightarrow>
                  (let l = skip_whitespace bs v in
                   if peek bs l = Some 44 then go (SC_Members (key # keys) (Suc l))
                   else if peek bs l = Some 125 then Some (Inr (Suc l))
                   else Some (Inl (json_error ''object separator is malformed'')))))"

definition parse_array :: "(scan_call \<Rightarrow> nat result option) \<Rightarrow> u8 list \<Rightarrow> nat \<Rightarrow> nat result option" where
  "parse_array go bs i =
     (let j = skip_whitespace bs (Suc i) in
      if peek bs j = Some 93 then Some (Inr (Suc j)) else go (SC_Elements j))"

definition array_loop :: "(scan_call \<Rightarrow> nat result option) \<Rightarrow> u8 list \<Rightarrow> nat \<Rightarrow> nat result option" where
  "array_loop go bs i =
     (case go (SC_Value i) of
        None \<Rightarrow> None
      | Some (Inl e) \<Rightarrow> Some (Inl e)
      | Some (Inr v) \<Rightarrow>
        (let l = skip_whitespace bs v in
         if peek bs l = Some 44 then go (SC_Elements (Suc l))
         else if peek bs l = Some 93 then Some (Inr (Suc l))
         else Some (Inl (json_error ''array separator is malformed''))))"

primrec scan :: "(u8 list \<Rightarrow> string option) \<Rightarrow> u8 list \<Rightarrow> nat \<Rightarrow> scan_call \<Rightarrow> nat result option" where
  "scan unstr bs 0 c = None"
| "scan unstr bs (Suc n) c =
     (case c of
        SC_Value i \<Rightarrow> parse_value unstr (scan unstr bs n) bs i
      | SC_Object i \<Rightarrow> parse_object (scan unstr bs n) bs i
      | SC_Members keys i \<Rightarrow> object_loop unstr (scan unstr bs n) bs keys i
      | SC_Array i \<Rightarrow> parse_array (scan unstr bs n) bs i
      | SC_Elements i \<Rightarrow> array_loop (scan unstr bs n) bs i)"

definition scan_fuel :: "u8 list \<Rightarrow> nat" where
  "scan_fuel bs = 3 * length bs + 1"

definition reject_duplicate_json_keys :: "(u8 list \<Rightarrow> string option) \<Rightarrow> nat \<Rightarrow> u8 list \<Rightarrow> unit result option" where
  "reject_duplicate_json_keys unstr n bs =
     (case scan unstr bs n (SC_Value 0) of
        None \<Rightarrow> None
      | Some (Inl e) \<Rightarrow> Some (Inl e)
      | Some (Inr i) \<Rightarrow>
        Some (if skip_whitespace bs i \<noteq> length bs then Inl (Err_Journal ''crypto wire bytes contain trailing JSON data'') else Inr ()))"

section \<open>The scanner always stops\<close>

lemma string_loop_gt: "string_loop unstr bs start i = Inr (s, j) \<Longrightarrow> i < j"
proof (induction unstr bs start i rule: string_loop.induct)
  case (1 unstr bs start i)
  from "1.prems" show ?case
    unfolding string_loop.simps [of unstr bs start i]
    by (auto split: option.splits if_splits dest: "1.IH")
qed

lemma parse_string_gt: "parse_string unstr bs i = Inr (s, j) \<Longrightarrow> i < length bs \<and> i < j"
  by (auto simp: parse_string_def split: if_splits dest!: string_loop_gt peek_SomeD)

lemma parse_literal_gt: "literal \<noteq> [] \<Longrightarrow> parse_literal literal bs i = Inr j \<Longrightarrow> i < j"
  by (auto simp: parse_literal_def split: if_splits)

lemma parse_number_gt: "parse_number bs i = Inr j \<Longrightarrow> i < j"
  using skip_while_ge [of i "\<lambda>b. \<not> ends_number b" bs] by (auto simp: parse_number_def Let_def split: if_splits)

text \<open>A parser has an answer, and a success has moved past \<open>i\<close>.\<close>

definition answers :: "nat \<Rightarrow> nat result option \<Rightarrow> bool" where
  "answers i r \<longleftrightarrow> (case r of None \<Rightarrow> False | Some (Inl e) \<Rightarrow> True | Some (Inr j) \<Rightarrow> i < j)"

lemma answers_simps [simp]: "\<not> answers i None" "answers i (Some (Inl e))" "answers i (Some (Inr j)) \<longleftrightarrow> i < j"
  by (simp_all add: answers_def)

lemma answersE:
  assumes "answers i r"
  obtains e where "r = Some (Inl e)" | j where "r = Some (Inr j)" "i < j"
  using assms by (auto simp: answers_def split: option.splits sum.splits)

lemma answers_mono: "answers i r \<Longrightarrow> k \<le> i \<Longrightarrow> answers k r"
  by (auto simp: answers_def split: option.splits sum.splits)

lemmas scan_bodies = parse_value_def parse_object_def object_loop_def parse_array_def array_loop_def

lemma scan_answers:
  "(\<forall>i. 3 * (length bs - i) + 1 \<le> n \<longrightarrow> answers i (scan unstr bs n (SC_Value i))) \<and>
   (\<forall>i. i < length bs \<longrightarrow> 3 * (length bs - i) \<le> n \<longrightarrow> answers i (scan unstr bs n (SC_Object i))) \<and>
   (\<forall>i keys. 3 * (length bs - i) + 2 \<le> n \<longrightarrow> answers i (scan unstr bs n (SC_Members keys i))) \<and>
   (\<forall>i. i < length bs \<longrightarrow> 3 * (length bs - i) \<le> n \<longrightarrow> answers i (scan unstr bs n (SC_Array i))) \<and>
   (\<forall>i. 3 * (length bs - i) + 2 \<le> n \<longrightarrow> answers i (scan unstr bs n (SC_Elements i)))"
proof (induction n)
  case (Suc n)
  note IH = Suc.IH
  have val_ok: "answers i (scan unstr bs n (SC_Value i))" if "3 * (length bs - i) + 1 \<le> n" for i using IH that by blast
  have object: "answers i (scan unstr bs n (SC_Object i))" if "i < length bs" "3 * (length bs - i) \<le> n" for i using IH that by blast
  have members: "answers i (scan unstr bs n (SC_Members keys i))" if "3 * (length bs - i) + 2 \<le> n" for i keys using IH that by blast
  have array: "answers i (scan unstr bs n (SC_Array i))" if "i < length bs" "3 * (length bs - i) \<le> n" for i using IH that by blast
  have elements: "answers i (scan unstr bs n (SC_Elements i))" if "3 * (length bs - i) + 2 \<le> n" for i using IH that by blast
  have V: "answers i (scan unstr bs (Suc n) (SC_Value i))" if f: "3 * (length bs - i) + 1 \<le> Suc n" for i
  proof (cases "peek bs (skip_whitespace bs i)")
    case (Some b)
    let ?j = "skip_whitespace bs i"
    have j: "i \<le> ?j" "?j < length bs" using skip_ge peek_SomeD [OF Some] by auto
    then have "3 * (length bs - ?j) \<le> n" using f by linarith
    then have "answers ?j (scan unstr bs n (SC_Object ?j))" "answers ?j (scan unstr bs n (SC_Array ?j))" using object array j by auto
    then have *: "answers i (scan unstr bs n (SC_Object ?j))" "answers i (scan unstr bs n (SC_Array ?j))" using answers_mono j by blast+
    have str: "answers i (Some (try_r (parse_string unstr bs ?j) (\<lambda>(_, k). Inr k)))"
      using parse_string_gt [of unstr bs ?j] j(1) by (cases "parse_string unstr bs ?j") fastforce+
    have lit: "answers i (Some (parse_literal l bs ?j))" if "l \<noteq> []" for l
      using parse_literal_gt [OF that, of bs ?j] j(1) by (cases "parse_literal l bs ?j") fastforce+
    have num: "answers i (Some (parse_number bs ?j))"
      using parse_number_gt [of bs ?j] j(1) by (cases "parse_number bs ?j") fastforce+
    show ?thesis using Some * str lit num by (simp add: Let_def scan_bodies)
  qed (simp add: Let_def scan_bodies)
  have O: "answers i (scan unstr bs (Suc n) (SC_Object i))" if l: "i < length bs" and f: "3 * (length bs - i) \<le> Suc n" for i
  proof -
    let ?j = "skip_whitespace bs (Suc i)"
    have "Suc i \<le> ?j" by (rule skip_ge)
    moreover from this have "3 * (length bs - ?j) + 2 \<le> n" using f l by linarith
    ultimately show ?thesis using members [of ?j "[]"] answers_mono [of ?j _ i] by (simp add: Let_def scan_bodies)
  qed
  have A: "answers i (scan unstr bs (Suc n) (SC_Array i))" if l: "i < length bs" and f: "3 * (length bs - i) \<le> Suc n" for i
  proof -
    let ?j = "skip_whitespace bs (Suc i)"
    have "Suc i \<le> ?j" by (rule skip_ge)
    moreover from this have "3 * (length bs - ?j) + 2 \<le> n" using f l by linarith
    ultimately show ?thesis using elements [of ?j] answers_mono [of ?j _ i] by (simp add: Let_def scan_bodies)
  qed
  have next_member: "answers i (scan unstr bs n (SC_Members keys (Suc l)))" if "i < l" "l < length bs" "3 * (length bs - i) + 2 \<le> Suc n" for i l keys
    using members [of "Suc l" keys] answers_mono [of "Suc l" _ i] that by simp
  have next_element: "answers i (scan unstr bs n (SC_Elements (Suc l)))" if "i < l" "l < length bs" "3 * (length bs - i) + 2 \<le> Suc n" for i l
    using elements [of "Suc l"] answers_mono [of "Suc l" _ i] that by simp
  have M: "answers i (scan unstr bs (Suc n) (SC_Members keys i))" if f: "3 * (length bs - i) + 2 \<le> Suc n" for i keys
  proof (cases "parse_string unstr bs (skip_whitespace bs i)")
    case (Inr kj)
    obtain key j where kj: "kj = (key, j)" by (cases kj)
    let ?k = "skip_whitespace bs j"
    have ij: "i < length bs" "i < j" "j \<le> ?k"
      using parse_string_gt [OF Inr [unfolded kj]] skip_ge [of i bs] skip_ge [of j bs] by auto
    show ?thesis
    proof (cases "key \<in> set keys \<or> peek bs ?k \<noteq> Some 58")
      case True
      then show ?thesis using Inr kj by (auto simp: Let_def scan_bodies)
    next
      case False
      have "answers (Suc ?k) (scan unstr bs n (SC_Value (Suc ?k)))" using val_ok f ij by simp
      then show ?thesis
      proof (cases rule: answersE)
        case (2 v)
        let ?l = "skip_whitespace bs v"
        have "i < ?l" using ij 2(2) skip_ge [of v bs] by linarith
        then show ?thesis using False Inr kj 2 next_member [of i ?l "key # keys"] f peek_SomeD [of bs ?l 44] by (auto simp: Let_def scan_bodies)
      qed (use False Inr kj in \<open>auto simp: Let_def scan_bodies\<close>)
    qed
  qed (simp add: scan_bodies)
  have E: "answers i (scan unstr bs (Suc n) (SC_Elements i))" if f: "3 * (length bs - i) + 2 \<le> Suc n" for i
  proof -
    have "answers i (scan unstr bs n (SC_Value i))" using val_ok f by simp
    then show ?thesis
    proof (cases rule: answersE)
      case (2 v)
      let ?l = "skip_whitespace bs v"
      have "i < ?l" using 2(2) skip_ge [of v bs] by linarith
      then show ?thesis using 2 next_element [of i ?l] f peek_SomeD [of bs ?l 44] by (auto simp: Let_def scan_bodies)
    qed (simp add: scan_bodies)
  qed
  show ?case using V O M A E by blast
qed simp

text \<open>More fuel changes nothing.\<close>

lemma body_mono:
  assumes "\<And>c r. go c = Some r \<Longrightarrow> go' c = Some r"
  shows "parse_value unstr go bs i = Some r \<Longrightarrow> parse_value unstr go' bs i = Some r"
    and "parse_object go bs i = Some r \<Longrightarrow> parse_object go' bs i = Some r"
    and "object_loop unstr go bs keys i = Some r \<Longrightarrow> object_loop unstr go' bs keys i = Some r"
    and "parse_array go bs i = Some r \<Longrightarrow> parse_array go' bs i = Some r"
    and "array_loop go bs i = Some r \<Longrightarrow> array_loop go' bs i = Some r"
  using assms
  by (auto simp: scan_bodies Let_def split: option.splits sum.splits if_splits prod.splits)

lemma scan_Suc: "scan unstr bs n c = Some r \<Longrightarrow> scan unstr bs (Suc n) c = Some r"
proof (induction n arbitrary: c r)
  case (Suc n)
  then show ?case using body_mono [of "scan unstr bs n" "scan unstr bs (Suc n)"]
    by (auto simp del: scan.simps simp: scan.simps(2) [of unstr bs n] scan.simps(2) [of unstr bs "Suc n"] split: scan_call.splits)
qed simp

lemma scan_mono:
  assumes "n \<le> m" and "scan unstr bs n c = Some r"
  shows "scan unstr bs m c = Some r"
  using assms by (induction rule: dec_induct) (auto dest: scan_Suc simp del: scan.simps)








section \<open>What the scanner accepts\<close>

text \<open>
  Compact JSON, as \<open>serde_json::to_vec\<close> prints it: \<open>quote\<close> prints a string and \<open>num\<close> a number.  \<open>text_syntax\<close> is what is used of them: a
  string is printed between quotes with its special characters escaped and is read back by \<open>unstr\<close>, a number starts with a sign or a
  digit and contains no byte that could end it.
\<close>

fun commas :: "u8 list list \<Rightarrow> u8 list" where
  "commas [] = []"
| "commas [x] = x"
| "commas (x # y # ys) = x @ 44 # commas (y # ys)"

fun render :: "(string \<Rightarrow> u8 list) \<Rightarrow> (json \<Rightarrow> u8 list) \<Rightarrow> json \<Rightarrow> u8 list" where
  "render quote num JNull = [110, 117, 108, 108]"
| "render quote num (JBool True) = [116, 114, 117, 101]"
| "render quote num (JBool False) = [102, 97, 108, 115, 101]"
| "render quote num (JStr s) = quote s"
| "render quote num (JArr js) = 91 # commas (map (render quote num) js) @ [93]"
| "render quote num (JObj kvs) = 123 # commas (map (\<lambda>(k, v). quote k @ 58 # render quote num v) kvs) @ [125]"
| "render quote num j = num j"

fun unique_keys :: "json \<Rightarrow> bool" where
  "unique_keys (JArr js) = list_all unique_keys js"
| "unique_keys (JObj kvs) = (distinct (map fst kvs) \<and> list_all (\<lambda>(k, v). unique_keys v) kvs)"
| "unique_keys _ = True"

function escaped :: "u8 list \<Rightarrow> bool" where
  "escaped [] = True"
| "escaped (b # bs) =
     (if b = 92 then (case bs of [] \<Rightarrow> False | c # cs \<Rightarrow> if c = 117 then 4 \<le> length cs \<and> escaped (drop 4 cs) else escaped cs)
      else b \<noteq> 34 \<and> 32 \<le> b \<and> escaped bs)"
  by pat_completeness auto
termination
  by (relation "measure length") auto

definition text_syntax :: "(u8 list \<Rightarrow> string option) \<Rightarrow> (string \<Rightarrow> u8 list) \<Rightarrow> (json \<Rightarrow> u8 list) \<Rightarrow> bool" where
  "text_syntax unstr quote num \<longleftrightarrow>
     (\<forall>s. unstr (quote s) = Some s \<and> (\<exists>body. quote s = 34 # body @ [34] \<and> escaped body)) \<and>
     (\<forall>j. \<exists>b bs. num j = b # bs \<and> (b = 45 \<or> 48 \<le> b \<and> b \<le> 57) \<and> (\<forall>x\<in>set (b # bs). \<not> ends_number x))"

lemma peek_at [simp]: "peek (pre @ b # rest) (length pre) = Some b"
  by (simp add: peek_def nth_append)

lemma skip_at: "peek bs i = Some b \<Longrightarrow> \<not> is_space b \<Longrightarrow> skip_whitespace bs i = i"
  unfolding skip_whitespace_def by (subst skip_while.simps) (simp add: peek_def split: if_splits)

lemma string_loop_escaped:
  assumes "escaped body"
  shows "string_loop unstr (front @ body @ 34 # rest) start (length front) =
    (case unstr (drop start (front @ body @ [34])) of None \<Rightarrow> Inl (json_error ''string is malformed'')
     | Some s \<Rightarrow> Inr (s, length front + length body + 1))"
  using assms
proof (induction body arbitrary: front rule: escaped.induct)
  case 1
  then show ?case by (subst string_loop.simps) (simp split: option.split)
next
  case (2 b bs)
  show ?case
  proof (cases "b = 92")
    case False
    then have "escaped bs" "b \<noteq> 34" "\<not> b < 32" using "2.prems" by auto
    then show ?thesis
      using "2.IH"(3) [OF False, of "front @ [b]"] False by (subst string_loop.simps) (simp cong: option.case_cong)
  next
    case True
    then obtain c cs where bs: "bs = c # cs" using "2.prems" by (cases bs) auto
    have next_byte: "peek (front @ 92 # c # cs @ 34 # rest) (Suc (length front)) = Some c" by (simp add: peek_def nth_append)
    show ?thesis
    proof (cases "c = 117")
      case u: True
      have e: "4 \<le> length cs" "escaped (drop 4 cs)" using "2.prems" True bs u by auto
      define w ws where "w = take 4 cs" and "ws = drop 4 cs"
      have ws: "cs = w @ ws" "length w = 4" "escaped ws" using e by (simp_all add: w_def ws_def)
      have "string_loop unstr ((front @ [b, c] @ w) @ ws @ 34 # rest) start (length (front @ [b, c] @ w)) =
          (case unstr (drop start ((front @ [b, c] @ w) @ ws @ [34])) of None \<Rightarrow> Inl (json_error ''string is malformed'')
           | Some s \<Rightarrow> Inr (s, length (front @ [b, c] @ w) + length ws + 1))"
        using "2.IH"(1) [OF True bs u, of "front @ [b, c] @ w"] e(2)
        unfolding ws_def [symmetric] by blast
      then show ?thesis using next_byte True bs u ws(1,2) by (subst string_loop.simps) (simp cong: option.case_cong)
    next
      case u: False
      have "string_loop unstr ((front @ [b, c]) @ cs @ 34 # rest) start (length (front @ [b, c])) =
          (case unstr (drop start ((front @ [b, c]) @ cs @ [34])) of None \<Rightarrow> Inl (json_error ''string is malformed'')
           | Some s \<Rightarrow> Inr (s, length (front @ [b, c]) + length cs + 1))"
        using "2.IH"(2) [OF True bs u, of "front @ [b, c]"] "2.prems" True bs u by simp
      then show ?thesis using next_byte True bs u by (subst string_loop.simps) (simp cong: option.case_cong)
    qed
  qed
qed

lemma parse_quoted:
  assumes "text_syntax unstr quote num"
  shows "parse_string unstr (pre @ quote s @ rest) (length pre) = Inr (s, length pre + length (quote s))"
proof -
  obtain body where q: "quote s = 34 # body @ [34]" "escaped body" and u: "unstr (quote s) = Some s"
    using assms unfolding text_syntax_def by blast
  have "string_loop unstr ((pre @ [34]) @ body @ 34 # rest) (length pre) (length (pre @ [34])) =
      (case unstr (drop (length pre) ((pre @ [34]) @ body @ [34])) of None \<Rightarrow> Inl (json_error ''string is malformed'')
       | Some s \<Rightarrow> Inr (s, length (pre @ [34]) + length body + 1))"
    by (rule string_loop_escaped [OF q(2)])
  then show ?thesis using q(1) u by (simp add: parse_string_def)
qed

lemma parse_printed_number:
  assumes "text_syntax unstr quote num" and "rest = [] \<or> ends_number (hd rest)"
  shows "parse_number (pre @ num j @ rest) (length pre) = Inr (length pre + length (num j))"
proof -
  obtain b bs where n: "num j = b # bs" "\<forall>x\<in>set (b # bs). \<not> ends_number x" using assms(1) unfolding text_syntax_def by blast
  have "skip_while (\<lambda>b. \<not> ends_number b) (pre @ xs @ rest) (length pre) = length pre + length xs"
    if "\<forall>x\<in>set xs. \<not> ends_number x" for xs
    using that
  proof (induction xs arbitrary: pre)
    case Nil
    then show ?case using assms(2) by (subst skip_while.simps) (cases rest; simp add: nth_append)
  next
    case (Cons x xs)
    then show ?case using Cons.IH [of "pre @ [x]"] by (subst skip_while.simps) (simp add: nth_append)
  qed
  from this [OF n(2)] n(1) show ?thesis by (simp add: parse_number_def)
qed

text \<open>The first byte of a printed value.\<close>

lemma render_first:
  assumes "text_syntax unstr quote num"
  obtains b bs where "render quote num j = b # bs" "\<not> is_space b" "b \<noteq> 93" "b \<noteq> 125"
proof -
  have q: "\<exists>bs. quote s = 34 # bs" for s using assms unfolding text_syntax_def by (meson)
  have n: "\<exists>b bs. num j = b # bs \<and> \<not> ends_number b" using assms unfolding text_syntax_def by (metis list.set_intros(1))
  have "\<exists>b bs. render quote num j = b # bs \<and> \<not> is_space b \<and> b \<noteq> 93 \<and> b \<noteq> 125"
  proof (cases j)
    case (JBool x)
    then show ?thesis by (cases x) (simp_all add: is_space_def)
  next
    case (JStr s)
    then show ?thesis using q [of s] by (auto simp: is_space_def)
  qed (use n in \<open>auto simp: is_space_def ends_number_def\<close>)
  then show thesis using that by blast
qed

definition verdict :: "bool \<Rightarrow> nat \<Rightarrow> nat result" where
  "verdict good i = (if good then Inr i else Inl (json_error ''object contains duplicate keys''))"

definition scans :: "(u8 list \<Rightarrow> string option) \<Rightarrow> u8 list \<Rightarrow> scan_call \<Rightarrow> nat result \<Rightarrow> bool" where
  "scans unstr bs c r \<longleftrightarrow> (\<exists>n. scan unstr bs n c = Some r)"

text \<open>A value between other bytes, of which the next one can follow a value.\<close>

definition scanned_as :: "(u8 list \<Rightarrow> string option) \<Rightarrow> u8 list \<Rightarrow> bool \<Rightarrow> bool" where
  "scanned_as unstr tx good \<longleftrightarrow>
     (\<forall>pre rest. rest = [] \<or> ends_number (hd rest) \<longrightarrow>
        scans unstr (pre @ tx @ rest) (SC_Value (length pre)) (verdict good (length pre + length tx)))"

lemma scanned_asD:
  "scanned_as unstr tx good \<Longrightarrow> ends_number b \<Longrightarrow>
     scans unstr (pre @ tx @ b # rest) (SC_Value (length pre)) (verdict good (length pre + length tx))"
  by (simp add: scanned_as_def)

lemma scans_join:
  assumes "scans unstr bs c r" and "scans unstr bs d q"
  obtains n where "scan unstr bs n c = Some r" "scan unstr bs n d = Some q"
proof -
  from assms obtain n m where "scan unstr bs n c = Some r" "scan unstr bs m d = Some q" by (auto simp: scans_def)
  then show thesis using that [of "max n m"] scan_mono [of n "max n m"] scan_mono [of m "max n m"] by simp
qed

lemma separator: "\<not> is_space 44" "\<not> is_space 93" "\<not> is_space 125" "\<not> is_space 58" "\<not> is_space 34"
  by (simp_all add: is_space_def)

lemma at_after: "peek (pre @ tx @ b # rest) (length pre + length tx) = Some b"
  by (simp add: peek_def nth_append)

lemma scan_elements:
  assumes "js \<noteq> []" and "\<forall>(tx, good)\<in>set js. scanned_as unstr tx good"
  shows "scans unstr (pre @ commas (map fst js) @ 93 # rest) (SC_Elements (length pre))
    (verdict (list_all snd js) (length pre + length (commas (map fst js)) + 1))"
  using assms
proof (induction js arbitrary: pre rule: list_nonempty_induct)
  case (single x)
  obtain tx good where x: "x = (tx, good)" by (cases x)
  let ?bs = "pre @ tx @ 93 # rest"
  have "scans unstr ?bs (SC_Value (length pre)) (verdict good (length pre + length tx))"
    using single x by (auto simp: scanned_as_def ends_number_def)
  then obtain n where n: "scan unstr ?bs n (SC_Value (length pre)) = Some (verdict good (length pre + length tx))" by (auto simp: scans_def)
  have pk: "peek ?bs (length pre + length tx) = Some 93" by (rule at_after)
  have "scan unstr ?bs (Suc n) (SC_Elements (length pre)) = Some (verdict good (length pre + length tx + 1))"
    using n pk skip_at [OF pk separator(2)] by (simp add: array_loop_def verdict_def)
  then show ?case using x unfolding scans_def by (intro exI [of _ "Suc n"]) simp
next
  case (cons x xs)
  obtain tx good where x: "x = (tx, good)" by (cases x)
  obtain y ys where xs: "xs = y # ys" using cons.hyps by (cases xs) auto
  let ?more = "commas (map fst xs)"
  let ?bs = "pre @ tx @ 44 # ?more @ 93 # rest"
  have "scans unstr (pre @ tx @ (44 # ?more @ 93 # rest)) (SC_Value (length pre)) (verdict good (length pre + length tx))"
    using cons.prems x unfolding scanned_as_def by (auto simp: ends_number_def)
  moreover have "scans unstr ((pre @ tx @ [44]) @ ?more @ 93 # rest) (SC_Elements (length (pre @ tx @ [44])))
      (verdict (list_all snd xs) (length (pre @ tx @ [44]) + length ?more + 1))"
    by (rule cons.IH) (use cons.prems in simp)
  ultimately obtain n where n: "scan unstr ?bs n (SC_Value (length pre)) = Some (verdict good (length pre + length tx))"
    "scan unstr ?bs n (SC_Elements (length (pre @ tx @ [44]))) =
       Some (verdict (list_all snd xs) (length (pre @ tx @ [44]) + length ?more + 1))"
    by (elim scans_join [where bs = ?bs]) simp_all
  have pk: "peek ?bs (length pre + length tx) = Some 44" by (rule at_after)
  have "scan unstr ?bs (Suc n) (SC_Elements (length pre)) =
      Some (verdict (good \<and> list_all snd xs) (length (pre @ tx @ [44]) + length ?more + 1))"
    using n pk skip_at [OF pk separator(1)] by (simp add: array_loop_def verdict_def)
  then show ?case using x xs unfolding scans_def by (intro exI [of _ "Suc n"]) (simp add: add.assoc)
qed

text \<open>The members of an object: key, value text, and whether the value is good.\<close>

definition member_text :: "(string \<Rightarrow> u8 list) \<Rightarrow> string \<times> u8 list \<times> bool \<Rightarrow> u8 list" where
  "member_text quote m = quote (fst m) @ 58 # fst (snd m)"

definition members_good :: "string list \<Rightarrow> (string \<times> u8 list \<times> bool) list \<Rightarrow> bool" where
  "members_good keys ms \<longleftrightarrow> distinct (map fst ms) \<and> set (map fst ms) \<inter> set keys = {} \<and> list_all (\<lambda>m. snd (snd m)) ms"

lemma scan_member:
  assumes syn: "text_syntax unstr quote num" and v: "scanned_as unstr tx good" and sep: "b = 44 \<or> b = 125"
  obtains n where "\<And>m keys. n \<le> m \<Longrightarrow>
    scan unstr (pre @ (quote k @ 58 # tx) @ b # rest) (Suc m) (SC_Members keys (length pre)) =
      (if k \<notin> set keys \<and> good then
         (if b = 44 then scan unstr (pre @ (quote k @ 58 # tx) @ b # rest) m (SC_Members (k # keys) (length (pre @ (quote k @ 58 # tx) @ [b])))
          else Some (Inr (length (pre @ (quote k @ 58 # tx) @ [b]))))
       else Some (verdict False 0))"
proof -
  let ?bs = "pre @ (quote k @ 58 # tx) @ b # rest"
  have "\<exists>bs. quote k = 34 # bs" using syn unfolding text_syntax_def by meson
  then obtain q where q: "quote k = 34 # q" ..
  have sp: "skip_whitespace ?bs (length pre) = length pre" by (rule skip_at [where b = 34]) (simp_all add: q is_space_def)
  have str: "parse_string unstr ?bs (length pre) = Inr (k, length pre + length (quote k))"
    using parse_quoted [OF syn, of pre k "58 # tx @ b # rest"] by simp
  have c: "peek ?bs (length pre + length (quote k)) = Some 58" using at_after [of pre "quote k" 58 "tx @ b # rest"] by simp
  have "scans unstr ((pre @ quote k @ [58]) @ tx @ b # rest) (SC_Value (length (pre @ quote k @ [58])))
      (verdict good (length (pre @ quote k @ [58]) + length tx))"
    by (rule scanned_asD [OF v]) (use sep in \<open>auto simp: ends_number_def\<close>)
  then obtain n where n: "scan unstr ?bs n (SC_Value (Suc (length pre + length (quote k)))) =
      Some (verdict good (Suc (length pre + length (quote k) + length tx)))"
    by (auto simp: scans_def add.assoc)
  have e: "peek ?bs (Suc (length pre + length (quote k) + length tx)) = Some b"
    using at_after [of pre "quote k @ 58 # tx" b rest] by (simp add: add.assoc)
  have skips: "skip_whitespace ?bs (length pre + length (quote k)) = length pre + length (quote k)"
    "skip_whitespace ?bs (Suc (length pre + length (quote k) + length tx)) = Suc (length pre + length (quote k) + length tx)"
    using skip_at [OF c] skip_at [OF e] sep by (auto simp: is_space_def)
  show thesis
  proof (rule that)
    fix m keys assume "n \<le> m"
    from scan_mono [OF this n]
    have "scan unstr ?bs m (SC_Value (Suc (length pre + length (quote k)))) =
      Some (verdict good (Suc (length pre + length (quote k) + length tx)))" .
    then show "scan unstr ?bs (Suc m) (SC_Members keys (length pre)) =
      (if k \<notin> set keys \<and> good then
         (if b = 44 then scan unstr ?bs m (SC_Members (k # keys) (length (pre @ (quote k @ 58 # tx) @ [b])))
          else Some (Inr (length (pre @ (quote k @ 58 # tx) @ [b]))))
       else Some (verdict False 0))"
      using sp str c e skips sep by (auto simp: object_loop_def verdict_def Let_def add.assoc)
  qed
qed

lemma scan_members:
  assumes syn: "text_syntax unstr quote num" and "ms \<noteq> []" and "\<forall>m\<in>set ms. scanned_as unstr (fst (snd m)) (snd (snd m))"
  shows "scans unstr (pre @ commas (map (member_text quote) ms) @ 125 # rest) (SC_Members keys (length pre))
    (verdict (members_good keys ms) (length pre + length (commas (map (member_text quote) ms)) + 1))"
  using assms(2,3)
proof (induction ms arbitrary: pre keys rule: list_nonempty_induct)
  case (single m)
  obtain k tx good where m: "m = (k, tx, good)" by (cases m)
  have v: "scanned_as unstr tx good" using single m by simp
  obtain n where n: "\<And>N keys. n \<le> N \<Longrightarrow> scan unstr (pre @ (quote k @ 58 # tx) @ 125 # rest) (Suc N) (SC_Members keys (length pre)) =
      (if k \<notin> set keys \<and> good then
         (if (125::u8) = 44 then scan unstr (pre @ (quote k @ 58 # tx) @ 125 # rest) N (SC_Members (k # keys) (length (pre @ (quote k @ 58 # tx) @ [125])))
          else Some (Inr (length (pre @ (quote k @ 58 # tx) @ [125]))))
       else Some (verdict False 0))"
    by (rule scan_member [OF syn v, where b = 125 and pre = pre and rest = rest and k = k]) (simp, blast)
  show ?case unfolding scans_def using n [of n keys] m
    by (intro exI [of _ "Suc n"]) (auto simp: member_text_def members_good_def verdict_def simp del: scan.simps)
next
  case (cons m ms)
  obtain k tx good where m: "m = (k, tx, good)" by (cases m)
  obtain y ys where ms: "ms = y # ys" using cons.hyps by (cases ms) auto
  have v: "scanned_as unstr tx good" using cons.prems m by simp
  let ?more = "commas (map (member_text quote) ms)"
  let ?pre = "pre @ (quote k @ 58 # tx) @ [44]" and ?bs = "pre @ (quote k @ 58 # tx) @ 44 # ?more @ 125 # rest"
  obtain n where n: "\<And>N keys. n \<le> N \<Longrightarrow> scan unstr ?bs (Suc N) (SC_Members keys (length pre)) =
      (if k \<notin> set keys \<and> good then
         (if (44::u8) = 44 then scan unstr ?bs N (SC_Members (k # keys) (length ?pre)) else Some (Inr (length ?pre)))
       else Some (verdict False 0))"
    by (rule scan_member [OF syn v, where b = 44 and pre = pre and rest = "?more @ 125 # rest" and k = k]) (simp, blast)
  have "scans unstr (?pre @ ?more @ 125 # rest) (SC_Members (k # keys) (length ?pre))
      (verdict (members_good (k # keys) ms) (length ?pre + length ?more + 1))"
    by (rule cons.IH) (use cons.prems in simp)
  then obtain n' where n': "scan unstr ?bs n' (SC_Members (k # keys) (length ?pre)) =
      Some (verdict (members_good (k # keys) ms) (length ?pre + length ?more + 1))" by (auto simp: scans_def simp del: scan.simps)
  have good: "members_good keys (m # ms) \<longleftrightarrow> k \<notin> set keys \<and> good \<and> members_good (k # keys) ms" using m by (auto simp: members_good_def)
  have "scan unstr ?bs (Suc (max n n')) (SC_Members keys (length pre)) =
      Some (verdict (members_good keys (m # ms)) (length ?pre + length ?more + 1))"
    unfolding n [OF max.cobounded1] good using scan_mono [OF max.cobounded2 n', of n] by (auto simp: verdict_def)
  then show ?case unfolding scans_def using m ms by (intro exI [of _ "Suc (max n n')"]) (simp add: member_text_def add.assoc del: scan.simps)
qed

lemma scan_wrapped:
  assumes "peek bs i = Some b" and "\<not> is_space b"
  shows "scan unstr bs (Suc (Suc n)) (SC_Value i) =
    (if b = 123 then parse_object (scan unstr bs n) bs i else if b = 91 then parse_array (scan unstr bs n) bs i
     else parse_value unstr (\<lambda>_. None) bs i)"
  using assms skip_at [OF assms] by (simp add: parse_value_def)

lemma scanned_asI:
  assumes "\<And>pre rest. rest = [] \<or> ends_number (hd rest) \<Longrightarrow>
    scan unstr (pre @ tx @ rest) 1 (SC_Value (length pre)) = Some (Inr (length pre + length tx))"
  shows "scanned_as unstr tx True"
  unfolding scanned_as_def scans_def verdict_def using assms by (metis (full_types))

lemma literal_scanned:
  assumes "lit \<in> {[110, 117, 108, 108], [116, 114, 117, 101], [102, 97, 108, 115, 101]}"
  shows "scanned_as unstr lit True"
proof -
  have "scan unstr (pre @ lit @ rest) 1 (SC_Value (length pre)) = Some (Inr (length pre + length lit))" for pre rest
  proof -
    have "peek (pre @ lit @ rest) (length pre) = Some (hd lit)" "\<not> is_space (hd lit)" using assms(1) by (auto simp: is_space_def)
    then show ?thesis using assms(1) skip_at [of "pre @ lit @ rest" "length pre" "hd lit"] by (auto simp: parse_value_def parse_literal_def)
  qed
  then show ?thesis by (intro scanned_asI)
qed

lemma number_scanned:
  assumes "text_syntax unstr quote num"
  shows "scanned_as unstr (num j) True"
proof -
  have "scan unstr (pre @ num j @ rest) 1 (SC_Value (length pre)) = Some (Inr (length pre + length (num j)))"
    if r: "rest = [] \<or> ends_number (hd rest)" for pre rest
  proof -
    obtain b bs where n: "num j = b # bs" "b = 45 \<or> 48 \<le> b \<and> b \<le> 57" "\<not> ends_number b"
      using assms unfolding text_syntax_def by (metis list.set_intros(1))
    have "peek (pre @ num j @ rest) (length pre) = Some b" "\<not> is_space b" using n by (auto simp: ends_number_def)
    moreover have "b \<noteq> 123" "b \<noteq> 91" "b \<noteq> 34" "b \<noteq> 116" "b \<noteq> 102" "b \<noteq> 110" using n(2) by (auto simp: word_le_nat_alt)
    ultimately show ?thesis
      using n(2) parse_printed_number [OF assms r, of pre j] skip_at [of "pre @ num j @ rest" "length pre" b] by (simp add: parse_value_def)
  qed
  then show ?thesis by (intro scanned_asI)
qed

lemma render_scanned:
  assumes syn: "text_syntax unstr quote num"
  shows "scanned_as unstr (render quote num j) (unique_keys j)"
proof (induction j)
  case (JArr js)
  show ?case
  proof (unfold scanned_as_def, intro allI impI)
    fix pre rest :: "u8 list"
    let ?xs = "map (\<lambda>j. (render quote num j, unique_keys j)) js" and ?c = "commas (map (render quote num) js)"
    let ?bs = "pre @ 91 # ?c @ 93 # rest"
    have f: "map fst ?xs = map (render quote num) js" "list_all snd ?xs = unique_keys (JArr js)" by (simp_all add: o_def list_all_iff)
    have h: "peek ?bs (length pre) = Some 91" "\<not> is_space 91" by (simp_all add: is_space_def)
    note w = scan_wrapped [OF h, of unstr]
    show "scans unstr (pre @ render quote num (JArr js) @ rest) (SC_Value (length pre))
        (verdict (unique_keys (JArr js)) (length pre + length (render quote num (JArr js))))"
    proof (cases js)
      case Nil
      have "peek (pre @ 91 # 93 # rest) (Suc (length pre)) = Some 93" by (simp add: peek_def nth_append)
      then show ?thesis using w [of 0] Nil skip_at [of "pre @ 91 # 93 # rest" "Suc (length pre)" 93] separator(2)
        by (simp add: scans_def parse_array_def verdict_def del: scan.simps) blast
    next
      case (Cons j' js')
      have "scans unstr ((pre @ [91]) @ commas (map fst ?xs) @ 93 # rest) (SC_Elements (length (pre @ [91])))
          (verdict (list_all snd ?xs) (length (pre @ [91]) + length (commas (map fst ?xs)) + 1))"
        by (rule scan_elements) (use Cons JArr.IH in auto)
      then obtain n where n: "scan unstr ?bs n (SC_Elements (Suc (length pre))) =
          Some (verdict (unique_keys (JArr js)) (length pre + length ?c + 2))"
        unfolding f scans_def by auto
      obtain b bs where b: "render quote num j' = b # bs" "\<not> is_space b" "b \<noteq> 93" by (rule render_first [OF syn, of j'])
      obtain t where "?c = b # t" using b(1) Cons by (cases js') auto
      then have pk: "peek ?bs (Suc (length pre)) = Some b" by (simp add: peek_def nth_append)
      have "scan unstr ?bs (Suc (Suc n)) (SC_Value (length pre)) = Some (verdict (unique_keys (JArr js)) (length pre + length ?c + 2))"
        using w [of n] n pk b(3) skip_at [OF pk b(2)] by (simp add: parse_array_def)
      then show ?thesis unfolding scans_def by (intro exI [of _ "Suc (Suc n)"]) (simp del: scan.simps)
    qed
  qed
next
  case (JObj kvs)
  show ?case
  proof (unfold scanned_as_def, intro allI impI)
    fix pre rest :: "u8 list"
    let ?ms = "map (\<lambda>(k, v). (k, render quote num v, unique_keys v)) kvs"
    let ?c = "commas (map (\<lambda>(k, v). quote k @ 58 # render quote num v) kvs)"
    let ?bs = "pre @ 123 # ?c @ 125 # rest"
    have f: "map (member_text quote) ?ms = map (\<lambda>(k, v). quote k @ 58 # render quote num v) kvs"
      "members_good [] ?ms = unique_keys (JObj kvs)"
      by (auto simp: member_text_def members_good_def list_all_iff o_def case_prod_unfold)
    have ih: "scanned_as unstr (render quote num (snd kv)) (unique_keys (snd kv))" if "kv \<in> set kvs" for kv
      using JObj.IH [of kv "snd kv"] that by (cases kv) simp
    have h: "peek ?bs (length pre) = Some 123" "\<not> is_space 123" by (simp_all add: is_space_def)
    note w = scan_wrapped [OF h, of unstr]
    show "scans unstr (pre @ render quote num (JObj kvs) @ rest) (SC_Value (length pre))
        (verdict (unique_keys (JObj kvs)) (length pre + length (render quote num (JObj kvs))))"
    proof (cases kvs)
      case Nil
      have "peek (pre @ 123 # 125 # rest) (Suc (length pre)) = Some 125" by (simp add: peek_def nth_append)
      then show ?thesis using w [of 0] Nil skip_at [of "pre @ 123 # 125 # rest" "Suc (length pre)" 125] separator(3)
        by (simp add: scans_def parse_object_def verdict_def del: scan.simps) blast
    next
      case (Cons kv kvs')
      have "scans unstr ((pre @ [123]) @ commas (map (member_text quote) ?ms) @ 125 # rest) (SC_Members [] (length (pre @ [123])))
          (verdict (members_good [] ?ms) (length (pre @ [123]) + length (commas (map (member_text quote) ?ms)) + 1))"
        by (rule scan_members [OF syn]) (use Cons ih in \<open>auto simp: case_prod_unfold\<close>)
      then obtain n where n: "scan unstr ?bs n (SC_Members [] (Suc (length pre))) =
          Some (verdict (unique_keys (JObj kvs)) (length pre + length ?c + 2))"
        unfolding f scans_def by auto
      have "\<exists>q. quote (fst kv) = 34 # q" using syn unfolding text_syntax_def by meson
      then obtain t where "?c = 34 # t" using Cons by (cases kvs') (auto simp: case_prod_unfold)
      then have pk: "peek ?bs (Suc (length pre)) = Some 34" by (simp add: peek_def nth_append)
      have "scan unstr ?bs (Suc (Suc n)) (SC_Value (length pre)) = Some (verdict (unique_keys (JObj kvs)) (length pre + length ?c + 2))"
        using w [of n] n pk skip_at [OF pk separator(5)] by (simp add: parse_object_def)
      then show ?thesis unfolding scans_def by (intro exI [of _ "Suc (Suc n)"]) (simp del: scan.simps)
    qed
  qed
next
  case (JStr s)
  have "\<exists>q. quote s = 34 # q" using syn unfolding text_syntax_def by meson
  then obtain q where q: "quote s = 34 # q" ..
  have "scan unstr (pre @ quote s @ rest) 1 (SC_Value (length pre)) = Some (Inr (length pre + length (quote s)))" for pre rest
    using parse_quoted [OF syn, of pre s rest] skip_at [of "pre @ quote s @ rest" "length pre" 34] separator(5) q
    by (simp add: parse_value_def)
  then show ?case by (simp only: render.simps unique_keys.simps) (intro scanned_asI)
next
  case JNull
  show ?case using literal_scanned [of "[110, 117, 108, 108]" unstr] by (simp add: is_space_def)
next
  case (JBool b)
  show ?case using literal_scanned [of "[116, 114, 117, 101]" unstr] literal_scanned [of "[102, 97, 108, 115, 101]" unstr]
    by (cases b) (simp_all add: is_space_def)
qed (use number_scanned [OF syn] in simp_all)

text \<open>
  C32.  The scanner decides duplicate keys.  On the bytes of any printed JSON value it answers \<open>Ok\<close> exactly when no object in the value, at any depth, has
  two members with the same key, and the duplicate-key error otherwise.
\<close>

theorem scanner_exact:
  assumes "text_syntax unstr quote num" and "scan_fuel (render quote num j) \<le> n"
  shows "reject_duplicate_json_keys unstr n (render quote num j) =
    Some (if unique_keys j then Inr () else Inl (json_error ''object contains duplicate keys''))"
proof -
  let ?bs = "render quote num j"
  have "scans unstr ?bs (SC_Value 0) (verdict (unique_keys j) (length ?bs))"
    using render_scanned [OF assms(1), of j, unfolded scanned_as_def, rule_format, of "[]" "[]"] by simp
  then obtain m where m: "scan unstr ?bs m (SC_Value 0) = Some (verdict (unique_keys j) (length ?bs))" by (auto simp: scans_def)
  have "answers 0 (scan unstr ?bs n (SC_Value 0))" using scan_answers [of ?bs n unstr] assms(2) by (simp add: scan_fuel_def)
  then obtain a where a: "scan unstr ?bs n (SC_Value 0) = Some a" by (cases rule: answersE) blast+
  from scan_mono [OF max.cobounded1 a, of m] scan_mono [OF max.cobounded2 m, of n]
  have "a = verdict (unique_keys j) (length ?bs)" by simp
  moreover have "skip_whitespace ?bs (length ?bs) = length ?bs" unfolding skip_whitespace_def by (subst skip_while.simps) simp
  ultimately show ?thesis using a by (simp add: reject_duplicate_json_keys_def verdict_def)
qed

definition demo_quote :: "string \<Rightarrow> u8 list" where
  "demo_quote s = 34 # replicate (to_nat s) 97 @ [34]"

definition demo_unquote :: "u8 list \<Rightarrow> string option" where
  "demo_unquote bs = Some (from_nat (length bs - 2))"

lemma demo_text_syntax: "text_syntax demo_unquote demo_quote (\<lambda>_. [48])"
proof -
  have "escaped (replicate n 97)" for n by (induction n) simp_all
  then show ?thesis by (auto simp: text_syntax_def demo_unquote_def demo_quote_def ends_number_def is_space_def)
qed

theorem scanner_exact_witness:
  "\<exists>n. reject_duplicate_json_keys demo_unquote n (render demo_quote (\<lambda>_. [48]) (JArr [JObj [(''a'', JInt 1), (''a'', JInt 2)]])) =
     Some (Inl (json_error ''object contains duplicate keys''))"
proof -
  let ?j = "JArr [JObj [(''a'', JInt 1), (''a'', JInt 2)]]"
  have "\<not> unique_keys ?j" by simp
  from scanner_exact [OF demo_text_syntax order_refl, of ?j, unfolded if_not_P [OF this]]
  show ?thesis by (rule exI [of _ "scan_fuel (render demo_quote (\<lambda>_. [48]) ?j)"])
qed

end
