(* ===== verification/Settlement.thy ===== *)
theory Settlement
  imports Market Evidence Artifacts Sealed Json_Scanner
begin

text \<open>
  The first half of src/crypto_adapters.rs: settlement intents that are derived from a market proposal with accepted evidence and a valid artifact, and the
  dry-run receipts and wire envelopes an adapter prepares for them.  Nothing here signs, sends or moves value.
\<close>

definition FORMAT_VERSION :: u8 where
  "FORMAT_VERSION = 1"

definition DRY_RUN_ACTION :: string where
  "DRY_RUN_ACTION = ''prepare-only-v1''"

definition CLAIM_CEILING :: string where
  "CLAIM_CEILING = ''local Rust pure-data control and caller-owned persistence evidence only''"

definition adapter_text :: "string \<Rightarrow> bool" where
  "adapter_text value \<longleftrightarrow> value \<noteq> [] \<and> \<not> has_control value"

section \<open>Chain identities and requests\<close>

datatype adapter_kind = AK_HyperliquidDryRun | AK_EvmEscrowDryRun | AK_TempoDryRun

fun adapter_kind_name :: "adapter_kind \<Rightarrow> string" where
  "adapter_kind_name AK_HyperliquidDryRun = ''HyperliquidDryRun''"
| "adapter_kind_name AK_EvmEscrowDryRun = ''EvmEscrowDryRun''"
| "adapter_kind_name AK_TempoDryRun = ''TempoDryRun''"

lemma adapter_kind_name_inject [simp]: "adapter_kind_name a = adapter_kind_name b \<longleftrightarrow> a = b"
  by (cases a; cases b) simp_all

record chain_identity =
  ci_schema_version :: u8
  ci_state_slice :: string
  ci_adapter :: adapter_kind
  ci_adapter_revision :: string
  ci_chain_id :: u64
  ci_contract_address :: string
  ci_asset :: string

definition chain_validate :: "chain_identity \<Rightarrow> unit result" where
  "chain_validate c =
     (if ci_schema_version c \<noteq> FORMAT_VERSION \<or> ci_state_slice c \<noteq> STATE_SLICE \<or> \<not> adapter_text (ci_adapter_revision c) \<or>
         ci_chain_id c = 0 \<or> \<not> adapter_text (ci_contract_address c) \<or> \<not> adapter_text (ci_asset c)
      then Inl (Err_Invalid ''crypto adapter chain identity is incomplete'') else Inr ())"

record settlement_request =
  sq_intent_id :: string
  sq_payment_id :: string
  sq_beneficiary :: string
  sq_specification_digest :: string
  sq_policy_digest :: string
  sq_created_at :: u64
  sq_expires_at :: u64

definition settlement_request_validate :: "settlement_request \<Rightarrow> unit result" where
  "settlement_request_validate q =
     (if \<not> adapter_text (sq_intent_id q) \<or> \<not> adapter_text (sq_payment_id q) \<or> \<not> adapter_text (sq_beneficiary q) \<or>
         \<not> valid_digest (sq_specification_digest q) \<or> \<not> valid_digest (sq_policy_digest q) \<or> sq_expires_at q \<le> sq_created_at q
      then Inl (Err_Invalid ''crypto settlement request is incomplete'') else Inr ())"

section \<open>Accepted evidence\<close>

record accepted_evidence =
  xe_schema_version :: u8
  xe_state_slice :: string
  xe_evidence_id :: string
  xe_artifact_id :: string
  xe_receipt_digest :: string
  xe_evidence_record_digest :: string
  xe_artifact_manifest_digest :: string
  xe_checked_at :: u64
  xe_eligibility_digest :: string

definition json_accepted_evidence :: "accepted_evidence \<Rightarrow> json" where
  "json_accepted_evidence e = JObj
    [(''schema_version'', json_word (xe_schema_version e)), (''state_slice'', JStr (xe_state_slice e)),
     (''evidence_id'', JStr (xe_evidence_id e)), (''artifact_id'', JStr (xe_artifact_id e)),
     (''receipt_digest'', JStr (xe_receipt_digest e)), (''evidence_record_digest'', JStr (xe_evidence_record_digest e)),
     (''artifact_manifest_digest'', JStr (xe_artifact_manifest_digest e)), (''checked_at'', json_word (xe_checked_at e)),
     (''eligibility_digest'', JStr (xe_eligibility_digest e))]"

definition evidence_computed_digest :: "crypto \<Rightarrow> accepted_evidence \<Rightarrow> string" where
  "evidence_computed_digest env e = digest env (json_accepted_evidence (e\<lparr>xe_eligibility_digest := ''''\<rparr>))"

definition accepted_validate ::
  "crypto \<Rightarrow> accepted_evidence \<Rightarrow> settlement_proposal \<Rightarrow> sum_job \<Rightarrow> sum_receipt \<Rightarrow> evidence_registry \<Rightarrow> artifact_registry \<Rightarrow> unit result" where
  "accepted_validate env e s j r ev ar =
     try_r (settlement_validate env s j r) (\<lambda>_.
     try_r (sum_receipt_validate env r j (xe_checked_at e)) (\<lambda>_.
     if \<not> adapter_text (xe_evidence_id e) \<or> \<not> adapter_text (xe_artifact_id e) \<or> xe_schema_version e \<noteq> FORMAT_VERSION \<or>
        xe_state_slice e \<noteq> STATE_SLICE \<or> xe_receipt_digest e \<noteq> digest env (json_sum_receipt r) \<or>
        \<not> valid_digest (xe_evidence_record_digest e) \<or> \<not> valid_digest (xe_artifact_manifest_digest e) \<or>
        xe_checked_at e < sr_completed_at r \<or> \<not> valid_digest (xe_eligibility_digest e) \<or>
        xe_eligibility_digest e \<noteq> evidence_computed_digest env e \<or>
        \<not> registry_is_valid ev (xe_evidence_id e) (xe_checked_at e) (xe_receipt_digest e)
     then Inl (Err_Rejected ''accepted settlement evidence binding is invalid'')
     else try_r (record_digest env ev (xe_evidence_id e)) (\<lambda>rd.
       try_r (require_valid ar (xe_artifact_id e) rd (xe_checked_at e)) (\<lambda>artifact.
       try_r (if rd \<noteq> xe_evidence_record_digest e then Inr True
              else try_r (manifest_digest env (ar_manifest artifact)) (\<lambda>md. Inr (md \<noteq> xe_artifact_manifest_digest e))) (\<lambda>mismatch.
       if mismatch then Inl (Err_Rejected ''accepted settlement artifact binding is invalid'') else Inr ())))))"

definition accepted_from_registries ::
  "crypto \<Rightarrow> settlement_proposal \<Rightarrow> sum_job \<Rightarrow> sum_receipt \<Rightarrow> evidence_registry \<Rightarrow> string \<Rightarrow> artifact_registry \<Rightarrow> string \<Rightarrow> u64 \<Rightarrow>
   accepted_evidence result" where
  "accepted_from_registries env s j r ev eid ar aid checked_at =
     try_r (settlement_validate env s j r) (\<lambda>_.
     try_r (sum_receipt_validate env r j checked_at) (\<lambda>_.
     let receipt = digest env (json_sum_receipt r) in
     if \<not> registry_is_valid ev eid checked_at receipt
     then Inl (Err_Rejected ''accepted settlement evidence is absent, stale, revoked, or receipt-mismatched'')
     else try_r (record_digest env ev eid) (\<lambda>rd.
       try_r (require_valid ar aid rd checked_at) (\<lambda>artifact.
       try_r (manifest_digest env (ar_manifest artifact)) (\<lambda>md.
       let b = \<lparr>xe_schema_version = FORMAT_VERSION, xe_state_slice = STATE_SLICE, xe_evidence_id = eid, xe_artifact_id = aid,
                xe_receipt_digest = receipt, xe_evidence_record_digest = rd, xe_artifact_manifest_digest = md,
                xe_checked_at = checked_at, xe_eligibility_digest = ''''\<rparr>;
           b' = b\<lparr>xe_eligibility_digest := evidence_computed_digest env b\<rparr>
       in try_r (accepted_validate env b' s j r ev ar) (\<lambda>_. Inr b'))))))"

definition accepted_validate_shape :: "accepted_evidence \<Rightarrow> unit result" where
  "accepted_validate_shape e =
     (if xe_schema_version e \<noteq> FORMAT_VERSION \<or> xe_state_slice e \<noteq> STATE_SLICE \<or> \<not> adapter_text (xe_evidence_id e) \<or>
         \<not> adapter_text (xe_artifact_id e) \<or> \<not> valid_digest (xe_receipt_digest e) \<or> \<not> valid_digest (xe_evidence_record_digest e) \<or>
         \<not> valid_digest (xe_artifact_manifest_digest e) \<or> \<not> valid_digest (xe_eligibility_digest e)
      then Inl (Err_Invalid ''accepted settlement evidence shape is malformed'') else Inr ())"

definition accepted_digest :: "crypto \<Rightarrow> accepted_evidence \<Rightarrow> string result" where
  "accepted_digest env e = try_r (accepted_validate_shape e) (\<lambda>_. Inr (digest env (json_accepted_evidence e)))"

section \<open>Intents\<close>

datatype intent_status = IS_Proposed

record settlement_intent =
  it_schema_version :: u8
  it_state_slice :: string
  it_intent_id :: string
  it_adapter :: adapter_kind
  it_adapter_revision :: string
  it_job_digest :: string
  it_specification_digest :: string
  it_artifact_digest :: string
  it_evidence_digest :: string
  it_eligibility_digest :: string
  it_receipt_digest :: string
  it_policy_digest :: string
  it_chain_id :: u64
  it_contract_address :: string
  it_payment_id :: string
  it_beneficiary :: string
  it_amount :: u64
  it_asset :: string
  it_created_at :: u64
  it_expires_at :: u64
  it_status :: intent_status

definition json_intent :: "settlement_intent \<Rightarrow> json" where
  "json_intent t = JObj
    [(''schema_version'', json_word (it_schema_version t)), (''state_slice'', JStr (it_state_slice t)), (''intent_id'', JStr (it_intent_id t)),
     (''adapter'', JStr (adapter_kind_name (it_adapter t))), (''adapter_revision'', JStr (it_adapter_revision t)),
     (''job_digest'', JStr (it_job_digest t)), (''specification_digest'', JStr (it_specification_digest t)),
     (''artifact_digest'', JStr (it_artifact_digest t)), (''evidence_digest'', JStr (it_evidence_digest t)),
     (''eligibility_digest'', JStr (it_eligibility_digest t)), (''receipt_digest'', JStr (it_receipt_digest t)),
     (''policy_digest'', JStr (it_policy_digest t)), (''chain_id'', json_word (it_chain_id t)),
     (''contract_address'', JStr (it_contract_address t)), (''payment_id'', JStr (it_payment_id t)),
     (''beneficiary'', JStr (it_beneficiary t)), (''amount'', json_word (it_amount t)), (''asset'', JStr (it_asset t)),
     (''created_at'', json_word (it_created_at t)), (''expires_at'', json_word (it_expires_at t)), (''status'', JStr ''Proposed'')]"

definition intent_validate :: "settlement_intent \<Rightarrow> unit result" where
  "intent_validate t =
     (if it_schema_version t \<noteq> FORMAT_VERSION \<or> it_state_slice t \<noteq> STATE_SLICE \<or> \<not> adapter_text (it_intent_id t) \<or>
         \<not> adapter_text (it_adapter_revision t) \<or> \<not> valid_digest (it_job_digest t) \<or> \<not> valid_digest (it_specification_digest t) \<or>
         \<not> valid_digest (it_artifact_digest t) \<or> \<not> valid_digest (it_evidence_digest t) \<or> \<not> valid_digest (it_eligibility_digest t) \<or>
         \<not> valid_digest (it_receipt_digest t) \<or> \<not> valid_digest (it_policy_digest t) \<or> it_chain_id t = 0 \<or>
         \<not> adapter_text (it_contract_address t) \<or> \<not> adapter_text (it_payment_id t) \<or> \<not> adapter_text (it_beneficiary t) \<or>
         it_amount t \<noteq> 0 \<or> \<not> adapter_text (it_asset t) \<or> it_expires_at t \<le> it_created_at t \<or> it_status t \<noteq> IS_Proposed
      then Inl (Err_Invalid ''crypto settlement intent violates the zero-value boundary'') else Inr ())"

definition intent_digest :: "crypto \<Rightarrow> settlement_intent \<Rightarrow> string result" where
  "intent_digest env t = try_r (intent_validate t) (\<lambda>_. Inr (digest env (json_intent t)))"

definition intent_chain :: "settlement_intent \<Rightarrow> chain_identity" where
  "intent_chain t = \<lparr>ci_schema_version = FORMAT_VERSION, ci_state_slice = STATE_SLICE, ci_adapter = it_adapter t,
     ci_adapter_revision = it_adapter_revision t, ci_chain_id = it_chain_id t, ci_contract_address = it_contract_address t,
     ci_asset = it_asset t\<rparr>"

definition intent_from_market ::
  "crypto \<Rightarrow> settlement_proposal \<Rightarrow> sum_job \<Rightarrow> sum_receipt \<Rightarrow> chain_identity \<Rightarrow> evidence_registry \<Rightarrow> string \<Rightarrow> artifact_registry \<Rightarrow> string \<Rightarrow>
   settlement_request \<Rightarrow> settlement_intent result" where
  "intent_from_market env s j r chain ev eid ar aid q =
     try_r (settlement_validate env s j r) (\<lambda>_.
     try_r (chain_validate chain) (\<lambda>_.
     try_r (settlement_request_validate q) (\<lambda>_.
     try_r (accepted_from_registries env s j r ev eid ar aid (sq_created_at q)) (\<lambda>acc.
     if sq_beneficiary q \<noteq> sp_provider s \<or> sq_created_at q < sr_completed_at r \<or> sj_deadline j < sq_expires_at q
     then Inl (Err_Rejected ''crypto intent does not bind the market proposal'')
     else try_r (job_digest env j) (\<lambda>jd.
       let t = \<lparr>it_schema_version = FORMAT_VERSION, it_state_slice = STATE_SLICE, it_intent_id = sq_intent_id q,
                it_adapter = ci_adapter chain, it_adapter_revision = ci_adapter_revision chain, it_job_digest = jd,
                it_specification_digest = sq_specification_digest q, it_artifact_digest = xe_artifact_manifest_digest acc,
                it_evidence_digest = xe_evidence_record_digest acc, it_eligibility_digest = xe_eligibility_digest acc,
                it_receipt_digest = sp_receipt_digest s, it_policy_digest = sq_policy_digest q, it_chain_id = ci_chain_id chain,
                it_contract_address = ci_contract_address chain, it_payment_id = sq_payment_id q, it_beneficiary = sq_beneficiary q,
                it_amount = 0, it_asset = ci_asset chain, it_created_at = sq_created_at q, it_expires_at = sq_expires_at q,
                it_status = IS_Proposed\<rparr>
       in try_r (intent_validate t) (\<lambda>_. Inr t))))))"

section \<open>Dry-run receipts\<close>

record dry_run_receipt =
  dr_schema_version :: u8
  dr_state_slice :: string
  dr_adapter :: adapter_kind
  dr_adapter_revision :: string
  dr_intent_digest :: string
  dr_payment_id :: string
  dr_chain_id :: u64
  dr_contract_address :: string
  dr_action :: string
  dr_request_digest :: string
  dr_prepared_at :: u64
  dr_signed :: bool
  dr_network_attempted :: bool
  dr_value_moved :: bool
  dr_claim_ceiling :: string
  dr_receipt_digest :: string

definition json_dry_run_receipt :: "dry_run_receipt \<Rightarrow> json" where
  "json_dry_run_receipt r = JObj
    [(''schema_version'', json_word (dr_schema_version r)), (''state_slice'', JStr (dr_state_slice r)),
     (''adapter'', JStr (adapter_kind_name (dr_adapter r))), (''adapter_revision'', JStr (dr_adapter_revision r)),
     (''intent_digest'', JStr (dr_intent_digest r)), (''payment_id'', JStr (dr_payment_id r)), (''chain_id'', json_word (dr_chain_id r)),
     (''contract_address'', JStr (dr_contract_address r)), (''action'', JStr (dr_action r)), (''request_digest'', JStr (dr_request_digest r)),
     (''prepared_at'', json_word (dr_prepared_at r)), (''signed'', JBool (dr_signed r)),
     (''network_attempted'', JBool (dr_network_attempted r)), (''value_moved'', JBool (dr_value_moved r)),
     (''claim_ceiling'', JStr (dr_claim_ceiling r)), (''receipt_digest'', JStr (dr_receipt_digest r))]"

definition dry_run_computed_digest :: "crypto \<Rightarrow> dry_run_receipt \<Rightarrow> string" where
  "dry_run_computed_digest env r = digest env (json_dry_run_receipt (r\<lparr>dr_receipt_digest := ''''\<rparr>))"

definition dry_run_request :: "crypto \<Rightarrow> string \<Rightarrow> adapter_kind \<Rightarrow> u64 \<Rightarrow> string \<Rightarrow> string" where
  "dry_run_request env d adapter chain contract = digest env (JArr [JStr DRY_RUN_ACTION, JStr d, JStr (adapter_kind_name adapter),
     json_word chain, JStr contract])"

definition dry_run_validate :: "crypto \<Rightarrow> dry_run_receipt \<Rightarrow> settlement_intent \<Rightarrow> unit result" where
  "dry_run_validate env r t =
     try_r (intent_validate t) (\<lambda>_.
     try_r (intent_digest env t) (\<lambda>d.
     if dr_schema_version r \<noteq> FORMAT_VERSION \<or> dr_state_slice r \<noteq> STATE_SLICE \<or> dr_adapter r \<noteq> it_adapter t \<or>
        dr_adapter_revision r \<noteq> it_adapter_revision t \<or> dr_intent_digest r \<noteq> d \<or> dr_payment_id r \<noteq> it_payment_id t \<or>
        dr_chain_id r \<noteq> it_chain_id t \<or> dr_contract_address r \<noteq> it_contract_address t \<or> dr_action r \<noteq> DRY_RUN_ACTION \<or>
        dr_request_digest r \<noteq> dry_run_request env d (it_adapter t) (it_chain_id t) (it_contract_address t) \<or>
        dr_prepared_at r < it_created_at t \<or> it_expires_at t \<le> dr_prepared_at r \<or> dr_signed r \<or> dr_network_attempted r \<or>
        dr_value_moved r \<or> dr_claim_ceiling r \<noteq> CLAIM_CEILING \<or> \<not> valid_digest (dr_intent_digest r) \<or>
        \<not> valid_digest (dr_request_digest r) \<or> \<not> valid_digest (dr_receipt_digest r) \<or> dr_receipt_digest r \<noteq> dry_run_computed_digest env r
     then Inl (Err_Rejected ''crypto dry-run receipt violates the foundation boundary'') else Inr ()))"

definition dry_run_digest :: "dry_run_receipt \<Rightarrow> string result" where
  "dry_run_digest r = (if dr_receipt_digest r = [] then Inl (Err_Invalid ''crypto dry-run receipt has no digest'')
     else Inr (dr_receipt_digest r))"

definition adapter_new :: "chain_identity \<Rightarrow> chain_identity result" where
  "adapter_new c = try_r (chain_validate c) (\<lambda>_. Inr c)"

definition adapter_prepare :: "crypto \<Rightarrow> chain_identity \<Rightarrow> settlement_intent \<Rightarrow> u64 \<Rightarrow> dry_run_receipt result" where
  "adapter_prepare env c t prepared_at =
     try_r (intent_validate t) (\<lambda>_.
     if c \<noteq> intent_chain t then Inl (Err_Rejected ''crypto adapter identity does not bind the settlement intent'')
     else if prepared_at < it_created_at t \<or> it_expires_at t \<le> prepared_at
     then Inl (Err_Rejected ''crypto adapter preparation is outside the intent window'')
     else try_r (intent_digest env t) (\<lambda>d.
       let r = \<lparr>dr_schema_version = FORMAT_VERSION, dr_state_slice = STATE_SLICE, dr_adapter = ci_adapter c,
                dr_adapter_revision = ci_adapter_revision c, dr_intent_digest = d, dr_payment_id = it_payment_id t,
                dr_chain_id = ci_chain_id c, dr_contract_address = ci_contract_address c, dr_action = DRY_RUN_ACTION,
                dr_request_digest = dry_run_request env d (ci_adapter c) (ci_chain_id c) (ci_contract_address c),
                dr_prepared_at = prepared_at, dr_signed = False, dr_network_attempted = False, dr_value_moved = False,
                dr_claim_ceiling = CLAIM_CEILING, dr_receipt_digest = ''''\<rparr>;
           r' = r\<lparr>dr_receipt_digest := dry_run_computed_digest env r\<rparr>
       in try_r (dry_run_validate env r' t) (\<lambda>_. Inr r')))"

section \<open>Wire envelopes\<close>

record wire_identity =
  wi_schema_version :: u8
  wi_state_slice :: string
  wi_adapter_revision :: string
  wi_intent_digest :: string
  wi_payment_id :: string
  wi_chain_id :: u64
  wi_contract_address :: string
  wi_asset :: string
  wi_beneficiary :: string
  wi_amount :: u64
  wi_action :: string
  wi_signed :: bool
  wi_network_attempted :: bool
  wi_value_moved :: bool
  wi_claim_ceiling :: string

definition json_wire_identity :: "wire_identity \<Rightarrow> json" where
  "json_wire_identity w = JObj
    [(''schema_version'', json_word (wi_schema_version w)), (''state_slice'', JStr (wi_state_slice w)),
     (''adapter_revision'', JStr (wi_adapter_revision w)), (''intent_digest'', JStr (wi_intent_digest w)),
     (''payment_id'', JStr (wi_payment_id w)), (''chain_id'', json_word (wi_chain_id w)),
     (''contract_address'', JStr (wi_contract_address w)), (''asset'', JStr (wi_asset w)), (''beneficiary'', JStr (wi_beneficiary w)),
     (''amount'', json_word (wi_amount w)), (''action'', JStr (wi_action w)), (''signed'', JBool (wi_signed w)),
     (''network_attempted'', JBool (wi_network_attempted w)), (''value_moved'', JBool (wi_value_moved w)),
     (''claim_ceiling'', JStr (wi_claim_ceiling w))]"

definition wire_from_intent :: "settlement_intent \<Rightarrow> string \<Rightarrow> wire_identity" where
  "wire_from_intent t d = \<lparr>wi_schema_version = FORMAT_VERSION, wi_state_slice = STATE_SLICE, wi_adapter_revision = it_adapter_revision t,
     wi_intent_digest = d, wi_payment_id = it_payment_id t, wi_chain_id = it_chain_id t, wi_contract_address = it_contract_address t,
     wi_asset = it_asset t, wi_beneficiary = it_beneficiary t, wi_amount = it_amount t, wi_action = DRY_RUN_ACTION, wi_signed = False,
     wi_network_attempted = False, wi_value_moved = False, wi_claim_ceiling = CLAIM_CEILING\<rparr>"

definition wire_identity_shape :: "wire_identity \<Rightarrow> unit result" where
  "wire_identity_shape w =
     (if wi_schema_version w \<noteq> FORMAT_VERSION \<or> wi_state_slice w \<noteq> STATE_SLICE \<or> \<not> adapter_text (wi_adapter_revision w) \<or>
         \<not> valid_digest (wi_intent_digest w) \<or> \<not> adapter_text (wi_payment_id w) \<or> wi_chain_id w = 0 \<or>
         \<not> adapter_text (wi_contract_address w) \<or> \<not> adapter_text (wi_asset w) \<or> \<not> adapter_text (wi_beneficiary w) \<or> wi_amount w \<noteq> 0 \<or>
         wi_action w \<noteq> DRY_RUN_ACTION \<or> wi_signed w \<or> wi_network_attempted w \<or> wi_value_moved w \<or> wi_claim_ceiling w \<noteq> CLAIM_CEILING
      then Inl (Err_Rejected ''crypto wire identity violates the foundation boundary'') else Inr ())"

text \<open>The three envelopes: identity, the fixed word of two of them, the digest that binds the intent, and the envelope's own digest.\<close>

datatype wire_envelope =
    WE_Hyperliquid (we_identity: wire_identity) (we_word: string) (we_binding: string) (we_digest: string)
  | WE_EvmEscrow (we_identity: wire_identity) (we_word: string) (we_binding: string) (we_digest: string)
  | WE_Tempo (we_identity: wire_identity) (we_binding: string) (we_digest: string)

fun wire_adapter :: "wire_envelope \<Rightarrow> adapter_kind" where
  "wire_adapter (WE_Hyperliquid i w b d) = AK_HyperliquidDryRun"
| "wire_adapter (WE_EvmEscrow i w b d) = AK_EvmEscrowDryRun"
| "wire_adapter (WE_Tempo i b d) = AK_TempoDryRun"

fun json_wire :: "wire_envelope \<Rightarrow> json" where
  "json_wire (WE_Hyperliquid i w b d) = JObj [(''Hyperliquid'', JObj [(''identity'', json_wire_identity i), (''order_type'', JStr w),
     (''client_order_id'', JStr b), (''envelope_digest'', JStr d)])]"
| "json_wire (WE_EvmEscrow i w b d) = JObj [(''EvmEscrow'', JObj [(''identity'', json_wire_identity i), (''method'', JStr w),
     (''calldata_digest'', JStr b), (''envelope_digest'', JStr d)])]"
| "json_wire (WE_Tempo i b d) = JObj [(''Tempo'', JObj [(''identity'', json_wire_identity i), (''payment_memo_digest'', JStr b),
     (''envelope_digest'', JStr d)])]"

fun wire_with_digest :: "string \<Rightarrow> wire_envelope \<Rightarrow> wire_envelope" where
  "wire_with_digest x (WE_Hyperliquid i w b d) = WE_Hyperliquid i w b x"
| "wire_with_digest x (WE_EvmEscrow i w b d) = WE_EvmEscrow i w b x"
| "wire_with_digest x (WE_Tempo i b d) = WE_Tempo i b x"

definition wire_computed_digest :: "crypto \<Rightarrow> wire_envelope \<Rightarrow> string" where
  "wire_computed_digest env e = digest env (json_wire (wire_with_digest '''' e))"

definition wire_set_digest :: "crypto \<Rightarrow> wire_envelope \<Rightarrow> wire_envelope" where
  "wire_set_digest env e = wire_with_digest (wire_computed_digest env e) e"

definition digest_fails :: "crypto \<Rightarrow> wire_envelope \<Rightarrow> bool" where
  "digest_fails env e \<longleftrightarrow> \<not> valid_digest (we_binding e) \<or> \<not> valid_digest (we_digest e) \<or> we_digest e \<noteq> wire_computed_digest env e"

definition wire_shape :: "crypto \<Rightarrow> wire_envelope \<Rightarrow> unit result" where
  "wire_shape env e =
     try_r (wire_identity_shape (we_identity e)) (\<lambda>_.
     case e of
       WE_Hyperliquid i w b d \<Rightarrow> if w \<noteq> ''dry-run-settlement-v1'' \<or> digest_fails env e
         then Inl (Err_Rejected ''Hyperliquid dry-run wire envelope is malformed'') else Inr ()
     | WE_EvmEscrow i w b d \<Rightarrow> if w \<noteq> ''prepareEscrowSettlement'' \<or> digest_fails env e
         then Inl (Err_Rejected ''EVM escrow dry-run wire envelope is malformed'') else Inr ()
     | WE_Tempo i b d \<Rightarrow> if digest_fails env e
         then Inl (Err_Rejected ''Tempo dry-run wire envelope is malformed'') else Inr ())"

definition wire_binding :: "crypto \<Rightarrow> adapter_kind \<Rightarrow> string \<Rightarrow> string" where
  "wire_binding env a d = digest env (JArr [JStr (case a of AK_HyperliquidDryRun \<Rightarrow> ''hyperliquid-client-order-v1''
     | AK_EvmEscrowDryRun \<Rightarrow> ''evm-escrow-calldata-v1'' | AK_TempoDryRun \<Rightarrow> ''tempo-payment-memo-v1''), JStr d])"

definition binding_mismatch :: "adapter_kind \<Rightarrow> string" where
  "binding_mismatch a = (case a of AK_HyperliquidDryRun \<Rightarrow> ''Hyperliquid dry-run client order binding mismatched''
     | AK_EvmEscrowDryRun \<Rightarrow> ''EVM escrow dry-run calldata binding mismatched''
     | AK_TempoDryRun \<Rightarrow> ''Tempo dry-run payment memo binding mismatched'')"

definition wire_validate :: "crypto \<Rightarrow> wire_envelope \<Rightarrow> settlement_intent \<Rightarrow> unit result" where
  "wire_validate env e t =
     try_r (intent_validate t) (\<lambda>_.
     try_r (wire_shape env e) (\<lambda>_.
     try_r (intent_digest env t) (\<lambda>d.
     if wire_adapter e \<noteq> it_adapter t \<or> we_identity e \<noteq> wire_from_intent t d
     then Inl (Err_Rejected ''crypto wire envelope does not bind the settlement intent'')
     else if we_binding e \<noteq> wire_binding env (wire_adapter e) d then Inl (Err_Rejected (binding_mismatch (wire_adapter e)))
     else Inr ())))"

definition prepare_wire :: "crypto \<Rightarrow> chain_identity \<Rightarrow> settlement_intent \<Rightarrow> wire_envelope result" where
  "prepare_wire env c t =
     try_r (intent_validate t) (\<lambda>_.
     if c \<noteq> intent_chain t then Inl (Err_Rejected ''crypto adapter identity does not bind the settlement intent'')
     else try_r (intent_digest env t) (\<lambda>d.
       let i = wire_from_intent t d;
           e = (case ci_adapter c of
                  AK_HyperliquidDryRun \<Rightarrow> WE_Hyperliquid i ''dry-run-settlement-v1'' (wire_binding env AK_HyperliquidDryRun d) ''''
                | AK_EvmEscrowDryRun \<Rightarrow> WE_EvmEscrow i ''prepareEscrowSettlement'' (wire_binding env AK_EvmEscrowDryRun d) ''''
                | AK_TempoDryRun \<Rightarrow> WE_Tempo i (wire_binding env AK_TempoDryRun d) '''');
           e' = wire_set_digest env e
       in try_r (wire_validate env e' t) (\<lambda>_. Inr e')))"

definition wire_encode :: "crypto \<Rightarrow> wire_envelope \<Rightarrow> u8 list result" where
  "wire_encode env e = try_r (wire_shape env e) (\<lambda>_. Inr (canonical_bytes env (json_wire e)))"

text \<open>\<open>unstr\<close> and \<open>de\<close> are \<open>serde_json::from_slice\<close> at the types \<open>String\<close> and \<open>WireEnvelope\<close>; None is an exhausted scanner budget.\<close>

definition wire_decode ::
  "crypto \<Rightarrow> (u8 list \<Rightarrow> string option) \<Rightarrow> (u8 list \<Rightarrow> wire_envelope result) \<Rightarrow> nat \<Rightarrow> adapter_kind \<Rightarrow> u8 list \<Rightarrow> wire_envelope result option" where
  "wire_decode env unstr de n a bytes =
     (case reject_duplicate_json_keys unstr n bytes of
        None \<Rightarrow> None
      | Some (Inl e) \<Rightarrow> Some (Inl e)
      | Some (Inr _) \<Rightarrow> Some (
          try_r (de bytes) (\<lambda>e.
          if wire_adapter e \<noteq> a then Inl (Err_Rejected ''crypto wire envelope adapter discriminator mismatched'')
          else if canonical_bytes env (json_wire e) \<noteq> bytes then Inl (Err_Journal ''crypto wire bytes are not canonical JSON'')
          else try_r (wire_shape env e) (\<lambda>_. Inr e))))"

definition wire_digest :: "crypto \<Rightarrow> wire_envelope \<Rightarrow> string result" where
  "wire_digest env e = try_r (wire_shape env e) (\<lambda>_. Inr (we_digest e))"

section \<open>Intents are backed\<close>

lemma intent_digest_ok: "intent_digest env t = Inr d \<longleftrightarrow> intent_validate t = Inr () \<and> d = digest env (json_intent t)"
  by (auto simp: intent_digest_def try_r_eq_Inr)

lemma intent_valid_fields:
  assumes "intent_validate t = Inr ()"
  shows "it_amount t = 0" "it_status t = IS_Proposed" "it_created_at t < it_expires_at t" "it_schema_version t = FORMAT_VERSION"
    "it_state_slice t = STATE_SLICE" "adapter_text (it_adapter_revision t)" "it_chain_id t \<noteq> 0" "adapter_text (it_contract_address t)"
    "adapter_text (it_payment_id t)" "adapter_text (it_beneficiary t)" "adapter_text (it_asset t)"
    "valid_digest (it_artifact_digest t)" "valid_digest (it_evidence_digest t)" "valid_digest (it_eligibility_digest t)"
    "valid_digest (it_policy_digest t)"
  using assms by (auto simp: intent_validate_def split: if_splits)

lemma require_valid_Inr: "require_valid ar aid d now = Inr a \<longleftrightarrow> artifact_is_valid ar aid d now \<and> bt_get (af_records ar) aid = Some a"
  by (auto simp: require_valid_def)

lemma accepted_from_registries_Inr:
  assumes "accepted_from_registries env s j r ev eid ar aid at = Inr b"
  shows "registry_is_valid ev eid at (digest env (json_sum_receipt r)) \<and> sum_receipt_validate env r j at = Inr () \<and>
    (\<exists>e a. bt_get (er_records ev) eid = Some e \<and> bt_get (af_records ar) aid = Some a \<and>
       artifact_is_valid ar aid (digest env (json_evidence e)) at \<and> xe_evidence_record_digest b = digest env (json_evidence e) \<and>
       xe_artifact_manifest_digest b = digest env (json_manifest (ar_manifest a)))"
  using assms
  by (auto simp: accepted_from_registries_def try_r_eq_Inr Let_def record_digest_def require_valid_Inr manifest_digest_def split: if_splits)

text \<open>
  A settlement intent is backed.  An intent that \<open>from_market_proposal\<close> builds names the receipt of a job whose output the market validated and that
  finished before the deadline; at the creation time of the request the evidence registry held accepted, current, unrevoked
  evidence about exactly that receipt, the artifact registry held a valid artifact bound to exactly that evidence record, and the intent carries
  the digests of both.  It moves no value, pays only the provider of the proposal, who is not the requester, and lives inside the job's deadline.
\<close>

theorem settlement_intent_is_backed:
  assumes "intent_from_market env s j r chain ev eid ar aid q = Inr t"
  shows "it_amount t = 0 \<and> it_status t = IS_Proposed \<and> intent_validate t = Inr () \<and> intent_chain t = chain \<and>
    it_beneficiary t = sr_provider r \<and> it_beneficiary t \<noteq> sj_requester j \<and> it_receipt_digest t = digest env (json_sum_receipt r) \<and>
    checked_sum (sj_inputs j) = Inr (sr_output r) \<and> sr_completed_at r \<le> it_created_at t \<and> it_created_at t < it_expires_at t \<and>
    it_expires_at t \<le> sj_deadline j \<and> it_job_digest t = digest env (json_sum_job j) \<and>
    (\<exists>e a. bt_get (er_records ev) eid = Some e \<and> evidence_valid e (it_created_at t) (it_receipt_digest t) \<and>
       it_evidence_digest t = digest env (json_evidence e) \<and> bt_get (af_records ar) aid = Some a \<and>
       artifact_is_valid ar aid (it_evidence_digest t) (it_created_at t) \<and>
       it_artifact_digest t = digest env (json_manifest (ar_manifest a)))"
proof -
  obtain acc where v: "settlement_validate env s j r = Inr ()" "chain_validate chain = Inr ()"
      "accepted_from_registries env s j r ev eid ar aid (sq_created_at q) = Inr acc" "intent_validate t = Inr ()"
    and b: "sq_beneficiary q = sp_provider s" "sr_completed_at r \<le> sq_created_at q" "sq_expires_at q \<le> sj_deadline j"
    and jd: "job_digest env j = Inr (it_job_digest t)"
    and t: "it_adapter t = ci_adapter chain" "it_adapter_revision t = ci_adapter_revision chain" "it_chain_id t = ci_chain_id chain"
      "it_contract_address t = ci_contract_address chain" "it_asset t = ci_asset chain" "it_beneficiary t = sq_beneficiary q"
      "it_receipt_digest t = sp_receipt_digest s" "it_created_at t = sq_created_at q" "it_expires_at t = sq_expires_at q"
      "it_evidence_digest t = xe_evidence_record_digest acc" "it_artifact_digest t = xe_artifact_manifest_digest acc"
    using assms by (auto simp: intent_from_market_def try_r_eq_Inr Let_def not_less split: if_splits)
  have chain: "intent_chain t = chain"
    using v(2) t by (auto simp: intent_chain_def chain_validate_def split: if_splits)
  have s: "sp_receipt_digest s = digest env (json_sum_receipt r)" "sp_provider s = sr_provider r"
    using v(1) by (auto simp: settlement_validate_def try_r_eq_Inr split: if_splits)
  note acc = accepted_from_registries_Inr [OF v(3)]
  have r: "sr_provider r \<noteq> sj_requester j" "checked_sum (sj_inputs j) = Inr (sr_output r)"
    using acc by (auto simp: sum_receipt_validate_def try_r_eq_Inr split: if_splits)
  have ev: "\<exists>e. bt_get (er_records ev) eid = Some e \<and> evidence_valid e (sq_created_at q) (digest env (json_sum_receipt r))"
    using acc by (auto simp: registry_is_valid_def split: option.splits)
  have "it_job_digest t = digest env (json_sum_job j)" using jd by (auto simp: job_digest_def try_r_eq_Inr)
  then show ?thesis using v(4) b t s r chain acc ev intent_valid_fields [OF v(4)] by auto
qed

section \<open>Receipts and envelopes\<close>

text \<open>
  Dry-run preparation is exact.  For a valid intent, \<open>prepare\<close> succeeds exactly when the adapter is the intent's own chain identity and the time is inside
  the intent's window; the receipt then validates against the intent, names it by digest, and says that nothing was signed, sent or moved.  \<open>prepare_wire\<close> succeeds for
  the intent's own adapter at any time and gives an envelope that validates against the intent and moves no value.
\<close>

lemma computed_digest_cleared: "dry_run_computed_digest env (r\<lparr>dr_receipt_digest := d\<rparr>) = dry_run_computed_digest env r"
  by (simp add: dry_run_computed_digest_def)

lemma wire_computed_cleared: "wire_computed_digest env (wire_with_digest d e) = wire_computed_digest env e"
  by (cases e) (simp_all add: wire_computed_digest_def)

lemma wire_with_digest_simps [simp]:
  "we_identity (wire_with_digest d e) = we_identity e" "we_binding (wire_with_digest d e) = we_binding e" "we_digest (wire_with_digest d e) = d"
  "wire_adapter (wire_with_digest d e) = wire_adapter e"
  by (cases e; simp)+

lemma wire_identity_of_valid:
  assumes "intent_validate t = Inr ()" and "valid_digest d"
  shows "wire_identity_shape (wire_from_intent t d) = Inr ()"
  using assms(2) intent_valid_fields [OF assms(1)] by (simp add: wire_identity_shape_def wire_from_intent_def)

lemma prepare_wire_ok:
  assumes "sha256_len env" and t: "intent_validate t = Inr ()"
  obtains e where "prepare_wire env (intent_chain t) t = Inr e" "wire_validate env e t = Inr ()" "wire_adapter e = it_adapter t"
    "we_identity e = wire_from_intent t (digest env (json_intent t))"
proof -
  let ?d = "digest env (json_intent t)"
  let ?i = "wire_from_intent t ?d"
  let ?e = "wire_set_digest env (case it_adapter t of
      AK_HyperliquidDryRun \<Rightarrow> WE_Hyperliquid ?i ''dry-run-settlement-v1'' (wire_binding env AK_HyperliquidDryRun ?d) ''''
    | AK_EvmEscrowDryRun \<Rightarrow> WE_EvmEscrow ?i ''prepareEscrowSettlement'' (wire_binding env AK_EvmEscrowDryRun ?d) ''''
    | AK_TempoDryRun \<Rightarrow> WE_Tempo ?i (wire_binding env AK_TempoDryRun ?d) '''')"
  have b: "valid_digest (wire_binding env a ?d)" "valid_digest (wire_computed_digest env x)" for a x
    using assms(1) by (simp_all add: wire_binding_def wire_computed_digest_def)
  have f: "wire_adapter ?e = it_adapter t" "we_identity ?e = ?i" "we_binding ?e = wire_binding env (it_adapter t) ?d"
    "we_digest ?e = wire_computed_digest env ?e"
    by (simp_all add: wire_set_digest_def wire_computed_cleared split: adapter_kind.splits)
  have "\<not> digest_fails env ?e" using b f by (simp add: digest_fails_def)
  moreover have "wire_identity_shape ?i = Inr ()" using wire_identity_of_valid [OF t] assms(1) by simp
  ultimately have "wire_shape env ?e = Inr ()"
    using f(2) by (cases "it_adapter t") (simp_all add: wire_shape_def wire_set_digest_def)
  then have "wire_validate env ?e t = Inr ()" using f t by (simp add: wire_validate_def intent_digest_def)
  moreover from this have "prepare_wire env (intent_chain t) t = Inr ?e"
    using t by (simp add: prepare_wire_def intent_digest_def Let_def intent_chain_def)
  ultimately show thesis using that f by blast
qed

theorem dry_run_preparation_exact:
  assumes "sha256_len env" and "intent_validate t = Inr ()"
  shows "(is_ok (adapter_prepare env c t now) \<longleftrightarrow> c = intent_chain t \<and> it_created_at t \<le> now \<and> now < it_expires_at t) \<and>
    (\<forall>r. adapter_prepare env c t now = Inr r \<longrightarrow> dry_run_validate env r t = Inr () \<and> dr_intent_digest r = digest env (json_intent t) \<and>
       dr_prepared_at r = now \<and> \<not> dr_signed r \<and> \<not> dr_network_attempted r \<and> \<not> dr_value_moved r) \<and>
    (is_ok (prepare_wire env c t) \<longleftrightarrow> c = intent_chain t) \<and>
    (\<forall>e. prepare_wire env c t = Inr e \<longrightarrow> wire_validate env e t = Inr () \<and> wire_adapter e = it_adapter t \<and>
       wi_intent_digest (we_identity e) = digest env (json_intent t) \<and> wi_amount (we_identity e) = 0 \<and> \<not> wi_signed (we_identity e) \<and>
       \<not> wi_network_attempted (we_identity e) \<and> \<not> wi_value_moved (we_identity e))"
proof -
  note t = intent_valid_fields [OF assms(2)]
  let ?d = "digest env (json_intent t)"
  have d: "valid_digest ?d" "valid_digest (dry_run_request env x a y z)" "valid_digest (dry_run_computed_digest env r)" for x a y z r
    using assms(1) by (simp_all add: dry_run_request_def dry_run_computed_digest_def)
  have prepared: "\<exists>r. adapter_prepare env c t now = Inr r" if "c = intent_chain t" "it_created_at t \<le> now" "now < it_expires_at t"
    using that assms(2) d
    by (auto simp: adapter_prepare_def dry_run_validate_def intent_digest_def computed_digest_cleared intent_chain_def Let_def not_less)
  have result: "c = intent_chain t \<and> it_created_at t \<le> now \<and> now < it_expires_at t \<and> dry_run_validate env r t = Inr () \<and>
      dr_intent_digest r = ?d \<and> dr_prepared_at r = now \<and> \<not> dr_signed r \<and> \<not> dr_network_attempted r \<and> \<not> dr_value_moved r"
    if "adapter_prepare env c t now = Inr r" for r
    using that by (auto simp: adapter_prepare_def intent_digest_ok try_r_eq_Inr Let_def not_less split: if_splits)
  obtain e where e: "prepare_wire env (intent_chain t) t = Inr e" "wire_validate env e t = Inr ()" "wire_adapter e = it_adapter t"
    "we_identity e = wire_from_intent t ?d" by (rule prepare_wire_ok [OF assms])
  have other: "c = intent_chain t" if "prepare_wire env c t = Inr x" for x
    using that by (auto simp: prepare_wire_def try_r_eq_Inr split: if_splits)
  have "wi_intent_digest (we_identity e) = ?d" "wi_amount (we_identity e) = 0" "\<not> wi_signed (we_identity e)"
    "\<not> wi_network_attempted (we_identity e)" "\<not> wi_value_moved (we_identity e)"
    using e(4) t by (simp_all add: wire_from_intent_def)
  then have wire: "wire_validate env x t = Inr () \<and> wire_adapter x = it_adapter t \<and> wi_intent_digest (we_identity x) = ?d \<and>
      wi_amount (we_identity x) = 0 \<and> \<not> wi_signed (we_identity x) \<and> \<not> wi_network_attempted (we_identity x) \<and>
      \<not> wi_value_moved (we_identity x)" if "prepare_wire env c t = Inr x" for x
    using that other [OF that] e by simp
  show ?thesis
  proof (intro conjI)
    show "is_ok (adapter_prepare env c t now) \<longleftrightarrow> c = intent_chain t \<and> it_created_at t \<le> now \<and> now < it_expires_at t"
      unfolding is_ok_iff using prepared result by blast
    show "is_ok (prepare_wire env c t) \<longleftrightarrow> c = intent_chain t" unfolding is_ok_iff using other e(1) by blast
  qed (use result wire in blast)+
qed

lemma wire_unique_keys: "unique_keys (json_wire e)"
  by (cases e) (simp_all add: json_wire_identity_def json_word_def)

lemma wire_validate_shape: "wire_validate env e t = Inr () \<Longrightarrow> wire_shape env e = Inr ()"
  by (auto simp: wire_validate_def try_r_eq_Inr)

text \<open>
  Wire bytes round-trip.  The envelope prepared for a valid intent encodes, and decoding the bytes for the intent's adapter returns the same envelope; decoding them for
  any other adapter is refused.  Bytes with a duplicate key anywhere never decode, whatever the parser makes of them.  (serde is assumed to print compact JSON and to
  parse what it printed.)
\<close>

theorem wire_round_trip:
  assumes "sha256_len env" and "text_syntax unstr quote num" and "\<forall>j. canonical_bytes env j = render quote num j"
    and "\<forall>e. prepare_wire env (intent_chain t) t = Inr e \<longrightarrow> de (canonical_bytes env (json_wire e)) = Inr e" and "intent_validate t = Inr ()"
  shows "\<exists>e bytes. prepare_wire env (intent_chain t) t = Inr e \<and> wire_encode env e = Inr bytes \<and>
    (\<forall>n a. scan_fuel bytes \<le> n \<longrightarrow> wire_decode env unstr de n a bytes =
       Some (if a = it_adapter t then Inr e else Inl (Err_Rejected ''crypto wire envelope adapter discriminator mismatched''))) \<and>
    (\<forall>n a j. \<not> unique_keys j \<and> scan_fuel (render quote num j) \<le> n \<longrightarrow>
       wire_decode env unstr de n a (render quote num j) = Some (Inl (json_error ''object contains duplicate keys'')))"
proof -
  obtain e where e: "prepare_wire env (intent_chain t) t = Inr e" "wire_validate env e t = Inr ()" "wire_adapter e = it_adapter t"
    using prepare_wire_ok [OF assms(1,5)] by metis
  note shape = wire_validate_shape [OF e(2)]
  let ?b = "canonical_bytes env (json_wire e)"
  have b: "?b = render quote num (json_wire e)" using assms(3) by blast
  have "wire_decode env unstr de n a ?b = Some (if a = it_adapter t then Inr e
      else Inl (Err_Rejected ''crypto wire envelope adapter discriminator mismatched''))" if "scan_fuel ?b \<le> n" for n a
  proof -
    have "reject_duplicate_json_keys unstr n ?b = Some (Inr ())"
      unfolding b using scanner_exact [OF assms(2), of "json_wire e" n] that [unfolded b] wire_unique_keys [of e] by simp
    then show ?thesis using shape assms(4) e(1,3) by (simp add: wire_decode_def)
  qed
  moreover have "wire_decode env unstr de n a (render quote num j) = Some (Inl (json_error ''object contains duplicate keys''))"
    if "\<not> unique_keys j \<and> scan_fuel (render quote num j) \<le> n" for n a j
    using scanner_exact [OF assms(2), of j n] that by (simp add: wire_decode_def)
  ultimately show ?thesis using e(1) shape unfolding wire_encode_def by (intro exI [of _ e] exI [of _ ?b]) simp
qed

section \<open>Concrete inputs\<close>

definition demo_sum_receipt :: sum_receipt where
  "demo_sum_receipt = \<lparr>sr_job_digest = zero_digest, sr_offer_id = ''o1'', sr_runtime_digest = zero_digest, sr_program_digest = zero_digest,
     sr_input_digest = zero_digest, sr_output_schema_digest = zero_digest, sr_receipt_type = ''ordinary-receipt-v1'',
     sr_privacy_requirement = ''none'', sr_result_digest = zero_digest, sr_provider = ''bob'', sr_output = 7, sr_completed_at = 30,
     sr_price = 5, sr_succeeded = True\<rparr>"

definition demo_settlement :: settlement_proposal where
  "demo_settlement = \<lparr>sp_job_digest = zero_digest, sp_offer_id = ''o1'', sp_receipt_digest = zero_digest, sp_provider = ''bob'', sp_price = 5,
     sp_status = AuthorizationRequired\<rparr>"

definition demo_chain :: chain_identity where
  "demo_chain = \<lparr>ci_schema_version = FORMAT_VERSION, ci_state_slice = STATE_SLICE, ci_adapter = AK_TempoDryRun, ci_adapter_revision = ''r1'',
     ci_chain_id = 7, ci_contract_address = ''c'', ci_asset = ''usd''\<rparr>"

definition demo_request :: settlement_request where
  "demo_request = \<lparr>sq_intent_id = ''i1'', sq_payment_id = ''p1'', sq_beneficiary = ''bob'', sq_specification_digest = zero_digest,
     sq_policy_digest = zero_digest, sq_created_at = 40, sq_expires_at = 90\<rparr>"

definition demo_intent :: settlement_intent where
  "demo_intent = \<lparr>it_schema_version = FORMAT_VERSION, it_state_slice = STATE_SLICE, it_intent_id = ''i1'', it_adapter = AK_TempoDryRun,
     it_adapter_revision = ''r1'', it_job_digest = zero_digest, it_specification_digest = zero_digest, it_artifact_digest = zero_digest,
     it_evidence_digest = zero_digest, it_eligibility_digest = zero_digest, it_receipt_digest = zero_digest, it_policy_digest = zero_digest,
     it_chain_id = 7, it_contract_address = ''c'', it_payment_id = ''p1'', it_beneficiary = ''bob'', it_amount = 0, it_asset = ''usd'',
     it_created_at = 40, it_expires_at = 90, it_status = IS_Proposed\<rparr>"

definition demo_evidence_registry :: evidence_registry where
  "demo_evidence_registry = \<lparr>er_records = [(''e1'', demo_evidence\<lparr>ev_reviewer_id := ''re'', ev_accepted := True\<rparr>)]\<rparr>"

definition demo_artifact_registry :: artifact_registry where
  "demo_artifact_registry = \<lparr>af_records = [(''a1'', demo_artifact)]\<rparr>"

lemma demo_intent_valid: "intent_validate demo_intent = Inr ()"
  by (simp add: intent_validate_def demo_intent_def adapter_text_def ascii_control_def)

lemma demo_sum_receipt_valid: "sum_receipt_validate demo_env demo_sum_receipt demo_job 40 = Inr ()"
  "sum_receipt_validate demo_env demo_sum_receipt demo_job 30 = Inr ()"
  unfolding sum_receipt_validate_ok using demo_job_valid demo_job_sum
  by (simp_all add: demo_sum_receipt_def demo_job_def runtime_digest_def result_digest_def input_digest_def ascii_control_def)

lemma demo_settlement_valid: "settlement_validate demo_env demo_settlement demo_job demo_sum_receipt = Inr ()"
proof -
  have "sr_completed_at demo_sum_receipt = 30" by (simp add: demo_sum_receipt_def)
  then show ?thesis using demo_job_valid demo_sum_receipt_valid(2)
    by (simp add: settlement_validate_def job_digest_def) (simp add: demo_settlement_def demo_sum_receipt_def)
qed

lemma demo_registries:
  "registry_is_valid demo_evidence_registry ''e1'' 40 zero_digest"
  "record_digest demo_env demo_evidence_registry ''e1'' = Inr zero_digest"
  "require_valid demo_artifact_registry ''a1'' zero_digest 40 = Inr demo_artifact"
  "manifest_digest demo_env (ar_manifest demo_artifact) = Inr zero_digest"
  using demo_manifest_valid demo_roles
  by (simp_all add: registry_is_valid_def demo_evidence_registry_def evidence_valid_def demo_evidence_def record_digest_def require_valid_def
      demo_artifact_registry_def artifact_is_valid_def demo_artifact_def manifest_active_def binds_subject_def manifest_digest_def)
    (simp_all add: demo_manifest_def)

lemma demo_intent_built:
  "intent_from_market demo_env demo_settlement demo_job demo_sum_receipt demo_chain demo_evidence_registry ''e1''
     demo_artifact_registry ''a1'' demo_request = Inr demo_intent"
proof -
  let ?b = "\<lparr>xe_schema_version = FORMAT_VERSION, xe_state_slice = STATE_SLICE, xe_evidence_id = ''e1'', xe_artifact_id = ''a1'',
    xe_receipt_digest = zero_digest, xe_evidence_record_digest = zero_digest, xe_artifact_manifest_digest = zero_digest, xe_checked_at = 40,
    xe_eligibility_digest = zero_digest\<rparr>"
  have "sr_completed_at demo_sum_receipt = 30" by (simp add: demo_sum_receipt_def)
  then have "accepted_validate demo_env ?b demo_settlement demo_job demo_sum_receipt demo_evidence_registry demo_artifact_registry = Inr ()"
    using demo_settlement_valid demo_sum_receipt_valid(1) demo_registries
    by (simp add: accepted_validate_def adapter_text_def ascii_control_def evidence_computed_digest_def)
  then have "accepted_from_registries demo_env demo_settlement demo_job demo_sum_receipt demo_evidence_registry ''e1'' demo_artifact_registry
      ''a1'' 40 = Inr ?b"
    using demo_settlement_valid demo_sum_receipt_valid(1) demo_registries
    by (simp add: accepted_from_registries_def evidence_computed_digest_def Let_def)
  moreover have "sq_created_at demo_request = 40" "chain_validate demo_chain = Inr ()" "settlement_request_validate demo_request = Inr ()"
    by (simp_all add: demo_request_def demo_chain_def chain_validate_def settlement_request_validate_def adapter_text_def ascii_control_def)
  moreover have "job_digest demo_env demo_job = Inr zero_digest" using demo_job_valid by (simp add: job_digest_def)
  moreover have "\<not> (sq_beneficiary demo_request \<noteq> sp_provider demo_settlement \<or> sq_created_at demo_request < sr_completed_at demo_sum_receipt \<or>
      sj_deadline demo_job < sq_expires_at demo_request)"
    by (simp add: demo_request_def demo_settlement_def demo_sum_receipt_def demo_job_def)
  ultimately show ?thesis using demo_settlement_valid demo_intent_valid
    unfolding intent_from_market_def
    by (simp add: Let_def demo_intent_def demo_chain_def demo_request_def demo_settlement_def)
qed

theorem settlement_intent_is_backed_witness:
  "\<exists>t. intent_from_market demo_env demo_settlement demo_job demo_sum_receipt demo_chain demo_evidence_registry ''e1''
     demo_artifact_registry ''a1'' demo_request = Inr t \<and> it_amount t = 0 \<and> it_beneficiary t = sr_provider demo_sum_receipt"
  using settlement_intent_is_backed [OF demo_intent_built] demo_intent_built by blast

theorem dry_run_preparation_exact_witness:
  "is_ok (adapter_prepare demo_env (intent_chain demo_intent) demo_intent 50) \<and> \<not> is_ok (adapter_prepare demo_env (intent_chain demo_intent) demo_intent 90)"
  using dry_run_preparation_exact [OF demo_sha256_len demo_intent_valid, of "intent_chain demo_intent" 50]
    dry_run_preparation_exact [OF demo_sha256_len demo_intent_valid, of "intent_chain demo_intent" 90]
  by (simp add: demo_intent_def)

definition demo_text_env :: crypto where
  "demo_text_env = \<lparr>sha256 = \<lambda>_. replicate 32 0, to_vec = render demo_quote (\<lambda>_. [48])\<rparr>"

theorem wire_round_trip_witness:
  "\<exists>e bytes n. prepare_wire demo_text_env (intent_chain demo_intent) demo_intent = Inr e \<and>
     wire_decode demo_text_env demo_unquote (\<lambda>_. Inr e) n AK_TempoDryRun bytes = Some (Inr e)"
proof -
  have l: "sha256_len demo_text_env" by (simp add: sha256_len_def demo_text_env_def)
  have r: "\<forall>j. canonical_bytes demo_text_env j = render demo_quote (\<lambda>_. [48]) j" by (simp add: canonical_bytes_def demo_text_env_def)
  obtain e where e: "prepare_wire demo_text_env (intent_chain demo_intent) demo_intent = Inr e"
    by (rule prepare_wire_ok [OF l demo_intent_valid])
  have "\<forall>x. prepare_wire demo_text_env (intent_chain demo_intent) demo_intent = Inr x \<longrightarrow>
      (\<lambda>_. Inr e) (canonical_bytes demo_text_env (json_wire x)) = (Inr x :: wire_envelope result)" using e by simp
  from wire_round_trip [OF l demo_text_syntax r this demo_intent_valid]
  obtain x bytes where "prepare_wire demo_text_env (intent_chain demo_intent) demo_intent = Inr x"
    "\<forall>n a. scan_fuel bytes \<le> n \<longrightarrow> wire_decode demo_text_env demo_unquote (\<lambda>_. Inr e) n a bytes =
       Some (if a = it_adapter demo_intent then Inr x else Inl (Err_Rejected ''crypto wire envelope adapter discriminator mismatched''))" by blast
  moreover have "it_adapter demo_intent = AK_TempoDryRun" by (simp add: demo_intent_def)
  ultimately have "wire_decode demo_text_env demo_unquote (\<lambda>_. Inr e) (scan_fuel bytes) AK_TempoDryRun bytes = Some (Inr e)"
    using e by simp
  then show ?thesis using e by blast
qed

end
