(* ===== verification/Reconciliation.thy ===== *)
theory Reconciliation
  imports Settlement Plain_Files Receipt_Properties Snapshots
begin

text \<open>
  The second half of src/crypto_adapters.rs: provider keys, signed observations of a payment, and their reconciliation
  with the intent.  A match never authorizes a payout.
\<close>

section \<open>Provider keys\<close>

record provider_key =
  pk_key_id :: string
  pk_public_key :: "u8 list"
  pk_revoked :: bool

type_synonym key_registry = "(string, provider_key) btree"

definition keys_validate :: "ed25519 \<Rightarrow> key_registry \<Rightarrow> unit result" where
  "keys_validate ed ks =
     (if list_ex (\<lambda>(key_id, k). key_id \<noteq> pk_key_id k \<or> \<not> adapter_text key_id \<or> length (pk_public_key k) \<noteq> 32 \<or>
           \<not> ed_key_ok ed (pk_public_key k)) ks
      then Inl (Err_Invalid ''provider key registry contains an invalid record'') else Inr ())"

definition keys_insert :: "ed25519 \<Rightarrow> string \<Rightarrow> u8 list \<Rightarrow> key_registry \<Rightarrow> unit result \<times> key_registry" where
  "keys_insert ed key_id key ks =
     (if \<not> adapter_text key_id \<or> length key \<noteq> 32 then (Inl (Err_Invalid ''provider public key record is malformed''), ks)
      else if \<not> ed_key_ok ed key then (Inl (Err_Invalid ''provider public key is invalid''), ks)
      else if bt_contains ks key_id then (Inl (Err_Rejected ''provider key identity already exists''), ks)
      else let ks' = bt_insert key_id \<lparr>pk_key_id = key_id, pk_public_key = key, pk_revoked = False\<rparr> ks in (keys_validate ed ks', ks'))"

definition keys_revoke :: "string \<Rightarrow> key_registry \<Rightarrow> unit result \<times> key_registry" where
  "keys_revoke key_id ks =
     (case bt_get ks key_id of
        None \<Rightarrow> (Inl (Err_Invalid ''provider key identity is unknown''), ks)
      | Some k \<Rightarrow> if pk_revoked k then (Inl (Err_Rejected ''provider key is already revoked''), ks)
                  else (Inr (), bt_modify key_id (\<lambda>k. k\<lparr>pk_revoked := True\<rparr>) ks))"

definition keys_verify :: "ed25519 \<Rightarrow> key_registry \<Rightarrow> string \<Rightarrow> u8 list \<Rightarrow> u8 list \<Rightarrow> unit result" where
  "keys_verify ed ks key_id msg sig =
     try_r (keys_validate ed ks) (\<lambda>_.
     try_r (ok_or (Err_Rejected ''provider signing key is not trusted'') (bt_get ks key_id)) (\<lambda>k.
     if pk_revoked k then Inl (Err_Rejected ''provider signing key is revoked'')
     else if length (pk_public_key k) \<noteq> 32 then Inl (Err_Invalid ''provider public key length is invalid'')
     else if \<not> ed_key_ok ed (pk_public_key k) then Inl (Err_Invalid ''provider public key is invalid'')
     else if length sig \<noteq> 64 then Inl (Err_Invalid ''provider signature length is invalid'')
     else if \<not> ed_verify ed (pk_public_key k) msg sig
     then Inl (Err_Rejected ''provider observation signature verification failed'') else Inr ()))"

record key_document =
  kd_version :: u8
  kd_records :: "provider_key list"

definition json_key_document :: "key_document \<Rightarrow> json" where
  "json_key_document d = JObj [(''version'', json_word (kd_version d)),
     (''records'', json_list (\<lambda>k. JObj [(''key_id'', JStr (pk_key_id k)), (''public_key'', json_list json_word (pk_public_key k)),
        (''revoked'', JBool (pk_revoked k))]) (kd_records d))]"

definition keys_document :: "key_registry \<Rightarrow> key_document" where
  "keys_document ks = \<lparr>kd_version = 1, kd_records = bt_values ks\<rparr>"

fun keys_rebuild :: "ed25519 \<Rightarrow> provider_key list \<Rightarrow> key_registry \<Rightarrow> key_registry result" where
  "keys_rebuild ed [] ks = Inr ks"
| "keys_rebuild ed (k # rest) ks =
     (case keys_insert ed (pk_key_id k) (pk_public_key k) ks of
        (Inl e, _) \<Rightarrow> Inl e
      | (Inr _, ks1) \<Rightarrow>
        if pk_revoked k then (case keys_revoke (pk_key_id k) ks1 of (Inl e, _) \<Rightarrow> Inl e | (Inr _, ks2) \<Rightarrow> keys_rebuild ed rest ks2)
        else keys_rebuild ed rest ks1)"

definition keys_noncanonical :: string where
  "keys_noncanonical = ''provider key registry bytes are not canonical JSON''"

definition keys_build :: "ed25519 \<Rightarrow> key_document \<Rightarrow> key_registry result" where
  "keys_build ed d =
     (if kd_version d \<noteq> 1 then Inl (Err_Journal keys_noncanonical)
      else try_r (keys_rebuild ed (kd_records d) []) (\<lambda>ks. try_r (keys_validate ed ks) (\<lambda>_. Inr ks)))"

definition keys_save :: "crypto \<Rightarrow> ed25519 \<Rightarrow> io \<Rightarrow> key_registry \<Rightarrow> path \<Rightarrow> fs \<Rightarrow> unit result \<times> fs" where
  "keys_save env ed = plain_save env (keys_validate ed) (\<lambda>ks. json_key_document (keys_document ks))"

definition keys_load :: "crypto \<Rightarrow> ed25519 \<Rightarrow> (u8 list \<Rightarrow> key_document result) \<Rightarrow> io \<Rightarrow> fs \<Rightarrow> path \<Rightarrow> key_registry result" where
  "keys_load env ed de = plain_load env de json_key_document keys_noncanonical (keys_build ed)"

definition keys_recover :: "crypto \<Rightarrow> ed25519 \<Rightarrow> (u8 list \<Rightarrow> key_document result) \<Rightarrow> io \<Rightarrow> path \<Rightarrow> fs \<Rightarrow> key_registry result \<times> fs" where
  "keys_recover env ed de = plain_recover (keys_load env ed de)"

section \<open>Observations\<close>

datatype observation_status = OS_NotFound | OS_Observed | OS_Ambiguous

fun observation_status_name :: "observation_status \<Rightarrow> string" where
  "observation_status_name OS_NotFound = ''NotFound''"
| "observation_status_name OS_Observed = ''Observed''"
| "observation_status_name OS_Ambiguous = ''Ambiguous''"

record chain_observation =
  ob_schema_version :: u8
  ob_state_slice :: string
  ob_observation_id :: string
  ob_adapter :: adapter_kind
  ob_adapter_revision :: string
  ob_intent_digest :: string
  ob_payment_id :: string
  ob_chain_id :: u64
  ob_contract_address :: string
  ob_status :: observation_status
  ob_transaction_digest :: "string option"
  ob_observed_amount :: u64
  ob_asset :: string
  ob_beneficiary :: string
  ob_observed_at :: u64

definition json_chain_observation :: "chain_observation \<Rightarrow> json" where
  "json_chain_observation b = JObj
    [(''schema_version'', json_word (ob_schema_version b)), (''state_slice'', JStr (ob_state_slice b)),
     (''observation_id'', JStr (ob_observation_id b)), (''adapter'', JStr (adapter_kind_name (ob_adapter b))),
     (''adapter_revision'', JStr (ob_adapter_revision b)), (''intent_digest'', JStr (ob_intent_digest b)),
     (''payment_id'', JStr (ob_payment_id b)), (''chain_id'', json_word (ob_chain_id b)),
     (''contract_address'', JStr (ob_contract_address b)), (''status'', JStr (observation_status_name (ob_status b))),
     (''transaction_digest'', json_opt JStr (ob_transaction_digest b)), (''observed_amount'', json_word (ob_observed_amount b)),
     (''asset'', JStr (ob_asset b)), (''beneficiary'', JStr (ob_beneficiary b)), (''observed_at'', json_word (ob_observed_at b))]"

definition transaction_shape :: "chain_observation \<Rightarrow> bool" where
  "transaction_shape b \<longleftrightarrow>
     (case (ob_status b, ob_transaction_digest b) of
        (OS_Observed, Some d) \<Rightarrow> valid_digest d
      | (OS_NotFound, None) \<Rightarrow> True
      | (OS_Ambiguous, None) \<Rightarrow> True
      | _ \<Rightarrow> False)"

definition observation_validate :: "chain_observation \<Rightarrow> unit result" where
  "observation_validate b =
     (if ob_schema_version b \<noteq> FORMAT_VERSION \<or> ob_state_slice b \<noteq> STATE_SLICE \<or> \<not> adapter_text (ob_observation_id b) \<or>
         \<not> adapter_text (ob_adapter_revision b) \<or> \<not> valid_digest (ob_intent_digest b) \<or> \<not> adapter_text (ob_payment_id b) \<or>
         ob_chain_id b = 0 \<or> \<not> adapter_text (ob_contract_address b) \<or> \<not> transaction_shape b \<or> ob_observed_amount b \<noteq> 0 \<or>
         \<not> adapter_text (ob_asset b) \<or> \<not> adapter_text (ob_beneficiary b)
      then Inl (Err_Invalid ''crypto reconciliation observation is malformed'') else Inr ())"

definition observation_digest :: "crypto \<Rightarrow> chain_observation \<Rightarrow> string result" where
  "observation_digest env b = try_r (observation_validate b) (\<lambda>_. Inr (digest env (json_chain_observation b)))"

definition identity_matches :: "crypto \<Rightarrow> settlement_intent \<Rightarrow> chain_observation \<Rightarrow> bool" where
  "identity_matches env t b \<longleftrightarrow> ob_adapter b = it_adapter t \<and> ob_adapter_revision b = it_adapter_revision t \<and>
     ob_intent_digest b = digest env (json_intent t) \<and> ob_payment_id b = it_payment_id t \<and> ob_chain_id b = it_chain_id t \<and>
     ob_contract_address b = it_contract_address t \<and> ob_asset b = it_asset t \<and> ob_beneficiary b = it_beneficiary t \<and>
     it_created_at t \<le> ob_observed_at b \<and> ob_observed_at b < it_expires_at t"

section \<open>Reconciliation\<close>

datatype reconciliation_status = RS_Matched

record reconciliation =
  rc_schema_version :: u8
  rc_state_slice :: string
  rc_intent_digest :: string
  rc_observation_digest :: string
  rc_status :: reconciliation_status
  rc_payout_authorized :: bool
  rc_signed :: bool
  rc_network_attempted :: bool
  rc_value_moved :: bool
  rc_claim_ceiling :: string
  rc_result_digest :: string

definition json_reconciliation :: "reconciliation \<Rightarrow> json" where
  "json_reconciliation r = JObj
    [(''schema_version'', json_word (rc_schema_version r)), (''state_slice'', JStr (rc_state_slice r)),
     (''intent_digest'', JStr (rc_intent_digest r)), (''observation_digest'', JStr (rc_observation_digest r)), (''status'', JStr ''Matched''),
     (''payout_authorized'', JBool (rc_payout_authorized r)), (''signed'', JBool (rc_signed r)),
     (''network_attempted'', JBool (rc_network_attempted r)), (''value_moved'', JBool (rc_value_moved r)),
     (''claim_ceiling'', JStr (rc_claim_ceiling r)), (''result_digest'', JStr (rc_result_digest r))]"

definition reconciliation_computed :: "crypto \<Rightarrow> reconciliation \<Rightarrow> string" where
  "reconciliation_computed env r = digest env (json_reconciliation (r\<lparr>rc_result_digest := ''''\<rparr>))"

definition reconciliation_validate :: "crypto \<Rightarrow> reconciliation \<Rightarrow> settlement_intent \<Rightarrow> chain_observation \<Rightarrow> unit result" where
  "reconciliation_validate env r t b =
     try_r (intent_validate t) (\<lambda>_.
     try_r (observation_validate b) (\<lambda>_.
     if rc_schema_version r \<noteq> FORMAT_VERSION \<or> rc_state_slice r \<noteq> STATE_SLICE \<or> rc_intent_digest r \<noteq> digest env (json_intent t) \<or>
        rc_observation_digest r \<noteq> digest env (json_chain_observation b) \<or> rc_status r \<noteq> RS_Matched \<or> ob_status b \<noteq> OS_Observed \<or> \<not> identity_matches env t b \<or>
        rc_payout_authorized r \<or> rc_signed r \<or> rc_network_attempted r \<or> rc_value_moved r \<or> rc_claim_ceiling r \<noteq> CLAIM_CEILING \<or>
        \<not> valid_digest (rc_result_digest r) \<or> rc_result_digest r \<noteq> reconciliation_computed env r
     then Inl (Err_Rejected ''crypto reconciliation result violates the foundation boundary'') else Inr ()))"

definition reconciliation_digest :: "reconciliation \<Rightarrow> string result" where
  "reconciliation_digest r = (if rc_result_digest r = [] then Inl (Err_Invalid ''crypto reconciliation result has no digest'')
     else Inr (rc_result_digest r))"

definition reconcile :: "crypto \<Rightarrow> settlement_intent \<Rightarrow> chain_observation \<Rightarrow> reconciliation result" where
  "reconcile env t b =
     try_r (intent_validate t) (\<lambda>_.
     try_r (observation_validate b) (\<lambda>_.
     if \<not> identity_matches env t b then Inl (Err_Quarantined ''crypto reconciliation identity or zero-value binding mismatched'')
     else case ob_status b of
       OS_NotFound \<Rightarrow> Inl (Err_Rejected ''crypto payment was not observed; no payout is authorized'')
     | OS_Ambiguous \<Rightarrow> Inl (Err_Quarantined ''crypto payment observation is ambiguous; payout is frozen'')
     | OS_Observed \<Rightarrow>
         (let r = \<lparr>rc_schema_version = FORMAT_VERSION, rc_state_slice = STATE_SLICE, rc_intent_digest = digest env (json_intent t),
                   rc_observation_digest = digest env (json_chain_observation b), rc_status = RS_Matched, rc_payout_authorized = False,
                   rc_signed = False, rc_network_attempted = False, rc_value_moved = False, rc_claim_ceiling = CLAIM_CEILING, rc_result_digest = ''''\<rparr>;
              r' = r\<lparr>rc_result_digest := reconciliation_computed env r\<rparr>
          in try_r (reconciliation_validate env r' t b) (\<lambda>_. Inr r'))))"

section \<open>Signed observations\<close>

record observation_envelope =
  oe_schema_version :: u8
  oe_state_slice :: string
  oe_provider_id :: string
  oe_key_id :: string
  oe_observation :: chain_observation
  oe_observation_digest :: string
  oe_signature :: "u8 list"

definition json_observation_envelope :: "observation_envelope \<Rightarrow> json" where
  "json_observation_envelope e = JObj
    [(''schema_version'', json_word (oe_schema_version e)), (''state_slice'', JStr (oe_state_slice e)), (''provider_id'', JStr (oe_provider_id e)),
     (''key_id'', JStr (oe_key_id e)), (''observation'', json_chain_observation (oe_observation e)),
     (''observation_digest'', JStr (oe_observation_digest e)), (''signature'', json_list json_word (oe_signature e))]"

definition envelope_unsigned_shape :: "crypto \<Rightarrow> observation_envelope \<Rightarrow> unit result" where
  "envelope_unsigned_shape env e =
     (let bad = Inl (Err_Invalid ''provider observation envelope is malformed'') in
      if oe_schema_version e \<noteq> FORMAT_VERSION \<or> oe_state_slice e \<noteq> STATE_SLICE \<or> \<not> adapter_text (oe_provider_id e) \<or>
         \<not> adapter_text (oe_key_id e) then bad
      else try_r (observation_digest env (oe_observation e)) (\<lambda>d.
        if oe_observation_digest e \<noteq> d \<or> \<not> valid_digest (oe_observation_digest e) then bad else Inr ()))"

definition envelope_unsigned :: "crypto \<Rightarrow> string \<Rightarrow> string \<Rightarrow> chain_observation \<Rightarrow> observation_envelope result" where
  "envelope_unsigned env provider key_id b =
     try_r (observation_digest env b) (\<lambda>d.
     let e = \<lparr>oe_schema_version = FORMAT_VERSION, oe_state_slice = STATE_SLICE, oe_provider_id = provider, oe_key_id = key_id,
              oe_observation = b, oe_observation_digest = d, oe_signature = []\<rparr>
     in try_r (envelope_unsigned_shape env e) (\<lambda>_. Inr e))"

definition envelope_signing_bytes :: "crypto \<Rightarrow> observation_envelope \<Rightarrow> u8 list result" where
  "envelope_signing_bytes env e =
     try_r (envelope_unsigned_shape env e) (\<lambda>_. Inr (canonical_bytes env (json_observation_envelope (e\<lparr>oe_signature := []\<rparr>))))"

definition provider_envelope_validate :: "crypto \<Rightarrow> observation_envelope \<Rightarrow> unit result" where
  "provider_envelope_validate env e =
     try_r (envelope_unsigned_shape env e) (\<lambda>_.
     if length (oe_signature e) \<noteq> 64 then Inl (Err_Invalid ''provider observation signature length is invalid'') else Inr ())"

definition envelope_encode :: "crypto \<Rightarrow> observation_envelope \<Rightarrow> u8 list result" where
  "envelope_encode env e = try_r (provider_envelope_validate env e) (\<lambda>_. Inr (canonical_bytes env (json_observation_envelope e)))"

definition envelope_decode ::
  "crypto \<Rightarrow> (u8 list \<Rightarrow> string option) \<Rightarrow> (u8 list \<Rightarrow> observation_envelope result) \<Rightarrow> nat \<Rightarrow> u8 list \<Rightarrow> observation_envelope result option" where
  "envelope_decode env unstr de n bytes =
     (case reject_duplicate_json_keys unstr n bytes of
        None \<Rightarrow> None
      | Some (Inl e) \<Rightarrow> Some (Inl e)
      | Some (Inr _) \<Rightarrow> Some (
          try_r (de bytes) (\<lambda>e.
          if canonical_bytes env (json_observation_envelope e) \<noteq> bytes
          then Inl (Err_Journal ''provider observation bytes are not canonical JSON'')
          else try_r (provider_envelope_validate env e) (\<lambda>_. Inr e))))"

definition envelope_verify ::
  "crypto \<Rightarrow> ed25519 \<Rightarrow> observation_envelope \<Rightarrow> key_registry \<Rightarrow> settlement_intent \<Rightarrow> chain_observation result" where
  "envelope_verify env ed e ks t =
     try_r (intent_validate t) (\<lambda>_.
     try_r (provider_envelope_validate env e) (\<lambda>_.
     if oe_provider_id e \<noteq> ob_beneficiary (oe_observation e)
     then Inl (Err_Quarantined ''provider observation identity does not bind the beneficiary'')
     else if \<not> identity_matches env t (oe_observation e)
     then Inl (Err_Quarantined ''provider observation identity does not bind the settlement intent'')
     else try_r (envelope_signing_bytes env e) (\<lambda>bytes.
       try_r (keys_verify ed ks (oe_key_id e) bytes (oe_signature e)) (\<lambda>_. Inr (oe_observation e)))))"

definition verify_and_reconcile ::
  "crypto \<Rightarrow> ed25519 \<Rightarrow> observation_envelope \<Rightarrow> key_registry \<Rightarrow> settlement_intent \<Rightarrow> reconciliation result" where
  "verify_and_reconcile env ed e ks t = try_r (envelope_verify env ed e ks t) (\<lambda>b. reconcile env t b)"

section \<open>What a verified observation shows\<close>

lemma observation_digest_ok: "observation_digest env b = Inr d \<longleftrightarrow> observation_validate b = Inr () \<and> d = digest env (json_chain_observation b)"
  by (auto simp: observation_digest_def try_r_eq_Inr)

lemma reconciliation_computed_cleared: "reconciliation_computed env (r\<lparr>rc_result_digest := d\<rparr>) = reconciliation_computed env r"
  by (simp add: reconciliation_computed_def)

lemma reconcile_Inr:
  assumes "sha256_len env"
  shows "(\<exists>r. reconcile env t b = Inr r) \<longleftrightarrow>
      intent_validate t = Inr () \<and> observation_validate b = Inr () \<and> identity_matches env t b \<and> ob_status b = OS_Observed"
    and "reconcile env t b = Inr r \<Longrightarrow> reconciliation_validate env r t b = Inr ()"
proof -
  have v: "valid_digest (reconciliation_computed env r)" for r using assms by (simp add: reconciliation_computed_def)
  show "(\<exists>r. reconcile env t b = Inr r) \<longleftrightarrow>
      intent_validate t = Inr () \<and> observation_validate b = Inr () \<and> identity_matches env t b \<and> ob_status b = OS_Observed"
    using v by (auto simp: reconcile_def try_r_eq_Inr reconciliation_validate_def reconciliation_computed_cleared Let_def
        split: observation_status.splits if_splits)
  show "reconciliation_validate env r t b = Inr ()" if "reconcile env t b = Inr r"
    using that by (auto simp: reconcile_def try_r_eq_Inr Let_def split: observation_status.splits if_splits)
qed

lemma keys_verify_Inr:
  "keys_verify ed ks key_id msg sig = Inr () \<longleftrightarrow> keys_validate ed ks = Inr () \<and>
     (\<exists>k. bt_get ks key_id = Some k \<and> \<not> pk_revoked k \<and> length (pk_public_key k) = 32 \<and> ed_key_ok ed (pk_public_key k) \<and> length sig = 64 \<and>
        ed_verify ed (pk_public_key k) msg sig)"
  by (auto simp: keys_verify_def try_r_eq_Inr)

lemma envelope_shape_Inr:
  "envelope_unsigned_shape env e = Inr () \<longleftrightarrow> oe_schema_version e = FORMAT_VERSION \<and> oe_state_slice e = STATE_SLICE \<and>
     adapter_text (oe_provider_id e) \<and> adapter_text (oe_key_id e) \<and> observation_validate (oe_observation e) = Inr () \<and>
     oe_observation_digest e = digest env (json_chain_observation (oe_observation e)) \<and> valid_digest (oe_observation_digest e)"
  by (auto simp: envelope_unsigned_shape_def observation_digest_ok try_r_eq_Inr Let_def)

lemma envelope_verify_Inr:
  "envelope_verify env ed e ks t = Inr b \<longleftrightarrow> intent_validate t = Inr () \<and> provider_envelope_validate env e = Inr () \<and> b = oe_observation e \<and>
     oe_provider_id e = ob_beneficiary b \<and> identity_matches env t b \<and>
     keys_verify ed ks (oe_key_id e) (canonical_bytes env (json_observation_envelope (e\<lparr>oe_signature := []\<rparr>))) (oe_signature e) = Inr ()"
  by (auto simp: envelope_verify_def try_r_eq_Inr envelope_signing_bytes_def provider_envelope_validate_def)

text \<open>
  Keys only retire.  Under any sequence of insertions and revocations, failed ones included, a registered key keeps its public key, a revoked key
  stays revoked, and an id never gets a second key.
\<close>

datatype key_op = KY_Insert string "u8 list" | KY_Revoke string

fun key_step :: "ed25519 \<Rightarrow> key_registry \<Rightarrow> key_op \<Rightarrow> key_registry" where
  "key_step ed ks (KY_Insert key_id key) = snd (keys_insert ed key_id key ks)"
| "key_step ed ks (KY_Revoke key_id) = snd (keys_revoke key_id ks)"

lemma key_step_keeps:
  assumes "bt_get ks key_id = Some k"
  obtains k' where "bt_get (key_step ed ks a) key_id = Some k'" "pk_public_key k' = pk_public_key k" "pk_revoked k \<longrightarrow> pk_revoked k'"
proof -
  have "\<exists>k'. bt_get (key_step ed ks a) key_id = Some k' \<and> pk_public_key k' = pk_public_key k \<and> (pk_revoked k \<longrightarrow> pk_revoked k')"
    using assms by (cases a) (auto simp: keys_insert_def keys_revoke_def bt_contains_def Let_def split: option.splits)
  then show thesis using that by blast
qed

lemma keys_kept:
  assumes "bt_get ks key_id = Some k"
  shows "\<exists>k'. bt_get (foldl (key_step ed) ks as) key_id = Some k' \<and> pk_public_key k' = pk_public_key k \<and> (pk_revoked k \<longrightarrow> pk_revoked k')"
  using assms
proof (induction as arbitrary: ks k)
  case (Cons a as)
  obtain k' where k': "bt_get (key_step ed ks a) key_id = Some k'" "pk_public_key k' = pk_public_key k" "pk_revoked k \<longrightarrow> pk_revoked k'"
    by (rule key_step_keeps [OF Cons.prems])
  from Cons.IH [OF k'(1)] k'(2,3) show ?case by auto
qed auto

text \<open>
  C33.  A reconciliation rests on a signed observation.  When an envelope is verified and reconciled, the payment was observed with zero amount inside the
  intent's window and matches the intent in adapter, chain, contract, asset, payment and beneficiary; the beneficiary's own key, registered and
  not revoked, signed exactly these bytes; and the result authorizes nothing.  Once a key is revoked, no later state of the
  registry verifies an envelope under its id again.
\<close>

theorem reconciliation_is_signed:
  assumes "sha256_len env" and "verify_and_reconcile env ed e ks t = Inr r"
  shows "(\<exists>k. bt_get ks (oe_key_id e) = Some k \<and> \<not> pk_revoked k \<and>
      ed_verify ed (pk_public_key k) (canonical_bytes env (json_observation_envelope (e\<lparr>oe_signature := []\<rparr>))) (oe_signature e)) \<and>
    ob_status (oe_observation e) = OS_Observed \<and> ob_observed_amount (oe_observation e) = 0 \<and> identity_matches env t (oe_observation e) \<and>
    oe_provider_id e = it_beneficiary t \<and> \<not> rc_payout_authorized r \<and> \<not> rc_signed r \<and> \<not> rc_network_attempted r \<and> \<not> rc_value_moved r \<and>
    rc_intent_digest r = digest env (json_intent t) \<and> rc_observation_digest r = oe_observation_digest e \<and>
    (\<forall>ks' as e' t'. keys_revoke (oe_key_id e) ks = (Inr (), ks') \<and> oe_key_id e' = oe_key_id e \<longrightarrow>
       \<not> is_ok (envelope_verify env ed e' (foldl (key_step ed) ks' as) t'))"
proof -
  obtain b where b: "envelope_verify env ed e ks t = Inr b" "reconcile env t b = Inr r"
    using assms(2) by (auto simp: verify_and_reconcile_def try_r_eq_Inr)
  note ev = b(1) [unfolded envelope_verify_Inr keys_verify_Inr]
  note rc = reconcile_Inr(1) [OF assms(1), THEN iffD1, OF exI, OF b(2)]
  have v: "reconciliation_validate env r t b = Inr ()" using reconcile_Inr(2) [OF assms(1) b(2)] .
  then have f: "rc_intent_digest r = digest env (json_intent t)" "rc_observation_digest r = digest env (json_chain_observation b)"
    "\<not> rc_payout_authorized r" "\<not> rc_signed r" "\<not> rc_network_attempted r" "\<not> rc_value_moved r"
    by (auto simp: reconciliation_validate_def try_r_eq_Inr split: if_splits)
  have amount: "ob_observed_amount b = 0" using rc by (auto simp: observation_validate_def split: if_splits)
  have dig: "oe_observation_digest e = digest env (json_chain_observation b)"
    using ev by (auto simp: provider_envelope_validate_def envelope_shape_Inr try_r_eq_Inr)
  have dead: "\<not> is_ok (envelope_verify env ed e' (foldl (key_step ed) ks' as) t')"
    if rev: "keys_revoke (oe_key_id e) ks = (Inr (), ks')" "oe_key_id e' = oe_key_id e" for ks' as e' t'
  proof -
    obtain k where "bt_get ks' (oe_key_id e) = Some k" "pk_revoked k"
      using rev(1) by (auto simp: keys_revoke_def split: option.splits if_splits)
    from keys_kept [OF this(1), of ed as] this(2) obtain k' where "bt_get (foldl (key_step ed) ks' as) (oe_key_id e) = Some k'" "pk_revoked k'" by blast
    then show ?thesis using rev(2) by (auto simp: is_ok_iff envelope_verify_Inr keys_verify_Inr)
  qed
  have "oe_provider_id e = it_beneficiary t" using ev by (auto simp: identity_matches_def)
  then show ?thesis using ev rc f amount dig dead by auto
qed

text \<open>
  An honest observation goes through.  When the beneficiary's key is registered and unrevoked and the beneficiary signs the envelope of a matching
  observation, verification and reconciliation succeed.
\<close>

theorem honest_observation_reconciles:
  assumes "sha256_len env" and "ed25519_correct ed" and "keys_validate ed ks = Inr ()" and "bt_get ks key_id = Some k" and "\<not> pk_revoked k"
    and "pk_public_key k = ed_public ed seed" and "intent_validate t = Inr ()" and "observation_validate b = Inr ()"
    and "identity_matches env t b" and "ob_status b = OS_Observed" and "bt_wf ks"
  shows "\<exists>e msg r. envelope_unsigned env (it_beneficiary t) key_id b = Inr e \<and> envelope_signing_bytes env e = Inr msg \<and>
    verify_and_reconcile env ed (e\<lparr>oe_signature := ed_sign ed seed msg\<rparr>) ks t = Inr r \<and> reconciliation_validate env r t b = Inr ()"
proof -
  let ?e = "\<lparr>oe_schema_version = FORMAT_VERSION, oe_state_slice = STATE_SLICE, oe_provider_id = it_beneficiary t, oe_key_id = key_id,
    oe_observation = b, oe_observation_digest = digest env (json_chain_observation b), oe_signature = []\<rparr>"
  let ?msg = "canonical_bytes env (json_observation_envelope ?e)" and ?s = "?e\<lparr>oe_signature := ed_sign ed seed (canonical_bytes env (json_observation_envelope ?e))\<rparr>"
  have "(key_id, k) \<in> set ks" using assms(4,11) by (simp add: bt_get_mem)
  then have key: "adapter_text key_id" "length (pk_public_key k) = 32" "ed_key_ok ed (pk_public_key k)"
    using assms(3) by (auto simp: keys_validate_def list_ex_iff split: if_splits)
  have shape: "envelope_unsigned_shape env ?e = Inr ()" "envelope_unsigned_shape env ?s = Inr ()"
    unfolding envelope_shape_Inr using key(1) assms(1,8) intent_valid_fields [OF assms(7)] by simp_all
  have sig: "length (ed_sign ed seed ?msg) = 64" "ed_verify ed (ed_public ed seed) ?msg (ed_sign ed seed ?msg)"
    using assms(2) by (simp_all add: ed25519_correct_def)
  have "envelope_verify env ed ?s ks t = Inr b"
    unfolding envelope_verify_Inr keys_verify_Inr provider_envelope_validate_def
    using shape(2) sig key assms(3-9) by (simp add: identity_matches_def)
  moreover obtain r where r: "reconcile env t b = Inr r" using reconcile_Inr(1) [OF assms(1), of t b] assms(7-10) by blast
  ultimately have "verify_and_reconcile env ed ?s ks t = Inr r" by (simp add: verify_and_reconcile_def)
  moreover have "envelope_unsigned env (it_beneficiary t) key_id b = Inr ?e"
    using shape(1) assms(8) by (simp add: envelope_unsigned_def observation_digest_def)
  moreover have "envelope_signing_bytes env ?e = Inr ?msg" using shape(1) by (simp add: envelope_signing_bytes_def)
  ultimately show ?thesis using reconcile_Inr(2) [OF assms(1) r] by blast
qed

section \<open>The key file\<close>

lemma keys_validate_Inr:
  "keys_validate ed ks = Inr () \<longleftrightarrow> (\<forall>(key_id, k)\<in>set ks. key_id = pk_key_id k \<and> adapter_text key_id \<and> length (pk_public_key k) = 32 \<and>
     ed_key_ok ed (pk_public_key k))"
  by (auto simp: keys_validate_def list_ex_iff)

lemma keys_rebuild_values:
  assumes "bt_wf (done_ks @ ks)" and "keys_validate ed (done_ks @ ks) = Inr ()"
  shows "keys_rebuild ed (bt_values ks) done_ks = Inr (done_ks @ ks)"
  using assms
proof (induction ks arbitrary: done_ks)
  case (Cons e ks)
  obtain key_id k where e: "e = (key_id, k)" by (cases e)
  have v: "key_id = pk_key_id k" "adapter_text key_id" "length (pk_public_key k) = 32" "ed_key_ok ed (pk_public_key k)"
    using Cons.prems(2) e by (auto simp: keys_validate_Inr)
  have lt: "\<forall>x\<in>set done_ks. fst x < key_id"
    using Cons.prems(1) e by (auto simp: bt_wf_def sorted_wrt_append strict_sorted_iff)
  have fresh: "\<not> bt_contains done_ks key_id" using lt by (auto simp: bt_contains_iff)
  let ?k0 = "\<lparr>pk_key_id = key_id, pk_public_key = pk_public_key k, pk_revoked = False\<rparr>"
  have "keys_validate ed (done_ks @ [(key_id, ?k0)]) = Inr ()" using v Cons.prems(2) by (simp add: keys_validate_Inr)
  then have ins: "keys_insert ed key_id (pk_public_key k) done_ks = (Inr (), done_ks @ [(key_id, ?k0)])"
    using v(2-4) fresh by (simp add: keys_insert_def bt_insert_last [OF lt] Let_def)
  have "bt_get done_ks key_id = None" using fresh by (simp add: bt_contains_def)
  then have get: "bt_get (done_ks @ [(key_id, ?k0)]) key_id = Some ?k0" using bt_insert_last [OF lt, of ?k0] by (metis bt_get_insert fun_upd_same)
  have mod: "bt_modify key_id (\<lambda>k. k\<lparr>pk_revoked := True\<rparr>) (done_ks @ [(key_id, ?k0)]) = done_ks @ [(key_id, ?k0\<lparr>pk_revoked := True\<rparr>)]"
    using lt by (auto simp: bt_modify_def intro!: map_idI)
  have "keys_rebuild ed (bt_values ks) (done_ks @ [(key_id, k)]) = Inr ((done_ks @ [(key_id, k)]) @ ks)"
    by (rule Cons.IH) (use Cons.prems e in simp_all)
  moreover obtain key rv where "k = \<lparr>pk_key_id = key_id, pk_public_key = key, pk_revoked = rv\<rparr>" using v(1) by (cases k) simp
  ultimately show ?case using e ins get mod by (cases rv) (simp_all add: keys_revoke_def bt_values_def)
qed (simp add: bt_values_def)

interpretation keys_file: snapshot_format keys_document json_key_document "keys_validate ed" "keys_build ed" bt_wf for ed
proof
  fix ks assume "bt_wf ks" "keys_validate ed ks = Inr ()"
  then show "keys_build ed (keys_document ks) = Inr ks"
    using keys_rebuild_values [of "[]" ks ed] by (simp add: keys_build_def keys_document_def)
next
  fix d ks assume "keys_build ed d = Inr ks"
  then show "keys_validate ed ks = Inr ()" by (auto simp: keys_build_def try_r_eq_Inr split: if_splits)
qed

section \<open>Concrete inputs\<close>

definition demo_observation :: chain_observation where
  "demo_observation = \<lparr>ob_schema_version = FORMAT_VERSION, ob_state_slice = STATE_SLICE, ob_observation_id = ''ob1'', ob_adapter = AK_TempoDryRun,
     ob_adapter_revision = ''r1'', ob_intent_digest = zero_digest, ob_payment_id = ''p1'', ob_chain_id = 7, ob_contract_address = ''c'',
     ob_status = OS_Observed, ob_transaction_digest = Some zero_digest, ob_observed_amount = 0, ob_asset = ''usd'', ob_beneficiary = ''bob'',
     ob_observed_at = 50\<rparr>"

definition demo_keys :: key_registry where
  "demo_keys = [(''k1'', \<lparr>pk_key_id = ''k1'', pk_public_key = ed_public demo_ed [], pk_revoked = False\<rparr>)]"

lemma demo_keys_valid: "keys_validate demo_ed demo_keys = Inr ()" "bt_wf demo_keys"
  by (simp_all add: keys_validate_def demo_keys_def adapter_text_def ascii_control_def demo_ed_def bt_wf_def)

lemma demo_observation_ok:
  "observation_validate demo_observation = Inr ()" "identity_matches demo_env demo_intent demo_observation" "ob_status demo_observation = OS_Observed"
  by (simp_all add: observation_validate_def demo_observation_def adapter_text_def ascii_control_def transaction_shape_def identity_matches_def
      demo_intent_def)

theorem honest_observation_reconciles_witness:
  "\<exists>e msg r. envelope_unsigned demo_env (it_beneficiary demo_intent) ''k1'' demo_observation = Inr e \<and>
     verify_and_reconcile demo_env demo_ed (e\<lparr>oe_signature := ed_sign demo_ed [] msg\<rparr>) demo_keys demo_intent = Inr r"
proof -
  have "bt_get demo_keys ''k1'' = Some \<lparr>pk_key_id = ''k1'', pk_public_key = ed_public demo_ed [], pk_revoked = False\<rparr>" by (simp add: demo_keys_def)
  from honest_observation_reconciles [OF demo_sha256_len demo_ed_correct demo_keys_valid(1) this _ _ demo_intent_valid demo_observation_ok demo_keys_valid(2),
      of "[]"]
  show ?thesis by auto
qed

theorem reconciliation_is_signed_witness:
  "\<exists>e r. verify_and_reconcile demo_env demo_ed e demo_keys demo_intent = Inr r \<and> \<not> rc_payout_authorized r"
proof -
  let ?e = "\<lparr>oe_schema_version = FORMAT_VERSION, oe_state_slice = STATE_SLICE, oe_provider_id = ''bob'', oe_key_id = ''k1'',
    oe_observation = demo_observation, oe_observation_digest = zero_digest, oe_signature = replicate 64 0\<rparr>"
  have "provider_envelope_validate demo_env ?e = Inr ()"
    using demo_observation_ok(1)
    by (simp add: provider_envelope_validate_def envelope_unsigned_shape_def observation_digest_def adapter_text_def ascii_control_def)
  moreover have "keys_verify demo_ed demo_keys ''k1'' m (replicate 64 0) = Inr ()" for m
    unfolding keys_verify_Inr using demo_keys_valid(1) by (simp add: demo_keys_def demo_ed_def)
  moreover have "ob_beneficiary demo_observation = ''bob''" by (simp add: demo_observation_def)
  ultimately have "envelope_verify demo_env demo_ed ?e demo_keys demo_intent = Inr demo_observation"
    unfolding envelope_verify_Inr using demo_intent_valid demo_observation_ok(2) by simp
  moreover obtain r where "reconcile demo_env demo_intent demo_observation = Inr r"
    using reconcile_Inr(1) [OF demo_sha256_len, of demo_intent demo_observation] demo_intent_valid demo_observation_ok by blast
  ultimately have r: "verify_and_reconcile demo_env demo_ed ?e demo_keys demo_intent = Inr r" by (simp add: verify_and_reconcile_def)
  from reconciliation_is_signed [OF demo_sha256_len r] r show ?thesis by blast
qed

end
