(* ===== verification/Payout.thy ===== *)
theory Payout
  imports Reconciliation
begin

text \<open>
  Settlement resolutions and payout proposals of src/crypto_adapters.rs: records that carry the digest of the rest of
  themselves, made from a reconciliation that matched and always stopping at a request for an authorization.
\<close>

section \<open>Resolutions\<close>

datatype authorization_status = AZ_AuthorizationRequired

record resolution =
  sn_schema_version :: u8
  sn_state_slice :: string
  sn_intent_digest :: string
  sn_reconciliation_digest :: string
  sn_evidence_digest :: string
  sn_artifact_digest :: string
  sn_eligibility_digest :: string
  sn_policy_digest :: string
  sn_payment_id :: string
  sn_chain_id :: u64
  sn_contract_address :: string
  sn_asset :: string
  sn_beneficiary :: string
  sn_amount :: u64
  sn_status :: authorization_status
  sn_payout_authorized :: bool
  sn_signed :: bool
  sn_network_attempted :: bool
  sn_value_moved :: bool
  sn_claim_ceiling :: string
  sn_resolution_digest :: string

definition json_resolution :: "resolution \<Rightarrow> json" where
  "json_resolution s = JObj
    [(''schema_version'', json_word (sn_schema_version s)), (''state_slice'', JStr (sn_state_slice s)),
     (''intent_digest'', JStr (sn_intent_digest s)), (''reconciliation_digest'', JStr (sn_reconciliation_digest s)),
     (''evidence_digest'', JStr (sn_evidence_digest s)), (''artifact_digest'', JStr (sn_artifact_digest s)),
     (''eligibility_digest'', JStr (sn_eligibility_digest s)), (''policy_digest'', JStr (sn_policy_digest s)),
     (''payment_id'', JStr (sn_payment_id s)), (''chain_id'', json_word (sn_chain_id s)), (''contract_address'', JStr (sn_contract_address s)),
     (''asset'', JStr (sn_asset s)), (''beneficiary'', JStr (sn_beneficiary s)), (''amount'', json_word (sn_amount s)),
     (''status'', JStr ''AuthorizationRequired''), (''payout_authorized'', JBool (sn_payout_authorized s)), (''signed'', JBool (sn_signed s)),
     (''network_attempted'', JBool (sn_network_attempted s)), (''value_moved'', JBool (sn_value_moved s)),
     (''claim_ceiling'', JStr (sn_claim_ceiling s)), (''resolution_digest'', JStr (sn_resolution_digest s))]"

definition resolution_computed :: "crypto \<Rightarrow> resolution \<Rightarrow> string" where
  "resolution_computed env s = digest env (json_resolution (s\<lparr>sn_resolution_digest := ''''\<rparr>))"

text \<open>The fields of \<open>validate_shape\<close>, the digest apart.\<close>

definition resolution_fields :: "resolution \<Rightarrow> bool" where
  "resolution_fields s \<longleftrightarrow> sn_schema_version s = FORMAT_VERSION \<and> sn_state_slice s = STATE_SLICE \<and> valid_digest (sn_intent_digest s) \<and>
     valid_digest (sn_reconciliation_digest s) \<and> valid_digest (sn_evidence_digest s) \<and> valid_digest (sn_artifact_digest s) \<and>
     valid_digest (sn_eligibility_digest s) \<and> valid_digest (sn_policy_digest s) \<and> adapter_text (sn_payment_id s) \<and> sn_chain_id s \<noteq> 0 \<and>
     adapter_text (sn_contract_address s) \<and> adapter_text (sn_asset s) \<and> adapter_text (sn_beneficiary s) \<and> sn_amount s = 0 \<and>
     sn_status s = AZ_AuthorizationRequired \<and> \<not> sn_payout_authorized s \<and> \<not> sn_signed s \<and> \<not> sn_network_attempted s \<and>
     \<not> sn_value_moved s \<and> sn_claim_ceiling s = CLAIM_CEILING"

definition resolution_shape :: "crypto \<Rightarrow> resolution \<Rightarrow> unit result" where
  "resolution_shape env s =
     (if \<not> resolution_fields s \<or> \<not> valid_digest (sn_resolution_digest s) \<or> sn_resolution_digest s \<noteq> resolution_computed env s
      then Inl (Err_Rejected ''crypto settlement resolution shape violates the authorization boundary'') else Inr ())"

definition resolution_validate ::
  "crypto \<Rightarrow> resolution \<Rightarrow> settlement_intent \<Rightarrow> chain_observation \<Rightarrow> reconciliation \<Rightarrow> unit result" where
  "resolution_validate env s t b r =
     try_r (intent_validate t) (\<lambda>_.
     try_r (reconciliation_validate env r t b) (\<lambda>_.
     try_r (resolution_shape env s) (\<lambda>_.
     try_r (intent_digest env t) (\<lambda>d.
     try_r (reconciliation_digest r) (\<lambda>rd.
     if sn_intent_digest s \<noteq> d \<or> sn_reconciliation_digest s \<noteq> rd \<or> sn_evidence_digest s \<noteq> it_evidence_digest t \<or>
        sn_artifact_digest s \<noteq> it_artifact_digest t \<or> sn_eligibility_digest s \<noteq> it_eligibility_digest t \<or>
        sn_policy_digest s \<noteq> it_policy_digest t \<or> sn_payment_id s \<noteq> it_payment_id t \<or> sn_chain_id s \<noteq> it_chain_id t \<or>
        sn_contract_address s \<noteq> it_contract_address t \<or> sn_asset s \<noteq> it_asset t \<or> sn_beneficiary s \<noteq> it_beneficiary t \<or>
        sn_amount s \<noteq> 0 \<or> sn_status s \<noteq> AZ_AuthorizationRequired \<or> sn_payout_authorized s \<or> sn_signed s \<or> sn_network_attempted s \<or>
        sn_value_moved s \<or> sn_claim_ceiling s \<noteq> CLAIM_CEILING \<or> sn_resolution_digest s \<noteq> resolution_computed env s
     then Inl (Err_Rejected ''crypto settlement resolution violates the authorization boundary'') else Inr ())))))"

definition resolution_digest :: "crypto \<Rightarrow> resolution \<Rightarrow> string result" where
  "resolution_digest env s = try_r (resolution_shape env s) (\<lambda>_. Inr (sn_resolution_digest s))"

definition resolution_from_reconciliation ::
  "crypto \<Rightarrow> settlement_intent \<Rightarrow> chain_observation \<Rightarrow> reconciliation \<Rightarrow> resolution result" where
  "resolution_from_reconciliation env t b r =
     try_r (intent_validate t) (\<lambda>_.
     try_r (reconciliation_validate env r t b) (\<lambda>_.
     try_r (intent_digest env t) (\<lambda>d.
     try_r (reconciliation_digest r) (\<lambda>rd.
     let s = \<lparr>sn_schema_version = FORMAT_VERSION, sn_state_slice = STATE_SLICE, sn_intent_digest = d, sn_reconciliation_digest = rd,
              sn_evidence_digest = it_evidence_digest t, sn_artifact_digest = it_artifact_digest t,
              sn_eligibility_digest = it_eligibility_digest t, sn_policy_digest = it_policy_digest t, sn_payment_id = it_payment_id t,
              sn_chain_id = it_chain_id t, sn_contract_address = it_contract_address t, sn_asset = it_asset t,
              sn_beneficiary = it_beneficiary t, sn_amount = 0, sn_status = AZ_AuthorizationRequired, sn_payout_authorized = False,
              sn_signed = False, sn_network_attempted = False, sn_value_moved = False, sn_claim_ceiling = CLAIM_CEILING,
              sn_resolution_digest = ''''\<rparr>;
         s' = s\<lparr>sn_resolution_digest := resolution_computed env s\<rparr>
     in try_r (resolution_validate env s' t b r) (\<lambda>_. Inr s')))))"

section \<open>Payout proposals\<close>

record payout =
  py_schema_version :: u8
  py_state_slice :: string
  py_intent_digest :: string
  py_resolution_digest :: string
  py_evidence_digest :: string
  py_artifact_digest :: string
  py_eligibility_digest :: string
  py_policy_digest :: string
  py_payment_id :: string
  py_idempotency_key :: string
  py_chain_id :: u64
  py_contract_address :: string
  py_asset :: string
  py_beneficiary :: string
  py_amount :: u64
  py_status :: authorization_status
  py_payout_authorized :: bool
  py_signed :: bool
  py_network_attempted :: bool
  py_value_moved :: bool
  py_claim_ceiling :: string
  py_request_digest :: string
  py_proposal_digest :: string

definition json_payout :: "payout \<Rightarrow> json" where
  "json_payout y = JObj
    [(''schema_version'', json_word (py_schema_version y)), (''state_slice'', JStr (py_state_slice y)),
     (''intent_digest'', JStr (py_intent_digest y)), (''resolution_digest'', JStr (py_resolution_digest y)),
     (''evidence_digest'', JStr (py_evidence_digest y)), (''artifact_digest'', JStr (py_artifact_digest y)),
     (''eligibility_digest'', JStr (py_eligibility_digest y)), (''policy_digest'', JStr (py_policy_digest y)),
     (''payment_id'', JStr (py_payment_id y)), (''idempotency_key'', JStr (py_idempotency_key y)), (''chain_id'', json_word (py_chain_id y)),
     (''contract_address'', JStr (py_contract_address y)), (''asset'', JStr (py_asset y)), (''beneficiary'', JStr (py_beneficiary y)),
     (''amount'', json_word (py_amount y)), (''status'', JStr ''AuthorizationRequired''), (''payout_authorized'', JBool (py_payout_authorized y)),
     (''signed'', JBool (py_signed y)), (''network_attempted'', JBool (py_network_attempted y)), (''value_moved'', JBool (py_value_moved y)),
     (''claim_ceiling'', JStr (py_claim_ceiling y)), (''request_digest'', JStr (py_request_digest y)),
     (''proposal_digest'', JStr (py_proposal_digest y))]"

definition payout_computed :: "crypto \<Rightarrow> payout \<Rightarrow> string" where
  "payout_computed env y = digest env (json_payout (y\<lparr>py_proposal_digest := ''''\<rparr>))"

definition payout_request :: "crypto \<Rightarrow> string \<Rightarrow> string \<Rightarrow> string \<Rightarrow> string" where
  "payout_request env payment rd policy = digest env (JArr [JStr ''payout-proposal-request-v1'', JStr payment, JStr rd, JStr policy])"

definition payout_fields :: "payout \<Rightarrow> bool" where
  "payout_fields y \<longleftrightarrow> py_schema_version y = FORMAT_VERSION \<and> py_state_slice y = STATE_SLICE \<and> valid_digest (py_intent_digest y) \<and>
     valid_digest (py_resolution_digest y) \<and> valid_digest (py_evidence_digest y) \<and> valid_digest (py_artifact_digest y) \<and>
     valid_digest (py_eligibility_digest y) \<and> valid_digest (py_policy_digest y) \<and> adapter_text (py_payment_id y) \<and>
     py_idempotency_key y = py_payment_id y \<and> py_chain_id y \<noteq> 0 \<and> adapter_text (py_contract_address y) \<and> adapter_text (py_asset y) \<and>
     adapter_text (py_beneficiary y) \<and> py_amount y = 0 \<and> py_status y = AZ_AuthorizationRequired \<and> \<not> py_payout_authorized y \<and>
     \<not> py_signed y \<and> \<not> py_network_attempted y \<and> \<not> py_value_moved y \<and> py_claim_ceiling y = CLAIM_CEILING \<and>
     valid_digest (py_request_digest y)"

definition payout_shape :: "crypto \<Rightarrow> payout \<Rightarrow> unit result" where
  "payout_shape env y =
     (if \<not> payout_fields y \<or> \<not> valid_digest (py_proposal_digest y) \<or> py_proposal_digest y \<noteq> payout_computed env y
      then Inl (Err_Rejected ''crypto payout proposal shape violates the authorization boundary'') else Inr ())"

definition payout_validate :: "crypto \<Rightarrow> payout \<Rightarrow> settlement_intent \<Rightarrow> resolution \<Rightarrow> unit result" where
  "payout_validate env y t s =
     try_r (intent_validate t) (\<lambda>_.
     try_r (resolution_shape env s) (\<lambda>_.
     try_r (payout_shape env y) (\<lambda>_.
     try_r (intent_digest env t) (\<lambda>d.
     try_r (resolution_digest env s) (\<lambda>rd.
     if py_intent_digest y \<noteq> d \<or> py_resolution_digest y \<noteq> rd \<or> py_evidence_digest y \<noteq> it_evidence_digest t \<or>
        py_artifact_digest y \<noteq> it_artifact_digest t \<or> py_eligibility_digest y \<noteq> it_eligibility_digest t \<or>
        py_policy_digest y \<noteq> it_policy_digest t \<or> py_payment_id y \<noteq> it_payment_id t \<or> py_idempotency_key y \<noteq> it_payment_id t \<or>
        py_chain_id y \<noteq> it_chain_id t \<or> py_contract_address y \<noteq> it_contract_address t \<or> py_asset y \<noteq> it_asset t \<or>
        py_beneficiary y \<noteq> it_beneficiary t \<or> py_amount y \<noteq> 0 \<or> py_status y \<noteq> AZ_AuthorizationRequired \<or> py_payout_authorized y \<or>
        py_signed y \<or> py_network_attempted y \<or> py_value_moved y \<or> py_claim_ceiling y \<noteq> CLAIM_CEILING \<or>
        py_request_digest y \<noteq> payout_request env (it_payment_id t) rd (it_policy_digest t) \<or> py_proposal_digest y \<noteq> payout_computed env y
     then Inl (Err_Rejected ''crypto payout proposal violates the authorization boundary'') else Inr ())))))"

definition payout_digest :: "crypto \<Rightarrow> payout \<Rightarrow> string result" where
  "payout_digest env y = try_r (payout_shape env y) (\<lambda>_. Inr (py_proposal_digest y))"

definition payout_from_resolution :: "crypto \<Rightarrow> settlement_intent \<Rightarrow> resolution \<Rightarrow> payout result" where
  "payout_from_resolution env t s =
     try_r (intent_validate t) (\<lambda>_.
     try_r (resolution_shape env s) (\<lambda>_.
     try_r (resolution_digest env s) (\<lambda>rd.
     try_r (intent_digest env t) (\<lambda>d.
     let y = \<lparr>py_schema_version = FORMAT_VERSION, py_state_slice = STATE_SLICE, py_intent_digest = d, py_resolution_digest = rd,
              py_evidence_digest = it_evidence_digest t, py_artifact_digest = it_artifact_digest t,
              py_eligibility_digest = it_eligibility_digest t, py_policy_digest = it_policy_digest t, py_payment_id = it_payment_id t,
              py_idempotency_key = it_payment_id t, py_chain_id = it_chain_id t, py_contract_address = it_contract_address t,
              py_asset = it_asset t, py_beneficiary = it_beneficiary t, py_amount = 0, py_status = AZ_AuthorizationRequired,
              py_payout_authorized = False, py_signed = False, py_network_attempted = False, py_value_moved = False,
              py_claim_ceiling = CLAIM_CEILING, py_request_digest = payout_request env (it_payment_id t) rd (it_policy_digest t),
              py_proposal_digest = ''''\<rparr>;
         y' = y\<lparr>py_proposal_digest := payout_computed env y\<rparr>
     in try_r (payout_validate env y' t s) (\<lambda>_. Inr y')))))"

section \<open>Seals\<close>

interpretation resolution_seal: sealed sn_resolution_digest "\<lambda>d s. s\<lparr>sn_resolution_digest := d\<rparr>" resolution_computed
    "\<lambda>s. if resolution_fields s then Inr () else Inl (Err_Rejected [])" "\<lambda>s. json_resolution (s\<lparr>sn_resolution_digest := ''''\<rparr>)" resolution_shape
proof
  fix d :: string and s s' :: resolution and env
  show "(if resolution_fields (s\<lparr>sn_resolution_digest := d\<rparr>) then Inr () else Inl (Err_Rejected [])) =
      (if resolution_fields s then Inr () else Inl (Err_Rejected []))" by (simp add: resolution_fields_def)
  show "s\<lparr>sn_resolution_digest := d\<rparr> = s'\<lparr>sn_resolution_digest := d\<rparr>"
    if "json_resolution (s\<lparr>sn_resolution_digest := ''''\<rparr>) = json_resolution (s'\<lparr>sn_resolution_digest := ''''\<rparr>)"
  proof -
    have "sn_status s = sn_status s'" by (metis authorization_status.exhaust)
    then show ?thesis using that by (cases s, cases s') (simp add: json_resolution_def)
  qed
  show "resolution_shape env s = Inr () \<longleftrightarrow> (if resolution_fields s then Inr () else Inl (Err_Rejected [])) = Inr () \<and>
      valid_digest (sn_resolution_digest s) \<and> sn_resolution_digest s = resolution_computed env s"
    by (auto simp: resolution_shape_def)
qed (simp_all add: resolution_computed_def)

interpretation payout_seal: sealed py_proposal_digest "\<lambda>d y. y\<lparr>py_proposal_digest := d\<rparr>" payout_computed
    "\<lambda>y. if payout_fields y then Inr () else Inl (Err_Rejected [])" "\<lambda>y. json_payout (y\<lparr>py_proposal_digest := ''''\<rparr>)" payout_shape
proof
  fix d :: string and y y' :: payout and env
  show "(if payout_fields (y\<lparr>py_proposal_digest := d\<rparr>) then Inr () else Inl (Err_Rejected [])) =
      (if payout_fields y then Inr () else Inl (Err_Rejected []))" by (simp add: payout_fields_def)
  show "y\<lparr>py_proposal_digest := d\<rparr> = y'\<lparr>py_proposal_digest := d\<rparr>"
    if "json_payout (y\<lparr>py_proposal_digest := ''''\<rparr>) = json_payout (y'\<lparr>py_proposal_digest := ''''\<rparr>)"
  proof -
    have "py_status y = py_status y'" by (metis authorization_status.exhaust)
    then show ?thesis using that by (cases y, cases y') (simp add: json_payout_def)
  qed
  show "payout_shape env y = Inr () \<longleftrightarrow> (if payout_fields y then Inr () else Inl (Err_Rejected [])) = Inr () \<and>
      valid_digest (py_proposal_digest y) \<and> py_proposal_digest y = payout_computed env y"
    by (auto simp: payout_shape_def)
qed (simp_all add: payout_computed_def)

section \<open>From a match to a proposal\<close>

lemma resolution_shape_fields: "resolution_shape env s = Inr () \<Longrightarrow> resolution_fields s \<and> resolution_digest env s = Inr (sn_resolution_digest s)"
  by (auto simp: resolution_digest_def resolution_shape_def split: if_splits)

lemma resolution_total:
  assumes "sha256_len env" and "reconciliation_validate env r t b = Inr ()"
  obtains s where "resolution_from_reconciliation env t b r = Inr s" "resolution_validate env s t b r = Inr ()"
proof -
  have t: "intent_validate t = Inr ()" and r: "valid_digest (rc_result_digest r)"
    using assms(2) by (auto simp: reconciliation_validate_def try_r_eq_Inr split: if_splits)
  note f = intent_valid_fields [OF t]
  let ?d = "digest env (json_intent t)"
  let ?s = "\<lparr>sn_schema_version = FORMAT_VERSION, sn_state_slice = STATE_SLICE, sn_intent_digest = ?d, sn_reconciliation_digest = rc_result_digest r,
    sn_evidence_digest = it_evidence_digest t, sn_artifact_digest = it_artifact_digest t, sn_eligibility_digest = it_eligibility_digest t,
    sn_policy_digest = it_policy_digest t, sn_payment_id = it_payment_id t, sn_chain_id = it_chain_id t, sn_contract_address = it_contract_address t,
    sn_asset = it_asset t, sn_beneficiary = it_beneficiary t, sn_amount = 0, sn_status = AZ_AuthorizationRequired, sn_payout_authorized = False,
    sn_signed = False, sn_network_attempted = False, sn_value_moved = False, sn_claim_ceiling = CLAIM_CEILING, sn_resolution_digest = ''''\<rparr>"
  have rd: "reconciliation_digest r = Inr (rc_result_digest r)" using valid_digest_nonempty [OF r] by (simp add: reconciliation_digest_def)
  have "resolution_fields ?s" using f r assms(1) by (simp add: resolution_fields_def)
  then have shape: "resolution_shape env (resolution_seal.reseal env ?s) = Inr ()" using resolution_seal.reseal_valid [OF assms(1), of ?s] by simp
  then have seal: "sn_resolution_digest (resolution_seal.reseal env ?s) = resolution_computed env (resolution_seal.reseal env ?s)"
    unfolding resolution_seal.validate_iff by blast
  have eq: "resolution_seal.reseal env ?s = ?s\<lparr>sn_resolution_digest := resolution_computed env ?s\<rparr>" by (simp add: resolution_seal.reseal_def)
  have v: "resolution_validate env (resolution_seal.reseal env ?s) t b r = Inr ()"
    using shape seal assms(2) t rd unfolding resolution_validate_def by (simp add: intent_digest_def) (simp add: eq)
  then have "resolution_from_reconciliation env t b r = Inr (resolution_seal.reseal env ?s)"
    using assms(2) t rd unfolding resolution_from_reconciliation_def by (simp add: intent_digest_def Let_def eq)
  then show thesis using that v by blast
qed

lemma payout_total:
  assumes "sha256_len env" and t: "intent_validate t = Inr ()" and s: "resolution_shape env s = Inr ()"
  obtains y where "payout_from_resolution env t s = Inr y" "payout_validate env y t s = Inr ()"
proof -
  note f = intent_valid_fields [OF t]
  note rd = resolution_shape_fields [OF s, THEN conjunct2]
  have rv: "valid_digest (sn_resolution_digest s)" using s by (auto simp: resolution_shape_def split: if_splits)
  let ?y = "\<lparr>py_schema_version = FORMAT_VERSION, py_state_slice = STATE_SLICE, py_intent_digest = digest env (json_intent t),
    py_resolution_digest = sn_resolution_digest s, py_evidence_digest = it_evidence_digest t, py_artifact_digest = it_artifact_digest t,
    py_eligibility_digest = it_eligibility_digest t, py_policy_digest = it_policy_digest t, py_payment_id = it_payment_id t,
    py_idempotency_key = it_payment_id t, py_chain_id = it_chain_id t, py_contract_address = it_contract_address t, py_asset = it_asset t,
    py_beneficiary = it_beneficiary t, py_amount = 0, py_status = AZ_AuthorizationRequired, py_payout_authorized = False, py_signed = False,
    py_network_attempted = False, py_value_moved = False, py_claim_ceiling = CLAIM_CEILING,
    py_request_digest = payout_request env (it_payment_id t) (sn_resolution_digest s) (it_policy_digest t), py_proposal_digest = ''''\<rparr>"
  have "payout_fields ?y" using f rv assms(1) by (simp add: payout_fields_def payout_request_def)
  then have shape: "payout_shape env (payout_seal.reseal env ?y) = Inr ()" using payout_seal.reseal_valid [OF assms(1), of ?y] by simp
  then have seal: "py_proposal_digest (payout_seal.reseal env ?y) = payout_computed env (payout_seal.reseal env ?y)"
    unfolding payout_seal.validate_iff by blast
  have eq: "payout_seal.reseal env ?y = ?y\<lparr>py_proposal_digest := payout_computed env ?y\<rparr>" by (simp add: payout_seal.reseal_def)
  have v: "payout_validate env (payout_seal.reseal env ?y) t s = Inr ()"
    using shape seal t s rd unfolding payout_validate_def by (simp add: intent_digest_def) (simp add: eq)
  then have "payout_from_resolution env t s = Inr (payout_seal.reseal env ?y)"
    using t s rd unfolding payout_from_resolution_def by (simp add: intent_digest_def Let_def eq)
  then show thesis using that v by blast
qed

text \<open>
  A match leads to a proposal and no further.  Whenever \<open>reconcile\<close> matches an observation with an intent, the resolution and the payout proposal can be
  built and validate; both name the intent by its digest and carry its evidence, artifact and policy digests, move a zero amount and still require
  authorization, and the proposal's digest determines the proposal (unless SHA-256 collides).
\<close>

theorem match_ends_in_proposal:
  assumes "sha256_len env" and "reconcile env t b = Inr r"
  shows "\<exists>s y. resolution_from_reconciliation env t b r = Inr s \<and> payout_from_resolution env t s = Inr y \<and>
    resolution_validate env s t b r = Inr () \<and> payout_validate env y t s = Inr () \<and>
    py_intent_digest y = digest env (json_intent t) \<and> py_resolution_digest y = sn_resolution_digest s \<and>
    py_evidence_digest y = it_evidence_digest t \<and> py_artifact_digest y = it_artifact_digest t \<and> py_beneficiary y = it_beneficiary t \<and>
    py_amount y = 0 \<and> sn_amount s = 0 \<and> py_status y = AZ_AuthorizationRequired \<and> \<not> py_payout_authorized y \<and> \<not> sn_payout_authorized s \<and>
    \<not> py_signed y \<and> \<not> py_network_attempted y \<and> \<not> py_value_moved y \<and>
    (\<forall>y'. payout_shape env y' = Inr () \<and> py_proposal_digest y' = py_proposal_digest y \<longrightarrow>
       y' = y \<or> collision env (json_payout (y'\<lparr>py_proposal_digest := ''''\<rparr>)) (json_payout (y\<lparr>py_proposal_digest := ''''\<rparr>)))"
proof -
  have r: "reconciliation_validate env r t b = Inr ()" by (rule reconcile_Inr(2) [OF assms])
  obtain s where s: "resolution_from_reconciliation env t b r = Inr s" "resolution_validate env s t b r = Inr ()"
    by (rule resolution_total [OF assms(1) r])
  have t: "intent_validate t = Inr ()" and shape: "resolution_shape env s = Inr ()"
    using s(2) by (auto simp: resolution_validate_def try_r_eq_Inr)
  obtain y where y: "payout_from_resolution env t s = Inr y" "payout_validate env y t s = Inr ()" by (rule payout_total [OF assms(1) t shape])
  have ys: "payout_shape env y = Inr ()" using y(2) by (auto simp: payout_validate_def try_r_eq_Inr)
  have sf: "sn_amount s = 0" "\<not> sn_payout_authorized s" using resolution_shape_fields [OF shape] by (auto simp: resolution_fields_def)
  have yf: "py_intent_digest y = digest env (json_intent t)" "py_resolution_digest y = sn_resolution_digest s"
    "py_evidence_digest y = it_evidence_digest t" "py_artifact_digest y = it_artifact_digest t" "py_beneficiary y = it_beneficiary t"
    "py_amount y = 0" "py_status y = AZ_AuthorizationRequired" "\<not> py_payout_authorized y" "\<not> py_signed y" "\<not> py_network_attempted y"
    "\<not> py_value_moved y"
    using y(2) resolution_shape_fields [OF shape] by (auto simp: payout_validate_def intent_digest_ok try_r_eq_Inr split: if_splits)
  have "y' = y \<or> collision env (json_payout (y'\<lparr>py_proposal_digest := ''''\<rparr>)) (json_payout (y\<lparr>py_proposal_digest := ''''\<rparr>))"
    if "payout_shape env y' = Inr () \<and> py_proposal_digest y' = py_proposal_digest y" for y'
    using payout_seal.seal_binds [of env y' y] that ys by blast
  then show ?thesis using s y sf yf by blast
qed

text \<open>
  C35.  A payout proposal does not look at the intent of its resolution.  \<open>from_resolution\<close> succeeds exactly when the intent is valid and the resolution is well
  formed: the resolution of one intent, which names that intent's digest, backs a validated payout proposal for any other valid intent as well.
\<close>

theorem payout_takes_any_resolution:
  assumes "sha256_len env"
  shows "(is_ok (payout_from_resolution env t s) \<longleftrightarrow> intent_validate t = Inr () \<and> resolution_shape env s = Inr ()) \<and>
    (reconcile env t' b = Inr r \<and> intent_validate t = Inr () \<longrightarrow>
       (\<exists>s' y. resolution_from_reconciliation env t' b r = Inr s' \<and> sn_intent_digest s' = digest env (json_intent t') \<and>
          payout_from_resolution env t s' = Inr y \<and> payout_validate env y t s' = Inr () \<and> py_intent_digest y = digest env (json_intent t)))"
proof (intro conjI impI)
  show "is_ok (payout_from_resolution env t s) \<longleftrightarrow> intent_validate t = Inr () \<and> resolution_shape env s = Inr ()"
  proof
    assume "is_ok (payout_from_resolution env t s)"
    then show "intent_validate t = Inr () \<and> resolution_shape env s = Inr ()"
      by (cases "intent_validate t"; cases "resolution_shape env s") (simp_all add: payout_from_resolution_def)
  next
    assume "intent_validate t = Inr () \<and> resolution_shape env s = Inr ()"
    then obtain y where "payout_from_resolution env t s = Inr y" using payout_total [OF assms, of t s] by metis
    then show "is_ok (payout_from_resolution env t s)" by simp
  qed
next
  assume "reconcile env t' b = Inr r \<and> intent_validate t = Inr ()"
  then have r: "reconcile env t' b = Inr r" and t: "intent_validate t = Inr ()" by simp_all
  obtain s' where s: "resolution_from_reconciliation env t' b r = Inr s'" "resolution_validate env s' t' b r = Inr ()"
    by (rule resolution_total [OF assms reconcile_Inr(2) [OF assms r]])
  have sh: "resolution_shape env s' = Inr ()" and d: "sn_intent_digest s' = digest env (json_intent t')"
    using s(2) by (auto simp: resolution_validate_def intent_digest_ok try_r_eq_Inr split: if_splits)
  obtain y where y: "payout_from_resolution env t s' = Inr y" "payout_validate env y t s' = Inr ()" by (rule payout_total [OF assms t sh])
  have "py_intent_digest y = digest env (json_intent t)" using y(2) by (auto simp: payout_validate_def intent_digest_ok try_r_eq_Inr split: if_splits)
  then show "\<exists>s' y. resolution_from_reconciliation env t' b r = Inr s' \<and> sn_intent_digest s' = digest env (json_intent t') \<and>
      payout_from_resolution env t s' = Inr y \<and> payout_validate env y t s' = Inr () \<and> py_intent_digest y = digest env (json_intent t)"
    using s(1) d y by blast
qed

theorem match_ends_in_proposal_witness:
  "\<exists>r s y. reconcile demo_env demo_intent demo_observation = Inr r \<and> resolution_from_reconciliation demo_env demo_intent demo_observation r = Inr s \<and>
     payout_from_resolution demo_env demo_intent s = Inr y \<and> \<not> py_payout_authorized y"
proof -
  obtain r where r: "reconcile demo_env demo_intent demo_observation = Inr r"
    using reconcile_Inr(1) [OF demo_sha256_len, of demo_intent demo_observation] demo_intent_valid demo_observation_ok by blast
  from match_ends_in_proposal [OF demo_sha256_len r] r show ?thesis by blast
qed

theorem payout_takes_any_resolution_witness:
  "\<exists>r s y. resolution_from_reconciliation demo_env demo_intent demo_observation r = Inr s \<and>
     payout_from_resolution demo_env (demo_intent\<lparr>it_intent_id := ''i2'', it_payment_id := ''p2''\<rparr>) s = Inr y"
proof -
  obtain r where r: "reconcile demo_env demo_intent demo_observation = Inr r"
    using reconcile_Inr(1) [OF demo_sha256_len, of demo_intent demo_observation] demo_intent_valid demo_observation_ok by blast
  have "intent_validate (demo_intent\<lparr>it_intent_id := ''i2'', it_payment_id := ''p2''\<rparr>) = Inr ()"
    by (simp add: intent_validate_def demo_intent_def adapter_text_def ascii_control_def)
  then show ?thesis
    using payout_takes_any_resolution [OF demo_sha256_len, of "demo_intent\<lparr>it_intent_id := ''i2'', it_payment_id := ''p2''\<rparr>" undefined
        demo_intent demo_observation r] r by blast
qed

end
