(* ===== verification/Crypto_Journal.thy ===== *)
theory Crypto_Journal
  imports Payout Plain_Files Machine
begin

text \<open>
  The journal of src/crypto_adapters.rs: hash-chained events that take each settlement intent through its stages, with one idempotency key per intent.
  \<open>validate\<close> replays the whole journal with four containers and two running values; here it is equivalent to a condition on each event and the events before it.  The
  operations refine a ledger that keeps, for each intent, its stage, its subjects and its key.
\<close>

section \<open>Events\<close>

datatype adapter_event_kind = EK_Proposed | EK_DryRunPrepared | EK_Reconciled | EK_PayoutProposed | EK_Quarantined

fun event_kind_rank :: "adapter_event_kind \<Rightarrow> nat" where
  "event_kind_rank EK_Proposed = 0"
| "event_kind_rank EK_DryRunPrepared = 1"
| "event_kind_rank EK_Reconciled = 2"
| "event_kind_rank EK_PayoutProposed = 3"
| "event_kind_rank EK_Quarantined = 4"

lemma event_kind_rank_inject: "event_kind_rank a = event_kind_rank b \<longleftrightarrow> a = b"
  by (cases a; cases b) simp_all

instantiation adapter_event_kind :: linorder
begin

definition less_eq_adapter_event_kind :: "adapter_event_kind \<Rightarrow> adapter_event_kind \<Rightarrow> bool" where
  "less_eq_adapter_event_kind a b \<longleftrightarrow> event_kind_rank a \<le> event_kind_rank b"

definition less_adapter_event_kind :: "adapter_event_kind \<Rightarrow> adapter_event_kind \<Rightarrow> bool" where
  "less_adapter_event_kind a b \<longleftrightarrow> event_kind_rank a < event_kind_rank b"

instance
  by standard (auto simp: less_eq_adapter_event_kind_def less_adapter_event_kind_def event_kind_rank_inject)

end

fun event_kind_name :: "adapter_event_kind \<Rightarrow> string" where
  "event_kind_name EK_Proposed = ''Proposed''"
| "event_kind_name EK_DryRunPrepared = ''DryRunPrepared''"
| "event_kind_name EK_Reconciled = ''Reconciled''"
| "event_kind_name EK_PayoutProposed = ''PayoutProposed''"
| "event_kind_name EK_Quarantined = ''Quarantined''"

lemma event_kind_name_inject [simp]: "event_kind_name a = event_kind_name b \<longleftrightarrow> a = b"
  by (cases a; cases b) simp_all

record crypto_event =
  ce_schema_version :: u8
  ce_state_slice :: string
  ce_sequence :: u64
  ce_intent_digest :: string
  ce_idempotency_key :: string
  ce_kind :: adapter_event_kind
  ce_subject_digest :: string
  ce_previous_event_digest :: "string option"
  ce_recorded_at :: u64
  ce_event_digest :: string

definition json_crypto_event :: "crypto_event \<Rightarrow> json" where
  "json_crypto_event e = JObj
    [(''schema_version'', json_word (ce_schema_version e)), (''state_slice'', JStr (ce_state_slice e)), (''sequence'', json_word (ce_sequence e)),
     (''intent_digest'', JStr (ce_intent_digest e)), (''idempotency_key'', JStr (ce_idempotency_key e)),
     (''kind'', JStr (event_kind_name (ce_kind e))), (''subject_digest'', JStr (ce_subject_digest e)),
     (''previous_event_digest'', case ce_previous_event_digest e of None \<Rightarrow> JNull | Some d \<Rightarrow> JStr d),
     (''recorded_at'', json_word (ce_recorded_at e)), (''event_digest'', JStr (ce_event_digest e))]"

definition event_computed_digest :: "crypto \<Rightarrow> crypto_event \<Rightarrow> string" where
  "event_computed_digest env e = digest env (json_crypto_event (e\<lparr>ce_event_digest := ''''\<rparr>))"

fun transition_is_valid :: "adapter_event_kind option \<Rightarrow> adapter_event_kind \<Rightarrow> bool" where
  "transition_is_valid None EK_Proposed = True"
| "transition_is_valid (Some EK_Proposed) EK_DryRunPrepared = True"
| "transition_is_valid (Some EK_Proposed) EK_Quarantined = True"
| "transition_is_valid (Some EK_DryRunPrepared) EK_Reconciled = True"
| "transition_is_valid (Some EK_DryRunPrepared) EK_Quarantined = True"
| "transition_is_valid (Some EK_Reconciled) EK_PayoutProposed = True"
| "transition_is_valid _ _ = False"

section \<open>Validation\<close>

text \<open>The variables of the loop of \<open>validate\<close>.\<close>

record journal_scan =
  js_expected_sequence :: nat
  js_previous_event_digest :: "string option"
  js_previous_recorded_at :: "u64 option"
  js_states :: "(string, adapter_event_kind) btree"
  js_idempotency_keys :: "(string, string) btree"
  js_intent_keys :: "(string, string) btree"
  js_identities :: "(string \<times> adapter_event_kind \<times> string) bset"

definition scan_start :: journal_scan where
  "scan_start = \<lparr>js_expected_sequence = 0, js_previous_event_digest = None, js_previous_recorded_at = None, js_states = [],
     js_idempotency_keys = [], js_intent_keys = [], js_identities = []\<rparr>"

definition event_malformed :: "crypto \<Rightarrow> journal_scan \<Rightarrow> crypto_event \<Rightarrow> bool" where
  "event_malformed env a e \<longleftrightarrow> ce_schema_version e \<noteq> FORMAT_VERSION \<or> ce_state_slice e \<noteq> STATE_SLICE \<or>
     ce_sequence e \<noteq> of_nat (js_expected_sequence a) \<or> \<not> valid_digest (ce_intent_digest e) \<or> \<not> adapter_text (ce_idempotency_key e) \<or>
     \<not> valid_digest (ce_subject_digest e) \<or> ce_previous_event_digest e \<noteq> js_previous_event_digest a \<or>
     (case js_previous_recorded_at a of None \<Rightarrow> False | Some previous \<Rightarrow> ce_recorded_at e < previous) \<or>
     \<not> valid_digest (ce_event_digest e) \<or> ce_event_digest e \<noteq> event_computed_digest env e"

definition event_identity :: "crypto_event \<Rightarrow> string \<times> adapter_event_kind \<times> string" where
  "event_identity e = (ce_intent_digest e, ce_kind e, ce_subject_digest e)"

definition event_check :: "crypto \<Rightarrow> journal_scan \<Rightarrow> crypto_event \<Rightarrow> journal_scan result" where
  "event_check env a e =
     (if event_malformed env a e then Inl (Err_Journal ''crypto journal event is malformed or not hash chained'')
      else if (case bt_get (js_idempotency_keys a) (ce_idempotency_key e) of None \<Rightarrow> False | Some d \<Rightarrow> d \<noteq> ce_intent_digest e)
      then Inl (Err_Journal ''crypto idempotency key was reused for another intent'')
      else if (case bt_get (js_intent_keys a) (ce_intent_digest e) of None \<Rightarrow> False | Some k \<Rightarrow> k \<noteq> ce_idempotency_key e)
      then Inl (Err_Journal ''crypto intent was assigned multiple idempotency keys'')
      else if bs_contains (js_identities a) (event_identity e)
      then Inl (Err_Journal ''crypto journal contains a duplicate event identity'')
      else if \<not> transition_is_valid (bt_get (js_states a) (ce_intent_digest e)) (ce_kind e)
      then Inl (Err_Journal ''crypto journal contains an invalid intent transition'')
      else Inr \<lparr>js_expected_sequence = Suc (js_expected_sequence a), js_previous_event_digest = Some (ce_event_digest e),
        js_previous_recorded_at = Some (ce_recorded_at e), js_states = bt_insert (ce_intent_digest e) (ce_kind e) (js_states a),
        js_idempotency_keys = bt_insert (ce_idempotency_key e) (ce_intent_digest e) (js_idempotency_keys a),
        js_intent_keys = bt_insert (ce_intent_digest e) (ce_idempotency_key e) (js_intent_keys a),
        js_identities = bs_insert (event_identity e) (js_identities a)\<rparr>)"

fun scan_events :: "crypto \<Rightarrow> journal_scan \<Rightarrow> crypto_event list \<Rightarrow> journal_scan result" where
  "scan_events env a [] = Inr a"
| "scan_events env a (e # es) = try_r (event_check env a e) (\<lambda>a'. scan_events env a' es)"

record crypto_journal =
  cj_events :: "crypto_event list"

definition crypto_journal_default :: crypto_journal where
  "crypto_journal_default = \<lparr>cj_events = []\<rparr>"

definition crypto_journal_validate :: "crypto \<Rightarrow> crypto_journal \<Rightarrow> unit result" where
  "crypto_journal_validate env j = try_r (scan_events env scan_start (cj_events j)) (\<lambda>_. Inr ())"

text \<open>The stage of an intent: \<open>iter().rev().find(..).map(|event| event.kind)\<close>.\<close>

definition intent_stage :: "crypto_event list \<Rightarrow> string \<Rightarrow> adapter_event_kind option" where
  "intent_stage es d = map_option ce_kind (find (\<lambda>e. ce_intent_digest e = d) (rev es))"

definition crypto_journal_state :: "crypto \<Rightarrow> crypto_journal \<Rightarrow> string \<Rightarrow> adapter_event_kind option result" where
  "crypto_journal_state env j d =
     try_r (crypto_journal_validate env j) (\<lambda>_.
     if \<not> valid_digest d then Inl (Err_Invalid ''crypto intent digest is malformed'') else Inr (intent_stage (cj_events j) d))"

section \<open>Appending\<close>

datatype append_disposition = AD_Appended | AD_AlreadyPresent

definition last_of :: "('a \<Rightarrow> 'b) \<Rightarrow> 'a list \<Rightarrow> 'b option" where
  "last_of f es = (if es = [] then None else Some (f (last es)))"

definition new_event :: "crypto \<Rightarrow> crypto_event list \<Rightarrow> string \<Rightarrow> string \<Rightarrow> adapter_event_kind \<Rightarrow> string \<Rightarrow> u64 \<Rightarrow> crypto_event" where
  "new_event env es d key kind subject recorded_at =
     (let e = \<lparr>ce_schema_version = FORMAT_VERSION, ce_state_slice = STATE_SLICE, ce_sequence = of_nat (length es), ce_intent_digest = d,
               ce_idempotency_key = key, ce_kind = kind, ce_subject_digest = subject, ce_previous_event_digest = last_of ce_event_digest es,
               ce_recorded_at = recorded_at, ce_event_digest = ''''\<rparr>
      in e\<lparr>ce_event_digest := event_computed_digest env e\<rparr>)"

definition append_event ::
  "crypto \<Rightarrow> string \<Rightarrow> string \<Rightarrow> adapter_event_kind \<Rightarrow> string \<Rightarrow> u64 \<Rightarrow> crypto_journal \<Rightarrow> append_disposition result \<times> crypto_journal" where
  "append_event env d key kind subject recorded_at j =
     (let es = cj_events j in
      case crypto_journal_validate env j of Inl err \<Rightarrow> (Inl err, j) | Inr _ \<Rightarrow>
      if \<not> valid_digest d \<or> \<not> adapter_text key \<or> \<not> valid_digest subject
      then (Inl (Err_Invalid ''crypto journal append is malformed''), j)
      else case find (\<lambda>e. ce_intent_digest e = d \<and> ce_kind e = kind) es of
        Some existing \<Rightarrow>
          if ce_idempotency_key existing = key \<and> ce_subject_digest existing = subject then (Inr AD_AlreadyPresent, j)
          else (Inl (Err_Quarantined ''crypto idempotency key already has a different subject''), j)
      | None \<Rightarrow>
        if list_ex (\<lambda>e. ce_idempotency_key e = key \<and> ce_intent_digest e \<noteq> d) es
        then (Inl (Err_Quarantined ''crypto idempotency key belongs to another intent''), j)
        else if list_ex (\<lambda>e. ce_intent_digest e = d \<and> ce_idempotency_key e \<noteq> key) es
        then (Inl (Err_Quarantined ''crypto intent already has another idempotency key''), j)
        else if (case last_of ce_recorded_at es of None \<Rightarrow> False | Some t \<Rightarrow> recorded_at < t)
        then (Inl (Err_Rejected ''crypto journal event time moves backward''), j)
        else if \<not> transition_is_valid (intent_stage es d) kind
        then (Inl (Err_Rejected ''crypto journal transition is not allowed''), j)
        else
          let j' = j\<lparr>cj_events := es @ [new_event env es d key kind subject recorded_at]\<rparr> in
          case crypto_journal_validate env j' of
            Inl err \<Rightarrow> (Inl err, j'\<lparr>cj_events := butlast (cj_events j')\<rparr>)
          | Inr _ \<Rightarrow> (Inr AD_Appended, j'))"

definition append_proposed ::
  "crypto \<Rightarrow> settlement_intent \<Rightarrow> u64 \<Rightarrow> crypto_journal \<Rightarrow> append_disposition result \<times> crypto_journal" where
  "append_proposed env t recorded_at j =
     (case try_r (intent_validate t) (\<lambda>_. intent_digest env t) of
        Inl err \<Rightarrow> (Inl err, j)
      | Inr d \<Rightarrow> append_event env d (it_payment_id t) EK_Proposed d recorded_at j)"

definition append_prepared ::
  "crypto \<Rightarrow> settlement_intent \<Rightarrow> dry_run_receipt \<Rightarrow> u64 \<Rightarrow> crypto_journal \<Rightarrow> append_disposition result \<times> crypto_journal" where
  "append_prepared env t r recorded_at j =
     (case try_r (dry_run_validate env r t) (\<lambda>_.
           try_r (intent_digest env t) (\<lambda>d.
           if dr_intent_digest r \<noteq> d then Inl (Err_Quarantined ''crypto dry-run receipt is bound to another intent'')
           else try_r (dry_run_digest r) (\<lambda>rd. Inr (d, rd)))) of
        Inl err \<Rightarrow> (Inl err, j)
      | Inr (d, rd) \<Rightarrow> append_event env d (it_payment_id t) EK_DryRunPrepared rd recorded_at j)"

definition append_reconciled ::
  "crypto \<Rightarrow> settlement_intent \<Rightarrow> chain_observation \<Rightarrow> reconciliation \<Rightarrow> u64 \<Rightarrow> crypto_journal \<Rightarrow> append_disposition result \<times> crypto_journal" where
  "append_reconciled env t b r recorded_at j =
     (case try_r (reconciliation_validate env r t b) (\<lambda>_.
           try_r (intent_digest env t) (\<lambda>d.
           try_r (reconciliation_digest r) (\<lambda>rd. Inr (d, rd)))) of
        Inl err \<Rightarrow> (Inl err, j)
      | Inr (d, rd) \<Rightarrow> append_event env d (it_payment_id t) EK_Reconciled rd recorded_at j)"

definition append_payout_proposed ::
  "crypto \<Rightarrow> settlement_intent \<Rightarrow> resolution \<Rightarrow> payout \<Rightarrow> u64 \<Rightarrow> crypto_journal \<Rightarrow> append_disposition result \<times> crypto_journal" where
  "append_payout_proposed env t s y recorded_at j =
     (case try_r (payout_validate env y t s) (\<lambda>_.
           try_r (intent_digest env t) (\<lambda>d.
           if py_intent_digest y \<noteq> d then Inl (Err_Quarantined ''crypto payout proposal is bound to another intent'')
           else try_r (payout_digest env y) (\<lambda>yd. Inr (d, yd)))) of
        Inl err \<Rightarrow> (Inl err, j)
      | Inr (d, yd) \<Rightarrow> append_event env d (it_payment_id t) EK_PayoutProposed yd recorded_at j)"

definition append_quarantined ::
  "crypto \<Rightarrow> settlement_intent \<Rightarrow> string \<Rightarrow> u64 \<Rightarrow> crypto_journal \<Rightarrow> append_disposition result \<times> crypto_journal" where
  "append_quarantined env t subject recorded_at j =
     (case try_r (intent_validate t) (\<lambda>_.
           if \<not> valid_digest subject then Inl (Err_Invalid ''crypto quarantine subject digest is malformed'')
           else intent_digest env t) of
        Inl err \<Rightarrow> (Inl err, j)
      | Inr d \<Rightarrow> append_event env d (it_payment_id t) EK_Quarantined subject recorded_at j)"

section \<open>The file\<close>

record journal_document =
  jd_version :: u8
  jd_events :: "crypto_event list"

definition json_journal_document :: "journal_document \<Rightarrow> json" where
  "json_journal_document d = JObj [(''version'', json_word (jd_version d)), (''events'', JArr (map json_crypto_event (jd_events d)))]"

definition crypto_journal_document :: "crypto_journal \<Rightarrow> journal_document" where
  "crypto_journal_document j = \<lparr>jd_version = FORMAT_VERSION, jd_events = cj_events j\<rparr>"

definition journal_noncanonical :: string where
  "journal_noncanonical = ''crypto journal bytes are not canonical JSON''"

definition crypto_journal_build :: "crypto \<Rightarrow> journal_document \<Rightarrow> crypto_journal result" where
  "crypto_journal_build env d =
     (if jd_version d \<noteq> FORMAT_VERSION then Inl (Err_Journal journal_noncanonical)
      else let j = \<lparr>cj_events = jd_events d\<rparr> in try_r (crypto_journal_validate env j) (\<lambda>_. Inr j))"

definition crypto_journal_save :: "crypto \<Rightarrow> io \<Rightarrow> crypto_journal \<Rightarrow> path \<Rightarrow> fs \<Rightarrow> unit result \<times> fs" where
  "crypto_journal_save env = plain_save env (crypto_journal_validate env) (\<lambda>j. json_journal_document (crypto_journal_document j))"

definition crypto_journal_load :: "crypto \<Rightarrow> (u8 list \<Rightarrow> journal_document result) \<Rightarrow> io \<Rightarrow> fs \<Rightarrow> path \<Rightarrow> crypto_journal result" where
  "crypto_journal_load env de = plain_load env de json_journal_document journal_noncanonical (crypto_journal_build env)"

definition crypto_journal_recover ::
  "crypto \<Rightarrow> (u8 list \<Rightarrow> journal_document result) \<Rightarrow> io \<Rightarrow> path \<Rightarrow> fs \<Rightarrow> crypto_journal result \<times> fs" where
  "crypto_journal_recover env de = plain_recover (crypto_journal_load env de)"

section \<open>Validation, event by event\<close>

text \<open>What an event has to satisfy, given the events before it.\<close>

definition event_shape :: "crypto \<Rightarrow> crypto_event \<Rightarrow> bool" where
  "event_shape env e \<longleftrightarrow> ce_schema_version e = FORMAT_VERSION \<and> ce_state_slice e = STATE_SLICE \<and> valid_digest (ce_intent_digest e) \<and>
     adapter_text (ce_idempotency_key e) \<and> valid_digest (ce_subject_digest e) \<and> valid_digest (ce_event_digest e) \<and>
     ce_event_digest e = event_computed_digest env e"

definition event_follows :: "crypto_event list \<Rightarrow> crypto_event \<Rightarrow> bool" where
  "event_follows es e \<longleftrightarrow> ce_sequence e = of_nat (length es) \<and> ce_previous_event_digest e = last_of ce_event_digest es \<and>
     (es \<noteq> [] \<longrightarrow> ce_recorded_at (last es) \<le> ce_recorded_at e) \<and>
     (\<forall>f\<in>set es. ce_idempotency_key f = ce_idempotency_key e \<longleftrightarrow> ce_intent_digest f = ce_intent_digest e) \<and>
     transition_is_valid (intent_stage es (ce_intent_digest e)) (ce_kind e)"

fun history_ok :: "crypto \<Rightarrow> crypto_event list \<Rightarrow> crypto_event list \<Rightarrow> bool" where
  "history_ok env past [] = True"
| "history_ok env past (e # es) = (event_shape env e \<and> event_follows past e \<and> history_ok env (past @ [e]) es)"

lemma history_ok_snoc:
  "history_ok env past (es @ [e]) \<longleftrightarrow> history_ok env past es \<and> event_shape env e \<and> event_follows (past @ es) e"
  by (induction es arbitrary: past) auto

lemma scan_events_snoc: "scan_events env a (es @ [e]) = try_r (scan_events env a es) (\<lambda>a'. event_check env a' e)"
proof (induction es arbitrary: a)
  case Nil
  then show ?case by (cases "event_check env a e") simp_all
next
  case (Cons f es)
  then show ?case by (cases "event_check env a f") simp_all
qed

lemma last_of_simps [simp]: "last_of f [] = None" "last_of f (es @ [e]) = Some (f e)"
  by (simp_all add: last_of_def)

lemma intent_stage_simps [simp]:
  "intent_stage [] d = None"
  "intent_stage (es @ [e]) d = (if ce_intent_digest e = d then Some (ce_kind e) else intent_stage es d)"
  by (simp_all add: intent_stage_def)

lemma intent_stage_None: "intent_stage es d = None \<longleftrightarrow> (\<forall>e\<in>set es. ce_intent_digest e \<noteq> d)"
  by (auto simp: intent_stage_def find_None_iff)

text \<open>The containers of the loop hold what the events seen so far say.\<close>

definition scan_agrees :: "crypto_event list \<Rightarrow> journal_scan \<Rightarrow> bool" where
  "scan_agrees es a \<longleftrightarrow> js_expected_sequence a = length es \<and> js_previous_event_digest a = last_of ce_event_digest es \<and>
     js_previous_recorded_at a = last_of ce_recorded_at es \<and> (\<forall>d. bt_get (js_states a) d = intent_stage es d) \<and>
     (\<forall>k d. bt_get (js_idempotency_keys a) k = Some d \<longleftrightarrow> (\<exists>f\<in>set es. ce_idempotency_key f = k \<and> ce_intent_digest f = d)) \<and>
     (\<forall>k d. bt_get (js_intent_keys a) d = Some k \<longleftrightarrow> (\<exists>f\<in>set es. ce_idempotency_key f = k \<and> ce_intent_digest f = d)) \<and>
     set (js_identities a) = event_identity ` set es"

text \<open>Each stage is later than all the earlier stages of the same intent, so an identity never comes back.\<close>

lemma transition_rank: "transition_is_valid (Some a) b \<Longrightarrow> event_kind_rank a < event_kind_rank b"
  by (cases a; cases b) simp_all

lemma history_stage_rank:
  assumes "history_ok env [] es" and "f \<in> set es"
  shows "\<exists>k. intent_stage es (ce_intent_digest f) = Some k \<and> event_kind_rank (ce_kind f) \<le> event_kind_rank k"
  using assms
proof (induction es rule: rev_induct)
  case (snoc e es)
  then have h: "history_ok env [] es" "event_follows es e" by (simp_all add: history_ok_snoc)
  show ?case
  proof (cases "f \<in> set es")
    case True
    then obtain k where k: "intent_stage es (ce_intent_digest f) = Some k" "event_kind_rank (ce_kind f) \<le> event_kind_rank k"
      using snoc.IH h(1) by blast
    show ?thesis
    proof (cases "ce_intent_digest e = ce_intent_digest f")
      case True
      then have "event_kind_rank k < event_kind_rank (ce_kind e)" using h(2) k(1) transition_rank by (auto simp: event_follows_def)
      then show ?thesis using True k(2) by auto
    qed (use k in simp)
  qed (use snoc.prems in simp)
qed simp

lemma history_kind_fresh:
  assumes "history_ok env [] es" and "event_follows es e" and "f \<in> set es" and "ce_intent_digest f = ce_intent_digest e"
  shows "ce_kind f \<noteq> ce_kind e"
  using history_stage_rank [OF assms(1,3)] assms(2,4) transition_rank by (fastforce simp: event_follows_def)

lemma lookup_differs:
  assumes "\<And>y. m x = Some y \<longleftrightarrow> (\<exists>f\<in>S. p f = x \<and> q f = y)"
  shows "(case m x of None \<Rightarrow> False | Some y \<Rightarrow> y \<noteq> z) \<longleftrightarrow> (\<exists>f\<in>S. p f = x \<and> q f \<noteq> z)"
proof (cases "m x")
  case None
  then show ?thesis using assms by auto
next
  case (Some y)
  have "q f = y" if "f \<in> S" "p f = x" for f using assms [of "q f"] Some that by auto
  then show ?thesis using Some assms [of y] by auto
qed

lemma scan_agrees_step:
  assumes a: "scan_agrees es a" and h: "history_ok env [] es"
  shows "is_ok (event_check env a e) \<longleftrightarrow> event_shape env e \<and> event_follows es e"
    and "event_check env a e = Inr a' \<Longrightarrow> scan_agrees (es @ [e]) a'"
proof -
  have m: "\<not> event_malformed env a e \<longleftrightarrow> event_shape env e \<and> ce_sequence e = of_nat (length es) \<and>
      ce_previous_event_digest e = last_of ce_event_digest es \<and> (es \<noteq> [] \<longrightarrow> ce_recorded_at (last es) \<le> ce_recorded_at e)"
    using a by (auto simp: event_malformed_def event_shape_def scan_agrees_def last_of_def)
  have ik: "(case bt_get (js_idempotency_keys a) (ce_idempotency_key e) of None \<Rightarrow> False | Some d \<Rightarrow> d \<noteq> ce_intent_digest e) \<longleftrightarrow>
      (\<exists>f\<in>set es. ce_idempotency_key f = ce_idempotency_key e \<and> ce_intent_digest f \<noteq> ce_intent_digest e)"
    by (rule lookup_differs) (use a in \<open>simp add: scan_agrees_def\<close>)
  have dk: "(case bt_get (js_intent_keys a) (ce_intent_digest e) of None \<Rightarrow> False | Some k \<Rightarrow> k \<noteq> ce_idempotency_key e) \<longleftrightarrow>
      (\<exists>f\<in>set es. ce_intent_digest f = ce_intent_digest e \<and> ce_idempotency_key f \<noteq> ce_idempotency_key e)"
    by (rule lookup_differs) (use a in \<open>auto simp: scan_agrees_def\<close>)
  have id: "\<not> bs_contains (js_identities a) (event_identity e)" if "event_follows es e"
  proof
    assume "bs_contains (js_identities a) (event_identity e)"
    then have "event_identity e \<in> event_identity ` set es" using a by (simp add: scan_agrees_def bs_contains_def)
    then obtain f where "f \<in> set es" "event_identity f = event_identity e" by auto
    then show False using history_kind_fresh [OF h that, of f] by (simp add: event_identity_def)
  qed
  have st: "bt_get (js_states a) (ce_intent_digest e) = intent_stage es (ce_intent_digest e)" using a by (simp add: scan_agrees_def)
  show ok: "is_ok (event_check env a e) \<longleftrightarrow> event_shape env e \<and> event_follows es e"
  proof
    assume "is_ok (event_check env a e)"
    then have c: "\<not> event_malformed env a e" "transition_is_valid (intent_stage es (ce_intent_digest e)) (ce_kind e)"
      "\<not> (\<exists>f\<in>set es. ce_idempotency_key f = ce_idempotency_key e \<and> ce_intent_digest f \<noteq> ce_intent_digest e)"
      "\<not> (\<exists>f\<in>set es. ce_intent_digest f = ce_intent_digest e \<and> ce_idempotency_key f \<noteq> ce_idempotency_key e)"
      unfolding event_check_def ik dk st by (simp_all only: is_ok_simps simp_thms split: if_splits)
    then show "event_shape env e \<and> event_follows es e" using m unfolding event_follows_def by blast
  next
    assume e: "event_shape env e \<and> event_follows es e"
    have c: "\<not> event_malformed env a e" using e m unfolding event_follows_def by blast
    have n: "\<not> (\<exists>f\<in>set es. ce_idempotency_key f = ce_idempotency_key e \<and> ce_intent_digest f \<noteq> ce_intent_digest e)"
      "\<not> (\<exists>f\<in>set es. ce_intent_digest f = ce_intent_digest e \<and> ce_idempotency_key f \<noteq> ce_idempotency_key e)"
      "transition_is_valid (intent_stage es (ce_intent_digest e)) (ce_kind e)" "\<not> bs_contains (js_identities a) (event_identity e)"
      using e id unfolding event_follows_def by blast+
    show "is_ok (event_check env a e)" unfolding event_check_def ik dk st by (simp only: c n if_False is_ok_simps simp_thms)
  qed
  show "scan_agrees (es @ [e]) a'" if c: "event_check env a e = Inr a'"
  proof -
    have f: "event_follows es e" using ok c by simp
    then have keys: "\<forall>f\<in>set es. ce_idempotency_key f = ce_idempotency_key e \<longleftrightarrow> ce_intent_digest f = ce_intent_digest e"
      by (simp add: event_follows_def)
    have "a' = \<lparr>js_expected_sequence = Suc (js_expected_sequence a), js_previous_event_digest = Some (ce_event_digest e),
        js_previous_recorded_at = Some (ce_recorded_at e), js_states = bt_insert (ce_intent_digest e) (ce_kind e) (js_states a),
        js_idempotency_keys = bt_insert (ce_idempotency_key e) (ce_intent_digest e) (js_idempotency_keys a),
        js_intent_keys = bt_insert (ce_intent_digest e) (ce_idempotency_key e) (js_intent_keys a),
        js_identities = bs_insert (event_identity e) (js_identities a)\<rparr>"
      using c by (auto simp: event_check_def split: if_splits)
    then show ?thesis using a keys by (auto simp: scan_agrees_def)
  qed
qed

lemma scan_exact:
  "(\<exists>a. scan_events env scan_start es = Inr a \<and> scan_agrees es a) \<and> history_ok env [] es \<or>
   \<not> is_ok (scan_events env scan_start es) \<and> \<not> history_ok env [] es"
proof (induction es rule: rev_induct)
  case Nil
  then show ?case by (simp add: scan_agrees_def scan_start_def)
next
  case (snoc e es)
  then show ?case
  proof
    assume l: "(\<exists>a. scan_events env scan_start es = Inr a \<and> scan_agrees es a) \<and> history_ok env [] es"
    then obtain a where a: "scan_events env scan_start es = Inr a" "scan_agrees es a" by blast
    note st = scan_agrees_step [OF a(2) l [THEN conjunct2], of e]
    show ?case
    proof (cases "event_check env a e")
      case (Inl err)
      then show ?thesis using st(1) a(1) by (simp add: scan_events_snoc history_ok_snoc)
    next
      case (Inr a')
      then show ?thesis using st(1) st(2) [OF Inr] a(1) l by (simp add: scan_events_snoc history_ok_snoc)
    qed
  next
    assume "\<not> is_ok (scan_events env scan_start es) \<and> \<not> history_ok env [] es"
    then show ?case by (cases "scan_events env scan_start es") (simp_all add: scan_events_snoc history_ok_snoc)
  qed
qed

lemma crypto_validate_history: "crypto_journal_validate env j = Inr () \<longleftrightarrow> history_ok env [] (cj_events j)"
  using scan_exact [of env "cj_events j"] by (cases "scan_events env scan_start (cj_events j)") (auto simp: crypto_journal_validate_def)

lemma history_keys:
  assumes "history_ok env [] es" and "f \<in> set es" and "g \<in> set es"
  shows "ce_idempotency_key f = ce_idempotency_key g \<longleftrightarrow> ce_intent_digest f = ce_intent_digest g"
  using assms
proof (induction es rule: rev_induct)
  case (snoc e es)
  then have k: "\<forall>f\<in>set es. ce_idempotency_key f = ce_idempotency_key e \<longleftrightarrow> ce_intent_digest f = ce_intent_digest e"
    and h: "history_ok env [] es" by (simp_all add: history_ok_snoc event_follows_def)
  consider "f \<in> set es" "g \<in> set es" | "f = e" "g \<in> set es" | "g = e" "f \<in> set es" | "f = e" "g = e" using snoc.prems by auto
  then show ?case using k snoc.IH h by cases (simp_all, metis)
qed simp

lemma history_shape: "history_ok env [] es \<Longrightarrow> e \<in> set es \<Longrightarrow> event_shape env e"
  by (induction es rule: rev_induct) (auto simp: history_ok_snoc)

section \<open>The ledger\<close>

text \<open>
  What the journal promises, without events: the stage of each intent, the subject of each of its stages, the key of each intent and the intent of each
  key, the time of the last change.
\<close>

record ledger =
  lg_stage :: "string \<rightharpoonup> adapter_event_kind"
  lg_subject :: "string \<Rightarrow> adapter_event_kind \<Rightarrow> string option"
  lg_key :: "string \<rightharpoonup> string"
  lg_owner :: "string \<rightharpoonup> string"
  lg_clock :: u64

definition ledger_empty :: ledger where
  "ledger_empty = \<lparr>lg_stage = \<lambda>_. None, lg_subject = \<lambda>_ _. None, lg_key = \<lambda>_. None, lg_owner = \<lambda>_. None, lg_clock = 0\<rparr>"

definition ledger_advance :: "string \<Rightarrow> string \<Rightarrow> adapter_event_kind \<Rightarrow> string \<Rightarrow> u64 \<Rightarrow> ledger \<Rightarrow> ledger" where
  "ledger_advance d key kind subject t lg = \<lparr>lg_stage = (lg_stage lg)(d \<mapsto> kind),
     lg_subject = (lg_subject lg)(d := (lg_subject lg d)(kind \<mapsto> subject)), lg_key = (lg_key lg)(d \<mapsto> key),
     lg_owner = (lg_owner lg)(key \<mapsto> d), lg_clock = t\<rparr>"

definition ledger_append ::
  "string \<Rightarrow> string \<Rightarrow> adapter_event_kind \<Rightarrow> string \<Rightarrow> u64 \<Rightarrow> ledger \<Rightarrow> append_disposition result \<times> ledger" where
  "ledger_append d key kind subject t lg =
     (if \<not> valid_digest d \<or> \<not> adapter_text key \<or> \<not> valid_digest subject then (Inl (Err_Invalid ''crypto journal append is malformed''), lg)
      else case lg_subject lg d kind of
        Some s \<Rightarrow> (if lg_key lg d = Some key \<and> s = subject then Inr AD_AlreadyPresent
          else Inl (Err_Quarantined ''crypto idempotency key already has a different subject''), lg)
      | None \<Rightarrow>
        if lg_owner lg key \<notin> {None, Some d} then (Inl (Err_Quarantined ''crypto idempotency key belongs to another intent''), lg)
        else if lg_key lg d \<notin> {None, Some key} then (Inl (Err_Quarantined ''crypto intent already has another idempotency key''), lg)
        else if t < lg_clock lg then (Inl (Err_Rejected ''crypto journal event time moves backward''), lg)
        else if \<not> transition_is_valid (lg_stage lg d) kind then (Inl (Err_Rejected ''crypto journal transition is not allowed''), lg)
        else (Inr AD_Appended, ledger_advance d key kind subject t lg))"

text \<open>The ledger of a journal: its events in turn.\<close>

definition ledger_of :: "crypto_event list \<Rightarrow> ledger" where
  "ledger_of es = fold (\<lambda>e. ledger_advance (ce_intent_digest e) (ce_idempotency_key e) (ce_kind e) (ce_subject_digest e) (ce_recorded_at e)) es ledger_empty"

lemma ledger_of_snoc:
  "ledger_of (es @ [e]) =
     ledger_advance (ce_intent_digest e) (ce_idempotency_key e) (ce_kind e) (ce_subject_digest e) (ce_recorded_at e) (ledger_of es)"
  by (simp add: ledger_of_def)

lemma ledger_of_stage: "lg_stage (ledger_of es) d = intent_stage es d"
  by (induction es rule: rev_induct) (auto simp: ledger_of_snoc ledger_advance_def, simp add: ledger_of_def ledger_empty_def)

lemma ledger_of_clock: "lg_clock (ledger_of es) = (case last_of ce_recorded_at es of None \<Rightarrow> 0 | Some t \<Rightarrow> t)"
  by (cases es rule: rev_cases) (auto simp: ledger_of_snoc ledger_advance_def, simp add: ledger_of_def ledger_empty_def)

lemma ledger_of_subject:
  assumes "history_ok env [] es"
  shows "lg_subject (ledger_of es) d kind = Some s \<longleftrightarrow> (\<exists>e\<in>set es. ce_intent_digest e = d \<and> ce_kind e = kind \<and> ce_subject_digest e = s)"
  using assms
proof (induction es rule: rev_induct)
  case (snoc e es)
  then have h: "history_ok env [] es" "event_follows es e" by (simp_all add: history_ok_snoc)
  then show ?case using snoc.IH history_kind_fresh [OF h]
    by (auto simp: ledger_of_snoc ledger_advance_def)
qed (simp add: ledger_of_def ledger_empty_def)

lemma ledger_of_key:
  assumes "history_ok env [] es"
  shows "lg_key (ledger_of es) d = Some k \<longleftrightarrow> (\<exists>e\<in>set es. ce_intent_digest e = d \<and> ce_idempotency_key e = k)"
    and "lg_owner (ledger_of es) k = Some d \<longleftrightarrow> (\<exists>e\<in>set es. ce_intent_digest e = d \<and> ce_idempotency_key e = k)"
  using assms
proof (induction es arbitrary: d k rule: rev_induct)
  case (snoc e es)
  {
    case 1
    then show ?case using snoc.IH(1) by (auto simp: ledger_of_snoc ledger_advance_def history_ok_snoc event_follows_def)
  next
    case 2
    then show ?case using snoc.IH(2) by (auto simp: ledger_of_snoc ledger_advance_def history_ok_snoc event_follows_def)
  }
qed (simp_all add: ledger_of_def ledger_empty_def)

lemma new_event_fields [simp]:
  "ce_schema_version (new_event env es d k kind s t) = FORMAT_VERSION" "ce_state_slice (new_event env es d k kind s t) = STATE_SLICE"
  "ce_sequence (new_event env es d k kind s t) = of_nat (length es)" "ce_intent_digest (new_event env es d k kind s t) = d"
  "ce_idempotency_key (new_event env es d k kind s t) = k" "ce_kind (new_event env es d k kind s t) = kind"
  "ce_subject_digest (new_event env es d k kind s t) = s" "ce_previous_event_digest (new_event env es d k kind s t) = last_of ce_event_digest es"
  "ce_recorded_at (new_event env es d k kind s t) = t"
  by (simp_all add: new_event_def Let_def)

lemma new_event_sealed: "ce_event_digest (new_event env es d k kind s t) = event_computed_digest env (new_event env es d k kind s t)"
  by (simp add: new_event_def Let_def event_computed_digest_def)

lemma new_event_shape:
  assumes "sha256_len env" and "valid_digest d" and "adapter_text k" and "valid_digest s"
  shows "event_shape env (new_event env es d k kind s t)"
  using assms new_event_sealed [of env es d k kind s t] by (simp add: event_shape_def) (simp add: event_computed_digest_def)

text \<open>The guards of \<open>append_event\<close> are those of the ledger, and an event that passes them also passes the validation after the push.\<close>

lemma find_subject:
  assumes "history_ok env [] es"
  shows "map_option ce_subject_digest (find (\<lambda>e. ce_intent_digest e = d \<and> ce_kind e = kind) es) = lg_subject (ledger_of es) d kind"
proof (cases "find (\<lambda>e. ce_intent_digest e = d \<and> ce_kind e = kind) es")
  case None
  then have "lg_subject (ledger_of es) d kind \<noteq> Some s" for s using ledger_of_subject [OF assms] by (auto simp: find_None_iff)
  then show ?thesis using None by (cases "lg_subject (ledger_of es) d kind") auto
next
  case (Some f)
  then have "f \<in> set es \<and> ce_intent_digest f = d \<and> ce_kind f = kind" by (auto simp: find_Some_iff)
  then show ?thesis using Some ledger_of_subject [OF assms, of d kind "ce_subject_digest f"] by auto
qed

lemma ledger_key_guard:
  assumes h: "history_ok env [] es"
  shows "lg_owner (ledger_of es) key \<notin> {None, Some d} \<longleftrightarrow> list_ex (\<lambda>e. ce_idempotency_key e = key \<and> ce_intent_digest e \<noteq> d) es"
    and "lg_key (ledger_of es) d \<notin> {None, Some key} \<longleftrightarrow> list_ex (\<lambda>e. ce_intent_digest e = d \<and> ce_idempotency_key e \<noteq> key) es"
proof -
  have "list_ex (\<lambda>e. ce_idempotency_key e = key \<and> ce_intent_digest e \<noteq> d) es \<longleftrightarrow> (\<exists>d'. lg_owner (ledger_of es) key = Some d' \<and> d' \<noteq> d)"
    unfolding ledger_of_key(2) [OF h] list_ex_iff by blast
  then show "lg_owner (ledger_of es) key \<notin> {None, Some d} \<longleftrightarrow> list_ex (\<lambda>e. ce_idempotency_key e = key \<and> ce_intent_digest e \<noteq> d) es"
    by (cases "lg_owner (ledger_of es) key") simp_all
  have "list_ex (\<lambda>e. ce_intent_digest e = d \<and> ce_idempotency_key e \<noteq> key) es \<longleftrightarrow> (\<exists>k'. lg_key (ledger_of es) d = Some k' \<and> k' \<noteq> key)"
    unfolding ledger_of_key(1) [OF h] list_ex_iff by blast
  then show "lg_key (ledger_of es) d \<notin> {None, Some key} \<longleftrightarrow> list_ex (\<lambda>e. ce_intent_digest e = d \<and> ce_idempotency_key e \<noteq> key) es"
    by (cases "lg_key (ledger_of es) d") simp_all
qed

lemma new_event_follows:
  assumes "\<not> list_ex (\<lambda>e. ce_idempotency_key e = key \<and> ce_intent_digest e \<noteq> d) es"
    and "\<not> list_ex (\<lambda>e. ce_intent_digest e = d \<and> ce_idempotency_key e \<noteq> key) es"
    and "\<not> (case last_of ce_recorded_at es of None \<Rightarrow> False | Some t' \<Rightarrow> t < t')" and "transition_is_valid (intent_stage es d) kind"
  shows "event_follows es (new_event env es d key kind subject t)"
proof -
  have "es \<noteq> [] \<longrightarrow> ce_recorded_at (last es) \<le> t" using assms(3) by (auto simp: last_of_def)
  moreover have "\<forall>f\<in>set es. ce_idempotency_key f = key \<longleftrightarrow> ce_intent_digest f = d" using assms(1,2) unfolding list_ex_iff by blast
  ultimately show ?thesis using assms(4) unfolding event_follows_def new_event_fields by blast
qed

lemma append_event_refines:
  assumes env: "sha256_len env" and v: "crypto_journal_validate env j = Inr ()"
  obtains (kept) r where "append_event env d key kind subject t j = (r, j)" "r \<noteq> Inr AD_Appended"
      "ledger_append d key kind subject t (ledger_of (cj_events j)) = (r, ledger_of (cj_events j))"
  | (appended) j' where "append_event env d key kind subject t j = (Inr AD_Appended, j')" "crypto_journal_validate env j' = Inr ()"
      "cj_events j' = cj_events j @ [new_event env (cj_events j) d key kind subject t]"
      "ledger_append d key kind subject t (ledger_of (cj_events j)) = (Inr AD_Appended, ledger_of (cj_events j'))"
proof -
  let ?es = "cj_events j" and ?lg = "ledger_of (cj_events j)"
  have h: "history_ok env [] ?es" using v by (simp add: crypto_validate_history)
  note key = ledger_key_guard [OF h, where key = key and d = d]
  have clock: "t < lg_clock ?lg \<longleftrightarrow> (case last_of ce_recorded_at ?es of None \<Rightarrow> False | Some t' \<Rightarrow> t < t')"
    by (simp add: ledger_of_clock split: option.split)
  let ?L = "ledger_append d key kind subject t ?lg" and ?A = "append_event env d key kind subject t j"
  consider (bad) "\<not> valid_digest d \<or> \<not> adapter_text key \<or> \<not> valid_digest subject"
    | (found) f where "valid_digest d \<and> adapter_text key \<and> valid_digest subject"
        "find (\<lambda>e. ce_intent_digest e = d \<and> ce_kind e = kind) ?es = Some f"
    | (fresh) "valid_digest d \<and> adapter_text key \<and> valid_digest subject"
        "find (\<lambda>e. ce_intent_digest e = d \<and> ce_kind e = kind) ?es = None"
    by blast
  then show thesis
  proof cases
    case bad
    then show thesis by (intro kept [of "Inl (Err_Invalid ''crypto journal append is malformed'')"])
        (simp_all add: append_event_def ledger_append_def v)
  next
    case found
    then have f: "f \<in> set ?es" "ce_intent_digest f = d" by (auto simp: find_Some_iff)
    have k: "lg_key ?lg d = Some (ce_idempotency_key f)" using f ledger_of_key(1) [OF h] by auto
    have s: "lg_subject ?lg d kind = Some (ce_subject_digest f)" using find_subject [OF h, of d kind] found(2) by simp
    show thesis
      by (rule kept [of "if ce_idempotency_key f = key \<and> ce_subject_digest f = subject then Inr AD_AlreadyPresent
          else Inl (Err_Quarantined ''crypto idempotency key already has a different subject'')"])
        (use found k s in \<open>simp_all add: append_event_def ledger_append_def v Let_def\<close>)
  next
    case fresh
    have s: "lg_subject ?lg d kind = None" using find_subject [OF h, of d kind] fresh(2) by simp
    note L = ledger_append_def [of d key kind subject t ?lg, unfolded key clock s ledger_of_stage]
    show thesis
    proof (cases "snd ?L = ?lg \<and> fst ?L \<noteq> Inr AD_Appended")
      case True
      then show thesis using fresh
        by (intro kept [of "fst ?L"]) (auto simp: append_event_def L v Let_def split: if_splits)
    next
      case False
      let ?e = "new_event env ?es d key kind subject t" 
      have g: "\<not> list_ex (\<lambda>e. ce_idempotency_key e = key \<and> ce_intent_digest e \<noteq> d) ?es"
        "\<not> list_ex (\<lambda>e. ce_intent_digest e = d \<and> ce_idempotency_key e \<noteq> key) ?es"
        "\<not> (case last_of ce_recorded_at ?es of None \<Rightarrow> False | Some t' \<Rightarrow> t < t')" "transition_is_valid (intent_stage ?es d) kind"
        using False fresh unfolding L by (simp_all split: if_splits)
      have v': "crypto_journal_validate env (j\<lparr>cj_events := ?es @ [?e]\<rparr>) = Inr ()"
        using h new_event_follows [OF g] new_event_shape [OF env] fresh(1) by (simp add: crypto_validate_history history_ok_snoc)
      show thesis
        by (rule appended [of "j\<lparr>cj_events := ?es @ [?e]\<rparr>"])
          (use fresh g v' in \<open>simp_all add: append_event_def L v Let_def ledger_of_snoc\<close>)
    qed
  qed
qed

section \<open>Every run of the journal\<close>

datatype journal_op =
    JO_Proposed settlement_intent u64
  | JO_Prepared settlement_intent dry_run_receipt u64
  | JO_Reconciled settlement_intent chain_observation reconciliation u64
  | JO_PayoutProposed settlement_intent resolution payout u64
  | JO_Quarantined settlement_intent string u64

fun journal_step :: "crypto \<Rightarrow> crypto_journal \<Rightarrow> journal_op \<Rightarrow> crypto_journal" where
  "journal_step env j (JO_Proposed t n) = snd (append_proposed env t n j)"
| "journal_step env j (JO_Prepared t r n) = snd (append_prepared env t r n j)"
| "journal_step env j (JO_Reconciled t b r n) = snd (append_reconciled env t b r n j)"
| "journal_step env j (JO_PayoutProposed t s y n) = snd (append_payout_proposed env t s y n j)"
| "journal_step env j (JO_Quarantined t subject n) = snd (append_quarantined env t subject n j)"

text \<open>The record that an event stands for.\<close>

definition kind_backed :: "crypto \<Rightarrow> settlement_intent \<Rightarrow> adapter_event_kind \<Rightarrow> string \<Rightarrow> bool" where
  "kind_backed env t kind subject = (case kind of
       EK_Proposed \<Rightarrow> subject = digest env (json_intent t)
     | EK_DryRunPrepared \<Rightarrow> \<exists>r. dry_run_validate env r t = Inr () \<and> subject = dr_receipt_digest r
     | EK_Reconciled \<Rightarrow> \<exists>b r. reconciliation_validate env r t b = Inr () \<and> subject = rc_result_digest r
     | EK_PayoutProposed \<Rightarrow> \<exists>s y. payout_validate env y t s = Inr () \<and> subject = py_proposal_digest y
     | EK_Quarantined \<Rightarrow> valid_digest subject)"

definition event_backed :: "crypto \<Rightarrow> crypto_event \<Rightarrow> bool" where
  "event_backed env e \<longleftrightarrow> (\<exists>t. intent_validate t = Inr () \<and> ce_intent_digest e = digest env (json_intent t) \<and>
     ce_idempotency_key e = it_payment_id t \<and> kind_backed env t (ce_kind e) (ce_subject_digest e))"

text \<open>Each of the five operations is a failure that changes nothing or an \<open>append_event\<close> for a record that backs it.\<close>

lemma journal_step_cases:
  obtains (failed) "journal_step env j a = j"
  | (append) t kind subject n where "journal_step env j a = snd (append_event env (digest env (json_intent t)) (it_payment_id t) kind subject n j)"
      "intent_validate t = Inr ()" "kind_backed env t kind subject"
proof (cases a)
  case (JO_Proposed t n)
  show thesis
  proof (cases "intent_validate t")
    case (Inr u)
    then show thesis using JO_Proposed
      by (intro append [of t EK_Proposed "digest env (json_intent t)" n]) (simp_all add: append_proposed_def intent_digest_def kind_backed_def)
  qed (use JO_Proposed in \<open>intro failed, simp add: append_proposed_def\<close>)
next
  case (JO_Prepared t r n)
  show thesis
  proof (cases "\<exists>x. try_r (dry_run_validate env r t) (\<lambda>_. try_r (intent_digest env t) (\<lambda>d.
      if dr_intent_digest r \<noteq> d then Inl (Err_Quarantined ''crypto dry-run receipt is bound to another intent'')
      else try_r (dry_run_digest r) (\<lambda>rd. Inr (d, rd)))) = Inr x")
    case True
    then have "dry_run_validate env r t = Inr ()" "intent_validate t = Inr ()" "dr_receipt_digest r \<noteq> []"
        "dr_intent_digest r = digest env (json_intent t)"
      by (auto simp: try_r_eq_Inr intent_digest_ok dry_run_digest_def split: if_splits)
    then show thesis using JO_Prepared
      by (intro append [of t EK_DryRunPrepared "dr_receipt_digest r" n])
        (auto simp: append_prepared_def intent_digest_def dry_run_digest_def kind_backed_def)
  qed (use JO_Prepared in \<open>intro failed, auto simp: append_prepared_def split: sum.split\<close>)
next
  case (JO_Reconciled t b r n)
  show thesis
  proof (cases "\<exists>x. try_r (reconciliation_validate env r t b) (\<lambda>_. try_r (intent_digest env t) (\<lambda>d.
      try_r (reconciliation_digest r) (\<lambda>rd. Inr (d, rd)))) = Inr x")
    case True
    then have "reconciliation_validate env r t b = Inr ()" "intent_validate t = Inr ()" "rc_result_digest r \<noteq> []"
      by (auto simp: try_r_eq_Inr intent_digest_ok reconciliation_digest_def split: if_splits)
    then show thesis using JO_Reconciled
      by (intro append [of t EK_Reconciled "rc_result_digest r" n])
        (auto simp: append_reconciled_def intent_digest_def reconciliation_digest_def kind_backed_def)
  qed (use JO_Reconciled in \<open>intro failed, auto simp: append_reconciled_def split: sum.split\<close>)
next
  case (JO_PayoutProposed t s y n)
  show thesis
  proof (cases "\<exists>x. try_r (payout_validate env y t s) (\<lambda>_. try_r (intent_digest env t) (\<lambda>d.
      if py_intent_digest y \<noteq> d then Inl (Err_Quarantined ''crypto payout proposal is bound to another intent'')
      else try_r (payout_digest env y) (\<lambda>yd. Inr (d, yd)))) = Inr x")
    case True
    then have "payout_validate env y t s = Inr ()" "intent_validate t = Inr ()" "payout_shape env y = Inr ()"
        "py_intent_digest y = digest env (json_intent t)"
      by (auto simp: try_r_eq_Inr intent_digest_ok payout_digest_def split: if_splits)
    then show thesis using JO_PayoutProposed
      by (intro append [of t EK_PayoutProposed "py_proposal_digest y" n])
        (auto simp: append_payout_proposed_def intent_digest_def payout_digest_def kind_backed_def)
  qed (use JO_PayoutProposed in \<open>intro failed, auto simp: append_payout_proposed_def split: sum.split\<close>)
next
  case (JO_Quarantined t subject n)
  show thesis
  proof (cases "intent_validate t = Inr () \<and> valid_digest subject")
    case True
    then show thesis using JO_Quarantined
      by (intro append [of t EK_Quarantined subject n]) (simp_all add: append_quarantined_def intent_digest_def kind_backed_def)
  next
    case False
    then show thesis using JO_Quarantined by (intro failed, cases "intent_validate t") (auto simp: append_quarantined_def)
  qed
qed

definition journal_inv :: "crypto \<Rightarrow> crypto_journal \<Rightarrow> bool" where
  "journal_inv env j \<longleftrightarrow> (sha256_len env \<longrightarrow> crypto_journal_validate env j = Inr () \<and> (\<forall>e\<in>set (cj_events j). event_backed env e))"

definition journal_grows :: "crypto \<Rightarrow> crypto_journal \<Rightarrow> crypto_journal \<Rightarrow> bool" where
  "journal_grows env j j' \<longleftrightarrow> (sha256_len env \<longrightarrow> (\<exists>es. cj_events j' = cj_events j @ es))"

lemma journal_step_keeps:
  assumes "journal_inv env j"
  shows "journal_inv env (journal_step env j a) \<and> journal_grows env j (journal_step env j a)"
proof (cases "sha256_len env")
  case env: True
  then have v: "crypto_journal_validate env j = Inr ()" "\<forall>e\<in>set (cj_events j). event_backed env e"
    using assms by (simp_all add: journal_inv_def)
  show ?thesis
  proof (cases rule: journal_step_cases [of env j a])
    case failed
    then show ?thesis using assms by (simp add: journal_grows_def)
  next
    case (append t kind subject n)
    from env v(1) show ?thesis
    proof (cases rule: append_event_refines [where d = "digest env (json_intent t)" and key = "it_payment_id t" and kind = kind
          and subject = subject and t = n])
      case (kept r)
      then show ?thesis using append(1) assms by (simp add: journal_grows_def)
    next
      case (appended j')
      let ?e = "new_event env (cj_events j) (digest env (json_intent t)) (it_payment_id t) kind subject n"
      have "event_backed env ?e" using append(2,3) unfolding event_backed_def new_event_fields by blast
      then show ?thesis using append(1) appended v by (auto simp: journal_inv_def journal_grows_def)
    qed
  qed
qed (simp add: journal_inv_def journal_grows_def)

interpretation journal_machine: monotone_machine "journal_step env" "journal_inv env" "journal_grows env" for env
proof
  fix j k l :: crypto_journal
  assume "journal_grows env j k" "journal_grows env k l"
  then show "journal_grows env j l" by (auto simp: journal_grows_def)
qed (simp_all add: journal_step_keeps, simp add: journal_grows_def)

definition intent_path :: "crypto_event list \<Rightarrow> string \<Rightarrow> adapter_event_kind list" where
  "intent_path es d = map ce_kind (filter (\<lambda>e. ce_intent_digest e = d) es)"

definition stage_paths :: "adapter_event_kind list set" where
  "stage_paths = {[], [EK_Proposed], [EK_Proposed, EK_Quarantined], [EK_Proposed, EK_DryRunPrepared],
     [EK_Proposed, EK_DryRunPrepared, EK_Quarantined], [EK_Proposed, EK_DryRunPrepared, EK_Reconciled],
     [EK_Proposed, EK_DryRunPrepared, EK_Reconciled, EK_PayoutProposed]}"

lemma intent_stage_path: "intent_stage es d = last_of id (intent_path es d)"
  by (induction es rule: rev_induct) (simp_all add: intent_path_def last_of_def)

lemma stage_paths_step: "p \<in> stage_paths \<Longrightarrow> transition_is_valid (last_of id p) k \<Longrightarrow> p @ [k] \<in> stage_paths"
  by (cases k) (auto simp: stage_paths_def last_of_def)

lemma history_paths: "history_ok env [] es \<Longrightarrow> intent_path es d \<in> stage_paths"
proof (induction es rule: rev_induct)
  case Nil
  then show ?case by (simp add: intent_path_def stage_paths_def)
next
  case (snoc e es)
  then have p: "intent_path es d \<in> stage_paths" and f: "event_follows es e" by (simp_all add: history_ok_snoc)
  show ?case
  proof (cases "ce_intent_digest e = d")
    case True
    then have "intent_path (es @ [e]) d = intent_path es d @ [ce_kind e]" by (simp add: intent_path_def)
    then show ?thesis using stage_paths_step [OF p] f True by (simp add: event_follows_def intent_stage_path)
  qed (use p in \<open>simp add: intent_path_def\<close>)
qed

section \<open>The chain and the file\<close>

definition event_material :: "crypto_event \<Rightarrow> json" where
  "event_material e = json_crypto_event (e\<lparr>ce_event_digest := ''''\<rparr>)"

definition event_previous :: "crypto_event \<Rightarrow> string" where
  "event_previous e = (case ce_previous_event_digest e of None \<Rightarrow> '''' | Some d \<Rightarrow> d)"

interpretation event_chain: hash_chain ce_sequence event_previous event_material ce_event_digest
proof
  fix e f :: crypto_event
  assume m: "event_material e = event_material f" and d: "ce_event_digest e = ce_event_digest f"
  from m have "ce_previous_event_digest e = ce_previous_event_digest f"
    by (auto simp: event_material_def json_crypto_event_def split: option.splits)
  with m d show "e = f" by (intro crypto_event.equality) (auto simp: event_material_def json_crypto_event_def)
qed

lemma history_chain: "history_ok env [] es \<Longrightarrow> chain_ok env ce_sequence event_previous event_material ce_event_digest 0 '''' es"
proof (induction es rule: rev_induct)
  case (snoc e es)
  then have f: "event_follows es e" "event_shape env e" by (simp_all add: history_ok_snoc)
  have "event_previous e = chain_tip ce_event_digest '''' es"
    using f(1) by (auto simp: event_follows_def event_previous_def last_of_def chain_tip_def)
  then show ?case using snoc f
    by (simp add: chain_ok_snoc history_ok_snoc event_follows_def event_shape_def event_material_def event_computed_digest_def)
qed simp

interpretation journal_file: snapshot_format crypto_journal_document json_journal_document "crypto_journal_validate env" "crypto_journal_build env"
    "\<lambda>_. True" for env
proof
  fix j assume "crypto_journal_validate env j = Inr ()"
  then show "crypto_journal_build env (crypto_journal_document j) = Inr j"
    by (cases j) (simp add: crypto_journal_build_def crypto_journal_document_def Let_def)
next
  fix d j assume "crypto_journal_build env d = Inr j"
  then show "crypto_journal_validate env j = Inr ()" by (auto simp: crypto_journal_build_def Let_def try_r_eq_Inr split: if_splits)
qed

section \<open>Properties\<close>

text \<open>
  C30.  The replay is a condition on each event.  The loop of \<open>validate\<close> with its four containers and two running values accepts a journal if and only if each event, given
  the events before it, is well formed and sealed by its own digest, carries the next sequence number and the digest of its predecessor, is no older, uses
  the key of an intent exactly for that intent, and moves its intent along an allowed transition.
\<close>

theorem journal_validate_exact:
  "crypto_journal_validate env j = Inr () \<longleftrightarrow>
     (\<forall>i. i < length (cj_events j) \<longrightarrow> event_shape env (cj_events j ! i) \<and> event_follows (take i (cj_events j)) (cj_events j ! i))"
proof -
  have "history_ok env [] es \<longleftrightarrow> (\<forall>i. i < length es \<longrightarrow> event_shape env (es ! i) \<and> event_follows (take i es) (es ! i))" for es
  proof (induction es rule: rev_induct)
    case (snoc e es)
    then show ?case by (auto simp: history_ok_snoc nth_append less_Suc_eq)
  qed simp
  then show ?thesis by (simp add: crypto_validate_history)
qed

text \<open>
  C28.  The journal implements the ledger.  On a valid journal \<open>append_event\<close> answers what the ledger of its events answers, every error branch
  included, and leaves a journal whose ledger is the ledger's next state; the journal either stays as it is or grows by one event and is valid again, so
  the \<open>pop\<close> after a failed validation is never reached.
\<close>

theorem journal_refines_ledger:
  assumes "sha256_len env" and "crypto_journal_validate env j = Inr ()" and "append_event env d key kind subject t j = (r, j')"
  shows "ledger_append d key kind subject t (ledger_of (cj_events j)) = (r, ledger_of (cj_events j')) \<and>
    crypto_journal_validate env j' = Inr () \<and> ledger_of (cj_events crypto_journal_default) = ledger_empty \<and>
    (if r = Inr AD_Appended then cj_events j' = cj_events j @ [new_event env (cj_events j) d key kind subject t] else j' = j)"
  using assms(1,2) by (cases rule: append_event_refines [where d = d and key = key and kind = kind and subject = subject and t = t])
    (use assms(2,3) in \<open>auto simp: crypto_journal_default_def ledger_of_def\<close>)

text \<open>
  C29.  Every journal the five operations can build, from the empty one and in any order, with any records: it validates, every event stands for an intent and
  a record that its own validation accepted, each intent is on one of seven paths (proposed, then prepared, reconciled and proposed for payout, or quarantined
  before it is reconciled), a key belongs to one intent, and later operations only append.
\<close>

theorem journal_runs_are_sound:
  assumes "sha256_len env" and "j = run_ops (journal_step env) crypto_journal_default ops"
  shows "crypto_journal_validate env j = Inr () \<and> (\<forall>e\<in>set (cj_events j). event_backed env e) \<and>
    (\<forall>d. intent_path (cj_events j) d \<in> stage_paths \<and> crypto_journal_state env j d =
       (if valid_digest d then Inr (last_of id (intent_path (cj_events j) d)) else Inl (Err_Invalid ''crypto intent digest is malformed''))) \<and>
    (\<forall>e\<in>set (cj_events j). \<forall>f\<in>set (cj_events j). ce_idempotency_key e = ce_idempotency_key f \<longleftrightarrow> ce_intent_digest e = ce_intent_digest f) \<and>
    (\<forall>more. \<exists>es. cj_events (run_ops (journal_step env) j more) = cj_events j @ es)"
proof -
  have "journal_inv env crypto_journal_default"
    by (simp add: journal_inv_def crypto_journal_default_def crypto_journal_validate_def)
  from journal_machine.run_inv [OF this, of ops] have i: "journal_inv env j" by (simp add: assms(2))
  then have v: "crypto_journal_validate env j = Inr ()" "\<forall>e\<in>set (cj_events j). event_backed env e" using assms(1) by (simp_all add: journal_inv_def)
  then have h: "history_ok env [] (cj_events j)" by (simp add: crypto_validate_history)
  have "\<exists>es. cj_events (run_ops (journal_step env) j more) = cj_events j @ es" for more
    using journal_machine.run_grows [OF i, of more] assms(1) by (simp add: journal_grows_def)
  then show ?thesis using v history_paths [OF h] history_keys [OF h] by (simp add: crypto_journal_state_def intent_stage_path)
qed

text \<open>
  The last digest fixes the journal: two valid journals whose last events have the same digest are equal, or two of their events
  collide under SHA-256.
\<close>

theorem journal_tip_fixes_history:
  assumes "crypto_journal_validate env j = Inr ()" and "crypto_journal_validate env j' = Inr ()" and "cj_events j \<noteq> []" and "cj_events j' \<noteq> []"
    and "ce_event_digest (last (cj_events j)) = ce_event_digest (last (cj_events j'))"
    and "length (cj_events j) < 2 ^ 64" and "length (cj_events j') < 2 ^ 64"
  shows "j = j' \<or> (\<exists>e\<in>set (cj_events j). \<exists>f\<in>set (cj_events j'). collision env (event_material e) (event_material f))"
proof -
  have h: "chain_ok env ce_sequence event_previous event_material ce_event_digest 0 '''' (cj_events j)"
    "chain_ok env ce_sequence event_previous event_material ce_event_digest 0 '''' (cj_events j')"
    using assms(1,2) by (simp_all add: crypto_validate_history history_chain)
  have "j = j'" if "cj_events j = cj_events j'" using that by (cases j; cases j') simp
  then show ?thesis using event_chain.tip_determines [OF h] assms(3-7) by (auto simp: chain_tip_def)
qed

section \<open>Concrete inputs\<close>

definition demo_event_at :: "u64 \<Rightarrow> crypto_event" where
  "demo_event_at t = new_event demo_env [] zero_digest ''p1'' EK_Proposed zero_digest t"

abbreviation demo_event :: crypto_event where
  "demo_event \<equiv> demo_event_at 50"

lemma demo_journal_valid: "crypto_journal_validate demo_env \<lparr>cj_events = [demo_event_at t]\<rparr> = Inr ()"
proof -
  have "event_shape demo_env (demo_event_at t)" unfolding demo_event_at_def
    by (rule new_event_shape [OF demo_sha256_len]) (simp_all add: adapter_text_def ascii_control_def)
  moreover have "event_follows [] (demo_event_at t)" by (simp add: demo_event_at_def event_follows_def)
  ultimately show ?thesis by (simp add: crypto_validate_history)
qed

theorem journal_validate_exact_witness:
  "event_shape demo_env demo_event \<and> event_follows [] demo_event"
  using journal_validate_exact [of demo_env "\<lparr>cj_events = [demo_event]\<rparr>"] demo_journal_valid by simp

theorem journal_refines_ledger_witness:
  "\<exists>r j'. append_event demo_env zero_digest ''p1'' EK_Quarantined zero_digest 60 \<lparr>cj_events = [demo_event]\<rparr> = (r, j') \<and> r = Inr AD_Appended \<and>
     crypto_journal_validate demo_env j' = Inr ()"
proof -
  obtain r j' where a: "append_event demo_env zero_digest ''p1'' EK_Quarantined zero_digest 60 \<lparr>cj_events = [demo_event]\<rparr> = (r, j')" by fastforce
  have "fst (ledger_append zero_digest ''p1'' EK_Quarantined zero_digest 60 (ledger_of [demo_event])) = Inr AD_Appended"
    by (simp add: ledger_of_def ledger_append_def ledger_advance_def ledger_empty_def demo_event_at_def adapter_text_def ascii_control_def)
  then show ?thesis using journal_refines_ledger [OF demo_sha256_len demo_journal_valid a] a by auto
qed

theorem journal_runs_are_sound_witness:
  "crypto_journal_validate demo_env (run_ops (journal_step demo_env) crypto_journal_default
     [JO_Proposed demo_intent 50, JO_Quarantined demo_intent zero_digest 60]) = Inr ()"
  using journal_runs_are_sound [OF demo_sha256_len refl, of "[JO_Proposed demo_intent 50, JO_Quarantined demo_intent zero_digest 60]"] by blast

theorem journal_tip_fixes_history_witness:
  "collision demo_env (event_material (demo_event_at 50)) (event_material (demo_event_at 60))"
proof -
  have "demo_event_at 50 \<noteq> demo_event_at 60" by (auto simp: demo_event_at_def dest: arg_cong [where f = ce_recorded_at])
  moreover have "ce_event_digest (demo_event_at t) = zero_digest" for t by (simp add: demo_event_at_def new_event_def Let_def event_computed_digest_def)
  ultimately show ?thesis using journal_tip_fixes_history [OF demo_journal_valid [of 50] demo_journal_valid [of 60]] by simp
qed

end
