(* ===== verification/Broker_Journal.thy ===== *)
theory Broker_Journal
  imports Broker Crypto_Journal
begin

text \<open>
  The broker's transaction journal of src/broker.rs: a hash chain over the states of each request.  \<open>append\<close> pushes the event before it validates
  and does not take it back, so an event that fails the validation stays in the journal.
\<close>

section \<open>Events\<close>

definition BROKER_JOURNAL_VERSION :: u8 where
  "BROKER_JOURNAL_VERSION = 1"

datatype transaction_status = TS_Admitted | TS_Executing | TS_Committed | TS_RolledBack | TS_Quarantined | TS_Rejected

fun transaction_status_name :: "transaction_status \<Rightarrow> string" where
  "transaction_status_name TS_Admitted = ''Admitted''"
| "transaction_status_name TS_Executing = ''Executing''"
| "transaction_status_name TS_Committed = ''Committed''"
| "transaction_status_name TS_RolledBack = ''RolledBack''"
| "transaction_status_name TS_Quarantined = ''Quarantined''"
| "transaction_status_name TS_Rejected = ''Rejected''"

lemma transaction_status_name_inject [simp]: "transaction_status_name a = transaction_status_name b \<longleftrightarrow> a = b"
  by (cases a; cases b) simp_all

record transaction_event =
  te_sequence :: u64
  te_previous_digest :: string
  te_request_digest :: string
  te_agent_id :: string
  te_nonce :: u64
  te_destination_relpath :: "string option"
  te_decision_digest :: "string option"
  te_capability_token_id :: "string option"
  te_status :: transaction_status
  te_output_digest :: "string option"
  te_entry_digest :: string

definition json_transaction_event :: "transaction_event \<Rightarrow> json" where
  "json_transaction_event e = JObj
    [(''sequence'', json_word (te_sequence e)), (''previous_digest'', JStr (te_previous_digest e)),
     (''request_digest'', JStr (te_request_digest e)), (''agent_id'', JStr (te_agent_id e)), (''nonce'', json_word (te_nonce e)),
     (''destination_relpath'', json_opt JStr (te_destination_relpath e)), (''decision_digest'', json_opt JStr (te_decision_digest e)),
     (''capability_token_id'', json_opt JStr (te_capability_token_id e)), (''status'', JStr (transaction_status_name (te_status e))),
     (''output_digest'', json_opt JStr (te_output_digest e)), (''entry_digest'', JStr (te_entry_digest e))]"

definition transaction_material :: "transaction_event \<Rightarrow> json" where
  "transaction_material e = JArr
    [json_word (te_sequence e), JStr (te_previous_digest e), JStr (te_request_digest e), JStr (te_agent_id e), json_word (te_nonce e),
     json_opt JStr (te_destination_relpath e), json_opt JStr (te_decision_digest e), json_opt JStr (te_capability_token_id e),
     JStr (transaction_status_name (te_status e)), json_opt JStr (te_output_digest e)]"

record broker_journal =
  bj_version :: u8
  bj_frozen :: bool
  bj_entries :: "transaction_event list"

definition json_broker_journal :: "broker_journal \<Rightarrow> json" where
  "json_broker_journal j = JObj
    [(''version'', json_word (bj_version j)), (''frozen'', JBool (bj_frozen j)), (''entries'', json_list json_transaction_event (bj_entries j))]"

definition broker_journal_new :: broker_journal where
  "broker_journal_new = \<lparr>bj_version = BROKER_JOURNAL_VERSION, bj_frozen = False, bj_entries = []\<rparr>"

section \<open>Validation\<close>

fun transaction_allowed :: "transaction_status option \<Rightarrow> transaction_status \<Rightarrow> bool" where
  "transaction_allowed None s \<longleftrightarrow> s = TS_Admitted \<or> s = TS_Rejected \<or> s = TS_Quarantined"
| "transaction_allowed (Some TS_Admitted) s \<longleftrightarrow> s = TS_Executing \<or> s = TS_Quarantined"
| "transaction_allowed (Some TS_Executing) s \<longleftrightarrow> s = TS_Committed \<or> s = TS_RolledBack \<or> s = TS_Quarantined"
| "transaction_allowed _ s \<longleftrightarrow> False"

record transaction_scan =
  tn_index :: nat
  tn_previous :: string
  tn_latest :: "(string, transaction_status) btree"
  tn_identities :: "(string, string \<times> u64 \<times> string option) btree"
  tn_replays :: "(string \<times> u64, string) btree"

definition transaction_scan_start :: transaction_scan where
  "transaction_scan_start = \<lparr>tn_index = 0, tn_previous = zero_digest, tn_latest = [], tn_identities = [], tn_replays = []\<rparr>"

definition transaction_malformed :: "transaction_scan \<Rightarrow> transaction_event \<Rightarrow> bool" where
  "transaction_malformed a e \<longleftrightarrow> te_sequence e \<noteq> of_nat (tn_index a) \<or> te_previous_digest e \<noteq> tn_previous a \<or>
     \<not> valid_digest (te_request_digest e) \<or> \<not> broker_text (te_agent_id e) \<or> te_nonce e = 0 \<or>
     (case te_destination_relpath e of None \<Rightarrow> False | Some v \<Rightarrow> \<not> broker_relative_path v) \<or>
     (case te_decision_digest e of None \<Rightarrow> False | Some v \<Rightarrow> \<not> valid_digest v) \<or>
     (case te_capability_token_id e of None \<Rightarrow> False | Some v \<Rightarrow> \<not> valid_digest v) \<or>
     (case te_output_digest e of None \<Rightarrow> False | Some v \<Rightarrow> \<not> valid_digest v) \<or> \<not> valid_digest (te_entry_digest e)"

definition transaction_identity :: "transaction_event \<Rightarrow> string \<times> u64 \<times> string option" where
  "transaction_identity e = (te_agent_id e, te_nonce e, te_destination_relpath e)"

definition transaction_replay :: "transaction_event \<Rightarrow> string \<times> u64" where
  "transaction_replay e = (te_agent_id e, te_nonce e)"

definition transaction_check :: "crypto \<Rightarrow> transaction_scan \<Rightarrow> transaction_event \<Rightarrow> transaction_scan result" where
  "transaction_check env a e =
     (if transaction_malformed a e then Inl (Err_Journal ''broker journal event is malformed'')
      else if (case bt_get (tn_identities a) (te_request_digest e) of None \<Rightarrow> False | Some i \<Rightarrow> i \<noteq> transaction_identity e)
      then Inl (Err_Journal ''broker journal request identity changed'')
      else if (case bt_get (tn_replays a) (transaction_replay e) of None \<Rightarrow> False | Some d \<Rightarrow> d \<noteq> te_request_digest e)
      then Inl (Err_Journal ''broker journal agent nonce replay'')
      else if \<not> transaction_allowed (bt_get (tn_latest a) (te_request_digest e)) (te_status e) then Inl (Err_Journal ''invalid broker transaction transition'')
      else if digest env (transaction_material e) \<noteq> te_entry_digest e then Inl (Err_Journal ''broker journal digest mismatch'')
      else Inr \<lparr>tn_index = Suc (tn_index a), tn_previous = te_entry_digest e,
        tn_latest = bt_insert (te_request_digest e) (te_status e) (tn_latest a),
        tn_identities = bt_insert (te_request_digest e) (transaction_identity e) (tn_identities a),
        tn_replays = bt_insert (transaction_replay e) (te_request_digest e) (tn_replays a)\<rparr>)"

fun scan_transactions ::
  "crypto \<Rightarrow> transaction_scan \<Rightarrow> transaction_event list \<Rightarrow> transaction_scan result" where
  "scan_transactions env a [] = Inr a"
| "scan_transactions env a (e # es) = try_r (transaction_check env a e) (\<lambda>a'. scan_transactions env a' es)"

definition broker_journal_validate :: "crypto \<Rightarrow> broker_journal \<Rightarrow> unit result" where
  "broker_journal_validate env j =
     (if bj_version j \<noteq> BROKER_JOURNAL_VERSION then Inl (Err_Journal ''unsupported broker journal version'')
      else try_r (scan_transactions env transaction_scan_start (bj_entries j)) (\<lambda>_. Inr ()))"

section \<open>Queries and appending\<close>

definition transaction_status_of :: "transaction_event list \<Rightarrow> string \<Rightarrow> transaction_status option" where
  "transaction_status_of es d = map_option te_status (find (\<lambda>e. te_request_digest e = d) (rev es))"

definition broker_status :: "broker_journal \<Rightarrow> string \<Rightarrow> transaction_status option" where
  "broker_status j d = transaction_status_of (bj_entries j) d"

definition broker_replay_status :: "broker_journal \<Rightarrow> string \<Rightarrow> u64 \<Rightarrow> transaction_status option" where
  "broker_replay_status j agent nonce =
     map_option te_status (find (\<lambda>e. te_agent_id e = agent \<and> te_nonce e = nonce) (rev (bj_entries j)))"

definition broker_in_flight :: "broker_journal \<Rightarrow> transaction_event list" where
  "broker_in_flight j =
     filter (\<lambda>e. broker_status j (te_request_digest e) = Some (te_status e))
       (filter (\<lambda>e. broker_status j (te_request_digest e) \<in> {Some TS_Admitted, Some TS_Executing}) (bj_entries j))"

definition new_transaction ::
  "crypto \<Rightarrow> transaction_event list \<Rightarrow> hex_digest \<Rightarrow> string \<Rightarrow> u64 \<Rightarrow> string option \<Rightarrow> hex_digest option \<Rightarrow> hex_digest option \<Rightarrow>
   transaction_status \<Rightarrow> hex_digest option \<Rightarrow> transaction_event" where
  "new_transaction env es d agent nonce dest dec cap status out =
     (let e = \<lparr>te_sequence = of_nat (length es), te_previous_digest = chain_tip te_entry_digest zero_digest es, te_request_digest = d,
               te_agent_id = agent, te_nonce = nonce, te_destination_relpath = dest, te_decision_digest = dec, te_capability_token_id = cap,
               te_status = status, te_output_digest = out, te_entry_digest = ''''\<rparr>
      in e\<lparr>te_entry_digest := digest env (transaction_material e)\<rparr>)"

definition broker_append ::
  "crypto \<Rightarrow> hex_digest \<Rightarrow> string \<Rightarrow> u64 \<Rightarrow> string option \<Rightarrow> hex_digest option \<Rightarrow> hex_digest option \<Rightarrow> transaction_status \<Rightarrow> hex_digest option \<Rightarrow>
   broker_journal \<Rightarrow> unit result \<times> broker_journal" where
  "broker_append env d agent nonce dest dec cap status out j =
     (if \<not> valid_digest d \<or> \<not> broker_text agent \<or> nonce = 0 \<or> (case dest of None \<Rightarrow> False | Some v \<Rightarrow> \<not> broker_relative_path v)
      then (Inl (Err_Journal ''broker event identity is malformed''), j)
      else if list_ex (\<lambda>e. te_agent_id e = agent \<and> te_nonce e = nonce \<and> te_request_digest e \<noteq> d) (bj_entries j)
      then (Inl (Err_Journal ''broker agent nonce replay''), j)
      else if broker_status j d = None \<and> status \<in> {TS_Executing, TS_Committed, TS_RolledBack}
      then (Inl (Err_Journal ''broker execution was not admitted''), j)
      else let j' = j\<lparr>bj_entries := bj_entries j @ [new_transaction env (bj_entries j) d agent nonce dest dec cap status out]\<rparr>
           in (broker_journal_validate env j', j'))"

definition broker_journal_save :: "crypto \<Rightarrow> io \<Rightarrow> broker_journal \<Rightarrow> path \<Rightarrow> fs \<Rightarrow> unit result \<times> fs" where
  "broker_journal_save env = save_valid env (broker_journal_validate env) json_broker_journal ''broker journal''"

definition broker_journal_load :: "crypto \<Rightarrow> (u8 list \<Rightarrow> broker_journal result) \<Rightarrow> io \<Rightarrow> fs \<Rightarrow> path \<Rightarrow> broker_journal result" where
  "broker_journal_load env de =
     load_canonical env de json_broker_journal ''broker journal is not canonical JSON'' (checked (broker_journal_validate env))"

definition broker_journal_recover ::
  "crypto \<Rightarrow> (u8 list \<Rightarrow> broker_journal result) \<Rightarrow> io \<Rightarrow> path \<Rightarrow> fs \<Rightarrow> broker_journal result \<times> fs" where
  "broker_journal_recover env de io p = recover_atomic_snapshot io p ''broker journal'' (broker_journal_load env de io)"

interpretation broker_file: snapshot_format "\<lambda>j. j" json_broker_journal "broker_journal_validate env" "checked (broker_journal_validate env)"
    "\<lambda>_. True" for env
  by unfold_locales (auto simp: checked_Inr)

section \<open>Validation, event by event\<close>

definition transaction_shape_ok :: "crypto \<Rightarrow> transaction_event \<Rightarrow> bool" where
  "transaction_shape_ok env e \<longleftrightarrow> valid_digest (te_request_digest e) \<and> broker_text (te_agent_id e) \<and> te_nonce e \<noteq> 0 \<and>
     (\<forall>v. te_destination_relpath e = Some v \<longrightarrow> broker_relative_path v) \<and> (\<forall>v. te_decision_digest e = Some v \<longrightarrow> valid_digest v) \<and>
     (\<forall>v. te_capability_token_id e = Some v \<longrightarrow> valid_digest v) \<and> (\<forall>v. te_output_digest e = Some v \<longrightarrow> valid_digest v) \<and>
     valid_digest (te_entry_digest e) \<and> digest env (transaction_material e) = te_entry_digest e"

definition transaction_follows :: "transaction_event list \<Rightarrow> transaction_event \<Rightarrow> bool" where
  "transaction_follows es e \<longleftrightarrow> te_sequence e = of_nat (length es) \<and> te_previous_digest e = chain_tip te_entry_digest zero_digest es \<and>
     (\<forall>f\<in>set es. te_request_digest f = te_request_digest e \<longrightarrow> transaction_identity f = transaction_identity e) \<and>
     (\<forall>f\<in>set es. transaction_replay f = transaction_replay e \<longrightarrow> te_request_digest f = te_request_digest e) \<and>
     transaction_allowed (transaction_status_of es (te_request_digest e)) (te_status e)"

fun transactions_ok :: "crypto \<Rightarrow> transaction_event list \<Rightarrow> transaction_event list \<Rightarrow> bool" where
  "transactions_ok env past [] = True"
| "transactions_ok env past (e # es) = (transaction_shape_ok env e \<and> transaction_follows past e \<and> transactions_ok env (past @ [e]) es)"

lemma transactions_ok_append:
  "transactions_ok env past (es @ fs) \<longleftrightarrow> transactions_ok env past es \<and> transactions_ok env (past @ es) fs"
  by (induction es arbitrary: past) auto

lemma scan_transactions_snoc: "scan_transactions env a (es @ [e]) = try_r (scan_transactions env a es) (\<lambda>a'. transaction_check env a' e)"
proof (induction es arbitrary: a)
  case Nil
  then show ?case by (cases "transaction_check env a e") simp_all
next
  case (Cons f es)
  then show ?case by (cases "transaction_check env a f") simp_all
qed

lemma transaction_status_of_simps [simp]:
  "transaction_status_of [] d = None"
  "transaction_status_of (es @ [e]) d = (if te_request_digest e = d then Some (te_status e) else transaction_status_of es d)"
  by (simp_all add: transaction_status_of_def)

text \<open>The containers of the loop hold what the events seen so far say.\<close>

definition transaction_scan_agrees :: "transaction_event list \<Rightarrow> transaction_scan \<Rightarrow> bool" where
  "transaction_scan_agrees es a \<longleftrightarrow> tn_index a = length es \<and> tn_previous a = chain_tip te_entry_digest zero_digest es \<and>
     (\<forall>d. bt_get (tn_latest a) d = transaction_status_of es d) \<and>
     (\<forall>d i. bt_get (tn_identities a) d = Some i \<longleftrightarrow> (\<exists>f\<in>set es. te_request_digest f = d \<and> transaction_identity f = i)) \<and>
     (\<forall>k d. bt_get (tn_replays a) k = Some d \<longleftrightarrow> (\<exists>f\<in>set es. transaction_replay f = k \<and> te_request_digest f = d))"

lemma transaction_well_formed:
  assumes "transaction_scan_agrees es a"
  shows "\<not> transaction_malformed a e \<and> digest env (transaction_material e) = te_entry_digest e \<longleftrightarrow>
    transaction_shape_ok env e \<and> te_sequence e = of_nat (length es) \<and> te_previous_digest e = chain_tip te_entry_digest zero_digest es"
  using assms by (auto simp: transaction_malformed_def transaction_shape_ok_def transaction_scan_agrees_def split: option.splits)

lemma transaction_scan_step:
  assumes a: "transaction_scan_agrees es a"
  shows "is_ok (transaction_check env a e) \<longleftrightarrow> transaction_shape_ok env e \<and> transaction_follows es e"
    and "transaction_check env a e = Inr a' \<Longrightarrow> transaction_scan_agrees (es @ [e]) a'"
proof -
  note m = transaction_well_formed [OF a, of e env]
  have ident: "(case bt_get (tn_identities a) (te_request_digest e) of None \<Rightarrow> False | Some i \<Rightarrow> i \<noteq> transaction_identity e) \<longleftrightarrow>
      (\<exists>f\<in>set es. te_request_digest f = te_request_digest e \<and> transaction_identity f \<noteq> transaction_identity e)"
    by (rule lookup_differs) (use a [unfolded transaction_scan_agrees_def] in blast)
  have rep: "(case bt_get (tn_replays a) (transaction_replay e) of None \<Rightarrow> False | Some d \<Rightarrow> d \<noteq> te_request_digest e) \<longleftrightarrow>
      (\<exists>f\<in>set es. transaction_replay f = transaction_replay e \<and> te_request_digest f \<noteq> te_request_digest e)"
    by (rule lookup_differs) (use a [unfolded transaction_scan_agrees_def] in blast)
  have st: "bt_get (tn_latest a) (te_request_digest e) = transaction_status_of es (te_request_digest e)"
    using a by (simp add: transaction_scan_agrees_def)
  have "is_ok (transaction_check env a e) \<longleftrightarrow> (\<not> transaction_malformed a e \<and> digest env (transaction_material e) = te_entry_digest e) \<and>
      \<not> (\<exists>f\<in>set es. te_request_digest f = te_request_digest e \<and> transaction_identity f \<noteq> transaction_identity e) \<and>
      \<not> (\<exists>f\<in>set es. transaction_replay f = transaction_replay e \<and> te_request_digest f \<noteq> te_request_digest e) \<and>
      transaction_allowed (transaction_status_of es (te_request_digest e)) (te_status e)"
    unfolding transaction_check_def ident rep st by (simp only: is_ok_simps simp_thms not_not de_Morgan_conj split: if_split) blast
  then show ok: "is_ok (transaction_check env a e) \<longleftrightarrow> transaction_shape_ok env e \<and> transaction_follows es e"
    unfolding m transaction_follows_def by blast
  show "transaction_scan_agrees (es @ [e]) a'" if c: "transaction_check env a e = Inr a'"
  proof -
    have "transaction_follows es e" using ok c by simp
    then have keys: "\<forall>f\<in>set es. te_request_digest f = te_request_digest e \<longrightarrow> transaction_identity f = transaction_identity e"
      "\<forall>f\<in>set es. transaction_replay f = transaction_replay e \<longrightarrow> te_request_digest f = te_request_digest e"
      by (simp_all add: transaction_follows_def)
    have "a' = \<lparr>tn_index = Suc (tn_index a), tn_previous = te_entry_digest e,
        tn_latest = bt_insert (te_request_digest e) (te_status e) (tn_latest a),
        tn_identities = bt_insert (te_request_digest e) (transaction_identity e) (tn_identities a),
        tn_replays = bt_insert (transaction_replay e) (te_request_digest e) (tn_replays a)\<rparr>"
      using c by (auto simp: transaction_check_def split: if_splits)
    then show ?thesis using a keys by (auto simp: transaction_scan_agrees_def)
  qed
qed

lemma transaction_scan_exact:
  "(\<exists>a. scan_transactions env transaction_scan_start es = Inr a \<and> transaction_scan_agrees es a) \<and> transactions_ok env [] es \<or>
   \<not> is_ok (scan_transactions env transaction_scan_start es) \<and> \<not> transactions_ok env [] es"
proof (induction es rule: rev_induct)
  case Nil
  then show ?case by (simp add: transaction_scan_agrees_def transaction_scan_start_def)
next
  case (snoc e es)
  then show ?case
  proof
    assume l: "(\<exists>a. scan_transactions env transaction_scan_start es = Inr a \<and> transaction_scan_agrees es a) \<and> transactions_ok env [] es"
    then obtain a where a: "scan_transactions env transaction_scan_start es = Inr a" "transaction_scan_agrees es a" by blast
    note st = transaction_scan_step [OF a(2), of env e]
    show ?case
    proof (cases "transaction_check env a e")
      case (Inl err)
      then show ?thesis using st(1) a(1) by (simp add: scan_transactions_snoc transactions_ok_append)
    next
      case (Inr a')
      then show ?thesis using st(1) st(2) [OF Inr] a(1) l by (simp add: scan_transactions_snoc transactions_ok_append)
    qed
  next
    assume "\<not> is_ok (scan_transactions env transaction_scan_start es) \<and> \<not> transactions_ok env [] es"
    then show ?case by (cases "scan_transactions env transaction_scan_start es") (simp_all add: scan_transactions_snoc transactions_ok_append)
  qed
qed

lemma broker_validate_exact:
  "broker_journal_validate env j = Inr () \<longleftrightarrow> bj_version j = BROKER_JOURNAL_VERSION \<and> transactions_ok env [] (bj_entries j)"
  using transaction_scan_exact [of env "bj_entries j"]
  by (cases "scan_transactions env transaction_scan_start (bj_entries j)") (auto simp: broker_journal_validate_def)

section \<open>Paths of a request\<close>

definition request_path :: "transaction_event list \<Rightarrow> string \<Rightarrow> transaction_status list" where
  "request_path es d = map te_status (filter (\<lambda>e. te_request_digest e = d) es)"

definition transaction_paths :: "transaction_status list set" where
  "transaction_paths = {[], [TS_Rejected], [TS_Quarantined], [TS_Admitted], [TS_Admitted, TS_Quarantined], [TS_Admitted, TS_Executing],
     [TS_Admitted, TS_Executing, TS_Committed], [TS_Admitted, TS_Executing, TS_RolledBack], [TS_Admitted, TS_Executing, TS_Quarantined]}"

lemma transaction_status_path: "transaction_status_of es d = last_of id (request_path es d)"
  by (induction es rule: rev_induct) (simp_all add: request_path_def last_of_def)

lemma transaction_paths_step:
  "p \<in> transaction_paths \<Longrightarrow> transaction_allowed (last_of id p) s \<Longrightarrow> p @ [s] \<in> transaction_paths"
  by (cases s) (auto simp: transaction_paths_def last_of_def)

lemma transactions_ok_paths: "transactions_ok env [] es \<Longrightarrow> request_path es d \<in> transaction_paths"
proof (induction es rule: rev_induct)
  case Nil
  then show ?case by (simp add: request_path_def transaction_paths_def)
next
  case (snoc e es)
  then have p: "request_path es d \<in> transaction_paths" and f: "transaction_follows es e" by (simp_all add: transactions_ok_append)
  show ?case
  proof (cases "te_request_digest e = d")
    case True
    then have "request_path (es @ [e]) d = request_path es d @ [te_status e]" by (simp add: request_path_def)
    then show ?thesis using transaction_paths_step [OF p] f True by (simp add: transaction_follows_def transaction_status_path)
  qed (use p in \<open>simp add: request_path_def\<close>)
qed

lemma transactions_ok_replay:
  "transactions_ok env [] es \<Longrightarrow> f \<in> set es \<Longrightarrow> g \<in> set es \<Longrightarrow> transaction_replay f = transaction_replay g \<Longrightarrow>
     te_request_digest f = te_request_digest g"
proof (induction es rule: rev_induct)
  case (snoc e es)
  then have k: "\<forall>f\<in>set es. transaction_replay f = transaction_replay e \<longrightarrow> te_request_digest f = te_request_digest e"
    and h: "transactions_ok env [] es" by (simp_all add: transactions_ok_append transaction_follows_def)
  consider "f \<in> set es" "g \<in> set es" | "f = e" "g \<in> set es" | "g = e" "f \<in> set es" | "f = e" "g = e" using snoc.prems by auto
  then show ?case
  proof cases
    case 1
    then show ?thesis using snoc.IH h snoc.prems(4) by blast
  next
    case 2
    then show ?thesis using k snoc.prems(4) by metis
  next
    case 3
    then show ?thesis using k snoc.prems(4) by metis
  qed simp
qed simp

lemma paths_distinct: "p \<in> transaction_paths \<Longrightarrow> distinct p"
  by (auto simp: transaction_paths_def)

text \<open>\<open>in_flight\<close> reports the last event of each request that is admitted or executing, once.\<close>

lemma filter_distinct_status:
  assumes "distinct (map te_status (filter (\<lambda>e. te_request_digest e = d) es))"
  shows "length (filter (\<lambda>e. te_request_digest e = d \<and> te_status e = s) es) \<le> 1"
  using assms
proof (induction es)
  case (Cons e es)
  show ?case
  proof (cases "te_request_digest e = d \<and> te_status e = s")
    case True
    then have "s \<notin> te_status ` set (filter (\<lambda>e. te_request_digest e = d) es)" using Cons.prems by auto
    then have "filter (\<lambda>e. te_request_digest e = d \<and> te_status e = s) es = []" by (auto simp: filter_empty_conv)
    then show ?thesis using True by simp
  next
    case False
    then show ?thesis using Cons by (auto split: if_splits)
  qed
qed simp

lemma find_SomeD: "find P xs = Some x \<Longrightarrow> x \<in> set xs \<and> P x"
  by (induction xs) (auto split: if_splits)

lemma in_flight_exact:
  assumes "broker_journal_validate env j = Inr ()"
  shows "d \<in> te_request_digest ` set (broker_in_flight j) \<longleftrightarrow> broker_status j d \<in> {Some TS_Admitted, Some TS_Executing}"
    and "length (filter (\<lambda>e. te_request_digest e = d) (broker_in_flight j)) \<le> 1"
proof -
  have h: "transactions_ok env [] (bj_entries j)" using assms by (simp add: broker_validate_exact)
  show "d \<in> te_request_digest ` set (broker_in_flight j) \<longleftrightarrow> broker_status j d \<in> {Some TS_Admitted, Some TS_Executing}"
  proof
    assume "broker_status j d \<in> {Some TS_Admitted, Some TS_Executing}"
    moreover from this obtain f where "find (\<lambda>e. te_request_digest e = d) (rev (bj_entries j)) = Some f" "broker_status j d = Some (te_status f)"
      by (auto simp: broker_status_def transaction_status_of_def)
    moreover from this have "f \<in> set (bj_entries j)" "te_request_digest f = d" by (auto dest: find_SomeD)
    ultimately show "d \<in> te_request_digest ` set (broker_in_flight j)" by (force simp: broker_in_flight_def)
  qed (auto simp: broker_in_flight_def)
  have "filter (\<lambda>e. te_request_digest e = d) (broker_in_flight j) = 
      (if broker_status j d \<in> {Some TS_Admitted, Some TS_Executing}
       then filter (\<lambda>e. te_request_digest e = d \<and> Some (te_status e) = broker_status j d) (bj_entries j) else [])"
    by (auto simp: broker_in_flight_def filter_empty_conv intro!: filter_cong)
  moreover have "length (filter (\<lambda>e. te_request_digest e = d \<and> te_status e = s) (bj_entries j)) \<le> 1" for s
    by (rule filter_distinct_status) (use paths_distinct [OF transactions_ok_paths [OF h, of d]] in \<open>simp add: request_path_def\<close>)
  ultimately show "length (filter (\<lambda>e. te_request_digest e = d) (broker_in_flight j)) \<le> 1" by auto
qed

section \<open>Appending\<close>

datatype broker_op =
    BO_Append string string u64 "string option" "string option" "string option" transaction_status "string option"

fun broker_step :: "crypto \<Rightarrow> broker_journal \<Rightarrow> broker_op \<Rightarrow> broker_journal" where
  "broker_step env j (BO_Append d agent nonce dest dec cap status out) = snd (broker_append env d agent nonce dest dec cap status out j)"

fun broker_result :: "crypto \<Rightarrow> broker_journal \<Rightarrow> broker_op \<Rightarrow> unit result" where
  "broker_result env j (BO_Append d agent nonce dest dec cap status out) = fst (broker_append env d agent nonce dest dec cap status out j)"

definition broker_grows :: "broker_journal \<Rightarrow> broker_journal \<Rightarrow> bool" where
  "broker_grows j j' \<longleftrightarrow> bj_version j' = bj_version j \<and> (\<exists>es. bj_entries j' = bj_entries j @ es)"

lemma broker_step_grows: "broker_grows j (broker_step env j a)"
  by (cases a) (simp add: broker_append_def broker_grows_def Let_def)

lemma broker_result_valid: "broker_result env j a = Inr () \<Longrightarrow> broker_journal_validate env (broker_step env j a) = Inr ()"
  by (cases a) (auto simp: broker_append_def Let_def split: if_splits)

lemma broker_prefix_valid:
  assumes "broker_grows j j'" and "broker_journal_validate env j' = Inr ()"
  shows "broker_journal_validate env j = Inr ()"
  using assms by (auto simp: broker_validate_exact broker_grows_def transactions_ok_append)

interpretation broker_machine: monotone_machine "broker_step env" "\<lambda>_. True" broker_grows for env
proof
  fix j k l :: broker_journal
  assume "broker_grows j k" "broker_grows k l"
  then show "broker_grows j l" by (auto simp: broker_grows_def)
qed (auto intro: broker_step_grows, simp add: broker_grows_def)

lemma new_transaction_fields [simp]:
  "te_sequence (new_transaction env es d agent nonce dest dec cap status out) = of_nat (length es)"
  "te_previous_digest (new_transaction env es d agent nonce dest dec cap status out) = chain_tip te_entry_digest zero_digest es"
  "te_request_digest (new_transaction env es d agent nonce dest dec cap status out) = d"
  "te_agent_id (new_transaction env es d agent nonce dest dec cap status out) = agent"
  "te_nonce (new_transaction env es d agent nonce dest dec cap status out) = nonce"
  "te_destination_relpath (new_transaction env es d agent nonce dest dec cap status out) = dest"
  "te_decision_digest (new_transaction env es d agent nonce dest dec cap status out) = dec"
  "te_capability_token_id (new_transaction env es d agent nonce dest dec cap status out) = cap"
  "te_status (new_transaction env es d agent nonce dest dec cap status out) = status"
  "te_output_digest (new_transaction env es d agent nonce dest dec cap status out) = out"
  by (simp_all add: new_transaction_def Let_def)

lemma new_transaction_sealed:
  "te_entry_digest (new_transaction env es d agent nonce dest dec cap status out) =
     digest env (transaction_material (new_transaction env es d agent nonce dest dec cap status out))"
  by (simp add: new_transaction_def Let_def transaction_material_def)

definition digests_ok :: "string option list \<Rightarrow> bool" where
  "digests_ok ds \<longleftrightarrow> (\<forall>d\<in>set ds. \<forall>v. d = Some v \<longrightarrow> valid_digest v)"

lemma new_transaction_shape:
  assumes "sha256_len env"
  shows "transaction_shape_ok env (new_transaction env es d agent nonce dest dec cap status out) \<longleftrightarrow>
    valid_digest d \<and> broker_text agent \<and> nonce \<noteq> 0 \<and> (\<forall>v. dest = Some v \<longrightarrow> broker_relative_path v) \<and> digests_ok [dec, cap, out]"
  unfolding transaction_shape_ok_def new_transaction_sealed using assms by (auto simp: digests_ok_def)

section \<open>Properties\<close>

text \<open>
  C37.  The state machine of a request.  In a valid broker journal each request is on one of nine paths, so it is admitted once before it executes and committed or rolled
  back at most once; an agent's nonce belongs to one request; \<open>in_flight\<close> lists exactly the requests that are admitted or executing, each once;
  and every journal that \<open>append\<close> answers with success is valid.
\<close>

theorem broker_requests_follow_paths:
  assumes "broker_journal_validate env j = Inr ()"
  shows "(\<forall>d. request_path (bj_entries j) d \<in> transaction_paths \<and> broker_status j d = last_of id (request_path (bj_entries j) d)) \<and>
    (\<forall>e\<in>set (bj_entries j). \<forall>f\<in>set (bj_entries j). te_agent_id e = te_agent_id f \<and> te_nonce e = te_nonce f \<longrightarrow>
       te_request_digest e = te_request_digest f) \<and>
    (\<forall>d. (d \<in> te_request_digest ` set (broker_in_flight j) \<longleftrightarrow> broker_status j d \<in> {Some TS_Admitted, Some TS_Executing}) \<and>
       length (filter (\<lambda>e. te_request_digest e = d) (broker_in_flight j)) \<le> 1) \<and>
    (\<forall>a. broker_result env j a = Inr () \<longrightarrow> broker_journal_validate env (broker_step env j a) = Inr ())"
proof -
  have h: "transactions_ok env [] (bj_entries j)" using assms by (simp add: broker_validate_exact)
  have "te_request_digest e = te_request_digest f"
    if "e \<in> set (bj_entries j)" "f \<in> set (bj_entries j)" "te_agent_id e = te_agent_id f" "te_nonce e = te_nonce f" for e f
    using transactions_ok_replay [OF h that(1,2)] that(3,4) by (simp add: transaction_replay_def)
  moreover have "broker_status j d = last_of id (request_path (bj_entries j) d)" for d by (simp add: broker_status_def transaction_status_path)
  ultimately show ?thesis using transactions_ok_paths [OF h] in_flight_exact [OF assms] broker_result_valid by blast
qed

text \<open>
  C25.  A failed append can poison the journal.  On a valid journal \<open>append\<close> refuses some calls and leaves the journal alone; otherwise it pushes the
  event, and answers success exactly if the event has valid digests, repeats the identity of its request and is an allowed transition.  When it answers an error
  after the push, the event stays: from then on no append ever succeeds, and the journal cannot be saved.
\<close>

theorem broker_append_exact:
  assumes "sha256_len env" and "broker_journal_validate env j = Inr ()" and "broker_append env d agent nonce dest dec cap status out j = (r, j')"
    and "e = new_transaction env (bj_entries j) d agent nonce dest dec cap status out"
  shows "if \<not> valid_digest d \<or> \<not> broker_text agent \<or> nonce = 0 \<or> (\<exists>v. dest = Some v \<and> \<not> broker_relative_path v) \<or>
       (\<exists>f\<in>set (bj_entries j). te_agent_id f = agent \<and> te_nonce f = nonce \<and> te_request_digest f \<noteq> d) \<or>
       (broker_status j d = None \<and> status \<in> {TS_Executing, TS_Committed, TS_RolledBack})
     then is_ok r = False \<and> j' = j
     else bj_entries j' = bj_entries j @ [e] \<and>
       (r = Inr () \<longleftrightarrow> digests_ok [dec, cap, out] \<and> transaction_follows (bj_entries j) e) \<and>
       (r \<noteq> Inr () \<longrightarrow> (\<forall>ops a. broker_result env (run_ops (broker_step env) j' ops) a \<noteq> Inr () \<and>
          (\<forall>io p fs. \<not> is_ok (fst (broker_journal_save env io (run_ops (broker_step env) j' ops) p fs)))))"
proof -
  let ?refused = "\<not> valid_digest d \<or> \<not> broker_text agent \<or> nonce = 0 \<or> (\<exists>v. dest = Some v \<and> \<not> broker_relative_path v) \<or>
       (\<exists>f\<in>set (bj_entries j). te_agent_id f = agent \<and> te_nonce f = nonce \<and> te_request_digest f \<noteq> d) \<or>
       (broker_status j d = None \<and> status \<in> {TS_Executing, TS_Committed, TS_RolledBack})"
  show ?thesis
  proof (cases ?refused)
    case True
    then have "\<not> is_ok r \<and> j' = j" using assms(3) unfolding broker_append_def list_ex_iff
      by (cases dest) (auto simp: Let_def split: if_splits)
    then show ?thesis using True by simp
  next
    case False
    have dest: "(case dest of None \<Rightarrow> False | Some v \<Rightarrow> \<not> broker_relative_path v) \<longleftrightarrow> (\<exists>v. dest = Some v \<and> \<not> broker_relative_path v)"
      by (cases dest) simp_all
    have "broker_append env d agent nonce dest dec cap status out j =
        (broker_journal_validate env (j\<lparr>bj_entries := bj_entries j @ [e]\<rparr>), j\<lparr>bj_entries := bj_entries j @ [e]\<rparr>)"
      using False unfolding broker_append_def list_ex_iff dest Let_def assms(4) by (simp only: if_False de_Morgan_disj simp_thms)
    then have j': "j' = j\<lparr>bj_entries := bj_entries j @ [e]\<rparr>" and r: "r = broker_journal_validate env j'" using assms(3) by simp_all
    have v: "bj_version j = BROKER_JOURNAL_VERSION" "transactions_ok env [] (bj_entries j)" using assms(2) by (simp_all add: broker_validate_exact)
    have "r = Inr () \<longleftrightarrow> transaction_shape_ok env e \<and> transaction_follows (bj_entries j) e"
      using v by (simp add: r j' broker_validate_exact transactions_ok_append)
    then have ok: "r = Inr () \<longleftrightarrow> digests_ok [dec, cap, out] \<and> transaction_follows (bj_entries j) e"
      using False new_transaction_shape [OF assms(1)] by (auto simp: assms(4))
    have "broker_result env (run_ops (broker_step env) j' ops) a \<noteq> Inr () \<and>
        \<not> is_ok (fst (broker_journal_save env io (run_ops (broker_step env) j' ops) p fs))" if bad: "r \<noteq> Inr ()" for ops a io p fs
    proof -
      let ?k = "run_ops (broker_step env) j' ops"
      have k: "broker_journal_validate env ?k \<noteq> Inr ()"
        using broker_prefix_valid [OF broker_machine.run_grows [OF TrueI]] bad r by blast
      have "broker_result env ?k a \<noteq> Inr ()" using broker_result_valid broker_prefix_valid [OF broker_step_grows] k by blast
      moreover obtain err where "broker_journal_validate env ?k = Inl err" using k by (cases "broker_journal_validate env ?k") auto
      ultimately show ?thesis by (simp add: broker_journal_save_def save_valid_def)
    qed
    moreover have "bj_entries j' = bj_entries j @ [e]" by (simp add: j')
    ultimately show ?thesis using False ok by (simp only: if_False) blast
  qed
qed

section \<open>Concrete inputs\<close>

definition demo_transaction :: "transaction_status \<Rightarrow> broker_journal \<Rightarrow> unit result \<times> broker_journal" where
  "demo_transaction status = broker_append demo_env zero_digest ''a'' 1 None None None status None"

lemma demo_admitted: "demo_transaction TS_Admitted broker_journal_new =
    (Inr (), broker_journal_new\<lparr>bj_entries := [new_transaction demo_env [] zero_digest ''a'' 1 None None None TS_Admitted None]\<rparr>)"
proof -
  have v: "broker_journal_validate demo_env broker_journal_new = Inr ()" by (simp add: broker_validate_exact broker_journal_new_def)
  let ?e = "new_transaction demo_env [] zero_digest ''a'' 1 None None None TS_Admitted None"
  have "transaction_shape_ok demo_env ?e"
    using new_transaction_shape [OF demo_sha256_len] by (simp add: broker_text_def text_within_def ascii_control_def digests_ok_def)
  moreover have "transaction_follows [] ?e" by (simp add: transaction_follows_def)
  ultimately have "broker_journal_validate demo_env (broker_journal_new\<lparr>bj_entries := [?e]\<rparr>) = Inr ()"
    by (simp add: broker_validate_exact broker_journal_new_def)
  then show ?thesis
    by (simp add: demo_transaction_def broker_append_def broker_journal_new_def broker_text_def text_within_def ascii_control_def Let_def)
qed

theorem broker_requests_follow_paths_witness:
  "request_path (bj_entries (snd (demo_transaction TS_Admitted broker_journal_new))) zero_digest \<in> transaction_paths"
proof -
  have "broker_journal_validate demo_env (snd (demo_transaction TS_Admitted broker_journal_new)) = Inr ()"
    using broker_result_valid [of demo_env broker_journal_new "BO_Append zero_digest ''a'' 1 None None None TS_Admitted None"] demo_admitted
    by (simp add: demo_transaction_def)
  from broker_requests_follow_paths [OF this] show ?thesis by blast
qed

theorem broker_append_exact_witness:
  "\<exists>j r j'. demo_transaction TS_Admitted broker_journal_new = (Inr (), j) \<and> demo_transaction TS_Admitted j = (r, j') \<and> \<not> is_ok r \<and> j' \<noteq> j \<and>
     \<not> is_ok (fst (demo_transaction TS_Executing j'))"
proof -
  let ?j = "snd (demo_transaction TS_Admitted broker_journal_new)"
  obtain r j' where a: "demo_transaction TS_Admitted ?j = (r, j')" by fastforce
  then have b: "broker_append demo_env zero_digest ''a'' 1 None None None TS_Admitted None ?j = (r, j')"
    unfolding demo_transaction_def [of TS_Admitted, THEN fun_cong, of ?j] .
  have v: "broker_journal_validate demo_env ?j = Inr ()"
    using broker_result_valid [of demo_env broker_journal_new "BO_Append zero_digest ''a'' 1 None None None TS_Admitted None"] demo_admitted
    by (simp add: demo_transaction_def)
  have j: "bj_entries ?j = [new_transaction demo_env [] zero_digest ''a'' 1 None None None TS_Admitted None]" by (simp add: demo_admitted)
  let ?e = "new_transaction demo_env (bj_entries ?j) zero_digest ''a'' 1 None None None TS_Admitted None"
  have "\<not> transaction_follows (bj_entries ?j) ?e" by (simp add: j transaction_follows_def transaction_status_of_def)
  then have x: "bj_entries j' = bj_entries ?j @ [?e]" "r \<noteq> Inr ()" "\<forall>ops a. broker_result demo_env (run_ops (broker_step demo_env) j' ops) a \<noteq> Inr ()"
    using broker_append_exact [OF demo_sha256_len v b refl]
    by (auto simp: j broker_text_def text_within_def ascii_control_def)
  then have "j' \<noteq> ?j" by auto
  moreover have "broker_result demo_env (run_ops (broker_step demo_env) j' []) (BO_Append zero_digest ''a'' 1 None None None TS_Executing None) \<noteq> Inr ()"
    using x(3) by blast
  then have "\<not> is_ok (fst (demo_transaction TS_Executing j'))" by (simp add: is_ok_unit demo_transaction_def)
  moreover have "demo_transaction TS_Admitted broker_journal_new = (Inr (), ?j)" by (simp add: demo_admitted)
  ultimately show ?thesis using x(2) a by (auto simp: is_ok_unit)
qed

end
