(* ===== verification/Checker.thy ===== *)
theory Checker
  imports Broker_Journal Kernel Audit_Journal Receipt_Properties
begin

text \<open>
  The independent checker of src/checker.rs, which repeats the equations of the records of the other components instead of calling their
  \<open>validate\<close>.  The properties say how far the two agree: where the checker accepts exactly what the producer accepts, where it asks for more, and where it
  asks for less.
\<close>

section \<open>Journals\<close>

definition checker_text :: "string \<Rightarrow> bool" where
  "checker_text value \<longleftrightarrow> value \<noteq> [] \<and> length value \<le> 256 \<and> \<not> has_control value"

definition checker_relative_path :: "string \<Rightarrow> bool" where
  "checker_relative_path value \<longleftrightarrow> checker_text value \<and> list_all is_normal (path_components value)"

definition checker_field :: "string \<times> string \<Rightarrow> unit result" where
  "checker_field kv = (case kv of (key, value) \<Rightarrow>
     if key = [] \<or> 64 < length key \<or> has_control key \<or> value = [] \<or> 256 < length value \<or> has_control value
     then Inl (Err_Journal ''independent audit metadata malformed'')
     else if key = ''event''
     then if value \<notin> {''read'', ''write'', ''freeze'', ''kill'', ''rollback''} then Inl (Err_Journal ''independent audit event invalid'') else Inr ()
     else if key \<in> {''candidate_digest'', ''decision_digest'', ''policy_digest'', ''capability_token_id'', ''state_digest'', ''reason_digest''}
     then if \<not> valid_digest value then Inl (Err_Journal ''independent audit digest invalid'') else Inr ()
     else Inl (Err_Journal ''independent audit metadata key invalid''))"

definition checker_metadata :: "metadata \<Rightarrow> unit result" where
  "checker_metadata md =
     (if md = [] \<or> 8 < length md then Inl (Err_Journal ''independent audit metadata count invalid'')
      else try_r (check_all checker_field md) (\<lambda>_.
        if \<not> bt_contains md ''event'' then Inl (Err_Journal ''independent audit event field missing'') else Inr ()))"

fun checker_audit_loop :: "crypto \<Rightarrow> nat \<Rightarrow> string \<Rightarrow> audit_entry list \<Rightarrow> unit result" where
  "checker_audit_loop env i previous [] = Inr ()"
| "checker_audit_loop env i previous (e # es) =
     try_r (checker_metadata (ae_metadata e)) (\<lambda>_.
     if ae_sequence e \<noteq> of_nat i \<or> ae_previous_digest e \<noteq> previous \<or> \<not> valid_digest (ae_previous_digest e) \<or> \<not> valid_digest (ae_entry_digest e)
     then Inl (Err_Journal ''independent audit check failed'')
     else if digest env (JArr [json_word (ae_sequence e), JStr (ae_previous_digest e), json_map JStr (ae_metadata e)]) \<noteq> ae_entry_digest e
     then Inl (Err_Journal ''independent audit digest mismatch'')
     else checker_audit_loop env (Suc i) (ae_entry_digest e) es)"

definition checker_audit :: "crypto \<Rightarrow> audit_journal \<Rightarrow> unit result" where
  "checker_audit env j = checker_audit_loop env 0 (replicate 64 CHR ''0'') (aj_entries j)"

fun checker_replay_loop :: "crypto \<Rightarrow> nat \<Rightarrow> string \<Rightarrow> string bset \<Rightarrow> string bset \<Rightarrow> journal_entry list \<Rightarrow> unit result" where
  "checker_replay_loop env i previous seen replays [] = Inr ()"
| "checker_replay_loop env i previous seen replays (e # es) =
     (if je_sequence e \<noteq> of_nat i \<or> je_previous_digest e \<noteq> previous \<or> \<not> valid_digest (je_candidate_digest e) \<or>
         \<not> valid_digest (je_replay_digest e) \<or> \<not> valid_digest (je_decision_digest e) \<or> \<not> valid_digest (je_entry_digest e) \<or>
         bs_contains seen (je_candidate_digest e) \<or> bs_contains replays (je_replay_digest e)
      then Inl (Err_Journal ''independent replay check failed'')
      else if digest env (JArr [json_word (je_sequence e), JStr (je_previous_digest e), JStr (je_candidate_digest e), JStr (je_replay_digest e),
          JStr (je_decision_digest e)]) \<noteq> je_entry_digest e
      then Inl (Err_Journal ''independent replay digest mismatch'')
      else checker_replay_loop env (Suc i) (je_entry_digest e) (bs_insert (je_candidate_digest e) seen)
             (bs_insert (je_replay_digest e) replays) es)"

definition checker_replay :: "crypto \<Rightarrow> replay_journal \<Rightarrow> unit result" where
  "checker_replay env j = checker_replay_loop env 0 (replicate 64 CHR ''0'') [] [] (rj_entries j)"

definition checker_lifecycles :: "crypto \<Rightarrow> replay_journal \<Rightarrow> (string, lifecycle) btree \<Rightarrow> unit result" where
  "checker_lifecycles env j ls =
     try_r (checker_replay env j) (\<lambda>_.
     let candidates = bs_from_list (map je_candidate_digest (rj_entries j)) in
     if length candidates \<noteq> length ls \<or>
        list_ex (\<lambda>(c, l). \<not> valid_digest c \<or> lc_revision l = 0 \<or> lc_state l = LS_Proposal \<or> \<not> is_ok (lifecycle_validate l) \<or>
          \<not> bs_contains candidates c) ls
     then Inl (Err_Journal ''independent lifecycle consistency check failed'') else Inr ())"

section \<open>The broker journal\<close>

definition checker_transaction_allowed :: "transaction_status option \<Rightarrow> transaction_status \<Rightarrow> bool" where
  "checker_transaction_allowed prior status \<longleftrightarrow> (prior, status) \<in>
     {(None, TS_Admitted), (None, TS_Rejected), (None, TS_Quarantined), (Some TS_Admitted, TS_Executing), (Some TS_Admitted, TS_Quarantined),
      (Some TS_Executing, TS_Committed), (Some TS_Executing, TS_RolledBack), (Some TS_Executing, TS_Quarantined)}"

fun checker_broker_loop ::
  "crypto \<Rightarrow> nat \<Rightarrow> string \<Rightarrow> (string, transaction_status) btree \<Rightarrow> (string, string \<times> u64 \<times> string option) btree \<Rightarrow>
   (string \<times> u64, string) btree \<Rightarrow> transaction_event list \<Rightarrow> (string, transaction_status) btree result" where
  "checker_broker_loop env i previous latest identities replays [] = Inr latest"
| "checker_broker_loop env i previous latest identities replays (e # es) =
     (if te_sequence e \<noteq> of_nat i \<or> te_previous_digest e \<noteq> previous \<or> \<not> valid_digest (te_request_digest e) \<or>
         \<not> checker_text (te_agent_id e) \<or> te_nonce e = 0 \<or>
         (case te_destination_relpath e of None \<Rightarrow> False | Some v \<Rightarrow> \<not> checker_relative_path v) \<or>
         (case te_decision_digest e of None \<Rightarrow> False | Some v \<Rightarrow> \<not> valid_digest v) \<or>
         (case te_capability_token_id e of None \<Rightarrow> False | Some v \<Rightarrow> \<not> valid_digest v) \<or>
         (case te_output_digest e of None \<Rightarrow> False | Some v \<Rightarrow> \<not> valid_digest v) \<or> \<not> valid_digest (te_entry_digest e)
      then Inl (Err_Journal ''independent broker journal event is malformed'')
      else let ident = (te_agent_id e, te_nonce e, te_destination_relpath e) in
        if (case bt_get identities (te_request_digest e) of None \<Rightarrow> False | Some expected \<Rightarrow> expected \<noteq> ident)
        then Inl (Err_Journal ''independent broker journal request identity changed'')
        else if (case bt_get replays (te_agent_id e, te_nonce e) of None \<Rightarrow> False | Some d \<Rightarrow> d \<noteq> te_request_digest e)
        then Inl (Err_Journal ''independent broker journal agent nonce replay'')
        else if \<not> checker_transaction_allowed (bt_get latest (te_request_digest e)) (te_status e)
        then Inl (Err_Journal ''independent broker transaction transition invalid'')
        else if digest env (JArr [json_word (te_sequence e), JStr (te_previous_digest e), JStr (te_request_digest e), JStr (te_agent_id e),
            json_word (te_nonce e), json_opt JStr (te_destination_relpath e), json_opt JStr (te_decision_digest e),
            json_opt JStr (te_capability_token_id e), JStr (transaction_status_name (te_status e)), json_opt JStr (te_output_digest e)])
          \<noteq> te_entry_digest e
        then Inl (Err_Journal ''independent broker journal digest mismatch'')
        else checker_broker_loop env (Suc i) (te_entry_digest e) (bt_insert (te_request_digest e) (te_status e) latest)
               (bt_insert (te_request_digest e) ident identities) (bt_insert (te_agent_id e, te_nonce e) (te_request_digest e) replays) es)"

definition checker_broker :: "crypto \<Rightarrow> broker_journal \<Rightarrow> unit result" where
  "checker_broker env j =
     (if bj_version j \<noteq> BROKER_JOURNAL_VERSION then Inl (Err_Journal ''independent broker journal version invalid'')
      else try_r (checker_broker_loop env 0 (replicate 64 CHR ''0'') [] [] [] (bj_entries j)) (\<lambda>latest.
        if bj_frozen j \<and> list_ex (\<lambda>s. s = TS_Admitted \<or> s = TS_Executing) (bt_values latest)
        then Inl (Err_Journal ''frozen broker journal retains in-flight authority'') else Inr ()))"

section \<open>The crypto journal\<close>

definition checker_crypto_transition :: "adapter_event_kind option \<Rightarrow> adapter_event_kind \<Rightarrow> bool" where
  "checker_crypto_transition current next \<longleftrightarrow> (current, next) \<in>
     {(None, EK_Proposed), (Some EK_Proposed, EK_DryRunPrepared), (Some EK_Proposed, EK_Quarantined), (Some EK_DryRunPrepared, EK_Reconciled),
      (Some EK_DryRunPrepared, EK_Quarantined), (Some EK_Reconciled, EK_PayoutProposed)}"

fun checker_crypto_loop ::
  "crypto \<Rightarrow> nat \<Rightarrow> string option \<Rightarrow> u64 option \<Rightarrow> (string, adapter_event_kind) btree \<Rightarrow> (string, string) btree \<Rightarrow> (string, string) btree \<Rightarrow>
   (string \<times> adapter_event_kind \<times> string) bset \<Rightarrow> crypto_event list \<Rightarrow> unit result" where
  "checker_crypto_loop env i prev_digest prev_time states intent_keys idem identities [] = Inr ()"
| "checker_crypto_loop env i prev_digest prev_time states intent_keys idem identities (e # es) =
     (if ce_schema_version e \<noteq> 1 \<or> ce_state_slice e \<noteq> STATE_SLICE \<or> ce_sequence e \<noteq> of_nat i \<or> \<not> valid_digest (ce_intent_digest e) \<or>
         \<not> checker_text (ce_idempotency_key e) \<or> \<not> valid_digest (ce_subject_digest e) \<or> ce_previous_event_digest e \<noteq> prev_digest \<or>
         (case prev_time of None \<Rightarrow> False | Some previous \<Rightarrow> ce_recorded_at e < previous) \<or> \<not> valid_digest (ce_event_digest e)
      then Inl (Err_Journal ''independent crypto journal shape check failed'')
      else if ce_event_digest e \<noteq> digest env (json_crypto_event (e\<lparr>ce_event_digest := ''''\<rparr>))
      then Inl (Err_Journal ''independent crypto event digest check failed'')
      else if (case bt_get idem (ce_idempotency_key e) of None \<Rightarrow> False | Some d \<Rightarrow> d \<noteq> ce_intent_digest e)
      then Inl (Err_Journal ''independent crypto idempotency collision detected'')
      else if (case bt_get intent_keys (ce_intent_digest e) of None \<Rightarrow> False | Some k \<Rightarrow> k \<noteq> ce_idempotency_key e)
      then Inl (Err_Journal ''independent crypto intent key drift detected'')
      else if bs_contains identities (ce_intent_digest e, ce_kind e, ce_subject_digest e)
      then Inl (Err_Journal ''independent crypto duplicate event detected'')
      else if \<not> checker_crypto_transition (bt_get states (ce_intent_digest e)) (ce_kind e)
      then Inl (Err_Journal ''independent crypto transition check failed'')
      else checker_crypto_loop env (Suc i) (Some (ce_event_digest e)) (Some (ce_recorded_at e)) (bt_insert (ce_intent_digest e) (ce_kind e) states)
             (bt_insert (ce_intent_digest e) (ce_idempotency_key e) intent_keys) (bt_insert (ce_idempotency_key e) (ce_intent_digest e) idem)
             (bs_insert (ce_intent_digest e, ce_kind e, ce_subject_digest e) identities) es)"

definition checker_crypto_journal :: "crypto \<Rightarrow> crypto_journal \<Rightarrow> unit result" where
  "checker_crypto_journal env j = checker_crypto_loop env 0 None None [] [] [] [] (cj_events j)"

section \<open>Receipts and observations\<close>

fun checker_sum_from :: "u64 \<Rightarrow> u64 list \<Rightarrow> u64 result" where
  "checker_sum_from tot [] = Inr tot"
| "checker_sum_from tot (x # xs) =
     try_r (ok_or (Err_Rejected ''independent receipt sum overflow'') (checked_add tot x)) (\<lambda>t. checker_sum_from t xs)"

definition checker_sum_receipt :: "crypto \<Rightarrow> sum_job \<Rightarrow> sum_receipt \<Rightarrow> u64 \<Rightarrow> unit result" where
  "checker_sum_receipt env j r now =
     (let program = digest env (JArr [JStr ''fixed-integer-sum'', json_word (1 :: u8)]);
          schema = digest env (JArr [JStr ''fixed-u64-output'', json_word (1 :: u8)]);
          inputs = digest env (json_list json_word (sj_inputs j))
      in try_r (checker_sum_from 0 (sj_inputs j)) (\<lambda>output.
      if sj_job_id j = [] \<or> has_control (sj_job_id j) \<or> sj_requester j = [] \<or> has_control (sj_requester j) \<or> sj_inputs j = [] \<or>
         1024 < length (sj_inputs j) \<or> sj_input_commitment j \<noteq> inputs \<or> sj_deadline j = 0 \<or> sj_program_digest j \<noteq> program \<or>
         sj_output_schema_digest j \<noteq> schema \<or> sj_receipt_type j \<noteq> ''ordinary-receipt-v1'' \<or> sj_privacy_requirement j \<noteq> ''none'' \<or>
         sr_provider r = [] \<or> has_control (sr_provider r) \<or> sr_provider r = sj_requester j \<or> now < sr_completed_at r \<or> sj_deadline j \<le> now \<or>
         sr_job_digest r \<noteq> digest env (json_sum_job j) \<or> sr_program_digest r \<noteq> sj_program_digest j \<or> sr_input_digest r \<noteq> inputs \<or>
         sr_input_digest r \<noteq> sj_input_commitment j \<or> sr_output_schema_digest r \<noteq> sj_output_schema_digest j \<or>
         sr_receipt_type r \<noteq> sj_receipt_type j \<or> sr_privacy_requirement r \<noteq> sj_privacy_requirement j \<or> \<not> sr_succeeded r \<or> sr_output r \<noteq> output \<or>
         sr_result_digest r \<noteq> digest env (JArr [JStr (sj_program_digest j), json_list json_word (sj_inputs j), json_word output]) \<or>
         sj_max_price j < sr_price r \<or> \<not> valid_digest (sr_job_digest r) \<or> \<not> valid_digest (sr_program_digest r) \<or>
         \<not> valid_digest (sr_input_digest r)
      then Inl (Err_Rejected ''independent receipt check failed'') else Inr ()))"

definition receipt_identity_payload :: "capability_receipt \<Rightarrow> (string \<times> json) list" where
  "receipt_identity_payload r =
    [(''version'', json_word RECEIPT_VERSION), (''state_slice'', JStr STATE_SLICE), (''proposal_digest'', JStr (cr_proposal_digest r)),
     (''candidate_digest'', JStr (cr_candidate_digest r)), (''policy_digest'', JStr (cr_policy_digest r)),
     (''capability_digest'', JStr (cr_capability_digest r)), (''subject'', JStr (cr_subject r)), (''agent_id'', JStr (cr_agent_id r)),
     (''action'', json_action (cr_action r)), (''scope'', JStr (cr_scope r)), (''issuer_key_id'', JStr (cr_issuer_key_id r)),
     (''issued_at'', json_word (cr_issued_at r)), (''expires_at'', json_word (cr_expires_at r))]"

definition checker_binding_fails ::
  "crypto \<Rightarrow> capability_receipt \<Rightarrow> string \<Rightarrow> proposal \<Rightarrow> decision \<Rightarrow> policy \<Rightarrow> capability \<Rightarrow> u64 \<Rightarrow> bool" where
  "checker_binding_fails env r subject p d pol cap now \<longleftrightarrow>
     (let pd = proposal_digest env p; pold = digest env (json_policy pol);
          intent = digest env (JArr [JStr (pr_agent_id p), JStr (pr_intent p), json_action (pr_action p), JStr (pr_scope p), json_word (pr_nonce p)]);
          token = digest env (JArr [JStr pd, json_word (ca_issued_at cap), JStr pold]);
          dec = digest env (JArr [JStr (pr_candidate_id p), json_decision_kind (de_kind d), JStr (de_reason d), JStr pd, JStr pold, json_capability cap])
      in de_kind d \<noteq> DK_Accepted \<or> \<not> checker_text subject \<or> \<not> valid_digest (cr_proposal_digest r) \<or> \<not> valid_digest (cr_candidate_digest r) \<or>
         \<not> valid_digest (cr_policy_digest r) \<or> \<not> valid_digest (cr_capability_digest r) \<or> \<not> valid_digest (cr_receipt_id r) \<or>
         \<not> checker_text (cr_subject r) \<or> cr_subject r \<noteq> subject \<or> \<not> checker_text (cr_agent_id r) \<or> \<not> checker_text (cr_scope r) \<or>
         \<not> checker_text (cr_issuer_key_id r) \<or> cr_expires_at r \<le> cr_issued_at r \<or> cr_issued_at r < ca_issued_at cap \<or>
         ca_expires_at cap < cr_expires_at r \<or> now < cr_issued_at r \<or> cr_expires_at r \<le> now \<or> \<not> valid_digest (ca_token_id cap) \<or>
         \<not> valid_digest (ca_intent_digest cap) \<or> ca_token_id cap \<noteq> token \<or> ca_intent_digest cap \<noteq> intent \<or> \<not> checker_text (ca_agent_id cap) \<or>
         \<not> checker_text (ca_scope cap) \<or> ca_expires_at cap \<le> ca_issued_at cap \<or> ca_budget cap \<noteq> pr_resource_cost p \<or>
         de_candidate_id d \<noteq> pr_candidate_id p \<or> de_candidate_digest d \<noteq> pd \<or> de_policy_digest d \<noteq> pold \<or> de_decision_digest d \<noteq> dec \<or>
         cr_proposal_digest r \<noteq> pd \<or> cr_candidate_digest r \<noteq> de_candidate_digest d \<or> cr_policy_digest r \<noteq> pold \<or>
         cr_policy_digest r \<noteq> de_policy_digest d \<or> cr_capability_digest r \<noteq> digest env (json_capability cap) \<or> cr_agent_id r \<noteq> pr_agent_id p \<or>
         cr_agent_id r \<noteq> ca_agent_id cap \<or> cr_action r \<noteq> pr_action p \<or> cr_action r \<noteq> ca_action cap \<or> cr_scope r \<noteq> pr_scope p \<or>
         cr_scope r \<noteq> ca_scope cap)"

definition checker_capability_receipt ::
  "crypto \<Rightarrow> ed25519 \<Rightarrow> capability_receipt \<Rightarrow> string \<Rightarrow> proposal \<Rightarrow> decision \<Rightarrow> policy \<Rightarrow> u8 list \<Rightarrow> u64 \<Rightarrow> unit result" where
  "checker_capability_receipt env ed r subject p d pol public_key now =
     try_r (ok_or (Err_Rejected ''accepted decision lacks capability'') (de_capability d)) (\<lambda>cap.
     if checker_binding_fails env r subject p d pol cap now
     then Inl (Err_Rejected ''independent capability receipt binding check failed'')
     else if length (cr_signature r) \<noteq> 64 then Inl (Err_Rejected ''independent capability receipt signature length check failed'')
     else if cr_receipt_id r \<noteq> digest env (JObj (receipt_identity_payload r))
     then Inl (Err_Rejected ''independent capability receipt identity check failed'')
     else if \<not> ed_key_ok ed public_key then Inl (Err_Rejected ''independent capability public key invalid'')
     else if \<not> ed_verify ed public_key (canonical_bytes env (JObj (receipt_identity_payload r @ [(''receipt_id'', JStr (cr_receipt_id r))]))) (cr_signature r)
     then Inl (Err_Rejected ''independent capability signature check failed'') else Inr ())"

definition execution_receipt_identity :: "execution_receipt \<Rightarrow> (string \<times> json) list" where
  "execution_receipt_identity r =
    [(''version'', json_word RECEIPT_VERSION), (''state_slice'', JStr STATE_SLICE), (''capability_receipt_id'', JStr (xr_capability_receipt_id r)),
     (''proposal_digest'', JStr (xr_proposal_digest r)), (''decision_digest'', JStr (xr_decision_digest r)),
     (''evidence_id'', JStr (xr_evidence_id r)), (''evidence_digest'', JStr (xr_evidence_digest r)), (''input_digest'', JStr (xr_input_digest r)),
     (''operation_id'', JStr (xr_operation_id r)), (''output_digest'', JStr (xr_output_digest r)), (''subject'', JStr (xr_subject r)),
     (''agent_id'', JStr (xr_agent_id r)), (''action'', json_action (xr_action r)), (''scope'', JStr (xr_scope r)),
     (''issuer_key_id'', JStr (xr_issuer_key_id r)), (''issued_at'', json_word (xr_issued_at r)), (''expires_at'', json_word (xr_expires_at r))]"

definition checker_execution_receipt ::
  "crypto \<Rightarrow> ed25519 \<Rightarrow> execution_receipt \<Rightarrow> capability_receipt \<Rightarrow> string \<Rightarrow> hex_digest \<Rightarrow> hex_digest \<Rightarrow> string \<Rightarrow> hex_digest \<Rightarrow> u64 \<Rightarrow> u8 list \<Rightarrow> unit result" where
  "checker_execution_receipt env ed r cr evidence_id evidence_dig input_dig operation_id expected_dec now public_key =
     (if \<not> valid_digest (xr_capability_receipt_id r) \<or> \<not> valid_digest (xr_proposal_digest r) \<or> \<not> valid_digest (xr_decision_digest r) \<or>
         \<not> valid_digest (xr_evidence_digest r) \<or> \<not> valid_digest (xr_input_digest r) \<or> \<not> valid_digest (xr_output_digest r) \<or>
         \<not> valid_digest (xr_receipt_id r) \<or> \<not> checker_text (xr_evidence_id r) \<or> \<not> checker_text (xr_operation_id r) \<or>
         \<not> checker_text (xr_subject r) \<or> \<not> checker_text (xr_agent_id r) \<or> \<not> checker_text (xr_scope r) \<or> \<not> checker_text (xr_issuer_key_id r) \<or>
         length (xr_signature r) \<noteq> 64 \<or> xr_expires_at r \<le> xr_issued_at r \<or> now < xr_issued_at r \<or> xr_expires_at r \<le> now \<or>
         xr_capability_receipt_id r \<noteq> cr_receipt_id cr \<or> xr_proposal_digest r \<noteq> cr_proposal_digest cr \<or> xr_subject r \<noteq> cr_subject cr \<or>
         xr_agent_id r \<noteq> cr_agent_id cr \<or> xr_action r \<noteq> cr_action cr \<or> xr_scope r \<noteq> cr_scope cr \<or>
         xr_issuer_key_id r \<noteq> cr_issuer_key_id cr \<or> xr_evidence_id r \<noteq> evidence_id \<or> xr_evidence_digest r \<noteq> evidence_dig \<or>
         xr_input_digest r \<noteq> input_dig \<or> xr_operation_id r \<noteq> operation_id \<or> xr_decision_digest r \<noteq> expected_dec
      then Inl (Err_Rejected ''independent execution receipt binding check failed'')
      else if xr_receipt_id r \<noteq> digest env (JObj (execution_receipt_identity r))
      then Inl (Err_Rejected ''independent execution receipt identity check failed'')
      else if \<not> ed_key_ok ed public_key then Inl (Err_Rejected ''independent execution public key invalid'')
      else if \<not> ed_verify ed public_key (canonical_bytes env (JObj (execution_receipt_identity r @ [(''receipt_id'', JStr (xr_receipt_id r))]))) (xr_signature r)
      then Inl (Err_Rejected ''independent execution signature check failed'') else Inr ())"

definition checker_observation_envelope ::
  "crypto \<Rightarrow> ed25519 \<Rightarrow> observation_envelope \<Rightarrow> key_registry \<Rightarrow> settlement_intent \<Rightarrow> unit result" where
  "checker_observation_envelope env ed e ks t =
     (let b = oe_observation e;
          shape = (case (ob_status b, ob_transaction_digest b) of
              (OS_Observed, Some d) \<Rightarrow> valid_digest d
            | (OS_NotFound, None) \<Rightarrow> True
            | (OS_Ambiguous, None) \<Rightarrow> True
            | _ \<Rightarrow> False)
      in if oe_schema_version e \<noteq> 1 \<or> oe_state_slice e \<noteq> STATE_SLICE \<or> \<not> checker_text (oe_provider_id e) \<or> \<not> checker_text (oe_key_id e) \<or>
         ob_schema_version b \<noteq> 1 \<or> ob_state_slice b \<noteq> STATE_SLICE \<or> \<not> checker_text (ob_observation_id b) \<or> ob_adapter_revision b = [] \<or>
         has_control (ob_adapter_revision b) \<or> \<not> valid_digest (ob_intent_digest b) \<or> \<not> checker_text (ob_payment_id b) \<or> ob_chain_id b = 0 \<or>
         \<not> checker_text (ob_contract_address b) \<or> \<not> shape \<or> ob_observed_amount b \<noteq> 0 \<or> \<not> checker_text (ob_asset b) \<or>
         \<not> checker_text (ob_beneficiary b) \<or> \<not> valid_digest (oe_observation_digest e) \<or>
         oe_observation_digest e \<noteq> digest env (json_chain_observation b) \<or> length (oe_signature e) \<noteq> 64 \<or> oe_provider_id e \<noteq> ob_beneficiary b \<or>
         ob_intent_digest b \<noteq> digest env (json_intent t) \<or> ob_adapter b \<noteq> it_adapter t \<or> ob_adapter_revision b \<noteq> it_adapter_revision t \<or>
         ob_payment_id b \<noteq> it_payment_id t \<or> ob_chain_id b \<noteq> it_chain_id t \<or> ob_contract_address b \<noteq> it_contract_address t \<or>
         ob_asset b \<noteq> it_asset t \<or> ob_beneficiary b \<noteq> it_beneficiary t \<or> ob_observed_at b < it_created_at t \<or> it_expires_at t \<le> ob_observed_at b
      then Inl (Err_Rejected ''independent provider observation binding check failed'')
      else try_r (ok_or (Err_Rejected ''independent provider key is not trusted'') (bt_get ks (oe_key_id e))) (\<lambda>k.
        if pk_revoked k \<or> pk_key_id k \<noteq> oe_key_id e \<or> length (pk_public_key k) \<noteq> 32
        then Inl (Err_Rejected ''independent provider key record is invalid or revoked'')
        else if \<not> ed_key_ok ed (pk_public_key k) then Inl (Err_Rejected ''independent provider public key is invalid'')
        else if \<not> ed_verify ed (pk_public_key k) (canonical_bytes env (json_observation_envelope (e\<lparr>oe_signature := []\<rparr>))) (oe_signature e)
        then Inl (Err_Rejected ''independent provider signature check failed'') else Inr ()))"

section \<open>Agreement on journals\<close>

lemma checker_text_simps: "checker_text v \<longleftrightarrow> adapter_text v \<and> length v \<le> 256" "broker_text v \<longleftrightarrow> checker_text v" "valid_text v \<longleftrightarrow> checker_text v"
  by (auto simp: checker_text_def adapter_text_def broker_text_def text_within_def valid_text_def MAX_TEXT_LEN_def)

lemma checker_broker_predicates: "broker_text = checker_text" "broker_relative_path = checker_relative_path"
  by (simp_all add: fun_eq_iff broker_relative_path_def checker_relative_path_def checker_text_simps(2))

lemmas transaction_check_unfolded =
  transaction_check_def [unfolded transaction_malformed_def checker_broker_predicates transaction_identity_def transaction_replay_def transaction_material_def]

lemma checker_field_ok: "checker_field kv = Inr () \<longleftrightarrow> validate_field kv = Inr ()"
  by (cases kv) (simp add: checker_field_def validate_field_def)

lemma checker_metadata_ok: "checker_metadata md = Inr () \<longleftrightarrow> validate_metadata md = Inr ()"
  by (simp add: checker_metadata_def validate_metadata_def MAX_METADATA_FIELDS_def try_r_eq_Inr check_all_ok checker_field_ok)

lemma checker_audit_ok: "checker_audit env j = Inr () \<longleftrightarrow> audit_validate env j = Inr ()"
proof -
  have "checker_audit_loop env i p es = Inr () \<longleftrightarrow> audit_check env i p es = Inr ()" for i p es
  proof (induction es arbitrary: i p)
    case (Cons e es)
    show ?case using Cons.IH [of "Suc i" "ae_entry_digest e"] checker_metadata_ok [of "ae_metadata e"]
      by (auto simp: try_r_eq_Inr is_ok_unit audit_material_def audit_link_def)
  qed simp
  then show ?thesis by (simp add: checker_audit_def audit_validate_def zero_digest_def)
qed

lemma checker_replay_ok: "checker_replay env j = Inr () \<longleftrightarrow> journal_validate env j = Inr ()"
proof -
  have "checker_replay_loop env i p s r es = Inr () \<longleftrightarrow> journal_check env i p s r es = Inr ()" for i p s r es
    by (induction es arbitrary: i p s r) (simp_all add: entry_material_def link_material_def)
  then show ?thesis by (simp add: checker_replay_def journal_validate_def zero_digest_def)
qed

lemma checker_lifecycles_ok:
  "checker_lifecycles env j ls = Inr () \<longleftrightarrow> journal_validate env j = Inr () \<and>
     length (bs_from_list (map je_candidate_digest (rj_entries j))) = length ls \<and>
     \<not> list_ex (lifecycle_entry_bad (bs_from_list (map je_candidate_digest (rj_entries j)))) ls"
  by (simp add: checker_lifecycles_def try_r_eq_Inr checker_replay_ok Let_def lifecycle_entry_bad_def [abs_def])

lemma checker_allowed: "checker_transaction_allowed prior s \<longleftrightarrow> transaction_allowed prior s"
  by (cases "(prior, s)" rule: transaction_allowed.cases) (auto simp: checker_transaction_allowed_def)

lemma checker_broker_scan:
  "checker_broker_loop env (tn_index a) (tn_previous a) (tn_latest a) (tn_identities a) (tn_replays a) es = Inr l \<longleftrightarrow>
     (\<exists>a'. scan_transactions env a es = Inr a' \<and> l = tn_latest a')"
proof (induction es arbitrary: a)
  case Nil
  then show ?case by auto
next
  case (Cons e es)
  show ?case
  proof (cases "transaction_check env a e")
    case (Inl err)
    then have "checker_broker_loop env (tn_index a) (tn_previous a) (tn_latest a) (tn_identities a) (tn_replays a) (e # es) \<noteq> Inr l"
      by (auto simp: transaction_check_unfolded checker_allowed Let_def split: if_splits)
    then show ?thesis using Inl by simp
  next
    case (Inr a1)
    then have a1: "a1 = \<lparr>tn_index = Suc (tn_index a), tn_previous = te_entry_digest e,
        tn_latest = bt_insert (te_request_digest e) (te_status e) (tn_latest a),
        tn_identities = bt_insert (te_request_digest e) (transaction_identity e) (tn_identities a),
        tn_replays = bt_insert (transaction_replay e) (te_request_digest e) (tn_replays a)\<rparr>"
      by (auto simp: transaction_check_def split: if_splits)
    have "checker_broker_loop env (tn_index a) (tn_previous a) (tn_latest a) (tn_identities a) (tn_replays a) (e # es) =
        checker_broker_loop env (tn_index a1) (tn_previous a1) (tn_latest a1) (tn_identities a1) (tn_replays a1) es"
      using Inr unfolding a1 transaction_identity_def transaction_replay_def
      by (simp add: transaction_check_unfolded checker_allowed Let_def split: if_splits)
    then show ?thesis using Cons.IH [of a1] Inr by simp
  qed
qed

lemma scan_latest_wf: "scan_transactions env a es = Inr a' \<Longrightarrow> bt_wf (tn_latest a) \<Longrightarrow> bt_wf (tn_latest a')"
proof (induction es arbitrary: a)
  case (Cons e es)
  then obtain a1 where "transaction_check env a e = Inr a1" "scan_transactions env a1 es = Inr a'" by (auto simp: try_r_eq_Inr)
  moreover from this have "bt_wf (tn_latest a1)" using Cons.prems(2) by (auto simp: transaction_check_def intro: bt_wf_insert split: if_splits)
  ultimately show ?case using Cons.IH by blast
qed simp

lemma checker_broker_ok:
  "checker_broker env j = Inr () \<longleftrightarrow> broker_journal_validate env j = Inr () \<and> \<not> (bj_frozen j \<and> broker_in_flight j \<noteq> [])"
proof (cases "broker_journal_validate env j = Inr ()")
  case True
  then have v: "bj_version j = BROKER_JOURNAL_VERSION" and ok: "transactions_ok env [] (bj_entries j)" by (simp_all add: broker_validate_exact)
  obtain a where a: "scan_transactions env transaction_scan_start (bj_entries j) = Inr a" "transaction_scan_agrees (bj_entries j) a"
    using transaction_scan_exact [of env "bj_entries j"] ok by blast
  have wf: "bt_wf (tn_latest a)" by (rule scan_latest_wf [OF a(1)]) (simp add: transaction_scan_start_def)
  have loop: "checker_broker_loop env 0 (replicate 64 CHR ''0'') [] [] [] (bj_entries j) = Inr (tn_latest a)"
    using checker_broker_scan [of env transaction_scan_start "bj_entries j" "tn_latest a"] a(1)
    by (simp add: transaction_scan_start_def zero_digest_def)
  have "list_ex (\<lambda>s. s = TS_Admitted \<or> s = TS_Executing) (bt_values (tn_latest a)) \<longleftrightarrow>
      (\<exists>d. bt_get (tn_latest a) d \<in> {Some TS_Admitted, Some TS_Executing})"
    by (auto simp: bt_values_def list_ex_iff bt_get_mem [OF wf]) force+
  also have "\<dots> \<longleftrightarrow> (\<exists>d. broker_status j d \<in> {Some TS_Admitted, Some TS_Executing})"
    using a(2) by (simp add: transaction_scan_agrees_def broker_status_def)
  also have "\<dots> \<longleftrightarrow> broker_in_flight j \<noteq> []" using in_flight_exact(1) [OF True] by (metis image_is_empty set_empty ex_in_conv)
  finally show ?thesis using True v loop by (simp add: checker_broker_def)
next
  case False
  have "checker_broker env j \<noteq> Inr ()"
  proof
    assume c: "checker_broker env j = Inr ()"
    then obtain l where "bj_version j = BROKER_JOURNAL_VERSION" "checker_broker_loop env 0 (replicate 64 CHR ''0'') [] [] [] (bj_entries j) = Inr l"
      by (auto simp: checker_broker_def try_r_eq_Inr split: if_splits)
    then show False using False checker_broker_scan [of env transaction_scan_start "bj_entries j" l]
      by (auto simp: broker_journal_validate_def transaction_scan_start_def zero_digest_def)
  qed
  then show ?thesis using False by simp
qed

lemma checker_transition: "checker_crypto_transition current next \<longleftrightarrow> transition_is_valid current next"
  by (cases "(current, next)" rule: transition_is_valid.cases) (auto simp: checker_crypto_transition_def)

lemma checker_crypto_scan:
  "checker_crypto_loop env (js_expected_sequence a) (js_previous_event_digest a) (js_previous_recorded_at a) (js_states a) (js_intent_keys a)
     (js_idempotency_keys a) (js_identities a) es = Inr () \<longleftrightarrow>
   is_ok (scan_events env a es) \<and> (\<forall>e\<in>set es. length (ce_idempotency_key e) \<le> 256)"
proof (induction es arbitrary: a)
  case (Cons e es)
  show ?case
  proof (cases "event_check env a e")
    case (Inl err)
    then have "checker_crypto_loop env (js_expected_sequence a) (js_previous_event_digest a) (js_previous_recorded_at a) (js_states a)
        (js_intent_keys a) (js_idempotency_keys a) (js_identities a) (e # es) \<noteq> Inr ()"
      by (auto simp: event_check_def event_malformed_def event_identity_def event_computed_digest_def checker_transition checker_text_simps(1)
          FORMAT_VERSION_def split: if_splits)
    then show ?thesis using Inl by simp
  next
    case (Inr a1)
    then have a1: "a1 = \<lparr>js_expected_sequence = Suc (js_expected_sequence a), js_previous_event_digest = Some (ce_event_digest e),
        js_previous_recorded_at = Some (ce_recorded_at e), js_states = bt_insert (ce_intent_digest e) (ce_kind e) (js_states a),
        js_idempotency_keys = bt_insert (ce_idempotency_key e) (ce_intent_digest e) (js_idempotency_keys a),
        js_intent_keys = bt_insert (ce_intent_digest e) (ce_idempotency_key e) (js_intent_keys a),
        js_identities = bs_insert (event_identity e) (js_identities a)\<rparr>"
      by (auto simp: event_check_def split: if_splits)
    have "checker_crypto_loop env (js_expected_sequence a) (js_previous_event_digest a) (js_previous_recorded_at a) (js_states a) (js_intent_keys a)
        (js_idempotency_keys a) (js_identities a) (e # es) = Inr () \<longleftrightarrow> length (ce_idempotency_key e) \<le> 256 \<and>
        checker_crypto_loop env (js_expected_sequence a1) (js_previous_event_digest a1) (js_previous_recorded_at a1) (js_states a1)
          (js_intent_keys a1) (js_idempotency_keys a1) (js_identities a1) es = Inr ()"
      using Inr unfolding a1
      by (simp add: event_check_def event_malformed_def event_identity_def event_computed_digest_def checker_transition checker_text_simps(1)
          FORMAT_VERSION_def split: if_splits)
    then show ?thesis using Cons.IH [of a1] Inr by auto
  qed
qed simp

lemma checker_crypto_ok:
  "checker_crypto_journal env j = Inr () \<longleftrightarrow>
     crypto_journal_validate env j = Inr () \<and> (\<forall>e\<in>set (cj_events j). length (ce_idempotency_key e) \<le> 256)"
  using checker_crypto_scan [of env scan_start "cj_events j"]
  by (cases "scan_events env scan_start (cj_events j)") (simp_all add: checker_crypto_journal_def crypto_journal_validate_def scan_start_def)

section \<open>Agreement on receipts\<close>

lemma checker_sum_same: "checker_sum_from tot xs = Inr s \<longleftrightarrow> checked_sum_from tot xs = Inr s"
  by (induction xs arbitrary: tot) (simp_all add: try_r_eq_Inr)

lemma checker_sum_receipt_ok:
  "sum_receipt_validate env r j now = Inr () \<longleftrightarrow> checker_sum_receipt env j r now = Inr () \<and> sr_offer_id r \<noteq> [] \<and> \<not> has_control (sr_offer_id r) \<and>
     sr_runtime_digest r = runtime_digest env"
proof (cases "checker_sum_from 0 (sj_inputs j)")
  case (Inl err)
  then have "checked_sum (sj_inputs j) \<noteq> Inr s" for s using checker_sum_same [of 0 "sj_inputs j" s] by (auto simp: checked_sum_def)
  then show ?thesis using Inl by (auto simp: sum_receipt_validate_ok checker_sum_receipt_def Let_def)
next
  case (Inr tot)
  then have s: "checked_sum (sj_inputs j) = Inr tot" using checker_sum_same [of 0 "sj_inputs j" tot] by (simp add: checked_sum_def)
  show ?thesis
    unfolding sum_receipt_validate_ok checker_sum_receipt_def job_validate_def Let_def Inr s try_r_simps guard_ok input_digest_def result_digest_def
      sum_program_digest_def output_schema_digest_def de_Morgan_disj not_not not_less not_le sum.inject
    by (safe; assumption?; simp)
qed

lemma receipt_payloads: "receipt_identity_payload r = receipt_fields r" "execution_receipt_identity x = execution_fields x"
  by (simp_all add: receipt_identity_payload_def receipt_fields_def execution_receipt_identity_def execution_fields_def)

lemma checker_capability_ok:
  assumes "ed_key_ok ed key" and "bt_get (rv_trusted_keys v) (cr_issuer_key_id r) = Some key" and "\<not> bs_contains (rv_verified v) (cr_receipt_id r)"
  shows "checker_capability_receipt env ed r subject p d pol key now = Inr () \<longleftrightarrow> verify_check env ed v r subject p d pol now = Inr ()"
proof (cases "de_capability d")
  case None
  then show ?thesis using assms by (auto simp: checker_capability_receipt_def verify_check_def try_r_eq_Inr)
next
  case (Some cap)
  have shape: "receipt_validate_shape env r = Inr () \<longleftrightarrow> valid_digest (cr_proposal_digest r) \<and> valid_digest (cr_candidate_digest r) \<and>
      valid_digest (cr_policy_digest r) \<and> valid_digest (cr_capability_digest r) \<and> valid_digest (cr_receipt_id r) \<and> checker_text (cr_subject r) \<and>
      checker_text (cr_agent_id r) \<and> checker_text (cr_scope r) \<and> checker_text (cr_issuer_key_id r) \<and> cr_issued_at r < cr_expires_at r \<and>
      length (cr_signature r) = 64 \<and> cr_receipt_id r = expected_id env r"
    by (auto simp: receipt_validate_shape_def checker_text_simps(3) valid_key_id_def SIGNATURE_LEN_def not_le)
  have cap: "validate_capability cap = Inr () \<longleftrightarrow> valid_digest (ca_token_id cap) \<and> valid_digest (ca_intent_digest cap) \<and> checker_text (ca_agent_id cap) \<and>
      checker_text (ca_scope cap) \<and> ca_issued_at cap < ca_expires_at cap"
    by (auto simp: validate_capability_def checker_text_simps(3) not_le)
  have "verify_check env ed v r subject p d pol now = Inr () \<longleftrightarrow> receipt_validate_shape env r = Inr () \<and> checker_text subject \<and> cr_subject r = subject \<and>
      cr_issued_at r \<le> now \<and> now < cr_expires_at r \<and> ed_verify ed key (signing_bytes env r) (cr_signature r) \<and> validate_capability cap = Inr () \<and>
      \<not> verify_binding_fails env r p d pol cap"
    using assms Some by (auto simp: verify_check_def try_r_eq_Inr receipt_is_valid_at_def is_ok_unit checker_text_simps(3) shape SIGNATURE_LEN_def)
  also have "\<dots> \<longleftrightarrow> checker_capability_receipt env ed r subject p d pol key now = Inr ()"
    unfolding shape cap checker_capability_receipt_def checker_binding_fails_def verify_binding_fails_def Let_def receipt_payloads Some ok_or_simps
      try_r_simps guard_ok expected_id_def identity_payload_def signing_bytes_def signing_payload_def expected_decision_digest_def intent_material_def
      token_material_def policy_digest_def de_Morgan_disj not_not not_less not_le
    by (safe; assumption?; simp add: assms(1))
  finally show ?thesis by simp
qed

lemma checker_execution_ok:
  assumes "ed_key_ok ed key" and "bt_get (rv_trusted_keys v) (cr_issuer_key_id cr) = Some key" and "\<not> bs_contains (rv_verified v) (xr_receipt_id r)"
  shows "is_ok (fst (verify_execution env ed v r cr ei ev inp op dec now)) \<longleftrightarrow>
    checker_execution_receipt env ed r cr ei ev inp op dec now key = Inr () \<and> verify_signature env ed v cr = Inr ()"
proof -
  have shape: "execution_validate_shape env r = Inr () \<longleftrightarrow> valid_digest (xr_capability_receipt_id r) \<and> valid_digest (xr_proposal_digest r) \<and>
      valid_digest (xr_decision_digest r) \<and> valid_digest (xr_evidence_digest r) \<and> valid_digest (xr_input_digest r) \<and>
      valid_digest (xr_output_digest r) \<and> valid_digest (xr_receipt_id r) \<and> checker_text (xr_evidence_id r) \<and> checker_text (xr_operation_id r) \<and>
      checker_text (xr_subject r) \<and> checker_text (xr_agent_id r) \<and> checker_text (xr_scope r) \<and> checker_text (xr_issuer_key_id r) \<and>
      xr_issued_at r < xr_expires_at r \<and> length (xr_signature r) = 64 \<and> xr_receipt_id r = execution_expected_id env r"
    by (auto simp: execution_validate_shape_def checker_text_simps(3) valid_key_id_def SIGNATURE_LEN_def not_le)
  have "is_ok (fst (verify_execution env ed v r cr ei ev inp op dec now)) \<longleftrightarrow> execution_validate_shape env r = Inr () \<and>
      \<not> execution_link_fails env v r cr ei ev inp op dec now \<and> verify_signature env ed v cr = Inr () \<and>
      ed_verify ed key (execution_signing_bytes env r) (xr_signature r)"
    (is "?ok \<longleftrightarrow> ?all")
  proof
    assume ?ok
    then show ?all using assms(2) by (auto simp: verify_execution_def verify_execution_signature_def try_r_eq_Inr execution_link_fails_def split: sum.splits if_splits)
  next
    assume all: ?all
    then have "length (xr_signature r) = 64" using shape by blast
    then have "verify_execution_signature env ed v r = Inr ()"
      using all assms(2) by (simp add: verify_execution_signature_def execution_link_fails_def SIGNATURE_LEN_def)
    then show ?ok using all by (simp add: verify_execution_def)
  qed
  also have "\<dots> \<longleftrightarrow> checker_execution_receipt env ed r cr ei ev inp op dec now key = Inr () \<and> verify_signature env ed v cr = Inr ()"
    using assms(1,3) unfolding checker_execution_receipt_def execution_link_fails_def execution_is_valid_at_def is_ok_unit shape receipt_payloads
    by (simp add: execution_expected_id_def execution_identity_payload_def execution_signing_bytes_def execution_signing_payload_def not_less not_le) blast
  finally show ?thesis .
qed

section \<open>Agreement on observations\<close>

text \<open>The texts of an envelope that the checker bounds and the producer does not.\<close>

definition envelope_texts :: "observation_envelope \<Rightarrow> string list" where
  "envelope_texts e = [oe_provider_id e, oe_key_id e, ob_observation_id (oe_observation e), ob_payment_id (oe_observation e),
     ob_contract_address (oe_observation e), ob_asset (oe_observation e), ob_beneficiary (oe_observation e)]"

lemma checker_observation_ok:
  assumes "keys_validate ed ks = Inr ()" and "bt_wf ks" and "intent_validate t = Inr ()"
  shows "checker_observation_envelope env ed e ks t = Inr () \<longleftrightarrow>
    is_ok (envelope_verify env ed e ks t) \<and> list_all (\<lambda>s. length s \<le> 256) (envelope_texts e)"
proof -
  let ?b = "oe_observation e" and ?msg = "canonical_bytes env (json_observation_envelope (e\<lparr>oe_signature := []\<rparr>))"
  have key: "pk_key_id k = oe_key_id e \<and> length (pk_public_key k) = 32 \<and> ed_key_ok ed (pk_public_key k)" if "bt_get ks (oe_key_id e) = Some k" for k
    using that assms(1,2) by (auto simp: keys_validate_Inr bt_get_mem)
  have valid: "observation_validate ?b = Inr () \<longleftrightarrow> ob_schema_version ?b = 1 \<and> ob_state_slice ?b = STATE_SLICE \<and> adapter_text (ob_observation_id ?b) \<and>
      adapter_text (ob_adapter_revision ?b) \<and> valid_digest (ob_intent_digest ?b) \<and> adapter_text (ob_payment_id ?b) \<and> ob_chain_id ?b \<noteq> 0 \<and>
      adapter_text (ob_contract_address ?b) \<and> transaction_shape ?b \<and> ob_observed_amount ?b = 0 \<and> adapter_text (ob_asset ?b) \<and>
      adapter_text (ob_beneficiary ?b)"
    by (simp add: observation_validate_def FORMAT_VERSION_def)
  have shape: "envelope_unsigned_shape env e = Inr () \<longleftrightarrow> oe_schema_version e = 1 \<and> oe_state_slice e = STATE_SLICE \<and> adapter_text (oe_provider_id e) \<and>
      adapter_text (oe_key_id e) \<and> observation_validate ?b = Inr () \<and> oe_observation_digest e = digest env (json_chain_observation ?b) \<and>
      valid_digest (oe_observation_digest e)"
    by (auto simp: envelope_unsigned_shape_def try_r_eq_Inr observation_digest_ok FORMAT_VERSION_def Let_def)
  have "is_ok (envelope_verify env ed e ks t) \<longleftrightarrow> envelope_unsigned_shape env e = Inr () \<and> length (oe_signature e) = 64 \<and>
      oe_provider_id e = ob_beneficiary ?b \<and> identity_matches env t ?b \<and>
      (\<exists>k. bt_get ks (oe_key_id e) = Some k \<and> \<not> pk_revoked k \<and> ed_verify ed (pk_public_key k) ?msg (oe_signature e))"
    using assms(1,3) key by (auto simp: is_ok_iff envelope_verify_def provider_envelope_validate_def envelope_signing_bytes_def keys_verify_def try_r_eq_Inr
        split: if_splits)
  then show ?thesis
    unfolding checker_observation_envelope_def shape valid identity_matches_def transaction_shape_def checker_text_simps(1) Let_def guard_ok
      de_Morgan_disj not_not not_less not_le try_r_eq_Inr ok_or_eq_Inr envelope_texts_def list.pred_inject
    by (safe; assumption?; (simp add: adapter_text_def key)?)
qed

section \<open>Properties\<close>

text \<open>
  C40.  The checker on journals.  It accepts a replay journal or an audit journal exactly if the producer does, and every kernel snapshot the producer accepts; a
  broker journal exactly if the producer accepts it and it is not frozen with a request in flight; and a crypto journal exactly if the producer accepts it and no
  idempotency key is longer than 256 bytes, a bound the producer does not have.
\<close>

theorem checker_agrees_on_journals:
  "(checker_replay env j = Inr () \<longleftrightarrow> journal_validate env j = Inr ()) \<and>
   (checker_audit env aj = Inr () \<longleftrightarrow> audit_validate env aj = Inr ()) \<and>
   (snapshot_validate env s = Inr () \<longrightarrow> checker_lifecycles env (ks_journal s) (ks_lifecycles s) = Inr ()) \<and>
   (checker_broker env bj = Inr () \<longleftrightarrow> broker_journal_validate env bj = Inr () \<and> \<not> (bj_frozen bj \<and> broker_in_flight bj \<noteq> [])) \<and>
   (checker_crypto_journal env cj = Inr () \<longleftrightarrow>
      crypto_journal_validate env cj = Inr () \<and> (\<forall>e\<in>set (cj_events cj). length (ce_idempotency_key e) \<le> 256))"
proof -
  have "checker_lifecycles env (ks_journal s) (ks_lifecycles s) = Inr ()" if "snapshot_validate env s = Inr ()"
    using that by (auto simp: snapshot_validate_def checker_lifecycles_ok try_r_eq_Inr Let_def split: if_splits)
  then show ?thesis using checker_replay_ok checker_audit_ok checker_broker_ok checker_crypto_ok by blast
qed

text \<open>
  C18.  The checker on receipts, for a well-formed public key that a verifier trusts for the issuer, and receipts the verifier has not seen.  It accepts a capability
  receipt exactly if the verifier does.  It accepts an execution receipt exactly if the verifier does, apart from the signature of the capability receipt, which it
  leaves to its other check.  It accepts a market receipt without looking at the offer and the runtime: the producer accepts exactly those of them
  with a well-formed offer id and the fixed runtime digest.
\<close>

theorem checker_agrees_on_receipts:
  assumes "ed_key_ok ed key" and "bt_get (rv_trusted_keys v) (cr_issuer_key_id r) = Some key" and "cr_receipt_id r \<notin> set (rv_verified v)"
    and "xr_receipt_id x \<notin> set (rv_verified v)"
  shows "(checker_capability_receipt env ed r subject p d pol key now = Inr () \<longleftrightarrow> is_ok (fst (verify env ed v r subject p d pol now))) \<and>
    (is_ok (fst (verify_execution env ed v x r evidence_id evidence_dig input_dig operation_id dec now)) \<longleftrightarrow>
       checker_execution_receipt env ed x r evidence_id evidence_dig input_dig operation_id dec now key = Inr () \<and> verify_signature env ed v r = Inr ()) \<and>
    (sum_receipt_validate env sr sj now = Inr () \<longleftrightarrow>
       checker_sum_receipt env sj sr now = Inr () \<and> sr_offer_id sr \<noteq> [] \<and> \<not> has_control (sr_offer_id sr) \<and> sr_runtime_digest sr = runtime_digest env)"
proof -
  have fresh: "\<not> bs_contains (rv_verified v) (cr_receipt_id r)" "\<not> bs_contains (rv_verified v) (xr_receipt_id x)"
    using assms(3,4) by (simp_all add: bs_contains_def)
  have "is_ok (fst (verify env ed v r subject p d pol now)) \<longleftrightarrow> verify_check env ed v r subject p d pol now = Inr ()"
    by (simp add: verify_def split: sum.split)
  then show ?thesis using checker_capability_ok [OF assms(1,2) fresh(1)] checker_execution_ok [OF assms(1,2) fresh(2)] checker_sum_receipt_ok by blast
qed

text \<open>
  The checker on provider observations.  For a valid key registry and a valid intent it accepts a signed envelope exactly if \<open>verify\<close> accepts it and
  none of seven texts is longer than 256 bytes.  It does not look at the intent itself: the intent's digest is all it compares.
\<close>

theorem checker_agrees_on_observations:
  assumes "keys_validate ed ks = Inr ()" and "bt_wf ks" and "intent_validate t = Inr ()"
  shows "checker_observation_envelope env ed e ks t = Inr () \<longleftrightarrow>
    is_ok (envelope_verify env ed e ks t) \<and> list_all (\<lambda>s. length s \<le> 256) (envelope_texts e)"
  by (rule checker_observation_ok [OF assms])

section \<open>Concrete inputs\<close>

text \<open>A broker journal and a crypto journal the producers accept and the checker does not.\<close>

definition demo_long_event :: crypto_event where
  "demo_long_event = new_event demo_env [] zero_digest (replicate 257 CHR ''p'') EK_Proposed zero_digest 50"

theorem checker_agrees_on_journals_witness:
  "(let bj = snd (demo_transaction TS_Admitted broker_journal_new)\<lparr>bj_frozen := True\<rparr>
    in broker_journal_validate demo_env bj = Inr () \<and> \<not> is_ok (checker_broker demo_env bj)) \<and>
   crypto_journal_validate demo_env \<lparr>cj_events = [demo_long_event]\<rparr> = Inr () \<and>
   \<not> is_ok (checker_crypto_journal demo_env \<lparr>cj_events = [demo_long_event]\<rparr>)"
proof -
  let ?j = "snd (demo_transaction TS_Admitted broker_journal_new)" and ?c = "\<lparr>cj_events = [demo_long_event]\<rparr>"
  have "broker_journal_validate demo_env ?j = Inr ()"
    using broker_result_valid [of demo_env broker_journal_new "BO_Append zero_digest ''a'' 1 None None None TS_Admitted None"] demo_admitted
    by (simp add: demo_transaction_def)
  then have v: "broker_journal_validate demo_env (?j\<lparr>bj_frozen := True\<rparr>) = Inr ()" by (simp add: broker_validate_exact)
  have f: "broker_in_flight (?j\<lparr>bj_frozen := True\<rparr>) \<noteq> []"
    by (simp add: demo_admitted broker_in_flight_def broker_status_def transaction_status_of_def)
  have t: "adapter_text (replicate 257 CHR ''p'')"
  proof -
    have "\<not> has_control (replicate n CHR ''p'')" for n
    proof (induction n)
      case (Suc n)
      then show ?case by (cases n) (simp_all add: ascii_control_def)
    qed simp
    then show ?thesis by (simp add: adapter_text_def)
  qed
  have "event_shape demo_env demo_long_event" unfolding demo_long_event_def by (rule new_event_shape [OF demo_sha256_len]) (simp_all add: t)
  moreover have "event_follows [] demo_long_event" by (simp add: demo_long_event_def event_follows_def)
  ultimately have c: "crypto_journal_validate demo_env ?c = Inr ()" by (simp add: crypto_validate_history)
  have l: "length (ce_idempotency_key demo_long_event) = 257" by (simp add: demo_long_event_def)
  note all = checker_agrees_on_journals [of demo_env undefined undefined undefined "?j\<lparr>bj_frozen := True\<rparr>" ?c]
  have "checker_broker demo_env (?j\<lparr>bj_frozen := True\<rparr>) \<noteq> Inr ()" using all f by simp
  moreover have "checker_crypto_journal demo_env ?c \<noteq> Inr ()" using all l by simp
  ultimately show ?thesis using v c by (simp add: Let_def is_ok_unit)
qed

theorem checker_agrees_on_receipts_witness:
  "checker_sum_receipt demo_env demo_job (demo_sum_receipt\<lparr>sr_offer_id := ''''\<rparr>) 40 = Inr () \<and>
   \<not> is_ok (sum_receipt_validate demo_env (demo_sum_receipt\<lparr>sr_offer_id := ''''\<rparr>) demo_job 40)"
proof -
  let ?v = "\<lparr>rv_trusted_keys = [(''k'', ed_public demo_ed [])], rv_verified = []\<rparr>"
  let ?r = "undefined\<lparr>cr_issuer_key_id := ''k''\<rparr> :: capability_receipt"
  have k: "ed_key_ok demo_ed (ed_public demo_ed [])" "bt_get (rv_trusted_keys ?v) (cr_issuer_key_id ?r) = Some (ed_public demo_ed [])"
    "cr_receipt_id ?r \<notin> set (rv_verified ?v)" "xr_receipt_id undefined \<notin> set (rv_verified ?v)"
    using demo_ed_correct by (simp_all add: ed25519_correct_def)
  note all = checker_agrees_on_receipts [OF k, where env = demo_env and sj = demo_job and now = 40]
  have "checker_sum_receipt demo_env demo_job demo_sum_receipt 40 = Inr ()" using all demo_sum_receipt_valid(1) by blast
  then have c: "checker_sum_receipt demo_env demo_job (demo_sum_receipt\<lparr>sr_offer_id := ''''\<rparr>) 40 = Inr ()"
    by (simp add: checker_sum_receipt_def Let_def)
  have "sum_receipt_validate demo_env (demo_sum_receipt\<lparr>sr_offer_id := ''''\<rparr>) demo_job 40 \<noteq> Inr ()"
    using all by simp
  then show ?thesis using c by (simp add: is_ok_unit)
qed

theorem checker_agrees_on_observations_witness:
  "checker_observation_envelope demo_env demo_ed (\<lparr>oe_schema_version = 1, oe_state_slice = STATE_SLICE, oe_provider_id = ''bob'', oe_key_id = ''k2'',
     oe_observation = demo_observation, oe_observation_digest = zero_digest, oe_signature = replicate 64 0\<rparr>) demo_keys demo_intent \<noteq> Inr ()"
proof -
  let ?e = "\<lparr>oe_schema_version = 1, oe_state_slice = STATE_SLICE, oe_provider_id = ''bob'', oe_key_id = ''k2'',
     oe_observation = demo_observation, oe_observation_digest = zero_digest, oe_signature = replicate 64 0\<rparr>"
  have "bt_get demo_keys ''k2'' = None" by (simp add: demo_keys_def)
  then have "\<not> is_ok (envelope_verify demo_env demo_ed ?e demo_keys demo_intent)"
    by (auto simp: is_ok_iff envelope_verify_def keys_verify_def try_r_eq_Inr split: if_splits)
  then show ?thesis using checker_agrees_on_observations [OF demo_keys_valid demo_intent_valid, of demo_env ?e] by blast
qed

end
