(* ===== verification/Completion.thy ===== *)
theory Completion
  imports Checker Evidence
begin

text \<open>
  \<open>accept_broker_completion\<close> of src/integration.rs, where an operation the broker completed enters the evidence boundary: the request, the signed receipts, the
  evidence record and the bytes in the workspace are all checked again before digests are returned.
\<close>

record broker_hello =
  bh_protocol_version :: u8
  bh_state_slice :: string
  bh_supervisor_digest :: string
  bh_issuer_key_id :: string
  bh_issuer_public_key :: "u8 list"

datatype broker_response =
    BR_Hello broker_hello
  | BR_Completed (br_request_digest: string) (br_decision_digest: string) (br_decision: decision) (br_policy: policy)
      (br_receipt: capability_receipt) (br_execution: execution_receipt) (br_output_digest: string)
  | BR_Rejected "string option" string
  | BR_Quarantined "string option" string "capability_receipt option"
  | BR_Frozen string

record broker_trust_anchor =
  bt_issuer_key_id :: string
  bt_issuer_public_key :: "u8 list"

record completion_result =
  bc_request_digest :: string
  bc_decision_digest :: string
  bc_evidence_digest :: string
  bc_output_digest :: string
  bc_capability_receipt_id :: string
  bc_execution_receipt_id :: string

definition accept_broker_completion ::
  "crypto \<Rightarrow> ed25519 \<Rightarrow> workspace_os \<Rightarrow> file_transform_request \<Rightarrow> broker_response \<Rightarrow> evidence_registry \<Rightarrow> broker_trust_anchor \<Rightarrow> os_path \<Rightarrow> u64 \<Rightarrow>
   completion_result result" where
  "accept_broker_completion env ed os q resp evidence trust workspace now =
     try_r (transform_request_validate q now) (\<lambda>_.
     try_r (to_proposal q) (\<lambda>p.
     let request = proposal_digest env p in
     case resp of
       BR_Completed resp_request resp_decision d pol r x resp_output \<Rightarrow>
         if resp_request \<noteq> request \<or> resp_decision \<noteq> de_decision_digest d \<or> cr_issuer_key_id r \<noteq> bt_issuer_key_id trust \<or>
            xr_issuer_key_id x \<noteq> bt_issuer_key_id trust
         then Inl (Err_Rejected ''broker completion identity or digest binding failed'')
         else if \<not> registry_is_valid evidence (ft_evidence_id q) now request
         then Inl (Err_Quarantined ''broker completion evidence is unavailable'')
         else try_r (record_digest env evidence (ft_evidence_id q)) (\<lambda>ev.
         try_r (checker_capability_receipt env ed r (ft_subject q) p d pol (bt_issuer_public_key trust) now) (\<lambda>_.
         try_r (checker_execution_receipt env ed x r (ft_evidence_id q) ev (ft_input_digest q) TRANSFORMER_ID resp_decision now
                  (bt_issuer_public_key trust)) (\<lambda>_.
         try_r (workspace_file os workspace (ft_source_relpath q)) (\<lambda>source.
         try_r (workspace_file os workspace (ft_destination_relpath q)) (\<lambda>destination.
         if \<not> wo_is_file os source \<or> \<not> wo_is_file os destination then Inl (Err_Rejected ''broker completion files are not regular files'')
         else try_r (wo_read os source) (\<lambda>source_bytes.
         if ft_max_bytes q < of_nat (length source_bytes) \<or> digest_bytes env source_bytes \<noteq> ft_input_digest q
         then Inl (Err_Rejected ''broker completion source binding failed'')
         else try_r (wo_read os destination) (\<lambda>out.
         if ft_max_bytes q < of_nat (length out) then Inl (Err_Rejected ''broker completion output exceeds quota'')
         else try_r (transform_output (ft_operation q) source_bytes) (\<lambda>expected.
         if out \<noteq> expected \<or> digest_bytes env out \<noteq> resp_output \<or> digest_bytes env out \<noteq> xr_output_digest x
         then Inl (Err_Rejected ''broker completion output binding failed'')
         else Inr \<lparr>bc_request_digest = request, bc_decision_digest = resp_decision, bc_evidence_digest = ev, bc_output_digest = digest_bytes env out,
           bc_capability_receipt_id = cr_receipt_id r, bc_execution_receipt_id = xr_receipt_id x\<rparr>))))))))
     | _ \<Rightarrow> Inl (Err_Rejected ''broker response is not a completed operation'')))"

section \<open>What an accepted completion means\<close>

lemma to_proposal_total: "\<exists>p. to_proposal q = Inr p"
  by (simp add: to_proposal_def Let_def)

lemma accept_Inr:
  "accept_broker_completion env ed os q resp evidence trust workspace now = Inr res \<longleftrightarrow>
    (\<exists>p d pol r x ev source destination bytes out.
      transform_request_validate q now = Inr () \<and> to_proposal q = Inr p \<and>
      resp = BR_Completed (proposal_digest env p) (de_decision_digest d) d pol r x (digest_bytes env out) \<and>
      cr_issuer_key_id r = bt_issuer_key_id trust \<and> xr_issuer_key_id x = bt_issuer_key_id trust \<and>
      registry_is_valid evidence (ft_evidence_id q) now (proposal_digest env p) \<and> record_digest env evidence (ft_evidence_id q) = Inr ev \<and>
      checker_capability_receipt env ed r (ft_subject q) p d pol (bt_issuer_public_key trust) now = Inr () \<and>
      checker_execution_receipt env ed x r (ft_evidence_id q) ev (ft_input_digest q) TRANSFORMER_ID (de_decision_digest d) now
        (bt_issuer_public_key trust) = Inr () \<and>
      workspace_file os workspace (ft_source_relpath q) = Inr source \<and> workspace_file os workspace (ft_destination_relpath q) = Inr destination \<and>
      wo_is_file os source \<and> wo_is_file os destination \<and> wo_read os source = Inr bytes \<and> wo_read os destination = Inr out \<and>
      of_nat (length bytes) \<le> ft_max_bytes q \<and> digest_bytes env bytes = ft_input_digest q \<and> of_nat (length out) \<le> ft_max_bytes q \<and>
      transform_output (ft_operation q) bytes = Inr out \<and> digest_bytes env out = xr_output_digest x \<and>
      res = \<lparr>bc_request_digest = proposal_digest env p, bc_decision_digest = de_decision_digest d, bc_evidence_digest = ev,
        bc_output_digest = digest_bytes env out, bc_capability_receipt_id = cr_receipt_id r, bc_execution_receipt_id = xr_receipt_id x\<rparr>)"
    (is "_ \<longleftrightarrow> ?all")
proof
  assume "accept_broker_completion env ed os q resp evidence trust workspace now = Inr res"
  then show ?all
    by (cases resp) (auto simp: accept_broker_completion_def try_r_eq_Inr Let_def not_less split: if_splits)
next
  assume ?all
  then show "accept_broker_completion env ed os q resp evidence trust workspace now = Inr res"
    by (elim exE conjE) (simp add: accept_broker_completion_def not_less [symmetric])
qed

text \<open>
  C24.  A completion is accepted exactly on full evidence.  For a caller that pinned a well-formed public key, \<open>accept_broker_completion\<close> answers a result if and only if
  the request is valid now; the response is a completion of the proposal the request stands for; the evidence record is valid for that
  proposal; a verifier that trusts only the pinned key accepts both receipts, for this evidence, input and decision; and the two workspace files hold an
  input with the requested digest and its permitted transformation, whose digest the response and the signed receipt name.  Both files lie
  inside the canonical workspace.
\<close>

theorem completion_accepted_exact:
  assumes "ed_key_ok ed (bt_issuer_public_key trust)"
    and "v = \<lparr>rv_trusted_keys = [(bt_issuer_key_id trust, bt_issuer_public_key trust)], rv_verified = []\<rparr>"
  shows "accept_broker_completion env ed os q resp evidence trust workspace now = Inr res \<longleftrightarrow>
    (\<exists>p d pol r x ev root source destination bytes out.
      transform_request_validate q now = Inr () \<and> to_proposal q = Inr p \<and>
      resp = BR_Completed (proposal_digest env p) (de_decision_digest d) d pol r x (digest_bytes env out) \<and>
      cr_issuer_key_id r = bt_issuer_key_id trust \<and> xr_issuer_key_id x = bt_issuer_key_id trust \<and>
      registry_is_valid evidence (ft_evidence_id q) now (proposal_digest env p) \<and> record_digest env evidence (ft_evidence_id q) = Inr ev \<and>
      is_ok (fst (verify env ed v r (ft_subject q) p d pol now)) \<and>
      is_ok (fst (verify_execution env ed v x r (ft_evidence_id q) ev (ft_input_digest q) TRANSFORMER_ID (de_decision_digest d) now)) \<and>
      wo_canonicalize os workspace = Inr root \<and> path_starts_with source root \<and> path_starts_with destination root \<and>
      workspace_file os workspace (ft_source_relpath q) = Inr source \<and> workspace_file os workspace (ft_destination_relpath q) = Inr destination \<and>
      wo_is_file os source \<and> wo_is_file os destination \<and> wo_read os source = Inr bytes \<and> wo_read os destination = Inr out \<and>
      of_nat (length bytes) \<le> ft_max_bytes q \<and> digest_bytes env bytes = ft_input_digest q \<and> of_nat (length out) \<le> ft_max_bytes q \<and>
      out = join_lf (map trim_line (split_lf bytes)) \<and> digest_bytes env out = xr_output_digest x \<and>
      res = \<lparr>bc_request_digest = proposal_digest env p, bc_decision_digest = de_decision_digest d, bc_evidence_digest = ev,
        bc_output_digest = digest_bytes env out, bc_capability_receipt_id = cr_receipt_id r, bc_execution_receipt_id = xr_receipt_id x\<rparr>)"
proof -
  have op: "transform_output (ft_operation q) bytes = Inr out \<longleftrightarrow> out = join_lf (map trim_line (split_lf bytes))" for bytes out
    by (cases "ft_operation q") (auto simp: transform_output_reference)
  have fresh: "\<not> bs_contains (rv_verified v) i" for i by (simp add: assms(2) bs_contains_def)
  have cap: "checker_capability_receipt env ed r (ft_subject q) p d pol (bt_issuer_public_key trust) now = Inr () \<longleftrightarrow>
      is_ok (fst (verify env ed v r (ft_subject q) p d pol now))"
    and sig: "is_ok (fst (verify env ed v r (ft_subject q) p d pol now)) \<Longrightarrow> verify_signature env ed v r = Inr ()"
    and exe: "is_ok (fst (verify_execution env ed v x r (ft_evidence_id q) ev (ft_input_digest q) TRANSFORMER_ID dec now)) \<longleftrightarrow>
      checker_execution_receipt env ed x r (ft_evidence_id q) ev (ft_input_digest q) TRANSFORMER_ID dec now (bt_issuer_public_key trust) = Inr () \<and>
      verify_signature env ed v r = Inr ()" if i: "cr_issuer_key_id r = bt_issuer_key_id trust" for p d pol r x ev dec
  proof -
    have k: "bt_get (rv_trusted_keys v) (cr_issuer_key_id r) = Some (bt_issuer_public_key trust)" by (simp add: assms(2) i)
    have eq: "is_ok (fst (verify env ed v r (ft_subject q) p d pol now)) \<longleftrightarrow> verify_check env ed v r (ft_subject q) p d pol now = Inr ()"
      by (simp add: verify_def split: sum.split)
    show "checker_capability_receipt env ed r (ft_subject q) p d pol (bt_issuer_public_key trust) now = Inr () \<longleftrightarrow>
      is_ok (fst (verify env ed v r (ft_subject q) p d pol now))"
      unfolding eq by (rule checker_capability_ok [OF assms(1) k fresh])
    show "verify_signature env ed v r = Inr ()" if "is_ok (fst (verify env ed v r (ft_subject q) p d pol now))"
      using that unfolding eq by (auto simp: verify_check_def verify_signature_def try_r_eq_Inr split: if_splits)
    show "is_ok (fst (verify_execution env ed v x r (ft_evidence_id q) ev (ft_input_digest q) TRANSFORMER_ID dec now)) \<longleftrightarrow>
      checker_execution_receipt env ed x r (ft_evidence_id q) ev (ft_input_digest q) TRANSFORMER_ID dec now (bt_issuer_public_key trust) = Inr () \<and>
      verify_signature env ed v r = Inr ()"
      by (rule checker_execution_ok [OF assms(1) k fresh])
  qed
  have root: "\<exists>root. wo_canonicalize os workspace = Inr root \<and> path_starts_with source root \<and> path_starts_with destination root"
    if "workspace_file os workspace (ft_source_relpath q) = Inr source" "workspace_file os workspace (ft_destination_relpath q) = Inr destination"
    for source destination
    using workspace_file_within [OF that(1)] workspace_file_within [OF that(2)] by (metis sum.inject(2))
  have receipts: "checker_capability_receipt env ed r (ft_subject q) p d pol (bt_issuer_public_key trust) now = Inr () \<and>
      checker_execution_receipt env ed x r (ft_evidence_id q) ev (ft_input_digest q) TRANSFORMER_ID dec now (bt_issuer_public_key trust) = Inr () \<longleftrightarrow>
      is_ok (fst (verify env ed v r (ft_subject q) p d pol now)) \<and>
      is_ok (fst (verify_execution env ed v x r (ft_evidence_id q) ev (ft_input_digest q) TRANSFORMER_ID dec now))"
    if i: "cr_issuer_key_id r = bt_issuer_key_id trust" for p d pol r x ev dec
    unfolding cap [OF i] exe [OF i] using sig [OF i] by blast
  show ?thesis (is "_ \<longleftrightarrow> ?all")
  proof
    assume "accept_broker_completion env ed os q resp evidence trust workspace now = Inr res"
    then obtain p d pol r x ev source destination bytes out where f: "transform_request_validate q now = Inr ()" "to_proposal q = Inr p"
      "resp = BR_Completed (proposal_digest env p) (de_decision_digest d) d pol r x (digest_bytes env out)"
      "cr_issuer_key_id r = bt_issuer_key_id trust" "xr_issuer_key_id x = bt_issuer_key_id trust"
      "registry_is_valid evidence (ft_evidence_id q) now (proposal_digest env p)" "record_digest env evidence (ft_evidence_id q) = Inr ev"
      "checker_capability_receipt env ed r (ft_subject q) p d pol (bt_issuer_public_key trust) now = Inr () \<and>
       checker_execution_receipt env ed x r (ft_evidence_id q) ev (ft_input_digest q) TRANSFORMER_ID (de_decision_digest d) now
         (bt_issuer_public_key trust) = Inr ()"
      "workspace_file os workspace (ft_source_relpath q) = Inr source" "workspace_file os workspace (ft_destination_relpath q) = Inr destination"
      "wo_is_file os source" "wo_is_file os destination" "wo_read os source = Inr bytes" "wo_read os destination = Inr out"
      "of_nat (length bytes) \<le> ft_max_bytes q" "digest_bytes env bytes = ft_input_digest q" "of_nat (length out) \<le> ft_max_bytes q"
      "out = join_lf (map trim_line (split_lf bytes))" "digest_bytes env out = xr_output_digest x"
      "res = \<lparr>bc_request_digest = proposal_digest env p, bc_decision_digest = de_decision_digest d, bc_evidence_digest = ev,
        bc_output_digest = digest_bytes env out, bc_capability_receipt_id = cr_receipt_id r, bc_execution_receipt_id = xr_receipt_id x\<rparr>"
      unfolding accept_Inr op by blast
    note ok = f(8) [unfolded receipts [OF f(4)]]
    obtain root where "wo_canonicalize os workspace = Inr root" "path_starts_with source root" "path_starts_with destination root"
      using root [OF f(9,10)] by blast
    with f ok show ?all by (intro exI [of _ p] exI [of _ d] exI [of _ pol] exI [of _ r] exI [of _ x] exI [of _ ev] exI [of _ root]
        exI [of _ source] exI [of _ destination] exI [of _ bytes] exI [of _ out] conjI) simp_all
  next
    assume ?all
    then show "accept_broker_completion env ed os q resp evidence trust workspace now = Inr res"
      unfolding accept_Inr op using receipts by blast
  qed
qed

section \<open>Concrete inputs\<close>

definition demo_transform :: file_transform_request where
  "demo_transform = \<lparr>ft_request_id = ''r1'', ft_agent_id = ''ag'', ft_subject = ''s'', ft_evidence_id = ''e1'',
     ft_operation = FT_TrimTrailingAsciiSpaces, ft_source_relpath = ''a.md'', ft_destination_relpath = ''b.md'', ft_input_digest = zero_digest,
     ft_executable_digest = zero_digest, ft_max_bytes = 100, ft_max_runtime_ms = 100, ft_requested_at = 10, ft_expires_at = 500, ft_nonce = 1,
     ft_cancel_requested = False, ft_telemetry_present = True\<rparr>"

definition demo_capability :: capability where
  "demo_capability = \<lparr>ca_token_id = zero_digest, ca_agent_id = ''ag'', ca_action = Act_Write, ca_scope = ''broker-workspace'',
     ca_intent_digest = zero_digest, ca_issued_at = 10, ca_expires_at = 500, ca_budget = [(''bytes'', 100), (''cpu_ms'', 100), (''spend'', 0)]\<rparr>"

definition demo_accepted :: decision where
  "demo_accepted = \<lparr>de_candidate_id = ''r1'', de_kind = DK_Accepted, de_reason = ''ok'', de_candidate_digest = zero_digest,
     de_policy_digest = zero_digest, de_capability = Some demo_capability, de_decision_digest = zero_digest\<rparr>"

definition demo_broker_receipt :: capability_receipt where
  "demo_broker_receipt = \<lparr>cr_proposal_digest = zero_digest, cr_candidate_digest = zero_digest, cr_policy_digest = zero_digest,
     cr_capability_digest = zero_digest, cr_subject = ''s'', cr_agent_id = ''ag'', cr_action = Act_Write, cr_scope = ''broker-workspace'',
     cr_issuer_key_id = ''k1'', cr_issued_at = 20, cr_expires_at = 400, cr_signature = replicate 64 0, cr_receipt_id = zero_digest\<rparr>"

definition demo_broker_execution :: execution_receipt where
  "demo_broker_execution = \<lparr>xr_capability_receipt_id = zero_digest, xr_proposal_digest = zero_digest, xr_decision_digest = zero_digest,
     xr_evidence_id = ''e1'', xr_evidence_digest = zero_digest, xr_input_digest = zero_digest, xr_operation_id = TRANSFORMER_ID,
     xr_output_digest = zero_digest, xr_subject = ''s'', xr_agent_id = ''ag'', xr_action = Act_Write, xr_scope = ''broker-workspace'',
     xr_issuer_key_id = ''k1'', xr_issued_at = 30, xr_expires_at = 400, xr_signature = replicate 64 0, xr_receipt_id = zero_digest\<rparr>"

definition demo_workspace :: workspace_os where
  "demo_workspace = \<lparr>wo_canonicalize = Inr, wo_joined_exists = \<lambda>_ _. True,
     wo_joined_canonicalize = \<lambda>root relative. Inr (root @ path_components relative), wo_is_dir = \<lambda>_. True, wo_is_file = \<lambda>_. True,
     wo_read = \<lambda>p. Inr (if last p = PC_Normal ''a.md'' then [97, 32, 10] else [97, 10])\<rparr>"

definition demo_trust :: broker_trust_anchor where
  "demo_trust = \<lparr>bt_issuer_key_id = ''k1'', bt_issuer_public_key = replicate 32 0\<rparr>"

abbreviation demo_completed :: broker_response where
  "demo_completed \<equiv> BR_Completed zero_digest zero_digest demo_accepted policy_default demo_broker_receipt demo_broker_execution zero_digest"

lemma demo_paths_ok: "broker_relative_path ''a.md''" "broker_relative_path ''b.md''" "root_markdown_path ''a.md''" "root_markdown_path ''b.md''"
    "path_components ''a.md'' = [PC_Normal ''a.md'']" "path_components ''b.md'' = [PC_Normal ''b.md'']"
  by (simp_all add: root_markdown_path_def broker_relative_path_def broker_text_def text_within_def ascii_control_def path_components_def component_of_def
      file_extension_def)

lemma demo_transform_ok: "transform_request_validate demo_transform 40 = Inr ()"
  by (simp add: transform_request_validate_def demo_transform_def demo_paths_ok broker_text_def text_within_def ascii_control_def MAX_BYTES_def
      MAX_RUNTIME_MS_def)

lemma demo_receipts_ok:
  assumes "to_proposal demo_transform = Inr p"
  shows "checker_capability_receipt demo_env demo_ed demo_broker_receipt ''s'' p demo_accepted policy_default (replicate 32 0) 40 = Inr ()"
    and "checker_execution_receipt demo_env demo_ed demo_broker_execution demo_broker_receipt ''e1'' zero_digest zero_digest TRANSFORMER_ID zero_digest 40
      (replicate 32 0) = Inr ()"
proof -
  have p: "pr_agent_id p = ''ag''" "pr_action p = Act_Write" "pr_scope p = ''broker-workspace''" "pr_candidate_id p = ''r1''"
    "pr_resource_cost p = [(''bytes'', 100), (''cpu_ms'', 100), (''spend'', 0)]"
    using assms by (auto simp: to_proposal_def demo_transform_def WORKSPACE_SCOPE_def Let_def)
  show "checker_capability_receipt demo_env demo_ed demo_broker_receipt ''s'' p demo_accepted policy_default (replicate 32 0) 40 = Inr ()"
    by (simp add: checker_capability_receipt_def checker_binding_fails_def demo_accepted_def demo_capability_def demo_broker_receipt_def p checker_text_def
        ascii_control_def demo_ed_def Let_def proposal_digest_def)
  show "checker_execution_receipt demo_env demo_ed demo_broker_execution demo_broker_receipt ''e1'' zero_digest zero_digest TRANSFORMER_ID zero_digest 40
      (replicate 32 0) = Inr ()"
    by (simp add: checker_execution_receipt_def demo_broker_execution_def demo_broker_receipt_def checker_text_def ascii_control_def demo_ed_def
        TRANSFORMER_ID_def)
qed

theorem completion_accepted_exact_witness:
  "\<exists>res p. accept_broker_completion demo_env demo_ed demo_workspace demo_transform demo_completed demo_evidence_registry demo_trust [] 40 = Inr res \<and>
     is_ok (fst (verify demo_env demo_ed \<lparr>rv_trusted_keys = [(''k1'', replicate 32 0)], rv_verified = []\<rparr> demo_broker_receipt ''s'' p demo_accepted
       policy_default 40))"
proof -
  obtain p where p: "to_proposal demo_transform = Inr p" using to_proposal_total by blast
  have d: "proposal_digest demo_env p = zero_digest" by (simp add: proposal_digest_def)
  have ev: "record_digest demo_env demo_evidence_registry ''e1'' = Inr zero_digest" by (simp add: record_digest_def demo_evidence_registry_def)
  have f: "ft_evidence_id demo_transform = ''e1''" "ft_subject demo_transform = ''s''" "ft_input_digest demo_transform = zero_digest"
    "ft_source_relpath demo_transform = ''a.md''" "ft_destination_relpath demo_transform = ''b.md''" "ft_max_bytes demo_transform = 100"
    "ft_operation demo_transform = FT_TrimTrailingAsciiSpaces" by (simp_all add: demo_transform_def)
  have w: "workspace_file demo_workspace [] ''a.md'' = Inr [PC_Normal ''a.md'']" "workspace_file demo_workspace [] ''b.md'' = Inr [PC_Normal ''b.md'']"
    by (simp_all add: workspace_file_def safe_join_def canonical_within_def path_starts_with_def demo_workspace_def demo_paths_ok)
  have o: "wo_is_file demo_workspace q" "wo_read demo_workspace [PC_Normal ''a.md''] = Inr [97, 32, 10]"
    "wo_read demo_workspace [PC_Normal ''b.md''] = Inr [97, 10]" for q by (simp_all add: demo_workspace_def)
  have t: "transform_output FT_TrimTrailingAsciiSpaces [97, 32, 10] = Inr [97, 10]"
    by (simp add: transform_output_reference trim_line_def strip_spaces_def)
  have i: "de_decision_digest demo_accepted = zero_digest" "cr_issuer_key_id demo_broker_receipt = ''k1''" "xr_issuer_key_id demo_broker_execution = ''k1''"
    "xr_output_digest demo_broker_execution = zero_digest" "bt_issuer_key_id demo_trust = ''k1''" "bt_issuer_public_key demo_trust = replicate 32 0"
    by (simp_all add: demo_accepted_def demo_broker_receipt_def demo_broker_execution_def demo_trust_def)
  obtain res where a: "accept_broker_completion demo_env demo_ed demo_workspace demo_transform demo_completed demo_evidence_registry demo_trust [] 40 = Inr res"
    using demo_transform_ok demo_receipts_ok [OF p] demo_registries(1)
    by (simp add: accept_broker_completion_def p d ev f w t i o)
  have k: "ed_key_ok demo_ed (bt_issuer_public_key demo_trust)" by (simp add: demo_ed_def)
  show ?thesis using a a [unfolded completion_accepted_exact [OF k refl]] by (auto simp: i f)
qed

end
