(* ===== verification/Evaluator.thy ===== *)
theory Evaluator
  imports Broker Replication
begin

text \<open>
  The evaluator of src/maintenance_process.rs: the request for one fixed change of a Markdown file, the normalization it must equal, the job that is
  evaluated, and the signed receipt of the evaluation.  The clock is an argument.  Keys and signatures are hexadecimal texts, which the code reads in either case.
\<close>

section \<open>Hexadecimal texts\<close>

definition hex_encode :: "u8 list \<Rightarrow> string" where
  "hex_encode bytes = concat (map hex_byte bytes)"

text \<open>\<open>char::to_digit(16)\<close>, which \<open>from_str_radix\<close> uses as well.\<close>

definition to_digit :: "char \<Rightarrow> nat option" where
  "to_digit c = (let n = of_char c in
     if 48 \<le> n \<and> n \<le> 57 then Some (n - 48) else if 97 \<le> n \<and> n \<le> 102 then Some (n - 87)
     else if 65 \<le> n \<and> n \<le> 70 then Some (n - 55) else None)"

fun decode_pairs :: "string \<Rightarrow> u8 list option" where
  "decode_pairs (h # l # s) = (case (to_digit h, to_digit l, decode_pairs s) of
     (Some high, Some low, Some bs) \<Rightarrow> Some (of_nat (16 * high + low) # bs) | _ \<Rightarrow> None)"
| "decode_pairs _ = Some []"

definition decode_hex :: "string \<Rightarrow> string \<Rightarrow> nat \<Rightarrow> string \<Rightarrow> u8 list result" where
  "decode_hex length_message digit_message n value =
     (if length value \<noteq> n * 2 \<or> \<not> list_all is_ascii_hexdigit value then Inl (Err_Rejected length_message)
      else ok_or (Err_Rejected digit_message) (decode_pairs value))"

definition decode_fixed :: "nat \<Rightarrow> string \<Rightarrow> u8 list result" where
  "decode_fixed = decode_hex ''hex field has wrong length'' ''hex field is malformed''"

section \<open>Requests\<close>

definition PROCESS_VERSION :: u8 where "PROCESS_VERSION = 2"
definition MAX_ID_BYTES :: nat where "MAX_ID_BYTES = 128"
definition MAX_PROCESS_BYTES :: nat where "MAX_PROCESS_BYTES = 1048576"

definition FIXED_INPUT_IDENTITY :: string where
  "FIXED_INPUT_IDENTITY = ''normalize-trailing-ascii-spaces-v1''"

definition FIXED_POLICY_IDENTITY :: string where
  "FIXED_POLICY_IDENTITY = ''root-level-markdown-single-file-no-arbitrary-code-v1''"

definition FIXED_TEST_IDS :: "string list" where
  "FIXED_TEST_IDS = [''exact-transformation'', ''deterministic-repeat'', ''request-byte-digests'', ''request-live-lease'',
     ''root-markdown-path'', ''frozen-requirements'']"

fun join_str :: "string \<Rightarrow> string list \<Rightarrow> string" where
  "join_str sep [] = []"
| "join_str sep [w] = w"
| "join_str sep (w # ws) = w @ sep @ join_str sep ws"

definition fixed_input_digest :: "crypto \<Rightarrow> string" where
  "fixed_input_digest env = digest_bytes env (str_bytes FIXED_INPUT_IDENTITY)"

definition fixed_tests_digest :: "crypto \<Rightarrow> string" where
  "fixed_tests_digest env = digest_bytes env (str_bytes (join_str [CHR 0x0A] FIXED_TEST_IDS))"

definition fixed_policy_digest :: "crypto \<Rightarrow> string" where
  "fixed_policy_digest env = digest_bytes env (str_bytes FIXED_POLICY_IDENTITY)"

record process_request =
  pq_request_id :: string
  pq_relative_path :: string
  pq_before_bytes :: "u8 list"
  pq_before_digest :: string
  pq_after_bytes :: "u8 list"
  pq_after_digest :: string
  pq_checkout_baseline_digest :: string
  pq_lease_expires_at :: u64
  pq_nonce :: u64

definition json_process_request :: "process_request \<Rightarrow> json" where
  "json_process_request q = JObj
    [(''request_id'', JStr (pq_request_id q)), (''relative_path'', JStr (pq_relative_path q)),
     (''before_bytes'', json_list json_word (pq_before_bytes q)), (''before_digest'', JStr (pq_before_digest q)),
     (''after_bytes'', json_list json_word (pq_after_bytes q)), (''after_digest'', JStr (pq_after_digest q)),
     (''checkout_baseline_digest'', JStr (pq_checkout_baseline_digest q)), (''lease_expires_at'', json_word (pq_lease_expires_at q)),
     (''nonce'', json_word (pq_nonce q))]"

definition process_id :: "string \<Rightarrow> bool" where
  "process_id value = text_within MAX_ID_BYTES value"

definition ends_with :: "string \<Rightarrow> string \<Rightarrow> bool" where
  "ends_with value tail \<longleftrightarrow> drop (length value - length tail) value = tail"

definition target_path :: "os_path \<Rightarrow> string \<Rightarrow> os_path result" where
  "target_path root relative =
     (if (case path_components relative of [PC_Normal _] \<Rightarrow> False | _ \<Rightarrow> True) \<or> CHR 0x5C \<in> set relative \<or> CHR '':'' \<in> set relative \<or>
         \<not> ends_with relative ''.md''
      then Inl (Err_Rejected ''target must be one root-level Markdown file'') else Inr (root @ path_components relative))"

definition process_validate_request :: "crypto \<Rightarrow> process_request \<Rightarrow> u64 \<Rightarrow> unit result" where
  "process_validate_request env q now =
     (if \<not> process_id (pq_request_id q) \<or> pq_nonce q = 0 \<or> pq_lease_expires_at q \<le> now \<or>
         MAX_PROCESS_BYTES < length (pq_before_bytes q) \<or> MAX_PROCESS_BYTES < length (pq_after_bytes q) \<or>
         \<not> valid_digest (pq_before_digest q) \<or> \<not> valid_digest (pq_after_digest q) \<or> \<not> valid_digest (pq_checkout_baseline_digest q) \<or>
         pq_before_bytes q = pq_after_bytes q \<or> pq_before_digest q \<noteq> digest_bytes env (pq_before_bytes q) \<or>
         pq_after_digest q \<noteq> digest_bytes env (pq_after_bytes q)
      then Inl (Err_Rejected ''maintenance request bytes or lease are invalid'')
      else try_r (target_path [PC_RootDir] (pq_relative_path q)) (\<lambda>_. Inr ()))"

section \<open>The normalization\<close>

definition normalize_index :: "u8 list \<Rightarrow> nat \<Rightarrow> nat \<times> u8 list \<Rightarrow> nat \<times> u8 list" where
  "normalize_index bs i st = (case st of (line_start, out) \<Rightarrow>
     if bs ! i \<noteq> 10 then (line_start, out)
     else let has_cr = (line_start < i \<and> bs ! (i - 1) = 13);
              content_end = trimmed_end bs line_start (if has_cr then i - 1 else i)
          in (Suc i, out @ byte_slice bs line_start content_end @ (if has_cr then [13] else []) @ [10]))"

definition normalize_trailing_ascii_spaces :: "u8 list \<Rightarrow> u8 list" where
  "normalize_trailing_ascii_spaces bs =
     (case fold (normalize_index bs) [0..<length bs] (0, []) of (line_start, out) \<Rightarrow>
        out @ byte_slice bs line_start (trimmed_end bs line_start (length bs)))"

text \<open>The reference: every line that ends in a line feed is trimmed, before its carriage return if it has one; the rest only loses its trailing spaces.\<close>

definition trim_text :: "u8 list \<Rightarrow> u8 list" where
  "trim_text bs = join_lf (map trim_line (butlast (split_lf bs)) @ [strip_spaces (last (split_lf bs))])"

section \<open>Evaluation and receipts\<close>

record evaluator_job =
  ej_request :: process_request
  ej_evaluator_executable_digest :: string
  ej_evaluator_input_digest :: string
  ej_evaluator_tests_digest :: string
  ej_policy_digest :: string
  ej_evaluated_at :: u64

record evaluator_receipt =
  er_state_slice :: string
  er_request_digest :: string
  er_nonce :: u64
  er_before_digest :: string
  er_after_digest :: string
  er_checkout_baseline_digest :: string
  er_evaluator_executable_digest :: string
  er_evaluator_input_digest :: string
  er_evaluator_tests_digest :: string
  er_policy_digest :: string
  er_evaluated_at :: u64
  er_accepted :: bool
  er_signature :: string

definition receipt_unsigned :: "evaluator_receipt \<Rightarrow> json" where
  "receipt_unsigned r = JObj
    [(''state_slice'', JStr (er_state_slice r)), (''request_digest'', JStr (er_request_digest r)), (''nonce'', json_word (er_nonce r)),
     (''before_digest'', JStr (er_before_digest r)), (''after_digest'', JStr (er_after_digest r)),
     (''checkout_baseline_digest'', JStr (er_checkout_baseline_digest r)),
     (''evaluator_executable_digest'', JStr (er_evaluator_executable_digest r)),
     (''evaluator_input_digest'', JStr (er_evaluator_input_digest r)), (''evaluator_tests_digest'', JStr (er_evaluator_tests_digest r)),
     (''policy_digest'', JStr (er_policy_digest r)), (''evaluated_at'', json_word (er_evaluated_at r)), (''accepted'', JBool (er_accepted r))]"

definition receipt_unsigned_bytes :: "crypto \<Rightarrow> evaluator_receipt \<Rightarrow> u8 list" where
  "receipt_unsigned_bytes env r = canonical_bytes env (receipt_unsigned r)"

definition sign_with_seed :: "crypto \<Rightarrow> ed25519 \<Rightarrow> evaluator_receipt \<Rightarrow> u8 list \<Rightarrow> evaluator_receipt" where
  "sign_with_seed env ed r seed = r\<lparr>er_signature := hex_encode (ed_sign ed seed (receipt_unsigned_bytes env r))\<rparr>"

definition evaluator_receipt_verify :: "crypto \<Rightarrow> ed25519 \<Rightarrow> evaluator_receipt \<Rightarrow> string \<Rightarrow> unit result" where
  "evaluator_receipt_verify env ed r public_key_hex =
     try_r (decode_fixed 32 public_key_hex) (\<lambda>key.
     try_r (decode_fixed 64 (er_signature r)) (\<lambda>signature.
     if \<not> ed_key_ok ed key then Inl (Err_Rejected ''evaluator public key is invalid'')
     else if \<not> ed_verify ed key (receipt_unsigned_bytes env r) signature
     then Inl (Err_Rejected ''evaluator receipt signature is invalid'') else Inr ()))"

definition evaluate_job :: "crypto \<Rightarrow> u64 result \<Rightarrow> evaluator_job \<Rightarrow> evaluator_receipt result" where
  "evaluate_job env clock j =
     try_r clock (\<lambda>evaluated_at.
     let q = ej_request j in
     try_r (process_validate_request env q evaluated_at) (\<lambda>_.
     if ej_evaluator_input_digest j \<noteq> fixed_input_digest env \<or> ej_evaluator_tests_digest j \<noteq> fixed_tests_digest env \<or>
        ej_policy_digest j \<noteq> fixed_policy_digest env \<or> \<not> valid_digest (ej_evaluator_executable_digest j)
     then Inl (Err_Rejected ''evaluator job is not bound to frozen requirements'')
     else let expected = normalize_trailing_ascii_spaces (pq_before_bytes q) in
     if expected \<noteq> pq_after_bytes q \<or> normalize_trailing_ascii_spaces (pq_before_bytes q) \<noteq> expected
     then Inl (Err_Rejected ''candidate does not equal fixed transformation'')
     else if CHR ''/'' \<in> set (pq_relative_path q) \<or> CHR 0x5C \<in> set (pq_relative_path q) \<or> take 1 (pq_relative_path q) = ''.''
     then Inl (Err_Rejected ''fixed evaluator path assertion failed'')
     else if pq_lease_expires_at q \<le> ej_evaluated_at j then Inl (Err_Rejected ''evaluator lease is expired'')
     else Inr \<lparr>er_state_slice = STATE_SLICE, er_request_digest = digest env (json_process_request q), er_nonce = pq_nonce q,
            er_before_digest = pq_before_digest q, er_after_digest = pq_after_digest q,
            er_checkout_baseline_digest = pq_checkout_baseline_digest q,
            er_evaluator_executable_digest = ej_evaluator_executable_digest j, er_evaluator_input_digest = ej_evaluator_input_digest j,
            er_evaluator_tests_digest = ej_evaluator_tests_digest j, er_policy_digest = ej_policy_digest j,
            er_evaluated_at = evaluated_at, er_accepted = True, er_signature = ''''\<rparr>))"

section \<open>Lemmas\<close>

lemma to_digit_hex: "n < 16 \<Longrightarrow> to_digit (hex_digit n) = Some n"
proof -
  assume "n < 16"
  then have "n \<in> set [0..<16]" by simp
  moreover have "\<forall>n\<in>set [0..<16]. to_digit (hex_digit n) = Some n"
    by (simp add: hex_digit_def to_digit_def upt_rec numeral_eq_Suc)
  ultimately show ?thesis by blast
qed

lemma hexdigit_value: "is_ascii_hexdigit c \<longleftrightarrow> to_digit c \<noteq> None"
  by (auto simp: to_digit_def is_ascii_hexdigit_def Let_def)

lemma decode_pairs_encode: "decode_pairs (hex_encode bs) = Some bs"
proof (induction bs)
  case (Cons b bs)
  have "16 * (unat b div 16) + unat b mod 16 = unat b" by simp
  then show ?case using Cons unat_u8_div [of b]
    by (simp add: hex_encode_def hex_byte_def to_digit_hex)
qed (simp add: hex_encode_def)

lemma decode_pairs_total:
  assumes "list_all is_ascii_hexdigit s" and "even (length s)"
  shows "\<exists>bs. decode_pairs s = Some bs \<and> 2 * length bs = length s"
  using assms
proof (induction s rule: decode_pairs.induct)
  case (1 h l s)
  then obtain bs where "decode_pairs s = Some bs" "2 * length bs = length s" by auto
  then show ?case using 1(2) by (auto simp: hexdigit_value)
qed auto

lemma decode_hex_ok:
  "decode_hex lm dm n s = Inr bs \<longleftrightarrow> length s = 2 * n \<and> list_all is_ascii_hexdigit s \<and> decode_pairs s = Some bs"
  by (auto simp: decode_hex_def)

lemma decode_hex_total: "(\<exists>bs. decode_hex lm dm n s = Inr bs) \<longleftrightarrow> length s = 2 * n \<and> list_all is_ascii_hexdigit s"
  using decode_pairs_total [of s] by (auto simp: decode_hex_ok)

lemma decode_hex_length: "decode_hex lm dm n s = Inr bs \<Longrightarrow> length bs = n"
  using decode_pairs_total [of s] by (auto simp: decode_hex_ok)

lemma hex_encode_chars: "list_all is_ascii_hexdigit (hex_encode bs)" "length (hex_encode bs) = 2 * length bs"
  using hex_chars [of bs] by (simp_all add: hex_encode_def length_hex list_all_iff)

lemma decode_encode: "length bs = n \<Longrightarrow> decode_hex lm dm n (hex_encode bs) = Inr bs"
  by (simp add: decode_hex_ok hex_encode_chars decode_pairs_encode)

lemma normalize_loop:
  assumes "10 \<notin> set cur" and "bs = pre @ cur @ rest"
  shows "(case fold (normalize_index bs) [length pre + length cur..<length bs] (length pre, out) of (line_start, out') \<Rightarrow>
      out' @ byte_slice bs line_start (trimmed_end bs line_start (length bs))) = out @ trim_text (cur @ rest)"
  using assms
proof (induction rest arbitrary: pre cur out)
  case Nil
  then show ?case using trimmed_end_strip [of pre cur "[]"] by (simp add: trim_text_def split_lf_last)
next
  case (Cons x xs)
  let ?i = "length pre + length cur"
  have lt: "?i < length bs" using Cons.prems(2) by simp
  have upt: "[?i..<length bs] = ?i # [Suc ?i..<length bs]" using lt by (simp add: upt_conv_Cons)
  have nth: "bs ! ?i = x" using Cons.prems(2) by (simp add: nth_append)
  show ?case
  proof (cases "x = 10")
    case True
    have cr: "byte_slice bs (if length pre < ?i \<and> bs ! (?i - 1) = 13 then ?i - 1 else ?i) ?i =
        (if length pre < ?i \<and> bs ! (?i - 1) = 13 then [13] else [])"
      using Cons.prems(2) by (cases cur rule: rev_cases) (auto simp: byte_slice_def nth_append)
    have step: "normalize_index bs ?i (length pre, out) = (Suc ?i, out @ trim_line cur @ [10])"
      using line_trimmed [OF Cons.prems(2) refl refl, unfolded cr] nth True
      by (simp add: normalize_index_def Let_def if_distrib [of "trimmed_end bs (length pre)"] cong: if_cong)
    have "(case fold (normalize_index bs) [length (pre @ cur @ [10]) + length ([] :: u8 list)..<length bs] (length (pre @ cur @ [10]), out @ trim_line cur @ [10])
        of (line_start, out') \<Rightarrow> out' @ byte_slice bs line_start (trimmed_end bs line_start (length bs))) =
        (out @ trim_line cur @ [10]) @ trim_text ([] @ xs)"
      by (rule Cons.IH) (use Cons.prems True in simp_all)
    then show ?thesis using Cons.prems(1) True upt step by (simp add: trim_text_def split_lf_line join_lf_Cons)
  next
    case False
    have step: "normalize_index bs ?i (length pre, out) = (length pre, out)" using nth False by (simp add: normalize_index_def)
    have "(case fold (normalize_index bs) [length pre + length (cur @ [x])..<length bs] (length pre, out) of (line_start, out') \<Rightarrow>
        out' @ byte_slice bs line_start (trimmed_end bs line_start (length bs))) = out @ trim_text ((cur @ [x]) @ xs)"
      by (rule Cons.IH) (use Cons.prems False in simp_all)
    then show ?thesis using upt step by simp
  qed
qed

lemma normalize_reference: "normalize_trailing_ascii_spaces bs = trim_text bs"
  using normalize_loop [of "[]" bs "[]" bs "[]"] by (simp add: normalize_trailing_ascii_spaces_def)

lemma filter_trim_text: "filter (\<lambda>b. b \<noteq> 32) (trim_text bs) = filter (\<lambda>b. b \<noteq> 32) bs \<and> length (trim_text bs) \<le> length bs"
proof -
  obtain ls l where s: "split_lf bs = ls @ [l]" by (metis append_butlast_last_id split_lf_nonempty)
  have join: "join_lf (xs @ [x]) = concat (map (\<lambda>y. y @ [10]) xs) @ x" for xs x
    by (induction xs) (simp_all add: join_lf_Cons)
  have "filter (\<lambda>b. b \<noteq> 32) (concat (map (\<lambda>y. y @ [10]) (map trim_line ls))) = filter (\<lambda>b. b \<noteq> 32) (concat (map (\<lambda>y. y @ [10]) ls)) \<and>
      length (concat (map (\<lambda>y. y @ [10]) (map trim_line ls))) \<le> length (concat (map (\<lambda>y. y @ [10]) ls))"
    by (induction ls) (simp_all add: trim_line_bytes add_mono)
  moreover have "concat (map (\<lambda>y. y @ [10]) ls) @ l = bs" using join_split_lf [of bs] join [of ls l] s by simp
  moreover have "trim_text bs = concat (map (\<lambda>y. y @ [10]) (map trim_line ls)) @ strip_spaces l" by (simp only: trim_text_def s join butlast_snoc last_snoc)
  ultimately show ?thesis using strip_spaces_bytes [of l] by (metis add_mono filter_append length_append)
qed

lemma last_line: "last (split_lf bs) = [] \<or> (bs \<noteq> [] \<and> last (last (split_lf bs)) = last bs)"
proof (induction bs)
  case (Cons b bs)
  obtain l ls where s: "split_lf bs = l # ls" by (cases "split_lf bs") auto
  show ?case
  proof (cases ls)
    case Nil
    then show ?thesis using Cons s join_split_lf [of bs] by auto
  next
    case (Cons m ms)
    then show ?thesis using Cons.IH s by auto
  qed
qed simp

lemma validate_request_ok:
  "process_validate_request env q now = Inr () \<longleftrightarrow> process_id (pq_request_id q) \<and> pq_nonce q \<noteq> 0 \<and> now < pq_lease_expires_at q \<and>
     length (pq_before_bytes q) \<le> MAX_PROCESS_BYTES \<and> length (pq_after_bytes q) \<le> MAX_PROCESS_BYTES \<and>
     valid_digest (pq_before_digest q) \<and> valid_digest (pq_after_digest q) \<and> valid_digest (pq_checkout_baseline_digest q) \<and>
     pq_before_bytes q \<noteq> pq_after_bytes q \<and> pq_before_digest q = digest_bytes env (pq_before_bytes q) \<and>
     pq_after_digest q = digest_bytes env (pq_after_bytes q) \<and> is_ok (target_path [PC_RootDir] (pq_relative_path q))"
  by (auto simp: process_validate_request_def try_r_eq_Inr is_ok_iff not_le not_less)

interpretation canon_process_request: canonical json_process_request
  by unfold_locales (simp add: json_process_request_def process_request.equality)

lemma receipt_verified:
  "evaluator_receipt_verify env ed r key_hex = Inr () \<longleftrightarrow>
     (\<exists>key signature. decode_fixed 32 key_hex = Inr key \<and> decode_fixed 64 (er_signature r) = Inr signature \<and> ed_key_ok ed key \<and>
        ed_verify ed key (receipt_unsigned_bytes env r) signature)"
  by (auto simp: evaluator_receipt_verify_def try_r_eq_Inr)

lemma sign_keeps: "receipt_unsigned_bytes env (sign_with_seed env ed r seed) = receipt_unsigned_bytes env r"
  by (simp add: receipt_unsigned_bytes_def receipt_unsigned_def sign_with_seed_def)

text \<open>A public key of \<open>ed25519_dalek\<close> has 32 bytes.\<close>

definition ed25519_key_len :: "ed25519 \<Rightarrow> bool" where
  "ed25519_key_len ed \<longleftrightarrow> (\<forall>seed. length (ed_public ed seed) = 32)"

lemma demo_ed_key_len [simp]: "ed25519_key_len demo_ed"
  by (simp add: ed25519_key_len_def demo_ed_def)

lemma evaluation_accepts:
  "(\<exists>r. evaluate_job env (Inr now) j = Inr r) \<longleftrightarrow>
      process_validate_request env (ej_request j) now = Inr () \<and> ej_evaluator_input_digest j = fixed_input_digest env \<and>
      ej_evaluator_tests_digest j = fixed_tests_digest env \<and> ej_policy_digest j = fixed_policy_digest env \<and>
      valid_digest (ej_evaluator_executable_digest j) \<and>
      pq_after_bytes (ej_request j) = trim_text (pq_before_bytes (ej_request j)) \<and>
      CHR ''/'' \<notin> set (pq_relative_path (ej_request j)) \<and> CHR 0x5C \<notin> set (pq_relative_path (ej_request j)) \<and>
      take 1 (pq_relative_path (ej_request j)) \<noteq> ''.'' \<and> ej_evaluated_at j < pq_lease_expires_at (ej_request j)"
  unfolding evaluate_job_def Let_def try_r_simps normalize_reference try_r_eq_Inr guard_ok de_Morgan_disj
  by (simp add: not_le) (metis (no_types))

lemma evaluated_receipt:
  "evaluate_job env (Inr now) j = Inr r \<Longrightarrow> er_request_digest r = digest env (json_process_request (ej_request j)) \<and> er_accepted r \<and>
     er_evaluated_at r = now \<and> er_nonce r = pq_nonce (ej_request j)"
  by (auto simp: evaluate_job_def Let_def try_r_eq_Inr split: if_splits)

lemma signed_receipt_verifies:
  assumes "ed25519_correct ed" and "ed25519_key_len ed"
  shows "evaluator_receipt_verify env ed (sign_with_seed env ed r seed) (hex_encode (ed_public ed seed)) = Inr ()"
  using assms unfolding receipt_verified sign_keeps
  by (auto simp: decode_fixed_def sign_with_seed_def decode_encode ed25519_correct_def ed25519_key_len_def)

section \<open>Properties\<close>

text \<open>
  The normalization is line by line.  The index loop equals the reference on every input, only removes spaces and never grows the input; where the input does not
  end in a carriage return it is the one transformation the capability broker permits.
\<close>

theorem normalization_exact:
  assumes "bs = [] \<or> last bs \<noteq> 13"
  shows "normalize_trailing_ascii_spaces cs = trim_text cs \<and>
    filter (\<lambda>b. b \<noteq> 32) (normalize_trailing_ascii_spaces cs) = filter (\<lambda>b. b \<noteq> 32) cs \<and>
    length (normalize_trailing_ascii_spaces cs) \<le> length cs \<and> transform_output op bs = Inr (normalize_trailing_ascii_spaces bs)"
proof -
  have "trim_line (last (split_lf bs)) = strip_spaces (last (split_lf bs))"
    using last_line [of bs] assms by (auto simp: trim_line_def)
  moreover have "map trim_line (split_lf bs) = map trim_line (butlast (split_lf bs)) @ [trim_line (last (split_lf bs))]"
    by (subst append_butlast_last_id [OF split_lf_nonempty, symmetric]) (simp only: map_append list.map)
  ultimately have "map trim_line (split_lf bs) = map trim_line (butlast (split_lf bs)) @ [strip_spaces (last (split_lf bs))]" by simp
  then have "transform_output op bs = Inr (trim_text bs)" by (cases op) (simp add: transform_output_reference trim_text_def)
  then show ?thesis using filter_trim_text [of cs] by (simp add: normalize_reference)
qed

theorem normalization_exact_witness:
  "normalize_trailing_ascii_spaces [97, 32, 13, 10, 98, 32] = [97, 13, 10, 98] \<and>
   transform_output FT_TrimTrailingAsciiSpaces [97, 32, 13, 10, 98, 32] = Inr [97, 13, 10, 98]"
  using normalization_exact [of "[97, 32, 13, 10, 98, 32]" "[97, 32, 13, 10, 98, 32]"]
  by (simp add: trim_text_def trim_line_def strip_spaces_def)

text \<open>
  C39.  What the evaluator accepts.  \<open>evaluate_job\<close> answers a receipt exactly if the request is valid at the evaluator's own time, names a Markdown file in the root of the
  checkout that is not hidden, its after bytes are the normalization of its before bytes, the job carries the fixed digests, and the lease outlives both
  times.  The receipt then names the request by its digest, and signing it with a seed makes it verify
  under the hexadecimal text of the seed's public key.
\<close>

theorem evaluation_exact:
  assumes "ed25519_correct ed" and "ed25519_key_len ed"
  shows "((\<exists>r. evaluate_job env (Inr now) j = Inr r) \<longleftrightarrow>
      process_validate_request env (ej_request j) now = Inr () \<and> ej_evaluator_input_digest j = fixed_input_digest env \<and>
      ej_evaluator_tests_digest j = fixed_tests_digest env \<and> ej_policy_digest j = fixed_policy_digest env \<and>
      valid_digest (ej_evaluator_executable_digest j) \<and>
      pq_after_bytes (ej_request j) = trim_text (pq_before_bytes (ej_request j)) \<and>
      CHR ''/'' \<notin> set (pq_relative_path (ej_request j)) \<and> CHR 0x5C \<notin> set (pq_relative_path (ej_request j)) \<and>
      take 1 (pq_relative_path (ej_request j)) \<noteq> ''.'' \<and> ej_evaluated_at j < pq_lease_expires_at (ej_request j)) \<and>
    (\<forall>r seed. evaluate_job env (Inr now) j = Inr r \<longrightarrow>
      er_request_digest r = digest env (json_process_request (ej_request j)) \<and> er_accepted r \<and> er_evaluated_at r = now \<and>
      er_nonce r = pq_nonce (ej_request j) \<and>
      evaluator_receipt_verify env ed (sign_with_seed env ed r seed) (hex_encode (ed_public ed seed)) = Inr ())"
  using signed_receipt_verifies [OF assms] evaluated_receipt unfolding evaluation_accepts by blast

definition demo_process_request :: process_request where
  "demo_process_request = \<lparr>pq_request_id = ''request'', pq_relative_path = ''a.md'', pq_before_bytes = [97, 32], pq_before_digest = zero_digest,
     pq_after_bytes = [97], pq_after_digest = zero_digest, pq_checkout_baseline_digest = zero_digest, pq_lease_expires_at = 100, pq_nonce = 1\<rparr>"

definition demo_evaluator_job :: evaluator_job where
  "demo_evaluator_job = \<lparr>ej_request = demo_process_request, ej_evaluator_executable_digest = zero_digest, ej_evaluator_input_digest = zero_digest,
     ej_evaluator_tests_digest = zero_digest, ej_policy_digest = zero_digest, ej_evaluated_at = 50\<rparr>"

lemma demo_request_valid: "process_validate_request demo_env demo_process_request 60 = Inr ()"
  unfolding validate_request_ok
  by (simp add: demo_process_request_def process_id_def text_within_def ascii_control_def MAX_ID_BYTES_def MAX_PROCESS_BYTES_def zero_digits
      hex_simps target_path_def path_components_def component_of_def ends_with_def is_ok_def)

theorem evaluation_exact_witness:
  "\<exists>r. evaluate_job demo_env (Inr 60) demo_evaluator_job = Inr r \<and>
     evaluator_receipt_verify demo_env demo_ed (sign_with_seed demo_env demo_ed r []) (hex_encode (ed_public demo_ed [])) = Inr ()"
proof -
  note exact = evaluation_exact [OF demo_ed_correct demo_ed_key_len, of demo_env 60 demo_evaluator_job]
  have "\<exists>r. evaluate_job demo_env (Inr 60) demo_evaluator_job = Inr r"
    unfolding exact [THEN conjunct1] using demo_request_valid
    by (simp add: demo_evaluator_job_def fixed_input_digest_def fixed_tests_digest_def fixed_policy_digest_def)
      (simp add: demo_process_request_def trim_text_def strip_spaces_def zero_digits hex_simps)
  then show ?thesis using exact [THEN conjunct2] by blast
qed

end
