(* ===== verification/Host_Reports.thy ===== *)
theory Host_Reports
  imports Evaluator "HOL-Library.Multiset"
begin

text \<open>
  The signed host reports of src/maintenance_replication.rs: a host and an operator sign the results of twenty fixed scenarios, and a packet binds two such
  reports to one request and one manifest of the checkout.
\<close>

section \<open>Vocabulary\<close>

definition LEGACY_REPLICATION_VERSION :: u8 where "LEGACY_REPLICATION_VERSION = 1"
definition BROKER_IDENTITY_REPLICATION_VERSION :: u8 where "BROKER_IDENTITY_REPLICATION_VERSION = 2"
definition REPLICATION_VERSION :: u8 where "REPLICATION_VERSION = 3"

definition FIXED_OPERATION_IDENTITY :: string where
  "FIXED_OPERATION_IDENTITY = FIXED_INPUT_IDENTITY"

definition HOST_CLAIM_CEILING :: string where
  "HOST_CLAIM_CEILING = ''local signed wire-consistency evidence for this fixed maintenance operation only''"

definition REQUIRED_SCENARIOS :: "string list" where
  "REQUIRED_SCENARIOS = [''authorized-completion'', ''replay-after-completion'', ''invalid-or-stale-baseline'', ''pre-admission-expiry'',
     ''pre-admission-cancellation'', ''evaluator-requirement-substitution'', ''path-escape'', ''link-escape'', ''evaluation-expiry'',
     ''pre-finalization-cancellation'', ''pre-finalization-expiry'', ''crash-after-durable-intent'', ''crash-after-replacement'',
     ''concurrent-target-change'', ''completion-state-persistence-failure'', ''neighbor-change-recovery'', ''occupied-lock'',
     ''cross-state-directory-lock-contention'', ''replacement-lock-ownership'', ''recovery-config-redirect'']"

datatype scenario_status = SS_Applied | SS_Quarantined | SS_RolledBack | SS_Frozen | SS_Blocked | SS_ProcessError

fun scenario_status_name :: "scenario_status \<Rightarrow> string" where
  "scenario_status_name SS_Applied = ''Applied''"
| "scenario_status_name SS_Quarantined = ''Quarantined''"
| "scenario_status_name SS_RolledBack = ''RolledBack''"
| "scenario_status_name SS_Frozen = ''Frozen''"
| "scenario_status_name SS_Blocked = ''Blocked''"
| "scenario_status_name SS_ProcessError = ''ProcessError''"

datatype recovery_disposition =
    RC_AuthorizedChangeCommitted | RC_NoMutation | RC_BaselineRestored | RC_ExternalChangePreservedAndFrozen
  | RC_AlreadyAppliedPreserved | RC_AlternateCheckoutPreserved

fun recovery_name :: "recovery_disposition \<Rightarrow> string" where
  "recovery_name RC_AuthorizedChangeCommitted = ''AuthorizedChangeCommitted''"
| "recovery_name RC_NoMutation = ''NoMutation''"
| "recovery_name RC_BaselineRestored = ''BaselineRestored''"
| "recovery_name RC_ExternalChangePreservedAndFrozen = ''ExternalChangePreservedAndFrozen''"
| "recovery_name RC_AlreadyAppliedPreserved = ''AlreadyAppliedPreserved''"
| "recovery_name RC_AlternateCheckoutPreserved = ''AlternateCheckoutPreserved''"

datatype scenario_role = SR_Primary | SR_Winner | SR_Contender

fun scenario_role_name :: "scenario_role \<Rightarrow> string" where
  "scenario_role_name SR_Primary = ''Primary''"
| "scenario_role_name SR_Winner = ''Winner''"
| "scenario_role_name SR_Contender = ''Contender''"

datatype manifest_file_kind = MF_Regular

record baseline_manifest_entry =
  bm_relative_path :: string
  bm_byte_length :: u64
  bm_content_digest :: string
  bm_file_kind :: manifest_file_kind
  bm_link_count :: u64

definition json_manifest_entry :: "baseline_manifest_entry \<Rightarrow> json" where
  "json_manifest_entry e = JObj
    [(''relative_path'', JStr (bm_relative_path e)), (''byte_length'', json_word (bm_byte_length e)),
     (''content_digest'', JStr (bm_content_digest e)), (''file_kind'', case bm_file_kind e of MF_Regular \<Rightarrow> JStr ''Regular''),
     (''link_count'', json_word (bm_link_count e))]"

record scenario_result =
  sx_scenario_id :: string
  sx_role :: scenario_role
  sx_status :: scenario_status
  sx_recovery_status :: "scenario_status option"
  sx_recovery :: recovery_disposition
  sx_initial_checkout_digest :: string
  sx_final_checkout_digest :: string
  sx_evidence_digest :: string

definition json_scenario_result :: "scenario_result \<Rightarrow> json" where
  "json_scenario_result s = JObj
    [(''scenario_id'', JStr (sx_scenario_id s)), (''role'', JStr (scenario_role_name (sx_role s))),
     (''status'', JStr (scenario_status_name (sx_status s))),
     (''recovery_status'', json_opt (\<lambda>t. JStr (scenario_status_name t)) (sx_recovery_status s)),
     (''recovery'', JStr (recovery_name (sx_recovery s))), (''initial_checkout_digest'', JStr (sx_initial_checkout_digest s)),
     (''final_checkout_digest'', JStr (sx_final_checkout_digest s)), (''evidence_digest'', JStr (sx_evidence_digest s))]"

record host_report =
  hr_version :: u8
  hr_state_slice :: string
  hr_operation :: string
  hr_process_version :: u8
  hr_implementation_revision :: string
  hr_toolchain_digest :: string
  hr_request_digest :: string
  hr_checkout_baseline_digest :: string
  hr_baseline_manifest_digest :: string
  hr_evaluator_executable_digest :: string
  hr_maintenance_broker_executable_digest :: "string option"
  hr_replication_runner_executable_digest :: "string option"
  hr_evaluator_input_digest :: string
  hr_evaluator_tests_digest :: string
  hr_policy_digest :: string
  hr_evaluator_public_key :: string
  hr_evaluator_timeout_ms :: u64
  hr_claim_ceiling :: string
  hr_host_id :: string
  hr_operator_id :: string
  hr_host_public_key :: string
  hr_operator_public_key :: string
  hr_scenarios :: "scenario_result list"
  hr_report_id :: string
  hr_host_signature :: string
  hr_operator_signature :: string

record host_packet =
  hp_version :: u8
  hp_state_slice :: string
  hp_operation :: string
  hp_process_version :: u8
  hp_implementation_revision :: string
  hp_toolchain_digest :: string
  hp_request_digest :: string
  hp_checkout_baseline_digest :: string
  hp_baseline_manifest_digest :: string
  hp_request :: process_request
  hp_baseline_manifest :: "baseline_manifest_entry list"
  hp_evaluator_executable_digest :: string
  hp_maintenance_broker_executable_digest :: "string option"
  hp_evaluator_input_digest :: string
  hp_evaluator_tests_digest :: string
  hp_policy_digest :: string
  hp_evaluator_public_key :: string
  hp_evaluator_timeout_ms :: u64
  hp_claim_ceiling :: string
  hp_reports :: "host_report list"
  hp_packet_id :: string

text \<open>A field with \<open>skip_serializing_if = "Option::is_none"\<close>.\<close>

definition optional_field :: "string \<Rightarrow> string option \<Rightarrow> (string \<times> json) list" where
  "optional_field name x = (case x of None \<Rightarrow> [] | Some v \<Rightarrow> [(name, JStr v)])"

definition report_identity_fields :: "host_report \<Rightarrow> (string \<times> json) list" where
  "report_identity_fields r =
    [(''version'', json_word (hr_version r)), (''state_slice'', JStr (hr_state_slice r)), (''operation'', JStr (hr_operation r)),
     (''process_version'', json_word (hr_process_version r)), (''implementation_revision'', JStr (hr_implementation_revision r)),
     (''toolchain_digest'', JStr (hr_toolchain_digest r)), (''request_digest'', JStr (hr_request_digest r)),
     (''checkout_baseline_digest'', JStr (hr_checkout_baseline_digest r)),
     (''baseline_manifest_digest'', JStr (hr_baseline_manifest_digest r)),
     (''evaluator_executable_digest'', JStr (hr_evaluator_executable_digest r))] @
    optional_field ''maintenance_broker_executable_digest'' (hr_maintenance_broker_executable_digest r) @
    optional_field ''replication_runner_executable_digest'' (hr_replication_runner_executable_digest r) @
    [(''evaluator_input_digest'', JStr (hr_evaluator_input_digest r)), (''evaluator_tests_digest'', JStr (hr_evaluator_tests_digest r)),
     (''policy_digest'', JStr (hr_policy_digest r)), (''evaluator_public_key'', JStr (hr_evaluator_public_key r)),
     (''evaluator_timeout_ms'', json_word (hr_evaluator_timeout_ms r)), (''claim_ceiling'', JStr (hr_claim_ceiling r)),
     (''host_id'', JStr (hr_host_id r)), (''operator_id'', JStr (hr_operator_id r)), (''host_public_key'', JStr (hr_host_public_key r)),
     (''operator_public_key'', JStr (hr_operator_public_key r)), (''scenarios'', json_list json_scenario_result (hr_scenarios r))]"

definition report_identity_payload :: "host_report \<Rightarrow> json" where
  "report_identity_payload r = JObj (report_identity_fields r)"

definition report_signing_payload :: "host_report \<Rightarrow> json" where
  "report_signing_payload r = JObj (report_identity_fields r @ [(''report_id'', JStr (hr_report_id r))])"

definition json_host_report :: "host_report \<Rightarrow> json" where
  "json_host_report r = JObj (report_identity_fields r @ [(''report_id'', JStr (hr_report_id r)),
     (''host_signature'', JStr (hr_host_signature r)), (''operator_signature'', JStr (hr_operator_signature r))])"

definition packet_head_fields :: "host_packet \<Rightarrow> (string \<times> json) list" where
  "packet_head_fields p =
    [(''version'', json_word (hp_version p)), (''state_slice'', JStr (hp_state_slice p)), (''operation'', JStr (hp_operation p)),
     (''process_version'', json_word (hp_process_version p)), (''implementation_revision'', JStr (hp_implementation_revision p)),
     (''toolchain_digest'', JStr (hp_toolchain_digest p)), (''request_digest'', JStr (hp_request_digest p)),
     (''checkout_baseline_digest'', JStr (hp_checkout_baseline_digest p)),
     (''baseline_manifest_digest'', JStr (hp_baseline_manifest_digest p))]"

definition packet_evaluator_fields :: "host_packet \<Rightarrow> (string \<times> json) list" where
  "packet_evaluator_fields p =
    [(''evaluator_executable_digest'', JStr (hp_evaluator_executable_digest p))] @
    optional_field ''maintenance_broker_executable_digest'' (hp_maintenance_broker_executable_digest p) @
    [(''evaluator_input_digest'', JStr (hp_evaluator_input_digest p)), (''evaluator_tests_digest'', JStr (hp_evaluator_tests_digest p)),
     (''policy_digest'', JStr (hp_policy_digest p)), (''evaluator_public_key'', JStr (hp_evaluator_public_key p)),
     (''evaluator_timeout_ms'', json_word (hp_evaluator_timeout_ms p)), (''claim_ceiling'', JStr (hp_claim_ceiling p))]"

definition packet_identity_payload :: "host_packet \<Rightarrow> json" where
  "packet_identity_payload p = JObj (packet_head_fields p @ packet_evaluator_fields p @
     [(''report_ids'', json_list JStr (map hr_report_id (hp_reports p)))])"

definition json_host_packet :: "host_packet \<Rightarrow> json" where
  "json_host_packet p = JObj (packet_head_fields p @
     [(''request'', json_process_request (hp_request p)), (''baseline_manifest'', json_list json_manifest_entry (hp_baseline_manifest p))] @
     packet_evaluator_fields p @
     [(''reports'', json_list json_host_report (hp_reports p)), (''packet_id'', JStr (hp_packet_id p))])"

section \<open>Checks\<close>

definition host_text :: "string \<Rightarrow> bool" where
  "host_text value = text_within 128 value"

definition valid_revision :: "string \<Rightarrow> bool" where
  "valid_revision value \<longleftrightarrow> length value = 40 \<and> list_all (\<lambda>c. is_ascii_hexdigit c \<and> \<not> is_ascii_uppercase c) value"

definition valid_broker_binding :: "u8 \<Rightarrow> string option \<Rightarrow> bool" where
  "valid_broker_binding version d =
     (if version = LEGACY_REPLICATION_VERSION then d = None
      else if version = BROKER_IDENTITY_REPLICATION_VERSION \<or> version = REPLICATION_VERSION
      then (case d of None \<Rightarrow> False | Some v \<Rightarrow> valid_digest v) else False)"

definition valid_runner_binding :: "u8 \<Rightarrow> string option \<Rightarrow> bool" where
  "valid_runner_binding version d =
     (if version = LEGACY_REPLICATION_VERSION \<or> version = BROKER_IDENTITY_REPLICATION_VERSION then d = None
      else if version = REPLICATION_VERSION then (case d of None \<Rightarrow> False | Some v \<Rightarrow> valid_digest v) else False)"

definition report_decode_fixed :: "nat \<Rightarrow> string \<Rightarrow> u8 list result" where
  "report_decode_fixed = decode_hex ''replication hex field has wrong length'' ''replication hex field is malformed''"

definition valid_public_key :: "ed25519 \<Rightarrow> string \<Rightarrow> bool" where
  "valid_public_key ed value = is_ok (try_r (report_decode_fixed 32 value) (\<lambda>bytes.
     if ed_key_ok ed bytes then Inr () else Inl (Err_Rejected ''replication public key is invalid'')))"

definition expected_scenario :: "string \<Rightarrow> scenario_role \<Rightarrow> (scenario_status \<times> scenario_status option \<times> recovery_disposition) option" where
  "expected_scenario scenario_id role =
     (if scenario_id = ''authorized-completion'' then Some (SS_Applied, None, RC_AuthorizedChangeCommitted)
      else if scenario_id \<in> set [''replay-after-completion'', ''invalid-or-stale-baseline'', ''pre-admission-expiry'',
         ''pre-admission-cancellation'', ''evaluator-requirement-substitution'', ''path-escape'', ''evaluation-expiry'']
      then Some (SS_Quarantined, None, if scenario_id = ''replay-after-completion'' then RC_AlreadyAppliedPreserved else RC_NoMutation)
      else if scenario_id = ''link-escape'' then Some (SS_ProcessError, None, RC_NoMutation)
      else if scenario_id = ''pre-finalization-cancellation'' \<or> scenario_id = ''pre-finalization-expiry''
      then Some (SS_RolledBack, None, RC_BaselineRestored)
      else if scenario_id = ''crash-after-durable-intent'' \<or> scenario_id = ''crash-after-replacement''
      then Some (SS_ProcessError, Some SS_Frozen, RC_BaselineRestored)
      else if scenario_id = ''completion-state-persistence-failure'' then Some (SS_ProcessError, Some SS_Frozen, RC_BaselineRestored)
      else if scenario_id = ''concurrent-target-change'' \<or> scenario_id = ''neighbor-change-recovery''
      then Some (SS_Frozen, None, RC_ExternalChangePreservedAndFrozen)
      else if scenario_id = ''occupied-lock'' then Some (SS_ProcessError, None, RC_NoMutation)
      else if scenario_id = ''cross-state-directory-lock-contention''
      then (case role of SR_Winner \<Rightarrow> Some (SS_Applied, None, RC_AuthorizedChangeCommitted)
            | SR_Contender \<Rightarrow> Some (SS_Blocked, None, RC_NoMutation) | SR_Primary \<Rightarrow> None)
      else if scenario_id = ''replacement-lock-ownership'' \<and> role = SR_Winner
      then Some (SS_Applied, None, RC_AuthorizedChangeCommitted)
      else if scenario_id = ''recovery-config-redirect'' then Some (SS_ProcessError, None, RC_AlternateCheckoutPreserved)
      else None)"

definition report_scenario_role :: "host_report \<Rightarrow> string \<Rightarrow> scenario_role option" where
  "report_scenario_role r scenario_id = map_option sx_role (find (\<lambda>s. sx_scenario_id s = scenario_id) (hr_scenarios r))"

definition valid_relative_path :: "string \<Rightarrow> bool" where
  "valid_relative_path value \<longleftrightarrow> value \<noteq> [] \<and> length value \<le> 4096 \<and> take 1 value \<noteq> ''/'' \<and> CHR 0x5C \<notin> set value \<and>
     CHR '':'' \<notin> set value \<and> \<not> has_control value \<and>
     list_all (\<lambda>part. part \<noteq> [] \<and> part \<noteq> ''.'' \<and> part \<noteq> ''..'') (split_slash value)"

definition validate_request_binding :: "crypto \<Rightarrow> process_request \<Rightarrow> unit result" where
  "validate_request_binding env q =
     (if \<not> host_text (pq_request_id q) \<or> pq_nonce q = 0 \<or> pq_lease_expires_at q = 0 \<or> MAX_PROCESS_BYTES < length (pq_before_bytes q) \<or>
         MAX_PROCESS_BYTES < length (pq_after_bytes q) \<or> pq_before_bytes q = pq_after_bytes q \<or>
         \<not> valid_relative_path (pq_relative_path q) \<or> length (split_slash (pq_relative_path q)) \<noteq> 1 \<or>
         \<not> ends_with (pq_relative_path q) ''.md'' \<or> \<not> valid_digest (pq_before_digest q) \<or>
         pq_before_digest q \<noteq> digest_bytes env (pq_before_bytes q) \<or> \<not> valid_digest (pq_after_digest q) \<or>
         pq_after_digest q \<noteq> digest_bytes env (pq_after_bytes q) \<or>
         normalize_trailing_ascii_spaces (pq_before_bytes q) \<noteq> pq_after_bytes q \<or> \<not> valid_digest (pq_checkout_baseline_digest q)
      then Inl (Err_Rejected ''replication request binding is invalid'') else Inr ())"

fun manifest_loop :: "string option \<Rightarrow> u64 \<Rightarrow> baseline_manifest_entry list \<Rightarrow> unit result" where
  "manifest_loop previous total_bytes [] = Inr ()"
| "manifest_loop previous total_bytes (e # es) =
     (if \<not> valid_relative_path (bm_relative_path e) \<or> \<not> valid_digest (bm_content_digest e) \<or> 32 * 1024 * 1024 < bm_byte_length e \<or>
         bm_file_kind e \<noteq> MF_Regular \<or> bm_link_count e \<noteq> 1 \<or>
         (case previous of None \<Rightarrow> False | Some path \<Rightarrow> bm_relative_path e \<le> path)
      then Inl (Err_Rejected ''replication baseline manifest entry is invalid'')
      else try_r (ok_or (Err_Rejected ''replication baseline manifest is too large'') (checked_add total_bytes (bm_byte_length e))) (\<lambda>total.
           if 32 * 1024 * 1024 < total then Inl (Err_Rejected ''replication baseline manifest is too large'')
           else manifest_loop (Some (bm_relative_path e)) total es))"

definition validate_baseline_manifest :: "baseline_manifest_entry list \<Rightarrow> unit result" where
  "validate_baseline_manifest es =
     (if es = [] \<or> 4096 < length es then Inl (Err_Rejected ''replication baseline manifest size is invalid'')
      else manifest_loop None 0 es)"

definition json_manifest_payload :: "u8 \<Rightarrow> baseline_manifest_entry list \<Rightarrow> json" where
  "json_manifest_payload version es = JObj [(''version'', json_word version), (''state_slice'', JStr STATE_SLICE),
     (''entries'', json_list json_manifest_entry es)]"

definition baseline_manifest_digest_for_version :: "crypto \<Rightarrow> baseline_manifest_entry list \<Rightarrow> u8 \<Rightarrow> string result" where
  "baseline_manifest_digest_for_version env es version =
     (if version \<noteq> LEGACY_REPLICATION_VERSION \<and> version \<noteq> BROKER_IDENTITY_REPLICATION_VERSION \<and> version \<noteq> REPLICATION_VERSION
      then Inl (Err_Rejected ''unsupported replication version for baseline manifest'')
      else try_r (validate_baseline_manifest es) (\<lambda>_. Inr (digest env (json_manifest_payload version es))))"

definition baseline_manifest_digest :: "crypto \<Rightarrow> baseline_manifest_entry list \<Rightarrow> string result" where
  "baseline_manifest_digest env es = baseline_manifest_digest_for_version env es REPLICATION_VERSION"

section \<open>Host reports\<close>

definition report_expected_id :: "crypto \<Rightarrow> host_report \<Rightarrow> string" where
  "report_expected_id env r = digest env (report_identity_payload r)"

definition report_unsigned_bytes :: "crypto \<Rightarrow> host_report \<Rightarrow> u8 list" where
  "report_unsigned_bytes env r = canonical_bytes env (report_signing_payload r)"

definition state_is_consistent :: "string \<Rightarrow> scenario_result \<Rightarrow> bool" where
  "state_is_consistent baseline s = (case sx_recovery s of
     RC_AuthorizedChangeCommitted \<Rightarrow> sx_initial_checkout_digest s = baseline \<and> sx_final_checkout_digest s \<noteq> baseline
   | RC_NoMutation \<Rightarrow> sx_initial_checkout_digest s = baseline \<and> sx_final_checkout_digest s = sx_initial_checkout_digest s
   | RC_BaselineRestored \<Rightarrow> sx_initial_checkout_digest s = baseline \<and> sx_final_checkout_digest s = baseline
   | RC_ExternalChangePreservedAndFrozen \<Rightarrow> sx_initial_checkout_digest s = baseline \<and> sx_final_checkout_digest s \<noteq> baseline
   | RC_AlreadyAppliedPreserved \<Rightarrow> sx_initial_checkout_digest s \<noteq> baseline \<and> sx_final_checkout_digest s = sx_initial_checkout_digest s
   | RC_AlternateCheckoutPreserved \<Rightarrow> sx_initial_checkout_digest s \<noteq> baseline \<and> sx_final_checkout_digest s = sx_initial_checkout_digest s)"

fun scenario_loop :: "string \<Rightarrow> string bset \<Rightarrow> (scenario_result \<times> string) list \<Rightarrow> unit result" where
  "scenario_loop baseline seen [] = Inr ()"
| "scenario_loop baseline seen ((s, required) # ss) =
     (case expected_scenario required (sx_role s) of
        None \<Rightarrow> Inl (Err_Rejected ''maintenance scenario contract is invalid'')
      | Some (status, recovery_status, recovery) \<Rightarrow>
          if sx_scenario_id s \<noteq> required \<or> bs_contains seen (sx_scenario_id s) \<or> sx_status s \<noteq> status \<or>
             sx_recovery_status s \<noteq> recovery_status \<or> sx_recovery s \<noteq> recovery \<or> \<not> valid_digest (sx_initial_checkout_digest s) \<or>
             \<not> valid_digest (sx_final_checkout_digest s) \<or> \<not> valid_digest (sx_evidence_digest s)
          then Inl (Err_Rejected ''maintenance scenario result is invalid'')
          else if \<not> state_is_consistent baseline s then Inl (Err_Rejected ''maintenance scenario baseline result is inconsistent'')
          else scenario_loop baseline (bs_insert (sx_scenario_id s) seen) ss)"

definition report_shape_bad :: "crypto \<Rightarrow> ed25519 \<Rightarrow> host_report \<Rightarrow> bool" where
  "report_shape_bad env ed r \<longleftrightarrow>
     \<not> valid_broker_binding (hr_version r) (hr_maintenance_broker_executable_digest r) \<or>
     \<not> valid_runner_binding (hr_version r) (hr_replication_runner_executable_digest r) \<or> hr_state_slice r \<noteq> STATE_SLICE \<or>
     hr_operation r \<noteq> FIXED_OPERATION_IDENTITY \<or> hr_process_version r \<noteq> PROCESS_VERSION \<or>
     \<not> valid_revision (hr_implementation_revision r) \<or> \<not> valid_digest (hr_toolchain_digest r) \<or> \<not> valid_digest (hr_request_digest r) \<or>
     \<not> valid_digest (hr_checkout_baseline_digest r) \<or> \<not> valid_digest (hr_baseline_manifest_digest r) \<or>
     \<not> valid_digest (hr_evaluator_executable_digest r) \<or> hr_evaluator_input_digest r \<noteq> fixed_input_digest env \<or>
     hr_evaluator_tests_digest r \<noteq> fixed_tests_digest env \<or> hr_policy_digest r \<noteq> fixed_policy_digest env \<or>
     \<not> valid_public_key ed (hr_evaluator_public_key r) \<or> hr_evaluator_timeout_ms r = 0 \<or> 60000 < hr_evaluator_timeout_ms r \<or>
     hr_claim_ceiling r \<noteq> HOST_CLAIM_CEILING \<or> \<not> host_text (hr_host_id r) \<or> \<not> host_text (hr_operator_id r) \<or>
     hr_host_id r = hr_operator_id r \<or> \<not> valid_public_key ed (hr_host_public_key r) \<or> \<not> valid_public_key ed (hr_operator_public_key r) \<or>
     hr_host_public_key r = hr_operator_public_key r \<or> length (hr_scenarios r) \<noteq> length REQUIRED_SCENARIOS \<or>
     \<not> valid_digest (hr_report_id r) \<or> \<not> is_ok (report_decode_fixed 64 (hr_host_signature r)) \<or>
     \<not> is_ok (report_decode_fixed 64 (hr_operator_signature r))"

definition report_validate_shape :: "crypto \<Rightarrow> ed25519 \<Rightarrow> host_report \<Rightarrow> unit result" where
  "report_validate_shape env ed r =
     (if report_shape_bad env ed r then Inl (Err_Rejected ''maintenance host report shape is invalid'')
      else try_r (scenario_loop (hr_checkout_baseline_digest r) [] (zip (hr_scenarios r) REQUIRED_SCENARIOS)) (\<lambda>_.
      if hr_report_id r \<noteq> report_expected_id env r then Inl (Err_Rejected ''maintenance host report identity mismatch'') else Inr ()))"

definition verify_one_signature :: "crypto \<Rightarrow> ed25519 \<Rightarrow> host_report \<Rightarrow> string \<Rightarrow> string \<Rightarrow> unit result" where
  "verify_one_signature env ed r public_key signature =
     try_r (report_decode_fixed 32 public_key) (\<lambda>key.
     if \<not> ed_key_ok ed key then Inl (Err_Rejected ''maintenance host key is invalid'')
     else try_r (report_decode_fixed 64 signature) (\<lambda>sig.
     if \<not> ed_verify ed key (report_unsigned_bytes env r) sig then Inl (Err_Rejected ''maintenance host report signature is invalid'')
     else Inr ()))"

definition verify_signatures :: "crypto \<Rightarrow> ed25519 \<Rightarrow> host_report \<Rightarrow> unit result" where
  "verify_signatures env ed r =
     try_r (verify_one_signature env ed r (hr_host_public_key r) (hr_host_signature r)) (\<lambda>_.
     verify_one_signature env ed r (hr_operator_public_key r) (hr_operator_signature r))"

definition host_report_validate :: "crypto \<Rightarrow> ed25519 \<Rightarrow> host_report \<Rightarrow> unit result" where
  "host_report_validate env ed r = try_r (report_validate_shape env ed r) (\<lambda>_. verify_signatures env ed r)"

definition sign_with_seeds :: "crypto \<Rightarrow> ed25519 \<Rightarrow> host_report \<Rightarrow> u8 list \<Rightarrow> u8 list \<Rightarrow> unit result \<times> host_report" where
  "sign_with_seeds env ed r host_seed operator_seed =
     (let r1 = r\<lparr>hr_host_public_key := hex_encode (ed_public ed host_seed), hr_operator_public_key := hex_encode (ed_public ed operator_seed)\<rparr>;
          r2 = r1\<lparr>hr_report_id := report_expected_id env r1\<rparr>;
          unsigned = report_unsigned_bytes env r2;
          r3 = r2\<lparr>hr_host_signature := hex_encode (ed_sign ed host_seed unsigned),
                  hr_operator_signature := hex_encode (ed_sign ed operator_seed unsigned)\<rparr>
      in (host_report_validate env ed r3, r3))"

section \<open>Packets\<close>

definition packet_expected_id :: "crypto \<Rightarrow> host_packet \<Rightarrow> string" where
  "packet_expected_id env p = digest env (packet_identity_payload p)"

definition packet_shape_bad :: "crypto \<Rightarrow> ed25519 \<Rightarrow> host_packet \<Rightarrow> bool" where
  "packet_shape_bad env ed p \<longleftrightarrow>
     \<not> valid_broker_binding (hp_version p) (hp_maintenance_broker_executable_digest p) \<or> hp_state_slice p \<noteq> STATE_SLICE \<or>
     hp_operation p \<noteq> FIXED_OPERATION_IDENTITY \<or> hp_process_version p \<noteq> PROCESS_VERSION \<or>
     \<not> valid_revision (hp_implementation_revision p) \<or> \<not> valid_digest (hp_toolchain_digest p) \<or> \<not> valid_digest (hp_request_digest p) \<or>
     \<not> valid_digest (hp_checkout_baseline_digest p) \<or> \<not> valid_digest (hp_baseline_manifest_digest p) \<or>
     \<not> valid_digest (hp_evaluator_executable_digest p) \<or> hp_evaluator_input_digest p \<noteq> fixed_input_digest env \<or>
     hp_evaluator_tests_digest p \<noteq> fixed_tests_digest env \<or> hp_policy_digest p \<noteq> fixed_policy_digest env \<or>
     \<not> valid_public_key ed (hp_evaluator_public_key p) \<or> hp_evaluator_timeout_ms p = 0 \<or> 60000 < hp_evaluator_timeout_ms p \<or>
     hp_claim_ceiling p \<noteq> HOST_CLAIM_CEILING \<or> length (hp_reports p) \<noteq> 2 \<or> \<not> valid_digest (hp_packet_id p) \<or>
     hr_host_id (hp_reports p ! 1) \<le> hr_host_id (hp_reports p ! 0)"

definition report_differs :: "host_packet \<Rightarrow> host_report \<Rightarrow> bool" where
  "report_differs p r \<longleftrightarrow>
     hr_state_slice r \<noteq> hp_state_slice p \<or> hr_version r \<noteq> hp_version p \<or> hr_operation r \<noteq> hp_operation p \<or>
     hr_process_version r \<noteq> hp_process_version p \<or> hr_implementation_revision r \<noteq> hp_implementation_revision p \<or>
     hr_toolchain_digest r \<noteq> hp_toolchain_digest p \<or> hr_request_digest r \<noteq> hp_request_digest p \<or>
     hr_checkout_baseline_digest r \<noteq> hp_checkout_baseline_digest p \<or> hr_baseline_manifest_digest r \<noteq> hp_baseline_manifest_digest p \<or>
     hr_evaluator_executable_digest r \<noteq> hp_evaluator_executable_digest p \<or>
     hr_maintenance_broker_executable_digest r \<noteq> hp_maintenance_broker_executable_digest p \<or>
     hr_evaluator_input_digest r \<noteq> hp_evaluator_input_digest p \<or> hr_evaluator_tests_digest r \<noteq> hp_evaluator_tests_digest p \<or>
     hr_policy_digest r \<noteq> hp_policy_digest p \<or> hr_evaluator_public_key r \<noteq> hp_evaluator_public_key p \<or>
     hr_evaluator_timeout_ms r \<noteq> hp_evaluator_timeout_ms p \<or> hr_claim_ceiling r \<noteq> hp_claim_ceiling p"

fun reports_loop ::
  "crypto \<Rightarrow> ed25519 \<Rightarrow> host_packet \<Rightarrow> string bset \<Rightarrow> string bset \<Rightarrow> string bset \<Rightarrow> string bset \<Rightarrow> host_report list \<Rightarrow> unit result" where
  "reports_loop env ed p hosts operators keys ids [] = Inr ()"
| "reports_loop env ed p hosts operators keys ids (r # rs) =
     try_r (host_report_validate env ed r) (\<lambda>_.
     if report_differs p r \<or> bs_contains hosts (hr_host_id r) \<or> bs_contains operators (hr_operator_id r) \<or>
        bs_contains keys (hr_host_public_key r) \<or> bs_contains (bs_insert (hr_host_public_key r) keys) (hr_operator_public_key r) \<or>
        bs_contains ids (hr_report_id r)
     then Inl (Err_Rejected ''maintenance replication reports are not independent'')
     else reports_loop env ed p (bs_insert (hr_host_id r) hosts) (bs_insert (hr_operator_id r) operators)
            (bs_insert (hr_operator_public_key r) (bs_insert (hr_host_public_key r) keys)) (bs_insert (hr_report_id r) ids) rs)"

definition role_count :: "host_packet \<Rightarrow> scenario_role \<Rightarrow> nat" where
  "role_count p role =
     length (filter (\<lambda>r. report_scenario_role r ''cross-state-directory-lock-contention'' = Some role) (hp_reports p))"

definition host_packet_validate :: "crypto \<Rightarrow> ed25519 \<Rightarrow> host_packet \<Rightarrow> unit result" where
  "host_packet_validate env ed p =
     (if packet_shape_bad env ed p then Inl (Err_Rejected ''maintenance replication packet shape is invalid'')
      else try_r (validate_request_binding env (hp_request p)) (\<lambda>_.
      if digest env (json_process_request (hp_request p)) \<noteq> hp_request_digest p \<or>
         pq_checkout_baseline_digest (hp_request p) \<noteq> hp_checkout_baseline_digest p
      then Inl (Err_Rejected ''maintenance replication bundle digest mismatch'')
      else try_r (baseline_manifest_digest_for_version env (hp_baseline_manifest p) (hp_version p)) (\<lambda>d.
      if d \<noteq> hp_baseline_manifest_digest p then Inl (Err_Rejected ''maintenance replication bundle digest mismatch'')
      else try_r (validate_baseline_manifest (hp_baseline_manifest p)) (\<lambda>_.
      try_r (reports_loop env ed p [] [] [] [] (hp_reports p)) (\<lambda>_.
      if role_count p SR_Winner \<noteq> 1 \<or> role_count p SR_Contender \<noteq> 1
      then Inl (Err_Rejected ''maintenance lock contention must have one winner and one contender'')
      else if hp_packet_id p \<noteq> packet_expected_id env p
      then Inl (Err_Rejected ''maintenance replication packet identity mismatch'') else Inr ())))))"

text \<open>The packet that \<open>from_bundle\<close> assembles, before it has an identity.\<close>

definition bundle_packet :: "crypto \<Rightarrow> process_request \<Rightarrow> baseline_manifest_entry list \<Rightarrow> string \<Rightarrow> host_report list \<Rightarrow> host_packet" where
  "bundle_packet env q manifest md ordered =
     (let first = ordered ! 0 in
      \<lparr>hp_version = hr_version first, hp_state_slice = STATE_SLICE, hp_operation = FIXED_OPERATION_IDENTITY,
       hp_process_version = PROCESS_VERSION, hp_implementation_revision = hr_implementation_revision first,
       hp_toolchain_digest = hr_toolchain_digest first, hp_request_digest = digest env (json_process_request q),
       hp_checkout_baseline_digest = pq_checkout_baseline_digest q, hp_baseline_manifest_digest = md,
       hp_request = q, hp_baseline_manifest = manifest, hp_evaluator_executable_digest = hr_evaluator_executable_digest first,
       hp_maintenance_broker_executable_digest = hr_maintenance_broker_executable_digest first,
       hp_evaluator_input_digest = hr_evaluator_input_digest first, hp_evaluator_tests_digest = hr_evaluator_tests_digest first,
       hp_policy_digest = hr_policy_digest first, hp_evaluator_public_key = hr_evaluator_public_key first,
       hp_evaluator_timeout_ms = hr_evaluator_timeout_ms first, hp_claim_ceiling = hr_claim_ceiling first,
       hp_reports = ordered, hp_packet_id = ''''\<rparr>)"

definition from_bundle :: "crypto \<Rightarrow> ed25519 \<Rightarrow> process_request \<Rightarrow> baseline_manifest_entry list \<Rightarrow> host_report list \<Rightarrow> host_packet result" where
  "from_bundle env ed q manifest reports =
     (if length reports \<noteq> 2 then Inl (Err_Rejected ''maintenance replication requires exactly two host reports'')
      else try_r (check_all (host_report_validate env ed) reports) (\<lambda>_.
      try_r (validate_request_binding env q) (\<lambda>_.
      try_r (validate_baseline_manifest manifest) (\<lambda>_.
      let ordered = sort_key hr_host_id reports in
      try_r (baseline_manifest_digest_for_version env manifest (hr_version (ordered ! 0))) (\<lambda>md.
      let p = bundle_packet env q manifest md ordered;
          p' = p\<lparr>hp_packet_id := packet_expected_id env p\<rparr>
      in try_r (host_packet_validate env ed p') (\<lambda>_. Inr p'))))))"

definition host_packet_bytes :: "crypto \<Rightarrow> ed25519 \<Rightarrow> host_packet \<Rightarrow> u8 list result" where
  "host_packet_bytes env ed p = try_r (host_packet_validate env ed p) (\<lambda>_. Inr (canonical_bytes env (json_host_packet p)))"

definition from_canonical_bytes :: "crypto \<Rightarrow> ed25519 \<Rightarrow> (u8 list \<Rightarrow> host_packet result) \<Rightarrow> u8 list \<Rightarrow> host_packet result" where
  "from_canonical_bytes env ed de bytes =
     try_r (de bytes) (\<lambda>p.
     if canonical_bytes env (json_host_packet p) \<noteq> bytes
     then Inl (Err_Rejected ''maintenance replication bytes are not canonical JSON'')
     else try_r (host_packet_validate env ed p) (\<lambda>_. Inr p))"

section \<open>What the checks establish\<close>

definition scenario_ok :: "string \<Rightarrow> scenario_result \<Rightarrow> string \<Rightarrow> bool" where
  "scenario_ok baseline s required \<longleftrightarrow> sx_scenario_id s = required \<and>
     expected_scenario required (sx_role s) = Some (sx_status s, sx_recovery_status s, sx_recovery s) \<and>
     valid_digest (sx_initial_checkout_digest s) \<and> valid_digest (sx_final_checkout_digest s) \<and> valid_digest (sx_evidence_digest s) \<and>
     state_is_consistent baseline s"

lemma scenario_loop_step:
  "scenario_loop baseline seen ((s, i) # zs) = Inr () \<longleftrightarrow> scenario_ok baseline s i \<and> \<not> bs_contains seen i \<and>
     scenario_loop baseline (bs_insert i seen) zs = Inr ()"
  by (auto simp: scenario_ok_def split: option.splits if_splits)

lemma scenario_loop_ok:
  assumes "distinct (map snd zs)" and "set (map snd zs) \<inter> set seen = {}"
  shows "scenario_loop baseline seen zs = Inr () \<longleftrightarrow> (\<forall>(s, i)\<in>set zs. scenario_ok baseline s i)"
  using assms
proof (induction zs arbitrary: seen)
  case (Cons z zs)
  obtain s i where z: "z = (s, i)" by (cases z)
  have "scenario_loop baseline (bs_insert i seen) zs = Inr () \<longleftrightarrow> (\<forall>(s, i)\<in>set zs. scenario_ok baseline s i)"
    using Cons.prems z by (intro Cons.IH) (auto simp: set_bs_insert)
  moreover have "\<not> bs_contains seen i" using Cons.prems z by (simp add: bs_contains_def)
  ultimately show ?case unfolding z scenario_loop_step by auto
qed simp

lemma scenarios_distinct: "distinct REQUIRED_SCENARIOS"
  by (simp add: REQUIRED_SCENARIOS_def)

lemma zip_ok:
  "length ss = length is \<Longrightarrow> (\<forall>(s, i)\<in>set (zip ss is). scenario_ok b s i) \<longleftrightarrow>
     map sx_scenario_id ss = is \<and> (\<forall>s\<in>set ss. scenario_ok b s (sx_scenario_id s))"
proof (induction ss "is" rule: list_induct2)
  case (Cons s ss i "is")
  then show ?case by (auto simp: scenario_ok_def)
qed simp

lemma shape_ok:
  "report_validate_shape env ed r = Inr () \<longleftrightarrow> \<not> report_shape_bad env ed r \<and> map sx_scenario_id (hr_scenarios r) = REQUIRED_SCENARIOS \<and>
     (\<forall>s\<in>set (hr_scenarios r). scenario_ok (hr_checkout_baseline_digest r) s (sx_scenario_id s)) \<and>
     hr_report_id r = report_expected_id env r"
proof (cases "report_shape_bad env ed r")
  case False
  then have len: "length (hr_scenarios r) = length REQUIRED_SCENARIOS" by (simp add: report_shape_bad_def)
  have "map snd (zip (hr_scenarios r) REQUIRED_SCENARIOS) = REQUIRED_SCENARIOS" using len by simp
  then have "scenario_loop (hr_checkout_baseline_digest r) [] (zip (hr_scenarios r) REQUIRED_SCENARIOS) = Inr () \<longleftrightarrow>
      (\<forall>(s, i)\<in>set (zip (hr_scenarios r) REQUIRED_SCENARIOS). scenario_ok (hr_checkout_baseline_digest r) s i)"
    using scenarios_distinct by (intro scenario_loop_ok) simp_all
  then show ?thesis using False zip_ok [OF len] by (simp add: report_validate_shape_def try_r_eq_Inr guard_ok)
qed (simp add: report_validate_shape_def)

definition signed_by :: "crypto \<Rightarrow> ed25519 \<Rightarrow> host_report \<Rightarrow> string \<Rightarrow> string \<Rightarrow> bool" where
  "signed_by env ed r public_key signature \<longleftrightarrow>
     (\<exists>key sig. report_decode_fixed 32 public_key = Inr key \<and> report_decode_fixed 64 signature = Inr sig \<and> ed_key_ok ed key \<and>
        ed_verify ed key (report_unsigned_bytes env r) sig)"

lemma signature_ok: "verify_one_signature env ed r k s = Inr () \<longleftrightarrow> signed_by env ed r k s"
  by (auto simp: verify_one_signature_def signed_by_def try_r_eq_Inr guard_ok)

lemma report_ok:
  "host_report_validate env ed r = Inr () \<longleftrightarrow> report_validate_shape env ed r = Inr () \<and>
     signed_by env ed r (hr_host_public_key r) (hr_host_signature r) \<and> signed_by env ed r (hr_operator_public_key r) (hr_operator_signature r)"
  by (simp add: host_report_validate_def verify_signatures_def try_r_eq_Inr signature_ok)

lemma reports_loop_pair:
  "reports_loop env ed p [] [] [] [] [a, b] = Inr () \<longleftrightarrow>
     host_report_validate env ed a = Inr () \<and> host_report_validate env ed b = Inr () \<and> \<not> report_differs p a \<and> \<not> report_differs p b \<and>
     hr_host_id a \<noteq> hr_host_id b \<and> hr_operator_id a \<noteq> hr_operator_id b \<and> hr_report_id a \<noteq> hr_report_id b \<and>
     distinct [hr_host_public_key a, hr_operator_public_key a, hr_host_public_key b, hr_operator_public_key b]"
  by (auto simp: try_r_eq_Inr bs_contains_def set_bs_insert)

lemma manifest_digest_ok:
  "baseline_manifest_digest_for_version env es v = Inr d \<longleftrightarrow>
     (v = LEGACY_REPLICATION_VERSION \<or> v = BROKER_IDENTITY_REPLICATION_VERSION \<or> v = REPLICATION_VERSION) \<and>
     validate_baseline_manifest es = Inr () \<and> d = digest env (json_manifest_payload v es)"
  by (auto simp: baseline_manifest_digest_for_version_def try_r_eq_Inr)

lemma broker_binding_version:
  "valid_broker_binding v d \<Longrightarrow> v = LEGACY_REPLICATION_VERSION \<or> v = BROKER_IDENTITY_REPLICATION_VERSION \<or> v = REPLICATION_VERSION"
  by (auto simp: valid_broker_binding_def split: if_splits)

definition packet_core :: "crypto \<Rightarrow> ed25519 \<Rightarrow> host_packet \<Rightarrow> bool" where
  "packet_core env ed p \<longleftrightarrow> \<not> packet_shape_bad env ed p \<and> validate_request_binding env (hp_request p) = Inr () \<and>
     hp_request_digest p = digest env (json_process_request (hp_request p)) \<and>
     hp_checkout_baseline_digest p = pq_checkout_baseline_digest (hp_request p) \<and>
     hp_baseline_manifest_digest p = digest env (json_manifest_payload (hp_version p) (hp_baseline_manifest p)) \<and>
     validate_baseline_manifest (hp_baseline_manifest p) = Inr () \<and> role_count p SR_Winner = 1 \<and> role_count p SR_Contender = 1 \<and>
     hp_packet_id p = packet_expected_id env p"

lemma packet_ok:
  "host_packet_validate env ed p = Inr () \<longleftrightarrow> packet_core env ed p \<and> reports_loop env ed p [] [] [] [] (hp_reports p) = Inr ()"
proof (cases "packet_shape_bad env ed p")
  case False
  then have "hp_version p = LEGACY_REPLICATION_VERSION \<or> hp_version p = BROKER_IDENTITY_REPLICATION_VERSION \<or> hp_version p = REPLICATION_VERSION"
    by (auto simp: packet_shape_bad_def dest: broker_binding_version)
  then show ?thesis using False unfolding host_packet_validate_def packet_core_def try_r_eq_Inr guard_ok manifest_digest_ok by auto
qed (simp add: host_packet_validate_def packet_core_def)

lemma packet_pair:
  assumes "packet_core env ed p"
  obtains a b where "hp_reports p = [a, b]" "hr_host_id a < hr_host_id b"
proof -
  have "length (hp_reports p) = 2" "\<not> hr_host_id (hp_reports p ! 1) \<le> hr_host_id (hp_reports p ! 0)"
    using assms by (simp_all add: packet_core_def packet_shape_bad_def)
  then show thesis using that by (cases "hp_reports p" rule: remdups_adj.cases) (auto simp: not_le)
qed

lemma packet_id_free: "packet_expected_id env (p\<lparr>hp_packet_id := i\<rparr>) = packet_expected_id env p"
  by (simp add: packet_expected_id_def packet_identity_payload_def packet_head_fields_def packet_evaluator_fields_def)

lemma bundle_rebuilds:
  assumes "packet_core env ed p" and "\<not> report_differs p a" and "hp_reports p = [a, b]"
  shows "(bundle_packet env (hp_request p) (hp_baseline_manifest p) (hp_baseline_manifest_digest p) [a, b])
     \<lparr>hp_packet_id := packet_expected_id env (bundle_packet env (hp_request p) (hp_baseline_manifest p) (hp_baseline_manifest_digest p) [a, b])\<rparr> = p"
proof -
  have "bundle_packet env (hp_request p) (hp_baseline_manifest p) (hp_baseline_manifest_digest p) [a, b] = p\<lparr>hp_packet_id := ''''\<rparr>"
    using assms by (cases p) (simp add: bundle_packet_def report_differs_def packet_core_def packet_shape_bad_def)
  then show ?thesis using assms(1) by (simp add: packet_id_free packet_core_def)
qed

lemma sort_pair:
  assumes "mset rs = {#a, b#}" and "hr_host_id a < hr_host_id b"
  shows "sort_key hr_host_id rs = [a, b]"
proof -
  have "rs = [a, b] \<or> rs = [b, a]"
    using assms(1) by (cases rs rule: remdups_adj.cases) (auto simp: add_eq_conv_ex)
  then show ?thesis using assms(2) by auto
qed

lemma role_counts:
  assumes "role_count p SR_Winner = 1" and "role_count p SR_Contender = 1" and "hp_reports p = [a, b]"
  shows "{report_scenario_role a ''cross-state-directory-lock-contention'', report_scenario_role b ''cross-state-directory-lock-contention''} =
    {Some SR_Winner, Some SR_Contender}"
  using assms by (auto simp: role_count_def split: if_splits)

lemma optional_field_inject:
  "optional_field n x = optional_field n y \<longleftrightarrow> x = y"
  by (cases x; cases y) (simp_all add: optional_field_def)

lemma packet_identity_inject:
  assumes "packet_identity_payload p = packet_identity_payload p'"
  shows "hp_request_digest p = hp_request_digest p' \<and> hp_version p = hp_version p' \<and>
    hp_baseline_manifest_digest p = hp_baseline_manifest_digest p' \<and> map hr_report_id (hp_reports p) = map hr_report_id (hp_reports p')"
  using assms
  by (cases "hp_maintenance_broker_executable_digest p"; cases "hp_maintenance_broker_executable_digest p'")
    (simp_all add: packet_identity_payload_def packet_head_fields_def packet_evaluator_fields_def optional_field_def)

interpretation canon_manifest_entry: canonical json_manifest_entry
proof
  fix x y assume "json_manifest_entry x = json_manifest_entry y"
  then show "x = y" by (cases "bm_file_kind x"; cases "bm_file_kind y") (simp add: json_manifest_entry_def baseline_manifest_entry.equality)
qed

lemma manifest_payload_inject: "json_manifest_payload v es = json_manifest_payload v' es' \<longleftrightarrow> v = v' \<and> es = es'"
  by (simp add: json_manifest_payload_def json_list_inject [OF canon_manifest_entry.inj_enc])

section \<open>Properties\<close>

text \<open>
  C22.  What a valid packet shows.  It holds exactly two reports, of two hosts in ascending order, by two operators, under four different key texts and with different
  identities.  Each report is signed by both its keys, names this request, this checkout baseline and this manifest by digest,
  agrees with the other on revision, toolchain and evaluator, and lists the twenty scenarios in order, each with the status and recovery the table demands and checkout
  digests that fit.  In the lock contention one report is the winner and the other the contender, and the requested bytes are the normalization of the bytes before.
\<close>

theorem host_packet_binds:
  assumes "host_packet_validate env ed p = Inr ()"
  shows "\<exists>a b. hp_reports p = [a, b] \<and> hr_host_id a < hr_host_id b \<and> hr_operator_id a \<noteq> hr_operator_id b \<and> hr_report_id a \<noteq> hr_report_id b \<and>
    distinct [hr_host_public_key a, hr_operator_public_key a, hr_host_public_key b, hr_operator_public_key b] \<and>
    {report_scenario_role a ''cross-state-directory-lock-contention'', report_scenario_role b ''cross-state-directory-lock-contention''} =
      {Some SR_Winner, Some SR_Contender} \<and>
    (\<forall>r\<in>{a, b}. signed_by env ed r (hr_host_public_key r) (hr_host_signature r) \<and>
       signed_by env ed r (hr_operator_public_key r) (hr_operator_signature r) \<and>
       hr_request_digest r = digest env (json_process_request (hp_request p)) \<and>
       hr_checkout_baseline_digest r = pq_checkout_baseline_digest (hp_request p) \<and>
       hr_baseline_manifest_digest r = digest env (json_manifest_payload (hp_version p) (hp_baseline_manifest p)) \<and>
       hr_implementation_revision r = hp_implementation_revision p \<and> hr_toolchain_digest r = hp_toolchain_digest p \<and>
       hr_evaluator_public_key r = hp_evaluator_public_key p \<and>
       map sx_scenario_id (hr_scenarios r) = REQUIRED_SCENARIOS \<and>
       (\<forall>s\<in>set (hr_scenarios r). expected_scenario (sx_scenario_id s) (sx_role s) = Some (sx_status s, sx_recovery_status s, sx_recovery s) \<and>
          state_is_consistent (hr_checkout_baseline_digest r) s)) \<and>
    pq_after_bytes (hp_request p) = trim_text (pq_before_bytes (hp_request p))"
proof -
  have core: "packet_core env ed p" and loop: "reports_loop env ed p [] [] [] [] (hp_reports p) = Inr ()"
    using assms by (simp_all add: packet_ok)
  from core obtain a b where ab: "hp_reports p = [a, b]" "hr_host_id a < hr_host_id b" by (rule packet_pair)
  note l = loop [unfolded ab(1) reports_loop_pair]
  have c: "hp_request_digest p = digest env (json_process_request (hp_request p))"
    "hp_checkout_baseline_digest p = pq_checkout_baseline_digest (hp_request p)"
    "hp_baseline_manifest_digest p = digest env (json_manifest_payload (hp_version p) (hp_baseline_manifest p))"
    "pq_after_bytes (hp_request p) = trim_text (pq_before_bytes (hp_request p))"
    using core by (auto simp: packet_core_def validate_request_binding_def normalize_reference split: if_splits)
  have each: "signed_by env ed r (hr_host_public_key r) (hr_host_signature r) \<and>
       signed_by env ed r (hr_operator_public_key r) (hr_operator_signature r) \<and>
       hr_request_digest r = digest env (json_process_request (hp_request p)) \<and>
       hr_checkout_baseline_digest r = pq_checkout_baseline_digest (hp_request p) \<and>
       hr_baseline_manifest_digest r = digest env (json_manifest_payload (hp_version p) (hp_baseline_manifest p)) \<and>
       hr_implementation_revision r = hp_implementation_revision p \<and> hr_toolchain_digest r = hp_toolchain_digest p \<and>
       hr_evaluator_public_key r = hp_evaluator_public_key p \<and>
       map sx_scenario_id (hr_scenarios r) = REQUIRED_SCENARIOS \<and>
       (\<forall>s\<in>set (hr_scenarios r). expected_scenario (sx_scenario_id s) (sx_role s) = Some (sx_status s, sx_recovery_status s, sx_recovery s) \<and>
          state_is_consistent (hr_checkout_baseline_digest r) s)"
    if "host_report_validate env ed r = Inr ()" and "\<not> report_differs p r" for r
    using that c(1-3) by (simp add: report_ok shape_ok scenario_ok_def report_differs_def)
  have roles: "{report_scenario_role a ''cross-state-directory-lock-contention'', report_scenario_role b ''cross-state-directory-lock-contention''} =
      {Some SR_Winner, Some SR_Contender}"
    using core ab(1) by (intro role_counts) (simp_all add: packet_core_def)
  have "\<forall>r\<in>{a, b}. host_report_validate env ed r = Inr () \<and> \<not> report_differs p r" using l by simp
  then show ?thesis using ab l roles c(4) each by (intro exI conjI ballI) (simp_all, blast+)
qed

text \<open>
  C38.  \<open>from_bundle\<close> builds exactly the valid packets.  It answers a packet if and only if the packet is valid and consists of the given request, the given
  manifest and the given reports in some order; in particular the order of the reports does not matter, and every valid packet is rebuilt from its parts.
\<close>

theorem from_bundle_exact:
  "from_bundle env ed q m rs = Inr p \<longleftrightarrow>
     host_packet_validate env ed p = Inr () \<and> hp_request p = q \<and> hp_baseline_manifest p = m \<and> mset (hp_reports p) = mset rs"
proof
  assume "from_bundle env ed q m rs = Inr p"
  then obtain d where "host_packet_validate env ed p = Inr ()"
    and p: "p = (bundle_packet env q m d (sort_key hr_host_id rs))
      \<lparr>hp_packet_id := packet_expected_id env (bundle_packet env q m d (sort_key hr_host_id rs))\<rparr>"
    unfolding from_bundle_def Let_def try_r_eq_Inr guard_ok by auto
  then show "host_packet_validate env ed p = Inr () \<and> hp_request p = q \<and> hp_baseline_manifest p = m \<and> mset (hp_reports p) = mset rs"
    unfolding p by (simp add: bundle_packet_def Let_def)
next
  assume v: "host_packet_validate env ed p = Inr () \<and> hp_request p = q \<and> hp_baseline_manifest p = m \<and> mset (hp_reports p) = mset rs"
  then have core: "packet_core env ed p" and loop: "reports_loop env ed p [] [] [] [] (hp_reports p) = Inr ()"
    by (simp_all add: packet_ok)
  from core obtain a b where ab: "hp_reports p = [a, b]" "hr_host_id a < hr_host_id b" by (rule packet_pair)
  have r: "host_report_validate env ed a = Inr ()" "host_report_validate env ed b = Inr ()" "\<not> report_differs p a"
    using loop unfolding ab(1) reports_loop_pair by simp_all
  have m: "mset rs = {#a, b#}" using v ab(1) by simp
  have "set rs = {a, b}" "length rs = 2" using m by (metis set_mset_mset set_mset_add_mset_insert set_mset_empty) (metis m size_mset size_add_mset size_empty numeral_2_eq_2)
  then have all: "check_all (host_report_validate env ed) rs = Inr ()" using r by (simp add: check_all_ok)
  note sorted = sort_pair [OF m ab(2)]
  have c: "validate_request_binding env q = Inr ()" "validate_baseline_manifest m = Inr ()"
    "hp_baseline_manifest_digest p = digest env (json_manifest_payload (hp_version p) m)"
    and ver: "hp_version p = LEGACY_REPLICATION_VERSION \<or> hp_version p = BROKER_IDENTITY_REPLICATION_VERSION \<or> hp_version p = REPLICATION_VERSION"
    using core v by (auto simp: packet_core_def packet_shape_bad_def dest: broker_binding_version)
  have "hr_version a = hp_version p" using r(3) by (simp add: report_differs_def)
  then have d: "baseline_manifest_digest_for_version env m (hr_version a) = Inr (hp_baseline_manifest_digest p)"
    using c ver by (simp add: manifest_digest_ok)
  show "from_bundle env ed q m rs = Inr p"
    unfolding from_bundle_def sorted using v \<open>length rs = 2\<close> all c d bundle_rebuilds [OF core r(3) ab(1)] by (simp add: Let_def)
qed

text \<open>
  Canonical bytes.  Bytes are accepted as a packet exactly if they are the bytes the packet itself encodes to, provided \<open>serde_json\<close> reads back what it
  wrote for this packet; so a valid packet survives the wire and has one representation.
\<close>

theorem host_packet_round_trip:
  assumes "de (canonical_bytes env (json_host_packet p)) = Inr p"
  shows "from_canonical_bytes env ed de bytes = Inr p \<longleftrightarrow> host_packet_bytes env ed p = Inr bytes"
  using assms unfolding from_canonical_bytes_def host_packet_bytes_def try_r_eq_Inr guard_ok by auto

text \<open>
  The packet identity.  Two valid packets with one packet id have the same request, the same manifest and reports with the same content (up to their signatures), or
  one of the named pairs of records is a SHA-256 collision.
\<close>

theorem packet_id_binds:
  assumes "host_packet_validate env ed p = Inr ()" and "host_packet_validate env ed' p' = Inr ()" and "hp_packet_id p = hp_packet_id p'"
  shows "(hp_request p = hp_request p' \<and> hp_baseline_manifest p = hp_baseline_manifest p' \<and>
      map report_identity_payload (hp_reports p) = map report_identity_payload (hp_reports p')) \<or>
    collision env (packet_identity_payload p) (packet_identity_payload p') \<or>
    collision env (json_process_request (hp_request p)) (json_process_request (hp_request p')) \<or>
    collision env (json_manifest_payload (hp_version p) (hp_baseline_manifest p)) (json_manifest_payload (hp_version p') (hp_baseline_manifest p')) \<or>
    (\<exists>i<2. collision env (report_identity_payload (hp_reports p ! i)) (report_identity_payload (hp_reports p' ! i)))"
proof -
  have facts: "packet_core env e x \<and> (\<exists>a b. hp_reports x = [a, b] \<and> hr_report_id a = digest env (report_identity_payload a) \<and>
      hr_report_id b = digest env (report_identity_payload b))" if v: "host_packet_validate env e x = Inr ()" for e x
  proof -
    have core: "packet_core env e x" and loop: "reports_loop env e x [] [] [] [] (hp_reports x) = Inr ()" using v by (simp_all add: packet_ok)
    from core obtain a b where ab: "hp_reports x = [a, b]" "hr_host_id a < hr_host_id b" by (rule packet_pair)
    show ?thesis using core ab(1) loop [unfolded ab(1) reports_loop_pair] by (simp add: report_ok shape_ok report_expected_id_def)
  qed
  obtain a b where p: "packet_core env ed p" "hp_reports p = [a, b]" "hr_report_id a = digest env (report_identity_payload a)"
      "hr_report_id b = digest env (report_identity_payload b)" using facts [OF assms(1)] by blast
  obtain a' b' where p': "packet_core env ed' p'" "hp_reports p' = [a', b']" "hr_report_id a' = digest env (report_identity_payload a')"
      "hr_report_id b' = digest env (report_identity_payload b')" using facts [OF assms(2)] by blast
  have ids: "digest env (packet_identity_payload p) = digest env (packet_identity_payload p')"
    using p(1) p'(1) assms(3) by (simp add: packet_core_def packet_expected_id_def)
  show ?thesis
  proof (cases "packet_identity_payload p = packet_identity_payload p'")
    case True
    note same = packet_identity_inject [OF True]
    have d: "digest env (json_process_request (hp_request p)) = digest env (json_process_request (hp_request p'))"
      "digest env (json_manifest_payload (hp_version p) (hp_baseline_manifest p)) = digest env (json_manifest_payload (hp_version p') (hp_baseline_manifest p'))"
      using same p(1) p'(1) by (simp_all add: packet_core_def)
    have r: "digest env (report_identity_payload a) = digest env (report_identity_payload a')"
      "digest env (report_identity_payload b) = digest env (report_identity_payload b')"
      using same p(2-4) p'(2-4) by simp_all
    have i: "(\<exists>i<2. collision env (report_identity_payload (hp_reports p ! i)) (report_identity_payload (hp_reports p' ! i))) \<longleftrightarrow>
        collision env (report_identity_payload a) (report_identity_payload a') \<or> collision env (report_identity_payload b) (report_identity_payload b')"
      by (auto simp: p(2) p'(2) less_2_cases_iff)
    show ?thesis unfolding i
      using digest_eq_cases [OF d(1)] digest_eq_cases [OF d(2)] digest_eq_cases [OF r(1)] digest_eq_cases [OF r(2)] p(2) p'(2)
      by (auto simp: manifest_payload_inject canon_process_request.enc_eq)
  qed (use digest_eq_cases [OF ids] in blast)
qed

text \<open>The capital of a hexadecimal letter, which the decoder reads like the small one.\<close>

definition hex_upper :: "char \<Rightarrow> char" where
  "hex_upper c = (if 97 \<le> (of_char c :: nat) \<and> (of_char c :: nat) \<le> 102 then char_of (of_char c - 32 :: nat) else c)"

lemma to_digit_upper: "to_digit (hex_upper c) = to_digit c"
proof -
  have "(of_char (char_of (of_char c - 32 :: nat)) :: nat) = of_char c - 32" if "97 \<le> (of_char c :: nat)" "(of_char c :: nat) \<le> 102"
    using that by simp
  then show ?thesis by (auto simp: hex_upper_def to_digit_def Let_def)
qed

lemma decode_upper: "decode_hex lm dm n (map hex_upper s) = decode_hex lm dm n s"
proof -
  have "decode_pairs (map hex_upper s) = decode_pairs s"
    by (induction s rule: decode_pairs.induct) (simp_all add: to_digit_upper)
  moreover have "list_all is_ascii_hexdigit (map hex_upper s) = list_all is_ascii_hexdigit s"
    by (simp add: list_all_iff hexdigit_value to_digit_upper)
  ultimately show ?thesis by (simp add: decode_hex_def)
qed

lemma hex_encode_inject: "hex_encode a = hex_encode b \<longleftrightarrow> a = b"
  using decode_pairs_encode by (metis option.inject)

text \<open>A report with other keys and signatures, under its new identity.\<close>

definition resigned :: "crypto \<Rightarrow> host_report \<Rightarrow> string \<Rightarrow> string \<Rightarrow> (u8 list \<Rightarrow> string) \<Rightarrow> (u8 list \<Rightarrow> string) \<Rightarrow> host_report" where
  "resigned env r hk ok hs os =
     (let r1 = r\<lparr>hr_host_public_key := hk, hr_operator_public_key := ok\<rparr>; r2 = r1\<lparr>hr_report_id := report_expected_id env r1\<rparr>;
          unsigned = report_unsigned_bytes env r2
      in r2\<lparr>hr_host_signature := hs unsigned, hr_operator_signature := os unsigned\<rparr>)"

lemma sign_is_resigned:
  "sign_with_seeds env ed r a b = (let r' = resigned env r (hex_encode (ed_public ed a)) (hex_encode (ed_public ed b))
      (\<lambda>u. hex_encode (ed_sign ed a u)) (\<lambda>u. hex_encode (ed_sign ed b u)) in (host_report_validate env ed r', r'))"
  by (simp add: sign_with_seeds_def resigned_def Let_def)

lemma identity_fields_signatures:
  "report_identity_fields (r\<lparr>hr_report_id := i\<rparr>) = report_identity_fields r"
  "report_identity_fields (r\<lparr>hr_host_signature := s\<rparr>) = report_identity_fields r"
  "report_identity_fields (r\<lparr>hr_operator_signature := s\<rparr>) = report_identity_fields r"
  by (simp_all add: report_identity_fields_def)

lemma resigned_shape:
  assumes "sha256_len env" and "report_validate_shape env ed r = Inr ()" and "valid_public_key ed hk" and "valid_public_key ed ok"
    and "\<And>u. is_ok (report_decode_fixed 64 (hs u))" and "\<And>u. is_ok (report_decode_fixed 64 (os u))"
  shows "report_validate_shape env ed (resigned env r hk ok hs os) = Inr () \<longleftrightarrow> hk \<noteq> ok"
proof -
  have "\<not> report_shape_bad env ed r" using assms(2) by (simp add: shape_ok)
  then have "report_shape_bad env ed (resigned env r hk ok hs os) \<longleftrightarrow> hk = ok"
    using assms(1,3-6) unfolding report_shape_bad_def de_Morgan_disj not_not by (simp add: resigned_def Let_def report_expected_id_def)
  then show ?thesis using assms(2)
    by (simp add: shape_ok resigned_def Let_def report_expected_id_def report_identity_payload_def identity_fields_signatures)
qed

lemma resigned_signature:
  assumes "ed25519_correct ed" and "report_decode_fixed 32 k = Inr (ed_public ed seed)"
  shows "signed_by env ed (resigned env r hk ok hs os) k
    (hex_encode (ed_sign ed seed (report_unsigned_bytes env (resigned env r hk ok hs os))))"
  using assms by (auto simp: signed_by_def report_decode_fixed_def decode_encode ed25519_correct_def)

lemma resigned_unsigned:
  "hr_host_signature (resigned env r hk ok hs os) = hs (report_unsigned_bytes env (resigned env r hk ok hs os))"
  "hr_operator_signature (resigned env r hk ok hs os) = os (report_unsigned_bytes env (resigned env r hk ok hs os))"
  "hr_host_public_key (resigned env r hk ok hs os) = hk" "hr_operator_public_key (resigned env r hk ok hs os) = ok"
  by (simp_all add: resigned_def Let_def report_unsigned_bytes_def report_signing_payload_def identity_fields_signatures)

lemma resigned_valid:
  assumes "sha256_len env" and "ed25519_correct ed" and "report_validate_shape env ed r = Inr ()"
    and "report_decode_fixed 32 hk = Inr (ed_public ed a)" and "report_decode_fixed 32 ok = Inr (ed_public ed b)"
  shows "host_report_validate env ed (resigned env r hk ok (\<lambda>u. hex_encode (ed_sign ed a u)) (\<lambda>u. hex_encode (ed_sign ed b u))) = Inr () \<longleftrightarrow>
    hk \<noteq> ok"
proof -
  have k: "valid_public_key ed hk" "valid_public_key ed ok" using assms(2,4,5) by (simp_all add: valid_public_key_def ed25519_correct_def)
  have s: "is_ok (report_decode_fixed 64 (hex_encode (ed_sign ed c u)))" for c u
    using assms(2) by (simp add: report_decode_fixed_def decode_encode ed25519_correct_def)
  show ?thesis unfolding report_ok resigned_unsigned
    by (simp only: resigned_shape [OF assms(1,3) k s s] resigned_signature [OF assms(2,4)] resigned_signature [OF assms(2,5)] simp_thms)
qed

text \<open>
  C34.  Keys are compared as texts.  Re-signing a valid report with \<open>sign_with_seeds\<close> succeeds exactly if the two public keys differ.  But a report may spell one and
  the same key in small letters for the host and in capitals for the operator: the decoder reads both, the texts differ, and
  the report validates although host and operator are one key.
\<close>

theorem report_keys_are_texts:
  assumes "sha256_len env" and "ed25519_correct ed" and "ed25519_key_len ed" and "host_report_validate env ed r = Inr ()"
    and "map hex_upper (hex_encode (ed_public ed seed)) \<noteq> hex_encode (ed_public ed seed)"
  shows "(fst (sign_with_seeds env ed r a b) = Inr () \<longleftrightarrow> ed_public ed a \<noteq> ed_public ed b) \<and>
    (\<exists>r'. host_report_validate env ed r' = Inr () \<and> hr_host_id r' = hr_host_id r \<and> hr_operator_id r' = hr_operator_id r \<and>
       hr_scenarios r' = hr_scenarios r \<and> report_decode_fixed 32 (hr_host_public_key r') = Inr (ed_public ed seed) \<and>
       report_decode_fixed 32 (hr_operator_public_key r') = Inr (ed_public ed seed))"
proof
  have shape: "report_validate_shape env ed r = Inr ()" using assms(4) by (simp add: report_ok)
  have key: "report_decode_fixed 32 (hex_encode (ed_public ed s)) = Inr (ed_public ed s)" for s
    using assms(3) by (simp add: report_decode_fixed_def decode_encode ed25519_key_len_def)
  show "fst (sign_with_seeds env ed r a b) = Inr () \<longleftrightarrow> ed_public ed a \<noteq> ed_public ed b"
    using resigned_valid [OF assms(1,2) shape key key] by (simp add: sign_is_resigned Let_def hex_encode_inject)
  have upper: "report_decode_fixed 32 (map hex_upper (hex_encode (ed_public ed seed))) = Inr (ed_public ed seed)"
    using key [of seed] by (simp add: report_decode_fixed_def decode_upper)
  let ?r = "resigned env r (hex_encode (ed_public ed seed)) (map hex_upper (hex_encode (ed_public ed seed)))
    (\<lambda>u. hex_encode (ed_sign ed seed u)) (\<lambda>u. hex_encode (ed_sign ed seed u))"
  have "host_report_validate env ed ?r = Inr ()" using resigned_valid [OF assms(1,2) shape key upper] assms(5) by simp
  moreover have "hr_host_id ?r = hr_host_id r" "hr_operator_id ?r = hr_operator_id r" "hr_scenarios ?r = hr_scenarios r"
    by (simp_all add: resigned_def Let_def)
  ultimately show "\<exists>r'. host_report_validate env ed r' = Inr () \<and> hr_host_id r' = hr_host_id r \<and> hr_operator_id r' = hr_operator_id r \<and>
       hr_scenarios r' = hr_scenarios r \<and> report_decode_fixed 32 (hr_host_public_key r') = Inr (ed_public ed seed) \<and>
       report_decode_fixed 32 (hr_operator_public_key r') = Inr (ed_public ed seed)"
    using key [of seed] upper by (intro exI [of _ ?r]) (simp only: resigned_unsigned(3,4) simp_thms)
qed

section \<open>A packet of two reports\<close>

definition host_env :: crypto where
  "host_env = \<lparr>sha256 = \<lambda>bs. if bs = [1] then replicate 32 17 else replicate 32 0,
     to_vec = \<lambda>j. case j of JObj fs \<Rightarrow> if (''host_id'', JStr ''host-b'') \<in> set fs then [1] else [] | _ \<Rightarrow> []\<rparr>"

lemma host_env_len: "sha256_len host_env"
  by (simp add: sha256_len_def host_env_def)

lemma host_digest_bytes: "digest_bytes host_env bs = (if bs = [1] then digits CHR ''1'' else zero_digest)"
proof -
  have "concat (map hex_byte (replicate n 17)) = replicate (2 * n) CHR ''1''" for n
    by (induction n) (simp_all add: hex_byte_def hex_digit_def)
  from this [of 32] hex_zeros [of 32] show ?thesis
    by (simp add: digest_bytes_def host_env_def zero_digest_def digits_def)
qed

lemma host_digest:
  "digest host_env (JObj fs) = (if (''host_id'', JStr ''host-b'') \<in> set fs then digits CHR ''1'' else zero_digest)"
  by (simp add: digest_def host_digest_bytes canonical_bytes_def) (simp add: host_env_def)

definition demo_scenario :: "scenario_role \<Rightarrow> string \<Rightarrow> scenario_result" where
  "demo_scenario role i =
     (let rl = (if i = ''cross-state-directory-lock-contention'' then role else SR_Winner); (st, rs, rec) = the (expected_scenario i rl);
          ini = (if rec = RC_AlreadyAppliedPreserved \<or> rec = RC_AlternateCheckoutPreserved then digits CHR ''5'' else zero_digest);
          fin = (if rec = RC_NoMutation \<or> rec = RC_BaselineRestored then zero_digest else digits CHR ''5'')
      in \<lparr>sx_scenario_id = i, sx_role = rl, sx_status = st, sx_recovery_status = rs, sx_recovery = rec, sx_initial_checkout_digest = ini,
          sx_final_checkout_digest = fin, sx_evidence_digest = zero_digest\<rparr>)"

lemma scenario_expected:
  assumes "role = SR_Winner \<or> role = SR_Contender"
  shows "\<forall>i\<in>set REQUIRED_SCENARIOS. expected_scenario i (if i = ''cross-state-directory-lock-contention'' then role else SR_Winner) \<noteq> None"
  using assms by (elim disjE) (simp_all add: REQUIRED_SCENARIOS_def expected_scenario_def)

lemma demo_scenario_ok:
  assumes "role = SR_Winner \<or> role = SR_Contender" and "i \<in> set REQUIRED_SCENARIOS"
  shows "scenario_ok zero_digest (demo_scenario role i) i"
proof -
  obtain st rs rec where "expected_scenario i (if i = ''cross-state-directory-lock-contention'' then role else SR_Winner) = Some (st, rs, rec)"
    using scenario_expected [OF assms(1)] assms(2) by (metis not_None_eq prod_cases3)
  then show ?thesis unfolding scenario_ok_def state_is_consistent_def demo_scenario_def Let_def
    by (cases rec) (simp_all add: zero_digits hex_simps)
qed

lemma demo_scenario_id [simp]: "sx_scenario_id (demo_scenario role i) = i"
  by (simp add: demo_scenario_def Let_def split: prod.splits)

definition demo_host_report :: "string \<Rightarrow> string \<Rightarrow> char \<Rightarrow> char \<Rightarrow> scenario_role \<Rightarrow> string \<Rightarrow> host_report" where
  "demo_host_report host operator hk ok role i = \<lparr>hr_version = 3, hr_state_slice = STATE_SLICE, hr_operation = FIXED_OPERATION_IDENTITY,
     hr_process_version = 2, hr_implementation_revision = replicate 40 CHR ''a'', hr_toolchain_digest = zero_digest,
     hr_request_digest = zero_digest, hr_checkout_baseline_digest = zero_digest, hr_baseline_manifest_digest = zero_digest,
     hr_evaluator_executable_digest = zero_digest, hr_maintenance_broker_executable_digest = Some zero_digest,
     hr_replication_runner_executable_digest = Some zero_digest, hr_evaluator_input_digest = zero_digest,
     hr_evaluator_tests_digest = zero_digest, hr_policy_digest = zero_digest, hr_evaluator_public_key = zero_digest,
     hr_evaluator_timeout_ms = 1000, hr_claim_ceiling = HOST_CLAIM_CEILING, hr_host_id = host, hr_operator_id = operator,
     hr_host_public_key = digits hk, hr_operator_public_key = digits ok, hr_scenarios = map (demo_scenario role) REQUIRED_SCENARIOS,
     hr_report_id = i, hr_host_signature = replicate 128 CHR ''0'', hr_operator_signature = replicate 128 CHR ''0''\<rparr>"

lemma demo_decode: "is_ascii_hexdigit c \<Longrightarrow> \<exists>bs. report_decode_fixed n (replicate (2 * n) c) = Inr bs"
  by (simp add: report_decode_fixed_def decode_hex_total list_all_iff)

lemma demo_key: "is_ascii_hexdigit c \<Longrightarrow> (\<And>k. ed_key_ok ed k) \<Longrightarrow> valid_public_key ed (digits c)"
  using demo_decode [of c 32] by (auto simp: valid_public_key_def digits_def)

lemma demo_signed:
  assumes "is_ascii_hexdigit c" and "\<And>k. ed_key_ok ed k" and "\<And>k m s. ed_verify ed k m s"
  shows "signed_by env ed r (digits c) (replicate 128 CHR ''0'')"
  using assms demo_decode [of c 32] demo_decode [of "CHR ''0''" 64] by (auto simp: signed_by_def digits_def hex_simps)

lemma fixed_digests:
  "fixed_input_digest host_env = zero_digest" "fixed_tests_digest host_env = zero_digest" "fixed_policy_digest host_env = zero_digest"
  by (simp_all add: fixed_input_digest_def fixed_tests_digest_def fixed_policy_digest_def host_digest_bytes str_bytes_def
      FIXED_INPUT_IDENTITY_def FIXED_TEST_IDS_def FIXED_POLICY_IDENTITY_def)

lemma demo_report_valid:
  assumes "host_text host" and "host_text operator" and "host \<noteq> operator" and "is_ascii_hexdigit hk" and "is_ascii_hexdigit ok" and "hk \<noteq> ok"
    and "role = SR_Winner \<or> role = SR_Contender" and "i = (if host = ''host-b'' then digits CHR ''1'' else zero_digest)"
    and "\<And>k. ed_key_ok ed k" and "\<And>k m s. ed_verify ed k m s"
  shows "host_report_validate host_env ed (demo_host_report host operator hk ok role i) = Inr ()"
proof -
  let ?r = "demo_host_report host operator hk ok role i"
  have keys: "valid_public_key ed (digits hk)" "valid_public_key ed (digits ok)" "valid_public_key ed zero_digest"
    using assms(4,5,9) by (simp_all add: zero_digits demo_key hex_simps)
  have sig: "is_ok (report_decode_fixed 64 (replicate 128 CHR ''0''))" using demo_decode [of "CHR ''0''" 64] by (auto simp: is_ok_iff hex_simps)
  have "valid_digest i" using assms(8) by (simp add: zero_digits hex_simps)
  then have "\<not> report_shape_bad host_env ed ?r"
    using assms(1-3,6) keys sig unfolding report_shape_bad_def de_Morgan_disj not_not
    by (simp add: demo_host_report_def valid_broker_binding_def valid_runner_binding_def LEGACY_REPLICATION_VERSION_def
        BROKER_IDENTITY_REPLICATION_VERSION_def REPLICATION_VERSION_def PROCESS_VERSION_def valid_revision_def list_all_iff hex_simps fixed_digests)
  moreover have "map sx_scenario_id (hr_scenarios ?r) = REQUIRED_SCENARIOS" by (simp add: demo_host_report_def comp_def)
  moreover have "\<forall>s\<in>set (hr_scenarios ?r). scenario_ok (hr_checkout_baseline_digest ?r) s (sx_scenario_id s)"
    using demo_scenario_ok [OF assms(7)] by (simp add: demo_host_report_def)
  moreover have "hr_report_id ?r = report_expected_id host_env ?r"
    using assms(8) by (simp add: report_expected_id_def report_identity_payload_def host_digest report_identity_fields_def optional_field_def
        demo_host_report_def)
  ultimately have "report_validate_shape host_env ed ?r = Inr ()" by (simp add: shape_ok)
  moreover have "signed_by host_env ed ?r (digits hk) (replicate 128 CHR ''0'')" "signed_by host_env ed ?r (digits ok) (replicate 128 CHR ''0'')"
    using demo_signed [OF assms(4,9,10)] demo_signed [OF assms(5,9,10)] by simp_all
  ultimately show ?thesis unfolding report_ok by (simp add: demo_host_report_def)
qed

definition letter_ed :: ed25519 where
  "letter_ed = \<lparr>ed_public = \<lambda>_. replicate 32 170, ed_sign = \<lambda>_ _. replicate 64 0, ed_key_ok = \<lambda>_. True, ed_verify = \<lambda>_ _ _. True\<rparr>"

lemma letter_ed_ok: "ed25519_correct letter_ed" "ed25519_key_len letter_ed" "ed_key_ok letter_ed k" "ed_verify letter_ed k m s"
  by (simp_all add: ed25519_correct_def ed25519_key_len_def letter_ed_def)

definition report_a :: host_report where
  "report_a = demo_host_report ''host-a'' ''operator-a'' CHR ''1'' CHR ''2'' SR_Winner zero_digest"

definition report_b :: host_report where
  "report_b = demo_host_report ''host-b'' ''operator-b'' CHR ''3'' CHR ''4'' SR_Contender (digits CHR ''1'')"

lemma reports_valid: "host_report_validate host_env letter_ed report_a = Inr ()" "host_report_validate host_env letter_ed report_b = Inr ()"
  unfolding report_a_def report_b_def
  by (rule demo_report_valid; simp add: host_text_def text_within_def ascii_control_def hex_simps letter_ed_ok)+

definition demo_baseline :: "baseline_manifest_entry list" where
  "demo_baseline = [\<lparr>bm_relative_path = ''a.md'', bm_byte_length = 2, bm_content_digest = zero_digest, bm_file_kind = MF_Regular, bm_link_count = 1\<rparr>]"

definition demo_host_packet :: host_packet where
  "demo_host_packet = (bundle_packet host_env demo_process_request demo_baseline zero_digest [report_a, report_b])\<lparr>hp_packet_id := zero_digest\<rparr>"

lemma demo_baseline_valid: "validate_baseline_manifest demo_baseline = Inr ()"
  by (simp add: validate_baseline_manifest_def demo_baseline_def valid_relative_path_def ascii_control_def zero_digits hex_simps checked_add_def)

lemma demo_binding: "validate_request_binding host_env demo_process_request = Inr ()"
  by (simp add: validate_request_binding_def demo_process_request_def host_text_def text_within_def ascii_control_def MAX_PROCESS_BYTES_def
      valid_relative_path_def ends_with_def host_digest_bytes normalize_reference trim_text_def strip_spaces_def zero_digits hex_simps)

lemma contention_role:
  "report_scenario_role report_a ''cross-state-directory-lock-contention'' = Some SR_Winner"
  "report_scenario_role report_b ''cross-state-directory-lock-contention'' = Some SR_Contender"
  by (simp_all add: report_scenario_role_def report_a_def report_b_def demo_host_report_def REQUIRED_SCENARIOS_def)
    (simp_all add: demo_scenario_def expected_scenario_def)

lemma demo_host_packet_valid: "host_packet_validate host_env letter_ed demo_host_packet = Inr ()"
proof -
  have "\<not> packet_shape_bad host_env letter_ed demo_host_packet"
    unfolding packet_shape_bad_def de_Morgan_disj not_not
    by (simp add: demo_host_packet_def bundle_packet_def report_a_def report_b_def demo_host_report_def valid_broker_binding_def
        LEGACY_REPLICATION_VERSION_def BROKER_IDENTITY_REPLICATION_VERSION_def REPLICATION_VERSION_def valid_revision_def list_all_iff
        fixed_digests zero_digits demo_key letter_ed_ok hex_simps demo_process_request_def json_process_request_def host_digest)
  moreover have "hp_packet_id demo_host_packet = packet_expected_id host_env demo_host_packet"
    by (simp add: demo_host_packet_def packet_id_free)
      (simp add: packet_expected_id_def packet_identity_payload_def host_digest packet_head_fields_def packet_evaluator_fields_def optional_field_def
        bundle_packet_def report_a_def demo_host_report_def)
  ultimately have core: "packet_core host_env letter_ed demo_host_packet"
    using demo_binding demo_baseline_valid unfolding packet_core_def
    by (simp add: role_count_def contention_role demo_host_packet_def bundle_packet_def json_manifest_payload_def host_digest)
  have "\<not> report_differs demo_host_packet report_a" "\<not> report_differs demo_host_packet report_b"
    by (simp_all add: report_differs_def demo_host_packet_def bundle_packet_def report_a_def report_b_def demo_host_report_def
        json_process_request_def host_digest demo_process_request_def PROCESS_VERSION_def)
  then have "reports_loop host_env letter_ed demo_host_packet [] [] [] [] [report_a, report_b] = Inr ()"
    unfolding reports_loop_pair using reports_valid by (simp add: report_a_def report_b_def demo_host_report_def zero_digits)
  moreover have "hp_reports demo_host_packet = [report_a, report_b]" by (simp add: demo_host_packet_def bundle_packet_def)
  ultimately show ?thesis using core by (simp add: packet_ok)
qed

theorem host_packet_binds_witness:
  "host_packet_validate host_env letter_ed demo_host_packet = Inr () \<and>
   (\<exists>a b. hp_reports demo_host_packet = [a, b] \<and> map sx_scenario_id (hr_scenarios b) = REQUIRED_SCENARIOS)"
  using demo_host_packet_valid host_packet_binds [OF demo_host_packet_valid] by blast

theorem host_packet_round_trip_witness:
  "from_canonical_bytes host_env letter_ed (\<lambda>_. Inr demo_host_packet) (canonical_bytes host_env (json_host_packet demo_host_packet)) =
     Inr demo_host_packet"
  using host_packet_round_trip [of "\<lambda>_. Inr demo_host_packet" host_env demo_host_packet] demo_host_packet_valid
  by (simp add: host_packet_bytes_def)

theorem packet_id_binds_witness:
  "hp_packet_id demo_host_packet = zero_digest \<and>
   map report_identity_payload (hp_reports demo_host_packet) = map report_identity_payload (hp_reports demo_host_packet)"
  using packet_id_binds [OF demo_host_packet_valid demo_host_packet_valid refl] by (simp add: demo_host_packet_def)

theorem report_keys_are_texts_witness:
  "\<exists>r. host_report_validate host_env letter_ed r = Inr () \<and>
     report_decode_fixed 32 (hr_host_public_key r) = report_decode_fixed 32 (hr_operator_public_key r)"
proof -
  have "hex_encode (ed_public letter_ed []) = CHR ''a'' # CHR ''a'' # hex_encode (replicate 31 170)"
    using replicate_Suc [of 31 "170 :: u8"] by (simp add: letter_ed_def hex_encode_def hex_byte_def hex_digit_def)
  then have "map hex_upper (hex_encode (ed_public letter_ed [])) \<noteq> hex_encode (ed_public letter_ed [])"
    by (simp add: hex_upper_def) (simp add: char_of_def bit_simps Let_def)
  from report_keys_are_texts [OF host_env_len letter_ed_ok(1,2) reports_valid(1) this] show ?thesis by metis
qed

end
